(* ===== verification/Errors.thy ===== *)
theory Errors
  imports Prelude
begin

text \<open>
  The exception classes of the core engines and of the Python built-ins they raise. An
  exception value is its class with the message; \<open>base_class\<close> is the class hierarchy, one
  function per source file, and \<open>is_subclass\<close> decides \<open>isinstance\<close> in an \<open>except\<close> clause.
  An operation that can raise returns a value of type \<open>exc + 'a\<close>.
\<close>

datatype exc_class =
    PyException | PyValueError | PyTypeError | PyKeyError | PyAttributeError | PyRuntimeError | PyIndexError
  | PalmError | EngineError | RegistryError | ConfigurationError
  | StorageError | StorageNotConfiguredError | BackendNotOpenError
  | StoragePermissionError | StorageCorruptionError
  | ContextError | StateError | StateNotConfiguredError | StateValidationError
  | TransformError | TransformApplicationError
  | BehaviorTreeError | InvalidTreeStructureError | NodeExecutionError
  | OrchestrationError | JobNotFoundError | InvalidJobTransitionError | JobExecutionError
  | OrchestratorError | JobAuthorizationError
  | WorkloadError | WorkloadPolicyError | WorkloadPlacementError | WorkloadNotFoundError
  | WorkloadStateError | WorkloadSpecError
  | ResourceError | ResourceInvokeError | ResourceResolutionError
  | StructureError | StructureEngineError | NoDefinitionError
  | RecursionGuardError | AdmissionRefusedError | CapabilityRefusedError
  | SessionPlaneError | SessionNotFoundError | SessionClosedError | InstanceAlreadyAttachedError | InstanceNotOwnedError
  | SessionAttributionError
  | ExecutionError | DefinitionBuildError | DefinitionNotFoundError | InstanceNotFoundError | DesignProposalNotFoundError
  | DesignCommitRejectedError | InstanceMigrationError | InstanceResumeError | InstanceActiveLimitError | PlanValidationError
  | PlanNotFoundError | MutationRejectedError

datatype exc = Exc (exc_cls: exc_class) (exc_msg: string)

type_synonym 'a result = "exc + 'a"

text \<open>Steps that may raise, in the order of the source.\<close>

definition attempt :: "'a result \<Rightarrow> ('a \<Rightarrow> 'b result) \<Rightarrow> 'b result" where
  "attempt x f = (case x of Inl e \<Rightarrow> Inl e | Inr a \<Rightarrow> f a)"

lemma attempt_simps [simp]: "attempt (Inl e) f = Inl e" "attempt (Inr a) f = f a"
  by (simp_all add: attempt_def)

primrec map_result :: "('a \<Rightarrow> 'b result) \<Rightarrow> 'a list \<Rightarrow> 'b list result" where
  "map_result f [] = Inr []"
| "map_result f (x # xs) = attempt (f x) (\<lambda>y. attempt (map_result f xs) (\<lambda>ys. Inr (y # ys)))"

lemma map_result_Inr: "(\<And>x. x \<in> set xs \<Longrightarrow> f x = Inr (g x)) \<Longrightarrow> map_result f xs = Inr (map g xs)"
  by (induction xs) auto

text \<open>The \<open>repr\<close> of a text without quotes in it, and of a list of such texts.\<close>

definition quoted :: "string \<Rightarrow> string" where
  "quoted s = CHR 0x27 # s @ [CHR 0x27]"

definition list_repr :: "string list \<Rightarrow> string" where
  "list_repr xs = ''['' @ (case map quoted xs of [] \<Rightarrow> [] | q # qs \<Rightarrow> q @ concat (map (\<lambda>t. '', '' @ t) qs)) @ '']''"

fun core_bases :: "exc_class \<Rightarrow> exc_class list" where
  "core_bases PalmError = [PyException]"
| "core_bases EngineError = [PalmError]"
| "core_bases RegistryError = [PalmError]"
| "core_bases ConfigurationError = [PalmError]"
| "core_bases StorageError = [EngineError]"
| "core_bases StorageNotConfiguredError = [StorageError]"
| "core_bases BackendNotOpenError = [StorageError]"
| "core_bases StoragePermissionError = [StorageError]"
| "core_bases StorageCorruptionError = [StorageError]"
| "core_bases ContextError = [EngineError]"
| "core_bases StateError = [EngineError]"
| "core_bases StateNotConfiguredError = [StateError]"
| "core_bases StateValidationError = [StateError]"
| "core_bases TransformError = [EngineError]"
| "core_bases TransformApplicationError = [TransformError]"
| "core_bases _ = []"

fun behavior_tree_bases :: "exc_class \<Rightarrow> exc_class list" where
  "behavior_tree_bases BehaviorTreeError = [PalmError]"
| "behavior_tree_bases InvalidTreeStructureError = [BehaviorTreeError]"
| "behavior_tree_bases NodeExecutionError = [BehaviorTreeError]"
| "behavior_tree_bases _ = []"

fun orchestration_bases :: "exc_class \<Rightarrow> exc_class list" where
  "orchestration_bases OrchestrationError = [PalmError]"
| "orchestration_bases JobNotFoundError = [OrchestrationError]"
| "orchestration_bases InvalidJobTransitionError = [OrchestrationError]"
| "orchestration_bases JobExecutionError = [OrchestrationError]"
| "orchestration_bases OrchestratorError = [OrchestrationError]"
| "orchestration_bases JobAuthorizationError = [OrchestrationError]"
| "orchestration_bases _ = []"

fun workload_bases :: "exc_class \<Rightarrow> exc_class list" where
  "workload_bases WorkloadError = [EngineError]"
| "workload_bases WorkloadPolicyError = [WorkloadError]"
| "workload_bases WorkloadPlacementError = [WorkloadError]"
| "workload_bases WorkloadNotFoundError = [WorkloadError]"
| "workload_bases WorkloadStateError = [WorkloadError]"
| "workload_bases WorkloadSpecError = [WorkloadError]"
| "workload_bases _ = []"

fun resource_bases :: "exc_class \<Rightarrow> exc_class list" where
  "resource_bases ResourceError = [EngineError]"
| "resource_bases ResourceInvokeError = [ResourceError]"
| "resource_bases ResourceResolutionError = [ResourceError]"
| "resource_bases _ = []"

fun structure_bases :: "exc_class \<Rightarrow> exc_class list" where
  "structure_bases StructureError = [PalmError]"
| "structure_bases StructureEngineError = [EngineError, StructureError]"
| "structure_bases NoDefinitionError = [StructureEngineError]"
| "structure_bases _ = []"

fun builtin_bases :: "exc_class \<Rightarrow> exc_class list" where
  "builtin_bases PyValueError = [PyException]"
| "builtin_bases PyTypeError = [PyException]"
| "builtin_bases PyKeyError = [PyException]"
| "builtin_bases PyAttributeError = [PyException]"
| "builtin_bases PyRuntimeError = [PyException]"
| "builtin_bases PyIndexError = [PyException]"
| "builtin_bases _ = []"

fun recursion_bases :: "exc_class \<Rightarrow> exc_class list" where
  "recursion_bases RecursionGuardError = [PyRuntimeError]"
| "recursion_bases _ = []"

fun admission_bases :: "exc_class \<Rightarrow> exc_class list" where
  "admission_bases AdmissionRefusedError = [PyRuntimeError]"
| "admission_bases CapabilityRefusedError = [PyRuntimeError]"
| "admission_bases _ = []"

fun session_bases :: "exc_class \<Rightarrow> exc_class list" where
  "session_bases SessionPlaneError = [PyRuntimeError]"
| "session_bases SessionNotFoundError = [SessionPlaneError]"
| "session_bases SessionClosedError = [SessionPlaneError]"
| "session_bases InstanceAlreadyAttachedError = [SessionPlaneError]"
| "session_bases InstanceNotOwnedError = [SessionPlaneError]"
| "session_bases SessionAttributionError = [SessionPlaneError]"
| "session_bases _ = []"

fun execution_bases :: "exc_class \<Rightarrow> exc_class list" where
  "execution_bases ExecutionError = [PyException]"
| "execution_bases DefinitionBuildError = [ExecutionError]"
| "execution_bases DefinitionNotFoundError = [ExecutionError]"
| "execution_bases InstanceNotFoundError = [ExecutionError]"
| "execution_bases DesignProposalNotFoundError = [ExecutionError]"
| "execution_bases DesignCommitRejectedError = [ExecutionError]"
| "execution_bases InstanceMigrationError = [ExecutionError]"
| "execution_bases InstanceResumeError = [ExecutionError]"
| "execution_bases InstanceActiveLimitError = [ExecutionError]"
| "execution_bases PlanValidationError = [ExecutionError]"
| "execution_bases PlanNotFoundError = [ExecutionError]"
| "execution_bases MutationRejectedError = [ExecutionError]"
| "execution_bases _ = []"

definition base_classes :: "exc_class \<Rightarrow> exc_class list" where
  "base_classes c = builtin_bases c @ core_bases c @ behavior_tree_bases c
     @ orchestration_bases c @ workload_bases c @ resource_bases c @ structure_bases c
     @ recursion_bases c @ admission_bases c @ session_bases c @ execution_bases c"

text \<open>
  The depth of a class below \<open>Exception\<close>: every base is strictly higher, so the search for a
  superclass ends.
\<close>

fun class_depth :: "exc_class \<Rightarrow> nat" where
  "class_depth PyException = 0"
| "class_depth c = (if c \<in> {PalmError, PyValueError, PyTypeError, PyKeyError, PyAttributeError, PyRuntimeError, PyIndexError, ExecutionError} then 1
     else if c \<in> {EngineError, RegistryError, ConfigurationError, BehaviorTreeError, OrchestrationError,
        StructureError, RecursionGuardError, AdmissionRefusedError, CapabilityRefusedError, SessionPlaneError} then 2
     else if c \<in> {StorageError, ContextError, StateError, TransformError, InvalidTreeStructureError,
        NodeExecutionError, JobNotFoundError, InvalidJobTransitionError, JobExecutionError,
        OrchestratorError, JobAuthorizationError, WorkloadError, ResourceError, StructureEngineError} then 3
     else 4)"

lemma base_depth: "b \<in> set (base_classes c) \<Longrightarrow> class_depth b < class_depth c"
  by (cases c) (auto simp: base_classes_def)

function is_subclass :: "exc_class \<Rightarrow> exc_class \<Rightarrow> bool" where
  "is_subclass c d = (c = d \<or> list_ex (\<lambda>b. is_subclass b d) (base_classes c))"
  by pat_completeness auto
termination
  by (relation "measure (\<lambda>(c, d). class_depth c)") (auto dest: base_depth)

declare is_subclass.simps [simp del]

text \<open>
  Unfolding the equation under the binder would not end, so evaluation goes through the
  explicit list of ancestors of a class, with the depth as the bound.
\<close>

fun ancestors :: "nat \<Rightarrow> exc_class \<Rightarrow> exc_class list" where
  "ancestors 0 c = [c]"
| "ancestors (Suc n) c = c # concat (map (ancestors n) (base_classes c))"

lemma is_subclass_ancestors: "class_depth c \<le> n \<Longrightarrow> is_subclass c d \<longleftrightarrow> d \<in> set (ancestors n c)"
proof (induction n arbitrary: c)
  case 0
  then have "base_classes c = []" using base_depth [of _ c] by (cases "base_classes c") auto
  then show ?case by (subst is_subclass.simps) auto
next
  case (Suc n)
  have "is_subclass b d \<longleftrightarrow> d \<in> set (ancestors n b)" if "b \<in> set (base_classes c)" for b
    using Suc base_depth [OF that] by (intro Suc.IH) simp
  then show ?case by (subst is_subclass.simps) (auto simp: list_ex_iff)
qed

lemma class_depth_le: "class_depth c \<le> 4"
  by (cases c) simp_all

lemmas is_subclass_eval = is_subclass_ancestors [OF class_depth_le] eval_nat_numeral base_classes_def

abbreviation isinstance :: "exc \<Rightarrow> exc_class \<Rightarrow> bool" where
  "isinstance e c \<equiv> is_subclass (exc_cls e) c"

lemma is_subclass_refl [simp]: "is_subclass c c"
  by (subst is_subclass.simps) simp

lemma is_subclass_base: "b \<in> set (base_classes c) \<Longrightarrow> is_subclass b d \<Longrightarrow> is_subclass c d"
  by (subst is_subclass.simps) (auto simp: list_ex_iff)

lemma is_subclass_trans: "is_subclass b c \<Longrightarrow> is_subclass c d \<Longrightarrow> is_subclass b d"
proof (induction b c rule: is_subclass.induct)
  case (1 b c)
  show ?case
  proof (cases "b = c")
    case False
    with 1(2) obtain a where "a \<in> set (base_classes b)" "is_subclass a c"
      by (subst (asm) is_subclass.simps) (auto simp: list_ex_iff)
    with 1 show ?thesis by (auto intro: is_subclass_base)
  qed (use 1 in simp)
qed

lemma is_subclass_depth: "is_subclass c d \<Longrightarrow> c \<noteq> d \<Longrightarrow> class_depth d < class_depth c"
proof (induction c d rule: is_subclass.induct)
  case (1 c d)
  then obtain b where b: "b \<in> set (base_classes c)" "is_subclass b d"
    by (subst (asm) is_subclass.simps) (auto simp: list_ex_iff)
  then have "class_depth b < class_depth c" by (intro base_depth)
  then show ?case using 1(1) [OF b] by (cases "b = d") auto
qed

lemma is_subclass_antisym: "is_subclass c d \<Longrightarrow> is_subclass d c \<Longrightarrow> c = d"
  using is_subclass_depth [of c d] is_subclass_depth [of d c] by (cases "c = d") auto

lemma all_exceptions: "is_subclass c PyException"
  by (cases c) (simp_all add: is_subclass_eval)

text \<open>
  The handlers of the engines rely on which classes lie below which: a workload or storage
  failure is an engine failure, a tree failure is not, a permission denial of a drive hook is
  an orchestration failure.
\<close>

lemma engine_error_family:
  "is_subclass c EngineError \<longleftrightarrow>
    c \<in> {EngineError, StorageError, StorageNotConfiguredError, BackendNotOpenError,
      StoragePermissionError, StorageCorruptionError, ContextError, StateError,
      StateNotConfiguredError, StateValidationError, TransformError, TransformApplicationError,
      WorkloadError, WorkloadPolicyError, WorkloadPlacementError, WorkloadNotFoundError,
      WorkloadStateError, WorkloadSpecError, ResourceError, ResourceInvokeError,
      ResourceResolutionError, StructureEngineError, NoDefinitionError}"
  by (cases c) (simp_all add: is_subclass_eval)

lemma behavior_tree_error_family:
  "is_subclass c BehaviorTreeError \<longleftrightarrow>
    c \<in> {BehaviorTreeError, InvalidTreeStructureError, NodeExecutionError}"
  by (cases c) (simp_all add: is_subclass_eval)

lemma state_error_family:
  "is_subclass c StateError \<longleftrightarrow> c \<in> {StateError, StateNotConfiguredError, StateValidationError}"
  by (cases c) (simp_all add: is_subclass_eval)

lemma workload_error_family:
  "is_subclass c WorkloadError \<longleftrightarrow>
    c \<in> {WorkloadError, WorkloadPolicyError, WorkloadPlacementError, WorkloadNotFoundError,
      WorkloadStateError, WorkloadSpecError}"
  by (cases c) (simp_all add: is_subclass_eval)

end
