(* ===== verification/PyValue.thy ===== *)
theory PyValue
  imports Complex_Main Errors
begin

text \<open>
  The dynamically typed values (\<open>Any\<close> in the annotations of the source): the JSON values that
  flow through blackboards, payloads and schemas, and opaque objects known by their identity.
  A float is a rational number, which is exact for every finite float; comparisons between
  integers, floats and booleans are those of Python. A dictionary has string keys and keeps
  its insertion order. Strings are lists of characters, one per code point below 256.
\<close>

datatype pyval =
    VNone
  | VBool bool
  | VInt int
  | VFloat rat
  | VStr string
  | VList "pyval list"
  | VDict "(string \<times> pyval) list"
  | VObj nat

type_synonym pydict = "(string, pyval) dict"

fun truthy :: "pyval \<Rightarrow> bool" where
  "truthy VNone = False"
| "truthy (VBool b) = b"
| "truthy (VInt n) = (n \<noteq> 0)"
| "truthy (VFloat q) = (q \<noteq> 0)"
| "truthy (VStr s) = (s \<noteq> [])"
| "truthy (VList xs) = (xs \<noteq> [])"
| "truthy (VDict d) = (d \<noteq> [])"
| "truthy (VObj _) = True"

fun type_name :: "pyval \<Rightarrow> string" where
  "type_name VNone = ''NoneType''"
| "type_name (VBool _) = ''bool''"
| "type_name (VInt _) = ''int''"
| "type_name (VFloat _) = ''float''"
| "type_name (VStr _) = ''str''"
| "type_name (VList _) = ''list''"
| "type_name (VDict _) = ''dict''"
| "type_name (VObj _) = ''object''"

text \<open>\<open>bool\<close> is a subclass of \<open>int\<close>: a boolean compares as 0 or 1.\<close>

fun as_number :: "pyval \<Rightarrow> rat option" where
  "as_number (VBool b) = Some (if b then 1 else 0)"
| "as_number (VInt n) = Some (of_int n)"
| "as_number (VFloat q) = Some q"
| "as_number _ = None"

text \<open>The operator \<open>==\<close>: numbers by value across their types, dictionaries without regard to order.\<close>

function py_eq :: "pyval \<Rightarrow> pyval \<Rightarrow> bool" where
  "py_eq (VStr s) b = (b = VStr s)"
| "py_eq VNone b = (b = VNone)"
| "py_eq (VObj n) b = (b = VObj n)"
| "py_eq (VList xs) b = (case b of VList ys \<Rightarrow>
     length xs = length ys \<and> (\<forall>(x, y) \<in> set (zip xs ys). py_eq x y) | _ \<Rightarrow> False)"
| "py_eq (VDict d) b = (case b of VDict e \<Rightarrow>
     length d = length e \<and> (\<forall>(k, x) \<in> set d. case map_of e k of Some y \<Rightarrow> py_eq x y | None \<Rightarrow> False)
     | _ \<Rightarrow> False)"
| "py_eq (VBool p) b = (as_number b = Some (if p then 1 else 0))"
| "py_eq (VInt n) b = (as_number b = Some (of_int n))"
| "py_eq (VFloat q) b = (as_number b = Some q)"
  by pat_completeness auto

lemma size_list_mem: "x \<in> set xs \<Longrightarrow> size x < Suc (size_list size xs)"
  by (induction xs) auto

lemma size_zip_mem: "(x, y) \<in> set (zip xs ys) \<Longrightarrow> size x < Suc (size_list size xs)"
  by (rule size_list_mem) (rule set_zip_leftD)

lemma size_dict_mem:
  "(k, x) \<in> set d \<Longrightarrow> size (x :: pyval) < Suc (size_list (size_prod f size) d)"
  by (induction d) auto

termination py_eq
  by (relation "measure (\<lambda>(a, b). size a)")
    (auto dest: size_zip_mem size_dict_mem)

text \<open>\<open>x in xs\<close> on a list: some element is equal to \<open>x\<close> (identity implies equality here).\<close>

definition py_in :: "pyval \<Rightarrow> pyval list \<Rightarrow> bool" where
  "py_in x xs = list_ex (py_eq x) xs"

text \<open>Decimal notation of integers.\<close>

definition digit_char :: "nat \<Rightarrow> char" where
  "digit_char n = char_of (48 + n)"

fun show_nat :: "nat \<Rightarrow> string" where
  "show_nat n = (if n < 10 then [digit_char n] else show_nat (n div 10) @ [digit_char (n mod 10)])"

declare show_nat.simps [simp del]

definition show_int :: "int \<Rightarrow> string" where
  "show_int n = (if n < 0 then CHR 0x2D # show_nat (nat (- n)) else show_nat (nat n))"

text \<open>
  \<open>str(v)\<close>. The text of floats, containers and objects is a parameter: it only reaches log and
  error messages.
\<close>

fun py_str :: "(pyval \<Rightarrow> string) \<Rightarrow> pyval \<Rightarrow> string" where
  "py_str r VNone = ''None''"
| "py_str r (VBool b) = (if b then ''True'' else ''False'')"
| "py_str r (VInt n) = show_int n"
| "py_str r (VStr s) = s"
| "py_str r v = r v"

text \<open>The operator \<open><\<close> where the left side is known to be a number.\<close>

definition num_less :: "pyval \<Rightarrow> pyval \<Rightarrow> bool result" where
  "num_less a b = (case (as_number a, as_number b) of
     (Some x, Some y) \<Rightarrow> Inr (x < y)
   | _ \<Rightarrow> Inl (Exc PyTypeError ''unorderable''))"

text \<open>\<open>v or d\<close> and the helper \<open>_opt_str\<close> shared by the workload records.\<close>

definition py_or :: "pyval \<Rightarrow> pyval \<Rightarrow> pyval" where
  "py_or v d = (if truthy v then v else d)"

definition get_default :: "pydict \<Rightarrow> string \<Rightarrow> pyval \<Rightarrow> pyval" where
  "get_default d k v = (case map_of d k of Some x \<Rightarrow> x | None \<Rightarrow> v)"

abbreviation py_get :: "pydict \<Rightarrow> string \<Rightarrow> pyval" where
  "py_get d k \<equiv> get_default d k VNone"

definition opt_str_val :: "string option \<Rightarrow> pyval" where
  "opt_str_val s = (case s of None \<Rightarrow> VNone | Some t \<Rightarrow> VStr t)"

text \<open>Iterating a value: the elements of a list, the characters of a text, the keys of a dictionary.\<close>

definition py_iter :: "pyval \<Rightarrow> pyval list result" where
  "py_iter v = (case v of
     VList xs \<Rightarrow> Inr xs
   | VStr s \<Rightarrow> Inr (map (\<lambda>c. VStr [c]) s)
   | VDict d \<Rightarrow> Inr (map (VStr \<circ> fst) d)
   | _ \<Rightarrow> Inl (Exc PyTypeError (quoted (type_name v) @ '' object is not iterable'')))"

text \<open>\<open>dict(v)\<close>; a sequence of pairs is outside of the model and is a TypeError here.\<close>

definition py_dict :: "pyval \<Rightarrow> pydict result" where
  "py_dict v = (case v of
     VDict d \<Rightarrow> Inr d
   | VList [] \<Rightarrow> Inr []
   | VStr [] \<Rightarrow> Inr []
   | _ \<Rightarrow> Inl (Exc PyTypeError (quoted (type_name v) @ '' object is not a mapping'')))"

lemma opt_str_val_simps [simp]: "opt_str_val None = VNone" "opt_str_val (Some t) = VStr t"
  by (simp_all add: opt_str_val_def)

lemma py_or_simps [simp]:
  "py_or VNone d = d" "s \<noteq> [] \<Longrightarrow> py_or (VStr s) d = VStr s" "py_or (VStr []) d = d"
  by (simp_all add: py_or_def)

lemma get_default_Nil [simp]: "get_default [] k v = v"
  by (simp add: get_default_def)

lemma get_default_Cons [simp]:
  "get_default ((k', x) # d) k v = (if k = k' then x else get_default d k v)"
  by (simp add: get_default_def)

lemma get_default_set [simp]:
  "get_default (AList.update k' x d) k v = (if k = k' then x else get_default d k v)"
  by (simp add: get_default_def)

lemma get_default_append [simp]:
  "get_default (d @ e) k v = (if dict_has d k then get_default d k v else get_default e k v)"
  by (simp add: get_default_def map_add_def dict_has_def split: option.splits)

subsection \<open>Equality is reflexive on well-formed values\<close>

fun val_wf :: "pyval \<Rightarrow> bool" where
  "val_wf (VList xs) = list_all val_wf xs"
| "val_wf (VDict d) = (dict_wf d \<and> list_all (\<lambda>(k, v). val_wf v) d)"
| "val_wf _ = True"

lemma py_eq_refl: "val_wf v \<Longrightarrow> py_eq v v"
proof (induction v rule: val_wf.induct)
  case (1 xs)
  then show ?case by (auto simp: list_all_iff set_zip)
next
  case (2 d)
  have "case map_of d k of Some y \<Rightarrow> py_eq x y | None \<Rightarrow> False" if "(k, x) \<in> set d" for k x
    using 2 that by (auto simp: list_all_iff dict_wf_def)
  then show ?case by auto
qed simp_all

lemma py_in_self: "val_wf v \<Longrightarrow> v \<in> set xs \<Longrightarrow> py_in v xs"
  unfolding py_in_def list_ex_iff by (blast intro: py_eq_refl)

text \<open>\<open>True == 1 == 1.0\<close>, while the type checks of the schemas tell them apart.\<close>

lemma py_eq_bool_int: "py_eq (VBool True) (VInt 1) \<and> py_eq (VInt 1) (VFloat 1)"
  by simp

end
