(* ===== verification/Registry.thy ===== *)
theory Registry
  imports PyValue
begin

text \<open>
  The dynamic registry of \<open>palm/core/registry.py\<close> (patterns, providers, storage backends): a
  name to implementation map that can be frozen. Implementations are compared by identity, so
  their type is a parameter whose equality is object identity. Each method runs under the
  registry's lock, so a method is one step. The engine life cycle of \<open>palm/core/base.py\<close> is
  modelled here as well, over the start-up and tear-down hooks of the concrete engine.
\<close>

subsection \<open>Registry\<close>

record 'a registry =
  label :: string
  entries :: "(string, 'a) dict"
  frozen :: bool

definition new_registry :: "string \<Rightarrow> 'a registry" where
  "new_registry l = \<lparr>label = l, entries = [], frozen = False\<rparr>"

definition register :: "string \<Rightarrow> 'a \<Rightarrow> 'a registry \<Rightarrow> 'a registry result" where
  "register name impl r =
     (if dict_get (entries r) name = Some impl then Inr r
      else if frozen r
      then Inl (Exc RegistryError (label r @ '' registry is fixed; refused '' @ quoted name))
      else Inr (r\<lparr>entries := dict_set name impl (entries r)\<rparr>))"

definition names :: "'a registry \<Rightarrow> string list" where
  "names r = sort (dict_keys (entries r))"

definition lookup :: "'a registry \<Rightarrow> string \<Rightarrow> 'a result" where
  "lookup r name = (case dict_get (entries r) name of
     Some impl \<Rightarrow> Inr impl
   | None \<Rightarrow> Inl (Exc RegistryError (''Unknown '' @ label r @ '' '' @ quoted name @ ''. Available: ''
       @ concat (map (\<lambda>n. quoted n @ '', '') (names r)))))"

definition drop_name :: "string \<Rightarrow> 'a registry \<Rightarrow> 'a registry result" where
  "drop_name name r =
     (if frozen r
      then Inl (Exc RegistryError (label r @ '' registry is fixed; refused drop '' @ quoted name))
      else Inr (r\<lparr>entries := dict_pop name (entries r)\<rparr>))"

definition clear :: "'a registry \<Rightarrow> 'a registry result" where
  "clear r = (if frozen r then Inl (Exc RegistryError (label r @ '' registry is fixed''))
     else Inr (r\<lparr>entries := []\<rparr>))"

definition freeze :: "'a registry \<Rightarrow> 'a registry" where
  "freeze r = r\<lparr>frozen := True\<rparr>"

lemmas registry_defs = register_def lookup_def drop_name_def clear_def freeze_def names_def

text \<open>The operations as events, and a run of them: a refused call leaves the registry as it is.\<close>

datatype 'a registry_op = Register string 'a | Drop string | Clear | Freeze

fun registry_step :: "'a registry_op \<Rightarrow> 'a registry \<Rightarrow> 'a registry" where
  "registry_step (Register n i) r = (case register n i r of Inr r' \<Rightarrow> r' | Inl _ \<Rightarrow> r)"
| "registry_step (Drop n) r = (case drop_name n r of Inr r' \<Rightarrow> r' | Inl _ \<Rightarrow> r)"
| "registry_step Clear r = (case clear r of Inr r' \<Rightarrow> r' | Inl _ \<Rightarrow> r)"
| "registry_step Freeze r = freeze r"

definition registry_wf :: "'a registry \<Rightarrow> bool" where
  "registry_wf r = dict_wf (entries r)"

lemma registry_wf_new [simp]: "registry_wf (new_registry l)"
  by (simp add: registry_wf_def new_registry_def)

lemma registry_step_wf: "registry_wf r \<Longrightarrow> registry_wf (registry_step op r)"
  by (cases op) (auto simp: registry_defs registry_wf_def)

lemma registry_step_frozen: "frozen r \<Longrightarrow> registry_step op r = r"
  by (cases op) (auto simp: registry_defs)

lemma registry_run_frozen: "frozen r \<Longrightarrow> fold registry_step ops r = r"
  by (induction ops) (auto simp: registry_step_frozen)

lemma registry_run_wf: "registry_wf r \<Longrightarrow> registry_wf (fold registry_step ops r)"
  by (induction ops arbitrary: r) (auto simp: registry_step_wf)

lemma names_correct: "registry_wf r \<Longrightarrow> sorted (names r) \<and> distinct (names r) \<and>
    set (names r) = {n. \<exists>i. lookup r n = Inr i}"
  by (force simp: names_def registry_wf_def dict_wf_def lookup_def map_of_eq_None_iff
      split: option.splits)

text \<open>
  The contract that the engines rely on: what a lookup returns after an insertion, and that the
  other names are untouched.
\<close>

locale name_table =
  fixes find :: "'t \<Rightarrow> string \<Rightarrow> 'a option"
    and insert :: "string \<Rightarrow> 'a \<Rightarrow> 't \<Rightarrow> 't option"
  assumes find_insert: "insert n i t = Some t' \<Longrightarrow> find t' m = (if m = n then Some i else find t m)"
    and insert_same: "find t n = Some i \<Longrightarrow> insert n i t = Some t"
begin

lemma find_after: "insert n i t = Some t' \<Longrightarrow> find t' n = Some i"
  by (simp add: find_insert)

lemma insert_idem: "insert n i t = Some t' \<Longrightarrow> insert n i t' = Some t'"
  by (simp add: insert_same find_insert)

lemma insert_commute:
  assumes "insert n i t = Some t1" "insert m j t1 = Some t2" "insert m j t = Some t3"
    "insert n i t3 = Some t4" "n \<noteq> m"
  shows "find t2 k = find t4 k"
  using assms by (simp add: find_insert)

end

definition find_entry :: "'a registry \<Rightarrow> string \<Rightarrow> 'a option" where
  "find_entry r n = (case lookup r n of Inr i \<Rightarrow> Some i | Inl _ \<Rightarrow> None)"

definition insert_entry :: "string \<Rightarrow> 'a \<Rightarrow> 'a registry \<Rightarrow> 'a registry option" where
  "insert_entry n i r = (case register n i r of Inr r' \<Rightarrow> Some r' | Inl _ \<Rightarrow> None)"

interpretation reg: name_table find_entry insert_entry
  by unfold_locales
    (auto simp: find_entry_def insert_entry_def registry_defs split: option.splits if_splits)

text \<open>
  A registry that starts empty, runs any operations, is frozen and runs any more operations
  answers every later lookup as it did at the moment of the freeze, and refuses every
  registration of a new pair with \<open>RegistryError\<close>.
\<close>

theorem frozen_registry_is_fixed:
  fixes l :: string and before after :: "'a registry_op list"
  defines "r \<equiv> freeze (fold registry_step before (new_registry l))"
  shows "lookup (fold registry_step after r) n = lookup r n
    \<and> (find_entry r n \<noteq> Some i \<longrightarrow>
        (\<exists>msg. register n i (fold registry_step after r) = Inl (Exc RegistryError msg)))"
proof -
  have fr: "frozen r" by (simp add: r_def freeze_def)
  then have run: "fold registry_step after r = r" by (rule registry_run_frozen)
  show ?thesis
    using fr by (auto simp: run find_entry_def lookup_def register_def split: option.splits)
qed

theorem frozen_registry_is_fixed_witness:
  "\<exists>msg. register ''dag'' (2::nat) (fold registry_step [Clear]
      (freeze (fold registry_step [Register ''dag'' (1::nat)] (new_registry ''pattern''))))
    = Inl (Exc RegistryError msg)"
  using frozen_registry_is_fixed [where l = "''pattern''" and before = "[Register ''dag'' (1::nat)]"
      and after = "[Clear]" and n = "''dag''" and i = 2]
  by (simp add: registry_defs new_registry_def find_entry_def)

text \<open>
  A successful registration is found again and changes no other name; \<open>names\<close> lists exactly
  the names a lookup finds, sorted and without duplicates, in every registry the operations build.
\<close>

theorem register_lookup_names:
  assumes "register n i (fold registry_step ops (new_registry l)) = Inr r"
  shows "lookup r n = Inr i
    \<and> (\<forall>m. m \<noteq> n \<longrightarrow> find_entry r m = find_entry (fold registry_step ops (new_registry l)) m)
    \<and> sorted (names r) \<and> distinct (names r) \<and> set (names r) = {m. \<exists>j. lookup r m = Inr j}"
proof -
  let ?s = "fold registry_step ops (new_registry l)"
  have ins: "insert_entry n i ?s = Some r" using assms by (simp add: insert_entry_def)
  from reg.find_after [OF this] have "lookup r n = Inr i"
    by (auto simp: find_entry_def split: sum.splits)
  moreover have "registry_wf (registry_step (Register n i) ?s)"
    by (intro registry_step_wf registry_run_wf) simp
  then have "registry_wf r" using assms by simp
  ultimately show ?thesis using reg.find_insert [OF ins] names_correct by auto
qed

theorem register_lookup_names_witness:
  "lookup (\<lparr>label = ''pattern'', entries = [(''wizard'', 7 :: nat)], frozen = False\<rparr>) ''wizard'' = Inr 7"
  using register_lookup_names [where ops = "[Clear]" and l = "''pattern''" and n = "''wizard''"
      and i = "7 :: nat" and r = "\<lparr>label = ''pattern'', entries = [(''wizard'', 7)], frozen = False\<rparr>"]
  by (simp add: registry_defs new_registry_def)

subsection \<open>Engine life cycle\<close>

text \<open>
  \<open>BasePalmEngine\<close>: the flag is set only after the start-up hook returned, and cleared only after
  the tear-down hook returned; a second call of either is a no-op.
\<close>

record 'e engine_base =
  initialized :: bool
  inner :: 'e

definition initialize :: "('e \<Rightarrow> 'e result) \<Rightarrow> 'e engine_base \<Rightarrow> 'e engine_base result" where
  "initialize do_init e =
     (if initialized e then Inr e
      else case do_init (inner e) of
        Inl x \<Rightarrow> Inl x
      | Inr i \<Rightarrow> Inr (e\<lparr>inner := i, initialized := True\<rparr>))"

definition shutdown :: "('e \<Rightarrow> 'e result) \<Rightarrow> 'e engine_base \<Rightarrow> 'e engine_base result" where
  "shutdown do_shut e =
     (if \<not> initialized e then Inr e
      else case do_shut (inner e) of
        Inl x \<Rightarrow> Inl x
      | Inr i \<Rightarrow> Inr (e\<lparr>inner := i, initialized := False\<rparr>))"

text \<open>
  Initialising and shutting down are idempotent: a second call with any hook changes nothing,
  and the flag tells which of the two succeeded last.
\<close>

theorem lifecycle_idempotent:
  "(initialize f e = Inr e' \<longrightarrow> initialized e' \<and> initialize g e' = Inr e')
   \<and> (shutdown f e = Inr e' \<longrightarrow> \<not> initialized e' \<and> shutdown g e' = Inr e')"
  by (auto simp: initialize_def shutdown_def split: if_splits sum.splits)

theorem lifecycle_idempotent_witness:
  "initialize (\<lambda>_. Inl (Exc PyException [])) \<lparr>initialized = True, inner = (5::nat)\<rparr>
     = Inr \<lparr>initialized = True, inner = 5\<rparr>"
  using lifecycle_idempotent [of "\<lambda>n. Inr (n + 1)" "\<lparr>initialized = False, inner = 4\<rparr>"
      "\<lparr>initialized = True, inner = (5::nat)\<rparr>" "\<lambda>_. Inl (Exc PyException [])"]
  by (simp add: initialize_def)

end
