(* ===== verification/Storage.thy ===== *)
theory Storage
  imports Registry "HOL-Library.Sublist"
begin

text \<open>
  Storage: the backend contract (\<open>palm/core/storage/base_backend.py\<close>), the memory backend and the
  tiered backend of \<open>drivers/storages\<close>, and the storage engine that selects and guards one active
  backend. A backend is a value with its operations in a record; the tiered backend is generic in
  the operations of its cold backend. Each locked region is one step.
\<close>

subsection \<open>The contract of a backend\<close>

record 'b backend_ops =
  bo_name :: "'b \<Rightarrow> string"
  bo_is_open :: "'b \<Rightarrow> bool"
  bo_open :: "'b \<Rightarrow> unit result \<times> 'b"
  bo_get :: "string \<Rightarrow> 'b \<Rightarrow> pyval result \<times> 'b"
  bo_set :: "string \<Rightarrow> pyval \<Rightarrow> 'b \<Rightarrow> unit result \<times> 'b"
  bo_delete :: "string \<Rightarrow> 'b \<Rightarrow> unit result \<times> 'b"
  bo_close :: "'b \<Rightarrow> unit result \<times> 'b"
  bo_keys :: "string \<Rightarrow> 'b \<Rightarrow> string list result \<times> 'b"

definition not_open :: "string \<Rightarrow> exc" where
  "not_open nm = Exc BackendNotOpenError (''Storage backend '' @ quoted nm @ '' is not open. Call open() first.'')"

definition sorted_with_prefix :: "string \<Rightarrow> string list \<Rightarrow> string list" where
  "sorted_with_prefix p ks = sort (filter (prefix p) ks)"

subsection \<open>The memory backend\<close>

record memory_backend =
  mb_name :: string
  mb_open :: bool
  mb_data :: pydict

definition new_memory :: "string \<Rightarrow> memory_backend" where
  "new_memory nm = \<lparr>mb_name = nm, mb_open = False, mb_data = []\<rparr>"

definition mem_open :: "memory_backend \<Rightarrow> unit result \<times> memory_backend" where
  "mem_open b = (Inr (), if mb_open b then b else b\<lparr>mb_open := True\<rparr>)"

definition mem_get :: "string \<Rightarrow> memory_backend \<Rightarrow> pyval result \<times> memory_backend" where
  "mem_get k b = (if \<not> mb_open b then (Inl (not_open (mb_name b)), b) else (Inr (py_get (mb_data b) k), b))"

definition mem_set :: "string \<Rightarrow> pyval \<Rightarrow> memory_backend \<Rightarrow> unit result \<times> memory_backend" where
  "mem_set k v b = (if \<not> mb_open b then (Inl (not_open (mb_name b)), b)
     else (Inr (), b\<lparr>mb_data := dict_set k v (mb_data b)\<rparr>))"

definition mem_delete :: "string \<Rightarrow> memory_backend \<Rightarrow> unit result \<times> memory_backend" where
  "mem_delete k b = (if \<not> mb_open b then (Inl (not_open (mb_name b)), b)
     else (Inr (), b\<lparr>mb_data := dict_pop k (mb_data b)\<rparr>))"

definition mem_close :: "memory_backend \<Rightarrow> unit result \<times> memory_backend" where
  "mem_close b = (Inr (), if \<not> mb_open b then b else b\<lparr>mb_data := [], mb_open := False\<rparr>)"

definition mem_keys :: "string \<Rightarrow> memory_backend \<Rightarrow> string list result \<times> memory_backend" where
  "mem_keys p b = (Inr (sorted_with_prefix p (dict_keys (mb_data b))), b)"

definition memory_ops :: "memory_backend backend_ops" where
  "memory_ops = \<lparr>bo_name = mb_name, bo_is_open = mb_open, bo_open = mem_open, bo_get = mem_get, bo_set = mem_set,
     bo_delete = mem_delete, bo_close = mem_close, bo_keys = mem_keys\<rparr>"

subsection \<open>The tiered backend\<close>

record 'c tiered =
  td_name :: string
  td_open :: bool
  td_cold :: 'c
  td_max :: int
  td_hot :: pydict
  td_lru :: "string list"

definition new_tiered :: "string \<Rightarrow> 'c \<Rightarrow> int \<Rightarrow> 'c tiered result" where
  "new_tiered nm cold mx = (if mx < 1 then Inl (Exc PyValueError ''hot_max_keys must be >= 1'')
     else Inr \<lparr>td_name = nm, td_open = False, td_cold = cold, td_max = mx, td_hot = [], td_lru = []\<rparr>)"

definition td_do_open :: "'c backend_ops \<Rightarrow> 'c tiered \<Rightarrow> unit result \<times> 'c tiered" where
  "td_do_open ops t =
     (if td_open t then (Inr (), t)
      else case (if bo_is_open ops (td_cold t) then (Inr (), td_cold t) else bo_open ops (td_cold t)) of
        (Inl x, c) \<Rightarrow> (Inl x, t\<lparr>td_cold := c\<rparr>)
      | (Inr _, c) \<Rightarrow> (Inr (), t\<lparr>td_cold := c, td_open := True\<rparr>))"

definition td_touch :: "string \<Rightarrow> 'c tiered \<Rightarrow> 'c tiered" where
  "td_touch k t = t\<lparr>td_lru := removeAll k (td_lru t) @ [k]\<rparr>"

function td_evict :: "'c tiered \<Rightarrow> 'c tiered" where
  "td_evict t = (case td_lru t of
     [] \<Rightarrow> t
   | k # ks \<Rightarrow> if int (length (td_lru t)) > td_max t then td_evict (t\<lparr>td_lru := ks, td_hot := dict_pop k (td_hot t)\<rparr>) else t)"
  by pat_completeness auto
termination td_evict
  by (relation "measure (\<lambda>t. length (td_lru t))") auto

declare td_evict.simps [simp del]

definition td_remember :: "string \<Rightarrow> pyval \<Rightarrow> 'c tiered \<Rightarrow> 'c tiered" where
  "td_remember k v t = td_evict (td_touch k (t\<lparr>td_hot := dict_set k v (td_hot t)\<rparr>))"

text \<open>
  A read is three steps: the probe of the hot map under the lock, the read of the cold backend
  outside of it, and the locked note of what was read.
\<close>

definition td_probe :: "string \<Rightarrow> 'c tiered \<Rightarrow> pyval option \<times> 'c tiered" where
  "td_probe k t = (case dict_get (td_hot t) k of Some v \<Rightarrow> (Some v, td_touch k t) | None \<Rightarrow> (None, t))"

definition td_cold_get :: "'c backend_ops \<Rightarrow> string \<Rightarrow> 'c tiered \<Rightarrow> pyval result \<times> 'c tiered" where
  "td_cold_get ops k t = (case bo_get ops k (td_cold t) of (r, c) \<Rightarrow> (r, t\<lparr>td_cold := c\<rparr>))"

definition td_note :: "string \<Rightarrow> pyval \<Rightarrow> 'c tiered \<Rightarrow> pyval \<times> 'c tiered" where
  "td_note k v t = (if v = VNone then (VNone, t) else (v, td_remember k v t))"

definition td_get :: "'c backend_ops \<Rightarrow> string \<Rightarrow> 'c tiered \<Rightarrow> pyval result \<times> 'c tiered" where
  "td_get ops k t =
     (if \<not> td_open t then (Inl (not_open (td_name t)), t)
      else case td_probe k t of
        (Some v, t1) \<Rightarrow> (Inr v, t1)
      | (None, t1) \<Rightarrow> (case td_cold_get ops k t1 of
          (Inl x, t2) \<Rightarrow> (Inl x, t2)
        | (Inr v, t2) \<Rightarrow> (case td_note k v t2 of (w, t3) \<Rightarrow> (Inr w, t3))))"

definition td_set :: "'c backend_ops \<Rightarrow> string \<Rightarrow> pyval \<Rightarrow> 'c tiered \<Rightarrow> unit result \<times> 'c tiered" where
  "td_set ops k v t =
     (if \<not> td_open t then (Inl (not_open (td_name t)), t)
      else case bo_set ops k v (td_cold t) of
        (Inl x, c) \<Rightarrow> (Inl x, t\<lparr>td_cold := c\<rparr>)
      | (Inr _, c) \<Rightarrow> (Inr (), td_remember k v (t\<lparr>td_cold := c\<rparr>)))"

definition td_forget :: "string \<Rightarrow> 'c tiered \<Rightarrow> 'c tiered" where
  "td_forget k t = t\<lparr>td_hot := dict_pop k (td_hot t), td_lru := removeAll k (td_lru t)\<rparr>"

definition td_delete :: "'c backend_ops \<Rightarrow> string \<Rightarrow> 'c tiered \<Rightarrow> unit result \<times> 'c tiered" where
  "td_delete ops k t =
     (if \<not> td_open t then (Inl (not_open (td_name t)), t)
      else case bo_delete ops k (td_cold (td_forget k t)) of (r, c) \<Rightarrow> (r, (td_forget k t)\<lparr>td_cold := c\<rparr>))"

definition td_close :: "'c tiered \<Rightarrow> unit result \<times> 'c tiered" where
  "td_close t = (Inr (), if \<not> td_open t then t else t\<lparr>td_hot := [], td_lru := [], td_open := False\<rparr>)"

definition td_keys :: "'c backend_ops \<Rightarrow> string \<Rightarrow> 'c tiered \<Rightarrow> string list result \<times> 'c tiered" where
  "td_keys ops p t =
     (if \<not> td_open t then (Inl (not_open (td_name t)), t)
      else case bo_keys ops p (td_cold t) of
        (Inl x, c) \<Rightarrow> (Inl x, t\<lparr>td_cold := c\<rparr>)
      | (Inr ks, c) \<Rightarrow> (Inr (sort (remdups (filter (prefix p) (dict_keys (td_hot t)) @ ks))), t\<lparr>td_cold := c\<rparr>))"

definition tiered_ops :: "'c backend_ops \<Rightarrow> 'c tiered backend_ops" where
  "tiered_ops ops = \<lparr>bo_name = td_name, bo_is_open = td_open, bo_open = td_do_open ops, bo_get = td_get ops, bo_set = td_set ops,
     bo_delete = td_delete ops, bo_close = td_close, bo_keys = td_keys ops\<rparr>"

subsection \<open>The storage engine\<close>

text \<open>
  Backends are objects: the engine and its callers share them by reference, so they live in a heap.
  A registered class makes a backend from the name and the options, or raises.
\<close>

type_synonym 'b factory = "string \<Rightarrow> pydict \<Rightarrow> 'b result"

record 'b storage =
  sto_on :: bool
  sto_active :: "nat option"
  sto_name :: "string option"
  sto_backends :: "'b factory registry option"
  sto_heap :: "nat \<Rightarrow> 'b"
  sto_next :: nat

definition new_storage :: "(nat \<Rightarrow> 'b) \<Rightarrow> nat \<Rightarrow> 'b storage" where
  "new_storage h n = \<lparr>sto_on = False, sto_active = None, sto_name = None, sto_backends = None, sto_heap = h, sto_next = n\<rparr>"

definition sto_bind_registry :: "'b factory registry \<Rightarrow> 'b storage \<Rightarrow> 'b storage" where
  "sto_bind_registry r s = s\<lparr>sto_backends := Some r\<rparr>"

definition on_backend :: "nat \<Rightarrow> ('b \<Rightarrow> 'a result \<times> 'b) \<Rightarrow> 'b storage \<Rightarrow> 'a result \<times> 'b storage" where
  "on_backend a f s = (case f (sto_heap s a) of (r, b) \<Rightarrow> (r, s\<lparr>sto_heap := (sto_heap s)(a := b)\<rparr>))"

definition sto_close_active :: "'b backend_ops \<Rightarrow> 'b storage \<Rightarrow> unit result \<times> 'b storage" where
  "sto_close_active ops s =
     (case (case sto_active s of Some a \<Rightarrow> on_backend a (bo_close ops) s | None \<Rightarrow> (Inr (), s)) of
        (Inl x, s1) \<Rightarrow> (Inl x, s1)
      | (Inr _, s1) \<Rightarrow> (Inr (), s1\<lparr>sto_active := None, sto_name := None\<rparr>))"

definition sto_construct :: "'b backend_ops \<Rightarrow> string \<Rightarrow> pydict \<Rightarrow> 'b storage \<Rightarrow> nat result \<times> 'b storage" where
  "sto_construct ops nm opts s =
     (case sto_close_active ops s of (Inl x, s1) \<Rightarrow> (Inl x, s1) | (Inr _, s1) \<Rightarrow>
     (case sto_backends s1 of None \<Rightarrow> (Inl (Exc RegistryError ''storage engine has no registry''), s1) | Some reg \<Rightarrow>
     (case lookup reg nm of Inl x \<Rightarrow> (Inl x, s1) | Inr cls \<Rightarrow>
     (case cls nm opts of Inl x \<Rightarrow> (Inl x, s1) | Inr b \<Rightarrow>
      (let a = sto_next s1; s2 = s1\<lparr>sto_heap := (sto_heap s1)(a := b), sto_next := Suc a\<rparr> in
       case on_backend a (bo_open ops) s2 of
         (Inl x, s3) \<Rightarrow> (Inl x, s3)
       | (Inr _, s3) \<Rightarrow> (Inr a, s3\<lparr>sto_active := Some a, sto_name := Some nm\<rparr>))))))"

definition sto_select :: "'b backend_ops \<Rightarrow> string \<Rightarrow> pydict \<Rightarrow> 'b storage \<Rightarrow> nat result \<times> 'b storage" where
  "sto_select ops nm opts s =
     (case sto_active s of
        Some a \<Rightarrow> if sto_name s = Some nm \<and> bo_is_open ops (sto_heap s a) then (Inr a, s) else sto_construct ops nm opts s
      | None \<Rightarrow> sto_construct ops nm opts s)"

text \<open>The options of \<open>initialize\<close>: a bound backend, a backend name with its options, or neither.\<close>

datatype storage_options = BoundBackend nat | NamedBackend string pydict | NoBackend

definition sto_do_initialize :: "'b backend_ops \<Rightarrow> storage_options \<Rightarrow> 'b storage \<Rightarrow> unit result \<times> 'b storage" where
  "sto_do_initialize ops opt s = (case opt of
     BoundBackend a \<Rightarrow>
       if \<not> bo_is_open ops (sto_heap s a)
       then (Inl (Exc StorageNotConfiguredError ''bound storage backend is not open''), s)
       else (case sto_close_active ops s of (Inl x, s1) \<Rightarrow> (Inl x, s1)
             | (Inr _, s1) \<Rightarrow> (Inr (), s1\<lparr>sto_active := Some a, sto_name := Some (bo_name ops (sto_heap s1 a))\<rparr>))
   | NamedBackend nm opts \<Rightarrow> (case sto_select ops nm opts s of (Inl x, s1) \<Rightarrow> (Inl x, s1) | (Inr _, s1) \<Rightarrow> (Inr (), s1))
   | NoBackend \<Rightarrow> (Inr (), s))"

definition sto_initialize :: "'b backend_ops \<Rightarrow> storage_options \<Rightarrow> 'b storage \<Rightarrow> unit result \<times> 'b storage" where
  "sto_initialize ops opt s =
     (if sto_on s then (Inr (), s)
      else case sto_do_initialize ops opt s of (Inl x, s1) \<Rightarrow> (Inl x, s1) | (Inr _, s1) \<Rightarrow> (Inr (), s1\<lparr>sto_on := True\<rparr>))"

definition sto_shutdown :: "'b backend_ops \<Rightarrow> 'b storage \<Rightarrow> unit result \<times> 'b storage" where
  "sto_shutdown ops s =
     (if \<not> sto_on s then (Inr (), s)
      else case sto_close_active ops s of (Inl x, s1) \<Rightarrow> (Inl x, s1) | (Inr _, s1) \<Rightarrow> (Inr (), s1\<lparr>sto_on := False\<rparr>))"

definition sto_attach :: "'b backend_ops \<Rightarrow> nat \<Rightarrow> 'b storage \<Rightarrow> nat result \<times> 'b storage" where
  "sto_attach ops b s =
     (if \<not> bo_is_open ops (sto_heap s b) then (Inl (Exc StorageNotConfiguredError ''bound storage backend is not open''), s)
      else if sto_on s
      then (case sto_active s of
          Some a \<Rightarrow> if a = b then (Inr b, s)
            else if bo_is_open ops (sto_heap s a) \<and> sto_name s = Some (bo_name ops (sto_heap s b)) then (Inr a, s)
            else (Inl (Exc StorageNotConfiguredError ''storage is already initialized with a different backend''), s)
        | None \<Rightarrow> (Inl (Exc StorageNotConfiguredError ''storage is already initialized with a different backend''), s))
      else case sto_initialize ops (BoundBackend b) s of (Inl x, s1) \<Rightarrow> (Inl x, s1) | (Inr _, s1) \<Rightarrow> (Inr b, s1))"

definition sto_require :: "'b backend_ops \<Rightarrow> 'b storage \<Rightarrow> nat result" where
  "sto_require ops s = (case sto_active s of
     Some a \<Rightarrow> if bo_is_open ops (sto_heap s a) then Inr a
       else Inl (Exc StorageNotConfiguredError ''No storage backend is active. Call select() after initialize().'')
   | None \<Rightarrow> Inl (Exc StorageNotConfiguredError ''No storage backend is active. Call select() after initialize().''))"

definition sto_get :: "'b backend_ops \<Rightarrow> string \<Rightarrow> 'b storage \<Rightarrow> pyval result \<times> 'b storage" where
  "sto_get ops k s = (case sto_require ops s of Inl x \<Rightarrow> (Inl x, s) | Inr a \<Rightarrow> on_backend a (bo_get ops k) s)"

definition sto_set :: "'b backend_ops \<Rightarrow> string \<Rightarrow> pyval \<Rightarrow> 'b storage \<Rightarrow> unit result \<times> 'b storage" where
  "sto_set ops k v s = (case sto_require ops s of Inl x \<Rightarrow> (Inl x, s) | Inr a \<Rightarrow> on_backend a (bo_set ops k v) s)"

definition sto_delete :: "'b backend_ops \<Rightarrow> string \<Rightarrow> 'b storage \<Rightarrow> unit result \<times> 'b storage" where
  "sto_delete ops k s = (case sto_require ops s of Inl x \<Rightarrow> (Inl x, s) | Inr a \<Rightarrow> on_backend a (bo_delete ops k) s)"

subsection \<open>The laws of a backend\<close>

definition value_of :: "pyval option \<Rightarrow> pyval" where
  "value_of v = (case v of None \<Rightarrow> VNone | Some x \<Rightarrow> x)"

text \<open>The operations of a client, and what they answer on a plain map.\<close>

datatype storage_op = SGet string | SSet string pyval | SDelete string

fun map_answer :: "storage_op \<Rightarrow> (string \<rightharpoonup> pyval) \<Rightarrow> pyval result" where
  "map_answer (SGet k) m = Inr (value_of (m k))"
| "map_answer (SSet k v) m = Inr VNone"
| "map_answer (SDelete k) m = Inr VNone"

fun map_after :: "storage_op \<Rightarrow> (string \<rightharpoonup> pyval) \<Rightarrow> (string \<rightharpoonup> pyval)" where
  "map_after (SGet k) m = m"
| "map_after (SSet k v) m = m(k \<mapsto> v)"
| "map_after (SDelete k) m = m(k := None)"

fun map_run :: "storage_op list \<Rightarrow> (string \<rightharpoonup> pyval) \<Rightarrow> pyval result list" where
  "map_run [] m = []"
| "map_run (c # cs) m = map_answer c m # map_run cs (map_after c m)"

definition no_value :: "unit result \<Rightarrow> pyval result" where
  "no_value r = (case r of Inl x \<Rightarrow> Inl x | Inr _ \<Rightarrow> Inr VNone)"

fun sto_do :: "'b backend_ops \<Rightarrow> storage_op \<Rightarrow> 'b storage \<Rightarrow> pyval result \<times> 'b storage" where
  "sto_do ops (SGet k) s = sto_get ops k s"
| "sto_do ops (SSet k v) s = map_prod no_value id (sto_set ops k v s)"
| "sto_do ops (SDelete k) s = map_prod no_value id (sto_delete ops k s)"

fun sto_run :: "'b backend_ops \<Rightarrow> storage_op list \<Rightarrow> 'b storage \<Rightarrow> pyval result list \<times> 'b storage" where
  "sto_run ops [] s = ([], s)"
| "sto_run ops (c # cs) s = (case sto_do ops c s of (r, s') \<Rightarrow> map_prod (Cons r) id (sto_run ops cs s'))"

locale storage_backend =
  fixes ops :: "'b backend_ops"
    and good :: "'b \<Rightarrow> bool"
    and contents :: "'b \<Rightarrow> string \<Rightarrow> pyval option"
  assumes good_open: "good b \<Longrightarrow> bo_is_open ops b"
    and get_law: "good b \<Longrightarrow> bo_get ops k b = (r, b') \<Longrightarrow> r = Inr (value_of (contents b k)) \<and> good b' \<and> contents b' = contents b"
    and set_law: "good b \<Longrightarrow> bo_set ops k v b = (u, b') \<Longrightarrow> u = Inr () \<and> good b' \<and> contents b' = (contents b)(k \<mapsto> v)"
    and delete_law: "good b \<Longrightarrow> bo_delete ops k b = (u, b') \<Longrightarrow> u = Inr () \<and> good b' \<and> contents b' = (contents b)(k := None)"
    and keys_law: "good b \<Longrightarrow> bo_keys ops p b = (q, b') \<Longrightarrow> (\<exists>ks. q = Inr ks \<and> sorted ks \<and> distinct ks
        \<and> set ks = {k. prefix p k \<and> contents b k \<noteq> None}) \<and> good b' \<and> contents b' = contents b"
begin

lemma engine_step:
  assumes "sto_active s = Some a" and "good (sto_heap s a)" and "sto_do ops c s = (r, s')"
  shows "r = map_answer c (contents (sto_heap s a)) \<and> sto_active s' = Some a \<and> good (sto_heap s' a)
    \<and> contents (sto_heap s' a) = map_after c (contents (sto_heap s a))"
proof (cases c)
  case (SGet k)
  obtain r0 b' where g: "bo_get ops k (sto_heap s a) = (r0, b')" by fastforce
  from get_law [OF assms(2) this] show ?thesis using SGet assms g good_open [OF assms(2)]
    by (auto simp: sto_get_def sto_require_def on_backend_def)
next
  case (SSet k v)
  obtain r0 b' where g: "bo_set ops k v (sto_heap s a) = (r0, b')" by fastforce
  from set_law [OF assms(2) this] show ?thesis using SSet assms g good_open [OF assms(2)]
    by (auto simp: sto_set_def sto_require_def on_backend_def no_value_def)
next
  case (SDelete k)
  obtain r0 b' where g: "bo_delete ops k (sto_heap s a) = (r0, b')" by fastforce
  from delete_law [OF assms(2) this] show ?thesis using SDelete assms g good_open [OF assms(2)]
    by (auto simp: sto_delete_def sto_require_def on_backend_def no_value_def)
qed

text \<open>An engine over any lawful backend is a map.\<close>

lemma engine_is_map:
  assumes "sto_active s = Some a" and "good (sto_heap s a)" and "sto_run ops cs s = (rs, s')"
  shows "rs = map_run cs (contents (sto_heap s a)) \<and> sto_active s' = Some a \<and> good (sto_heap s' a)
    \<and> contents (sto_heap s' a) = fold map_after cs (contents (sto_heap s a))"
  using assms
proof (induction cs arbitrary: s rs)
  case (Cons c cs)
  obtain r s1 where c: "sto_do ops c s = (r, s1)" by fastforce
  obtain rs1 where "sto_run ops cs s1 = (rs1, s')" using Cons.prems(3) c by (cases "sto_run ops cs s1") auto
  with engine_step [OF Cons.prems(1,2) c] Cons.IH [of s1 rs1] Cons.prems(3) c show ?case by auto
qed auto

end

subsection \<open>The memory backend is lawful\<close>

definition mem_good :: "memory_backend \<Rightarrow> bool" where
  "mem_good b = (mb_open b \<and> dict_wf (mb_data b))"

lemma sorted_with_prefix_facts:
  "sorted (sorted_with_prefix p ks)" "distinct ks \<Longrightarrow> distinct (sorted_with_prefix p ks)"
  "set (sorted_with_prefix p ks) = {k \<in> set ks. prefix p k}"
  by (auto simp: sorted_with_prefix_def)

lemma py_get_value_of: "py_get d k = value_of (map_of d k)"
  by (simp add: get_default_def value_of_def)

interpretation mem: storage_backend memory_ops mem_good "\<lambda>b. map_of (mb_data b)"
proof
  fix b :: memory_backend and p :: string and q b'
  assume "mem_good b" and "bo_keys memory_ops p b = (q, b')"
  then show "(\<exists>ks. q = Inr ks \<and> sorted ks \<and> distinct ks \<and> set ks = {k. prefix p k \<and> map_of (mb_data b) k \<noteq> None})
      \<and> mem_good b' \<and> map_of (mb_data b') = map_of (mb_data b)"
    by (auto simp: memory_ops_def mem_keys_def mem_good_def dict_wf_def sorted_with_prefix_facts map_of_eq_None_iff)
qed (auto simp: memory_ops_def mem_get_def mem_set_def mem_delete_def mem_good_def py_get_value_of AList.update_conv AList.delete_conv
      split: if_splits)

subsection \<open>The tiered backend over a lawful backend is lawful\<close>

definition hot_ok :: "'c tiered \<Rightarrow> bool" where
  "hot_ok t = (dict_wf (td_hot t) \<and> distinct (td_lru t) \<and> set (td_lru t) = fst ` set (td_hot t))"

definition tiered_good :: "('c \<Rightarrow> bool) \<Rightarrow> ('c \<Rightarrow> string \<Rightarrow> pyval option) \<Rightarrow> int \<Rightarrow> 'c tiered \<Rightarrow> bool" where
  "tiered_good good contents mx t = (td_open t \<and> good (td_cold t) \<and> td_max t = mx \<and> mx \<ge> 1 \<and> hot_ok t
     \<and> int (length (td_lru t)) \<le> td_max t \<and> map_of (td_hot t) \<subseteq>\<^sub>m contents (td_cold t))"

lemma set_dict_set: "fst ` set (AList.update k v d) = insert k (fst ` set d)"
  using arg_cong [OF dict_keys_set [of k v d], of set] by (auto simp: dict_has_iff split: if_splits)

lemma set_dict_pop: "fst ` set (AList.delete k d) = fst ` set d - {k}"
  by (auto simp: AList.delete_eq)

lemma hot_ok_cold [simp]: "hot_ok (t\<lparr>td_cold := c\<rparr>) = hot_ok t"
  by (simp add: hot_ok_def)

lemma touch_ok: "hot_ok t \<Longrightarrow> dict_has (td_hot t) k \<Longrightarrow> hot_ok (td_touch k t)"
  by (auto simp: hot_ok_def td_touch_def distinct_removeAll dict_has_iff)

lemma set_ok: "hot_ok t \<Longrightarrow> hot_ok (td_touch k (t\<lparr>td_hot := dict_set k v (td_hot t)\<rparr>))"
  by (auto simp: hot_ok_def td_touch_def distinct_removeAll set_dict_set)

lemma forget_ok: "hot_ok t \<Longrightarrow> hot_ok (td_forget k t)"
  by (auto simp: hot_ok_def td_forget_def distinct_removeAll set_dict_pop)

lemma length_touch: "length (td_lru (td_touch k t)) \<le> Suc (length (td_lru t))"
  "distinct (td_lru t) \<Longrightarrow> k \<in> set (td_lru t) \<Longrightarrow> length (td_lru (td_touch k t)) = length (td_lru t)"
  by (auto simp: td_touch_def le_SucI length_removeAll_less_eq distinct_remove1_removeAll [symmetric] length_remove1 Suc_pred [OF length_pos_if_in_set])

text \<open>What the eviction loop leaves: a shorter hot map with the most recently used keys, the rest untouched.\<close>

definition evicted :: "'c tiered \<Rightarrow> 'c tiered \<Rightarrow> bool" where
  "evicted t t' = (td_cold t' = td_cold t \<and> td_open t' = td_open t \<and> td_max t' = td_max t \<and> td_name t' = td_name t \<and> hot_ok t'
     \<and> int (length (td_lru t')) \<le> td_max t \<and> map_of (td_hot t') \<subseteq>\<^sub>m map_of (td_hot t)
     \<and> suffix (td_lru t') (td_lru t) \<and> (int (length (td_lru t)) \<ge> td_max t \<longrightarrow> int (length (td_lru t')) = td_max t))"

lemma evict_evicts: "hot_ok t \<Longrightarrow> td_max t \<ge> 0 \<Longrightarrow> evicted t (td_evict t)"
proof (induction t rule: td_evict.induct)
  case (1 t)
  show ?case
  proof (cases "td_lru t")
    case Nil
    then show ?thesis using 1(2,3) by (simp add: td_evict.simps [of t] evicted_def)
  next
    case (Cons k ks)
    show ?thesis
    proof (cases "int (length (td_lru t)) > td_max t")
      case True
      define t1 where "t1 = t\<lparr>td_lru := ks, td_hot := dict_pop k (td_hot t)\<rparr>"
      have t1: "td_cold t1 = td_cold t" "td_open t1 = td_open t" "td_max t1 = td_max t" "td_name t1 = td_name t" "td_lru t1 = ks"
        "map_of (td_hot t1) \<subseteq>\<^sub>m map_of (td_hot t)"
        by (auto simp: t1_def map_le_def)
      have "hot_ok t1" using 1(2) Cons by (auto simp: t1_def hot_ok_def set_dict_pop)
      with 1(1) [OF Cons True] 1(3) t1(3) have "evicted t1 (td_evict t1)" by (simp add: t1_def)
      moreover have "td_evict t = td_evict t1" using True Cons by (simp add: td_evict.simps [of t] t1_def)
      ultimately show ?thesis using t1 True Cons
        by (auto simp: evicted_def suffix_ConsI intro: map_le_trans)
    qed (use 1(2,3) Cons in \<open>simp add: td_evict.simps [of t] evicted_def\<close>)
  qed
qed

lemma evict_short: "int (length (td_lru t)) \<le> td_max t \<Longrightarrow> td_evict t = t"
  by (subst td_evict.simps) (auto split: list.split)

lemma remember_good:
  assumes "td_open t" "good (td_cold t)" "td_max t = mx" "mx \<ge> 1" "hot_ok t"
    and "map_of (dict_set k v (td_hot t)) \<subseteq>\<^sub>m contents (td_cold t)"
  shows "tiered_good good contents mx (td_remember k v t) \<and> td_cold (td_remember k v t) = td_cold t"
proof -
  let ?t = "td_touch k (t\<lparr>td_hot := dict_set k v (td_hot t)\<rparr>)"
  have "evicted ?t (td_remember k v t)"
    unfolding td_remember_def using assms(3-5) by (intro evict_evicts set_ok) (simp_all add: td_touch_def)
  then show ?thesis using assms
    by (auto simp: evicted_def tiered_good_def td_touch_def intro: map_le_trans)
qed

text \<open>The last key read or written is hot, whatever the bound.\<close>

lemma remember_hot:
  assumes "hot_ok t" "td_max t \<ge> 1"
  shows "dict_get (td_hot (td_remember k v t)) k = Some v"
proof -
  let ?t = "td_touch k (t\<lparr>td_hot := dict_set k v (td_hot t)\<rparr>)" and ?r = "td_remember k v t"
  have ev: "evicted ?t ?r"
    unfolding td_remember_def using assms by (intro evict_evicts set_ok) (simp_all add: td_touch_def)
  have ne: "td_lru ?r \<noteq> []"
  proof
    assume empty: "td_lru ?r = []"
    with ev assms(2) have "int (length (td_lru ?t)) < td_max t" by (auto simp: evicted_def td_touch_def)
    then have "td_evict ?t = ?t" by (intro evict_short) (simp add: td_touch_def)
    with empty show False by (simp add: td_remember_def td_touch_def)
  qed
  obtain pre where "removeAll k (td_lru t) @ [k] = pre @ td_lru ?r"
    using ev by (auto simp: evicted_def td_touch_def suffix_def)
  then have "last (td_lru ?r) = k" using ne by (metis last_appendR last_snoc)
  then have "k \<in> set (td_lru ?r)" using ne last_in_set by metis
  then obtain w where "map_of (td_hot ?r) k = Some w" using ev by (auto simp: evicted_def hot_ok_def dict_wf_def)
  then show ?thesis using ev by (force simp: evicted_def td_touch_def map_le_def)
qed

context storage_backend
begin

lemma tiered_get_law:
  assumes "tiered_good good contents mx t" and "td_get ops k t = (r, t')"
  shows "r = Inr (value_of (contents (td_cold t) k)) \<and> tiered_good good contents mx t' \<and> contents (td_cold t') = contents (td_cold t)"
proof (cases "dict_get (td_hot t) k")
  case None
  obtain q c where g: "bo_get ops k (td_cold t) = (q, c)" by fastforce
  have good: "good (td_cold t)" using assms(1) by (simp add: tiered_good_def)
  note law = get_law [OF this g]
  let ?v = "value_of (contents (td_cold t) k)"
  show ?thesis
  proof (cases "?v = VNone")
    case True
    then show ?thesis using assms None g law
      by (auto simp: td_get_def td_probe_def td_cold_get_def td_note_def tiered_good_def)
  next
    case False
    then have "contents (td_cold t) k = Some ?v" by (cases "contents (td_cold t) k") (auto simp: value_of_def)
    then have "map_of (dict_set k ?v (td_hot t)) \<subseteq>\<^sub>m contents c"
      using assms(1) law by (auto simp: tiered_good_def map_le_def)
    then have "tiered_good good contents mx (td_remember k ?v (t\<lparr>td_cold := c\<rparr>)) \<and> td_cold (td_remember k ?v (t\<lparr>td_cold := c\<rparr>)) = td_cold (t\<lparr>td_cold := c\<rparr>)"
      using assms(1) law by (intro remember_good) (simp_all add: tiered_good_def)
    moreover have "r = Inr ?v" "t' = td_remember k ?v (t\<lparr>td_cold := c\<rparr>)"
      using assms None g law False by (auto simp: td_get_def td_probe_def td_cold_get_def td_note_def tiered_good_def)
    ultimately show ?thesis using law by simp
  qed
next
  case (Some v)
  then have "contents (td_cold t) k = Some v" using assms(1) by (force simp: tiered_good_def map_le_def)
  moreover have "hot_ok (td_touch k t)" using Some assms(1) by (intro touch_ok) (auto simp: tiered_good_def dict_has_def)
  moreover have "k \<in> set (td_lru t)" using Some assms(1)
    by (auto simp: tiered_good_def hot_ok_def dest: map_of_SomeD intro: rev_image_eqI)
  ultimately show ?thesis using assms Some length_touch(2) [of t k]
    by (auto simp: td_get_def td_probe_def tiered_good_def value_of_def hot_ok_def) (auto simp: td_touch_def)
qed

lemma tiered_set_law:
  assumes "tiered_good good contents mx t" and "td_set ops k v t = (u, t')"
  shows "u = Inr () \<and> tiered_good good contents mx t' \<and> contents (td_cold t') = (contents (td_cold t))(k \<mapsto> v)"
proof -
  obtain q c where g: "bo_set ops k v (td_cold t) = (q, c)" by fastforce
  have good: "good (td_cold t)" using assms(1) by (simp add: tiered_good_def)
  note law = set_law [OF this g]
  then have "map_of (dict_set k v (td_hot t)) \<subseteq>\<^sub>m contents c" using assms(1) by (auto simp: tiered_good_def map_le_def)
  then have "tiered_good good contents mx (td_remember k v (t\<lparr>td_cold := c\<rparr>)) \<and> td_cold (td_remember k v (t\<lparr>td_cold := c\<rparr>)) = td_cold (t\<lparr>td_cold := c\<rparr>)"
    using assms(1) law by (intro remember_good) (simp_all add: tiered_good_def)
  moreover have "u = Inr ()" "t' = td_remember k v (t\<lparr>td_cold := c\<rparr>)"
    using assms g law by (auto simp: td_set_def tiered_good_def)
  ultimately show ?thesis using law by simp
qed

lemma tiered_delete_law:
  assumes "tiered_good good contents mx t" and "td_delete ops k t = (u, t')"
  shows "u = Inr () \<and> tiered_good good contents mx t' \<and> contents (td_cold t') = (contents (td_cold t))(k := None)"
proof -
  obtain q c where g: "bo_delete ops k (td_cold t) = (q, c)" by fastforce
  have good: "good (td_cold t)" using assms(1) by (simp add: tiered_good_def)
  note law = delete_law [OF this g]
  have "hot_ok (td_forget k t)" using assms(1) by (intro forget_ok) (simp add: tiered_good_def)
  moreover have "int (length (removeAll k (td_lru t))) \<le> td_max t"
    by (rule order_trans [where y = "int (length (td_lru t))"]) (use assms(1) in \<open>simp_all add: tiered_good_def length_removeAll_less_eq\<close>)
  moreover have "map_of (td_hot (td_forget k t)) \<subseteq>\<^sub>m contents c" using assms(1) law by (auto simp: td_forget_def tiered_good_def map_le_def)
  ultimately show ?thesis using assms g law by (auto simp: td_delete_def tiered_good_def td_forget_def)
qed

lemma tiered_keys_law:
  assumes "tiered_good good contents mx t" and "td_keys ops p t = (q, t')"
  shows "(\<exists>ks. q = Inr ks \<and> sorted ks \<and> distinct ks \<and> set ks = {k. prefix p k \<and> contents (td_cold t) k \<noteq> None})
    \<and> tiered_good good contents mx t' \<and> contents (td_cold t') = contents (td_cold t)"
proof -
  obtain q0 c where g: "bo_keys ops p (td_cold t) = (q0, c)" by fastforce
  have good: "good (td_cold t)" using assms(1) by (simp add: tiered_good_def)
  from keys_law [OF this g] obtain ks where ks: "q0 = Inr ks" "set ks = {k. prefix p k \<and> contents (td_cold t) k \<noteq> None}"
    "good c" "contents c = contents (td_cold t)" by blast
  have "contents (td_cold t) k \<noteq> None" if "(k, v) \<in> set (td_hot t)" for k v
  proof -
    have "map_of (td_hot t) k = Some v" using that assms(1) by (simp add: tiered_good_def hot_ok_def dict_wf_def)
    then show ?thesis using assms(1) by (force simp: tiered_good_def map_le_def)
  qed
  then have keys: "set (sort (remdups (filter (prefix p) (dict_keys (td_hot t)) @ ks))) = {k. prefix p k \<and> contents (td_cold t) k \<noteq> None}"
    using ks(2) by fastforce
  have "q = Inr (sort (remdups (filter (prefix p) (dict_keys (td_hot t)) @ ks)))" "t' = t\<lparr>td_cold := c\<rparr>"
    using assms g ks(1) by (simp_all add: td_keys_def tiered_good_def)
  then show ?thesis using keys ks(3,4) assms(1) by (auto simp: tiered_good_def)
qed

lemma tiered_backend: "storage_backend (tiered_ops ops) (tiered_good good contents mx) (\<lambda>t. contents (td_cold t))"
proof (unfold_locales, unfold tiered_ops_def backend_ops.simps)
  show "tiered_good good contents mx t \<Longrightarrow> td_open t" for t by (simp add: tiered_good_def)
qed (rule tiered_get_law tiered_set_law tiered_delete_law tiered_keys_law; assumption)+

end

interpretation tiered_mem: storage_backend "tiered_ops memory_ops" "tiered_good mem_good (\<lambda>b. map_of (mb_data b)) mx"
    "\<lambda>t. map_of (mb_data (td_cold t))" for mx
  by (rule mem.tiered_backend)

subsection \<open>Properties\<close>

text \<open>
  C32. The tiered backend is transparent: an engine over a tiered backend gives the same answers to
  every sequence of reads, writes and deletions as an engine over its cold backend alone, leaves the
  same contents in the cold backend, and never keeps more hot keys than its bound.
\<close>

theorem tiered_is_transparent:
  assumes "new_tiered nm b mx = Inr t0" and "td_do_open memory_ops t0 = (u, t)" and "mem_good b"
    and "sto_active s = Some a" and "sto_heap s a = t" and "sto_active p = Some a'" and "sto_heap p a' = b"
    and "sto_run (tiered_ops memory_ops) cs s = (rs, s')" and "sto_run memory_ops cs p = (rs', p')"
  shows "rs = rs' \<and> map_of (mb_data (td_cold (sto_heap s' a))) = map_of (mb_data (sto_heap p' a'))
    \<and> int (length (td_hot (sto_heap s' a))) \<le> mx"
proof -
  have t: "td_cold t = b" "tiered_good mem_good (\<lambda>b. map_of (mb_data b)) mx t"
    using assms(1-3) by (auto simp: new_tiered_def td_do_open_def memory_ops_def mem_good_def tiered_good_def hot_ok_def split: if_splits)
  note run = tiered_mem.engine_is_map [OF assms(4) _ assms(8), of mx] mem.engine_is_map [OF assms(6) _ assms(9)]
  have "length (td_hot x) = length (td_lru x)" if "hot_ok x" for x :: "memory_backend tiered"
    using that unfolding hot_ok_def dict_wf_def by (metis distinct_card length_map list.set_map)
  then show ?thesis using run assms(3,5,7) t by (auto simp: tiered_good_def)
qed

lemma tiered_is_transparent_witness:
  "fst (sto_run (tiered_ops memory_ops) [SSet ''a'' (VInt 1), SSet ''b'' (VInt 2), SGet ''a'']
     \<lparr>sto_on = True, sto_active = Some 0, sto_name = None, sto_backends = None,
      sto_heap = (\<lambda>_. \<lparr>td_name = ''t'', td_open = True, td_cold = \<lparr>mb_name = ''m'', mb_open = True, mb_data = []\<rparr>, td_max = 1, td_hot = [], td_lru = []\<rparr>),
      sto_next = 1\<rparr>) = [Inr VNone, Inr VNone, Inr (VInt 1)]"
proof -
  let ?b = "\<lparr>mb_name = ''m'', mb_open = True, mb_data = []\<rparr>"
  let ?t = "\<lparr>td_name = ''t'', td_open = True, td_cold = ?b, td_max = 1, td_hot = [], td_lru = []\<rparr>"
  let ?s = "\<lparr>sto_on = True, sto_active = Some 0, sto_name = None, sto_backends = None, sto_heap = (\<lambda>_. ?t), sto_next = 1\<rparr>"
  let ?p = "\<lparr>sto_on = True, sto_active = Some 0, sto_name = None, sto_backends = None, sto_heap = (\<lambda>_. ?b), sto_next = 1\<rparr>"
  let ?cs = "[SSet ''a'' (VInt 1), SSet ''b'' (VInt 2), SGet ''a'']"
  obtain rs s' rs' p' where r: "sto_run (tiered_ops memory_ops) ?cs ?s = (rs, s')" "sto_run memory_ops ?cs ?p = (rs', p')"
    by fastforce
  have "new_tiered ''t'' ?b 1 = Inr (?t\<lparr>td_open := False\<rparr>)" "td_do_open memory_ops (?t\<lparr>td_open := False\<rparr>) = (Inr (), ?t)" "mem_good ?b"
    by (simp_all add: new_tiered_def td_do_open_def memory_ops_def mem_good_def)
  from tiered_is_transparent [OF this _ _ _ _ r, of 0 0] have "rs = rs'" by simp
  moreover have "rs' = [Inr VNone, Inr VNone, Inr (VInt 1)]"
    using r(2) by (simp add: sto_set_def sto_get_def sto_require_def on_backend_def memory_ops_def mem_set_def mem_get_def no_value_def)
  ultimately show ?thesis using r by simp
qed

text \<open>
  The tiered backend serves stale values: the cold read of a lookup is outside of the lock, so
  when another thread writes or deletes the key between that read and the note of it, the old value
  stays in the hot map, and later reads return it although the cold backend has the new one.
\<close>

theorem tiered_read_race:
  assumes "tiered_good mem_good (\<lambda>b. map_of (mb_data b)) mx t" and "td_probe k t = (None, t1)"
    and "td_cold_get memory_ops k t1 = (Inr v, t2)" and "v \<noteq> VNone"
    and "t3 = snd (td_set memory_ops k v' t2) \<or> v' = VNone \<and> t3 = snd (td_delete memory_ops k t2)"
    and "td_note k v t3 = (w, t4)"
  shows "fst (td_get memory_ops k t4) = Inr v \<and> fst (mem_get k (td_cold t4)) = Inr v'"
proof -
  have "t1 = t" using assms(2) by (auto simp: td_probe_def split: option.splits)
  then have t2: "t2 = t" using assms(1,3) by (auto simp: td_cold_get_def memory_ops_def mem_get_def tiered_good_def mem_good_def split: if_splits)
  have t3: "tiered_good mem_good (\<lambda>b. map_of (mb_data b)) mx t3 \<and> value_of (map_of (mb_data (td_cold t3)) k) = v'"
    using assms(5)
  proof
    assume t3: "t3 = snd (td_set memory_ops k v' t2)"
    obtain u t' where s: "td_set memory_ops k v' t = (u, t')" by fastforce
    show ?thesis using mem.tiered_set_law [OF assms(1) s] s t2 t3 by (simp add: value_of_def)
  next
    assume t3: "v' = VNone \<and> t3 = snd (td_delete memory_ops k t2)"
    obtain u t' where s: "td_delete memory_ops k t = (u, t')" by fastforce
    show ?thesis using mem.tiered_delete_law [OF assms(1) s] s t2 t3 by (simp add: value_of_def)
  qed
  let ?r = "td_remember k v t3"
  have "t4 = ?r" using assms(4,6) by (auto simp: td_note_def)
  moreover have "evicted (td_touch k (t3\<lparr>td_hot := dict_set k v (td_hot t3)\<rparr>)) ?r"
    unfolding td_remember_def using t3 by (intro evict_evicts set_ok) (auto simp: td_touch_def tiered_good_def)
  then have "td_open ?r = td_open t3" "td_cold ?r = td_cold t3" by (simp_all add: evicted_def td_touch_def)
  moreover have "dict_get (td_hot ?r) k = Some v" using t3 by (intro remember_hot) (auto simp: tiered_good_def)
  ultimately show ?thesis using t3 by (auto simp: td_get_def td_probe_def mem_get_def tiered_good_def mem_good_def py_get_value_of)
qed

lemma tiered_read_race_witness:
  "\<exists>t4. fst (td_get memory_ops ''k'' t4) = Inr (VInt 1) \<and> fst (mem_get ''k'' (td_cold t4)) = Inr (VInt 2)"
proof -
  let ?b = "\<lparr>mb_name = ''m'', mb_open = True, mb_data = [(''k'', VInt 1)]\<rparr>"
  let ?t = "\<lparr>td_name = ''t'', td_open = True, td_cold = ?b, td_max = 5, td_hot = [], td_lru = []\<rparr>"
  obtain w t4 where n: "td_note ''k'' (VInt 1) (snd (td_set memory_ops ''k'' (VInt 2) ?t)) = (w, t4)" by fastforce
  have "tiered_good mem_good (\<lambda>b. map_of (mb_data b)) 5 ?t" "td_probe ''k'' ?t = (None, ?t)"
    "td_cold_get memory_ops ''k'' ?t = (Inr (VInt 1), ?t)" "VInt 1 \<noteq> VNone"
    by (simp_all add: tiered_good_def mem_good_def hot_ok_def dict_wf_def td_probe_def td_cold_get_def memory_ops_def mem_get_def)
  from tiered_read_race [OF this disjI1 n] show ?thesis by blast
qed

text \<open>
  Attaching its own backend breaks the engine: when a backend was selected before the engine was
  initialized, \<open>attach\<close> of that very backend reports success and leaves the engine initialized with
  a backend that is closed and emptied; every later operation raises.
\<close>

theorem attach_closes_its_own_backend:
  assumes "\<not> sto_on s0" and "sto_select memory_ops nm opts s0 = (Inr a, s)" and "mb_open (sto_heap s a)"
    and "sto_attach memory_ops a s = (r, s')"
  shows "r = Inr a \<and> sto_on s' \<and> sto_active s' = Some a \<and> mb_data (sto_heap s' a) = []
    \<and> (\<exists>x. exc_cls x = StorageNotConfiguredError \<and> fst (sto_get memory_ops k s') = Inl x \<and> fst (sto_set memory_ops k v s') = Inl x)"
proof -
  have "sto_on s = sto_on s0 \<and> sto_active s = Some a"
    using assms(2) by (auto simp: sto_select_def sto_construct_def sto_close_active_def on_backend_def Let_def memory_ops_def mem_close_def mem_open_def
        split: option.splits sum.splits if_splits prod.splits)
  then show ?thesis using assms(1,3,4)
    by (auto simp: sto_attach_def sto_initialize_def sto_do_initialize_def sto_close_active_def on_backend_def memory_ops_def mem_close_def
        sto_get_def sto_set_def sto_require_def)
qed

lemma attach_closes_its_own_backend_witness:
  "\<exists>s'. sto_on s' \<and> mb_data (sto_heap s' 0) = [] \<and> (\<exists>x. fst (sto_get memory_ops ''k'' s') = Inl x)"
proof -
  let ?reg = "(new_registry ''storage'')\<lparr>entries := [(''memory'', (\<lambda>nm opts. Inr (new_memory nm)))]\<rparr>"
  let ?s0 = "sto_bind_registry ?reg (new_storage (\<lambda>_. new_memory ''m'') 0)"
  obtain q s where sel: "sto_select memory_ops ''memory'' [] ?s0 = (q, s)" by fastforce
  then have q: "q = Inr 0" "mb_open (sto_heap s 0)"
    by (auto simp: sto_select_def sto_construct_def sto_close_active_def on_backend_def Let_def memory_ops_def mem_open_def lookup_def
        new_storage_def sto_bind_registry_def new_registry_def)
  obtain r s' where "sto_attach memory_ops 0 s = (r, s')" by fastforce
  from attach_closes_its_own_backend [OF _ sel [unfolded q(1)] q(2) this, where k = "''k''" and v = VNone] show ?thesis
    by (simp add: new_storage_def sto_bind_registry_def) blast
qed

end
