(* ===== verification/PyConvert.thy ===== *)
theory PyConvert
  imports PyValue "HOL-Library.Sublist"
begin

text \<open>
  The conversions \<open>int(v)\<close> and \<open>bool\<close>-like coercions of loose values, and time stamps. An ISO time
  stamp is a text; its meaning is a clock: the text of an instant and the instant of a text (None is
  the \<open>ValueError\<close> of \<open>datetime.fromisoformat\<close>, a text without an offset is read as UTC, as every
  caller does). Instants are microseconds.
\<close>

definition is_digit :: "char \<Rightarrow> bool" where
  "is_digit c = (48 \<le> (of_char c :: nat) \<and> (of_char c :: nat) \<le> 57)"

text \<open>Digits with single underscores between them.\<close>

fun digits_value :: "int \<Rightarrow> string \<Rightarrow> int option" where
  "digits_value acc [] = Some acc"
| "digits_value acc (c # cs) =
     (if is_digit c then digits_value (10 * acc + (int (of_char c) - 48)) cs
      else if c = CHR 0x5F \<and> (case cs of d # _ \<Rightarrow> is_digit d | [] \<Rightarrow> False) then digits_value acc cs
      else None)"

definition unsigned_value :: "string \<Rightarrow> int option" where
  "unsigned_value s = (case s of c # _ \<Rightarrow> if is_digit c then digits_value 0 s else None | [] \<Rightarrow> None)"

definition parse_int :: "string \<Rightarrow> int option" where
  "parse_int s = (case py_strip s of
     [] \<Rightarrow> None
   | c # cs \<Rightarrow> if c = CHR 0x2D then map_option uminus (unsigned_value cs)
       else if c = CHR 0x2B then unsigned_value cs else unsigned_value (c # cs))"

definition truncate_rat :: "rat \<Rightarrow> int" where
  "truncate_rat q = (if q < 0 then \<lceil>q\<rceil> else \<lfloor>q\<rfloor>)"

definition py_int :: "pyval \<Rightarrow> int result" where
  "py_int v = (case v of
     VInt n \<Rightarrow> Inr n
   | VBool b \<Rightarrow> Inr (if b then 1 else 0)
   | VFloat q \<Rightarrow> Inr (truncate_rat q)
   | VStr s \<Rightarrow> (case parse_int s of Some n \<Rightarrow> Inr n
       | None \<Rightarrow> Inl (Exc PyValueError (''invalid literal for int() with base 10: '' @ quoted s)))
   | _ \<Rightarrow> Inl (Exc PyTypeError (''int() argument must be a string or a number, not '' @ quoted (type_name v))))"

lemma py_int_VInt [simp]: "py_int (VInt n) = Inr n"
  by (simp add: py_int_def)

lemma py_or_VInt [simp]: "py_int (py_or (VInt n) (VInt 0)) = Inr n"
  by (simp add: py_or_def)

subsection \<open>The decimal notation is read back\<close>

lemma digit_char_digit: "n < 10 \<Longrightarrow> is_digit (digit_char n) \<and> int (of_char (digit_char n)) - 48 = int n"
  by (simp add: is_digit_def digit_char_def of_char_of)

lemma digits_value_append: "list_all is_digit xs \<Longrightarrow> digits_value acc (xs @ ys) =
    (case digits_value acc xs of Some a \<Rightarrow> digits_value a ys | None \<Rightarrow> None)"
  by (induction xs arbitrary: acc) auto

lemma show_nat_digits: "list_all is_digit (show_nat n) \<and> show_nat n \<noteq> [] \<and> digits_value 0 (show_nat n) = Some (int n)"
proof (induction n rule: show_nat.induct)
  case (1 n)
  show ?case
  proof (cases "n < 10")
    case True
    then show ?thesis using digit_char_digit [of n] by (simp add: show_nat.simps [of n])
  next
    case False
    have "int (n div 10) * 10 + int (n mod 10) = int n" by (metis mult.commute div_mult_mod_eq of_nat_add of_nat_mult of_nat_numeral)
    then show ?thesis using False 1 digit_char_digit [of "n mod 10"]
      by (simp add: show_nat.simps [of n] digits_value_append)
  qed
qed

lemma digit_no_space: "is_digit c \<Longrightarrow> \<not> is_space c"
  by (auto simp: is_digit_def is_space_def)

lemma strip_ends:
  assumes "xs \<noteq> []" "\<not> is_space (hd xs)" "\<not> is_space (last xs)"
  shows "py_strip xs = xs"
proof -
  have "dropWhile is_space xs = xs" using assms(1,2) by (cases xs) auto
  moreover have "dropWhile is_space (rev xs) = rev xs" using assms(1,3) by (cases xs rule: rev_cases) auto
  ultimately show ?thesis by (simp add: py_strip_def)
qed

lemma parse_show_int [simp]: "parse_int (show_int n) = Some n"
proof -
  have nat: "unsigned_value (show_nat m) = Some (int m) \<and> \<not> is_space (hd (show_nat m)) \<and> \<not> is_space (last (show_nat m))
      \<and> is_digit (hd (show_nat m))" for m
  proof -
    have d: "list_all is_digit (show_nat m)" "show_nat m \<noteq> []" "digits_value 0 (show_nat m) = Some (int m)"
      using show_nat_digits by blast+
    then have "is_digit (hd (show_nat m))" "is_digit (last (show_nat m))" by (auto simp: list_all_iff)
    then show ?thesis using d by (cases "show_nat m") (auto simp: unsigned_value_def digit_no_space simp del: digits_value.simps)
  qed
  have minus: "\<not> is_digit CHR 0x2D" "\<not> is_digit CHR 0x2B" "\<not> is_space CHR 0x2D" by (simp_all add: is_digit_def is_space_def)
  show ?thesis
  proof (cases "n < 0")
    case True
    have "py_strip (show_int n) = show_int n"
      using True nat [of "nat (- n)"] minus show_nat_digits [of "nat (- n)"] by (intro strip_ends) (simp_all add: show_int_def)
    then show ?thesis using True nat [of "nat (- n)"] by (simp add: parse_int_def show_int_def)
  next
    case False
    obtain c cs where s: "show_nat (nat n) = c # cs" using show_nat_digits [of "nat n"] by (cases "show_nat (nat n)") auto
    have "py_strip (show_int n) = show_int n"
      using False nat [of "nat n"] show_nat_digits [of "nat n"] by (intro strip_ends) (simp_all add: show_int_def)
    then show ?thesis using False nat [of "nat n"] minus s by (auto simp: parse_int_def show_int_def)
  qed
qed

subsection \<open>Floats\<close>

text \<open>
  \<open>float(v)\<close> on decimal notation with fraction and exponent, without rounding; \<open>inf\<close> and \<open>nan\<close> are outside
  of the model, as are digits with underscores. Where the answer decides more than a duration, the
  reading of floats is an argument instead (\<open>WizardInput\<close>, \<open>Workload\<close>).
\<close>

definition digits_rat :: "string \<Rightarrow> rat" where
  "digits_rat s = foldl (\<lambda>a c. 10 * a + of_nat (of_char c - 48)) 0 s"

definition power10 :: "int \<Rightarrow> rat" where
  "power10 n = (if n \<ge> 0 then 10 ^ nat n else 1 / 10 ^ nat (- n))"

definition unsigned_float :: "string \<Rightarrow> rat option" where
  "unsigned_float s =
     (let a = takeWhile is_digit s; s1 = dropWhile is_digit s;
          b = (case s1 of c # cs \<Rightarrow> if c = CHR 0x2E then takeWhile is_digit cs else [] | [] \<Rightarrow> []);
          s2 = (case s1 of c # cs \<Rightarrow> if c = CHR 0x2E then dropWhile is_digit cs else s1 | [] \<Rightarrow> []);
          m = digits_rat a + digits_rat b / 10 ^ length b
      in if a = [] \<and> b = [] then None
         else case s2 of [] \<Rightarrow> Some m
         | c # cs \<Rightarrow> if c = CHR 0x65 \<or> c = CHR 0x45
             then (case (if cs = [] \<or> is_space (hd cs) then None else parse_int cs) of None \<Rightarrow> None | Some e \<Rightarrow> Some (m * power10 e))
             else None)"

definition parse_float :: "string \<Rightarrow> rat option" where
  "parse_float s = (case py_strip s of
     [] \<Rightarrow> None
   | c # cs \<Rightarrow> if c = CHR 0x2D then map_option uminus (unsigned_float cs)
       else if c = CHR 0x2B then unsigned_float cs else unsigned_float (c # cs))"

definition py_float :: "pyval \<Rightarrow> rat result" where
  "py_float v = (case v of
     VInt n \<Rightarrow> Inr (of_int n)
   | VBool b \<Rightarrow> Inr (if b then 1 else 0)
   | VFloat q \<Rightarrow> Inr q
   | VStr s \<Rightarrow> (case parse_float s of Some q \<Rightarrow> Inr q
       | None \<Rightarrow> Inl (Exc PyValueError (''could not convert string to float: '' @ quoted s)))
   | _ \<Rightarrow> Inl (Exc PyTypeError (''float() argument must be a string or a real number, not '' @ quoted (type_name v))))"

lemma py_float_simps [simp]: "py_float (VInt n) = Inr (of_int n)" "py_float (VFloat q) = Inr q"
  by (simp_all add: py_float_def)

lemma py_float_text: "py_float (VStr ''0.5'') = Inr (1 / 2) \<and> py_float (VStr '' -2e1'') = Inr (- 20)"
  by code_simp

subsection \<open>Texts\<close>

text \<open>\<open>str.lower\<close>, on the letters of Latin-1.\<close>

definition lower_char :: "char \<Rightarrow> char" where
  "lower_char c = (let n = of_char c :: nat in
     if (65 \<le> n \<and> n \<le> 90) \<or> (192 \<le> n \<and> n \<le> 222 \<and> n \<noteq> 215) then char_of (n + 32) else c)"

definition py_lower :: "string \<Rightarrow> string" where
  "py_lower s = map lower_char s"

definition py_contains :: "string \<Rightarrow> string \<Rightarrow> bool" where
  "py_contains s t = list_ex (prefix t) (suffixes s)"

definition remove_prefix :: "string \<Rightarrow> string \<Rightarrow> string" where
  "remove_prefix p s = (if prefix p s then drop (length p) s else s)"

subsection \<open>Clocks\<close>

record clock =
  iso_parse :: "string \<Rightarrow> int option"
  iso_text :: "int \<Rightarrow> string"

text \<open>\<open>fromisoformat\<close> reads what \<open>isoformat\<close> writes, which writes the offset of UTC without a Z.\<close>

definition clock_ok :: "clock \<Rightarrow> bool" where
  "clock_ok c = (\<forall>t. iso_parse c (iso_text c t) = Some t \<and> iso_text c t \<noteq> [] \<and> CHR 0x5A \<notin> set (iso_text c t))"

definition decimal_clock :: clock where
  "decimal_clock = \<lparr>iso_parse = parse_int, iso_text = show_int\<rparr>"

lemma show_int_ne [simp]: "show_int n \<noteq> []"
  using show_nat_digits by (auto simp: show_int_def)

lemma show_int_no_Z [simp]: "CHR 0x5A \<notin> set (show_int n)"
proof -
  have "CHR 0x5A \<notin> set (show_nat m)" for m using show_nat_digits [of m] by (auto simp: list_all_iff is_digit_def)
  then show ?thesis by (simp add: show_int_def)
qed

lemma decimal_clock_ok [simp]: "clock_ok decimal_clock"
  by (simp add: clock_ok_def decimal_clock_def)

text \<open>\<open>timedelta(seconds=q)\<close> in microseconds, rounded half to even.\<close>

definition seconds_us :: "rat \<Rightarrow> int" where
  "seconds_us q = (let x = q * 1000000; f = \<lfloor>x\<rfloor>; d = x - of_int f in
     if d < 1 / 2 then f else if d > 1 / 2 then f + 1 else if even f then f else f + 1)"

end
