(* ===== verification/WorkStore.thy ===== *)
theory WorkStore
  imports PyConvert
begin

text \<open>
  The durable work queue: the intents of \<open>palm/core/work/intent.py\<close> and the store of
  \<open>palm/system/subsystems/planes/work/store.py\<close> with its coalescing, exclusive claims with leases,
  acknowledgement and retry. The store reads and writes the contents of an open storage backend,
  which theory Storage shows to be a map from keys to values; every operation runs under the
  store's lock and is one step. Ids and time stamps that the code draws are arguments.
\<close>

subsection \<open>Work intents\<close>

record work_intent =
  wi_kind :: string
  wi_target :: string
  wi_id :: string
  wi_payload :: pydict
  wi_coalesce_key :: "string option"
  wi_not_before :: "string option"
  wi_created_at :: string
  wi_attempt :: int
  wi_depth :: int
  wi_status :: string
  wi_last_error :: pyval
  wi_claimed_by :: "string option"
  wi_lease_until :: "string option"

definition wi_to_dict :: "work_intent \<Rightarrow> pydict" where
  "wi_to_dict w = [(''id'', VStr (wi_id w)), (''kind'', VStr (wi_kind w)), (''target'', VStr (wi_target w)),
     (''payload'', VDict (wi_payload w)), (''coalesce_key'', opt_str_val (wi_coalesce_key w)),
     (''not_before'', opt_str_val (wi_not_before w)), (''created_at'', VStr (wi_created_at w)), (''attempt'', VInt (wi_attempt w)),
     (''depth'', VInt (wi_depth w)), (''status'', VStr (wi_status w)), (''last_error'', wi_last_error w),
     (''claimed_by'', opt_str_val (wi_claimed_by w)), (''lease_until'', opt_str_val (wi_lease_until w))]"

definition str_or_none :: "(pyval \<Rightarrow> string) \<Rightarrow> pyval \<Rightarrow> string option" where
  "str_or_none r v = (if v = VNone then None else Some (py_str r v))"

definition wi_from_dict :: "(pyval \<Rightarrow> string) \<Rightarrow> string \<Rightarrow> string \<Rightarrow> pydict \<Rightarrow> work_intent result" where
  "wi_from_dict r fresh now d =
     attempt (py_dict (py_or (py_get d ''payload'') (VDict []))) (\<lambda>payload.
     attempt (py_int (py_or (py_get d ''attempt'') (VInt 0))) (\<lambda>att.
     attempt (py_int (py_or (py_get d ''depth'') (VInt 0))) (\<lambda>dep.
       Inr \<lparr>wi_kind = py_str r (py_or (py_get d ''kind'') (VStr ''run_flow'')), wi_target = py_str r (py_or (py_get d ''target'') (VStr [])),
            wi_id = py_str r (py_or (py_get d ''id'') (VStr fresh)), wi_payload = payload,
            wi_coalesce_key = str_or_none r (py_get d ''coalesce_key''), wi_not_before = str_or_none r (py_get d ''not_before''),
            wi_created_at = py_str r (py_or (py_get d ''created_at'') (VStr now)), wi_attempt = att, wi_depth = dep,
            wi_status = py_str r (py_or (py_get d ''status'') (VStr ''pending'')), wi_last_error = py_get d ''last_error'',
            wi_claimed_by = str_or_none r (py_get d ''claimed_by''), wi_lease_until = str_or_none r (py_get d ''lease_until'')\<rparr>)))"

definition is_due :: "clock \<Rightarrow> int \<Rightarrow> work_intent \<Rightarrow> bool" where
  "is_due c now w = (case wi_not_before w of None \<Rightarrow> True | Some s \<Rightarrow>
     if s = [] then True else case iso_parse c s of None \<Rightarrow> True | Some due \<Rightarrow> now \<ge> due)"

definition lease_expired :: "clock \<Rightarrow> int \<Rightarrow> work_intent \<Rightarrow> bool" where
  "lease_expired c now w =
     (if wi_status w \<noteq> ''claimed'' then False
      else case wi_lease_until w of None \<Rightarrow> True | Some s \<Rightarrow>
        if s = [] then True else case iso_parse c s of None \<Rightarrow> True | Some until \<Rightarrow> now \<ge> until)"

subsection \<open>The store\<close>

type_synonym kv = pydict

definition WORK_PENDING_INDEX :: string where "WORK_PENDING_INDEX = ''palm:work:pending_index''"
definition WORK_ENTRY_PREFIX :: string where "WORK_ENTRY_PREFIX = ''palm:work:entry:''"
definition WORK_COALESCE_PREFIX :: string where "WORK_COALESCE_PREFIX = ''palm:work:coalesce:''"

abbreviation entry_key :: "string \<Rightarrow> string" where "entry_key i \<equiv> WORK_ENTRY_PREFIX @ i"
abbreviation coalesce_key :: "string \<Rightarrow> string" where "coalesce_key k \<equiv> WORK_COALESCE_PREFIX @ k"

definition load_index :: "(pyval \<Rightarrow> string) \<Rightarrow> kv \<Rightarrow> string list" where
  "load_index r s = (case py_get s WORK_PENDING_INDEX of VList xs \<Rightarrow> map (py_str r) xs | _ \<Rightarrow> [])"

definition save_index :: "string list \<Rightarrow> kv \<Rightarrow> kv" where
  "save_index idx s = dict_set WORK_PENDING_INDEX (VList (map VStr idx)) s"

definition remove_pending :: "(pyval \<Rightarrow> string) \<Rightarrow> string \<Rightarrow> kv \<Rightarrow> kv" where
  "remove_pending r i s = (let idx = load_index r s in if i \<in> set idx then save_index (remove1 i idx) s else s)"

definition released :: "string \<Rightarrow> pydict \<Rightarrow> pydict" where
  "released st d = dict_set ''lease_until'' VNone (dict_set ''claimed_by'' VNone (dict_set ''status'' (VStr st) d))"

text \<open>\<open>if intent.coalesce_key\<close>: an empty key is no key.\<close>

definition key_of :: "work_intent \<Rightarrow> string option" where
  "key_of w = (case wi_coalesce_key w of Some k \<Rightarrow> if k = [] then None else Some k | None \<Rightarrow> None)"

definition ws_enqueue :: "(pyval \<Rightarrow> string) \<Rightarrow> work_intent \<Rightarrow> kv \<Rightarrow> string \<times> kv" where
  "ws_enqueue r w s =
     (let key = key_of w;
          s1 = (case key of None \<Rightarrow> s | Some k \<Rightarrow> (case py_get s (coalesce_key k) of
                  VStr old \<Rightarrow> if old = [] then s else remove_pending r old s | _ \<Rightarrow> s));
          s2 = dict_set (entry_key (wi_id w)) (VDict (released ''pending'' (wi_to_dict w))) s1;
          idx = load_index r s2;
          s3 = (if wi_id w \<in> set idx then s2 else save_index (idx @ [wi_id w]) s2);
          s4 = (case key of None \<Rightarrow> s3 | Some k \<Rightarrow> dict_set (coalesce_key k) (VStr (wi_id w)) s3)
      in (wi_id w, s4))"

text \<open>
  The loop of \<open>claim_due\<close> over the ids of the index. The entry is read a second time before it is
  stamped; nothing can have changed it under the lock.
\<close>

fun claim_loop :: "(pyval \<Rightarrow> string) \<Rightarrow> clock \<Rightarrow> (string \<Rightarrow> string) \<Rightarrow> int \<Rightarrow> string \<Rightarrow> int \<Rightarrow> string \<Rightarrow> work_intent list
    \<Rightarrow> string list \<Rightarrow> kv \<Rightarrow> work_intent list result \<times> kv" where
  "claim_loop r c fresh limit claimer now until got [] s = (Inr got, s)"
| "claim_loop r c fresh limit claimer now until got (i # is) s =
     (if int (length got) \<ge> limit then (Inr got, s)
      else case py_get s (entry_key i) of
        VDict d \<Rightarrow>
          (case wi_from_dict r (fresh i) (iso_text c now) d of
             Inl x \<Rightarrow> (Inl x, s)
           | Inr w \<Rightarrow>
              if wi_status w \<noteq> ''pending'' \<or> \<not> is_due c now w
                \<or> py_str r (py_or (py_get d ''status'') (VStr [])) \<noteq> ''pending''
              then claim_loop r c fresh limit claimer now until got is s
              else (case wi_from_dict r (fresh i) (iso_text c now)
                      (dict_set ''lease_until'' (VStr until) (dict_set ''claimed_by'' (VStr claimer)
                        (dict_set ''status'' (VStr ''claimed'') d))) of
                  Inl x \<Rightarrow> (Inl x, s)
                | Inr u \<Rightarrow> claim_loop r c fresh limit claimer now until (got @ [u]) is
                    (dict_set (entry_key i) (VDict (wi_to_dict u)) s)))
      | _ \<Rightarrow> claim_loop r c fresh limit claimer now until got is (remove_pending r i s))"

definition DEFAULT_CLAIMER_ID :: string where "DEFAULT_CLAIMER_ID = ''default''"

definition ws_claim_due :: "(pyval \<Rightarrow> string) \<Rightarrow> clock \<Rightarrow> (string \<Rightarrow> string) \<Rightarrow> int \<Rightarrow> string \<Rightarrow> int \<Rightarrow> int \<Rightarrow> kv
    \<Rightarrow> work_intent list result \<times> kv" where
  "ws_claim_due r c fresh limit claimer_id now lease_us s =
     (let claimer = (if claimer_id = [] then DEFAULT_CLAIMER_ID else claimer_id);
          lease = max 100000 lease_us
      in claim_loop r c fresh limit claimer now (iso_text c (now + lease)) [] (load_index r s) s)"

fun reclaim_loop :: "(pyval \<Rightarrow> string) \<Rightarrow> clock \<Rightarrow> (string \<Rightarrow> string) \<Rightarrow> int \<Rightarrow> int \<Rightarrow> string list \<Rightarrow> kv \<Rightarrow> int result \<times> kv" where
  "reclaim_loop r c fresh now n [] s = (Inr n, s)"
| "reclaim_loop r c fresh now n (i # is) s =
     (case py_get s (entry_key i) of
        VDict d \<Rightarrow>
          (case wi_from_dict r (fresh i) (iso_text c now) d of
             Inl x \<Rightarrow> (Inl x, s)
           | Inr w \<Rightarrow>
              if wi_status w \<noteq> ''claimed'' \<or> \<not> lease_expired c now w then reclaim_loop r c fresh now n is s
              else (case wi_from_dict r (fresh i) (iso_text c now) (released ''pending'' (wi_to_dict w)) of
                  Inl x \<Rightarrow> (Inl x, s)
                | Inr u \<Rightarrow> reclaim_loop r c fresh now (n + 1) is (dict_set (entry_key i) (VDict (wi_to_dict u)) s)))
      | _ \<Rightarrow> reclaim_loop r c fresh now n is (remove_pending r i s))"

definition ws_reclaim_expired :: "(pyval \<Rightarrow> string) \<Rightarrow> clock \<Rightarrow> (string \<Rightarrow> string) \<Rightarrow> int \<Rightarrow> kv \<Rightarrow> int result \<times> kv" where
  "ws_reclaim_expired r c fresh now s = reclaim_loop r c fresh now 0 (load_index r s) s"

text \<open>Only the owner of a claim may finish it, when a claimer is named and there is an owner.\<close>

definition foreign_claim :: "(pyval \<Rightarrow> string) \<Rightarrow> string option \<Rightarrow> pydict \<Rightarrow> bool" where
  "foreign_claim r claimer d = (case claimer of None \<Rightarrow> False | Some cid \<Rightarrow>
     (case py_get d ''claimed_by'' of VNone \<Rightarrow> False | owner \<Rightarrow> py_str r owner \<noteq> cid))"

definition ws_ack :: "(pyval \<Rightarrow> string) \<Rightarrow> string \<Rightarrow> string option \<Rightarrow> kv \<Rightarrow> bool \<times> kv" where
  "ws_ack r i claimer s = (case py_get s (entry_key i) of
     VDict d \<Rightarrow>
       if foreign_claim r claimer d then (False, s)
       else let d1 = released ''done'' d;
                s1 = dict_set (entry_key i) (VDict d1) s;
                ck = py_get d1 ''coalesce_key'';
                s2 = (if truthy ck \<and> py_eq (py_get s1 (coalesce_key (py_str r ck))) (VStr i)
                      then dict_pop (coalesce_key (py_str r ck)) s1 else s1)
            in (True, remove_pending r i s2)
   | _ \<Rightarrow> (False, remove_pending r i s))"

definition ws_fail :: "(pyval \<Rightarrow> string) \<Rightarrow> string \<Rightarrow> string \<Rightarrow> string option \<Rightarrow> kv \<Rightarrow> bool result \<times> kv" where
  "ws_fail r i err claimer s = (case py_get s (entry_key i) of
     VDict d \<Rightarrow>
       if foreign_claim r claimer d then (Inr False, s)
       else (case py_int (py_or (py_get d ''attempt'') (VInt 0)) of
           Inl x \<Rightarrow> (Inl x, s)
         | Inr n \<Rightarrow>
            let d1 = dict_set ''last_error'' (VStr err) (dict_set ''attempt'' (VInt (n + 1)) d)
            in if n + 1 \<ge> 5 then (Inr True, remove_pending r i (dict_set (entry_key i) (VDict (released ''failed'' d1)) s))
               else (Inr True, dict_set (entry_key i) (VDict (released ''pending'' d1)) s))
   | _ \<Rightarrow> (Inr False, remove_pending r i s))"

definition ws_pending_count :: "(pyval \<Rightarrow> string) \<Rightarrow> kv \<Rightarrow> nat" where
  "ws_pending_count r s = length (load_index r s)"

primrec list_pending_loop :: "(pyval \<Rightarrow> string) \<Rightarrow> (string \<Rightarrow> string) \<Rightarrow> string \<Rightarrow> kv \<Rightarrow> string list \<Rightarrow> work_intent list result" where
  "list_pending_loop r fresh now s [] = Inr []"
| "list_pending_loop r fresh now s (i # is) = (case py_get s (entry_key i) of
     VDict d \<Rightarrow> attempt (wi_from_dict r (fresh i) now d) (\<lambda>w. attempt (list_pending_loop r fresh now s is) (\<lambda>ws. Inr (w # ws)))
   | _ \<Rightarrow> list_pending_loop r fresh now s is)"

definition ws_list_pending :: "(pyval \<Rightarrow> string) \<Rightarrow> (string \<Rightarrow> string) \<Rightarrow> string \<Rightarrow> nat \<Rightarrow> kv \<Rightarrow> work_intent list result" where
  "ws_list_pending r fresh now limit s = list_pending_loop r fresh now s (take limit (load_index r s))"

end
