(* ===== verification/Triggers.thy ===== *)
theory Triggers
  imports WorkStore
begin

text \<open>
  Triggers of flow definitions (\<open>palm/common/triggers\<close>): parsing the trigger metadata and matching
  live events to work intents, with debouncing. Fresh ids are drawn from a supply by the position of
  the trigger; the wall clock is an argument.
\<close>

subsection \<open>Parsing\<close>

datatype trigger_kind = T_SCHEDULE | T_ON_FLOW | T_ON_RESOURCE | T_ON_WORKLOAD

fun trigger_kind_value :: "trigger_kind \<Rightarrow> string" where
  "trigger_kind_value T_SCHEDULE = ''schedule''" | "trigger_kind_value T_ON_FLOW = ''on_flow''"
| "trigger_kind_value T_ON_RESOURCE = ''on_resource''" | "trigger_kind_value T_ON_WORKLOAD = ''on_workload''"

record trigger_spec =
  ts_kind :: trigger_kind
  ts_work_flow_id :: string
  ts_coalesce_key :: "string option"
  ts_interval_seconds :: "int option"
  ts_source_flow :: "string option"
  ts_when :: string
  ts_resource :: "string option"
  ts_actions :: "string list"
  ts_workload_when :: string
  ts_workload_labels :: "(string, string) dict"
  ts_workload_runtime :: "string option"
  ts_debounce_seconds :: rat
  ts_raw :: pydict

definition plain_spec :: "trigger_kind \<Rightarrow> string \<Rightarrow> string option \<Rightarrow> pydict \<Rightarrow> trigger_spec" where
  "plain_spec k flow key raw = \<lparr>ts_kind = k, ts_work_flow_id = flow, ts_coalesce_key = key, ts_interval_seconds = None,
     ts_source_flow = None, ts_when = ''succeeded'', ts_resource = None, ts_actions = [], ts_workload_when = ''stopped'',
     ts_workload_labels = [], ts_workload_runtime = None, ts_debounce_seconds = 0, ts_raw = raw\<rparr>"

definition or_text :: "(pyval \<Rightarrow> string) \<Rightarrow> pyval \<Rightarrow> string \<Rightarrow> string" where
  "or_text r v dflt = py_str r (py_or v (VStr dflt))"

definition as_dict :: "pyval \<Rightarrow> pydict" where
  "as_dict v = (case v of VDict d \<Rightarrow> d | _ \<Rightarrow> [])"

definition if_empty :: "string \<Rightarrow> string \<Rightarrow> string" where
  "if_empty dflt s = (if s = [] then dflt else s)"

definition parse_actions :: "(pyval \<Rightarrow> string) \<Rightarrow> pyval \<Rightarrow> string list" where
  "parse_actions r v =
     (let actions = (case v of
            VStr s \<Rightarrow> [py_lower s]
          | VList xs \<Rightarrow> map (py_lower \<circ> py_str r) (filter truthy xs)
          | _ \<Rightarrow> [''put''])
      in if actions = [] then [''put''] else actions)"

text \<open>A debounce that is not a number is no debounce.\<close>

definition parse_debounce :: "pydict \<Rightarrow> rat" where
  "parse_debounce item =
     (case py_float (py_or (py_or (py_get item ''debounce'') (py_get item ''debounce_seconds'')) (VInt 0)) of
        Inr q \<Rightarrow> q | Inl _ \<Rightarrow> 0)"

definition parse_one :: "(pyval \<Rightarrow> string) \<Rightarrow> pydict \<Rightarrow> trigger_spec option" where
  "parse_one r item =
     (let kind = py_lower (py_strip (or_text r (py_get item ''kind'') []));
          work = as_dict (py_get item ''work'');
          flow_id = py_strip (or_text r (py_or (py_or (py_get work ''flow_id'') (py_get item ''flow_id'')) (py_get item ''target'')) []);
          coalesce = py_or (py_get work ''coalesce_key'') (py_get item ''coalesce_key'');
          key = (\<lambda>dflt. Some (if truthy coalesce then if_empty dflt (py_str r coalesce) else dflt))
      in
      if kind = ''schedule'' then
        (if flow_id = [] then None
         else Some ((plain_spec T_SCHEDULE flow_id (key (''schedule:'' @ flow_id)) item)
           \<lparr>ts_interval_seconds := (if py_get item ''interval_seconds'' = VNone then None
               else case py_int (py_get item ''interval_seconds'') of Inr n \<Rightarrow> Some n | Inl _ \<Rightarrow> None)\<rparr>))
      else if kind = ''on_flow'' then
        (let source = py_strip (or_text r (py_or (py_get item ''flow'') (py_get item ''source_flow'')) []);
             when = py_lower (py_strip (or_text r (py_get item ''when'') ''succeeded''));
             target = if_empty (py_strip (or_text r (py_get work ''flow_id'') [])) flow_id
         in if source = [] \<or> target = [] then None
            else Some ((plain_spec T_ON_FLOW target (key (''on_flow:'' @ source @ '':'' @ target)) item)
              \<lparr>ts_source_flow := Some source, ts_when := when\<rparr>))
      else if kind = ''on_resource'' then
        (let resource = py_strip (or_text r (py_get item ''resource'') [])
         in if resource = [] \<or> flow_id = [] then None
            else Some ((plain_spec T_ON_RESOURCE flow_id (key (''on_resource:'' @ resource @ '':'' @ flow_id)) item)
              \<lparr>ts_resource := Some resource, ts_actions := parse_actions r (py_or (py_get item ''actions'') (VList [VStr ''put''])),
               ts_debounce_seconds := parse_debounce item\<rparr>))
      else if kind = ''on_workload'' then
        (if flow_id = [] then None
         else
           let when = remove_prefix ''workload.'' (py_lower (py_strip (or_text r (py_get item ''when'') ''stopped'')));
               labels = map (\<lambda>(k, v). (k, py_str r v)) (as_dict (py_or (py_get item ''labels'') (VDict [])));
               runtime = py_or (py_get item ''runtime'') (py_get item ''workload_runtime'')
           in Some ((plain_spec T_ON_WORKLOAD flow_id (key (''on_workload:'' @ when @ '':'' @ flow_id)) item)
              \<lparr>ts_workload_when := if_empty ''stopped'' when, ts_workload_labels := labels,
               ts_workload_runtime := (if truthy runtime \<and> py_strip (py_str r runtime) \<noteq> [] then Some (py_strip (py_str r runtime)) else None),
               ts_debounce_seconds := parse_debounce item\<rparr>))
      else None)"

text \<open>The refresh target of the analytics metadata is a schedule; its interval is converted without a guard.\<close>

definition parse_refresh :: "(pyval \<Rightarrow> string) \<Rightarrow> pydict \<Rightarrow> trigger_spec list result" where
  "parse_refresh r metadata = (case py_get metadata ''analytics'' of
     VDict analytics \<Rightarrow> (case py_get analytics ''refresh'' of
       VDict refresh \<Rightarrow>
         (let flow = py_get refresh ''flow_id'' in
          if \<not> truthy flow then Inr []
          else attempt (if py_get refresh ''interval_seconds'' = VNone then Inr None
                        else map_sum id Some (py_int (py_get refresh ''interval_seconds''))) (\<lambda>iv.
            Inr [(plain_spec T_SCHEDULE (py_str r flow) (Some (''refresh:'' @ py_str r flow)) [(''from'', VStr ''analytics.refresh'')])
                   \<lparr>ts_interval_seconds := iv\<rparr>]))
     | _ \<Rightarrow> Inr [])
   | _ \<Rightarrow> Inr [])"

definition parse_triggers :: "(pyval \<Rightarrow> string) \<Rightarrow> pyval \<Rightarrow> trigger_spec list result" where
  "parse_triggers r metadata = (case metadata of
     VDict m \<Rightarrow>
       (let listed = (case py_get m ''triggers'' of
              VList xs \<Rightarrow> List.map_filter (\<lambda>x. case x of VDict item \<Rightarrow> parse_one r item | _ \<Rightarrow> None) xs
            | _ \<Rightarrow> [])
        in attempt (parse_refresh r m) (\<lambda>more. Inr (listed @ more)))
   | _ \<Rightarrow> Inr [])"

subsection \<open>The registry\<close>

record trigger_registry =
  tr_specs :: "(string \<times> trigger_spec) list"
  tr_schedule_last :: "(string, rat) dict"
  tr_debounce_last :: "(string, rat) dict"

definition new_triggers :: trigger_registry where
  "new_triggers = \<lparr>tr_specs = [], tr_schedule_last = [], tr_debounce_last = []\<rparr>"

text \<open>
  The metadata of a row: what the callback returns (an exception counts as None), or the metadata of
  the row itself.
\<close>

definition row_metadata :: "(string \<Rightarrow> pyval result) option \<Rightarrow> string \<Rightarrow> pydict \<Rightarrow> pyval" where
  "row_metadata get_metadata name row =
     (let m = (case get_metadata of None \<Rightarrow> VNone | Some f \<Rightarrow> (case f name of Inr v \<Rightarrow> v | Inl _ \<Rightarrow> VNone))
      in if m = VNone then py_get row ''metadata'' else m)"

definition row_name :: "(pyval \<Rightarrow> string) \<Rightarrow> pydict \<Rightarrow> string" where
  "row_name r row = py_strip (or_text r (py_or (py_get row ''name'') (py_get row ''flow_id'')) [])"

fun reload_loop :: "(pyval \<Rightarrow> string) \<Rightarrow> (string \<Rightarrow> pyval result) option \<Rightarrow> pyval list \<Rightarrow> trigger_registry
    \<Rightarrow> unit result \<times> trigger_registry" where
  "reload_loop r gm [] t = (Inr (), t)"
| "reload_loop r gm (VDict row # rows) t =
     (let name = row_name r row in
      if name = [] then reload_loop r gm rows t
      else case parse_triggers r (row_metadata gm name row) of
        Inl x \<Rightarrow> (Inl x, t)
      | Inr specs \<Rightarrow> reload_loop r gm rows (t\<lparr>tr_specs := tr_specs t @ map (Pair name) specs\<rparr>))"
| "reload_loop r gm (_ # rows) t = reload_loop r gm rows t"

definition reload_from_flow_rows :: "(pyval \<Rightarrow> string) \<Rightarrow> (string \<Rightarrow> pyval result) option \<Rightarrow> pyval list \<Rightarrow> trigger_registry
    \<Rightarrow> nat result \<times> trigger_registry" where
  "reload_from_flow_rows r gm rows t =
     (case reload_loop r gm rows (t\<lparr>tr_specs := []\<rparr>) of
        (Inl x, t1) \<Rightarrow> (Inl x, t1)
      | (Inr _, t1) \<Rightarrow> (Inr (length (tr_specs t1)), t1))"

definition session_from_signal :: "(pyval \<Rightarrow> string) \<Rightarrow> pydict \<Rightarrow> string option" where
  "session_from_signal r payload =
     (let raw = py_get payload ''session_id''; text = py_strip (py_str r raw)
      in if raw = VNone then None else if prefix ''sess-'' text then Some text else None)"

definition with_inherited_session :: "(pyval \<Rightarrow> string) \<Rightarrow> pydict \<Rightarrow> pydict \<Rightarrow> pydict" where
  "with_inherited_session r base payload = (case session_from_signal r payload of
     Some sid \<Rightarrow> dict_set ''session_id'' (VStr sid) base | None \<Rightarrow> base)"

definition triggered :: "string \<Rightarrow> string \<Rightarrow> trigger_spec \<Rightarrow> pydict \<Rightarrow> int \<Rightarrow> work_intent" where
  "triggered fresh now spec payload depth = \<lparr>wi_kind = ''run_flow'', wi_target = ts_work_flow_id spec, wi_id = fresh, wi_payload = payload,
     wi_coalesce_key = ts_coalesce_key spec, wi_not_before = None, wi_created_at = now, wi_attempt = 0, wi_depth = depth,
     wi_status = ''pending'', wi_last_error = VNone, wi_claimed_by = None, wi_lease_until = None\<rparr>"

definition none_if_empty :: "string \<Rightarrow> pyval" where
  "none_if_empty s = (if s = [] then VNone else VStr s)"

definition opt_text :: "string option \<Rightarrow> string" where
  "opt_text s = (case s of None \<Rightarrow> [] | Some t \<Rightarrow> t)"

definition FLOW_SUCCESS :: "string set" where
  "FLOW_SUCCESS = {''flow.session.succeeded'', ''wizard.commit.succeeded''}"

definition match_payload :: "(pyval \<Rightarrow> string) \<Rightarrow> trigger_spec \<Rightarrow> string \<Rightarrow> pydict \<Rightarrow> int \<Rightarrow> pydict option" where
  "match_payload r spec et payload depth = (case ts_kind spec of
     T_SCHEDULE \<Rightarrow> None
   | T_ON_RESOURCE \<Rightarrow>
      (let ref = or_text r (py_get payload ''resource_ref'') []; def_name = or_text r (py_get payload ''definition_name'') [];
           want = opt_text (ts_resource spec); action = py_lower (or_text r (py_get payload ''action'') [])
       in if et \<noteq> ''resource.changed'' then None
          else if want \<noteq> [] \<and> ref \<noteq> want \<and> def_name \<noteq> want then None
          else if ts_actions spec \<noteq> [] \<and> action \<notin> set (ts_actions spec) then None
          else Some (with_inherited_session r [(''trigger'', VStr ''on_resource''), (''resource_ref'', VStr ref),
                 (''definition_name'', none_if_empty def_name), (''action'', VStr action), (''depth'', VInt depth)] payload))
   | T_ON_FLOW \<Rightarrow>
      (let flow_id = or_text r (py_or (py_get payload ''flow_id'') (py_get payload ''flow_name'')) []
       in if et \<notin> FLOW_SUCCESS \<and> \<not> suffix (ts_when spec) et then None
          else if flow_id \<noteq> opt_text (ts_source_flow spec) then None
          else if ts_when spec \<noteq> [] \<and> \<not> py_contains et (ts_when spec) \<and> et \<notin> FLOW_SUCCESS then None
          else Some (with_inherited_session r [(''trigger'', VStr ''on_flow''), (''source_flow'', VStr flow_id), (''depth'', VInt depth)] payload))
   | T_ON_WORKLOAD \<Rightarrow>
      (let sfx = remove_prefix ''workload.'' et; want = py_lower (if_empty ''stopped'' (ts_workload_when spec));
           labels = as_dict (py_get payload ''labels'')
       in if \<not> prefix ''workload.'' et then None
          else if want \<notin> {sfx, et, ''workload.'' @ sfx} then None
          else if (case ts_workload_runtime spec of None \<Rightarrow> False | Some rt \<Rightarrow> rt \<noteq> [] \<and> or_text r (py_get payload ''runtime'') [] \<noteq> rt) then None
          else if \<not> list_all (\<lambda>(k, v). or_text r (py_get labels k) [] = v) (ts_workload_labels spec) then None
          else Some (with_inherited_session r [(''trigger'', VStr ''on_workload''), (''event_type'', VStr et),
                 (''workload_id'', py_get payload ''workload_id''), (''status'', py_get payload ''status''),
                 (''runtime'', py_get payload ''runtime''), (''exit_code'', py_get payload ''exit_code''),
                 (''labels'', VDict labels), (''depth'', VInt depth)] payload)))"

definition match_trigger :: "(pyval \<Rightarrow> string) \<Rightarrow> string \<Rightarrow> string \<Rightarrow> trigger_spec \<Rightarrow> string \<Rightarrow> pydict \<Rightarrow> int \<Rightarrow> work_intent option" where
  "match_trigger r fresh now spec et payload parent_depth =
     map_option (\<lambda>p. triggered fresh now spec p (parent_depth + 1)) (match_payload r spec et payload (parent_depth + 1))"

definition debounce_key :: "trigger_spec \<Rightarrow> work_intent \<Rightarrow> string" where
  "debounce_key spec w = (case key_of w of Some k \<Rightarrow> k
     | None \<Rightarrow> trigger_kind_value (ts_kind spec) @ '':'' @ ts_work_flow_id spec)"

definition debounce_allows :: "trigger_spec \<Rightarrow> work_intent \<Rightarrow> rat \<Rightarrow> (string, rat) dict \<Rightarrow> bool \<times> (string, rat) dict" where
  "debounce_allows spec w now seen =
     (if ts_debounce_seconds spec \<le> 0 then (True, seen)
      else let key = debounce_key spec w in
        if (case dict_get seen key of None \<Rightarrow> False | Some t \<Rightarrow> now - t < ts_debounce_seconds spec) then (False, seen)
        else (True, dict_set key now seen))"

fun event_loop :: "(pyval \<Rightarrow> string) \<Rightarrow> (nat \<Rightarrow> string) \<Rightarrow> string \<Rightarrow> rat \<Rightarrow> string \<Rightarrow> pydict \<Rightarrow> int \<Rightarrow> nat \<Rightarrow> (string \<times> trigger_spec) list
    \<Rightarrow> (string, rat) dict \<Rightarrow> work_intent list \<times> (string, rat) dict" where
  "event_loop r fresh stamp_text now et payload d n [] seen = ([], seen)"
| "event_loop r fresh stamp_text now et payload d n ((ow, spec) # specs) seen =
     (case match_trigger r (fresh n) stamp_text spec et payload d of
        None \<Rightarrow> event_loop r fresh stamp_text now et payload d (Suc n) specs seen
      | Some w \<Rightarrow> (case debounce_allows spec w now seen of
          (False, seen1) \<Rightarrow> event_loop r fresh stamp_text now et payload d (Suc n) specs seen1
        | (True, seen1) \<Rightarrow> map_prod (Cons w) id (event_loop r fresh stamp_text now et payload d (Suc n) specs seen1)))"

definition parent_depth :: "pydict \<Rightarrow> int result" where
  "parent_depth payload = py_int (py_or (py_or (py_get payload ''depth'') (py_get payload ''work_depth'')) (VInt 0))"

definition on_event :: "(pyval \<Rightarrow> string) \<Rightarrow> (nat \<Rightarrow> string) \<Rightarrow> string \<Rightarrow> rat \<Rightarrow> string \<Rightarrow> pydict \<Rightarrow> trigger_registry
    \<Rightarrow> work_intent list result \<times> trigger_registry" where
  "on_event r fresh stamp_text now et payload t =
     (case parent_depth payload of
        Inl x \<Rightarrow> (Inl x, t)
      | Inr d \<Rightarrow> (case event_loop r fresh stamp_text now et payload d 0 (tr_specs t) (tr_debounce_last t) of
          (ws, seen) \<Rightarrow> (Inr ws, t\<lparr>tr_debounce_last := seen\<rparr>)))"

fun due_loop :: "(nat \<Rightarrow> string) \<Rightarrow> string \<Rightarrow> rat \<Rightarrow> nat \<Rightarrow> (string \<times> trigger_spec) list \<Rightarrow> (string, rat) dict
    \<Rightarrow> work_intent list \<times> (string, rat) dict" where
  "due_loop fresh stamp_text now n [] seen = ([], seen)"
| "due_loop fresh stamp_text now n ((ow, spec) # specs) seen =
     (case (if ts_kind spec = T_SCHEDULE then ts_interval_seconds spec else None) of
        None \<Rightarrow> due_loop fresh stamp_text now (Suc n) specs seen
      | Some iv \<Rightarrow>
          (let key = (case ts_coalesce_key spec of Some k \<Rightarrow> if_empty (ts_work_flow_id spec) k | None \<Rightarrow> ts_work_flow_id spec);
               prev = (case dict_get seen key of Some t \<Rightarrow> t | None \<Rightarrow> 0)
           in if iv < 0 \<or> now - prev < of_int iv then due_loop fresh stamp_text now (Suc n) specs seen
              else map_prod (Cons (triggered (fresh n) stamp_text spec [(''trigger'', VStr ''schedule'')] 0)) id
                     (due_loop fresh stamp_text now (Suc n) specs (dict_set key now seen))))"

definition due_schedules :: "(nat \<Rightarrow> string) \<Rightarrow> string \<Rightarrow> rat \<Rightarrow> trigger_registry \<Rightarrow> work_intent list \<times> trigger_registry" where
  "due_schedules fresh stamp_text now t =
     (case due_loop fresh stamp_text now 0 (tr_specs t) (tr_schedule_last t) of (ws, seen) \<Rightarrow> (ws, t\<lparr>tr_schedule_last := seen\<rparr>))"

end
