(* ===== verification/WorkPlane.thy ===== *)
theory WorkPlane
  imports Triggers
begin

text \<open>
  The start plane (\<open>palm/system/subsystems/planes/work\<close>): durable schedules (\<open>schedule.py\<close>) and the
  plane service (\<open>plane.py\<close>) that takes triggers, schedules and direct requests into the work queue
  and starts due work. The contents of the storage backend, the trigger registry and the rest of the
  machine are the state; starting a flow is a function on that state which may raise. The polling
  threads only call \<open>tick_schedules\<close> and \<open>tick\<close>, so an execution of several of them is a sequence of
  store operations by several claimers.
\<close>

subsection \<open>Schedules\<close>

definition SCHEDULE_PREFIX :: string where "SCHEDULE_PREFIX = ''palm:schedule:entry:''"
definition SCHEDULE_INDEX :: string where "SCHEDULE_INDEX = ''palm:schedule:index''"

abbreviation schedule_key :: "string \<Rightarrow> string" where "schedule_key i \<equiv> SCHEDULE_PREFIX @ i"

definition schedule_index :: "(pyval \<Rightarrow> string) \<Rightarrow> kv \<Rightarrow> string list" where
  "schedule_index r s = (case py_get s SCHEDULE_INDEX of VList xs \<Rightarrow> map (py_str r) (filter truthy xs) | _ \<Rightarrow> [])"

definition save_schedule_index :: "string list \<Rightarrow> kv \<Rightarrow> kv" where
  "save_schedule_index idx s = dict_set SCHEDULE_INDEX (VList (map VStr idx)) s"

definition schedule_upsert :: "(pyval \<Rightarrow> string) \<Rightarrow> clock \<Rightarrow> int \<Rightarrow> string \<Rightarrow> string \<Rightarrow> rat \<Rightarrow> bool \<Rightarrow> pydict \<Rightarrow> string option \<Rightarrow> bool
    \<Rightarrow> kv \<Rightarrow> pydict result \<times> kv" where
  "schedule_upsert r c now schedule_id flow interval enabled payload key preserve s =
     (let sid = py_strip schedule_id in
      if sid = [] then (Inl (Exc PyValueError ''schedule_id required''), s)
      else if interval \<le> 0 then (Inl (Exc PyValueError ''interval_seconds must be > 0''), s)
      else
        let existing = as_dict (py_get s (schedule_key sid));
            next = (if preserve \<and> truthy (py_get existing ''next_fire_at'') then py_str r (py_get existing ''next_fire_at'')
                    else iso_text c now);
            entry0 = [(''id'', VStr sid), (''flow_id'', VStr flow), (''interval_seconds'', VFloat interval), (''enabled'', VBool enabled),
                      (''payload'', VDict payload),
                      (''coalesce_key'', VStr (if_empty (''schedule:'' @ sid) (opt_text key))), (''next_fire_at'', VStr next)];
            entry = (if truthy (py_get existing ''last_fire_at'')
                     then entry0 @ [(''last_fire_at'', py_get existing ''last_fire_at'')] else entry0);
            s1 = dict_set (schedule_key sid) (VDict entry) s;
            idx = schedule_index r s1
        in (Inr entry, if sid \<in> set idx then s1 else save_schedule_index (idx @ [sid]) s1))"

definition schedule_remove :: "(pyval \<Rightarrow> string) \<Rightarrow> string \<Rightarrow> kv \<Rightarrow> bool \<times> kv" where
  "schedule_remove r schedule_id s =
     (let sid = py_strip schedule_id; had = (py_get s (schedule_key sid) \<noteq> VNone); s1 = dict_pop (schedule_key sid) s
      in (had, save_schedule_index (filter (\<lambda>x. x \<noteq> sid) (schedule_index r s1)) s1))"

definition schedule_entries :: "(pyval \<Rightarrow> string) \<Rightarrow> kv \<Rightarrow> pydict list" where
  "schedule_entries r s =
     List.map_filter (\<lambda>sid. case py_get s (schedule_key sid) of VDict d \<Rightarrow> Some d | _ \<Rightarrow> None) (schedule_index r s)"

definition replace_Z :: "string \<Rightarrow> string" where
  "replace_Z s = concat (map (\<lambda>ch. if ch = CHR 0x5A then ''+00:00'' else [ch]) s)"

text \<open>An unreadable fire time is due now.\<close>

definition next_fire :: "(pyval \<Rightarrow> string) \<Rightarrow> clock \<Rightarrow> int \<Rightarrow> pydict \<Rightarrow> int" where
  "next_fire r c now d = (case iso_parse c (replace_Z (or_text r (py_get d ''next_fire_at'') [])) of Some t \<Rightarrow> t | None \<Rightarrow> now)"

definition schedule_intent :: "(pyval \<Rightarrow> string) \<Rightarrow> string \<Rightarrow> string \<Rightarrow> string \<Rightarrow> pydict \<Rightarrow> pydict \<Rightarrow> work_intent" where
  "schedule_intent r fresh created sid d payload =
     \<lparr>wi_kind = ''run_flow'', wi_target = or_text r (py_get d ''flow_id'') [], wi_id = fresh,
      wi_payload = dict_setdefault ''trigger'' (VStr ''schedule'') payload,
      wi_coalesce_key = Some (or_text r (py_get d ''coalesce_key'') (''schedule:'' @ sid)), wi_not_before = None, wi_created_at = created,
      wi_attempt = 0, wi_depth = 0, wi_status = ''pending'', wi_last_error = VNone, wi_claimed_by = None, wi_lease_until = None\<rparr>"

fun schedule_loop :: "(pyval \<Rightarrow> string) \<Rightarrow> clock \<Rightarrow> (string \<Rightarrow> string) \<Rightarrow> string \<Rightarrow> int \<Rightarrow> int \<Rightarrow> string list \<Rightarrow> string list \<Rightarrow> kv
    \<Rightarrow> string list result \<times> kv" where
  "schedule_loop r c fresh created now limit fired [] s = (Inr fired, s)"
| "schedule_loop r c fresh created now limit fired (sid # sids) s =
     (if int (length fired) \<ge> limit then (Inr fired, s)
      else case py_get s (schedule_key sid) of
        VDict d \<Rightarrow>
          if \<not> truthy (get_default d ''enabled'' (VBool True)) \<or> next_fire r c now d > now
          then schedule_loop r c fresh created now limit fired sids s
          else (case py_float (py_or (py_get d ''interval_seconds'') (VInt 60)) of Inl x \<Rightarrow> (Inl x, s) | Inr interval \<Rightarrow>
               (case py_dict (py_or (py_get d ''payload'') (VDict [])) of Inl x \<Rightarrow> (Inl x, s) | Inr payload \<Rightarrow>
               (case ws_enqueue r (schedule_intent r (fresh sid) created sid d payload) s of (iid, s1) \<Rightarrow>
                  schedule_loop r c fresh created now limit (fired @ [iid]) sids
                    (dict_set (schedule_key sid)
                      (VDict (dict_set ''last_intent_id'' (VStr iid) (dict_set ''last_fire_at'' (VStr (iso_text c now))
                        (dict_set ''next_fire_at'' (VStr (iso_text c (now + seconds_us interval))) d)))) s1))))
      | _ \<Rightarrow> schedule_loop r c fresh created now limit fired sids s)"

definition schedule_tick :: "(pyval \<Rightarrow> string) \<Rightarrow> clock \<Rightarrow> (string \<Rightarrow> string) \<Rightarrow> string \<Rightarrow> int \<Rightarrow> int \<Rightarrow> kv \<Rightarrow> string list result \<times> kv" where
  "schedule_tick r c fresh created now limit s = schedule_loop r c fresh created now limit [] (schedule_index r s) s"

text \<open>The schedules among the triggers of one flow, counted from the position of the first one.\<close>

fun upsert_specs :: "(pyval \<Rightarrow> string) \<Rightarrow> clock \<Rightarrow> int \<Rightarrow> string \<Rightarrow> nat \<Rightarrow> trigger_spec list \<Rightarrow> kv \<Rightarrow> nat result \<times> kv" where
  "upsert_specs r c now name i [] s = (Inr 0, s)"
| "upsert_specs r c now name i (spec # specs) s =
     (case (if ts_kind spec = T_SCHEDULE then ts_interval_seconds spec else None) of
        None \<Rightarrow> upsert_specs r c now name (Suc i) specs s
      | Some iv \<Rightarrow>
          if iv \<le> 0 then upsert_specs r c now name (Suc i) specs s
          else let sid = if_empty (name @ '':schedule:'' @ show_nat i) (opt_text (ts_coalesce_key spec)) in
            (case schedule_upsert r c now sid (if_empty name (ts_work_flow_id spec)) (of_int iv) True []
                    (Some (if_empty (''schedule:'' @ sid) (opt_text (ts_coalesce_key spec)))) True s of
               (Inl x, s1) \<Rightarrow> (Inl x, s1)
             | (Inr _, s1) \<Rightarrow> map_prod (map_sum id Suc) id (upsert_specs r c now name (Suc i) specs s1)))"

fun load_schedules :: "(pyval \<Rightarrow> string) \<Rightarrow> clock \<Rightarrow> int \<Rightarrow> (string \<Rightarrow> pyval result) option \<Rightarrow> pyval list \<Rightarrow> kv \<Rightarrow> nat result \<times> kv" where
  "load_schedules r c now gm [] s = (Inr 0, s)"
| "load_schedules r c now gm (VDict row # rows) s =
     (let name = row_name r row in
      if name = [] then load_schedules r c now gm rows s
      else case parse_triggers r (row_metadata gm name row) of
        Inl x \<Rightarrow> (Inl x, s)
      | Inr specs \<Rightarrow> (case upsert_specs r c now name 0 specs s of
          (Inl x, s1) \<Rightarrow> (Inl x, s1)
        | (Inr n, s1) \<Rightarrow> map_prod (map_sum id (\<lambda>m. n + m)) id (load_schedules r c now gm rows s1)))"
| "load_schedules r c now gm (_ # rows) s = load_schedules r c now gm rows s"

subsection \<open>The plane\<close>

record 'w work_plane =
  wp_attached :: bool
  wp_store :: kv
  wp_triggers :: trigger_registry
  wp_submit_bound :: bool
  wp_max_depth :: int
  wp_batch_size :: int
  wp_poll_interval :: rat
  wp_lease_us :: int
  wp_claimer_id :: string
  wp_workers :: int
  wp_dropped_depth :: nat
  wp_reclaimed :: int
  wp_world :: 'w

definition not_attached :: exc where
  "not_attached = Exc PyRuntimeError ''work plane not attached''"

definition wp_configure :: "int option \<Rightarrow> int option \<Rightarrow> rat option \<Rightarrow> int option \<Rightarrow> int option \<Rightarrow> 'w work_plane \<Rightarrow> 'w work_plane" where
  "wp_configure max_depth batch poll workers lease p =
     (let p1 = (case max_depth of Some n \<Rightarrow> p\<lparr>wp_max_depth := max 1 n\<rparr> | None \<Rightarrow> p);
          p2 = (case batch of Some n \<Rightarrow> p1\<lparr>wp_batch_size := max 1 n\<rparr> | None \<Rightarrow> p1);
          p3 = (case poll of Some q \<Rightarrow> p2\<lparr>wp_poll_interval := max (5 / 100) q\<rparr> | None \<Rightarrow> p2);
          p4 = (case workers of Some n \<Rightarrow> p3\<lparr>wp_workers := max 1 n\<rparr> | None \<Rightarrow> p3)
      in case lease of Some n \<Rightarrow> p4\<lparr>wp_lease_us := max 100000 n\<rparr> | None \<Rightarrow> p4)"

definition wp_enqueue :: "(pyval \<Rightarrow> string) \<Rightarrow> work_intent \<Rightarrow> 'w work_plane \<Rightarrow> string result \<times> 'w work_plane" where
  "wp_enqueue r w p =
     (if \<not> wp_attached p then (Inl not_attached, p)
      else if wi_depth w > wp_max_depth p then (Inr [], p\<lparr>wp_dropped_depth := Suc (wp_dropped_depth p)\<rparr>)
      else case ws_enqueue r w (wp_store p) of (i, s) \<Rightarrow> (Inr i, p\<lparr>wp_store := s\<rparr>))"

definition wp_is_able :: "('w work_plane \<Rightarrow> bool result) \<Rightarrow> 'w work_plane \<Rightarrow> bool" where
  "wp_is_able able p = (case able p of Inr b \<Rightarrow> b | Inl _ \<Rightarrow> False)"

definition wp_tick_schedules :: "(pyval \<Rightarrow> string) \<Rightarrow> clock \<Rightarrow> (string \<Rightarrow> string) \<Rightarrow> ('w work_plane \<Rightarrow> bool result) \<Rightarrow> int \<Rightarrow> 'w work_plane
    \<Rightarrow> nat result \<times> 'w work_plane" where
  "wp_tick_schedules r c fresh able now p =
     (if \<not> wp_attached p \<or> \<not> wp_is_able able p then (Inr 0, p)
      else case schedule_tick r c fresh (iso_text c now) now (wp_batch_size p) (wp_store p) of
        (x, s) \<Rightarrow> (map_sum id length x, p\<lparr>wp_store := s\<rparr>))"

type_synonym 'w start_flow = "string \<Rightarrow> pydict \<Rightarrow> 'w work_plane \<Rightarrow> unit result \<times> 'w work_plane"

text \<open>
  The loop over the claimed intents: an exception of the start, or an unknown kind, is recorded as a
  failure of the intent and the loop goes on; only a failure of that record leaves it.
\<close>

definition start_one :: "'w start_flow \<Rightarrow> work_intent \<Rightarrow> 'w work_plane \<Rightarrow> unit result \<times> 'w work_plane" where
  "start_one submit w p = (if wi_kind w = ''run_flow'' then submit (wi_target w) (wi_payload w) p
     else (Inl (Exc PyValueError (''unsupported work kind '' @ quoted (wi_kind w))), p))"

definition record_failure :: "(pyval \<Rightarrow> string) \<Rightarrow> string \<Rightarrow> work_intent \<Rightarrow> string \<Rightarrow> 'w work_plane \<Rightarrow> unit result \<times> 'w work_plane" where
  "record_failure r cid w err p =
     (if \<not> wp_attached p then (Inl (Exc PyAttributeError ''fail''), p)
      else case ws_fail r (wi_id w) err (Some cid) (wp_store p) of
        (Inl x, s) \<Rightarrow> (Inl x, p\<lparr>wp_store := s\<rparr>)
      | (Inr _, s) \<Rightarrow> (Inr (), p\<lparr>wp_store := s\<rparr>))"

fun run_claimed :: "(pyval \<Rightarrow> string) \<Rightarrow> 'w start_flow \<Rightarrow> string \<Rightarrow> work_intent list \<Rightarrow> int \<Rightarrow> 'w work_plane \<Rightarrow> int result \<times> 'w work_plane" where
  "run_claimed r submit cid [] n p = (Inr n, p)"
| "run_claimed r submit cid (w # ws) n p =
     (case start_one submit w p of
        (Inr _, p1) \<Rightarrow>
          (if wp_attached p1
           then run_claimed r submit cid ws (n + 1) (p1\<lparr>wp_store := snd (ws_ack r (wi_id w) (Some cid) (wp_store p1))\<rparr>)
           else (case record_failure r cid w ''ack'' p1 of
               (Inl x, p2) \<Rightarrow> (Inl x, p2) | (Inr _, p2) \<Rightarrow> run_claimed r submit cid ws n p2))
      | (Inl x, p1) \<Rightarrow> (case record_failure r cid w (exc_msg x) p1 of
          (Inl y, p2) \<Rightarrow> (Inl y, p2) | (Inr _, p2) \<Rightarrow> run_claimed r submit cid ws n p2))"

definition wp_tick :: "(pyval \<Rightarrow> string) \<Rightarrow> clock \<Rightarrow> (string \<Rightarrow> string) \<Rightarrow> 'w start_flow \<Rightarrow> ('w work_plane \<Rightarrow> bool result)
    \<Rightarrow> int option \<Rightarrow> string option \<Rightarrow> bool \<Rightarrow> int \<Rightarrow> 'w work_plane \<Rightarrow> int result \<times> 'w work_plane" where
  "wp_tick r c fresh submit able limit claimer reclaim now p =
     (if \<not> wp_attached p \<or> \<not> wp_submit_bound p then (Inr 0, p)
      else if \<not> wp_is_able able p then (Inr 0, p)
      else
        let cid = if_empty DEFAULT_CLAIMER_ID (if_empty (wp_claimer_id p) (opt_text claimer));
            batch = (case limit of None \<Rightarrow> wp_batch_size p | Some n \<Rightarrow> max 1 n)
        in case (if reclaim then ws_reclaim_expired r c fresh now (wp_store p) else (Inr 0, wp_store p)) of
          (Inl x, s) \<Rightarrow> (Inl x, p\<lparr>wp_store := s\<rparr>)
        | (Inr n, s) \<Rightarrow>
           (case ws_claim_due r c fresh batch cid now (wp_lease_us p) s of
              (Inl x, s1) \<Rightarrow> (Inl x, p\<lparr>wp_store := s1, wp_reclaimed := wp_reclaimed p + n\<rparr>)
            | (Inr ws, s1) \<Rightarrow> run_claimed r submit cid ws 0 (p\<lparr>wp_store := s1, wp_reclaimed := wp_reclaimed p + n\<rparr>)))"

text \<open>The handlers of resource, flow and workload events enqueue every intent of the matching triggers.\<close>

fun enqueue_all :: "(pyval \<Rightarrow> string) \<Rightarrow> work_intent list \<Rightarrow> 'w work_plane \<Rightarrow> unit result \<times> 'w work_plane" where
  "enqueue_all r [] p = (Inr (), p)"
| "enqueue_all r (w # ws) p = (case wp_enqueue r w p of (Inl x, p1) \<Rightarrow> (Inl x, p1) | (Inr _, p1) \<Rightarrow> enqueue_all r ws p1)"

definition wp_on_event :: "(pyval \<Rightarrow> string) \<Rightarrow> (nat \<Rightarrow> string) \<Rightarrow> string \<Rightarrow> rat \<Rightarrow> string \<Rightarrow> pydict \<Rightarrow> 'w work_plane
    \<Rightarrow> unit result \<times> 'w work_plane" where
  "wp_on_event r fresh stamp_text now et payload p =
     (case on_event r fresh stamp_text now et payload (wp_triggers p) of
        (Inl x, t) \<Rightarrow> (Inl x, p\<lparr>wp_triggers := t\<rparr>)
      | (Inr ws, t) \<Rightarrow> enqueue_all r ws (p\<lparr>wp_triggers := t\<rparr>))"

definition wp_reload_triggers :: "(pyval \<Rightarrow> string) \<Rightarrow> clock \<Rightarrow> int \<Rightarrow> (string \<Rightarrow> pyval result) option \<Rightarrow> pyval list \<Rightarrow> 'w work_plane
    \<Rightarrow> nat result \<times> 'w work_plane" where
  "wp_reload_triggers r c now gm rows p =
     (case reload_from_flow_rows r gm rows (wp_triggers p) of
        (Inl x, t) \<Rightarrow> (Inl x, p\<lparr>wp_triggers := t\<rparr>)
      | (Inr n, t) \<Rightarrow>
          (if \<not> wp_attached p then (Inr n, p\<lparr>wp_triggers := t\<rparr>)
           else case load_schedules r c now gm rows (wp_store p) of
             (Inl x, s) \<Rightarrow> (Inl x, p\<lparr>wp_triggers := t, wp_store := s\<rparr>)
           | (Inr _, s) \<Rightarrow> (Inr n, p\<lparr>wp_triggers := t, wp_store := s\<rparr>)))"

definition wp_detach :: "'w work_plane \<Rightarrow> 'w work_plane" where
  "wp_detach p = p\<lparr>wp_attached := False, wp_submit_bound := False, wp_triggers := new_triggers, wp_dropped_depth := 0, wp_reclaimed := 0\<rparr>"

definition wp_attach :: "bool \<Rightarrow> kv \<Rightarrow> int \<Rightarrow> int \<Rightarrow> rat \<Rightarrow> int \<Rightarrow> string \<Rightarrow> int \<Rightarrow> 'w work_plane \<Rightarrow> unit result \<times> 'w work_plane" where
  "wp_attach storage_ready s max_depth batch poll lease claimer workers p0 =
     (let p = (if wp_attached p0 then wp_detach p0 else p0) in
      if \<not> storage_ready then (Inl (Exc PyRuntimeError ''work plane requires initialized storage''), p)
      else (Inr (), p\<lparr>wp_attached := True, wp_store := s, wp_submit_bound := True, wp_max_depth := max 1 max_depth,
           wp_batch_size := max 1 batch, wp_poll_interval := max (5 / 100) poll, wp_lease_us := max 100000 lease,
           wp_claimer_id := if_empty DEFAULT_CLAIMER_ID claimer, wp_workers := max 1 workers, wp_dropped_depth := 0, wp_reclaimed := 0\<rparr>))"

end
