(* ===== verification/WorkQueue.thy ===== *)
theory WorkQueue
  imports WorkStore
begin

text \<open>
  The specification of the work store: a queue of intents with the ids in order, the intents by id
  and the latest id of each coalescing key. The store refines it operation by operation; the
  properties of claims, leases, retries and losses are proved on the queue and hold of the store.
\<close>

subsection \<open>The queue\<close>

record work_queue =
  wq_order :: "string list"
  wq_intent :: "string \<Rightarrow> work_intent option"
  wq_latest :: "string \<Rightarrow> string option"

definition wi_release :: "string \<Rightarrow> work_intent \<Rightarrow> work_intent" where
  "wi_release st w = w\<lparr>wi_status := st, wi_claimed_by := None, wi_lease_until := None\<rparr>"

definition wi_claim :: "string \<Rightarrow> string \<Rightarrow> work_intent \<Rightarrow> work_intent" where
  "wi_claim claimer until w = w\<lparr>wi_status := ''claimed'', wi_claimed_by := Some claimer, wi_lease_until := Some until\<rparr>"

definition wq_drop :: "string \<Rightarrow> work_queue \<Rightarrow> work_queue" where
  "wq_drop i q = q\<lparr>wq_order := remove1 i (wq_order q)\<rparr>"

definition wq_put :: "work_intent \<Rightarrow> work_queue \<Rightarrow> work_queue" where
  "wq_put w q = q\<lparr>wq_intent := (wq_intent q)(wi_id w \<mapsto> w)\<rparr>"

definition superseded :: "work_intent \<Rightarrow> work_queue \<Rightarrow> string option" where
  "superseded w q = (case key_of w of None \<Rightarrow> None | Some k \<Rightarrow> wq_latest q k)"

definition wq_enqueue :: "work_intent \<Rightarrow> work_queue \<Rightarrow> work_queue" where
  "wq_enqueue w q =
     (let q1 = (case superseded w q of None \<Rightarrow> q | Some old \<Rightarrow> wq_drop old q);
          q2 = wq_put (wi_release ''pending'' w) q1;
          q3 = (if wi_id w \<in> set (wq_order q2) then q2 else q2\<lparr>wq_order := wq_order q2 @ [wi_id w]\<rparr>)
      in case key_of w of None \<Rightarrow> q3 | Some k \<Rightarrow> q3\<lparr>wq_latest := (wq_latest q3)(k \<mapsto> wi_id w)\<rparr>)"

definition claimable :: "clock \<Rightarrow> int \<Rightarrow> work_queue \<Rightarrow> string \<Rightarrow> bool" where
  "claimable c now q i = (case wq_intent q i of None \<Rightarrow> False | Some w \<Rightarrow> wi_status w = ''pending'' \<and> is_due c now w)"

text \<open>A claim takes the first due and pending ids in the order of the queue, as many as the limit admits.\<close>

definition wq_claimed :: "clock \<Rightarrow> int \<Rightarrow> int \<Rightarrow> work_queue \<Rightarrow> string list" where
  "wq_claimed c limit now q = take (nat limit) (filter (claimable c now q) (wq_order q))"

definition stamp :: "string \<Rightarrow> string \<Rightarrow> string list \<Rightarrow> work_queue \<Rightarrow> work_queue" where
  "stamp claimer until ids q = q\<lparr>wq_intent := (\<lambda>i. if i \<in> set ids then map_option (wi_claim claimer until) (wq_intent q i) else wq_intent q i)\<rparr>"

definition wq_claim :: "clock \<Rightarrow> int \<Rightarrow> string \<Rightarrow> int \<Rightarrow> string \<Rightarrow> work_queue \<Rightarrow> work_intent list \<times> work_queue" where
  "wq_claim c limit claimer now until q =
     (let ids = wq_claimed c limit now q; q' = stamp claimer until ids q
      in (map (\<lambda>i. the (wq_intent q' i)) ids, q'))"

definition expired :: "clock \<Rightarrow> int \<Rightarrow> work_queue \<Rightarrow> string \<Rightarrow> bool" where
  "expired c now q i = (case wq_intent q i of None \<Rightarrow> False | Some w \<Rightarrow> lease_expired c now w)"

definition wq_reclaim :: "clock \<Rightarrow> int \<Rightarrow> work_queue \<Rightarrow> int \<times> work_queue" where
  "wq_reclaim c now q =
     (let ids = filter (expired c now q) (wq_order q)
      in (int (length ids), q\<lparr>wq_intent := (\<lambda>i. if i \<in> set ids then map_option (wi_release ''pending'') (wq_intent q i) else wq_intent q i)\<rparr>))"

definition foreign :: "string option \<Rightarrow> work_intent \<Rightarrow> bool" where
  "foreign claimer w = (case claimer of None \<Rightarrow> False | Some cid \<Rightarrow> (case wi_claimed_by w of None \<Rightarrow> False | Some o' \<Rightarrow> o' \<noteq> cid))"

definition wq_ack :: "string \<Rightarrow> string option \<Rightarrow> work_queue \<Rightarrow> bool \<times> work_queue" where
  "wq_ack i claimer q = (case wq_intent q i of
     None \<Rightarrow> (False, wq_drop i q)
   | Some w \<Rightarrow> if foreign claimer w then (False, q)
       else let q1 = wq_put (wi_release ''done'' w) q;
                q2 = (case key_of w of None \<Rightarrow> q1 | Some k \<Rightarrow>
                        if wq_latest q1 k = Some i then q1\<lparr>wq_latest := (wq_latest q1)(k := None)\<rparr> else q1)
            in (True, wq_drop i q2))"

definition wi_failure :: "string \<Rightarrow> work_intent \<Rightarrow> work_intent" where
  "wi_failure err w = w\<lparr>wi_attempt := wi_attempt w + 1, wi_last_error := VStr err\<rparr>"

definition wq_fail :: "string \<Rightarrow> string \<Rightarrow> string option \<Rightarrow> work_queue \<Rightarrow> bool \<times> work_queue" where
  "wq_fail i err claimer q = (case wq_intent q i of
     None \<Rightarrow> (False, wq_drop i q)
   | Some w \<Rightarrow> if foreign claimer w then (False, q)
       else if wi_attempt w + 1 \<ge> 5 then (True, wq_drop i (wq_put (wi_release ''failed'' (wi_failure err w)) q))
       else (True, wq_put (wi_release ''pending'' (wi_failure err w)) q))"

subsection \<open>Representation\<close>

definition wi_ok :: "work_intent \<Rightarrow> bool" where
  "wi_ok w = (wi_id w \<noteq> [] \<and> wi_kind w \<noteq> [] \<and> wi_created_at w \<noteq> [] \<and> wi_status w \<noteq> [])"

definition wq_wf :: "work_queue \<Rightarrow> bool" where
  "wq_wf q \<longleftrightarrow> distinct (wq_order q) \<and> (\<forall>i w. wq_intent q i = Some w \<longrightarrow> wi_ok w \<and> wi_id w = i)
     \<and> (\<forall>i \<in> set (wq_order q). \<exists>w. wq_intent q i = Some w \<and> wi_status w \<in> {''pending'', ''claimed''})
     \<and> (\<forall>k i. wq_latest q k = Some i \<longrightarrow> i \<noteq> [])"

definition store_rep :: "kv \<Rightarrow> work_queue \<Rightarrow> bool" where
  "store_rep s q \<longleftrightarrow> wq_wf q
     \<and> (\<forall>i. py_get s (entry_key i) = (case wq_intent q i of None \<Rightarrow> VNone | Some w \<Rightarrow> VDict (wi_to_dict w)))
     \<and> (\<forall>k. py_get s (coalesce_key k) = opt_str_val (wq_latest q k))
     \<and> (py_get s WORK_PENDING_INDEX = VList (map VStr (wq_order q)) \<or> wq_order q = [] \<and> py_get s WORK_PENDING_INDEX = VNone)"

lemma keys_apart [simp]:
  "entry_key i \<noteq> coalesce_key k" "coalesce_key k \<noteq> entry_key i" "entry_key i \<noteq> WORK_PENDING_INDEX" "WORK_PENDING_INDEX \<noteq> entry_key i"
  "coalesce_key k \<noteq> WORK_PENDING_INDEX" "WORK_PENDING_INDEX \<noteq> coalesce_key k"
  by (simp_all add: WORK_ENTRY_PREFIX_def WORK_COALESCE_PREFIX_def WORK_PENDING_INDEX_def)

lemma opt_val_back [simp]: "str_or_none r (opt_str_val x) = x"
  by (cases x) (simp_all add: str_or_none_def)

lemma py_or_payload [simp]: "py_dict (py_or (VDict d) (VDict [])) = Inr d"
  by (simp add: py_or_def py_dict_def)

lemma py_or_text [simp]: "py_or (VStr s) (VStr []) = VStr s"
  by (simp add: py_or_def)

lemma wi_roundtrip [simp]: "wi_ok w \<Longrightarrow> wi_from_dict r f n (wi_to_dict w) = Inr w"
  by (cases w) (simp add: wi_ok_def wi_from_dict_def wi_to_dict_def)

text \<open>Updating the dictionary of an intent is updating the intent.\<close>

lemma released_dict [simp]: "released st (wi_to_dict w) = wi_to_dict (wi_release st w)"
  by (simp add: released_def wi_to_dict_def wi_release_def)

lemma claimed_dict [simp]:
  "dict_set ''lease_until'' (VStr u) (dict_set ''claimed_by'' (VStr cl) (dict_set ''status'' (VStr ''claimed'') (wi_to_dict w)))
     = wi_to_dict (wi_claim cl u w)"
  by (simp add: wi_to_dict_def wi_claim_def)

lemma failure_dict [simp]:
  "dict_set ''last_error'' (VStr err) (dict_set ''attempt'' (VInt (wi_attempt w + 1)) (wi_to_dict w)) = wi_to_dict (wi_failure err w)"
  by (simp add: wi_to_dict_def wi_failure_def)

lemma dict_fields [simp]:
  "py_get (wi_to_dict w) ''status'' = VStr (wi_status w)" "py_get (wi_to_dict w) ''claimed_by'' = opt_str_val (wi_claimed_by w)"
  "py_get (wi_to_dict w) ''coalesce_key'' = opt_str_val (wi_coalesce_key w)" "py_get (wi_to_dict w) ''attempt'' = VInt (wi_attempt w)"
  by (simp_all add: wi_to_dict_def)

lemma wi_change [simp]:
  "wi_id (wi_release st w) = wi_id w" "wi_id (wi_claim cl u w) = wi_id w" "wi_id (wi_failure err w) = wi_id w"
  "wi_status (wi_release st w) = st" "wi_status (wi_claim cl u w) = ''claimed''" "wi_status (wi_failure err w) = wi_status w"
  "wi_attempt (wi_release st w) = wi_attempt w" "wi_attempt (wi_claim cl u w) = wi_attempt w" "wi_attempt (wi_failure err w) = wi_attempt w + 1"
  "wi_claimed_by (wi_release st w) = None" "wi_claimed_by (wi_claim cl u w) = Some cl" "wi_lease_until (wi_claim cl u w) = Some u"
  "wi_coalesce_key (wi_release st w) = wi_coalesce_key w" "wi_coalesce_key (wi_claim cl u w) = wi_coalesce_key w"
  "key_of (wi_release st w) = key_of w" "key_of (wi_claim cl u w) = key_of w" "key_of (wi_failure err w) = key_of w"
  "wi_not_before (wi_release st w) = wi_not_before w" "wi_not_before (wi_claim cl u w) = wi_not_before w"
  by (simp_all add: wi_release_def wi_claim_def wi_failure_def key_of_def)

lemma wi_ok_change [simp]:
  "st \<noteq> [] \<Longrightarrow> wi_ok w \<Longrightarrow> wi_ok (wi_release st w)" "wi_ok w \<Longrightarrow> wi_ok (wi_claim cl u w)" "wi_ok w \<Longrightarrow> wi_ok (wi_failure err w)"
  by (simp_all add: wi_ok_def wi_release_def wi_claim_def wi_failure_def)

lemma rep_index: "store_rep s q \<Longrightarrow> load_index r s = wq_order q"
  by (auto simp: store_rep_def load_index_def comp_def)

lemma rep_entry: "store_rep s q \<Longrightarrow> py_get s (entry_key i) = (case wq_intent q i of None \<Rightarrow> VNone | Some w \<Rightarrow> VDict (wi_to_dict w))"
  by (simp add: store_rep_def)

lemma rep_latest: "store_rep s q \<Longrightarrow> py_get s (coalesce_key k) = opt_str_val (wq_latest q k)"
  by (simp add: store_rep_def)

lemma rep_wf: "store_rep s q \<Longrightarrow> wq_wf q"
  by (simp add: store_rep_def)

lemma rep_drop: "store_rep s q \<Longrightarrow> store_rep (remove_pending r i s) (wq_drop i q)"
  using rep_index [of s q r]
  by (auto simp: remove_pending_def Let_def save_index_def wq_drop_def store_rep_def wq_wf_def remove1_idem)

lemma rep_put:
  assumes "store_rep s q" "wi_ok w" "wi_status w \<in> {''pending'', ''claimed''} \<or> wi_id w \<notin> set (wq_order q)"
  shows "store_rep (dict_set (entry_key (wi_id w)) (VDict (wi_to_dict w)) s) (wq_put w q)"
  using assms by (auto simp: store_rep_def wq_wf_def wq_put_def)

lemma rep_latest_set:
  "store_rep s q \<Longrightarrow> i \<noteq> [] \<Longrightarrow> store_rep (dict_set (coalesce_key k) (VStr i) s) (q\<lparr>wq_latest := (wq_latest q)(k \<mapsto> i)\<rparr>)"
  by (auto simp: store_rep_def wq_wf_def)

lemma py_get_pop [simp]: "py_get (dict_pop k d) k' = (if k' = k then VNone else py_get d k')"
  by (simp add: get_default_def)

lemma rep_latest_pop: "store_rep s q \<Longrightarrow> store_rep (dict_pop (coalesce_key k) s) (q\<lparr>wq_latest := (wq_latest q)(k := None)\<rparr>)"
  by (auto simp: store_rep_def wq_wf_def)

lemma rep_append:
  assumes "store_rep s q" "i \<notin> set (wq_order q)" "wq_intent q i = Some w" "wi_status w \<in> {''pending'', ''claimed''}"
  shows "store_rep (save_index (wq_order q @ [i]) s) (q\<lparr>wq_order := wq_order q @ [i]\<rparr>)"
  using assms by (auto simp: store_rep_def wq_wf_def save_index_def)

lemma enqueue_refines:
  assumes "store_rep s q" "wi_ok w"
  shows "\<exists>s'. ws_enqueue r w s = (wi_id w, s') \<and> store_rep s' (wq_enqueue w q)"
proof -
  define s1 where "s1 = (case key_of w of None \<Rightarrow> s | Some k \<Rightarrow> (case py_get s (coalesce_key k) of
      VStr old \<Rightarrow> if old = [] then s else remove_pending r old s | _ \<Rightarrow> s))"
  define q1 where "q1 = (case superseded w q of None \<Rightarrow> q | Some old \<Rightarrow> wq_drop old q)"
  have latest: "wq_latest q k = Some old \<Longrightarrow> old \<noteq> []" for k old using rep_wf [OF assms(1)] by (auto simp: wq_wf_def)
  have 1: "store_rep s1 q1"
    using assms(1) rep_drop [OF assms(1)] latest
    by (auto simp: s1_def q1_def superseded_def rep_latest [OF assms(1)] opt_str_val_def split: option.splits)
  define s2 where "s2 = dict_set (entry_key (wi_id w)) (VDict (wi_to_dict (wi_release ''pending'' w))) s1"
  define q2 where "q2 = wq_put (wi_release ''pending'' w) q1"
  have 2: "store_rep s2 q2" using rep_put [OF 1, of "wi_release ''pending'' w"] assms(2) by (simp add: s2_def q2_def)
  define s3 where "s3 = (if wi_id w \<in> set (wq_order q2) then s2 else save_index (wq_order q2 @ [wi_id w]) s2)"
  define q3 where "q3 = (if wi_id w \<in> set (wq_order q2) then q2 else q2\<lparr>wq_order := wq_order q2 @ [wi_id w]\<rparr>)"
  have 3: "store_rep s3 q3" using 2 rep_append [OF 2, of "wi_id w" "wi_release ''pending'' w"]
    by (simp add: s3_def q3_def q2_def wq_put_def)
  have "ws_enqueue r w s = (wi_id w, case key_of w of None \<Rightarrow> s3 | Some k \<Rightarrow> dict_set (coalesce_key k) (VStr (wi_id w)) s3)"
    unfolding ws_enqueue_def Let_def released_dict s1_def [symmetric] s2_def [symmetric] rep_index [OF 2] s3_def [symmetric] by (rule refl)
  moreover have "wq_enqueue w q = (case key_of w of None \<Rightarrow> q3 | Some k \<Rightarrow> q3\<lparr>wq_latest := (wq_latest q3)(k \<mapsto> wi_id w)\<rparr>)"
    unfolding wq_enqueue_def Let_def q1_def [symmetric] q2_def [symmetric] q3_def [symmetric] by (rule refl)
  ultimately show ?thesis using 3 rep_latest_set [OF 3, of "wi_id w"] assms(2) by (auto simp: wi_ok_def split: option.split)
qed

lemma claim_loop_refines:
  assumes "store_rep s q" "distinct is" "set is \<subseteq> set (wq_order q)"
  shows "\<exists>s'. claim_loop r c fresh limit claimer now until got is s
      = (Inr (got @ map (\<lambda>i. the (wq_intent (stamp claimer until (take (nat limit - length got) (filter (claimable c now q) is)) q) i))
           (take (nat limit - length got) (filter (claimable c now q) is))), s')
    \<and> store_rep s' (stamp claimer until (take (nat limit - length got) (filter (claimable c now q) is)) q)"
  using assms
proof (induction "is" arbitrary: got s q)
  case Nil
  then show ?case by (simp add: stamp_def)
next
  case (Cons i ks)
  show ?case
  proof (cases "int (length got) \<ge> limit")
    case True
    then have "nat limit - length got = 0" by simp
    with True Cons.prems(1) show ?thesis by (simp add: stamp_def)
  next
    case False
    obtain w where w: "wq_intent q i = Some w" "wi_ok w" "wi_id w = i"
      using Cons.prems(3) rep_wf [OF Cons.prems(1)] by (force simp: wq_wf_def)
    show ?thesis
    proof (cases "claimable c now q i")
      case no: False
      have "claim_loop r c fresh limit claimer now until got (i # ks) s = claim_loop r c fresh limit claimer now until got ks s"
        using False no w by (auto simp: rep_entry [OF Cons.prems(1)] claimable_def)
      then show ?thesis using Cons.IH [OF Cons.prems(1), of got] Cons.prems(2,3) no by simp
    next
      case yes: True
      let ?u = "wi_claim claimer until w"
      let ?s = "dict_set (entry_key i) (VDict (wi_to_dict ?u)) s" and ?q = "wq_put ?u q"
      have "claim_loop r c fresh limit claimer now until got (i # ks) s = claim_loop r c fresh limit claimer now until (got @ [?u]) ks ?s"
        using False yes w by (simp add: rep_entry [OF Cons.prems(1)] claimable_def)
      moreover have rep: "store_rep ?s ?q" using rep_put [OF Cons.prems(1), of ?u] w by simp
      moreover have "filter (claimable c now ?q) ks = filter (claimable c now q) ks"
        using Cons.prems(2) w by (intro filter_cong) (auto simp: claimable_def wq_put_def)
      moreover obtain m where m: "nat limit - length got = Suc m" "nat limit - Suc (length got) = m"
        using False by (cases "nat limit - length got") auto
      moreover have "stamp claimer until ids ?q = stamp claimer until (i # ids) q" if "i \<notin> set ids" for ids
        using that w by (auto simp: stamp_def wq_put_def fun_eq_iff)
      moreover have "i \<notin> set (take m (filter (claimable c now q) ks))"
        using Cons.prems(2) by (auto dest: in_set_takeD)
      ultimately show ?thesis
        using Cons.IH [OF rep, of "got @ [?u]"] Cons.prems(2,3) yes w by (simp add: wq_put_def stamp_def)
    qed
  qed
qed


lemma claim_refines:
  assumes "store_rep s q"
  shows "\<exists>s'. ws_claim_due r c fresh limit claimer_id now lease_us s
      = (Inr (fst (wq_claim c limit (if claimer_id = [] then DEFAULT_CLAIMER_ID else claimer_id) now (iso_text c (now + max 100000 lease_us)) q)), s')
    \<and> store_rep s' (snd (wq_claim c limit (if claimer_id = [] then DEFAULT_CLAIMER_ID else claimer_id) now (iso_text c (now + max 100000 lease_us)) q))"
  using claim_loop_refines [OF assms, of "wq_order q" r c fresh limit _ now _ "[]"] rep_wf [OF assms]
  by (simp add: ws_claim_due_def Let_def rep_index [OF assms] wq_claim_def wq_claimed_def wq_wf_def)

definition unclaim :: "string list \<Rightarrow> work_queue \<Rightarrow> work_queue" where
  "unclaim ids q = q\<lparr>wq_intent := (\<lambda>i. if i \<in> set ids then map_option (wi_release ''pending'') (wq_intent q i) else wq_intent q i)\<rparr>"

lemma reclaim_loop_refines:
  assumes "store_rep s q" "distinct is" "set is \<subseteq> set (wq_order q)"
  shows "\<exists>s'. reclaim_loop r c fresh now n is s = (Inr (n + int (length (filter (expired c now q) is))), s')
    \<and> store_rep s' (unclaim (filter (expired c now q) is) q)"
  using assms
proof (induction "is" arbitrary: n s q)
  case Nil
  then show ?case by (simp add: unclaim_def)
next
  case (Cons i ks)
  obtain w where w: "wq_intent q i = Some w" "wi_ok w" "wi_id w = i"
    using Cons.prems(3) rep_wf [OF Cons.prems(1)] by (force simp: wq_wf_def)
  show ?case
  proof (cases "expired c now q i")
    case no: False
    have "reclaim_loop r c fresh now n (i # ks) s = reclaim_loop r c fresh now n ks s"
      using no w by (simp add: rep_entry [OF Cons.prems(1)] expired_def)
    then show ?thesis using Cons.IH [OF Cons.prems(1), of n] Cons.prems(2,3) no by simp
  next
    case yes: True
    then have "wi_status w = ''claimed''" using w by (auto simp: expired_def lease_expired_def split: if_splits)
    let ?u = "wi_release ''pending'' w"
    let ?s = "dict_set (entry_key i) (VDict (wi_to_dict ?u)) s" and ?q = "wq_put ?u q"
    have "reclaim_loop r c fresh now n (i # ks) s = reclaim_loop r c fresh now (n + 1) ks ?s"
      using yes w \<open>wi_status w = _\<close> by (simp add: rep_entry [OF Cons.prems(1)] expired_def)
    moreover have rep: "store_rep ?s ?q" using rep_put [OF Cons.prems(1), of ?u] w by simp
    moreover have "filter (expired c now ?q) ks = filter (expired c now q) ks"
      using Cons.prems(2) w by (intro filter_cong) (auto simp: expired_def wq_put_def)
    moreover have "unclaim (filter (expired c now q) ks) ?q = unclaim (i # filter (expired c now q) ks) q"
      using Cons.prems(2) w by (auto simp: unclaim_def wq_put_def fun_eq_iff)
    ultimately show ?thesis
      using Cons.IH [OF rep, of "n + 1"] Cons.prems(2,3) yes w by (simp add: wq_put_def algebra_simps)
  qed
qed

lemma reclaim_refines:
  assumes "store_rep s q"
  shows "\<exists>s'. ws_reclaim_expired r c fresh now s = (Inr (fst (wq_reclaim c now q)), s') \<and> store_rep s' (snd (wq_reclaim c now q))"
  using reclaim_loop_refines [OF assms, of "wq_order q" r c fresh now 0] rep_wf [OF assms]
  by (simp add: ws_reclaim_expired_def rep_index [OF assms] wq_reclaim_def unclaim_def wq_wf_def Let_def)

lemma foreign_rep: "foreign_claim r claimer (wi_to_dict w) = foreign claimer w"
  by (simp add: foreign_claim_def foreign_def opt_str_val_def split: option.splits)

text \<open>An intent that leaves the queue may take any status.\<close>

lemma rep_finish:
  assumes "store_rep s q" "wi_ok w" "wi_id w = i"
  shows "store_rep (remove_pending r i (dict_set (entry_key i) (VDict (wi_to_dict w)) s)) (wq_drop i (wq_put w q))"
proof -
  have "load_index r (dict_set (entry_key i) (VDict (wi_to_dict w)) s) = wq_order q"
    using rep_index [OF assms(1), of r] by (simp add: load_index_def)
  then show ?thesis using assms
    by (auto simp: remove_pending_def Let_def save_index_def store_rep_def wq_wf_def wq_drop_def wq_put_def remove1_idem)
qed


lemma rep_cong: "(\<And>k. py_get s' k = py_get s k) \<Longrightarrow> store_rep s q \<Longrightarrow> store_rep s' q"
  by (simp add: store_rep_def)

lemma remove_pending_cong: "(\<And>k. py_get s' k = py_get s k) \<Longrightarrow> py_get (remove_pending r i s') k = py_get (remove_pending r i s) k"
proof -
  assume eq: "\<And>k. py_get s' k = py_get s k"
  then have "load_index r s' = load_index r s" by (simp add: load_index_def)
  with eq show ?thesis by (simp add: remove_pending_def save_index_def Let_def)
qed

lemma ack_refines:
  assumes "store_rep s q"
  shows "\<exists>s'. ws_ack r i claimer s = (fst (wq_ack i claimer q), s') \<and> store_rep s' (snd (wq_ack i claimer q))"
proof (cases "wq_intent q i")
  case None
  then show ?thesis using rep_drop [OF assms] by (simp add: ws_ack_def wq_ack_def rep_entry [OF assms])
next
  case (Some w)
  then have w: "wi_ok w" "wi_id w = i" using rep_wf [OF assms] by (auto simp: wq_wf_def)
  let ?w = "wi_release ''done'' w"
  let ?s1 = "dict_set (entry_key i) (VDict (wi_to_dict ?w)) s"
  define s2 where "s2 = (case key_of w of None \<Rightarrow> s | Some k \<Rightarrow> if wq_latest q k = Some i then dict_pop (coalesce_key k) s else s)"
  define q2 where "q2 = (case key_of w of None \<Rightarrow> q | Some k \<Rightarrow> if wq_latest q k = Some i then q\<lparr>wq_latest := (wq_latest q)(k := None)\<rparr> else q)"
  have "store_rep s2 q2" using assms rep_latest_pop by (auto simp: s2_def q2_def split: option.split)
  then have fin: "store_rep (remove_pending r i (dict_set (entry_key i) (VDict (wi_to_dict ?w)) s2)) (wq_drop i (wq_put ?w q2))"
    using w by (intro rep_finish) auto
  define s3 where "s3 = (case key_of w of None \<Rightarrow> ?s1 | Some k \<Rightarrow> if wq_latest q k = Some i then dict_pop (coalesce_key k) ?s1 else ?s1)"
  have "py_get s3 k = py_get (dict_set (entry_key i) (VDict (wi_to_dict ?w)) s2) k" for k
    by (auto simp: s3_def s2_def split: option.split)
  then have rep: "store_rep (remove_pending r i s3) (wq_drop i (wq_put ?w q2))"
    by (intro rep_cong [OF remove_pending_cong fin])
  show ?thesis
  proof (cases "foreign claimer w")
    case True
    then show ?thesis using Some assms by (simp add: ws_ack_def wq_ack_def rep_entry [OF assms] foreign_rep)
  next
    case False
    have "ws_ack r i claimer s = (True, remove_pending r i s3)"
      using Some False by (auto simp: ws_ack_def rep_entry [OF assms] rep_latest [OF assms] foreign_rep s3_def key_of_def Let_def
          opt_str_val_def split: option.splits)
    moreover have "wq_ack i claimer q = (True, wq_drop i (wq_put ?w q2))"
      using Some False by (cases q) (auto simp: wq_ack_def q2_def wq_put_def wq_drop_def Let_def split: option.splits)
    ultimately show ?thesis using rep by simp
  qed
qed

lemma fail_refines:
  assumes "store_rep s q"
  shows "\<exists>s'. ws_fail r i err claimer s = (Inr (fst (wq_fail i err claimer q)), s') \<and> store_rep s' (snd (wq_fail i err claimer q))"
proof (cases "wq_intent q i")
  case None
  then show ?thesis using rep_drop [OF assms] by (simp add: ws_fail_def wq_fail_def rep_entry [OF assms])
next
  case (Some w)
  then have w: "wi_ok w" "wi_id w = i" using rep_wf [OF assms] by (auto simp: wq_wf_def)
  then show ?thesis using Some assms rep_finish [OF assms, of "wi_release ''failed'' (wi_failure err w)" i r]
      rep_put [OF assms, of "wi_release ''pending'' (wi_failure err w)"]
    by (simp add: ws_fail_def wq_fail_def rep_entry [OF assms] foreign_rep)
qed


subsection \<open>Runs\<close>

datatype work_op =
    WEnqueue work_intent
  | WClaim int string int int
  | WReclaim int
  | WAck string "string option"
  | WFail string string "string option"

datatype work_answer = AId string | AClaimed "work_intent list" | ACount int | ADone bool

definition the_claimer :: "string \<Rightarrow> string" where
  "the_claimer cl = (if cl = [] then DEFAULT_CLAIMER_ID else cl)"

definition lease_end :: "int \<Rightarrow> int \<Rightarrow> int" where
  "lease_end now lease = now + max 100000 lease"

fun ws_do :: "(pyval \<Rightarrow> string) \<Rightarrow> clock \<Rightarrow> (string \<Rightarrow> string) \<Rightarrow> work_op \<Rightarrow> kv \<Rightarrow> work_answer result \<times> kv" where
  "ws_do r c fresh (WEnqueue w) s = map_prod (Inr \<circ> AId) id (ws_enqueue r w s)"
| "ws_do r c fresh (WClaim limit cl now lease) s = map_prod (map_sum id AClaimed) id (ws_claim_due r c fresh limit cl now lease s)"
| "ws_do r c fresh (WReclaim now) s = map_prod (map_sum id ACount) id (ws_reclaim_expired r c fresh now s)"
| "ws_do r c fresh (WAck i cl) s = map_prod (Inr \<circ> ADone) id (ws_ack r i cl s)"
| "ws_do r c fresh (WFail i err cl) s = map_prod (map_sum id ADone) id (ws_fail r i err cl s)"

fun wq_do :: "clock \<Rightarrow> work_op \<Rightarrow> work_queue \<Rightarrow> work_answer \<times> work_queue" where
  "wq_do c (WEnqueue w) q = (AId (wi_id w), wq_enqueue w q)"
| "wq_do c (WClaim limit cl now lease) q =
     map_prod AClaimed id (wq_claim c limit (the_claimer cl) now (iso_text c (lease_end now lease)) q)"
| "wq_do c (WReclaim now) q = map_prod ACount id (wq_reclaim c now q)"
| "wq_do c (WAck i cl) q = map_prod ADone id (wq_ack i cl q)"
| "wq_do c (WFail i err cl) q = map_prod ADone id (wq_fail i err cl q)"

fun ws_run :: "(pyval \<Rightarrow> string) \<Rightarrow> clock \<Rightarrow> (string \<Rightarrow> string) \<Rightarrow> work_op list \<Rightarrow> kv \<Rightarrow> work_answer result list \<times> kv" where
  "ws_run r c fresh [] s = ([], s)"
| "ws_run r c fresh (x # xs) s = (case ws_do r c fresh x s of (a, s1) \<Rightarrow> map_prod (Cons a) id (ws_run r c fresh xs s1))"

fun wq_run :: "clock \<Rightarrow> work_op list \<Rightarrow> work_queue \<Rightarrow> work_answer list \<times> work_queue" where
  "wq_run c [] q = ([], q)"
| "wq_run c (x # xs) q = (case wq_do c x q of (a, q1) \<Rightarrow> map_prod (Cons a) id (wq_run c xs q1))"

fun op_ok :: "work_op \<Rightarrow> bool" where
  "op_ok (WEnqueue w) = wi_ok w"
| "op_ok _ = True"

lemma do_refines:
  assumes "store_rep s q" "op_ok x"
  shows "\<exists>s'. ws_do r c fresh x s = (Inr (fst (wq_do c x q)), s') \<and> store_rep s' (snd (wq_do c x q))"
proof (cases x)
  case (WEnqueue w)
  then show ?thesis using enqueue_refines [OF assms(1), of w r] assms(2) by auto
next
  case (WClaim limit cl now lease)
  then show ?thesis using claim_refines [OF assms(1), of r c fresh limit cl now lease] by (auto simp: the_claimer_def lease_end_def)
next
  case (WReclaim now)
  then show ?thesis using reclaim_refines [OF assms(1), of r c fresh now] by auto
next
  case (WAck i cl)
  then show ?thesis using ack_refines [OF assms(1), of r i cl] by auto
next
  case (WFail i err cl)
  then show ?thesis using fail_refines [OF assms(1), of r i err cl] by auto
qed

lemma run_refines:
  "store_rep s q \<Longrightarrow> list_all op_ok xs \<Longrightarrow>
    \<exists>s'. ws_run r c fresh xs s = (map Inr (fst (wq_run c xs q)), s') \<and> store_rep s' (snd (wq_run c xs q))"
proof (induction xs arbitrary: s q)
  case (Cons x xs)
  obtain s1 where 1: "ws_do r c fresh x s = (Inr (fst (wq_do c x q)), s1)" "store_rep s1 (snd (wq_do c x q))"
    using do_refines [OF Cons.prems(1), of x r c fresh] Cons.prems(2) by auto
  with Cons.IH [OF 1(2)] Cons.prems(2) show ?case by (auto simp: case_prod_beta)
qed simp

subsection \<open>How an operation changes an intent\<close>

definition empty_queue :: work_queue where
  "empty_queue = \<lparr>wq_order = [], wq_intent = (\<lambda>_. None), wq_latest = (\<lambda>_. None)\<rparr>"

lemma empty_rep: "store_rep [] empty_queue"
  by (simp add: store_rep_def wq_wf_def empty_queue_def)

lemma enqueue_other:
  "wi_id w \<noteq> i \<Longrightarrow> wq_intent (wq_enqueue w q) i = wq_intent q i"
  "wq_intent (wq_enqueue w q) (wi_id w) = Some (wi_release ''pending'' w)"
  by (auto simp: wq_enqueue_def Let_def wq_put_def wq_drop_def split: option.splits)

lemma claimed_ids: "set (wq_claimed c limit now q) \<subseteq> {i \<in> set (wq_order q). claimable c now q i}"
  by (auto simp: wq_claimed_def dest: in_set_takeD)

lemma claim_answer:
  assumes "wq_wf q"
  shows "map wi_id (fst (wq_claim c limit cl now until q)) = wq_claimed c limit now q"
proof -
  have "wi_id (the (wq_intent (stamp cl until ids q) i)) = i" if "i \<in> set (wq_order q)" for i ids
    using that assms by (force simp: stamp_def wq_wf_def)
  then show ?thesis using claimed_ids [of c limit now q] by (auto simp: wq_claim_def Let_def intro!: map_idI)
qed


lemma finish_other:
  assumes "wq_wf q" "j \<noteq> i"
  shows "wq_intent (snd (wq_ack j cl q)) i = wq_intent q i" "wq_intent (snd (wq_fail j err cl q)) i = wq_intent q i"
  using assms by (auto simp: wq_wf_def wq_ack_def wq_fail_def wq_put_def wq_drop_def Let_def split: option.split)

lemma finish_foreign:
  "wq_intent q i = Some w \<Longrightarrow> foreign cl w \<Longrightarrow> wq_ack i cl q = (False, q) \<and> wq_fail i err cl q = (False, q)"
  by (simp add: wq_ack_def wq_fail_def)

text \<open>The operations that leave a claim of \<open>i\<close> by \<open>cl\<close>, whose lease ends at \<open>t\<close>, alone.\<close>

fun honours :: "string \<Rightarrow> string \<Rightarrow> int \<Rightarrow> work_op \<Rightarrow> bool" where
  "honours i cl t (WEnqueue w) = (wi_id w \<noteq> i)"
| "honours i cl t (WClaim limit cl' now lease) = True"
| "honours i cl t (WReclaim now) = (now < t)"
| "honours i cl t (WAck j cl') = (j \<noteq> i \<or> cl' \<notin> {None, Some cl})"
| "honours i cl t (WFail j err cl') = (j \<noteq> i \<or> cl' \<notin> {None, Some cl})"

definition held :: "clock \<Rightarrow> string \<Rightarrow> string \<Rightarrow> int \<Rightarrow> work_queue \<Rightarrow> bool" where
  "held c i cl t q = (\<exists>w. wq_intent q i = Some w \<and> wi_status w = ''claimed'' \<and> wi_claimed_by w = Some cl
     \<and> wi_lease_until w = Some (iso_text c t))"

lemma held_not_claimable: "held c i cl t q \<Longrightarrow> i \<notin> set (wq_claimed c limit now q)"
  using claimed_ids [of c limit now q] by (auto simp: held_def claimable_def)

lemma held_step:
  assumes "clock_ok c" "wq_wf q" "held c i cl t q" "honours i cl t x"
  shows "held c i cl t (snd (wq_do c x q)) \<and> (\<forall>ws. fst (wq_do c x q) = AClaimed ws \<longrightarrow> i \<notin> wi_id ` set ws)"
proof (cases x)
  case (WEnqueue w)
  then show ?thesis using assms(3,4) by (simp add: held_def enqueue_other)
next
  case (WClaim limit cl' now lease)
  have "i \<notin> wi_id ` set (fst (wq_claim c limit cl0 now until q))" for cl0 until
    using arg_cong [OF claim_answer [OF assms(2), of c limit cl0 now until], of set] held_not_claimable [OF assms(3), of limit now] by simp
  then show ?thesis using WClaim assms(3) held_not_claimable [OF assms(3), of limit now]
    by (auto simp: wq_claim_def Let_def stamp_def held_def)
next
  case (WReclaim now)
  have "\<not> expired c now q i" using assms WReclaim by (auto simp: held_def expired_def lease_expired_def clock_ok_def)
  then show ?thesis using WReclaim assms(3) by (simp add: wq_reclaim_def Let_def held_def)
next
  case (WAck j cl')
  obtain w where "wq_intent q i = Some w" "wi_claimed_by w = Some cl" using assms(3) by (auto simp: held_def)
  then have "j \<noteq> i \<or> snd (wq_ack j cl' q) = q"
    using finish_foreign [of q i w cl'] assms(4) WAck by (cases cl') (auto simp: foreign_def)
  then have "wq_intent (snd (wq_ack j cl' q)) i = wq_intent q i" using finish_other(1) [OF assms(2), of j i cl'] by (cases "j = i") auto
  then show ?thesis using WAck assms(3) by (auto simp: held_def)

next
  case (WFail j err cl')
  obtain w where "wq_intent q i = Some w" "wi_claimed_by w = Some cl" using assms(3) by (auto simp: held_def)
  then have "j \<noteq> i \<or> snd (wq_fail j err cl' q) = q"
    using finish_foreign [of q i w cl' err] assms(4) WFail by (cases cl') (auto simp: foreign_def)
  then have "wq_intent (snd (wq_fail j err cl' q)) i = wq_intent q i" using finish_other(2) [OF assms(2), of j i err cl'] by (cases "j = i") auto
  then show ?thesis using WFail assms(3) by (auto simp: held_def)

qed

lemma held_run:
  assumes "clock_ok c"
  shows "store_rep s q \<Longrightarrow> held c i cl t q \<Longrightarrow> list_all (\<lambda>x. op_ok x \<and> honours i cl t x) xs \<Longrightarrow> ws_run r c fresh xs s = (as, s')
    \<Longrightarrow> Inr (AClaimed ws) \<in> set as \<Longrightarrow> i \<notin> wi_id ` set ws"
proof (induction xs arbitrary: s q as)
  case (Cons x xs)
  have ok: "op_ok x" "honours i cl t x" using Cons.prems(3) by auto
  from do_refines [OF Cons.prems(1) ok(1), of r c fresh]
  obtain s1 where 1: "ws_do r c fresh x s = (Inr (fst (wq_do c x q)), s1)" "store_rep s1 (snd (wq_do c x q))" by blast
  obtain as1 where 2: "ws_run r c fresh xs s1 = (as1, s')" "as = Inr (fst (wq_do c x q)) # as1"
    using Cons.prems(4) 1 by (cases "ws_run r c fresh xs s1") auto
  show ?case
  proof (cases "Inr (AClaimed ws) \<in> set as1")
    case True
    then show ?thesis using held_step [OF assms rep_wf [OF Cons.prems(1)] Cons.prems(2) ok(2)] Cons.IH [OF 1(2) _ _ 2(1)] Cons.prems(3) by auto
  next
    case False
    then have "fst (wq_do c x q) = AClaimed ws" using Cons.prems(5) 2(2) by auto
    then show ?thesis using held_step [OF assms rep_wf [OF Cons.prems(1)] Cons.prems(2) ok(2)] by blast
  qed
qed simp

text \<open>
  C4. The store refines the queue: whatever sequence of enqueues, claims, reclaims, acknowledgements
  and failures is applied to a store that represents a queue, no operation raises, the answers are
  those of the queue, and the store represents the queue afterwards.
\<close>

theorem work_store_refines_queue:
  assumes "store_rep s q" and "\<forall>w. WEnqueue w \<in> set xs \<longrightarrow> wi_ok w"
  shows "\<exists>s'. ws_run r c fresh xs s = (map Inr (fst (wq_run c xs q)), s') \<and> store_rep s' (snd (wq_run c xs q))"
proof -
  have "op_ok x" if "x \<in> set xs" for x using assms(2) that by (cases x) auto
  then show ?thesis using run_refines [OF assms(1), of xs r c fresh] by (simp add: list_all_iff)
qed

text \<open>
  C5. Claims are exclusive: what a claim returns was pending and due, and is returned once; until the
  lease ends, or its owner finishes it, or its id is enqueued anew, no later claim by any claimer
  returns it, whatever else happens to the queue.
\<close>

theorem claims_are_exclusive:
  assumes "clock_ok c" and "store_rep s q"
    and "ws_claim_due r c fresh limit cl now lease s = (Inr ws, s1)" and "w \<in> set ws"
    and "list_all (\<lambda>x. op_ok x \<and> honours (wi_id w) (the_claimer cl) (lease_end now lease) x) xs"
    and "ws_run r c fresh xs s1 = (as, s2)" and "Inr (AClaimed ws') \<in> set as"
  shows "wi_id w \<notin> wi_id ` set ws' \<and> distinct (map wi_id ws) \<and> claimable c now q (wi_id w)"
proof -
  from claim_refines [OF assms(2), of r c fresh limit cl now lease] assms(3)
  have ws: "ws = fst (wq_claim c limit (the_claimer cl) now (iso_text c (lease_end now lease)) q)"
    and rep: "store_rep s1 (snd (wq_claim c limit (the_claimer cl) now (iso_text c (lease_end now lease)) q))"
    by (auto simp: the_claimer_def lease_end_def)
  have wf: "wq_wf q" by (rule rep_wf [OF assms(2)])
  have ids: "map wi_id ws = wq_claimed c limit now q" using claim_answer [OF wf] ws by simp
  have "wi_id w \<in> set (map wi_id ws)" using assms(4) by simp
  then have i: "wi_id w \<in> set (wq_claimed c limit now q)" unfolding ids .
  then obtain u where "wq_intent q (wi_id w) = Some u" using claimed_ids [of c limit now q]
    by (auto simp: claimable_def split: option.splits)
  then have "held c (wi_id w) (the_claimer cl) (lease_end now lease) (snd (wq_claim c limit (the_claimer cl) now (iso_text c (lease_end now lease)) q))"
    using i by (simp add: held_def wq_claim_def Let_def stamp_def)
  from held_run [OF assms(1) rep this assms(5-7)] have "wi_id w \<notin> wi_id ` set ws'" .
  moreover have "distinct (map wi_id ws)" using wf by (simp add: ids wq_claimed_def wq_wf_def)
  ultimately show ?thesis using i claimed_ids [of c limit now q] by auto
qed

end
