(* ===== verification/WorkQueueProps.thy ===== *)
theory WorkQueueProps
  imports WorkQueue
begin

text \<open>
  Witnesses of the queue properties and the two promises about single intents: work that is not
  finished is served again after its lease, and work that keeps failing is dropped.
\<close>

subsection \<open>Work is not lost\<close>

definition waiting :: "clock \<Rightarrow> int \<Rightarrow> string \<Rightarrow> string option \<Rightarrow> work_queue \<Rightarrow> bool" where
  "waiting c t i key q = (i \<in> set (wq_order q) \<and> (\<forall>k. wq_latest q k = Some i \<longrightarrow> key = Some k)
     \<and> (\<exists>w. wq_intent q i = Some w \<and> (wi_status w = ''pending'' \<or> lease_expired c t w) \<and> is_due c t w))"

text \<open>The operations that neither finish \<open>i\<close> nor supersede it nor lease it beyond \<open>t\<close>.\<close>

fun spares :: "string \<Rightarrow> string option \<Rightarrow> int \<Rightarrow> work_op \<Rightarrow> bool" where
  "spares i key t (WEnqueue w) = (wi_id w \<noteq> i \<and> (key_of w = None \<or> key_of w \<noteq> key))"
| "spares i key t (WClaim limit cl now lease) = (lease_end now lease \<le> t)"
| "spares i key t (WReclaim now) = True"
| "spares i key t (WAck j cl) = (j \<noteq> i)"
| "spares i key t (WFail j err cl) = (j \<noteq> i)"

lemma is_due_change [simp]: "is_due c t (wi_claim cl u w) = is_due c t w" "is_due c t (wi_release st w) = is_due c t w"
  by (simp_all add: is_due_def)

lemma enqueue_order:
  "wq_order (wq_enqueue w q) = (let xs = (case superseded w q of None \<Rightarrow> wq_order q | Some j \<Rightarrow> remove1 j (wq_order q))
     in if wi_id w \<in> set xs then xs else xs @ [wi_id w])"
  by (auto simp: wq_enqueue_def Let_def wq_put_def wq_drop_def split: option.split)

lemma enqueue_latest:
  "wq_latest (wq_enqueue w q) = (case key_of w of None \<Rightarrow> wq_latest q | Some k \<Rightarrow> (wq_latest q)(k \<mapsto> wi_id w))"
  by (auto simp: wq_enqueue_def Let_def wq_put_def wq_drop_def split: option.split)

lemma finish_order:
  "set (wq_order (snd (wq_ack j cl q))) \<subseteq> set (wq_order q)" "set (wq_order (snd (wq_fail j err cl q))) \<subseteq> set (wq_order q)"
  "i \<noteq> j \<Longrightarrow> i \<in> set (wq_order q) \<Longrightarrow> i \<in> set (wq_order (snd (wq_ack j cl q))) \<and> i \<in> set (wq_order (snd (wq_fail j err cl q)))"
  "wq_latest (snd (wq_fail j err cl q)) = wq_latest q" "wq_latest (snd (wq_ack j cl q)) k = Some l \<Longrightarrow> wq_latest q k = Some l"
  by (auto simp: wq_ack_def wq_fail_def wq_put_def wq_drop_def Let_def dest: set_remove1_subset [THEN subsetD] split: option.splits if_splits)

lemma waiting_step:
  assumes "clock_ok c" "wq_wf q" "waiting c t i key q" "spares i key t x"
  shows "waiting c t i key (snd (wq_do c x q))"
proof (cases x)
  case (WEnqueue w)
  have "superseded w q \<noteq> Some i" using assms(3,4) WEnqueue by (auto simp: superseded_def waiting_def split: option.splits)
  then have "i \<in> set (wq_order (wq_enqueue w q))" using assms(3)
    by (auto simp: enqueue_order waiting_def Let_def split: option.split)
  then show ?thesis using assms(3,4) WEnqueue
    by (auto simp: waiting_def enqueue_other enqueue_latest split: option.splits if_splits)
next
  case (WClaim limit cl now lease)
  obtain w where w: "wq_intent q i = Some w" using assms(3) by (auto simp: waiting_def)
  have "lease_expired c t (wi_claim (the_claimer cl) (iso_text c (lease_end now lease)) w)"
    using assms(1,4) WClaim by (simp add: lease_expired_def clock_ok_def)
  then show ?thesis using assms(3) WClaim w by (auto simp: waiting_def wq_claim_def stamp_def Let_def)
next
  case (WReclaim now)
  then show ?thesis using assms(3) by (auto simp: waiting_def wq_reclaim_def Let_def)
next
  case (WAck j cl)
  then show ?thesis using assms(3,4) finish_other(1) [OF assms(2), of j i cl] finish_order(3) [of i j q cl] finish_order(5) [of j cl q]
    by (auto simp: waiting_def)
next
  case (WFail j err cl)
  then show ?thesis using assms(3,4) finish_other(2) [OF assms(2), of j i err cl] finish_order(3) [of i j q cl err] finish_order(4)
    by (auto simp: waiting_def)
qed

lemma waiting_run:
  assumes "clock_ok c"
  shows "store_rep s q \<Longrightarrow> waiting c t i key q \<Longrightarrow> list_all (\<lambda>x. op_ok x \<and> spares i key t x) xs \<Longrightarrow>
    ws_run r c fresh xs s = (as, s') \<Longrightarrow> \<exists>q'. store_rep s' q' \<and> waiting c t i key q'"
proof (induction xs arbitrary: s q as)
  case (Cons x xs)
  have ok: "op_ok x" "spares i key t x" using Cons.prems(3) by auto
  from do_refines [OF Cons.prems(1) ok(1), of r c fresh]
  obtain s1 where 1: "ws_do r c fresh x s = (Inr (fst (wq_do c x q)), s1)" "store_rep s1 (snd (wq_do c x q))" by blast
  obtain as1 where "ws_run r c fresh xs s1 = (as1, s')" using Cons.prems(4) 1 by (cases "ws_run r c fresh xs s1") auto
  then show ?case
    using Cons.IH [OF 1(2) waiting_step [OF assms rep_wf [OF Cons.prems(1)] Cons.prems(2) ok(2)]] Cons.prems(3) by auto
qed auto

lemma reclaim_then_claim:
  assumes "waiting c t i key q" "limit \<ge> int (length (wq_order q))"
  shows "i \<in> set (wq_claimed c limit t (snd (wq_reclaim c t q)))"
proof -
  let ?q = "snd (wq_reclaim c t q)"
  have "claimable c t ?q i" using assms(1)
    by (auto simp: waiting_def wq_reclaim_def Let_def claimable_def expired_def lease_expired_def split: if_splits)
  moreover have "i \<in> set (wq_order ?q)" using assms(1) by (simp add: waiting_def wq_reclaim_def Let_def)
  moreover have "wq_order ?q = wq_order q" by (simp add: wq_reclaim_def Let_def)
  moreover have "length (filter P (wq_order q)) \<le> nat limit" for P
    using assms(2) length_filter_le [of P "wq_order q"] by linarith
  ultimately show ?thesis by (simp add: wq_claimed_def)
qed

text \<open>
  C6. Work is served at least once: an intent of the queue that is due at \<open>t\<close>, and pending or under a
  lease that ends by \<open>t\<close>, is returned by a claim at \<open>t\<close> after a reclaim, whatever operations come
  before, except those that finish it, supersede it by its coalescing key, or lease it beyond \<open>t\<close>.
\<close>

theorem work_is_served_at_least_once:
  assumes "clock_ok c" and "store_rep s q" and "i \<in> set (wq_order q)" and "wq_intent q i = Some w"
    and "wi_status w = ''pending'' \<or> lease_expired c t w" and "is_due c t w" and "\<forall>k. wq_latest q k = Some i \<longrightarrow> key_of w = Some k"
    and "list_all (\<lambda>x. op_ok x \<and> spares i (key_of w) t x) xs" and "ws_run r c fresh xs s = (as, s1)"
    and "limit \<ge> int (ws_pending_count r s1)"
  shows "\<exists>n s2 ws s3. ws_reclaim_expired r c fresh t s1 = (Inr n, s2)
    \<and> ws_claim_due r c fresh limit cl t lease s2 = (Inr ws, s3) \<and> i \<in> wi_id ` set ws"
proof -
  have "waiting c t i (key_of w) q" using assms(3-7) by (simp add: waiting_def)
  then obtain q1 where q1: "store_rep s1 q1" "waiting c t i (key_of w) q1"
    using waiting_run [OF assms(1,2) _ assms(8,9)] by blast
  obtain s2 where s2: "ws_reclaim_expired r c fresh t s1 = (Inr (fst (wq_reclaim c t q1)), s2)" "store_rep s2 (snd (wq_reclaim c t q1))"
    using reclaim_refines [OF q1(1)] by blast
  have "i \<in> set (wq_claimed c limit t (snd (wq_reclaim c t q1)))"
    using reclaim_then_claim [OF q1(2)] assms(10) rep_index [OF q1(1), of r] by (simp add: ws_pending_count_def)
  then have "i \<in> wi_id ` set (fst (wq_claim c limit cl0 t until (snd (wq_reclaim c t q1))))" for cl0 until
    using arg_cong [OF claim_answer [OF rep_wf [OF s2(2)], of c limit cl0 t until], of set] by simp
  then show ?thesis using s2 claim_refines [OF s2(2), of r c fresh limit cl t lease] by blast
qed

subsection \<open>Failing work is dropped\<close>

text \<open>How many failures of \<open>i\<close> were accepted.\<close>

fun accepted :: "string \<Rightarrow> work_op list \<Rightarrow> work_answer result list \<Rightarrow> nat" where
  "accepted i (x # xs) (a # as) = (if (\<exists>err cl. x = WFail i err cl) \<and> a = Inr (ADone True) then 1 else 0) + accepted i xs as"
| "accepted i _ _ = 0"

definition new_id :: "string \<Rightarrow> work_op \<Rightarrow> bool" where
  "new_id i x = (op_ok x \<and> (\<forall>w. x = WEnqueue w \<longrightarrow> wi_id w \<noteq> i))"

text \<open>While \<open>i\<close> is listed its attempts count its accepted failures, and stay below five after one.\<close>

definition counted :: "string \<Rightarrow> int \<Rightarrow> nat \<Rightarrow> work_queue \<Rightarrow> bool" where
  "counted i a n q = (i \<in> set (wq_order q) \<longrightarrow> (\<exists>w. wq_intent q i = Some w \<and> wi_attempt w = a + int n \<and> (n > 0 \<longrightarrow> a + int n < 5)))"

lemma counted_step:
  assumes "wq_wf q" "counted i a n q" "new_id i x"
  shows "counted i a (n + accepted i [x] [Inr (fst (wq_do c x q))]) (snd (wq_do c x q))
    \<and> (i \<notin> set (wq_order q) \<longrightarrow> i \<notin> set (wq_order (snd (wq_do c x q))))"
proof (cases x)
  case (WEnqueue w)
  then have "wi_id w \<noteq> i" using assms(3) by (simp add: new_id_def)
  moreover have "set (wq_order (wq_enqueue w q)) \<subseteq> insert (wi_id w) (set (wq_order q))"
    using set_remove1_subset by (auto simp: enqueue_order Let_def split: option.split)
  ultimately show ?thesis using WEnqueue assms(2) by (auto simp: counted_def enqueue_other)
next
  case (WClaim limit cl now lease)
  then show ?thesis using assms(2) by (auto simp: counted_def wq_claim_def stamp_def Let_def)
next
  case (WReclaim now)
  then show ?thesis using assms(2) by (auto simp: counted_def wq_reclaim_def Let_def)
next
  case (WAck j cl)
  show ?thesis
  proof (cases "j = i")
    case True
    have "i \<notin> set (wq_order (snd (wq_ack i cl q))) \<or> snd (wq_ack i cl q) = q"
      using assms(1) by (auto simp: wq_ack_def wq_drop_def wq_wf_def wq_put_def Let_def split: option.split)
    then show ?thesis using WAck True assms(2) by (auto simp: counted_def)
  next
    case False
    then show ?thesis using WAck assms(2) finish_other(1) [OF assms(1) False, of cl] finish_order(1) [of j cl q] by (auto simp: counted_def)
  qed
next
  case (WFail j err cl)
  show ?thesis
  proof (cases "j = i")
    case True
    then show ?thesis using WFail assms(1,2)
      by (auto simp: counted_def wq_fail_def wq_drop_def wq_wf_def wq_put_def wi_failure_def wi_release_def split: option.splits)
  next
    case False
    then show ?thesis using WFail assms(2) finish_other(2) [OF assms(1) False, of err cl] finish_order(2) [of j err cl q] by (auto simp: counted_def)
  qed
qed

lemma accepted_Cons: "accepted i (x # xs) (a # as) = accepted i [x] [a] + accepted i xs as"
  by simp

lemma counted_run:
  "store_rep s q \<Longrightarrow> counted i a n q \<Longrightarrow> list_all (new_id i) xs \<Longrightarrow> ws_run r c fresh xs s = (as, s') \<Longrightarrow>
    \<exists>q'. store_rep s' q' \<and> counted i a (n + accepted i xs as) q'"
proof (induction xs arbitrary: s q n as)
  case (Cons x xs)
  have ok: "new_id i x" "op_ok x" using Cons.prems(3) by (auto simp: new_id_def)
  from do_refines [OF Cons.prems(1) ok(2), of r c fresh]
  obtain s1 where 1: "ws_do r c fresh x s = (Inr (fst (wq_do c x q)), s1)" "store_rep s1 (snd (wq_do c x q))" by blast
  obtain as1 where 2: "ws_run r c fresh xs s1 = (as1, s')" "as = Inr (fst (wq_do c x q)) # as1"
    using Cons.prems(4) 1 by (cases "ws_run r c fresh xs s1") auto
  note step = counted_step [OF rep_wf [OF Cons.prems(1)] Cons.prems(2) ok(1), of c]
  show ?case using Cons.IH [OF 1(2) conjunct1 [OF step] _ 2(1)] Cons.prems(3) unfolding 2(2) accepted_Cons [of i x xs] by (simp add: add.assoc)
qed auto

lemma unlisted_run:
  "store_rep s q \<Longrightarrow> i \<notin> set (wq_order q) \<Longrightarrow> list_all (new_id i) xs \<Longrightarrow> ws_run r c fresh xs s = (as, s') \<Longrightarrow>
    Inr (AClaimed ws) \<in> set as \<Longrightarrow> i \<notin> wi_id ` set ws"
proof (induction xs arbitrary: s q as)
  case (Cons x xs)
  have ok: "new_id i x" "op_ok x" using Cons.prems(3) by (auto simp: new_id_def)
  from do_refines [OF Cons.prems(1) ok(2), of r c fresh]
  obtain s1 where 1: "ws_do r c fresh x s = (Inr (fst (wq_do c x q)), s1)" "store_rep s1 (snd (wq_do c x q))" by blast
  obtain as1 where 2: "ws_run r c fresh xs s1 = (as1, s')" "as = Inr (fst (wq_do c x q)) # as1"
    using Cons.prems(4) 1 by (cases "ws_run r c fresh xs s1") auto
  have wf: "wq_wf q" by (rule rep_wf [OF Cons.prems(1)])
  have out: "i \<notin> set (wq_order (snd (wq_do c x q)))"
    using counted_step [OF wf _ ok(1), of 0 0 c] Cons.prems(2) by (simp add: counted_def)
  show ?case
  proof (cases "Inr (AClaimed ws) \<in> set as1")
    case True
    then show ?thesis using Cons.IH [OF 1(2) out _ 2(1)] Cons.prems(3) by auto
  next
    case False
    then have "fst (wq_do c x q) = AClaimed ws" using Cons.prems(5) 2(2) by auto
    then obtain limit cl now until where ws: "ws = fst (wq_claim c limit cl now until q)"
      by (cases x) (auto simp: wq_reclaim_def wq_claim_def)
    have "wi_id ` set ws = set (wq_claimed c limit now q)"
      using arg_cong [OF claim_answer [OF wf, of c limit cl now until], of set] ws by simp
    then show ?thesis using claimed_ids [of c limit now q] Cons.prems(2) by auto
  qed
qed simp

text \<open>
  C23. Failing work is dropped: once failures of an intent were accepted and its attempts reach five,
  the intent has left the queue, and no later claim returns it unless its id is enqueued anew.
\<close>

theorem failing_work_is_dropped:
  assumes "store_rep s q" and "wq_intent q i = Some w" and "list_all (new_id i) xs" and "ws_run r c fresh xs s = (as, s1)"
    and "accepted i xs as > 0" and "wi_attempt w + int (accepted i xs as) \<ge> 5"
    and "list_all (new_id i) ys" and "ws_run r c fresh ys s1 = (bs, s2)" and "Inr (AClaimed ws) \<in> set bs"
  shows "i \<notin> set (load_index r s1) \<and> i \<notin> wi_id ` set ws"
proof -
  have "counted i (wi_attempt w) 0 q" using assms(2) by (simp add: counted_def)
  from counted_run [OF assms(1) this assms(3,4)]
  obtain q1 where q1: "store_rep s1 q1" "counted i (wi_attempt w) (accepted i xs as) q1" by auto
  then have "i \<notin> set (wq_order q1)" using assms(5,6) by (auto simp: counted_def)
  then show ?thesis using unlisted_run [OF q1(1) _ assms(7,8,9)] rep_index [OF q1(1), of r] by simp
qed


subsection \<open>Coalescing\<close>

definition latest_ok :: "work_queue \<Rightarrow> bool" where
  "latest_ok q = (\<forall>i \<in> set (wq_order q). \<forall>w k. wq_intent q i = Some w \<longrightarrow> key_of w = Some k \<longrightarrow> wq_latest q k = Some i)"

lemma latest_ok_step:
  assumes "wq_wf q" "latest_ok q"
  shows "latest_ok (snd (wq_do c x q))"
proof (cases x)
  case (WEnqueue w)
  have "wq_latest (wq_enqueue w q) k = Some i"
    if "i \<in> set (wq_order (wq_enqueue w q))" "wq_intent (wq_enqueue w q) i = Some u" "key_of u = Some k" for i u k
  proof (cases "i = wi_id w")
    case True
    then show ?thesis using that(2,3) by (auto simp: enqueue_other enqueue_latest)
  next
    case False
    then have "wq_latest q k = Some i" "i \<in> set (wq_order q)" "superseded w q \<noteq> Some i"
      using that assms by (auto simp: enqueue_order enqueue_other latest_ok_def wq_wf_def Let_def split: option.splits if_splits)
    then show ?thesis by (auto simp: enqueue_latest superseded_def split: option.splits)
  qed
  then show ?thesis using WEnqueue by (simp add: latest_ok_def)
next
  case (WClaim limit cl now lease)
  then show ?thesis using assms by (auto simp: latest_ok_def wq_claim_def stamp_def Let_def split: if_splits)
next
  case (WReclaim now)
  then show ?thesis using assms by (auto simp: latest_ok_def wq_reclaim_def Let_def split: if_splits)
next
  case (WAck j cl)
  then show ?thesis using assms
    by (auto simp: latest_ok_def wq_ack_def wq_put_def wq_drop_def wq_wf_def Let_def split: option.splits if_splits)
next
  case (WFail j err cl)
  then show ?thesis using assms
    by (auto simp: latest_ok_def wq_fail_def wq_put_def wq_drop_def wq_wf_def split: option.splits if_splits)
qed

lemma latest_ok_run:
  "store_rep s q \<Longrightarrow> latest_ok q \<Longrightarrow> list_all op_ok xs \<Longrightarrow> ws_run r c fresh xs s = (as, s') \<Longrightarrow> \<exists>q'. store_rep s' q' \<and> latest_ok q'"
proof (induction xs arbitrary: s q as)
  case (Cons x xs)
  have ok: "op_ok x" using Cons.prems(3) by auto
  from do_refines [OF Cons.prems(1) ok, of r c fresh]
  obtain s1 where 1: "ws_do r c fresh x s = (Inr (fst (wq_do c x q)), s1)" "store_rep s1 (snd (wq_do c x q))" by blast
  obtain as1 where "ws_run r c fresh xs s1 = (as1, s')" using Cons.prems(4) 1 by (cases "ws_run r c fresh xs s1") auto
  then show ?case using Cons.IH [OF 1(2) latest_ok_step [OF rep_wf [OF Cons.prems(1)] Cons.prems(2)]] Cons.prems(3) by auto
qed auto

text \<open>
  Coalescing: whatever operations are applied to an empty store, the listed ids are distinct and
  no two listed intents share a coalescing key; the one that is listed is the latest enqueued.
\<close>

theorem coalesced_work_is_unique:
  assumes "list_all op_ok xs" and "ws_run r c fresh xs [] = (as, s)"
    and "i \<in> set (load_index r s)" and "py_get s (entry_key i) = VDict (wi_to_dict w)" and "wi_ok w" and "key_of w = Some k"
  shows "distinct (load_index r s) \<and> py_get s (coalesce_key k) = VStr i"
proof -
  obtain q where q: "store_rep s q" "latest_ok q"
    using latest_ok_run [OF empty_rep _ assms(1,2)] by (auto simp: latest_ok_def empty_queue_def)
  have i: "i \<in> set (wq_order q)" using assms(3) rep_index [OF q(1), of r] by simp
  then obtain u where u: "wq_intent q i = Some u" "wi_ok u" using rep_wf [OF q(1)] by (auto simp: wq_wf_def)
  then have "wi_from_dict r [] [] (wi_to_dict w) = wi_from_dict r [] [] (wi_to_dict u)"
    using assms(4) rep_entry [OF q(1), of i] by simp
  then have "w = u" using assms(5) u(2) by simp
  then have "wq_latest q k = Some i" using q(2) i u(1) assms(6) by (auto simp: latest_ok_def)
  then show ?thesis using rep_latest [OF q(1), of k] rep_index [OF q(1), of r] rep_wf [OF q(1)] by (simp add: wq_wf_def)
qed

subsection \<open>Witnesses\<close>

definition demo_intent :: "string \<Rightarrow> string option \<Rightarrow> work_intent" where
  "demo_intent i key = \<lparr>wi_kind = ''run_flow'', wi_target = ''flow'', wi_id = i, wi_payload = [], wi_coalesce_key = key,
     wi_not_before = None, wi_created_at = ''t0'', wi_attempt = 0, wi_depth = 0, wi_status = ''pending'', wi_last_error = VNone,
     wi_claimed_by = None, wi_lease_until = None\<rparr>"

lemma demo_intent_ok [simp]: "i \<noteq> [] \<Longrightarrow> wi_ok (demo_intent i key)" "wi_id (demo_intent i key) = i" "wi_status (demo_intent i key) = ''pending''"
  "wi_attempt (demo_intent i key) = 0" "is_due c t (demo_intent i key)" "key_of (demo_intent i None) = None"
  by (simp_all add: wi_ok_def demo_intent_def is_due_def key_of_def)

abbreviation demo_repr :: "pyval \<Rightarrow> string" where "demo_repr \<equiv> \<lambda>_. ''?''"
abbreviation demo_fresh :: "string \<Rightarrow> string" where "demo_fresh \<equiv> \<lambda>i. ''fresh''"

definition demo_queue :: work_queue where
  "demo_queue = wq_enqueue (demo_intent ''a'' None) empty_queue"

lemma demo_queue_facts: "wq_order demo_queue = [''a'']" "wq_intent demo_queue ''a'' = Some (wi_release ''pending'' (demo_intent ''a'' None))"
  "wq_latest demo_queue = (\<lambda>_. None)"
  by (simp_all add: demo_queue_def wq_enqueue_def superseded_def wq_put_def empty_queue_def Let_def)

lemma demo_rep: "\<exists>s. ws_enqueue demo_repr (demo_intent ''a'' None) [] = (''a'', s) \<and> store_rep s demo_queue"
  using enqueue_refines [OF empty_rep, of "demo_intent ''a'' None" demo_repr] by (simp add: demo_queue_def)

lemma work_store_refines_queue_witness:
  "\<exists>s. store_rep s (snd (wq_run decimal_clock [WEnqueue (demo_intent ''a'' None), WClaim 1 ''w'' 0 60, WAck ''a'' (Some ''w'')] empty_queue))"
proof -
  have "\<forall>w. WEnqueue w \<in> set [WEnqueue (demo_intent ''a'' None), WClaim 1 ''w'' 0 60, WAck ''a'' (Some ''w'')] \<longrightarrow> wi_ok w" by simp
  from work_store_refines_queue [OF empty_rep this] show ?thesis by blast
qed

lemma claims_are_exclusive_witness:
  "\<exists>s s1 s2 ws ws'. ws_claim_due demo_repr decimal_clock demo_fresh 5 ''one'' 0 1000000 s = (Inr ws, s1) \<and> wi_id ` set ws = {''a''}
     \<and> ws_run demo_repr decimal_clock demo_fresh [WReclaim 500000, WAck ''a'' (Some ''two''), WClaim 5 ''two'' 600000 1000000] s1 = (ws', s2)
     \<and> (\<forall>us. Inr (AClaimed us) \<in> set ws' \<longrightarrow> ''a'' \<notin> wi_id ` set us)"
proof -
  obtain s where s: "store_rep s demo_queue" using demo_rep by blast
  obtain s1 where c: "ws_claim_due demo_repr decimal_clock demo_fresh 5 ''one'' 0 1000000 s
      = (Inr (fst (wq_claim decimal_clock 5 (the_claimer ''one'') 0 (iso_text decimal_clock (lease_end 0 1000000)) demo_queue)), s1)"
    using claim_refines [OF s, of demo_repr decimal_clock demo_fresh 5 "''one''" 0 1000000, folded the_claimer_def lease_end_def] by blast
  let ?ws = "fst (wq_claim decimal_clock 5 (the_claimer ''one'') 0 (iso_text decimal_clock (lease_end 0 1000000)) demo_queue)"
  have "map wi_id ?ws = [''a'']"
    unfolding claim_answer [OF rep_wf [OF s]] by (simp add: wq_claimed_def demo_queue_facts claimable_def)
  from arg_cong [OF this, of set] have ids: "wi_id ` set ?ws = {''a''}" unfolding set_map by simp
  then have "''a'' \<in> wi_id ` set ?ws" by blast
  then obtain w where w: "w \<in> set ?ws" "wi_id w = ''a''" by force
  let ?xs = "[WReclaim 500000, WAck ''a'' (Some ''two''), WClaim 5 ''two'' 600000 1000000]"
  obtain as s2 where r: "ws_run demo_repr decimal_clock demo_fresh ?xs s1 = (as, s2)" by fastforce
  have h: "list_all (\<lambda>x. op_ok x \<and> honours (wi_id w) (the_claimer ''one'') (lease_end 0 1000000) x) ?xs"
    using w(2) by (simp add: the_claimer_def lease_end_def)
  have no: "\<forall>us. Inr (AClaimed us) \<in> set as \<longrightarrow> ''a'' \<notin> wi_id ` set us"
  proof (intro allI impI)
    fix us assume "Inr (AClaimed us) \<in> set as"
    from claims_are_exclusive [OF decimal_clock_ok s c w(1) h r this] w(2) show "''a'' \<notin> wi_id ` set us" by simp
  qed
  show ?thesis by (intro exI conjI) (rule c ids r no)+
qed

lemma work_is_served_at_least_once_witness:
  "\<exists>s2 ws s3. ws_claim_due demo_repr decimal_clock demo_fresh 1 ''two'' 1000000 60 s2 = (Inr ws, s3) \<and> ''a'' \<in> wi_id ` set ws"
proof -
  obtain s where s: "store_rep s demo_queue" using demo_rep by blast
  let ?w = "wi_release ''pending'' (demo_intent ''a'' None)" and ?xs = "[WClaim 5 ''one'' 0 1000000]"
  obtain as s1 where r: "ws_run demo_repr decimal_clock demo_fresh ?xs s = (as, s1)" by fastforce
  have "store_rep s1 (snd (wq_run decimal_clock ?xs demo_queue))"
    using run_refines [OF s, of ?xs demo_repr decimal_clock demo_fresh] r by auto
  then have n: "1 \<ge> int (ws_pending_count demo_repr s1)"
    using rep_index [of s1 _ demo_repr] by (simp add: ws_pending_count_def wq_claim_def stamp_def Let_def demo_queue_facts case_prod_beta)
  have sp: "list_all (\<lambda>x. op_ok x \<and> spares ''a'' (key_of ?w) 1000000 x) ?xs" by (simp add: lease_end_def)
  have q: "''a'' \<in> set (wq_order demo_queue)" "wi_status ?w = ''pending'' \<or> lease_expired decimal_clock 1000000 ?w" "is_due decimal_clock 1000000 ?w"
    "\<forall>k. wq_latest demo_queue k = Some ''a'' \<longrightarrow> key_of ?w = Some k" by (simp_all add: demo_queue_facts)
  from work_is_served_at_least_once [OF decimal_clock_ok s q(1) demo_queue_facts(2) q(2-4) sp r n, where cl = "''two''" and lease = 60]
  show ?thesis by blast
qed

lemma failing_work_is_dropped_witness:
  "\<exists>s as s1. ws_run demo_repr decimal_clock demo_fresh [WFail ''a'' ''boom'' None] s = (as, s1) \<and> ''a'' \<in> set (load_index demo_repr s)
     \<and> ''a'' \<notin> set (load_index demo_repr s1)"
proof -
  let ?w = "demo_intent ''a'' None\<lparr>wi_attempt := 4\<rparr>" and ?xs = "[WFail ''a'' ''boom'' None]"
  let ?q = "wq_enqueue ?w empty_queue"
  have "wi_ok ?w" by (simp add: wi_ok_def demo_intent_def)
  then obtain s where s: "store_rep s ?q" using enqueue_refines [OF empty_rep, of ?w demo_repr] by blast
  have q: "wq_order ?q = [''a'']" "wq_intent ?q ''a'' = Some (wi_release ''pending'' ?w)"
    by (simp_all add: wq_enqueue_def superseded_def wq_put_def empty_queue_def Let_def demo_intent_def key_of_def)
  obtain as s1 where r: "ws_run demo_repr decimal_clock demo_fresh ?xs s = (as, s1)" by fastforce
  have "as = map Inr (fst (wq_run decimal_clock ?xs ?q))" and s1: "store_rep s1 (snd (wq_run decimal_clock ?xs ?q))"
    using run_refines [OF s, of ?xs demo_repr decimal_clock demo_fresh] r by auto
  then have acc: "accepted ''a'' ?xs as = 1" using q by (simp add: wq_fail_def foreign_def)
  obtain bs s2 where r2: "ws_run demo_repr decimal_clock demo_fresh [WClaim 1 ''w'' 0 60] s1 = (bs, s2)" by fastforce
  from claim_refines [OF s1, of demo_repr decimal_clock demo_fresh 1 "''w''" 0 60] r2
  obtain ws where "Inr (AClaimed ws) \<in> set bs" by (auto split: prod.splits)
  from failing_work_is_dropped [OF s q(2) _ r _ _ _ r2 this] acc have "''a'' \<notin> set (load_index demo_repr s1)" by (simp add: new_id_def)
  moreover have "''a'' \<in> set (load_index demo_repr s)" using rep_index [OF s, of demo_repr] q(1) by simp
  ultimately show ?thesis using r by blast
qed


lemma coalesced_work_is_unique_witness:
  "\<exists>as s. ws_run demo_repr decimal_clock demo_fresh [WEnqueue (demo_intent ''a'' (Some ''k'')), WEnqueue (demo_intent ''b'' (Some ''k''))] [] = (as, s)
     \<and> load_index demo_repr s = [''b''] \<and> py_get s (coalesce_key ''k'') = VStr ''b''"
proof -
  let ?a = "demo_intent ''a'' (Some ''k'')" and ?b = "demo_intent ''b'' (Some ''k'')"
  let ?xs = "[WEnqueue ?a, WEnqueue ?b]" and ?q = "wq_enqueue ?b (wq_enqueue ?a empty_queue)"
  obtain as s where r: "ws_run demo_repr decimal_clock demo_fresh ?xs [] = (as, s)" by fastforce
  then have rep: "store_rep s ?q" using run_refines [OF empty_rep, of ?xs demo_repr decimal_clock demo_fresh] by auto
  have key: "key_of ?a = Some ''k''" "key_of ?b = Some ''k''" by (simp_all add: key_of_def demo_intent_def)
  have q: "wq_order ?q = [''b'']" "wq_intent ?q ''b'' = Some (wi_release ''pending'' ?b)"
    using key by (simp_all add: enqueue_order enqueue_latest superseded_def enqueue_other(2) [of ?b, simplified] empty_queue_def Let_def)
  have idx: "load_index demo_repr s = [''b'']" using rep_index [OF rep] q(1) by simp
  have ok: "list_all op_ok ?xs" "wi_ok (wi_release ''pending'' ?b)" by (simp_all add: wi_ok_def demo_intent_def wi_release_def)
  have "''b'' \<in> set (load_index demo_repr s)" "py_get s (entry_key ''b'') = VDict (wi_to_dict (wi_release ''pending'' ?b))"
    "key_of (wi_release ''pending'' ?b) = Some ''k''"
    using idx rep_entry [OF rep, of "''b''"] q(2) key by simp_all
  from coalesced_work_is_unique [OF ok(1) r this(1,2) ok(2) this(3)] show ?thesis using r idx by blast
qed

end
