(* ===== verification/WorkPlaneProps.thy ===== *)
theory WorkPlaneProps
  imports WorkPlane WorkQueueProps
begin

text \<open>
  Properties of the start plane: triggered chains end, debouncing, the conditions of flow triggers,
  schedules fire once per interval, and a tick serves every claimed intent whatever the others do.
\<close>

subsection \<open>Chains of triggered work\<close>

text \<open>Induction over the triggers of an event: each is skipped, suppressed or let through.\<close>

lemma event_loop_cases:
  assumes "event_loop r fresh st now et payload d n ((ow, spec) # specs) seen = (ws, seen')"
  obtains (skip) seen1 where "event_loop r fresh st now et payload d (Suc n) specs seen1 = (ws, seen')"
      "seen1 = seen \<or> (\<exists>w. debounce_allows spec w now seen = (False, seen1))"
  | (emit) w seen1 ws1 where "match_trigger r (fresh n) st spec et payload d = Some w" "debounce_allows spec w now seen = (True, seen1)"
      "event_loop r fresh st now et payload d (Suc n) specs seen1 = (ws1, seen')" "ws = w # ws1"
proof (cases "match_trigger r (fresh n) st spec et payload d")
  case None
  then show thesis using assms skip by simp
next
  case (Some w)
  obtain b seen1 where "debounce_allows spec w now seen = (b, seen1)" by fastforce
  then show thesis using assms skip [of seen1] emit [of w seen1] Some
    by (cases b; cases "event_loop r fresh st now et payload d (Suc n) specs seen1") auto
qed

lemma event_loop_depth: "event_loop r fresh st now et payload d n specs seen = (ws, seen') \<Longrightarrow> \<forall>w \<in> set ws. wi_depth w = d + 1"
proof (induction specs arbitrary: n seen ws)
  case (Cons x specs)
  obtain ow spec where x: "x = (ow, spec)" by (cases x)
  from Cons.prems [unfolded x] show ?case
  proof (cases rule: event_loop_cases)
    case (emit w seen1 ws1)
    have "wi_depth w = d + 1" using emit(1) by (auto simp: match_trigger_def triggered_def)
    then show ?thesis using Cons.IH [OF emit(3)] emit(4) by simp
  qed (use Cons.IH in blast)
qed simp

lemma enqueue_all_deep:
  "wp_attached p \<Longrightarrow> \<forall>w \<in> set ws. wi_depth w > wp_max_depth p \<Longrightarrow>
    enqueue_all r ws p = (Inr (), p\<lparr>wp_dropped_depth := wp_dropped_depth p + length ws\<rparr>)"
  by (induction ws arbitrary: p) (auto simp: wp_enqueue_def)

text \<open>
  C24. Chains of triggered work end: an intent started from an event carries a depth one above the
  depth of the event, and an event whose depth has reached the bound of the plane enqueues nothing,
  whatever the triggers are; the intents are counted as dropped.
\<close>

theorem trigger_chains_end:
  assumes "wp_attached p" and "parent_depth payload = Inr d" and "on_event r fresh st now et payload (wp_triggers p) = (Inr ws, t)"
    and "wp_on_event r fresh st now et payload p = (u, p')"
  shows "(\<forall>w \<in> set ws. wi_depth w = d + 1) \<and> (d \<ge> wp_max_depth p \<longrightarrow>
    u = Inr () \<and> wp_store p' = wp_store p \<and> wp_dropped_depth p' = wp_dropped_depth p + length ws)"
proof -
  have depth: "wi_depth w = d + 1" if "w \<in> set ws" for w
    using assms(2,3) that by (auto simp: on_event_def split: prod.splits dest!: event_loop_depth)
  moreover have "u = Inr () \<and> wp_store p' = wp_store p \<and> wp_dropped_depth p' = wp_dropped_depth p + length ws" if "d \<ge> wp_max_depth p"
    using assms(1,3,4) depth that enqueue_all_deep [of "p\<lparr>wp_triggers := t\<rparr>" ws r] by (auto simp: wp_on_event_def)
  ultimately show ?thesis by blast
qed

definition demo_plane :: "kv \<Rightarrow> string list work_plane" where
  "demo_plane s = \<lparr>wp_attached = True, wp_store = s,
     wp_triggers = \<lparr>tr_specs = [(''f'', (plain_spec T_ON_FLOW ''g'' (Some ''k'') [])\<lparr>ts_source_flow := Some ''f'', ts_when := ''failed''\<rparr>)],
                    tr_schedule_last = [], tr_debounce_last = []\<rparr>,
     wp_submit_bound = True, wp_max_depth = 8, wp_batch_size = 10, wp_poll_interval = 1, wp_lease_us = 60000000, wp_claimer_id = ''default'',
     wp_workers = 1, wp_dropped_depth = 0, wp_reclaimed = 0, wp_world = []\<rparr>"

lemma trigger_chains_end_witness:
  "\<exists>p'. wp_on_event demo_repr (\<lambda>n. ''id'') ''t'' 0 ''flow.session.succeeded'' [(''flow_id'', VStr ''f''), (''depth'', VInt 8)] (demo_plane [])
      = (Inr (), p') \<and> wp_store p' = [] \<and> wp_dropped_depth p' = 1"
proof -
  let ?pl = "[(''flow_id'', VStr ''f''), (''depth'', VInt 8)]"
  obtain u p' where o: "wp_on_event demo_repr (\<lambda>n. ''id'') ''t'' 0 ''flow.session.succeeded'' ?pl (demo_plane []) = (u, p')" by fastforce
  have d: "parent_depth ?pl = Inr 8" by (simp add: parent_depth_def py_or_def)
  obtain ws t where e: "on_event demo_repr (\<lambda>n. ''id'') ''t'' 0 ''flow.session.succeeded'' ?pl (wp_triggers (demo_plane [])) = (Inr ws, t)"
      "length ws = 1"
    by (simp add: on_event_def d demo_plane_def match_trigger_def match_payload_def plain_spec_def FLOW_SUCCESS_def or_text_def py_or_def
        opt_text_def debounce_allows_def Let_def)
  have "wp_attached (demo_plane [])" "wp_max_depth (demo_plane []) = 8" "wp_store (demo_plane []) = []" "wp_dropped_depth (demo_plane []) = 0"
    by (simp_all add: demo_plane_def)
  with trigger_chains_end [OF this(1) d e(1) o] e(2) o show ?thesis by auto
qed

subsection \<open>Triggers on flows\<close>

text \<open>
  The condition of a flow trigger is ignored for success: a trigger on a flow fires on the success
  events of its flow whatever its \<open>when\<close> asks for, so that a trigger with \<open>when: failed\<close> starts its work
  when the flow succeeds.
\<close>

theorem flow_trigger_ignores_when:
  assumes "ts_kind spec = T_ON_FLOW" and "et \<in> FLOW_SUCCESS"
    and "or_text r (py_or (py_get payload ''flow_id'') (py_get payload ''flow_name'')) [] = opt_text (ts_source_flow spec)"
  shows "\<exists>w. match_trigger r fresh st (spec\<lparr>ts_when := when\<rparr>) et payload d = Some w \<and> wi_target w = ts_work_flow_id spec"
  using assms by (simp add: match_trigger_def match_payload_def triggered_def Let_def)

lemma flow_trigger_ignores_when_witness:
  "\<exists>spec w. parse_one demo_repr [(''kind'', VStr ''on_flow''), (''flow'', VStr ''import''), (''when'', VStr ''failed''), (''flow_id'', VStr ''alert'')]
       = Some spec \<and> ts_when spec = ''failed''
     \<and> match_trigger demo_repr ''id'' ''t'' spec ''flow.session.succeeded'' [(''flow_id'', VStr ''import'')] 0 = Some w \<and> wi_target w = ''alert''"
proof -
  let ?item = "[(''kind'', VStr ''on_flow''), (''flow'', VStr ''import''), (''when'', VStr ''failed''), (''flow_id'', VStr ''alert'')]"
  have "parse_one demo_repr ?item \<noteq> None \<and> ts_kind (the (parse_one demo_repr ?item)) = T_ON_FLOW \<and> ts_when (the (parse_one demo_repr ?item)) = ''failed''
      \<and> ts_source_flow (the (parse_one demo_repr ?item)) = Some ''import'' \<and> ts_work_flow_id (the (parse_one demo_repr ?item)) = ''alert''"
    by code_simp
  then obtain spec where s: "parse_one demo_repr ?item = Some spec" "ts_kind spec = T_ON_FLOW" "ts_when spec = ''failed''"
      "ts_source_flow spec = Some ''import''" "ts_work_flow_id spec = ''alert''" by auto
  have "\<exists>w. match_trigger demo_repr ''id'' ''t'' (spec\<lparr>ts_when := ''failed''\<rparr>) ''flow.session.succeeded'' [(''flow_id'', VStr ''import'')] 0 = Some w
      \<and> wi_target w = ts_work_flow_id spec"
    by (rule flow_trigger_ignores_when) (use s in \<open>simp_all add: FLOW_SUCCESS_def or_text_def py_or_def opt_text_def\<close>)
  moreover have "spec\<lparr>ts_when := ''failed''\<rparr> = spec" using s(3) by simp
  ultimately show ?thesis using s by auto
qed

subsection \<open>Debouncing\<close>

definition seen_since :: "string \<Rightarrow> rat \<Rightarrow> (string, rat) dict \<Rightarrow> bool" where
  "seen_since k t seen = (\<exists>u. dict_get seen k = Some u \<and> t \<le> u)"

lemma debounce_keeps_seen: "seen_since k t seen \<Longrightarrow> t \<le> now \<Longrightarrow> debounce_allows spec w now seen = (b, seen') \<Longrightarrow> seen_since k t seen'"
  by (auto simp: debounce_allows_def seen_since_def Let_def split: if_splits option.splits)

lemma event_loop_seen:
  "event_loop r fresh st now et payload d n specs seen = (ws, seen') \<Longrightarrow> seen_since k t seen \<Longrightarrow> t \<le> now \<Longrightarrow> seen_since k t seen'"
proof (induction specs arbitrary: n seen ws)
  case (Cons x specs)
  obtain ow spec where x: "x = (ow, spec)" by (cases x)
  from Cons.prems(1) [unfolded x] show ?case
  proof (cases rule: event_loop_cases)
    case (skip seen1)
    have "seen_since k t seen1" using skip(2) Cons.prems(2,3) debounce_keeps_seen by blast
    then show ?thesis using Cons.IH [OF skip(1)] Cons.prems(3) by blast
  next
    case (emit w seen1 ws1)
    then show ?thesis using Cons.IH [OF emit(3)] Cons.prems(2,3) debounce_keeps_seen by blast
  qed
qed simp

fun run_events :: "(pyval \<Rightarrow> string) \<Rightarrow> (nat \<Rightarrow> string) \<Rightarrow> string \<Rightarrow> (rat \<times> string \<times> pydict) list \<Rightarrow> trigger_registry \<Rightarrow> trigger_registry" where
  "run_events r fresh st [] t = t"
| "run_events r fresh st ((now, et, payload) # es) t = run_events r fresh st es (snd (on_event r fresh st now et payload t))"

lemma run_events_seen:
  "\<forall>(now, et, payload) \<in> set es. t \<le> now \<Longrightarrow> seen_since k t (tr_debounce_last tr) \<Longrightarrow> seen_since k t (tr_debounce_last (run_events r fresh st es tr))"
proof (induction es arbitrary: tr)
  case (Cons e es)
  obtain now et payload where e: "e = (now, et, payload)" by (cases e)
  have "seen_since k t (tr_debounce_last (snd (on_event r fresh st now et payload tr)))"
    using Cons.prems e by (auto simp: on_event_def split: sum.split prod.split dest: event_loop_seen)
  then show ?case using Cons e by simp
qed simp

text \<open>
  Debouncing spaces work out: when a debounced trigger was let through at \<open>t1\<close>, then whatever
  events arrive later, no debounced trigger with the same coalescing key is let through again before
  its debounce time has passed since \<open>t1\<close>.
\<close>

theorem debounce_spaces_out:
  assumes "debounce_allows spec w t1 seen = (True, seen1)" and "ts_debounce_seconds spec > 0"
    and "\<forall>e \<in> set es. t1 \<le> fst e"
    and "debounce_allows spec' w' t2 (tr_debounce_last (run_events r fresh st es (tr\<lparr>tr_debounce_last := seen1\<rparr>))) = (True, seen2)"
    and "ts_debounce_seconds spec' > 0" and "debounce_key spec' w' = debounce_key spec w"
  shows "t2 \<ge> t1 + ts_debounce_seconds spec'"
proof -
  have "seen_since (debounce_key spec w) t1 seen1"
    using assms(1,2) by (auto simp: debounce_allows_def seen_since_def Let_def split: if_splits)
  then have "seen_since (debounce_key spec w) t1 (tr_debounce_last (run_events r fresh st es (tr\<lparr>tr_debounce_last := seen1\<rparr>)))"
    using assms(3) by (intro run_events_seen) auto
  then show ?thesis using assms(4-6) by (auto simp: debounce_allows_def seen_since_def Let_def split: if_splits)
qed

lemma debounce_spaces_out_witness:
  "debounce_allows ((plain_spec T_ON_RESOURCE ''f'' (Some ''k'') [])\<lparr>ts_debounce_seconds := 5\<rparr>) (demo_intent ''a'' (Some ''k'')) 3 [] = (True, [(''k'', 3)])
    \<and> \<not> (8 :: rat) < 3 + 5"
proof -
  let ?s = "(plain_spec T_ON_RESOURCE ''f'' (Some ''k'') [])\<lparr>ts_debounce_seconds := 5\<rparr>" and ?w = "demo_intent ''a'' (Some ''k'')"
  have k: "debounce_key ?s ?w = ''k''" by (simp add: debounce_key_def key_of_def demo_intent_def)
  have 1: "debounce_allows ?s ?w 3 [] = (True, [(''k'', 3)])" "debounce_allows ?s ?w 8 [(''k'', 3)] = (True, [(''k'', 8)])"
    using k by (simp_all add: debounce_allows_def plain_spec_def)
  have d: "ts_debounce_seconds ?s > 0" by (simp add: plain_spec_def)
  have "debounce_allows ?s ?w 8 (tr_debounce_last (run_events demo_repr (\<lambda>_. []) [] [] (new_triggers\<lparr>tr_debounce_last := [(''k'', 3)]\<rparr>))) = (True, [(''k'', 8)])"
    using 1(2) by simp
  from debounce_spaces_out [OF 1(1) d _ this d refl] 1(1) show ?thesis by (simp add: plain_spec_def)
qed


subsection \<open>A tick\<close>

text \<open>
  What a tick does to one claimed intent, from the queue that its start has left: a started one is done
  and off the queue, a failed one has one more attempt and the message of the error, and is pending
  again, or failed and off the queue at the fifth. Nothing else in the queue changes.
\<close>

definition settled :: "string option \<Rightarrow> work_intent \<Rightarrow> work_queue \<Rightarrow> work_queue \<Rightarrow> bool" where
  "settled err w q q' \<longleftrightarrow> (\<forall>i. i \<noteq> wi_id w \<longrightarrow> wq_intent q' i = wq_intent q i \<and> (i \<in> set (wq_order q') \<longleftrightarrow> i \<in> set (wq_order q)))
     \<and> (case err of
          None \<Rightarrow> wi_id w \<notin> set (wq_order q') \<and> wq_intent q' (wi_id w) = Some (wi_release ''done'' w)
        | Some msg \<Rightarrow> (wi_id w \<in> set (wq_order q') \<longleftrightarrow> wi_id w \<in> set (wq_order q) \<and> wi_attempt w + 1 < 5)
            \<and> wq_intent q' (wi_id w) = Some (wi_release (if wi_attempt w + 1 < 5 then ''pending'' else ''failed'') (wi_failure msg w)))"

lemma ack_own:
  assumes "wq_wf q" "wq_intent q (wi_id w) = Some w" "wi_claimed_by w = Some cid"
  shows "settled None w q (snd (wq_ack (wi_id w) (Some cid) q))"
proof -
  let ?q' = "snd (wq_ack (wi_id w) (Some cid) q)"
  have q': "wq_order ?q' = remove1 (wi_id w) (wq_order q)" "wq_intent ?q' = (wq_intent q)(wi_id w \<mapsto> wi_release ''done'' w)"
    using assms(2,3) by (auto simp: wq_ack_def foreign_def wq_put_def wq_drop_def Let_def split: option.split)
  have d: "set (remove1 (wi_id w) (wq_order q)) = set (wq_order q) - {wi_id w}" using assms(1) by (simp add: wq_wf_def)
  show ?thesis by (simp add: settled_def q' d)
qed

lemma fail_own:
  assumes "wq_wf q" "wq_intent q (wi_id w) = Some w" "wi_claimed_by w = Some cid"
  shows "settled (Some err) w q (snd (wq_fail (wi_id w) err (Some cid) q))"
proof -
  let ?q' = "snd (wq_fail (wi_id w) err (Some cid) q)" and ?again = "wi_attempt w + 1 < 5"
  have q': "wq_order ?q' = (if ?again then wq_order q else remove1 (wi_id w) (wq_order q))"
      "wq_intent ?q' = (wq_intent q)(wi_id w \<mapsto> wi_release (if ?again then ''pending'' else ''failed'') (wi_failure err w))"
    using assms(2,3) by (auto simp: wq_fail_def foreign_def wq_put_def wq_drop_def)
  have d: "set (remove1 (wi_id w) (wq_order q)) = set (wq_order q) - {wi_id w}" using assms(1) by (simp add: wq_wf_def)
  show ?thesis by (cases ?again) (simp_all add: settled_def q' d)
qed

text \<open>
  A start that comes back into the plane: whatever it does to the machine, its effect on the queue is
  that of some operations, of this or other threads, that leave the claims of the tick alone: none
  finishes or enqueues anew an id of the batch, and none reclaims leases at a time when those of the
  tick have ended.
\<close>

definition reentrant :: "clock \<Rightarrow> string set \<Rightarrow> string \<Rightarrow> int \<Rightarrow> 'w start_flow \<Rightarrow> bool" where
  "reentrant c ids cid t submit \<longleftrightarrow> (\<forall>target payload p q. wp_attached p \<longrightarrow> store_rep (wp_store p) q \<longrightarrow>
     (\<exists>ops. list_all (\<lambda>x. op_ok x \<and> (\<forall>i \<in> ids. honours i cid t x)) ops
        \<and> wp_attached (snd (submit target payload p))
        \<and> store_rep (wp_store (snd (submit target payload p))) (snd (wq_run c ops q))))"

lemma held_intent:
  assumes "clock_ok c" "wq_wf q" "held c i cl t q" "honours i cl t x"
  shows "wq_intent (snd (wq_do c x q)) i = wq_intent q i"
proof -
  obtain w where w: "wq_intent q i = Some w" "wi_claimed_by w = Some cl" using assms(3) by (auto simp: held_def)
  show ?thesis
  proof (cases x)
    case (WEnqueue u)
    then show ?thesis using assms(4) by (simp add: enqueue_other)
  next
    case (WClaim limit cl' now lease)
    then show ?thesis using held_not_claimable [OF assms(3), of limit now] by (simp add: wq_claim_def Let_def stamp_def)
  next
    case (WReclaim now)
    have "\<not> expired c now q i" using assms WReclaim by (auto simp: held_def expired_def lease_expired_def clock_ok_def)
    then show ?thesis using WReclaim by (simp add: wq_reclaim_def Let_def)
  next
    case (WAck j cl')
    have "j \<noteq> i \<or> snd (wq_ack j cl' q) = q"
      using finish_foreign [of q i w cl'] assms(4) WAck w by (cases cl') (auto simp: foreign_def)
    then show ?thesis using finish_other(1) [OF assms(2), of j i cl'] WAck by (cases "j = i") auto
  next
    case (WFail j err cl')
    have "j \<noteq> i \<or> snd (wq_fail j err cl' q) = q"
      using finish_foreign [of q i w cl' err] assms(4) WFail w by (cases cl') (auto simp: foreign_def)
    then show ?thesis using finish_other(2) [OF assms(2), of j i err cl'] WFail by (cases "j = i") auto
  qed
qed

lemma held_intent_run:
  assumes "clock_ok c"
  shows "store_rep s q \<Longrightarrow> held c i cl t q \<Longrightarrow> list_all (\<lambda>x. op_ok x \<and> honours i cl t x) xs \<Longrightarrow>
    wq_intent (snd (wq_run c xs q)) i = wq_intent q i \<and> held c i cl t (snd (wq_run c xs q))"
proof (induction xs arbitrary: s q)
  case (Cons x xs)
  have ok: "op_ok x" "honours i cl t x" using Cons.prems(3) by auto
  obtain s1 where 1: "store_rep s1 (snd (wq_do c x q))"
    using do_refines [OF Cons.prems(1) ok(1), of "\<lambda>_. []" c id] by blast
  note h = held_step [OF assms rep_wf [OF Cons.prems(1)] Cons.prems(2) ok(2)]
  note i = held_intent [OF assms rep_wf [OF Cons.prems(1)] Cons.prems(2) ok(2)]
  from Cons.IH [OF 1 conjunct1 [OF h]] Cons.prems(3) i show ?case by (simp add: case_prod_beta)
qed simp

text \<open>
  The course of the loop over the claimed intents: each is started on the plane as the ones before it
  have left it, and after its start it is the intent that was claimed, and is settled.
\<close>

inductive serves :: "'w start_flow \<Rightarrow> work_intent list \<Rightarrow> bool list \<Rightarrow> 'w work_plane \<Rightarrow> 'w work_plane \<Rightarrow> bool" for submit where
  serves_end: "serves submit [] [] p p"
| serves_started: "start_one submit w p = (Inr (), p1) \<Longrightarrow> store_rep (wp_store p1) q1 \<Longrightarrow> wq_intent q1 (wi_id w) = Some w \<Longrightarrow>
    store_rep s2 q2 \<Longrightarrow> settled None w q1 q2 \<Longrightarrow> serves submit ws oks (p1\<lparr>wp_store := s2\<rparr>) p' \<Longrightarrow>
    serves submit (w # ws) (True # oks) p p'"
| serves_failed: "start_one submit w p = (Inl err, p1) \<Longrightarrow> store_rep (wp_store p1) q1 \<Longrightarrow> wq_intent q1 (wi_id w) = Some w \<Longrightarrow>
    store_rep s2 q2 \<Longrightarrow> settled (Some (exc_msg err)) w q1 q2 \<Longrightarrow> serves submit ws oks (p1\<lparr>wp_store := s2\<rparr>) p' \<Longrightarrow>
    serves submit (w # ws) (False # oks) p p'"

definition claimed_for :: "clock \<Rightarrow> string \<Rightarrow> int \<Rightarrow> work_queue \<Rightarrow> work_intent \<Rightarrow> bool" where
  "claimed_for c cid t q w \<longleftrightarrow> wq_intent q (wi_id w) = Some w \<and> held c (wi_id w) cid t q"

lemma claimed_for_other:
  assumes "claimed_for c cid t q w" and "settled err u q q'" and "wi_id w \<noteq> wi_id u"
  shows "claimed_for c cid t q' w"
proof -
  have "wq_intent q' (wi_id w) = wq_intent q (wi_id w)" using assms(2,3) unfolding settled_def by blast
  then show ?thesis using assms(1) by (auto simp: claimed_for_def held_def)
qed

lemma start_reentrant:
  assumes "reentrant c ids cid t submit" and "clock_ok c" and "wp_attached p" and "store_rep (wp_store p) q"
    and "start_one submit w p = (x, p1)"
  obtains q1 where "wp_attached p1" and "store_rep (wp_store p1) q1"
    and "\<And>u. claimed_for c cid t q u \<Longrightarrow> wi_id u \<in> ids \<Longrightarrow> claimed_for c cid t q1 u"
proof (cases "wi_kind w = ''run_flow''")
  case True
  then have p1: "p1 = snd (submit (wi_target w) (wi_payload w) p)" using assms(5) by (simp add: start_one_def)
  obtain ops where ops: "list_all (\<lambda>x. op_ok x \<and> (\<forall>i \<in> ids. honours i cid t x)) ops" "wp_attached p1"
      "store_rep (wp_store p1) (snd (wq_run c ops q))"
    using assms(1,3,4) unfolding reentrant_def p1 by blast
  show ?thesis
  proof (rule that [OF ops(2,3)])
    fix u assume u: "claimed_for c cid t q u" "wi_id u \<in> ids"
    then have "list_all (\<lambda>x. op_ok x \<and> honours (wi_id u) cid t x) ops" using ops(1) by (auto simp: list_all_iff)
    with held_intent_run [OF assms(2,4), of "wi_id u" cid t ops] u(1) show "claimed_for c cid t (snd (wq_run c ops q)) u"
      by (simp add: claimed_for_def)
  qed
next
  case False
  then have "p1 = p" using assms(5) by (simp add: start_one_def)
  then show ?thesis using that assms(3,4) by blast
qed

lemma run_claimed_serves:
  assumes re: "reentrant c ids cid t submit" and "clock_ok c"
  shows "store_rep (wp_store p) q \<Longrightarrow> wp_attached p \<Longrightarrow> distinct (map wi_id ws) \<Longrightarrow>
    \<forall>w \<in> set ws. claimed_for c cid t q w \<and> wi_id w \<in> ids \<Longrightarrow>
    \<exists>p' oks. run_claimed r submit cid ws n p = (Inr (n + int (count_list oks True)), p') \<and> serves submit ws oks p p'"
proof (induction ws arbitrary: n p q)
  case Nil
  then show ?case by (intro exI [of _ p] exI [of _ "[]"]) (simp add: serves_end)
next
  case (Cons w ws)
  obtain x p1 where one: "start_one submit w p = (x, p1)" by fastforce
  obtain q1 where q1: "wp_attached p1" "store_rep (wp_store p1) q1"
      "\<And>u. claimed_for c cid t q u \<Longrightarrow> wi_id u \<in> ids \<Longrightarrow> claimed_for c cid t q1 u"
    using start_reentrant [OF re assms(2) Cons.prems(2,1) one] by blast
  have w: "wq_intent q1 (wi_id w) = Some w" "wi_claimed_by w = Some cid"
    using q1(3) [of w] Cons.prems(4) by (auto simp: claimed_for_def held_def)
  have rest: "\<forall>u \<in> set ws. claimed_for c cid t q2 u \<and> wi_id u \<in> ids" if "settled err w q1 q2" for err q2
  proof
    fix u assume u: "u \<in> set ws"
    then have "wi_id u \<noteq> wi_id w" using Cons.prems(3) imageI [OF u, of wi_id] by (metis distinct.simps(2) list.simps(9) list.set_map)
    with claimed_for_other [OF q1(3) that] Cons.prems(4) u show "claimed_for c cid t q2 u \<and> wi_id u \<in> ids" by simp
  qed
  have d: "distinct (map wi_id ws)" using Cons.prems(3) by simp
  show ?case
  proof (cases x)
    case (Inr v)
    obtain s2 where s2: "ws_ack r (wi_id w) (Some cid) (wp_store p1) = (fst (wq_ack (wi_id w) (Some cid) q1), s2)"
        "store_rep s2 (snd (wq_ack (wi_id w) (Some cid) q1))"
      using ack_refines [OF q1(2)] by blast
    note fin = ack_own [OF rep_wf [OF q1(2)] w]
    obtain p' oks where r: "run_claimed r submit cid ws (n + 1) (p1\<lparr>wp_store := s2\<rparr>) = (Inr (n + 1 + int (count_list oks True)), p')"
        "serves submit ws oks (p1\<lparr>wp_store := s2\<rparr>) p'"
      using Cons.IH [of "p1\<lparr>wp_store := s2\<rparr>" "snd (wq_ack (wi_id w) (Some cid) q1)" "n + 1", OF _ _ d rest [OF fin]] s2(2) q1(1) by auto
    have "serves submit (w # ws) (True # oks) p p'"
      by (rule serves_started [OF _ q1(2) w(1) s2(2) fin r(2)]) (use one Inr in simp)
    moreover have "run_claimed r submit cid (w # ws) n p = (Inr (n + int (count_list (True # oks) True)), p')"
      using one Inr q1(1) s2(1) r(1) by simp
    ultimately show ?thesis by blast
  next
    case (Inl err)
    obtain s2 where s2: "ws_fail r (wi_id w) (exc_msg err) (Some cid) (wp_store p1) = (Inr (fst (wq_fail (wi_id w) (exc_msg err) (Some cid) q1)), s2)"
        "store_rep s2 (snd (wq_fail (wi_id w) (exc_msg err) (Some cid) q1))"
      using fail_refines [OF q1(2)] by blast
    note fin = fail_own [OF rep_wf [OF q1(2)] w, of "exc_msg err"]
    obtain p' oks where r: "run_claimed r submit cid ws n (p1\<lparr>wp_store := s2\<rparr>) = (Inr (n + int (count_list oks True)), p')"
        "serves submit ws oks (p1\<lparr>wp_store := s2\<rparr>) p'"
      using Cons.IH [of "p1\<lparr>wp_store := s2\<rparr>" "snd (wq_fail (wi_id w) (exc_msg err) (Some cid) q1)" n, OF _ _ d rest [OF fin]] s2(2) q1(1) by auto
    have "serves submit (w # ws) (False # oks) p p'"
      by (rule serves_failed [OF _ q1(2) w(1) s2(2) fin r(2)]) (use one Inl in simp)
    moreover have "run_claimed r submit cid (w # ws) n p = (Inr (n + int (count_list (False # oks) True)), p')"
      using one Inl q1(1) s2(1) r(1) by (simp add: record_failure_def)
    ultimately show ?thesis by blast
  qed
qed

text \<open>
  C7. A tick of an attached and able plane over a store that stands for a queue, with a clock that reads
  back what it prints. Starting a flow may raise and may come back into the plane: enqueue further work
  through its events, let other threads claim, reclaim and finish work, change the machine; only, it
  neither detaches the plane nor touches the claims of this tick, and takes no longer than its leases.
  The tick reclaims, claims the first due intents, and serves each once and in their order, on the
  plane as the ones before have left it. A start that returns makes exactly its intent done and takes
  it off the queue; a start that raises, or an unknown kind, gives exactly its intent one more attempt
  with the message of the error and returns it to the queue, or drops it at the fifth. The tick never
  raises and answers the number of the started.
\<close>

theorem tick_isolates_failures:
  assumes "store_rep (wp_store p) q" and "wp_attached p" and "wp_submit_bound p" and "wp_is_able able p" and "clock_ok c"
    and "q1 = snd (wq_reclaim c now q)"
    and "cid = if_empty DEFAULT_CLAIMER_ID (wp_claimer_id p)"
    and "(ws, q2) = wq_claim c (wp_batch_size p) cid now (iso_text c (lease_end now (wp_lease_us p))) q1"
    and "reentrant c (wi_id ` set ws) cid (lease_end now (wp_lease_us p)) submit"
    and "wp_tick r c fresh submit able None None True now p = (a, p')"
  shows "\<exists>s2 oks. store_rep s2 q2 \<and> a = Inr (int (count_list oks True))
    \<and> serves submit ws oks (p\<lparr>wp_store := s2, wp_reclaimed := wp_reclaimed p + fst (wq_reclaim c now q)\<rparr>) p'"
proof -
  let ?t = "lease_end now (wp_lease_us p)"
  have cid: "cid \<noteq> []" using assms(7) by (simp add: if_empty_def DEFAULT_CLAIMER_ID_def)
  obtain s1 where s1: "ws_reclaim_expired r c fresh now (wp_store p) = (Inr (fst (wq_reclaim c now q)), s1)" "store_rep s1 q1"
    using reclaim_refines [OF assms(1), of r c fresh now] assms(6) by auto
  obtain s2 where s2: "ws_claim_due r c fresh (wp_batch_size p) cid now (wp_lease_us p) s1 = (Inr ws, s2)" "store_rep s2 q2"
    using claim_refines [OF s1(2), of r c fresh "wp_batch_size p" cid now "wp_lease_us p"] cid assms(8) [symmetric]
    by (auto simp: lease_end_def)
  let ?p = "p\<lparr>wp_store := s2, wp_reclaimed := wp_reclaimed p + fst (wq_reclaim c now q)\<rparr>"
  have tick: "run_claimed r submit cid ws 0 ?p = (a, p')"
    using assms(2-4,7,10) s1(1) s2(1) by (simp add: wp_tick_def opt_text_def if_empty_def)
  have ids: "map wi_id ws = wq_claimed c (wp_batch_size p) now q1"
    using claim_answer [OF rep_wf [OF s1(2)], of c "wp_batch_size p" cid now "iso_text c ?t"] assms(8) by (metis fst_conv)
  have entry: "claimed_for c cid ?t q2 w \<and> wi_id w \<in> wi_id ` set ws" if "w \<in> set ws" for w
  proof -
    have q2: "q2 = stamp cid (iso_text c ?t) (wq_claimed c (wp_batch_size p) now q1) q1"
        "ws = map (\<lambda>i. the (wq_intent q2 i)) (wq_claimed c (wp_batch_size p) now q1)"
      using assms(8) by (simp_all add: wq_claim_def Let_def)
    from that q2(2) obtain i where i: "i \<in> set (wq_claimed c (wp_batch_size p) now q1)" "w = the (wq_intent q2 i)" by auto
    from i(1) obtain u where "wq_intent q1 i = Some u" "wi_id u = i"
      using claimed_ids [of c "wp_batch_size p" now q1] rep_wf [OF s1(2)] by (force simp: wq_wf_def)
    with i q2(1) have "claimed_for c cid ?t q2 w" by (simp add: stamp_def claimed_for_def held_def wi_claim_def)
    then show ?thesis using imageI [OF that, of wi_id] by blast
  qed
  have "distinct (map wi_id ws)" using rep_wf [OF s1(2)] by (simp add: ids wq_claimed_def wq_wf_def)
  with run_claimed_serves [OF assms(9,5), of ?p q2 ws r 0] s2(2) assms(2) entry tick show ?thesis by auto
qed

text \<open>A start whose event enqueues further work under an id of its own comes back into the plane this way.\<close>

lemma enqueue_reentrant:
  assumes "wi_ok w" and "wi_id w \<notin> ids"
  shows "reentrant c ids cid t (\<lambda>target payload p. (res target payload, snd (wp_enqueue r w p)))"
  unfolding reentrant_def
proof (intro allI impI)
  fix target :: string and payload :: pydict and p :: "'w work_plane" and q
  assume p: "wp_attached p" "store_rep (wp_store p) q"
  obtain s' where s': "ws_enqueue r w (wp_store p) = (wi_id w, s')" "store_rep s' (wq_enqueue w q)"
    using enqueue_refines [OF p(2) assms(1)] by blast
  let ?ops = "if wi_depth w > wp_max_depth p then [] else [WEnqueue w]"
  have "list_all (\<lambda>x. op_ok x \<and> (\<forall>i \<in> ids. honours i cid t x)) ?ops" using assms by auto
  moreover have "wp_attached (snd (wp_enqueue r w p)) \<and> store_rep (wp_store (snd (wp_enqueue r w p))) (snd (wq_run c ?ops q))"
    using p s' by (auto simp: wp_enqueue_def)
  ultimately show "\<exists>ops. list_all (\<lambda>x. op_ok x \<and> (\<forall>i \<in> ids. honours i cid t x)) ops
        \<and> wp_attached (snd (res target payload, snd (wp_enqueue r w p)))
        \<and> store_rep (wp_store (snd (res target payload, snd (wp_enqueue r w p)))) (snd (wq_run c ops q))"
    unfolding snd_conv by blast
qed

lemma tick_isolates_failures_witness:
  "\<exists>s p' q' w. store_rep s demo_queue
     \<and> wp_tick demo_repr decimal_clock demo_fresh
         (\<lambda>t pl x. (Inl (Exc PyRuntimeError ''boom''), snd (wp_enqueue demo_repr (demo_intent ''b'' None) x)))
         (\<lambda>_. Inr True) None None True 0 (demo_plane s) = (Inr 0, p')
     \<and> store_rep (wp_store p') q' \<and> wq_intent q' ''a'' = Some w \<and> wi_attempt w = 1 \<and> wi_last_error w = VStr ''boom''"
proof -
  obtain s where s: "store_rep s demo_queue" using demo_rep by blast
  let ?submit = "\<lambda>(t :: string) (pl :: pydict) (x :: string list work_plane).
    (Inl (Exc PyRuntimeError ''boom'') :: unit result, snd (wp_enqueue demo_repr (demo_intent ''b'' None) x))"
  have plane: "wp_store (demo_plane s) = s" "wp_attached (demo_plane s)" "wp_submit_bound (demo_plane s)" "wp_batch_size (demo_plane s) = 10"
    "wp_claimer_id (demo_plane s) = ''default''" "wp_lease_us (demo_plane s) = 60000000"
    by (simp_all add: demo_plane_def)
  obtain a p' where t: "wp_tick demo_repr decimal_clock demo_fresh ?submit (\<lambda>_. Inr True) None None True 0 (demo_plane s) = (a, p')" by fastforce
  have q1: "snd (wq_reclaim decimal_clock 0 demo_queue) = demo_queue"
    by (simp add: wq_reclaim_def Let_def expired_def demo_queue_facts lease_expired_def wi_release_def)
  let ?cid = "if_empty DEFAULT_CLAIMER_ID ''default''"
  let ?c = "wq_claim decimal_clock 10 ?cid 0 (iso_text decimal_clock (lease_end 0 60000000)) demo_queue"
  let ?w = "wi_claim ''default'' (iso_text decimal_clock (lease_end 0 60000000)) (wi_release ''pending'' (demo_intent ''a'' None))"
  have ws: "fst ?c = [?w]"
    by (simp add: wq_claim_def Let_def wq_claimed_def claimable_def demo_queue_facts stamp_def if_empty_def)
  have w: "wi_id ?w = ''a''" "wi_kind ?w = ''run_flow''" "wi_attempt ?w = 0"
    by (simp_all add: wi_claim_def wi_release_def demo_intent_def)
  have able: "wp_is_able (\<lambda>_. Inr True) (demo_plane s)" by (simp add: wp_is_able_def)
  have rep: "store_rep (wp_store (demo_plane s)) demo_queue" using s plane(1) by simp
  have c: "(fst ?c, snd ?c) = wq_claim decimal_clock (wp_batch_size (demo_plane s)) ?cid 0
      (iso_text decimal_clock (lease_end 0 (wp_lease_us (demo_plane s)))) demo_queue" by (simp add: plane)
  have re: "reentrant decimal_clock (wi_id ` set (fst ?c)) ?cid (lease_end 0 (wp_lease_us (demo_plane s))) ?submit"
    by (rule enqueue_reentrant) (simp_all add: ws w(1))
  have cid: "?cid = if_empty DEFAULT_CLAIMER_ID (wp_claimer_id (demo_plane s))" by (simp add: plane)
  from tick_isolates_failures [OF rep plane(2,3) able decimal_clock_ok q1 [symmetric] cid c re t]
  obtain s2 oks where a: "a = Inr (int (count_list oks True))" and
    ser: "serves ?submit [?w] oks ((demo_plane s)\<lparr>wp_store := s2, wp_reclaimed := wp_reclaimed (demo_plane s) + fst (wq_reclaim decimal_clock 0 demo_queue)\<rparr>) p'"
    unfolding ws by blast
  from ser show ?thesis
  proof (cases rule: serves.cases)
    case (serves_started p1 q1 s2 q2 oks)
    then show ?thesis using w(2) by (simp add: start_one_def)
  next
    case (serves_failed err p1 q1 s2 q2 oks)
    then have "err = Exc PyRuntimeError ''boom''" using w(2) by (simp add: start_one_def)
    moreover have "oks = []" "p' = p1\<lparr>wp_store := s2\<rparr>" using serves_failed(7) by (auto elim: serves.cases)
    moreover have "wq_intent q2 ''a'' = Some (wi_release ''pending'' (wi_failure ''boom'' ?w))"
      using serves_failed(6) calculation(1) w by (simp add: settled_def)
    ultimately show ?thesis using s t a serves_failed(1,5) w(3)
      by (intro exI [of _ s] exI [of _ p'] exI [of _ q2] exI) (auto simp: wi_release_def wi_failure_def)
  qed
qed

end
