(* ===== verification/Events.thy ===== *)
theory Events
  imports Registry
begin

text \<open>
  The event engine (\<open>palm/core/event\<close>): correlation contexts and how they merge, the bus with its
  subscriptions, priorities and interceptors, and one publish cycle. Handlers are known by an
  identity; what a call does is a parameter, which may change the bus itself (a handler can
  subscribe or publish), so the bus and the rest of the world are one state.
\<close>

subsection \<open>Correlation context\<close>

record event_context =
  ec_job_id :: "string option"
  ec_instance_id :: "string option"
  ec_session_id :: "string option"
  ec_trace_id :: "string option"
  ec_principal_id :: "string option"
  ec_extra :: pydict

definition empty_context :: event_context where
  "empty_context = \<lparr>ec_job_id = None, ec_instance_id = None, ec_session_id = None,
     ec_trace_id = None, ec_principal_id = None, ec_extra = []\<rparr>"

text \<open>\<open>a or b\<close> on optional strings: an empty string counts as absent.\<close>

definition or_opt :: "string option \<Rightarrow> string option \<Rightarrow> string option" where
  "or_opt a b = (case a of None \<Rightarrow> b | Some s \<Rightarrow> (if s = [] then b else a))"

definition merged :: "event_context \<Rightarrow> event_context option \<Rightarrow> event_context" where
  "merged self other = (case other of None \<Rightarrow> self
   | Some c \<Rightarrow> \<lparr>ec_job_id = or_opt (ec_job_id c) (ec_job_id self),
        ec_instance_id = or_opt (ec_instance_id c) (ec_instance_id self),
        ec_session_id = or_opt (ec_session_id c) (ec_session_id self),
        ec_trace_id = or_opt (ec_trace_id c) (ec_trace_id self),
        ec_principal_id = or_opt (ec_principal_id c) (ec_principal_id self),
        ec_extra = dict_update (ec_extra self) (ec_extra c)\<rparr>)"

definition put_opt :: "string \<Rightarrow> string option \<Rightarrow> pydict \<Rightarrow> pydict" where
  "put_opt k v d = (case v of None \<Rightarrow> d | Some s \<Rightarrow> dict_set k (VStr s) d)"

definition context_to_dict :: "event_context \<Rightarrow> pydict" where
  "context_to_dict c =
     (let d = put_opt ''principal_id'' (ec_principal_id c)
            (put_opt ''trace_id'' (ec_trace_id c)
            (put_opt ''session_id'' (ec_session_id c)
            (put_opt ''instance_id'' (ec_instance_id c)
            (put_opt ''job_id'' (ec_job_id c) []))))
      in if ec_extra c \<noteq> [] then dict_update d (ec_extra c) else d)"

text \<open>
  \<open>from_dict\<close>: the named identifiers are popped from a copy of the mapping; the default of
  \<open>principal_id\<close> is itself a pop of \<open>principal\<close>, evaluated first and always.
\<close>

definition opt_text :: "(pyval \<Rightarrow> string) \<Rightarrow> pyval \<Rightarrow> string option" where
  "opt_text r v = (if v = VNone then None else Some (py_str r v))"

definition context_from_dict :: "(pyval \<Rightarrow> string) \<Rightarrow> pydict option \<Rightarrow> event_context option" where
  "context_from_dict r data = (case data of None \<Rightarrow> None
   | Some d \<Rightarrow>
       if d = [] then None
       else
         let job = py_get d ''job_id''; e1 = dict_pop ''job_id'' d;
             inst = py_get e1 ''instance_id''; e2 = dict_pop ''instance_id'' e1;
             sess = py_get e2 ''session_id''; e3 = dict_pop ''session_id'' e2;
             trace = py_get e3 ''trace_id''; e4 = dict_pop ''trace_id'' e3;
             alias = py_get e4 ''principal''; e5 = dict_pop ''principal'' e4;
             princ = get_default e5 ''principal_id'' alias; e6 = dict_pop ''principal_id'' e5
         in Some \<lparr>ec_job_id = opt_text r job, ec_instance_id = opt_text r inst,
              ec_session_id = opt_text r sess, ec_trace_id = opt_text r trace,
              ec_principal_id = opt_text r princ, ec_extra = e6\<rparr>)"

definition context_from_mapping :: "(pyval \<Rightarrow> string) \<Rightarrow> pydict \<Rightarrow> event_context" where
  "context_from_mapping r d = (case context_from_dict r (Some d) of
     Some c \<Rightarrow> c | None \<Rightarrow> empty_context)"

text \<open>Merging: right-biased and associative, with the absent context as the unit.\<close>

lemma or_opt_assoc: "or_opt a (or_opt b c) = or_opt (or_opt a b) c"
  by (auto simp: or_opt_def split: option.splits)

lemma dict_set_swap:
  "k \<noteq> k' \<Longrightarrow> dict_has d k \<Longrightarrow>
    AList.update k v (AList.update k' v' d) = AList.update k' v' (AList.update k v d)"
  by (induction d) (auto simp: dict_has_def)

lemma dict_update_set_notin:
  "\<not> dict_has e k \<Longrightarrow> dict_has d k \<Longrightarrow>
    dict_update (AList.update k v d) e = AList.update k v (dict_update d e)"
proof (induction e arbitrary: d)
  case (Cons p e)
  obtain k' v' where p: "p = (k', v')" by (cases p)
  with Cons.prems have ne: "k \<noteq> k'" and nh: "\<not> dict_has e k" by (auto simp: dict_has_def split: if_splits)
  have "dict_update (AList.update k v d) (p # e) = dict_update (AList.update k v (AList.update k' v' d)) e"
    using dict_set_swap [OF ne Cons.prems(2)] by (simp add: dict_update_def p)
  also have "\<dots> = AList.update k v (dict_update (AList.update k' v' d) e)"
    using Cons.prems(2) by (intro Cons.IH nh) simp
  finally show ?case by (simp add: dict_update_def p)
qed (simp add: dict_update_def)

lemma dict_update_snoc: "dict_update d (e @ [(k, v)]) = AList.update k v (dict_update d e)"
  by (simp add: dict_update_def)

lemma dict_update_set:
  "dict_wf e \<Longrightarrow> dict_update d (AList.update k v e) = AList.update k v (dict_update d e)"
proof (induction e arbitrary: d)
  case (Cons p e)
  obtain k' v' where p: "p = (k', v')" by (cases p)
  from Cons.prems have wf: "dict_wf e" and nk: "\<not> dict_has e k'"
    by (auto simp: dict_wf_def p dict_has_iff)
  show ?case
  proof (cases "k = k'")
    case True
    have "dict_update d (AList.update k v (p # e)) = dict_update (AList.update k v (AList.update k v' d)) e"
      using True by (simp add: dict_update_def p AList.update_last)
    also have "\<dots> = AList.update k v (dict_update (AList.update k v' d) e)"
      using nk True by (intro dict_update_set_notin) auto
    finally show ?thesis using True by (simp add: dict_update_def p)
  next
    case False
    with Cons.IH [OF wf] show ?thesis by (simp add: dict_update_def p)
  qed
qed (simp add: dict_update_def)

lemma dict_update_assoc:
  "dict_wf b \<Longrightarrow> dict_update a (dict_update b c) = dict_update (dict_update a b) c"
proof (induction c arbitrary: b)
  case (Cons p c)
  obtain k v where p: "p = (k, v)" by (cases p)
  have "dict_update a (dict_update b (p # c)) = dict_update a (dict_update (AList.update k v b) c)"
    by (simp add: dict_update_def p)
  also have "\<dots> = dict_update (dict_update a (AList.update k v b)) c"
    using Cons by blast
  also have "\<dots> = dict_update (dict_update a b) (p # c)"
    using Cons.prems by (simp add: dict_update_set) (simp add: dict_update_def p)
  finally show ?case .
qed simp

lemma context_cong:
  "ec_job_id c = ec_job_id d \<Longrightarrow> ec_instance_id c = ec_instance_id d \<Longrightarrow>
   ec_session_id c = ec_session_id d \<Longrightarrow> ec_trace_id c = ec_trace_id d \<Longrightarrow>
   ec_principal_id c = ec_principal_id d \<Longrightarrow> ec_extra c = ec_extra d \<Longrightarrow> c = (d :: event_context)"
  by simp

text \<open>
  Combining correlation contexts is associative, key order of the extra fields included, so
  nested publishes agree on the context however the implicit contexts are grouped; the empty
  context contributes nothing.
\<close>

theorem merged_assoc:
  assumes "dict_wf (ec_extra b)"
  shows "merged (merged a (Some b)) (Some c) = merged a (Some (merged b (Some c)))
    \<and> merged a None = a \<and> merged a (Some empty_context) = a"
  using assms
  by (simp add: merged_def or_opt_assoc dict_update_assoc)
    (simp add: or_opt_def empty_context_def)

theorem merged_assoc_witness:
  "let a = empty_context\<lparr>ec_job_id := Some ''j'', ec_extra := [(''flow'', VStr ''f'')]\<rparr>;
       b = empty_context\<lparr>ec_trace_id := Some ''t'', ec_extra := [(''flow'', VStr ''g'')]\<rparr>;
       c = empty_context\<lparr>ec_job_id := Some ''k'', ec_extra := [(''wizard'', VStr ''w'')]\<rparr>
   in merged (merged a (Some b)) (Some c) = merged a (Some (merged b (Some c)))"
  unfolding Let_def by (rule conjunct1 [OF merged_assoc]) (simp add: dict_wf_def)

text \<open>The dictionary form and back: the reserved keys are exactly the named identifiers.\<close>

definition reserved_keys :: "string list" where
  "reserved_keys = [''job_id'', ''instance_id'', ''session_id'', ''trace_id'', ''principal_id'', ''principal'']"

definition context_wf :: "event_context \<Rightarrow> bool" where
  "context_wf c \<longleftrightarrow> dict_wf (ec_extra c) \<and> (\<forall>k \<in> set reserved_keys. \<not> dict_has (ec_extra c) k)"

lemma dict_update_append_fresh:
  "dict_wf e \<Longrightarrow> (\<forall>k. dict_has e k \<longrightarrow> \<not> dict_has d k) \<Longrightarrow> dict_update d e = d @ e"
proof (induction e arbitrary: d)
  case (Cons p e)
  obtain k v where p: "p = (k, v)" by (cases p)
  with Cons.prems have fresh: "\<not> dict_has d k" by simp
  have "dict_update d (p # e) = dict_update (d @ [(k, v)]) e"
    by (simp add: dict_update_def p dict_set_fresh [OF fresh])
  also have "\<dots> = (d @ [(k, v)]) @ e"
  proof (rule Cons.IH)
    show "dict_wf e" using Cons.prems(1) by (simp add: dict_wf_def p)
    have "\<not> dict_has e k" using Cons.prems(1) by (auto simp: dict_wf_def p dict_has_iff)
    then show "\<forall>k'. dict_has e k' \<longrightarrow> \<not> dict_has (d @ [(k, v)]) k'"
      using Cons.prems(2) by (auto simp: p dict_has_iff)
  qed
  finally show ?case by (simp add: p)
qed simp

definition id_pair :: "string \<Rightarrow> string option \<Rightarrow> pydict" where
  "id_pair k v = (case v of None \<Rightarrow> [] | Some s \<Rightarrow> [(k, VStr s)])"

lemma context_to_dict_eq:
  assumes "context_wf c"
  shows "context_to_dict c = id_pair ''job_id'' (ec_job_id c) @ id_pair ''instance_id'' (ec_instance_id c)
    @ id_pair ''session_id'' (ec_session_id c) @ id_pair ''trace_id'' (ec_trace_id c)
    @ id_pair ''principal_id'' (ec_principal_id c) @ ec_extra c"
proof -
  let ?ids = "id_pair ''job_id'' (ec_job_id c) @ id_pair ''instance_id'' (ec_instance_id c)
    @ id_pair ''session_id'' (ec_session_id c) @ id_pair ''trace_id'' (ec_trace_id c)
    @ id_pair ''principal_id'' (ec_principal_id c)"
  have ids: "put_opt ''principal_id'' (ec_principal_id c)
            (put_opt ''trace_id'' (ec_trace_id c)
            (put_opt ''session_id'' (ec_session_id c)
            (put_opt ''instance_id'' (ec_instance_id c)
            (put_opt ''job_id'' (ec_job_id c) [])))) = ?ids"
    by (simp add: put_opt_def id_pair_def split: option.splits)
  have "dict_update ?ids (ec_extra c) = ?ids @ ec_extra c"
    using assms by (intro dict_update_append_fresh)
      (auto simp: context_wf_def reserved_keys_def id_pair_def split: option.splits)
  then show ?thesis by (simp add: context_to_dict_def Let_def ids del: append_assoc)
qed

lemma opt_text_simps [simp]: "opt_text r VNone = None" "opt_text r (VStr s) = Some s"
  by (simp_all add: opt_text_def)

lemma id_pair_simps [simp]: "id_pair k None = []" "id_pair k (Some s) = [(k, VStr s)]"
  by (simp_all add: id_pair_def)

text \<open>
  Reading back what was written: a context with an identifier or an extra field, whose extra
  fields avoid the reserved names, survives the dictionary form unchanged; the empty context is
  the only other case and reads back as absent.
\<close>

theorem context_roundtrip:
  assumes "context_wf c"
  shows "context_from_dict r (Some (context_to_dict c)) = (if c = empty_context then None else Some c)"
proof -
  have pops: "AList.delete k (ec_extra c) = ec_extra c" "map_of (ec_extra c) k = None"
    if "k \<in> set reserved_keys" for k
    using assms that by (auto simp: context_wf_def dict_pop_none dict_has_def)
  have "context_to_dict c = [] \<longleftrightarrow> c = empty_context"
    unfolding context_to_dict_eq [OF assms]
    by (cases c) (auto simp: empty_context_def id_pair_def split: option.splits)
  then show ?thesis
    unfolding context_to_dict_eq [OF assms] context_from_dict_def
    by (cases "ec_job_id c"; cases "ec_instance_id c"; cases "ec_session_id c"; cases "ec_trace_id c";
        cases "ec_principal_id c")
      (simp_all add: Let_def pops reserved_keys_def get_default_def)
qed

theorem context_roundtrip_witness:
  "let c = empty_context\<lparr>ec_session_id := Some ''s'', ec_extra := [(''flow'', VStr ''f'')]\<rparr>
   in context_from_dict (\<lambda>_. []) (Some (context_to_dict c)) = Some c"
proof -
  let ?c = "empty_context\<lparr>ec_session_id := Some ''s'', ec_extra := [(''flow'', VStr ''f'')]\<rparr>"
  have "context_wf ?c" by (simp add: context_wf_def reserved_keys_def dict_wf_def)
  from context_roundtrip [OF this, of "\<lambda>_. []"] show ?thesis by (simp add: empty_context_def)
qed

subsection \<open>Events and the bus\<close>

record event =
  ev_type :: string
  ev_payload :: pydict
  ev_timestamp :: int
  ev_id :: string
  ev_context :: "event_context option"

definition enriched_payload :: "event \<Rightarrow> pydict" where
  "enriched_payload e = (case ev_context e of None \<Rightarrow> ev_payload e
   | Some c \<Rightarrow> fold (\<lambda>(k, v). dict_setdefault k v) (context_to_dict c) (ev_payload e))"

record handler_entry =
  sub_id :: nat
  handler :: nat
  priority :: int

record subscription =
  s_event_type :: string
  s_id :: nat

text \<open>
  The state of the bus together with the rest of the world \<open>world\<close>; \<open>implicit\<close> is the context
  variable of the running task. A failed handler is recorded with its event type and exception.
\<close>

record 'w bus =
  handlers :: "(string, handler_entry list) dict"
  interceptors :: "(nat \<times> nat) list"
  next_subscription_id :: nat
  pending_async :: "(nat \<times> event) list"
  isolate_handler_errors :: bool
  last_handler_errors :: "(string \<times> nat \<times> exc) list"
  implicit :: "event_context option"
  world :: 'w

record publish_result =
  delivered :: nat
  handler_errors :: "(string \<times> nat \<times> exc) list option"
  async_scheduled :: nat

definition publish_ok :: "publish_result \<Rightarrow> bool" where
  "publish_ok r = (case handler_errors r of None \<Rightarrow> True | Some es \<Rightarrow> es = [])"

definition new_bus :: "'w \<Rightarrow> 'w bus" where
  "new_bus w = \<lparr>handlers = [], interceptors = [], next_subscription_id = 1, pending_async = [],
     isolate_handler_errors = True, last_handler_errors = [], implicit = None, world = w\<rparr>"

definition bucket :: "'w bus \<Rightarrow> string \<Rightarrow> handler_entry list" where
  "bucket b t = (case dict_get (handlers b) t of Some es \<Rightarrow> es | None \<Rightarrow> [])"

text \<open>
  \<open>bucket.sort(key=priority, reverse=True)\<close> is stable, so equal priorities keep the order of
  their subscriptions.
\<close>

definition sort_bucket :: "handler_entry list \<Rightarrow> handler_entry list" where
  "sort_bucket es = sort_key (\<lambda>e. - priority e) es"

definition subscribe :: "string \<Rightarrow> nat \<Rightarrow> int \<Rightarrow> 'w bus \<Rightarrow> subscription \<times> 'w bus" where
  "subscribe t h p b =
     (let i = next_subscription_id b;
          e = \<lparr>sub_id = i, handler = h, priority = p\<rparr>
      in (\<lparr>s_event_type = t, s_id = i\<rparr>,
          b\<lparr>next_subscription_id := i + 1,
            handlers := dict_set t (sort_bucket (bucket b t @ [e])) (handlers b)\<rparr>))"

definition interceptor_type :: string where
  "interceptor_type = ''__interceptor__''"

definition unsubscribe :: "subscription \<Rightarrow> 'w bus \<Rightarrow> 'w bus" where
  "unsubscribe s b =
     (if s_event_type s = interceptor_type
      then b\<lparr>interceptors := filter (\<lambda>i. fst i \<noteq> s_id s) (interceptors b)\<rparr>
      else b\<lparr>handlers := dict_set (s_event_type s)
              (filter (\<lambda>e. sub_id e \<noteq> s_id s) (bucket b (s_event_type s))) (handlers b)\<rparr>)"

definition add_interceptor :: "nat \<Rightarrow> 'w bus \<Rightarrow> subscription \<times> 'w bus" where
  "add_interceptor h b =
     (let i = next_subscription_id b
      in (\<lparr>s_event_type = interceptor_type, s_id = i\<rparr>,
          b\<lparr>next_subscription_id := i + 1, interceptors := interceptors b @ [(i, h)]\<rparr>))"

definition resolve_context :: "'w bus \<Rightarrow> event \<Rightarrow> event" where
  "resolve_context b e = (case (ev_context e, implicit b) of
     (Some c, Some i) \<Rightarrow> e\<lparr>ev_context := Some (merged i (Some c))\<rparr>
   | (Some c, None) \<Rightarrow> e
   | (None, Some i) \<Rightarrow> e\<lparr>ev_context := Some i\<rparr>
   | (None, None) \<Rightarrow> e)"

text \<open>
  What a call does is a parameter: \<open>call h e b\<close> runs the plain function \<open>h\<close> and yields either its
  exception or whether it returned an awaitable; \<open>coroutine h\<close> tells coroutine functions, which
  are queued for \<open>drain_async_handlers\<close>. The publishing thread has no running event loop.
\<close>

type_synonym 'w call = "nat \<Rightarrow> event \<Rightarrow> 'w bus \<Rightarrow> bool result \<times> 'w bus"

fun run_interceptors :: "'w call \<Rightarrow> nat list \<Rightarrow> event \<Rightarrow> 'w bus \<Rightarrow> unit result \<times> 'w bus" where
  "run_interceptors call [] e b = (Inr (), b)"
| "run_interceptors call (h # hs) e b = (case call h e b of
     (Inl x, b') \<Rightarrow> (Inl x, b')
   | (Inr _, b') \<Rightarrow> run_interceptors call hs e b')"

definition invoke_handler :: "(nat \<Rightarrow> bool) \<Rightarrow> 'w call \<Rightarrow> nat \<Rightarrow> event \<Rightarrow> 'w bus \<Rightarrow> bool result \<times> 'w bus" where
  "invoke_handler coroutine call h e b =
     (if coroutine h then (Inr False, b\<lparr>pending_async := pending_async b @ [(h, e)]\<rparr>)
      else call h e b)"

fun dispatch :: "(nat \<Rightarrow> bool) \<Rightarrow> 'w call \<Rightarrow> handler_entry list \<Rightarrow> event
    \<Rightarrow> nat \<Rightarrow> nat \<Rightarrow> (string \<times> nat \<times> exc) list \<Rightarrow> 'w bus
    \<Rightarrow> (nat \<times> nat \<times> (string \<times> nat \<times> exc) list) result \<times> 'w bus" where
  "dispatch coroutine call [] e d a errs b = (Inr (d, a, errs), b)"
| "dispatch coroutine call (h # hs) e d a errs b =
     (case invoke_handler coroutine call (handler h) e b of
        (Inr True, b') \<Rightarrow> dispatch coroutine call hs e d (a + 1) errs b'
      | (Inr False, b') \<Rightarrow> dispatch coroutine call hs e (d + 1) a errs b'
      | (Inl x, b') \<Rightarrow>
          if \<not> isolate_handler_errors b' then (Inl x, b')
          else dispatch coroutine call hs e d a (errs @ [(ev_type e, handler h, x)]) b')"

definition publish :: "(nat \<Rightarrow> bool) \<Rightarrow> 'w call \<Rightarrow> event \<Rightarrow> string \<Rightarrow> 'w bus
    \<Rightarrow> publish_result result \<times> 'w bus" where
  "publish coroutine call event source b =
     (let e = resolve_context b event in
      case (if source \<noteq> ''outbox'' then run_interceptors call (map snd (interceptors b)) e b
            else (Inr (), b)) of
        (Inl x, b1) \<Rightarrow> (Inl x, b1)
      | (Inr _, b1) \<Rightarrow>
          (case dispatch coroutine call (bucket b1 (ev_type e) @ bucket b1 ''*'') e 0 0 [] b1 of
             (Inl x, b2) \<Rightarrow> (Inl x, b2)
           | (Inr (d, a, errs), b2) \<Rightarrow>
               (Inr \<lparr>delivered = d, handler_errors = (if errs = [] then None else Some errs),
                   async_scheduled = a\<rparr>,
                b2\<lparr>last_handler_errors := errs\<rparr>)))"

definition emit_event :: "(nat \<Rightarrow> bool) \<Rightarrow> 'w call \<Rightarrow> string \<Rightarrow> event_context option \<Rightarrow> string option
    \<Rightarrow> pydict \<Rightarrow> (int \<times> string) \<Rightarrow> 'w bus \<Rightarrow> publish_result result \<times> 'w bus" where
  "emit_event coroutine call t ctx eid payload stamp b =
     publish coroutine call \<lparr>ev_type = t, ev_payload = payload, ev_timestamp = fst stamp,
        ev_id = (case eid of Some i \<Rightarrow> (if i = [] then snd stamp else i) | None \<Rightarrow> snd stamp),
        ev_context = ctx\<rparr> ''live'' b"

text \<open>
  \<open>drain_async_handlers\<close>: the queue is taken whole, then each coroutine is awaited; a failure is
  recorded, or raised when errors are not isolated (the rest of the taken queue is then lost).
\<close>

fun await_all :: "'w call \<Rightarrow> (nat \<times> event) list \<Rightarrow> nat \<Rightarrow> 'w bus \<Rightarrow> nat result \<times> 'w bus" where
  "await_all call [] n b = (Inr n, b)"
| "await_all call ((h, e) # ps) n b = (case call h e b of
     (Inr _, b') \<Rightarrow> await_all call ps (n + 1) b'
   | (Inl x, b') \<Rightarrow>
       if \<not> isolate_handler_errors b' then (Inl x, b')
       else await_all call ps (n + 1)
              (b'\<lparr>last_handler_errors := last_handler_errors b' @ [(ev_type e, h, x)]\<rparr>))"

definition drain_async_handlers :: "'w call \<Rightarrow> 'w bus \<Rightarrow> nat result \<times> 'w bus" where
  "drain_async_handlers call b =
     (let ps = pending_async b; b' = b\<lparr>pending_async := []\<rparr>
      in if ps = [] then (Inr 0, b') else await_all call ps 0 b')"

definition bus_initialize :: "bool option \<Rightarrow> 'w bus \<Rightarrow> 'w bus" where
  "bus_initialize isolate b = (case isolate of Some x \<Rightarrow> b\<lparr>isolate_handler_errors := x\<rparr> | None \<Rightarrow> b)"

definition bus_shutdown :: "'w bus \<Rightarrow> 'w bus" where
  "bus_shutdown b = b\<lparr>handlers := [], interceptors := [], pending_async := [], last_handler_errors := []\<rparr>"

text \<open>\<open>bind_context\<close>: the implicit context holds for the body and is restored after it, raise or not.\<close>

definition bind_context :: "event_context option \<Rightarrow> ('w bus \<Rightarrow> 'a result \<times> 'w bus) \<Rightarrow> 'w bus \<Rightarrow> 'a result \<times> 'w bus" where
  "bind_context c body b = (let (r, b') = body (b\<lparr>implicit := c\<rparr>) in (r, b'\<lparr>implicit := implicit b\<rparr>))"

subsection \<open>Delivery order\<close>

definition entry_before :: "handler_entry \<Rightarrow> handler_entry \<Rightarrow> bool" where
  "entry_before a b \<longleftrightarrow> priority b < priority a \<or> (priority a = priority b \<and> sub_id a < sub_id b)"

definition bucket_ok :: "nat \<Rightarrow> handler_entry list \<Rightarrow> bool" where
  "bucket_ok n es \<longleftrightarrow> sorted_wrt entry_before es \<and> distinct (map sub_id es)
     \<and> (\<forall>e \<in> set es. sub_id e < n)"

definition bus_wf :: "'w bus \<Rightarrow> bool" where
  "bus_wf b \<longleftrightarrow> (\<forall>t. bucket_ok (next_subscription_id b) (bucket b t))"

lemma sorted_by_classes:
  assumes "sorted (map f ys)" and "\<And>k. sorted_wrt (\<lambda>a b. g a < (g b :: nat)) (filter (\<lambda>y. f y = k) ys)"
  shows "sorted_wrt (\<lambda>a b. f a < (f b :: int) \<or> (f a = f b \<and> g a < g b)) ys"
  using assms
proof (induction ys)
  case (Cons y ys)
  have "sorted_wrt (\<lambda>a b. g a < g b) (filter (\<lambda>y. f y = k) ys)" for k
    using Cons.prems(2) [of k] by (cases "f y = k") auto
  moreover have "f y < f z \<or> (f y = f z \<and> g y < g z)" if "z \<in> set ys" for z
    using Cons.prems(1) Cons.prems(2) [of "f y"] that by (force simp: less_le)
  ultimately show ?case using Cons by simp
qed simp

lemma sorted_wrt_entry_class:
  "sorted_wrt entry_before es \<Longrightarrow>
    sorted_wrt (\<lambda>a b. sub_id a < sub_id b) (filter (\<lambda>e. - priority e = k) es)"
  by (induction es) (auto simp: entry_before_def)

lemma sort_bucket_ok:
  assumes "bucket_ok n es" and "sub_id e = n"
  shows "bucket_ok (Suc n) (sort_bucket (es @ [e]))"
proof -
  let ?ys = "sort_bucket (es @ [e])"
  have "sorted (map (\<lambda>e. - priority e) ?ys)" by (simp add: sort_bucket_def)
  moreover have "sorted_wrt (\<lambda>a b. sub_id a < sub_id b) (filter (\<lambda>e. - priority e = k) ?ys)" for k
    using assms sorted_wrt_entry_class [of es k]
    by (auto simp: sort_bucket_def sort_key_stable sorted_wrt_append bucket_ok_def)
  ultimately have "sorted_wrt entry_before ?ys"
    using sorted_by_classes [of "\<lambda>e. - priority e" ?ys sub_id]
    by (simp add: entry_before_def [abs_def])
  moreover have "distinct (map sub_id ?ys)"
    using assms by (auto simp: bucket_ok_def sort_bucket_def distinct_map)
  ultimately show ?thesis using assms by (auto simp: bucket_ok_def sort_bucket_def)
qed

lemma bucket_ok_mono: "bucket_ok n es \<Longrightarrow> n \<le> m \<Longrightarrow> bucket_ok m es"
  by (auto simp: bucket_ok_def)

lemma bucket_ok_filter: "bucket_ok n es \<Longrightarrow> bucket_ok n (filter P es)"
  by (auto simp: bucket_ok_def sorted_wrt_filter distinct_map_filter)

lemma bucket_set [simp]:
  "bucket (b\<lparr>handlers := dict_set t es (handlers b)\<rparr>) t' = (if t' = t then es else bucket b t')"
  "bucket (b\<lparr>next_subscription_id := i, handlers := dict_set t es (handlers b)\<rparr>) t'
     = (if t' = t then es else bucket b t')"
  "bucket (b\<lparr>interceptors := is\<rparr>) t' = bucket b t'"
  "bucket (b\<lparr>next_subscription_id := i, interceptors := is\<rparr>) t' = bucket b t'"
  "bucket (b\<lparr>next_subscription_id := i\<rparr>) t' = bucket b t'"
  by (simp_all add: bucket_def)

datatype bus_op = Subscribe string nat int | Unsubscribe subscription | Intercept nat | Shut

fun bus_step :: "bus_op \<Rightarrow> 'w bus \<Rightarrow> 'w bus" where
  "bus_step (Subscribe t h p) b = snd (subscribe t h p b)"
| "bus_step (Unsubscribe s) b = unsubscribe s b"
| "bus_step (Intercept h) b = snd (add_interceptor h b)"
| "bus_step Shut b = bus_shutdown b"

lemma bus_step_wf: "bus_wf b \<Longrightarrow> bus_wf (bus_step op b)"
proof (cases op)
  case (Subscribe t h p)
  assume "bus_wf b"
  then show ?thesis
    using Subscribe sort_bucket_ok by (auto simp: bus_wf_def subscribe_def Let_def intro: bucket_ok_mono)
next
  case (Intercept h)
  assume "bus_wf b"
  then show ?thesis
    using Intercept by (auto simp: bus_wf_def add_interceptor_def Let_def intro: bucket_ok_mono)
qed (auto simp: bus_wf_def unsubscribe_def bucket_ok_filter bus_shutdown_def, simp add: bucket_ok_def bucket_def)

lemma bus_run_wf: "bus_wf (fold bus_step ops (new_bus w))"
proof -
  have "bus_wf (fold bus_step ops b)" if "bus_wf b" for b :: "'a bus"
    using that by (induction ops arbitrary: b) (auto simp: bus_step_wf)
  then show ?thesis by (simp add: bus_wf_def new_bus_def bucket_def bucket_ok_def)
qed

text \<open>
  However handlers were subscribed and removed, the handlers of an event type stand in order
  of descending priority and, within one priority, in the order they were subscribed; no
  subscription occurs twice.
\<close>

theorem handlers_in_priority_order:
  "sorted_wrt entry_before (bucket (fold bus_step ops (new_bus w)) t)
    \<and> distinct (map sub_id (bucket (fold bus_step ops (new_bus w)) t))"
  using bus_run_wf [of ops w] by (simp add: bus_wf_def bucket_ok_def)

definition keeps_isolation :: "'w call \<Rightarrow> bool" where
  "keeps_isolation call \<longleftrightarrow>
     (\<forall>h e b. isolate_handler_errors (snd (call h e b)) = isolate_handler_errors b)"

lemma invoke_isolation:
  "keeps_isolation call \<Longrightarrow> invoke_handler cor call h e b = (r, b') \<Longrightarrow>
    isolate_handler_errors b' = isolate_handler_errors b"
  by (auto simp: keeps_isolation_def invoke_handler_def split: if_splits)
    (metis snd_conv)+

lemma dispatch_total:
  assumes "keeps_isolation call" and "isolate_handler_errors b"
  shows "\<exists>d' a' errs' b'. dispatch cor call hs e d a errs b = (Inr (d', a', errs'), b')
    \<and> d' + a' + length errs' = d + a + length errs + length hs"
  using assms(2)
proof (induction hs arbitrary: d a errs b)
  case (Cons h hs)
  obtain r b1 where c: "invoke_handler cor call (handler h) e b = (r, b1)" by fastforce
  then have i: "isolate_handler_errors b1" using invoke_isolation [OF assms(1)] Cons.prems by metis
  show ?case
  proof (cases r)
    case (Inl x)
    with c i Cons.IH [OF i, of d a "errs @ [(ev_type e, handler h, x)]"] show ?thesis by simp
  next
    case (Inr w)
    then show ?thesis
      using c Cons.IH [OF i, of d "a + 1" errs] Cons.IH [OF i, of "d + 1" a errs] by (cases w) simp_all
  qed
qed simp

lemma publish_accounts:
  assumes "keeps_isolation call" and "isolate_handler_errors b"
  shows "\<exists>res b'. publish cor call ev ''outbox'' b = (Inr res, b')
    \<and> delivered res + async_scheduled res + length (last_handler_errors b')
        = length (bucket b (ev_type ev)) + length (bucket b ''*'')
    \<and> (publish_ok res \<longleftrightarrow> last_handler_errors b' = [])"
proof -
  let ?e = "resolve_context b ev"
  have t: "ev_type ?e = ev_type ev" by (simp add: resolve_context_def split: option.splits)
  from dispatch_total [OF assms, of cor "bucket b (ev_type ev) @ bucket b ''*''" ?e 0 0 "[]"]
  obtain d a es b' where
    "dispatch cor call (bucket b (ev_type ev) @ bucket b ''*'') ?e 0 0 [] b = (Inr (d, a, es), b')"
    "d + a + length es = length (bucket b (ev_type ev)) + length (bucket b ''*'')" by auto
  then show ?thesis by (auto simp: publish_def Let_def t publish_ok_def)
qed

text \<open>
  What the handlers do when each is invoked once with the event, in order and whatever the ones
  before it raised: the outcomes, and the exceptions among them as the bus records failures.
\<close>

fun outcomes_of :: "(nat \<Rightarrow> bool) \<Rightarrow> 'w call \<Rightarrow> handler_entry list \<Rightarrow> event \<Rightarrow> 'w bus
    \<Rightarrow> bool result list \<times> 'w bus" where
  "outcomes_of cor call [] e b = ([], b)"
| "outcomes_of cor call (h # hs) e b =
     (let (r, b1) = invoke_handler cor call (handler h) e b; (rs, b2) = outcomes_of cor call hs e b1
      in (r # rs, b2))"

fun failures_of :: "event \<Rightarrow> handler_entry list \<Rightarrow> bool result list \<Rightarrow> (string \<times> nat \<times> exc) list" where
  "failures_of e (h # hs) (Inl x # rs) = (ev_type e, handler h, x) # failures_of e hs rs"
| "failures_of e (h # hs) (Inr _ # rs) = failures_of e hs rs"
| "failures_of e _ _ = []"

lemma dispatch_outcomes:
  assumes "keeps_isolation call" and "isolate_handler_errors b"
    and "outcomes_of cor call hs e b = (rs, b')"
  shows "dispatch cor call hs e d a errs b =
    (Inr (d + count_list rs (Inr False), a + count_list rs (Inr True), errs @ failures_of e hs rs), b')"
  using assms(2,3)
proof (induction hs arbitrary: d a errs b rs)
  case (Cons h hs)
  obtain r b1 where c: "invoke_handler cor call (handler h) e b = (r, b1)" by fastforce
  then have i: "isolate_handler_errors b1" using invoke_isolation [OF assms(1)] Cons.prems by metis
  obtain rs1 b2 where o: "outcomes_of cor call hs e b1 = (rs1, b2)" by fastforce
  have rs: "rs = r # rs1" "b' = b2" using Cons.prems(2) by (simp_all add: c o)
  note step = Cons.IH [OF i o [folded rs(2)]]
  show ?case
  proof (cases r)
    case (Inl x)
    then show ?thesis by (simp add: c i rs(1) step)
  next
    case (Inr w)
    then show ?thesis by (cases w) (simp_all add: c rs(1) step)
  qed
qed simp

lemma outcomes_counted:
  "outcomes_of cor call hs e b = (rs, b') \<Longrightarrow> length rs = length hs \<and>
    length hs = length (failures_of e hs rs) + count_list rs (Inr False) + count_list rs (Inr True)"
proof (induction hs arbitrary: b rs)
  case (Cons h hs)
  obtain r b1 where c: "invoke_handler cor call (handler h) e b = (r, b1)" by fastforce
  obtain rs1 b2 where o: "outcomes_of cor call hs e b1 = (rs1, b2)" by fastforce
  have rs: "rs = r # rs1" "b2 = b'" using Cons.prems by (simp_all add: c o)
  then show ?case using Cons.IH o by (cases r) fastforce+
qed simp

lemma interceptors_isolation:
  "keeps_isolation call \<Longrightarrow> run_interceptors call hs e b = (r, b') \<Longrightarrow>
    isolate_handler_errors b' = isolate_handler_errors b"
proof (induction hs arbitrary: b)
  case (Cons h hs)
  obtain x b1 where c: "call h e b = (x, b1)" by fastforce
  have "isolate_handler_errors b1 = isolate_handler_errors b"
    using Cons.prems(1) c unfolding keeps_isolation_def by (metis snd_conv)
  then show ?case using Cons c by (cases x) auto
qed simp

text \<open>
  C22. One publish, live or replayed from the outbox, with error isolation on and handlers and
  interceptors that leave the isolation flag alone. A live publish first runs the interceptors,
  which are not isolated: the exception of the first one that raises ends the publish and no
  handler runs. Otherwise every subscription of the event's type and then of \<open>*\<close>, as the bus has
  them at that moment, is invoked exactly once and in order with the event under its resolved
  context, whatever the handlers before it raised. The answer counts exactly the plain handlers
  that returned as delivered and the awaitables as scheduled, and each exception is reported with
  its handler, in order, in the answer and on the bus. Nothing is swallowed and nothing is counted
  twice.
\<close>

theorem publish_accounts_for_every_handler:
  fixes b :: "'w bus"
  assumes "keeps_isolation call" and "isolate_handler_errors b"
    and "e = resolve_context b ev"
    and "(if source = ''outbox'' then (Inr (), b)
          else run_interceptors call (map snd (interceptors b)) e b) = (before, b1)"
    and "hs = bucket b1 (ev_type ev) @ bucket b1 ''*''"
    and "outcomes_of cor call hs e b1 = (rs, b2)"
    and "errs = failures_of e hs rs"
  shows "publish cor call ev source b = (case before of
      Inl x \<Rightarrow> (Inl x, b1)
    | Inr _ \<Rightarrow> (Inr \<lparr>delivered = count_list rs (Inr False),
          handler_errors = (if errs = [] then None else Some errs),
          async_scheduled = count_list rs (Inr True)\<rparr>, b2\<lparr>last_handler_errors := errs\<rparr>))
    \<and> length rs = length hs \<and> length errs = length hs - count_list rs (Inr False) - count_list rs (Inr True)"
proof -
  have t: "ev_type e = ev_type ev" by (simp add: assms(3) resolve_context_def split: option.splits)
  have "isolate_handler_errors b1"
    using assms(2,4) interceptors_isolation [OF assms(1)] by (metis Pair_inject)
  note d = dispatch_outcomes [OF assms(1) this assms(6), of 0 0 "[]"]
  show ?thesis
    using outcomes_counted [OF assms(6)] assms(4) d by (cases before) (auto simp: publish_def t assms(3,5,7) [symmetric] split: if_splits)
qed

theorem publish_accounts_for_every_handler_witness:
  "\<exists>b'. publish (\<lambda>_. False)
      (\<lambda>h e b. (if h = 2 then Inl (Exc PyValueError []) else Inr False, b\<lparr>world := world b @ [h]\<rparr>))
      \<lparr>ev_type = ''t'', ev_payload = [], ev_timestamp = 0, ev_id = ''x'', ev_context = None\<rparr> ''live''
      (fold bus_step [Subscribe ''t'' 1 0, Subscribe ''t'' 2 5, Subscribe ''*'' 3 9, Intercept 4] (new_bus []))
    = (Inr \<lparr>delivered = 2, handler_errors = Some [(''t'', 2, Exc PyValueError [])], async_scheduled = 0\<rparr>, b')
    \<and> world b' = [4, 2, 1, 3]"
proof -
  let ?b = "fold bus_step [Subscribe ''t'' 1 0, Subscribe ''t'' 2 5, Subscribe ''*'' 3 9, Intercept 4] (new_bus [])"
  let ?c = "\<lambda>h e b. (if h = (2::nat) then Inl (Exc PyValueError []) else Inr False, b\<lparr>world := world b @ [h]\<rparr>)"
  let ?e = "\<lparr>ev_type = ''t'', ev_payload = [], ev_timestamp = 0, ev_id = ''x'', ev_context = None\<rparr>"
  have k: "keeps_isolation ?c" "isolate_handler_errors ?b"
    by (simp_all add: keeps_isolation_def new_bus_def subscribe_def add_interceptor_def Let_def)
  show ?thesis
    using publish_accounts_for_every_handler [OF k refl prod.collapse [symmetric]
        refl prod.collapse [symmetric] refl, where ev = ?e and source = "''live''" and cor = "\<lambda>_. False"]
    by (simp add: new_bus_def subscribe_def add_interceptor_def Let_def bucket_def sort_bucket_def
        resolve_context_def invoke_handler_def)
qed

text \<open>
  A subscriber of \<open>*\<close> receives an event published under the literal type \<open>*\<close> twice: the bucket is
  appended to itself.
\<close>

lemma star_published_twice:
  "publish cor call ev ''outbox'' b = (Inr res, b') \<Longrightarrow> ev_type ev = ''*'' \<Longrightarrow> keeps_isolation call \<Longrightarrow>
    isolate_handler_errors b \<Longrightarrow>
    delivered res + async_scheduled res + length (last_handler_errors b') = 2 * length (bucket b ''*'')"
  using publish_accounts [of call b cor ev] by auto

lemma sort_bucket_filter:
  assumes "bucket_ok n es"
  shows "filter (\<lambda>e. sub_id e \<noteq> n) (sort_bucket (es @ [\<lparr>sub_id = n, handler = h, priority = p\<rparr>])) = es"
proof -
  have "filter (\<lambda>e. sub_id e \<noteq> n) (sort_bucket (es @ [\<lparr>sub_id = n, handler = h, priority = p\<rparr>]))
      = sort_bucket (filter (\<lambda>e. sub_id e \<noteq> n) (es @ [\<lparr>sub_id = n, handler = h, priority = p\<rparr>]))"
    by (simp add: sort_bucket_def filter_sort)
  also have "filter (\<lambda>e. sub_id e \<noteq> n) (es @ [\<lparr>sub_id = n, handler = h, priority = p\<rparr>]) = es"
    using assms by (auto simp: bucket_ok_def intro!: filter_True)
  also have "sort_bucket es = es"
  proof -
    have "sorted (map (\<lambda>e. - priority e) es)"
      unfolding sorted_map
      by (rule sorted_wrt_mono_rel [of es entry_before]) (use assms in \<open>auto simp: bucket_ok_def entry_before_def\<close>)
    then show ?thesis by (simp add: sort_bucket_def sort_key_id_if_sorted)
  qed
  finally show ?thesis .
qed

text \<open>
  Unsubscribing a subscription removes exactly that handler from its event type and touches
  no other type; doing it again changes nothing further; a subscription made and withdrawn at
  once leaves every bucket as it was.
\<close>

theorem unsubscribe_exact:
  assumes "b = fold bus_step ops (new_bus w)" and "t \<noteq> interceptor_type"
  shows "bucket (unsubscribe \<lparr>s_event_type = t, s_id = i\<rparr> b) t'
      = (if t' = t then filter (\<lambda>e. sub_id e \<noteq> i) (bucket b t) else bucket b t')
    \<and> bucket (unsubscribe (fst (subscribe t h p b)) (snd (subscribe t h p b))) t' = bucket b t'"
proof -
  have "bucket_ok (next_subscription_id b) (bucket b t)"
    using bus_run_wf [of ops w] assms(1) by (auto simp: bus_wf_def)
  then show ?thesis using assms(2) by (simp add: unsubscribe_def subscribe_def Let_def sort_bucket_filter)
qed

theorem unsubscribe_exact_witness:
  "bucket (unsubscribe \<lparr>s_event_type = ''t'', s_id = 1\<rparr>
      (fold bus_step [Subscribe ''t'' 7 0, Subscribe ''t'' 8 0] (new_bus ()))) ''t''
    = [\<lparr>sub_id = 2, handler = 8, priority = 0\<rparr>]"
  using unsubscribe_exact [OF refl, of "''t''" 1 "[Subscribe ''t'' 7 0, Subscribe ''t'' 8 0]" "()" "''t''" 0 0]
  by (simp add: interceptor_type_def new_bus_def subscribe_def Let_def bucket_def sort_bucket_def)

end
