(* ===== verification/Scope.thy ===== *)
theory Scope
  imports PyValue
begin

text \<open>
  \<open>StateScopeManager\<close> (\<open>palm/core/context/scoping.py\<close>): named scopes as dictionaries nested under
  one key of a state's storage. The manager shares the stack with its state, so the operations take
  the stack and the storage; \<open>_navigate\<close> with \<open>create\<close> is an update of the storage at a path. The
  component's contract is that of a store of cells, one for each path of scope names and key.
\<close>

definition SCOPES_ROOT_KEY :: string where "SCOPES_ROOT_KEY = ''__palm:scopes''"
definition NESTED_SCOPES_KEY :: string where "NESTED_SCOPES_KEY = ''__scopes''"

definition scope_enter :: "string \<Rightarrow> string list \<Rightarrow> string list result" where
  "scope_enter nm stack = (if nm = [] then Inl (Exc ContextError ''State scope name cannot be empty'') else Inr (stack @ [nm]))"

definition scope_exit :: "string list \<Rightarrow> (string \<times> string list) result" where
  "scope_exit stack = (if stack = [] then Inl (Exc ContextError ''Cannot exit state scope: stack is empty'')
     else Inr (last stack, butlast stack))"

definition scope_current :: "string list \<Rightarrow> string option" where
  "scope_current stack = (if stack = [] then None else Some (last stack))"

text \<open>The value at a key when it is a dictionary.\<close>

definition sub_dict :: "pydict \<Rightarrow> string \<Rightarrow> pydict option" where
  "sub_dict d k = (case dict_get d k of Some (VDict c) \<Rightarrow> Some c | _ \<Rightarrow> None)"

text \<open>\<open>_navigate\<close> without \<open>create\<close>: the loop below the root entry, and the whole function.\<close>

fun walk :: "string list \<Rightarrow> pydict \<Rightarrow> pydict option" where
  "walk [] cur = None"
| "walk [n] cur = sub_dict cur n"
| "walk (n # ns) cur = (case sub_dict cur n of None \<Rightarrow> None | Some nd \<Rightarrow>
     (case sub_dict nd NESTED_SCOPES_KEY of None \<Rightarrow> None | Some c \<Rightarrow> walk ns c))"

definition navigate :: "pydict \<Rightarrow> string list \<Rightarrow> pydict option" where
  "navigate root_d stack = (if stack = [] then None else
     case sub_dict root_d SCOPES_ROOT_KEY of None \<Rightarrow> None | Some c \<Rightarrow> walk stack c)"

text \<open>
  \<open>_navigate\<close> with \<open>create\<close>, followed by an update of the node it returns: an absent entry and one
  that is not a dictionary are replaced by an empty dictionary.
\<close>

definition or_fresh :: "pydict option \<Rightarrow> pydict" where
  "or_fresh d = (case d of Some c \<Rightarrow> c | None \<Rightarrow> [])"

fun walk_update :: "string list \<Rightarrow> (pydict \<Rightarrow> pydict) \<Rightarrow> pydict \<Rightarrow> pydict" where
  "walk_update [] f cur = cur"
| "walk_update [n] f cur = dict_set n (VDict (f (or_fresh (sub_dict cur n)))) cur"
| "walk_update (n # ns) f cur =
     (let nd = or_fresh (sub_dict cur n); c = or_fresh (sub_dict nd NESTED_SCOPES_KEY)
      in dict_set n (VDict (dict_set NESTED_SCOPES_KEY (VDict (walk_update ns f c)) nd)) cur)"

definition navigate_update :: "pydict \<Rightarrow> string list \<Rightarrow> (pydict \<Rightarrow> pydict) \<Rightarrow> pydict" where
  "navigate_update root_d stack f = (if stack = [] then root_d else
     dict_set SCOPES_ROOT_KEY (VDict (walk_update stack f (or_fresh (sub_dict root_d SCOPES_ROOT_KEY)))) root_d)"

definition own_value :: "pydict option \<Rightarrow> string \<Rightarrow> pyval option" where
  "own_value nd k = (case nd of Some d \<Rightarrow> (if k = NESTED_SCOPES_KEY then None else dict_get d k) | None \<Rightarrow> None)"

definition scope_cell :: "pydict \<Rightarrow> string list \<Rightarrow> string \<Rightarrow> pyval option" where
  "scope_cell st p k = own_value (navigate st p) k"

text \<open>The loop over the depths, innermost first: the nearest of the first \<open>n\<close> prefixes that holds the key.\<close>

fun seek :: "(string list \<Rightarrow> string \<Rightarrow> 'v option) \<Rightarrow> string list \<Rightarrow> nat \<Rightarrow> string \<Rightarrow> 'v option" where
  "seek read stack 0 k = None"
| "seek read stack (Suc n) k = (case read (take (Suc n) stack) k of Some v \<Rightarrow> Some v | None \<Rightarrow> seek read stack n k)"

definition scope_get :: "string list \<Rightarrow> pydict \<Rightarrow> string \<Rightarrow> pyval \<Rightarrow> pyval" where
  "scope_get stack st k dflt = (case seek (scope_cell st) stack (length stack) k of Some v \<Rightarrow> v | None \<Rightarrow> dflt)"

definition scope_contains :: "string list \<Rightarrow> pydict \<Rightarrow> string \<Rightarrow> bool" where
  "scope_contains stack st k = (seek (scope_cell st) stack (length stack) k \<noteq> None)"

definition scope_set :: "string list \<Rightarrow> pydict \<Rightarrow> string \<Rightarrow> pyval \<Rightarrow> pydict result" where
  "scope_set stack st k v =
     (if stack = [] then Inl (Exc ContextError ''Cannot set scoped value without an active scope'')
      else Inr (navigate_update st stack (dict_set k v)))"

definition scope_view :: "string list \<Rightarrow> pydict \<Rightarrow> pydict" where
  "scope_view stack st = (case navigate st stack of None \<Rightarrow> [] | Some d \<Rightarrow> filter (\<lambda>(k, v). k \<noteq> NESTED_SCOPES_KEY) d)"

subsection \<open>A store of cells\<close>

text \<open>
  The interface: \<open>cell\<close> reads the value a scope itself holds, \<open>put\<close> writes it, and a write is seen at
  its own path and key only. On it, the lookup through the enclosing scopes is characterised once.
\<close>

locale scoped_cells =
  fixes cell :: "'st \<Rightarrow> string list \<Rightarrow> string \<Rightarrow> 'v option"
    and put :: "'st \<Rightarrow> string list \<Rightarrow> string \<Rightarrow> 'v \<Rightarrow> 'st"
    and usable :: "string \<Rightarrow> bool"
  assumes cell_put: "p \<noteq> [] \<Longrightarrow> usable k \<Longrightarrow> usable k' \<Longrightarrow>
      cell (put st p k v) p' k' = (if p' = p \<and> k' = k then Some v else cell st p' k')"
begin

lemma seek_Some: "seek (cell st) p n k = Some v \<longleftrightarrow>
    (\<exists>m < n. cell st (take (Suc m) p) k = Some v \<and> (\<forall>j < n. m < j \<longrightarrow> cell st (take (Suc j) p) k = None))"
  by (induction n) (auto simp: less_Suc_eq split: option.splits)

lemma seek_put_other:
  assumes "p \<noteq> []" "usable k" "usable k'" and "\<And>m. m < n \<Longrightarrow> take (Suc m) p' \<noteq> p \<or> k' \<noteq> k"
  shows "seek (cell (put st p k v)) p' n k' = seek (cell st) p' n k'"
  using assms(4)
proof (induction n)
  case (Suc n)
  have "seek (cell (put st p k v)) p' n k' = seek (cell st) p' n k'"
    by (rule Suc.IH) (use Suc.prems in \<open>auto simp: less_Suc_eq\<close>)
  then show ?case using cell_put [OF assms(1-3), of st v "take (Suc n) p'"] Suc.prems [of n]
    by (auto split: option.splits)
qed simp

lemma seek_put_same:
  assumes "p \<noteq> []" "usable k" "length p \<le> n" "take (length p) p' = p" "n \<le> length p'"
    and "\<And>m. length p \<le> m \<Longrightarrow> m < n \<Longrightarrow> cell st (take (Suc m) p') k = None"
  shows "seek (cell (put st p k v)) p' n k = Some v"
proof -
  have l: "Suc (length p - 1) = length p" using assms(1) by simp
  have "cell (put st p k v) (take (Suc (length p - 1)) p') k = Some v"
    using assms(4) cell_put [OF assms(1,2,2), of st v p] by (simp only: l) simp
  moreover have "cell (put st p k v) (take (Suc j) p') k = None" if "j < n" "length p - 1 < j" for j
  proof -
    have "length p \<le> j" using that(2) assms(1) by simp
    moreover have "length (take (Suc j) p') = Suc j" using that(1) assms(5) by simp
    ultimately show ?thesis using assms(6) [of j] that cell_put [OF assms(1,2,2), of st v "take (Suc j) p'"] by fastforce
  qed
  moreover have "length p - 1 < n" using assms(1,3) by (cases p) auto
  ultimately show ?thesis unfolding seek_Some by blast
qed

lemma seek_put_shadowed:
  assumes "p \<noteq> []" "usable k" "n \<le> length p'"
    and "length p \<le> m" "m < n" "cell st (take (Suc m) p') k \<noteq> None"
  shows "seek (cell (put st p k v)) p' n k = seek (cell st) p' n k"
  using assms(3,5)
proof (induction n)
  case (Suc n)
  then have "take (Suc n) p' \<noteq> p" using assms(4) by (auto dest: arg_cong [of _ _ length])
  then have "cell (put st p k v) (take (Suc n) p') k = cell st (take (Suc n) p') k"
    using cell_put [OF assms(1,2,2)] by simp
  moreover have "seek (cell (put st p k v)) p' n k = seek (cell st) p' n k" if "cell st (take (Suc n) p') k = None"
    using Suc assms(6) that by (cases "m = n") auto
  ultimately show ?case by (auto split: option.split)
qed simp

end

subsection \<open>The storage is such a store\<close>

lemma sub_dict_set [simp]: "sub_dict (dict_set k (VDict c) d) k' = (if k' = k then Some c else sub_dict d k')"
  by (simp add: sub_dict_def)

lemma walk_fresh: "walk p [] = None"
  by (cases p; cases "tl p") (auto simp: sub_dict_def)

lemma walk_Cons: "ns \<noteq> [] \<Longrightarrow> walk (n # ns) cur = (case sub_dict cur n of None \<Rightarrow> None | Some nd \<Rightarrow>
     (case sub_dict nd NESTED_SCOPES_KEY of None \<Rightarrow> None | Some c \<Rightarrow> walk ns c))"
  by (cases ns) (auto split: option.splits)

lemma walk_update_Cons: "ns \<noteq> [] \<Longrightarrow> walk_update (n # ns) f cur =
     (let nd = or_fresh (sub_dict cur n); c = or_fresh (sub_dict nd NESTED_SCOPES_KEY)
      in dict_set n (VDict (dict_set NESTED_SCOPES_KEY (VDict (walk_update ns f c)) nd)) cur)"
  by (cases ns) simp_all

text \<open>Two paths as one sees the other: the same path, or other cells.\<close>

lemma own_value_simps [simp]: "own_value None k = None" "own_value (Some []) k = None"
  by (simp_all add: own_value_def)

lemma own_value_set: "k \<noteq> NESTED_SCOPES_KEY \<Longrightarrow>
    own_value (Some (dict_set k v d)) k' = (if k' = k then Some v else own_value (Some d) k')"
  by (simp add: own_value_def)

lemma own_value_nested: "own_value (Some (dict_set NESTED_SCOPES_KEY v d)) k' = own_value (Some d) k'"
  by (simp add: own_value_def)

lemma own_value_fresh: "own_value (Some (or_fresh d)) k = own_value d k"
  by (cases d) (simp_all add: or_fresh_def)

lemma walk_or_fresh: "walk p (or_fresh (sub_dict nd k)) = (case sub_dict nd k of None \<Rightarrow> None | Some c \<Rightarrow> walk p c)"
  by (cases "sub_dict nd k") (simp_all add: or_fresh_def walk_fresh)

lemma walk_put:
  assumes "p \<noteq> []" "k \<noteq> NESTED_SCOPES_KEY"
  shows "own_value (walk p' (walk_update p (dict_set k v) cur)) k' = (if p' = p \<and> k' = k then Some v else own_value (walk p' cur) k')"
  using assms
proof (induction p arbitrary: p' cur)
  case (Cons n ns)
  note prems = Cons.prems and IH = Cons.IH
  show ?case
  proof (cases p')
    case (Cons m ms)
    show ?thesis
    proof (cases "ns = []")
      case True
      then show ?thesis using prems(2) Cons own_value_fresh [of "sub_dict cur n" k'] 
        by (cases "ms = []") (auto simp: walk_Cons own_value_set sub_dict_def or_fresh_def walk_fresh split: option.splits pyval.splits)
    next
      case False
      show ?thesis
      proof (cases "ms = []")
        case True
        then show ?thesis using Cons False own_value_fresh [of "sub_dict cur n" k']
          by (auto simp: walk_update_Cons Let_def own_value_nested)
      next
        case ms: False
        let ?nd = "or_fresh (sub_dict cur n)"
        have "own_value (walk ms (walk_update ns (dict_set k v) (or_fresh (sub_dict ?nd NESTED_SCOPES_KEY)))) k'
            = (if ms = ns \<and> k' = k then Some v else own_value (walk ms (or_fresh (sub_dict ?nd NESTED_SCOPES_KEY))) k')"
          by (rule IH [OF False prems(2)])
        then show ?thesis using Cons False ms
          by (cases "sub_dict cur n") (auto simp: walk_update_Cons walk_Cons Let_def walk_or_fresh or_fresh_def walk_fresh sub_dict_def split: option.splits)
      qed
    qed
  qed simp
qed simp

definition cell_put :: "pydict \<Rightarrow> string list \<Rightarrow> string \<Rightarrow> pyval \<Rightarrow> pydict" where
  "cell_put st p k v = (case scope_set p st k v of Inr st' \<Rightarrow> st' | Inl _ \<Rightarrow> st)"

interpretation sc: scoped_cells scope_cell cell_put "\<lambda>k. k \<noteq> NESTED_SCOPES_KEY"
proof
  fix st p k k' v p'
  assume "(p :: string list) \<noteq> []" "k \<noteq> NESTED_SCOPES_KEY" "k' \<noteq> NESTED_SCOPES_KEY"
  then show "scope_cell (cell_put st p k v) p' k' = (if p' = p \<and> k' = k then Some v else scope_cell st p' k')"
    using walk_put [of p k p' v "or_fresh (sub_dict st SCOPES_ROOT_KEY)" k']
    by (cases "sub_dict st SCOPES_ROOT_KEY")
      (auto simp: scope_cell_def cell_put_def scope_set_def navigate_def navigate_update_def or_fresh_def walk_fresh)
qed

subsection \<open>Properties\<close>

lemma cell_put_eq: "p \<noteq> [] \<Longrightarrow> scope_set p st k v = Inr (cell_put st p k v)"
  by (simp add: cell_put_def scope_set_def)

text \<open>
  C38. A scoped write decides every scoped read, for all keys but the reserved \<open>__scopes\<close> (a write of
  which destroys the nested scopes, see below). A read finds the written value exactly when it asks
  for the same key, in the scope of the write or a scope nested in it, and no scope from there inwards
  holds the key itself; every other read answers as before, be it of another key, in an enclosing
  scope, in a sibling, or in a nested scope that shadows the key. Writing outside every scope is an
  error.
\<close>

theorem scoped_write_read:
  assumes "k \<noteq> NESTED_SCOPES_KEY" and "k' \<noteq> NESTED_SCOPES_KEY"
  shows "case scope_set p st k v of
      Inl x \<Rightarrow> p = []
    | Inr st' \<Rightarrow> p \<noteq> [] \<and> scope_get p' st' k' d =
        (if k' = k \<and> take (length p) p' = p
            \<and> (\<forall>m. length p \<le> m \<and> m < length p' \<longrightarrow> scope_cell st (take (Suc m) p') k = None)
         then v else scope_get p' st k' d)"
proof (cases "p = []")
  case True
  then show ?thesis by (simp add: scope_set_def)
next
  case p: False
  let ?shadow = "\<lambda>m. length p \<le> m \<and> m < length p' \<and> scope_cell st (take (Suc m) p') k \<noteq> None"
  have "scope_get p' (cell_put st p k v) k' d = (if k' = k \<and> take (length p) p' = p \<and> (\<forall>m. \<not> ?shadow m)
         then v else scope_get p' st k' d)"
  proof (cases "k' = k \<and> take (length p) p' = p")
    case same: True
    then have l: "length p \<le> length p'" using arg_cong [of _ _ length] by fastforce
    show ?thesis
    proof (cases "\<exists>m. ?shadow m")
      case True
      then obtain m where "?shadow m" ..
      then show ?thesis using same sc.seek_put_shadowed [OF p assms(1) order_refl, where p' = p' and m = m and st = st and v = v]
        by (auto simp: scope_get_def)
    next
      case False
      then show ?thesis using same sc.seek_put_same [OF p assms(1) l _ order_refl, where st = st and v = v] by (simp add: scope_get_def)
    qed
  next
    case False
    have "take (Suc m) p' \<noteq> p \<or> k' \<noteq> k" if "m < length p'" for m
      using False that by (auto dest: arg_cong [of _ _ length])
    then show ?thesis using False sc.seek_put_other [OF p assms, of "length p'" p' st v] by (auto simp: scope_get_def)
  qed
  then show ?thesis using p by (auto simp: cell_put_eq)
qed

lemma scoped_write_read_witness:
  "scope_get [''a'', ''b'', ''c''] (cell_put (cell_put [] [''a''] ''k'' (VInt 1)) [''a'', ''b''] ''k'' (VInt 2)) ''k'' VNone = VInt 2
   \<and> scope_get [''a''] (cell_put (cell_put [] [''a''] ''k'' (VInt 1)) [''a'', ''b''] ''k'' (VInt 2)) ''k'' VNone
     = scope_get [''a''] (cell_put [] [''a''] ''k'' (VInt 1)) ''k'' VNone"
proof -
  let ?s = "cell_put [] [''a''] ''k'' (VInt 1)"
  have e: "scope_set [''a'', ''b''] ?s ''k'' (VInt 2) = Inr (cell_put ?s [''a'', ''b''] ''k'' (VInt 2))" by (rule cell_put_eq) simp
  have k: "''k'' \<noteq> NESTED_SCOPES_KEY" by (simp add: NESTED_SCOPES_KEY_def)
  have "scope_cell ?s [''a'', ''b'', ''c''] ''k'' = None" by code_simp
  then show ?thesis using scoped_write_read [OF k k, where p = "[''a'', ''b'']" and st = ?s and v = "VInt 2" and p' = "[''a'', ''b'', ''c'']" and d = VNone]
      scoped_write_read [OF k k, where p = "[''a'', ''b'']" and st = ?s and v = "VInt 2" and p' = "[''a'']" and d = VNone]
    by (auto simp: e less_Suc_eq)
qed

lemma own_value_reserved: "own_value nd NESTED_SCOPES_KEY = None"
  by (simp add: own_value_def split: option.splits)

lemma seek_reserved: "seek (scope_cell st) p n NESTED_SCOPES_KEY = None"
  by (induction n) (simp_all add: scope_cell_def own_value_reserved)

lemma walk_cut:
  assumes "p \<noteq> []" "q \<noteq> []"
  shows "walk (p @ q) (walk_update p (dict_set NESTED_SCOPES_KEY (VStr t)) cur) = None"
  using assms(1)
proof (induction p arbitrary: cur)
  case (Cons n ns)
  show ?case
  proof (cases "ns = []")
    case True
    then show ?thesis using assms(2) by (simp add: walk_Cons) (simp add: sub_dict_def)
  next
    case False
    then show ?thesis using Cons.IH by (simp add: walk_Cons walk_update_Cons Let_def)
  qed
qed simp

text \<open>
  The reserved name is not protected on the way in: a scoped write of \<open>__scopes\<close> succeeds, is
  never read back, and drops every scope nested in the current one.
\<close>

theorem reserved_write_destroys:
  assumes "p \<noteq> []" and "q \<noteq> []"
  shows "\<exists>st'. scope_set p st NESTED_SCOPES_KEY (VStr t) = Inr st' \<and> scope_get p st' NESTED_SCOPES_KEY d = d \<and> navigate st' (p @ q) = None"
  using assms walk_cut [OF assms] by (simp add: scope_set_def scope_get_def seek_reserved navigate_def navigate_update_def)

lemma reserved_write_destroys_witness:
  "\<exists>st'. scope_set [''a''] (cell_put [] [''a'', ''b''] ''k'' (VInt 2)) NESTED_SCOPES_KEY (VStr ''x'') = Inr st'
     \<and> navigate st' [''a'', ''b''] = None"
  using reserved_write_destroys [of "[''a'']" "[''b'']" "cell_put [] [''a'', ''b''] ''k'' (VInt 2)" "''x''" VNone] by auto

end
