(* ===== verification/Schema.thy ===== *)
theory Schema
  imports PyValue "HOL-Library.Sublist"
begin

text \<open>
  State schemas (\<open>palm/core/context/state_schema.py\<close>): the subset of JSON Schema that validates the
  values of an execution state. A schema document is a dictionary as it was loaded, so a malformed
  one (an unorderable bound, an unhashable type) makes the validator raise, as in the code. The
  declarative meaning of a document is \<open>conforms\<close>; the validator is shown to decide it.
\<close>

subsection \<open>Type tests\<close>

fun type_check :: "string \<Rightarrow> pyval \<Rightarrow> bool" where
  "type_check t v =
     (if t = ''string'' then (case v of VStr _ \<Rightarrow> True | _ \<Rightarrow> False)
      else if t = ''integer'' then (case v of VInt _ \<Rightarrow> True | _ \<Rightarrow> False)
      else if t = ''number'' then (case v of VInt _ \<Rightarrow> True | VFloat _ \<Rightarrow> True | _ \<Rightarrow> False)
      else if t = ''boolean'' then (case v of VBool _ \<Rightarrow> True | _ \<Rightarrow> False)
      else if t = ''array'' then (case v of VList _ \<Rightarrow> True | _ \<Rightarrow> False)
      else if t = ''object'' then (case v of VDict _ \<Rightarrow> True | _ \<Rightarrow> False)
      else if t = ''null'' then v = VNone
      else True)"

fun any_result :: "bool result list \<Rightarrow> bool result" where
  "any_result [] = Inr False"
| "any_result (r # rs) = attempt r (\<lambda>b. if b then Inr True else any_result rs)"

text \<open>A type that is neither a text nor a list is not in the table, or cannot be hashed.\<close>

fun matches_type :: "pyval \<Rightarrow> pyval \<Rightarrow> bool result" where
  "matches_type v (VList ts) = any_result (map (matches_type v) ts)"
| "matches_type v (VStr t) = Inr (type_check t v)"
| "matches_type v (VDict _) = Inl (Exc PyTypeError ''unhashable type: dict'')"
| "matches_type v _ = Inr True"

subsection \<open>Values\<close>

definition py_repr :: "(pyval \<Rightarrow> string) \<Rightarrow> pyval \<Rightarrow> string" where
  "py_repr r v = (case v of VStr s \<Rightarrow> quoted s | _ \<Rightarrow> py_str r v)"

fun concat_results :: "'a list result list \<Rightarrow> 'a list result" where
  "concat_results [] = Inr []"
| "concat_results (r # rs) = attempt r (\<lambda>xs. attempt (concat_results rs) (\<lambda>ys. Inr (xs @ ys)))"

definition enum_errors :: "(pyval \<Rightarrow> string) \<Rightarrow> pyval \<Rightarrow> pydict \<Rightarrow> string \<Rightarrow> string list" where
  "enum_errors r v sp path = (case dict_get sp ''enum'' of
     Some (VList xs) \<Rightarrow> if py_in v xs then [] else [path @ '': value '' @ py_repr r v @ '' not in enum '' @ py_repr r (VList xs)]
   | _ \<Rightarrow> [])"

text \<open>One bound: the entry \<open>k\<close> of the document against the number \<open>n\<close>, below or above.\<close>

definition bound_errors :: "(pyval \<Rightarrow> string) \<Rightarrow> string \<Rightarrow> pyval \<Rightarrow> bool \<Rightarrow> string \<Rightarrow> pydict \<Rightarrow> string list result" where
  "bound_errors r label n below k sp = (case dict_get sp k of
     None \<Rightarrow> Inr []
   | Some m \<Rightarrow> attempt (if below then num_less n m else num_less m n) (\<lambda>b.
       Inr (if b then [label @ py_str r n @ (if below then '' < '' else '' > '') @ k @ '' '' @ py_str r m] else [])))"

definition key_missing :: "(pyval \<Rightarrow> string) \<Rightarrow> pydict \<Rightarrow> string \<Rightarrow> pyval \<Rightarrow> string list result" where
  "key_missing r d path k = (case k of
     VList _ \<Rightarrow> Inl (Exc PyTypeError ''unhashable type: list'')
   | VDict _ \<Rightarrow> Inl (Exc PyTypeError ''unhashable type: dict'')
   | VStr s \<Rightarrow> Inr (if dict_has d s then [] else [path @ ''.'' @ s @ '': missing required key''])
   | _ \<Rightarrow> Inr [path @ ''.'' @ py_str r k @ '': missing required key''])"

definition required_errors :: "(pyval \<Rightarrow> string) \<Rightarrow> pydict \<Rightarrow> pydict \<Rightarrow> string \<Rightarrow> string list result" where
  "required_errors r d sp path = (case get_default sp ''required'' (VList []) of
     VList ks \<Rightarrow> concat_results (map (key_missing r d path) ks) | _ \<Rightarrow> Inr [])"

definition indexed :: "string \<Rightarrow> nat \<Rightarrow> string" where
  "indexed path i = path @ ''['' @ show_nat i @ '']''"

definition is_list :: "pyval \<Rightarrow> bool" where
  "is_list v = (case v of VList _ \<Rightarrow> True | _ \<Rightarrow> False)"

function validate_value :: "(pyval \<Rightarrow> string) \<Rightarrow> pyval \<Rightarrow> pydict \<Rightarrow> string \<Rightarrow> string list result" where
  "validate_value r v sp path =
     (let et = py_get sp ''type'' in
      attempt (if et = VNone then Inr True else matches_type v et) (\<lambda>ok.
        if \<not> ok then Inr [path @ '': expected '' @ py_str r et @ '', got '' @ type_name v]
        else if is_list et then Inr (enum_errors r v sp path)
        else concat_results (Inr (enum_errors r v sp path) #
          (if et = VStr ''integer'' \<or> et = VStr ''number''
           then [bound_errors r (path @ '': '') v True ''minimum'' sp, bound_errors r (path @ '': '') v False ''maximum'' sp]
           else []) @
          (case (et, v) of
             (VStr t, VStr s) \<Rightarrow>
               if t = ''string''
               then [bound_errors r (path @ '': length '') (VInt (int (length s))) True ''minLength'' sp,
                     bound_errors r (path @ '': length '') (VInt (int (length s))) False ''maxLength'' sp]
               else []
           | (VStr t, VDict d) \<Rightarrow>
               (case get_default sp ''properties'' (VDict []) of
                  VDict props \<Rightarrow> if t = ''object''
                    then required_errors r d sp path # map (\<lambda>(k, x). case dict_get props k of
                        Some (VDict nested) \<Rightarrow> validate_value r x nested (path @ ''.'' @ k) | _ \<Rightarrow> Inr []) d
                    else []
                | _ \<Rightarrow> [])
           | (VStr t, VList xs) \<Rightarrow>
               if t = ''array''
               then bound_errors r (path @ '': length '') (VInt (int (length xs))) True ''minItems'' sp
                  # bound_errors r (path @ '': length '') (VInt (int (length xs))) False ''maxItems'' sp
                  # (case dict_get sp ''items'' of
                       Some (VDict items) \<Rightarrow> map (\<lambda>(i, x). validate_value r x items (indexed path i)) (enumerate 0 xs)
                     | _ \<Rightarrow> [])
               else []
           | _ \<Rightarrow> []))))"
  by pat_completeness auto

lemma size_enumerate_mem: "(i, x) \<in> set (enumerate n xs) \<Longrightarrow> size x < Suc (size_list size xs)"
  by (rule size_list_mem) (induction xs arbitrary: n; auto)

termination validate_value
  by (relation "measure (\<lambda>(r, v, sp, path). size v)") (auto dest: size_dict_mem size_enumerate_mem)

declare validate_value.simps [simp del]

subsection \<open>What a schema document means\<close>

text \<open>Documents on which the validator does not raise: hashable types, comparable bounds, names as required keys.\<close>

definition number_at :: "pydict \<Rightarrow> string \<Rightarrow> bool" where
  "number_at sp k = (case dict_get sp k of Some m \<Rightarrow> as_number m \<noteq> None | None \<Rightarrow> True)"

fun type_ok :: "pyval \<Rightarrow> bool" where
  "type_ok (VList ts) = list_all type_ok ts"
| "type_ok (VDict _) = False"
| "type_ok _ = True"

definition name_list :: "pyval \<Rightarrow> bool" where
  "name_list v = (case v of VList ks \<Rightarrow> list_all (\<lambda>k. case k of VStr _ \<Rightarrow> True | _ \<Rightarrow> False) ks | _ \<Rightarrow> True)"

fun schema_ok :: "pyval \<Rightarrow> bool" where
  "schema_ok (VDict sp) =
     (type_ok (py_get sp ''type'') \<and> list_all (number_at sp) [''minimum'', ''maximum'', ''minLength'', ''maxLength'', ''minItems'', ''maxItems'']
      \<and> name_list (get_default sp ''required'' (VList []))
      \<and> list_all (\<lambda>(k, v). (k = ''items'' \<longrightarrow> schema_ok v)
           \<and> (k = ''properties'' \<longrightarrow> (case v of VDict ps \<Rightarrow> list_all (\<lambda>(_, p). schema_ok p) ps | _ \<Rightarrow> True))) sp)"
| "schema_ok _ = True"

text \<open>The values a document admits, stated without reference to messages.\<close>

fun type_means :: "pyval \<Rightarrow> pyval \<Rightarrow> bool" where
  "type_means v (VList ts) = list_ex (type_means v) ts"
| "type_means v (VStr t) = type_check t v"
| "type_means v _ = True"

definition at_least :: "pydict \<Rightarrow> string \<Rightarrow> rat \<Rightarrow> bool" where
  "at_least sp k n = (case dict_get sp k of Some m \<Rightarrow> (case as_number m of Some q \<Rightarrow> q \<le> n | None \<Rightarrow> True) | None \<Rightarrow> True)"

definition at_most :: "pydict \<Rightarrow> string \<Rightarrow> rat \<Rightarrow> bool" where
  "at_most sp k n = (case dict_get sp k of Some m \<Rightarrow> (case as_number m of Some q \<Rightarrow> n \<le> q | None \<Rightarrow> True) | None \<Rightarrow> True)"

definition has_required :: "pydict \<Rightarrow> pydict \<Rightarrow> bool" where
  "has_required d sp = (case get_default sp ''required'' (VList []) of
     VList ks \<Rightarrow> list_all (\<lambda>k. case k of VStr s \<Rightarrow> dict_has d s | _ \<Rightarrow> False) ks | _ \<Rightarrow> True)"

definition in_enum :: "pyval \<Rightarrow> pydict \<Rightarrow> bool" where
  "in_enum v sp = (case dict_get sp ''enum'' of Some (VList xs) \<Rightarrow> py_in v xs | _ \<Rightarrow> True)"

function conforms :: "pyval \<Rightarrow> pydict \<Rightarrow> bool" where
  "conforms v sp \<longleftrightarrow>
     type_means v (py_get sp ''type'') \<and> in_enum v sp
     \<and> (py_get sp ''type'' \<in> {VStr ''integer'', VStr ''number''} \<longrightarrow>
          (case as_number v of Some q \<Rightarrow> at_least sp ''minimum'' q \<and> at_most sp ''maximum'' q | None \<Rightarrow> True))
     \<and> (case v of
          VStr s \<Rightarrow> py_get sp ''type'' = VStr ''string'' \<longrightarrow>
            at_least sp ''minLength'' (of_nat (length s)) \<and> at_most sp ''maxLength'' (of_nat (length s))
        | VDict d \<Rightarrow> py_get sp ''type'' = VStr ''object'' \<longrightarrow>
            (case get_default sp ''properties'' (VDict []) of
               VDict props \<Rightarrow> has_required d sp
                 \<and> (\<forall>(k, x) \<in> set d. case dict_get props k of Some (VDict nested) \<Rightarrow> conforms x nested | _ \<Rightarrow> True)
             | _ \<Rightarrow> True)
        | VList xs \<Rightarrow> py_get sp ''type'' = VStr ''array'' \<longrightarrow>
            at_least sp ''minItems'' (of_nat (length xs)) \<and> at_most sp ''maxItems'' (of_nat (length xs))
            \<and> (\<forall>x \<in> set xs. case dict_get sp ''items'' of Some (VDict items) \<Rightarrow> conforms x items | _ \<Rightarrow> True)
        | _ \<Rightarrow> True)"
  by pat_completeness auto

termination conforms
  by (relation "measure (\<lambda>(v, sp). size v)") (auto dest: size_dict_mem size_list_mem)

declare conforms.simps [simp del]

subsection \<open>The validator decides it\<close>

text \<open>A list of messages, or no messages just when the condition holds.\<close>

definition judges :: "string list result \<Rightarrow> bool \<Rightarrow> bool" where
  "judges x P \<longleftrightarrow> (\<exists>es. x = Inr es \<and> (es = [] \<longleftrightarrow> P))"

lemma judges_Inr [simp]: "judges (Inr es) P \<longleftrightarrow> (es = [] \<longleftrightarrow> P)"
  by (simp add: judges_def)

lemma judges_Nil [intro]: "P \<Longrightarrow> judges (concat_results []) P"
  by simp

lemma judges_Cons [intro]: "judges x P \<Longrightarrow> judges (concat_results xs) Q \<Longrightarrow> judges (concat_results (x # xs)) (P \<and> Q)"
  by (auto simp: judges_def)

lemma judges_append: "judges (concat_results xs) P \<Longrightarrow> judges (concat_results ys) Q \<Longrightarrow> judges (concat_results (xs @ ys)) (P \<and> Q)"
proof (induction xs arbitrary: P)
  case (Cons x xs)
  then obtain es fs where x: "x = Inr es" "concat_results xs = Inr fs" "(es @ fs = []) = P"
    by (cases x; cases "concat_results xs") (auto simp: judges_def)
  then have "judges (concat_results (xs @ ys)) (fs = [] \<and> Q)" using Cons by simp
  then show ?case using x by (auto simp: judges_def)
qed simp

lemma judges_map: "(\<And>x. x \<in> set xs \<Longrightarrow> judges (f x) (P x)) \<Longrightarrow> judges (concat_results (map f xs)) (\<forall>x \<in> set xs. P x)"
proof (induction xs)
  case (Cons x xs)
  then have "judges (concat_results (map f (x # xs))) (P x \<and> (\<forall>x \<in> set xs. P x))" by (auto intro!: judges_Cons simp del: concat_results.simps)
  then show ?case by simp
qed simp

lemma judges_cong: "judges x P \<Longrightarrow> P = Q \<Longrightarrow> judges x Q"
  by simp

lemma matches_type_means: "type_ok et \<Longrightarrow> matches_type v et = Inr (type_means v et)"
proof (induction v et rule: matches_type.induct)
  case (1 v ts)
  then have "any_result (map (matches_type v) ts) = Inr (list_ex (type_means v) ts)" by (induction ts) auto
  then show ?case by simp
qed auto

lemma bound_judges:
  assumes "number_at sp k" "as_number n = Some q"
  shows "judges (bound_errors r l n True k sp) (at_least sp k q)" "judges (bound_errors r l n False k sp) (at_most sp k q)"
  using assms by (auto simp: bound_errors_def number_at_def at_least_def at_most_def num_less_def split: option.splits)

lemma required_judges:
  assumes "name_list (get_default sp ''required'' (VList []))"
  shows "judges (required_errors r d sp path) (has_required d sp)"
proof (cases "get_default sp ''required'' (VList [])")
  case (VList ks)
  have "judges (key_missing r d path k) (case k of VStr s \<Rightarrow> dict_has d s | _ \<Rightarrow> False)" if "k \<in> set ks" for k
    using assms that VList by (auto simp: name_list_def key_missing_def list_all_iff split: pyval.splits)
  from judges_map [of ks, OF this] show ?thesis using VList by (simp add: required_errors_def has_required_def list_all_iff)
qed (simp_all add: required_errors_def has_required_def)

lemma enum_judges: "judges (Inr (enum_errors r v sp path)) (in_enum v sp)"
  by (auto simp: enum_errors_def in_enum_def split: option.splits pyval.splits)

lemma schema_ok_parts:
  assumes "schema_ok (VDict sp)"
  shows "type_ok (py_get sp ''type'')" "name_list (get_default sp ''required'' (VList []))"
    "number_at sp ''minimum''" "number_at sp ''maximum''" "number_at sp ''minLength''" "number_at sp ''maxLength''"
    "number_at sp ''minItems''" "number_at sp ''maxItems''"
    "dict_get sp ''items'' = Some v \<Longrightarrow> schema_ok v"
    "get_default sp ''properties'' (VDict []) = VDict ps \<Longrightarrow> dict_get ps k = Some v \<Longrightarrow> schema_ok v"
proof -
  have all: "(\<forall>(k, v) \<in> set sp. (k = ''items'' \<longrightarrow> schema_ok v)
      \<and> (k = ''properties'' \<longrightarrow> (case v of VDict ps \<Rightarrow> list_all (\<lambda>(_, p). schema_ok p) ps | _ \<Rightarrow> True)))"
    using assms by (simp add: list_all_iff)
  show "dict_get sp ''items'' = Some v \<Longrightarrow> schema_ok v" using all by (auto dest!: map_of_SomeD)
  show "schema_ok v" if g: "get_default sp ''properties'' (VDict []) = VDict ps" "dict_get ps k = Some v"
  proof (cases "dict_get sp ''properties''")
    case (Some w)
    with g have "(''properties'', VDict ps) \<in> set sp" by (auto simp: get_default_def dest: map_of_SomeD)
    with all have "list_all (\<lambda>(_, p). schema_ok p) ps" by fastforce
    then show ?thesis using map_of_SomeD [OF g(2)] by (auto simp: list_all_iff)
  qed (use g in \<open>simp add: get_default_def\<close>)
qed (use assms in simp_all)

declare schema_ok.simps [simp del]

lemma enumerate_mem: "(i, x) \<in> set (enumerate n xs) \<Longrightarrow> x \<in> set xs"
  by (metis image_eqI list.set_map map_snd_enumerate snd_conv)

lemma type_check_number: "type_check t v \<Longrightarrow> t = ''integer'' \<or> t = ''number'' \<Longrightarrow> \<exists>q. as_number v = Some q"
  by (cases v) auto

text \<open>The judgements on the parts of a value of each shape.\<close>

definition number_part :: "pyval \<Rightarrow> pydict \<Rightarrow> bool" where
  "number_part v sp = (py_get sp ''type'' \<in> {VStr ''integer'', VStr ''number''} \<longrightarrow>
     (case as_number v of Some q \<Rightarrow> at_least sp ''minimum'' q \<and> at_most sp ''maximum'' q | None \<Rightarrow> True))"

lemma number_judges:
  assumes "schema_ok (VDict sp)" and "type_means v (py_get sp ''type'')"
  shows "judges (concat_results (if py_get sp ''type'' = VStr ''integer'' \<or> py_get sp ''type'' = VStr ''number''
      then [bound_errors r l v True ''minimum'' sp, bound_errors r l v False ''maximum'' sp] else [])) (number_part v sp)"
proof (cases "py_get sp ''type'' = VStr ''integer'' \<or> py_get sp ''type'' = VStr ''number''")
  case True
  then obtain t where t: "py_get sp ''type'' = VStr t" "t = ''integer'' \<or> t = ''number''" by auto
  then obtain q where q: "as_number v = Some q" using assms(2) type_check_number [of t v] by auto
  show ?thesis
    using judges_Cons [OF bound_judges(1) judges_Cons [OF bound_judges(2) judges_Nil], of sp "''minimum''" v q sp "''maximum''" v q True r l r l]
      schema_ok_parts(3,4) [OF assms(1)] q True by (auto simp: number_part_def)
next
  case False
  then show ?thesis by (auto simp: number_part_def)
qed

lemma length_judges:
  assumes "number_at sp k" "number_at sp k'" "judges (concat_results rs) P"
  shows "judges (concat_results (bound_errors r l (VInt (int n)) True k sp # bound_errors r l (VInt (int n)) False k' sp # rs))
     (at_least sp k (of_nat n) \<and> at_most sp k' (of_nat n) \<and> P)"
  using assms by (intro judges_Cons bound_judges) simp_all

lemma object_judges:
  assumes ok: "schema_ok (VDict sp)" and props: "get_default sp ''properties'' (VDict []) = VDict props"
    and IH: "\<And>k x nested p. (k, x) \<in> set d \<Longrightarrow> schema_ok (VDict nested) \<Longrightarrow> judges (validate_value r x nested p) (conforms x nested)"
  shows "judges (concat_results (required_errors r d sp path # map (\<lambda>(k, x). case dict_get props k of
        Some (VDict nested) \<Rightarrow> validate_value r x nested (path @ ''.'' @ k) | _ \<Rightarrow> Inr []) d))
     (has_required d sp \<and> (\<forall>(k, x) \<in> set d. case dict_get props k of Some (VDict nested) \<Rightarrow> conforms x nested | _ \<Rightarrow> True))"
proof (intro judges_Cons judges_map)
  show "judges (required_errors r d sp path) (has_required d sp)" by (rule required_judges [OF schema_ok_parts(2) [OF ok]])
  fix p
  assume p: "p \<in> set d"
  obtain k x where [simp]: "p = (k, x)" by (cases p)
  show "judges (case p of (k, x) \<Rightarrow> case dict_get props k of
        Some (VDict nested) \<Rightarrow> validate_value r x nested (path @ ''.'' @ k) | _ \<Rightarrow> Inr [])
      (case p of (k, x) \<Rightarrow> case dict_get props k of Some (VDict nested) \<Rightarrow> conforms x nested | _ \<Rightarrow> True)"
  proof (cases "\<exists>nested. dict_get props k = Some (VDict nested)")
    case True
    then obtain nested where n: "dict_get props k = Some (VDict nested)" by blast
    have "schema_ok (VDict nested)" by (rule schema_ok_parts(10) [OF ok props n])
    then show ?thesis using IH p n by simp
  qed (auto split: option.splits pyval.splits)
qed

lemma items_judges:
  assumes ok: "schema_ok (VDict sp)"
    and IH: "\<And>x nested p. x \<in> set xs \<Longrightarrow> schema_ok (VDict nested) \<Longrightarrow> judges (validate_value r x nested p) (conforms x nested)"
  shows "judges (concat_results (case dict_get sp ''items'' of
         Some (VDict items) \<Rightarrow> map (\<lambda>(i, x). validate_value r x items (indexed path i)) (enumerate 0 xs) | _ \<Rightarrow> []))
     (\<forall>x \<in> set xs. case dict_get sp ''items'' of Some (VDict items) \<Rightarrow> conforms x items | _ \<Rightarrow> True)"
proof (cases "\<exists>items. dict_get sp ''items'' = Some (VDict items)")
  case True
  then obtain it where it: "dict_get sp ''items'' = Some (VDict it)" by blast
  have "schema_ok (VDict it)" by (rule schema_ok_parts(9) [OF ok it])
  then have "judges (concat_results (map (\<lambda>(i, x). validate_value r x it (indexed path i)) (enumerate 0 xs)))
      (\<forall>p \<in> set (enumerate 0 xs). conforms (snd p) it)"
    using IH by (intro judges_map) (auto dest: enumerate_mem)
  moreover have "(\<forall>p \<in> set (enumerate 0 xs). conforms (snd p) it) = (\<forall>x \<in> set xs. conforms x it)"
  proof -
    have "snd ` set (enumerate 0 xs) = set xs" by (metis list.set_map map_snd_enumerate)
    then show ?thesis by (metis (no_types, lifting) image_iff)
  qed
  ultimately show ?thesis using it by simp
qed (auto split: option.splits pyval.splits)

text \<open>The tests of the shape of a value, as the validator runs them and as they are meant.\<close>

definition shape_part :: "(pyval \<Rightarrow> string) \<Rightarrow> pyval \<Rightarrow> pydict \<Rightarrow> string \<Rightarrow> string list result list" where
  "shape_part r v sp path = (case (py_get sp ''type'', v) of
             (VStr t, VStr s) \<Rightarrow>
               if t = ''string''
               then [bound_errors r (path @ '': length '') (VInt (int (length s))) True ''minLength'' sp,
                     bound_errors r (path @ '': length '') (VInt (int (length s))) False ''maxLength'' sp]
               else []
           | (VStr t, VDict d) \<Rightarrow>
               (case get_default sp ''properties'' (VDict []) of
                  VDict props \<Rightarrow> if t = ''object''
                    then required_errors r d sp path # map (\<lambda>(k, x). case dict_get props k of
                        Some (VDict nested) \<Rightarrow> validate_value r x nested (path @ ''.'' @ k) | _ \<Rightarrow> Inr []) d
                    else []
                | _ \<Rightarrow> [])
           | (VStr t, VList xs) \<Rightarrow>
               if t = ''array''
               then bound_errors r (path @ '': length '') (VInt (int (length xs))) True ''minItems'' sp
                  # bound_errors r (path @ '': length '') (VInt (int (length xs))) False ''maxItems'' sp
                  # (case dict_get sp ''items'' of
                       Some (VDict items) \<Rightarrow> map (\<lambda>(i, x). validate_value r x items (indexed path i)) (enumerate 0 xs)
                     | _ \<Rightarrow> [])
               else []
           | _ \<Rightarrow> [])"

definition shape_means :: "pyval \<Rightarrow> pydict \<Rightarrow> bool" where
  "shape_means v sp \<longleftrightarrow> (case v of
          VStr s \<Rightarrow> py_get sp ''type'' = VStr ''string'' \<longrightarrow>
            at_least sp ''minLength'' (of_nat (length s)) \<and> at_most sp ''maxLength'' (of_nat (length s))
        | VDict d \<Rightarrow> py_get sp ''type'' = VStr ''object'' \<longrightarrow>
            (case get_default sp ''properties'' (VDict []) of
               VDict props \<Rightarrow> has_required d sp
                 \<and> (\<forall>(k, x) \<in> set d. case dict_get props k of Some (VDict nested) \<Rightarrow> conforms x nested | _ \<Rightarrow> True)
             | _ \<Rightarrow> True)
        | VList xs \<Rightarrow> py_get sp ''type'' = VStr ''array'' \<longrightarrow>
            at_least sp ''minItems'' (of_nat (length xs)) \<and> at_most sp ''maxItems'' (of_nat (length xs))
            \<and> (\<forall>x \<in> set xs. case dict_get sp ''items'' of Some (VDict items) \<Rightarrow> conforms x items | _ \<Rightarrow> True)
        | _ \<Rightarrow> True)"

lemma validate_value_parts:
  assumes "(if py_get sp ''type'' = VNone then Inr True else matches_type v (py_get sp ''type'')) = Inr True"
    and "\<not> is_list (py_get sp ''type'')"
  shows "validate_value r v sp path = concat_results (Inr (enum_errors r v sp path) #
          (if py_get sp ''type'' = VStr ''integer'' \<or> py_get sp ''type'' = VStr ''number''
           then [bound_errors r (path @ '': '') v True ''minimum'' sp, bound_errors r (path @ '': '') v False ''maximum'' sp]
           else []) @ shape_part r v sp path)"
  unfolding validate_value.simps [of r v sp path] Let_def assms(1) attempt_simps shape_part_def using assms(2)
  by (simp only: if_True if_False simp_thms)

lemma conforms_parts: "conforms v sp \<longleftrightarrow> type_means v (py_get sp ''type'') \<and> in_enum v sp \<and> number_part v sp \<and> shape_means v sp"
  unfolding conforms.simps [of v sp] number_part_def shape_means_def ..

lemma shape_judges:
  assumes schema: "schema_ok (VDict sp)"
    and IH: "\<And>x nested p. size x < size v \<Longrightarrow> schema_ok (VDict nested) \<Longrightarrow> judges (validate_value r x nested p) (conforms x nested)"
  shows "judges (concat_results (shape_part r v sp path)) (shape_means v sp)"
proof (cases v)
  case (VStr s)
  show ?thesis
  proof (cases "py_get sp ''type'' = VStr ''string''")
    case t: True
    show ?thesis
      using length_judges [OF schema_ok_parts(5,6) [OF schema] judges_Nil [OF TrueI], of r "path @ '': length ''" "length s"] by (simp add: shape_part_def shape_means_def t VStr del: concat_results.simps)
  next
    case False
    then have "shape_part r v sp path = []" unfolding shape_part_def VStr by (cases "py_get sp ''type''") simp_all
    with False VStr show ?thesis by (simp add: shape_means_def)
  qed
next
  case (VList xs)
  show ?thesis
  proof (cases "py_get sp ''type'' = VStr ''array''")
    case t: True
    have "judges (validate_value r x nested p) (conforms x nested)" if "x \<in> set xs" "schema_ok (VDict nested)" for x nested p
      using IH [of x] that VList size_list_mem [of x xs] by simp
    then have items: "judges (concat_results (case dict_get sp ''items'' of
   Some (VDict items) \<Rightarrow> map (\<lambda>(i, x). validate_value r x items (indexed path i)) (enumerate 0 xs) | _ \<Rightarrow> []))
     (\<forall>x \<in> set xs. case dict_get sp ''items'' of Some (VDict items) \<Rightarrow> conforms x items | _ \<Rightarrow> True)"
      by (intro items_judges [OF schema]) blast
    show ?thesis using length_judges [OF schema_ok_parts(7,8) [OF schema] items, of r "path @ '': length ''" "length xs"]
      by (simp add: shape_part_def shape_means_def t VList del: concat_results.simps)
  next
    case False
    then have "shape_part r v sp path = []" unfolding shape_part_def VList by (cases "py_get sp ''type''") simp_all
    with False VList show ?thesis by (simp add: shape_means_def)
  qed
next
  case (VDict d)
  show ?thesis
  proof (cases "py_get sp ''type'' = VStr ''object'' \<and> (\<exists>ps. get_default sp ''properties'' (VDict []) = VDict ps)")
    case t: True
    then obtain ps where ps: "get_default sp ''properties'' (VDict []) = VDict ps" by blast
    have "judges (validate_value r x nested p) (conforms x nested)" if "(k, x) \<in> set d" "schema_ok (VDict nested)" for k x nested p
      using IH [of x] that VDict size_dict_mem [of k x d] by simp
    from object_judges [OF schema ps, of d r path] this t ps show ?thesis by (simp add: shape_part_def shape_means_def VDict del: concat_results.simps)
  next
    case False
    then have "shape_part r v sp path = []" unfolding shape_part_def VDict by (cases "py_get sp ''type''") (auto split: pyval.splits)
    with False VDict show ?thesis by (auto simp: shape_means_def split: pyval.splits)
  qed
qed (simp_all add: shape_part_def shape_means_def split: pyval.splits)

lemma validate_judges: "schema_ok (VDict sp) \<Longrightarrow> judges (validate_value r v sp path) (conforms v sp)"
proof (induction "size v" arbitrary: v sp path rule: less_induct)
  case less
  let ?t = "py_get sp ''type''"
  have type: "(if ?t = VNone then Inr True else matches_type v ?t) = Inr (type_means v ?t)"
    using matches_type_means [OF schema_ok_parts(1) [OF less.prems]] by (auto simp: get_default_def)
  have shape: "judges (concat_results (shape_part r v sp path)) (shape_means v sp)"
    by (rule shape_judges [OF less.prems less.hyps])
  consider "\<not> type_means v ?t" | "type_means v ?t" "is_list ?t" | "type_means v ?t" "\<not> is_list ?t" by blast
  then show ?case
  proof cases
    case 1
    then have "\<not> conforms v sp" by (simp add: conforms_parts del: type_means.simps)
    then show ?thesis using type 1 by (simp add: validate_value.simps [of r v] Let_def del: matches_type.simps type_means.simps)
  next
    case 2
    then obtain ts where "?t = VList ts" by (auto simp: is_list_def split: pyval.splits)
    then show ?thesis using type 2 enum_judges [of r v sp path]
      by (cases v) (simp_all add: validate_value.simps [of r _ sp] conforms.simps [of _ sp] Let_def is_list_def del: matches_type.simps type_means.simps)
  next
    case 3
    then show ?thesis
      using judges_Cons [OF enum_judges [of r v sp path] judges_append [OF number_judges [OF less.prems 3(1), of r "path @ '': ''"] shape]] type
      by (simp add: validate_value_parts conforms_parts del: concat_results.simps type_means.simps matches_type.simps)
  qed
qed

text \<open>
  C39. On a schema document whose bounds are numbers, whose types can be hashed and whose required
  keys are names, at every depth, validation never raises, and it returns no message exactly for the
  values that conform to the document.
\<close>

theorem validate_decides:
  assumes "schema_ok (VDict sp)"
  shows "\<exists>es. validate_value r v sp path = Inr es \<and> (es = [] \<longleftrightarrow> conforms v sp)"
  using validate_judges [OF assms] by (simp add: judges_def)

definition demo_schema :: pydict where
  "demo_schema = [(''type'', VStr ''object''),
     (''properties'', VDict [(''age'', VDict [(''type'', VStr ''integer''), (''minimum'', VInt 18)]),
        (''tags'', VDict [(''type'', VStr ''array''), (''items'', VDict [(''type'', VStr ''string''), (''minLength'', VInt 1)])])]),
     (''required'', VList [VStr ''age''])]"

lemma validate_decides_witness:
  "\<exists>es. validate_value (\<lambda>_. []) (VDict [(''age'', VInt 16)]) demo_schema ''value'' = Inr es
    \<and> (es = [] \<longleftrightarrow> conforms (VDict [(''age'', VInt 16)]) demo_schema)"
  by (rule validate_decides) code_simp

subsection \<open>Schema documents of a state\<close>

definition schema_properties :: "pydict \<Rightarrow> pydict" where
  "schema_properties sp = (if get_default sp ''type'' (VStr ''object'') \<noteq> VStr ''object'' then []
     else case dict_get sp ''properties'' of Some (VDict ps) \<Rightarrow> ps | _ \<Rightarrow> [])"

definition schema_required :: "(pyval \<Rightarrow> string) \<Rightarrow> pydict \<Rightarrow> string list" where
  "schema_required r sp = (case get_default sp ''required'' (VList []) of VList ks \<Rightarrow> map (py_str r) ks | _ \<Rightarrow> [])"

text \<open>\<open>spec.get\<close> on a property that is not a mapping.\<close>

definition property_errors :: "(pyval \<Rightarrow> string) \<Rightarrow> pyval \<Rightarrow> pyval \<Rightarrow> string \<Rightarrow> string list result" where
  "property_errors r v sp path = (case sp of
     VDict d \<Rightarrow> validate_value r v d path
   | _ \<Rightarrow> Inl (Exc PyAttributeError (quoted (type_name sp) @ '' object has no attribute get'')))"

definition schema_validate_key :: "(pyval \<Rightarrow> string) \<Rightarrow> pydict \<Rightarrow> string \<Rightarrow> pyval \<Rightarrow> unit result" where
  "schema_validate_key r sp k v = (case dict_get (schema_properties sp) k of
     None \<Rightarrow> Inr ()
   | Some p \<Rightarrow> attempt (property_errors r v p k) (\<lambda>es. case es of [] \<Rightarrow> Inr () | e # _ \<Rightarrow> Inl (Exc StateValidationError e)))"

definition schema_validate_state :: "(pyval \<Rightarrow> string) \<Rightarrow> pydict \<Rightarrow> pydict \<Rightarrow> string list result" where
  "schema_validate_state r sp st =
     attempt (concat_results (map (\<lambda>(k, v). case dict_get (schema_properties sp) k of
         None \<Rightarrow> Inr [] | Some p \<Rightarrow> property_errors r v p k) st)) (\<lambda>es.
       Inr (map (\<lambda>k. ''missing required key: '' @ k) (filter (\<lambda>k. \<not> dict_has st k) (schema_required r sp)) @ es))"

definition schema_defaults :: "pydict \<Rightarrow> pydict result" where
  "schema_defaults sp = attempt (map_result (\<lambda>(k, p). case p of
       VDict d \<Rightarrow> Inr (case dict_get d ''default'' of Some v \<Rightarrow> [(k, v)] | None \<Rightarrow> [])
     | VList xs \<Rightarrow> if py_in (VStr ''default'') xs then Inl (Exc PyTypeError ''list indices must be integers'') else Inr []
     | VStr s \<Rightarrow> if sublist ''default'' s then Inl (Exc PyTypeError ''string indices must be integers'') else Inr []
     | _ \<Rightarrow> Inl (Exc PyTypeError ''argument is not iterable'')) (schema_properties sp)) (\<lambda>ps. Inr (dict_update [] (concat ps)))"

lemma property_judges:
  assumes "schema_ok (VDict sp)" and "dict_get (schema_properties sp) k = Some (VDict p)"
  shows "judges (property_errors r v (VDict p) path) (conforms v p)"
proof -
  obtain ps where ps: "dict_get sp ''properties'' = Some (VDict ps)" "dict_get ps k = Some (VDict p)"
    using assms(2) by (auto simp: schema_properties_def split: if_splits option.splits pyval.splits)
  then have "schema_ok (VDict p)" using schema_ok_parts(10) [OF assms(1), of ps k] by (simp add: get_default_def)
  then show ?thesis using validate_judges [of p r v path] by (simp add: property_errors_def)
qed

end
