(* ===== verification/StateSurface.thy ===== *)
theory StateSurface
  imports Scope Schema
begin

text \<open>
  The execution state (\<open>BaseState\<close> of \<open>palm/core/context/base_state.py\<close> with its storage,
  \<open>DictBackedState\<close> of \<open>palm/states/dict_backed_state.py\<close>): a dictionary of values, an optional
  schema, a stack of scopes and schemas per scope. An operation returns the state also when it
  raises. An attached observer is code outside of the core; its notifications are a log.
\<close>

datatype notice =
    ValueSet string pyval "string option"
  | ScopeEnter string "string list"
  | ScopeExit string "string list"
  | SchemaBound "pydict option" "string option"

record dict_state =
  st_data :: pydict
  st_schema :: "pydict option"
  st_stack :: "string list"
  st_scope_schemas :: "(string, pydict) dict"
  st_observed :: bool
  st_notes :: "notice list"

type_synonym 'a st_eff = "dict_state \<Rightarrow> 'a result \<times> dict_state"

definition new_dict_state :: "pydict \<Rightarrow> pydict option \<Rightarrow> dict_state" where
  "new_dict_state initial sp = \<lparr>st_data = initial, st_schema = sp, st_stack = [], st_scope_schemas = [], st_observed = False, st_notes = []\<rparr>"

definition st_notify :: "notice \<Rightarrow> dict_state \<Rightarrow> dict_state" where
  "st_notify n s = (if st_observed s then s\<lparr>st_notes := st_notes s @ [n]\<rparr> else s)"

definition st_get :: "string \<Rightarrow> pyval \<Rightarrow> dict_state \<Rightarrow> pyval" where
  "st_get k d s = get_default (st_data s) k d"

definition st_set :: "string \<Rightarrow> pyval \<Rightarrow> dict_state \<Rightarrow> dict_state" where
  "st_set k v s = st_notify (ValueSet k v (scope_current (st_stack s))) (s\<lparr>st_data := dict_set k v (st_data s)\<rparr>)"

definition st_has :: "string \<Rightarrow> dict_state \<Rightarrow> bool" where
  "st_has k s = dict_has (st_data s) k"

definition st_delete :: "string \<Rightarrow> dict_state \<Rightarrow> dict_state" where
  "st_delete k s = s\<lparr>st_data := dict_pop k (st_data s)\<rparr>"

definition st_clear :: "dict_state \<Rightarrow> dict_state" where
  "st_clear s = s\<lparr>st_data := []\<rparr>"

definition st_keys :: "dict_state \<Rightarrow> string list" where
  "st_keys s = dict_keys (st_data s)"

subsection \<open>Schemas\<close>

definition bind_schema :: "pydict option \<Rightarrow> dict_state \<Rightarrow> dict_state" where
  "bind_schema sp s = st_notify (SchemaBound sp None) (s\<lparr>st_schema := sp\<rparr>)"

definition bind_scope_schema :: "string \<Rightarrow> pydict option \<Rightarrow> unit st_eff" where
  "bind_scope_schema nm sp s =
     (if nm = [] then (Inl (Exc ContextError ''Scope schema name cannot be empty''), s)
      else (Inr (), st_notify (SchemaBound sp (Some nm)) (s\<lparr>st_scope_schemas :=
              (case sp of None \<Rightarrow> dict_pop nm (st_scope_schemas s) | Some d \<Rightarrow> dict_set nm d (st_scope_schemas s))\<rparr>)))"

text \<open>The innermost scope with a schema decides, else the schema of the state.\<close>

fun first_schema :: "string list \<Rightarrow> (string, pydict) dict \<Rightarrow> pydict option \<Rightarrow> pydict option" where
  "first_schema [] m d = d"
| "first_schema (nm # nms) m d = (case dict_get m nm of Some sp \<Rightarrow> Some sp | None \<Rightarrow> first_schema nms m d)"

definition effective_schema :: "dict_state \<Rightarrow> pydict option" where
  "effective_schema s = first_schema (rev (st_stack s)) (st_scope_schemas s) (st_schema s)"

definition restore_scope_schemas :: "(string, pydict) dict \<Rightarrow> dict_state \<Rightarrow> dict_state" where
  "restore_scope_schemas m s = s\<lparr>st_scope_schemas := m\<rparr>"

definition set_observer :: "bool \<Rightarrow> dict_state \<Rightarrow> dict_state" where
  "set_observer b s = s\<lparr>st_observed := b\<rparr>"

definition st_validate :: "(pyval \<Rightarrow> string) \<Rightarrow> dict_state \<Rightarrow> string list result" where
  "st_validate r s = (case st_schema s of None \<Rightarrow> Inr [] | Some sp \<Rightarrow> schema_validate_state r sp (st_data s))"

definition st_validate_key :: "(pyval \<Rightarrow> string) \<Rightarrow> string \<Rightarrow> pyval \<Rightarrow> dict_state \<Rightarrow> string list result" where
  "st_validate_key r k v s = (case st_schema s of
     None \<Rightarrow> Inr []
   | Some sp \<Rightarrow>
      let candidate = (if v = VNone then st_get k VNone s else v) in
      if candidate = VNone \<and> \<not> st_has k s \<and> v = VNone then Inr []
      else case schema_validate_key r sp k candidate of
        Inr _ \<Rightarrow> Inr []
      | Inl x \<Rightarrow> (if is_subclass (exc_cls x) StateValidationError then Inr [exc_msg x] else Inl x))"

definition set_validated :: "(pyval \<Rightarrow> string) \<Rightarrow> string \<Rightarrow> pyval \<Rightarrow> unit st_eff" where
  "set_validated r k v s =
     (case (case st_schema s of None \<Rightarrow> Inr () | Some sp \<Rightarrow> schema_validate_key r sp k v) of
        Inl x \<Rightarrow> (Inl x, s)
      | Inr _ \<Rightarrow> (Inr (), st_set k v s))"

definition apply_defaults :: "unit st_eff" where
  "apply_defaults s = (case st_schema s of
     None \<Rightarrow> (Inr (), s)
   | Some sp \<Rightarrow> (case schema_defaults sp of
       Inl x \<Rightarrow> (Inl x, s)
     | Inr ds \<Rightarrow> (Inr (), fold (\<lambda>(k, v) s. if st_has k s then s else st_set k v s) ds s)))"

subsection \<open>Scopes\<close>

definition enter_scope :: "string \<Rightarrow> string st_eff" where
  "enter_scope nm s = (case scope_enter nm (st_stack s) of
     Inl x \<Rightarrow> (Inl x, s)
   | Inr stack \<Rightarrow> (Inr nm, st_notify (ScopeEnter nm stack) (s\<lparr>st_stack := stack\<rparr>)))"

definition exit_scope :: "string st_eff" where
  "exit_scope s = (case scope_exit (st_stack s) of
     Inl x \<Rightarrow> (Inl x, s)
   | Inr (nm, stack) \<Rightarrow> (Inr nm, st_notify (ScopeExit nm stack) (s\<lparr>st_stack := stack\<rparr>)))"

definition restore_scope_stack :: "string list \<Rightarrow> dict_state \<Rightarrow> dict_state" where
  "restore_scope_stack stack s = s\<lparr>st_stack := stack\<rparr>"

text \<open>\<open>with state.scope(name):\<close> the scope is left also when the body raises.\<close>

definition with_scope :: "string \<Rightarrow> 'a st_eff \<Rightarrow> 'a st_eff" where
  "with_scope nm body s = (case enter_scope nm s of
     (Inl x, s1) \<Rightarrow> (Inl x, s1)
   | (Inr _, s1) \<Rightarrow> (case body s1 of (y, s2) \<Rightarrow> (case exit_scope s2 of
         (Inl x, s3) \<Rightarrow> (Inl x, s3) | (Inr _, s3) \<Rightarrow> (y, s3))))"

definition scoped_keys :: "dict_state \<Rightarrow> string list" where
  "scoped_keys s = dict_keys (scope_view (st_stack s) (st_data s))"

definition get_scoped :: "string \<Rightarrow> pyval \<Rightarrow> dict_state \<Rightarrow> pyval" where
  "get_scoped k d s = scope_get (st_stack s) (st_data s) k d"

definition set_scoped :: "string \<Rightarrow> pyval \<Rightarrow> unit st_eff" where
  "set_scoped k v s = (case scope_set (st_stack s) (st_data s) k v of
     Inl x \<Rightarrow> (Inl x, s)
   | Inr d \<Rightarrow> (Inr (), st_notify (ValueSet k v (scope_current (st_stack s))) (s\<lparr>st_data := d\<rparr>)))"

definition has_scoped :: "string \<Rightarrow> dict_state \<Rightarrow> bool" where
  "has_scoped k s = scope_contains (st_stack s) (st_data s) k"

lemma notify_frame [simp, frame_simps]: "st_data (st_notify n s) = st_data s" "st_schema (st_notify n s) = st_schema s"
  "st_stack (st_notify n s) = st_stack s" "st_scope_schemas (st_notify n s) = st_scope_schemas s" "st_observed (st_notify n s) = st_observed s"
  by (simp_all add: st_notify_def)

subsection \<open>Validated writes\<close>

text \<open>A schema document whose properties are documents, and the values of a state against it.\<close>

definition state_schema_ok :: "pydict \<Rightarrow> bool" where
  "state_schema_ok sp \<longleftrightarrow> schema_ok (VDict sp) \<and> (\<forall>k p. dict_get (schema_properties sp) k = Some p \<longrightarrow> (\<exists>d. p = VDict d))"

definition admits :: "pydict \<Rightarrow> pydict \<Rightarrow> bool" where
  "admits sp st \<longleftrightarrow> (\<forall>k v d. dict_get st k = Some v \<longrightarrow> dict_get (schema_properties sp) k = Some (VDict d) \<longrightarrow> conforms v d)"

lemma validate_key_decides:
  assumes "state_schema_ok sp"
  shows "schema_validate_key r sp k v = Inr () \<and> (\<forall>d. dict_get (schema_properties sp) k = Some (VDict d) \<longrightarrow> conforms v d)
    \<or> (\<exists>m d. schema_validate_key r sp k v = Inl (Exc StateValidationError m) \<and> dict_get (schema_properties sp) k = Some (VDict d) \<and> \<not> conforms v d)"
proof (cases "dict_get (schema_properties sp) k")
  case (Some p)
  then obtain d where d: "p = VDict d" using assms by (auto simp: state_schema_ok_def)
  then have "judges (property_errors r v p k) (conforms v d)" using property_judges assms Some by (auto simp: state_schema_ok_def)
  then show ?thesis using Some d by (auto simp: schema_validate_key_def judges_def split: list.splits)
qed (simp add: schema_validate_key_def)

lemma validate_state_decides:
  assumes "state_schema_ok sp" and "dict_wf st" and "admits sp st"
  shows "schema_validate_state r sp st = Inr (map (\<lambda>k. ''missing required key: '' @ k) (filter (\<lambda>k. \<not> dict_has st k) (schema_required r sp)))"
proof -
  have "judges (concat_results (map (\<lambda>(k, v). case dict_get (schema_properties sp) k of
         None \<Rightarrow> Inr [] | Some p \<Rightarrow> property_errors r v p k) st)) (\<forall>x \<in> set st. True)"
  proof (rule judges_map)
    fix x
    assume x: "x \<in> set st"
    obtain k v where kv [simp]: "x = (k, v)" by (cases x)
    have g: "dict_get st k = Some v" using x assms(2) by (simp add: dict_wf_def)
    show "judges (case x of (k, v) \<Rightarrow> case dict_get (schema_properties sp) k of None \<Rightarrow> Inr [] | Some p \<Rightarrow> property_errors r v p k) True"
    proof (cases "dict_get (schema_properties sp) k")
      case (Some p)
      then obtain d where d: "p = VDict d" using assms(1) by (auto simp: state_schema_ok_def)
      have "judges (property_errors r v (VDict d) k) (conforms v d)"
        by (rule property_judges) (use assms(1) Some d in \<open>auto simp: state_schema_ok_def\<close>)
      moreover have "conforms v d" using assms(3) g Some d by (auto simp: admits_def)
      ultimately show ?thesis using Some d by simp
    qed simp
  qed
  then have "concat_results (map (\<lambda>(k, v). case dict_get (schema_properties sp) k of
         None \<Rightarrow> Inr [] | Some p \<Rightarrow> property_errors r v p k) st) = Inr []" by (auto simp: judges_def)
  then show ?thesis by (simp add: schema_validate_state_def)
qed

text \<open>
  Validated writes keep a state valid: on a well-formed schema, \<open>set_validated\<close> either stores the
  value, which then conforms, or raises \<open>StateValidationError\<close> for a value that does not conform and
  changes nothing; a state all of whose values conform stays so, and \<open>validate\<close> then reports the
  missing required keys and nothing else.
\<close>

theorem validated_state_stays_valid:
  assumes "state_schema_ok sp" and "st_schema s = Some sp" and "dict_wf (st_data s)" and "admits sp (st_data s)"
    and "set_validated r k v s = (y, s')"
  shows "admits sp (st_data s')
    \<and> st_validate r s' = Inr (map (\<lambda>k. ''missing required key: '' @ k) (filter (\<lambda>k. \<not> st_has k s') (schema_required r sp)))
    \<and> (y = Inr () \<and> s' = st_set k v s
       \<or> (\<exists>m d. y = Inl (Exc StateValidationError m) \<and> s' = s \<and> dict_get (schema_properties sp) k = Some (VDict d) \<and> \<not> conforms v d))"
proof -
  have report: "st_validate r s' = Inr (map (\<lambda>k. ''missing required key: '' @ k) (filter (\<lambda>k. \<not> st_has k s') (schema_required r sp)))"
    if "admits sp (st_data s')" "dict_wf (st_data s')" "st_schema s' = Some sp"
    using validate_state_decides [OF assms(1) that(2,1)] that(3) by (simp add: st_validate_def st_has_def)
  from validate_key_decides [OF assms(1), of r k v] show ?thesis
  proof (elim disjE conjE exE)
    assume ok: "schema_validate_key r sp k v = Inr ()" "\<forall>d. dict_get (schema_properties sp) k = Some (VDict d) \<longrightarrow> conforms v d"
    then have s': "y = Inr ()" "s' = st_set k v s" using assms(2,5) by (simp_all add: set_validated_def)
    have "admits sp (st_data s')" using ok(2) assms(4) by (auto simp: s' st_set_def admits_def)
    then show ?thesis using report s' assms(2,3) by (simp add: st_set_def)
  next
    fix m d
    assume bad: "schema_validate_key r sp k v = Inl (Exc StateValidationError m)"
      and d: "dict_get (schema_properties sp) k = Some (VDict d)" "\<not> conforms v d"
    then have s': "y = Inl (Exc StateValidationError m)" "s' = s" using assms(2,5) by (simp_all add: set_validated_def)
    then show ?thesis using report assms(2,3,4) d by auto
  qed
qed

lemma demo_schema_ok: "state_schema_ok demo_schema"
proof -
  have "schema_ok (VDict demo_schema)" by code_simp
  then show ?thesis by (auto simp: state_schema_ok_def schema_properties_def demo_schema_def split: if_splits)
qed

lemma validated_state_stays_valid_witness:
  "st_validate (\<lambda>_. []) (st_set ''age'' (VInt 20) (new_dict_state [] (Some demo_schema))) = Inr []
   \<or> (\<exists>m. fst (set_validated (\<lambda>_. []) ''age'' (VInt 20) (new_dict_state [] (Some demo_schema))) = Inl (Exc StateValidationError m))"
proof -
  let ?s = "new_dict_state [] (Some demo_schema)"
  obtain y s' where e: "set_validated (\<lambda>_. []) ''age'' (VInt 20) ?s = (y, s')" by fastforce
  have r: "schema_required (\<lambda>_. []) demo_schema = [''age'']" by code_simp
  have "admits demo_schema (st_data ?s)" "dict_wf (st_data ?s)" "st_schema ?s = Some demo_schema"
    by (simp_all add: new_dict_state_def admits_def)
  from validated_state_stays_valid [OF demo_schema_ok this(3,2,1) e] e r show ?thesis
    by (auto simp: st_has_def st_set_def)
qed

subsection \<open>Scoped writes leave no trace outside\<close>

fun scoped_writes :: "(string \<times> pyval) list \<Rightarrow> unit st_eff" where
  "scoped_writes [] s = (Inr (), s)"
| "scoped_writes ((k, v) # kvs) s = (case set_scoped k v s of (Inl x, s1) \<Rightarrow> (Inl x, s1) | (Inr _, s1) \<Rightarrow> scoped_writes kvs s1)"

lemma set_scoped_cell: "st_stack s \<noteq> [] \<Longrightarrow> \<exists>s'. set_scoped k v s = (Inr (), s') \<and> st_stack s' = st_stack s
    \<and> st_data s' = cell_put (st_data s) (st_stack s) k v"
  by (simp add: set_scoped_def cell_put_eq)

lemma scoped_writes_cells:
  "st_stack s \<noteq> [] \<Longrightarrow> \<exists>s'. scoped_writes kvs s = (Inr (), s') \<and> st_stack s' = st_stack s
     \<and> st_data s' = fold (\<lambda>(k, v) d. cell_put d (st_stack s) k v) kvs (st_data s)"
proof (induction kvs arbitrary: s)
  case (Cons kv kvs)
  obtain k v where [simp]: "kv = (k, v)" by (cases kv)
  obtain s1 where s1: "set_scoped k v s = (Inr (), s1)" "st_stack s1 = st_stack s" "st_data s1 = cell_put (st_data s) (st_stack s) k v"
    using set_scoped_cell [OF Cons.prems] by blast
  then show ?case using Cons.IH [of s1] Cons.prems by auto
qed simp

lemma cells_after:
  assumes "p \<noteq> []" and "\<forall>(k, v) \<in> set kvs. k \<noteq> NESTED_SCOPES_KEY" and "k' \<noteq> NESTED_SCOPES_KEY"
  shows "scope_cell (fold (\<lambda>(k, v) d. cell_put d p k v) kvs d) p' k'
    = (if p' = p \<and> dict_has (rev kvs) k' then dict_get (rev kvs) k' else scope_cell d p' k')"
  using assms(2)
proof (induction kvs arbitrary: d)
  case (Cons kv kvs)
  obtain k v where [simp]: "kv = (k, v)" by (cases kv)
  show ?case using Cons.IH [of "cell_put d p k v"] Cons.prems sc.cell_put [OF assms(1) _ assms(3), of k d v p']
    by (auto simp: dict_has_def map_add_def split: option.splits)
qed simp

lemma seek_cong: "(\<And>m. m < n \<Longrightarrow> read (take (Suc m) p) k = read' (take (Suc m) p) k) \<Longrightarrow> seek read p n k = seek read' p n k"
proof (induction n)
  case (Suc n)
  have "seek read p n k = seek read' p n k" by (rule Suc.IH) (use Suc.prems in simp)
  then show ?case using Suc.prems [of n] by (simp split: option.splits)
qed simp

lemma root_kept: "k \<noteq> SCOPES_ROOT_KEY \<Longrightarrow> get_default (cell_put d p k' v) k x = get_default d k x"
  by (simp add: cell_put_def scope_set_def navigate_update_def)

lemma root_kept_all: "k \<noteq> SCOPES_ROOT_KEY \<Longrightarrow> get_default (fold (\<lambda>(k, v) d. cell_put d p k v) kvs d) k x = get_default d k x"
proof (induction kvs arbitrary: d)
  case (Cons kv kvs)
  then show ?case using root_kept by (cases kv) auto
qed simp

text \<open>
  A block of scoped writes inside \<open>with state.scope(name)\<close> returns, leaves the scope stack as it
  was and is invisible outside: every scoped read and every plain read (but of the key that holds the
  scopes) is what it was before the block. On entering the scope again each key reads the last value
  written to it.
\<close>

theorem scoped_block_leaves_no_trace:
  assumes "nm \<noteq> []" and "\<forall>(k, v) \<in> set kvs. k \<noteq> NESTED_SCOPES_KEY" and "k' \<noteq> NESTED_SCOPES_KEY"
  shows "\<exists>s'. with_scope nm (scoped_writes kvs) s = (Inr (), s') \<and> st_stack s' = st_stack s
    \<and> get_scoped k' d s' = get_scoped k' d s
    \<and> (k' \<noteq> SCOPES_ROOT_KEY \<longrightarrow> st_get k' d s' = st_get k' d s)
    \<and> (\<forall>v. dict_get (rev kvs) k' = Some v \<longrightarrow> get_scoped k' d (snd (enter_scope nm s')) = v)"
proof -
  define s1 where "s1 = snd (enter_scope nm s)"
  have e: "enter_scope nm s = (Inr nm, s1)" "st_stack s1 = st_stack s @ [nm]" "st_data s1 = st_data s"
    using assms(1) by (simp_all add: s1_def enter_scope_def scope_enter_def)
  obtain s2 where w: "scoped_writes kvs s1 = (Inr (), s2)" "st_stack s2 = st_stack s1"
      "st_data s2 = fold (\<lambda>(k, v) d. cell_put d (st_stack s1) k v) kvs (st_data s1)"
    using scoped_writes_cells [of s1 kvs] e by auto
  define s3 where "s3 = snd (exit_scope s2)"
  have x: "exit_scope s2 = (Inr nm, s3)" "st_stack s3 = st_stack s" "st_data s3 = st_data s2"
    using w(2) e(2) by (simp_all add: s3_def exit_scope_def scope_exit_def)
  note cells = cells_after [OF _ assms(2,3), of "st_stack s1" "st_data s"]
  have "seek (scope_cell (st_data s3)) (st_stack s) (length (st_stack s)) k' = seek (scope_cell (st_data s)) (st_stack s) (length (st_stack s)) k'"
  proof (rule seek_cong)
    fix m
    assume "m < length (st_stack s)"
    then have "length (take (Suc m) (st_stack s)) \<noteq> length (st_stack s1)" using e(2) by simp
    then have "take (Suc m) (st_stack s) \<noteq> st_stack s1" by (rule contrapos_nn) simp
    then show "scope_cell (st_data s3) (take (Suc m) (st_stack s)) k' = scope_cell (st_data s) (take (Suc m) (st_stack s)) k'"
      using cells [of "take (Suc m) (st_stack s)"] by (simp add: e w x)
  qed
  moreover have "get_scoped k' d (snd (enter_scope nm s3)) = v" if "dict_get (rev kvs) k' = Some v" for v
    using that cells [of "st_stack s1"] assms(1) by (simp add: x w e enter_scope_def scope_enter_def get_scoped_def scope_get_def dict_has_def)
  moreover have "k' \<noteq> SCOPES_ROOT_KEY \<Longrightarrow> st_get k' d s3 = st_get k' d s" using w(3) x(3) e(3) root_kept_all by (simp add: st_get_def)
  moreover have "with_scope nm (scoped_writes kvs) s = (Inr (), s3)" using e(1) w(1) x(1) by (simp add: with_scope_def)
  ultimately show ?thesis using x by (simp add: get_scoped_def scope_get_def)
qed

lemma scoped_block_leaves_no_trace_witness:
  "\<exists>s'. with_scope ''step'' (scoped_writes [(''k'', VInt 1), (''k'', VInt 2)]) (new_dict_state [] None) = (Inr (), s')
    \<and> get_scoped ''k'' VNone s' = get_scoped ''k'' VNone (new_dict_state [] None)
    \<and> get_scoped ''k'' VNone (snd (enter_scope ''step'' s')) = VInt 2"
  using scoped_block_leaves_no_trace [of "''step''" "[(''k'', VInt 1), (''k'', VInt 2)]" "''k''" "new_dict_state [] None" VNone]
  by (auto simp: NESTED_SCOPES_KEY_def)

end
