(* ===== verification/ContextEngine.thy ===== *)
theory ContextEngine
  imports StateSurface
begin

text \<open>
  \<open>ContextEngine\<close> (\<open>palm/core/context/engine.py\<close>): a stack of frames, dictionaries that may hold a
  reference to a state. States are mutable and shared between frames, so they live in a heap and a
  frame holds an object reference.
\<close>

definition STATE_FRAME_KEY :: string where "STATE_FRAME_KEY = ''state''"
definition STATE_SCOPE_FRAME_KEY :: string where "STATE_SCOPE_FRAME_KEY = ''_state_scope''"
definition FRAME_NAME_KEY :: string where "FRAME_NAME_KEY = ''_name''"

lemmas frame_keys = STATE_FRAME_KEY_def STATE_SCOPE_FRAME_KEY_def FRAME_NAME_KEY_def

record context_engine =
  cx_frames :: "pydict list"
  cx_heap :: "nat \<Rightarrow> dict_state option"

type_synonym 'a cx_eff = "context_engine \<Rightarrow> 'a result \<times> context_engine"

definition make_frame :: "string \<Rightarrow> pydict \<Rightarrow> pydict" where
  "make_frame nm data = dict_update [(FRAME_NAME_KEY, VStr nm)] data"

definition new_context_engine :: "(nat \<Rightarrow> dict_state option) \<Rightarrow> context_engine" where
  "new_context_engine h = \<lparr>cx_frames = [make_frame ''root'' []], cx_heap = h\<rparr>"

definition cx_current :: "context_engine \<Rightarrow> pydict" where
  "cx_current c = last (cx_frames c)"

definition cx_current_name :: "(pyval \<Rightarrow> string) \<Rightarrow> context_engine \<Rightarrow> string" where
  "cx_current_name r c = py_str r (get_default (cx_current c) FRAME_NAME_KEY (VStr ''root''))"

text \<open>\<open>isinstance(value, BaseState)\<close>: a reference to a state of the heap.\<close>

definition as_state :: "pyval \<Rightarrow> context_engine \<Rightarrow> nat option" where
  "as_state v c = (case v of VObj n \<Rightarrow> (if cx_heap c n = None then None else Some n) | _ \<Rightarrow> None)"

definition current_state :: "context_engine \<Rightarrow> nat option" where
  "current_state c = as_state (py_get (cx_current c) STATE_FRAME_KEY) c"

text \<open>A property read from the bound state, with the value when there is none.\<close>

definition from_state :: "'a \<Rightarrow> (dict_state \<Rightarrow> 'a) \<Rightarrow> context_engine \<Rightarrow> 'a" where
  "from_state d f c = (case current_state c of None \<Rightarrow> d | Some n \<Rightarrow> f (the (cx_heap c n)))"

definition current_state_scope :: "context_engine \<Rightarrow> string option" where
  "current_state_scope = from_state None (\<lambda>s. scope_current (st_stack s))"

definition state_scope_stack :: "context_engine \<Rightarrow> string list" where
  "state_scope_stack = from_state [] st_stack"

definition state_scope_depth :: "context_engine \<Rightarrow> nat" where
  "state_scope_depth = from_state 0 (\<lambda>s. length (st_stack s))"

definition cx_effective_schema :: "context_engine \<Rightarrow> pydict option" where
  "cx_effective_schema = from_state None effective_schema"

definition cx_get :: "string \<Rightarrow> pyval \<Rightarrow> context_engine \<Rightarrow> pyval" where
  "cx_get k d c = get_default (cx_current c) k d"

definition set_current :: "pydict \<Rightarrow> context_engine \<Rightarrow> context_engine" where
  "set_current f c = c\<lparr>cx_frames := butlast (cx_frames c) @ [f]\<rparr>"

definition cx_set :: "string \<Rightarrow> pyval \<Rightarrow> context_engine \<Rightarrow> context_engine" where
  "cx_set k v c = set_current (dict_set k v (cx_current c)) c"

definition cx_bind_state :: "nat \<Rightarrow> context_engine \<Rightarrow> context_engine" where
  "cx_bind_state n c = cx_set STATE_FRAME_KEY (VObj n) c"

text \<open>An operation on the state \<open>n\<close> of the heap, and on the state bound to the current frame.\<close>

definition on_state :: "nat \<Rightarrow> 'a st_eff \<Rightarrow> 'a cx_eff" where
  "on_state n f c = (case f (the (cx_heap c n)) of (y, s) \<Rightarrow> (y, c\<lparr>cx_heap := (cx_heap c)(n \<mapsto> s)\<rparr>))"

definition require_current_state :: "context_engine \<Rightarrow> nat result" where
  "require_current_state c = (case current_state c of
     None \<Rightarrow> Inl (Exc StateNotConfiguredError ''Context frame has no bound BaseState'') | Some n \<Rightarrow> Inr n)"

definition on_current :: "'a st_eff \<Rightarrow> 'a cx_eff" where
  "on_current f c = (case require_current_state c of Inl x \<Rightarrow> (Inl x, c) | Inr n \<Rightarrow> on_state n f c)"

definition cx_bind_schema :: "pydict option \<Rightarrow> unit cx_eff" where
  "cx_bind_schema sp = on_current (\<lambda>s. (Inr (), bind_schema sp s))"

definition cx_bind_scope_schema :: "string \<Rightarrow> pydict option \<Rightarrow> unit cx_eff" where
  "cx_bind_scope_schema nm sp = on_current (bind_scope_schema nm sp)"

definition restore_state_context :: "string list \<Rightarrow> (string, pydict) dict \<Rightarrow> pydict option \<Rightarrow> unit cx_eff" where
  "restore_state_context stack schemas sp = on_current (\<lambda>s.
     let s1 = (case sp of None \<Rightarrow> s | Some d \<Rightarrow> bind_schema (Some d) s);
         s2 = (if schemas = [] then s1 else restore_scope_schemas schemas s1)
     in (Inr (), if stack = [] then s2 else restore_scope_stack stack s2))"

definition enter_state_scope :: "string \<Rightarrow> string cx_eff" where
  "enter_state_scope nm = on_current (enter_scope nm)"

definition exit_state_scope :: "string cx_eff" where
  "exit_state_scope = on_current exit_scope"

text \<open>The frame is a new object of the caller; the engine keeps it on its stack.\<close>

definition cx_push :: "string \<Rightarrow> nat option \<Rightarrow> bool \<Rightarrow> pydict \<Rightarrow> pydict cx_eff" where
  "cx_push nm st state_scope data c =
     (let f0 = make_frame nm data;
          f1 = (case st of Some n \<Rightarrow> dict_set STATE_FRAME_KEY (VObj n) f0 | None \<Rightarrow> f0)
      in if \<not> state_scope then (Inr f1, c\<lparr>cx_frames := cx_frames c @ [f1]\<rparr>)
         else case (case as_state (py_get f1 STATE_FRAME_KEY) c of Some n \<Rightarrow> Some n | None \<Rightarrow> current_state c) of
           None \<Rightarrow> (Inl (Exc StateNotConfiguredError ''Cannot push state scope without a bound BaseState''), c)
         | Some n \<Rightarrow> (case on_state n (enter_scope nm) c of
             (Inl x, c1) \<Rightarrow> (Inl x, c1)
           | (Inr _, c1) \<Rightarrow>
              let f2 = dict_set STATE_SCOPE_FRAME_KEY (VBool True) f1;
                  f3 = (if dict_has f2 STATE_FRAME_KEY then f2 else dict_set STATE_FRAME_KEY (VObj n) f2)
              in (Inr f3, c1\<lparr>cx_frames := cx_frames c1 @ [f3]\<rparr>)))"

definition cx_pop :: "pydict cx_eff" where
  "cx_pop c =
     (if length (cx_frames c) \<le> 1 then (Inl (Exc ContextError ''Cannot pop the root context frame''), c)
      else
        let f = last (cx_frames c); c1 = c\<lparr>cx_frames := butlast (cx_frames c)\<rparr>
        in if truthy (py_get f STATE_SCOPE_FRAME_KEY)
           then (case current_state c1 of
               None \<Rightarrow> (Inr f, c1)
             | Some n \<Rightarrow> (case on_state n exit_scope c1 of (Inl x, c2) \<Rightarrow> (Inl x, c2) | (Inr _, c2) \<Rightarrow> (Inr f, c2)))
           else (Inr f, c1))"

text \<open>\<open>with engine.scope(...)\<close>: the frame is popped also when the body raises.\<close>

definition cx_scope :: "string \<Rightarrow> nat option \<Rightarrow> bool \<Rightarrow> pydict \<Rightarrow> 'a cx_eff \<Rightarrow> 'a cx_eff" where
  "cx_scope nm st state_scope data body c = (case cx_push nm st state_scope data c of
     (Inl x, c1) \<Rightarrow> (Inl x, c1)
   | (Inr _, c1) \<Rightarrow> (case body c1 of (y, c2) \<Rightarrow> (case cx_pop c2 of (Inl x, c3) \<Rightarrow> (Inl x, c3) | (Inr _, c3) \<Rightarrow> (y, c3))))"

definition cx_initialize :: "pydict option \<Rightarrow> nat option \<Rightarrow> pydict option \<Rightarrow> context_engine \<Rightarrow> context_engine" where
  "cx_initialize initial st sp c =
     (let f = make_frame ''root'' (case initial of Some d \<Rightarrow> d | None \<Rightarrow> [])
      in case (case st of Some n \<Rightarrow> as_state (VObj n) c | None \<Rightarrow> None) of
           None \<Rightarrow> c\<lparr>cx_frames := [f]\<rparr>
         | Some n \<Rightarrow>
             let h = (if sp = None then cx_heap c else (cx_heap c)(n \<mapsto> bind_schema sp (the (cx_heap c n))))
             in c\<lparr>cx_heap := h, cx_frames := [dict_set STATE_FRAME_KEY (VObj n) f]\<rparr>)"

definition cx_shutdown :: "context_engine \<Rightarrow> context_engine" where
  "cx_shutdown c = c\<lparr>cx_frames := [make_frame ''root'' []]\<rparr>"

subsection \<open>Properties\<close>

abbreviation stack_of :: "nat \<Rightarrow> context_engine \<Rightarrow> string list" where
  "stack_of n c \<equiv> st_stack (the (cx_heap c n))"

lemma make_frame_get: "\<not> dict_has data k \<Longrightarrow> k \<noteq> FRAME_NAME_KEY \<Longrightarrow> py_get (make_frame nm data) k = VNone \<and> \<not> dict_has (make_frame nm data) k"
  by (auto simp: make_frame_def get_default_def dict_has_def dict_get_update map_of_eq_None_iff map_add_def split: option.splits)

lemma enter_ok: "nm \<noteq> [] \<Longrightarrow> enter_scope nm s = (Inr nm, st_notify (ScopeEnter nm (st_stack s @ [nm])) (s\<lparr>st_stack := st_stack s @ [nm]\<rparr>))"
  by (simp add: enter_scope_def scope_enter_def)

lemma exit_ok: "st_stack s = p @ [nm] \<Longrightarrow> exit_scope s = (Inr nm, st_notify (ScopeExit nm p) (s\<lparr>st_stack := p\<rparr>))"
  by (simp add: exit_scope_def scope_exit_def)

text \<open>A push of a state scope enters the scope on the state it finds, and marks the frame.\<close>

lemma push_scope:
  assumes "nm \<noteq> []" and "cx_heap c n \<noteq> None" and "(case st of Some m \<Rightarrow> m = n | None \<Rightarrow> current_state c = Some n)"
    and "\<not> dict_has data STATE_FRAME_KEY"
  shows "\<exists>f c1. cx_push nm st True data c = (Inr f, c1) \<and> cx_frames c1 = cx_frames c @ [f]
    \<and> py_get f STATE_FRAME_KEY = VObj n \<and> truthy (py_get f STATE_SCOPE_FRAME_KEY)
    \<and> stack_of n c1 = stack_of n c @ [nm] \<and> (\<forall>m. m \<noteq> n \<longrightarrow> cx_heap c1 m = cx_heap c m) \<and> cx_heap c1 n \<noteq> None"
proof -
  have k: "STATE_FRAME_KEY \<noteq> FRAME_NAME_KEY" "STATE_SCOPE_FRAME_KEY \<noteq> STATE_FRAME_KEY" by (simp_all add: frame_keys)
  note f0 = make_frame_get [OF assms(4) k(1), of nm]
  show ?thesis
  proof (cases st)
    case None
    then show ?thesis using assms(1,2,3) f0 k
      by (simp add: cx_push_def Let_def as_state_def on_state_def enter_ok dict_has_def)
  next
    case (Some m)
    then obtain s where "cx_heap c n = Some s" "m = n" using assms(2,3) by auto
    then show ?thesis using assms(1) Some k
      by (simp add: cx_push_def Let_def as_state_def on_state_def enter_ok dict_has_def)
  qed
qed

text \<open>
  A scope of the engine that inherits the state of its frame is balanced: whatever the body does,
  returning or raising, as long as it leaves the frames and the state's scopes as it found them, the
  engine comes back with the frames and the scopes it had, and with the body's result.
\<close>

theorem inherited_scope_is_balanced:
  assumes "current_state c = Some n" and "nm \<noteq> []" and "cx_frames c \<noteq> []" and "\<not> dict_has data STATE_FRAME_KEY"
    and "\<forall>f c1 y c2. cx_push nm None True data c = (Inr f, c1) \<longrightarrow> body c1 = (y, c2) \<longrightarrow> cx_frames c2 = cx_frames c1 \<and> cx_heap c2 n \<noteq> None \<and> stack_of n c2 = stack_of n c1"
  shows "\<exists>c1 y c2 c3. cx_push nm None True data c = (Inr (last (cx_frames c1)), c1) \<and> body c1 = (y, c2)
    \<and> cx_scope nm None True data body c = (y, c3) \<and> cx_frames c3 = cx_frames c \<and> stack_of n c3 = stack_of n c
    \<and> (\<forall>m. m \<noteq> n \<longrightarrow> cx_heap c3 m = cx_heap c2 m)"
proof -
  have "cx_heap c n \<noteq> None" using assms(1) by (auto simp: current_state_def as_state_def split: pyval.splits if_splits)
  then obtain f c1 where p: "cx_push nm None True data c = (Inr f, c1)" "cx_frames c1 = cx_frames c @ [f]"
      "truthy (py_get f STATE_SCOPE_FRAME_KEY)" "stack_of n c1 = stack_of n c @ [nm]"
    using push_scope [OF assms(2) _ _ assms(4), of c n None] assms(1) by auto
  obtain y c2 where b: "body c1 = (y, c2)" by fastforce
  note k = assms(5) [rule_format, OF p(1) b]
  define c2' where "c2' = c2\<lparr>cx_frames := cx_frames c\<rparr>"
  have cs: "current_state c2' = Some n"
    using assms(1) k by (auto simp: c2'_def current_state_def cx_current_def as_state_def split: pyval.splits if_splits)
  obtain s where s: "exit_scope (the (cx_heap c2 n)) = (Inr nm, s)" "st_stack s = stack_of n c"
    using exit_ok [of "the (cx_heap c2 n)" "stack_of n c" nm] k p(4) by simp
  have "cx_pop c2 = (Inr f, c2'\<lparr>cx_heap := (cx_heap c2)(n \<mapsto> s)\<rparr>)"
    using k p(2,3) assms(3) cs s by (simp add: cx_pop_def Let_def c2'_def [symmetric] on_state_def) (simp add: c2'_def)
  then have "cx_scope nm None True data body c = (y, c2'\<lparr>cx_heap := (cx_heap c2)(n \<mapsto> s)\<rparr>)"
    using p(1) b by (simp add: cx_scope_def)
  then show ?thesis using p b s by (auto simp: c2'_def)
qed

definition demo_context :: context_engine where
  "demo_context = cx_initialize None (Some 0) None (new_context_engine [0 \<mapsto> new_dict_state [] None, 1 \<mapsto> new_dict_state [] None])"

lemma demo_state: "current_state demo_context = Some 0" "cx_frames demo_context \<noteq> []"
  by (simp_all add: demo_context_def cx_initialize_def new_context_engine_def as_state_def current_state_def cx_current_def make_frame_def
      frame_keys Let_def dict_update_def)

lemma inherited_scope_is_balanced_witness:
  "\<exists>c3. cx_scope ''step'' None True [] (\<lambda>c. (Inl (Exc PyValueError ''boom'') :: unit result, c)) demo_context
      = (Inl (Exc PyValueError ''boom''), c3)
    \<and> cx_frames c3 = cx_frames demo_context \<and> stack_of 0 c3 = stack_of 0 demo_context"
proof -
  let ?body = "\<lambda>c. (Inl (Exc PyValueError ''boom'') :: unit result, c)"
  have "cx_heap demo_context 0 \<noteq> None" using demo_state(1) by (auto simp: current_state_def as_state_def split: pyval.splits if_splits)
  then have "cx_heap c1 0 \<noteq> None" if "cx_push ''step'' None True [] demo_context = (Inr f, c1)" for f c1
    using push_scope [of "''step''" demo_context 0 None "[]"] demo_state(1) that by auto
  then have "\<forall>f c1 y c2. cx_push ''step'' None True [] demo_context = (Inr f, c1) \<longrightarrow> ?body c1 = (y, c2) \<longrightarrow>
      cx_frames c2 = cx_frames c1 \<and> cx_heap c2 0 \<noteq> None \<and> stack_of 0 c2 = stack_of 0 c1" by auto
  from inherited_scope_is_balanced [of demo_context 0 "''step''" "[]" ?body, OF demo_state(1) _ demo_state(2) _ this] show ?thesis
    by auto
qed

text \<open>
  A scope entered on another state is never left: pushing a frame with a state of its own and a
  state scope enters the scope on that state, but the pop leaves the innermost scope of the state of
  the enclosing frame instead: the given state keeps the scope, the other one loses its own scope,
  and when it has none the pop raises although the frame is gone.
\<close>

theorem pop_leaves_the_wrong_scope:
  assumes "nm \<noteq> []" and "cx_frames c \<noteq> []" and "cx_heap c n \<noteq> None" and "current_state c \<noteq> Some n" and "\<not> dict_has data STATE_FRAME_KEY"
  shows "\<exists>f c1 c2. cx_push nm (Some n) True data c = (Inr f, c1) \<and> snd (cx_pop c1) = c2 \<and> cx_frames c2 = cx_frames c
    \<and> stack_of n c2 = stack_of n c @ [nm]
    \<and> (\<forall>m. current_state c = Some m \<longrightarrow>
         (stack_of m c = [] \<longrightarrow> (\<exists>x. fst (cx_pop c1) = Inl x \<and> exc_cls x = ContextError))
         \<and> (stack_of m c \<noteq> [] \<longrightarrow> stack_of m c2 = butlast (stack_of m c)))"
proof -
  obtain f c1 where p: "cx_push nm (Some n) True data c = (Inr f, c1)" "cx_frames c1 = cx_frames c @ [f]"
      "truthy (py_get f STATE_SCOPE_FRAME_KEY)" "stack_of n c1 = stack_of n c @ [nm]" "\<forall>m. m \<noteq> n \<longrightarrow> cx_heap c1 m = cx_heap c m"
      "cx_heap c1 n \<noteq> None"
    using push_scope [OF assms(1,3) _ assms(5), of "Some n"] by auto
  define c1' where "c1' = c1\<lparr>cx_frames := cx_frames c\<rparr>"
  have cs: "current_state c1' = current_state c"
  proof -
    have "(cx_heap c1 m = None) = (cx_heap c m = None)" for m using p(5,6) assms(3) by (cases "m = n") auto
    then show ?thesis by (auto simp: current_state_def cx_current_def as_state_def c1'_def split: pyval.splits)
  qed
  have pop: "cx_pop c1 = (case current_state c of None \<Rightarrow> (Inr f, c1')
      | Some m \<Rightarrow> (case on_state m exit_scope c1' of (Inl x, c2) \<Rightarrow> (Inl x, c2) | (Inr _, c2) \<Rightarrow> (Inr f, c2)))"
    using p(2,3) assms(2) by (simp add: cx_pop_def Let_def c1'_def [symmetric] cs)
  show ?thesis
  proof (cases "current_state c")
    case None
    then show ?thesis using p pop by (simp add: c1'_def)
  next
    case (Some m)
    then have m: "m \<noteq> n" using assms(4) by simp
    show ?thesis
    proof (cases "stack_of m c = []")
      case True
      then have "exit_scope (the (cx_heap c1' m)) = (Inl (Exc ContextError ''Cannot exit state scope: stack is empty''), the (cx_heap c1' m))"
        using p(5) m by (simp add: exit_scope_def scope_exit_def c1'_def)
      then show ?thesis using p pop Some True m by (simp add: on_state_def c1'_def)
    next
      case False
      then obtain q x where q: "stack_of m c = q @ [x]" by (metis append_butlast_last_id)
      then have "exit_scope (the (cx_heap c1' m)) = (Inr x, st_notify (ScopeExit x q) ((the (cx_heap c1' m))\<lparr>st_stack := q\<rparr>))"
        using p(5) m by (intro exit_ok) (simp add: c1'_def)
      then show ?thesis using p pop Some q m by (simp add: on_state_def c1'_def)
    qed
  qed
qed

lemma pop_leaves_the_wrong_scope_witness:
  "\<exists>f c1. cx_push ''step'' (Some 1) True [] demo_context = (Inr f, c1) \<and> stack_of 1 (snd (cx_pop c1)) = stack_of 1 demo_context @ [''step'']"
proof -
  have "cx_heap demo_context 1 \<noteq> None"
    by (simp add: demo_context_def cx_initialize_def new_context_engine_def as_state_def Let_def)
  then show ?thesis using pop_leaves_the_wrong_scope [of "''step''" demo_context 1 "[]"] demo_state by auto
qed

end
