(* ===== verification/Structure.thy ===== *)
theory Structure
  imports PyValue
begin

text \<open>
  The structure engine (\<open>palm/core/structure\<close>): desired structure of a process, its status phase, the
  admission snapshot that clients read, the observations folded into it and the tick that
  reconciles. The bound \<open>ready\<close> hand is a function of the place and is stable during one
  operation; the world moving on is a rebinding. Fresh ids of intents are left out.
\<close>

subsection \<open>Definitions of structure\<close>

definition CAPABILITY_WORK_DRAIN :: string where "CAPABILITY_WORK_DRAIN = ''work_drain''"
definition CAPABILITY_OUTBOX :: string where "CAPABILITY_OUTBOX = ''outbox''"
definition CAPABILITY_JOURNAL :: string where "CAPABILITY_JOURNAL = ''journal''"
definition CAPABILITY_PROJECTIONS :: string where "CAPABILITY_PROJECTIONS = ''projections''"
definition CAPABILITY_COMPENSATION :: string where "CAPABILITY_COMPENSATION = ''compensation''"
definition CAPABILITY_WEBHOOK :: string where "CAPABILITY_WEBHOOK = ''webhook''"
definition CAPABILITY_ANALYTICS :: string where "CAPABILITY_ANALYTICS = ''analytics''"

definition DRAIN_AND_OUTBOX :: "string set" where "DRAIN_AND_OUTBOX = {CAPABILITY_WORK_DRAIN, CAPABILITY_OUTBOX}"
definition DRAIN_OUTBOX_ATTACH :: "string set" where
  "DRAIN_OUTBOX_ATTACH = DRAIN_AND_OUTBOX \<union> {CAPABILITY_JOURNAL} \<union> {CAPABILITY_PROJECTIONS}
     \<union> {CAPABILITY_COMPENSATION, CAPABILITY_WEBHOOK, CAPABILITY_ANALYTICS}"
definition ATTACH_NO_DRAIN :: "string set" where
  "ATTACH_NO_DRAIN = {CAPABILITY_JOURNAL, CAPABILITY_PROJECTIONS, CAPABILITY_COMPENSATION, CAPABILITY_WEBHOOK, CAPABILITY_ANALYTICS}"

record structure_definition =
  sd_id :: string
  sd_version :: string
  sd_role_intent :: string
  sd_refuse :: "string set"
  sd_capabilities :: "string set"
  sd_places :: "string list"
  sd_meta :: pydict

definition sd_has_capability :: "structure_definition \<Rightarrow> string \<Rightarrow> bool" where
  "sd_has_capability d nm = (nm \<in> sd_capabilities d)"

definition sorted_names :: "string set \<Rightarrow> pyval" where
  "sorted_names s = VList (map VStr (sorted_list_of_set s))"

definition sd_to_dict :: "structure_definition \<Rightarrow> pydict" where
  "sd_to_dict d = [(''id'', VStr (sd_id d)), (''version'', VStr (sd_version d)), (''role_intent'', VStr (sd_role_intent d)),
     (''refuse'', sorted_names (sd_refuse d)), (''capabilities'', sorted_names (sd_capabilities d)),
     (''places_required'', VList (map VStr (sd_places d))), (''meta'', VDict (sd_meta d))]"

definition sd_from_dict :: "(pyval \<Rightarrow> string) \<Rightarrow> pydict \<Rightarrow> structure_definition result" where
  "sd_from_dict r data =
     attempt (py_iter (py_or (py_get data ''refuse'') (VList []))) (\<lambda>refuse.
     attempt (py_iter (py_or (py_get data ''capabilities'') (VList []))) (\<lambda>caps.
     attempt (py_iter (py_or (py_get data ''places_required'') (VList []))) (\<lambda>places.
     attempt (py_dict (py_or (py_get data ''meta'') (VDict []))) (\<lambda>meta.
       Inr \<lparr>sd_id = py_str r (py_or (py_get data ''id'') (VStr [])), sd_version = py_str r (py_or (py_get data ''version'') (VStr ''1'')),
            sd_role_intent = py_str r (py_or (py_get data ''role_intent'') (VStr ''embedded'')),
            sd_refuse = set (map (py_str r) refuse), sd_capabilities = set (map (py_str r) caps),
            sd_places = map (py_str r) places, sd_meta = meta\<rparr>))))"

definition builtin_meta :: "bool \<Rightarrow> string \<Rightarrow> pydict" where
  "builtin_meta b src = [(''builtin'', VBool b), (''source'', VStr src)]"

definition local_embedded :: "string \<Rightarrow> structure_definition" where
  "local_embedded v = \<lparr>sd_id = ''local.embedded'', sd_version = v, sd_role_intent = ''embedded'', sd_refuse = {''server_surfaces''},
     sd_capabilities = {}, sd_places = [], sd_meta = builtin_meta True ''floor''\<rparr>"

definition local_cli :: "string \<Rightarrow> structure_definition" where
  "local_cli v = \<lparr>sd_id = ''local.cli'', sd_version = v, sd_role_intent = ''cli'', sd_refuse = {''server_surfaces''},
     sd_capabilities = DRAIN_OUTBOX_ATTACH, sd_places = [], sd_meta = builtin_meta True ''seed''\<rparr>"

definition local_server :: "string \<Rightarrow> structure_definition" where
  "local_server v = \<lparr>sd_id = ''local.server'', sd_version = v, sd_role_intent = ''server'', sd_refuse = {},
     sd_capabilities = DRAIN_OUTBOX_ATTACH, sd_places = [], sd_meta = builtin_meta True ''seed''\<rparr>"

definition local_all_in_one :: "string \<Rightarrow> structure_definition" where
  "local_all_in_one v = \<lparr>sd_id = ''local.all_in_one'', sd_version = v, sd_role_intent = ''all_in_one'', sd_refuse = {},
     sd_capabilities = DRAIN_OUTBOX_ATTACH, sd_places = [], sd_meta = builtin_meta True ''seed''\<rparr>"

definition local_worker :: "string \<Rightarrow> structure_definition" where
  "local_worker v = \<lparr>sd_id = ''local.worker'', sd_version = v, sd_role_intent = ''worker'',
     sd_refuse = {''server_surfaces'', ''product_catalog_home''},
     sd_capabilities = DRAIN_AND_OUTBOX, sd_places = [], sd_meta = builtin_meta True ''seed''\<rparr>"

definition local_mcp :: "string \<Rightarrow> structure_definition" where
  "local_mcp v = \<lparr>sd_id = ''local.mcp'', sd_version = v, sd_role_intent = ''mcp'', sd_refuse = {''http_server_surfaces''},
     sd_capabilities = ATTACH_NO_DRAIN, sd_places = [], sd_meta = builtin_meta True ''seed''\<rparr>"

definition builtin_factories :: "(string, string \<Rightarrow> structure_definition) dict" where
  "builtin_factories = [(''local.embedded'', local_embedded), (''embedded'', local_embedded), (''local.cli'', local_cli), (''cli'', local_cli),
     (''local.server'', local_server), (''server'', local_server), (''local.all_in_one'', local_all_in_one),
     (''all_in_one'', local_all_in_one), (''local.worker'', local_worker), (''worker'', local_worker), (''local.mcp'', local_mcp),
     (''mcp'', local_mcp)]"

definition resolve_builtin_definition :: "string \<Rightarrow> string \<Rightarrow> structure_definition" where
  "resolve_builtin_definition definition_id v =
     (let key = py_strip definition_id in
      case dict_get builtin_factories key of
        Some f \<Rightarrow> f v
      | None \<Rightarrow> \<lparr>sd_id = (if key = [] then ''local.unknown'' else key), sd_version = v, sd_role_intent = ''unknown'', sd_refuse = {},
          sd_capabilities = {}, sd_places = [], sd_meta = builtin_meta False ''explicit''\<rparr>)"

text \<open>The refusals of a definition against the declared surfaces.\<close>

definition refuse_violations :: "structure_definition \<Rightarrow> string list \<Rightarrow> string list" where
  "refuse_violations d surfaces =
     (let surfs = set (filter (\<lambda>s. s \<noteq> []) surfaces) in
      (if ''server_surfaces'' \<in> sd_refuse d \<and> surfs \<noteq> {} then [''refuse:server_surfaces''] else [])
      @ (if ''http_server_surfaces'' \<in> sd_refuse d \<and> surfs - {''mcp''} \<noteq> {} then [''refuse:http_server_surfaces''] else []))"

subsection \<open>Status and admission\<close>

datatype phase = P_EMPTY | P_RECEIVED | P_ASSEMBLING | P_READY | P_BLOCKED | P_INVALIDATED

fun phase_value :: "phase \<Rightarrow> string" where
  "phase_value P_EMPTY = ''empty''" | "phase_value P_RECEIVED = ''received''" | "phase_value P_ASSEMBLING = ''assembling''"
| "phase_value P_READY = ''ready''" | "phase_value P_BLOCKED = ''blocked''" | "phase_value P_INVALIDATED = ''invalidated''"

record admission_snapshot =
  ad_may :: bool
  ad_phase :: phase
  ad_id :: "string option"
  ad_version :: "string option"
  ad_reasons :: "string list"
  ad_capabilities :: "string set"

definition ad_has_capability :: "admission_snapshot \<Rightarrow> string \<Rightarrow> bool" where
  "ad_has_capability a nm = (nm \<in> ad_capabilities a)"

definition ad_to_dict :: "admission_snapshot \<Rightarrow> pydict" where
  "ad_to_dict a = [(''may_run_business'', VBool (ad_may a)), (''phase'', VStr (phase_value (ad_phase a))),
     (''definition_id'', opt_str_val (ad_id a)), (''definition_version'', opt_str_val (ad_version a)),
     (''reasons'', VList (map VStr (ad_reasons a))), (''capabilities'', sorted_names (ad_capabilities a))]"

record structure_status =
  ss_phase :: phase
  ss_id :: "string option"
  ss_version :: "string option"
  ss_ready :: "string set"
  ss_missing :: "string list"
  ss_block :: "string list"
  ss_truth_up :: bool

definition admission_reasons :: "structure_status \<Rightarrow> string list" where
  "admission_reasons s = (case ss_phase s of
     P_EMPTY \<Rightarrow> [''no_definition'']
   | P_RECEIVED \<Rightarrow> [''definition_not_assembled'']
   | P_ASSEMBLING \<Rightarrow> ''assembling'' # map (\<lambda>p. ''place_missing:'' @ p) (ss_missing s)
   | P_BLOCKED \<Rightarrow> (if ss_block s = [] then [''blocked''] else ss_block s)
   | P_INVALIDATED \<Rightarrow> [''invalidated'']
   | P_READY \<Rightarrow> (if ss_truth_up s then [] else [''truth_home_down'']) @ ss_block s)"

definition admission_of :: "structure_status \<Rightarrow> admission_snapshot" where
  "admission_of s =
     (let reasons = admission_reasons s; may = (ss_phase s = P_READY \<and> reasons = [] \<and> ss_truth_up s)
      in \<lparr>ad_may = may, ad_phase = ss_phase s, ad_id = ss_id s, ad_version = ss_version s,
          ad_reasons = (if may then [] else if reasons = [] then [''not_ready''] else reasons), ad_capabilities = {}\<rparr>)"

subsection \<open>The engine\<close>

record structure_engine =
  se_definition :: "structure_definition option"
  se_phase :: phase
  se_hand :: "(string \<Rightarrow> bool) option"
  se_block :: "string list"
  se_truth_up :: bool
  se_pending :: "string set"

definition new_structure_engine :: structure_engine where
  "new_structure_engine = \<lparr>se_definition = None, se_phase = P_EMPTY, se_hand = None, se_block = [], se_truth_up = True, se_pending = {}\<rparr>"

definition se_shutdown :: "structure_engine \<Rightarrow> structure_engine" where
  "se_shutdown e = e\<lparr>se_definition := None, se_phase := P_EMPTY, se_block := [], se_truth_up := True, se_pending := {}\<rparr>"

definition is_place_ready :: "structure_engine \<Rightarrow> string \<Rightarrow> bool" where
  "is_place_ready e p = (case se_hand e of None \<Rightarrow> False | Some f \<Rightarrow> f p)"

definition places_ready_view :: "structure_engine \<Rightarrow> string set" where
  "places_ready_view e = (case se_definition e of None \<Rightarrow> {} | Some d \<Rightarrow> set (filter (is_place_ready e) (sd_places d)))"

definition missing_places :: "structure_engine \<Rightarrow> string list" where
  "missing_places e = (case se_definition e of None \<Rightarrow> [] | Some d \<Rightarrow> filter (\<lambda>p. \<not> is_place_ready e p) (sd_places d))"

definition se_status :: "structure_engine \<Rightarrow> structure_status" where
  "se_status e = \<lparr>ss_phase = se_phase e, ss_id = map_option sd_id (se_definition e), ss_version = map_option sd_version (se_definition e),
     ss_ready = places_ready_view e, ss_missing = missing_places e, ss_block = se_block e, ss_truth_up = se_truth_up e\<rparr>"

definition se_admission :: "structure_engine \<Rightarrow> admission_snapshot" where
  "se_admission e = admission_of (se_status e)"

definition receive_definition :: "structure_definition \<Rightarrow> bool \<Rightarrow> structure_engine \<Rightarrow> admission_snapshot result \<times> structure_engine" where
  "receive_definition d force e =
     (if sd_id d = [] then (Inl (Exc StructureEngineError ''structure definition id must be non-empty''), e)
      else if \<not> force \<and> (case se_definition e of None \<Rightarrow> False | Some c \<Rightarrow> sd_id c = sd_id d \<and> sd_version c = sd_version d) \<and> se_phase e = P_READY
      then (Inr (se_admission e), e)
      else let e1 = e\<lparr>se_definition := Some d, se_block := [], se_truth_up := True, se_pending := {},
                      se_phase := (if se_phase e = P_READY then P_INVALIDATED else P_RECEIVED)\<rparr>
           in (Inr (se_admission e1), e1))"

definition invalidate :: "structure_engine \<Rightarrow> structure_engine" where
  "invalidate e = (if se_definition e = None then e\<lparr>se_phase := P_EMPTY\<rparr>
     else if se_phase e \<noteq> P_EMPTY then e\<lparr>se_phase := P_INVALIDATED\<rparr> else e)"

definition bind_place_ready :: "(string \<Rightarrow> bool) option \<Rightarrow> structure_engine \<Rightarrow> structure_engine" where
  "bind_place_ready h e = e\<lparr>se_hand := h\<rparr>"

datatype observation_kind =
    PLACE_READY | PLACE_FAILED | PLACE_GONE | TRUTH_HOME_UP | TRUTH_HOME_DOWN | PROJECTION_LOADED | PROJECTION_FAILED
  | STRUCTURE_SEED_FINISHED | STRUCTURE_SEED_FAILED | SEAT_BOUND | STRUCTURE_POLICY_VIOLATION | STRUCTURE_POLICY_CLEARED

definition add_reason :: "string \<Rightarrow> structure_engine \<Rightarrow> structure_engine" where
  "add_reason x e = (if x \<in> set (se_block e) then e else e\<lparr>se_block := se_block e @ [x]\<rparr>)"

definition drop_reasons :: "(string \<Rightarrow> bool) \<Rightarrow> structure_engine \<Rightarrow> structure_engine" where
  "drop_reasons p e = e\<lparr>se_block := filter (\<lambda>x. \<not> p x) (se_block e)\<rparr>"

definition leave_ready :: "phase \<Rightarrow> structure_engine \<Rightarrow> structure_engine" where
  "leave_ready ph e = (if se_phase e = P_READY then e\<lparr>se_phase := ph\<rparr> else e)"

fun apply_observation :: "observation_kind \<Rightarrow> string \<Rightarrow> structure_engine \<Rightarrow> structure_engine" where
  "apply_observation PLACE_READY t e =
     drop_reasons (\<lambda>x. x = ''place_failed:'' @ t) (if t \<noteq> [] then e\<lparr>se_pending := se_pending e - {t}\<rparr> else e)"
| "apply_observation PLACE_FAILED t e =
     (if t \<noteq> [] then (add_reason (''place_failed:'' @ t) e)\<lparr>se_phase := P_BLOCKED\<rparr> else e)"
| "apply_observation PLACE_GONE t e = (if t \<noteq> [] then leave_ready P_INVALIDATED e else e)"
| "apply_observation TRUTH_HOME_UP t e = drop_reasons (\<lambda>x. x = ''truth_home_down'') (e\<lparr>se_truth_up := True\<rparr>)"
| "apply_observation TRUTH_HOME_DOWN t e = leave_ready P_BLOCKED (add_reason ''truth_home_down'' (e\<lparr>se_truth_up := False\<rparr>))"
| "apply_observation PROJECTION_FAILED t e =
     leave_ready P_BLOCKED (add_reason (''projection_failed:'' @ (if t = [] then ''default'' else t)) e)"
| "apply_observation PROJECTION_LOADED t e =
     drop_reasons (\<lambda>x. x = ''projection_failed:'' @ (if t = [] then ''default'' else t)) e"
| "apply_observation STRUCTURE_SEED_FAILED t e = (add_reason ''structure_seed_failed'' e)\<lparr>se_phase := P_BLOCKED\<rparr>"
| "apply_observation STRUCTURE_SEED_FINISHED t e = drop_reasons (\<lambda>x. x = ''structure_seed_failed'') e"
| "apply_observation STRUCTURE_POLICY_VIOLATION t e =
     (add_reason (if t = [] then ''refuse:policy'' else t) e)\<lparr>se_phase := P_BLOCKED\<rparr>"
| "apply_observation STRUCTURE_POLICY_CLEARED t e =
     drop_reasons (\<lambda>x. if t \<noteq> [] then x = t else take 7 x = ''refuse:'') e"
| "apply_observation SEAT_BOUND t e = e"

definition observe :: "observation_kind \<Rightarrow> string \<Rightarrow> structure_engine \<Rightarrow> admission_snapshot \<times> structure_engine" where
  "observe k t e = (let e1 = apply_observation k t e in (se_admission e1, e1))"

text \<open>The result of a tick: the places to ensure stand for the intents, the only kind a tick emits.\<close>

record assemble_result =
  ar_status :: structure_status
  ar_admission :: admission_snapshot
  ar_intents :: "string list"
  ar_changed :: bool
  ar_notes :: "string list"

text \<open>The loop over the missing places; a place named twice is requested once.\<close>

fun ensure_loop :: "string list \<Rightarrow> string set \<Rightarrow> string list \<times> string set" where
  "ensure_loop [] pending = ([], pending)"
| "ensure_loop (p # ps) pending = (if p \<in> pending then ensure_loop ps pending
     else case ensure_loop ps (insert p pending) of (is, pending') \<Rightarrow> (p # is, pending'))"

definition tick_answer :: "structure_engine \<Rightarrow> structure_engine \<Rightarrow> string list \<Rightarrow> bool \<Rightarrow> string list \<Rightarrow> assemble_result" where
  "tick_answer before e intents changed notes =
     \<lparr>ar_status = se_status e, ar_admission = se_admission e, ar_intents = intents, ar_changed = changed, ar_notes = notes\<rparr>"

definition moved :: "structure_engine \<Rightarrow> structure_engine \<Rightarrow> bool" where
  "moved before e = (se_phase before \<noteq> se_phase e \<or> ad_may (se_admission before) \<noteq> ad_may (se_admission e))"

definition se_tick :: "structure_engine \<Rightarrow> assemble_result \<times> structure_engine" where
  "se_tick e =
     (if se_definition e = None then (tick_answer e e [] False [''no_definition''], e)
      else if \<not> se_truth_up e
      then let e1 = add_reason ''truth_home_down'' (e\<lparr>se_phase := P_BLOCKED\<rparr>)
           in (tick_answer e e1 [] (moved e e1) [''blocked_truth_home''], e1)
      else
        let e1 = drop_reasons (\<lambda>x. x = ''truth_home_down'') e in
        if se_phase e1 = P_BLOCKED \<and> se_block e1 \<noteq> [] then (tick_answer e e1 [] False [''still_blocked''], e1)
        else
          let enter = se_phase e1 \<in> {P_RECEIVED, P_INVALIDATED, P_BLOCKED};
              missing = missing_places e1;
              (intents, pending) = ensure_loop missing (se_pending e1);
              e2 = (if missing \<noteq> [] then e1\<lparr>se_phase := P_ASSEMBLING, se_pending := pending\<rparr>
                    else e1\<lparr>se_phase := P_READY, se_pending := {}\<rparr>)
          in (tick_answer e e2 intents (moved e e2 \<or> intents \<noteq> [])
                ((if enter then [''enter_assembling''] else []) @ map (\<lambda>p. ''ensure_place:'' @ p) intents
                 @ (if missing \<noteq> [] then [] else [''definition_ready''])), e2))"

subsection \<open>Properties\<close>

datatype se_op =
    SReceive structure_definition bool
  | SInvalidate
  | SObserve observation_kind string
  | SBind "(string \<Rightarrow> bool) option"
  | STick
  | SShutdown

fun se_step :: "se_op \<Rightarrow> structure_engine \<Rightarrow> structure_engine" where
  "se_step (SReceive d force) e = snd (receive_definition d force e)"
| "se_step SInvalidate e = invalidate e"
| "se_step (SObserve k t) e = snd (observe k t e)"
| "se_step (SBind h) e = bind_place_ready h e"
| "se_step STick e = snd (se_tick e)"
| "se_step SShutdown e = se_shutdown e"

definition se_wf :: "structure_engine \<Rightarrow> bool" where
  "se_wf e \<longleftrightarrow> (se_phase e = P_READY \<longrightarrow> se_definition e \<noteq> None \<and> se_truth_up e) \<and> distinct (se_block e)
     \<and> se_pending e \<subseteq> (case se_definition e of None \<Rightarrow> {} | Some d \<Rightarrow> set (sd_places d))"

lemma reason_frame [simp]:
  "se_definition (add_reason x e) = se_definition e" "se_phase (add_reason x e) = se_phase e" "se_truth_up (add_reason x e) = se_truth_up e"
  "se_pending (add_reason x e) = se_pending e" "se_hand (add_reason x e) = se_hand e" "distinct (se_block (add_reason x e)) = distinct (se_block e)"
  "se_definition (drop_reasons p e) = se_definition e" "se_phase (drop_reasons p e) = se_phase e"
  "se_truth_up (drop_reasons p e) = se_truth_up e" "se_pending (drop_reasons p e) = se_pending e" "se_hand (drop_reasons p e) = se_hand e"
  "se_block (drop_reasons p e) = filter (\<lambda>x. \<not> p x) (se_block e)"
  "se_definition (leave_ready ph e) = se_definition e" "se_truth_up (leave_ready ph e) = se_truth_up e" "se_block (leave_ready ph e) = se_block e"
  "se_pending (leave_ready ph e) = se_pending e" "se_phase (leave_ready ph e) = (if se_phase e = P_READY then ph else se_phase e)"
  by (simp_all add: add_reason_def drop_reasons_def leave_ready_def)

lemma observation_wf: "se_wf e \<Longrightarrow> se_wf (apply_observation k t e)"
  by (cases k) (auto simp: se_wf_def split: option.splits)

lemma observation_not_ready: "se_phase (apply_observation k t e) = P_READY \<Longrightarrow> se_phase e = P_READY"
  by (cases k) (auto split: if_splits)

lemma ensure_loop_set: "ensure_loop ps pending = (is, pending') \<Longrightarrow>
    distinct is \<and> set is = set ps - pending \<and> pending' = pending \<union> set ps"
  by (induction ps arbitrary: pending "is" pending') (auto split: if_splits prod.splits)

lemma missing_frame: "se_definition e' = se_definition e \<Longrightarrow> se_hand e' = se_hand e \<Longrightarrow> missing_places e' = missing_places e"
  by (simp add: missing_places_def is_place_ready_def split: option.splits)

lemma missing_subset: "se_definition e = Some d \<Longrightarrow> set (missing_places e) \<subseteq> set (sd_places d)"
  by (auto simp: missing_places_def)

text \<open>A tick past the gates: no definition, the truth home down, still blocked.\<close>

lemma tick_through:
  assumes "se_definition e = Some d" and "se_truth_up e" and "\<not> (se_phase e = P_BLOCKED \<and> \<not> set (se_block e) \<subseteq> {''truth_home_down''})"
    and "ensure_loop (missing_places e) (se_pending e) = (is, pending)"
  shows "\<exists>notes. se_tick e = (let e1 = drop_reasons (\<lambda>x. x = ''truth_home_down'') e;
      e2 = (if missing_places e \<noteq> [] then e1\<lparr>se_phase := P_ASSEMBLING, se_pending := pending\<rparr>
            else e1\<lparr>se_phase := P_READY, se_pending := {}\<rparr>)
    in (tick_answer e e2 is (moved e e2 \<or> is \<noteq> []) notes, e2))"
proof -
  have "(filter (\<lambda>x. x \<noteq> ''truth_home_down'') (se_block e) = []) = (set (se_block e) \<subseteq> {''truth_home_down''})"
    by (auto simp: filter_empty_conv)
  moreover have "missing_places (drop_reasons (\<lambda>x. x = ''truth_home_down'') e) = missing_places e"
    by (rule missing_frame) simp_all
  ultimately show ?thesis using assms by (auto simp: se_tick_def Let_def)
qed

lemma se_tick_cases:
  obtains (none) "se_definition e = None" "snd (se_tick e) = e"
  | (down) "se_definition e \<noteq> None" "\<not> se_truth_up e" "snd (se_tick e) = add_reason ''truth_home_down'' (e\<lparr>se_phase := P_BLOCKED\<rparr>)"
  | (blocked) "se_phase e = P_BLOCKED" "snd (se_tick e) = drop_reasons (\<lambda>x. x = ''truth_home_down'') e"
  | (missing) d "is" pending where "se_definition e = Some d" "se_truth_up e" "missing_places e \<noteq> []"
      "ensure_loop (missing_places e) (se_pending e) = (is, pending)"
      "snd (se_tick e) = (drop_reasons (\<lambda>x. x = ''truth_home_down'') e)\<lparr>se_phase := P_ASSEMBLING, se_pending := pending\<rparr>"
  | (ready) d where "se_definition e = Some d" "se_truth_up e" "missing_places e = []"
      "snd (se_tick e) = (drop_reasons (\<lambda>x. x = ''truth_home_down'') e)\<lparr>se_phase := P_READY, se_pending := {}\<rparr>"
proof (cases "se_definition e")
  case None
  then show thesis using none by (simp add: se_tick_def)
next
  case (Some d)
  obtain "is" pending where el: "ensure_loop (missing_places e) (se_pending e) = (is, pending)" by fastforce
  consider "\<not> se_truth_up e" | "se_truth_up e" "se_phase e = P_BLOCKED \<and> \<not> set (se_block e) \<subseteq> {''truth_home_down''}"
    | "se_truth_up e" "\<not> (se_phase e = P_BLOCKED \<and> \<not> set (se_block e) \<subseteq> {''truth_home_down''})" by blast
  then show thesis
  proof cases
    case 1
    then show thesis using Some down by (simp add: se_tick_def Let_def)
  next
    case 2
    then have "filter (\<lambda>x. x \<noteq> ''truth_home_down'') (se_block e) \<noteq> []" by (auto simp: filter_empty_conv)
    then show thesis using 2 Some blocked by (simp add: se_tick_def Let_def)
  next
    case 3
    from tick_through [OF Some this el] missing [OF Some 3(1) _ el] ready [OF Some 3(1)] show thesis
      by (cases "missing_places e = []") (auto simp: Let_def)
  qed
qed

lemma se_step_wf:
  assumes wf: "se_wf e"
  shows "se_wf (se_step c e)"
proof (cases c)
  case STick
  have "se_wf (snd (se_tick e))"
  proof (cases rule: se_tick_cases [of e])
    case (missing d "is" pending)
    have "pending = se_pending e \<union> set (missing_places e)" using ensure_loop_set [OF missing(4)] by blast
    then show ?thesis using wf missing(1,5) missing_subset [OF missing(1)] by (auto simp: se_wf_def)
  qed (use wf in \<open>auto simp: se_wf_def\<close>)
  then show ?thesis using STick by simp
next
  case (SObserve k t)
  then show ?thesis using observation_wf [OF wf, of k t] by (simp add: observe_def Let_def)
qed (use wf in \<open>auto simp: se_wf_def receive_definition_def invalidate_def bind_place_ready_def se_shutdown_def Let_def split: option.splits\<close>)

lemma se_step_ready:
  assumes "se_wf e" "se_phase e \<noteq> P_READY" "se_phase (se_step c e) = P_READY"
  shows "c = STick \<and> se_definition e \<noteq> None \<and> se_truth_up e \<and> missing_places e = []"
proof (cases c)
  case STick
  with assms show ?thesis by (cases rule: se_tick_cases [of e]) auto
next
  case (SObserve k t)
  with assms(2,3) show ?thesis using observation_not_ready [of k t e] by (simp add: observe_def Let_def)
qed (use assms(2,3) in \<open>auto simp: receive_definition_def invalidate_def bind_place_ready_def se_shutdown_def Let_def split: if_splits\<close>)

lemma may_iff: "se_wf e \<Longrightarrow> ad_may (se_admission e) \<longleftrightarrow> se_phase e = P_READY \<and> se_block e = []"
  by (auto simp: se_admission_def admission_of_def admission_reasons_def se_status_def se_wf_def Let_def)

lemma se_step_stays: "se_phase e = P_READY \<Longrightarrow> se_phase (se_step c e) = P_READY \<Longrightarrow> se_definition (se_step c e) = se_definition e"
proof (cases c)
  case STick
  then show ?thesis by (cases rule: se_tick_cases [of e]) auto
next
  case (SObserve k t)
  then show ?thesis by (cases k) (auto simp: observe_def Let_def)
qed (auto simp: receive_definition_def invalidate_def bind_place_ready_def se_shutdown_def Let_def split: if_splits)

lemma se_tick_definition: "se_definition (se_step STick e) = se_definition e"
  by (cases rule: se_tick_cases [of e]) auto

lemma all_ready: "se_definition e = Some d \<Longrightarrow> missing_places e = [] \<longleftrightarrow> (\<forall>p \<in> set (sd_places d). is_place_ready e p)"
  by (simp add: missing_places_def filter_empty_conv)

lemma se_run_wf: "se_wf (fold se_step cs new_structure_engine)"
proof (induction cs rule: rev_induct)
  case Nil
  then show ?case by (simp add: se_wf_def new_structure_engine_def)
qed (simp add: se_step_wf)

text \<open>The tick that made the structure READY: it found every place of today's definition ready.\<close>

lemma ready_since:
  assumes "se_phase (fold se_step cs new_structure_engine) = P_READY"
  shows "\<exists>cs1 cs2 d. cs = cs1 @ STick # cs2 \<and> se_definition (fold se_step cs1 new_structure_engine) = Some d
    \<and> (\<forall>p \<in> set (sd_places d). is_place_ready (fold se_step cs1 new_structure_engine) p)
    \<and> se_definition (fold se_step cs new_structure_engine) = Some d"
  using assms
proof (induction cs rule: rev_induct)
  case Nil
  then show ?case by (simp add: new_structure_engine_def)
next
  case (snoc c cs)
  let ?e = "fold se_step cs new_structure_engine"
  have now: "se_phase (se_step c ?e) = P_READY" using snoc.prems by simp
  show ?case
  proof (cases "se_phase ?e = P_READY")
    case True
    from snoc.IH [OF True] obtain cs1 cs2 d where
      h: "cs = cs1 @ STick # cs2" "se_definition (fold se_step cs1 new_structure_engine) = Some d"
      "\<forall>p \<in> set (sd_places d). is_place_ready (fold se_step cs1 new_structure_engine) p" "se_definition ?e = Some d" by blast
    have "se_definition (se_step c ?e) = Some d" using se_step_stays [OF True now] h(4) by simp
    then show ?thesis using h(1-3) by (intro exI [of _ cs1] exI [of _ "cs2 @ [c]"] exI [of _ d]) simp
  next
    case False
    have c: "c = STick" and m: "missing_places ?e = []" and "se_definition ?e \<noteq> None"
      using se_step_ready [OF se_run_wf False now] by blast+
    then obtain d where d: "se_definition ?e = Some d" by blast
    then have "\<forall>p \<in> set (sd_places d). is_place_ready ?e p" using all_ready m by blast
    then show ?thesis using c d se_tick_definition [of ?e]
      by (intro exI [of _ cs] exI [of _ "[]"] exI [of _ d]) (simp add: d)
  qed
qed

text \<open>
  C40. Admission, after any operations from an empty engine. Business may run exactly when the phase
  is READY and no reason blocks; then the truth home is up, and an earlier tick found every place
  that the present definition requires answered ready by the hand bound at that moment. Only two
  kinds of operation turn the answer from no to yes: a tick that finds every required place ready,
  or an observation that takes away the last blocking reason while the phase is READY already. The
  second asks no hand again: the readiness is that of the tick which made the phase READY
  (\<open>observation_admits_unready_place\<close> shows a place that has gone since).
\<close>

theorem structure_fails_closed:
  assumes "e = fold se_step cs new_structure_engine"
  shows "(ad_may (se_admission e) \<longleftrightarrow> se_phase e = P_READY \<and> se_block e = [])
    \<and> (ad_may (se_admission e) \<longrightarrow> se_truth_up e \<and>
         (\<exists>cs1 cs2 d. cs = cs1 @ STick # cs2 \<and> se_definition (fold se_step cs1 new_structure_engine) = Some d
            \<and> (\<forall>p \<in> set (sd_places d). is_place_ready (fold se_step cs1 new_structure_engine) p) \<and> se_definition e = Some d))
    \<and> (\<not> ad_may (se_admission e) \<and> ad_may (se_admission (se_step c e)) \<longrightarrow>
         c = STick \<and> (\<exists>d. se_definition e = Some d \<and> (\<forall>p \<in> set (sd_places d). is_place_ready e p))
         \<or> (\<exists>k t. c = SObserve k t \<and> se_phase e = P_READY \<and> se_block e \<noteq> [] \<and> se_block (se_step c e) = []))"
proof -
  have wf: "se_wf e" using se_run_wf assms by simp
  note may = may_iff [OF wf] and may' = may_iff [OF se_step_wf [OF wf, of c]]
  have entered: "c = STick \<and> (\<exists>d. se_definition e = Some d \<and> (\<forall>p \<in> set (sd_places d). is_place_ready e p))
         \<or> (\<exists>k t. c = SObserve k t \<and> se_phase e = P_READY \<and> se_block e \<noteq> [] \<and> se_block (se_step c e) = [])"
    if no: "\<not> ad_may (se_admission e)" and yes: "ad_may (se_admission (se_step c e))"
  proof (cases "se_phase e = P_READY")
    case False
    then show ?thesis using se_step_ready [OF wf False] yes may' all_ready by blast
  next
    case True
    then have block: "se_block e \<noteq> []" "se_block (se_step c e) = []" "se_phase (se_step c e) = P_READY"
      using no yes may may' by blast+
    show ?thesis
    proof (cases c)
      case STick
      then show ?thesis using True block wf all_ready by (cases rule: se_tick_cases [of e]) (auto simp: se_wf_def)
    qed (use True block in \<open>auto simp: receive_definition_def invalidate_def bind_place_ready_def se_shutdown_def Let_def split: if_splits\<close>)
  qed
  moreover have "se_truth_up e" if "ad_may (se_admission e)" using that may wf by (auto simp: se_wf_def)
  ultimately show ?thesis using may ready_since [of cs] assms by blast
qed

lemma structure_fails_closed_witness:
  "se_truth_up (fold se_step [SReceive (local_embedded ''1'') False, STick] new_structure_engine)"
proof -
  let ?e = "fold se_step [SReceive (local_embedded ''1'') False, STick] new_structure_engine"
  have "se_phase ?e = P_READY \<and> se_block ?e = []" by code_simp
  then show ?thesis using structure_fails_closed [OF refl, of "[SReceive (local_embedded ''1'') False, STick]"] by blast
qed

text \<open>
  An observation can admit business while a required place is not ready. A projection that fails
  during assembly leaves a reason that does not keep the tick from reaching READY; when the hand
  withdraws the place and the projection is loaded after all, the admission turns to yes with no tick
  in between and with the place reported missing.
\<close>

theorem observation_admits_unready_place:
  "let e = fold se_step [SReceive ((local_cli ''1'')\<lparr>sd_places := [''outbox'']\<rparr>) False, SObserve PROJECTION_FAILED [],
        SBind (Some (\<lambda>_. True)), STick, SBind (Some (\<lambda>_. False))] new_structure_engine
   in \<not> ad_may (se_admission e) \<and> ad_may (se_admission (se_step (SObserve PROJECTION_LOADED []) e))
     \<and> missing_places (se_step (SObserve PROJECTION_LOADED []) e) = [''outbox'']"
  by code_simp

text \<open>
  Ticks settle: without blocking reasons and with the truth home up, one tick decides. When the
  hand answers ready for every required place, business may run after it and a further tick changes
  nothing and requests nothing; otherwise it does not, each missing place that was not requested
  before is requested exactly once by this tick, and none of them again by the next.
\<close>

theorem tick_settles:
  assumes "se_wf e" and "se_definition e = Some d" and "se_truth_up e" and "set (se_block e) \<subseteq> {''truth_home_down''}"
    and "se_tick e = (r, e1)" and "se_tick e1 = (r2, e2)"
  shows "e2 = e1 \<and> ar_intents r2 = [] \<and> \<not> ar_changed r2
    \<and> (if \<forall>p \<in> set (sd_places d). is_place_ready e p then ad_may (se_admission e1) \<and> ar_intents r = []
       else \<not> ad_may (se_admission e1) \<and> distinct (ar_intents r)
         \<and> set (ar_intents r) = {p \<in> set (sd_places d). \<not> is_place_ready e p} - se_pending e)"
proof -
  have block: "filter (\<lambda>x. x \<noteq> ''truth_home_down'') (se_block e) = []" using assms(4) by (auto simp: filter_empty_conv)
  have gate: "\<not> (se_phase e' = P_BLOCKED \<and> \<not> set (se_block e') \<subseteq> {''truth_home_down''})" if "set (se_block e') \<subseteq> {''truth_home_down''}" for e'
    using that by blast
  obtain ns pending where el: "ensure_loop (missing_places e) (se_pending e) = (ns, pending)" by fastforce
  have ns: "distinct ns" "set ns = set (missing_places e) - se_pending e" "set (missing_places e) \<subseteq> pending"
    using ensure_loop_set [OF el] by auto
  have first: "e1 = (drop_reasons (\<lambda>x. x = ''truth_home_down'') e)
      \<lparr>se_phase := if missing_places e \<noteq> [] then P_ASSEMBLING else P_READY, se_pending := if missing_places e \<noteq> [] then pending else {}\<rparr>"
    "ar_intents r = ns"
    using tick_through [OF assms(2,3) gate [OF assms(4)] el] assms(5) by (auto simp: Let_def tick_answer_def)
  then have e1: "se_definition e1 = Some d" "se_truth_up e1" "se_block e1 = []"
    using assms(2,3) block by simp_all
  have same_missing: "missing_places e1 = missing_places e" by (rule missing_frame) (simp_all add: first(1))
  have again: "ensure_loop (missing_places e) pend = ([], pend)" if "set (missing_places e) \<subseteq> pend" for pend
  proof -
    obtain ns' pend' where el': "ensure_loop (missing_places e) pend = (ns', pend')" by fastforce
    show ?thesis using ensure_loop_set [OF el'] el' that by (simp add: Un_absorb2 Diff_eq_empty_iff [THEN iffD2])
  qed
  have el1: "ensure_loop (missing_places e1) (se_pending e1) = ([], se_pending e1)"
    using first(1) same_missing ns(3) again by auto
  have fields: "se_phase e1 = (if missing_places e1 \<noteq> [] then P_ASSEMBLING else P_READY)" "missing_places e1 = [] \<longrightarrow> se_pending e1 = {}"
    unfolding same_missing by (simp_all add: first(1))
  have still: "(if missing_places e1 \<noteq> [] then (drop_reasons (\<lambda>x. x = ''truth_home_down'') e1)\<lparr>se_phase := P_ASSEMBLING, se_pending := se_pending e1\<rparr>
      else (drop_reasons (\<lambda>x. x = ''truth_home_down'') e1)\<lparr>se_phase := P_READY, se_pending := {}\<rparr>) = e1"
    using fields e1(3) by (cases e1) (auto simp: drop_reasons_def)
  have same: "e2 = e1 \<and> ar_intents r2 = [] \<and> \<not> ar_changed r2"
    using tick_through [OF e1(1,2) gate el1] assms(6) e1(3) unfolding Let_def still by (auto simp: tick_answer_def moved_def)
  have "se_wf e1" using se_step_wf [OF assms(1), of STick] assms(5) by simp
  then have may: "ad_may (se_admission e1) \<longleftrightarrow> missing_places e = []" using may_iff e1(3) first(1) by simp
  have missing: "set (missing_places e) = {p \<in> set (sd_places d). \<not> is_place_ready e p}" using assms(2) by (simp add: missing_places_def)
  then have "missing_places e = [] \<longleftrightarrow> (\<forall>p \<in> set (sd_places d). is_place_ready e p)"
    using assms(2) by (simp add: missing_places_def filter_empty_conv)
  moreover have "ns = []" if "missing_places e = []" using ns(2) that by simp
  ultimately show ?thesis using same may first(2) ns(1,2) missing by auto
qed

lemma tick_settles_witness:
  "\<exists>r e1. se_tick (snd (receive_definition (local_cli ''1''\<lparr>sd_places := [''outbox'']\<rparr>) False new_structure_engine)) = (r, e1)
     \<and> \<not> ad_may (se_admission e1)"
proof -
  let ?e = "snd (receive_definition (local_cli ''1''\<lparr>sd_places := [''outbox'']\<rparr>) False new_structure_engine)"
  obtain r e1 r2 e2 where t: "se_tick ?e = (r, e1)" "se_tick e1 = (r2, e2)" by fastforce
  have "se_definition ?e = Some (local_cli ''1''\<lparr>sd_places := [''outbox'']\<rparr>)" "se_truth_up ?e" "se_block ?e = []" "se_wf ?e"
    "\<not> is_place_ready ?e ''outbox''"
    by (simp_all add: receive_definition_def new_structure_engine_def local_cli_def se_wf_def is_place_ready_def Let_def)
  then show ?thesis using tick_settles [OF _ _ _ _ t] t by fastforce
qed

end
