(* ===== verification/Job.thy ===== *)
theory Job
  imports Registry
begin

text \<open>
  Jobs (\<open>palm/core/orchestration/job.py\<close>, \<open>job_state.py\<close>, \<open>run_result.py\<close>): the life-cycle
  states, the transition table, the record of one unit of work and the transition that the
  orchestration engine applies to it. Clock readings are arguments.
\<close>

type_synonym time = int

datatype job_status = PENDING | RUNNING | WAITING_FOR_INPUT | SUCCEEDED | FAILED | CANCELLED

fun status_value :: "job_status \<Rightarrow> string" where
  "status_value PENDING = ''PENDING''"
| "status_value RUNNING = ''RUNNING''"
| "status_value WAITING_FOR_INPUT = ''WAITING_FOR_INPUT''"
| "status_value SUCCEEDED = ''SUCCEEDED''"
| "status_value FAILED = ''FAILED''"
| "status_value CANCELLED = ''CANCELLED''"

record job =
  jid :: string
  executable :: pyval
  jstate :: pydict
  metadata :: pydict
  status :: job_status
  jresult :: pyval
  jerror :: "exc option"
  created_at :: time
  started_at :: "time option"
  completed_at :: "time option"

text \<open>\<open>RunResult\<close>: how a job should look after one runner invocation.\<close>

record run_result =
  rr_status :: job_status
  rr_result :: pyval
  rr_error :: "exc option"
  rr_propagate :: bool

definition plain_result :: "job_status \<Rightarrow> run_result" where
  "plain_result s = \<lparr>rr_status = s, rr_result = VNone, rr_error = None, rr_propagate = False\<rparr>"

definition new_job :: "string \<Rightarrow> pyval \<Rightarrow> pydict \<Rightarrow> pydict \<Rightarrow> time \<Rightarrow> job result" where
  "new_job i ex st md now =
     (if i = [] then Inl (Exc PyValueError ''Job id must be a non-empty string'')
      else Inr \<lparr>jid = i, executable = ex, jstate = st, metadata = md, status = PENDING,
        jresult = VNone, jerror = None, created_at = now, started_at = None, completed_at = None\<rparr>)"

fun allowed :: "job_status \<Rightarrow> job_status list" where
  "allowed PENDING = [RUNNING, SUCCEEDED, FAILED, WAITING_FOR_INPUT, CANCELLED]"
| "allowed RUNNING = [SUCCEEDED, FAILED, WAITING_FOR_INPUT, CANCELLED, RUNNING]"
| "allowed WAITING_FOR_INPUT = [RUNNING, SUCCEEDED, FAILED, CANCELLED]"
| "allowed SUCCEEDED = []"
| "allowed FAILED = []"
| "allowed CANCELLED = []"

definition is_valid_transition :: "job_status \<Rightarrow> job_status \<Rightarrow> bool" where
  "is_valid_transition old new = (if old = new then True else new \<in> set (allowed old))"

definition terminal_status :: "job_status \<Rightarrow> bool" where
  "terminal_status s = (s \<in> {SUCCEEDED, FAILED, CANCELLED})"

definition is_terminal :: "job \<Rightarrow> bool" where
  "is_terminal j = (status j \<in> {SUCCEEDED, FAILED, CANCELLED})"

definition is_live :: "job \<Rightarrow> bool" where
  "is_live j = (status j \<in> {RUNNING, WAITING_FOR_INPUT})"

definition transition_to :: "job_status \<Rightarrow> pyval \<Rightarrow> exc option \<Rightarrow> time \<Rightarrow> job \<Rightarrow> job result" where
  "transition_to new res err now j =
     (if \<not> is_valid_transition (status j) new
      then Inl (Exc InvalidJobTransitionError (''Invalid transition for job '' @ jid j @ '': ''
             @ status_value (status j) @ '' -> '' @ status_value new))
      else let j1 = (if status j = PENDING \<and> new = RUNNING then j\<lparr>started_at := Some now\<rparr> else j);
               j2 = (if new \<in> {SUCCEEDED, FAILED, CANCELLED}
                     then let k = j1\<lparr>completed_at := Some now\<rparr>;
                              k1 = (if res \<noteq> VNone then k\<lparr>jresult := res\<rparr> else k)
                          in (if err \<noteq> None then k1\<lparr>jerror := err\<rparr> else k1)
                     else j1)
           in Inr (j2\<lparr>status := new\<rparr>))"

text \<open>\<open>JobState\<close>: the default blackboard of a job, an insertion-ordered dictionary.\<close>

definition js_get :: "pydict \<Rightarrow> string \<Rightarrow> pyval \<Rightarrow> pyval" where
  "js_get d k v = get_default d k v"

definition js_set :: "string \<Rightarrow> pyval \<Rightarrow> pydict \<Rightarrow> pydict" where
  "js_set k v d = dict_set k v d"

definition js_has :: "pydict \<Rightarrow> string \<Rightarrow> bool" where
  "js_has d k = dict_has d k"

definition js_delete :: "string \<Rightarrow> pydict \<Rightarrow> pydict" where
  "js_delete k d = dict_pop k d"

definition js_keys :: "pydict \<Rightarrow> string list" where
  "js_keys d = dict_keys d"

definition snapshot :: "(time \<Rightarrow> string) \<Rightarrow> job \<Rightarrow> pydict" where
  "snapshot fmt j =
     [(''id'', VStr (jid j)), (''status'', VStr (status_value (status j))),
      (''metadata'', VDict (metadata j)), (''result'', jresult j),
      (''error'', opt_str_val (map_option exc_msg (jerror j))),
      (''created_at'', VStr (fmt (created_at j))),
      (''started_at'', opt_str_val (map_option fmt (started_at j))),
      (''completed_at'', opt_str_val (map_option fmt (completed_at j))),
      (''state_keys'', VList (map VStr (js_keys (jstate j))))]"

lemmas job_state_defs = js_get_def js_set_def js_has_def js_delete_def js_keys_def

lemma terminal_status_iff: "is_terminal j = terminal_status (status j)"
  by (simp add: is_terminal_def terminal_status_def)

lemma terminal_no_exit: "terminal_status s \<Longrightarrow> is_valid_transition s t \<longleftrightarrow> s = t"
  by (cases s) (auto simp: terminal_status_def is_valid_transition_def)

text \<open>The invariant of a job: the completion stamp is set exactly in the terminal states.\<close>

definition job_wf :: "job \<Rightarrow> bool" where
  "job_wf j \<longleftrightarrow> jid j \<noteq> [] \<and> (completed_at j \<noteq> None \<longleftrightarrow> is_terminal j)
     \<and> (status j = PENDING \<longrightarrow> started_at j = None)"

lemma new_job_wf: "new_job i ex st md now = Inr j \<Longrightarrow> job_wf j \<and> status j = PENDING"
  by (auto simp: new_job_def job_wf_def is_terminal_def split: if_splits)

lemma transition_frame [frame_simps]:
  "transition_to s r e n j = Inr j' \<Longrightarrow>
    jid j' = jid j \<and> executable j' = executable j \<and> jstate j' = jstate j
    \<and> metadata j' = metadata j \<and> created_at j' = created_at j \<and> status j' = s"
  by (auto simp: transition_to_def Let_def split: if_splits)

lemma transition_wf: "job_wf j \<Longrightarrow> transition_to s r e n j = Inr j' \<Longrightarrow> job_wf j'"
  by (cases s; cases "status j")
    (auto simp: transition_to_def Let_def job_wf_def is_terminal_def is_valid_transition_def split: if_splits)

text \<open>A run of transitions, stopping at the first refusal.\<close>

fun transitions :: "(job_status \<times> pyval \<times> exc option \<times> time) list \<Rightarrow> job \<Rightarrow> job result" where
  "transitions [] j = Inr j"
| "transitions ((s, r, e, n) # ts) j =
     (case transition_to s r e n j of Inl x \<Rightarrow> Inl x | Inr j' \<Rightarrow> transitions ts j')"

lemma transitions_wf: "job_wf j \<Longrightarrow> transitions ts j = Inr j' \<Longrightarrow> job_wf j'"
proof (induction ts arbitrary: j)
  case (Cons t ts)
  then show ?case by (cases t) (auto split: sum.splits dest: transition_wf)
qed simp

lemma transitions_terminal:
  "is_terminal j \<Longrightarrow> transitions ts j = Inr j' \<Longrightarrow> status j' = status j"
proof (induction ts arbitrary: j)
  case (Cons t ts)
  obtain s r e n where t: "t = (s, r, e, n)" by (cases t)
  with Cons.prems obtain k where k: "transition_to s r e n j = Inr k" "transitions ts k = Inr j'"
    by (auto split: sum.splits)
  then have "is_valid_transition (status j) s" by (auto simp: transition_to_def split: if_splits)
  then have "s = status j" using Cons.prems(1) terminal_no_exit by (auto simp: terminal_status_iff)
  with k(1) have "status k = status j" using transition_frame by blast
  with Cons.IH [of k] k(2) Cons.prems(1) show ?case by (simp add: is_terminal_def)
qed simp

text \<open>
  From a freshly created job, whatever transitions are applied, a job that has reached a
  terminal state stays in that state, its completion stamp is set in terminal states only, and
  any attempt to leave it raises \<open>InvalidJobTransitionError\<close>.
\<close>

theorem job_terminal_forever:
  assumes "new_job i ex st md now = Inr j0" and "transitions ts j0 = Inr j" and "is_terminal j"
  shows "completed_at j \<noteq> None
    \<and> (\<forall>us j'. transitions us j = Inr j' \<longrightarrow> status j' = status j)
    \<and> (\<forall>s r e n. s \<noteq> status j \<longrightarrow>
         (\<exists>m. transition_to s r e n j = Inl (Exc InvalidJobTransitionError m)))"
proof -
  have "job_wf j" using transitions_wf new_job_wf assms(1,2) by blast
  then have "completed_at j \<noteq> None" using assms(3) by (simp add: job_wf_def)
  moreover have "\<exists>m. transition_to s r e n j = Inl (Exc InvalidJobTransitionError m)"
    if "s \<noteq> status j" for s r e n
    using that assms(3) terminal_no_exit [of "status j" s]
    by (auto simp: transition_to_def terminal_status_iff)
  ultimately show ?thesis using transitions_terminal [OF assms(3)] by blast
qed

theorem job_terminal_forever_witness:
  "\<exists>j. transitions [(RUNNING, VNone, None, 5), (SUCCEEDED, VInt 3, None, 9)]
      \<lparr>jid = ''j1'', executable = VNone, jstate = [], metadata = [], status = PENDING,
       jresult = VNone, jerror = None, created_at = 0, started_at = None, completed_at = None\<rparr> = Inr j
     \<and> (\<forall>r e n. \<exists>m. transition_to RUNNING r e n j = Inl (Exc InvalidJobTransitionError m))"
proof -
  let ?j = "\<lparr>jid = ''j1'', executable = VNone, jstate = [], metadata = [], status = SUCCEEDED,
       jresult = VInt 3, jerror = None, created_at = 0, started_at = Some 5, completed_at = Some 9\<rparr>"
  show ?thesis
    using job_terminal_forever [of "''j1''" VNone "[]" "[]" 0 _
        "[(RUNNING, VNone, None, 5), (SUCCEEDED, VInt 3, None, 9)]" ?j]
    by (simp add: new_job_def transition_to_def is_valid_transition_def is_terminal_def Let_def)
qed

end
