(* ===== verification/BehaviorTree.thy ===== *)
theory BehaviorTree
  imports Job Registry
begin

text \<open>
  Behavior trees (\<open>palm/core/behavior_tree\<close>). A node is its name, its setup flag, its kind (the
  concrete class with the fields it keeps between ticks) and its children. A tick returns the
  status or the exception together with the node and the state as they are afterwards, because
  both stay updated when a tick raises. Callables of leaves are total functions on the state. The
  loops over children and the bounded retries end by themselves; only an unbounded
  \<open>RepeatNode\<close> may run forever, so \<open>tick\<close> takes fuel and \<open>None\<close> is \<open>not returned yet\<close>.
\<close>

datatype pattern_status = SUCCESS | FAILURE | RUNNING_STATUS | WAITING

definition is_yielding_status :: "pattern_status \<Rightarrow> bool" where
  "is_yielding_status st = (st \<in> {RUNNING_STATUS, WAITING})"

text \<open>What a callable may return: a status, \<open>None\<close>, or another value (its repr).\<close>

datatype tick_value = Status pattern_status | NoValue | OtherValue string

datatype parallel_policy = SUCCESS_ON_ALL | SUCCESS_ON_ANY

datatype node_kind =
    ActionNode "pydict \<Rightarrow> tick_value result \<times> pydict"
  | ConditionNode "pydict \<Rightarrow> bool result \<times> pydict"
  | InteractiveLeaf "pydict \<Rightarrow> tick_value result \<times> pydict" "pyval \<Rightarrow> pydict \<Rightarrow> tick_value result \<times> pydict"
  | CustomLeaf "pydict \<Rightarrow> unit result \<times> pydict" "pydict \<Rightarrow> tick_value result \<times> pydict"
  | SequenceNode nat
  | SelectorNode nat
  | ParallelNode parallel_policy "pattern_status option list"
  | InverterNode
  | RepeatNode "int option" nat
  | RetryNode int nat
  | RootNode

datatype node = Node (node_name: string) (setup_done: bool) (kind: node_kind) (children: "node list")

type_synonym tick_fun = "node \<Rightarrow> pydict \<Rightarrow> (pattern_status result \<times> node \<times> pydict) option"

subsection \<open>The leaves\<close>

definition action_impl :: "(pydict \<Rightarrow> tick_value result \<times> pydict) \<Rightarrow> pydict \<Rightarrow> tick_value result \<times> pydict" where
  "action_impl f s = (case f s of
     (Inl x, s') \<Rightarrow> (Inl x, s')
   | (Inr v, s') \<Rightarrow> (Inr (case v of NoValue \<Rightarrow> Status SUCCESS | Status st \<Rightarrow> Status st
        | OtherValue _ \<Rightarrow> Status FAILURE), s'))"

definition condition_impl :: "(pydict \<Rightarrow> bool result \<times> pydict) \<Rightarrow> pydict \<Rightarrow> tick_value result \<times> pydict" where
  "condition_impl p s = (case p s of
     (Inl x, s') \<Rightarrow> (Inl x, s')
   | (Inr b, s') \<Rightarrow> (Inr (Status (if b then SUCCESS else FAILURE)), s'))"

definition input_key :: "string \<Rightarrow> string" where
  "input_key nm = ''__bt_input__'' @ '':'' @ nm"

definition prompt_key :: "string \<Rightarrow> string" where
  "prompt_key nm = ''__bt_prompt__'' @ '':'' @ nm"

definition interactive_impl :: "string \<Rightarrow> (pydict \<Rightarrow> tick_value result \<times> pydict)
    \<Rightarrow> (pyval \<Rightarrow> pydict \<Rightarrow> tick_value result \<times> pydict) \<Rightarrow> pydict \<Rightarrow> tick_value result \<times> pydict" where
  "interactive_impl nm request handle s =
     (let key = input_key nm in
      if js_has s key then handle (js_get s key VNone) (js_delete key s) else request s)"

subsection \<open>The loops of the composites and decorators\<close>

function seq_loop :: "tick_fun \<Rightarrow> node list \<Rightarrow> nat \<Rightarrow> pydict
    \<Rightarrow> (pattern_status result \<times> nat \<times> node list \<times> pydict) option" where
  "seq_loop tk cs i s =
     (if i < length cs
      then (case tk (cs ! i) s of
              None \<Rightarrow> None
            | Some (Inl x, c', s') \<Rightarrow> Some (Inl x, i, cs[i := c'], s')
            | Some (Inr st, c', s') \<Rightarrow>
                if is_yielding_status st then Some (Inr st, i, cs[i := c'], s')
                else if st = FAILURE then Some (Inr FAILURE, 0, cs[i := c'], s')
                else seq_loop tk (cs[i := c']) (Suc i) s')
      else Some (Inr SUCCESS, 0, cs, s))"
  by pat_completeness auto
termination
  by (relation "measure (\<lambda>(tk, cs, i, s). length cs - i)") auto

function sel_loop :: "tick_fun \<Rightarrow> node list \<Rightarrow> nat \<Rightarrow> pydict
    \<Rightarrow> (pattern_status result \<times> nat \<times> node list \<times> pydict) option" where
  "sel_loop tk cs i s =
     (if i < length cs
      then (case tk (cs ! i) s of
              None \<Rightarrow> None
            | Some (Inl x, c', s') \<Rightarrow> Some (Inl x, i, cs[i := c'], s')
            | Some (Inr st, c', s') \<Rightarrow>
                if st \<in> {RUNNING_STATUS, WAITING} then Some (Inr st, i, cs[i := c'], s')
                else if st = SUCCESS then Some (Inr SUCCESS, 0, cs[i := c'], s')
                else sel_loop tk (cs[i := c']) (Suc i) s')
      else Some (Inr FAILURE, 0, cs, s))"
  by pat_completeness auto
termination
  by (relation "measure (\<lambda>(tk, cs, i, s). length cs - i)") auto

definition parallel_verdict :: "parallel_policy \<Rightarrow> pattern_status option list \<Rightarrow> nat \<Rightarrow> bool \<Rightarrow> bool \<Rightarrow> pattern_status" where
  "parallel_verdict pol rs n any_waiting any_running =
     (if any_waiting then WAITING
      else if any_running then RUNNING_STATUS
      else
        let successes = length (filter (\<lambda>r. r = Some SUCCESS) rs);
            failures = length (filter (\<lambda>r. r = Some FAILURE) rs)
        in if pol = SUCCESS_ON_ALL
           then (if failures > 0 then FAILURE else if successes = n then SUCCESS else FAILURE)
           else (if successes > 0 then SUCCESS else FAILURE))"

function par_loop :: "tick_fun \<Rightarrow> parallel_policy \<Rightarrow> pattern_status option list \<Rightarrow> node list \<Rightarrow> nat \<Rightarrow> bool \<Rightarrow> bool
    \<Rightarrow> pydict \<Rightarrow> (pattern_status result \<times> pattern_status option list \<times> node list \<times> pydict) option" where
  "par_loop tk pol rs cs i w r s =
     (if i < length cs
      then if i \<ge> length rs then Some (Inl (Exc PyIndexError ''list index out of range''), rs, cs, s)
      else if rs ! i \<noteq> None then par_loop tk pol rs cs (Suc i) w r s
      else (case tk (cs ! i) s of
              None \<Rightarrow> None
            | Some (Inl x, c', s') \<Rightarrow> Some (Inl x, rs, cs[i := c'], s')
            | Some (Inr st, c', s') \<Rightarrow>
                if st \<in> {RUNNING_STATUS, WAITING}
                then par_loop tk pol rs (cs[i := c']) (Suc i) (w \<or> st = WAITING) (r \<or> st \<noteq> WAITING) s'
                else if pol = SUCCESS_ON_ANY \<and> st = SUCCESS
                then Some (Inr SUCCESS, replicate (length cs) (Some SUCCESS), cs[i := c'], s')
                else if st = FAILURE \<and> pol = SUCCESS_ON_ALL
                then Some (Inr FAILURE, rs[i := Some st], cs[i := c'], s')
                else par_loop tk pol (rs[i := Some st]) (cs[i := c']) (Suc i) w r s')
      else Some (Inr (parallel_verdict pol rs (length cs) w r), rs, cs, s))"
  by pat_completeness auto
termination
  by (relation "measure (\<lambda>(tk, pol, rs, cs, i, w, r, s). length cs - i)") auto

fun repeat_loop :: "nat \<Rightarrow> tick_fun \<Rightarrow> int option \<Rightarrow> nat \<Rightarrow> node \<Rightarrow> pydict
    \<Rightarrow> (pattern_status result \<times> nat \<times> node \<times> pydict) option" where
  "repeat_loop 0 tk tms cnt c s = None"
| "repeat_loop (Suc m) tk tms cnt c s =
     (if (case tms of Some t \<Rightarrow> int cnt \<ge> t | None \<Rightarrow> False) then Some (Inr SUCCESS, 0, c, s)
      else (case tk c s of
              None \<Rightarrow> None
            | Some (Inl x, c', s') \<Rightarrow> Some (Inl x, cnt, c', s')
            | Some (Inr st, c', s') \<Rightarrow>
                if st \<in> {RUNNING_STATUS, WAITING} then Some (Inr st, cnt, c', s')
                else if st = FAILURE then Some (Inr FAILURE, 0, c', s')
                else if (case tms of Some t \<Rightarrow> int (Suc cnt) \<ge> t | None \<Rightarrow> False)
                then Some (Inr SUCCESS, 0, c', s')
                else repeat_loop m tk tms (Suc cnt) c' s'))"

function retry_loop :: "tick_fun \<Rightarrow> int \<Rightarrow> nat \<Rightarrow> node \<Rightarrow> pydict
    \<Rightarrow> (pattern_status result \<times> nat \<times> node \<times> pydict) option" where
  "retry_loop tk max_attempts att c s =
     (case tk c s of
        None \<Rightarrow> None
      | Some (Inl x, c', s') \<Rightarrow> Some (Inl x, att, c', s')
      | Some (Inr st, c', s') \<Rightarrow>
          if st \<in> {RUNNING_STATUS, WAITING} then Some (Inr st, att, c', s')
          else if st = SUCCESS then Some (Inr SUCCESS, 0, c', s')
          else if int (Suc att) \<ge> max_attempts then Some (Inr FAILURE, 0, c', s')
          else retry_loop tk max_attempts (Suc att) c' s')"
  by pat_completeness auto
termination
  by (relation "measure (\<lambda>(tk, mx, att, c, s). nat (mx - int att))") auto

declare seq_loop.simps [simp del] sel_loop.simps [simp del] par_loop.simps [simp del] retry_loop.simps [simp del]

definition invert :: "pattern_status \<Rightarrow> pattern_status" where
  "invert st = (if st = SUCCESS then FAILURE else if st = FAILURE then SUCCESS else st)"

subsection \<open>One tick\<close>

text \<open>\<open>child\<close> of a decorator: its only child, or the error of a decorator without one.\<close>

definition with_child :: "string \<Rightarrow> node list \<Rightarrow> pydict
    \<Rightarrow> (node \<Rightarrow> (tick_value result \<times> node_kind \<times> node list \<times> pydict) option) \<Rightarrow> node_kind
    \<Rightarrow> (tick_value result \<times> node_kind \<times> node list \<times> pydict) option" where
  "with_child nm cs s f k = (case cs of
     [] \<Rightarrow> Some (Inl (Exc InvalidTreeStructureError (''Decorator '' @ quoted nm @ '' has no child'')), k, cs, s)
   | c # _ \<Rightarrow> f c)"

definition tick_impl :: "nat \<Rightarrow> tick_fun \<Rightarrow> string \<Rightarrow> node_kind \<Rightarrow> node list \<Rightarrow> pydict
    \<Rightarrow> (tick_value result \<times> node_kind \<times> node list \<times> pydict) option" where
  "tick_impl n tk nm k cs s = (case k of
     ActionNode f \<Rightarrow> (case action_impl f s of (r, s') \<Rightarrow> Some (r, k, cs, s'))
   | ConditionNode p \<Rightarrow> (case condition_impl p s of (r, s') \<Rightarrow> Some (r, k, cs, s'))
   | InteractiveLeaf rq h \<Rightarrow> (case interactive_impl nm rq h s of (r, s') \<Rightarrow> Some (r, k, cs, s'))
   | CustomLeaf su f \<Rightarrow> (case f s of (r, s') \<Rightarrow> Some (r, k, cs, s'))
   | SequenceNode i \<Rightarrow>
       if cs = [] then Some (Inr (Status SUCCESS), k, cs, s)
       else (case seq_loop tk cs i s of None \<Rightarrow> None
             | Some (r, i', cs', s') \<Rightarrow> Some (map_sum id Status r, SequenceNode i', cs', s'))
   | SelectorNode i \<Rightarrow>
       if cs = [] then Some (Inr (Status FAILURE), k, cs, s)
       else (case sel_loop tk cs i s of None \<Rightarrow> None
             | Some (r, i', cs', s') \<Rightarrow> Some (map_sum id Status r, SelectorNode i', cs', s'))
   | ParallelNode pol rs \<Rightarrow>
       if cs = [] then Some (Inr (Status SUCCESS), k, cs, s)
       else (case par_loop tk pol rs cs 0 False False s of None \<Rightarrow> None
             | Some (r, rs', cs', s') \<Rightarrow> Some (map_sum id Status r, ParallelNode pol rs', cs', s'))
   | InverterNode \<Rightarrow> with_child nm cs s (\<lambda>c. case tk c s of None \<Rightarrow> None
       | Some (r, c', s') \<Rightarrow> Some (map_sum id (\<lambda>st. Status (invert st)) r, k, cs[0 := c'], s')) k
   | RepeatNode tms cnt \<Rightarrow>
       if (case tms of Some t \<Rightarrow> int cnt \<ge> t | None \<Rightarrow> False)
       then Some (Inr (Status SUCCESS), RepeatNode tms 0, cs, s)
       else with_child nm cs s (\<lambda>c. case repeat_loop n tk tms cnt c s of None \<Rightarrow> None
         | Some (r, cnt', c', s') \<Rightarrow> Some (map_sum id Status r, RepeatNode tms cnt', cs[0 := c'], s')) k
   | RetryNode mx att \<Rightarrow> with_child nm cs s (\<lambda>c. case retry_loop tk mx att c s of None \<Rightarrow> None
         | Some (r, att', c', s') \<Rightarrow> Some (map_sum id Status r, RetryNode mx att', cs[0 := c'], s')) k
   | RootNode \<Rightarrow> with_child nm cs s (\<lambda>c. case tk c s of None \<Rightarrow> None
       | Some (r, c', s') \<Rightarrow> Some (map_sum id Status r, k, cs[0 := c'], s')) k)"

text \<open>\<open>BaseNode.tick\<close>: what escapes is a status or an exception of the tree family.\<close>

definition tick_outcome :: "string \<Rightarrow> tick_value result \<Rightarrow> pattern_status result" where
  "tick_outcome nm r = (case r of
     Inr (Status st) \<Rightarrow> Inr st
   | Inr v \<Rightarrow> Inl (Exc NodeExecutionError (''Node '' @ quoted nm @ '' returned non-PatternStatus value: ''
        @ (case v of OtherValue rp \<Rightarrow> rp | _ \<Rightarrow> ''None'')))
   | Inl x \<Rightarrow> if isinstance x BehaviorTreeError then Inl x
       else Inl (Exc NodeExecutionError (''Unhandled exception in node '' @ quoted nm @ '' during tick: '' @ exc_msg x)))"

definition run_setup :: "node_kind \<Rightarrow> bool \<Rightarrow> pydict \<Rightarrow> unit result \<times> pydict" where
  "run_setup k done s = (if done then (Inr (), s) else case k of CustomLeaf su f \<Rightarrow> su s | _ \<Rightarrow> (Inr (), s))"

primrec tick :: "nat \<Rightarrow> tick_fun" where
  "tick 0 = (\<lambda>nd s. None)"
| "tick (Suc n) = (\<lambda>nd s. case nd of Node nm sd k cs \<Rightarrow>
     (case run_setup k sd s of
        (Inl x, s1) \<Rightarrow> Some (tick_outcome nm (Inl x), Node nm sd k cs, s1)
      | (Inr _, s1) \<Rightarrow>
         (case tick_impl n (tick n) nm k cs s1 of
            None \<Rightarrow> None
          | Some (r, k', cs', s2) \<Rightarrow> Some (tick_outcome nm r, Node nm True k' cs', s2))))"

text \<open>\<open>reset\<close>: the node's own fields, then the children, recursively.\<close>

definition reset_impl :: "node list \<Rightarrow> node_kind \<Rightarrow> node_kind" where
  "reset_impl cs k = (case k of
     SequenceNode _ \<Rightarrow> SequenceNode 0
   | SelectorNode _ \<Rightarrow> SelectorNode 0
   | ParallelNode pol _ \<Rightarrow> ParallelNode pol (replicate (length cs) None)
   | RepeatNode t _ \<Rightarrow> RepeatNode t 0
   | RetryNode m _ \<Rightarrow> RetryNode m 0
   | _ \<Rightarrow> k)"

fun reset :: "node \<Rightarrow> node" where
  "reset (Node nm sd k cs) = Node nm False (reset_impl cs k) (map reset cs)"

end
