(* ===== verification/TreeLaws.thy ===== *)
theory TreeLaws
  imports BehaviorTree
begin

text \<open>
  Laws of the tick. \<open>child_tick\<close> carries a relation that every tick of a child respects through
  the loops of the composites and decorators; it is interpreted at \<open>tick n\<close> for the static part of
  a tree and for the well-formedness of its cursors. Then fuel: more fuel never changes a result,
  and a computed amount always suffices when no \<open>RepeatNode\<close> is unbounded.
\<close>

text \<open>The induction behind the loops over children: the cursor moves towards the end.\<close>

lemma cursor_induct [case_names step]:
  assumes "\<And>cs i s. (\<And>cs' s'. i < length cs \<Longrightarrow> length cs' = length cs \<Longrightarrow> P cs' (Suc i) s') \<Longrightarrow> P cs i s"
  shows "P (cs :: node list) (i :: nat) (s :: pydict)"
proof (induction "length cs - i" arbitrary: cs i s rule: less_induct)
  case less
  show ?case
  proof (rule assms)
    fix cs' :: "node list" and s'
    assume "i < length cs" "length cs' = length cs"
    then show "P cs' (Suc i) s'" by (intro less) simp
  qed
qed

lemma attempts_induct [case_names step]:
  assumes "\<And>att c s. (\<And>c' s'. int (Suc att) < mx \<Longrightarrow> P (Suc att) c' s') \<Longrightarrow> P att c s"
  shows "P (att :: nat) (c :: node) (s :: pydict)"
proof (induction "nat (mx - int att)" arbitrary: att c s rule: less_induct)
  case less
  show ?case
  proof (rule assms)
    fix c' s'
    assume "int (Suc att) < mx"
    then show "P (Suc att) c' s'" by (intro less) simp
  qed
qed

locale child_tick =
  fixes tk :: tick_fun and rel :: "node \<Rightarrow> node \<Rightarrow> bool"
  assumes rel_refl: "rel c c"
    and rel_trans: "rel a b \<Longrightarrow> rel b c \<Longrightarrow> rel a c"
    and tick_rel: "tk c s = Some (r, c', s') \<Longrightarrow> rel c c'"
begin

abbreviation rels :: "node list \<Rightarrow> node list \<Rightarrow> bool" where
  "rels \<equiv> list_all2 rel"

lemma rels_refl: "rels cs cs"
  by (rule list.rel_refl_strong) (rule rel_refl)

lemma rels_trans: "rels a b \<Longrightarrow> rels b c \<Longrightarrow> rels a c"
  using list_all2_trans rel_trans by blast

lemma rels_update: "rel (cs ! i) c' \<Longrightarrow> rels cs (cs[i := c'])"
  using list_all2_update_cong [OF rels_refl, of "cs ! i" c' cs i] by simp

lemma rels_step: "tk (cs ! i) s = Some (r, c', s') \<Longrightarrow> rels (cs[i := c']) ds \<Longrightarrow> rels cs ds"
  by (rule rels_trans [OF rels_update [OF tick_rel]])

lemma seq_rel: "seq_loop tk cs i s = Some (r, i', cs', s') \<Longrightarrow> rels cs cs' \<and> (i' = 0 \<or> i' < length cs)"
proof (induction cs i s arbitrary: r rule: cursor_induct)
  case (step cs i s)
  from step.prems show ?case
    by (subst (asm) seq_loop.simps)
      (auto split: if_splits option.splits sum.splits prod.splits
         dest: step.IH [rotated 2] intro: rels_refl rels_step rels_update [OF tick_rel])
qed

lemma sel_rel: "sel_loop tk cs i s = Some (r, i', cs', s') \<Longrightarrow> rels cs cs' \<and> (i' = 0 \<or> i' < length cs)"
proof (induction cs i s arbitrary: r rule: cursor_induct)
  case (step cs i s)
  from step.prems show ?case
    by (subst (asm) sel_loop.simps)
      (auto split: if_splits option.splits sum.splits prod.splits
         dest: step.IH [rotated 2] intro: rels_refl rels_step rels_update [OF tick_rel])
qed

lemma par_rel: "par_loop tk pol rs cs i w v s = Some (r, rs', cs', s') \<Longrightarrow>
    rels cs cs' \<and> (length rs = length cs \<longrightarrow> length rs' = length cs)"
proof (induction cs i s arbitrary: r rs w v rule: cursor_induct)
  case (step cs i s)
  from step.prems show ?case
    by (subst (asm) par_loop.simps)
      (auto split: if_splits option.splits sum.splits prod.splits
         dest: step.IH [rotated 2] intro: rels_refl rels_step rels_update [OF tick_rel])
qed

lemma repeat_rel: "repeat_loop m tk tms cnt c s = Some (r, cnt', c', s') \<Longrightarrow>
    rel c c' \<and> (\<forall>t. tms = Some t \<longrightarrow> 1 \<le> t \<longrightarrow> int cnt' < t)"
proof (induction m arbitrary: tms cnt c s)
  case (Suc m)
  from Suc.prems show ?case
    by (auto split: if_splits option.splits sum.splits prod.splits
        dest: Suc.IH intro: rel_refl tick_rel rel_trans [OF tick_rel])
qed simp

lemma retry_rel: "retry_loop tk mx att c s = Some (r, att', c', s') \<Longrightarrow> rel c c' \<and> (att' = 0 \<or> att' = att \<or> int att' < mx)"
proof (induction att c s rule: attempts_induct [of mx])
  case (step att c s)
  from step.prems show ?case
    by (subst (asm) retry_loop.simps)
      (auto split: if_splits option.splits sum.splits prod.splits
        dest: step.IH [rotated 1] intro: rel_refl tick_rel rel_trans [OF tick_rel])
qed

text \<open>What one tick does with the kind of a node and its children.\<close>

lemma tick_impl_rels: "tick_impl n tk nm k cs s = Some (r, k', cs', s') \<Longrightarrow> rels cs cs'"
  by (cases k)
    (auto simp: tick_impl_def with_child_def
       split: if_splits option.splits list.splits prod.splits
       dest: seq_rel sel_rel par_rel repeat_rel retry_rel
       intro: rels_refl rels_update [where i = 0, simplified] tick_rel)

lemma tick_impl_reset: "tick_impl n tk nm k cs s = Some (r, k', cs', s') \<Longrightarrow> reset_impl ds k' = reset_impl ds k"
  by (cases k)
    (auto simp: tick_impl_def with_child_def reset_impl_def
       split: if_splits option.splits list.splits prod.splits)

end

subsection \<open>The static part of a tree and its cursors\<close>

lemma tick_cases:
  assumes "tick n nd s = Some (r, nd', s')"
  obtains (raised) m nm sd k cs x where "n = Suc m" and "nd = Node nm sd k cs"
      and "r = tick_outcome nm (Inl x)" and "nd' = nd"
    | (impl) m nm sd k cs s1 v k' cs' where "n = Suc m" and "nd = Node nm sd k cs"
      and "tick_impl m (tick m) nm k cs s1 = Some (v, k', cs', s')"
      and "r = tick_outcome nm v" and "nd' = Node nm True k' cs'"
proof (cases n)
  case 0
  with assms show thesis by simp
next
  case (Suc m)
  then show thesis using assms that
    by (cases nd) (auto split: sum.splits option.splits prod.splits)
qed

lemma list_all2_reset: "list_all2 (\<lambda>c d. reset d = reset c) cs ds \<Longrightarrow> map reset ds = map reset cs"
  by (induction rule: list_all2_induct) auto

lemma tick_reset: "tick n nd s = Some (r, nd', s') \<Longrightarrow> reset nd' = reset nd"
proof (induction n arbitrary: nd s r nd' s')
  case (Suc n)
  have ct: "child_tick (tick n) (\<lambda>c d. reset d = reset c)"
    by unfold_locales (auto dest: Suc.IH)
  from Suc.prems show ?case
  proof (cases rule: tick_cases)
    case (impl m nm sd k cs s1 v k' cs')
    then have i: "tick_impl n (tick n) nm k cs s1 = Some (v, k', cs', s')" by simp
    have "list_all2 (\<lambda>c d. reset d = reset c) cs cs'"
      using child_tick.tick_impl_rels [OF ct i] .
    then have "map reset cs' = map reset cs" by (rule list_all2_reset)
    moreover from this have "length cs' = length cs" using map_eq_imp_length_eq by blast
    then have "reset_impl cs' k' = reset_impl cs k"
      using child_tick.tick_impl_reset [OF ct i, of cs'] by (cases k) (simp_all add: reset_impl_def)
    ultimately show ?thesis using impl by simp
  qed simp
qed simp

interpretation shape: child_tick "tick n" "\<lambda>c d. reset d = reset c" for n
  by unfold_locales (auto dest: tick_reset)

definition kind_wf :: "node_kind \<Rightarrow> nat \<Rightarrow> bool" where
  "kind_wf k n = (case k of
     SequenceNode i \<Rightarrow> i = 0 \<or> i < n
   | SelectorNode i \<Rightarrow> i = 0 \<or> i < n
   | ParallelNode pol rs \<Rightarrow> length rs = n
   | InverterNode \<Rightarrow> n = 1
   | RepeatNode tms cnt \<Rightarrow> n = 1 \<and> (case tms of Some t \<Rightarrow> 1 \<le> t \<and> int cnt < t | None \<Rightarrow> True)
   | RetryNode mx att \<Rightarrow> n = 1 \<and> 1 \<le> mx \<and> int att < mx
   | RootNode \<Rightarrow> n = 1
   | _ \<Rightarrow> n = 0)"

fun node_wf :: "node \<Rightarrow> bool" where
  "node_wf (Node nm sd k cs) = (kind_wf k (length cs) \<and> (\<forall>c \<in> set cs. node_wf c))"

context child_tick begin

lemma tick_impl_kind_wf:
  "tick_impl n tk nm k cs s = Some (r, k', cs', s') \<Longrightarrow> kind_wf k (length cs) \<Longrightarrow> kind_wf k' (length cs)"
  by (cases k)
    (auto simp: tick_impl_def with_child_def kind_wf_def
       split: if_splits option.splits list.splits prod.splits
       dest: seq_rel sel_rel par_rel repeat_rel retry_rel)

end

lemma node_wf_mono: "list_all2 (\<lambda>c d. node_wf c \<longrightarrow> node_wf d) cs ds \<Longrightarrow> \<forall>c \<in> set cs. node_wf c \<Longrightarrow> \<forall>d \<in> set ds. node_wf d"
  by (induction rule: list_all2_induct) auto

lemma tick_node_wf: "tick n nd s = Some (r, nd', s') \<Longrightarrow> node_wf nd \<Longrightarrow> node_wf nd'"
proof (induction n arbitrary: nd s r nd' s')
  case (Suc n)
  have ct: "child_tick (tick n) (\<lambda>c d. node_wf c \<longrightarrow> node_wf d)"
    by unfold_locales (auto dest: Suc.IH)
  from Suc.prems(1) show ?case
  proof (cases rule: tick_cases)
    case (impl m nm sd k cs s1 v k' cs')
    then have i: "tick_impl n (tick n) nm k cs s1 = Some (v, k', cs', s')" by simp
    have rels: "list_all2 (\<lambda>c d. node_wf c \<longrightarrow> node_wf d) cs cs'"
      using child_tick.tick_impl_rels [OF ct i] .
    then have "length cs' = length cs" by (simp add: list_all2_lengthD)
    then show ?thesis
      using child_tick.tick_impl_kind_wf [OF ct i] node_wf_mono [OF rels] impl Suc.prems(2) by simp
  qed (use Suc.prems in simp)
qed simp

interpretation cursors: child_tick "tick n" "\<lambda>c d. node_wf c \<longrightarrow> node_wf d" for n
  by unfold_locales (auto dest: tick_node_wf)

subsection \<open>Fuel\<close>

definition kind_bounded :: "node_kind \<Rightarrow> bool" where
  "kind_bounded k = (case k of RepeatNode None _ \<Rightarrow> False | _ \<Rightarrow> True)"

definition kind_need :: "node_kind \<Rightarrow> nat" where
  "kind_need k = (case k of RepeatNode (Some t) _ \<Rightarrow> Suc (nat t) | _ \<Rightarrow> 0)"

text \<open>Trees without an unbounded \<open>RepeatNode\<close>, and the fuel that one tick of them needs.\<close>

fun bounded :: "node \<Rightarrow> bool" where
  "bounded (Node nm sd k cs) = (kind_bounded k \<and> (\<forall>c \<in> set cs. bounded c))"

fun need :: "node \<Rightarrow> nat" where
  "need (Node nm sd k cs) = Suc (fold max (map need cs) (kind_need k))"

lemma kind_reset [simp]: "kind_bounded (reset_impl cs k) = kind_bounded k" "kind_need (reset_impl cs k) = kind_need k"
  by (cases k; simp add: reset_impl_def kind_bounded_def kind_need_def split: option.splits)+

lemma bounded_reset: "bounded (reset nd) = bounded nd"
proof (induction nd)
  case (Node nm sd k cs)
  have "bounded (reset (Node nm sd k cs)) = (kind_bounded k \<and> (\<forall>c \<in> set cs. bounded (reset c)))"
    by simp
  also have "\<dots> = (kind_bounded k \<and> (\<forall>c \<in> set cs. bounded c))" using Node by blast
  finally show ?case by simp
qed

lemma need_reset: "need (reset nd) = need nd"
proof (induction nd)
  case (Node nm sd k cs)
  then have "map (need \<circ> reset) cs = map need cs" by (intro map_cong [OF refl]) (simp only: comp_apply)
  then show ?case by (simp only: reset.simps need.simps kind_reset map_map)
qed

lemma fold_max_le: "fold max xs (a :: nat) \<le> n \<longleftrightarrow> a \<le> n \<and> (\<forall>x \<in> set xs. x \<le> n)"
  by (induction xs arbitrary: a) auto

locale child_total =
  fixes tk :: tick_fun and P :: "node \<Rightarrow> bool"
  assumes total: "P c \<Longrightarrow> \<exists>r c' s'. tk c s = Some (r, c', s') \<and> P c'"
begin

lemma seq_total: "\<forall>c \<in> set cs. P c \<Longrightarrow> \<exists>v. seq_loop tk cs i s = Some v"
proof (induction cs i s rule: cursor_induct)
  case (step cs i s)
  show ?case
  proof (cases "i < length cs")
    case True
    then obtain r c' s' where t: "tk (cs ! i) s = Some (r, c', s')" "P c'"
      using total step.prems by (meson nth_mem)
    have "\<exists>v. seq_loop tk (cs[i := c']) (Suc i) s' = Some v"
      using step.prems t True by (intro step.IH) (auto dest: set_update_subset_insert [THEN subsetD])
    then show ?thesis using t True
      by (subst seq_loop.simps) (cases r; auto)
  qed (subst seq_loop.simps, simp)
qed

lemma sel_total: "\<forall>c \<in> set cs. P c \<Longrightarrow> \<exists>v. sel_loop tk cs i s = Some v"
proof (induction cs i s rule: cursor_induct)
  case (step cs i s)
  show ?case
  proof (cases "i < length cs")
    case True
    then obtain r c' s' where t: "tk (cs ! i) s = Some (r, c', s')" "P c'"
      using total step.prems by (meson nth_mem)
    have "\<exists>v. sel_loop tk (cs[i := c']) (Suc i) s' = Some v"
      using step.prems t True by (intro step.IH) (auto dest: set_update_subset_insert [THEN subsetD])
    then show ?thesis using t True
      by (subst sel_loop.simps) (cases r; auto)
  qed (subst sel_loop.simps, simp)
qed

lemma par_total: "\<forall>c \<in> set cs. P c \<Longrightarrow> \<exists>v. par_loop tk pol rs cs i w q s = Some v"
proof (induction cs i s arbitrary: rs w q rule: cursor_induct)
  case (step cs i s)
  show ?case
  proof (cases "i < length cs")
    case True
    then obtain r c' s' where t: "tk (cs ! i) s = Some (r, c', s')" "P c'"
      using total step.prems by (meson nth_mem)
    have next1: "\<exists>v. par_loop tk pol rs' (cs[i := c']) (Suc i) w' q' s' = Some v" for rs' w' q'
      using step.prems t True by (intro step.IH) (auto dest: set_update_subset_insert [THEN subsetD])
    have next2: "\<exists>v. par_loop tk pol rs cs (Suc i) w q s = Some v"
      using step.prems True by (intro step.IH) auto
    show ?thesis
    proof (cases r)
      case (Inl x)
      then show ?thesis using t True next2 by (subst par_loop.simps) simp
    next
      case (Inr st)
      then show ?thesis using t True next2
          next1 [of rs "w \<or> st = WAITING" "q \<or> st \<noteq> WAITING"] next1 [of "rs[i := Some st]" w q]
        by (subst par_loop.simps) simp
    qed
  qed (subst par_loop.simps, simp)
qed

lemma retry_total: "P c \<Longrightarrow> \<exists>v. retry_loop tk mx att c s = Some v"
proof (induction att c s rule: attempts_induct [of mx])
  case (step att c s)
  then obtain r c' s' where t: "tk c s = Some (r, c', s')" "P c'" using total by blast
  then have "int (Suc att) < mx \<Longrightarrow> \<exists>v. retry_loop tk mx (Suc att) c' s' = Some v"
    using step.IH by blast
  with t show ?case by (subst retry_loop.simps) (cases r; auto)
qed

lemma repeat_total: "P c \<Longrightarrow> nat (t - int cnt) < m \<Longrightarrow> \<exists>v. repeat_loop m tk (Some t) cnt c s = Some v"
proof (induction m arbitrary: cnt c s)
  case (Suc m)
  then obtain r c' s' where t: "tk c s = Some (r, c', s')" "P c'" using total by blast
  then have "\<not> int (Suc cnt) \<ge> t \<Longrightarrow> \<exists>v. repeat_loop m tk (Some t) (Suc cnt) c' s' = Some v"
    using Suc by (intro Suc.IH) simp_all
  with t show ?case by (cases r) auto
qed simp

lemma tick_impl_total:
  assumes "\<forall>c \<in> set cs. P c" and "kind_bounded k" and "kind_need k \<le> n"
  shows "\<exists>v. tick_impl n tk nm k cs s = Some v"
proof (cases k)
  case (RepeatNode tms cnt)
  then obtain t where t: "tms = Some t" using assms(2) by (auto simp: kind_bounded_def split: option.splits)
  have "\<exists>v. repeat_loop n tk (Some t) cnt c s = Some v" if "c \<in> set cs" for c
    using assms that RepeatNode t by (intro repeat_total) (auto simp: kind_need_def)
  then show ?thesis using RepeatNode t by (cases cs) (fastforce simp: tick_impl_def with_child_def)+
next
  case (SequenceNode i)
  then show ?thesis using seq_total [OF assms(1), of i s] by (auto simp: tick_impl_def)
next
  case (SelectorNode i)
  then show ?thesis using sel_total [OF assms(1), of i s] by (auto simp: tick_impl_def)
next
  case (ParallelNode pol rs)
  then show ?thesis using par_total [OF assms(1), of pol rs 0 False False s] by (auto simp: tick_impl_def)
next
  case (RetryNode mx att)
  have "\<exists>v. retry_loop tk mx att c s = Some v" if "c \<in> set cs" for c
    using assms(1) that by (intro retry_total) auto
  then show ?thesis using RetryNode by (cases cs) (fastforce simp: tick_impl_def with_child_def)+
next
  case InverterNode
  have "\<exists>v. tk c s = Some v" if "c \<in> set cs" for c using assms(1) that total by blast
  then show ?thesis using InverterNode by (cases cs) (fastforce simp: tick_impl_def with_child_def)+
next
  case RootNode
  have "\<exists>v. tk c s = Some v" if "c \<in> set cs" for c using assms(1) that total by blast
  then show ?thesis using RootNode by (cases cs) (fastforce simp: tick_impl_def with_child_def)+
qed (auto simp: tick_impl_def split: prod.splits)

end

lemma tick_enough: "bounded nd \<Longrightarrow> need nd \<le> n \<Longrightarrow> \<exists>v. tick n nd s = Some v"
proof (induction n arbitrary: nd s)
  case 0
  then show ?case by (cases nd) simp
next
  case (Suc n)
  obtain nm sd k cs where nd: "nd = Node nm sd k cs" by (cases nd)
  have keep: "bounded c' \<and> need c' \<le> n" if "tick n c s = Some (r, c', s')" "bounded c \<and> need c \<le> n" for c s r c' s'
    using that tick_reset [OF that(1)] bounded_reset need_reset by metis
  have ct: "child_total (tick n) (\<lambda>c. bounded c \<and> need c \<le> n)"
    by unfold_locales (metis Suc.IH keep prod_cases3)
  have "\<exists>v. tick_impl n (tick n) nm k cs s1 = Some v" for s1
    using Suc.prems nd by (intro child_total.tick_impl_total [OF ct]) (auto simp: fold_max_le)
  then have step: "\<exists>v. (case tick_impl n (tick n) nm k cs s1 of None \<Rightarrow> None
      | Some (r, k', cs', s2) \<Rightarrow> Some (tick_outcome nm r, Node nm True k' cs', s2)) = Some v" for s1
    by (cases "tick_impl n (tick n) nm k cs s1") (simp_all split: prod.split, metis not_Some_eq)
  obtain r s1 where "run_setup k sd s = (r, s1)" by fastforce
  then show ?case using nd step [of s1] by (cases r) simp_all
qed

interpretation enough: child_total "tick n" "\<lambda>c. bounded c \<and> need c \<le> n" for n
proof
  fix c s assume c: "bounded c \<and> need c \<le> n"
  then obtain r c' s' where t: "tick n c s = Some (r, c', s')" using tick_enough by (metis prod_cases3)
  then have "bounded c' \<and> need c' \<le> n" using c tick_reset [OF t] bounded_reset need_reset by metis
  with t show "\<exists>r c' s'. tick n c s = Some (r, c', s') \<and> bounded c' \<and> need c' \<le> n" by blast
qed

end
