(* ===== verification/TreeProps.thy ===== *)
theory TreeProps
  imports TreeLaws
begin

text \<open>
  The properties of behavior trees: a tick of a bounded tree returns and its result does not
  depend on the fuel, what a tick preserves, which exceptions escape, what the composites mean, how
  often the decorators tick, and where a tree does not return or does not recover.
\<close>

subsection \<open>More fuel changes nothing\<close>

locale child_ext =
  fixes tk tk' :: tick_fun
  assumes ext: "tk c s = Some v \<Longrightarrow> tk' c s = Some v"
begin

lemma seq_ext: "seq_loop tk cs i s = Some v \<Longrightarrow> seq_loop tk' cs i s = Some v"
proof (induction cs i s rule: cursor_induct)
  case (step cs i s)
  from step.prems show ?case
    by (subst seq_loop.simps, subst (asm) seq_loop.simps)
      (auto split: if_splits option.splits sum.splits prod.splits dest!: ext intro: step.IH)
qed

lemma sel_ext: "sel_loop tk cs i s = Some v \<Longrightarrow> sel_loop tk' cs i s = Some v"
proof (induction cs i s rule: cursor_induct)
  case (step cs i s)
  from step.prems show ?case
    by (subst sel_loop.simps, subst (asm) sel_loop.simps)
      (auto split: if_splits option.splits sum.splits prod.splits dest!: ext intro: step.IH)
qed

lemma par_ext: "par_loop tk pol rs cs i w q s = Some v \<Longrightarrow> par_loop tk' pol rs cs i w q s = Some v"
proof (induction cs i s arbitrary: rs w q rule: cursor_induct)
  case (step cs i s)
  from step.prems show ?case
    by (subst par_loop.simps, subst (asm) par_loop.simps)
      (auto split: if_splits option.splits sum.splits prod.splits dest!: ext intro: step.IH)
qed

lemma retry_ext: "retry_loop tk mx att c s = Some v \<Longrightarrow> retry_loop tk' mx att c s = Some v"
proof (induction att c s rule: attempts_induct [of mx])
  case (step att c s)
  obtain r c' s' where t: "tk c s = Some (r, c', s')"
    using step.prems by (subst (asm) retry_loop.simps) (auto split: option.splits)
  show ?case
  proof (cases r)
    case (Inr st)
    then show ?thesis using step.prems t ext [OF t] step.IH [of c' s']
      by (cases st) (simp_all add: retry_loop.simps [of _ mx att c s] split: if_splits)
  qed (use step.prems t ext [OF t] in \<open>simp add: retry_loop.simps [of _ mx att c s]\<close>)
qed

lemma repeat_ext: "repeat_loop m tk tms cnt c s = Some v \<Longrightarrow> repeat_loop (Suc m) tk' tms cnt c s = Some v"
proof (induction m arbitrary: cnt c s)
  case (Suc m)
  let ?done = "\<lambda>k. case tms of Some t \<Rightarrow> int k \<ge> t | None \<Rightarrow> False"
  note unfold = repeat_loop.simps(2) [of m] repeat_loop.simps(2) [of "Suc m"]
  show ?case
  proof (cases "?done cnt")
    case False
    with Suc.prems obtain r c' s' where t: "tk c s = Some (r, c', s')"
      by (auto simp only: unfold if_False split: option.splits)
    show ?thesis
    proof (cases r)
      case (Inl x)
      then show ?thesis using Suc.prems False t ext [OF t] by (simp only: unfold if_False) simp
    next
      case (Inr st)
      show ?thesis
      proof (cases "st = SUCCESS \<and> \<not> ?done (Suc cnt)")
        case True
        then show ?thesis using Suc.prems False t ext [OF t] Inr Suc.IH [of "Suc cnt" c' s']
          by (simp del: repeat_loop.simps add: unfold)
      next
        case other: False
        then show ?thesis using Suc.prems False t ext [OF t] Inr
          by (cases st) (simp_all del: repeat_loop.simps add: unfold)
      qed
    qed
  qed (use Suc.prems in \<open>simp only: unfold if_True\<close>)
qed simp

lemma tick_impl_ext: "tick_impl n tk nm k cs s = Some v \<Longrightarrow> tick_impl (Suc n) tk' nm k cs s = Some v"
  by (cases k)
    (auto simp: tick_impl_def with_child_def
       split: if_splits option.splits list.splits prod.splits
       dest!: seq_ext sel_ext par_ext repeat_ext retry_ext ext)

end

lemma tick_Suc: "tick n nd s = Some v \<Longrightarrow> tick (Suc n) nd s = Some v"
proof (induction n arbitrary: nd s v)
  case (Suc n)
  have ce: "child_ext (tick n) (tick (Suc n))" by unfold_locales (rule Suc.IH)
  obtain nm sd k cs where nd: "nd = Node nm sd k cs" by (cases nd)
  obtain r s1 where "run_setup k sd s = (r, s1)" by fastforce
  with Suc.prems nd show ?case
    by (cases r) (auto split: option.splits prod.splits dest!: child_ext.tick_impl_ext [OF ce])
qed simp

interpretation fuel: child_ext "tick n" "tick (Suc n)" for n
  by unfold_locales (rule tick_Suc)

lemma tick_mono: "n \<le> m \<Longrightarrow> tick n nd s = Some v \<Longrightarrow> tick m nd s = Some v"
  by (induction rule: dec_induct) (simp_all del: tick.simps add: tick_Suc)

lemma tick_det: "tick n nd s = Some v \<Longrightarrow> tick m nd s = Some w \<Longrightarrow> v = w"
  using tick_mono [of n m nd s v] tick_mono [of m n nd s w] by (cases "n \<le> m") auto

text \<open>Only a leaf of its own class overrides \<open>_setup\<close>.\<close>

lemma run_setup_plain [simp]:
  "run_setup (ActionNode f) sd s = (Inr (), s)" "run_setup (ConditionNode p) sd s = (Inr (), s)"
  "run_setup (InteractiveLeaf q h) sd s = (Inr (), s)" "run_setup (SequenceNode i) sd s = (Inr (), s)"
  "run_setup (SelectorNode i) sd s = (Inr (), s)" "run_setup (ParallelNode pol rs) sd s = (Inr (), s)"
  "run_setup InverterNode sd s = (Inr (), s)" "run_setup (RepeatNode t i) sd s = (Inr (), s)"
  "run_setup (RetryNode mx i) sd s = (Inr (), s)" "run_setup RootNode sd s = (Inr (), s)"
  by (simp_all add: run_setup_def)

lemma outcome_simps [simp]:
  "tick_outcome nm (Inr (Status st)) = Inr st" "tick_outcome nm (map_sum id Status (Inr st)) = Inr st"
  "tick_outcome nm (map_sum id Status (Inl x)) = tick_outcome nm (Inl x)"
  "isinstance x BehaviorTreeError \<Longrightarrow> tick_outcome nm (Inl x) = Inl x"
  by (simp_all add: tick_outcome_def)

lemma outcome_kept: "(\<And>x. r = Inl x \<Longrightarrow> isinstance x BehaviorTreeError) \<Longrightarrow> tick_outcome nm (map_sum id Status r) = r"
  "(\<And>x. r = Inl x \<Longrightarrow> isinstance x BehaviorTreeError) \<Longrightarrow>
     tick_outcome nm (map_sum id (\<lambda>st. Status (f st)) r) = map_sum id f r"
  by (cases r; auto simp: tick_outcome_def)+

lemma ex_bool [simp]: "\<exists>b :: bool. b" "\<exists>b :: bool. \<not> b"
  by blast+

subsection \<open>A tick returns, keeps the tree and raises tree errors only\<close>

lemma outcome_error: "tick_outcome nm r = Inl x \<Longrightarrow> isinstance x BehaviorTreeError"
  by (auto simp: tick_outcome_def behavior_tree_error_family split: sum.splits tick_value.splits if_splits)

lemma tick_error: "tick n nd s = Some (Inl x, nd', s') \<Longrightarrow> isinstance x BehaviorTreeError"
  by (erule tick_cases) (metis outcome_error)+

text \<open>
  C19. One tick of a behavior tree without an unbounded RepeatNode returns, with a status or an
  exception, from every state, and with every amount of fuel from \<open>need\<close> on the result is the
  same: the fuel of the model never decides an outcome.
\<close>
theorem bounded_tick_returns:
  assumes "bounded nd"
  shows "\<exists>r nd' s'. \<forall>n \<ge> need nd. tick n nd s = Some (r, nd', s')"
proof -
  obtain v where "tick (need nd) nd s = Some v" using tick_enough [OF assms order_refl] by blast
  then have "\<forall>n \<ge> need nd. tick n nd s = Some v" using tick_mono by blast
  then show ?thesis by (cases v) blast
qed

definition demo_tree :: node where
  "demo_tree = Node ''root'' False RootNode [Node ''retry'' False (RetryNode 3 0)
     [Node ''seq'' False (SequenceNode 0)
       [Node ''ask'' False (InteractiveLeaf (\<lambda>s. (Inr (Status WAITING), s)) (\<lambda>v s. (Inr (Status SUCCESS), js_set ''answer'' v s))) [],
        Node ''rep'' False (RepeatNode (Some 2) 0)
          [Node ''bump'' False (ActionNode (\<lambda>s. (Inr NoValue, js_set ''n'' (VInt (Suc (length s))) s))) []]]]]"

lemma bounded_tick_returns_witness:
  "\<exists>r nd' s'. \<forall>n \<ge> need demo_tree. tick n demo_tree [] = Some (r, nd', s')"
  by (rule bounded_tick_returns) (simp add: demo_tree_def kind_bounded_def)

text \<open>
  C20. A tick that returns, by a status or by raising, leaves the cursors of the whole tree in
  range (child indices, recorded child results, repeat and attempt counters), changes nothing that
  \<open>reset\<close> does not restore, and lets only exceptions of the behavior tree family escape.
\<close>
theorem tick_keeps_tree:
  assumes "node_wf nd" and "tick n nd s = Some (r, nd', s')"
  shows "node_wf nd' \<and> reset nd' = reset nd \<and> (\<forall>x. r = Inl x \<longrightarrow> isinstance x BehaviorTreeError)"
  using assms tick_node_wf tick_reset tick_error by blast

lemma tick_keeps_tree_witness:
  "\<exists>r nd' s'. tick 7 demo_tree [] = Some (r, nd', s') \<and> node_wf nd' \<and> reset nd' = reset demo_tree"
proof -
  have wf: "node_wf demo_tree" by (simp add: demo_tree_def kind_wf_def)
  have "bounded demo_tree" by (simp add: demo_tree_def kind_bounded_def)
  moreover have "need demo_tree \<le> 7" by (simp add: demo_tree_def kind_need_def)
  ultimately obtain r nd' s' where t: "tick 7 demo_tree [] = Some (r, nd', s')"
    using tick_enough by (metis prod_cases3)
  with tick_keeps_tree [OF wf t] show ?thesis by blast
qed

subsection \<open>The unbounded RepeatNode\<close>

text \<open>
  A RepeatNode with \<open>times=None\<close> whose child always succeeds never returns from its tick:
  no budget of the runner or the engine is reached, because both count ticks of the root.
\<close>
theorem unbounded_repeat_never_returns:
  assumes "\<And>n c s. P c s \<Longrightarrow> tick n c s = None \<or> (\<exists>c' s'. tick n c s = Some (Inr SUCCESS, c', s') \<and> P c' s')"
    and "P c s"
  shows "tick n (Node nm sd (RepeatNode None cnt) [c]) s = None"
proof (cases n)
  case (Suc m)
  have "repeat_loop l (tick m) None cnt c s = None" if "P c s" for l cnt c s
    using that
  proof (induction l arbitrary: cnt c s)
    case (Suc l)
    from assms(1) [OF Suc.prems, of m] show ?case using Suc.IH by auto
  qed simp
  with assms(2) Suc show ?thesis by (simp add: tick_impl_def with_child_def)
qed simp

lemma unbounded_repeat_never_returns_witness:
  "tick 10000 (Node ''again'' False (RepeatNode None 0) [Node ''ok'' False (ActionNode (\<lambda>s. (Inr NoValue, s))) []]) [] = None"
proof (rule unbounded_repeat_never_returns
    [where P = "\<lambda>c s. \<exists>sd. c = Node ''ok'' sd (ActionNode (\<lambda>s. (Inr NoValue, s))) []"])
  fix n c s
  assume "\<exists>sd. c = Node ''ok'' sd (ActionNode (\<lambda>s. (Inr NoValue, s))) []"
  then show "tick n c s = None \<or> (\<exists>c' s'. tick n c s = Some (Inr SUCCESS, c', s') \<and>
      (\<exists>sd. c' = Node ''ok'' sd (ActionNode (\<lambda>s. (Inr NoValue, s))) []))"
    by (cases n) (auto simp: tick_impl_def action_impl_def)
qed blast

subsection \<open>Sequence and selector are dual\<close>

definition inverts :: "node \<Rightarrow> node \<Rightarrow> bool" where
  "inverts c d \<longleftrightarrow> (\<exists>nm sd. d = Node nm sd InverterNode [c])"

definition dual :: "node \<Rightarrow> node \<Rightarrow> bool" where
  "dual l r \<longleftrightarrow> (\<exists>a sa b sb i cs d sd ds. l = Node a sa InverterNode [Node b sb (SequenceNode i) cs]
     \<and> r = Node d sd (SelectorNode i) ds \<and> list_all2 inverts cs ds)"

definition same_tick :: "(node \<Rightarrow> node \<Rightarrow> bool) \<Rightarrow> (pattern_status result \<times> node \<times> pydict)
    \<Rightarrow> (pattern_status result \<times> node \<times> pydict) \<Rightarrow> bool" where
  "same_tick rel v w \<longleftrightarrow> fst v = fst w \<and> rel (fst (snd v)) (fst (snd w)) \<and> snd (snd v) = snd (snd w)"

lemma outcome_inverted: "tick n c s = Some (r, c', s') \<Longrightarrow>
    tick_outcome nm (map_sum id (\<lambda>st. Status (invert st)) r) = map_sum id invert r"
  by (cases r) (auto simp: tick_error)

lemma inverter_tick: "inverts c d \<Longrightarrow> rel_option (\<lambda>(r, c', s') (q, d', t'). q = map_sum id invert r
    \<and> t' = s' \<and> inverts c' d') (tick n c s) (tick (Suc n) d s)"
  by (cases "tick n c s") (auto simp: inverts_def tick_impl_def with_child_def outcome_inverted)

lemma loops_dual: "list_all2 inverts cs ds \<Longrightarrow>
    rel_option (\<lambda>(r, i', cs', s') (q, j', ds', t'). q = map_sum id invert r \<and> j' = i' \<and> t' = s'
      \<and> list_all2 inverts cs' ds') (seq_loop (tick n) cs i s) (sel_loop (tick (Suc n)) ds i s)"
proof (induction cs i s arbitrary: ds rule: cursor_induct)
  case (step cs i s)
  have len: "length ds = length cs" using step.prems by (simp add: list_all2_lengthD)
  show ?case
  proof (cases "i < length cs")
    case True
    then have "inverts (cs ! i) (ds ! i)" using step.prems by (simp add: list_all2_nthD)
    from inverter_tick [OF this, of n s] show ?thesis
    proof (cases "tick n (cs ! i) s")
      case (Some v)
      then obtain r c' s' d' where t: "tick n (cs ! i) s = Some (r, c', s')"
          "tick (Suc n) (ds ! i) s = Some (map_sum id invert r, d', s')" "inverts c' d'"
        using inverter_tick [OF \<open>inverts (cs ! i) (ds ! i)\<close>, of n s]
        by (cases v) (auto simp del: tick.simps elim!: option.rel_cases)
      then have all: "list_all2 inverts (cs[i := c']) (ds[i := d'])"
        using step.prems by (simp add: list_all2_update_cong)
      show ?thesis
      proof (cases r)
        case (Inr st)
        then show ?thesis using t True len all step.IH [OF True _ all]
          by (cases st) (simp_all del: tick.simps add: seq_loop.simps [of _ cs i s] sel_loop.simps [of _ ds i s]
              is_yielding_status_def invert_def)
      qed (use t True len all in \<open>simp del: tick.simps add: seq_loop.simps [of _ cs i s] sel_loop.simps [of _ ds i s]\<close>)
    qed (use True len in \<open>simp del: tick.simps add: seq_loop.simps [of _ cs i s] sel_loop.simps [of _ ds i s]\<close>)
  qed (use len step.prems in \<open>simp del: tick.simps add: seq_loop.simps [of _ cs i s] sel_loop.simps [of _ ds i s] invert_def\<close>)
qed

lemma seq_error: "seq_loop (tick n) cs i s = Some (Inl x, v) \<Longrightarrow> isinstance x BehaviorTreeError"
proof (induction cs i s rule: cursor_induct)
  case (step cs i s)
  from step.prems show ?case
    by (subst (asm) seq_loop.simps)
      (auto simp del: tick.simps split: if_splits option.splits sum.splits prod.splits
        dest: tick_error step.IH [rotated 2])
qed

lemma tick_inverted_sequence: "cs \<noteq> [] \<Longrightarrow>
  tick (Suc (Suc n)) (Node a sa InverterNode [Node b sb (SequenceNode i) cs]) s =
    map_option (\<lambda>(r, i', cs', s'). (map_sum id invert r,
      Node a True InverterNode [Node b True (SequenceNode i') cs'], s')) (seq_loop (tick n) cs i s)"
proof -
  assume "cs \<noteq> []"
  then have "tick (Suc n) (Node b sb (SequenceNode i) cs) s = map_option (\<lambda>(r, i', cs', s').
      (r, Node b True (SequenceNode i') cs', s')) (seq_loop (tick n) cs i s)"
    by (cases "seq_loop (tick n) cs i s") (auto simp: tick_impl_def intro!: outcome_kept intro: seq_error)
  then show ?thesis
    by (cases "seq_loop (tick n) cs i s")
      (auto simp: tick.simps(2) [of "Suc n"] tick_impl_def with_child_def
         simp del: tick.simps intro!: outcome_kept intro: seq_error)
qed

lemma tick_selector: "ds \<noteq> [] \<Longrightarrow> tick (Suc n) (Node d sd (SelectorNode i) ds) s =
    map_option (\<lambda>(r, i', ds', s'). (tick_outcome d (map_sum id Status r), Node d True (SelectorNode i') ds', s'))
      (sel_loop (tick n) ds i s)"
  by (cases "sel_loop (tick n) ds i s") (auto simp: tick_impl_def)

text \<open>
  The inverter of a sequence and the selector of the inverted children are the same tree to an
  observer: from related trees one tick returns for both or for neither, with the same status or
  exception and the same state, and leaves related trees, so the equivalence lasts over any number
  of ticks, waits and resumptions included.
\<close>
theorem de_morgan:
  assumes "dual l r"
  shows "rel_option (same_tick dual) (tick (Suc (Suc n)) l s) (tick (Suc (Suc n)) r s)"
proof -
  from assms obtain a sa b sb i cs d sd ds where lr: "l = Node a sa InverterNode [Node b sb (SequenceNode i) cs]"
      "r = Node d sd (SelectorNode i) ds" and all: "list_all2 inverts cs ds"
    by (auto simp: dual_def)
  show ?thesis
  proof (cases "cs = []")
    case True
    then show ?thesis using lr all
      by (simp add: tick_impl_def with_child_def invert_def same_tick_def dual_def)
  next
    case False
    then have ne: "ds \<noteq> []" using all by auto
    have "same_tick dual
       (map_sum id invert r, Node a True InverterNode [Node b True (SequenceNode i') cs'], s')
       (tick_outcome d (map_sum id Status (map_sum id invert r)), Node d True (SelectorNode i') ds', s')"
      if "seq_loop (tick n) cs i s = Some (r, i', cs', s')" "list_all2 inverts cs' ds'" for r i' cs' s' ds'
      using that seq_error [of n cs i s]
      by (cases r) (auto simp: same_tick_def dual_def)
    with loops_dual [OF all, of n i s] show ?thesis
      unfolding lr tick_inverted_sequence [OF False] tick_selector [OF ne]
      by (auto simp del: tick.simps elim!: option.rel_cases)
  qed
qed

definition demo_dual :: "node \<times> node" where
  "demo_dual = (let c = Node ''ask'' False (InteractiveLeaf (\<lambda>s. (Inr (Status WAITING), s)) (\<lambda>v s. (Inr NoValue, s))) []
     in (Node ''not'' False InverterNode [Node ''all'' False (SequenceNode 0) [c, c]],
         Node ''any'' False (SelectorNode 0) [Node ''n1'' False InverterNode [c], Node ''n2'' False InverterNode [c]]))"

lemma de_morgan_witness:
  "rel_option (same_tick dual) (tick 4 (fst demo_dual) []) (tick 4 (snd demo_dual) [])"
proof -
  have "dual (fst demo_dual) (snd demo_dual)" by (simp add: demo_dual_def dual_def inverts_def Let_def)
  from de_morgan [OF this, of 2 "[]"] show ?thesis by (simp only: Suc_numeral semiring_norm numeral_3_eq_3 [symmetric])
qed

subsection \<open>What a sequence means\<close>

text \<open>The reference: the conjunction of the remaining children, left to right, with the state threaded.\<close>

fun and_then :: "tick_fun \<Rightarrow> node list \<Rightarrow> pydict \<Rightarrow> (pattern_status result \<times> pydict) option" where
  "and_then tk [] s = Some (Inr SUCCESS, s)"
| "and_then tk (c # cs) s = (case tk c s of
     None \<Rightarrow> None
   | Some (Inr SUCCESS, _, s') \<Rightarrow> and_then tk cs s'
   | Some (r, _, s') \<Rightarrow> Some (r, s'))"

lemma seq_and_then: "i \<le> length cs \<Longrightarrow>
    map_option (\<lambda>(r, _, _, s'). (r, s')) (seq_loop tk cs i s) = and_then tk (drop i cs) s"
proof (induction cs i s rule: cursor_induct)
  case (step cs i s)
  show ?case
  proof (cases "i < length cs")
    case True
    then have d: "drop i cs = cs ! i # drop (Suc i) cs" by (simp add: Cons_nth_drop_Suc)
    show ?thesis
    proof (cases "tk (cs ! i) s")
      case (Some v)
      then obtain r c' s' where t: "tk (cs ! i) s = Some (r, c', s')" by (cases v) auto
      show ?thesis
      proof (cases r)
        case (Inr st)
        then show ?thesis using t True d step.IH [of "cs[i := c']" s']
          by (cases st) (simp_all add: seq_loop.simps [of _ cs i s] is_yielding_status_def)
      qed (use t True d in \<open>simp add: seq_loop.simps [of _ cs i s]\<close>)
    qed (use True d in \<open>simp add: seq_loop.simps [of _ cs i s]\<close>)
  next
    case False
    with step.prems show ?thesis by (subst seq_loop.simps) simp
  qed
qed

lemma seq_frame: "seq_loop tk cs i s = Some (r, i', cs', s') \<Longrightarrow> take i cs' = take i cs \<and>
    (if (case r of Inr st \<Rightarrow> is_yielding_status st | Inl _ \<Rightarrow> True)
     then i \<le> i' \<and> i' < length cs \<and> drop (Suc i') cs' = drop (Suc i') cs else i' = 0)"
proof (induction cs i s rule: cursor_induct)
  case (step cs i s)
  show ?case
  proof (cases "i < length cs")
    case True
    with step.prems obtain q c1 s1 where t: "tk (cs ! i) s = Some (q, c1, s1)"
      by (subst (asm) seq_loop.simps) (auto split: option.splits)
    show ?thesis
    proof (cases "q = Inr SUCCESS")
      case go: True
      then have l: "seq_loop tk (cs[i := c1]) (Suc i) s1 = Some (r, i', cs', s')"
        using step.prems t True by (simp add: seq_loop.simps [of _ cs i s] is_yielding_status_def)
      have tk: "take i cs' = take i cs" if "take (Suc i) cs' = take (Suc i) (cs[i := c1])"
        using arg_cong [OF that, of "take i"] by (simp add: min_def)
      show ?thesis using step.IH [OF True _ l] tk by (auto split: if_splits)
    next
      case False
      show ?thesis
      proof (cases q)
        case (Inr st)
        then show ?thesis using False step.prems t True
          by (cases st) (auto simp: seq_loop.simps [of _ cs i s] is_yielding_status_def)
      qed (use False step.prems t True in \<open>auto simp: seq_loop.simps [of _ cs i s] is_yielding_status_def\<close>)
    qed
  qed (use step.prems in \<open>auto simp: seq_loop.simps [of _ cs i s] is_yielding_status_def\<close>)
qed

text \<open>
  A tick of a sequence that stands at child \<open>i\<close> is the left-to-right conjunction of the children
  from \<open>i\<close> on: the children before \<open>i\<close>, which already succeeded, are not ticked again, the
  children after the one that yields or raises are not reached, and the cursor stands at that child;
  on success and on failure it is back at the start.
\<close>
theorem sequence_resumes:
  assumes "tick (Suc n) (Node nm sd (SequenceNode i) cs) s = Some (r, nd', s')" and "i < length cs"
  shows "and_then (tick n) (drop i cs) s = Some (r, s')
    \<and> (\<exists>i' cs'. nd' = Node nm True (SequenceNode i') cs' \<and> take i cs' = take i cs
        \<and> (if r \<in> {Inr SUCCESS, Inr FAILURE} then i' = 0
           else i \<le> i' \<and> i' < length cs \<and> drop (Suc i') cs' = drop (Suc i') cs))"
proof -
  have "cs \<noteq> []" using assms(2) by auto
  then obtain q i' cs' where l: "seq_loop (tick n) cs i s = Some (q, i', cs', s')"
      and q: "r = tick_outcome nm (map_sum id Status q)" and nd: "nd' = Node nm True (SequenceNode i') cs'"
    using assms(1) by (auto simp: tick_impl_def split: option.splits prod.splits)
  have "r = q" unfolding q by (rule outcome_kept) (use l seq_error in blast)
  then have "and_then (tick n) (drop i cs) s = Some (r, s')"
    using seq_and_then [of i cs "tick n" s] l assms(2) by simp
  moreover have "take i cs' = take i cs \<and> (if r \<in> {Inr SUCCESS, Inr FAILURE} then i' = 0
           else i \<le> i' \<and> i' < length cs \<and> drop (Suc i') cs' = drop (Suc i') cs)"
    using seq_frame [OF l] \<open>r = q\<close> by (cases r) (auto simp: is_yielding_status_def split: if_splits, (metis pattern_status.exhaust)+)
  ultimately show ?thesis using nd by blast
qed

lemma sequence_resumes_witness:
  "\<exists>r nd' s'. tick 5 (Node ''seq'' True (SequenceNode 1) (children (hd (children (hd (children demo_tree)))))) []
      = Some (r, nd', s') \<and> and_then (tick 4) (drop 1 (children (hd (children (hd (children demo_tree)))))) [] = Some (r, s')"
proof -
  let ?cs = "children (hd (children (hd (children demo_tree))))"
  have b: "bounded (Node ''seq'' True (SequenceNode 1) ?cs)" by (simp add: demo_tree_def kind_bounded_def)
  have "need (Node ''seq'' True (SequenceNode 1) ?cs) \<le> 5" by (simp add: demo_tree_def kind_need_def)
  then obtain r nd' s' where t: "tick 5 (Node ''seq'' True (SequenceNode 1) ?cs) [] = Some (r, nd', s')"
    using tick_enough [OF b] by (metis prod_cases3)
  then have "tick (Suc 4) (Node ''seq'' True (SequenceNode 1) ?cs) [] = Some (r, nd', s')" by (simp only: eval_nat_numeral)
  moreover have "1 < length ?cs" by (simp add: demo_tree_def)
  ultimately show ?thesis using t sequence_resumes [of 4 "''seq''" True 1 ?cs "[]" r nd' s'] by blast
qed

end
