(* ===== verification/TreeLimits.thy ===== *)
theory TreeLimits
  imports TreeProps
begin

text \<open>
  How often decorators tick their child, what a parallel node remembers, and the combination of
  the two that does not work: a retry around a parallel node cannot recover, because a retry does
  not reset its child and the parallel node keeps the recorded failure.
\<close>

subsection \<open>The parallel node\<close>

lemma update_keeps: "x \<in> set rs \<Longrightarrow> rs ! i \<noteq> x \<Longrightarrow> x \<in> set (rs[i := y])"
  by (metis in_set_conv_nth length_list_update nth_list_update_neq)

lemma verdict_failed: "Some FAILURE \<in> set rs \<Longrightarrow> parallel_verdict SUCCESS_ON_ALL rs n w q \<noteq> SUCCESS"
  by (auto simp: parallel_verdict_def filter_empty_conv)

lemma par_failure_sticks:
  "par_loop tk SUCCESS_ON_ALL rs cs i w q s = Some (r, rs', cs', s') \<Longrightarrow> Some FAILURE \<in> set rs \<Longrightarrow>
    Some FAILURE \<in> set rs' \<and> r \<noteq> Inr SUCCESS"
proof (induction cs i s arbitrary: r rs w q rule: cursor_induct)
  case (step cs i s)
  have keep: "Some FAILURE \<in> set (rs[i := Some st])" if "rs ! i = None" for st
    using update_keeps [OF step.prems(2), of i] that by simp
  from step.prems show ?case
    by (subst (asm) par_loop.simps)
      (auto simp: keep verdict_failed split: if_splits option.splits sum.splits prod.splits
         dest: step.IH [rotated 2] intro: set_update_memI)
qed

lemma parallel_failure_is_final:
  assumes "tick n (Node nm sd (ParallelNode SUCCESS_ON_ALL rs) cs) s = Some (r, nd', s')"
    and "Some FAILURE \<in> set rs" and "length rs = length cs"
  shows "r \<noteq> Inr SUCCESS \<and> (\<exists>rs' cs'. nd' = Node nm True (ParallelNode SUCCESS_ON_ALL rs') cs'
    \<and> Some FAILURE \<in> set rs' \<and> length rs' = length cs')"
proof (cases n)
  case (Suc m)
  have "cs \<noteq> []" using assms(2,3) by auto
  with assms(1) Suc obtain q rs' cs' where l: "par_loop (tick m) SUCCESS_ON_ALL rs cs 0 False False s = Some (q, rs', cs', s')"
      and r: "r = tick_outcome nm (map_sum id Status q)" and nd: "nd' = Node nm True (ParallelNode SUCCESS_ON_ALL rs') cs'"
    by (auto simp: tick_impl_def split: option.splits prod.splits)
  have "length cs' = length cs" "length rs' = length cs"
    using cursors.par_rel [OF l] assms(3) by (auto dest: list_all2_lengthD)
  moreover have "r \<noteq> Inr SUCCESS" using par_failure_sticks [OF l assms(2)] r
    by (cases q) (auto simp: tick_outcome_def split: if_splits)
  ultimately show ?thesis using nd par_failure_sticks [OF l assms(2)] by simp
qed (use assms in simp)

lemma retry_parallel_fails:
  "retry_loop (tick n) mx att c s = Some (r, att', c', s') \<Longrightarrow>
    \<exists>p sp rs cs. c = Node p sp (ParallelNode SUCCESS_ON_ALL rs) cs \<and> Some FAILURE \<in> set rs \<and> length rs = length cs \<Longrightarrow>
    r \<noteq> Inr SUCCESS"
proof (induction att c s arbitrary: r rule: attempts_induct [of mx])
  case (step att c s)
  obtain q c1 s1 where t: "tick n c s = Some (q, c1, s1)"
    using step.prems(1) by (subst (asm) retry_loop.simps) (auto split: option.splits)
  from step.prems(2) t have q: "q \<noteq> Inr SUCCESS"
      and c1: "\<exists>p sp rs cs. c1 = Node p sp (ParallelNode SUCCESS_ON_ALL rs) cs \<and> Some FAILURE \<in> set rs \<and> length rs = length cs"
    by (blast dest: parallel_failure_is_final)+
  show ?case
  proof (cases q)
    case (Inl x)
    then show ?thesis using step.prems(1) t by (auto simp: retry_loop.simps [of _ mx att c s])
  next
    case (Inr st)
    then show ?thesis using step.prems(1) t q step.IH [OF _ _ c1]
      by (cases st) (auto simp: retry_loop.simps [of _ mx att c s] split: if_splits)
  qed
qed

text \<open>
  A retry around an all-must-succeed parallel node that has a failed child never succeeds,
  whatever the number of attempts left: the retry does not reset its child, and the parallel node
  neither runs the failed child again nor forgets its failure.
\<close>
theorem retry_cannot_recover_parallel:
  assumes "Some FAILURE \<in> set rs" and "length rs = length cs"
    and "tick n (Node nm sd (RetryNode mx att) [Node p sp (ParallelNode SUCCESS_ON_ALL rs) cs]) s = Some (r, nd', s')"
  shows "r \<noteq> Inr SUCCESS"
proof (cases n)
  case (Suc m)
  with assms(3) obtain q att' c' where "retry_loop (tick m) mx att (Node p sp (ParallelNode SUCCESS_ON_ALL rs) cs) s = Some (q, att', c', s')"
      and "r = tick_outcome nm (map_sum id Status q)"
    by (auto simp del: tick.simps(2) simp: tick.simps(2) [of m] tick_impl_def with_child_def split: option.splits prod.splits)
  moreover from this have "q \<noteq> Inr SUCCESS" using retry_parallel_fails assms(1,2) by blast
  ultimately show ?thesis by (cases q) (auto simp: tick_outcome_def split: if_splits)
qed (use assms in simp)

text \<open>The child fails on its first call only, and yet the second attempt fails without calling it.\<close>

definition flaky :: "pydict \<Rightarrow> tick_value result \<times> pydict" where
  "flaky s = (Inr (Status (if js_has s ''tried'' then SUCCESS else FAILURE)), js_set ''tried'' (VBool True) s)"

lemma retry_cannot_recover_parallel_witness:
  "\<exists>r nd' s'. tick 4 (Node ''retry'' True (RetryNode 3 1) [Node ''par'' True (ParallelNode SUCCESS_ON_ALL [Some FAILURE])
      [Node ''flaky'' True (ActionNode flaky) []]]) [(''tried'', VBool True)] = Some (r, nd', s') \<and> r \<noteq> Inr SUCCESS"
proof -
  let ?t = "Node ''retry'' True (RetryNode 3 1) [Node ''par'' True (ParallelNode SUCCESS_ON_ALL [Some FAILURE])
      [Node ''flaky'' True (ActionNode flaky) []]]"
  have b: "bounded ?t" by (simp add: kind_bounded_def)
  have "need ?t \<le> 4" by (simp add: kind_need_def)
  then obtain r nd' s' where t: "tick 4 ?t [(''tried'', VBool True)] = Some (r, nd', s')"
    using tick_enough [OF b] by (metis prod_cases3)
  with retry_cannot_recover_parallel [OF _ _ t] show ?thesis by simp
qed

subsection \<open>How often a decorator ticks its child\<close>

text \<open>A measure of the state that every tick of the child raises by one.\<close>

definition counts_ticks :: "tick_fun \<Rightarrow> (node \<Rightarrow> bool) \<Rightarrow> (pydict \<Rightarrow> nat) \<Rightarrow> bool" where
  "counts_ticks tk like f \<longleftrightarrow> (\<forall>c s r c' s'. like c \<longrightarrow> tk c s = Some (r, c', s') \<longrightarrow> f s' = Suc (f s) \<and> like c')"

lemma retry_counted:
  "retry_loop tk mx att c s = Some (r, att', c', s') \<Longrightarrow> counts_ticks tk like f \<Longrightarrow> like c \<Longrightarrow> int att < mx \<Longrightarrow>
    f s < f s' \<and> int (f s') \<le> int (f s) + mx - int att
    \<and> (r = Inr FAILURE \<longrightarrow> int (f s') = int (f s) + mx - int att \<and> att' = 0)"
proof (induction att c s arbitrary: r rule: attempts_induct [of mx])
  case (step att c s)
  obtain q c1 s1 where t: "tk c s = Some (q, c1, s1)"
    using step.prems(1) by (subst (asm) retry_loop.simps) (auto split: option.splits)
  have n: "f s1 = Suc (f s)" "like c1" using step.prems(2,3) t unfolding counts_ticks_def by blast+
  show ?case
  proof (cases q)
    case (Inl x)
    then show ?thesis using step.prems t n by (auto simp: retry_loop.simps [of _ mx att c s])
  next
    case (Inr st)
    then show ?thesis using step.prems t n step.IH [of c1 s1 r]
      by (cases st) (auto simp: retry_loop.simps [of _ mx att c s] split: if_splits)
  qed
qed

lemma repeat_counted:
  "repeat_loop m tk (Some t) cnt c s = Some (r, cnt', c', s') \<Longrightarrow> counts_ticks tk like f \<Longrightarrow> like c \<Longrightarrow> int cnt < t \<Longrightarrow>
    f s < f s' \<and> int (f s') \<le> int (f s) + t - int cnt
    \<and> (r = Inr SUCCESS \<longrightarrow> int (f s') = int (f s) + t - int cnt \<and> cnt' = 0)"
proof (induction m arbitrary: cnt c s r)
  case (Suc m)
  obtain q c1 s1 where q: "tk c s = Some (q, c1, s1)"
    using Suc.prems(1,4) by (auto split: option.splits)
  have n: "f s1 = Suc (f s)" "like c1" using Suc.prems(2,3) q unfolding counts_ticks_def by blast+
  show ?case
  proof (cases q)
    case (Inl x)
    then show ?thesis using Suc.prems q n by auto
  next
    case (Inr st)
    then show ?thesis using Suc.prems q n Suc.IH [of "Suc cnt" c1 s1 r]
      by (cases st) (auto split: if_splits)
  qed
qed simp

text \<open>
  A retry ticks its child at least once and never more than the attempts left; it reports
  FAILURE only after exactly \<open>max_attempts\<close> failures, counted across the ticks in which the child
  was waiting, and its counter is then back at zero. (The measure \<open>f\<close> counts the ticks of the child.)
\<close>
theorem retry_attempts:
  assumes "tick (Suc n) (Node nm sd (RetryNode mx att) [c]) s = Some (r, Node nm' sd' (RetryNode mx' att') cs', s')"
    and "counts_ticks (tick n) like f" and "like c" and "int att < mx"
  shows "f s < f s' \<and> int (f s') \<le> int (f s) + mx - int att
    \<and> (r = Inr FAILURE \<longrightarrow> int (f s') = int (f s) + mx - int att \<and> att' = 0)"
proof -
  from assms(1) obtain q c' where l: "retry_loop (tick n) mx att c s = Some (q, att', c', s')"
      and r: "r = tick_outcome nm (map_sum id Status q)"
    by (auto simp: tick_impl_def with_child_def split: option.splits prod.splits)
  have "r = Inr FAILURE \<Longrightarrow> q = Inr FAILURE" using r by (cases q) (auto simp: tick_outcome_def split: if_splits)
  with retry_counted [OF l assms(2-4)] show ?thesis by blast
qed

definition failing_bump :: "pydict \<Rightarrow> tick_value result \<times> pydict" where
  "failing_bump s = (Inr (Status FAILURE), s @ [(''call'', VNone)])"

definition bump_leaf :: "node \<Rightarrow> bool" where
  "bump_leaf c \<longleftrightarrow> (\<exists>sd. c = Node ''bump'' sd (ActionNode failing_bump) [])"

lemma bump_counts: "counts_ticks (tick n) bump_leaf length"
  by (cases n) (auto simp: counts_ticks_def bump_leaf_def tick_impl_def action_impl_def failing_bump_def)

lemma retry_attempts_witness:
  "\<exists>c' s'. tick 2 (Node ''retry'' False (RetryNode 3 0) [Node ''bump'' False (ActionNode failing_bump) []]) []
      = Some (Inr FAILURE, Node ''retry'' True (RetryNode 3 0) [c'], s') \<and> length s' = 3"
proof -
  obtain c' s' where t: "tick (Suc 1) (Node ''retry'' False (RetryNode 3 0) [Node ''bump'' False (ActionNode failing_bump) []]) []
      = Some (Inr FAILURE, Node ''retry'' True (RetryNode 3 0) [c'], s')"
    by (simp add: tick_impl_def with_child_def retry_loop.simps action_impl_def failing_bump_def)
  from retry_attempts [OF t bump_counts] have "length s' = 3" by (simp add: bump_leaf_def)
  with t show ?thesis by (simp only: Suc_1) blast
qed

text \<open>
  A bounded repeat never ticks its child more than \<open>times\<close> times, and it reports SUCCESS only
  after exactly \<open>times\<close> successes, counted across the ticks in which the child was waiting.
\<close>
theorem repeat_exact:
  assumes "tick (Suc n) (Node nm sd (RepeatNode (Some t) cnt) [c]) s = Some (r, Node nm' sd' (RepeatNode tms' cnt') cs', s')"
    and "counts_ticks (tick n) like f" and "like c" and "int cnt < t"
  shows "f s < f s' \<and> int (f s') \<le> int (f s) + t - int cnt
    \<and> (r = Inr SUCCESS \<longrightarrow> int (f s') = int (f s) + t - int cnt \<and> cnt' = 0)"
proof -
  from assms(1,4) obtain q c' where l: "repeat_loop n (tick n) (Some t) cnt c s = Some (q, cnt', c', s')"
      and r: "r = tick_outcome nm (map_sum id Status q)"
    by (auto simp: tick_impl_def with_child_def split: option.splits prod.splits)
  have "r = Inr SUCCESS \<Longrightarrow> q = Inr SUCCESS" using r by (cases q) (auto simp: tick_outcome_def split: if_splits)
  with repeat_counted [OF l assms(2-4)] show ?thesis by blast
qed

lemma repeat_exact_witness:
  "\<exists>c' s'. tick (Suc 3) (Node ''rep'' False (RepeatNode (Some 2) 0) [Node ''bump'' False (ActionNode failing_bump) []]) []
      = Some (Inr FAILURE, Node ''rep'' True (RepeatNode (Some 2) 0) [c'], s') \<and> 0 < length s' \<and> length s' \<le> 2"
proof -
  obtain c' s' where t: "tick (Suc 3) (Node ''rep'' False (RepeatNode (Some 2) 0) [Node ''bump'' False (ActionNode failing_bump) []]) []
      = Some (Inr FAILURE, Node ''rep'' True (RepeatNode (Some 2) 0) [c'], s')"
    by (simp add: eval_nat_numeral tick_impl_def with_child_def action_impl_def failing_bump_def)
  from repeat_exact [OF t bump_counts] have "0 < length s' \<and> length s' \<le> 2" by (simp add: bump_leaf_def)
  with t show ?thesis by blast
qed

end
