(* ===== verification/TreeEngine.thy ===== *)
theory TreeEngine
  imports TreeProps
begin

text \<open>
  \<open>BehaviorTreeEngine\<close> (\<open>palm/core/behavior_tree/engine.py\<close>): the root, the configured state and the
  last status. As for the tick, \<open>None\<close> means that the tick has not returned within the fuel.
\<close>

record bt_engine =
  bt_root :: "node option"
  bt_state :: "pydict option"
  last_status :: pattern_status

definition new_bt_engine :: bt_engine where
  "new_bt_engine = \<lparr>bt_root = None, bt_state = None, last_status = FAILURE\<rparr>"

definition require_state :: "bt_engine \<Rightarrow> pydict result" where
  "require_state e = (case bt_state e of Some s \<Rightarrow> Inr s
     | None \<Rightarrow> Inl (Exc StateNotConfiguredError ''No execution state is configured. Pass state= to initialize().''))"

text \<open>
  \<open>tick\<close>: node and state errors pass, every other exception (the rest of the tree family included)
  is wrapped. Trees are values here, so the validation of a \<open>RootNode\<close> in \<open>set_root\<close> cannot fail;
  its failures are the subject of the tree structure theory.
\<close>

definition engine_error :: "exc \<Rightarrow> exc" where
  "engine_error x = (if isinstance x NodeExecutionError \<or> isinstance x StateError then x
     else Exc BehaviorTreeError (''Unexpected error during BehaviorTreeEngine.tick: '' @ exc_msg x))"

definition bt_tick :: "nat \<Rightarrow> bt_engine \<Rightarrow> (pattern_status result \<times> bt_engine) option" where
  "bt_tick n e = (case bt_root e of
     None \<Rightarrow> Some (Inr FAILURE, e\<lparr>last_status := FAILURE\<rparr>)
   | Some rt \<Rightarrow>
      (case require_state e of
         Inl x \<Rightarrow> Some (Inl (engine_error x), e)
       | Inr s \<Rightarrow>
          (case tick n rt s of
             None \<Rightarrow> None
           | Some (Inl x, rt', s') \<Rightarrow> Some (Inl (engine_error x), e\<lparr>bt_root := Some rt', bt_state := Some s'\<rparr>)
           | Some (Inr st, rt', s') \<Rightarrow>
               Some (Inr st, e\<lparr>bt_root := Some rt', bt_state := Some s', last_status := st\<rparr>))))"

fun status_name :: "pattern_status \<Rightarrow> string" where
  "status_name SUCCESS = ''success''"
| "status_name FAILURE = ''failure''"
| "status_name RUNNING_STATUS = ''running''"
| "status_name WAITING = ''waiting_for_input''"

fun bt_tick_loop :: "nat \<Rightarrow> int \<Rightarrow> nat \<Rightarrow> bt_engine \<Rightarrow> (pattern_status result \<times> bt_engine) option" where
  "bt_tick_loop n max_ticks 0 e = Some (Inl (Exc BehaviorTreeError
     (''Tree did not reach a terminal state after '' @ show_int max_ticks @ '' ticks. Last status: ''
      @ status_name (last_status e))), e)"
| "bt_tick_loop n max_ticks (Suc k) e = (case bt_tick n e of
     None \<Rightarrow> None
   | Some (Inl x, e') \<Rightarrow> Some (Inl x, e')
   | Some (Inr st, e') \<Rightarrow> if st \<noteq> RUNNING_STATUS then Some (Inr st, e') else bt_tick_loop n max_ticks k e')"

definition tick_until_terminal :: "nat \<Rightarrow> int \<Rightarrow> bt_engine \<Rightarrow> (pattern_status result \<times> bt_engine) option" where
  "tick_until_terminal n max_ticks e =
     (if max_ticks < 1 then Some (Inl (Exc PyValueError ''max_ticks must be >= 1''), e)
      else bt_tick_loop n max_ticks (nat max_ticks) e)"

definition bt_reset :: "bt_engine \<Rightarrow> bt_engine" where
  "bt_reset e = e\<lparr>bt_root := map_option reset (bt_root e), last_status := FAILURE\<rparr>"

definition set_root :: "node \<Rightarrow> bt_engine \<Rightarrow> bt_engine" where
  "set_root rt e = e\<lparr>bt_root := Some rt\<rparr>"

definition bt_do_initialize :: "pydict option \<Rightarrow> node option \<Rightarrow> bt_engine \<Rightarrow> bt_engine" where
  "bt_do_initialize st rt e =
     (let e1 = (case st of Some s \<Rightarrow> e\<lparr>bt_state := Some s\<rparr> | None \<Rightarrow> e)
      in case rt of Some r \<Rightarrow> set_root r e1 | None \<Rightarrow> e1)"

text \<open>The cleared state object is not kept by the engine; the second component is what its owner still sees.\<close>

definition bt_do_shutdown :: "bt_engine \<Rightarrow> bt_engine \<times> pydict option" where
  "bt_do_shutdown e =
     (let e1 = bt_reset e in (e1\<lparr>bt_state := None, bt_root := None\<rparr>, map_option (\<lambda>_. []) (bt_state e1)))"

lemma tree_error_wrapped:
  "tick n nd s = Some (Inl x, nd', s') \<Longrightarrow> isinstance (engine_error x) BehaviorTreeError"
  using tick_error [of n nd s x nd' s']
  by (auto simp: engine_error_def behavior_tree_error_family state_error_family)

lemma bt_tick_enough:
  assumes "\<forall>rt. bt_root e = Some rt \<longrightarrow> bounded rt \<and> need rt \<le> n"
  shows "\<exists>r e'. bt_tick n e = Some (r, e') \<and> (\<forall>rt. bt_root e' = Some rt \<longrightarrow> bounded rt \<and> need rt \<le> n)
    \<and> (bt_state e \<noteq> None \<longrightarrow> bt_state e' \<noteq> None \<and> (\<forall>x. r = Inl x \<longrightarrow> isinstance x BehaviorTreeError))"
proof (cases "bt_root e")
  case (Some rt)
  show ?thesis
  proof (cases "bt_state e")
    case st: (Some s)
    from assms Some obtain r rt' s' where t: "tick n rt s = Some (r, rt', s')" "bounded rt' \<and> need rt' \<le> n"
      using enough.total by metis
    then show ?thesis using Some st
      by (cases r) (auto simp: bt_tick_def require_state_def dest: tree_error_wrapped)
  qed (use Some assms in \<open>auto simp: bt_tick_def require_state_def\<close>)
qed (auto simp: bt_tick_def)

lemma tick_loop_returns:
  "\<forall>rt. bt_root e = Some rt \<longrightarrow> bounded rt \<and> need rt \<le> n \<Longrightarrow> bt_state e \<noteq> None \<Longrightarrow>
    \<exists>r e'. bt_tick_loop n mx k e = Some (r, e')
      \<and> (case r of Inr st \<Rightarrow> st \<noteq> RUNNING_STATUS | Inl x \<Rightarrow> isinstance x BehaviorTreeError)"
proof (induction k arbitrary: e)
  case (Suc k)
  from bt_tick_enough [OF Suc.prems(1)] obtain r e' where t: "bt_tick n e = Some (r, e')"
      and keep: "\<forall>rt. bt_root e' = Some rt \<longrightarrow> bounded rt \<and> need rt \<le> n" "bt_state e' \<noteq> None"
      and err: "\<forall>x. r = Inl x \<longrightarrow> isinstance x BehaviorTreeError"
    using Suc.prems(2) by blast
  show ?case
  proof (cases r)
    case (Inr st)
    then show ?thesis using t Suc.IH [OF keep] by (cases "st = RUNNING_STATUS") auto
  qed (use t err in auto)
qed simp

text \<open>
  \<open>tick_until_terminal\<close> on a configured engine with a bounded tree always comes back: with
  SUCCESS, FAILURE or WAITING, never RUNNING, or by raising an exception of the behavior tree
  family, among them the one that says that the tick budget is exhausted.
\<close>
theorem tick_until_terminal_returns:
  assumes "bt_root e = Some rt" and "bounded rt" and "bt_state e = Some s" and "1 \<le> max_ticks" and "need rt \<le> n"
  shows "\<exists>r e'. tick_until_terminal n max_ticks e = Some (r, e')
    \<and> (case r of Inr st \<Rightarrow> st \<noteq> RUNNING_STATUS | Inl x \<Rightarrow> isinstance x BehaviorTreeError)"
  using tick_loop_returns [of e n max_ticks "nat max_ticks"] assms
  by (simp add: tick_until_terminal_def)

lemma tick_until_terminal_returns_witness:
  "\<exists>r e'. tick_until_terminal 7 100 (set_root demo_tree (bt_do_initialize (Some []) None new_bt_engine)) = Some (r, e')
    \<and> (case r of Inr st \<Rightarrow> st \<noteq> RUNNING_STATUS | Inl x \<Rightarrow> isinstance x BehaviorTreeError)"
  by (rule tick_until_terminal_returns [of _ demo_tree "[]"])
    (simp_all add: set_root_def bt_do_initialize_def new_bt_engine_def, simp_all add: demo_tree_def kind_bounded_def kind_need_def)

end
