(* ===== verification/Orchestration.thy ===== *)
theory Orchestration
  imports Job Events
begin

text \<open>
  The orchestration engine (\<open>palm/core/orchestration/engine.py\<close>, \<open>drive.py\<close>, the modes and the
  hooks). Job objects live in a heap and are known by reference; \<open>jobs\<close> is the engine's map from
  ids to references and \<open>driving\<close> the exclusive drive claims. The event bus is a log of what was
  published, the context engine the list of pushed frames. Hooks, runner and scheduler are
  arguments: effects on the engine that may raise. Every method that runs under the engine's lock
  is one step; the engine is the result state also when a method raises.
\<close>

record 'm engine =
  heap :: "nat \<Rightarrow> job"
  next_ref :: nat
  jobs :: "(string, nat) dict"
  driving :: "(string, string) dict"
  running :: bool
  max_concurrent_jobs :: int
  bus_on :: bool
  published :: "(string \<times> pydict \<times> event_context option) list"
  frames :: "(string \<times> pydict) list option"
  mode_state :: 'm
  clock :: time
  text_of :: "pyval \<Rightarrow> string"

type_synonym ('m, 'a) eff = "'m engine \<Rightarrow> 'a result \<times> 'm engine"

definition set_job :: "nat \<Rightarrow> job \<Rightarrow> 'm engine \<Rightarrow> 'm engine" where
  "set_job ref j e = e\<lparr>heap := (heap e)(ref := j)\<rparr>"

subsection \<open>Hooks\<close>

record 'm job_hook =
  on_job_submitted :: "nat \<Rightarrow> ('m, unit) eff"
  on_before_drive :: "nat \<Rightarrow> ('m, unit) eff"
  on_after_drive :: "nat \<Rightarrow> run_result \<Rightarrow> ('m, unit) eff"
  on_job_status_changed :: "nat \<Rightarrow> run_result \<Rightarrow> ('m, unit) eff"

definition job_hook_adapter :: "'m job_hook" where
  "job_hook_adapter = \<lparr>on_job_submitted = (\<lambda>_ e. (Inr (), e)), on_before_drive = (\<lambda>_ e. (Inr (), e)),
     on_after_drive = (\<lambda>_ _ e. (Inr (), e)), on_job_status_changed = (\<lambda>_ _ e. (Inr (), e))\<rparr>"

fun run_hooks :: "('m, unit) eff list \<Rightarrow> ('m, unit) eff" where
  "run_hooks [] e = (Inr (), e)"
| "run_hooks (f # fs) e = (case f e of (Inl x, e') \<Rightarrow> (Inl x, e') | (Inr _, e') \<Rightarrow> run_hooks fs e')"

definition notify_before_drive :: "'m job_hook list \<Rightarrow> nat \<Rightarrow> ('m, unit) eff" where
  "notify_before_drive hs ref = run_hooks (map (\<lambda>h. on_before_drive h ref) hs)"

definition notify_after_drive :: "'m job_hook list \<Rightarrow> nat \<Rightarrow> run_result \<Rightarrow> ('m, unit) eff" where
  "notify_after_drive hs ref res = run_hooks (map (\<lambda>h. on_after_drive h ref res) hs)"

definition notify_job_submitted :: "'m job_hook list \<Rightarrow> nat \<Rightarrow> ('m, unit) eff" where
  "notify_job_submitted hs ref = run_hooks (map (\<lambda>h. on_job_submitted h ref) hs)"

definition notify_job_status_changed :: "'m job_hook list \<Rightarrow> nat \<Rightarrow> run_result \<Rightarrow> ('m, unit) eff" where
  "notify_job_status_changed hs ref res = run_hooks (map (\<lambda>h. on_job_status_changed h ref res) hs)"

subsection \<open>Events of the engine\<close>

definition meta_text :: "'m engine \<Rightarrow> job \<Rightarrow> string \<Rightarrow> string option" where
  "meta_text e j k = opt_text (text_of e) (py_get (metadata j) k)"

definition event_context_from_job :: "'m engine \<Rightarrow> job \<Rightarrow> event_context" where
  "event_context_from_job e j =
     (let flow = py_get (metadata j) ''flow'';
          x1 = (if flow \<noteq> VNone then [(''flow'', VStr (py_str (text_of e) flow))] else []);
          x2 = (case py_get (metadata j) ''wizard'' of
                  VDict w \<Rightarrow> (let name = py_get w ''name''
                    in if name \<noteq> VNone then dict_set ''wizard'' (VStr (py_str (text_of e) name)) x1 else x1)
                | _ \<Rightarrow> x1);
          sid = map_option py_strip (meta_text e j ''session_id'')
      in \<lparr>ec_job_id = Some (jid j), ec_instance_id = meta_text e j ''instance_id'',
          ec_session_id = (if sid = Some [] then None else sid),
          ec_trace_id = meta_text e j ''trace_id'', ec_principal_id = meta_text e j ''principal_id'',
          ec_extra = x2\<rparr>)"

definition emit :: "string \<Rightarrow> pydict \<Rightarrow> nat option \<Rightarrow> 'm engine \<Rightarrow> 'm engine" where
  "emit t payload ref e =
     (if \<not> bus_on e then e
      else e\<lparr>published := published e @ [(t, payload,
             map_option (\<lambda>r. event_context_from_job e (heap e r)) ref)]\<rparr>)"

definition ENGINE_STARTED :: string where "ENGINE_STARTED = ''orchestration.started''"
definition ENGINE_SHUTDOWN :: string where "ENGINE_SHUTDOWN = ''orchestration.shutdown''"
definition JOB_SUBMITTED :: string where "JOB_SUBMITTED = ''job.submitted''"
definition JOB_STATUS_CHANGED :: string where "JOB_STATUS_CHANGED = ''job.status_changed''"
definition JOB_COMPLETED :: string where "JOB_COMPLETED = ''job.completed''"
definition FLOW_SESSION_SUCCEEDED :: string where "FLOW_SESSION_SUCCEEDED = ''flow.session.succeeded''"
definition FLOW_SESSION_FAILED :: string where "FLOW_SESSION_FAILED = ''flow.session.failed''"
definition JOB_INPUT_RECEIVED :: string where "JOB_INPUT_RECEIVED = ''job.input_received''"
definition JOB_CANCELLED :: string where "JOB_CANCELLED = ''job.cancelled''"
definition INSTANCE_STATUS_CHANGED :: string where "INSTANCE_STATUS_CHANGED = ''instance.status_changed''"

lemmas event_type_defs = ENGINE_STARTED_def ENGINE_SHUTDOWN_def JOB_SUBMITTED_def
  JOB_STATUS_CHANGED_def JOB_COMPLETED_def FLOW_SESSION_SUCCEEDED_def FLOW_SESSION_FAILED_def
  JOB_INPUT_RECEIVED_def JOB_CANCELLED_def INSTANCE_STATUS_CHANGED_def

definition emit_flow_session_terminal :: "nat \<Rightarrow> 'm engine \<Rightarrow> 'm engine" where
  "emit_flow_session_terminal ref e =
     (let j = heap e ref; md = metadata j; r = text_of e in
      if status j \<notin> {SUCCEEDED, FAILED} then e
      else
        let flow_id = py_or (py_get md ''flow'') (py_get md ''flow_name'');
            p0 = [(''job_id'', VStr (jid j)), (''status'', VStr (status_value (status j)))];
            p1 = (if flow_id \<noteq> VNone
                  then dict_set ''flow'' (VStr (py_str r flow_id)) (dict_set ''flow_id'' (VStr (py_str r flow_id)) p0)
                  else p0);
            iid = py_get md ''instance_id'';
            p2 = (if iid \<noteq> VNone then dict_set ''instance_id'' (VStr (py_str r iid)) p1 else p1);
            sid = py_get md ''session_id'';
            p3 = (if sid \<noteq> VNone \<and> py_strip (py_str r sid) \<noteq> []
                  then dict_set ''session_id'' (VStr (py_strip (py_str r sid))) p2 else p2)
        in emit (if status j = SUCCEEDED then FLOW_SESSION_SUCCEEDED else FLOW_SESSION_FAILED) p3 (Some ref) e)"

definition publish_job_status :: "nat \<Rightarrow> 'm engine \<Rightarrow> 'm engine" where
  "publish_job_status ref e =
     (let j = heap e ref;
          st = VStr (status_value (status j));
          e1 = emit JOB_STATUS_CHANGED [(''job_id'', VStr (jid j)), (''status'', st)] (Some ref) e;
          iid = py_get (metadata j) ''instance_id'';
          e2 = (if iid \<noteq> VNone
                then emit INSTANCE_STATUS_CHANGED [(''instance_id'', VStr (py_str (text_of e) iid)),
                       (''job_id'', VStr (jid j)), (''status'', st)] (Some ref) e1
                else e1)
      in if is_terminal j
         then emit_flow_session_terminal ref
                (emit JOB_COMPLETED [(''job_id'', VStr (jid j)), (''status'', st)] (Some ref) e2)
         else e2)"

subsection \<open>Life-cycle authority\<close>

definition apply_result :: "'m job_hook list \<Rightarrow> nat \<Rightarrow> run_result \<Rightarrow> ('m, unit) eff" where
  "apply_result hs ref res e =
     (let j = heap e ref in
      if is_terminal j \<and> rr_status res \<noteq> status j then (Inr (), e)
      else
        case (if rr_status res \<noteq> status j
              then transition_to (rr_status res) (rr_result res) (rr_error res) (clock e) j
              else Inr (let j1 = (if rr_result res \<noteq> VNone then j\<lparr>jresult := rr_result res\<rparr> else j)
                        in if rr_error res \<noteq> None then j1\<lparr>jerror := rr_error res\<rparr> else j1)) of
          Inl x \<Rightarrow> (Inl x, e)
        | Inr j' \<Rightarrow>
           (case notify_job_status_changed hs ref res (publish_job_status ref (set_job ref j' e)) of
              (Inl x, e3) \<Rightarrow> (Inl x, e3)
            | (Inr _, e3) \<Rightarrow>
               (case rr_error res of
                  Some x \<Rightarrow> (if rr_propagate res
                    then (Inl (Exc JobExecutionError (''Job '' @ jid j @ '' execution failed: '' @ exc_msg x)), e3)
                    else (Inr (), e3))
                | None \<Rightarrow> (Inr (), e3))))"

definition begin_drive :: "nat \<Rightarrow> string \<Rightarrow> 'm engine \<Rightarrow> bool \<times> 'm engine" where
  "begin_drive ref token e =
     (let i = jid (heap e ref) in
      case dict_get (jobs e) i of
        None \<Rightarrow> (False, e)
      | Some reg \<Rightarrow>
          if is_terminal (heap e reg) then (False, e)
          else if dict_has (driving e) i then (False, e)
          else (True, e\<lparr>driving := dict_set i token (driving e)\<rparr>))"

definition end_drive :: "nat \<Rightarrow> 'm engine \<Rightarrow> 'm engine" where
  "end_drive ref e = e\<lparr>driving := dict_pop (jid (heap e ref)) (driving e)\<rparr>"

definition is_driving :: "'m engine \<Rightarrow> string \<Rightarrow> bool" where
  "is_driving e i = dict_has (driving e) i"

definition driving_job_ids :: "'m engine \<Rightarrow> string set" where
  "driving_job_ids e = set (dict_keys (driving e))"

definition drive_body :: "'m job_hook list \<Rightarrow> (nat \<Rightarrow> ('m, run_result) eff) \<Rightarrow> nat \<Rightarrow> ('m, bool) eff" where
  "drive_body hs run ref e =
     (case notify_before_drive hs ref e of
        (Inl x, e1) \<Rightarrow>
          if isinstance x JobAuthorizationError
          then (case apply_result hs ref ((plain_result FAILED)\<lparr>rr_error := Some x\<rparr>) e1 of
                  (Inl y, e2) \<Rightarrow> (Inl y, e2) | (Inr _, e2) \<Rightarrow> (Inr True, e2))
          else (Inl x, e1)
      | (Inr _, e1) \<Rightarrow>
         (case run ref e1 of
            (Inl x, e2) \<Rightarrow> (Inl x, e2)
          | (Inr res, e2) \<Rightarrow>
             (case apply_result hs ref res e2 of
                (Inl x, e3) \<Rightarrow> (Inl x, e3)
              | (Inr _, e3) \<Rightarrow>
                 (case notify_after_drive hs ref res e3 of
                    (Inl x, e4) \<Rightarrow> (Inl x, e4) | (Inr _, e4) \<Rightarrow> (Inr True, e4)))))"

definition drive_job :: "'m job_hook list \<Rightarrow> (nat \<Rightarrow> ('m, run_result) eff) \<Rightarrow> string \<Rightarrow> nat \<Rightarrow> ('m, bool) eff" where
  "drive_job hs run token ref e =
     (case begin_drive ref token e of
        (False, e1) \<Rightarrow> (Inr False, e1)
      | (True, e1) \<Rightarrow> (case drive_body hs run ref e1 of (r, e2) \<Rightarrow> (r, end_drive ref e2)))"

subsection \<open>Modes\<close>

record 'm mode =
  m_start :: "'m \<Rightarrow> 'm"
  m_shutdown :: "'m \<Rightarrow> 'm"
  m_is_running :: "'m \<Rightarrow> bool"
  m_submit_job :: "nat \<Rightarrow> ('m, unit) eff"
  m_resume_job :: "nat \<Rightarrow> ('m, unit) eff"
  m_cancel_job :: "nat \<Rightarrow> ('m, unit) eff"
  m_on_engine_shutdown :: "('m, unit) eff"

text \<open>The defaults of \<open>OrchestrationMode\<close>; the abstract methods are the arguments.\<close>

definition mode_cancel_job :: "'m job_hook list \<Rightarrow> nat \<Rightarrow> ('m, unit) eff" where
  "mode_cancel_job hs ref e =
     (if \<not> is_terminal (heap e ref) then apply_result hs ref (plain_result CANCELLED) e else (Inr (), e))"

definition no_effect :: "('m, unit) eff" where
  "no_effect e = (Inr (), e)"

definition base_mode :: "'m job_hook list \<Rightarrow> ('m \<Rightarrow> 'm) \<Rightarrow> ('m \<Rightarrow> 'm) \<Rightarrow> ('m \<Rightarrow> bool) \<Rightarrow> 'm mode" where
  "base_mode hs st sh isr = \<lparr>m_start = st, m_shutdown = sh, m_is_running = isr,
     m_submit_job = (\<lambda>_. no_effect), m_resume_job = (\<lambda>_. no_effect),
     m_cancel_job = mode_cancel_job hs, m_on_engine_shutdown = no_effect\<rparr>"

definition require_mode :: "nat \<Rightarrow> ('m, unit) eff" where
  "require_mode ref e = (Inl (Exc ConfigurationError
     ''OrchestrationEngine requires initialize(scheduler=...) before accepting jobs''), e)"

definition unconfigured_mode :: "'m job_hook list \<Rightarrow> 'm mode" where
  "unconfigured_mode hs = (base_mode hs id id (\<lambda>_. False))
     \<lparr>m_submit_job := require_mode, m_resume_job := require_mode\<rparr>"

text \<open>
  \<open>InlineScheduler\<close> (\<open>palm/system/runtime/schedulers/inline.py\<close>): its state is the running flag
  beside the objects the executables refer to; submitting and resuming drive the job in the caller's thread, whose name is the drive token.
\<close>

record 'o object_store =
  objects :: 'o

record 'o inline_state = "'o object_store" +
  scheduler_on :: bool

definition inline_drive :: "'o inline_state job_hook list \<Rightarrow> (nat \<Rightarrow> ('o inline_state, run_result) eff) \<Rightarrow> string \<Rightarrow> nat \<Rightarrow> ('o inline_state, unit) eff" where
  "inline_drive hs run thread ref e =
     (case drive_job hs run thread ref e of (Inl x, e1) \<Rightarrow> (Inl x, e1) | (Inr _, e1) \<Rightarrow> (Inr (), e1))"

definition inline_submit_job :: "'o inline_state job_hook list \<Rightarrow> (nat \<Rightarrow> ('o inline_state, run_result) eff) \<Rightarrow> string \<Rightarrow> nat \<Rightarrow> ('o inline_state, unit) eff" where
  "inline_submit_job hs run thread ref e =
     inline_drive hs run thread ref (if \<not> scheduler_on (mode_state e)
        then e\<lparr>mode_state := (mode_state e)\<lparr>scheduler_on := True\<rparr>\<rparr> else e)"

definition inline_resume_job :: "'o inline_state job_hook list \<Rightarrow> (nat \<Rightarrow> ('o inline_state, run_result) eff) \<Rightarrow> string \<Rightarrow> nat \<Rightarrow> ('o inline_state, unit) eff" where
  "inline_resume_job hs run thread ref e =
     (if status (heap e ref) = WAITING_FOR_INPUT then inline_drive hs run thread ref e else (Inr (), e))"

definition inline_scheduler :: "'o inline_state job_hook list \<Rightarrow> (nat \<Rightarrow> ('o inline_state, run_result) eff) \<Rightarrow> string \<Rightarrow> 'o inline_state mode" where
  "inline_scheduler hs run thread = (base_mode hs (\<lambda>s. s\<lparr>scheduler_on := True\<rparr>)
       (\<lambda>s. s\<lparr>scheduler_on := False\<rparr>) scheduler_on)
     \<lparr>m_submit_job := inline_submit_job hs run thread, m_resume_job := inline_resume_job hs run thread\<rparr>"

subsection \<open>Engine operations\<close>

definition new_engine :: "'m \<Rightarrow> (pyval \<Rightarrow> string) \<Rightarrow> 'm engine" where
  "new_engine m r = \<lparr>heap = (\<lambda>_. \<lparr>jid = [], executable = VNone, jstate = [], metadata = [],
      status = PENDING, jresult = VNone, jerror = None, created_at = 0, started_at = None,
      completed_at = None\<rparr>), next_ref = 0, jobs = [], driving = [], running = False,
     max_concurrent_jobs = 128, bus_on = False, published = [], frames = None, mode_state = m,
     clock = 0, text_of = r\<rparr>"

definition engine_initialize :: "'m option \<Rightarrow> bool \<Rightarrow> bool \<Rightarrow> int option \<Rightarrow> 'm engine \<Rightarrow> 'm engine" where
  "engine_initialize scheduler events context max_jobs e =
     (let e1 = (case scheduler of Some m \<Rightarrow> e\<lparr>mode_state := m\<rparr> | None \<Rightarrow> e);
          e2 = (if events then e1\<lparr>bus_on := True\<rparr> else e1);
          e3 = (if context then e2\<lparr>frames := Some []\<rparr> else e2)
      in (case max_jobs of
            Some n \<Rightarrow> (if n > 0 then e3\<lparr>max_concurrent_jobs := n\<rparr> else e3)
          | None \<Rightarrow> e3))"

definition engine_start :: "'m mode \<Rightarrow> 'm engine \<Rightarrow> 'm engine" where
  "engine_start m e =
     (if running e then e
      else emit ENGINE_STARTED [] None (e\<lparr>mode_state := m_start m (mode_state e), running := True\<rparr>))"

definition is_running :: "'m mode \<Rightarrow> 'm engine \<Rightarrow> bool" where
  "is_running m e = (running e \<and> m_is_running m (mode_state e))"

definition bind_job_context :: "nat \<Rightarrow> 'm engine \<Rightarrow> 'm engine" where
  "bind_job_context ref e = (case frames e of None \<Rightarrow> e
   | Some fs \<Rightarrow>
      (let j = heap e ref; iid = py_get (metadata j) ''instance_id'';
           f0 = [(''job_id'', VStr (jid j))];
           f1 = (if iid \<noteq> VNone then dict_set ''instance_id'' iid f0 else f0)
       in e\<lparr>frames := Some (fs @ [(''job:'' @ jid j, f1)])\<rparr>))"

text \<open>\<open>job_id or str(uuid4())\<close> (the fresh text is the argument \<open>generated\<close>) and \<open>d or {}\<close>.\<close>

definition or_generated :: "string option \<Rightarrow> string \<Rightarrow> string" where
  "or_generated job_id generated = (case job_id of Some s \<Rightarrow> (if s = [] then generated else s) | None \<Rightarrow> generated)"

definition or_empty :: "pydict option \<Rightarrow> pydict" where
  "or_empty d = (case d of Some p \<Rightarrow> p | None \<Rightarrow> [])"

definition submit :: "'m job_hook list \<Rightarrow> 'm mode \<Rightarrow> pyval \<Rightarrow> string option \<Rightarrow> string \<Rightarrow> pydict option
    \<Rightarrow> pydict option \<Rightarrow> ('m, nat) eff" where
  "submit hs m ex job_id generated st md e0 =
     (let e = (if \<not> is_running m e0 then engine_start m e0 else e0);
          i = or_generated job_id generated
      in case new_job i ex (or_empty st) (or_empty md) (clock e) of
           Inl x \<Rightarrow> (Inl x, e)
         | Inr j \<Rightarrow>
            if int (length (jobs e)) \<ge> max_concurrent_jobs e
            then (Inl (Exc OrchestratorError ''Maximum concurrent jobs reached''), e)
            else if dict_has (jobs e) i
            then (Inl (Exc OrchestratorError (''Job id already exists: '' @ i)), e)
            else
              let ref = next_ref e;
                  e1 = e\<lparr>heap := (heap e)(ref := j), next_ref := Suc ref, jobs := dict_set i ref (jobs e)\<rparr>;
                  e2 = bind_job_context ref e1;
                  e3 = emit JOB_SUBMITTED [(''job_id'', VStr i), (''metadata'', VDict (metadata j))] (Some ref) e2
              in (case m_submit_job m ref e3 of
                    (Inl x, e4) \<Rightarrow> (Inl x, e4)
                  | (Inr _, e4) \<Rightarrow>
                     (case notify_job_submitted hs ref e4 of
                        (Inl x, e5) \<Rightarrow> (Inl x, e5) | (Inr _, e5) \<Rightarrow> (Inr ref, e5))))"

definition get_job :: "'m engine \<Rightarrow> string \<Rightarrow> nat result" where
  "get_job e i = (case dict_get (jobs e) i of
     Some ref \<Rightarrow> Inr ref | None \<Rightarrow> Inl (Exc JobNotFoundError (''Job not found: '' @ i)))"

definition list_jobs :: "job_status option \<Rightarrow> 'm engine \<Rightarrow> job list" where
  "list_jobs s e =
     (let js = map (\<lambda>(_, ref). heap e ref) (jobs e)
      in (case s of None \<Rightarrow> js | Some st \<Rightarrow> filter (\<lambda>j. status j = st) js))"

definition cancel_job :: "'m mode \<Rightarrow> string \<Rightarrow> ('m, bool) eff" where
  "cancel_job m i e = (case get_job e i of
     Inl x \<Rightarrow> (Inl x, e)
   | Inr ref \<Rightarrow>
      if is_terminal (heap e ref) then (Inr False, e)
      else (case m_cancel_job m ref e of
              (Inl x, e1) \<Rightarrow> (Inl x, e1)
            | (Inr _, e1) \<Rightarrow> (Inr True, emit JOB_CANCELLED [(''job_id'', VStr i)] (Some ref) e1)))"

definition resume_job :: "'m mode \<Rightarrow> string \<Rightarrow> ('m, unit) eff" where
  "resume_job m i e = (case get_job e i of
     Inl x \<Rightarrow> (Inl x, e)
   | Inr ref \<Rightarrow>
      if status (heap e ref) \<noteq> WAITING_FOR_INPUT then (Inr (), e) else m_resume_job m ref e)"

definition provide_input :: "'m mode \<Rightarrow> string \<Rightarrow> string \<Rightarrow> pyval \<Rightarrow> ('m, unit) eff" where
  "provide_input m i k v e = (case get_job e i of
     Inl x \<Rightarrow> (Inl x, e)
   | Inr ref \<Rightarrow>
      (let j = heap e ref;
           e1 = set_job ref (j\<lparr>jstate := js_set k v (jstate j)\<rparr>) e;
           e2 = emit JOB_INPUT_RECEIVED [(''job_id'', VStr i), (''key'', VStr k)] (Some ref) e1
       in if status (heap e2 ref) = WAITING_FOR_INPUT then resume_job m i e2 else (Inr (), e2)))"

text \<open>
  \<open>deliver_input\<close>: \<open>capable ex\<close> is the \<open>provide_input\<close> method of an executable that has one: it
  writes the value into the job state and yields the step slug.
\<close>

definition deliver_input :: "'m mode \<Rightarrow> (pyval \<Rightarrow> (pydict \<Rightarrow> pyval \<Rightarrow> string option result \<times> pydict) option)
    \<Rightarrow> string \<Rightarrow> pyval \<Rightarrow> ('m, string option) eff" where
  "deliver_input m capable i v e = (case get_job e i of
     Inl x \<Rightarrow> (Inl x, e)
   | Inr ref \<Rightarrow>
      (let j = heap e ref in
       case capable (executable j) of
         None \<Rightarrow> (Inl (Exc PyTypeError (''Job '' @ quoted i @ '' executable does not accept delivered input'')), e)
       | Some f \<Rightarrow>
          (case f (jstate j) v of
             (Inl x, st) \<Rightarrow> (Inl x, set_job ref (j\<lparr>jstate := st\<rparr>) e)
           | (Inr slug, st) \<Rightarrow>
              (let e1 = set_job ref (j\<lparr>jstate := st\<rparr>) e;
                   key = (case slug of Some s \<Rightarrow> (if s = [] then ''input'' else s) | None \<Rightarrow> ''input'');
                   e2 = emit JOB_INPUT_RECEIVED [(''job_id'', VStr i), (''key'', VStr key), (''value'', v)] (Some ref) e1
               in if status (heap e2 ref) = WAITING_FOR_INPUT
                  then (case resume_job m i e2 of (Inl x, e3) \<Rightarrow> (Inl x, e3) | (Inr _, e3) \<Rightarrow> (Inr slug, e3))
                  else (Inr slug, e2)))))"

text \<open>\<open>stop\<close>: running jobs are cancelled best-effort (failures are swallowed), waiting jobs stay parked.\<close>

fun stop_jobs :: "'m mode \<Rightarrow> (string \<times> nat) list \<Rightarrow> 'm engine \<Rightarrow> 'm engine" where
  "stop_jobs m [] e = e"
| "stop_jobs m ((_, ref) # js) e =
     (if status (heap e ref) = RUNNING
      then stop_jobs m js (case m_cancel_job m ref e of
             (Inl _, e1) \<Rightarrow> e1
           | (Inr _, e1) \<Rightarrow> emit JOB_CANCELLED [(''job_id'', VStr (jid (heap e1 ref)))] (Some ref) e1)
      else stop_jobs m js e)"

definition stop :: "'m mode \<Rightarrow> ('m, unit) eff" where
  "stop m e =
     (if \<not> running e then (Inr (), e)
      else
        let e1 = e\<lparr>mode_state := m_shutdown m (mode_state e)\<rparr>;
            e2 = stop_jobs m (jobs e1) e1
        in case m_on_engine_shutdown m e2 of
             (Inl x, e3) \<Rightarrow> (Inl x, e3)
           | (Inr _, e3) \<Rightarrow>
              (Inr (), emit ENGINE_SHUTDOWN [(''jobs_remaining'', VInt (int (length (jobs e3))))] None
                 (e3\<lparr>running := False\<rparr>)))"

definition engine_shutdown :: "'m mode \<Rightarrow> ('m, unit) eff" where
  "engine_shutdown m e = (case stop m e of
     (Inl x, e1) \<Rightarrow> (Inl x, e1) | (Inr _, e1) \<Rightarrow> (Inr (), e1\<lparr>jobs := [], driving := []\<rparr>))"

end
