(* ===== verification/EngineSafety.thy ===== *)
theory EngineSafety
  imports Orchestration
begin

text \<open>
  Invariants of the orchestration engine and the contract of its callbacks. \<open>calm\<close> relates the
  engine before and after a step that respects the engine's laws: the invariant is kept, the job
  map and the drive claims are as before, and no job leaves a terminal state. The locale
  \<open>calm_callbacks\<close> assumes it of the hooks and the runner and derives it for the drive primitive;
  \<open>calm_mode\<close> adds a scheduler and derives it for the operations of the engine.
\<close>

definition engine_wf :: "'m engine \<Rightarrow> bool" where
  "engine_wf e \<longleftrightarrow> dict_wf (jobs e) \<and> dict_wf (driving e)
     \<and> (\<forall>i ref. dict_get (jobs e) i = Some ref \<longrightarrow> ref < next_ref e \<and> jid (heap e ref) = i)
     \<and> (\<forall>ref < next_ref e. job_wf (heap e ref))
     \<and> (\<forall>i. dict_has (driving e) i \<longrightarrow> dict_has (jobs e) i)"

definition same_job :: "job \<Rightarrow> job \<Rightarrow> bool" where
  "same_job j j' \<longleftrightarrow> jid j' = jid j \<and> (is_terminal j \<longrightarrow> status j' = status j \<and> completed_at j' = completed_at j)"

definition calm :: "'m engine \<Rightarrow> 'm engine \<Rightarrow> bool" where
  "calm e e' \<longleftrightarrow> (engine_wf e \<longrightarrow> engine_wf e') \<and> jobs e' = jobs e \<and> driving e' = driving e
     \<and> next_ref e' = next_ref e \<and> max_concurrent_jobs e' = max_concurrent_jobs e
     \<and> (\<forall>ref. same_job (heap e ref) (heap e' ref))"

lemma same_job_refl [simp]: "same_job j j"
  by (simp add: same_job_def)

lemma same_job_trans: "same_job i j \<Longrightarrow> same_job j k \<Longrightarrow> same_job i k"
  by (auto simp: same_job_def is_terminal_def)

lemma calm_refl [simp, intro]: "calm e e"
  by (simp add: calm_def)

lemma calm_trans [trans]: "calm e e' \<Longrightarrow> calm e' e'' \<Longrightarrow> calm e e''"
  unfolding calm_def using same_job_trans by metis

lemma calm_same: "heap e' = heap e \<Longrightarrow> jobs e' = jobs e \<Longrightarrow> driving e' = driving e \<Longrightarrow>
    next_ref e' = next_ref e \<Longrightarrow> max_concurrent_jobs e' = max_concurrent_jobs e \<Longrightarrow> calm e e'"
  by (simp add: calm_def engine_wf_def)

lemma calm_set_job:
  assumes "same_job (heap e ref) j" and "job_wf (heap e ref) \<longrightarrow> job_wf j"
  shows "calm e (set_job ref j e)"
  using assms unfolding calm_def engine_wf_def set_job_def by (auto simp: same_job_def)

lemma calm_emit [simp, intro]: "calm e (emit t p r e)"
  by (auto simp: emit_def intro: calm_same)

lemma calm_if: "(b \<Longrightarrow> calm e x) \<Longrightarrow> (\<not> b \<Longrightarrow> calm e y) \<Longrightarrow> calm e (if b then x else y)"
  by simp

lemma calm_emit_trans: "calm e e' \<Longrightarrow> calm e (emit t p r e')"
  using calm_emit calm_trans by blast

lemma calm_flow_terminal: "calm e e' \<Longrightarrow> calm e (emit_flow_session_terminal ref e')"
  unfolding emit_flow_session_terminal_def Let_def by (intro calm_if calm_emit_trans)

lemma calm_publish: "calm e (publish_job_status ref e)"
  unfolding publish_job_status_def Let_def
  by (intro calm_if calm_flow_terminal calm_emit_trans calm_refl)

lemma run_hooks_calm: "\<forall>f \<in> set fs. \<forall>e. calm e (snd (f e)) \<Longrightarrow> calm e (snd (run_hooks fs e))"
proof (induction fs arbitrary: e)
  case (Cons f fs)
  obtain r e1 where f: "f e = (r, e1)" by fastforce
  with Cons.prems have "calm e e1" by (metis list.set_intros(1) snd_conv)
  moreover have "calm e1 (snd (run_hooks fs e1))" using Cons by simp
  ultimately show ?case using f by (auto split: sum.splits intro: calm_trans)
qed simp

definition hook_calm :: "'m job_hook \<Rightarrow> bool" where
  "hook_calm h \<longleftrightarrow> (\<forall>ref res e. calm e (snd (on_job_submitted h ref e)) \<and> calm e (snd (on_before_drive h ref e))
     \<and> calm e (snd (on_after_drive h ref res e)) \<and> calm e (snd (on_job_status_changed h ref res e)))"

lemma job_hook_adapter_calm: "hook_calm job_hook_adapter"
  by (simp add: hook_calm_def job_hook_adapter_def)

lemma dict_pop_append_fresh: "\<not> dict_has d k \<Longrightarrow> dict_pop k (d @ [(k, v)]) = d"
  by (induction d) auto

lemma begin_drive_refused: "begin_drive ref token e = (False, e1) \<Longrightarrow> e1 = e"
  by (auto simp: begin_drive_def Let_def split: option.splits if_splits)

lemma begin_drive_granted:
  "begin_drive ref token e = (True, e1) \<Longrightarrow>
     e1 = e\<lparr>driving := driving e @ [(jid (heap e ref), token)]\<rparr> \<and> \<not> dict_has (driving e) (jid (heap e ref))
     \<and> dict_has (jobs e) (jid (heap e ref))"
  by (auto simp: begin_drive_def Let_def dict_set_fresh dict_has_def split: option.splits if_splits)

locale calm_hooks =
  fixes hs :: "'m job_hook list"
  assumes hooks_calm: "h \<in> set hs \<Longrightarrow> hook_calm h"
begin

lemma before_calm: "calm e (snd (notify_before_drive hs ref e))"
  unfolding notify_before_drive_def using hooks_calm
  by (intro run_hooks_calm) (auto simp: hook_calm_def)

lemma after_calm: "calm e (snd (notify_after_drive hs ref res e))"
  unfolding notify_after_drive_def using hooks_calm
  by (intro run_hooks_calm) (auto simp: hook_calm_def)

lemma submitted_calm: "calm e (snd (notify_job_submitted hs ref e))"
  unfolding notify_job_submitted_def using hooks_calm
  by (intro run_hooks_calm) (auto simp: hook_calm_def)

lemma changed_calm: "calm e (snd (notify_job_status_changed hs ref res e))"
  unfolding notify_job_status_changed_def using hooks_calm
  by (intro run_hooks_calm) (auto simp: hook_calm_def)

lemma stored_calm:
  assumes "same_job (heap e ref) j'" and "job_wf (heap e ref) \<longrightarrow> job_wf j'"
    and "\<And>x e3. snd (k (Inl x, e3)) = e3" and "\<And>u e3. snd (k (Inr u, e3)) = e3"
  shows "calm e (snd (k (notify_job_status_changed hs ref res (publish_job_status ref (set_job ref j' e)))))"
proof -
  obtain r e3 where n: "notify_job_status_changed hs ref res (publish_job_status ref (set_job ref j' e)) = (r, e3)"
    by fastforce
  have "calm e (snd (notify_job_status_changed hs ref res (publish_job_status ref (set_job ref j' e))))"
    by (rule calm_trans [OF calm_trans [OF calm_set_job [OF assms(1,2)] calm_publish] changed_calm])
  with n assms(3,4) show ?thesis by (cases r) simp_all
qed

lemma apply_result_calm: "calm e (snd (apply_result hs ref res e))"
proof (cases "is_terminal (heap e ref) \<and> rr_status res \<noteq> status (heap e ref)")
  case False
  let ?j = "heap e ref"
  let ?k = "\<lambda>p. case p of (Inl x, e3) \<Rightarrow> (Inl x, e3) | (Inr _, e3) \<Rightarrow> (case rr_error res of
      Some x \<Rightarrow> if rr_propagate res
         then (Inl (Exc JobExecutionError (''Job '' @ jid ?j @ '' execution failed: '' @ exc_msg x)), e3)
         else (Inr (), e3)
    | None \<Rightarrow> (Inr (), e3))"
  have k: "snd (?k (Inl x, e3)) = e3" "snd (?k (Inr u, e3)) = e3" for x u and e3 :: "'m engine"
    by (auto split: option.splits)
  show ?thesis
  proof (cases "rr_status res = status ?j")
    case True
    define j' where "j' = (let j1 = (if rr_result res \<noteq> VNone then ?j\<lparr>jresult := rr_result res\<rparr> else ?j)
                        in if rr_error res \<noteq> None then j1\<lparr>jerror := rr_error res\<rparr> else j1)"
    have "same_job ?j j'" by (simp add: j'_def Let_def same_job_def)
    moreover have "job_wf ?j \<longrightarrow> job_wf j'" by (simp add: j'_def Let_def job_wf_def is_terminal_def)
    ultimately have s: "same_job ?j j'" "job_wf ?j \<longrightarrow> job_wf j'" by blast+
    from stored_calm [OF s, of ?k, OF k] have "calm e (snd (?k
      (notify_job_status_changed hs ref res (publish_job_status ref (set_job ref j' e)))))" .
    moreover have "apply_result hs ref res e = ?k
      (notify_job_status_changed hs ref res (publish_job_status ref (set_job ref j' e)))"
      using True by (simp add: apply_result_def j'_def Let_def)
    ultimately show ?thesis by simp
  next
    case neq: False
    show ?thesis
    proof (cases "transition_to (rr_status res) (rr_result res) (rr_error res) (clock e) ?j")
      case (Inl x)
      then show ?thesis using neq False by (simp add: apply_result_def)
    next
      case (Inr j')
      have "same_job ?j j'" using neq False transition_frame [OF Inr] by (auto simp: same_job_def)
      moreover have "job_wf ?j \<longrightarrow> job_wf j'" using transition_wf [OF _ Inr] by blast
      ultimately have "calm e (snd (?k
          (notify_job_status_changed hs ref res (publish_job_status ref (set_job ref j' e)))))"
        using stored_calm [of e ref j' ?k, OF _ _ k] by blast
      moreover have "apply_result hs ref res e = ?k
          (notify_job_status_changed hs ref res (publish_job_status ref (set_job ref j' e)))"
        using neq False Inr by (simp add: apply_result_def)
      ultimately show ?thesis by simp
    qed
  qed
qed (simp add: apply_result_def)

lemma cancel_calm: "calm e (snd (mode_cancel_job hs ref e))"
  by (simp add: mode_cancel_job_def apply_result_calm)

end

locale calm_callbacks = calm_hooks hs for hs :: "'m job_hook list" +
  fixes run :: "nat \<Rightarrow> ('m, run_result) eff"
  assumes run_calm: "calm e (snd (run ref e))"
begin

lemma drive_body_calm: "calm e (snd (drive_body hs run ref e))"
proof -
  obtain r1 e1 where b: "notify_before_drive hs ref e = (r1, e1)" by fastforce
  then have c1: "calm e e1" using before_calm [of e ref] by simp
  show ?thesis
  proof (cases r1)
    case (Inl x)
    have "calm e1 (snd (apply_result hs ref ((plain_result FAILED)\<lparr>rr_error := Some x\<rparr>) e1))"
      by (rule apply_result_calm)
    with calm_trans [OF c1] b c1 Inl show ?thesis
      by (auto simp: drive_body_def split: sum.splits prod.splits)
  next
    case (Inr u)
    obtain r2 e2 where r: "run ref e1 = (r2, e2)" by fastforce
    then have c2: "calm e e2" using calm_trans [OF c1] run_calm [of e1 ref] by simp
    show ?thesis
    proof (cases r2)
      case (Inl x)
      then show ?thesis using b r c2 Inr by (simp add: drive_body_def)
    next
      case r2: (Inr res)
      obtain r3 e3 where a: "apply_result hs ref res e2 = (r3, e3)" by fastforce
      then have c3: "calm e e3" using calm_trans [OF c2] apply_result_calm [of e2 ref res] by simp
      have "calm e (snd (notify_after_drive hs ref res e3))" by (rule calm_trans [OF c3 after_calm])
      then show ?thesis using b r a r2 c3 Inr
        by (auto simp: drive_body_def split: sum.splits prod.splits)
    qed
  qed
qed

text \<open>The claim is released whatever the body did, a raise included.\<close>

lemma drive_job_calm: "engine_wf e \<Longrightarrow> calm e (snd (drive_job hs run token ref e))"
proof -
  assume wf: "engine_wf e"
  obtain ok e1 where b: "begin_drive ref token e = (ok, e1)" by fastforce
  show ?thesis
  proof (cases ok)
    case False
    with b have "e1 = e" by (auto intro: begin_drive_refused)
    with b False show ?thesis by (simp add: drive_job_def)
  next
    case True
    let ?i = "jid (heap e ref)"
    from begin_drive_granted [of ref token e e1] b True
    have e1: "e1 = e\<lparr>driving := driving e @ [(?i, token)]\<rparr>" and fresh: "\<not> dict_has (driving e) ?i"
      and known: "dict_has (jobs e) ?i" by auto
    have wf1: "engine_wf e1" using wf known fresh
      by (auto simp: engine_wf_def e1 dict_wf_def dict_has_iff)
    obtain r e2 where r: "drive_body hs run ref e1 = (r, e2)" by fastforce
    have c: "calm e1 e2" using drive_body_calm [of e1 ref] r by simp
    then have "jid (heap e2 ref) = ?i" "driving e2 = driving e @ [(?i, token)]"
      by (auto simp: calm_def same_job_def e1)
    then have e2: "end_drive ref e2 = e2\<lparr>driving := driving e\<rparr>"
      using fresh by (simp add: end_drive_def dict_pop_append_fresh)
    have "engine_wf e2" using c wf1 by (simp add: calm_def)
    then have "calm e (end_drive ref e2)" using c wf unfolding e2
      by (auto simp: calm_def engine_wf_def e1)
    then show ?thesis using b True r by (simp add: drive_job_def)
  qed
qed

end

subsection \<open>The operations of the engine\<close>

datatype engine_op = SubmitOp pyval "string option" string "pydict option" "pydict option"
  | CancelOp string | ResumeOp string | InputOp string string pyval | DeliverOp string pyval
  | StartOp | StopOp | ShutdownOp | ClockOp time

definition engine_op_step :: "'m job_hook list \<Rightarrow> 'm mode
    \<Rightarrow> (pyval \<Rightarrow> (pydict \<Rightarrow> pyval \<Rightarrow> string option result \<times> pydict) option) \<Rightarrow> engine_op \<Rightarrow> 'm engine \<Rightarrow> 'm engine" where
  "engine_op_step hs m capable op e = (case op of
     SubmitOp ex i gen st md \<Rightarrow> snd (submit hs m ex i gen st md e)
   | CancelOp i \<Rightarrow> snd (cancel_job m i e)
   | ResumeOp i \<Rightarrow> snd (resume_job m i e)
   | InputOp i k v \<Rightarrow> snd (provide_input m i k v e)
   | DeliverOp i v \<Rightarrow> snd (deliver_input m capable i v e)
   | StartOp \<Rightarrow> engine_start m e
   | StopOp \<Rightarrow> snd (stop m e)
   | ShutdownOp \<Rightarrow> snd (engine_shutdown m e)
   | ClockOp t \<Rightarrow> e\<lparr>clock := t\<rparr>)"

definition engine_run :: "'m job_hook list \<Rightarrow> 'm mode
    \<Rightarrow> (pyval \<Rightarrow> (pydict \<Rightarrow> pyval \<Rightarrow> string option result \<times> pydict) option) \<Rightarrow> engine_op list \<Rightarrow> 'm engine \<Rightarrow> 'm engine" where
  "engine_run hs m capable ops e = fold (engine_op_step hs m capable) ops e"

text \<open>
  What every operation keeps: the invariant, the final states of the jobs that exist, no drive
  claim left behind, and the limit on registered jobs.
\<close>

definition evolves :: "'m engine \<Rightarrow> 'm engine \<Rightarrow> bool" where
  "evolves e e' \<longleftrightarrow> engine_wf e' \<and> next_ref e \<le> next_ref e'
     \<and> (\<forall>ref < next_ref e. same_job (heap e ref) (heap e' ref))
     \<and> (driving e = [] \<longrightarrow> driving e' = []) \<and> max_concurrent_jobs e' = max_concurrent_jobs e
     \<and> (int (length (jobs e)) \<le> max_concurrent_jobs e \<longrightarrow> int (length (jobs e')) \<le> max_concurrent_jobs e')"

lemma evolves_refl: "engine_wf e \<Longrightarrow> evolves e e"
  by (simp add: evolves_def)

lemma evolves_trans: "evolves e e' \<Longrightarrow> evolves e' e'' \<Longrightarrow> evolves e e''"
  unfolding evolves_def using same_job_trans order_less_le_trans by (smt (verit) order_trans)

lemma calm_evolves: "engine_wf e \<Longrightarrow> calm e e' \<Longrightarrow> evolves e e'"
  by (auto simp: calm_def evolves_def)

text \<open>Every operation but \<open>shutdown\<close> also keeps the drive claims.\<close>

definition advances :: "'m engine \<Rightarrow> 'm engine \<Rightarrow> bool" where
  "advances e e' \<longleftrightarrow> evolves e e' \<and> driving e' = driving e"

lemma advances_trans: "advances e e' \<Longrightarrow> advances e' e'' \<Longrightarrow> advances e e''"
  unfolding advances_def using evolves_trans by metis

lemma calm_advances: "engine_wf e \<Longrightarrow> calm e e' \<Longrightarrow> advances e e'"
  by (simp add: advances_def calm_evolves) (simp add: calm_def)

lemma calm_wf: "calm e e' \<Longrightarrow> engine_wf e \<Longrightarrow> engine_wf e'"
  by (simp add: calm_def)

lemma engine_start_calm: "calm e (engine_start m e)"
  by (auto simp: engine_start_def emit_def intro: calm_same)

lemma bind_job_context_calm: "calm e (bind_job_context ref e)"
  by (auto simp: bind_job_context_def Let_def split: option.splits intro: calm_same)

lemma set_jstate_calm: "calm e (set_job ref ((heap e ref)\<lparr>jstate := st\<rparr>) e)"
  by (rule calm_set_job) (auto simp: same_job_def job_wf_def is_terminal_def)

lemma register_job_advances:
  assumes "engine_wf e" and "job_wf j" and "\<not> dict_has (jobs e) (jid j)"
    and "int (length (jobs e)) < max_concurrent_jobs e"
  shows "advances e (e\<lparr>heap := (heap e)(next_ref e := j), next_ref := Suc (next_ref e),
           jobs := dict_set (jid j) (next_ref e) (jobs e)\<rparr>)"
  using assms by (auto simp: advances_def evolves_def engine_wf_def length_dict_set less_Suc_eq split: if_splits)

locale calm_mode = calm_hooks hs for hs :: "'m job_hook list" +
  fixes m :: "'m mode"
  assumes submit_calm: "engine_wf e \<Longrightarrow> calm e (snd (m_submit_job m ref e))"
    and resume_calm: "engine_wf e \<Longrightarrow> calm e (snd (m_resume_job m ref e))"
    and cancel_calm: "engine_wf e \<Longrightarrow> calm e (snd (m_cancel_job m ref e))"
    and on_shutdown_calm: "engine_wf e \<Longrightarrow> calm e (snd (m_on_engine_shutdown m e))"
begin

lemma engine_cancel_calm: "engine_wf e \<Longrightarrow> calm e (snd (cancel_job m i e))"
proof (cases "get_job e i")
  case (Inr ref)
  assume wf: "engine_wf e"
  obtain r e1 where "m_cancel_job m ref e = (r, e1)" by fastforce
  then show ?thesis using cancel_calm [OF wf, of ref] Inr
    by (cases r) (simp_all add: cancel_job_def calm_emit_trans)
qed (simp add: cancel_job_def)

lemma engine_resume_calm: "engine_wf e \<Longrightarrow> calm e (snd (resume_job m i e))"
  using resume_calm by (auto simp: resume_job_def split: sum.splits)

lemma provide_input_calm: "engine_wf e \<Longrightarrow> calm e (snd (provide_input m i k v e))"
proof (cases "get_job e i")
  case (Inr ref)
  assume wf: "engine_wf e"
  let ?e2 = "emit JOB_INPUT_RECEIVED [(''job_id'', VStr i), (''key'', VStr k)] (Some ref)
      (set_job ref ((heap e ref)\<lparr>jstate := js_set k v (jstate (heap e ref))\<rparr>) e)"
  have c: "calm e ?e2" by (rule calm_emit_trans [OF set_jstate_calm])
  then have "calm e (snd (resume_job m i ?e2))"
    using calm_trans engine_resume_calm calm_wf wf by blast
  with c Inr show ?thesis by (simp add: provide_input_def Let_def)
qed (simp add: provide_input_def)

lemma deliver_input_calm: "engine_wf e \<Longrightarrow> calm e (snd (deliver_input m capable i v e))"
proof (cases "get_job e i")
  case (Inr ref)
  assume wf: "engine_wf e"
  show ?thesis
  proof (cases "capable (executable (heap e ref))")
    case (Some f)
    obtain r st where f: "f (jstate (heap e ref)) v = (r, st)" by fastforce
    let ?e1 = "set_job ref ((heap e ref)\<lparr>jstate := st\<rparr>) e"
    have c: "calm e ?e1" by (rule set_jstate_calm)
    have "calm e (snd (resume_job m i (emit t p q ?e1)))" for t p q
      using calm_trans calm_emit_trans [OF c] engine_resume_calm calm_wf wf by blast
    moreover have "snd (case p of (Inl x, e3) \<Rightarrow> (Inl x, e3) | (Inr _, e3) \<Rightarrow> (Inr slug, e3)) = snd p"
      for p :: "unit result \<times> 'm engine" and slug :: "string option"
      by (cases p; cases "fst p") auto
    ultimately show ?thesis using Inr Some f c
      by (cases r) (simp_all add: deliver_input_def Let_def calm_emit_trans)
  qed (simp add: deliver_input_def Inr)
qed (simp add: deliver_input_def)

lemma stop_jobs_calm: "engine_wf e \<Longrightarrow> calm e (stop_jobs m js e)"
proof (induction js arbitrary: e)
  case (Cons p js)
  obtain i ref where p: "p = (i, ref)" by fastforce
  obtain r e1 where c: "m_cancel_job m ref e = (r, e1)" by fastforce
  then have "calm e e1" using cancel_calm [OF Cons.prems, of ref] by simp
  then have "calm e (case r of Inl _ \<Rightarrow> e1
      | Inr _ \<Rightarrow> emit JOB_CANCELLED [(''job_id'', VStr (jid (heap e1 ref)))] (Some ref) e1)" (is "calm e ?e2")
    by (cases r) (simp_all add: calm_emit_trans)
  moreover from this have "calm ?e2 (stop_jobs m js ?e2)"
    using Cons calm_wf by blast
  ultimately have "calm e (stop_jobs m js ?e2)" by (rule calm_trans)
  with Cons p c show ?case by (cases r) simp_all
qed simp

lemma stop_calm: "engine_wf e \<Longrightarrow> calm e (snd (stop m e))"
proof -
  assume wf: "engine_wf e"
  let ?e1 = "e\<lparr>mode_state := m_shutdown m (mode_state e)\<rparr>"
  let ?e2 = "stop_jobs m (jobs ?e1) ?e1"
  have c1: "calm e ?e1" by (rule calm_same) simp_all
  have c2: "calm e ?e2" by (rule calm_trans [OF c1 stop_jobs_calm [OF calm_wf [OF c1 wf]]])
  obtain r e3 where s: "m_on_engine_shutdown m ?e2 = (r, e3)" by fastforce
  have c3: "calm e e3" using calm_trans [OF c2 on_shutdown_calm [OF calm_wf [OF c2 wf]]] s by simp
  have "calm e (e3\<lparr>running := False\<rparr>)" by (rule calm_trans [OF c3 calm_same]) simp_all
  with s c3 show ?thesis by (cases r) (simp_all add: stop_def Let_def calm_emit_trans)
qed

lemma shutdown_evolves: "engine_wf e \<Longrightarrow> evolves e (snd (engine_shutdown m e))"
proof -
  assume wf: "engine_wf e"
  obtain r e1 where s: "stop m e = (r, e1)" by fastforce
  then have ev: "evolves e e1" using calm_evolves [OF wf stop_calm [OF wf]] by simp
  then have "evolves e (e1\<lparr>jobs := [], driving := []\<rparr>)"
    by (simp add: evolves_def engine_wf_def)
  with s ev show ?thesis by (cases r) (auto simp: engine_shutdown_def)
qed

lemma submit_advances: "engine_wf e0 \<Longrightarrow> advances e0 (snd (submit hs m ex job_id gen st md e0))"
proof -
  assume wf0: "engine_wf e0"
  define e where "e = (if \<not> is_running m e0 then engine_start m e0 else e0)"
  have c0: "calm e0 e" by (simp add: e_def engine_start_calm)
  have wf: "engine_wf e" by (rule calm_wf [OF c0 wf0])
  let ?i = "or_generated job_id gen"
  let ?new = "new_job ?i ex (or_empty st) (or_empty md) (clock e)"
  show ?thesis
  proof (cases "?new")
    case (Inl x)
    then show ?thesis using calm_advances [OF wf0 c0] by (simp add: submit_def e_def [symmetric])
  next
    case (Inr j)
    from new_job_wf [OF Inr] have jwf: "job_wf j" by simp
    have ji: "jid j = ?i" using Inr by (auto simp: new_job_def split: if_splits)
    consider (full) "int (length (jobs e)) \<ge> max_concurrent_jobs e"
      | (dup) "int (length (jobs e)) < max_concurrent_jobs e" "dict_has (jobs e) ?i"
      | (ok) "int (length (jobs e)) < max_concurrent_jobs e" "\<not> dict_has (jobs e) ?i" by linarith
    then show ?thesis
    proof cases
      case ok
      let ?ref = "next_ref e"
      let ?e1 = "e\<lparr>heap := (heap e)(?ref := j), next_ref := Suc ?ref, jobs := dict_set ?i ?ref (jobs e)\<rparr>"
      let ?e3 = "emit JOB_SUBMITTED [(''job_id'', VStr ?i), (''metadata'', VDict (metadata j))] (Some ?ref)
                   (bind_job_context ?ref ?e1)"
      have "advances e ?e1" using register_job_advances [OF wf jwf] ok ji by simp
      then have ev1: "advances e0 ?e1" using advances_trans calm_advances [OF wf0 c0] by blast
      then have wf1: "engine_wf ?e1" by (simp add: advances_def evolves_def)
      have c3: "calm ?e1 ?e3" by (rule calm_emit_trans [OF bind_job_context_calm])
      obtain r e4 where s: "m_submit_job m ?ref ?e3 = (r, e4)" by fastforce
      have c4: "calm ?e1 e4"
        using calm_trans [OF c3 submit_calm [OF calm_wf [OF c3 wf1]]] s by (metis snd_conv)
      obtain r' e5 where n: "notify_job_submitted hs ?ref e4 = (r', e5)" by fastforce
      have "calm ?e1 e5" using calm_trans [OF c4 submitted_calm] n by (metis snd_conv)
      then have "advances e0 e4" "advances e0 e5"
        using advances_trans [OF ev1] calm_advances [OF wf1] c4 by blast+
      then show ?thesis using Inr ok s n
        by (cases r; cases r') (simp_all add: submit_def e_def [symmetric] Let_def)
    qed (use Inr calm_advances [OF wf0 c0] in \<open>simp_all add: submit_def e_def [symmetric] Let_def\<close>)
  qed
qed

lemma step_advances: "engine_wf e \<Longrightarrow> op \<noteq> ShutdownOp \<Longrightarrow> advances e (engine_op_step hs m capable op e)"
proof (cases op)
  case (ClockOp t)
  have "calm e (e\<lparr>clock := t\<rparr>)" by (rule calm_same) simp_all
  then show "engine_wf e \<Longrightarrow> ?thesis" using calm_advances ClockOp by (simp add: engine_op_step_def)
qed (simp_all add: engine_op_step_def submit_advances calm_advances engine_cancel_calm
    engine_resume_calm provide_input_calm deliver_input_calm engine_start_calm stop_calm)

lemma step_evolves: "engine_wf e \<Longrightarrow> evolves e (engine_op_step hs m capable op e)"
  using step_advances [of e op] shutdown_evolves [of e]
  by (cases "op = ShutdownOp") (auto simp: advances_def engine_op_step_def)

lemma run_evolves: "engine_wf e \<Longrightarrow> evolves e (engine_run hs m capable ops e)"
proof (induction ops arbitrary: e)
  case (Cons op ops)
  have ev: "evolves e (engine_op_step hs m capable op e)" by (rule step_evolves [OF Cons.prems])
  then have "evolves (engine_op_step hs m capable op e) (engine_run hs m capable ops (engine_op_step hs m capable op e))"
    by (intro Cons.IH) (simp add: evolves_def)
  with ev show ?case using evolves_trans by (auto simp: engine_run_def)
qed (simp add: engine_run_def evolves_refl)

end

end
