(* ===== verification/Runtime.thy ===== *)
theory Runtime
  imports EngineSafety BehaviorTree
begin

text \<open>
  What the orchestration engine is run with: the auth engine and its job hook
  (\<open>palm/core/auth/engine.py\<close>, \<open>palm/system/runtime/hooks/middleware.py\<close>), the behavior tree runner
  (\<open>palm/backends/behavior_tree/runner.py\<close>) and the inline scheduler. They satisfy the contracts of
  the engine's callbacks, which gives the properties of the engine as it is deployed.
\<close>

subsection \<open>Principals\<close>

record principal =
  pr_id :: string
  pr_roles :: "string list"

type_synonym auth_engine = "principal option"

definition authenticate :: "(pyval \<Rightarrow> string) \<Rightarrow> pydict \<Rightarrow> auth_engine \<Rightarrow> principal option \<times> auth_engine" where
  "authenticate r credentials a =
     (let subject = py_get credentials ''subject'' in
      if \<not> truthy subject then (None, a)
      else let p = \<lparr>pr_id = py_str r subject, pr_roles = [''user'']\<rparr> in (Some p, Some p))"

definition bind_principal :: "principal \<Rightarrow> auth_engine \<Rightarrow> principal \<times> auth_engine" where
  "bind_principal p a = (p, Some p)"

definition authorize :: "string list \<Rightarrow> auth_engine \<Rightarrow> bool" where
  "authorize required a = (case a of None \<Rightarrow> False | Some p \<Rightarrow> list_ex (\<lambda>role. role \<in> set (pr_roles p)) required)"

definition auth_do_shutdown :: "auth_engine \<Rightarrow> auth_engine" where
  "auth_do_shutdown a = None"

datatype credentials = NoCredentials | PrincipalCredentials principal | DictCredentials pydict

definition authenticate_runtime :: "(pyval \<Rightarrow> string) \<Rightarrow> credentials \<Rightarrow> auth_engine \<Rightarrow> auth_engine" where
  "authenticate_runtime r c a = (case c of
     NoCredentials \<Rightarrow> a
   | PrincipalCredentials p \<Rightarrow> snd (bind_principal p a)
   | DictCredentials d \<Rightarrow> snd (authenticate r d a))"

definition stamp_principal :: "auth_engine \<Rightarrow> job \<Rightarrow> job" where
  "stamp_principal a j = (case a of None \<Rightarrow> j | Some p \<Rightarrow>
     (let m1 = dict_setdefault ''principal_id'' (VStr (pr_id p)) (metadata j)
      in j\<lparr>metadata := if pr_roles p \<noteq> [] then dict_setdefault ''principal_roles'' (VList (map VStr (pr_roles p))) m1 else m1\<rparr>))"

text \<open>\<open>AuthMiddleware\<close>, with the auth engine as it is when the hook runs.\<close>

definition job_authorization_error :: "string \<Rightarrow> string option \<Rightarrow> exc" where
  "job_authorization_error i p = Exc JobAuthorizationError (''Job '' @ i @ '' not authorized ('' @
     (case p of Some q \<Rightarrow> (if q \<noteq> [] then ''principal '' @ quoted q else ''no authenticated principal'')
      | None \<Rightarrow> ''no authenticated principal'') @ '')'')"

definition auth_middleware :: "auth_engine \<Rightarrow> string list \<Rightarrow> bool \<Rightarrow> 'm job_hook" where
  "auth_middleware a required enforce = job_hook_adapter
     \<lparr>on_job_submitted := \<lambda>ref e. (Inr (), set_job ref (stamp_principal a (heap e ref)) e),
      on_before_drive := \<lambda>ref e.
        (let e1 = set_job ref (stamp_principal a (heap e ref)) e
         in if \<not> enforce then (Inr (), e1)
            else if a = None \<or> \<not> authorize required a
            then (Inl (job_authorization_error (jid (heap e1 ref)) (map_option pr_id a)), e1)
            else (Inr (), e1))\<rparr>"

subsection \<open>The behavior tree runner\<close>

text \<open>
  The executables are objects in a store \<open>'o\<close>; \<open>ptick\<close> yields the \<open>tick\<close> method of the object
  behind a value, \<open>None\<close> when it is not a \<open>BasePattern\<close>. \<open>as_exc\<close> recognises exception objects
  among the values.
\<close>

type_synonym 'o tick_method = "'o \<Rightarrow> pydict \<Rightarrow> pattern_status result \<times> 'o \<times> pydict"
type_synonym 'o ptick = "'o \<Rightarrow> pyval \<Rightarrow> 'o tick_method option"

fun bt_run_loop :: "(pyval \<Rightarrow> exc option) \<Rightarrow> 'o tick_method \<Rightarrow> nat \<Rightarrow> job_status \<Rightarrow> nat
    \<Rightarrow> (('o, 'z) object_store_scheme, run_result) eff" where
  "bt_run_loop as_exc tk 0 logical ref e =
     (Inr (if logical = RUNNING then plain_result RUNNING
           else (plain_result FAILED)\<lparr>rr_error := Some (Exc PyRuntimeError ''pattern did not reach a terminal status'')\<rparr>), e)"
| "bt_run_loop as_exc tk (Suc k) logical ref e =
     (case tk (objects (mode_state e)) (jstate (heap e ref)) of (r, ob, st) \<Rightarrow>
        (let e1 = set_job ref ((heap e ref)\<lparr>jstate := st\<rparr>) (e\<lparr>mode_state := (mode_state e)\<lparr>objects := ob\<rparr>\<rparr>)
         in case r of
              Inl x \<Rightarrow> (Inr ((plain_result FAILED)\<lparr>rr_error := Some x, rr_propagate := True\<rparr>), e1)
            | Inr WAITING \<Rightarrow> (Inr (plain_result WAITING_FOR_INPUT), e1)
            | Inr SUCCESS \<Rightarrow> (Inr ((plain_result SUCCEEDED)\<lparr>rr_result := js_get st ''__result__'' VNone\<rparr>), e1)
            | Inr FAILURE \<Rightarrow> (Inr ((plain_result FAILED)\<lparr>rr_error := Some
                  (case as_exc (js_get st ''__error__'' VNone) of Some x \<Rightarrow> x
                   | None \<Rightarrow> Exc PyRuntimeError ''pattern failed'')\<rparr>), e1)
            | Inr RUNNING_STATUS \<Rightarrow> bt_run_loop as_exc tk k RUNNING ref e1))"

definition bt_run :: "(pyval \<Rightarrow> exc option) \<Rightarrow> 'o ptick \<Rightarrow> int option \<Rightarrow> nat \<Rightarrow> (('o, 'z) object_store_scheme, run_result) eff" where
  "bt_run as_exc ptick budget ref e =
     (let j = heap e ref in
      if is_terminal j then (Inr ((plain_result (status j))\<lparr>rr_result := jresult j\<rparr>), e)
      else case ptick (objects (mode_state e)) (executable j) of
        None \<Rightarrow> (Inr ((plain_result FAILED)\<lparr>rr_error :=
                 Some (Exc PyTypeError ''BehaviorTreeRunner requires a BasePattern executable''), rr_propagate := True\<rparr>), e)
      | Some tk \<Rightarrow>
         (let ticks = (case budget of Some b \<Rightarrow> b | None \<Rightarrow> 10000) in
          if ticks < 1 then (Inl (Exc PyValueError ''budget must be >= 1''), e)
          else bt_run_loop as_exc tk (nat ticks) (if status j = PENDING then RUNNING else status j) ref e))"

text \<open>Behavior trees as patterns: the store maps object ids to trees; a bounded tree ticks within its need.\<close>

definition tree_ptick :: "(nat \<Rightarrow> nat) \<Rightarrow> (nat \<Rightarrow> node option) ptick" where
  "tree_ptick fuel ob v = (case v of
     VObj i \<Rightarrow> (if ob i = None then None
       else Some (\<lambda>ob s. case ob i of
           None \<Rightarrow> (Inl (Exc NodeExecutionError ''no such tree''), ob, s)
         | Some nd \<Rightarrow> (case tick (fuel i) nd s of
             Some (r, nd', s') \<Rightarrow> (r, ob(i \<mapsto> nd'), s')
           | None \<Rightarrow> (Inl (Exc NodeExecutionError ''out of fuel''), ob, s))))
   | _ \<Rightarrow> None)"

subsection \<open>The callbacks respect the engine\<close>

lemma stamp_calm: "calm e (set_job ref (stamp_principal a (heap e ref)) e)"
  by (rule calm_set_job) (auto simp: stamp_principal_def Let_def same_job_def job_wf_def is_terminal_def split: option.splits)

lemma auth_middleware_calm: "hook_calm (auth_middleware a required enforce)"
  by (auto simp: hook_calm_def auth_middleware_def job_hook_adapter_def Let_def stamp_calm)

lemma calm_mode_state: "calm e (e\<lparr>mode_state := m\<rparr>)"
  by (rule calm_same) simp_all

lemma set_state_calm: "calm e (set_job ref ((heap e ref)\<lparr>jstate := st\<rparr>) (e\<lparr>mode_state := m\<rparr>))"
proof (rule calm_trans)
  show "calm e (e\<lparr>mode_state := m\<rparr>)" by (rule calm_mode_state)
  show "calm (e\<lparr>mode_state := m\<rparr>) (set_job ref ((heap e ref)\<lparr>jstate := st\<rparr>) (e\<lparr>mode_state := m\<rparr>))"
    using set_jstate_calm [of "e\<lparr>mode_state := m\<rparr>" ref st] by simp
qed

lemma bt_run_loop_calm: "calm e (snd (bt_run_loop as_exc tk k logical ref e))"
proof (induction k arbitrary: logical e)
  case (Suc k)
  obtain r ob st where t: "tk (objects (mode_state e)) (jstate (heap e ref)) = (r, ob, st)"
    by (cases "tk (objects (mode_state e)) (jstate (heap e ref))") auto
  let ?e1 = "set_job ref ((heap e ref)\<lparr>jstate := st\<rparr>) (e\<lparr>mode_state := (mode_state e)\<lparr>objects := ob\<rparr>\<rparr>)"
  have c: "calm e ?e1" by (rule set_state_calm)
  have "calm e (snd (bt_run_loop as_exc tk k l ref ?e1))" for l
    by (rule calm_trans [OF c Suc.IH])
  with c t show ?case by (cases r) (auto simp: Let_def split: pattern_status.splits)
qed simp

lemma bt_run_calm: "calm e (snd (bt_run as_exc ptick budget ref e))"
  by (auto simp: bt_run_def Let_def bt_run_loop_calm split: option.splits)

interpretation deployed: calm_callbacks "[auth_middleware a required enforce]" "bt_run as_exc ptick budget"
  for a required enforce as_exc ptick budget
  by unfold_locales (auto simp: auth_middleware_calm bt_run_calm)

lemma inline_drive_calm:
  "engine_wf e \<Longrightarrow> calm e (snd (inline_drive [auth_middleware a required enforce] (bt_run as_exc ptick budget) thread ref e))"
  using deployed.drive_job_calm [of e a required enforce as_exc ptick budget thread ref]
  by (auto simp: inline_drive_def split: sum.splits prod.splits)

interpretation inline: calm_mode "[auth_middleware a required enforce]"
    "inline_scheduler [auth_middleware a required enforce] (bt_run as_exc ptick budget) thread"
  for a required enforce as_exc ptick budget thread
proof unfold_locales
  fix e :: "'a inline_state engine" and ref
  let ?m = "inline_scheduler [auth_middleware a required enforce] (bt_run as_exc ptick budget) thread"
  assume wf: "engine_wf e"
  let ?e1 = "if \<not> scheduler_on (mode_state e) then e\<lparr>mode_state := (mode_state e)\<lparr>scheduler_on := True\<rparr>\<rparr> else e"
  have c: "calm e ?e1" by (simp add: calm_mode_state)
  show "calm e (snd (m_submit_job ?m ref e))"
    using calm_trans [OF c inline_drive_calm [OF calm_wf [OF c wf]]]
    by (simp add: inline_scheduler_def inline_submit_job_def)
  show "calm e (snd (m_resume_job ?m ref e))"
    using inline_drive_calm [OF wf] by (simp add: inline_scheduler_def inline_resume_job_def)
  show "calm e (snd (m_cancel_job ?m ref e))"
    by (simp add: inline_scheduler_def base_mode_def deployed.cancel_calm)
  show "calm e (snd (m_on_engine_shutdown ?m e))"
    by (simp add: inline_scheduler_def base_mode_def no_effect_def)
qed

end
