(* ===== verification/RuntimeProps.thy ===== *)
theory RuntimeProps
  imports Runtime
begin

text \<open>
  The properties of the orchestration engine with the inline scheduler, the authorization hook and
  the behavior tree runner: what every sequence of operations keeps, the exclusive drive claim, the
  denial of a drive, the outcome of a drive, and a job state from which nothing continues.
\<close>

lemma new_engine_wf: "engine_wf (new_engine m r)"
  by (simp add: engine_wf_def new_engine_def)

text \<open>
  C1. Whatever the operations of the deployed engine do, in any order and with any executables,
  inputs and failures: the job map stays consistent, every job that reached a terminal state keeps
  that state and its completion time, no drive claim is left behind, and the number of registered
  jobs stays within the limit.
\<close>
theorem engine_runs_safely:
  assumes "engine_wf e"
    and "e' = engine_run [auth_middleware a required enforce]
        (inline_scheduler [auth_middleware a required enforce] (bt_run as_exc ptick budget) thread) capable ops e"
  shows "engine_wf e'
    \<and> (\<forall>ref < next_ref e. is_terminal (heap e ref) \<longrightarrow>
          status (heap e' ref) = status (heap e ref) \<and> completed_at (heap e' ref) = completed_at (heap e ref))
    \<and> (driving e = [] \<longrightarrow> driving e' = [])
    \<and> (int (length (jobs e)) \<le> max_concurrent_jobs e \<longrightarrow> int (length (jobs e')) \<le> max_concurrent_jobs e')"
  using inline.run_evolves [OF assms(1), of a required enforce as_exc ptick budget thread capable ops]
  unfolding assms(2) evolves_def same_job_def by blast

lemma engine_runs_safely_witness:
  "driving (engine_run [auth_middleware None [] True]
      (inline_scheduler [auth_middleware None [] True] (bt_run (\<lambda>_. None) (tree_ptick (\<lambda>_. 5)) None) ''main'') (\<lambda>_. None)
      [SubmitOp (VObj 0) None ''j1'' None None, CancelOp ''j1'', ShutdownOp]
      (new_engine \<lparr>objects = (\<lambda>_. None), scheduler_on = False\<rparr> (\<lambda>_. []))) = []"
proof -
  let ?e0 = "new_engine \<lparr>objects = (\<lambda>_. None), scheduler_on = False\<rparr> (\<lambda>_. [])"
  have d: "driving ?e0 = []" by (simp add: new_engine_def)
  have "engine_wf ?e0" by (rule new_engine_wf)
  from engine_runs_safely [OF this refl, of None "[]" True "\<lambda>_. None" "tree_ptick (\<lambda>_. 5)" None "''main''" "\<lambda>_. None"
      "[SubmitOp (VObj 0) None ''j1'' None None, CancelOp ''j1'', ShutdownOp]"] d
  show ?thesis by blast
qed

text \<open>
  C2. A drive claim is exclusive and does not leak: while a job is claimed, by whichever driver, a
  second drive of a job with that id is refused without any effect; and a drive leaves the claims as
  it found them, also when a hook, the runner or the application of the result raises.
\<close>
theorem drive_claim_exclusive:
  assumes "engine_wf e" and "begin_drive ref token e = (True, e1)" and "jid (heap e1 ref') = jid (heap e ref)"
  shows "drive_job hs run token' ref' e1 = (Inr False, e1)
    \<and> driving (snd (drive_job [auth_middleware a required enforce] (bt_run as_exc ptick budget) token ref e)) = driving e"
proof
  have "dict_has (driving e1) (jid (heap e1 ref'))"
    using begin_drive_granted [OF assms(2)] assms(3) by (simp add: dict_has_iff)
  then have "begin_drive ref' token' e1 = (False, e1)"
    by (auto simp: begin_drive_def Let_def split: option.splits)
  then show "drive_job hs run token' ref' e1 = (Inr False, e1)" by (simp add: drive_job_def)
  show "driving (snd (drive_job [auth_middleware a required enforce] (bt_run as_exc ptick budget) token ref e)) = driving e"
    using deployed.drive_job_calm [OF assms(1)] unfolding calm_def by blast
qed

definition demo_job :: job where
  "demo_job = \<lparr>jid = ''j1'', executable = VObj 0, jstate = [], metadata = [], status = PENDING,
     jresult = VNone, jerror = None, created_at = 0, started_at = None, completed_at = None\<rparr>"

definition demo_engine :: "(nat \<Rightarrow> node option) inline_state engine" where
  "demo_engine = (new_engine \<lparr>objects = [0 \<mapsto> Node ''ok'' False (ActionNode (\<lambda>s. (Inr NoValue, s))) []], scheduler_on = True\<rparr> (\<lambda>_. []))
     \<lparr>heap := \<lambda>_. demo_job, next_ref := 1, jobs := [(''j1'', 0)]\<rparr>"

lemma demo_engine_wf: "engine_wf demo_engine"
  by (simp add: engine_wf_def demo_engine_def new_engine_def demo_job_def job_wf_def is_terminal_def dict_wf_def)

lemma drive_claim_exclusive_witness:
  "\<exists>e1. begin_drive 0 ''w1'' demo_engine = (True, e1)
    \<and> drive_job [] (bt_run (\<lambda>_. None) (tree_ptick (\<lambda>_. 5)) None) ''w2'' 0 e1 = (Inr False, e1)"
proof -
  obtain e1 where b: "begin_drive 0 ''w1'' demo_engine = (True, e1)"
    by (simp add: begin_drive_def demo_engine_def new_engine_def demo_job_def is_terminal_def Let_def)
  then have "jid (heap e1 0) = jid (heap demo_engine 0)" using begin_drive_granted [OF b] by simp
  from drive_claim_exclusive [OF demo_engine_wf b this] b show ?thesis by blast
qed

subsection \<open>Denied drives\<close>

lemma heap_emit [simp]: "heap (emit t p r e) = heap e"
  by (simp add: emit_def)

lemma heap_flow [simp]: "heap (emit_flow_session_terminal ref e) = heap e"
  by (simp add: emit_flow_session_terminal_def Let_def)

lemma heap_publish [simp]: "heap (publish_job_status ref e) = heap e"
  by (simp add: publish_job_status_def Let_def)

lemma heap_set_job [simp]: "heap (set_job ref j e) = (heap e)(ref := j)"
  by (simp add: set_job_def)

lemma heap_end_drive [simp]: "heap (end_drive ref e) = heap e"
  by (simp add: end_drive_def)

lemma notify_nothing [simp]:
  "notify_before_drive [] ref e = (Inr (), e)" "notify_after_drive [] ref res e = (Inr (), e)"
  "notify_job_status_changed [] ref res e = (Inr (), e)" "notify_job_submitted [] ref e = (Inr (), e)"
  by (simp_all add: notify_before_drive_def notify_after_drive_def notify_job_status_changed_def notify_job_submitted_def)

text \<open>What a transition from a live state stores.\<close>

lemma transition_result:
  "\<not> is_terminal j \<Longrightarrow> s \<in> {RUNNING, WAITING_FOR_INPUT, SUCCEEDED, FAILED, CANCELLED} \<Longrightarrow>
    is_valid_transition (status j) s \<Longrightarrow> \<exists>j'. transition_to s r x now j = Inr j' \<and> status j' = s
      \<and> (s \<in> {SUCCEEDED, FAILED, CANCELLED} \<longrightarrow> completed_at j' = Some now \<and> (x \<noteq> None \<longrightarrow> jerror j' = x) \<and> (r \<noteq> VNone \<longrightarrow> jresult j' = r))"
  by (auto simp: transition_to_def Let_def)

lemma notify_auth [simp]:
  "notify_after_drive [auth_middleware a required enforce] ref res e = (Inr (), e)"
  "notify_job_status_changed [auth_middleware a required enforce] ref res e = (Inr (), e)"
  by (simp_all add: notify_after_drive_def notify_job_status_changed_def auth_middleware_def job_hook_adapter_def)

lemma apply_result_quiet:
  assumes "\<not> is_terminal (heap e ref)" and "s \<in> {RUNNING, WAITING_FOR_INPUT, SUCCEEDED, FAILED, CANCELLED}"
    and "is_valid_transition (status (heap e ref)) s" and "rr_status res = s" and "s \<noteq> status (heap e ref)"
    and quiet: "\<And>e. notify_job_status_changed hs ref res e = (Inr (), e)"
  shows "\<exists>j'. apply_result hs ref res e =
      ((case rr_error res of
          Some x \<Rightarrow> if rr_propagate res
            then Inl (Exc JobExecutionError (''Job '' @ jid (heap e ref) @ '' execution failed: '' @ exc_msg x)) else Inr ()
        | None \<Rightarrow> Inr ()), publish_job_status ref (set_job ref j' e))
    \<and> status j' = s \<and> (s \<in> {SUCCEEDED, FAILED, CANCELLED} \<longrightarrow> completed_at j' = Some (clock e)
      \<and> (rr_error res \<noteq> None \<longrightarrow> jerror j' = rr_error res) \<and> (rr_result res \<noteq> VNone \<longrightarrow> jresult j' = rr_result res))"
proof -
  obtain j' where j: "transition_to s (rr_result res) (rr_error res) (clock e) (heap e ref) = Inr j'"
      "status j' = s" "s \<in> {SUCCEEDED, FAILED, CANCELLED} \<longrightarrow> completed_at j' = Some (clock e)
      \<and> (rr_error res \<noteq> None \<longrightarrow> jerror j' = rr_error res) \<and> (rr_result res \<noteq> VNone \<longrightarrow> jresult j' = rr_result res)"
    using transition_result [OF assms(1-3), of "rr_result res" "rr_error res" "clock e"] by blast
  then show ?thesis using assms(1,4,5)
    by (intro exI [of _ j']) (simp add: apply_result_def Let_def quiet split: option.split)
qed

definition claimable :: "nat \<Rightarrow> 'm engine \<Rightarrow> bool" where
  "claimable ref e \<longleftrightarrow> dict_get (jobs e) (jid (heap e ref)) = Some ref \<and> \<not> is_terminal (heap e ref)
     \<and> \<not> dict_has (driving e) (jid (heap e ref))"

lemma claimable_begin: "claimable ref e \<Longrightarrow>
    begin_drive ref token e = (True, e\<lparr>driving := driving e @ [(jid (heap e ref), token)]\<rparr>)"
  by (simp add: claimable_def begin_drive_def Let_def dict_set_fresh)

lemma stamp_frame: "jid (stamp_principal a j) = jid j" "status (stamp_principal a j) = status j"
  by (simp_all add: stamp_principal_def Let_def split: option.splits)

text \<open>
  With the authorization hook enforcing, a drive without an authorized principal never reaches
  the runner: the outcome is the same for every runner, the job ends FAILED with a
  JobAuthorizationError, the caller sees a normal drive and the claim is released.
\<close>
theorem unauthorized_drive_denied:
  assumes "\<not> authorize required a" and "claimable ref e" and "engine_wf (e :: 'o inline_state engine)"
  shows "\<exists>e'. (\<forall>run. drive_job [auth_middleware a required True] run token ref e = (Inr True, e'))
    \<and> status (heap e' ref) = FAILED \<and> driving e' = driving e
    \<and> (\<exists>x. jerror (heap e' ref) = Some x \<and> isinstance x JobAuthorizationError)"
proof -
  let ?e1 = "e\<lparr>driving := driving e @ [(jid (heap e ref), token)]\<rparr>"
  let ?e2 = "set_job ref (stamp_principal a (heap e ref)) ?e1"
  let ?x = "job_authorization_error (jid (heap e ref)) (map_option pr_id a)"
  let ?res = "(plain_result FAILED)\<lparr>rr_error := Some ?x\<rparr>"
  have deny: "notify_before_drive [auth_middleware a required True] ref ?e1 = (Inl ?x, ?e2)"
    using assms(1) by (simp add: notify_before_drive_def auth_middleware_def Let_def set_job_def stamp_frame)
  have x: "isinstance ?x JobAuthorizationError" by (simp add: job_authorization_error_def)
  have live: "\<not> is_terminal (heap ?e2 ref)" and ne: "FAILED \<noteq> status (heap ?e2 ref)"
    using assms(2) by (auto simp: claimable_def is_terminal_def stamp_frame)
  then have "is_valid_transition (status (heap ?e2 ref)) FAILED"
    by (cases "status (heap ?e2 ref)") (auto simp: is_valid_transition_def is_terminal_def)
  from apply_result_quiet [OF live _ this _ ne, of ?res "[auth_middleware a required True]"]
  obtain j' where ap: "apply_result [auth_middleware a required True] ref ?res ?e2
      = (Inr (), publish_job_status ref (set_job ref j' ?e2))" and j: "status j' = FAILED" "jerror j' = Some ?x"
    by (auto simp: plain_result_def)
  let ?e' = "end_drive ref (publish_job_status ref (set_job ref j' ?e2))"
  have drive: "drive_job [auth_middleware a required True] run token ref e = (Inr True, ?e')" for run
    using claimable_begin [OF assms(2), of token] deny x ap by (simp add: drive_job_def drive_body_def)
  have "driving ?e' = driving e"
    using deployed.drive_job_calm [OF assms(3), of a required True _ _ _ token ref] drive
    by (simp add: calm_def)
  with drive j x show ?thesis by (intro exI [of _ ?e']) simp
qed

lemma unauthorized_drive_denied_witness:
  "\<exists>e'. (\<forall>run. drive_job [auth_middleware None [''user''] True] run ''w1'' 0 demo_engine = (Inr True, e'))
    \<and> status (heap e' 0) = FAILED"
proof -
  have "claimable 0 demo_engine"
    by (simp add: claimable_def demo_engine_def new_engine_def demo_job_def is_terminal_def)
  from unauthorized_drive_denied [OF _ this demo_engine_wf, of "[''user'']" None "''w1''"]
  show ?thesis by (auto simp: authorize_def)
qed

subsection \<open>The outcome of a drive\<close>

lemma bt_run_loop_frame: "bt_run_loop as_exc tk k logical ref e = (Inr res, e') \<Longrightarrow>
    rr_status res \<in> {RUNNING, WAITING_FOR_INPUT, SUCCEEDED, FAILED}
    \<and> (\<exists>st. heap e' = (heap e)(ref := (heap e ref)\<lparr>jstate := st\<rparr>)) \<and> clock e' = clock e"
proof (induction k arbitrary: logical e)
  case 0
  then show ?case by (cases "logical = RUNNING") (auto simp: plain_result_def intro!: exI [of _ "jstate (heap e ref)"])
next
  case (Suc k)
  obtain r ob st where t: "tk (objects (mode_state e)) (jstate (heap e ref)) = (r, ob, st)"
    by (cases "tk (objects (mode_state e)) (jstate (heap e ref))") auto
  let ?e1 = "set_job ref ((heap e ref)\<lparr>jstate := st\<rparr>) (e\<lparr>mode_state := (mode_state e)\<lparr>objects := ob\<rparr>\<rparr>)"
  have fr: "heap ?e1 = (heap e)(ref := (heap e ref)\<lparr>jstate := st\<rparr>)" "clock ?e1 = clock e"
    by (simp_all add: set_job_def)
  show ?case
  proof (cases "r = Inr RUNNING_STATUS")
    case True
    then have "bt_run_loop as_exc tk k RUNNING ref ?e1 = (Inr res, e')" using Suc.prems t by (simp add: Let_def)
    from Suc.IH [OF this] obtain st2 where "heap e' = (heap ?e1)(ref := (heap ?e1 ref)\<lparr>jstate := st2\<rparr>)"
        "rr_status res \<in> {RUNNING, WAITING_FOR_INPUT, SUCCEEDED, FAILED}" "clock e' = clock ?e1" by blast
    then show ?thesis using fr by (intro conjI exI [of _ st2]) simp_all
  next
    case False
    with Suc.prems t have "e' = ?e1 \<and> rr_status res \<in> {RUNNING, WAITING_FOR_INPUT, SUCCEEDED, FAILED}"
      by (auto simp: plain_result_def Let_def split: sum.splits pattern_status.splits)
    then show ?thesis using fr by (intro conjI exI [of _ st]) simp_all
  qed
qed

lemma bt_run_frame:
  assumes "bt_run as_exc ptick budget ref e = (Inr res, e')" and "\<not> is_terminal (heap e ref)"
  shows "rr_status res \<in> {RUNNING, WAITING_FOR_INPUT, SUCCEEDED, FAILED}
    \<and> (\<exists>st. heap e' = (heap e)(ref := (heap e ref)\<lparr>jstate := st\<rparr>)) \<and> clock e' = clock e"
proof (cases "ptick (objects (mode_state e)) (executable (heap e ref))")
  case None
  with assms show ?thesis
    by (auto simp: bt_run_def plain_result_def Let_def intro!: exI [of _ "jstate (heap e ref)"])
next
  case (Some tk)
  with assms obtain l n where "bt_run_loop as_exc tk n l ref e = (Inr res, e')"
    by (auto simp: bt_run_def Let_def split: if_splits)
  from bt_run_loop_frame [OF this] show ?thesis .
qed

interpretation bare: calm_callbacks "[]" "bt_run as_exc ptick budget" for as_exc ptick budget
  by unfold_locales (auto simp: bt_run_calm)

lemma live_valid: "\<not> is_terminal j \<Longrightarrow> s \<in> {RUNNING, WAITING_FOR_INPUT, SUCCEEDED, FAILED} \<Longrightarrow> is_valid_transition (status j) s"
  by (cases "status j") (auto simp: is_terminal_def is_valid_transition_def)

text \<open>A result for a live job is applied also when it keeps the status.\<close>

lemma apply_result_live:
  assumes "\<not> is_terminal (heap e ref)" and "rr_status res \<in> {RUNNING, WAITING_FOR_INPUT, SUCCEEDED, FAILED}"
    and quiet: "\<And>e. notify_job_status_changed hs ref res e = (Inr (), e)"
  shows "\<exists>j'. apply_result hs ref res e =
      ((case rr_error res of
          Some x \<Rightarrow> if rr_propagate res
            then Inl (Exc JobExecutionError (''Job '' @ jid (heap e ref) @ '' execution failed: '' @ exc_msg x)) else Inr ()
        | None \<Rightarrow> Inr ()), publish_job_status ref (set_job ref j' e))
    \<and> status j' = rr_status res \<and> (is_terminal j' \<longrightarrow> completed_at j' = Some (clock e)
      \<and> (rr_error res \<noteq> None \<longrightarrow> jerror j' = rr_error res) \<and> (rr_result res \<noteq> VNone \<longrightarrow> jresult j' = rr_result res))"
proof (cases "rr_status res = status (heap e ref)")
  case True
  then have "is_terminal (heap e ref) = (rr_status res \<in> {SUCCEEDED, FAILED, CANCELLED})" by (auto simp: is_terminal_def)
  then show ?thesis using True assms(1)
    by (intro exI [of _ "let j1 = (if rr_result res \<noteq> VNone then (heap e ref)\<lparr>jresult := rr_result res\<rparr> else heap e ref)
                        in if rr_error res \<noteq> None then j1\<lparr>jerror := rr_error res\<rparr> else j1"])
      (auto simp: apply_result_def Let_def quiet is_terminal_def split: option.split)
next
  case False
  from apply_result_quiet [OF assms(1) _ live_valid [OF assms(1,2)] refl False quiet] assms(2)
  obtain j' where "apply_result hs ref res e =
      ((case rr_error res of
          Some x \<Rightarrow> if rr_propagate res
            then Inl (Exc JobExecutionError (''Job '' @ jid (heap e ref) @ '' execution failed: '' @ exc_msg x)) else Inr ()
        | None \<Rightarrow> Inr ()), publish_job_status ref (set_job ref j' e))
    \<and> status j' = rr_status res \<and> (rr_status res \<in> {SUCCEEDED, FAILED, CANCELLED} \<longrightarrow> completed_at j' = Some (clock e)
      \<and> (rr_error res \<noteq> None \<longrightarrow> jerror j' = rr_error res) \<and> (rr_result res \<noteq> VNone \<longrightarrow> jresult j' = rr_result res))" by auto
  then show ?thesis by (intro exI [of _ j']) (auto simp: is_terminal_def)
qed

lemma denied_drive:
  assumes "enforce" and "\<not> authorize required a" and "\<not> is_terminal (heap e ref)"
  shows "\<exists>e2 j'. drive_body [auth_middleware a required enforce] run ref e = (Inr True, e2)
    \<and> heap e2 ref = j' \<and> status j' = FAILED \<and> completed_at j' = Some (clock e)
    \<and> jerror j' = Some (job_authorization_error (jid (heap e ref)) (map_option pr_id a))"
proof -
  let ?e1 = "set_job ref (stamp_principal a (heap e ref)) e" and ?hs = "[auth_middleware a required enforce]"
  let ?x = "job_authorization_error (jid (heap e ref)) (map_option pr_id a)"
  have deny: "notify_before_drive ?hs ref e = (Inl ?x, ?e1)"
    using assms(1,2) by (simp add: notify_before_drive_def auth_middleware_def Let_def set_job_def stamp_frame)
  have "\<not> is_terminal (heap ?e1 ref)" using assms(3) by (simp add: is_terminal_def stamp_frame)
  from apply_result_live [OF this, of "(plain_result FAILED)\<lparr>rr_error := Some ?x\<rparr>" ?hs]
  obtain j' where "apply_result ?hs ref ((plain_result FAILED)\<lparr>rr_error := Some ?x\<rparr>) ?e1
      = (Inr (), publish_job_status ref (set_job ref j' ?e1))" "status j' = FAILED"
      "is_terminal j' \<longrightarrow> completed_at j' = Some (clock ?e1) \<and> jerror j' = Some ?x" by (auto simp: plain_result_def)
  moreover have "isinstance ?x JobAuthorizationError" by (simp add: job_authorization_error_def)
  ultimately show ?thesis using deny
    by (simp add: drive_body_def is_terminal_def) (simp add: set_job_def)
qed

lemma admitted_drive:
  assumes "\<not> (enforce \<and> \<not> authorize required a)" and "\<not> is_terminal (heap e ref)"
    and "bt_run as_exc ptick budget ref (set_job ref (stamp_principal a (heap e ref)) e) = (x, e1)"
  shows "\<exists>e2. drive_body [auth_middleware a required enforce] (bt_run as_exc ptick budget) ref e =
      ((case x of
          Inl y \<Rightarrow> Inl y
        | Inr res \<Rightarrow> (case rr_error res of
            Some y \<Rightarrow> if rr_propagate res
              then Inl (Exc JobExecutionError (''Job '' @ jid (heap e ref) @ '' execution failed: '' @ exc_msg y)) else Inr True
          | None \<Rightarrow> Inr True)), e2)
    \<and> (case x of
          Inl y \<Rightarrow> e2 = e1
        | Inr res \<Rightarrow> status (heap e2 ref) = rr_status res
            \<and> (is_terminal (heap e2 ref) \<longrightarrow> completed_at (heap e2 ref) = Some (clock e)
              \<and> (rr_error res \<noteq> None \<longrightarrow> jerror (heap e2 ref) = rr_error res)
              \<and> (rr_result res \<noteq> VNone \<longrightarrow> jresult (heap e2 ref) = rr_result res)))"
proof -
  let ?e1 = "set_job ref (stamp_principal a (heap e ref)) e" and ?hs = "[auth_middleware a required enforce]"
  have pass: "notify_before_drive ?hs ref e = (Inr (), ?e1)"
    using assms(1) by (auto simp: notify_before_drive_def auth_middleware_def Let_def set_job_def authorize_def)
  show ?thesis
  proof (cases x)
    case (Inl y)
    then show ?thesis using pass assms(3) by (simp add: drive_body_def)
  next
    case (Inr res)
    have live: "\<not> is_terminal (heap ?e1 ref)" using assms(2) by (simp add: is_terminal_def stamp_frame)
    note f = bt_run_frame [OF assms(3) [unfolded Inr] live]
    then obtain st where
      s: "rr_status res \<in> {RUNNING, WAITING_FOR_INPUT, SUCCEEDED, FAILED}"
      and h: "heap e1 ref = (stamp_principal a (heap e ref))\<lparr>jstate := st\<rparr>" and c: "clock e1 = clock e"
      by (auto simp: set_job_def)
    have live2: "\<not> is_terminal (heap e1 ref)" "jid (heap e1 ref) = jid (heap e ref)"
      using assms(2) h by (simp_all add: is_terminal_def stamp_frame)
    obtain j' where ap: "apply_result ?hs ref res e1 = ((case rr_error res of
          Some x \<Rightarrow> if rr_propagate res
            then Inl (Exc JobExecutionError (''Job '' @ jid (heap e ref) @ '' execution failed: '' @ exc_msg x)) else Inr ()
        | None \<Rightarrow> Inr ()), publish_job_status ref (set_job ref j' e1))"
      and j: "status j' = rr_status res" "is_terminal j' \<longrightarrow> completed_at j' = Some (clock e1)
      \<and> (rr_error res \<noteq> None \<longrightarrow> jerror j' = rr_error res) \<and> (rr_result res \<noteq> VNone \<longrightarrow> jresult j' = rr_result res)"
      using apply_result_live [OF live2(1) s, of ?hs, unfolded live2(2)] by (metis notify_auth(2))
    then show ?thesis using pass assms(3) Inr c
      by (cases "rr_error res") (simp_all add: drive_body_def)
  qed
qed



subsection \<open>A job that nothing continues\<close>

text \<open>
  A job whose drive ends with the tick budget spent stays RUNNING and unclaimed, and no
  resumption, delivered value, start or clock step of the engine ever drives it again: its status
  and its error and result stay as they are.
\<close>
theorem budget_spent_is_stuck:
  assumes "status (heap e ref) = RUNNING" and "dict_get (jobs e) i = Some ref"
    and "set ops \<subseteq> {ResumeOp i, StartOp} \<union> range (\<lambda>(k, v). InputOp i k v) \<union> range (DeliverOp i) \<union> range ClockOp"
  shows "status (heap (engine_run hs m capable ops e) ref) = RUNNING"
  using assms
proof (induction ops arbitrary: e)
  case (Cons op ops)
  let ?e = "engine_op_step hs m capable op e"
  have "status (heap ?e ref) = RUNNING \<and> dict_get (jobs ?e) i = Some ref"
    using Cons.prems by (auto simp: engine_op_step_def resume_job_def provide_input_def deliver_input_def get_job_def
        engine_start_def set_job_def emit_def Let_def split: option.splits sum.splits prod.splits)
  then show ?case using Cons.IH [of ?e] Cons.prems(3) by (simp add: engine_run_def)
qed (simp add: engine_run_def)

lemma budget_spent_is_stuck_witness:
  "status (heap (engine_run [] (unconfigured_mode []) (\<lambda>_. None) [ResumeOp ''j1'', InputOp ''j1'' ''k'' VNone, ClockOp 3]
     (demo_engine\<lparr>heap := \<lambda>_. demo_job\<lparr>status := RUNNING\<rparr>\<rparr>)) 0) = RUNNING"
  by (rule budget_spent_is_stuck [where i = "''j1''"]) (auto simp: demo_engine_def)

end
