(* ===== verification/Queued.thy ===== *)
theory Queued
  imports Runtime "HOL-Library.Multiset"
begin

text \<open>
  \<open>QueuedScheduler\<close> (\<open>palm/system/runtime/schedulers/queued.py\<close>) as a step relation over the worker
  threads and the engine, whose mode state holds the work queue; \<open>q_spawned\<close> counts the threads that
  \<open>start\<close> has launched, and a launched thread enters its loop in a step of its own. A worker takes an
  item and asks for the drive claim in one step; the drive itself (\<open>drive_job\<close> with the behavior tree
  runner) is a sequence of steps, one for the hooks before it, one for the entry of the runner, one for
  every tick, one for the application of the result, one for the hooks after it and one that gives the
  claim back. Between any two of them the other workers and the callers of the engine may act. An
  exception that leaves \<open>drive_job\<close> ends the thread: the worker loop has no handler for it.
\<close>

datatype work_item = WorkItem nat | Sentinel

text \<open>
  Where a worker is in its loop: between items, or in the drive of the job object \<open>ref\<close>; while it
  ticks it keeps the method it was given at the entry, the ticks left and the logical status.
\<close>

datatype 'o worker =
    Idle
  | Driving nat
  | Admitted nat
  | Ticking nat "'o tick_method" nat job_status
  | Applying nat run_result bool
  | Notifying nat run_result
  | Finishing nat "bool result"
  | Exited

record 'o queued_state = "'o object_store" +
  q_items :: "work_item list"
  q_stop :: bool
  q_on :: bool
  q_workers :: nat
  q_spawned :: nat

definition new_queued :: "'o \<Rightarrow> int \<Rightarrow> 'o queued_state" where
  "new_queued ob workers = \<lparr>objects = ob, q_items = [], q_stop = False, q_on = False,
     q_workers = nat (max 1 workers), q_spawned = 0\<rparr>"

definition queued_start :: "'o queued_state \<Rightarrow> 'o queued_state" where
  "queued_start q = (if q_on q then q
     else q\<lparr>q_stop := False, q_spawned := q_spawned q + q_workers q, q_on := True\<rparr>)"

definition queued_shutdown :: "'o queued_state \<Rightarrow> 'o queued_state" where
  "queued_shutdown q = (if \<not> q_on q then q
     else q\<lparr>q_stop := True, q_items := q_items q @ replicate (q_workers q) Sentinel, q_on := False\<rparr>)"

definition queued_is_running :: "'o queued_state \<Rightarrow> bool" where
  "queued_is_running q = (q_on q \<and> \<not> q_stop q)"

definition upd :: "('o queued_state \<Rightarrow> 'o queued_state) \<Rightarrow> 'o queued_state engine \<Rightarrow> 'o queued_state engine" where
  "upd f e = e\<lparr>mode_state := f (mode_state e)\<rparr>"

definition enqueue :: "nat \<Rightarrow> 'o queued_state \<Rightarrow> 'o queued_state" where
  "enqueue ref q = q\<lparr>q_items := q_items q @ [WorkItem ref]\<rparr>"

definition queued_submit_job :: "nat \<Rightarrow> ('o queued_state, unit) eff" where
  "queued_submit_job ref e = (Inr (), upd (enqueue ref) (if \<not> q_on (mode_state e) then upd queued_start e else e))"

definition queued_resume_job :: "nat \<Rightarrow> ('o queued_state, unit) eff" where
  "queued_resume_job ref e =
     (Inr (), if status (heap e ref) = WAITING_FOR_INPUT then upd (enqueue ref) e else e)"

definition queued_scheduler :: "'o queued_state job_hook list \<Rightarrow> 'o queued_state mode" where
  "queued_scheduler hs = (base_mode hs queued_start queued_shutdown queued_is_running)
     \<lparr>m_submit_job := queued_submit_job, m_resume_job := queued_resume_job\<rparr>"

type_synonym 'o pool = "'o worker list \<times> 'o queued_state engine"

definition workers_alive :: "'o pool \<Rightarrow> nat" where
  "workers_alive p = length (filter (\<lambda>w. w \<noteq> Exited) (fst p)) + (q_spawned (mode_state (snd p)) - length (fst p))"

text \<open>One turn of the worker loop up to the claim: the stop flag is read before the queue.\<close>

definition worker_take :: "nat \<Rightarrow> 'o pool \<Rightarrow> 'o pool" where
  "worker_take i p = (case p of (ws, e) \<Rightarrow>
     if q_stop (mode_state e) then (ws[i := Exited], e)
     else case q_items (mode_state e) of
       [] \<Rightarrow> (ws, e)
     | Sentinel # its \<Rightarrow> (ws[i := Exited], upd (\<lambda>q. q\<lparr>q_items := its\<rparr>) e)
     | WorkItem ref # its \<Rightarrow>
         (let e1 = upd (\<lambda>q. q\<lparr>q_items := its\<rparr>) e in
          if is_terminal (heap e1 ref) then (ws, e1)
          else case begin_drive ref ''worker'' e1 of
            (False, e2) \<Rightarrow> (ws, e2)
          | (True, e2) \<Rightarrow> (ws[i := Driving ref], e2)))"

text \<open>
  The steps of a drive. \<open>Applying ref res full\<close> is before the application of a result; \<open>full\<close> tells
  whether the hooks after the drive follow, as they do unless the job was denied.
\<close>

definition drive_before :: "'o queued_state job_hook list \<Rightarrow> nat \<Rightarrow> 'o queued_state engine \<Rightarrow> 'o worker \<times> 'o queued_state engine" where
  "drive_before hs ref e = (case notify_before_drive hs ref e of
     (Inl x, e1) \<Rightarrow> (if isinstance x JobAuthorizationError
       then Applying ref ((plain_result FAILED)\<lparr>rr_error := Some x\<rparr>) False else Finishing ref (Inl x), e1)
   | (Inr _, e1) \<Rightarrow> (Admitted ref, e1))"

definition drive_enter :: "'o ptick \<Rightarrow> int option \<Rightarrow> nat \<Rightarrow> 'o queued_state engine \<Rightarrow> 'o worker" where
  "drive_enter ptick budget ref e =
     (let j = heap e ref in
      if is_terminal j then Applying ref ((plain_result (status j))\<lparr>rr_result := jresult j\<rparr>) True
      else case ptick (objects (mode_state e)) (executable j) of
        None \<Rightarrow> Applying ref ((plain_result FAILED)\<lparr>rr_error :=
                 Some (Exc PyTypeError ''BehaviorTreeRunner requires a BasePattern executable''), rr_propagate := True\<rparr>) True
      | Some tk \<Rightarrow>
         (let ticks = (case budget of Some b \<Rightarrow> b | None \<Rightarrow> 10000) in
          if ticks < 1 then Finishing ref (Inl (Exc PyValueError ''budget must be >= 1''))
          else Ticking ref tk (nat ticks) (if status j = PENDING then RUNNING else status j)))"

fun drive_tick :: "(pyval \<Rightarrow> exc option) \<Rightarrow> nat \<Rightarrow> 'o tick_method \<Rightarrow> nat \<Rightarrow> job_status \<Rightarrow> 'o queued_state engine
    \<Rightarrow> 'o worker \<times> 'o queued_state engine" where
  "drive_tick as_exc ref tk 0 logical e =
     (Applying ref (if logical = RUNNING then plain_result RUNNING
           else (plain_result FAILED)\<lparr>rr_error := Some (Exc PyRuntimeError ''pattern did not reach a terminal status'')\<rparr>) True, e)"
| "drive_tick as_exc ref tk (Suc k) logical e = (case tk (objects (mode_state e)) (jstate (heap e ref)) of (r, ob, st) \<Rightarrow>
      (case r of
         Inl x \<Rightarrow> Applying ref ((plain_result FAILED)\<lparr>rr_error := Some x, rr_propagate := True\<rparr>) True
       | Inr WAITING \<Rightarrow> Applying ref (plain_result WAITING_FOR_INPUT) True
       | Inr SUCCESS \<Rightarrow> Applying ref ((plain_result SUCCEEDED)\<lparr>rr_result := js_get st ''__result__'' VNone\<rparr>) True
       | Inr FAILURE \<Rightarrow> Applying ref ((plain_result FAILED)\<lparr>rr_error := Some
             (case as_exc (js_get st ''__error__'' VNone) of Some x \<Rightarrow> x
              | None \<Rightarrow> Exc PyRuntimeError ''pattern failed'')\<rparr>) True
       | Inr RUNNING_STATUS \<Rightarrow> Ticking ref tk k RUNNING,
       set_job ref ((heap e ref)\<lparr>jstate := st\<rparr>) (e\<lparr>mode_state := (mode_state e)\<lparr>objects := ob\<rparr>\<rparr>)))"

definition drive_apply :: "'o queued_state job_hook list \<Rightarrow> nat \<Rightarrow> run_result \<Rightarrow> bool \<Rightarrow> 'o queued_state engine \<Rightarrow> 'o worker \<times> 'o queued_state engine" where
  "drive_apply hs ref res full e = (case apply_result hs ref res e of
     (Inl x, e1) \<Rightarrow> (Finishing ref (Inl x), e1)
   | (Inr _, e1) \<Rightarrow> (if full then Notifying ref res else Finishing ref (Inr True), e1))"

definition drive_after :: "'o queued_state job_hook list \<Rightarrow> nat \<Rightarrow> run_result \<Rightarrow> 'o queued_state engine \<Rightarrow> 'o worker \<times> 'o queued_state engine" where
  "drive_after hs ref res e = (case notify_after_drive hs ref res e of
     (Inl x, e1) \<Rightarrow> (Finishing ref (Inl x), e1) | (Inr _, e1) \<Rightarrow> (Finishing ref (Inr True), e1))"

fun working :: "'o worker \<Rightarrow> bool" where
  "working (Driving ref) = True" | "working (Admitted ref) = True" | "working (Ticking ref tk k l) = True"
| "working (Applying ref res full) = True" | "working (Notifying ref res) = True" | "working w = False"

fun drive_step :: "'o queued_state job_hook list \<Rightarrow> (pyval \<Rightarrow> exc option) \<Rightarrow> 'o ptick \<Rightarrow> int option \<Rightarrow> 'o worker
    \<Rightarrow> 'o queued_state engine \<Rightarrow> 'o worker \<times> 'o queued_state engine" where
  "drive_step hs as_exc ptick budget (Driving ref) e = drive_before hs ref e"
| "drive_step hs as_exc ptick budget (Admitted ref) e = (drive_enter ptick budget ref e, e)"
| "drive_step hs as_exc ptick budget (Ticking ref tk k logical) e = drive_tick as_exc ref tk k logical e"
| "drive_step hs as_exc ptick budget (Applying ref res full) e = drive_apply hs ref res full e"
| "drive_step hs as_exc ptick budget (Notifying ref res) e = drive_after hs ref res e"
| "drive_step hs as_exc ptick budget w e = (w, e)"

definition worker_drive :: "'o queued_state job_hook list \<Rightarrow> (pyval \<Rightarrow> exc option) \<Rightarrow> 'o ptick \<Rightarrow> int option
    \<Rightarrow> nat \<Rightarrow> 'o pool \<Rightarrow> 'o pool" where
  "worker_drive hs as_exc ptick budget i p = (case p of (ws, e) \<Rightarrow>
     (case drive_step hs as_exc ptick budget (ws ! i) e of (w, e1) \<Rightarrow> (ws[i := w], e1)))"

definition worker_finish :: "nat \<Rightarrow> nat \<Rightarrow> bool result \<Rightarrow> 'o pool \<Rightarrow> 'o pool" where
  "worker_finish i ref r p = (case p of (ws, e) \<Rightarrow>
     (ws[i := (case r of Inl _ \<Rightarrow> Exited | Inr _ \<Rightarrow> Idle)], end_drive ref e))"

text \<open>The job object whose claim a worker holds.\<close>

fun held_by :: "'o worker \<Rightarrow> nat list" where
  "held_by Idle = []"
| "held_by Exited = []"
| "held_by (Driving ref) = [ref]"
| "held_by (Admitted ref) = [ref]"
| "held_by (Ticking ref tk k logical) = [ref]"
| "held_by (Applying ref res full) = [ref]"
| "held_by (Notifying ref res) = [ref]"
| "held_by (Finishing ref r) = [ref]"

definition held :: "'o worker list \<Rightarrow> nat list" where
  "held ws = concat (map held_by ws)"

text \<open>
  The steps: a worker's, or an operation of the engine by another thread. \<open>shutdown\<close> joins the threads
  with a timeout and then clears jobs and claims, whether they have ended or not; \<open>timeouts\<close> tells
  whether the steps include a shutdown that gave up waiting for a worker under a job. (A shutdown
  whose threads act while it waits is a \<open>StopOp\<close>, their steps, and the \<open>ShutdownOp\<close> that clears.) A
  reference in the queue is one to an existing job object.
\<close>

inductive pool_step :: "bool \<Rightarrow> 'o queued_state job_hook list \<Rightarrow> (pyval \<Rightarrow> exc option) \<Rightarrow> 'o ptick \<Rightarrow> int option
    \<Rightarrow> (pyval \<Rightarrow> (pydict \<Rightarrow> pyval \<Rightarrow> string option result \<times> pydict) option) \<Rightarrow> 'o pool \<Rightarrow> 'o pool \<Rightarrow> bool"
  for timeouts hs as_exc ptick budget capable where
  spawn: "length ws < q_spawned (mode_state e) \<Longrightarrow> pool_step timeouts hs as_exc ptick budget capable (ws, e) (ws @ [Idle], e)"
| take: "i < length ws \<Longrightarrow> ws ! i = Idle \<Longrightarrow>
     (\<And>ref its. q_items (mode_state e) = WorkItem ref # its \<Longrightarrow> ref < next_ref e) \<Longrightarrow>
     pool_step timeouts hs as_exc ptick budget capable (ws, e) (worker_take i (ws, e))"
| drive: "i < length ws \<Longrightarrow> working (ws ! i) \<Longrightarrow>
     pool_step timeouts hs as_exc ptick budget capable (ws, e) (worker_drive hs as_exc ptick budget i (ws, e))"
| finish: "i < length ws \<Longrightarrow> ws ! i = Finishing ref r \<Longrightarrow>
     pool_step timeouts hs as_exc ptick budget capable (ws, e) (worker_finish i ref r (ws, e))"
| operation: "timeouts \<or> op \<noteq> ShutdownOp \<or> held ws = [] \<Longrightarrow>
     pool_step timeouts hs as_exc ptick budget capable (ws, e) (ws, engine_op_step hs (queued_scheduler hs) capable op e)"

inductive_cases pool_stepE: "pool_step timeouts hs as_exc ptick budget capable p p'"

abbreviation pool_steps :: "bool \<Rightarrow> 'o queued_state job_hook list \<Rightarrow> (pyval \<Rightarrow> exc option) \<Rightarrow> 'o ptick \<Rightarrow> int option
    \<Rightarrow> (pyval \<Rightarrow> (pydict \<Rightarrow> pyval \<Rightarrow> string option result \<times> pydict) option) \<Rightarrow> 'o pool \<Rightarrow> 'o pool \<Rightarrow> bool" where
  "pool_steps timeouts hs as_exc ptick budget capable \<equiv> (pool_step timeouts hs as_exc ptick budget capable)\<^sup>*\<^sup>*"

subsection \<open>The invariant\<close>

definition pool_inv :: "'o pool \<Rightarrow> bool" where
  "pool_inv p \<longleftrightarrow> (case p of (ws, e) \<Rightarrow> engine_wf e \<and> (\<forall>ref \<in> set (held ws). ref < next_ref e)
     \<and> distinct (map (\<lambda>ref. jid (heap e ref)) (held ws))
     \<and> set (dict_keys (driving e)) = (\<lambda>ref. jid (heap e ref)) ` set (held ws))"

lemma thread_update:
  assumes "i < length ws" and "ws ! i = w"
  obtains as bs where "ws = as @ w # bs" and "i = length as"
  using assms that [of "take i ws" "drop (Suc i) ws"] id_take_nth_drop [OF assms(1)] by simp

lemma held_simps [simp]: "held [] = []" "held (as @ bs) = held as @ held bs" "held (w # ws) = held_by w @ held ws"
  by (simp_all add: held_def)

lemma upd_calm: "calm e (upd f e)"
  by (rule calm_same) (simp_all add: upd_def)

text \<open>A step of the engine that keeps the claims and the identity of the held jobs.\<close>

lemma pool_inv_advances:
  assumes "pool_inv (ws, e)" and "engine_wf e'" and "next_ref e \<le> next_ref e'" and "driving e' = driving e"
    and "\<forall>ref < next_ref e. same_job (heap e ref) (heap e' ref)" and "mset (held ws') = mset (held ws)"
  shows "pool_inv (ws', e')"
proof -
  have s: "set (held ws') = set (held ws)" using assms(6) by (metis set_mset_mset)
  have j: "jid (heap e' ref) = jid (heap e ref)" if "ref \<in> set (held ws)" for ref
    using assms(1,5) that by (auto simp: pool_inv_def same_job_def)
  have "mset (map (\<lambda>ref. jid (heap e' ref)) (held ws')) = mset (map (\<lambda>ref. jid (heap e' ref)) (held ws))"
    using assms(6) by simp
  also have "map (\<lambda>ref. jid (heap e' ref)) (held ws) = map (\<lambda>ref. jid (heap e ref)) (held ws)"
    using j by simp
  finally have m: "mset (map (\<lambda>ref. jid (heap e' ref)) (held ws')) = mset (map (\<lambda>ref. jid (heap e ref)) (held ws))" .
  have "distinct (map (\<lambda>ref. jid (heap e' ref)) (held ws'))"
    unfolding mset_eq_imp_distinct_iff [OF m] using assms(1) by (simp add: pool_inv_def)
  moreover have "(\<lambda>ref. jid (heap e' ref)) ` set (held ws') = (\<lambda>ref. jid (heap e ref)) ` set (held ws)"
    using s j by (intro image_cong) auto
  ultimately show ?thesis using assms(1-4) s by (auto simp: pool_inv_def simp del: image_image)
qed

lemma take_inv:
  assumes "pool_inv (ws, e)" and "i < length ws" and "ws ! i = Idle"
    and "\<And>ref its. q_items (mode_state e) = WorkItem ref # its \<Longrightarrow> ref < next_ref e"
  shows "pool_inv (worker_take i (ws, e))"
proof -
  obtain as bs where ws: "ws = as @ Idle # bs" "i = length as"
    using thread_update [OF assms(2,3)] by blast
  have same: "pool_inv (ws', upd f e)" if "mset (held ws') = mset (held ws)" for ws' f
    using that assms(1) calm_wf [OF upd_calm]
    by (intro pool_inv_advances [OF assms(1)]) (auto simp: upd_def pool_inv_def engine_wf_def)
  have id: "pool_inv (ws', e)" if "mset (held ws') = mset (held ws)" for ws'
    using that assms(1) by (intro pool_inv_advances [OF assms(1)]) (auto simp: pool_inv_def)
  show ?thesis
  proof (cases "q_stop (mode_state e) \<or> (\<forall>ref its. q_items (mode_state e) \<noteq> WorkItem ref # its)")
    case True
    then show ?thesis using same id assms(1)
      by (auto simp: worker_take_def ws split: list.splits work_item.splits)
  next
    case False
    then obtain ref its where q: "q_items (mode_state e) = WorkItem ref # its" and go: "\<not> q_stop (mode_state e)" by blast
    let ?e1 = "upd (\<lambda>q. q\<lparr>q_items := its\<rparr>) e"
    have i1: "pool_inv (ws, ?e1)" by (rule same) simp
    obtain ok e2 where b: "begin_drive ref ''worker'' ?e1 = (ok, e2)" by fastforce
    show ?thesis
    proof (cases "is_terminal (heap ?e1 ref) \<or> \<not> ok")
      case True
      then show ?thesis using i1 q go b begin_drive_refused [of ref "''worker''" ?e1 e2]
        by (cases "is_terminal (heap ?e1 ref)") (auto simp: worker_take_def)
    next
      case False
      with b have "begin_drive ref ''worker'' ?e1 = (True, e2)" by simp
      note g = begin_drive_granted [OF this]
      have "ref < next_ref ?e1" using assms(4) [OF q] by (simp add: upd_def)
      with i1 g have "pool_inv (as @ Driving ref # bs, e2)"
        by (auto simp: pool_inv_def ws engine_wf_def dict_wf_def dict_has_iff)
      then show ?thesis using False q go b by (simp add: worker_take_def ws)
    qed
  qed
qed

lemma finish_inv:
  assumes "pool_inv (ws, e)" and "i < length ws" and "ws ! i = Finishing ref r"
  shows "pool_inv (worker_finish i ref r (ws, e))"
proof -
  obtain as bs where ws: "ws = as @ Finishing ref r # bs" "i = length as"
    using thread_update [OF assms(2,3)] by blast
  have h: "held_by (case r of Inl _ \<Rightarrow> Exited | Inr _ \<Rightarrow> Idle) = []" by (cases r) simp_all
  have "fst ` set (dict_pop k (driving e)) = fst ` set (driving e) - {k}" for k
    by (auto simp: AList.delete_eq image_iff)
  moreover have "engine_wf (end_drive ref e)" using assms(1)
    by (auto simp: pool_inv_def engine_wf_def end_drive_def)
  ultimately show ?thesis using assms(1)
    by (auto simp: worker_finish_def pool_inv_def ws h end_drive_def) (metis imageI)+
qed

text \<open>A step of a drive keeps the claim and changes the engine as the callbacks may.\<close>

lemma drive_tick_calm:
  assumes "drive_tick as_exc ref tk k logical e = (w, e1)"
  shows "calm e e1 \<and> held_by w = [ref]"
proof (cases k)
  case 0
  then show ?thesis using assms by auto
next
  case (Suc m)
  obtain r ob st where t: "tk (objects (mode_state e)) (jstate (heap e ref)) = (r, ob, st)"
    by (cases "tk (objects (mode_state e)) (jstate (heap e ref))") auto
  let ?e1 = "set_job ref ((heap e ref)\<lparr>jstate := st\<rparr>) (e\<lparr>mode_state := (mode_state e)\<lparr>objects := ob\<rparr>\<rparr>)"
  have "calm e ?e1" by (rule set_state_calm)
  moreover have "e1 = ?e1" using assms Suc t by simp
  moreover have "held_by w = [ref]" using assms Suc t by (auto split: sum.splits pattern_status.splits)
  ultimately show ?thesis by simp
qed

locale pool = calm_hooks hs
  for hs :: "'o queued_state job_hook list"

context pool begin

lemma drive_step_calm:
  assumes "working w" and "drive_step hs as_exc ptick budget w e = (w1, e1)"
  shows "calm e e1 \<and> held_by w1 = held_by w"
proof (cases w)
  case (Driving ref)
  then show ?thesis using assms before_calm [of e ref]
    by (auto simp: drive_before_def split: prod.splits sum.splits if_splits)
next
  case (Admitted ref)
  then show ?thesis using assms
    by (auto simp: drive_enter_def Let_def split: option.splits if_splits)
next
  case (Ticking ref tk k logical)
  then show ?thesis using assms drive_tick_calm [of as_exc ref tk k logical e w1 e1] by simp
next
  case (Applying ref res full)
  then show ?thesis using assms apply_result_calm [of e ref res]
    by (auto simp: drive_apply_def split: prod.splits sum.splits if_splits)
next
  case (Notifying ref res)
  then show ?thesis using assms after_calm [of e ref res]
    by (auto simp: drive_after_def split: prod.splits sum.splits)
qed (use assms in simp_all)

end

sublocale pool \<subseteq> calm_mode hs "queued_scheduler hs"
  by unfold_locales
    (auto simp: queued_scheduler_def base_mode_def queued_submit_job_def queued_resume_job_def no_effect_def
       cancel_calm upd_calm calm_trans [OF upd_calm upd_calm])

context pool begin

lemma drive_inv:
  assumes "pool_inv (ws, e)" and "i < length ws" and "working (ws ! i)"
  shows "pool_inv (worker_drive hs as_exc ptick budget i (ws, e))"
proof -
  obtain as bs where ws: "ws = as @ ws ! i # bs" "i = length as"
    using thread_update [OF assms(2) refl] by blast
  obtain w e1 where d: "drive_step hs as_exc ptick budget (ws ! i) e = (w, e1)" by fastforce
  note c = drive_step_calm [OF assms(3) d]
  have "ws[i := w] = as @ w # bs" using ws by (metis list_update_length)
  moreover have "held ws = held as @ held_by (ws ! i) @ held bs" using arg_cong [OF ws(1), of held] by simp
  then have "mset (held (as @ w # bs)) = mset (held ws)" using c by simp
  then have "pool_inv (as @ w # bs, e1)"
    using assms(1) c by (intro pool_inv_advances [OF assms(1)]) (auto simp: calm_def pool_inv_def)
  ultimately show ?thesis using d by (simp add: worker_drive_def)
qed

lemma operation_inv:
  assumes "pool_inv (ws, e)" and "op \<noteq> ShutdownOp \<or> held ws = []"
  shows "pool_inv (ws, engine_op_step hs (queued_scheduler hs) capable op e)"
proof -
  have wf: "engine_wf e" using assms(1) by (simp add: pool_inv_def)
  show ?thesis
  proof (cases "op = ShutdownOp")
    case True
    then have "held ws = []" using assms(2) by simp
    moreover from this have "driving e = []" using assms(1) by (simp add: pool_inv_def)
    ultimately show ?thesis using step_evolves [OF wf, of capable op] by (simp add: pool_inv_def evolves_def)
  next
    case False
    from step_advances [OF wf this, of capable] show ?thesis
      by (intro pool_inv_advances [OF assms(1)]) (auto simp: advances_def evolves_def)
  qed
qed

lemma step_inv: "pool_step False hs as_exc ptick budget capable p p' \<Longrightarrow> pool_inv p \<Longrightarrow> pool_inv p'"
proof (induction rule: pool_step.induct)
  case (spawn ws e)
  then show ?case by (simp add: pool_inv_def)
qed (simp_all add: take_inv drive_inv finish_inv operation_inv)

lemma steps_inv: "pool_steps False hs as_exc ptick budget capable p p' \<Longrightarrow> pool_inv p \<Longrightarrow> pool_inv p'"
  by (induction rule: rtranclp_induct) (auto intro: step_inv)

end

interpretation queued: pool "[auth_middleware a required enforce]" for a required enforce
  by unfold_locales (auto simp: auth_middleware_calm)

subsection \<open>The steps of a drive make up the drive\<close>

text \<open>The steps of a drive that nothing interrupts, with a bound on their number.\<close>

fun drive_alone :: "'o queued_state job_hook list \<Rightarrow> (pyval \<Rightarrow> exc option) \<Rightarrow> 'o ptick \<Rightarrow> int option
    \<Rightarrow> nat \<Rightarrow> 'o worker \<times> 'o queued_state engine \<Rightarrow> 'o worker \<times> 'o queued_state engine" where
  "drive_alone hs as_exc ptick budget 0 p = p"
| "drive_alone hs as_exc ptick budget (Suc n) p =
     drive_alone hs as_exc ptick budget n (drive_step hs as_exc ptick budget (fst p) (snd p))"

lemma alone_finished: "drive_alone hs as_exc ptick budget n (Finishing ref r, e) = (Finishing ref r, e)"
  by (induction n) simp_all

lemma alone_apply:
  "drive_alone hs as_exc ptick budget (Suc (Suc n)) (Applying ref res True, e) =
    (case apply_result hs ref res e of
       (Inl x, e1) \<Rightarrow> (Finishing ref (Inl x), e1)
     | (Inr _, e1) \<Rightarrow> (case notify_after_drive hs ref res e1 of
          (Inl x, e2) \<Rightarrow> (Finishing ref (Inl x), e2) | (Inr _, e2) \<Rightarrow> (Finishing ref (Inr True), e2)))"
  by (auto simp: drive_apply_def drive_after_def alone_finished split: prod.split sum.split)

lemma alone_ticks:
  "\<exists>m \<le> Suc k. \<forall>n. drive_alone hs as_exc ptick budget (m + n) (Ticking ref tk k logical, e) =
    drive_alone hs as_exc ptick budget n
      (case bt_run_loop as_exc tk k logical ref e of (Inl x, e1) \<Rightarrow> (Finishing ref (Inl x), e1)
       | (Inr res, e1) \<Rightarrow> (Applying ref res True, e1))"
proof (induction k arbitrary: logical e)
  case 0
  then show ?case by (intro exI [of _ 1]) simp
next
  case (Suc k)
  obtain r ob st where t: "tk (objects (mode_state e)) (jstate (heap e ref)) = (r, ob, st)"
    by (cases "tk (objects (mode_state e)) (jstate (heap e ref))") auto
  let ?e1 = "set_job ref ((heap e ref)\<lparr>jstate := st\<rparr>) (e\<lparr>mode_state := (mode_state e)\<lparr>objects := ob\<rparr>\<rparr>)"
  show ?case
  proof (cases "r = Inr RUNNING_STATUS")
    case True
    from Suc.IH [of RUNNING ?e1] obtain m where "m \<le> Suc k"
      "\<forall>n. drive_alone hs as_exc ptick budget (m + n) (Ticking ref tk k RUNNING, ?e1) = drive_alone hs as_exc ptick budget n
        (case bt_run_loop as_exc tk k RUNNING ref ?e1 of (Inl x, e1) \<Rightarrow> (Finishing ref (Inl x), e1)
         | (Inr res, e1) \<Rightarrow> (Applying ref res True, e1))" by blast
    then show ?thesis using t True by (intro exI [of _ "Suc m"]) (simp add: Let_def)
  next
    case False
    then show ?thesis using t
      by (intro exI [of _ 1]) (cases r; auto simp: Let_def split: pattern_status.splits)
  qed
qed

text \<open>
  Nothing is lost by splitting the drive: when no other thread acts in between, the steps of a
  worker from its claim to its release have exactly the effect and the outcome of the drive as the
  inline scheduler runs it in one go.
\<close>

theorem uninterrupted_drive_is_drive_body:
  assumes "drive_body hs (bt_run as_exc ptick budget) ref e = (r, e')"
  shows "\<exists>n. drive_alone hs as_exc ptick budget n (Driving ref, e) = (Finishing ref r, e')"
proof -
  obtain x e1 where before: "notify_before_drive hs ref e = (x, e1)" by fastforce
  show ?thesis
  proof (cases x)
    case (Inl y)
    then have "drive_alone hs as_exc ptick budget 2 (Driving ref, e) = (Finishing ref r, e')"
      using assms before by (auto simp: numeral_2_eq_2 drive_body_def drive_before_def drive_apply_def split: if_splits prod.splits sum.splits)
    then show ?thesis ..
  next
    case (Inr u)
    have enter: "drive_alone hs as_exc ptick budget (Suc (Suc n)) (Driving ref, e)
        = drive_alone hs as_exc ptick budget n (drive_enter ptick budget ref e1, e1)" for n
      using before Inr by (simp add: drive_before_def)
    obtain z e2 where run: "bt_run as_exc ptick budget ref e1 = (z, e2)" by fastforce
    have "\<exists>m. \<forall>n. drive_alone hs as_exc ptick budget (m + n) (drive_enter ptick budget ref e1, e1) =
        drive_alone hs as_exc ptick budget n (case z of Inl x \<Rightarrow> (Finishing ref (Inl x), e2) | Inr res \<Rightarrow> (Applying ref res True, e2))"
    proof (cases "is_terminal (heap e1 ref) \<or> ptick (objects (mode_state e1)) (executable (heap e1 ref)) = None")
      case True
      then show ?thesis using run by (intro exI [of _ 0]) (auto simp: bt_run_def drive_enter_def Let_def)
    next
      case False
      then obtain tk where tk: "ptick (objects (mode_state e1)) (executable (heap e1 ref)) = Some tk" by blast
      let ?ticks = "case budget of Some b \<Rightarrow> b | None \<Rightarrow> 10000"
      let ?l = "if status (heap e1 ref) = PENDING then RUNNING else status (heap e1 ref)"
      obtain m where m: "\<forall>n. drive_alone hs as_exc ptick budget (m + n) (Ticking ref tk (nat ?ticks) ?l, e1) =
        drive_alone hs as_exc ptick budget n
          (case bt_run_loop as_exc tk (nat ?ticks) ?l ref e1 of (Inl x, e1) \<Rightarrow> (Finishing ref (Inl x), e1)
           | (Inr res, e1) \<Rightarrow> (Applying ref res True, e1))" using alone_ticks by blast
      show ?thesis
      proof (cases "?ticks < 1")
        case True
        then show ?thesis using run False tk by (intro exI [of _ 0]) (auto simp: bt_run_def drive_enter_def Let_def)
      next
        case ok: False
        then have en: "drive_enter ptick budget ref e1 = Ticking ref tk (nat ?ticks) ?l"
          and "bt_run as_exc ptick budget ref e1 = bt_run_loop as_exc tk (nat ?ticks) ?l ref e1"
          using False tk by (auto simp: bt_run_def drive_enter_def Let_def)
        then have "bt_run_loop as_exc tk (nat ?ticks) ?l ref e1 = (z, e2)" using run by metis
        note m [unfolded this prod.case]
        then show ?thesis unfolding en by blast
      qed
    qed
    then obtain m where m: "drive_alone hs as_exc ptick budget (m + 2) (drive_enter ptick budget ref e1, e1) =
        drive_alone hs as_exc ptick budget 2 (case z of Inl x \<Rightarrow> (Finishing ref (Inl x), e2) | Inr res \<Rightarrow> (Applying ref res True, e2))" by blast
    have "drive_alone hs as_exc ptick budget 2 (case z of Inl x \<Rightarrow> (Finishing ref (Inl x), e2) | Inr res \<Rightarrow> (Applying ref res True, e2))
        = (Finishing ref r, e')"
    proof (cases z)
      case (Inl y)
      then show ?thesis using assms before Inr run by (simp add: alone_finished drive_body_def)
    next
      case z: (Inr res)
      then show ?thesis using assms before Inr run alone_apply [of hs as_exc ptick budget 0 ref res e2]
        by (auto simp: numeral_2_eq_2 drive_body_def simp del: drive_alone.simps split: prod.splits sum.splits)
    qed
    with m enter [of "m + 2"] show ?thesis by metis
  qed
qed

lemma new_pool_inv: "pool_inv ([], new_engine (new_queued ob n) r)"
  by (simp add: pool_inv_def engine_wf_def new_engine_def)

text \<open>
  C3. The workers of the queued scheduler, with the authorization hook and the behavior tree runner,
  in every interleaving of their steps (taking an item, the hooks, every tick, applying the result,
  releasing the claim) with callers that submit, resume, deliver input, cancel, start and stop, and
  shut down, as long as each shutdown happens when no worker is in a drive, that is when its join
  succeeds: two workers never drive jobs of the same id, and the claims of the engine are exactly
  those of the jobs under drive. A shutdown whose join times out breaks this, see
  \<open>timed_out_shutdown_breaks_exclusion\<close>.
\<close>
theorem workers_never_share_a_job:
  assumes "pool_steps False [auth_middleware a required enforce] as_exc ptick budget capable
      ([], new_engine (new_queued ob n) rp) (ws, e)"
    and "i < length ws" and "j < length ws" and "i \<noteq> j" and "ref \<in> set (held_by (ws ! i))" and "ref' \<in> set (held_by (ws ! j))"
  shows "jid (heap e ref) \<noteq> jid (heap e ref') \<and> is_driving e (jid (heap e ref))
    \<and> driving_job_ids e = (\<lambda>ref. jid (heap e ref)) ` set (held ws)"
proof -
  have inv: "pool_inv (ws, e)" by (rule queued.steps_inv [OF assms(1) new_pool_inv])
  have apart: "jid (heap e r) \<noteq> jid (heap e r')"
    if "i < j" "j < length ws" "r \<in> set (held_by (ws ! i))" "r' \<in> set (held_by (ws ! j))" for i j r r'
  proof -
    have "i < length ws" using that by simp
    have ws: "ws = take i ws @ ws ! i # drop (Suc i) ws" using id_take_nth_drop [OF \<open>i < length ws\<close>] .
    have "ws ! j \<in> set (drop (Suc i) ws)" using that(1,2) by (auto simp: in_set_conv_nth intro!: exI [of _ "j - Suc i"])
    then have "r' \<in> set (held (drop (Suc i) ws))" using that(4) by (auto simp: held_def)
    moreover have "distinct (map (\<lambda>ref. jid (heap e ref)) (held (take i ws) @ held_by (ws ! i) @ held (drop (Suc i) ws)))"
      using inv ws held_simps(2,3) unfolding pool_inv_def by (metis (no_types, lifting) case_prodD)
    ultimately show ?thesis using that(3) by auto
  qed
  have "jid (heap e ref) \<noteq> jid (heap e ref')"
    using apart assms(2-6) by (cases "i < j") (metis linorder_neqE_nat)+
  moreover have "ref \<in> set (held ws)" using assms(2,5) by (auto simp: held_def)
  moreover have "set (dict_keys (driving e)) = (\<lambda>ref. jid (heap e ref)) ` set (held ws)"
    using inv by (simp add: pool_inv_def)
  ultimately show ?thesis by (auto simp: is_driving_def driving_job_ids_def dict_has_iff)
qed

end
