(* ===== verification/QueuedProps.thy ===== *)
theory QueuedProps
  imports Queued RuntimeProps
begin

text \<open>
  Traces of the queued scheduler as lists of actions, executable, and the behaviours they show:
  jobs driven side by side, a shutdown that breaks the exclusion, a resumption that is lost with two workers and cannot be lost with one,
  and pools that run no worker any more while they report that they are running.
\<close>

datatype pool_action = Spawn | Take nat | Drive nat | Finish nat | Op engine_op

text \<open>An action when it is possible; \<open>timeouts\<close> as in \<open>pool_step\<close>.\<close>

fun exec_action :: "bool \<Rightarrow> 'o queued_state job_hook list \<Rightarrow> (pyval \<Rightarrow> exc option) \<Rightarrow> 'o ptick \<Rightarrow> int option
    \<Rightarrow> (pyval \<Rightarrow> (pydict \<Rightarrow> pyval \<Rightarrow> string option result \<times> pydict) option) \<Rightarrow> pool_action \<Rightarrow> 'o pool \<Rightarrow> 'o pool option" where
  "exec_action timeouts hs as_exc ptick budget cap Spawn (ws, e) =
     (if length ws < q_spawned (mode_state e) then Some (ws @ [Idle], e) else None)"
| "exec_action timeouts hs as_exc ptick budget cap (Take i) (ws, e) =
     (if i < length ws \<and> (case ws ! i of Idle \<Rightarrow> True | _ \<Rightarrow> False)
        \<and> (case q_items (mode_state e) of WorkItem ref # _ \<Rightarrow> ref < next_ref e | _ \<Rightarrow> True)
      then Some (worker_take i (ws, e)) else None)"
| "exec_action timeouts hs as_exc ptick budget cap (Drive i) (ws, e) =
     (if i < length ws \<and> working (ws ! i) then Some (worker_drive hs as_exc ptick budget i (ws, e)) else None)"
| "exec_action timeouts hs as_exc ptick budget cap (Finish i) (ws, e) =
     (if i < length ws then (case ws ! i of Finishing ref r \<Rightarrow> Some (worker_finish i ref r (ws, e)) | _ \<Rightarrow> None) else None)"
| "exec_action timeouts hs as_exc ptick budget cap (Op op) (ws, e) =
     (if \<not> timeouts \<and> op = ShutdownOp \<and> list_ex (\<lambda>w. held_by w \<noteq> []) ws then None
      else Some (ws, engine_op_step hs (queued_scheduler hs) cap op e))"

fun exec_trace :: "bool \<Rightarrow> 'o queued_state job_hook list \<Rightarrow> (pyval \<Rightarrow> exc option) \<Rightarrow> 'o ptick \<Rightarrow> int option
    \<Rightarrow> (pyval \<Rightarrow> (pydict \<Rightarrow> pyval \<Rightarrow> string option result \<times> pydict) option) \<Rightarrow> pool_action list \<Rightarrow> 'o pool \<Rightarrow> 'o pool option" where
  "exec_trace timeouts hs as_exc ptick budget cap [] p = Some p"
| "exec_trace timeouts hs as_exc ptick budget cap (a # as) p = (case exec_action timeouts hs as_exc ptick budget cap a p of
     None \<Rightarrow> None | Some p' \<Rightarrow> exec_trace timeouts hs as_exc ptick budget cap as p')"

lemma none_held: "\<not> list_ex (\<lambda>w. held_by w \<noteq> []) ws \<Longrightarrow> held ws = []"
  by (auto simp: list_ex_iff held_def)

lemma exec_action_step: "exec_action timeouts hs as_exc ptick budget cap a p = Some p' \<Longrightarrow>
    pool_step timeouts hs as_exc ptick budget cap p p'"
proof (cases p)
  case (Pair ws e)
  assume x: "exec_action timeouts hs as_exc ptick budget cap a p = Some p'"
  show ?thesis
  proof (cases a)
    case (Op op)
    with x Pair have "p' = (ws, engine_op_step hs (queued_scheduler hs) cap op e)" "timeouts \<or> op \<noteq> ShutdownOp \<or> held ws = []"
      using none_held [of ws] by (auto split: if_splits)
    then show ?thesis unfolding Pair by (simp only:) (rule pool_step.operation)
  next
    case (Take i)
    with x Pair have "i < length ws" "ws ! i = Idle" "p' = worker_take i (ws, e)"
        "case q_items (mode_state e) of WorkItem ref # _ \<Rightarrow> ref < next_ref e | _ \<Rightarrow> True"
      by (simp_all split: if_splits worker.splits)
    then show ?thesis unfolding Pair by (simp only:) (rule pool_step.take; simp)
  next
    case (Drive i)
    with x Pair have "i < length ws" "working (ws ! i)" "p' = worker_drive hs as_exc ptick budget i (ws, e)"
      by (auto split: if_splits)
    then show ?thesis unfolding Pair by (simp only:) (rule pool_step.drive)
  next
    case (Finish i)
    with x Pair obtain ref r where "i < length ws" "ws ! i = Finishing ref r" "p' = worker_finish i ref r (ws, e)"
      by (auto split: if_splits worker.splits)
    then show ?thesis unfolding Pair by (simp only:) (rule pool_step.finish)
  next
    case Spawn
    with x Pair have "length ws < q_spawned (mode_state e)" "p' = (ws @ [Idle], e)"
      by (simp_all split: if_splits)
    then show ?thesis unfolding Pair by (simp only:) (rule pool_step.spawn)
  qed
qed

lemma exec_trace_steps: "exec_trace timeouts hs as_exc ptick budget cap as p = Some p' \<Longrightarrow>
    pool_steps timeouts hs as_exc ptick budget cap p p'"
  by (induction as arbitrary: p)
    (auto split: option.splits dest: exec_action_step intro: converse_rtranclp_into_rtranclp)

definition ask_tree :: node where
  "ask_tree = Node ''ask'' False (InteractiveLeaf (\<lambda>s. (Inr (Status WAITING), s)) (\<lambda>v s. (Inr (Status SUCCESS), js_set ''__result__'' v s))) []"

abbreviation demo_trace :: "bool \<Rightarrow> pool_action list \<Rightarrow> (nat \<Rightarrow> node option) pool \<Rightarrow> (nat \<Rightarrow> node option) pool option" where
  "demo_trace timeouts \<equiv> exec_trace timeouts [auth_middleware None [] False] (\<lambda>_. None) (tree_ptick (\<lambda>_. 2)) (Some 10) (\<lambda>_. None)"

abbreviation demo_steps :: "bool \<Rightarrow> (nat \<Rightarrow> node option) pool \<Rightarrow> (nat \<Rightarrow> node option) pool \<Rightarrow> bool" where
  "demo_steps timeouts \<equiv> pool_steps timeouts [auth_middleware None [] False] (\<lambda>_. None) (tree_ptick (\<lambda>_. 2)) (Some 10) (\<lambda>_. None)"

abbreviation pool_start :: "int \<Rightarrow> (nat \<Rightarrow> node option) pool" where
  "pool_start n \<equiv> ([], new_engine (new_queued [0 \<mapsto> ask_tree, 1 \<mapsto> ask_tree] n) (\<lambda>_. []))"

lemmas pool_eval = exec_trace.simps exec_action.simps worker_take_def worker_drive_def worker_finish_def
  drive_before_def drive_enter_def drive_apply_def drive_after_def
  engine_op_step_def submit_def cancel_job_def provide_input_def resume_job_def get_job_def engine_start_def
  is_running_def queued_scheduler_def base_mode_def queued_start_def queued_submit_job_def queued_resume_job_def
  queued_is_running_def upd_def enqueue_def new_engine_def new_queued_def or_generated_def or_empty_def new_job_def
  bind_job_context_def emit_def begin_drive_def end_drive_def drive_body_def apply_result_def transition_to_def
  is_valid_transition_def is_terminal_def publish_job_status_def set_job_def bt_run_def tree_ptick_def ask_tree_def
  run_setup_def tick_impl_def tick_outcome_def interactive_impl_def input_key_def job_state_defs dict_has_def
  plain_result_def Let_def eval_nat_numeral

lemmas hook_eval = notify_before_drive_def notify_after_drive_def notify_job_status_changed_def notify_job_submitted_def auth_middleware_def job_hook_adapter_def stamp_principal_def

lemma trace_result: "case x of Some (ws, e) \<Rightarrow> P ws e | None \<Rightarrow> False \<Longrightarrow> \<exists>ws e. x = Some (ws, e) \<and> P ws e"
  by (auto split: option.splits)

lemma workers_never_share_a_job_witness:
  "\<exists>e. demo_steps False (pool_start 2) ([Driving 0, Driving 1], e) \<and> jid (heap e 0) \<noteq> jid (heap e 1)"
proof -
  have "case demo_trace False [Op StartOp, Spawn, Spawn, Op (SubmitOp (VObj 0) (Some ''a'') [] None None),
      Op (SubmitOp (VObj 1) (Some ''b'') [] None None), Take 0, Take 1] (pool_start 2) of
    Some (ws, e) \<Rightarrow> ws = [Driving 0, Driving 1] | None \<Rightarrow> False"
    by (simp add: pool_eval hook_eval)
  from trace_result [OF this] obtain e where "demo_steps False (pool_start 2) ([Driving 0, Driving 1], e)"
    by (blast dest: exec_trace_steps)
  from this workers_never_share_a_job [OF this, of 0 1 0 1] show ?thesis by auto
qed

subsection \<open>A shutdown that gives up waiting\<close>

text \<open>
  A shutdown whose join times out breaks the exclusion: worker 0 holds the claim on job \<open>a\<close> when
  the shutdown clears the jobs and the claims; after a restart a new job \<open>a\<close> is submitted and driven
  by worker 3; worker 0, which the cleared stop flag keeps alive, ends its old drive and gives back the
  claim of the new one, takes the resumption of the new job from the queue, and is granted the claim
  while worker 3 is still in its drive. Two workers hold the same job object.
\<close>
theorem timed_out_shutdown_breaks_exclusion:
  "\<exists>ws e. demo_steps True (pool_start 2) (ws, e) \<and> ws ! 0 = Driving 1 \<and> held_by (ws ! 3) = [1]"
proof -
  have "case demo_trace True [Op StartOp, Spawn, Spawn, Op (SubmitOp (VObj 0) (Some ''a'') [] None None), Take 0, Op ShutdownOp,
      Op StartOp, Op (SubmitOp (VObj 1) (Some ''a'') [] None None), Spawn, Take 1, Take 2, Spawn, Take 3,
      Drive 0, Drive 0, Drive 0, Drive 0, Drive 0, Finish 0, Drive 3, Drive 3, Drive 3, Drive 3,
      Op (InputOp ''a'' (input_key ''ask'') (VInt 7)), Take 0] (pool_start 2) of
    Some (ws, e) \<Rightarrow> ws ! 0 = Driving 1 \<and> held_by (ws ! 3) = [1] | None \<Rightarrow> False"
    by (simp add: pool_eval hook_eval stop_def engine_shutdown_def queued_shutdown_def no_effect_def)
  from trace_result [OF this] show ?thesis by (blast dest: exec_trace_steps)
qed

subsection \<open>A resumption can be lost\<close>

text \<open>
  With two workers an input can be lost: it arrives while the first worker, which has just
  parked the job, still holds the claim; the second worker takes the queued resumption, is refused
  the claim and drops the item. The pool comes to rest with the job waiting, its input delivered into
  its state, the queue empty, all workers idle and no claim.
\<close>
theorem lost_resumption:
  "\<exists>ws e. demo_steps False (pool_start 2) (ws, e)
    \<and> ws = [Idle, Idle] \<and> q_items (mode_state e) = [] \<and> driving e = [] \<and> queued_is_running (mode_state e)
    \<and> status (heap e 0) = WAITING_FOR_INPUT \<and> js_get (jstate (heap e 0)) (input_key ''ask'') VNone = VInt 7"
proof -
  have "case demo_trace False [Op StartOp, Spawn, Spawn, Op (SubmitOp (VObj 0) (Some ''a'') [] None None),
      Take 0, Drive 0, Drive 0, Drive 0, Drive 0, Drive 0, Op (InputOp ''a'' (input_key ''ask'') (VInt 7)), Take 1, Finish 0] (pool_start 2) of
    Some (ws, e) \<Rightarrow> ws = [Idle, Idle] \<and> q_items (mode_state e) = [] \<and> driving e = [] \<and> queued_is_running (mode_state e)
      \<and> status (heap e 0) = WAITING_FOR_INPUT \<and> js_get (jstate (heap e 0)) (input_key ''ask'') VNone = VInt 7 | None \<Rightarrow> False"
    by (simp add: pool_eval hook_eval)
  from trace_result [OF this] show ?thesis by (blast dest: exec_trace_steps)
qed

lemma single_idle_no_claims:
  assumes "pool_inv (ws, e)" and "length ws \<le> 1" and "i < length ws" and "ws ! i = Idle"
  shows "driving e = []"
proof -
  from assms(2-4) have "ws = [Idle]" by (cases ws) auto
  with assms(1) show ?thesis by (simp add: pool_inv_def)
qed

text \<open>
  With a single worker no queued item of a live, registered job is dropped: the worker that
  takes it gets the claim, so the job is driven with what its state holds at that moment.
\<close>
theorem single_worker_serves_every_item:
  assumes "pool_steps False [auth_middleware a required enforce] as_exc ptick budget capable
      ([], new_engine (new_queued ob n) rp) (ws, e)"
    and "length ws = 1" and "ws ! 0 = Idle" and "\<not> q_stop (mode_state e)" and "q_items (mode_state e) = WorkItem ref # its"
    and "\<not> is_terminal (heap e ref)" and "dict_get (jobs e) (jid (heap e ref)) = Some ref"
  shows "fst (worker_take 0 (ws, e)) = [Driving ref] \<and> is_driving (snd (worker_take 0 (ws, e))) (jid (heap e ref))"
proof -
  have "pool_inv (ws, e)" by (rule queued.steps_inv [OF assms(1) new_pool_inv])
  then have "driving e = []" using single_idle_no_claims [of ws e 0] assms(2,3) by simp
  with assms(2-7) show ?thesis
    by (cases ws) (auto simp: worker_take_def upd_def begin_drive_def Let_def is_driving_def)
qed

lemma single_worker_serves_every_item_witness:
  "\<exists>e. demo_steps False (pool_start 1) ([Idle], e)
    \<and> fst (worker_take 0 ([Idle], e)) = [Driving 0]"
proof -
  have "case demo_trace False [Op StartOp, Spawn, Op (SubmitOp (VObj 0) (Some ''a'') [] None None)]
      (pool_start 1) of Some (ws, e) \<Rightarrow> ws = [Idle] \<and> q_items (mode_state e) = [WorkItem 0] \<and> \<not> q_stop (mode_state e)
        \<and> \<not> is_terminal (heap e 0) \<and> dict_get (jobs e) (jid (heap e 0)) = Some 0 | None \<Rightarrow> False"
    by (simp add: pool_eval hook_eval)
  note r = trace_result [OF this]
  obtain e where t: "demo_trace False [Op StartOp, Spawn, Op (SubmitOp (VObj 0) (Some ''a'') [] None None)]
      (pool_start 1) = Some ([Idle], e)" and e: "q_items (mode_state e) = [WorkItem 0]" "\<not> q_stop (mode_state e)"
      "\<not> is_terminal (heap e 0)" "dict_get (jobs e) (jid (heap e 0)) = Some 0"
    using r by blast
  from single_worker_serves_every_item [OF exec_trace_steps [OF t], of 0 "[]"] e exec_trace_steps [OF t] show ?thesis by auto
qed

subsection \<open>Pools without workers\<close>

lemma mode_emit [simp]: "mode_state (emit t p r e) = mode_state e"
  by (simp add: emit_def)

lemma mode_publish [simp]: "mode_state (publish_job_status ref e) = mode_state e"
  by (simp add: publish_job_status_def emit_flow_session_terminal_def Let_def)

lemma mode_set_job [simp]: "mode_state (set_job ref j e) = mode_state e"
  by (simp add: set_job_def)

lemma mode_apply [simp]: "mode_state (snd (apply_result [auth_middleware a required enforce] ref res e)) = mode_state e"
  by (auto simp: apply_result_def Let_def split: sum.splits option.splits)

lemma mode_bind [simp]: "mode_state (bind_job_context ref e) = mode_state e"
  by (auto simp: bind_job_context_def Let_def split: option.splits)

text \<open>The pool is dead when every thread has left its loop and the scheduler takes itself for running.\<close>

definition dead_pool :: "'o pool \<Rightarrow> bool" where
  "dead_pool p \<longleftrightarrow> set (fst p) \<subseteq> {Exited} \<and> q_spawned (mode_state (snd p)) = length (fst p)
     \<and> q_on (mode_state (snd p)) \<and> \<not> q_stop (mode_state (snd p))"

definition control :: "'o queued_state \<Rightarrow> nat \<times> bool \<times> bool" where
  "control q = (q_spawned q, q_on q, q_stop q)"

lemma mode_resume: "mode_state (snd (resume_job (queued_scheduler hs) i e)) = mode_state e
    \<or> (\<exists>ref. mode_state (snd (resume_job (queued_scheduler hs) i e)) = enqueue ref (mode_state e))"
  by (auto simp: resume_job_def queued_scheduler_def queued_resume_job_def upd_def split: sum.splits)

lemma control_enqueue [simp]: "control (enqueue ref q) = control q"
  by (simp add: control_def enqueue_def)

lemma control_resume [simp]: "control (mode_state (snd (resume_job (queued_scheduler hs) i e))) = control (mode_state e)"
  using mode_resume [of hs i e] by auto

lemma control_running: "q_on (mode_state e) \<Longrightarrow> control (mode_state (engine_start (queued_scheduler hs) e)) = control (mode_state e)"
  by (simp add: engine_start_def queued_scheduler_def base_mode_def queued_start_def)

lemma submitted_mode: "mode_state (snd (notify_job_submitted [auth_middleware a required enforce] ref e)) = mode_state e"
  by (simp add: notify_job_submitted_def auth_middleware_def)

lemma control_submit:
  assumes "q_on (mode_state e)"
  shows "control (mode_state (snd (submit [auth_middleware a required enforce]
     (queued_scheduler [auth_middleware a required enforce]) ex i gen st md e))) = control (mode_state e)"
proof -
  let ?hs = "[auth_middleware a required enforce] :: 'a queued_state job_hook list"
  let ?m = "queued_scheduler ?hs"
  define e1 where "e1 = (if \<not> is_running ?m e then engine_start ?m e else e)"
  have c: "control (mode_state e1) = control (mode_state e)" using control_running [OF assms] by (simp add: e1_def)
  then have on: "q_on (mode_state e1)" using assms by (simp add: control_def)
  have m: "m_submit_job ?m ref e2 = (Inr (), upd (enqueue ref) e2)" if "q_on (mode_state e2)" for ref e2
    using that by (simp add: queued_scheduler_def queued_submit_job_def)
  have f: "mode_state (snd (case notify_job_submitted ?hs ref e4 of (Inl x, e5) \<Rightarrow> (Inl x, e5) | (Inr _, e5) \<Rightarrow> (Inr ref, e5))) = mode_state e4"
    for ref e4 using submitted_mode [of a required enforce ref e4] by (auto split: prod.splits sum.splits)
  show ?thesis
    by (cases "new_job (or_generated i gen) ex (or_empty st) (or_empty md) (clock e1)")
      (use c on in \<open>simp_all add: submit_def e1_def [symmetric] Let_def m f upd_def\<close>)
qed

lemma mode_cancel: "mode_state (snd (cancel_job (queued_scheduler [auth_middleware a required enforce]) i e)) = mode_state e"
proof (cases "get_job e i")
  case (Inr ref)
  have "mode_state (snd (m_cancel_job (queued_scheduler [auth_middleware a required enforce]) ref e)) = mode_state e"
    by (simp add: queued_scheduler_def base_mode_def mode_cancel_job_def)
  then show ?thesis using Inr
    by (cases "m_cancel_job (queued_scheduler [auth_middleware a required enforce]) ref e")
      (auto simp: cancel_job_def split: sum.splits)
qed (simp add: cancel_job_def)

lemma operation_control:
  assumes "q_on (mode_state e)" and "op \<noteq> StopOp" and "op \<noteq> ShutdownOp"
  shows "control (mode_state (engine_op_step [auth_middleware a required enforce]
     (queued_scheduler [auth_middleware a required enforce]) capable op e)) = control (mode_state e)"
proof (cases op)
  case (DeliverOp i v)
  have same: "snd (case q of (Inl x, e3) \<Rightarrow> (Inl x, e3) | (Inr _, e3) \<Rightarrow> (Inr slug, e3)) = snd q"
    for q :: "unit result \<times> 'a queued_state engine" and slug :: "string option"
    by (auto split: prod.splits sum.splits)
  have r: "control (mode_state (snd (case resume_job (queued_scheduler hs) i e2 of (Inl x, e3) \<Rightarrow> (Inl x, e3) | (Inr _, e3) \<Rightarrow> (Inr slug, e3))))
      = control (mode_state e2)" for hs and e2 :: "'a queued_state engine" and slug :: "string option"
    unfolding same by (rule control_resume)
  show ?thesis
    by (auto simp: DeliverOp engine_op_step_def deliver_input_def Let_def r split: sum.splits option.splits prod.splits)
qed (use assms in \<open>auto simp: engine_op_step_def control_submit control_running mode_cancel provide_input_def Let_def
       split: sum.splits\<close>)

text \<open>
  A dead pool stays dead: whatever is submitted, resumed, delivered or cancelled afterwards,
  short of stopping the scheduler, no worker runs again, so no job is ever driven, while the
  scheduler and the engine report that they are running. Such a pool is reached by stopping and
  starting a scheduler with an idle worker: the worker leaves on the stop flag, the sentinel that
  was put for it stays in the queue, and the worker of the second start takes it.
\<close>
theorem dead_pool_stays_dead:
  assumes "dead_pool p" and "exec_trace timeouts [auth_middleware a required enforce] as_exc ptick budget capable as p = Some p'"
    and "Op StopOp \<notin> set as" and "Op ShutdownOp \<notin> set as"
  shows "dead_pool p' \<and> workers_alive p' = 0 \<and> queued_is_running (mode_state (snd p'))"
  using assms
proof (induction as arbitrary: p)
  case Nil
  have "filter (\<lambda>w. w \<noteq> Exited) (fst p) = []" using Nil.prems(1) by (auto simp: dead_pool_def filter_empty_conv)
  with Nil show ?case by (simp add: dead_pool_def workers_alive_def queued_is_running_def)
next
  case (Cons x as)
  obtain ws e where p: "p = (ws, e)" by fastforce
  from Cons.prems(2) obtain q where q: "exec_action timeouts [auth_middleware a required enforce] as_exc ptick budget capable x p = Some q"
      and rest: "exec_trace timeouts [auth_middleware a required enforce] as_exc ptick budget capable as q = Some p'" by (auto split: option.splits)
  have idle: "ws ! i = Exited" if "i < length ws" for i
  proof -
    have "set ws \<subseteq> {Exited}" using Cons.prems(1) by (simp add: dead_pool_def p)
    with nth_mem [OF that] show ?thesis by blast
  qed
  have "dead_pool q"
  proof (cases x)
    case (Op op)
    then have "control (mode_state (engine_op_step [auth_middleware a required enforce]
        (queued_scheduler [auth_middleware a required enforce]) capable op e)) = control (mode_state e)"
      using Cons.prems by (intro operation_control) (auto simp: dead_pool_def p)
    then show ?thesis using Cons.prems(1) q by (auto simp: dead_pool_def p Op control_def split: if_splits)
  qed (use Cons.prems(1) q idle in \<open>auto simp: p dead_pool_def split: if_splits\<close>)
  then show ?case using Cons.IH [OF _ rest] Cons.prems(3,4) by simp
qed

lemma dead_pool_stays_dead_witness:
  "\<exists>p p'. demo_steps False (pool_start 1) p \<and> dead_pool p
    \<and> demo_trace False [Op (SubmitOp (VObj 0) (Some ''a'') [] None None), Op (ResumeOp ''a'')] p = Some p'
    \<and> dead_pool p'"
proof -
  have "case demo_trace False [Op StartOp, Spawn, Op StopOp, Take 0, Op StartOp, Spawn, Take 1] (pool_start 1) of
    Some p \<Rightarrow> dead_pool p | None \<Rightarrow> False"
    by (simp add: pool_eval stop_def queued_shutdown_def no_effect_def dead_pool_def)
  then obtain p where t: "demo_trace False
      [Op StartOp, Spawn, Op StopOp, Take 0, Op StartOp, Spawn, Take 1] (pool_start 1) = Some p" and d: "dead_pool p"
    by (cases "demo_trace False
      [Op StartOp, Spawn, Op StopOp, Take 0, Op StartOp, Spawn, Take 1] (pool_start 1)") (simp_all only: option.case)
  obtain p' where p': "demo_trace False
      [Op (SubmitOp (VObj 0) (Some ''a'') [] None None), Op (ResumeOp ''a'')] p = Some p'"
    by (cases p) simp
  have "dead_pool p'" using dead_pool_stays_dead [OF d p'] by simp
  with exec_trace_steps [OF t] d p' show ?thesis by blast
qed

end
