(* ===== verification/Workload.thy ===== *)
theory Workload
  imports PyValue Registry
begin

text \<open>
  The records of the workload plane (\<open>palm/core/workload\<close>): the status machine, the portable spec
  with its placement, the owner, the handle, the result and the live record, with their conversions
  to and from dictionaries. The arguments \<open>r\<close> and \<open>num\<close> are Python's text of a float, container or
  object, and the parsing of text as a number.
\<close>

datatype workload_status = W_PENDING | W_STARTING | W_RUNNING | W_READY | W_STOPPING | W_STOPPED | W_FAILED

fun wl_status_value :: "workload_status \<Rightarrow> string" where
  "wl_status_value W_PENDING = ''PENDING''"
| "wl_status_value W_STARTING = ''STARTING''"
| "wl_status_value W_RUNNING = ''RUNNING''"
| "wl_status_value W_READY = ''READY''"
| "wl_status_value W_STOPPING = ''STOPPING''"
| "wl_status_value W_STOPPED = ''STOPPED''"
| "wl_status_value W_FAILED = ''FAILED''"

fun wl_allowed :: "workload_status \<Rightarrow> workload_status list" where
  "wl_allowed W_PENDING = [W_STARTING, W_FAILED]"
| "wl_allowed W_STARTING = [W_RUNNING, W_READY, W_STOPPED, W_FAILED, W_STOPPING]"
| "wl_allowed W_RUNNING = [W_READY, W_STOPPING, W_STOPPED, W_FAILED]"
| "wl_allowed W_READY = [W_RUNNING, W_STOPPING, W_STOPPED, W_FAILED]"
| "wl_allowed W_STOPPING = [W_STOPPED, W_FAILED]"
| "wl_allowed W_STOPPED = []"
| "wl_allowed W_FAILED = []"

definition can_transition :: "workload_status \<Rightarrow> workload_status \<Rightarrow> bool" where
  "can_transition current next = (if current = next then True else next \<in> set (wl_allowed current))"

definition wl_terminal :: "workload_status \<Rightarrow> bool" where
  "wl_terminal s = (s \<in> {W_STOPPED, W_FAILED})"

definition is_exec_allowed :: "workload_status \<Rightarrow> bool" where
  "is_exec_allowed s = (s = W_READY)"

subsection \<open>Specs\<close>

datatype workload_kind = K_RUN | K_SERVICE | K_WORKSPACE
datatype isolation_policy = I_HOST | I_HERMETIC | I_BEST_EFFORT
datatype lifecycle_policy = L_JOB | L_SESSION | L_LEASE

fun kind_value :: "workload_kind \<Rightarrow> string" where
  "kind_value K_RUN = ''run''" | "kind_value K_SERVICE = ''service''" | "kind_value K_WORKSPACE = ''workspace''"

fun isolation_value :: "isolation_policy \<Rightarrow> string" where
  "isolation_value I_HOST = ''host''" | "isolation_value I_HERMETIC = ''hermetic''"
| "isolation_value I_BEST_EFFORT = ''best_effort''"

fun lifecycle_value :: "lifecycle_policy \<Rightarrow> string" where
  "lifecycle_value L_JOB = ''job''" | "lifecycle_value L_SESSION = ''session''" | "lifecycle_value L_LEASE = ''lease''"

text \<open>\<open>WorkloadKind(text)\<close>: the member with that value, or a ValueError.\<close>

definition enum_of :: "('e \<Rightarrow> string) \<Rightarrow> 'e list \<Rightarrow> string \<Rightarrow> string \<Rightarrow> 'e result" where
  "enum_of val members cls s = (case find (\<lambda>m. val m = s) members of
     Some m \<Rightarrow> Inr m
   | None \<Rightarrow> Inl (Exc PyValueError (quoted s @ '' is not a valid '' @ cls)))"

definition wl_opt_str :: "(pyval \<Rightarrow> string) \<Rightarrow> pyval \<Rightarrow> string option" where
  "wl_opt_str r v = (if v = VNone then None
     else let text = py_str r v in if text \<noteq> [] then Some text else None)"

record placement =
  pl_host_id :: "string option"
  pl_runtime :: "string option"
  pl_reject :: "string list"

definition put_str :: "string \<Rightarrow> string option \<Rightarrow> pydict \<Rightarrow> pydict" where
  "put_str k v d = (case v of None \<Rightarrow> d | Some s \<Rightarrow> dict_set k (VStr s) d)"

definition put_dict :: "string \<Rightarrow> pydict option \<Rightarrow> pydict \<Rightarrow> pydict" where
  "put_dict k v d = (case v of None \<Rightarrow> d | Some m \<Rightarrow> dict_set k (VDict m) d)"

definition put_if :: "bool \<Rightarrow> string \<Rightarrow> pyval \<Rightarrow> pydict \<Rightarrow> pydict" where
  "put_if b k v d = (if b then dict_set k v d else d)"

definition placement_to_dict :: "placement \<Rightarrow> pydict" where
  "placement_to_dict p =
     put_if (pl_reject p \<noteq> []) ''reject_runtimes'' (VList (map VStr (pl_reject p)))
       (put_str ''runtime'' (pl_runtime p) (put_str ''host_id'' (pl_host_id p) []))"

definition empty_placement :: placement where
  "empty_placement = \<lparr>pl_host_id = None, pl_runtime = None, pl_reject = []\<rparr>"

definition placement_from_dict :: "(pyval \<Rightarrow> string) \<Rightarrow> pyval \<Rightarrow> placement result" where
  "placement_from_dict r v =
     (if \<not> truthy v then Inr empty_placement
      else case v of
        VDict d \<Rightarrow> (case py_iter (py_or (py_get d ''reject_runtimes'') (VList [])) of
            Inl x \<Rightarrow> Inl x
          | Inr xs \<Rightarrow> Inr \<lparr>pl_host_id = wl_opt_str r (py_get d ''host_id''), pl_runtime = wl_opt_str r (py_get d ''runtime''),
                            pl_reject = map (py_str r) xs\<rparr>)
      | _ \<Rightarrow> Inl (Exc PyAttributeError (quoted (type_name v) @ '' object has no attribute get'')))"

record spec =
  sp_kind :: workload_kind
  sp_isolation :: isolation_policy
  sp_lifecycle :: lifecycle_policy
  sp_command :: "string list"
  sp_image :: "string option"
  sp_image_ref :: "string option"
  sp_workdir :: "string option"
  sp_seed :: "pydict option"
  sp_env :: "(string, string) dict"
  sp_secrets_ref :: "string option"
  sp_ports :: "pydict list"
  sp_health :: "pydict option"
  sp_timeout :: "rat option"
  sp_resources :: pydict
  sp_labels :: "(string, string) dict"
  sp_placement :: placement
  sp_mesh :: "pydict option"
  sp_version :: int

text \<open>\<open>__post_init__\<close>: the checks that every constructed spec has passed.\<close>

definition spec_check :: "spec \<Rightarrow> spec result" where
  "spec_check s =
     (if sp_version s \<noteq> 1
      then Inl (Exc WorkloadSpecError (''Unsupported spec_version '' @ show_int (sp_version s) @ ''; expected 1''))
      else if sp_kind s = K_RUN \<and> sp_command s = []
      then Inl (Exc WorkloadSpecError ''kind=run requires a non-empty command (argv list)'')
      else if list_ex (\<lambda>c. c = []) (sp_command s)
      then Inl (Exc WorkloadSpecError ''command must be a non-empty argv list of non-empty strings'')
      else Inr s)"

definition image_or_ref :: "spec \<Rightarrow> string option" where
  "image_or_ref s = (case sp_image s of Some (c # cs) \<Rightarrow> Some (c # cs) | _ \<Rightarrow> sp_image_ref s)"

definition str_dict :: "(string, string) dict \<Rightarrow> pydict" where
  "str_dict d = map (\<lambda>(k, v). (k, VStr v)) d"

definition spec_to_dict :: "spec \<Rightarrow> pydict" where
  "spec_to_dict s =
     (let d0 = [(''spec_version'', VInt (sp_version s)), (''kind'', VStr (kind_value (sp_kind s))),
                (''isolation'', VStr (isolation_value (sp_isolation s))),
                (''lifecycle'', VStr (lifecycle_value (sp_lifecycle s)))];
          d1 = put_if (sp_command s \<noteq> []) ''command'' (VList (map VStr (sp_command s))) d0;
          d2 = put_str ''workdir'' (sp_workdir s) (put_str ''image_ref'' (sp_image_ref s) (put_str ''image'' (sp_image s) d1));
          d3 = put_dict ''seed'' (sp_seed s) d2;
          d4 = put_if (sp_env s \<noteq> []) ''env'' (VDict (str_dict (sp_env s))) d3;
          d5 = put_str ''secrets_ref'' (sp_secrets_ref s) d4;
          d6 = put_if (sp_ports s \<noteq> []) ''ports'' (VList (map VDict (sp_ports s))) d5;
          d7 = put_dict ''health'' (sp_health s) d6;
          d8 = put_if (sp_timeout s \<noteq> None) ''timeout_s'' (VFloat (the (sp_timeout s))) d7;
          d9 = put_if (sp_resources s \<noteq> []) ''resources'' (VDict (sp_resources s)) d8;
          d10 = put_if (sp_labels s \<noteq> []) ''labels'' (VDict (str_dict (sp_labels s))) d9;
          pl = placement_to_dict (sp_placement s);
          d11 = put_if (pl \<noteq> []) ''placement'' (VDict pl) d10
      in put_dict ''mesh'' (sp_mesh s) d11)"

definition known_fields :: "string list" where
  "known_fields = [''spec_version'', ''kind'', ''isolation'', ''lifecycle'', ''command'', ''image'', ''image_ref'',
     ''workdir'', ''seed'', ''env'', ''secrets_ref'', ''ports'', ''expose'', ''health'', ''timeout_s'', ''resources'',
     ''labels'', ''placement'', ''mesh'']"

definition py_int :: "(string \<Rightarrow> int option) \<Rightarrow> pyval \<Rightarrow> int result" where
  "py_int parse v = (case v of
     VInt n \<Rightarrow> Inr n
   | VBool b \<Rightarrow> Inr (if b then 1 else 0)
   | VFloat q \<Rightarrow> Inr (if q < 0 then - \<lfloor>- q\<rfloor> else \<lfloor>q\<rfloor>)
   | VStr s \<Rightarrow> (case parse s of Some n \<Rightarrow> Inr n
       | None \<Rightarrow> Inl (Exc PyValueError (''invalid literal for int() with base 10: '' @ quoted s)))
   | _ \<Rightarrow> Inl (Exc PyTypeError ''int() argument must be a string or a real number''))"

definition py_float :: "(string \<Rightarrow> rat option) \<Rightarrow> pyval \<Rightarrow> rat result" where
  "py_float parse v = (case as_number v of
     Some q \<Rightarrow> Inr q
   | None \<Rightarrow> (case v of
       VStr s \<Rightarrow> (case parse s of Some q \<Rightarrow> Inr q
         | None \<Rightarrow> Inl (Exc PyValueError (''could not convert string to float: '' @ quoted s)))
     | _ \<Rightarrow> Inl (Exc PyTypeError ''float() argument must be a string or a real number'')))"

definition required :: "(pyval \<Rightarrow> string) \<Rightarrow> (string \<Rightarrow> 'e result) \<Rightarrow> pydict \<Rightarrow> string \<Rightarrow> 'e result" where
  "required r conv d k = (case dict_get d k of
     None \<Rightarrow> Inl (Exc WorkloadSpecError (''WorkloadSpec missing required field: '' @ quoted k))
   | Some v \<Rightarrow> (case conv (py_str r v) of Inr e \<Rightarrow> Inr e | Inl x \<Rightarrow> Inl (Exc WorkloadSpecError (exc_msg x))))"

definition opt_dict :: "pydict \<Rightarrow> string \<Rightarrow> pydict option result" where
  "opt_dict d k = (if py_get d k \<noteq> VNone then map_sum id Some (py_dict (py_get d k)) else Inr None)"

definition str_map :: "(pyval \<Rightarrow> string) \<Rightarrow> pydict \<Rightarrow> (string, string) dict" where
  "str_map r d = map (\<lambda>(k, v). (k, py_str r v)) d"

definition spec_from_dict :: "(pyval \<Rightarrow> string) \<Rightarrow> (string \<Rightarrow> int option) \<Rightarrow> (string \<Rightarrow> rat option) \<Rightarrow> pyval \<Rightarrow> spec result" where
  "spec_from_dict r pint pfl v = (case v of
     VDict d \<Rightarrow>
      (let unknown = filter (\<lambda>k. k \<notin> set known_fields) (dict_keys d) in
       if unknown \<noteq> []
       then Inl (Exc WorkloadSpecError (''Unknown WorkloadSpec fields (strict): '' @ list_repr (sort unknown)))
       else
       attempt (required r (enum_of kind_value [K_RUN, K_SERVICE, K_WORKSPACE] ''WorkloadKind'') d ''kind'') (\<lambda>kd.
       attempt (required r (enum_of isolation_value [I_HOST, I_HERMETIC, I_BEST_EFFORT] ''IsolationPolicy'') d ''isolation'') (\<lambda>iso.
       attempt (required r (enum_of lifecycle_value [L_JOB, L_SESSION, L_LEASE] ''LifecyclePolicy'') d ''lifecycle'') (\<lambda>lc.
       let command_raw = py_or (py_get d ''command'') (VList []) in
       if (case command_raw of VStr _ \<Rightarrow> True | _ \<Rightarrow> False)
       then Inl (Exc WorkloadSpecError ''command must be an argv list, not a shell string'')
       else
       attempt (py_iter command_raw) (\<lambda>cs.
       attempt (py_iter (py_or (py_get d ''ports'') (py_or (py_get d ''expose'') (VList [])))) (\<lambda>ps.
       attempt (map_result py_dict ps) (\<lambda>ports.
       attempt (py_dict (py_or (py_get d ''env'') (VDict []))) (\<lambda>env.
       attempt (py_dict (py_or (py_get d ''labels'') (VDict []))) (\<lambda>labels.
       attempt (py_int pint (get_default d ''spec_version'' (VInt 1))) (\<lambda>version.
       attempt (opt_dict d ''seed'') (\<lambda>seed.
       attempt (opt_dict d ''health'') (\<lambda>health.
       attempt (if py_get d ''timeout_s'' \<noteq> VNone then map_sum id Some (py_float pfl (py_get d ''timeout_s'')) else Inr None) (\<lambda>timeout.
       attempt (py_dict (py_or (py_get d ''resources'') (VDict []))) (\<lambda>resources.
       attempt (placement_from_dict r (py_get d ''placement'')) (\<lambda>pl.
       attempt (opt_dict d ''mesh'') (\<lambda>mesh.
       spec_check \<lparr>sp_kind = kd, sp_isolation = iso, sp_lifecycle = lc, sp_command = map (py_str r) cs,
         sp_image = wl_opt_str r (py_get d ''image''), sp_image_ref = wl_opt_str r (py_get d ''image_ref''),
         sp_workdir = wl_opt_str r (py_get d ''workdir''), sp_seed = seed, sp_env = str_map r env,
         sp_secrets_ref = wl_opt_str r (py_get d ''secrets_ref''), sp_ports = ports, sp_health = health,
         sp_timeout = timeout, sp_resources = resources, sp_labels = str_map r labels, sp_placement = pl,
         sp_mesh = mesh, sp_version = version\<rparr>))))))))))))))))
   | _ \<Rightarrow> Inl (Exc WorkloadSpecError ''WorkloadSpec must be a mapping''))"

subsection \<open>Owner, handle, result and record\<close>

record owner =
  ow_job_id :: "string option"
  ow_instance_id :: "string option"
  ow_lease_id :: "string option"
  ow_session_id :: "string option"
  ow_created :: bool

definition default_owner :: owner where
  "default_owner = \<lparr>ow_job_id = None, ow_instance_id = None, ow_lease_id = None, ow_session_id = None, ow_created = True\<rparr>"

definition owner_to_dict :: "owner \<Rightarrow> pydict" where
  "owner_to_dict w = put_str ''session_id'' (ow_session_id w) (put_str ''lease_id'' (ow_lease_id w)
     (put_str ''instance_id'' (ow_instance_id w) (put_str ''job_id'' (ow_job_id w) [(''created_by_palm'', VBool (ow_created w))])))"

definition owner_from_dict :: "(pyval \<Rightarrow> string) \<Rightarrow> pydict option \<Rightarrow> owner" where
  "owner_from_dict r d = (case d of
     None \<Rightarrow> default_owner
   | Some m \<Rightarrow> (if m = [] then default_owner
       else \<lparr>ow_job_id = wl_opt_str r (py_get m ''job_id''), ow_instance_id = wl_opt_str r (py_get m ''instance_id''),
             ow_lease_id = wl_opt_str r (py_get m ''lease_id''), ow_session_id = wl_opt_str r (py_get m ''session_id''),
             ow_created = truthy (get_default m ''created_by_palm'' (VBool True))\<rparr>))"

text \<open>\<open>matches\<close>: any provided filter that agrees; without a filter everything matches.\<close>

definition owner_matches :: "string option \<Rightarrow> string option \<Rightarrow> string option \<Rightarrow> string option \<Rightarrow> owner \<Rightarrow> bool" where
  "owner_matches job inst lease sess w =
     (let checks = (if job \<noteq> None then [ow_job_id w = job] else []) @ (if inst \<noteq> None then [ow_instance_id w = inst] else [])
          @ (if lease \<noteq> None then [ow_lease_id w = lease] else []) @ (if sess \<noteq> None then [ow_session_id w = sess] else [])
      in if checks \<noteq> [] then list_ex id checks else True)"

record handle =
  hd_workload_id :: string
  hd_base_url :: "string option"
  hd_endpoints :: "(string, string) dict"
  hd_hints :: pydict

definition handle_to_dict :: "handle \<Rightarrow> pydict" where
  "handle_to_dict h =
     (let d0 = put_str ''base_url'' (hd_base_url h) [(''workload_id'', VStr (hd_workload_id h))];
          d1 = put_if (hd_endpoints h \<noteq> []) ''endpoints'' (VDict (str_dict (hd_endpoints h))) d0
      in put_if (hd_hints h \<noteq> []) ''connection_hints'' (VDict (hd_hints h)) d1)"

definition handle_from_dict :: "(pyval \<Rightarrow> string) \<Rightarrow> pydict \<Rightarrow> handle result" where
  "handle_from_dict r d = (case dict_get d ''workload_id'' of
     None \<Rightarrow> Inl (Exc PyKeyError ''workload_id'')
   | Some w \<Rightarrow>
      attempt (py_dict (py_or (py_get d ''endpoints'') (VDict []))) (\<lambda>eps.
      attempt (py_dict (py_or (py_get d ''connection_hints'') (VDict []))) (\<lambda>hints.
      Inr \<lparr>hd_workload_id = py_str r w,
           hd_base_url = (if py_get d ''base_url'' \<noteq> VNone then Some (py_str r (py_get d ''base_url'')) else None),
           hd_endpoints = str_map r eps, hd_hints = hints\<rparr>)))"

record wl_result =
  rs_exit :: int
  rs_stdout :: string
  rs_stderr :: string
  rs_duration :: "rat option"
  rs_artifacts :: "string list"
  rs_meta :: pydict
  rs_error :: "string option"

definition rs_success :: "wl_result \<Rightarrow> bool" where
  "rs_success x = (rs_exit x = 0 \<and> rs_error x = None)"

definition result_to_dict :: "wl_result \<Rightarrow> pydict" where
  "result_to_dict x =
     (let d0 = [(''exit_code'', VInt (rs_exit x)), (''stdout_tail'', VStr (rs_stdout x)), (''stderr_tail'', VStr (rs_stderr x)),
                (''artifact_refs'', VList (map VStr (rs_artifacts x))), (''runtime_meta'', VDict (rs_meta x))];
          d1 = put_if (rs_duration x \<noteq> None) ''duration_s'' (VFloat (the (rs_duration x))) d0
      in put_str ''error'' (rs_error x) d1)"

definition result_from_dict :: "(pyval \<Rightarrow> string) \<Rightarrow> (string \<Rightarrow> int option) \<Rightarrow> (string \<Rightarrow> rat option) \<Rightarrow> pydict \<Rightarrow> wl_result result" where
  "result_from_dict r pint pfl d =
     attempt (py_int pint (get_default d ''exit_code'' (VInt 1))) (\<lambda>code.
     attempt (if py_get d ''duration_s'' \<noteq> VNone then map_sum id Some (py_float pfl (py_get d ''duration_s'')) else Inr None) (\<lambda>dur.
     attempt (py_iter (py_or (py_get d ''artifact_refs'') (VList []))) (\<lambda>refs.
     attempt (py_dict (py_or (py_get d ''runtime_meta'') (VDict []))) (\<lambda>meta.
     Inr \<lparr>rs_exit = code, rs_stdout = py_str r (py_or (py_get d ''stdout_tail'') (VStr [])),
          rs_stderr = py_str r (py_or (py_get d ''stderr_tail'') (VStr [])), rs_duration = dur,
          rs_artifacts = map (py_str r) refs, rs_meta = meta,
          rs_error = (if py_get d ''error'' \<noteq> VNone then Some (py_str r (py_get d ''error'')) else None)\<rparr>))))"

definition result_ok :: "int \<Rightarrow> string \<Rightarrow> string \<Rightarrow> rat option \<Rightarrow> string list \<Rightarrow> pydict \<Rightarrow> wl_result" where
  "result_ok code out err dur refs meta = \<lparr>rs_exit = code, rs_stdout = out, rs_stderr = err, rs_duration = dur,
     rs_artifacts = refs, rs_meta = meta, rs_error = None\<rparr>"

definition result_fail :: "string \<Rightarrow> int \<Rightarrow> string \<Rightarrow> string \<Rightarrow> pydict \<Rightarrow> wl_result" where
  "result_fail err code out errt meta = \<lparr>rs_exit = code, rs_stdout = out, rs_stderr = errt, rs_duration = None,
     rs_artifacts = [], rs_meta = meta, rs_error = Some err\<rparr>"

record workload =
  wl_id :: string
  wl_spec :: spec
  wl_status :: workload_status
  wl_runtime :: string
  wl_owner :: owner
  wl_handle :: "handle option"
  wl_result_of :: "wl_result option"
  wl_host_id :: "string option"
  wl_message :: "string option"
  wl_created_at :: string
  wl_updated_at :: string
  wl_idem_key :: "string option"
  wl_meta :: pydict
  wl_leak :: bool

definition touch :: "string \<Rightarrow> workload \<Rightarrow> workload" where
  "touch now w = w\<lparr>wl_updated_at := now\<rparr>"

definition workload_to_dict :: "workload \<Rightarrow> pydict" where
  "workload_to_dict w =
     (let d0 = [(''workload_id'', VStr (wl_id w)), (''spec'', VDict (spec_to_dict (wl_spec w))),
                (''status'', VStr (wl_status_value (wl_status w))), (''runtime'', VStr (wl_runtime w)),
                (''owner'', VDict (owner_to_dict (wl_owner w))), (''created_at'', VStr (wl_created_at w)),
                (''updated_at'', VStr (wl_updated_at w))];
          d1 = put_dict ''handle'' (map_option handle_to_dict (wl_handle w)) d0;
          d2 = put_dict ''result'' (map_option result_to_dict (wl_result_of w)) d1;
          d3 = put_str ''idempotency_key'' (wl_idem_key w) (put_str ''message'' (wl_message w) (put_str ''host_id'' (wl_host_id w) d2));
          d4 = put_if (wl_meta w \<noteq> []) ''runtime_meta'' (VDict (wl_meta w)) d3
      in put_if (wl_leak w) ''leak_recorded'' (VBool True) d4)"

end
