(* ===== verification/WorkloadTrips.thy ===== *)
theory WorkloadTrips
  imports Workload
begin

text \<open>Round trips of the workload records through their dictionaries.\<close>

lemma get_put_str [simp, dict_simps]:
  "get_default (put_str k v d) k' x = (if k' = k \<and> v \<noteq> None then VStr (the v) else get_default d k' x)"
  by (auto simp: put_str_def split: option.splits)

lemma get_put_dict [simp, dict_simps]:
  "get_default (put_dict k v d) k' x = (if k' = k \<and> v \<noteq> None then VDict (the v) else get_default d k' x)"
  by (auto simp: put_dict_def split: option.splits)

lemma get_put_if [simp, dict_simps]: "get_default (put_if b k v d) k' x = (if k' = k \<and> b then v else get_default d k' x)"
  by (auto simp: put_if_def)

lemma map_put_if [simp, dict_simps]: "map_of (put_if b k v d) k' = (if k' = k \<and> b then Some v else map_of d k')"
  by (auto simp: put_if_def)

lemma map_put_str [simp, dict_simps]:
  "map_of (put_str k v d) k' = (if k' = k \<and> v \<noteq> None then Some (VStr (the v)) else map_of d k')"
  by (auto simp: put_str_def split: option.splits)

lemma map_put_dict [simp, dict_simps]:
  "map_of (put_dict k v d) k' = (if k' = k \<and> v \<noteq> None then Some (VDict (the v)) else map_of d k')"
  by (auto simp: put_dict_def split: option.splits)

definition text_ok :: "string option \<Rightarrow> bool" where
  "text_ok v \<longleftrightarrow> v \<noteq> Some []"

lemma opt_str_back: "text_ok v \<Longrightarrow> wl_opt_str r (if v \<noteq> None then VStr (the v) else VNone) = v"
  by (cases v) (auto simp: wl_opt_str_def text_ok_def)

lemma str_list_back: "map (py_str r) (map VStr xs) = xs" "map (py_str r \<circ> VStr) xs = xs"
  by (induction xs) simp_all

lemma str_map_back [simp]: "str_map r (str_dict d) = d"
  by (induction d) (auto simp: str_map_def str_dict_def)

lemma str_dict_Nil [simp]: "str_dict d = [] \<longleftrightarrow> d = []" "str_dict [] = []" "str_map r [] = []"
  by (simp_all add: str_dict_def str_map_def)

lemma dicts_back: "map_result py_dict (map VDict ps) = Inr ps"
  by (induction ps) (simp_all add: py_dict_def)

definition placement_ok :: "placement \<Rightarrow> bool" where
  "placement_ok p \<longleftrightarrow> text_ok (pl_host_id p) \<and> text_ok (pl_runtime p)"

lemma placement_back:
  assumes "placement_ok p"
  shows "placement_from_dict r (if placement_to_dict p \<noteq> [] then VDict (placement_to_dict p) else VNone) = Inr p"
proof -
  obtain h n j where p: "p = \<lparr>pl_host_id = h, pl_runtime = n, pl_reject = j\<rparr>" by (cases p)
  show ?thesis using assms
    by (cases h; cases n)
      (auto simp: p placement_ok_def placement_from_dict_def placement_to_dict_def put_str_def put_if_def empty_placement_def
        Let_def py_or_def py_iter_def wl_opt_str_def text_ok_def str_list_back)
qed

text \<open>The specs that a caller can have: checked, and no present text is empty.\<close>

definition spec_ok :: "spec \<Rightarrow> bool" where
  "spec_ok s \<longleftrightarrow> spec_check s = Inr s \<and> text_ok (sp_image s) \<and> text_ok (sp_image_ref s) \<and> text_ok (sp_workdir s)
     \<and> text_ok (sp_secrets_ref s) \<and> placement_ok (sp_placement s)"

definition keys_in :: "string list \<Rightarrow> pydict \<Rightarrow> bool" where
  "keys_in ks d \<longleftrightarrow> fst ` set d \<subseteq> set ks"

lemma keys_in_steps:
  "k \<in> set ks \<Longrightarrow> keys_in ks d \<Longrightarrow> keys_in ks (dict_set k v d)"
  "k \<in> set ks \<Longrightarrow> keys_in ks d \<Longrightarrow> keys_in ks (put_str k t d)"
  "k \<in> set ks \<Longrightarrow> keys_in ks d \<Longrightarrow> keys_in ks (put_dict k m d)"
  "k \<in> set ks \<Longrightarrow> keys_in ks d \<Longrightarrow> keys_in ks (put_if b k v d)"
  by (auto simp: keys_in_def put_str_def put_dict_def put_if_def dom_update split: option.splits)

lemma spec_keys: "filter (\<lambda>k. k \<notin> set known_fields) (dict_keys (spec_to_dict s)) = []"
proof -
  have "keys_in known_fields (spec_to_dict s)"
    unfolding spec_to_dict_def Let_def
    by (intro keys_in_steps) (simp_all add: known_fields_def keys_in_def)
  then show ?thesis by (auto simp: keys_in_def filter_empty_conv)
qed

lemma spec_fields:
  "dict_get (spec_to_dict s) ''kind'' = Some (VStr (kind_value (sp_kind s)))"
  "dict_get (spec_to_dict s) ''isolation'' = Some (VStr (isolation_value (sp_isolation s)))"
  "dict_get (spec_to_dict s) ''lifecycle'' = Some (VStr (lifecycle_value (sp_lifecycle s)))"
  "get_default (spec_to_dict s) ''spec_version'' (VInt 1) = VInt (sp_version s)"
  "py_get (spec_to_dict s) ''command'' = (if sp_command s \<noteq> [] then VList (map VStr (sp_command s)) else VNone)"
  "py_get (spec_to_dict s) ''ports'' = (if sp_ports s \<noteq> [] then VList (map VDict (sp_ports s)) else VNone)"
  "py_get (spec_to_dict s) ''expose'' = VNone"
  "py_get (spec_to_dict s) ''env'' = (if sp_env s \<noteq> [] then VDict (str_dict (sp_env s)) else VNone)"
  "py_get (spec_to_dict s) ''labels'' = (if sp_labels s \<noteq> [] then VDict (str_dict (sp_labels s)) else VNone)"
  by (simp_all add: spec_to_dict_def Let_def)

lemma spec_texts:
  "py_get (spec_to_dict s) ''image'' = (if sp_image s \<noteq> None then VStr (the (sp_image s)) else VNone)"
  "py_get (spec_to_dict s) ''image_ref'' = (if sp_image_ref s \<noteq> None then VStr (the (sp_image_ref s)) else VNone)"
  "py_get (spec_to_dict s) ''workdir'' = (if sp_workdir s \<noteq> None then VStr (the (sp_workdir s)) else VNone)"
  "py_get (spec_to_dict s) ''secrets_ref'' = (if sp_secrets_ref s \<noteq> None then VStr (the (sp_secrets_ref s)) else VNone)"
  "py_get (spec_to_dict s) ''seed'' = (if sp_seed s \<noteq> None then VDict (the (sp_seed s)) else VNone)"
  "py_get (spec_to_dict s) ''health'' = (if sp_health s \<noteq> None then VDict (the (sp_health s)) else VNone)"
  "py_get (spec_to_dict s) ''mesh'' = (if sp_mesh s \<noteq> None then VDict (the (sp_mesh s)) else VNone)"
  "py_get (spec_to_dict s) ''timeout_s'' = (if sp_timeout s \<noteq> None then VFloat (the (sp_timeout s)) else VNone)"
  "py_get (spec_to_dict s) ''resources'' = (if sp_resources s \<noteq> [] then VDict (sp_resources s) else VNone)"
  "py_get (spec_to_dict s) ''placement'' =
     (if placement_to_dict (sp_placement s) \<noteq> [] then VDict (placement_to_dict (sp_placement s)) else VNone)"
  by (simp_all add: spec_to_dict_def Let_def)

lemma enum_back:
  "required r (enum_of kind_value [K_RUN, K_SERVICE, K_WORKSPACE] c) (spec_to_dict s) ''kind'' = Inr (sp_kind s)"
  "required r (enum_of isolation_value [I_HOST, I_HERMETIC, I_BEST_EFFORT] c) (spec_to_dict s) ''isolation'' = Inr (sp_isolation s)"
  "required r (enum_of lifecycle_value [L_JOB, L_SESSION, L_LEASE] c) (spec_to_dict s) ''lifecycle'' = Inr (sp_lifecycle s)"
  by (cases "sp_kind s"; cases "sp_isolation s"; cases "sp_lifecycle s"; simp add: required_def spec_fields enum_of_def)+

lemma opt_dict_back:
  "opt_dict (spec_to_dict s) ''seed'' = Inr (sp_seed s)"
  "opt_dict (spec_to_dict s) ''health'' = Inr (sp_health s)"
  "opt_dict (spec_to_dict s) ''mesh'' = Inr (sp_mesh s)"
  by (auto simp: opt_dict_def spec_texts py_dict_def)

text \<open>
  A workload spec survives its dictionary form: for every spec that construction accepts and in
  which no present optional text is empty, parsing what \<open>to_dict\<close> writes gives the spec back, with
  every field, whatever parsers of numbers in text are used.
\<close>
theorem spec_roundtrip:
  assumes "spec_ok s"
  shows "spec_from_dict r pint pfl (VDict (spec_to_dict s)) = Inr s"
proof -
  have texts: "wl_opt_str r (py_get (spec_to_dict s) ''image'') = sp_image s"
      "wl_opt_str r (py_get (spec_to_dict s) ''image_ref'') = sp_image_ref s"
      "wl_opt_str r (py_get (spec_to_dict s) ''workdir'') = sp_workdir s"
      "wl_opt_str r (py_get (spec_to_dict s) ''secrets_ref'') = sp_secrets_ref s"
    using assms unfolding spec_texts spec_ok_def by (simp_all only: opt_str_back)
  have cmd: "py_iter (py_or (py_get (spec_to_dict s) ''command'') (VList [])) = Inr (map VStr (sp_command s))"
      "(case py_or (py_get (spec_to_dict s) ''command'') (VList []) of VStr _ \<Rightarrow> True | _ \<Rightarrow> False) = False"
    by (auto simp: spec_fields py_or_def py_iter_def)
  have ports: "py_iter (py_or (py_get (spec_to_dict s) ''ports'') (py_or (py_get (spec_to_dict s) ''expose'') (VList [])))
      = Inr (map VDict (sp_ports s))"
    by (auto simp: spec_fields py_or_def py_iter_def)
  have env: "py_dict (py_or (py_get (spec_to_dict s) ''env'') (VDict [])) = Inr (str_dict (sp_env s))"
      "py_dict (py_or (py_get (spec_to_dict s) ''labels'') (VDict [])) = Inr (str_dict (sp_labels s))"
      "py_dict (py_or (py_get (spec_to_dict s) ''resources'') (VDict [])) = Inr (sp_resources s)"
    by (auto simp: spec_fields spec_texts py_or_def py_dict_def)
  have time: "(if py_get (spec_to_dict s) ''timeout_s'' \<noteq> VNone
      then map_sum id Some (py_float pfl (py_get (spec_to_dict s) ''timeout_s'')) else Inr None) = Inr (sp_timeout s)"
    by (auto simp: spec_texts py_float_def)
  have place: "placement_from_dict r (py_get (spec_to_dict s) ''placement'') = Inr (sp_placement s)"
    using placement_back [of "sp_placement s" r] assms by (simp add: spec_texts spec_ok_def)
  have eta: "\<lparr>sp_kind = sp_kind s, sp_isolation = sp_isolation s, sp_lifecycle = sp_lifecycle s, sp_command = sp_command s, sp_image = sp_image s,
      sp_image_ref = sp_image_ref s, sp_workdir = sp_workdir s, sp_seed = sp_seed s, sp_env = sp_env s, sp_secrets_ref = sp_secrets_ref s,
      sp_ports = sp_ports s, sp_health = sp_health s, sp_timeout = sp_timeout s, sp_resources = sp_resources s, sp_labels = sp_labels s,
      sp_placement = sp_placement s, sp_mesh = sp_mesh s, sp_version = sp_version s\<rparr> = s" by simp
  have "spec_check s = Inr s" using assms by (simp add: spec_ok_def)
  then show ?thesis
    by (simp add: spec_from_dict_def spec_keys enum_back cmd ports dicts_back env time place opt_dict_back texts
        spec_fields(4) py_int_def str_list_back Let_def eta)
qed

definition demo_spec :: spec where
  "demo_spec = \<lparr>sp_kind = K_RUN, sp_isolation = I_HERMETIC, sp_lifecycle = L_JOB, sp_command = [''echo'', ''hi''],
     sp_image = Some ''alpine'', sp_image_ref = None, sp_workdir = None, sp_seed = Some [(''a'', VInt 1)],
     sp_env = [(''K'', ''v'')], sp_secrets_ref = None, sp_ports = [[(''port'', VInt 80)]], sp_health = None,
     sp_timeout = Some 3, sp_resources = [], sp_labels = [(''l'', ''x'')],
     sp_placement = \<lparr>pl_host_id = None, pl_runtime = Some ''local'', pl_reject = [''host'']\<rparr>, sp_mesh = None, sp_version = 1\<rparr>"

lemma spec_roundtrip_witness:
  "spec_from_dict (\<lambda>_. []) (\<lambda>_. None) (\<lambda>_. None) (VDict (spec_to_dict demo_spec)) = Inr demo_spec"
  by (rule spec_roundtrip) (simp add: spec_ok_def spec_check_def demo_spec_def text_ok_def placement_ok_def)

definition owner_ok :: "owner \<Rightarrow> bool" where
  "owner_ok w \<longleftrightarrow> text_ok (ow_job_id w) \<and> text_ok (ow_instance_id w) \<and> text_ok (ow_lease_id w) \<and> text_ok (ow_session_id w)"

lemma owner_back: "owner_ok w \<Longrightarrow> owner_from_dict r (Some (owner_to_dict w)) = w"
proof -
  assume ok: "owner_ok w"
  have "owner_to_dict w \<noteq> []"
    by (auto simp: owner_to_dict_def put_str_def split: option.splits dest: arg_cong [of _ _ length])
  with ok show ?thesis
    by (cases w) (auto simp: owner_ok_def owner_from_dict_def owner_to_dict_def Let_def wl_opt_str_def text_ok_def)
qed

text \<open>
  Owners, handles and results survive their dictionary form: an owner in which no present id is
  empty, and every handle and every result, come back as they were.
\<close>
theorem workload_records_roundtrip:
  assumes "owner_ok w"
  shows "owner_from_dict r (Some (owner_to_dict w)) = w
    \<and> handle_from_dict r (handle_to_dict h) = Inr h
    \<and> result_from_dict r pint pfl (result_to_dict x) = Inr x"
proof (intro conjI)
  show "owner_from_dict r (Some (owner_to_dict w)) = w" by (rule owner_back [OF assms])
  show "handle_from_dict r (handle_to_dict h) = Inr h"
    by (cases h) (auto simp: handle_from_dict_def handle_to_dict_def Let_def py_or_def py_dict_def)
  show "result_from_dict r pint pfl (result_to_dict x) = Inr x"
    by (cases x) (auto simp: result_from_dict_def result_to_dict_def Let_def py_or_def py_dict_def py_iter_def
        py_int_def py_float_def str_list_back)
qed

lemma workload_records_roundtrip_witness:
  "owner_from_dict (\<lambda>_. []) (Some (owner_to_dict (default_owner\<lparr>ow_job_id := Some ''j''\<rparr>))) = default_owner\<lparr>ow_job_id := Some ''j''\<rparr>"
  using workload_records_roundtrip [of "default_owner\<lparr>ow_job_id := Some ''j''\<rparr>"]
  by (simp add: owner_ok_def default_owner_def text_ok_def)

end
