(* ===== verification/WorkloadEngine.thy ===== *)
theory WorkloadEngine
  imports Workload
begin

text \<open>
  \<open>WorkloadEngine\<close> (\<open>palm/core/workload/engine.py\<close>). A runtime is a record of the adapter's methods,
  each an effect on a world \<open>'w\<close> outside of the engine that may raise; the engine keeps the
  workloads, the idempotency index and the bound runtimes. Every public method runs under the
  engine's lock and is one step; the engine is the result state also when the method raises. Clock
  and fresh ids are arguments; the event publisher, whose failures are swallowed, is a log.
\<close>

record capabilities =
  cap_name :: string
  cap_isolation :: "isolation_policy list"
  cap_kinds :: "string list"
  cap_description :: string
  cap_default_enabled :: bool
  cap_trust :: string

definition supports_isolation :: "capabilities \<Rightarrow> isolation_policy \<Rightarrow> bool" where
  "supports_isolation c i = (i \<in> set (cap_isolation c))"

record health =
  hl_name :: string
  hl_available :: bool
  hl_enabled :: bool
  hl_message :: string
  hl_detail :: pydict

definition health_to_dict :: "health \<Rightarrow> pydict" where
  "health_to_dict h = put_if (hl_detail h \<noteq> []) ''detail'' (VDict (hl_detail h))
     [(''name'', VStr (hl_name h)), (''available'', VBool (hl_available h)), (''enabled'', VBool (hl_enabled h)),
      (''message'', VStr (hl_message h))]"

record outcome =
  oc_status :: workload_status
  oc_handle :: "handle option"
  oc_result :: "wl_result option"
  oc_message :: "string option"
  oc_meta :: pydict

record stop_outcome =
  so_status :: workload_status
  so_result :: "wl_result option"
  so_message :: "string option"
  so_leaked :: bool
  so_meta :: pydict

record 'w runtime =
  rt_name :: string
  rt_caps :: capabilities
  rt_enabled :: "'w \<Rightarrow> bool"
  rt_health :: "'w \<Rightarrow> health result"
  rt_start :: "string \<Rightarrow> spec \<Rightarrow> owner \<Rightarrow> 'w \<Rightarrow> outcome result \<times> 'w"
  rt_poll :: "string \<Rightarrow> 'w \<Rightarrow> outcome result \<times> 'w"
  rt_stop :: "string \<Rightarrow> 'w \<Rightarrow> stop_outcome result \<times> 'w"
  rt_exec :: "string \<Rightarrow> string list \<Rightarrow> rat option \<Rightarrow> (string, string) dict option \<Rightarrow> 'w \<Rightarrow> wl_result result \<times> 'w"

text \<open>The default \<open>health\<close> and \<open>exec\<close> of the base class.\<close>

definition default_health :: "string \<Rightarrow> bool \<Rightarrow> health" where
  "default_health nm enabled = \<lparr>hl_name = nm, hl_available = enabled, hl_enabled = enabled,
     hl_message = (if enabled then ''enabled'' else ''disabled''), hl_detail = []\<rparr>"

definition default_exec :: "string \<Rightarrow> wl_result" where
  "default_exec nm = result_fail (''Runtime '' @ quoted nm @ '' does not support exec'') 1 [] [] [(''runtime'', VStr nm)]"

record 'w wl_engine =
  wl_on :: bool
  workloads :: "(string, workload) dict"
  idempotency :: "(string, string) dict"
  wl_runtimes :: "(string, 'w runtime) dict"
  runtime_factory :: "(string \<Rightarrow> 'w runtime result) option"
  default_runtime :: "string option"
  publishing :: bool
  wl_events :: "(string \<times> pydict) list"
  world :: 'w
  wl_now :: string

type_synonym ('w, 'a) wl_eff = "'w wl_engine \<Rightarrow> 'a result \<times> 'w wl_engine"

definition new_wl_engine :: "'w \<Rightarrow> 'w wl_engine" where
  "new_wl_engine w = \<lparr>wl_on = False, workloads = [], idempotency = [], wl_runtimes = [], runtime_factory = None,
     default_runtime = None, publishing = False, wl_events = [], world = w, wl_now = []\<rparr>"

text \<open>\<open>runtimes\<close> is a mapping of names to runtimes here; the TypeErrors of \<open>_named_runtimes\<close> are ruled out by the types.\<close>

definition wl_initialize :: "bool \<Rightarrow> (string \<Rightarrow> 'w runtime result) option \<Rightarrow> string option \<Rightarrow> (string, 'w runtime) dict
    \<Rightarrow> 'w wl_engine \<Rightarrow> 'w wl_engine" where
  "wl_initialize publish fac dflt bound e =
     (if wl_on e then e
      else e\<lparr>publishing := publish, runtime_factory := fac, default_runtime := dflt,
             wl_runtimes := dict_update (wl_runtimes e) bound, wl_on := True\<rparr>)"

definition not_ready :: exc where
  "not_ready = Exc WorkloadStateError ''WorkloadEngine is not initialized''"

definition register_runtime :: "'w runtime \<Rightarrow> 'w wl_engine \<Rightarrow> 'w wl_engine" where
  "register_runtime rt e = e\<lparr>wl_runtimes := dict_set (rt_name rt) rt (wl_runtimes e)\<rparr>"

definition resolve_runtime :: "string \<Rightarrow> ('w, 'w runtime) wl_eff" where
  "resolve_runtime nm e = (case dict_get (wl_runtimes e) nm of
     Some rt \<Rightarrow> (Inr rt, e)
   | None \<Rightarrow> (case runtime_factory e of
       Some f \<Rightarrow> (case f nm of
           Inl x \<Rightarrow> (Inl x, e)
         | Inr rt \<Rightarrow> (Inr rt, e\<lparr>wl_runtimes := dict_set nm rt (wl_runtimes e)\<rparr>))
     | None \<Rightarrow> (Inl (Exc WorkloadPlacementError (''workload runtime '' @ quoted nm @ '' is not bound'')), e)))"

definition nonempty :: "string option \<Rightarrow> string option" where
  "nonempty v = (case v of Some s \<Rightarrow> (if s = [] then None else Some s) | None \<Rightarrow> None)"

definition select_runtime_name :: "spec \<Rightarrow> 'w wl_engine \<Rightarrow> string result" where
  "select_runtime_name sp e =
     (let pl = sp_placement sp in
      case nonempty (pl_runtime pl) of
        Some nm \<Rightarrow> (if nm \<in> set (pl_reject pl)
          then Inl (Exc WorkloadPlacementError (''Requested runtime '' @ quoted nm @ '' is in reject_runtimes'')) else Inr nm)
      | None \<Rightarrow> (case nonempty (default_runtime e) of
          Some nm \<Rightarrow> (if nm \<in> set (pl_reject pl)
            then Inl (Exc WorkloadPlacementError (''Default runtime '' @ quoted nm @ '' is rejected by Spec'')) else Inr nm)
        | None \<Rightarrow> Inl (Exc WorkloadPlacementError
            ''No runtime selected: set placement.runtime or engine default_runtime'')))"

definition enforce_isolation_policy :: "spec \<Rightarrow> 'w runtime \<Rightarrow> unit result" where
  "enforce_isolation_policy sp rt =
     (if \<not> supports_isolation (rt_caps rt) (sp_isolation sp)
      then Inl (Exc WorkloadPolicyError (''Runtime '' @ quoted (rt_name rt) @ '' does not support isolation=''
             @ isolation_value (sp_isolation sp) @ ''; supports ''
             @ list_repr (sort (remdups (map isolation_value (cap_isolation (rt_caps rt)))))))
      else if sp_isolation sp = I_HERMETIC \<and> rt_name rt = ''host''
      then Inl (Exc WorkloadPolicyError ''Hermetic isolation cannot select host runtime'')
      else Inr ())"

definition EVENT_STARTED :: string where "EVENT_STARTED = ''workload.started''"
definition EVENT_READY :: string where "EVENT_READY = ''workload.ready''"
definition EVENT_FAILED :: string where "EVENT_FAILED = ''workload.failed''"
definition EVENT_STOPPED :: string where "EVENT_STOPPED = ''workload.stopped''"

lemmas wl_event_types = EVENT_STARTED_def EVENT_READY_def EVENT_FAILED_def EVENT_STOPPED_def

definition wl_emit :: "string \<Rightarrow> workload \<Rightarrow> 'w wl_engine \<Rightarrow> 'w wl_engine" where
  "wl_emit t w e =
     (if \<not> publishing e then e
      else
        let p0 = [(''workload_id'', VStr (wl_id w)), (''status'', VStr (wl_status_value (wl_status w))),
                  (''runtime'', VStr (wl_runtime w)), (''kind'', VStr (kind_value (sp_kind (wl_spec w)))),
                  (''owner'', VDict (owner_to_dict (wl_owner w))), (''labels'', VDict (str_dict (sp_labels (wl_spec w))))];
            p1 = put_str ''host_id'' (wl_host_id w) p0;
            p2 = (case wl_result_of w of
                    None \<Rightarrow> p1
                  | Some x \<Rightarrow> put_if (rs_artifacts x \<noteq> []) ''artifact_refs'' (VList (map VStr (rs_artifacts x)))
                                (dict_set ''exit_code'' (VInt (rs_exit x)) p1))
        in e\<lparr>wl_events := wl_events e @ [(t, p2)]\<rparr>)"

definition wl_transition :: "string \<Rightarrow> workload_status \<Rightarrow> string option \<Rightarrow> workload \<Rightarrow> workload result" where
  "wl_transition now next msg w =
     (let w1 = (case msg of Some m \<Rightarrow> w\<lparr>wl_message := Some m\<rparr> | None \<Rightarrow> w) in
      if wl_status w = next then Inr (touch now w1)
      else if \<not> can_transition (wl_status w) next
      then Inl (Exc WorkloadStateError (''Illegal status transition '' @ wl_status_value (wl_status w) @ '' -> ''
             @ wl_status_value next @ '' for workload '' @ quoted (wl_id w)))
      else Inr (touch now (w1\<lparr>wl_status := next\<rparr>)))"

definition put_wl :: "workload \<Rightarrow> 'w wl_engine \<Rightarrow> 'w wl_engine" where
  "put_wl w e = e\<lparr>workloads := dict_set (wl_id w) w (workloads e)\<rparr>"

definition wl_require :: "string \<Rightarrow> 'w wl_engine \<Rightarrow> workload result" where
  "wl_require i e = (case dict_get (workloads e) i of
     Some w \<Rightarrow> Inr w | None \<Rightarrow> Inl (Exc WorkloadNotFoundError (''Unknown workload '' @ quoted i)))"

definition idempotency_index :: "owner \<Rightarrow> string \<Rightarrow> string" where
  "idempotency_index w k =
     (let text = (\<lambda>v. case v of Some s \<Rightarrow> s | None \<Rightarrow> [])
      in text (ow_job_id w) @ ''|'' @ text (ow_instance_id w) @ ''|'' @ text (ow_session_id w) @ ''|''
         @ text (ow_lease_id w) @ ''|'' @ k)"

text \<open>The handler of an exception of the runtime: the workload fails with its text; \<open>k\<close> is the reply.\<close>

definition fail_wl :: "exc \<Rightarrow> workload \<Rightarrow> ('w, workload) wl_eff" where
  "fail_wl x w e = (case wl_transition (wl_now e) W_FAILED (Some (exc_msg x)) w of
     Inl y \<Rightarrow> (Inl y, put_wl w e)
   | Inr w1 \<Rightarrow> (let w2 = w1\<lparr>wl_result_of := Some (result_fail (exc_msg x) 1 [] [] [(''runtime'', VStr (wl_runtime w))])\<rparr>
       in (Inr w2, wl_emit EVENT_FAILED w2 (put_wl w2 e))))"

definition absorb :: "outcome \<Rightarrow> workload \<Rightarrow> workload" where
  "absorb oc w =
     (let w1 = (case oc_handle oc of Some h \<Rightarrow> w\<lparr>wl_handle := Some h\<rparr> | None \<Rightarrow> w);
          w2 = (case oc_result oc of Some x \<Rightarrow> w1\<lparr>wl_result_of := Some x\<rparr> | None \<Rightarrow> w1)
      in w2\<lparr>wl_meta := dict_update (wl_meta w2) (oc_meta oc)\<rparr>)"

definition announce :: "workload_status \<Rightarrow> workload \<Rightarrow> 'w wl_engine \<Rightarrow> 'w wl_engine" where
  "announce st w e =
     (if st = W_READY then wl_emit EVENT_READY w e
      else if st = W_FAILED then wl_emit EVENT_FAILED w e
      else if st = W_STOPPED then wl_emit EVENT_STOPPED w e
      else e)"

text \<open>An outcome with an illegal status fails the workload with a message.\<close>

definition settle :: "workload_status \<Rightarrow> string option \<Rightarrow> string \<Rightarrow> workload \<Rightarrow> ('w, workload) wl_eff" where
  "settle st msg illegal w e =
     (if \<not> can_transition (wl_status w) st
      then (case wl_transition (wl_now e) W_FAILED (Some illegal) w of
              Inl y \<Rightarrow> (Inl y, put_wl w e)
            | Inr w1 \<Rightarrow> (Inr w1, wl_emit EVENT_FAILED w1 (put_wl w1 e)))
      else (case wl_transition (wl_now e) st msg w of
              Inl y \<Rightarrow> (Inl y, put_wl w e)
            | Inr w1 \<Rightarrow> (Inr w1, announce st w1 (put_wl w1 e))))"

definition apply_start_outcome :: "outcome \<Rightarrow> workload \<Rightarrow> ('w, workload) wl_eff" where
  "apply_start_outcome oc w = settle (oc_status oc) (oc_message oc)
     (''Runtime returned illegal status '' @ wl_status_value (oc_status oc) @ '' from STARTING'') (absorb oc w)"

definition apply_poll_outcome :: "outcome \<Rightarrow> workload \<Rightarrow> ('w, workload) wl_eff" where
  "apply_poll_outcome oc w e =
     (let w1 = absorb oc w in
      if oc_status oc = wl_status w1
      then (let w2 = touch (wl_now e) w1 in (Inr w2, put_wl w2 e))
      else settle (oc_status oc) (oc_message oc)
             (''Illegal poll transition '' @ wl_status_value (wl_status w1) @ '' -> '' @ wl_status_value (oc_status oc)) w1 e)"

subsection \<open>Public operations\<close>

definition wl_start :: "spec \<Rightarrow> owner option \<Rightarrow> string option \<Rightarrow> string option \<Rightarrow> string option \<Rightarrow> string \<Rightarrow> ('w, workload) wl_eff" where
  "wl_start sp ow wid key host generated e =
     (if \<not> wl_on e then (Inl not_ready, e)
      else
      let own = (case ow of Some w \<Rightarrow> w | None \<Rightarrow> default_owner) in
      case (case nonempty key of Some k \<Rightarrow> dict_get (idempotency e) (idempotency_index own k) | None \<Rightarrow> None) of
        Some idem \<Rightarrow> (case dict_get (workloads e) idem of
            Some w \<Rightarrow> (Inr w, e) | None \<Rightarrow> (Inl (Exc PyKeyError idem), e))
      | None \<Rightarrow>
      (case select_runtime_name sp e of Inl x \<Rightarrow> (Inl x, e) | Inr nm \<Rightarrow>
      (case resolve_runtime nm e of (Inl x, e1) \<Rightarrow> (Inl x, e1) | (Inr rt, e1) \<Rightarrow>
       if \<not> rt_enabled rt (world e1)
       then (Inl (Exc WorkloadPolicyError (''Runtime '' @ quoted nm
              @ '' is disabled (host runtime requires workload_host_enabled / PALM_WORKLOAD_HOST_ENABLED)'')), e1)
       else case enforce_isolation_policy sp rt of Inl x \<Rightarrow> (Inl x, e1) | Inr _ \<Rightarrow>
       let i = (case nonempty wid of Some s \<Rightarrow> s | None \<Rightarrow> generated) in
       if dict_has (workloads e1) i
       then (Inl (Exc WorkloadStateError (''Workload id '' @ quoted i @ '' already exists'')), e1)
       else
         let w = \<lparr>wl_id = i, wl_spec = sp, wl_status = W_PENDING, wl_runtime = nm, wl_owner = own, wl_handle = None,
                 wl_result_of = None, wl_host_id = (case nonempty host of Some h \<Rightarrow> Some h | None \<Rightarrow> pl_host_id (sp_placement sp)),
                 wl_message = None, wl_created_at = wl_now e1, wl_updated_at = wl_now e1, wl_idem_key = key, wl_meta = [],
                 wl_leak = False\<rparr>;
             e2 = put_wl w e1;
             e3 = (case nonempty key of
                     Some k \<Rightarrow> e2\<lparr>idempotency := dict_set (idempotency_index own k) i (idempotency e2)\<rparr>
                   | None \<Rightarrow> e2)
         in case wl_transition (wl_now e3) W_STARTING None w of
              Inl x \<Rightarrow> (Inl x, e3)
            | Inr w1 \<Rightarrow>
               let e4 = wl_emit EVENT_STARTED w1 (put_wl w1 e3) in
               (case rt_start rt i sp own (world e4) of
                  (Inl x, wo) \<Rightarrow> fail_wl x w1 (e4\<lparr>world := wo\<rparr>)
                | (Inr oc, wo) \<Rightarrow> apply_start_outcome oc w1 (e4\<lparr>world := wo\<rparr>)))))"

definition adopt :: "string \<Rightarrow> handle option \<Rightarrow> owner option \<Rightarrow> ('w, workload) wl_eff" where
  "adopt wid h ow e =
     (if \<not> wl_on e then (Inl not_ready, e)
      else let i = py_strip wid in
      if i = [] then (Inl (Exc WorkloadSpecError ''adopt requires a non-empty workload id''), e)
      else case h of
        None \<Rightarrow> (Inl (Exc WorkloadSpecError ''adopt requires a handle''), e)
      | Some hdl \<Rightarrow>
         (let url = py_strip (case hd_base_url hdl of Some u \<Rightarrow> u | None \<Rightarrow> []) in
          if url = [] then (Inl (Exc WorkloadSpecError ''adopt requires handle.base_url''), e)
          else
            let bound = \<lparr>hd_workload_id = i, hd_base_url = Some url, hd_endpoints = hd_endpoints hdl, hd_hints = hd_hints hdl\<rparr>;
                own = (case ow of Some w \<Rightarrow> w
                       | None \<Rightarrow> default_owner\<lparr>ow_created := False, ow_lease_id := Some i\<rparr>)
            in case dict_get (workloads e) i of
                 Some w \<Rightarrow>
                   if wl_runtime w \<noteq> [] \<or> wl_terminal (wl_status w)
                   then (Inl (Exc WorkloadStateError (''Workload id '' @ quoted i @ '' already exists'')), e)
                   else let w1 = touch (wl_now e) (w\<lparr>wl_handle := Some bound, wl_owner := own\<rparr>) in (Inr w1, put_wl w1 e)
               | None \<Rightarrow>
                   let sp = \<lparr>sp_kind = K_SERVICE, sp_isolation = I_BEST_EFFORT, sp_lifecycle = L_LEASE, sp_command = [],
                        sp_image = None, sp_image_ref = None, sp_workdir = None, sp_seed = None, sp_env = [], sp_secrets_ref = None,
                        sp_ports = [], sp_health = None, sp_timeout = None, sp_resources = [],
                        sp_labels = [(''structure_place'', i)], sp_placement = empty_placement, sp_mesh = None, sp_version = 1\<rparr>;
                       w = \<lparr>wl_id = i, wl_spec = sp, wl_status = W_READY, wl_runtime = [], wl_owner = own, wl_handle = Some bound,
                        wl_result_of = None, wl_host_id = None, wl_message = None, wl_created_at = wl_now e, wl_updated_at = wl_now e,
                        wl_idem_key = None, wl_meta = [], wl_leak = False\<rparr>
                   in (Inr w, wl_emit EVENT_READY w (put_wl w e))))"

datatype command = Argv "string list" | ShellString string

definition wl_exec :: "string \<Rightarrow> command \<Rightarrow> rat option \<Rightarrow> (string, string) dict option \<Rightarrow> ('w, wl_result) wl_eff" where
  "wl_exec i cmd timeout env e =
     (if \<not> wl_on e then (Inl not_ready, e)
      else if cmd \<in> {Argv [], ShellString []} then (Inl (Exc WorkloadStateError ''exec requires a non-empty argv command''), e)
      else case cmd of
        ShellString _ \<Rightarrow> (Inl (Exc WorkloadStateError ''command must be an argv list, not a shell string''), e)
      | Argv args \<Rightarrow>
      (case wl_require i e of Inl x \<Rightarrow> (Inl x, e) | Inr w \<Rightarrow>
       if \<not> is_exec_allowed (wl_status w)
       then (Inl (Exc WorkloadStateError (''exec only allowed when READY (current='' @ wl_status_value (wl_status w) @ '')'')), e)
       else if sp_kind (wl_spec w) = K_RUN then (Inl (Exc WorkloadStateError ''exec is not valid on kind=run workloads''), e)
       else if wl_runtime w = [] then (Inl (Exc WorkloadStateError ''exec is not valid on a workload with no runtime''), e)
       else
       (case resolve_runtime (wl_runtime w) e of (Inl x, e1) \<Rightarrow> (Inl x, e1) | (Inr rt, e1) \<Rightarrow>
       (case wl_transition (wl_now e1) W_RUNNING None w of Inl x \<Rightarrow> (Inl x, e1) | Inr w1 \<Rightarrow>
       (case rt_exec rt i args timeout env (world e1) of
          (Inl x, wo) \<Rightarrow> (case fail_wl x w1 (put_wl w1 (e1\<lparr>world := wo\<rparr>)) of
              (Inl y, e2) \<Rightarrow> (Inl y, e2)
            | (Inr w2, e2) \<Rightarrow> (Inr (the (wl_result_of w2)), e2))
        | (Inr res, wo) \<Rightarrow>
            (let w2 = w1\<lparr>wl_result_of := Some res\<rparr>; e2 = put_wl w2 (e1\<lparr>world := wo\<rparr>) in
             case (if rs_success res then wl_transition (wl_now e2) (wl_status w) None w2
                   else wl_transition (wl_now e2) W_READY (rs_error res) w2) of
               Inl y \<Rightarrow> (Inl y, e2)
             | Inr w3 \<Rightarrow> (Inr res, put_wl w3 e2)))))))"

definition status_of :: "string \<Rightarrow> bool \<Rightarrow> ('w, workload) wl_eff" where
  "status_of i refresh e =
     (if \<not> wl_on e then (Inl not_ready, e)
      else case wl_require i e of Inl x \<Rightarrow> (Inl x, e) | Inr w \<Rightarrow>
        if refresh \<and> \<not> wl_terminal (wl_status w) \<and> wl_runtime w \<noteq> []
        then (case resolve_runtime (wl_runtime w) e of (Inl x, e1) \<Rightarrow> (Inl x, e1) | (Inr rt, e1) \<Rightarrow>
               (case rt_poll rt i (world e1) of
                  (Inl x, wo) \<Rightarrow> fail_wl x w (e1\<lparr>world := wo\<rparr>)
                | (Inr oc, wo) \<Rightarrow> apply_poll_outcome oc w (e1\<lparr>world := wo\<rparr>)))
        else (Inr w, e))"

definition stop_unlocked :: "string \<Rightarrow> ('w, workload) wl_eff" where
  "stop_unlocked i e =
     (case wl_require i e of Inl x \<Rightarrow> (Inl x, e) | Inr w \<Rightarrow>
      if wl_terminal (wl_status w) then (Inr w, e)
      else case wl_transition (wl_now e) W_STOPPING None w of Inl x \<Rightarrow> (Inl x, e) | Inr w1 \<Rightarrow>
      let e1 = put_wl w1 e in
      if wl_runtime w1 = []
      then (case wl_transition (wl_now e1) W_STOPPED (Some ''unbound'') w1 of Inl x \<Rightarrow> (Inl x, e1)
            | Inr w2 \<Rightarrow> (Inr w2, wl_emit EVENT_STOPPED w2 (put_wl w2 e1)))
      else (case resolve_runtime (wl_runtime w1) e1 of (Inl x, e2) \<Rightarrow> (Inl x, e2) | (Inr rt, e2) \<Rightarrow>
        (case rt_stop rt i (world e2) of
           (Inl x, wo) \<Rightarrow> fail_wl x (w1\<lparr>wl_leak := True\<rparr>) (e2\<lparr>world := wo\<rparr>)
         | (Inr oc, wo) \<Rightarrow>
            (let e3 = e2\<lparr>world := wo\<rparr>;
                 w2 = (if so_leaked oc then w1\<lparr>wl_leak := True\<rparr> else w1);
                 w3 = (case so_result oc of Some x \<Rightarrow> w2\<lparr>wl_result_of := Some x\<rparr> | None \<Rightarrow> w2);
                 w4 = w3\<lparr>wl_meta := dict_update (wl_meta w3) (so_meta oc)\<rparr>;
                 target = (if so_status oc \<in> {W_STOPPED, W_FAILED} then so_status oc else W_STOPPED)
             in case wl_transition (wl_now e3) target (so_message oc) w4 of
                  Inl x \<Rightarrow> (Inl x, put_wl w4 e3)
                | Inr w5 \<Rightarrow> (Inr w5, wl_emit (if wl_status w5 = W_FAILED then EVENT_FAILED else EVENT_STOPPED) w5 (put_wl w5 e3))))))"

definition wl_stop :: "string \<Rightarrow> ('w, workload) wl_eff" where
  "wl_stop i e = (if \<not> wl_on e then (Inl not_ready, e) else stop_unlocked i e)"

definition wl_get :: "string \<Rightarrow> 'w wl_engine \<Rightarrow> workload result" where
  "wl_get i e = (if \<not> wl_on e then Inl not_ready else wl_require i e)"

definition wl_list :: "string option \<Rightarrow> string option \<Rightarrow> string option \<Rightarrow> workload_status option \<Rightarrow> string option
    \<Rightarrow> 'w wl_engine \<Rightarrow> workload list result" where
  "wl_list job inst sess st rt e =
     (if \<not> wl_on e then Inl not_ready
      else Inr (filter (\<lambda>w. (st = None \<or> st = Some (wl_status w)) \<and> (rt = None \<or> rt = Some (wl_runtime w))
             \<and> (if job \<noteq> None \<or> inst \<noteq> None \<or> sess \<noteq> None then owner_matches job inst None sess (wl_owner w) else True))
           (map snd (workloads e))))"

fun stop_all :: "string list \<Rightarrow> ('w, workload list) wl_eff" where
  "stop_all [] e = (Inr [], e)"
| "stop_all (i # is) e = (case stop_unlocked i e of
     (Inl x, e1) \<Rightarrow> (Inl x, e1)
   | (Inr w, e1) \<Rightarrow> (case stop_all is e1 of (Inl x, e2) \<Rightarrow> (Inl x, e2) | (Inr ws, e2) \<Rightarrow> (Inr (w # ws), e2)))"

definition stop_owned :: "string option \<Rightarrow> string option \<Rightarrow> string option \<Rightarrow> ('w, workload list) wl_eff" where
  "stop_owned job inst sess e =
     (if \<not> wl_on e then (Inl not_ready, e)
      else stop_all (map wl_id (filter (\<lambda>w. \<not> wl_terminal (wl_status w) \<and> owner_matches job inst None sess (wl_owner w))
             (map snd (workloads e)))) e)"

text \<open>\<open>_do_shutdown\<close>: every live workload is stopped best-effort, then everything is forgotten.\<close>

definition wl_shutdown :: "'w wl_engine \<Rightarrow> 'w wl_engine" where
  "wl_shutdown e =
     (if \<not> wl_on e then e
      else let e1 = fold (\<lambda>(i, w) e. if \<not> wl_terminal (wl_status w) then snd (stop_unlocked i e) else e) (workloads e) e
      in e1\<lparr>workloads := [], idempotency := [], wl_runtimes := [], publishing := False, runtime_factory := None, wl_on := False\<rparr>)"

definition runtime_row :: "'w wl_engine \<Rightarrow> string \<Rightarrow> 'w runtime \<Rightarrow> pydict" where
  "runtime_row e nm rt = (case rt_health rt (world e) of
     Inl x \<Rightarrow> [(''name'', VStr nm), (''error'', VStr (exc_msg x))]
   | Inr h \<Rightarrow> [(''name'', VStr nm), (''bound'', VBool True), (''enabled'', VBool (rt_enabled rt (world e))),
       (''isolation_modes'', VList (map VStr (sort (remdups (map isolation_value (cap_isolation (rt_caps rt))))))),
       (''kinds'', VList (map VStr (sort (remdups (cap_kinds (rt_caps rt)))))),
       (''default_enabled'', VBool (cap_default_enabled (rt_caps rt))), (''trust'', VStr (cap_trust (rt_caps rt))),
       (''description'', VStr (cap_description (rt_caps rt))), (''health'', VDict (health_to_dict h))])"

definition runtimes_view :: "'w wl_engine \<Rightarrow> pydict list" where
  "runtimes_view e = map (\<lambda>nm. runtime_row e nm (the (dict_get (wl_runtimes e) nm))) (sort (dict_keys (wl_runtimes e)))"

definition row_issues :: "(pyval \<Rightarrow> string) \<Rightarrow> pydict \<Rightarrow> string list" where
  "row_issues r row =
     (if truthy (py_get row ''error'') then [''runtime '' @ py_str r (py_get row ''name'') @ '': '' @ py_str r (py_get row ''error'')]
      else
        let health = (case py_get row ''health'' of VDict h \<Rightarrow> h | _ \<Rightarrow> []);
            msg = py_get health ''message''
        in (if truthy (py_get row ''enabled'') \<and> \<not> truthy (py_get health ''available'')
            then [''runtime '' @ quoted (py_str r (py_get row ''name'')) @ '' is enabled but unavailable: ''
                  @ py_str r (py_or msg (VStr ''unknown''))] else [])
         @ (if py_get row ''name'' = VStr ''host'' \<and> truthy (py_get row ''enabled'')
            then [''host WorkloadRuntime is ENABLED - not multi-tenant safe (PALM_WORKLOAD_HOST_ENABLED)''] else []))"

definition doctor :: "(pyval \<Rightarrow> string) \<Rightarrow> 'w wl_engine \<Rightarrow> pydict" where
  "doctor r e =
     (if \<not> wl_on e
      then [(''engine_initialized'', VBool False), (''active_workloads'', VInt 0), (''runtimes'', VList []),
            (''issues'', VList [VStr ''WorkloadEngine is not initialized''])]
      else
        let rows = runtimes_view e;
            issues = concat (map (row_issues r) rows)
              @ (if list_ex (\<lambda>row. \<not> truthy (py_get row ''error'') \<and> truthy (py_get row ''enabled'')) rows then []
                 else [''no WorkloadRuntime is enabled'']);
            active = length (filter (\<lambda>(i, w). \<not> wl_terminal (wl_status w)) (workloads e))
        in [(''engine_initialized'', VBool True), (''default_runtime'', opt_str_val (default_runtime e)),
            (''active_workloads'', VInt (int active)), (''tracked_workloads'', VInt (int (length (workloads e)))),
            (''runtimes'', VList (map VDict rows)), (''issues'', VList (map VStr issues)),
            (''note'', VStr (''local = always-on Palm process runner; host = opt-in unsafe; ''
               @ ''neonroot = hermetic external CLI''))])"

end
