(* ===== verification/WorkloadSafety.thy ===== *)
theory WorkloadSafety
  imports WorkloadEngine
begin

text \<open>
  The properties of the workload engine: every operation, with every behaviour of the runtimes,
  moves the stored workloads along the status machine and never touches a terminal one; stopping and
  starting with a key are idempotent; policy decides before the runtime is called.
\<close>

definition wl_evolves :: "workload \<Rightarrow> workload \<Rightarrow> bool" where
  "wl_evolves w w' \<longleftrightarrow> wl_id w' = wl_id w \<and> wl_spec w' = wl_spec w \<and> wl_runtime w' = wl_runtime w
     \<and> can_transition\<^sup>*\<^sup>* (wl_status w) (wl_status w') \<and> (wl_terminal (wl_status w) \<longrightarrow> w' = w)"

definition wl_wf :: "'w wl_engine \<Rightarrow> bool" where
  "wl_wf e \<longleftrightarrow> dict_wf (workloads e)
     \<and> (\<forall>i w. dict_get (workloads e) i = Some w \<longrightarrow> wl_id w = i \<and> wl_status w \<noteq> W_PENDING)
     \<and> (\<forall>k i. dict_get (idempotency e) k = Some i \<longrightarrow> dict_has (workloads e) i)"

lemma wl_wf_id: "wl_wf e \<Longrightarrow> dict_get (workloads e) i = Some w \<Longrightarrow> wl_id w = i"
  by (simp add: wl_wf_def)

text \<open>What a step keeps: the invariant, every workload, its legal history.\<close>

definition keeps :: "'w wl_engine \<Rightarrow> 'w wl_engine \<Rightarrow> bool" where
  "keeps e e' \<longleftrightarrow> (wl_wf e \<longrightarrow> wl_wf e')
     \<and> (\<forall>i w. dict_get (workloads e) i = Some w \<longrightarrow> (\<exists>w'. dict_get (workloads e') i = Some w' \<and> wl_evolves w w'))
     \<and> (\<forall>k i. dict_get (idempotency e) k = Some i \<longrightarrow> dict_get (idempotency e') k = Some i)"

lemma wl_evolves_refl [simp, intro]: "wl_evolves w w"
  by (simp add: wl_evolves_def)

lemma wl_evolves_trans: "wl_evolves u v \<Longrightarrow> wl_evolves v w \<Longrightarrow> wl_evolves u w"
  unfolding wl_evolves_def by (metis rtranclp_trans)

lemma keeps_refl [simp, intro]: "keeps e e"
  by (auto simp: keeps_def)

lemma keeps_trans: "keeps e e' \<Longrightarrow> keeps e' e'' \<Longrightarrow> keeps e e''"
  unfolding keeps_def by (meson wl_evolves_trans)

lemma keeps_same: "workloads e' = workloads e \<Longrightarrow> idempotency e' = idempotency e \<Longrightarrow> keeps e e'"
  by (auto simp: keeps_def wl_wf_def)

lemma emit_frame [simp]: "workloads (wl_emit t w e) = workloads e" "idempotency (wl_emit t w e) = idempotency e"
  by (simp_all add: wl_emit_def Let_def)

lemma put_frame [simp]: "workloads (put_wl w e) = dict_set (wl_id w) w (workloads e)" "idempotency (put_wl w e) = idempotency e"
  by (simp_all add: put_wl_def)

lemma keeps_put:
  assumes "dict_get (workloads e) (wl_id w) = Some w0" and "wl_evolves w0 w" and "wl_status w \<noteq> W_PENDING"
  shows "keeps e (put_wl w e)"
  using assms by (auto simp: keeps_def wl_wf_def dict_has_def)

text \<open>A transition is a legal step, or it changes nothing but the message and the stamp.\<close>

lemma transition_ok:
  assumes "wl_transition now next msg w = Inr w'" and "\<not> wl_terminal (wl_status w)"
  shows "wl_evolves w w' \<and> wl_status w' = next"
  using assms by (auto simp: wl_transition_def Let_def touch_def wl_evolves_def split: if_splits option.splits)

lemma transition_frame_wl: "wl_transition now next msg w = Inr w' \<Longrightarrow> wl_id w' = wl_id w"
  by (auto simp: wl_transition_def Let_def touch_def split: if_splits option.splits)

lemma transition_ex: "can_transition (wl_status w) next \<or> wl_status w = next \<Longrightarrow> \<exists>w'. wl_transition now next msg w = Inr w'"
  by (auto simp: wl_transition_def Let_def)

lemma live_steps: "\<not> wl_terminal s \<Longrightarrow> can_transition s W_FAILED"
  "\<not> wl_terminal s \<Longrightarrow> s \<noteq> W_PENDING \<Longrightarrow> can_transition s W_STOPPED"
  "\<not> wl_terminal s \<Longrightarrow> s \<noteq> W_PENDING \<Longrightarrow> can_transition s W_STOPPING"
  by (cases s; simp add: can_transition_def wl_terminal_def)+

lemma no_way_back: "can_transition s W_PENDING \<Longrightarrow> s = W_PENDING"
  by (cases s) (auto simp: can_transition_def)

lemma same_status_evolves:
  "wl_id w' = wl_id w \<Longrightarrow> wl_spec w' = wl_spec w \<Longrightarrow> wl_runtime w' = wl_runtime w \<Longrightarrow> wl_status w' = wl_status w \<Longrightarrow>
    \<not> wl_terminal (wl_status w) \<Longrightarrow> wl_evolves w w'"
  by (simp add: wl_evolves_def)

text \<open>The stored form of a workload \<open>w\<close> in hand: an earlier state of it, not terminal.\<close>

definition in_hand :: "workload \<Rightarrow> 'w wl_engine \<Rightarrow> bool" where
  "in_hand w e \<longleftrightarrow> (\<exists>w0. dict_get (workloads e) (wl_id w) = Some w0 \<and> wl_evolves w0 w)
     \<and> \<not> wl_terminal (wl_status w) \<and> wl_status w \<noteq> W_PENDING"

lemma in_hand_put: "in_hand w e \<Longrightarrow> keeps e (put_wl w e)"
  by (auto simp: in_hand_def intro: keeps_put)

lemma in_hand_next:
  assumes "in_hand w e" and "wl_evolves w w'" and "wl_status w' \<noteq> W_PENDING"
  shows "keeps e (put_wl w' e)"
proof -
  obtain w0 where g: "dict_get (workloads e) (wl_id w) = Some w0" and v: "wl_evolves w0 w" using assms(1) by (auto simp: in_hand_def)
  have "wl_id w' = wl_id w" using assms(2) by (simp add: wl_evolves_def)
  then show ?thesis using g wl_evolves_trans [OF v assms(2)] assms(3) by (intro keeps_put) simp_all
qed

lemma keeps_emit: "keeps e e' \<Longrightarrow> keeps e (wl_emit t w e')"
  using keeps_trans keeps_same by (metis emit_frame)

lemma fail_keeps: "in_hand w e \<Longrightarrow> keeps e (snd (fail_wl x w e)) \<and> (\<exists>w'. fst (fail_wl x w e) = Inr w' \<and> wl_status w' = W_FAILED
     \<and> dict_get (workloads (snd (fail_wl x w e))) (wl_id w) = Some w')"
proof -
  assume h: "in_hand w e"
  then have live: "\<not> wl_terminal (wl_status w)" by (simp add: in_hand_def)
  then obtain w1 where t: "wl_transition (wl_now e) W_FAILED (Some (exc_msg x)) w = Inr w1"
    using transition_ex live_steps(1) by blast
  let ?w2 = "w1\<lparr>wl_result_of := Some (result_fail (exc_msg x) 1 [] [] [(''runtime'', VStr (wl_runtime w))])\<rparr>"
  have "wl_evolves w ?w2" "wl_status ?w2 = W_FAILED"
    using transition_ok [OF t live] live by (auto simp: wl_evolves_def)
  then have "keeps e (put_wl ?w2 e)" by (intro in_hand_next [OF h]) simp_all
  then show ?thesis using t transition_ok [OF t live] transition_frame_wl [OF t] by (simp add: fail_wl_def Let_def keeps_emit)
qed

lemma absorb_frame: "wl_id (absorb oc w) = wl_id w" "wl_status (absorb oc w) = wl_status w"
    "wl_spec (absorb oc w) = wl_spec w" "wl_runtime (absorb oc w) = wl_runtime w"
  by (simp_all add: absorb_def Let_def split: option.splits)

lemma in_hand_absorb: "in_hand w e \<Longrightarrow> in_hand (absorb oc w) e"
proof -
  assume h: "in_hand w e"
  then have "wl_evolves w (absorb oc w)" by (intro same_status_evolves) (simp_all add: absorb_frame in_hand_def)
  with h show ?thesis by (auto simp: in_hand_def absorb_frame intro: wl_evolves_trans)
qed

lemma announce_frame: "workloads (announce st w e) = workloads e"
  by (simp add: announce_def)

lemma settle_keeps: "in_hand w e \<Longrightarrow> keeps e (snd (settle st msg ill w e)) \<and> (\<exists>w'. fst (settle st msg ill w e) = Inr w' \<and> dict_get (workloads (snd (settle st msg ill w e))) (wl_id w) = Some w')"
proof -
  assume h: "in_hand w e"
  then have live: "\<not> wl_terminal (wl_status w)" and np: "wl_status w \<noteq> W_PENDING" by (simp_all add: in_hand_def)
  have ann: "keeps e (announce st w1 e1)" if "keeps e e1" for w1 e1
    using that by (simp add: announce_def keeps_emit)
  define target where "target = (if can_transition (wl_status w) st then st else W_FAILED)"
  obtain m where m: "m = (if can_transition (wl_status w) st then msg else Some ill)" by simp
  have "can_transition (wl_status w) target" using live_steps(1) [OF live] by (simp add: target_def)
  then obtain w1 where t: "wl_transition (wl_now e) target m w = Inr w1"
    using transition_ex by blast
  have "target \<noteq> W_PENDING" using no_way_back [of "wl_status w"] np by (auto simp: target_def split: if_splits)
  then have "keeps e (put_wl w1 e)" using transition_ok [OF t live] by (intro in_hand_next [OF h]) auto
  then show ?thesis using t transition_frame_wl [OF t] unfolding m target_def
    by (simp add: settle_def ann keeps_emit announce_frame split: if_splits)
qed

text \<open>Resolving a runtime, and what the runtimes do to their world, leaves the books alone.\<close>

lemma resolve_frame:
  assumes "resolve_runtime nm e = (r, e')"
  shows "workloads e' = workloads e" "idempotency e' = idempotency e" "wl_on e' = wl_on e" "wl_now e' = wl_now e" "world e' = world e"
    "publishing e' = publishing e"
  using assms by (auto simp: resolve_runtime_def split: option.splits sum.splits)

lemma stored_in_hand:
  "wl_wf e \<Longrightarrow> dict_get (workloads e) i = Some w \<Longrightarrow> \<not> wl_terminal (wl_status w) \<Longrightarrow> in_hand w e"
  by (auto simp: in_hand_def wl_wf_def)

lemma in_hand_same: "in_hand w e \<Longrightarrow> workloads e' = workloads e \<Longrightarrow> in_hand w e'"
  by (simp add: in_hand_def)

lemma apply_start_keeps: "in_hand w e \<Longrightarrow> keeps e (snd (apply_start_outcome oc w e)) \<and> (\<exists>w'. fst (apply_start_outcome oc w e) = Inr w' \<and> dict_get (workloads (snd (apply_start_outcome oc w e))) (wl_id w) = Some w')"
  unfolding apply_start_outcome_def by (drule in_hand_absorb, drule settle_keeps) (simp only: absorb_frame)

lemma apply_poll_keeps:
  assumes h: "in_hand w e"
  shows "keeps e (snd (apply_poll_outcome oc w e)) \<and> (\<exists>w'. fst (apply_poll_outcome oc w e) = Inr w' \<and> dict_get (workloads (snd (apply_poll_outcome oc w e))) (wl_id w) = Some w')"
proof (cases "oc_status oc = wl_status w")
  case True
  have "in_hand (absorb oc w) e" by (rule in_hand_absorb [OF h])
  then have "keeps e (put_wl (touch (wl_now e) (absorb oc w)) e)"
    by (rule in_hand_next) (auto simp: touch_def in_hand_def wl_evolves_def absorb_frame True h [unfolded in_hand_def])
  then show ?thesis using True by (simp add: apply_poll_outcome_def absorb_frame Let_def touch_def)
next
  case False
  then show ?thesis using settle_keeps [OF in_hand_absorb [OF h, of oc]] by (simp add: apply_poll_outcome_def absorb_frame Let_def)
qed

text \<open>A new workload enters the books under an unused id.\<close>

lemma keeps_fresh:
  assumes "\<not> dict_has (workloads e) (wl_id w)" and "wl_status w \<noteq> W_PENDING"
    and "dict_get (workloads e') (wl_id w) = Some w" "\<And>i. i \<noteq> wl_id w \<Longrightarrow> dict_get (workloads e') i = dict_get (workloads e) i"
    and "dict_wf (workloads e) \<Longrightarrow> dict_wf (workloads e')"
    and "idempotency e' = idempotency e \<or> (\<exists>k. \<not> dict_has (idempotency e) k \<and> idempotency e' = dict_set k (wl_id w) (idempotency e))"
  shows "keeps e e'"
proof -
  have old: "dict_get (workloads e') i = Some v" if "dict_get (workloads e) i = Some v" for i v
    using that assms(1,4) by (cases "i = wl_id w") (auto simp: dict_has_def)
  have has: "dict_has (workloads e') i" if "dict_has (workloads e) i \<or> i = wl_id w" for i
    using that old assms(3) by (auto simp: dict_has_def)
  have "wl_wf e'" if "wl_wf e"
  proof -
    have "wl_id v = i \<and> wl_status v \<noteq> W_PENDING" if g: "dict_get (workloads e') i = Some v" for i v
      using g assms(2,3) assms(4) [of i] \<open>wl_wf e\<close> by (cases "i = wl_id w") (auto simp: wl_wf_def)
    moreover have "dict_has (workloads e') i" if "dict_get (idempotency e') k = Some i" for k i
      using that assms(6) has \<open>wl_wf e\<close> by (auto simp: wl_wf_def split: if_splits)
    ultimately show ?thesis using assms(5) \<open>wl_wf e\<close> by (auto simp: wl_wf_def)
  qed
  then show ?thesis using old assms(6) by (auto simp: keeps_def dict_has_def)
qed

text \<open>
  A start refuses with the books as they were, answers from the idempotency index, or opens a
  workload in \<open>STARTING\<close> on an enabled runtime that policy admits and hands it to that runtime.
\<close>

definition opened :: "spec \<Rightarrow> owner option \<Rightarrow> string option \<Rightarrow> string \<Rightarrow> 'w runtime \<Rightarrow> workload \<Rightarrow> 'w wl_engine \<Rightarrow> 'w wl_engine \<Rightarrow> bool" where
  "opened sp ow key nm rt w e e4 \<longleftrightarrow>
     select_runtime_name sp e = Inr nm \<and> fst (resolve_runtime nm e) = Inr rt \<and> rt_enabled rt (world e)
     \<and> enforce_isolation_policy sp rt = Inr () \<and> \<not> dict_has (workloads e) (wl_id w)
     \<and> wl_status w = W_STARTING \<and> wl_spec w = sp \<and> wl_runtime w = nm
     \<and> wl_owner w = (case ow of Some x \<Rightarrow> x | None \<Rightarrow> default_owner)
     \<and> dict_get (workloads e4) (wl_id w) = Some w
     \<and> (\<forall>i. i \<noteq> wl_id w \<longrightarrow> dict_get (workloads e4) i = dict_get (workloads e) i)
     \<and> (dict_wf (workloads e) \<longrightarrow> dict_wf (workloads e4))
     \<and> (\<forall>k. nonempty key = Some k \<longrightarrow> \<not> dict_has (idempotency e) (idempotency_index (wl_owner w) k))
     \<and> idempotency e4 = (case nonempty key of Some k \<Rightarrow> dict_set (idempotency_index (wl_owner w) k) (wl_id w) (idempotency e)
         | None \<Rightarrow> idempotency e)"

lemma transition_start:
  "wl_status w = W_PENDING \<Longrightarrow> wl_transition now W_STARTING None w = Inr (touch now (w\<lparr>wl_status := W_STARTING\<rparr>))"
  by (simp add: wl_transition_def can_transition_def)

lemma start_cases:
  assumes "wl_start sp ow wid key host gen e = (r, e')"
  obtains (refused) x where "r = Inl x" "workloads e' = workloads e" "idempotency e' = idempotency e"
  | (known) k i w where "nonempty key = Some k" "dict_get (idempotency e) (idempotency_index (case ow of Some x \<Rightarrow> x | None \<Rightarrow> default_owner) k) = Some i"
      "dict_get (workloads e) i = Some w" "r = Inr w" "e' = e"
  | (fresh) nm rt w e4 where "opened sp ow key nm rt w e e4" "wl_on e"
      "(r, e') = (case rt_start rt (wl_id w) sp (wl_owner w) (world e4) of
                  (Inl x, wo) \<Rightarrow> fail_wl x w (e4\<lparr>world := wo\<rparr>)
                | (Inr oc, wo) \<Rightarrow> apply_start_outcome oc w (e4\<lparr>world := wo\<rparr>))"
proof -
  define own where "own = (case ow of Some x \<Rightarrow> x | None \<Rightarrow> default_owner)"
  define found where "found = (case nonempty key of Some k \<Rightarrow> dict_get (idempotency e) (idempotency_index own k) | None \<Rightarrow> None)"
  show thesis
  proof (cases "wl_on e \<and> found = None")
    case False
    show thesis
    proof (cases "wl_on e")
      case True
      with False obtain i where f: "found = Some i" by auto
      then obtain k where k: "nonempty key = Some k" "dict_get (idempotency e) (idempotency_index own k) = Some i"
        by (auto simp: found_def split: option.splits)
      have "(r, e') = (case dict_get (workloads e) i of Some w \<Rightarrow> (Inr w, e) | None \<Rightarrow> (Inl (Exc PyKeyError i), e))"
        using True f assms by (simp add: wl_start_def Let_def own_def [symmetric] found_def [symmetric])
      then show thesis using refused known k unfolding own_def by (cases "dict_get (workloads e) i") auto
    qed (use assms refused in \<open>auto simp: wl_start_def\<close>)
  next
    case on: True
    show thesis
    proof (cases "select_runtime_name sp e")
      case (Inl x)
      then show thesis using on assms
        by (auto simp: wl_start_def Let_def own_def [symmetric] found_def [symmetric] intro: refused)
    next
      case sel: (Inr nm)
      obtain y e1 where res: "resolve_runtime nm e = (y, e1)" by fastforce
      note start = on sel res assms resolve_frame [OF res] and rules = wl_start_def Let_def own_def [symmetric] found_def [symmetric]
      show thesis
      proof (cases "\<exists>rt. y = Inr rt \<and> rt_enabled rt (world e1) \<and> enforce_isolation_policy sp rt = Inr ()")
        case False
        show thesis
        proof (cases y)
          case (Inl x)
          then show thesis using start by (auto simp: rules intro: refused)
        next
          case (Inr rt)
          then show thesis using start False by (cases "enforce_isolation_policy sp rt") (auto simp: rules intro: refused split: if_splits)
        qed
      next
        case True
        then obtain rt where ok: "select_runtime_name sp e = Inr nm" "resolve_runtime nm e = (Inr rt, e1)" "rt_enabled rt (world e1)"
          "enforce_isolation_policy sp rt = Inr ()" using sel res by blast
      define i where "i = (case nonempty wid of Some s \<Rightarrow> s | None \<Rightarrow> gen)"
      show thesis
      proof (cases "dict_has (workloads e1) i")
        case True
        then show thesis using on ok assms resolve_frame [OF ok(2)]
          by (auto simp: wl_start_def Let_def own_def [symmetric] found_def [symmetric] i_def [symmetric] intro: refused)
      next
        case False
        define w0 where "w0 = \<lparr>wl_id = i, wl_spec = sp, wl_status = W_PENDING, wl_runtime = nm, wl_owner = own, wl_handle = None,
                 wl_result_of = None, wl_host_id = (case nonempty host of Some h \<Rightarrow> Some h | None \<Rightarrow> pl_host_id (sp_placement sp)),
                 wl_message = None, wl_created_at = wl_now e1, wl_updated_at = wl_now e1, wl_idem_key = key, wl_meta = [],
                 wl_leak = False\<rparr>"
        define e2 where "e2 = put_wl w0 e1"
        define e3 where "e3 = (case nonempty key of
                     Some k \<Rightarrow> e2\<lparr>idempotency := dict_set (idempotency_index own k) i (idempotency e2)\<rparr>
                   | None \<Rightarrow> e2)"
        define w where "w = touch (wl_now e3) (w0\<lparr>wl_status := W_STARTING\<rparr>)"
        define e4 where "e4 = wl_emit EVENT_STARTED w (put_wl w e3)"
        have t: "wl_transition (wl_now e3) W_STARTING None w0 = Inr w"
          unfolding w_def by (rule transition_start) (simp add: w0_def)
        have f: "wl_id w = i" "wl_owner w = own" "wl_spec w = sp" "wl_runtime w = nm" "wl_status w = W_STARTING" "wl_id w0 = i"
          by (simp_all add: w_def w0_def touch_def)
        have "\<forall>k. nonempty key = Some k \<longrightarrow> \<not> dict_has (idempotency e) (idempotency_index own k)"
          using on by (auto simp: found_def dict_has_def)
        then have "opened sp ow key nm rt w e e4"
          unfolding opened_def using ok False resolve_frame [OF ok(2)]
          by (auto simp: f e4_def e3_def e2_def own_def split: option.splits)
        moreover have "(r, e') =
           (let e2 = put_wl w0 e1;
                e3 = (case nonempty key of
                     Some k \<Rightarrow> e2\<lparr>idempotency := dict_set (idempotency_index own k) i (idempotency e2)\<rparr>
                   | None \<Rightarrow> e2)
            in case wl_transition (wl_now e3) W_STARTING None w0 of
                 Inl x \<Rightarrow> (Inl x, e3)
               | Inr w1 \<Rightarrow>
                  let e4 = wl_emit EVENT_STARTED w1 (put_wl w1 e3) in
                  (case rt_start rt i sp own (world e4) of
                     (Inl x, wo) \<Rightarrow> fail_wl x w1 (e4\<lparr>world := wo\<rparr>)
                   | (Inr oc, wo) \<Rightarrow> apply_start_outcome oc w1 (e4\<lparr>world := wo\<rparr>)))"
          using on ok False assms
          by (simp add: wl_start_def Let_def own_def [symmetric] found_def [symmetric] i_def [symmetric] w0_def [symmetric])
        then have "(r, e') = (case rt_start rt (wl_id w) sp (wl_owner w) (world e4) of
                  (Inl x, wo) \<Rightarrow> fail_wl x w (e4\<lparr>world := wo\<rparr>)
                | (Inr oc, wo) \<Rightarrow> apply_start_outcome oc w (e4\<lparr>world := wo\<rparr>))"
          unfolding Let_def e2_def [symmetric] e3_def [symmetric] t sum.case e4_def [symmetric] f .
        ultimately show thesis using on fresh by blast
      qed
      qed
    qed
  qed
qed

lemma opened_keeps:
  assumes "opened sp ow key nm rt w e e4"
  shows "keeps e e4" and "in_hand w e4"
proof -
  note o = assms [unfolded opened_def]
  have "idempotency e4 = idempotency e \<or> (\<exists>k. \<not> dict_has (idempotency e) k \<and> idempotency e4 = dict_set k (wl_id w) (idempotency e))"
    using o by (auto split: option.splits)
  then show "keeps e e4" using o by (intro keeps_fresh [of e w]) auto
  show "in_hand w e4" using o by (auto simp: in_hand_def wl_terminal_def)
qed

lemma reply_keeps:
  assumes "keeps e e1" and "in_hand w e1" and "(r, e') = (case q of (Inl x, wo) \<Rightarrow> fail_wl x w (e1\<lparr>world := wo\<rparr>)
      | (Inr oc, wo) \<Rightarrow> apply_outcome oc w (e1\<lparr>world := wo\<rparr>))"
    and "apply_outcome = apply_start_outcome \<or> apply_outcome = apply_poll_outcome"
  shows "keeps e e' \<and> (\<exists>w'. r = Inr w' \<and> dict_get (workloads e') (wl_id w) = Some w')"
proof -
  obtain y wo where q: "q = (y, wo)" by fastforce
  have h: "in_hand w (e1\<lparr>world := wo\<rparr>)" by (rule in_hand_same [OF assms(2)]) simp
  have k: "keeps e (e1\<lparr>world := wo\<rparr>)" by (rule keeps_trans [OF assms(1) keeps_same]) simp_all
  show ?thesis
  proof (cases y)
    case (Inl x)
    then have "(r, e') = fail_wl x w (e1\<lparr>world := wo\<rparr>)" using assms(3) q by simp
    then show ?thesis using fail_keeps [OF h, of x] keeps_trans [OF k] by (metis fst_conv snd_conv)
  next
    case (Inr oc)
    then have "(r, e') = apply_outcome oc w (e1\<lparr>world := wo\<rparr>)" using assms(3) q by simp
    then show ?thesis using apply_start_keeps [OF h, of oc] apply_poll_keeps [OF h, of oc] keeps_trans [OF k] assms(4)
      by (metis fst_conv snd_conv)
  qed
qed

lemma start_keeps: "keeps e (snd (wl_start sp ow wid key host gen e))"
proof -
  obtain r e' where s: "wl_start sp ow wid key host gen e = (r, e')" by fastforce
  then have "keeps e e'"
  proof (cases rule: start_cases)
    case (fresh nm rt w e4)
    then show ?thesis using reply_keeps [where apply_outcome = apply_start_outcome, OF opened_keeps [OF fresh(1)] fresh(3)] by simp
  qed (auto intro: keeps_same)
  then show ?thesis using s by simp
qed

lemma status_keeps: "wl_wf e \<Longrightarrow> keeps e (snd (status_of i refresh e))"
proof -
  assume wf: "wl_wf e"
  show ?thesis
  proof (cases "\<exists>w rt e1. wl_on e \<and> dict_get (workloads e) i = Some w \<and> refresh \<and> \<not> wl_terminal (wl_status w) \<and> wl_runtime w \<noteq> []
      \<and> resolve_runtime (wl_runtime w) e = (Inr rt, e1)")
    case True
    then obtain w rt e1 where c: "wl_on e" "dict_get (workloads e) i = Some w" "refresh" "\<not> wl_terminal (wl_status w)" "wl_runtime w \<noteq> []"
      "resolve_runtime (wl_runtime w) e = (Inr rt, e1)" by blast
    obtain r e' where q: "status_of i refresh e = (r, e')" by fastforce
    then have "(r, e') = (case rt_poll rt i (world e1) of (Inl x, wo) \<Rightarrow> fail_wl x w (e1\<lparr>world := wo\<rparr>)
        | (Inr oc, wo) \<Rightarrow> apply_poll_outcome oc w (e1\<lparr>world := wo\<rparr>))"
      using c by (simp add: status_of_def wl_require_def)
    moreover have "keeps e e1" "in_hand w e1"
      using resolve_frame [OF c(6)] stored_in_hand [OF wf c(2,4)] by (auto intro: keeps_same in_hand_same)
    ultimately have "keeps e e'" using reply_keeps [where apply_outcome = apply_poll_outcome, of e e1 w r e'] by blast
    then show ?thesis using q by simp
  next
    case False
    show ?thesis
    proof (cases "dict_get (workloads e) i")
      case (Some w)
      obtain y e1 where q: "resolve_runtime (wl_runtime w) e = (y, e1)" by fastforce
      then show ?thesis using False Some resolve_frame [OF q]
        by (cases y) (auto simp: status_of_def wl_require_def intro: keeps_same)
    qed (simp add: status_of_def wl_require_def)
  qed
qed

lemma put_in_hand:
  assumes "in_hand w e" "wl_evolves w w'" "\<not> wl_terminal (wl_status w')" "wl_status w' \<noteq> W_PENDING"
  shows "in_hand w' (put_wl w' e)"
  using assms by (auto simp: in_hand_def)

text \<open>One legal step of a workload in hand, written back.\<close>

lemma step_keeps:
  assumes h: "in_hand w e" and t: "wl_transition now next msg w = Inr w'" and n: "next \<noteq> W_PENDING"
  shows "keeps e (put_wl w' e)" and "\<not> wl_terminal next \<Longrightarrow> in_hand w' (put_wl w' e)"
  using transition_ok [OF t] h n in_hand_next [OF h, of w'] put_in_hand [OF h, of w'] by (auto simp: in_hand_def)

lemma evolve_in_hand:
  assumes "in_hand w e" "wl_id w' = wl_id w" "wl_spec w' = wl_spec w" "wl_runtime w' = wl_runtime w" "wl_status w' = wl_status w"
  shows "in_hand w' e"
proof -
  have "wl_evolves w w'" using assms by (intro same_status_evolves) (simp_all add: in_hand_def)
  with assms show ?thesis by (auto simp: in_hand_def intro: wl_evolves_trans)
qed

lemma stop_stopping:
  assumes wf: "wl_wf e" and g: "dict_get (workloads e) i = Some w" and l: "\<not> wl_terminal (wl_status w)"
  obtains w1 where "wl_transition (wl_now e) W_STOPPING None w = Inr w1" "keeps e (put_wl w1 e)" "in_hand w1 (put_wl w1 e)"
    "wl_runtime w1 = wl_runtime w" "wl_status w1 = W_STOPPING" "wl_id w1 = i"
proof -
  have h: "in_hand w e" by (rule stored_in_hand [OF assms])
  then have "can_transition (wl_status w) W_STOPPING" using live_steps(3) [OF l] by (simp add: in_hand_def)
  then obtain w1 where t: "wl_transition (wl_now e) W_STOPPING None w = Inr w1" using transition_ex by blast
  have "wl_id w1 = i" using wf g transition_frame_wl [OF t] by (simp add: wl_wf_def)
  then show thesis using that [OF t] step_keeps [OF h t] transition_ok [OF t l] by (auto simp: wl_evolves_def wl_terminal_def)
qed

text \<open>The last step of a stop: to \<open>STOPPED\<close> or \<open>FAILED\<close>.\<close>

lemma stop_last:
  assumes h: "in_hand w e" and s: "wl_status w = W_STOPPING" and t: "target = W_STOPPED \<or> target = W_FAILED"
  obtains w' where "wl_transition now target msg w = Inr w'" "keeps e (put_wl w' e)" "wl_status w' = target" "wl_id w' = wl_id w"
proof -
  have "can_transition (wl_status w) target" using s t by (auto simp: can_transition_def)
  then obtain w' where w: "wl_transition now target msg w = Inr w'" using transition_ex by blast
  show thesis using that [OF w] step_keeps(1) [OF h w] transition_ok [OF w] transition_frame_wl [OF w] h t by (auto simp: in_hand_def)
qed

text \<open>What a stop does with the runtime's answer.\<close>

definition stop_reply :: "stop_outcome \<Rightarrow> workload \<Rightarrow> ('w, workload) wl_eff" where
  "stop_reply oc w1 e3 =
     (let w2 = (if so_leaked oc then w1\<lparr>wl_leak := True\<rparr> else w1);
          w3 = (case so_result oc of Some x \<Rightarrow> w2\<lparr>wl_result_of := Some x\<rparr> | None \<Rightarrow> w2);
          w4 = w3\<lparr>wl_meta := dict_update (wl_meta w3) (so_meta oc)\<rparr>;
          target = (if so_status oc \<in> {W_STOPPED, W_FAILED} then so_status oc else W_STOPPED)
      in case wl_transition (wl_now e3) target (so_message oc) w4 of
           Inl x \<Rightarrow> (Inl x, put_wl w4 e3)
         | Inr w5 \<Rightarrow> (Inr w5, wl_emit (if wl_status w5 = W_FAILED then EVENT_FAILED else EVENT_STOPPED) w5 (put_wl w5 e3)))"

lemma stop_reply_keeps:
  assumes h: "in_hand w1 e3" and s: "wl_status w1 = W_STOPPING"
  shows "keeps e3 (snd (stop_reply oc w1 e3)) \<and> (\<exists>w'. fst (stop_reply oc w1 e3) = Inr w' \<and> wl_terminal (wl_status w')
    \<and> dict_get (workloads (snd (stop_reply oc w1 e3))) (wl_id w1) = Some w')"
proof -
  define w2 where "w2 = (if so_leaked oc then w1\<lparr>wl_leak := True\<rparr> else w1)"
  define w3 where "w3 = (case so_result oc of Some x \<Rightarrow> w2\<lparr>wl_result_of := Some x\<rparr> | None \<Rightarrow> w2)"
  define w4 where "w4 = w3\<lparr>wl_meta := dict_update (wl_meta w3) (so_meta oc)\<rparr>"
  define target where "target = (if so_status oc \<in> {W_STOPPED, W_FAILED} then so_status oc else W_STOPPED)"
  have f: "wl_id w4 = wl_id w1" "wl_spec w4 = wl_spec w1" "wl_runtime w4 = wl_runtime w1" "wl_status w4 = wl_status w1"
    by (simp_all add: w4_def w3_def w2_def split: option.splits)
  have h4: "in_hand w4 e3" using evolve_in_hand [OF h f] .
  have s4: "wl_status w4 = W_STOPPING" using f s by simp
  have tt: "target = W_STOPPED \<or> target = W_FAILED" by (auto simp: target_def)
  obtain w5 where "wl_transition (wl_now e3) target (so_message oc) w4 = Inr w5" "keeps e3 (put_wl w5 e3)" "wl_status w5 = target" "wl_id w5 = wl_id w4"
    by (rule stop_last [OF h4 s4 tt])
  moreover have "stop_reply oc w1 e3 = (case wl_transition (wl_now e3) target (so_message oc) w4 of
                  Inl x \<Rightarrow> (Inl x, put_wl w4 e3)
                | Inr w5 \<Rightarrow> (Inr w5, wl_emit (if wl_status w5 = W_FAILED then EVENT_FAILED else EVENT_STOPPED) w5 (put_wl w5 e3)))"
    unfolding stop_reply_def Let_def w2_def [symmetric] w3_def [symmetric] w4_def [symmetric] target_def [symmetric] ..
  moreover have "wl_terminal target" using tt by (auto simp: wl_terminal_def)
  ultimately show ?thesis using f(1) by (simp add: keeps_emit)
qed

lemma stop_unlocked_keeps:
  assumes wf: "wl_wf e"
  shows "keeps e (snd (stop_unlocked i e))"
    and "fst (stop_unlocked i e) = Inr w' \<Longrightarrow> wl_terminal (wl_status w') \<and> dict_get (workloads (snd (stop_unlocked i e))) i = Some w'"
proof -
  have "keeps e (snd (stop_unlocked i e)) \<and> (\<forall>w'. fst (stop_unlocked i e) = Inr w' \<longrightarrow> wl_terminal (wl_status w')
      \<and> dict_get (workloads (snd (stop_unlocked i e))) i = Some w')"
  proof (cases "\<exists>w. dict_get (workloads e) i = Some w \<and> \<not> wl_terminal (wl_status w)")
    case False
    then show ?thesis by (auto simp: stop_unlocked_def wl_require_def split: option.splits)
  next
    case True
    then obtain w where g: "dict_get (workloads e) i = Some w" and l: "\<not> wl_terminal (wl_status w)" by blast
    obtain w1 where t: "wl_transition (wl_now e) W_STOPPING None w = Inr w1" and k: "keeps e (put_wl w1 e)"
      and h: "in_hand w1 (put_wl w1 e)" and r: "wl_runtime w1 = wl_runtime w" and s: "wl_status w1 = W_STOPPING" and i: "wl_id w1 = i"
      by (rule stop_stopping [OF wf g l])
    define e1 where "e1 = put_wl w1 e"
    note here = g l t e1_def [symmetric]
    show ?thesis
    proof (cases "wl_runtime w1 = []")
      case True
      obtain w2 where "wl_transition (wl_now e1) W_STOPPED (Some ''unbound'') w1 = Inr w2" "keeps e1 (put_wl w2 e1)" "wl_status w2 = W_STOPPED" "wl_id w2 = i"
        using i stop_last [OF h [folded e1_def] s, of W_STOPPED] by blast
      moreover have "stop_unlocked i e = (case wl_transition (wl_now e1) W_STOPPED (Some ''unbound'') w1 of Inl x \<Rightarrow> (Inl x, e1)
            | Inr w2 \<Rightarrow> (Inr w2, wl_emit EVENT_STOPPED w2 (put_wl w2 e1)))"
        unfolding stop_unlocked_def wl_require_def Let_def g t option.case sum.case e1_def [symmetric] if_not_P [OF l] if_P [OF True] ..
      ultimately show ?thesis using keeps_trans [OF k [folded e1_def]] by (auto simp: wl_terminal_def intro: keeps_emit)
    next
      case bound: False
      obtain y e2 where res: "resolve_runtime (wl_runtime w1) e1 = (y, e2)" by fastforce
      have k2: "keeps e e2" using keeps_trans [OF k keeps_same] resolve_frame [OF res] by (simp add: e1_def)
      have h2: "in_hand w1 e2" by (rule in_hand_same [OF h]) (simp add: resolve_frame [OF res] e1_def)
      show ?thesis
      proof (cases y)
        case (Inl x)
        then show ?thesis using bound res k2 by (simp add: stop_unlocked_def wl_require_def here Let_def)
      next
        case (Inr rt)
        obtain z wo where st: "rt_stop rt i (world e2) = (z, wo)" by fastforce
        have k3: "keeps e (e2\<lparr>world := wo\<rparr>)" by (rule keeps_trans [OF k2 keeps_same]) simp_all
        have h3: "in_hand w1 (e2\<lparr>world := wo\<rparr>)" by (rule in_hand_same [OF h2]) simp
        show ?thesis
        proof (cases z)
          case (Inl x)
          have "in_hand (w1\<lparr>wl_leak := True\<rparr>) (e2\<lparr>world := wo\<rparr>)" by (rule evolve_in_hand [OF h3]) simp_all
          then show ?thesis using Inl Inr bound res st fail_keeps [of "w1\<lparr>wl_leak := True\<rparr>" "e2\<lparr>world := wo\<rparr>" x] keeps_trans [OF k3] i
            by (auto simp: stop_unlocked_def wl_require_def here Let_def wl_terminal_def)
        next
          case oc: (Inr oc)
          have "stop_unlocked i e = stop_reply oc w1 (e2\<lparr>world := wo\<rparr>)"
            unfolding stop_unlocked_def stop_reply_def wl_require_def Let_def g t option.case sum.case e1_def [symmetric] res prod.case Inr
              st oc if_not_P [OF l] if_not_P [OF bound] ..
          then show ?thesis using stop_reply_keeps [OF h3 s, of oc] keeps_trans [OF k3] i by auto
        qed
      qed
    qed
  qed
  then show "keeps e (snd (stop_unlocked i e))" "fst (stop_unlocked i e) = Inr w' \<Longrightarrow> wl_terminal (wl_status w') \<and> dict_get (workloads (snd (stop_unlocked i e))) i = Some w'" by auto
qed

lemma stop_all_keeps: "wl_wf e \<Longrightarrow> keeps e (snd (stop_all is e))"
proof (induction "is" arbitrary: e)
  case (Cons i "is")
  obtain y e1 where s: "stop_unlocked i e = (y, e1)" by fastforce
  have k: "keeps e e1" using stop_unlocked_keeps(1) [OF Cons.prems, of i] s by simp
  then have "wl_wf e1" using Cons.prems by (simp add: keeps_def)
  then have "keeps e1 (snd (stop_all is e1))" by (rule Cons.IH)
  then show ?case using s k keeps_trans [OF k] by (cases y) (auto split: sum.splits prod.splits)
qed simp

lemma adopt_keeps: "wl_wf e \<Longrightarrow> keeps e (snd (adopt wid h ow e))"
proof -
  assume wf: "wl_wf e"
  have fresh: "keeps e (wl_emit EVENT_READY w (put_wl w e))" if "\<not> dict_has (workloads e) (wl_id w)" "wl_status w = W_READY" for w
    using that by (intro keeps_emit keeps_fresh [of e w]) auto
  have rebound: "keeps e (put_wl (touch (wl_now e) (w\<lparr>wl_handle := Some b, wl_owner := own\<rparr>)) e)"
    if "dict_get (workloads e) i = Some w" "\<not> wl_terminal (wl_status w)" for i w b own
  proof -
    have "in_hand w e" by (rule stored_in_hand [OF wf that])
    then have "in_hand (touch (wl_now e) (w\<lparr>wl_handle := Some b, wl_owner := own\<rparr>)) e"
      by (rule evolve_in_hand) (simp_all add: touch_def)
    then show ?thesis by (rule in_hand_put)
  qed
  show ?thesis unfolding adopt_def Let_def
    by (auto intro!: fresh rebound simp: dict_has_def split: option.splits)
qed

lemma exec_keeps: "wl_wf e \<Longrightarrow> keeps e (snd (wl_exec i cmd timeout env e))"
proof -
  assume wf: "wl_wf e"
  show ?thesis
  proof (cases "\<exists>args w rt e1. wl_on e \<and> cmd = Argv args \<and> args \<noteq> [] \<and> dict_get (workloads e) i = Some w \<and> is_exec_allowed (wl_status w)
      \<and> sp_kind (wl_spec w) \<noteq> K_RUN \<and> wl_runtime w \<noteq> [] \<and> resolve_runtime (wl_runtime w) e = (Inr rt, e1)")
    case False
    show ?thesis
    proof (cases "dict_get (workloads e) i")
      case (Some w)
      obtain y e1 where q: "resolve_runtime (wl_runtime w) e = (y, e1)" by fastforce
      have "keeps e e1" using resolve_frame [OF q] by (intro keeps_same)
      then show ?thesis using False Some q
        by (cases cmd; cases y) (simp_all add: wl_exec_def wl_require_def, blast)
    qed (cases cmd; simp add: wl_exec_def wl_require_def)
  next
    case True
    then obtain args w rt e1 where c: "wl_on e" "cmd = Argv args" "args \<noteq> []" "dict_get (workloads e) i = Some w" "is_exec_allowed (wl_status w)"
      "sp_kind (wl_spec w) \<noteq> K_RUN" "wl_runtime w \<noteq> []" "resolve_runtime (wl_runtime w) e = (Inr rt, e1)" by blast
    have ready: "wl_status w = W_READY" using c(5) by (simp add: is_exec_allowed_def)
    then have live: "\<not> wl_terminal (wl_status w)" by (simp add: wl_terminal_def)
    have h: "in_hand w e1" by (rule in_hand_same [OF stored_in_hand [OF wf c(4) live]]) (simp add: resolve_frame [OF c(8)])
    have k: "keeps e e1" using resolve_frame [OF c(8)] by (intro keeps_same)
    obtain w1 where t: "wl_transition (wl_now e1) W_RUNNING None w = Inr w1"
      using transition_ex [of w W_RUNNING] ready by (auto simp: can_transition_def)
    have v: "wl_evolves w w1" "wl_status w1 = W_RUNNING" using transition_ok [OF t live] by auto
    obtain z wo where x: "rt_exec rt i args timeout env (world e1) = (z, wo)" by fastforce
    define e2 where "e2 = e1\<lparr>world := wo\<rparr>"
    have k2: "keeps e e2" unfolding e2_def by (rule keeps_trans [OF k keeps_same]) simp_all
    have h2: "in_hand w e2" unfolding e2_def by (rule in_hand_same [OF h]) simp
    have eq: "wl_exec i cmd timeout env e = (case z of
          Inl x \<Rightarrow> (case fail_wl x w1 (put_wl w1 e2) of (Inl y, e2) \<Rightarrow> (Inl y, e2) | (Inr w2, e2) \<Rightarrow> (Inr (the (wl_result_of w2)), e2))
        | Inr res \<Rightarrow> (let w2 = w1\<lparr>wl_result_of := Some res\<rparr>; e2 = put_wl w2 e2 in
             case (if rs_success res then wl_transition (wl_now e2) (wl_status w) None w2
                   else wl_transition (wl_now e2) W_READY (rs_error res) w2) of
               Inl y \<Rightarrow> (Inl y, e2) | Inr w3 \<Rightarrow> (Inr res, put_wl w3 e2)))"
      using c x t by (simp add: wl_exec_def wl_require_def e2_def split: sum.split)
    show ?thesis
    proof (cases z)
      case (Inl x)
      have "in_hand w1 (put_wl w1 e2)" and "keeps e2 (put_wl w1 e2)"
        using put_in_hand [OF h2 v(1)] in_hand_next [OF h2 v(1)] v(2) by (auto simp: wl_terminal_def)
      then have "keeps e (snd (fail_wl x w1 (put_wl w1 e2)))" using fail_keeps [of w1 "put_wl w1 e2" x] keeps_trans k2 by blast
      then show ?thesis by (auto simp: eq Inl split: prod.splits sum.splits)
    next
      case (Inr res)
      define w2 where "w2 = w1\<lparr>wl_result_of := Some res\<rparr>"
      have v2: "wl_evolves w w2" "wl_status w2 = W_RUNNING" using v ready by (auto simp: w2_def wl_evolves_def wl_terminal_def)
      have h3: "in_hand w2 (put_wl w2 e2)" and k3: "keeps e2 (put_wl w2 e2)"
        using put_in_hand [OF h2 v2(1)] in_hand_next [OF h2 v2(1)] v2(2) by (auto simp: wl_terminal_def)
      have "keeps (put_wl w2 e2) (put_wl w3 (put_wl w2 e2))" if "wl_transition now W_READY m w2 = Inr w3" for now m w3
        using step_keeps(1) [OF h3 that] by simp
      then show ?thesis using k2 k3 by (auto simp: eq Inr Let_def w2_def [symmetric] ready intro: keeps_trans split: sum.splits)
    qed
  qed
qed

subsection \<open>Properties\<close>

text \<open>The operations, the passing of time and the world moving on its own.\<close>

datatype 'w wl_op =
    WStart spec "owner option" "string option" "string option" "string option" string
  | WAdopt string "handle option" "owner option"
  | WExec string command "rat option" "(string, string) dict option"
  | WStatus string bool
  | WStop string
  | WStopOwned "string option" "string option" "string option"
  | WRegister "'w runtime"
  | WTick string 'w

fun wl_step :: "'w wl_op \<Rightarrow> 'w wl_engine \<Rightarrow> 'w wl_engine" where
  "wl_step (WStart sp ow wid key host gen) e = snd (wl_start sp ow wid key host gen e)"
| "wl_step (WAdopt wid h ow) e = snd (adopt wid h ow e)"
| "wl_step (WExec i cmd timeout env) e = snd (wl_exec i cmd timeout env e)"
| "wl_step (WStatus i refresh) e = snd (status_of i refresh e)"
| "wl_step (WStop i) e = snd (wl_stop i e)"
| "wl_step (WStopOwned job inst sess) e = snd (stop_owned job inst sess e)"
| "wl_step (WRegister rt) e = register_runtime rt e"
| "wl_step (WTick now wo) e = e\<lparr>wl_now := now, world := wo\<rparr>"

lemma wl_step_keeps: "wl_wf e \<Longrightarrow> keeps e (wl_step c e)"
  by (cases c) (auto simp: wl_stop_def stop_owned_def register_runtime_def
      intro: start_keeps adopt_keeps exec_keeps status_keeps stop_unlocked_keeps stop_all_keeps keeps_same)

lemma wl_run_keeps: "wl_wf e \<Longrightarrow> keeps e (fold wl_step cs e)"
proof (induction cs arbitrary: e)
  case (Cons c cs)
  note k = wl_step_keeps [OF Cons.prems, of c]
  then have "wl_wf (wl_step c e)" using Cons.prems by (simp add: keeps_def)
  from keeps_trans [OF k Cons.IH [OF this]] show ?case by simp
qed simp

lemma new_wl_wf: "wl_wf (new_wl_engine wo)"
  by (simp add: wl_wf_def new_wl_engine_def)

text \<open>
  C18. Whatever the runtimes answer or raise, whatever is called in whatever order: a stored workload
  keeps its id, its spec and its runtime, reaches only statuses that the transition table allows
  from the one it has, and once stopped or failed never changes again in any field; the books stay
  consistent (the index of idempotency keys names stored workloads only).
\<close>

theorem workloads_follow_the_table:
  assumes "wl_wf e" and "dict_get (workloads e) i = Some w" and "e' = fold wl_step cs e"
  shows "wl_wf e' \<and> (\<exists>w'. dict_get (workloads e') i = Some w' \<and> wl_evolves w w')"
  using wl_run_keeps [OF assms(1), of cs] assms by (simp add: keeps_def)

text \<open>
  Stopping is idempotent: a stop that returns leaves the workload stopped or failed, and any
  later stop of the same id, after any further operations, returns that very workload and changes
  nothing.
\<close>

theorem stop_is_idempotent:
  assumes "wl_wf e" and "wl_stop i e = (Inr w, e1)" and "e2 = fold wl_step cs e1" and "wl_on e2"
  shows "wl_terminal (wl_status w) \<and> wl_stop i e2 = (Inr w, e2)"
proof -
  have s: "stop_unlocked i e = (Inr w, e1)" using assms(2) by (simp add: wl_stop_def split: if_splits)
  have t: "wl_terminal (wl_status w)" "dict_get (workloads e1) i = Some w"
    using stop_unlocked_keeps(2) [OF assms(1), of i w] s by simp_all
  have "wl_wf e1" using stop_unlocked_keeps(1) [OF assms(1), of i] s assms(1) by (simp add: keeps_def)
  then obtain w' where "dict_get (workloads e2) i = Some w'" "wl_evolves w w'"
    using wl_run_keeps [of e1 cs] t(2) assms(3) unfolding keeps_def by blast
  then have "dict_get (workloads e2) i = Some w" using t(1) by (simp add: wl_evolves_def)
  then show ?thesis using t(1) assms(4) by (simp add: wl_stop_def stop_unlocked_def wl_require_def)
qed

text \<open>A start with a key that returned has filed the workload under the owner's index of that key.\<close>

lemma start_files_key:
  assumes wf: "wl_wf e" and st: "wl_start sp ow wid (Some k) host gen e = (Inr w, e1)" and k: "k \<noteq> []"
  shows "dict_get (idempotency e1) (idempotency_index (case ow of Some x \<Rightarrow> x | None \<Rightarrow> default_owner) k) = Some (wl_id w)"
    and "dict_get (workloads e1) (wl_id w) = Some w" and "wl_wf e1"
proof -
  define own where "own = (case ow of Some x \<Rightarrow> x | None \<Rightarrow> default_owner)"
  show wf1: "wl_wf e1" using start_keeps [of e sp ow wid "Some k" host gen] wf st by (simp add: keeps_def)
  have "dict_get (idempotency e1) (idempotency_index own k) = Some (wl_id w) \<and> dict_get (workloads e1) (wl_id w) = Some w"
    using st
  proof (cases rule: start_cases)
    case (known k' i w')
    then show ?thesis using wl_wf_id [OF wf] k by (simp add: nonempty_def own_def)
  next
    case (fresh nm rt w4 e4)
    note o = opened_keeps [OF fresh(1)]
    have x: "wl_owner w4 = own" "dict_get (idempotency e4) (idempotency_index own k) = Some (wl_id w4)"
      using fresh(1) k by (auto simp: opened_def own_def nonempty_def)
    have "keeps e4 e1" and g: "dict_get (workloads e1) (wl_id w4) = Some w"
      using reply_keeps [where apply_outcome = apply_start_outcome, OF keeps_refl o(2) fresh(3)] by simp_all
    then have "dict_get (idempotency e1) (idempotency_index own k) = Some (wl_id w4)" using x(2) by (simp add: keeps_def)
    then show ?thesis using wl_wf_id [OF wf1 g] g by simp
  qed simp
  then show "dict_get (idempotency e1) (idempotency_index (case ow of Some x \<Rightarrow> x | None \<Rightarrow> default_owner) k) = Some (wl_id w)"
    and "dict_get (workloads e1) (wl_id w) = Some w" by (simp_all add: own_def)
qed

text \<open>
  Starting with an idempotency key is idempotent: after a start that returned, and any further
  operations, a start with the same key and owner returns the stored form of the same workload and
  changes nothing, whatever its spec; no second workload appears.
\<close>

theorem start_is_idempotent:
  assumes "wl_wf e" and "wl_start sp ow wid (Some k) host gen e = (Inr w, e1)" and "k \<noteq> []"
    and "e2 = fold wl_step cs e1" and "wl_on e2"
  shows "\<exists>w'. dict_get (workloads e2) (wl_id w) = Some w' \<and> wl_evolves w w' \<and> wl_start sp2 ow wid2 (Some k) host2 gen2 e2 = (Inr w', e2)"
proof -
  note f = start_files_key [OF assms(1-3)]
  have k: "keeps e1 e2" using wl_run_keeps [OF f(3), of cs] assms(4) by simp
  then have "dict_get (idempotency e2) (idempotency_index (case ow of Some x \<Rightarrow> x | None \<Rightarrow> default_owner) k) = Some (wl_id w)"
    using f(1) by (simp add: keeps_def)
  moreover obtain w' where "dict_get (workloads e2) (wl_id w) = Some w'" "wl_evolves w w'" using k f(2) unfolding keeps_def by blast
  ultimately show ?thesis using assms(3,5) by (simp add: wl_start_def nonempty_def)
qed

text \<open>A reply touches its own workload only.\<close>

lemma reply_frame:
  assumes "(r, e') = (case q of (Inl x, wo) \<Rightarrow> fail_wl x w (e1\<lparr>world := wo\<rparr>) | (Inr oc, wo) \<Rightarrow> apply_start_outcome oc w (e1\<lparr>world := wo\<rparr>))"
    and "j \<noteq> wl_id w"
  shows "dict_get (workloads e') j = dict_get (workloads e1) j"
proof -
  have s: "dict_get (workloads (snd (settle st m ill v e2))) j = dict_get (workloads e2) j" if "wl_id v = wl_id w" for st m ill v and e2 :: "'a wl_engine"
    using that assms(2) by (auto simp: settle_def announce_def split: sum.splits dest: transition_frame_wl)
  have "dict_get (workloads (snd (fail_wl x w e2))) j = dict_get (workloads e2) j" for x and e2 :: "'a wl_engine"
    using assms(2) by (auto simp: fail_wl_def Let_def split: sum.splits dest: transition_frame_wl)
  note f = this
  obtain y wo where q: "q = (y, wo)" by fastforce
  show ?thesis
  proof (cases y)
    case (Inl x)
    then have "e' = snd (fail_wl x w (e1\<lparr>world := wo\<rparr>))" using assms(1) q by (metis case_prod_conv sum.case(1) snd_conv)
    then show ?thesis by (simp add: f)
  next
    case (Inr oc)
    then have "e' = snd (apply_start_outcome oc w (e1\<lparr>world := wo\<rparr>))" using assms(1) q by (metis case_prod_conv sum.case(2) snd_conv)
    then show ?thesis by (simp add: apply_start_outcome_def s absorb_frame)
  qed
qed

lemma selected_not_rejected: "select_runtime_name sp e = Inr nm \<Longrightarrow> nm \<notin> set (pl_reject (sp_placement sp))"
  by (auto simp: select_runtime_name_def Let_def split: option.splits if_splits)

lemma isolation_admits:
  "enforce_isolation_policy sp rt = Inr () \<Longrightarrow> sp_isolation sp \<in> set (cap_isolation (rt_caps rt)) \<and> (sp_isolation sp = I_HERMETIC \<longrightarrow> rt_name rt \<noteq> ''host'')"
  by (auto simp: enforce_isolation_policy_def supports_isolation_def split: if_splits)

text \<open>
  A start that adds a workload has asked policy first: the runtime is the one the spec or the
  engine's default names, not a rejected one, it is enabled and supports the requested isolation, and
  a hermetic workload is never given to the host runtime.
\<close>

theorem start_obeys_policy:
  assumes "wl_start sp ow wid key host gen e = (r, e')" and "dict_has (workloads e') i" and "\<not> dict_has (workloads e) i"
  shows "\<exists>w rt. dict_get (workloads e') i = Some w \<and> wl_spec w = sp \<and> select_runtime_name sp e = Inr (wl_runtime w)
     \<and> wl_runtime w \<notin> set (pl_reject (sp_placement sp))
     \<and> fst (resolve_runtime (wl_runtime w) e) = Inr rt \<and> rt_enabled rt (world e)
     \<and> sp_isolation sp \<in> set (cap_isolation (rt_caps rt)) \<and> (sp_isolation sp = I_HERMETIC \<longrightarrow> rt_name rt \<noteq> ''host'')"
  using assms(1)
proof (cases rule: start_cases)
  case (fresh nm rt w e4)
  note o = fresh(1) [unfolded opened_def]
  have "i = wl_id w"
  proof (rule ccontr)
    assume "i \<noteq> wl_id w"
    then show False using reply_frame [OF fresh(3), of i] o assms(2,3) by (simp add: dict_has_def)
  qed
  moreover obtain w' where "dict_get (workloads e') (wl_id w) = Some w'" "wl_evolves w w'"
    using reply_keeps [where apply_outcome = apply_start_outcome, OF keeps_refl opened_keeps(2) [OF fresh(1)] fresh(3)] o
    unfolding keeps_def by blast
  ultimately show ?thesis using o selected_not_rejected isolation_admits [of sp rt] by (auto simp: wl_evolves_def)
qed (use assms in auto)

end
