(* ===== verification/WorkloadDemo.thy ===== *)
theory WorkloadDemo
  imports WorkloadSafety
begin

text \<open>
  A concrete runtime and engine, on which the workload properties are evaluated, and the collision of
  two owners in the index of idempotency keys.
\<close>

definition demo_caps :: capabilities where
  "demo_caps = \<lparr>cap_name = ''local'', cap_isolation = [I_BEST_EFFORT], cap_kinds = [''service''], cap_description = [],
     cap_default_enabled = True, cap_trust = ''palm''\<rparr>"

definition demo_rt :: "unit runtime" where
  "demo_rt = \<lparr>rt_name = ''local'', rt_caps = demo_caps, rt_enabled = (\<lambda>_. True), rt_health = (\<lambda>_. Inr (default_health ''local'' True)),
     rt_start = (\<lambda>_ _ _ w. (Inr \<lparr>oc_status = W_READY, oc_handle = None, oc_result = None, oc_message = None, oc_meta = []\<rparr>, w)),
     rt_poll = (\<lambda>_ w. (Inr \<lparr>oc_status = W_READY, oc_handle = None, oc_result = None, oc_message = None, oc_meta = []\<rparr>, w)),
     rt_stop = (\<lambda>_ w. (Inr \<lparr>so_status = W_STOPPED, so_result = None, so_message = None, so_leaked = False, so_meta = []\<rparr>, w)),
     rt_exec = (\<lambda>_ _ _ _ w. (Inr (default_exec ''local''), w))\<rparr>"

definition demo_spec :: spec where
  "demo_spec = \<lparr>sp_kind = K_SERVICE, sp_isolation = I_BEST_EFFORT, sp_lifecycle = L_LEASE, sp_command = [],
     sp_image = None, sp_image_ref = None, sp_workdir = None, sp_seed = None, sp_env = [], sp_secrets_ref = None,
     sp_ports = [], sp_health = None, sp_timeout = None, sp_resources = [], sp_labels = [],
     sp_placement = empty_placement, sp_mesh = None, sp_version = 1\<rparr>"

definition demo0 :: "unit wl_engine" where
  "demo0 = wl_initialize True None (Some ''local'') [(''local'', demo_rt)] (new_wl_engine ())"

definition demo1 :: "workload result \<times> unit wl_engine" where
  "demo1 = wl_start demo_spec None (Some ''w'') (Some ''k'') None [] demo0"

definition demo_w :: workload where
  "demo_w = projr (fst demo1)"

lemma right_value: "\<not> isl (fst p) \<Longrightarrow> p = (Inr (projr (fst p)), snd p)"
  by (metis prod.collapse sum.collapse(2))

lemma demo0_wf: "wl_wf demo0"
  by (simp add: wl_wf_def demo0_def wl_initialize_def new_wl_engine_def)

lemma demo1_wf: "wl_wf (snd demo1)"
  using start_keeps [of demo0] demo0_wf by (simp add: keeps_def demo1_def)

lemma demo1_started: "\<not> isl (fst demo1)" "wl_on (snd demo1)" "wl_id demo_w = ''w''" "wl_status demo_w = W_READY"
    "wl_on (fold wl_step [WStatus ''w'' True] (snd demo1))"
  by code_simp+

lemma demo1_stored: "dict_get (workloads (snd demo1)) ''w'' = Some demo_w"
  by code_simp

lemma workloads_follow_the_table_witness:
  "wl_wf (snd demo1) \<and> (\<exists>w. dict_get (workloads (fold wl_step [WStop ''w'', WStatus ''w'' True] (snd demo1))) ''w'' = Some w \<and> wl_evolves demo_w w)"
  using workloads_follow_the_table [OF demo1_wf demo1_stored refl] demo1_wf by blast

lemma demo_stop: "\<not> isl (fst (wl_stop ''w'' (snd demo1)))" "wl_on (fold wl_step [WStatus ''w'' True] (snd (wl_stop ''w'' (snd demo1))))"
  by code_simp+

lemma stop_is_idempotent_witness:
  "wl_terminal (wl_status (projr (fst (wl_stop ''w'' (snd demo1)))))"
  using stop_is_idempotent [OF demo1_wf right_value [OF demo_stop(1)] refl demo_stop(2)] by blast

lemma start_is_idempotent_witness:
  "\<exists>w. wl_start (demo_spec\<lparr>sp_kind := K_RUN\<rparr>) None None (Some ''k'') None ''x'' (fold wl_step [WStatus ''w'' True] (snd demo1))
     = (Inr w, fold wl_step [WStatus ''w'' True] (snd demo1))"
  using start_is_idempotent [OF demo0_wf right_value [OF demo1_started(1), unfolded demo1_def], folded demo1_def,
      OF _ refl demo1_started(5)] by blast

lemma demo_fresh: "dict_has (workloads (snd demo1)) ''w''" "\<not> dict_has (workloads demo0) ''w''"
  by code_simp+

lemma start_obeys_policy_witness:
  "\<exists>w. dict_get (workloads (snd demo1)) ''w'' = Some w \<and> select_runtime_name demo_spec demo0 = Inr (wl_runtime w)"
  using start_obeys_policy [of demo_spec None "Some ''w''" "Some ''k''" None "[]" demo0 "fst demo1" "snd demo1" "''w''"] demo_fresh
  by (auto simp: demo1_def)

subsection \<open>Owners that share an index key\<close>

definition job_owner :: "string option \<Rightarrow> string option \<Rightarrow> owner" where
  "job_owner job inst = default_owner\<lparr>ow_job_id := job, ow_instance_id := inst\<rparr>"

lemma bar_collision: "idempotency_index (job_owner (Some ''a'') (Some ''b|'')) k = idempotency_index (job_owner (Some ''a|b'') None) k"
  by (simp add: idempotency_index_def job_owner_def default_owner_def Let_def)

text \<open>
  The idempotency index joins the owner's fields and the key with a bar without escaping it:
  the jobs \<open>a|b\<close> and \<open>a\<close> (with instance \<open>b|\<close>) are different owners, yet when the first has started
  a workload, the second one's start with the same key returns that workload of the other owner, and
  nothing is started for it.
\<close>

theorem idempotency_keys_collide:
  assumes "wl_wf e" and "wl_start sp (Some (job_owner (Some ''a|b'') None)) wid (Some k) host gen e = (Inr w, e1)"
    and "k \<noteq> []" and "wl_on e1"
  shows "wl_start sp2 (Some (job_owner (Some ''a'') (Some ''b|''))) wid2 (Some k) host2 gen2 e1 = (Inr w, e1)
     \<and> \<not> owner_matches (Some ''a'') None None None (job_owner (Some ''a|b'') None)"
proof
  show "wl_start sp2 (Some (job_owner (Some ''a'') (Some ''b|''))) wid2 (Some k) host2 gen2 e1 = (Inr w, e1)"
    using start_files_key [OF assms(1-3)] assms(3,4) by (simp add: wl_start_def nonempty_def bar_collision)
qed (simp add: owner_matches_def job_owner_def default_owner_def)

definition demo2 :: "workload result \<times> unit wl_engine" where
  "demo2 = wl_start demo_spec (Some (job_owner (Some ''a|b'') None)) (Some ''w'') (Some ''k'') None [] demo0"

lemma demo2_started: "\<not> isl (fst demo2)" "wl_on (snd demo2)"
  by code_simp+

lemma idempotency_keys_collide_witness:
  "wl_start demo_spec (Some (job_owner (Some ''a'') (Some ''b|''))) None (Some ''k'') None ''y'' (snd demo2) = (Inr (projr (fst demo2)), snd demo2)"
  using idempotency_keys_collide [OF demo0_wf right_value [OF demo2_started(1), unfolded demo2_def], folded demo2_def,
      OF _ demo2_started(2)] by simp

end
