(* ===== verification/Waits.thy ===== *)
theory Waits
  imports PyConvert
begin

text \<open>
  Wait interests (\<open>palm/core/wait\<close>): the durable record that a job waits for another job or for a
  workload, kept as a list of dictionaries under one key of the job state. The operations read the
  list anew, skip the rows that cannot be parsed and write the whole list back. The specification is
  a dictionary from targets to interests in the order of insertion.
\<close>

subsection \<open>Interests\<close>

definition STATE_KEY_WAIT_INTERESTS :: string where "STATE_KEY_WAIT_INTERESTS = ''palm.wait.interests''"
definition WAIT_INTEREST_SCHEMA_VERSION :: int where "WAIT_INTEREST_SCHEMA_VERSION = 1"
definition WAIT_KIND_JOB :: string where "WAIT_KIND_JOB = ''job''"
definition WAIT_KIND_WORKLOAD :: string where "WAIT_KIND_WORKLOAD = ''workload''"
definition ON_TARGET_FAILED_FAIL_OWNER :: string where "ON_TARGET_FAILED_FAIL_OWNER = ''fail_owner''"
definition ON_TARGET_FAILED_LEAVE :: string where "ON_TARGET_FAILED_LEAVE = ''leave''"

record wait_policy =
  on_target_failed :: string

definition default_policy :: wait_policy where
  "default_policy = \<lparr>on_target_failed = ON_TARGET_FAILED_FAIL_OWNER\<rparr>"

definition policy_to_dict :: "wait_policy \<Rightarrow> pydict" where
  "policy_to_dict p = [(''on_target_failed'', VStr (on_target_failed p))]"

definition policy_from_dict :: "(pyval \<Rightarrow> string) \<Rightarrow> pydict option \<Rightarrow> wait_policy" where
  "policy_from_dict r d = (case d of
     None \<Rightarrow> default_policy
   | Some d \<Rightarrow> if d = [] then default_policy
       else \<lparr>on_target_failed = py_str r (py_or (py_get d ''on_target_failed'') (VStr ON_TARGET_FAILED_FAIL_OWNER))\<rparr>)"

record wait_interest =
  wt_kind :: string
  wt_target :: string
  wt_opened_at :: string
  wt_policy :: wait_policy
  wt_meta :: pydict
  wt_version :: int

definition new_interest :: "string \<Rightarrow> string \<Rightarrow> string \<Rightarrow> wait_policy \<Rightarrow> pydict \<Rightarrow> int \<Rightarrow> wait_interest result" where
  "new_interest kind target opened p meta v =
     (if py_strip kind = [] then Inl (Exc PyValueError ''WaitInterest.kind must be a non-empty string'')
      else if py_strip target = [] then Inl (Exc PyValueError ''WaitInterest.target_id must be a non-empty string'')
      else Inr \<lparr>wt_kind = kind, wt_target = target, wt_opened_at = opened, wt_policy = p, wt_meta = meta, wt_version = v\<rparr>)"

definition wt_matches :: "string \<Rightarrow> string \<Rightarrow> wait_interest \<Rightarrow> bool" where
  "wt_matches kind target w = (wt_kind w = kind \<and> wt_target w = target)"

definition wt_to_dict :: "wait_interest \<Rightarrow> pydict" where
  "wt_to_dict w = [(''v'', VInt (wt_version w)), (''kind'', VStr (wt_kind w)), (''target_id'', VStr (wt_target w)),
     (''opened_at'', VStr (wt_opened_at w)), (''policy'', VDict (policy_to_dict (wt_policy w))), (''meta'', VDict (wt_meta w))]"

text \<open>The present time of a row without one is the argument \<open>now\<close>.\<close>

definition wt_from_dict :: "(pyval \<Rightarrow> string) \<Rightarrow> string \<Rightarrow> pydict \<Rightarrow> wait_interest result" where
  "wt_from_dict r now d =
     (let kind = py_strip (py_str r (py_or (py_get d ''kind'') (VStr [])));
          target = py_strip (py_str r (py_or (py_get d ''target_id'') (VStr [])));
          p = policy_from_dict r (case py_get d ''policy'' of VDict p \<Rightarrow> Some p | _ \<Rightarrow> None);
          meta = (case py_get d ''meta'' of VDict m \<Rightarrow> m | _ \<Rightarrow> []);
          opened = py_get d ''opened_at'';
          v = (case py_int (get_default d ''v'' (VInt WAIT_INTEREST_SCHEMA_VERSION)) of
                 Inr n \<Rightarrow> n | Inl _ \<Rightarrow> WAIT_INTEREST_SCHEMA_VERSION)
      in new_interest kind target (if truthy opened then py_str r opened else now) p meta v)"

definition make_job_wait :: "string \<Rightarrow> string \<Rightarrow> wait_policy option \<Rightarrow> pydict \<Rightarrow> wait_interest result" where
  "make_job_wait target opened p meta = new_interest WAIT_KIND_JOB target opened
     (case p of Some q \<Rightarrow> q | None \<Rightarrow> default_policy) meta WAIT_INTEREST_SCHEMA_VERSION"

definition make_workload_wait :: "string \<Rightarrow> string \<Rightarrow> wait_policy option \<Rightarrow> pydict \<Rightarrow> wait_interest result" where
  "make_workload_wait target opened p meta = new_interest WAIT_KIND_WORKLOAD target opened
     (case p of Some q \<Rightarrow> q | None \<Rightarrow> default_policy) meta WAIT_INTEREST_SCHEMA_VERSION"

subsection \<open>Interests on a job state\<close>

definition parse_row :: "(pyval \<Rightarrow> string) \<Rightarrow> string \<Rightarrow> pyval \<Rightarrow> wait_interest option" where
  "parse_row r now v = (case v of VDict d \<Rightarrow> (case wt_from_dict r now d of Inr w \<Rightarrow> Some w | Inl _ \<Rightarrow> None) | _ \<Rightarrow> None)"

definition list_wait_interests :: "(pyval \<Rightarrow> string) \<Rightarrow> string \<Rightarrow> pydict \<Rightarrow> wait_interest list" where
  "list_wait_interests r now st = (case py_get st STATE_KEY_WAIT_INTERESTS of
     VList rows \<Rightarrow> List.map_filter (parse_row r now) rows | _ \<Rightarrow> [])"

definition write_interests :: "wait_interest list \<Rightarrow> pydict \<Rightarrow> pydict" where
  "write_interests ws st = dict_set STATE_KEY_WAIT_INTERESTS (VList (map (VDict \<circ> wt_to_dict) ws)) st"

definition open_wait_interest :: "(pyval \<Rightarrow> string) \<Rightarrow> string \<Rightarrow> bool \<Rightarrow> wait_interest \<Rightarrow> pydict \<Rightarrow> wait_interest \<times> pydict" where
  "open_wait_interest r now replace w st =
     (let current = list_wait_interests r now st in
      case find_index (wt_matches (wt_kind w) (wt_target w)) current of
        Some i \<Rightarrow> (let current' = (if replace then current[i := w] else current) in (current' ! i, write_interests current' st))
      | None \<Rightarrow> (w, write_interests (current @ [w]) st))"

definition close_wait_interest :: "(pyval \<Rightarrow> string) \<Rightarrow> string \<Rightarrow> string \<Rightarrow> string \<Rightarrow> pydict \<Rightarrow> wait_interest option \<times> pydict" where
  "close_wait_interest r now kind target st =
     (let current = list_wait_interests r now st in
      case find (wt_matches kind target) current of
        None \<Rightarrow> (None, st)
      | Some w \<Rightarrow> (Some w, write_interests (remove_first (wt_matches kind target) current) st))"

definition find_wait_interests :: "(pyval \<Rightarrow> string) \<Rightarrow> string \<Rightarrow> string option \<Rightarrow> string option \<Rightarrow> pydict \<Rightarrow> wait_interest list" where
  "find_wait_interests r now kind target st =
     (let out = list_wait_interests r now st;
          out1 = (case kind of None \<Rightarrow> out | Some k \<Rightarrow> filter (\<lambda>w. wt_kind w = k) out)
      in case target of None \<Rightarrow> out1 | Some t \<Rightarrow> filter (\<lambda>w. wt_target w = t) out1)"

definition has_open_waits :: "(pyval \<Rightarrow> string) \<Rightarrow> string \<Rightarrow> pydict \<Rightarrow> bool" where
  "has_open_waits r now st = (list_wait_interests r now st \<noteq> [])"

definition clear_wait_interests :: "(pyval \<Rightarrow> string) \<Rightarrow> string \<Rightarrow> pydict \<Rightarrow> nat \<times> pydict" where
  "clear_wait_interests r now st =
     (let current = list_wait_interests r now st in (length current, if current \<noteq> [] then write_interests [] st else st))"

definition rehydrate_wait_interests :: "(pyval \<Rightarrow> string) \<Rightarrow> string \<Rightarrow> pydict \<Rightarrow> wait_interest list \<times> pydict" where
  "rehydrate_wait_interests r now st =
     (let ws = list_wait_interests r now st in (ws, write_interests ws st))"

definition rehydrate_from_snapshot :: "(pyval \<Rightarrow> string) \<Rightarrow> string \<Rightarrow> pydict \<Rightarrow> pydict \<Rightarrow> wait_interest list \<times> pydict" where
  "rehydrate_from_snapshot r now snap st = (case py_get snap STATE_KEY_WAIT_INTERESTS of
     VList rows \<Rightarrow> rehydrate_wait_interests r now
       (fold (\<lambda>w s. snd (open_wait_interest r now True w s)) (List.map_filter (parse_row r now) rows) st)
   | _ \<Rightarrow> rehydrate_wait_interests r now st)"

subsection \<open>Round trip\<close>

definition clean :: "string \<Rightarrow> bool" where
  "clean s = (s \<noteq> [] \<and> py_strip s = s)"

text \<open>What survives the dictionary form: stripped ids, a time stamp, a policy.\<close>

definition wt_ok :: "wait_interest \<Rightarrow> bool" where
  "wt_ok w = (clean (wt_kind w) \<and> clean (wt_target w) \<and> wt_opened_at w \<noteq> [] \<and> on_target_failed (wt_policy w) \<noteq> [])"

lemma wt_roundtrip [simp]: "wt_ok w \<Longrightarrow> wt_from_dict r now (wt_to_dict w) = Inr w"
  by (cases w) (simp add: wt_ok_def clean_def wt_from_dict_def wt_to_dict_def policy_from_dict_def policy_to_dict_def new_interest_def Let_def)

lemma py_str_nonempty: "truthy v \<Longrightarrow> \<forall>v. r v \<noteq> [] \<Longrightarrow> py_str r v \<noteq> []"
  by (cases v) (auto simp: show_int_def show_nat_digits)

lemma new_interest_iff: "new_interest k t u p m v = Inr w \<longleftrightarrow> py_strip k \<noteq> [] \<and> py_strip t \<noteq> []
    \<and> w = \<lparr>wt_kind = k, wt_target = t, wt_opened_at = u, wt_policy = p, wt_meta = m, wt_version = v\<rparr>"
  by (auto simp: new_interest_def)

lemma policy_ok: "\<forall>v. r v \<noteq> [] \<Longrightarrow> on_target_failed (policy_from_dict r d) \<noteq> []"
  using py_str_nonempty [of _ r]
  by (auto simp: policy_from_dict_def default_policy_def ON_TARGET_FAILED_FAIL_OWNER_def py_or_def split: option.split)

lemma parsed_ok:
  assumes "parse_row r now v = Some w" "now \<noteq> []" "\<forall>v. r v \<noteq> []"
  shows "wt_ok w"
proof -
  obtain d where "wt_from_dict r now d = Inr w"
    using assms(1) by (cases v) (auto simp: parse_row_def split: sum.splits)
  then show ?thesis unfolding wt_from_dict_def Let_def new_interest_iff
    using policy_ok [OF assms(3)] py_str_nonempty [OF _ assms(3), of "py_get d ''opened_at''"] assms(2)
    by (elim conjE) (simp add: wt_ok_def clean_def)
qed

subsection \<open>The map of interests\<close>

abbreviation wt_key :: "wait_interest \<Rightarrow> string \<times> string" where
  "wt_key w \<equiv> (wt_kind w, wt_target w)"

text \<open>
  A dictionary in the order of insertion, as Python has it: replacing keeps the place of the key, a
  new key goes to the end.
\<close>

type_synonym wait_map = "(string \<times> string, wait_interest) dict"

definition interests :: "wait_interest list \<Rightarrow> wait_map" where
  "interests ws = map (\<lambda>w. (wt_key w, w)) ws"

definition waits_rep :: "pydict \<Rightarrow> wait_interest list \<Rightarrow> bool" where
  "waits_rep st ws \<longleftrightarrow> (py_get st STATE_KEY_WAIT_INTERESTS = VList (map (VDict \<circ> wt_to_dict) ws)
       \<or> ws = [] \<and> py_get st STATE_KEY_WAIT_INTERESTS = VNone)
     \<and> (\<forall>w \<in> set ws. wt_ok w) \<and> distinct (map wt_key ws)"

lemma matches_key: "wt_matches k t = (\<lambda>w. wt_key w = (k, t))"
  by (auto simp: wt_matches_def)

lemma parse_rows: "\<forall>w \<in> set ws. wt_ok w \<Longrightarrow> List.map_filter (parse_row r now) (map (VDict \<circ> wt_to_dict) ws) = ws"
  by (induction ws) (simp_all add: List.map_filter_simps parse_row_def)

lemma list_rep: "waits_rep st ws \<Longrightarrow> list_wait_interests r now st = ws"
  using parse_rows [of ws r now] by (auto simp: waits_rep_def list_wait_interests_def)

lemma write_rep: "\<forall>w \<in> set ws. wt_ok w \<Longrightarrow> distinct (map wt_key ws) \<Longrightarrow> waits_rep (write_interests ws st) ws"
  by (simp add: waits_rep_def write_interests_def)

lemma write_frame: "k \<noteq> STATE_KEY_WAIT_INTERESTS \<Longrightarrow> py_get (write_interests ws st) k = py_get st k"
  by (simp add: write_interests_def)

lemma find_key: "find (wt_matches k t) ws = dict_get (interests ws) (k, t)"
  by (induction ws) (auto simp: interests_def matches_key)

lemma remove_first_member: "distinct (map f ws) \<Longrightarrow> distinct (map f (remove_first P ws))"
  by (induction ws) (use set_remove_first [of P] in auto)

lemma remove_key:
  "distinct (map wt_key ws) \<Longrightarrow>
    interests (remove_first (wt_matches k t) ws) = dict_pop (k, t) (interests ws)"
proof (induction ws)
  case (Cons w ws)
  have "AList.delete (wt_key w) (interests ws) = interests ws"
    using Cons.prems by (intro dict_pop_none) (auto simp: interests_def dict_has_iff)
  then show ?case using Cons by (auto simp: interests_def matches_key)
qed (simp add: interests_def)

lemma replace_key:
  assumes "find_index (wt_matches (wt_kind w) (wt_target w)) ws = Some i"
  shows "interests (ws[i := w]) = dict_set (wt_key w) w (interests ws)
    \<and> map wt_key (ws[i := w]) = map wt_key ws \<and> dict_get (interests ws) (wt_key w) = Some (ws ! i)"
  using assms
proof (induction ws arbitrary: i)
  case (Cons u ws)
  show ?case
  proof (cases "wt_key u = wt_key w")
    case True
    then show ?thesis using Cons.prems by (auto simp: interests_def matches_key)
  next
    case False
    with Cons.prems obtain j where "find_index (wt_matches (wt_kind w) (wt_target w)) ws = Some j" "i = Suc j"
      by (auto simp: matches_key)
    with Cons.IH [of j] False show ?thesis by (auto simp: interests_def)
  qed
qed simp

datatype wait_op = OpenWait bool wait_interest | CloseWait string string | ClearWaits | RehydrateWaits

fun wait_op_ok :: "wait_op \<Rightarrow> bool" where
  "wait_op_ok (OpenWait b w) = wt_ok w"
| "wait_op_ok _ = True"

fun wait_do :: "(pyval \<Rightarrow> string) \<Rightarrow> string \<Rightarrow> wait_op \<Rightarrow> pydict \<Rightarrow> wait_interest option \<times> pydict" where
  "wait_do r now (OpenWait b w) st = map_prod Some id (open_wait_interest r now b w st)"
| "wait_do r now (CloseWait k t) st = close_wait_interest r now k t st"
| "wait_do r now ClearWaits st = (None, snd (clear_wait_interests r now st))"
| "wait_do r now RehydrateWaits st = (None, snd (rehydrate_wait_interests r now st))"

fun wait_spec :: "wait_op \<Rightarrow> wait_map \<Rightarrow> wait_interest option \<times> wait_map" where
  "wait_spec (OpenWait b w) m = (case dict_get m (wt_key w) of
     None \<Rightarrow> (Some w, m @ [(wt_key w, w)])
   | Some u \<Rightarrow> if b then (Some w, dict_set (wt_key w) w m) else (Some u, m))"
| "wait_spec (CloseWait k t) m = (dict_get m (k, t), dict_pop (k, t) m)"
| "wait_spec ClearWaits m = (None, [])"
| "wait_spec RehydrateWaits m = (None, m)"

fun wait_run :: "(pyval \<Rightarrow> string) \<Rightarrow> string \<Rightarrow> wait_op list \<Rightarrow> pydict \<Rightarrow> wait_interest option list \<times> pydict" where
  "wait_run r now [] st = ([], st)"
| "wait_run r now (x # xs) st = (case wait_do r now x st of (a, st1) \<Rightarrow> map_prod (Cons a) id (wait_run r now xs st1))"

fun spec_run :: "wait_op list \<Rightarrow> wait_map \<Rightarrow> wait_interest option list \<times> wait_map" where
  "spec_run [] m = ([], m)"
| "spec_run (x # xs) m = (case wait_spec x m of (a, m1) \<Rightarrow> map_prod (Cons a) id (spec_run xs m1))"

lemma wait_step:
  assumes "waits_rep st ws" "wait_op_ok x"
  shows "\<exists>ws'. waits_rep (snd (wait_do r now x st)) ws' \<and> fst (wait_do r now x st) = fst (wait_spec x (interests ws))
    \<and> interests ws' = snd (wait_spec x (interests ws))
    \<and> (\<forall>k. k \<noteq> STATE_KEY_WAIT_INTERESTS \<longrightarrow> py_get (snd (wait_do r now x st)) k = py_get st k)"
proof -
  have ok: "\<forall>w \<in> set ws. wt_ok w" "distinct (map wt_key ws)" using assms(1) by (auto simp: waits_rep_def)
  note [simp] = list_rep [OF assms(1)]
  show ?thesis
  proof (cases x)
    case (OpenWait b w)
    then have w: "wt_ok w" using assms(2) by simp
    show ?thesis
    proof (cases "find_index (wt_matches (wt_kind w) (wt_target w)) ws")
      case None
      then have new: "wt_key w \<notin> wt_key ` set ws" by (auto simp: find_index_None matches_key)
      then have "dict_get (interests ws) (wt_key w) = None" by (auto simp: interests_def map_of_eq_None_iff image_image)
      moreover have "waits_rep (write_interests (ws @ [w]) st) (ws @ [w])" using ok w new by (intro write_rep) auto
      ultimately show ?thesis using OpenWait None write_frame by (auto simp: open_wait_interest_def interests_def)
    next
      case (Some i)
      note rk = replace_key [OF Some] and i = find_index_Some [OF Some]
      let ?ws = "if b then ws[i := w] else ws"
      have "set ?ws \<subseteq> insert w (set ws)" using set_update_subset_insert [of ws i w] by auto
      then have "waits_rep (write_interests ?ws st) ?ws" using ok w rk by (intro write_rep) auto
      moreover have "?ws ! i = (if b then w else ws ! i)" using i by simp
      ultimately show ?thesis using OpenWait Some rk write_frame by (auto simp: open_wait_interest_def Let_def)
    qed
  next
    case (CloseWait k t)
    note rk = remove_key [OF ok(2), of k t]
    have rep: "waits_rep (write_interests (remove_first (wt_matches k t) ws) st) (remove_first (wt_matches k t) ws)"
      using ok set_remove_first [of "wt_matches k t" ws] by (intro write_rep remove_first_member) blast+
    have found: "close_wait_interest r now k t st = (case dict_get (interests ws) (k, t) of None \<Rightarrow> (None, st)
        | Some w \<Rightarrow> (Some w, write_interests (remove_first (wt_matches k t) ws) st))"
      by (simp add: close_wait_interest_def find_key)
    show ?thesis
    proof (cases "dict_get (interests ws) (k, t)")
      case None
      then have "dict_pop (k, t) (interests ws) = interests ws"
        by (intro dict_pop_none) (simp add: dict_has_def)
      then show ?thesis using None found CloseWait assms(1) by (intro exI [of _ ws]) simp
    next
      case (Some w)
      then show ?thesis using found CloseWait rep rk write_frame by (intro exI [of _ "remove_first (wt_matches k t) ws"]) simp
    qed
  next
    case ClearWaits
    then show ?thesis using assms(1) write_rep [of "[]" st] write_frame by (auto simp: clear_wait_interests_def interests_def)
  next
    case RehydrateWaits
    then show ?thesis using write_rep [OF ok] write_frame by (auto simp: rehydrate_wait_interests_def)
  qed
qed

text \<open>
  C26. The waits of a job are a dictionary in the order of insertion: on a job state that holds a
  list of well-formed interests with distinct targets (or none), every sequence of opening (of
  well-formed interests), closing, clearing and rehydrating answers as the dictionary from targets
  to interests does, where replacing keeps the place and a new target goes to the end. It leaves
  exactly the entries of that dictionary in their order, with one interest per target, and changes
  no other key. Well-formed (\<open>wt_ok\<close>): the kind and the target are not empty and carry no
  surrounding space, the time stamp and the policy are not empty; these are the interests that
  survive being written as a row and read again, and every row that can be read is one.
\<close>

theorem waits_refine_map:
  assumes "waits_rep st ws" and "list_all wait_op_ok xs" and "wait_run r now xs st = (as, st')"
  shows "as = fst (spec_run xs (interests ws)) \<and> interests (list_wait_interests r now st') = snd (spec_run xs (interests ws))
    \<and> distinct (map wt_key (list_wait_interests r now st'))
    \<and> (\<forall>k. k \<noteq> STATE_KEY_WAIT_INTERESTS \<longrightarrow> py_get st' k = py_get st k)"
  using assms
proof (induction xs arbitrary: st ws as)
  case Nil
  then show ?case using list_rep [OF Nil(1), of r now] by (auto simp: waits_rep_def)
next
  case (Cons x xs)
  have "wait_op_ok x" using Cons.prems(2) by simp
  from wait_step [OF Cons.prems(1) this, of r now]
  obtain ws1 where 1: "waits_rep (snd (wait_do r now x st)) ws1" "fst (wait_do r now x st) = fst (wait_spec x (interests ws))"
    "interests ws1 = snd (wait_spec x (interests ws))"
    "\<forall>k. k \<noteq> STATE_KEY_WAIT_INTERESTS \<longrightarrow> py_get (snd (wait_do r now x st)) k = py_get st k" by blast
  obtain as1 where 2: "wait_run r now xs (snd (wait_do r now x st)) = (as1, st')" "as = fst (wait_do r now x st) # as1"
    using Cons.prems(3) by (cases "wait_run r now xs (snd (wait_do r now x st))") (auto simp: case_prod_beta)
  from Cons.IH [OF 1(1) _ 2(1)] Cons.prems(2) 1 2(2) show ?case by (auto simp: case_prod_beta)
qed

definition demo_wait :: "string \<Rightarrow> wait_interest" where
  "demo_wait t = \<lparr>wt_kind = WAIT_KIND_JOB, wt_target = t, wt_opened_at = ''t0'', wt_policy = default_policy, wt_meta = [], wt_version = 1\<rparr>"

lemma waits_refine_map_witness:
  "wait_run (\<lambda>_. ''?'') ''t'' [OpenWait True (demo_wait ''a''), OpenWait True (demo_wait ''b''), CloseWait ''job'' ''a''] [(''x'', VInt 1)]
     = ([Some (demo_wait ''a''), Some (demo_wait ''b''), Some (demo_wait ''a'')],
        snd (wait_run (\<lambda>_. ''?'') ''t'' [OpenWait True (demo_wait ''a''), OpenWait True (demo_wait ''b''), CloseWait ''job'' ''a''] [(''x'', VInt 1)]))"
proof -
  let ?xs = "[OpenWait True (demo_wait ''a''), OpenWait True (demo_wait ''b''), CloseWait ''job'' ''a'']"
  have "wt_ok (demo_wait ''a'')" "wt_ok (demo_wait ''b'')"
    by (simp_all add: wt_ok_def clean_def demo_wait_def default_policy_def WAIT_KIND_JOB_def ON_TARGET_FAILED_FAIL_OWNER_def py_strip_def is_space_def)
  then have ok: "list_all wait_op_ok ?xs" by simp
  have rep: "waits_rep [(''x'', VInt 1)] []" by (simp add: waits_rep_def STATE_KEY_WAIT_INTERESTS_def)
  obtain as st where run: "wait_run (\<lambda>_. ''?'') ''t'' ?xs [(''x'', VInt 1)] = (as, st)" by fastforce
  have "as = [Some (demo_wait ''a''), Some (demo_wait ''b''), Some (demo_wait ''a'')]"
    using waits_refine_map [OF rep ok run] by (simp add: interests_def demo_wait_def WAIT_KIND_JOB_def)
  then show ?thesis using run by simp
qed

end
