(* ===== verification/WaitPlane.thy ===== *)
theory WaitPlane
  imports Waits Orchestration
begin

text \<open>
  The continue plane (\<open>palm/system/subsystems/planes/wait\<close>): completion events become signals
  (\<open>signals.py\<close>), an index maps targets to the jobs that wait for them (\<open>index.py\<close>), the matcher finds
  the owners of a signal and resumes or fails each (\<open>matcher.py\<close>, \<open>policy.py\<close>), delivering the result
  of the target into the owner first (\<open>deliver.py\<close>); \<open>plane.py\<close> wires this to the orchestration
  engine. The state is the engine with the fields of the plane. Resuming and applying a result are
  arguments that may change all of it, since they run user code and publish further events; the
  plane itself holds its lock for a whole signal.
\<close>

subsection \<open>Signals\<close>

definition OUTCOME_SUCCEEDED :: string where "OUTCOME_SUCCEEDED = ''succeeded''"
definition OUTCOME_FAILED :: string where "OUTCOME_FAILED = ''failed''"
definition OUTCOME_CANCELLED :: string where "OUTCOME_CANCELLED = ''cancelled''"
definition OUTCOME_READY :: string where "OUTCOME_READY = ''ready''"

lemmas outcome_defs = OUTCOME_SUCCEEDED_def OUTCOME_FAILED_def OUTCOME_CANCELLED_def OUTCOME_READY_def

definition POSITIVE_OUTCOMES :: "string list" where "POSITIVE_OUTCOMES = [OUTCOME_SUCCEEDED, OUTCOME_READY]"
definition NEGATIVE_OUTCOMES :: "string list" where "NEGATIVE_OUTCOMES = [OUTCOME_FAILED, OUTCOME_CANCELLED]"

definition MATCHER_EVENT_TYPES :: "string list" where
  "MATCHER_EVENT_TYPES = [''job.completed'', ''job.status_changed'', ''flow.session.succeeded'', ''flow.session.failed'',
     ''workload.ready'', ''workload.failed'', ''workload.completed'', ''workload.stopped'']"

record target_signal =
  sg_kind :: string
  sg_target :: string
  sg_outcome :: string
  sg_event_type :: string
  sg_status :: "string option"

text \<open>\<open>str.upper\<close> on the letters of ASCII.\<close>

definition upper_char :: "char \<Rightarrow> char" where
  "upper_char c = (let n = of_char c :: nat in if 97 \<le> n \<and> n \<le> 122 then char_of (n - 32) else c)"

definition status_outcome :: "string option \<Rightarrow> string option" where
  "status_outcome st = (case st of None \<Rightarrow> None | Some t \<Rightarrow>
     (let s = map upper_char t in
      if s \<in> {''SUCCEEDED'', ''SUCCESS'', ''DONE'', ''COMPLETED''} then Some OUTCOME_SUCCEEDED
      else if s \<in> {''FAILED'', ''ERROR''} then Some OUTCOME_FAILED
      else if s \<in> {''CANCELLED'', ''CANCELED''} then Some OUTCOME_CANCELLED
      else None))"

definition workload_target :: "pydict \<Rightarrow> pyval" where
  "workload_target d = py_or (py_or (py_get d ''workload_id'') (py_get d ''target_id'')) (py_get d ''id'')"

definition flow_signal :: "(pyval \<Rightarrow> string) \<Rightarrow> string \<Rightarrow> pydict \<Rightarrow> string \<Rightarrow> string \<Rightarrow> target_signal option" where
  "flow_signal r et d outcome st =
     (if \<not> truthy (py_get d ''job_id'') then None
      else Some \<lparr>sg_kind = WAIT_KIND_JOB, sg_target = py_str r (py_get d ''job_id''), sg_outcome = outcome, sg_event_type = et,
        sg_status = Some (py_str r (py_or (py_get d ''status'') (VStr st)))\<rparr>)"

definition job_signal :: "(pyval \<Rightarrow> string) \<Rightarrow> string \<Rightarrow> pydict \<Rightarrow> target_signal option" where
  "job_signal r et d =
     (if \<not> truthy (py_get d ''job_id'') then None
      else case status_outcome (opt_text r (py_get d ''status'')) of
        None \<Rightarrow> None
      | Some out \<Rightarrow> Some \<lparr>sg_kind = WAIT_KIND_JOB, sg_target = py_str r (py_get d ''job_id''), sg_outcome = out, sg_event_type = et,
          sg_status = opt_text r (py_get d ''status'')\<rparr>)"

definition workload_signal :: "(pyval \<Rightarrow> string) \<Rightarrow> string \<Rightarrow> pydict \<Rightarrow> string \<Rightarrow> string \<Rightarrow> target_signal option" where
  "workload_signal r et d outcome st =
     (if \<not> truthy (workload_target d) then None
      else Some \<lparr>sg_kind = WAIT_KIND_WORKLOAD, sg_target = py_str r (workload_target d), sg_outcome = outcome, sg_event_type = et,
        sg_status = Some (py_str r (py_or (py_get d ''status'') (VStr st)))\<rparr>)"

text \<open>Without a status the exit code decides; one that is not a number raises.\<close>

definition exit_outcome :: "pyval \<Rightarrow> string result" where
  "exit_outcome code = (if code = VNone then Inr OUTCOME_SUCCEEDED
     else attempt (py_int code) (\<lambda>n. Inr (if n \<noteq> 0 then OUTCOME_FAILED else OUTCOME_SUCCEEDED)))"

definition stopped_signal :: "(pyval \<Rightarrow> string) \<Rightarrow> string \<Rightarrow> pydict \<Rightarrow> target_signal option result" where
  "stopped_signal r et d =
     (if \<not> truthy (workload_target d) then Inr None
      else attempt (case status_outcome (opt_text r (py_get d ''status'')) of
          Some out \<Rightarrow> Inr out
        | None \<Rightarrow> exit_outcome (py_get d ''exit_code''))
      (\<lambda>out. Inr (Some \<lparr>sg_kind = WAIT_KIND_WORKLOAD, sg_target = py_str r (workload_target d), sg_outcome = out, sg_event_type = et,
        sg_status = opt_text r (py_get d ''status'')\<rparr>)))"

definition extract_target_signal :: "(pyval \<Rightarrow> string) \<Rightarrow> string \<Rightarrow> pydict \<Rightarrow> target_signal option result" where
  "extract_target_signal r et d =
     (if et = ''flow.session.succeeded'' then Inr (flow_signal r et d OUTCOME_SUCCEEDED ''SUCCEEDED'')
      else if et = ''flow.session.failed'' then Inr (flow_signal r et d OUTCOME_FAILED ''FAILED'')
      else if et \<in> {''job.completed'', ''job.status_changed''} then Inr (job_signal r et d)
      else if et = ''workload.ready'' then Inr (workload_signal r et d OUTCOME_READY ''READY'')
      else if et = ''workload.failed'' then Inr (workload_signal r et d OUTCOME_FAILED ''FAILED'')
      else if et \<in> {''workload.completed'', ''workload.stopped''} then stopped_signal r et d
      else Inr None)"

subsection \<open>Policy\<close>

definition ACTION_RESUME_OWNER :: string where "ACTION_RESUME_OWNER = ''resume_owner''"
definition ACTION_FAIL_OWNER :: string where "ACTION_FAIL_OWNER = ''fail_owner''"
definition ACTION_NOOP :: string where "ACTION_NOOP = ''noop''"

lemmas action_defs = ACTION_RESUME_OWNER_def ACTION_FAIL_OWNER_def ACTION_NOOP_def

definition resolve_wait_action :: "wait_interest \<Rightarrow> target_signal \<Rightarrow> string" where
  "resolve_wait_action it sg =
     (if sg_outcome sg \<in> set POSITIVE_OUTCOMES then ACTION_RESUME_OWNER
      else if sg_outcome sg \<in> set NEGATIVE_OUTCOMES
      then (if on_target_failed (wt_policy it) = ON_TARGET_FAILED_LEAVE then ACTION_NOOP else ACTION_FAIL_OWNER)
      else ACTION_NOOP)"

subsection \<open>The index of owners\<close>

type_synonym wait_index = "(string \<times> string, string list) dict"

definition owners_at :: "wait_index \<Rightarrow> string \<times> string \<Rightarrow> string list" where
  "owners_at ix k = (case dict_get ix k of Some os \<Rightarrow> os | None \<Rightarrow> [])"

definition idx_register :: "string \<Rightarrow> wait_interest \<Rightarrow> wait_index \<Rightarrow> wait_index" where
  "idx_register i w ix = (let os = owners_at ix (wt_key w) in dict_set (wt_key w) (if i \<in> set os then os else os @ [i]) ix)"

definition idx_unregister :: "string \<Rightarrow> string \<Rightarrow> string \<Rightarrow> wait_index \<Rightarrow> wait_index" where
  "idx_unregister i kind target ix =
     (let os = owners_at ix (kind, target); rest = filter (\<lambda>x. x \<noteq> i) os in
      if os = [] then ix else if rest = [] then dict_pop (kind, target) ix else dict_set (kind, target) rest ix)"

definition idx_unregister_all :: "string \<Rightarrow> wait_index \<Rightarrow> nat \<times> wait_index" where
  "idx_unregister_all i ix =
     (length (filter (\<lambda>(k, os). i \<in> set os) ix),
      filter (\<lambda>(k, os). os \<noteq> []) (map (\<lambda>(k, os). (k, filter (\<lambda>x. x \<noteq> i) os)) ix))"

definition owners_for :: "string \<Rightarrow> string \<Rightarrow> wait_index \<Rightarrow> string set" where
  "owners_for kind target ix = set (owners_at ix (kind, target))"

definition idx_size :: "wait_index \<Rightarrow> nat" where
  "idx_size ix = sum_list (map (length \<circ> snd) ix)"

text \<open>The bounded memory of keys: a key seen before moves to the end, a new one may push out the oldest.\<close>

definition lru_add :: "nat \<Rightarrow> string \<Rightarrow> string list \<Rightarrow> bool \<times> string list" where
  "lru_add mx k ks =
     (if k \<in> set ks then (False, remove1 k ks @ [k])
      else let ks' = ks @ [k] in (True, drop (length ks' - mx) ks'))"

definition MAX_SEEN_EVENT_IDS :: nat where "MAX_SEEN_EVENT_IDS = 512"
definition MAX_ACTED_KEYS :: nat where "MAX_ACTED_KEYS = 512"

subsection \<open>State and collaborators\<close>

record 'm wait_world =
  wo_engine :: "'m engine"
  wo_index :: wait_index
  wo_wired :: bool
  wo_seen :: "string list"
  wo_acted :: "string list"
  wo_refused :: nat

type_synonym ('m, 'a) weff = "'m wait_world \<Rightarrow> 'a result \<times> 'm wait_world"

record 'm deliverer =
  dv_name :: string
  dv_matches :: "wait_interest \<Rightarrow> bool result"
  dv_run :: "nat \<Rightarrow> wait_interest \<Rightarrow> ('m, bool) weff"

record 'm continue_ops =
  co_resume :: "string \<Rightarrow> ('m, unit) weff"
  co_apply :: "nat \<Rightarrow> run_result \<Rightarrow> ('m, unit) weff"
  co_able :: "'m wait_world \<Rightarrow> bool result"
  co_deliverers :: "'m deliverer list"

definition on_engine :: "('m, 'a) eff \<Rightarrow> ('m, 'a) weff" where
  "on_engine f w = (case f (wo_engine w) of (x, e) \<Rightarrow> (x, w\<lparr>wo_engine := e\<rparr>))"

text \<open>\<open>get_job\<close> of the plane: an exception is an absent job.\<close>

definition wo_job :: "'m wait_world \<Rightarrow> string \<Rightarrow> nat option" where
  "wo_job w i = (case get_job (wo_engine w) i of Inr ref \<Rightarrow> Some ref | Inl _ \<Rightarrow> None)"

definition waits_of :: "string \<Rightarrow> nat \<Rightarrow> 'm engine \<Rightarrow> wait_interest list" where
  "waits_of now ref e = list_wait_interests (text_of e) now (jstate (heap e ref))"

definition close_wait_on_job :: "string \<Rightarrow> nat \<Rightarrow> string \<Rightarrow> string \<Rightarrow> 'm engine \<Rightarrow> wait_interest option \<times> 'm engine" where
  "close_wait_on_job now ref kind target e =
     (case close_wait_interest (text_of e) now kind target (jstate (heap e ref)) of
        (c, st) \<Rightarrow> (c, set_job ref ((heap e ref)\<lparr>jstate := st\<rparr>) e))"

definition open_wait_on_job :: "string \<Rightarrow> nat \<Rightarrow> bool \<Rightarrow> wait_interest \<Rightarrow> 'm engine \<Rightarrow> wait_interest \<times> 'm engine" where
  "open_wait_on_job now ref replace it e =
     (case open_wait_interest (text_of e) now replace it (jstate (heap e ref)) of
        (c, st) \<Rightarrow> (c, set_job ref ((heap e ref)\<lparr>jstate := st\<rparr>) e))"

subsection \<open>Delivery\<close>

definition NESTED_WIZARD_SOURCE :: string where "NESTED_WIZARD_SOURCE = ''nested_wizard''"

definition is_nested_wizard_interest :: "wait_interest \<Rightarrow> bool" where
  "is_nested_wizard_interest it = (wt_kind it = WAIT_KIND_JOB \<and> py_get (wt_meta it) ''source'' = VStr NESTED_WIZARD_SOURCE)"

text \<open>The result of the child goes into the state of the owner under the output key of the interest.\<close>

definition deliver_nested_wizard :: "nat \<Rightarrow> wait_interest \<Rightarrow> ('m, bool) weff" where
  "deliver_nested_wizard owner it w =
     (let r = text_of (wo_engine w); output_key = py_get (wt_meta it) ''output_key'' in
      if \<not> is_nested_wizard_interest it \<or> \<not> truthy output_key then (Inr False, w)
      else case wo_job w (wt_target it) of
        None \<Rightarrow> (Inr False, w)
      | Some ref \<Rightarrow>
         (let child = heap (wo_engine w) ref; own = heap (wo_engine w) owner in
          if status child \<noteq> SUCCEEDED then (Inr False, w)
          else case py_dict (py_or (py_get (wt_meta it) ''child_payload'') (VDict [])) of
            Inl x \<Rightarrow> (Inl x, w)
          | Inr payload \<Rightarrow>
             (let res = (if jresult child = VNone then js_get (jstate child) ''__wizard__.commit_result'' VNone else jresult child);
                  full = dict_update payload [(''job_id'', VStr (jid child)), (''instance_id'', py_get (metadata child) ''instance_id''),
                    (''status'', VStr (status_value (status child))), (''result'', res), (''nested_park'', VBool False),
                    (''delivered_by'', VStr ''wait_plane'')]
              in (Inr True, w\<lparr>wo_engine := set_job owner
                    (own\<lparr>jstate := js_set (py_str r output_key) (VDict full) (jstate own)\<rparr>) (wo_engine w)\<rparr>))))"

definition nested_wizard_deliverer :: "'m deliverer" where
  "nested_wizard_deliverer = \<lparr>dv_name = ''nested_wizard'', dv_matches = (\<lambda>it. Inr (is_nested_wizard_interest it)),
     dv_run = deliver_nested_wizard\<rparr>"

text \<open>The registry of deliverers, in the order in which they are tried.\<close>

definition matcher_of :: "(wait_interest \<Rightarrow> bool result) option \<Rightarrow> string option \<Rightarrow> string option \<Rightarrow> (wait_interest \<Rightarrow> bool result) option" where
  "matcher_of matches kind source = (case matches of
     Some m \<Rightarrow> Some m
   | None \<Rightarrow> (case source of
       Some s \<Rightarrow> Some (\<lambda>it. Inr ((case kind of Some k \<Rightarrow> wt_kind it = k | None \<Rightarrow> True) \<and> py_get (wt_meta it) ''source'' = VStr s))
     | None \<Rightarrow> (case kind of Some k \<Rightarrow> Some (\<lambda>it. Inr (wt_kind it = k)) | None \<Rightarrow> None)))"

definition register_wait_deliverer :: "string \<Rightarrow> (nat \<Rightarrow> wait_interest \<Rightarrow> ('m, bool) weff) \<Rightarrow> (wait_interest \<Rightarrow> bool result) option
    \<Rightarrow> string option \<Rightarrow> string option \<Rightarrow> 'm deliverer list \<Rightarrow> 'm deliverer list result" where
  "register_wait_deliverer name fn matches kind source ds =
     (case matcher_of matches kind source of
        None \<Rightarrow> Inl (Exc PyValueError ''register_wait_deliverer requires matches=, kind=, and/or source='')
      | Some m \<Rightarrow>
         (let key = py_strip name in
          if key = [] then Inl (Exc PyValueError ''deliverer name must be non-empty'')
          else Inr (filter (\<lambda>d. dv_name d \<noteq> key) ds @ [\<lparr>dv_name = key, dv_matches = m, dv_run = fn\<rparr>])))"

definition unregister_wait_deliverer :: "string \<Rightarrow> 'm deliverer list \<Rightarrow> bool \<times> 'm deliverer list" where
  "unregister_wait_deliverer name ds =
     (let rest = filter (\<lambda>d. dv_name d \<noteq> py_strip name) ds in (length rest < length ds, rest))"

definition clear_wait_deliverers :: "bool \<Rightarrow> 'm deliverer list" where
  "clear_wait_deliverers restore_defaults = (if restore_defaults then [nested_wizard_deliverer] else [])"

text \<open>The first matching deliverer that answers true ends the search; one that raises is skipped.\<close>

fun deliver_wait_completion :: "'m deliverer list \<Rightarrow> nat \<Rightarrow> wait_interest \<Rightarrow> 'm wait_world \<Rightarrow> bool \<times> 'm wait_world" where
  "deliver_wait_completion [] owner it w = (False, w)"
| "deliver_wait_completion (d # ds) owner it w = (case dv_matches d it of
     Inl _ \<Rightarrow> deliver_wait_completion ds owner it w
   | Inr b \<Rightarrow> if \<not> b then deliver_wait_completion ds owner it w
       else (case dv_run d owner it w of
          (Inl _, w1) \<Rightarrow> deliver_wait_completion ds owner it w1
        | (Inr done, w1) \<Rightarrow> if done then (True, w1) else deliver_wait_completion ds owner it w1))"

subsection \<open>Resuming and failing an owner\<close>

definition is_able :: "'m continue_ops \<Rightarrow> 'm wait_world \<Rightarrow> bool" where
  "is_able ops w = (case co_able ops w of Inr b \<Rightarrow> b | Inl _ \<Rightarrow> False)"

definition drop_wait :: "string \<Rightarrow> nat \<Rightarrow> string \<Rightarrow> wait_interest \<Rightarrow> 'm wait_world \<Rightarrow> 'm wait_world" where
  "drop_wait now ref owner it w = w\<lparr>wo_engine := snd (close_wait_on_job now ref (wt_kind it) (wt_target it) (wo_engine w)),
     wo_index := idx_unregister owner (wt_kind it) (wt_target it) (wo_index w)\<rparr>"

definition admission_refused :: exc where
  "admission_refused = Exc AdmissionRefusedError ''admission refused: no snapshot''"

definition resume_owner :: "'m continue_ops \<Rightarrow> string \<Rightarrow> string \<Rightarrow> wait_interest \<Rightarrow> ('m, unit) weff" where
  "resume_owner ops now owner it w = (case wo_job w owner of
     None \<Rightarrow> (Inr (), w)
   | Some ref \<Rightarrow>
      if \<not> is_able ops w
      then (let w1 = w\<lparr>wo_refused := Suc (wo_refused w)\<rparr> in
            case (if is_terminal (heap (wo_engine w1) ref) then (Inr (), w1)
                  else co_apply ops ref ((plain_result FAILED)\<lparr>rr_error := Some admission_refused\<rparr>) w1) of
              (Inl x, w2) \<Rightarrow> (Inl x, w2)
            | (Inr _, w2) \<Rightarrow> (Inr (), drop_wait now ref owner it w2))
      else (let w1 = drop_wait now ref owner it (snd (deliver_wait_completion (co_deliverers ops) ref it w)) in
            if status (heap (wo_engine w1) ref) \<noteq> WAITING_FOR_INPUT then (Inr (), w1) else co_resume ops owner w1))"

definition fail_owner :: "'m continue_ops \<Rightarrow> string \<Rightarrow> target_signal \<Rightarrow> ('m, unit) weff" where
  "fail_owner ops owner sg w = (case wo_job w owner of
     None \<Rightarrow> (Inr (), w)
   | Some ref \<Rightarrow>
      if is_terminal (heap (wo_engine w) ref) then (Inr (), w)
      else co_apply ops ref ((plain_result FAILED)\<lparr>rr_error := Some (Exc PyRuntimeError
        (''Wait target '' @ sg_kind sg @ '':'' @ sg_target sg @ '' ended with '' @ sg_outcome sg))\<rparr>) w)"

subsection \<open>The matcher\<close>

record disposition =
  di_owner :: string
  di_interest :: wait_interest
  di_signal :: target_signal
  di_action :: string

definition open_interest :: "string \<Rightarrow> string \<Rightarrow> target_signal \<Rightarrow> 'm wait_world \<Rightarrow> wait_interest option" where
  "open_interest now owner sg w = (case wo_job w owner of
     None \<Rightarrow> None
   | Some ref \<Rightarrow> find (wt_matches (sg_kind sg) (sg_target sg)) (waits_of now ref (wo_engine w)))"

definition close_interest :: "string \<Rightarrow> string \<Rightarrow> wait_interest \<Rightarrow> 'm wait_world \<Rightarrow> 'm wait_world" where
  "close_interest now owner it w = (case wo_job w owner of
     None \<Rightarrow> w\<lparr>wo_index := idx_unregister owner (wt_kind it) (wt_target it) (wo_index w)\<rparr>
   | Some ref \<Rightarrow> drop_wait now ref owner it w)"

definition acted_key :: "string \<Rightarrow> wait_interest \<Rightarrow> string \<Rightarrow> string" where
  "acted_key owner it action = owner @ ''|'' @ wt_kind it @ ''|'' @ wt_target it @ ''|'' @ action"

definition match_one_owner :: "'m continue_ops \<Rightarrow> string \<Rightarrow> target_signal \<Rightarrow> string \<Rightarrow> ('m, disposition option) weff" where
  "match_one_owner ops now sg owner w = (case open_interest now owner sg w of
     None \<Rightarrow> (Inr None, w\<lparr>wo_index := idx_unregister owner (sg_kind sg) (sg_target sg) (wo_index w)\<rparr>)
   | Some it \<Rightarrow>
      (let action = resolve_wait_action it sg;
           disp = \<lparr>di_owner = owner, di_interest = it, di_signal = sg, di_action = action\<rparr> in
       if action = ACTION_NOOP then (Inr (Some disp), w)
       else case lru_add MAX_ACTED_KEYS (acted_key owner it action) (wo_acted w) of (fresh, acted) \<Rightarrow>
         (let w1 = w\<lparr>wo_acted := acted\<rparr> in
          if \<not> fresh then (Inr None, w1)
          else case (if action = ACTION_RESUME_OWNER then resume_owner ops now owner it w1 else fail_owner ops owner sg w1) of
            (Inl x, w2) \<Rightarrow> (Inl x, w2)
          | (Inr _, w2) \<Rightarrow> (Inr (Some disp), close_interest now owner it w2))))"

definition scan_owners :: "string \<Rightarrow> target_signal \<Rightarrow> 'm wait_world \<Rightarrow> string list" where
  "scan_owners now sg w =
     map (\<lambda>ref. jid (heap (wo_engine w) ref))
       (filter (\<lambda>ref. list_ex (wt_matches (sg_kind sg) (sg_target sg)) (waits_of now ref (wo_engine w))
            \<and> jid (heap (wo_engine w) ref) \<noteq> []) (map snd (jobs (wo_engine w))))"

fun match_owners :: "'m continue_ops \<Rightarrow> string \<Rightarrow> target_signal \<Rightarrow> string list \<Rightarrow> ('m, disposition list) weff" where
  "match_owners ops now sg [] w = (Inr [], w)"
| "match_owners ops now sg (i # is) w = (case match_one_owner ops now sg i w of
     (Inl x, w1) \<Rightarrow> (Inl x, w1)
   | (Inr d, w1) \<Rightarrow> map_prod (map_sum id (\<lambda>ds. (case d of None \<Rightarrow> ds | Some x \<Rightarrow> x # ds))) id (match_owners ops now sg is w1))"

definition handle_signal :: "'m continue_ops \<Rightarrow> string \<Rightarrow> target_signal \<Rightarrow> ('m, disposition list) weff" where
  "handle_signal ops now sg w =
     match_owners ops now sg (sort (remdups (owners_at (wo_index w) (sg_kind sg, sg_target sg) @ scan_owners now sg w))) w"

definition handle_payload :: "'m continue_ops \<Rightarrow> string \<Rightarrow> string option \<Rightarrow> string \<Rightarrow> pydict \<Rightarrow> ('m, disposition list) weff" where
  "handle_payload ops now event_id et payload w =
     (case (case event_id of None \<Rightarrow> (True, wo_seen w) | Some i \<Rightarrow> lru_add MAX_SEEN_EVENT_IDS i (wo_seen w)) of (fresh, seen) \<Rightarrow>
       (let w1 = w\<lparr>wo_seen := seen\<rparr> in
        if \<not> wo_wired w then (Inr [], w)
        else if \<not> fresh then (Inr [], w1)
        else case extract_target_signal (text_of (wo_engine w1)) et payload of
          Inl x \<Rightarrow> (Inl x, w1)
        | Inr None \<Rightarrow> (Inr [], w1)
        | Inr (Some sg) \<Rightarrow> handle_signal ops now sg w1))"

definition handle_event :: "'m continue_ops \<Rightarrow> string \<Rightarrow> event \<Rightarrow> ('m, disposition list) weff" where
  "handle_event ops now ev = handle_payload ops now (Some (ev_id ev)) (ev_type ev) (ev_payload ev)"

subsection \<open>The plane\<close>

definition register_all :: "string \<Rightarrow> wait_interest list \<Rightarrow> wait_index \<Rightarrow> wait_index" where
  "register_all i ws ix = fold (idx_register i) ws ix"

definition rebuild_index :: "string \<Rightarrow> 'm wait_world \<Rightarrow> nat \<times> 'm wait_world" where
  "rebuild_index now w =
     (let refs = (if wo_wired w then map snd (jobs (wo_engine w)) else []); e = wo_engine w in
      (sum_list (map (\<lambda>ref. length (waits_of now ref e)) refs),
       w\<lparr>wo_index := fold (\<lambda>ref. register_all (jid (heap e ref)) (waits_of now ref e)) refs []\<rparr>))"

definition wait_detach :: "'m wait_world \<Rightarrow> 'm wait_world" where
  "wait_detach w = w\<lparr>wo_wired := False, wo_seen := [], wo_acted := [], wo_index := []\<rparr>"

definition wait_attach :: "string \<Rightarrow> 'm wait_world \<Rightarrow> 'm wait_world" where
  "wait_attach now w =
     snd (rebuild_index now ((if wo_wired w then wait_detach w else w)\<lparr>wo_wired := True, wo_seen := [], wo_acted := [], wo_refused := 0\<rparr>))"

definition open_on_job :: "string \<Rightarrow> nat \<Rightarrow> bool \<Rightarrow> wait_interest \<Rightarrow> 'm wait_world \<Rightarrow> wait_interest \<times> 'm wait_world" where
  "open_on_job now ref replace it w = (case open_wait_on_job now ref replace it (wo_engine w) of
     (opened, e) \<Rightarrow> (opened, w\<lparr>wo_engine := e, wo_index := idx_register (jid (heap e ref)) opened (wo_index w)\<rparr>))"

definition close_on_job :: "string \<Rightarrow> nat \<Rightarrow> string \<Rightarrow> string \<Rightarrow> 'm wait_world \<Rightarrow> wait_interest option \<times> 'm wait_world" where
  "close_on_job now ref kind target w = (case close_wait_on_job now ref kind target (wo_engine w) of
     (cl, e) \<Rightarrow> (cl, w\<lparr>wo_engine := e, wo_index := idx_unregister (jid (heap e ref)) kind target (wo_index w)\<rparr>))"

definition rehydrate_job :: "string \<Rightarrow> nat \<Rightarrow> 'm wait_world \<Rightarrow> wait_interest list \<times> 'm wait_world" where
  "rehydrate_job now ref w =
     (let e = wo_engine w; j = heap e ref in
      case rehydrate_wait_interests (text_of e) now (jstate j) of (ws, st) \<Rightarrow>
        (ws, w\<lparr>wo_engine := set_job ref (j\<lparr>jstate := st\<rparr>) e,
               wo_index := register_all (jid j) ws (snd (idx_unregister_all (jid j) (wo_index w)))\<rparr>))"

subsection \<open>Presentation\<close>

text \<open>The rows that operators see (\<open>present.py\<close>).\<close>

definition SHOWN_META :: "string list" where
  "SHOWN_META = [''source'', ''step_slug'', ''output_key'', ''child_instance_id'', ''child_status'', ''resource_ref'']"

definition waiting_on_row :: "wait_interest \<Rightarrow> pydict" where
  "waiting_on_row it =
     (let row = [(''kind'', VStr (wt_kind it)), (''target_id'', VStr (wt_target it)), (''opened_at'', VStr (wt_opened_at it)),
            (''on_target_failed'', VStr (on_target_failed (wt_policy it)))];
          meta = wt_meta it
      in if meta = [] then row
         else dict_set ''meta'' (VDict meta)
           (fold (\<lambda>k d. if py_get meta k \<noteq> VNone then dict_set k (py_get meta k) d else d) SHOWN_META row))"

definition waiting_on_from_job :: "string \<Rightarrow> nat \<Rightarrow> 'm engine \<Rightarrow> pydict list" where
  "waiting_on_from_job now ref e = map waiting_on_row (waits_of now ref e)"

definition summarize_waiting_on :: "pydict list \<Rightarrow> pydict option" where
  "summarize_waiting_on rows = (case rows of
     [] \<Rightarrow> None
   | first # _ \<Rightarrow>
      (let s0 = [(''count'', VInt (int (length rows))), (''kind'', py_get first ''kind''), (''target_id'', py_get first ''target_id'')];
           s1 = (if py_get first ''source'' \<noteq> VNone then dict_set ''source'' (py_get first ''source'') s0 else s0)
       in Some (if py_get first ''step_slug'' \<noteq> VNone then dict_set ''step_slug'' (py_get first ''step_slug'') s1 else s1)))"

definition child_projection :: "pydict list \<Rightarrow> pydict option" where
  "child_projection rows = (case rows of
     [] \<Rightarrow> None
   | first # _ \<Rightarrow>
      (let put = (\<lambda>k v d. if truthy v then dict_set k v d else d);
           child = put ''status'' (py_get first ''child_status'')
             (put ''instance_id'' (py_get first ''child_instance_id'') (put ''job_id'' (py_get first ''target_id'') []))
       in if child = [] then None else Some child))"

end
