(* ===== verification/WaitPlaneProps.thy ===== *)
theory WaitPlaneProps
  imports WaitPlane Queued
begin

text \<open>
  Properties of the continue plane: a completion serves every waiting owner, a plane that is not able
  fails its owners instead of resuming them, and two ways in which a wait is never answered.
\<close>

subsection \<open>A plane that is not able\<close>

lemma able_of_resume: "is_able (ops\<lparr>co_resume := f\<rparr>) = is_able ops"
  by (rule ext) (simp add: is_able_def)

lemma apply_of_resume: "co_apply (ops\<lparr>co_resume := f\<rparr>) = co_apply ops"
  by simp

lemma fail_of_resume: "fail_owner (ops\<lparr>co_resume := f\<rparr>) = fail_owner ops"
  unfolding fail_owner_def apply_of_resume by (rule refl)

lemma match_unable:
  assumes "\<forall>w. \<not> is_able ops w"
  shows "match_one_owner (ops\<lparr>co_resume := f\<rparr>) = match_one_owner ops"
proof -
  have "resume_owner (ops\<lparr>co_resume := f\<rparr>) now i it w = resume_owner ops now i it w" for now i it w
    unfolding resume_owner_def able_of_resume apply_of_resume using assms by (cases "wo_job w i") simp_all
  then have same: "resume_owner (ops\<lparr>co_resume := f\<rparr>) = resume_owner ops" by blast
  show ?thesis unfolding match_one_owner_def fail_of_resume same by (rule refl)
qed

lemma match_owners_unable:
  assumes "\<forall>w. \<not> is_able ops w"
  shows "match_owners (ops\<lparr>co_resume := f\<rparr>) now sg is w = match_owners ops now sg is w"
proof (induction "is" arbitrary: w)
  case (Cons i ks)
  show ?case unfolding match_owners.simps match_unable [OF assms] Cons ..
qed simp

definition engine_ops :: "'m mode \<Rightarrow> 'm job_hook list \<Rightarrow> ('m wait_world \<Rightarrow> bool result) \<Rightarrow> 'm deliverer list \<Rightarrow> 'm continue_ops" where
  "engine_ops m hs able ds = \<lparr>co_resume = (\<lambda>i. on_engine (resume_job m i)), co_apply = (\<lambda>ref res. on_engine (apply_result hs ref res)),
     co_able = able, co_deliverers = ds\<rparr>"

lemma publish_heap: "heap (publish_job_status ref e) = heap e" "jobs (publish_job_status ref e) = jobs e"
    "text_of (publish_job_status ref e) = text_of e"
  by (auto simp: publish_job_status_def emit_flow_session_terminal_def emit_def Let_def)

text \<open>Hooks that do not react to a change of status, as the hook that authorizes drives.\<close>

definition silent_hooks :: "'m job_hook list \<Rightarrow> bool" where
  "silent_hooks hs \<longleftrightarrow> (\<forall>h \<in> set hs. \<forall>ref res e. on_job_status_changed h ref res e = (Inr (), e))"

lemma auth_silent: "silent_hooks [auth_middleware a required enforce]"
  by (simp add: silent_hooks_def auth_middleware_def job_hook_adapter_def)

lemma silent_notify: "silent_hooks hs \<Longrightarrow> notify_job_status_changed hs ref res e = (Inr (), e)"
  by (induction hs) (simp_all add: silent_hooks_def notify_job_status_changed_def)

lemma apply_failed:
  assumes "\<not> is_terminal (heap e ref)" and "silent_hooks hs"
  shows "\<exists>e'. apply_result hs ref ((plain_result FAILED)\<lparr>rr_error := Some x\<rparr>) e = (Inr (), e') \<and> jobs e' = jobs e \<and> text_of e' = text_of e
    \<and> heap e' = (heap e)(ref := (heap e ref)\<lparr>completed_at := Some (clock e), jerror := Some x, status := FAILED\<rparr>)"
proof -
  have "status (heap e ref) \<in> {PENDING, RUNNING, WAITING_FOR_INPUT}"
    using assms by (cases "status (heap e ref)") (simp_all add: is_terminal_def)
  then show ?thesis
    by (auto simp: apply_result_def plain_result_def transition_to_def is_valid_transition_def is_terminal_def Let_def
        silent_notify [OF assms(2)] publish_heap set_job_def)
qed

text \<open>
  C28. A plane that is not able fails closed. First, whatever resuming a job would do, handling an
  event gives the same answer and the same state: no owner is ever resumed. Second, take an owner
  that is known and not terminal, has an open wait for the target, and is not remembered as resumed
  for that target before, and hooks that do not react to a change of status (as the hook that
  authorizes drives): a positive signal fails it with \<open>AdmissionRefusedError\<close> and
  counts the refusal. An owner that is remembered is neither resumed nor failed, see
  \<open>second_wait_is_never_served\<close>.
\<close>

theorem unable_plane_fails_closed:
  assumes "\<forall>w. \<not> is_able ops w"
  shows "handle_payload (ops\<lparr>co_resume := f\<rparr>) now ev et payload w = handle_payload ops now ev et payload w
    \<and> (wo_job w i = Some ref \<and> \<not> is_terminal (heap (wo_engine w) ref) \<and> open_interest now i sg w = Some it
        \<and> sg_outcome sg \<in> set POSITIVE_OUTCOMES \<and> acted_key i it ACTION_RESUME_OWNER \<notin> set (wo_acted w)
        \<and> silent_hooks hs \<and> co_apply ops = (\<lambda>ref res. on_engine (apply_result hs ref res)) \<longrightarrow>
      (\<exists>d w'. match_one_owner ops now sg i w = (Inr (Some d), w') \<and> status (heap (wo_engine w') ref) = FAILED
        \<and> jerror (heap (wo_engine w') ref) = Some admission_refused \<and> wo_refused w' = Suc (wo_refused w)))"
proof (intro conjI impI)
  show "handle_payload (ops\<lparr>co_resume := f\<rparr>) now ev et payload w = handle_payload ops now ev et payload w"
    unfolding handle_payload_def handle_signal_def match_owners_unable [OF assms] by (rule refl)
next
  assume "wo_job w i = Some ref \<and> \<not> is_terminal (heap (wo_engine w) ref) \<and> open_interest now i sg w = Some it
        \<and> sg_outcome sg \<in> set POSITIVE_OUTCOMES \<and> acted_key i it ACTION_RESUME_OWNER \<notin> set (wo_acted w)
        \<and> silent_hooks hs \<and> co_apply ops = (\<lambda>ref res. on_engine (apply_result hs ref res))"
  then have a: "wo_job w i = Some ref" "\<not> is_terminal (heap (wo_engine w) ref)" "open_interest now i sg w = Some it"
    "sg_outcome sg \<in> set POSITIVE_OUTCOMES" "acted_key i it ACTION_RESUME_OWNER \<notin> set (wo_acted w)"
    "co_apply ops = (\<lambda>ref res. on_engine (apply_result hs ref res))" "silent_hooks hs" by blast+
  have act: "resolve_wait_action it sg = ACTION_RESUME_OWNER" using a(4) by (simp add: resolve_wait_action_def)
  obtain acted where lru: "lru_add MAX_ACTED_KEYS (acted_key i it ACTION_RESUME_OWNER) (wo_acted w) = (True, acted)"
    using a(5) by (auto simp: lru_add_def Let_def)
  obtain e' where e': "apply_result hs ref ((plain_result FAILED)\<lparr>rr_error := Some admission_refused\<rparr>) (wo_engine w) = (Inr (), e')"
    "jobs e' = jobs (wo_engine w)"
    "heap e' = (heap (wo_engine w))(ref := (heap (wo_engine w) ref)\<lparr>completed_at := Some (clock (wo_engine w)), jerror := Some admission_refused, status := FAILED\<rparr>)"
    using apply_failed [OF a(2,7)] by blast
  let ?w1 = "w\<lparr>wo_acted := acted, wo_refused := Suc (wo_refused w), wo_engine := e'\<rparr>"
  have "resume_owner ops now i it (w\<lparr>wo_acted := acted\<rparr>) = (Inr (), drop_wait now ref i it ?w1)"
    using a(1,2,6) assms e'(1) by (simp add: resume_owner_def wo_job_def on_engine_def)
  moreover have "wo_job (drop_wait now ref i it ?w1) i = Some ref"
    using a(1) e'(2) by (simp add: wo_job_def get_job_def drop_wait_def close_wait_on_job_def set_job_def split: prod.split)
  ultimately have one: "match_one_owner ops now sg i w = (Inr (Some \<lparr>di_owner = i, di_interest = it, di_signal = sg, di_action = ACTION_RESUME_OWNER\<rparr>),
      drop_wait now ref i it (drop_wait now ref i it ?w1))"
    using a(3) act lru by (simp add: match_one_owner_def close_interest_def action_defs)
  have frame: "status (heap (wo_engine (drop_wait now ref i it v)) ref) = status (heap (wo_engine v) ref)
      \<and> jerror (heap (wo_engine (drop_wait now ref i it v)) ref) = jerror (heap (wo_engine v) ref)
      \<and> wo_refused (drop_wait now ref i it v) = wo_refused v" for v
    by (simp add: drop_wait_def close_wait_on_job_def set_job_def split: prod.split)
  show "\<exists>d w'. match_one_owner ops now sg i w = (Inr (Some d), w') \<and> status (heap (wo_engine w') ref) = FAILED
        \<and> jerror (heap (wo_engine w') ref) = Some admission_refused \<and> wo_refused w' = Suc (wo_refused w)"
    unfolding one by (intro exI conjI, rule refl) (simp_all add: frame e'(3))
qed

subsection \<open>A wait that is never answered\<close>

fun payload_run :: "'m continue_ops \<Rightarrow> string \<Rightarrow> (string option \<times> string \<times> pydict) list \<Rightarrow> 'm wait_world \<Rightarrow> 'm wait_world" where
  "payload_run ops now [] w = w"
| "payload_run ops now ((ev, et, payload) # es) w = payload_run ops now es (snd (handle_payload ops now ev et payload w))"

lemma lru_known: "k \<in> set ks \<Longrightarrow> \<exists>ks'. lru_add mx k ks = (False, ks') \<and> set ks' = set ks"
  by (auto simp: lru_add_def insert_absorb dest: in_set_remove1)
    (metis in_set_remove1)+

text \<open>Only \<open>i\<close> waits for the target, and it was resumed for that target before.\<close>

definition stuck :: "string \<Rightarrow> string \<Rightarrow> string \<Rightarrow> string \<Rightarrow> 'm wait_world \<Rightarrow> bool" where
  "stuck now i knd target w \<longleftrightarrow> wo_wired w
     \<and> (\<exists>it ref. wo_job w i = Some ref \<and> find (wt_matches knd target) (waits_of now ref (wo_engine w)) = Some it)
     \<and> (\<forall>sg. sg_kind sg = knd \<and> sg_target sg = target \<longrightarrow> set (owners_at (wo_index w) (knd, target) @ scan_owners now sg w) \<subseteq> {i})
     \<and> i @ ''|'' @ knd @ ''|'' @ target @ ''|'' @ ACTION_RESUME_OWNER \<in> set (wo_acted w)"

lemma stuck_seen: "stuck now i knd target (w\<lparr>wo_seen := x\<rparr>) = stuck now i knd target w"
  by (simp add: stuck_def wo_job_def scan_owners_def)

lemma stuck_match:
  assumes "stuck now i (sg_kind sg) (sg_target sg) w" "sg_outcome sg \<in> set POSITIVE_OUTCOMES"
  shows "\<exists>acted. match_one_owner ops now sg i w = (Inr None, w\<lparr>wo_acted := acted\<rparr>) \<and> set acted = set (wo_acted w)"
proof -
  obtain it ref where it: "wo_job w i = Some ref" "find (wt_matches (sg_kind sg) (sg_target sg)) (waits_of now ref (wo_engine w)) = Some it"
    using assms(1) by (auto simp: stuck_def)
  have key: "wt_kind it = sg_kind sg" "wt_target it = sg_target sg"
    using it(2) by (auto simp: find_Some_iff wt_matches_def)
  then have "acted_key i it ACTION_RESUME_OWNER \<in> set (wo_acted w)" using assms(1) by (simp add: stuck_def acted_key_def)
  from lru_known [OF this, of MAX_ACTED_KEYS] obtain acted where
    "lru_add MAX_ACTED_KEYS (acted_key i it ACTION_RESUME_OWNER) (wo_acted w) = (False, acted)" "set acted = set (wo_acted w)" by blast
  then show ?thesis using it assms(2)
    by (intro exI [of _ acted]) (simp add: match_one_owner_def open_interest_def resolve_wait_action_def action_defs)
qed

lemma at_most_one: "set xs \<subseteq> {i} \<Longrightarrow> distinct xs \<Longrightarrow> xs = [] \<or> xs = [i]"
  by (cases xs rule: remdups_adj.cases) auto

lemma stuck_signal:
  assumes "stuck now i (sg_kind sg) (sg_target sg) w" "sg_outcome sg \<in> set POSITIVE_OUTCOMES"
  shows "\<exists>acted. handle_signal ops now sg w = (Inr [], w\<lparr>wo_acted := acted\<rparr>) \<and> set acted = set (wo_acted w)"
proof -
  let ?l = "sort (remdups (owners_at (wo_index w) (sg_kind sg, sg_target sg) @ scan_owners now sg w))"
  have "set ?l \<subseteq> {i}" "distinct ?l" using assms(1) by (auto simp: stuck_def)
  then have "?l = [] \<or> ?l = [i]" by (rule at_most_one)
  moreover have "\<exists>acted. match_owners ops now sg [i] w = (Inr [], w\<lparr>wo_acted := acted\<rparr>) \<and> set acted = set (wo_acted w)"
  proof -
    obtain acted where "match_one_owner ops now sg i w = (Inr None, w\<lparr>wo_acted := acted\<rparr>)" "set acted = set (wo_acted w)"
      using stuck_match [OF assms] by blast
    then show ?thesis by (intro exI [of _ acted]) simp
  qed
  moreover have "match_owners ops now sg [] w = (Inr [], w\<lparr>wo_acted := wo_acted w\<rparr>)" by simp
  ultimately show ?thesis unfolding handle_signal_def by metis
qed

text \<open>
  A second wait on the same target is never answered: the matcher remembers that it resumed \<open>i\<close>
  for the target, so when \<open>i\<close> waits for it again, as a job does that waits for a workload to be ready
  and later for its end, no sequence of further success events of the target changes anything.
\<close>

theorem second_wait_is_never_served:
  assumes "stuck now i knd target w"
    and "\<forall>(ev, et, payload) \<in> set es. \<forall>sg. extract_target_signal (text_of (wo_engine w)) et payload = Inr (Some sg) \<longrightarrow>
      sg_kind sg = knd \<and> sg_target sg = target \<and> sg_outcome sg \<in> set POSITIVE_OUTCOMES"
  shows "wo_engine (payload_run ops now es w) = wo_engine w \<and> stuck now i knd target (payload_run ops now es w)"
  using assms
proof (induction es arbitrary: w)
  case (Cons x es)
  obtain ev et payload where x: "x = (ev, et, payload)" by (cases x)
  let ?w = "snd (handle_payload ops now ev et payload w)"
  have wired: "wo_wired w" using Cons.prems(1) by (simp add: stuck_def)
  have step: "\<exists>seen acted. ?w = w\<lparr>wo_seen := seen, wo_acted := acted\<rparr> \<and> set acted = set (wo_acted w)"
  proof -
    obtain fresh seen where f: "(case ev of None \<Rightarrow> (True, wo_seen w) | Some i \<Rightarrow> lru_add MAX_SEEN_EVENT_IDS i (wo_seen w)) = (fresh, seen)"
      by fastforce
    let ?v = "w\<lparr>wo_seen := seen\<rparr>"
    have keep: "?v = w\<lparr>wo_seen := seen, wo_acted := wo_acted w\<rparr>" by simp
    show ?thesis
    proof (cases "\<exists>sg. fresh \<and> extract_target_signal (text_of (wo_engine w)) et payload = Inr (Some sg)")
      case True
      then obtain sg where sg: "fresh" "extract_target_signal (text_of (wo_engine w)) et payload = Inr (Some sg)" by blast
      have p: "sg_kind sg = knd" "sg_target sg = target" "sg_outcome sg \<in> set POSITIVE_OUTCOMES"
        using Cons.prems(2) sg(2) x by auto
      have "stuck now i (sg_kind sg) (sg_target sg) ?v" using Cons.prems(1) p by (simp add: stuck_seen)
      from stuck_signal [OF this p(3), of ops] obtain acted where
        "handle_signal ops now sg ?v = (Inr [], ?v\<lparr>wo_acted := acted\<rparr>)" "set acted = set (wo_acted w)" by auto
      then show ?thesis using f sg wired by (auto simp: handle_payload_def)
    next
      case False
      then have "?w = ?v" using f wired by (auto simp: handle_payload_def Let_def split: sum.split option.split)
      then show ?thesis using keep by metis
    qed
  qed
  then obtain seen acted where w: "?w = w\<lparr>wo_seen := seen, wo_acted := acted\<rparr>" "set acted = set (wo_acted w)" by blast
  have "stuck now i knd target ?w" using Cons.prems(1) w(2) unfolding w(1) by (simp add: stuck_def wo_job_def scan_owners_def)
  moreover have "wo_engine ?w = wo_engine w" by (simp add: w(1))
  ultimately show ?case using Cons.IH [of ?w] Cons.prems(2) x by simp
qed simp

subsection \<open>A wait that is closed unanswered\<close>

lemma drop_rep:
  assumes "waits_rep (jstate (heap (wo_engine w) ref)) ws"
  shows "\<exists>ws' st. waits_rep st ws' \<and> interests ws' = dict_pop (wt_key it) (interests ws)
    \<and> drop_wait now ref i it w = w\<lparr>wo_engine := set_job ref ((heap (wo_engine w) ref)\<lparr>jstate := st\<rparr>) (wo_engine w),
        wo_index := idx_unregister i (wt_kind it) (wt_target it) (wo_index w)\<rparr>"
proof -
  obtain ws' where ws': "waits_rep (snd (close_wait_interest (text_of (wo_engine w)) now (wt_kind it) (wt_target it) (jstate (heap (wo_engine w) ref)))) ws'"
    "interests ws' = dict_pop (wt_key it) (interests ws)"
    using wait_step [OF assms, of "CloseWait (wt_kind it) (wt_target it)" "text_of (wo_engine w)" now] by auto
  show ?thesis by (intro exI conjI, rule ws', rule ws') (simp add: drop_wait_def close_wait_on_job_def case_prod_beta)
qed

lemma open_rep:
  assumes "waits_rep (jstate (heap (wo_engine w) ref)) ws" "wt_ok it"
  shows "\<exists>ws' st. waits_rep st ws' \<and> snd (open_on_job now ref b it w)
    = w\<lparr>wo_engine := set_job ref ((heap (wo_engine w) ref)\<lparr>jstate := st\<rparr>) (wo_engine w),
        wo_index := idx_register (jid (heap (wo_engine w) ref)) (fst (open_on_job now ref b it w)) (wo_index w)\<rparr>"
proof -
  obtain ws' where ws': "waits_rep (snd (open_wait_interest (text_of (wo_engine w)) now b it (jstate (heap (wo_engine w) ref)))) ws'"
    using wait_step [OF assms(1), of "OpenWait b it" "text_of (wo_engine w)" now] assms(2) by auto
  show ?thesis by (intro exI conjI, rule ws') (simp add: open_on_job_def open_wait_on_job_def case_prod_beta set_job_def)
qed

lemma open_interest_rep:
  "wo_job w i = Some ref \<Longrightarrow> waits_rep (jstate (heap (wo_engine w) ref)) ws \<Longrightarrow>
    open_interest now i sg w = dict_get (interests ws) (sg_kind sg, sg_target sg)"
  by (simp add: open_interest_def waits_of_def list_rep find_key)

lemma wo_job_set [simp]: "wo_job (w\<lparr>wo_engine := set_job ref j (wo_engine w), wo_index := ix\<rparr>) i = wo_job w i"
  by (simp add: wo_job_def get_job_def set_job_def)

text \<open>
  A wait that is opened while its owner is resumed is closed unanswered: when the resumed owner
  parks again on the target that woke it, as it may where resuming drives the job at once, the matcher
  closes the new wait after the resume, and the owner is left waiting with no open wait.
\<close>

theorem reopened_wait_is_lost:
  assumes "wo_job w i = Some ref" and "waits_rep (jstate (heap (wo_engine w) ref)) ws" and "open_interest now i sg w = Some it"
    and "sg_outcome sg \<in> set POSITIVE_OUTCOMES" and "acted_key i it ACTION_RESUME_OWNER \<notin> set (wo_acted w)"
    and "status (heap (wo_engine w) ref) = WAITING_FOR_INPUT" and "\<forall>w. is_able ops w" and "co_deliverers ops = []"
    and "co_resume ops = (\<lambda>i w. (Inr (), snd (open_on_job now ref b it2 w)))" and "wt_ok it2" and "wt_key it2 = wt_key it"
  shows "\<exists>d w'. match_one_owner ops now sg i w = (Inr (Some d), w') \<and> di_action d = ACTION_RESUME_OWNER
    \<and> status (heap (wo_engine w') ref) = WAITING_FOR_INPUT \<and> open_interest now i sg w' = None"
proof -
  have act: "resolve_wait_action it sg = ACTION_RESUME_OWNER" using assms(4) by (simp add: resolve_wait_action_def)
  have "find (wt_matches (sg_kind sg) (sg_target sg)) (waits_of now ref (wo_engine w)) = Some it"
    using assms(1,3) by (simp add: open_interest_def)
  then have key: "wt_key it = (sg_kind sg, sg_target sg)" by (auto simp: find_Some_iff wt_matches_def)
  obtain acted where lru: "lru_add MAX_ACTED_KEYS (acted_key i it ACTION_RESUME_OWNER) (wo_acted w) = (True, acted)"
    using assms(5) by (auto simp: lru_add_def Let_def)
  let ?w = "w\<lparr>wo_acted := acted\<rparr>"
  have rep0: "waits_rep (jstate (heap (wo_engine ?w) ref)) ws" using assms(2) by simp
  obtain ws1 st1 where 1: "waits_rep st1 ws1" "drop_wait now ref i it ?w = ?w\<lparr>wo_engine := set_job ref ((heap (wo_engine ?w) ref)\<lparr>jstate := st1\<rparr>) (wo_engine ?w),
        wo_index := idx_unregister i (wt_kind it) (wt_target it) (wo_index ?w)\<rparr>" using drop_rep [OF rep0] by blast
  define w1 where "w1 = drop_wait now ref i it ?w"
  have w1: "waits_rep (jstate (heap (wo_engine w1) ref)) ws1" "wo_job w1 i = Some ref" "status (heap (wo_engine w1) ref) = WAITING_FOR_INPUT"
    using 1 assms(1,6) by (simp_all add: w1_def set_job_def wo_job_def get_job_def)
  obtain ws2 st2 where 2: "waits_rep st2 ws2" "snd (open_on_job now ref b it2 w1)
    = w1\<lparr>wo_engine := set_job ref ((heap (wo_engine w1) ref)\<lparr>jstate := st2\<rparr>) (wo_engine w1),
        wo_index := idx_register (jid (heap (wo_engine w1) ref)) (fst (open_on_job now ref b it2 w1)) (wo_index w1)\<rparr>"
    using open_rep [OF w1(1) assms(10)] by blast
  define w2 where "w2 = snd (open_on_job now ref b it2 w1)"
  have w2: "waits_rep (jstate (heap (wo_engine w2) ref)) ws2" "wo_job w2 i = Some ref" "status (heap (wo_engine w2) ref) = WAITING_FOR_INPUT"
    unfolding w2_def 2(2) using 2(1) w1(2,3) by (simp_all add: set_job_def wo_job_def get_job_def)
  obtain ws3 st3 where 3: "waits_rep st3 ws3" "interests ws3 = dict_pop (wt_key it) (interests ws2)"
    "drop_wait now ref i it w2 = w2\<lparr>wo_engine := set_job ref ((heap (wo_engine w2) ref)\<lparr>jstate := st3\<rparr>) (wo_engine w2),
        wo_index := idx_unregister i (wt_kind it) (wt_target it) (wo_index w2)\<rparr>" using drop_rep [OF w2(1)] by blast
  define w3 where "w3 = drop_wait now ref i it w2"
  have w3: "waits_rep (jstate (heap (wo_engine w3) ref)) ws3" "wo_job w3 i = Some ref" "status (heap (wo_engine w3) ref) = WAITING_FOR_INPUT"
    unfolding w3_def 3(3) using 3(1) w2(2,3) by (simp_all add: set_job_def wo_job_def get_job_def)
  have "resume_owner ops now i it ?w = (Inr (), w2)"
    using assms(1,7-9) w1(3) by (simp add: resume_owner_def wo_job_def w2_def w1_def)
  then have "match_one_owner ops now sg i w = (Inr (Some \<lparr>di_owner = i, di_interest = it, di_signal = sg, di_action = ACTION_RESUME_OWNER\<rparr>), w3)"
    using assms(3) act lru w2(2) by (simp add: match_one_owner_def close_interest_def action_defs w3_def)
  moreover have "open_interest now i sg w3 = None" using open_interest_rep [OF w3(2,1)] 3(2) key by simp
  ultimately show ?thesis using w3(3) by auto
qed

subsection \<open>A completion serves every waiter\<close>

text \<open>An effect that concerns one job only, and leaves its waits a list of interests.\<close>

definition only_job :: "nat \<Rightarrow> 'm engine \<Rightarrow> 'm engine \<Rightarrow> bool" where
  "only_job ref e e' \<longleftrightarrow> jobs e' = jobs e \<and> text_of e' = text_of e \<and> (\<forall>q. q \<noteq> ref \<longrightarrow> heap e' q = heap e q)
     \<and> jid (heap e' ref) = jid (heap e ref)
     \<and> ((\<exists>ws. waits_rep (jstate (heap e ref)) ws) \<longrightarrow> (\<exists>ws. waits_rep (jstate (heap e' ref)) ws))"

lemma only_job_trans: "only_job ref e e1 \<Longrightarrow> only_job ref e1 e2 \<Longrightarrow> only_job ref e e2"
  by (auto simp: only_job_def)

lemma only_job_refl: "only_job ref e e"
  by (simp add: only_job_def)

text \<open>
  What the collaborators promise: the plane is able, delivering and resuming act on the engine only
  and there on the record of that one job and on what belongs to no job, and resuming a parked job
  does not raise.
\<close>

definition tame :: "'m continue_ops \<Rightarrow> (string \<Rightarrow> 'm engine \<Rightarrow> 'm engine) \<Rightarrow> (nat \<Rightarrow> wait_interest \<Rightarrow> 'm engine \<Rightarrow> 'm engine) \<Rightarrow> bool" where
  "tame ops res dlv \<longleftrightarrow> (\<forall>w. is_able ops w)
     \<and> (\<forall>i w ref. wo_job w i = Some ref \<longrightarrow> status (heap (wo_engine w) ref) = WAITING_FOR_INPUT \<longrightarrow>
          co_resume ops i w = (Inr (), w\<lparr>wo_engine := res i (wo_engine w)\<rparr>))
     \<and> (\<forall>ref it w. snd (deliver_wait_completion (co_deliverers ops) ref it w) = w\<lparr>wo_engine := dlv ref it (wo_engine w)\<rparr>)
     \<and> (\<forall>i ref e. dict_get (jobs e) i = Some ref \<longrightarrow> only_job ref e (res i e)) \<and> (\<forall>ref it e. only_job ref e (dlv ref it e))"

lemma tameD:
  assumes "tame ops res dlv"
  shows "is_able ops w"
    and "wo_job w i = Some ref \<Longrightarrow> status (heap (wo_engine w) ref) = WAITING_FOR_INPUT \<Longrightarrow>
      co_resume ops i w = (Inr (), w\<lparr>wo_engine := res i (wo_engine w)\<rparr>)"
    and "snd (deliver_wait_completion (co_deliverers ops) ref it w) = w\<lparr>wo_engine := dlv ref it (wo_engine w)\<rparr>"
    and "dict_get (jobs e) i = Some ref \<Longrightarrow> only_job ref e (res i e)" and "only_job ref e (dlv ref it e)"
  using assms by (simp_all add: tame_def)

definition waits_wf :: "'m engine \<Rightarrow> bool" where
  "waits_wf e \<longleftrightarrow> (\<forall>i ref. dict_get (jobs e) i = Some ref \<longrightarrow> jid (heap e ref) = i \<and> i \<noteq> [] \<and> (\<exists>ws. waits_rep (jstate (heap e ref)) ws))"

definition waiting_for :: "string \<Rightarrow> target_signal \<Rightarrow> string \<Rightarrow> 'm engine \<Rightarrow> wait_interest option" where
  "waiting_for now sg i e = (case dict_get (jobs e) i of None \<Rightarrow> None
     | Some ref \<Rightarrow> find (wt_matches (sg_kind sg) (sg_target sg)) (waits_of now ref e))"

definition without_wait :: "string \<Rightarrow> target_signal \<Rightarrow> nat \<Rightarrow> 'm engine \<Rightarrow> 'm engine" where
  "without_wait now sg ref e = snd (close_wait_on_job now ref (sg_kind sg) (sg_target sg) e)"

text \<open>Serving a waiter: deliver, close the wait, resume when it is parked, close the wait again.\<close>

definition serve :: "(string \<Rightarrow> 'm engine \<Rightarrow> 'm engine) \<Rightarrow> (nat \<Rightarrow> wait_interest \<Rightarrow> 'm engine \<Rightarrow> 'm engine) \<Rightarrow> string \<Rightarrow> target_signal
    \<Rightarrow> string \<Rightarrow> 'm engine \<Rightarrow> 'm engine" where
  "serve res dlv now sg i e = (case (dict_get (jobs e) i, waiting_for now sg i e) of
     (Some ref, Some it) \<Rightarrow>
       (let e1 = without_wait now sg ref (dlv ref it e);
            e2 = (if status (heap e1 ref) = WAITING_FOR_INPUT then res i e1 else e1)
        in without_wait now sg ref e2)
   | _ \<Rightarrow> e)"

lemma open_waiting: "open_interest now i sg w = waiting_for now sg i (wo_engine w)"
  by (simp add: open_interest_def waiting_for_def wo_job_def get_job_def split: option.split)

lemma without_only: "only_job ref e (without_wait now sg ref e)"
proof -
  have "\<exists>ws'. waits_rep (snd (close_wait_interest (text_of e) now (sg_kind sg) (sg_target sg) (jstate (heap e ref)))) ws'"
    if "waits_rep (jstate (heap e ref)) ws" for ws
    using wait_step [OF that, of "CloseWait (sg_kind sg) (sg_target sg)" "text_of e" now] by auto
  then show ?thesis by (auto simp: without_wait_def close_wait_on_job_def only_job_def set_job_def case_prod_beta)
qed

lemma without_none:
  assumes "waits_wf e" "dict_get (jobs e) i = Some ref"
  shows "waiting_for now sg i (without_wait now sg ref e) = None"
proof -
  obtain ws where ws: "waits_rep (jstate (heap e ref)) ws" using assms by (auto simp: waits_wf_def)
  from wait_step [OF ws, of "CloseWait (sg_kind sg) (sg_target sg)" "text_of e" now]
  obtain ws' where ws': "waits_rep (snd (close_wait_interest (text_of e) now (sg_kind sg) (sg_target sg) (jstate (heap e ref)))) ws'"
    "interests ws' = dict_pop (sg_kind sg, sg_target sg) (interests ws)" by auto
  then have "find (wt_matches (sg_kind sg) (sg_target sg)) ws' = None" by (simp add: find_key)
  then show ?thesis using assms(2) list_rep [OF ws'(1), of "text_of e" now]
    by (simp add: waiting_for_def without_wait_def close_wait_on_job_def set_job_def waits_of_def case_prod_beta)
qed

lemma only_job_wf: "only_job ref e e' \<Longrightarrow> waits_wf e \<Longrightarrow> waits_wf e'"
  unfolding only_job_def waits_wf_def by metis

lemma only_job_waiting:
  assumes "only_job ref e e'" "waits_wf e" "dict_get (jobs e) i = Some ref" "j \<noteq> i"
  shows "waiting_for now sg j e' = waiting_for now sg j e"
proof (cases "dict_get (jobs e) j")
  case None
  then show ?thesis using assms(1) by (simp add: waiting_for_def only_job_def)
next
  case (Some q)
  then have "q \<noteq> ref" using assms(2-4) unfolding waits_wf_def by blast
  then show ?thesis using assms(1) Some by (simp add: waiting_for_def only_job_def waits_of_def)
qed

lemma tame_res: "tame ops res dlv \<Longrightarrow> dict_get (jobs e) i = Some ref \<Longrightarrow> only_job ref e (res i e)"
  by (rule tameD(4))

lemma tame_closed: "tame ops res dlv \<Longrightarrow> only_job ref e (without_wait now sg ref (dlv ref it e))"
  by (rule only_job_trans [OF tameD(5) without_only])

lemma tame_resumed:
  assumes "tame ops res dlv" "dict_get (jobs e) i = Some ref" "e1 = without_wait now sg ref (dlv ref it e)"
  shows "only_job ref e (if status (heap e1 ref) = WAITING_FOR_INPUT then res i e1 else e1)"
proof -
  have 1: "only_job ref e e1" using tame_closed [OF assms(1)] assms(3) by simp
  then have "dict_get (jobs e1) i = Some ref" using assms(2) by (simp add: only_job_def)
  from only_job_trans [OF 1 tame_res [OF assms(1) this]] 1 show ?thesis by simp
qed

lemma serve_only:
  assumes "tame ops res dlv" "dict_get (jobs e) i = Some ref" "waits_wf e"
  shows "only_job ref e (serve res dlv now sg i e) \<and> waiting_for now sg i (serve res dlv now sg i e) = None"
proof (cases "waiting_for now sg i e")
  case None
  then show ?thesis using assms(2) by (simp add: serve_def only_job_refl)
next
  case (Some it)
  let ?e1 = "without_wait now sg ref (dlv ref it e)"
  let ?e2 = "if status (heap ?e1 ref) = WAITING_FOR_INPUT then res i ?e1 else ?e1"
  have 2: "only_job ref e ?e2" by (rule tame_resumed [OF assms(1,2) refl])
  have wf: "waits_wf ?e2" "dict_get (jobs ?e2) i = Some ref"
    using only_job_wf [OF 2 assms(3)] 2 assms(2) by (auto simp: only_job_def)
  have s: "serve res dlv now sg i e = without_wait now sg ref ?e2" using assms(2) Some by (simp add: serve_def Let_def)
  show ?thesis unfolding s using only_job_trans [OF 2 without_only] without_none [OF wf] by blast
qed

lemma serve_frame:
  assumes "tame ops res dlv" "waits_wf e"
  shows "waits_wf (serve res dlv now sg i e) \<and> jobs (serve res dlv now sg i e) = jobs e \<and> waiting_for now sg i (serve res dlv now sg i e) = None
    \<and> (\<forall>j. j \<noteq> i \<longrightarrow> waiting_for now sg j (serve res dlv now sg i e) = waiting_for now sg j e)"
proof (cases "dict_get (jobs e) i")
  case None
  then show ?thesis using assms(2) by (simp add: serve_def waiting_for_def)
next
  case (Some ref)
  note o = serve_only [OF assms(1) Some assms(2), of now sg]
  show ?thesis using o only_job_wf [OF conjunct1 [OF o] assms(2)] only_job_waiting [OF conjunct1 [OF o] assms(2) Some]
    by (auto simp: only_job_def)
qed

definition resumed_key :: "target_signal \<Rightarrow> string \<Rightarrow> string" where
  "resumed_key sg i = i @ ''|'' @ sg_kind sg @ ''|'' @ sg_target sg @ ''|'' @ ACTION_RESUME_OWNER"

lemma resumed_key_inj: "resumed_key sg i = resumed_key sg j \<Longrightarrow> i = j"
  by (simp add: resumed_key_def)

lemma lru_fresh: "k \<notin> set ks \<Longrightarrow> \<exists>ks'. lru_add mx k ks = (True, ks') \<and> set ks' \<subseteq> insert k (set ks)"
  by (auto simp: lru_add_def Let_def dest: in_set_dropD)

lemma match_tame:
  assumes tame: "tame ops res dlv" and pos: "sg_outcome sg \<in> set POSITIVE_OUTCOMES" and new: "resumed_key sg i \<notin> set (wo_acted w)"
  shows "\<exists>w'. match_one_owner ops now sg i w = (Inr (map_option (\<lambda>it. \<lparr>di_owner = i, di_interest = it, di_signal = sg, di_action = ACTION_RESUME_OWNER\<rparr>)
        (waiting_for now sg i (wo_engine w))), w')
    \<and> wo_engine w' = serve res dlv now sg i (wo_engine w) \<and> set (wo_acted w') \<subseteq> insert (resumed_key sg i) (set (wo_acted w))"
proof (cases "waiting_for now sg i (wo_engine w)")
  case None
  then show ?thesis by (auto simp: match_one_owner_def open_waiting serve_def split: option.split)
next
  case (Some it)
  obtain ref where ref: "dict_get (jobs (wo_engine w)) i = Some ref" "find (wt_matches (sg_kind sg) (sg_target sg)) (waits_of now ref (wo_engine w)) = Some it"
    using Some by (auto simp: waiting_for_def split: option.splits)
  have key: "wt_kind it = sg_kind sg" "wt_target it = sg_target sg" using ref(2) by (auto simp: find_Some_iff wt_matches_def)
  have act: "resolve_wait_action it sg = ACTION_RESUME_OWNER" using pos by (simp add: resolve_wait_action_def)
  have noop: "ACTION_RESUME_OWNER \<noteq> ACTION_NOOP" by (simp add: action_defs)
  have ak: "acted_key i it ACTION_RESUME_OWNER = resumed_key sg i" by (simp add: acted_key_def resumed_key_def key)
  obtain acted where lru: "lru_add MAX_ACTED_KEYS (resumed_key sg i) (wo_acted w) = (True, acted)" "set acted \<subseteq> insert (resumed_key sg i) (set (wo_acted w))"
    using lru_fresh [OF new] by blast
  let ?w = "w\<lparr>wo_acted := acted\<rparr>" and ?e1 = "without_wait now sg ref (dlv ref it (wo_engine w))"
  let ?e2 = "if status (heap ?e1 ref) = WAITING_FOR_INPUT then res i ?e1 else ?e1"
  have job: "wo_job v i = Some ref" if "jobs (wo_engine v) = jobs (wo_engine w)" for v :: "'a wait_world"
    using ref(1) that by (simp add: wo_job_def get_job_def)
  have drop: "drop_wait now ref i it v = v\<lparr>wo_engine := without_wait now sg ref (wo_engine v), wo_index := idx_unregister i (wt_kind it) (wt_target it) (wo_index v)\<rparr>"
    for v :: "'a wait_world" by (simp add: drop_wait_def without_wait_def key)
  have dlv: "snd (deliver_wait_completion (co_deliverers ops) ref it ?w) = ?w\<lparr>wo_engine := dlv ref it (wo_engine w)\<rparr>"
    and res: "\<And>v. wo_job v i = Some ref \<Longrightarrow> status (heap (wo_engine v) ref) = WAITING_FOR_INPUT \<Longrightarrow>
      co_resume ops i v = (Inr (), v\<lparr>wo_engine := res i (wo_engine v)\<rparr>)" and able: "is_able ops ?w"
    using tameD [OF tame] by simp_all
  have e1: "jobs ?e1 = jobs (wo_engine w)" using tame_closed [OF tame, of ref "wo_engine w" now sg it] by (simp add: only_job_def)
  let ?ix = "idx_unregister i (wt_kind it) (wt_target it)"
  have r: "resume_owner ops now i it ?w = (Inr (), ?w\<lparr>wo_engine := ?e2, wo_index := ?ix (wo_index w)\<rparr>)"
    using job [of ?w] able res [OF job] e1 by (simp add: resume_owner_def dlv drop Let_def)
  have "jobs ?e2 = jobs (wo_engine w)" using tame_resumed [OF tame ref(1) refl, of now sg it] by (simp add: only_job_def)
  then have c: "close_interest now i it (?w\<lparr>wo_engine := ?e2, wo_index := ?ix (wo_index w)\<rparr>)
      = ?w\<lparr>wo_engine := without_wait now sg ref ?e2, wo_index := ?ix (?ix (wo_index w))\<rparr>"
    using job [of "?w\<lparr>wo_engine := ?e2, wo_index := ?ix (wo_index w)\<rparr>"] by (simp add: close_interest_def drop)
  have s: "serve res dlv now sg i (wo_engine w) = without_wait now sg ref ?e2" using ref(1) Some by (simp add: serve_def Let_def)
  have "match_one_owner ops now sg i w = (Inr (Some \<lparr>di_owner = i, di_interest = it, di_signal = sg, di_action = ACTION_RESUME_OWNER\<rparr>),
      ?w\<lparr>wo_engine := without_wait now sg ref ?e2, wo_index := ?ix (?ix (wo_index w))\<rparr>)"
    using c r lru(1) by (simp add: match_one_owner_def open_waiting Some act ak noop)
  then show ?thesis using Some lru(2) s by simp
qed

text \<open>An owner that the matcher remembers to have resumed for the target is passed over.\<close>

lemma match_known:
  assumes pos: "sg_outcome sg \<in> set POSITIVE_OUTCOMES" and known: "resumed_key sg i \<in> set (wo_acted w)"
    and wait: "waiting_for now sg i (wo_engine w) = Some it"
  shows "\<exists>acted. match_one_owner ops now sg i w = (Inr None, w\<lparr>wo_acted := acted\<rparr>) \<and> set acted = set (wo_acted w)"
proof -
  have "wt_kind it = sg_kind sg" "wt_target it = sg_target sg"
    using wait by (auto simp: waiting_for_def find_Some_iff wt_matches_def split: option.splits)
  then have "acted_key i it ACTION_RESUME_OWNER = resumed_key sg i" by (simp add: acted_key_def resumed_key_def)
  moreover obtain acted where "lru_add MAX_ACTED_KEYS (resumed_key sg i) (wo_acted w) = (False, acted)" "set acted = set (wo_acted w)"
    using lru_known [OF known] by blast
  ultimately show ?thesis using pos wait
    by (intro exI [of _ acted]) (simp add: match_one_owner_def open_waiting resolve_wait_action_def action_defs)
qed

definition served :: "(string \<Rightarrow> 'm engine \<Rightarrow> 'm engine) \<Rightarrow> (nat \<Rightarrow> wait_interest \<Rightarrow> 'm engine \<Rightarrow> 'm engine) \<Rightarrow> string \<Rightarrow> target_signal
    \<Rightarrow> string list \<Rightarrow> string list \<Rightarrow> string list \<Rightarrow> 'm engine \<Rightarrow> 'm engine \<Rightarrow> bool" where
  "served res dlv now sg is acted os e e' \<longleftrightarrow> (\<exists>P. os = filter P is)
     \<and> (\<forall>i \<in> set is. waiting_for now sg i e \<noteq> None \<and> resumed_key sg i \<notin> set acted \<longrightarrow> i \<in> set os)
     \<and> (\<forall>i \<in> set os. waiting_for now sg i e \<noteq> None) \<and> e' = fold (serve res dlv now sg) os e
     \<and> (\<forall>i. waiting_for now sg i e' = (if i \<in> set os then None else waiting_for now sg i e))"

lemma servedI:
  assumes "os = filter P is"
    and "\<And>i. i \<in> set is \<Longrightarrow> waiting_for now sg i e \<noteq> None \<Longrightarrow> resumed_key sg i \<notin> set acted \<Longrightarrow> i \<in> set os"
    and "\<And>i. i \<in> set os \<Longrightarrow> waiting_for now sg i e \<noteq> None" and "e' = fold (serve res dlv now sg) os e"
    and "\<And>i. waiting_for now sg i e' = (if i \<in> set os then None else waiting_for now sg i e)"
  shows "served res dlv now sg is acted os e e'"
  unfolding served_def using assms by blast

lemma servedD:
  assumes "served res dlv now sg is acted os e e'"
  obtains P where "os = filter P is"
    and "\<And>i. i \<in> set is \<Longrightarrow> waiting_for now sg i e \<noteq> None \<Longrightarrow> resumed_key sg i \<notin> set acted \<Longrightarrow> i \<in> set os"
    and "\<And>i. i \<in> set os \<Longrightarrow> waiting_for now sg i e \<noteq> None" and "e' = fold (serve res dlv now sg) os e"
    and "\<And>i. waiting_for now sg i e' = (if i \<in> set os then None else waiting_for now sg i e)"
  using assms unfolding served_def by blast

lemma served_skip:
  assumes "served res dlv now sg ks acted' os e e'" and "waiting_for now sg i e = None \<or> resumed_key sg i \<in> set acted"
    and "set acted' \<subseteq> set acted" and "i \<notin> set ks"
  shows "served res dlv now sg (i # ks) acted os e e'"
proof (rule servedD [OF assms(1)])
  fix P
  assume P: "os = filter P ks"
    and w: "\<And>i. i \<in> set ks \<Longrightarrow> waiting_for now sg i e \<noteq> None \<Longrightarrow> resumed_key sg i \<notin> set acted' \<Longrightarrow> i \<in> set os"
    and r: "\<And>i. i \<in> set os \<Longrightarrow> waiting_for now sg i e \<noteq> None" "e' = fold (serve res dlv now sg) os e"
      "\<And>i. waiting_for now sg i e' = (if i \<in> set os then None else waiting_for now sg i e)"
  show ?thesis
  proof (rule servedI [OF _ _ r])
    show "os = filter (\<lambda>j. j \<noteq> i \<and> P j) (i # ks)" using P assms(4) by (auto intro: filter_cong)
    show "j \<in> set os" if "j \<in> set (i # ks)" "waiting_for now sg j e \<noteq> None" "resumed_key sg j \<notin> set acted" for j
      using w [of j] that assms(2,3) by auto
  qed
qed

lemma served_serve:
  assumes "served res dlv now sg ks acted' os e1 e'" and e1: "e1 = serve res dlv now sg i e" and "waiting_for now sg i e \<noteq> None"
    and "set acted' \<subseteq> insert (resumed_key sg i) (set acted)" and "i \<notin> set ks" and "waiting_for now sg i e1 = None"
    and other: "\<And>j. j \<noteq> i \<Longrightarrow> waiting_for now sg j e1 = waiting_for now sg j e"
  shows "served res dlv now sg (i # ks) acted (i # os) e e'"
proof (rule servedD [OF assms(1)])
  fix P
  assume P: "os = filter P ks"
    and w: "\<And>i. i \<in> set ks \<Longrightarrow> waiting_for now sg i e1 \<noteq> None \<Longrightarrow> resumed_key sg i \<notin> set acted' \<Longrightarrow> i \<in> set os"
    and r: "\<And>i. i \<in> set os \<Longrightarrow> waiting_for now sg i e1 \<noteq> None" "e' = fold (serve res dlv now sg) os e1"
      "\<And>i. waiting_for now sg i e' = (if i \<in> set os then None else waiting_for now sg i e1)"
  have i: "i \<notin> set os" using P assms(5) by auto
  show ?thesis
  proof (rule servedI)
    show "i # os = filter (\<lambda>j. j = i \<or> P j) (i # ks)" using P assms(5) by (auto intro: filter_cong)
    show "j \<in> set (i # os)" if "j \<in> set (i # ks)" "waiting_for now sg j e \<noteq> None" "resumed_key sg j \<notin> set acted" for j
    proof (cases "j = i")
      case False
      then have "resumed_key sg j \<notin> set acted'" using assms(4) that(3) resumed_key_inj [of sg j i] by auto
      then show ?thesis using w [of j] other [OF False] that(1,2) False by simp
    qed simp
    show "waiting_for now sg j e \<noteq> None" if "j \<in> set (i # os)" for j
      using that assms(3) i r(1) [of j] other [of j] by (cases "j = i") auto
    show "e' = fold (serve res dlv now sg) (i # os) e" using r(2) e1 by simp
    show "waiting_for now sg j e' = (if j \<in> set (i # os) then None else waiting_for now sg j e)" for j
      using r(3) [of j] assms(6) other [of j] by (cases "j = i") simp_all
  qed
qed

lemma match_owners_tame:
  assumes tame: "tame ops res dlv" and pos: "sg_outcome sg \<in> set POSITIVE_OUTCOMES"
  shows "waits_wf (wo_engine w) \<Longrightarrow> distinct is \<Longrightarrow>
    \<exists>ds w'. match_owners ops now sg is w = (Inr ds, w') \<and> (\<forall>d \<in> set ds. di_action d = ACTION_RESUME_OWNER)
      \<and> served res dlv now sg is (wo_acted w) (map di_owner ds) (wo_engine w) (wo_engine w')"
proof (induction "is" arbitrary: w)
  case Nil
  then show ?case by (simp add: served_def)
next
  case (Cons i ks)
  show ?case
  proof (cases "waiting_for now sg i (wo_engine w) \<noteq> None \<and> resumed_key sg i \<notin> set (wo_acted w)")
    case True
    then obtain it where it: "waiting_for now sg i (wo_engine w) = Some it" by blast
    obtain w1 where 1: "match_one_owner ops now sg i w = (Inr (Some \<lparr>di_owner = i, di_interest = it, di_signal = sg, di_action = ACTION_RESUME_OWNER\<rparr>), w1)"
      "wo_engine w1 = serve res dlv now sg i (wo_engine w)" "set (wo_acted w1) \<subseteq> insert (resumed_key sg i) (set (wo_acted w))"
      using match_tame [OF tame pos, of i w now] True it by auto
    note fr = serve_frame [OF tame Cons.prems(1), of now sg i]
    from Cons.IH [of w1] Cons.prems(2) fr 1(2) obtain ds w' where 2: "match_owners ops now sg ks w1 = (Inr ds, w')"
      "\<forall>d \<in> set ds. di_action d = ACTION_RESUME_OWNER" "served res dlv now sg ks (wo_acted w1) (map di_owner ds) (wo_engine w1) (wo_engine w')" by auto
    have "served res dlv now sg (i # ks) (wo_acted w) (i # map di_owner ds) (wo_engine w) (wo_engine w')"
      by (rule served_serve [OF 2(3) 1(2) _ 1(3)]) (use True Cons.prems(2) fr 1(2) in auto)
    then show ?thesis using 1(1) 2(1,2) by simp
  next
    case False
    have "\<exists>w1. match_one_owner ops now sg i w = (Inr None, w1) \<and> wo_engine w1 = wo_engine w \<and> set (wo_acted w1) \<subseteq> set (wo_acted w)"
    proof (cases "waiting_for now sg i (wo_engine w)")
      case None
      then show ?thesis by (simp add: match_one_owner_def open_waiting)
    next
      case (Some it)
      with False match_known [OF pos _ Some] show ?thesis by fastforce
    qed
    then obtain w1 where 1: "match_one_owner ops now sg i w = (Inr None, w1)" "wo_engine w1 = wo_engine w"
      "set (wo_acted w1) \<subseteq> set (wo_acted w)" by blast
    from Cons.IH [of w1] Cons.prems 1(2) obtain ds w' where 2: "match_owners ops now sg ks w1 = (Inr ds, w')"
      "\<forall>d \<in> set ds. di_action d = ACTION_RESUME_OWNER" "served res dlv now sg ks (wo_acted w1) (map di_owner ds) (wo_engine w) (wo_engine w')" by auto
    have "served res dlv now sg (i # ks) (wo_acted w) (map di_owner ds) (wo_engine w) (wo_engine w')"
      by (rule served_skip [OF 2(3) _ 1(3)]) (use False Cons.prems(2) in auto)
    then show ?thesis using 1(1) 2(1,2) by simp
  qed
qed

lemma waiting_scanned:
  assumes "waits_wf (wo_engine w)" "waiting_for now sg i (wo_engine w) \<noteq> None"
  shows "i \<in> set (scan_owners now sg w)"
proof -
  obtain ref it where ref: "dict_get (jobs (wo_engine w)) i = Some ref" "find (wt_matches (sg_kind sg) (sg_target sg)) (waits_of now ref (wo_engine w)) = Some it"
    using assms(2) by (auto simp: waiting_for_def split: option.splits)
  have "list_ex (wt_matches (sg_kind sg) (sg_target sg)) (waits_of now ref (wo_engine w))"
    using ref(2) by (auto simp: find_Some_iff list_ex_iff)
  moreover have "ref \<in> set (map snd (jobs (wo_engine w)))" using map_of_SomeD [OF ref(1)] by force
  moreover have "jid (heap (wo_engine w) ref) = i" "i \<noteq> []" using assms(1) ref(1) by (auto simp: waits_wf_def)
  ultimately show ?thesis by (auto simp: scan_owners_def)
qed

text \<open>
  C27. Who a completion serves. Hypotheses: the collaborators are tame (the plane is able; delivering
  and resuming touch one job record, and resuming a parked job does not raise), and each job of the
  engine has its id and a list of well-formed interests. Then handling a success signal returns, and
  the owners it resumes are, in the order of their ids and each once, whatever the index says: jobs
  that wait for the target, and among them every one the matcher does not remember as resumed for
  this target before. The engine is the result of serving these in turn (deliver, close the wait,
  resume the job when it is parked, close the wait again). None of them waits for the target any more
  and the waits of all other jobs are as they were. A job that is remembered may be passed over and
  goes on waiting, see \<open>second_wait_is_never_served\<close>.
\<close>

theorem completion_serves_every_waiter:
  assumes "tame ops res dlv" and "waits_wf (wo_engine w)" and "sg_outcome sg \<in> set POSITIVE_OUTCOMES"
  shows "\<exists>ds w'. handle_signal ops now sg w = (Inr ds, w')
    \<and> sorted (map di_owner ds) \<and> distinct (map di_owner ds) \<and> (\<forall>d \<in> set ds. di_action d = ACTION_RESUME_OWNER)
    \<and> {i. open_interest now i sg w \<noteq> None \<and> resumed_key sg i \<notin> set (wo_acted w)} \<subseteq> set (map di_owner ds)
    \<and> set (map di_owner ds) \<subseteq> {i. open_interest now i sg w \<noteq> None}
    \<and> wo_engine w' = fold (serve res dlv now sg) (map di_owner ds) (wo_engine w)
    \<and> (\<forall>i. open_interest now i sg w' = (if i \<in> set (map di_owner ds) then None else open_interest now i sg w))"
proof -
  define l where "l = sort (remdups (owners_at (wo_index w) (sg_kind sg, sg_target sg) @ scan_owners now sg w))"
  have l: "sorted l" "distinct l" by (simp_all add: l_def)
  have all: "{i. waiting_for now sg i (wo_engine w) \<noteq> None} \<subseteq> set l" using waiting_scanned [OF assms(2)] by (auto simp: l_def)
  obtain ds w' where r: "match_owners ops now sg l w = (Inr ds, w')" "\<forall>d \<in> set ds. di_action d = ACTION_RESUME_OWNER"
    "served res dlv now sg l (wo_acted w) (map di_owner ds) (wo_engine w) (wo_engine w')"
    using match_owners_tame [OF assms(1,3,2) l(2)] by blast
  obtain P where P: "map di_owner ds = filter P l" using r(3) by (auto simp: served_def)
  have "sorted (map di_owner ds)" "distinct (map di_owner ds)" unfolding P using l by (simp_all add: sorted_wrt_filter)
  moreover have "handle_signal ops now sg w = (Inr ds, w')" using r(1) by (simp add: handle_signal_def l_def)
  ultimately show ?thesis using r(2,3) all unfolding served_def open_waiting
    by (intro exI [of _ ds] exI [of _ w']) blast
qed

subsection \<open>Witnesses\<close>

text \<open>One parked job that waits for the workload \<open>w\<close>.\<close>

definition unit_wait :: wait_interest where
  "unit_wait = \<lparr>wt_kind = WAIT_KIND_WORKLOAD, wt_target = ''w'', wt_opened_at = ''t0'', wt_policy = default_policy, wt_meta = [], wt_version = 1\<rparr>"

definition parked_job :: job where
  "parked_job = \<lparr>jid = ''j'', executable = VNone, jstate = write_interests [unit_wait] [], metadata = [], status = WAITING_FOR_INPUT,
     jresult = VNone, jerror = None, created_at = 0, started_at = None, completed_at = None\<rparr>"

definition parked_world :: "string list \<Rightarrow> unit wait_world" where
  "parked_world acted = \<lparr>wo_engine = (new_engine () (\<lambda>_. ''?''))\<lparr>heap := (\<lambda>_. parked_job), jobs := [(''j'', 0)]\<rparr>,
     wo_index = [], wo_wired = True, wo_seen = [], wo_acted = acted, wo_refused = 0\<rparr>"

definition ready_signal :: target_signal where
  "ready_signal = \<lparr>sg_kind = WAIT_KIND_WORKLOAD, sg_target = ''w'', sg_outcome = OUTCOME_READY, sg_event_type = ''workload.ready'', sg_status = None\<rparr>"

lemma unit_wait_ok: "wt_ok unit_wait"
  by (simp add: wt_ok_def clean_def unit_wait_def default_policy_def WAIT_KIND_WORKLOAD_def ON_TARGET_FAILED_FAIL_OWNER_def py_strip_def is_space_def)

lemma parked_facts:
  "dict_get (jobs (wo_engine (parked_world a))) i = (if i = ''j'' then Some 0 else None)" "heap (wo_engine (parked_world a)) ref = parked_job"
  "wo_acted (parked_world a) = a" "wo_wired (parked_world a)" "wo_index (parked_world a) = []" "jid parked_job = ''j''"
  "status parked_job = WAITING_FOR_INPUT" "jobs (wo_engine (parked_world a)) = [(''j'', 0)]" "wo_refused (parked_world a) = 0"
  "wo_job (parked_world a) ''j'' = Some 0"
  by (simp_all add: parked_world_def parked_job_def wo_job_def get_job_def)

lemma parked_rep: "waits_rep (jstate parked_job) [unit_wait]"
  unfolding parked_job_def using write_rep [of "[unit_wait]" "[]"] unit_wait_ok by simp

lemma parked_waits: "waits_of now ref (wo_engine (parked_world a)) = [unit_wait]"
  by (simp add: waits_of_def parked_facts list_rep [OF parked_rep])

lemma unit_matches: "wt_matches (sg_kind ready_signal) (sg_target ready_signal) unit_wait" "wt_matches WAIT_KIND_WORKLOAD ''w'' unit_wait"
  by (simp_all add: wt_matches_def ready_signal_def unit_wait_def)

lemma parked_open: "open_interest now ''j'' ready_signal (parked_world a) = Some unit_wait"
  by (simp add: open_interest_def parked_facts parked_waits unit_matches)

lemma ready_positive: "sg_outcome ready_signal \<in> set POSITIVE_OUTCOMES"
  by (simp add: ready_signal_def POSITIVE_OUTCOMES_def)

lemma unable_plane_fails_closed_witness:
  "\<exists>d w'. match_one_owner (engine_ops (unconfigured_mode []) [auth_middleware None [] True] (\<lambda>_. Inr False) []) ''t'' ready_signal ''j'' (parked_world []) = (Inr (Some d), w')
     \<and> status (heap (wo_engine w') 0) = FAILED"
proof -
  let ?ops = "engine_ops (unconfigured_mode []) [auth_middleware None [] True] (\<lambda>_. Inr False) [] :: unit continue_ops"
  have "\<forall>w. \<not> is_able ?ops w" by (simp add: engine_ops_def is_able_def)
  from unable_plane_fails_closed [OF this, THEN conjunct2, of "parked_world []" "''j''" 0 "''t''" ready_signal unit_wait "[auth_middleware None [] True]"] show ?thesis
    using parked_open ready_positive by (auto simp: parked_facts is_terminal_def engine_ops_def auth_silent)
qed

lemma second_wait_is_never_served_witness:
  "wo_engine (payload_run (engine_ops (unconfigured_mode []) [] (\<lambda>_. Inr True) []) ''t''
      [(Some ''e1'', ''workload.stopped'', [(''workload_id'', VStr ''w''), (''exit_code'', VInt 0)]), (Some ''e2'', ''workload.ready'', [(''workload_id'', VStr ''w'')])]
      (parked_world [''j|workload|w|resume_owner''])) = wo_engine (parked_world [''j|workload|w|resume_owner''])"
proof -
  let ?w = "parked_world [''j|workload|w|resume_owner'']"
  have "scan_owners ''t'' sg ?w = [''j'']" if "sg_kind sg = WAIT_KIND_WORKLOAD \<and> sg_target sg = ''w''" for sg
    using that unit_matches by (simp add: scan_owners_def parked_facts parked_waits)
  then have st: "stuck ''t'' ''j'' WAIT_KIND_WORKLOAD ''w'' ?w"
    using unit_matches by (auto simp: stuck_def parked_facts owners_at_def parked_waits WAIT_KIND_WORKLOAD_def ACTION_RESUME_OWNER_def)
  let ?es = "[(Some ''e1'', ''workload.stopped'', [(''workload_id'', VStr ''w''), (''exit_code'', VInt 0)]), (Some ''e2'', ''workload.ready'', [(''workload_id'', VStr ''w'')])]"
  have "\<forall>(ev, et, payload) \<in> set ?es. \<forall>sg. extract_target_signal (text_of (wo_engine ?w)) et payload = Inr (Some sg) \<longrightarrow>
      sg_kind sg = WAIT_KIND_WORKLOAD \<and> sg_target sg = ''w'' \<and> sg_outcome sg \<in> set POSITIVE_OUTCOMES"
    by (auto simp: extract_target_signal_def stopped_signal_def workload_signal_def workload_target_def py_or_def exit_outcome_def
        opt_text_def status_outcome_def POSITIVE_OUTCOMES_def)
  from second_wait_is_never_served [OF st this] show ?thesis by simp
qed

lemma reopened_wait_is_lost_witness:
  "\<exists>d w'. match_one_owner \<lparr>co_resume = (\<lambda>i w. (Inr (), snd (open_on_job ''t'' 0 True unit_wait w))), co_apply = (\<lambda>_ _ w. (Inr (), w)),
       co_able = (\<lambda>_. Inr True), co_deliverers = []\<rparr> ''t'' ready_signal ''j'' (parked_world []) = (Inr (Some d), w')
     \<and> status (heap (wo_engine w') 0) = WAITING_FOR_INPUT \<and> open_interest ''t'' ''j'' ready_signal w' = None"
proof -
  let ?ops = "\<lparr>co_resume = (\<lambda>i w. (Inr (), snd (open_on_job ''t'' 0 True unit_wait w))), co_apply = (\<lambda>_ _ w. (Inr (), w)),
       co_able = (\<lambda>_. Inr True), co_deliverers = []\<rparr> :: unit continue_ops"
  have rep: "waits_rep (jstate (heap (wo_engine (parked_world [])) 0)) [unit_wait]" by (simp add: parked_facts parked_rep)
  have new: "acted_key ''j'' unit_wait ACTION_RESUME_OWNER \<notin> set (wo_acted (parked_world []))" by (simp add: parked_facts)
  have st: "status (heap (wo_engine (parked_world [])) 0) = WAITING_FOR_INPUT" by (simp add: parked_facts)
  have able: "\<forall>w. is_able ?ops w" by (simp add: is_able_def)
  have ds: "co_deliverers ?ops = []" and rs: "co_resume ?ops = (\<lambda>i w. (Inr (), snd (open_on_job ''t'' 0 True unit_wait w)))" by simp_all
  from reopened_wait_is_lost [OF parked_facts(10) rep parked_open ready_positive new st able ds rs unit_wait_ok refl] show ?thesis by blast
qed

text \<open>With the queued scheduler and no deliverer the collaborators of the running engine are tame.\<close>

definition queued_res :: "string \<Rightarrow> 'o queued_state engine \<Rightarrow> 'o queued_state engine" where
  "queued_res i e = snd (resume_job (queued_scheduler []) i e)"

lemma queued_tame: "tame (engine_ops (queued_scheduler []) hs (\<lambda>_. Inr True) []) queued_res (\<lambda>_ _ e. e)"
  by (auto simp: tame_def is_able_def engine_ops_def on_engine_def queued_res_def only_job_def wo_job_def resume_job_def get_job_def
      queued_scheduler_def queued_resume_job_def base_mode_def upd_def split: option.splits sum.splits)

definition queued_world :: "string list \<Rightarrow> unit queued_state wait_world" where
  "queued_world acted = \<lparr>wo_engine = (new_engine (new_queued () 1) (\<lambda>_. ''?''))\<lparr>heap := (\<lambda>_. parked_job), jobs := [(''j'', 0)]\<rparr>,
     wo_index = [], wo_wired = True, wo_seen = [], wo_acted = acted, wo_refused = 0\<rparr>"

lemma completion_serves_every_waiter_witness:
  "\<exists>ds w'. handle_signal (engine_ops (queued_scheduler []) [] (\<lambda>_. Inr True) []) ''t'' ready_signal (queued_world []) = (Inr ds, w')
     \<and> map di_owner ds = [''j''] \<and> q_items (mode_state (wo_engine w')) = [WorkItem 0]"
proof -
  let ?ops = "engine_ops (queued_scheduler []) [] (\<lambda>_. Inr True) [] :: unit queued_state continue_ops"
  have job: "dict_get (jobs (wo_engine (queued_world []))) i = (if i = ''j'' then Some 0 else None)"
    "heap (wo_engine (queued_world [])) ref = parked_job" "wo_acted (queued_world []) = []" for i ref
    by (simp_all add: queued_world_def)
  have wf: "waits_wf (wo_engine (queued_world []))"
    using parked_rep by (auto simp: waits_wf_def job parked_facts split: if_splits)
  have waits: "waiting_for ''t'' ready_signal i (wo_engine (queued_world [])) = (if i = ''j'' then Some unit_wait else None)" for i
    by (simp add: waiting_for_def job waits_of_def list_rep [OF parked_rep] unit_matches)
  have "{i. open_interest ''t'' i ready_signal (queued_world []) \<noteq> None} = {''j''}"
      "{i. open_interest ''t'' i ready_signal (queued_world []) \<noteq> None \<and> resumed_key ready_signal i \<notin> set (wo_acted (queued_world []))} = {''j''}"
    by (simp_all add: open_waiting waits job(3))
  note both = this
  obtain ds w' where "handle_signal ?ops ''t'' ready_signal (queued_world []) = (Inr ds, w')" "distinct (map di_owner ds)"
      "{''j''} \<subseteq> set (map di_owner ds)" "set (map di_owner ds) \<subseteq> {''j''}"
      "wo_engine w' = fold (serve queued_res (\<lambda>_ _ e. e) ''t'' ready_signal) (map di_owner ds) (wo_engine (queued_world []))"
    using completion_serves_every_waiter [OF queued_tame [of "[]"] wf ready_positive, of "''t''", unfolded both]
    by (elim exE conjE) (rule that)
  note r = this(1,2) subset_antisym [OF this(4,3)] this(5)
  have ds: "map di_owner ds = [''j'']" using at_most_one [OF equalityD1 [OF r(3)] r(2)]
    by (rule disjE) (use r(3) in \<open>simp_all del: set_map\<close>)
  have "status (heap (without_wait ''t'' ready_signal 0 (wo_engine (queued_world []))) 0) = WAITING_FOR_INPUT"
    by (simp add: without_wait_def close_wait_on_job_def job set_job_def parked_facts split: prod.split)
  moreover have "jobs (without_wait ''t'' ready_signal 0 e) = jobs e"
    "mode_state (without_wait ''t'' ready_signal 0 e) = mode_state e" for e :: "unit queued_state engine"
    by (simp_all add: without_wait_def close_wait_on_job_def set_job_def split: prod.split)
  ultimately have "q_items (mode_state (wo_engine w')) = [WorkItem 0]"
    using r(4) unfolding ds by (simp add: serve_def waits job queued_res_def resume_job_def get_job_def queued_scheduler_def
        queued_resume_job_def upd_def enqueue_def) (simp add: queued_world_def new_engine_def new_queued_def)
  with r(1) ds show ?thesis by (intro exI conjI)
qed

end
