(* ===== verification/Sessions.thy ===== *)
theory Sessions
  imports PyConvert
begin

text \<open>
  The session plane (\<open>palm/system/subsystems/planes/session\<close>): session records (\<open>types.py\<close>), their store
  with the reverse index from instances to sessions (\<open>store.py\<close>) and the plane service that opens,
  binds and closes sessions, attaches instances and decides who may continue one (\<open>plane.py\<close>). The
  store is the contents of the storage backend; the texts of fresh ids and time stamps are arguments.
\<close>

subsection \<open>Records\<close>

datatype session_status = SES_OPEN | SES_ACTIVE | SES_CLOSED

fun session_status_value :: "session_status \<Rightarrow> string" where
  "session_status_value SES_OPEN = ''open''" | "session_status_value SES_ACTIVE = ''active''" | "session_status_value SES_CLOSED = ''closed''"

definition looks_like_system_session_id :: "string option \<Rightarrow> bool" where
  "looks_like_system_session_id v = (case v of None \<Rightarrow> False | Some s \<Rightarrow> prefix ''sess-'' (py_strip s))"

definition HOST_SESSION_ORIGIN :: string where "HOST_SESSION_ORIGIN = ''host''"
definition HOST_SESSION_ID :: string where "HOST_SESSION_ID = ''sess-svc-host''"

text \<open>\<open>str.isalnum\<close> on the characters of Latin-1.\<close>

definition is_alnum :: "char \<Rightarrow> bool" where
  "is_alnum c = (let n = of_char c :: nat in (48 \<le> n \<and> n \<le> 57) \<or> (65 \<le> n \<and> n \<le> 90) \<or> (97 \<le> n \<and> n \<le> 122)
     \<or> n \<in> {170, 178, 179, 181, 185, 186, 188, 189, 190} \<or> (192 \<le> n \<and> n \<noteq> 215 \<and> n \<noteq> 247))"

fun slug_loop :: "bool \<Rightarrow> string \<Rightarrow> string" where
  "slug_loop prev_hyphen [] = []"
| "slug_loop prev_hyphen (c # cs) =
     (if is_alnum c then c # slug_loop False cs
      else if prev_hyphen then slug_loop True cs else CHR 0x2D # slug_loop True cs)"

definition rstrip_hyphen :: "string \<Rightarrow> string" where
  "rstrip_hyphen s = rev (dropWhile (\<lambda>c. c = CHR 0x2D) (rev s))"

definition service_session_id :: "string \<Rightarrow> string result" where
  "service_session_id origin =
     (let raw = py_lower (py_strip origin);
          slug = rstrip_hyphen (dropWhile (\<lambda>c. c = CHR 0x2D) (slug_loop False raw));
          cut = (if length slug > 80 then rstrip_hyphen (take 80 slug) else slug)
      in if raw = [] then Inl (Exc PyValueError ''service session origin must be non-empty'')
         else if slug = [] then Inl (Exc PyValueError (''service session origin has no usable slug: '' @ quoted origin))
         else Inr (if cut = HOST_SESSION_ORIGIN then HOST_SESSION_ID else ''sess-svc-'' @ cut))"

record session_record =
  sr_id :: string
  sr_status :: session_status
  sr_instances :: "string list"
  sr_active :: "string option"
  sr_metadata :: pydict
  sr_created :: string
  sr_updated :: string

definition sr_touch :: "string \<Rightarrow> session_record \<Rightarrow> session_record" where
  "sr_touch now rec = rec\<lparr>sr_updated := now\<rparr>"

definition sr_to_dict :: "session_record \<Rightarrow> pydict" where
  "sr_to_dict rec = [(''kind'', VStr ''session''), (''session_id'', VStr (sr_id rec)), (''status'', VStr (session_status_value (sr_status rec))),
     (''instance_ids'', VList (map VStr (sr_instances rec))), (''active_instance_id'', opt_str_val (sr_active rec)),
     (''metadata'', VDict (sr_metadata rec)), (''created_at'', VStr (sr_created rec)), (''updated_at'', VStr (sr_updated rec))]"

definition session_status_of :: "string \<Rightarrow> session_status" where
  "session_status_of s = (if s = ''active'' then SES_ACTIVE else if s = ''closed'' then SES_CLOSED else SES_OPEN)"

text \<open>A focus that is not attached is dropped; a row from before there was a focus gets the last instance.\<close>

definition read_active :: "(pyval \<Rightarrow> string) \<Rightarrow> pydict \<Rightarrow> string list \<Rightarrow> string option" where
  "read_active r d ids =
     (if \<not> dict_has d ''active_instance_id'' then (if ids \<noteq> [] then Some (List.last ids) else None)
      else let v = py_get d ''active_instance_id''; a = py_strip (py_str r v) in
        if v = VNone \<or> a = [] \<or> a \<notin> set ids then None else Some a)"

definition sr_from_dict :: "(pyval \<Rightarrow> string) \<Rightarrow> string \<Rightarrow> pydict \<Rightarrow> session_record result" where
  "sr_from_dict r now d =
     attempt (py_iter (py_or (py_get d ''instance_ids'') (VList []))) (\<lambda>raw.
     let ids = map (py_str r) raw in
     if \<not> dict_has d ''session_id'' then Inl (Exc PyKeyError ''session_id'') else
     attempt (py_dict (py_or (py_get d ''metadata'') (VDict []))) (\<lambda>md.
       Inr \<lparr>sr_id = py_str r (py_get d ''session_id''),
            sr_status = session_status_of (py_str r (get_default d ''status'' (VStr ''open''))),
            sr_instances = ids, sr_active = read_active r d ids, sr_metadata = md,
            sr_created = py_str r (py_or (py_get d ''created_at'') (VStr now)),
            sr_updated = py_str r (py_or (py_get d ''updated_at'') (VStr now))\<rparr>))"

record session_bind =
  sb_id :: string
  sb_status :: session_status
  sb_created :: bool
  sb_surface :: "string option"
  sb_instances :: "string list"
  sb_active :: "string option"

definition sb_from_record :: "(pyval \<Rightarrow> string) \<Rightarrow> bool \<Rightarrow> string option \<Rightarrow> session_record \<Rightarrow> session_bind" where
  "sb_from_record r created surface rec =
     (let m = py_or (py_get (sr_metadata rec) ''surface'') (py_get (sr_metadata rec) ''last_surface'')
      in \<lparr>sb_id = sr_id rec, sb_status = sr_status rec, sb_created = created,
          sb_surface = (case surface of Some s \<Rightarrow> Some s | None \<Rightarrow> if truthy m then Some (py_str r m) else None),
          sb_instances = sr_instances rec, sb_active = sr_active rec\<rparr>)"

definition sb_to_dict :: "session_bind \<Rightarrow> pydict" where
  "sb_to_dict b = [(''kind'', VStr ''session_bind''), (''session_id'', VStr (sb_id b)), (''status'', VStr (session_status_value (sb_status b))),
     (''created'', VBool (sb_created b)), (''surface'', opt_str_val (sb_surface b)), (''instance_ids'', VList (map VStr (sb_instances b))),
     (''active_instance_id'', opt_str_val (sb_active b))]"

subsection \<open>The store\<close>

type_synonym store = pydict

definition SESSION_INDEX :: string where "SESSION_INDEX = ''palm:session:index''"
definition SESSION_ENTRY_PREFIX :: string where "SESSION_ENTRY_PREFIX = ''palm:session:entry:''"
definition SESSION_BY_INSTANCE_PREFIX :: string where "SESSION_BY_INSTANCE_PREFIX = ''palm:session:by_instance:''"

abbreviation session_key :: "string \<Rightarrow> string" where "session_key sid \<equiv> SESSION_ENTRY_PREFIX @ sid"
abbreviation owner_key :: "string \<Rightarrow> string" where "owner_key iid \<equiv> SESSION_BY_INSTANCE_PREFIX @ iid"

definition session_index :: "(pyval \<Rightarrow> string) \<Rightarrow> store \<Rightarrow> string list" where
  "session_index r s = (case py_get s SESSION_INDEX of VList xs \<Rightarrow> map (py_str r) xs | _ \<Rightarrow> [])"

definition remove_from_index :: "(pyval \<Rightarrow> string) \<Rightarrow> string \<Rightarrow> store \<Rightarrow> store" where
  "remove_from_index r sid s =
     (let idx = session_index r s in if sid \<in> set idx then dict_set SESSION_INDEX (VList (map VStr (remove1 sid idx))) s else s)"

definition set_instance_owner :: "string \<Rightarrow> string \<Rightarrow> store \<Rightarrow> store" where
  "set_instance_owner sid instance_id s =
     (let iid = py_strip instance_id in if iid = [] then s else dict_set (owner_key iid) (VStr sid) s)"

definition clear_instance_owner :: "(pyval \<Rightarrow> string) \<Rightarrow> string \<Rightarrow> string \<Rightarrow> store \<Rightarrow> store" where
  "clear_instance_owner r expected instance_id s =
     (let iid = py_strip instance_id; cur = py_get s (owner_key iid) in
      if iid = [] then s else if cur = VNone \<or> py_str r cur = expected then dict_pop (owner_key iid) s else s)"

definition session_get :: "(pyval \<Rightarrow> string) \<Rightarrow> string \<Rightarrow> string \<Rightarrow> store \<Rightarrow> session_record option result" where
  "session_get r now sid s = (case py_get s (session_key sid) of
     VDict d \<Rightarrow> attempt (sr_from_dict r now d) (\<lambda>rec. Inr (Some rec)) | _ \<Rightarrow> Inr None)"

definition session_put :: "(pyval \<Rightarrow> string) \<Rightarrow> string \<Rightarrow> session_record \<Rightarrow> store \<Rightarrow> session_record result \<times> store" where
  "session_put r now rec s = (case session_get r now (sr_id rec) s of
     Inl x \<Rightarrow> (Inl x, s)
   | Inr old \<Rightarrow>
      (let old_ids = (case old of Some o' \<Rightarrow> sr_instances o' | None \<Rightarrow> []);
           s1 = dict_set (session_key (sr_id rec)) (VDict (sr_to_dict rec)) s;
           idx = session_index r s1;
           s2 = (if sr_id rec \<in> set idx then s1 else dict_set SESSION_INDEX (VList (map VStr (idx @ [sr_id rec]))) s1);
           s3 = fold (clear_instance_owner r (sr_id rec)) (filter (\<lambda>i. i \<notin> set (sr_instances rec)) old_ids) s2
       in (Inr rec, fold (set_instance_owner (sr_id rec)) (sr_instances rec) s3)))"

definition session_id_for_instance :: "(pyval \<Rightarrow> string) \<Rightarrow> string \<Rightarrow> store \<Rightarrow> string option" where
  "session_id_for_instance r instance_id s =
     (let iid = py_strip instance_id; raw = py_get s (owner_key iid) in
      if iid = [] \<or> raw = VNone then None else Some (py_str r raw))"

definition get_by_instance :: "(pyval \<Rightarrow> string) \<Rightarrow> string \<Rightarrow> string \<Rightarrow> store \<Rightarrow> session_record option result" where
  "get_by_instance r now iid s = (case session_id_for_instance r iid s of None \<Rightarrow> Inr None | Some sid \<Rightarrow> session_get r now sid s)"

definition session_delete :: "(pyval \<Rightarrow> string) \<Rightarrow> string \<Rightarrow> string \<Rightarrow> store \<Rightarrow> bool result \<times> store" where
  "session_delete r now sid s = (case session_get r now sid s of
     Inl x \<Rightarrow> (Inl x, s)
   | Inr None \<Rightarrow> (Inr False, remove_from_index r sid s)
   | Inr (Some rec) \<Rightarrow> (Inr True, remove_from_index r sid (dict_pop (session_key sid)
       (fold (clear_instance_owner r sid) (sr_instances rec) s))))"

fun list_loop :: "(pyval \<Rightarrow> string) \<Rightarrow> string \<Rightarrow> session_status option \<Rightarrow> bool \<Rightarrow> string list \<Rightarrow> store \<Rightarrow> session_record list result \<times> store" where
  "list_loop r now st include_closed [] s = (Inr [], s)"
| "list_loop r now st include_closed (sid # sids) s = (case session_get r now sid s of
     Inl x \<Rightarrow> (Inl x, s)
   | Inr None \<Rightarrow> list_loop r now st include_closed sids (remove_from_index r sid s)
   | Inr (Some rec) \<Rightarrow>
      if (case st of Some t \<Rightarrow> sr_status rec \<noteq> t | None \<Rightarrow> False) \<or> \<not> include_closed \<and> sr_status rec = SES_CLOSED
      then list_loop r now st include_closed sids s
      else map_prod (map_sum id (Cons rec)) id (list_loop r now st include_closed sids s))"

definition session_list :: "(pyval \<Rightarrow> string) \<Rightarrow> string \<Rightarrow> session_status option \<Rightarrow> bool \<Rightarrow> store \<Rightarrow> session_record list result \<times> store" where
  "session_list r now st include_closed s =
     map_prod (map_sum id (sort_key sr_created)) id (list_loop r now st include_closed (session_index r s) s)"

definition session_count :: "(pyval \<Rightarrow> string) \<Rightarrow> store \<Rightarrow> nat" where
  "session_count r s = length (session_index r s)"

subsection \<open>Life cycle\<close>

definition plane_error :: "string \<Rightarrow> exc" where "plane_error m = Exc SessionPlaneError m"
definition closed_error :: "string \<Rightarrow> exc" where "closed_error m = Exc SessionClosedError m"

definition session_open :: "(pyval \<Rightarrow> string) \<Rightarrow> string \<Rightarrow> string \<Rightarrow> string option \<Rightarrow> pydict \<Rightarrow> store \<Rightarrow> session_record result \<times> store" where
  "session_open r now fresh session_id md s =
     (let given = py_strip (case session_id of Some i \<Rightarrow> i | None \<Rightarrow> []); sid = (if given = [] then fresh else given) in
      case session_get r now sid s of
        Inl x \<Rightarrow> (Inl x, s)
      | Inr (Some rec) \<Rightarrow>
          (if sr_status rec = SES_CLOSED then (Inl (plane_error (''session '' @ quoted sid @ '' exists and is closed'')), s) else (Inr rec, s))
      | Inr None \<Rightarrow> session_put r now \<lparr>sr_id = sid, sr_status = SES_OPEN, sr_instances = [], sr_active = None, sr_metadata = md,
          sr_created = now, sr_updated = now\<rparr> s)"

definition session_require :: "(pyval \<Rightarrow> string) \<Rightarrow> string \<Rightarrow> string \<Rightarrow> store \<Rightarrow> session_record result" where
  "session_require r now sid s = attempt (session_get r now sid s) (\<lambda>x. case x of
     None \<Rightarrow> Inl (Exc SessionNotFoundError (''session not found: '' @ quoted sid)) | Some rec \<Rightarrow> Inr rec)"

definition require_open :: "(pyval \<Rightarrow> string) \<Rightarrow> string \<Rightarrow> string \<Rightarrow> store \<Rightarrow> session_record result" where
  "require_open r now sid s = attempt (session_require r now sid s) (\<lambda>rec.
     if sr_status rec = SES_CLOSED then Inl (closed_error (''session '' @ quoted sid @ '' is closed'')) else Inr rec)"

text \<open>The loop that writes the metadata that differ and says whether any did.\<close>

definition merge_meta :: "pydict \<Rightarrow> pydict \<Rightarrow> bool \<times> pydict" where
  "merge_meta new md = fold (\<lambda>(k, v) (touched, d). if py_eq (py_get d k) v then (touched, d) else (True, dict_set k v d)) new (False, md)"

definition put_merged :: "(pyval \<Rightarrow> string) \<Rightarrow> string \<Rightarrow> pydict \<Rightarrow> session_record \<Rightarrow> store \<Rightarrow> session_record result \<times> store" where
  "put_merged r now md rec s = (case merge_meta md (sr_metadata rec) of (touched, d) \<Rightarrow>
     if touched then session_put r now (sr_touch now (rec\<lparr>sr_metadata := d\<rparr>)) s else (Inr rec, s))"

definition surface_meta :: "string option \<Rightarrow> pydict \<Rightarrow> pydict" where
  "surface_meta surf md = (case surf of None \<Rightarrow> md
     | Some x \<Rightarrow> dict_set ''last_surface'' (VStr x) (dict_setdefault ''surface'' (VStr x) md))"

definition stripped :: "string option \<Rightarrow> string option" where
  "stripped v = (case v of None \<Rightarrow> None | Some t \<Rightarrow> if py_strip t = [] then None else Some (py_strip t))"

definition bound :: "(pyval \<Rightarrow> string) \<Rightarrow> bool \<Rightarrow> string option \<Rightarrow> session_record result \<times> store \<Rightarrow> session_bind result \<times> store" where
  "bound r created surf x = map_prod (map_sum id (sb_from_record r created surf)) id x"

definition session_bind_to :: "(pyval \<Rightarrow> string) \<Rightarrow> string \<Rightarrow> string \<Rightarrow> string option \<Rightarrow> bool \<Rightarrow> pydict \<Rightarrow> string option \<Rightarrow> store
    \<Rightarrow> session_bind result \<times> store" where
  "session_bind_to r now fresh session_id create metadata surface s =
     (let surf = stripped surface; md = surface_meta surf metadata in
      case stripped session_id of
        None \<Rightarrow> if \<not> create then (Inl (plane_error ''bind requires session_id when create=False (no outside subject)''), s)
          else bound r True surf (session_open r now fresh None md s)
      | Some sid \<Rightarrow>
         (case session_get r now sid s of
            Inl x \<Rightarrow> (Inl x, s)
          | Inr None \<Rightarrow> if \<not> create then (Inl (Exc SessionNotFoundError (''session not found: '' @ quoted sid)), s)
              else bound r True surf (session_open r now fresh (Some sid) md s)
          | Inr (Some rec) \<Rightarrow>
              if sr_status rec = SES_CLOSED
              then (Inl (closed_error (''session '' @ quoted sid @ '' is closed; bind refused (create a new session)'')), s)
              else bound r False surf (put_merged r now md rec s)))"

definition ensure_service_session :: "(pyval \<Rightarrow> string) \<Rightarrow> string \<Rightarrow> string \<Rightarrow> string \<Rightarrow> pydict \<Rightarrow> store \<Rightarrow> session_record result \<times> store" where
  "ensure_service_session r now fresh origin metadata s = (case service_session_id origin of
     Inl x \<Rightarrow> (Inl x, s)
   | Inr sid \<Rightarrow>
      (let md = dict_setdefault ''origin'' (VStr (py_strip origin)) (dict_setdefault ''kind'' (VStr ''service'') metadata) in
       case session_get r now sid s of
         Inl x \<Rightarrow> (Inl x, s)
       | Inr (Some rec) \<Rightarrow>
           if sr_status rec = SES_CLOSED
           then (Inl (closed_error (''service session '' @ quoted sid @ '' is closed; refuse reopen'')), s)
           else put_merged r now md rec s
       | Inr None \<Rightarrow> session_open r now fresh (Some sid) md s))"

definition ensure_host_session :: "(pyval \<Rightarrow> string) \<Rightarrow> string \<Rightarrow> string \<Rightarrow> pydict \<Rightarrow> store \<Rightarrow> session_record result \<times> store" where
  "ensure_host_session r now fresh metadata s = ensure_service_session r now fresh HOST_SESSION_ORIGIN
     (dict_setdefault ''origin'' (VStr HOST_SESSION_ORIGIN) (dict_setdefault ''kind'' (VStr ''service'') metadata)) s"

definition session_close :: "(pyval \<Rightarrow> string) \<Rightarrow> string \<Rightarrow> string \<Rightarrow> store \<Rightarrow> session_record result \<times> store" where
  "session_close r now sid s = (case session_require r now sid s of
     Inl x \<Rightarrow> (Inl x, s)
   | Inr rec \<Rightarrow> if sr_status rec = SES_CLOSED then (Inr rec, s)
       else session_put r now (sr_touch now (rec\<lparr>sr_status := SES_CLOSED\<rparr>)) s)"

end
