(* ===== verification/SessionPlane.thy ===== *)
theory SessionPlane
  imports Sessions
begin

text \<open>
  The session plane on instances (\<open>palm/system/subsystems/planes/session/plane.py\<close>): metadata, exclusive
  attachment with the continue focus, the owner gate, continue attribution and the assignment of
  events to sessions.
\<close>

subsection \<open>Metadata\<close>

definition session_get_metadata :: "(pyval \<Rightarrow> string) \<Rightarrow> string \<Rightarrow> string \<Rightarrow> store \<Rightarrow> pydict result" where
  "session_get_metadata r now sid s = attempt (session_require r now sid s) (\<lambda>rec. Inr (sr_metadata rec))"

definition merge_metadata :: "(pyval \<Rightarrow> string) \<Rightarrow> string \<Rightarrow> string \<Rightarrow> pydict \<Rightarrow> store \<Rightarrow> session_record result \<times> store" where
  "merge_metadata r now sid md s = (case require_open r now sid s of
     Inl x \<Rightarrow> (Inl x, s)
   | Inr rec \<Rightarrow> if md = [] then (Inr rec, s) else put_merged r now md rec s)"

definition replace_metadata :: "(pyval \<Rightarrow> string) \<Rightarrow> string \<Rightarrow> string \<Rightarrow> pydict \<Rightarrow> store \<Rightarrow> session_record result \<times> store" where
  "replace_metadata r now sid md s = (case require_open r now sid s of
     Inl x \<Rightarrow> (Inl x, s) | Inr rec \<Rightarrow> session_put r now (sr_touch now (rec\<lparr>sr_metadata := md\<rparr>)) s)"

subsection \<open>Instances\<close>

text \<open>
  Attaching reads the session and the owner of the instance and then writes the record; the plane has
  no lock, so the two are separate steps. The flag says whether anything is written.
\<close>

definition attach_plan :: "(pyval \<Rightarrow> string) \<Rightarrow> string \<Rightarrow> string \<Rightarrow> string \<Rightarrow> store \<Rightarrow> (session_record \<times> bool) result" where
  "attach_plan r now sid instance_id s =
     (let iid = py_strip instance_id in
      if iid = [] then Inl (plane_error ''instance_id is required'')
      else attempt (session_require r now sid s) (\<lambda>rec.
        let owner = session_id_for_instance r iid s in
        if sr_status rec = SES_CLOSED
        then Inl (closed_error (''session '' @ quoted sid @ '' is closed; cannot attach instances''))
        else if owner \<noteq> None \<and> owner \<noteq> Some (sr_id rec)
        then Inl (Exc InstanceAlreadyAttachedError (''instance '' @ quoted iid @ '' already attached to session '' @ quoted (the owner)))
        else if iid \<in> set (sr_instances rec)
        then (if sr_active rec = None \<or> the (sr_active rec) \<notin> set (sr_instances rec)
              then Inr (sr_touch now (rec\<lparr>sr_active := Some iid\<rparr>), True)
              else Inr (rec, False))
        else Inr (sr_touch now (rec\<lparr>sr_instances := sr_instances rec @ [iid], sr_active := Some iid,
               sr_status := (if sr_status rec = SES_OPEN then SES_ACTIVE else sr_status rec)\<rparr>), True)))"

definition attach_instance :: "(pyval \<Rightarrow> string) \<Rightarrow> string \<Rightarrow> string \<Rightarrow> string \<Rightarrow> store \<Rightarrow> session_record result \<times> store" where
  "attach_instance r now sid instance_id s = (case attach_plan r now sid instance_id s of
     Inl x \<Rightarrow> (Inl x, s)
   | Inr (rec, write) \<Rightarrow> if write then session_put r now rec s else (Inr rec, s))"

definition last_or_none :: "string list \<Rightarrow> string option" where
  "last_or_none xs = (if xs \<noteq> [] then Some (List.last xs) else None)"

definition detach_instance :: "(pyval \<Rightarrow> string) \<Rightarrow> string \<Rightarrow> string \<Rightarrow> string \<Rightarrow> store \<Rightarrow> session_record result \<times> store" where
  "detach_instance r now sid instance_id s =
     (let iid = py_strip instance_id in
      if iid = [] then (Inl (plane_error ''instance_id is required''), s)
      else case session_require r now sid s of
        Inl x \<Rightarrow> (Inl x, s)
      | Inr rec \<Rightarrow>
         if iid \<notin> set (sr_instances rec) then (Inr rec, s)
         else (let ids = filter (\<lambda>x. x \<noteq> iid) (sr_instances rec);
                   active = (case sr_active rec of None \<Rightarrow> None
                     | Some a \<Rightarrow> if a = iid \<or> a \<notin> set ids then last_or_none ids else Some a)
               in session_put r now (sr_touch now (rec\<lparr>sr_instances := ids, sr_active := active\<rparr>)) s))"

definition set_active_instance :: "(pyval \<Rightarrow> string) \<Rightarrow> string \<Rightarrow> string \<Rightarrow> string \<Rightarrow> store \<Rightarrow> session_record result \<times> store" where
  "set_active_instance r now sid instance_id s =
     (let iid = py_strip instance_id in
      if iid = [] then (Inl (plane_error ''instance_id is required''), s)
      else case require_open r now sid s of
        Inl x \<Rightarrow> (Inl x, s)
      | Inr rec \<Rightarrow>
         if iid \<notin> set (sr_instances rec)
         then (Inl (plane_error (''instance '' @ quoted iid @ '' is not attached to session '' @ quoted sid
                 @ ''; attach first, then set_active_instance'')), s)
         else if sr_active rec = Some iid then (Inr rec, s)
         else session_put r now (sr_touch now (rec\<lparr>sr_active := Some iid\<rparr>)) s)"

definition clear_active_instance :: "(pyval \<Rightarrow> string) \<Rightarrow> string \<Rightarrow> string \<Rightarrow> store \<Rightarrow> session_record result \<times> store" where
  "clear_active_instance r now sid s = (case require_open r now sid s of
     Inl x \<Rightarrow> (Inl x, s)
   | Inr rec \<Rightarrow> if sr_active rec = None then (Inr rec, s)
       else session_put r now (sr_touch now (rec\<lparr>sr_active := None\<rparr>)) s)"

definition list_instances :: "(pyval \<Rightarrow> string) \<Rightarrow> string \<Rightarrow> string \<Rightarrow> store \<Rightarrow> string list result" where
  "list_instances r now sid s = attempt (session_require r now sid s) (\<lambda>rec. Inr (sr_instances rec))"

definition active_instance :: "(pyval \<Rightarrow> string) \<Rightarrow> string \<Rightarrow> string \<Rightarrow> store \<Rightarrow> string option result" where
  "active_instance r now sid s = attempt (session_require r now sid s) (\<lambda>rec. Inr (case sr_active rec of
     None \<Rightarrow> None | Some a \<Rightarrow> if a \<notin> set (sr_instances rec) then None else Some a))"

definition owns_instance :: "(pyval \<Rightarrow> string) \<Rightarrow> string \<Rightarrow> string \<Rightarrow> string \<Rightarrow> store \<Rightarrow> bool result" where
  "owns_instance r now session_id instance_id s =
     (let sid = py_strip session_id; iid = py_strip instance_id in
      if sid = [] \<or> iid = [] then Inr False
      else attempt (session_get r now sid s) (\<lambda>x. case x of
        None \<Rightarrow> Inr False
      | Some rec \<Rightarrow> Inr (iid \<in> set (sr_instances rec) \<or> session_id_for_instance r iid s = Some sid)))"

text \<open>The owner gate and continue attribution.\<close>

definition require_owned_instance :: "(pyval \<Rightarrow> string) \<Rightarrow> string \<Rightarrow> string \<Rightarrow> string \<Rightarrow> store \<Rightarrow> session_record result" where
  "require_owned_instance r now session_id instance_id s =
     (let sid = py_strip session_id; iid = py_strip instance_id in
      if sid = [] then Inl (plane_error ''session_id is required for owner gate'')
      else if iid = [] then Inl (plane_error ''instance_id is required for owner gate'')
      else attempt (require_open r now sid s) (\<lambda>rec.
        if iid \<in> set (sr_instances rec) then Inr rec
        else Inl (Exc InstanceNotOwnedError (case session_id_for_instance r iid s of
            Some owner \<Rightarrow> if owner \<noteq> sid
              then ''instance '' @ quoted iid @ '' is owned by session '' @ quoted owner @ '', not '' @ quoted sid
              else ''instance '' @ quoted iid @ '' is not attached to session '' @ quoted sid
          | None \<Rightarrow> ''instance '' @ quoted iid @ '' is not attached to session '' @ quoted sid))))"

definition require_continue_attribution :: "(pyval \<Rightarrow> string) \<Rightarrow> string \<Rightarrow> string \<Rightarrow> string option \<Rightarrow> bool \<Rightarrow> store \<Rightarrow> string option result" where
  "require_continue_attribution r now instance_id session_id strict s =
     (let iid = py_strip instance_id; sid = stripped session_id in
      if iid = [] then Inl (plane_error ''instance_id is required for continue attribution'')
      else if looks_like_system_session_id sid
      then attempt (require_owned_instance r now (the sid) iid s) (\<lambda>_. Inr sid)
      else if \<not> strict then Inr None
      else attempt (get_by_instance r now iid s) (\<lambda>owner. case owner of
        None \<Rightarrow> Inl (Exc SessionAttributionError (''continue instance '' @ quoted iid @ '' has no owner session; ''
                 @ ''bind a system session_id (0.58.15 strict attribution)''))
      | Some rec \<Rightarrow> attempt (require_owned_instance r now (sr_id rec) iid s) (\<lambda>_. Inr (Some (sr_id rec)))))"

text \<open>Naming an instance in the metadata of its session: once with \<open>stamp\<close>, again with \<open>replace\<close>.\<close>

definition session_stamp :: "(pyval \<Rightarrow> string) \<Rightarrow> string \<Rightarrow> string \<Rightarrow> string \<Rightarrow> string \<Rightarrow> store \<Rightarrow> session_record result \<times> store" where
  "session_stamp r now sid key instance_id s =
     (let iid = py_strip instance_id in
      case require_owned_instance r now sid iid s of
        Inl x \<Rightarrow> (Inl x, s)
      | Inr rec \<Rightarrow>
         (let current = py_get (sr_metadata rec) key in
          if current = VNone \<or> py_strip (py_str r current) = [] then merge_metadata r now sid [(key, VStr iid)] s
          else if py_strip (py_str r current) = iid then (Inr rec, s)
          else (Inl (plane_error (''session '' @ quoted sid @ '' already has '' @ key @ ''='' @ (case current of VStr t \<Rightarrow> quoted t | v \<Rightarrow> py_str r v) @ ''; use replace'')), s)))"

definition session_replace :: "(pyval \<Rightarrow> string) \<Rightarrow> string \<Rightarrow> string \<Rightarrow> string \<Rightarrow> string \<Rightarrow> store \<Rightarrow> session_record result \<times> store" where
  "session_replace r now sid key instance_id s =
     (let iid = py_strip instance_id in
      case require_owned_instance r now sid iid s of
        Inl x \<Rightarrow> (Inl x, s) | Inr _ \<Rightarrow> merge_metadata r now sid [(key, VStr iid)] s)"

text \<open>
  The instance to continue: the focus, else the newest attached one with an open wait, else the last
  attached. The rows of open waits come from the inspection of the session.
\<close>

definition waiting_instance :: "(pyval \<Rightarrow> string) \<Rightarrow> string list \<Rightarrow> pyval list \<Rightarrow> string option" where
  "waiting_instance r ids rows =
     (case List.map_filter (\<lambda>w. case w of
          VDict d \<Rightarrow> (let v = py_get d ''instance_id'' in if truthy v \<and> py_str r v \<in> set ids then Some (py_str r v) else None)
        | _ \<Rightarrow> None) (rev rows) of [] \<Rightarrow> None | i # _ \<Rightarrow> Some i)"

definition resolve_continue_instance :: "(pyval \<Rightarrow> string) \<Rightarrow> string \<Rightarrow> (session_record \<Rightarrow> pyval list) \<Rightarrow> string \<Rightarrow> store \<Rightarrow> string option result" where
  "resolve_continue_instance r now waiting sid s = attempt (require_open r now sid s) (\<lambda>rec.
     let ids = sr_instances rec in
     if ids = [] then Inr None
     else if \<exists>a. sr_active rec = Some a \<and> a \<in> set ids then Inr (sr_active rec)
     else case waiting_instance r ids (waiting rec) of Some i \<Rightarrow> Inr (Some i) | None \<Rightarrow> Inr (Some (List.last ids)))"

subsection \<open>Events\<close>

text \<open>
  The session of an event, by its context, its payload, and the owner of the instance it names. The
  context is given by its session and instance ids.
\<close>

definition nonblank :: "(pyval \<Rightarrow> string) \<Rightarrow> pyval \<Rightarrow> string option" where
  "nonblank r v = (if v = VNone \<or> py_strip (py_str r v) = [] then None else Some (py_strip (py_str r v)))"

definition owner_of :: "(pyval \<Rightarrow> string) \<Rightarrow> string \<Rightarrow> store \<Rightarrow> string \<Rightarrow> string option result" where
  "owner_of r now s iid = attempt (get_by_instance r now iid s) (\<lambda>x. Inr (map_option sr_id x))"

definition first_owner :: "(pyval \<Rightarrow> string) \<Rightarrow> string \<Rightarrow> store \<Rightarrow> string option list \<Rightarrow> string option result" where
  "first_owner r now s = (\<lambda>cands. foldr (\<lambda>c rest. case c of None \<Rightarrow> rest
     | Some iid \<Rightarrow> attempt (owner_of r now s iid) (\<lambda>x. case x of Some sid \<Rightarrow> Inr (Some sid) | None \<Rightarrow> rest)) cands (Inr None))"

definition attributed_session_id :: "(pyval \<Rightarrow> string) \<Rightarrow> string \<Rightarrow> (string option \<times> string option) option \<Rightarrow> pydict \<Rightarrow> store \<Rightarrow> string option result" where
  "attributed_session_id r now ctx payload s =
     (let ctx_session = (case ctx of Some (Some sid, _) \<Rightarrow> sid | _ \<Rightarrow> []);
          ctx_instance = (case ctx of Some (_, Some iid) \<Rightarrow> if iid = [] then None else Some (py_strip iid) | _ \<Rightarrow> None);
          raw = nonblank r (py_get payload ''session_id'')
      in if ctx_session \<noteq> [] then Inr (if py_strip ctx_session = [] then None else Some (py_strip ctx_session))
         else case raw of
           Some t \<Rightarrow> if prefix ''sess-'' t then Inr (Some t)
             else first_owner r now s [Some t, nonblank r (py_get payload ''instance_id''), nonblank r (py_get payload ''instance''), ctx_instance]
         | None \<Rightarrow> first_owner r now s [nonblank r (py_get payload ''instance_id''), nonblank r (py_get payload ''instance''), ctx_instance])"

definition event_matches :: "(pyval \<Rightarrow> string) \<Rightarrow> string \<Rightarrow> string \<Rightarrow> (string option \<times> string option) option \<Rightarrow> (string option \<times> string option) option
    \<Rightarrow> pydict \<Rightarrow> store \<Rightarrow> bool result" where
  "event_matches r now session_id event_ctx ctx payload s =
     (let sid = py_strip session_id in
      if sid = [] then Inr False
      else attempt (attributed_session_id r now (if ctx = None then event_ctx else ctx) payload s) (\<lambda>a.
        if a = Some sid then Inr True
        else attempt (session_get r now sid s) (\<lambda>x. case x of
          None \<Rightarrow> Inr False
        | Some rec \<Rightarrow> Inr (list_ex (\<lambda>k. py_get payload k \<noteq> VNone \<and> py_strip (py_str r (py_get payload k)) \<in> set (sr_instances rec))
              [''instance_id'', ''instance'', ''session_id'']
            \<or> (case ctx of Some (_, Some iid) \<Rightarrow> iid \<noteq> [] \<and> py_strip iid \<in> set (sr_instances rec) | _ \<Rightarrow> False)))))"

end
