(* ===== verification/SessionRep.thy ===== *)
theory SessionRep
  imports SessionPlane
begin

text \<open>
  What the store of the session plane stands for: a map from ids to sessions in which every instance
  has one owner. Writing a record whose instances nobody else holds keeps this.
\<close>

subsection \<open>Representation\<close>

type_synonym session_map = "string \<Rightarrow> session_record option"

definition rec_ok :: "session_record \<Rightarrow> bool" where
  "rec_ok rec \<longleftrightarrow> (\<forall>i \<in> set (sr_instances rec). py_strip i = i \<and> i \<noteq> []) \<and> distinct (sr_instances rec)
     \<and> (\<forall>a. sr_active rec = Some a \<longrightarrow> a \<in> set (sr_instances rec)) \<and> sr_created rec \<noteq> [] \<and> sr_updated rec \<noteq> []
     \<and> (sr_status rec = SES_OPEN \<longrightarrow> sr_instances rec = []) \<and> py_strip (sr_id rec) = sr_id rec \<and> sr_id rec \<noteq> []"

definition holds :: "session_map \<Rightarrow> string \<Rightarrow> string \<Rightarrow> bool" where
  "holds m sid i = (\<exists>rec. m sid = Some rec \<and> i \<in> set (sr_instances rec))"

definition entries_rep :: "store \<Rightarrow> session_map \<Rightarrow> bool" where
  "entries_rep s m = (\<forall>sid. py_get s (session_key sid) = (case m sid of None \<Rightarrow> VNone | Some rec \<Rightarrow> VDict (sr_to_dict rec)))"

definition records_ok :: "session_map \<Rightarrow> bool" where
  "records_ok m = (\<forall>sid rec. m sid = Some rec \<longrightarrow> rec_ok rec \<and> sr_id rec = sid)"

definition owner_rep :: "store \<Rightarrow> session_map \<Rightarrow> string \<Rightarrow> bool" where
  "owner_rep s m i \<longleftrightarrow> py_get s (owner_key i) = VNone \<and> (\<forall>sid. \<not> holds m sid i)
     \<or> (\<exists>sid. py_get s (owner_key i) = VStr sid \<and> holds m sid i \<and> (\<forall>sid'. holds m sid' i \<longrightarrow> sid' = sid))"

definition index_rep :: "store \<Rightarrow> session_map \<Rightarrow> bool" where
  "index_rep s m = (\<exists>order. (py_get s SESSION_INDEX = VList (map VStr order) \<or> order = [] \<and> py_get s SESSION_INDEX = VNone)
     \<and> distinct order \<and> set order = dom m)"

definition session_rep :: "store \<Rightarrow> session_map \<Rightarrow> bool" where
  "session_rep s m \<longleftrightarrow> entries_rep s m \<and> records_ok m \<and> (\<forall>i. owner_rep s m i) \<and> index_rep s m"

lemma session_keys_apart [simp]:
  "session_key a \<noteq> owner_key b" "owner_key b \<noteq> session_key a" "session_key a \<noteq> SESSION_INDEX" "SESSION_INDEX \<noteq> session_key a"
  "owner_key b \<noteq> SESSION_INDEX" "SESSION_INDEX \<noteq> owner_key b"
  by (simp_all add: SESSION_ENTRY_PREFIX_def SESSION_BY_INSTANCE_PREFIX_def SESSION_INDEX_def)

lemma status_back [simp]: "session_status_of (session_status_value st) = st"
  by (cases st) (simp_all add: session_status_of_def)

lemma active_back:
  "rec_ok rec \<Longrightarrow> read_active r (sr_to_dict rec) (sr_instances rec) = sr_active rec"
  by (cases "sr_active rec") (auto simp: read_active_def sr_to_dict_def rec_ok_def dict_has_def)

lemma session_roundtrip:
  assumes "rec_ok rec"
  shows "sr_from_dict r now (sr_to_dict rec) = Inr rec"
proof -
  have ids: "py_iter (py_or (VList (map VStr (sr_instances rec))) (VList [])) = Inr (map VStr (sr_instances rec))"
    by (cases "sr_instances rec") (simp_all add: py_or_def py_iter_def)
  have md: "py_dict (py_or (VDict (sr_metadata rec)) (VDict [])) = Inr (sr_metadata rec)" by (simp add: py_or_def py_dict_def)
  have fields: "py_get (sr_to_dict rec) ''instance_ids'' = VList (map VStr (sr_instances rec))" "py_get (sr_to_dict rec) ''metadata'' = VDict (sr_metadata rec)"
    "dict_has (sr_to_dict rec) ''session_id''" by (simp_all add: sr_to_dict_def dict_has_def)
  have strs: "map (py_str r) (map VStr xs) = xs" for xs by (simp add: comp_def)
  show ?thesis unfolding sr_from_dict_def fields ids md attempt_simps strs Let_def using active_back [OF assms, of r] assms fields(3)
    by (cases rec) (simp add: sr_to_dict_def rec_ok_def)
qed

lemma rep_ok: "session_rep s m \<Longrightarrow> m sid = Some rec \<Longrightarrow> rec_ok rec \<and> sr_id rec = sid"
  unfolding session_rep_def records_ok_def by blast

lemma session_rep_entry: "session_rep s m \<Longrightarrow> py_get s (session_key sid) = (case m sid of None \<Rightarrow> VNone | Some rec \<Rightarrow> VDict (sr_to_dict rec))"
  unfolding session_rep_def entries_rep_def by blast

lemma rep_get: "session_rep s m \<Longrightarrow> session_get r now sid s = Inr (m sid)"
  using rep_ok [of s m sid] session_rep_entry [of s m sid] by (cases "m sid") (simp_all add: session_get_def session_roundtrip)

lemma rep_owner_value: "session_rep s m \<Longrightarrow> owner_rep s m i"
  unfolding session_rep_def by blast

lemma rep_order: "session_rep s m \<Longrightarrow> index_rep s m"
  unfolding session_rep_def by blast

lemma owner_cases:
  assumes "session_rep s m"
  obtains (free) "py_get s (owner_key i) = VNone" "\<And>sid. \<not> holds m sid i"
  | (owned) sid where "py_get s (owner_key i) = VStr sid" "holds m sid i" "\<And>sid'. holds m sid' i \<Longrightarrow> sid' = sid"
  using rep_owner_value [OF assms, of i] unfolding owner_rep_def by blast

lemma owner_freeI: "py_get s (owner_key i) = VNone \<Longrightarrow> (\<And>sid. \<not> holds m sid i) \<Longrightarrow> owner_rep s m i"
  unfolding owner_rep_def by blast

lemma owner_ownedI: "py_get s (owner_key i) = VStr sid \<Longrightarrow> holds m sid i \<Longrightarrow> (\<And>sid'. holds m sid' i \<Longrightarrow> sid' = sid) \<Longrightarrow> owner_rep s m i"
  unfolding owner_rep_def by blast

lemma rep_owner:
  assumes "session_rep s m" "py_strip i \<noteq> []"
  shows "session_id_for_instance r i s = Some sid \<longleftrightarrow> holds m sid (py_strip i)"
  using assms(1)
proof (cases rule: owner_cases [where i = "py_strip i"])
  case free
  then show ?thesis using assms(2) by (simp add: session_id_for_instance_def Let_def)
next
  case (owned o')
  have "session_id_for_instance r i s = Some o'" using owned(1) assms(2) by (simp add: session_id_for_instance_def Let_def)
  then show ?thesis using owned(2,3) by (metis option.inject)
qed

lemma rep_exclusive: "session_rep s m \<Longrightarrow> holds m a i \<Longrightarrow> holds m b i \<Longrightarrow> a = b"
  by (erule owner_cases [where i = i]) metis+

lemma session_rep_index:
  assumes "session_rep s m"
  shows "set (session_index r s) = dom m \<and> distinct (session_index r s)"
proof -
  obtain order where o: "py_get s SESSION_INDEX = VList (map VStr order) \<or> order = [] \<and> py_get s SESSION_INDEX = VNone"
    "distinct order" "set order = dom m" using rep_order [OF assms] unfolding index_rep_def by blast
  have "map (py_str r) (map VStr xs) = xs" for xs by (simp add: comp_def)
  then have "session_index r s = order" using o(1) by (auto simp: session_index_def)
  then show ?thesis using o(2,3) by simp
qed

subsection \<open>Writing a record\<close>

lemma clear_owners:
  "\<forall>i \<in> set is. py_strip i = i \<and> i \<noteq> [] \<and> py_get s (owner_key i) \<in> {VNone, VStr sid} \<Longrightarrow>
    py_get (fold (clear_instance_owner r sid) is s) k = (if k \<in> owner_key ` set is then VNone else py_get s k)"
proof (induction "is" arbitrary: s)
  case (Cons i ks)
  have pop: "py_get (dict_pop a d) b = (if b = a then VNone else py_get d b)" for a b and d :: pydict by (simp add: get_default_def)
  have one: "clear_instance_owner r sid i s = dict_pop (owner_key i) s" using Cons.prems by (auto simp: clear_instance_owner_def Let_def)
  show ?case using Cons.IH [of "dict_pop (owner_key i) s"] Cons.prems by (auto simp: one pop)
qed simp

lemma set_owners:
  "\<forall>i \<in> set is. py_strip i = i \<and> i \<noteq> [] \<Longrightarrow>
    py_get (fold (set_instance_owner sid) is s) k = (if k \<in> owner_key ` set is then VStr sid else py_get s k)"
proof (induction "is" arbitrary: s)
  case (Cons i ks)
  have one: "set_instance_owner sid i s = dict_set (owner_key i) (VStr sid) s" using Cons.prems by (simp add: set_instance_owner_def Let_def)
  show ?case using Cons.IH [of "dict_set (owner_key i) (VStr sid) s"] Cons.prems by (auto simp: one)
qed simp

text \<open>What the plane may write: a well-formed record whose instances no other session holds.\<close>

definition may_put :: "session_map \<Rightarrow> session_record \<Rightarrow> bool" where
  "may_put m rec \<longleftrightarrow> rec_ok rec \<and> (\<forall>i \<in> set (sr_instances rec). \<forall>sid. holds m sid i \<longrightarrow> sid = sr_id rec)"

lemma rec_ok_instance: "rec_ok rec \<Longrightarrow> i \<in> set (sr_instances rec) \<Longrightarrow> py_strip i = i \<and> i \<noteq> []"
  unfolding rec_ok_def by blast

lemma held_instance: "session_rep s m \<Longrightarrow> holds m sid i \<Longrightarrow> py_strip i = i \<and> i \<noteq> []"
  unfolding holds_def using rep_ok rec_ok_instance by blast

lemma put_rep:
  assumes rep: "session_rep s m" and ok: "may_put m rec"
  shows "\<exists>s'. session_put r now rec s = (Inr rec, s') \<and> session_rep s' (m(sr_id rec \<mapsto> rec))"
proof -
  let ?id = "sr_id rec" and ?m = "m(sr_id rec \<mapsto> rec)"
  define old where "old = (case m ?id of Some o' \<Rightarrow> sr_instances o' | None \<Rightarrow> [])"
  define s1 where "s1 = dict_set (session_key ?id) (VDict (sr_to_dict rec)) s"
  define s2 where "s2 = (if ?id \<in> set (session_index r s1) then s1 else dict_set SESSION_INDEX (VList (map VStr (session_index r s1 @ [?id]))) s1)"
  define gone where "gone = filter (\<lambda>i. i \<notin> set (sr_instances rec)) old"
  define s3 where "s3 = fold (clear_instance_owner r ?id) gone s2"
  define s4 where "s4 = fold (set_instance_owner ?id) (sr_instances rec) s3"
  have run: "session_put r now rec s = (Inr rec, s4)"
    by (simp add: session_put_def rep_get [OF rep] Let_def s1_def s2_def s3_def s4_def gone_def old_def)
  have mine: "i \<in> set old \<longleftrightarrow> holds m ?id i" for i by (cases "m ?id") (auto simp: old_def holds_def)
  have old_ok: "py_strip i = i \<and> i \<noteq> []" if "i \<in> set old" for i
    using held_instance [OF rep] that mine by blast
  have new_ok: "py_strip i = i \<and> i \<noteq> []" if "i \<in> set (sr_instances rec)" for i using rec_ok_instance [OF _ that] ok unfolding may_put_def by blast
  have own2: "py_get s2 (owner_key i) = py_get s (owner_key i)" for i by (simp add: s2_def s1_def)
  have mine_val: "py_get s (owner_key i) = VStr ?id" if "i \<in> set old" for i
    using rep
  proof (cases rule: owner_cases [where i = i])
    case free
    then show ?thesis using that mine by blast
  next
    case (owned o')
    then show ?thesis using that mine by metis
  qed
  have g3: "py_get s3 k = (if k \<in> owner_key ` set gone then VNone else py_get s2 k)" for k
    unfolding s3_def by (rule clear_owners) (simp add: gone_def old_ok own2 mine_val)
  have g4: "py_get s4 k = (if k \<in> owner_key ` set (sr_instances rec) then VStr ?id else py_get s3 k)" for k
    unfolding s4_def by (rule set_owners) (use new_ok in blast)
  have sk: "session_key sid \<notin> owner_key ` X" "SESSION_INDEX \<notin> owner_key ` X" for sid X by auto
  have ok_inj: "owner_key i \<in> owner_key ` X \<longleftrightarrow> i \<in> X" for i X by auto
  have A: "py_get s4 (session_key sid) = (case ?m sid of None \<Rightarrow> VNone | Some rec \<Rightarrow> VDict (sr_to_dict rec))" for sid
    using session_rep_entry [OF rep, of sid] by (simp add: g3 g4 sk s2_def s1_def)
  have B: "rec_ok rec' \<and> sr_id rec' = sid" if "?m sid = Some rec'" for sid rec'
    using that ok rep_ok [OF rep, of sid rec'] by (auto simp: may_put_def split: if_splits)
  have hm: "holds ?m sid i \<longleftrightarrow> (if sid = ?id then i \<in> set (sr_instances rec) else holds m sid i)" for sid i by (simp add: holds_def)
  have C: "owner_rep s4 ?m i" for i
  proof (cases "i \<in> set (sr_instances rec)")
    case True
    show ?thesis
    proof (rule owner_ownedI [where sid = ?id])
      show "py_get s4 (owner_key i) = VStr ?id" "holds ?m ?id i" using True by (simp_all add: g4 ok_inj hm)
      show "sid' = ?id" if "holds ?m sid' i" for sid' using that True ok unfolding may_put_def hm by metis
    qed
  next
    case False
    show ?thesis
    proof (cases "i \<in> set old")
      case True
      show ?thesis
      proof (rule owner_freeI)
        show "py_get s4 (owner_key i) = VNone" using True False by (simp add: g4 g3 ok_inj gone_def)
        show "\<not> holds ?m sid i" for sid using False True mine rep_exclusive [OF rep] unfolding hm by metis
      qed
    next
      case no: False
      then have same: "py_get s4 (owner_key i) = py_get s (owner_key i)" using False by (simp add: g4 g3 ok_inj gone_def own2)
      have keep: "holds ?m sid i = holds m sid i" for sid using no False mine unfolding hm by metis
      show ?thesis using rep_owner_value [OF rep, of i] unfolding owner_rep_def same keep .
    qed
  qed
  have idx: "set (session_index r s1) = dom m" "distinct (session_index r s1)"
    using session_rep_index [OF rep, of r] by (simp_all add: s1_def session_index_def)
  obtain order where o: "py_get s SESSION_INDEX = VList (map VStr order) \<or> order = [] \<and> py_get s SESSION_INDEX = VNone"
    "distinct order" "set order = dom m" using rep_order [OF rep] unfolding index_rep_def by blast
  have D: "index_rep s4 ?m"
  proof (cases "?id \<in> dom m")
    case True
    then have "py_get s4 SESSION_INDEX = py_get s SESSION_INDEX" using idx by (simp add: g3 g4 sk s2_def s1_def)
    moreover have "dom ?m = dom m" using True by auto
    ultimately show ?thesis using o unfolding index_rep_def by metis
  next
    case False
    then have "py_get s4 SESSION_INDEX = VList (map VStr (session_index r s1 @ [?id]))" using idx by (simp add: g3 g4 sk s2_def)
    moreover have "distinct (session_index r s1 @ [?id])" "set (session_index r s1 @ [?id]) = dom ?m" using idx False by auto
    ultimately show ?thesis unfolding index_rep_def by blast
  qed
  have "session_rep s4 ?m" unfolding session_rep_def entries_rep_def records_ok_def using A B C D by blast
  then show ?thesis using run by blast
qed

end
