(* ===== verification/SessionProps.thy ===== *)
theory SessionProps
  imports SessionRep
begin

text \<open>
  Properties of the session plane: every operation writes at most one well-formed record and never
  reopens a closed session; continue attribution decides ownership; two attaches that interleave share
  an instance.
\<close>

subsection \<open>One operation\<close>

datatype session_op =
    SOpen "string option" pydict
  | SBind "string option" bool pydict "string option"
  | SService string pydict
  | SHost pydict
  | SMerge string pydict
  | SReplaceMeta string pydict
  | SStamp string string string
  | SReplace string string string
  | SClose string
  | SAttach string string
  | SDetach string string
  | SSetActive string string
  | SClearActive string

fun session_do :: "(pyval \<Rightarrow> string) \<Rightarrow> string \<Rightarrow> string \<Rightarrow> session_op \<Rightarrow> store \<Rightarrow> store" where
  "session_do r now fresh (SOpen i md) s = snd (session_open r now fresh i md s)"
| "session_do r now fresh (SBind i create md surf) s = snd (session_bind_to r now fresh i create md surf s)"
| "session_do r now fresh (SService origin md) s = snd (ensure_service_session r now fresh origin md s)"
| "session_do r now fresh (SHost md) s = snd (ensure_host_session r now fresh md s)"
| "session_do r now fresh (SMerge i md) s = snd (merge_metadata r now i md s)"
| "session_do r now fresh (SReplaceMeta i md) s = snd (replace_metadata r now i md s)"
| "session_do r now fresh (SStamp i k inst) s = snd (session_stamp r now i k inst s)"
| "session_do r now fresh (SReplace i k inst) s = snd (session_replace r now i k inst s)"
| "session_do r now fresh (SClose i) s = snd (session_close r now i s)"
| "session_do r now fresh (SAttach i inst) s = snd (attach_instance r now i inst s)"
| "session_do r now fresh (SDetach i inst) s = snd (detach_instance r now i inst s)"
| "session_do r now fresh (SSetActive i inst) s = snd (set_active_instance r now i inst s)"
| "session_do r now fresh (SClearActive i) s = snd (clear_active_instance r now i s)"

text \<open>Each operation reads one clock and may draw one fresh id.\<close>

type_synonym session_trace = "(string \<times> string \<times> session_op) list"

definition trace_ok :: "session_trace \<Rightarrow> bool" where
  "trace_ok ops = list_all (\<lambda>(now, fresh, op). now \<noteq> [] \<and> fresh \<noteq> [] \<and> py_strip fresh = fresh) ops"

definition session_run :: "(pyval \<Rightarrow> string) \<Rightarrow> session_trace \<Rightarrow> store \<Rightarrow> store" where
  "session_run r ops s = fold (\<lambda>(now, fresh, op). session_do r now fresh op) ops s"

text \<open>What an operation does: nothing, or one write that keeps closed sessions closed.\<close>

definition kept :: "session_map \<Rightarrow> session_record \<Rightarrow> bool" where
  "kept m rec \<longleftrightarrow> (\<forall>old. m (sr_id rec) = Some old \<longrightarrow> sr_status old = SES_CLOSED
     \<longrightarrow> sr_status rec = SES_CLOSED \<and> set (sr_instances rec) \<subseteq> set (sr_instances old))"

definition good_step :: "session_map \<Rightarrow> store \<Rightarrow> store \<Rightarrow> bool" where
  "good_step m s s' \<longleftrightarrow> s' = s \<or> (\<exists>r now rec. may_put m rec \<and> kept m rec \<and> s' = snd (session_put r now rec s))"

lemma good_id [simp]: "good_step m s s"
  by (simp add: good_step_def)

lemma good_put: "may_put m rec \<Longrightarrow> kept m rec \<Longrightarrow> good_step m s (snd (session_put r now rec s))"
  unfolding good_step_def by blast

lemma rep_rec_ok: "session_rep s m \<Longrightarrow> m sid = Some rec \<Longrightarrow> rec_ok rec"
  using rep_ok by blast

lemma rep_require: "session_rep s m \<Longrightarrow> session_require r now sid s = (case m sid of
    None \<Rightarrow> Inl (Exc SessionNotFoundError (''session not found: '' @ quoted sid)) | Some rec \<Rightarrow> Inr rec)"
  by (simp add: session_require_def rep_get split: option.splits)

lemma rep_require_open: "session_rep s m \<Longrightarrow> require_open r now sid s = (case m sid of
    None \<Rightarrow> Inl (Exc SessionNotFoundError (''session not found: '' @ quoted sid))
  | Some rec \<Rightarrow> if sr_status rec = SES_CLOSED then Inl (closed_error (''session '' @ quoted sid @ '' is closed'')) else Inr rec)"
  by (simp add: require_open_def rep_require split: option.splits)

lemma good_change:
  assumes rep: "session_rep s m" and at: "m sid = Some rec" and new: "rec_ok rec'" "sr_id rec' = sr_id rec"
    "set (sr_instances rec') \<subseteq> set (sr_instances rec)" "sr_status rec = SES_CLOSED \<longrightarrow> sr_status rec' = SES_CLOSED"
  shows "good_step m s (snd (session_put r now rec' s))"
proof (rule good_put)
  have sid: "sr_id rec = sid" using rep_ok [OF rep at] by blast
  have "a = sid" if "i \<in> set (sr_instances rec')" "holds m a i" for i a
  proof (rule rep_exclusive [OF rep that(2)])
    show "holds m sid i" using that(1) new(3) at unfolding holds_def by blast
  qed
  then show "may_put m rec'" using new(1,2) sid unfolding may_put_def by metis
  show "kept m rec'" unfolding kept_def using at new sid by simp
qed

text \<open>Changes that leave the instances and the status as they are.\<close>

lemma good_meta:
  assumes "session_rep s m" "m sid = Some rec" "now' \<noteq> []"
  shows "good_step m s (snd (session_put r now (sr_touch now' (rec\<lparr>sr_metadata := md\<rparr>)) s))"
  by (rule good_change [OF assms(1,2)]) (use rep_rec_ok [OF assms(1,2)] assms(3) in \<open>simp_all add: rec_ok_def sr_touch_def\<close>)

lemma good_merged:
  assumes "session_rep s m" "m sid = Some rec" "now \<noteq> []"
  shows "good_step m s (snd (put_merged r now md rec s))"
  using good_meta [OF assms] by (simp add: put_merged_def split: prod.split)

lemma good_active:
  assumes "session_rep s m" "m sid = Some rec" "now \<noteq> []" "\<And>a. x = Some a \<Longrightarrow> a \<in> set (sr_instances rec)"
  shows "good_step m s (snd (session_put r now (sr_touch now (rec\<lparr>sr_active := x\<rparr>)) s))"
  by (rule good_change [OF assms(1,2)]) (use rep_rec_ok [OF assms(1,2)] assms(3,4) in \<open>simp_all add: rec_ok_def sr_touch_def\<close>)

lemma good_opened:
  assumes rep: "session_rep s m" and free: "m sid = None" and ok: "now \<noteq> []" "py_strip sid = sid" "sid \<noteq> []"
  shows "good_step m s (snd (session_put r now \<lparr>sr_id = sid, sr_status = SES_OPEN, sr_instances = [], sr_active = None, sr_metadata = md,
          sr_created = now, sr_updated = now\<rparr> s))"
  by (rule good_put) (simp_all add: may_put_def rec_ok_def kept_def free ok)

lemma good_open:
  assumes rep: "session_rep s m" and ok: "now \<noteq> []" "py_strip fresh = fresh" "fresh \<noteq> []"
  shows "good_step m s (snd (session_open r now fresh i md s))"
proof -
  define given where "given = py_strip (case i of Some i \<Rightarrow> i | None \<Rightarrow> [])"
  define sid where "sid = (if given = [] then fresh else given)"
  have sid: "py_strip sid = sid" "sid \<noteq> []" using ok by (auto simp: sid_def given_def)
  show ?thesis
  proof (cases "m sid")
    case None
    then show ?thesis using good_opened [OF rep None ok(1) sid]
      by (simp add: session_open_def Let_def given_def [symmetric] sid_def [symmetric] rep_get [OF rep])
  next
    case (Some rec)
    then show ?thesis by (simp add: session_open_def Let_def given_def [symmetric] sid_def [symmetric] rep_get [OF rep])
  qed
qed

lemma bound_snd [simp]: "snd (bound r created surf x) = snd x"
  by (simp add: bound_def snd_map_prod)

lemma good_bind:
  assumes rep: "session_rep s m" and ok: "now \<noteq> []" "py_strip fresh = fresh" "fresh \<noteq> []"
  shows "good_step m s (snd (session_bind_to r now fresh i create md surf s))"
  using good_open [OF rep ok] good_merged [OF rep _ ok(1)]
  by (simp add: session_bind_to_def Let_def rep_get [OF rep] split: option.split)

lemma good_service:
  assumes rep: "session_rep s m" and ok: "now \<noteq> []" "py_strip fresh = fresh" "fresh \<noteq> []"
  shows "good_step m s (snd (ensure_service_session r now fresh origin md s))"
  using good_open [OF rep ok] good_merged [OF rep _ ok(1)]
  by (simp add: ensure_service_session_def Let_def rep_get [OF rep] split: option.split sum.split)

lemma good_merge_metadata: "session_rep s m \<Longrightarrow> now \<noteq> [] \<Longrightarrow> good_step m s (snd (merge_metadata r now sid md s))"
  using good_merged [of s m sid _ now] by (simp add: merge_metadata_def rep_require_open split: option.split)

lemma good_replace_metadata: "session_rep s m \<Longrightarrow> now \<noteq> [] \<Longrightarrow> good_step m s (snd (replace_metadata r now sid md s))"
  using good_meta [of s m sid _ now] by (simp add: replace_metadata_def rep_require_open split: option.split)

lemma good_stamp: "session_rep s m \<Longrightarrow> now \<noteq> [] \<Longrightarrow> good_step m s (snd (session_stamp r now sid k i s))"
  using good_merge_metadata by (simp add: session_stamp_def Let_def split: sum.split)

lemma good_replace: "session_rep s m \<Longrightarrow> now \<noteq> [] \<Longrightarrow> good_step m s (snd (session_replace r now sid k i s))"
  using good_merge_metadata by (simp add: session_replace_def Let_def split: sum.split)

lemma good_set_active: "session_rep s m \<Longrightarrow> now \<noteq> [] \<Longrightarrow> good_step m s (snd (set_active_instance r now sid i s))"
  using good_active [of s m sid _ now "Some (py_strip i)"] by (simp add: set_active_instance_def Let_def rep_require_open split: option.split)

lemma good_clear_active: "session_rep s m \<Longrightarrow> now \<noteq> [] \<Longrightarrow> good_step m s (snd (clear_active_instance r now sid s))"
  using good_active [of s m sid _ now None] by (simp add: clear_active_instance_def rep_require_open split: option.split)

lemma good_close:
  assumes rep: "session_rep s m" and now: "now \<noteq> []"
  shows "good_step m s (snd (session_close r now sid s))"
proof (cases "m sid")
  case (Some rec)
  have "good_step m s (snd (session_put r now (sr_touch now (rec\<lparr>sr_status := SES_CLOSED\<rparr>)) s))"
    by (rule good_change [OF rep Some]) (use rep_rec_ok [OF rep Some] now in \<open>simp_all add: rec_ok_def sr_touch_def\<close>)
  then show ?thesis using Some by (simp add: session_close_def rep_require [OF rep])
qed (simp add: session_close_def rep_require [OF rep])

lemma good_detach:
  assumes rep: "session_rep s m" and now: "now \<noteq> []"
  shows "good_step m s (snd (detach_instance r now sid i s))"
proof (cases "m sid")
  case (Some rec)
  define ids where "ids = filter (\<lambda>x. x \<noteq> py_strip i) (sr_instances rec)"
  define active where "active = (case sr_active rec of None \<Rightarrow> None
     | Some a \<Rightarrow> if a = py_strip i \<or> a \<notin> set ids then last_or_none ids else Some a)"
  have ids: "set ids \<subseteq> set (sr_instances rec)" by (auto simp: ids_def)
  have active: "a \<in> set ids" if "active = Some a" for a
    using that by (auto simp: active_def last_or_none_def split: option.splits if_splits)
  have "good_step m s (snd (session_put r now (sr_touch now (rec\<lparr>sr_instances := ids, sr_active := active\<rparr>)) s))"
  proof (rule good_change [OF rep Some])
    have old: "rec_ok rec" using rep_ok [OF rep Some] by blast
    have "sr_status rec = SES_OPEN \<Longrightarrow> ids = []" using old by (simp add: rec_ok_def ids_def)
    moreover have "distinct ids" using old by (simp add: rec_ok_def ids_def)
    ultimately show "rec_ok (sr_touch now (rec\<lparr>sr_instances := ids, sr_active := active\<rparr>))"
      using old ids active now unfolding rec_ok_def by (simp add: sr_touch_def subset_iff)
  qed (use ids in \<open>simp_all add: sr_touch_def\<close>)
  then show ?thesis using Some
    by (simp add: detach_instance_def Let_def rep_require [OF rep] ids_def [symmetric] active_def [symmetric])
qed (simp add: detach_instance_def Let_def rep_require [OF rep])

text \<open>An attach plan of a session that is not closed adds an instance that no other session holds.\<close>

lemma plan_ok:
  assumes rep: "session_rep s m" and now: "now \<noteq> []" and plan: "attach_plan r now sid i s = Inr (rec', True)"
  shows "\<exists>rec. m sid = Some rec \<and> sr_status rec \<noteq> SES_CLOSED \<and> sr_id rec' = sid \<and> may_put m rec'
    \<and> set (sr_instances rec') = insert (py_strip i) (set (sr_instances rec)) \<and> sr_status rec' \<noteq> SES_CLOSED"
proof -
  let ?i = "py_strip i"
  have ne: "?i \<noteq> []" using plan by (auto simp: attach_plan_def Let_def)
  obtain rec where at: "m sid = Some rec" using plan ne by (cases "m sid") (simp_all add: attach_plan_def Let_def rep_require [OF rep])
  have old: "rec_ok rec" "sr_id rec = sid" using rep_ok [OF rep at] by blast+
  have live: "sr_status rec \<noteq> SES_CLOSED" using plan ne at by (auto simp: attach_plan_def Let_def rep_require [OF rep])
  have own: "a = sid" if "holds m a ?i" for a
    using plan ne at live that rep_owner [OF rep, of ?i r a] old(2) by (auto simp: attach_plan_def Let_def rep_require [OF rep] split: if_splits)
  have mine: "a = sid" if "x \<in> insert ?i (set (sr_instances rec))" "holds m a x" for a x
  proof (cases "x = ?i")
    case False
    then have "holds m sid x" using that(1) at unfolding holds_def by blast
    then show ?thesis using rep_exclusive [OF rep that(2)] by blast
  qed (use own that in blast)
  show ?thesis
  proof (cases "?i \<in> set (sr_instances rec)")
    case True
    then have new: "rec' = sr_touch now (rec\<lparr>sr_active := Some ?i\<rparr>)"
      using plan ne at live by (auto simp: attach_plan_def Let_def rep_require [OF rep] split: if_splits)
    have "rec_ok rec'" using old(1) True now unfolding new rec_ok_def by (simp add: sr_touch_def)
    moreover have "set (sr_instances rec') = insert ?i (set (sr_instances rec))" "sr_id rec' = sid" "sr_status rec' \<noteq> SES_CLOSED"
      using True old(2) live by (auto simp: new sr_touch_def)
    ultimately show ?thesis using at live mine unfolding may_put_def by metis
  next
    case False
    then have new: "rec' = sr_touch now (rec\<lparr>sr_instances := sr_instances rec @ [?i], sr_active := Some ?i,
        sr_status := (if sr_status rec = SES_OPEN then SES_ACTIVE else sr_status rec)\<rparr>)"
      using plan ne at live by (auto simp: attach_plan_def Let_def rep_require [OF rep] split: if_splits)
    have "rec_ok rec'" using old(1) False now ne unfolding new rec_ok_def by (simp add: sr_touch_def)
    moreover have "set (sr_instances rec') = insert ?i (set (sr_instances rec))" "sr_id rec' = sid" "sr_status rec' \<noteq> SES_CLOSED"
      using old(2) live by (auto simp: new sr_touch_def)
    ultimately show ?thesis using at live mine unfolding may_put_def by metis
  qed
qed

lemma good_attach:
  assumes rep: "session_rep s m" and now: "now \<noteq> []"
  shows "good_step m s (snd (attach_instance r now sid i s))"
proof (cases "attach_plan r now sid i s")
  case (Inr p)
  obtain rec' w where p: "p = (rec', w)" by (cases p)
  show ?thesis
  proof (cases w)
    case True
    then have plan: "attach_plan r now sid i s = Inr (rec', True)" using Inr p by simp
    obtain rec where rec: "m sid = Some rec" "sr_status rec \<noteq> SES_CLOSED" "sr_id rec' = sid" "may_put m rec'" using plan_ok [OF rep now plan] by blast
    have "kept m rec'" unfolding kept_def using rec(1-3) by simp
    then show ?thesis using good_put [OF rec(4)] by (simp add: attach_instance_def plan)
  qed (simp add: attach_instance_def Inr p)
qed (simp add: attach_instance_def)

lemma good_do:
  assumes "session_rep s m" "now \<noteq> []" "fresh \<noteq> []" "py_strip fresh = fresh"
  shows "good_step m s (session_do r now fresh op s)"
  using assms by (cases op) (simp_all add: good_open good_bind good_service ensure_host_session_def good_merge_metadata good_replace_metadata
      good_stamp good_replace good_close good_attach good_detach good_set_active good_clear_active)

text \<open>Along a trace the store keeps representing a map, and closed sessions only lose instances.\<close>

definition still_closed :: "session_map \<Rightarrow> session_map \<Rightarrow> bool" where
  "still_closed m m' \<longleftrightarrow> (\<forall>sid old. m sid = Some old \<longrightarrow> sr_status old = SES_CLOSED
     \<longrightarrow> (\<exists>rec. m' sid = Some rec \<and> sr_status rec = SES_CLOSED \<and> set (sr_instances rec) \<subseteq> set (sr_instances old)))"

lemma still_closed_refl: "still_closed m m"
  by (simp add: still_closed_def)

lemma still_closed_trans: "still_closed a b \<Longrightarrow> still_closed b c \<Longrightarrow> still_closed a c"
  unfolding still_closed_def by (meson subset_trans)

lemma still_closed_put: "kept m rec \<Longrightarrow> still_closed m (m(sr_id rec \<mapsto> rec))"
  unfolding still_closed_def kept_def by simp

lemma step_rep:
  assumes "session_rep s m" "good_step m s s'"
  shows "\<exists>m'. session_rep s' m' \<and> still_closed m m'"
proof (cases "s' = s")
  case True
  then show ?thesis using assms(1) still_closed_refl by blast
next
  case False
  then obtain r now rec where put: "may_put m rec" "kept m rec" "s' = snd (session_put r now rec s)" using assms(2) unfolding good_step_def by blast
  then show ?thesis using put_rep [OF assms(1) put(1), of r now] still_closed_put [OF put(2)] by auto
qed

lemma run_rep:
  "session_rep s m \<Longrightarrow> trace_ok ops \<Longrightarrow> \<exists>m'. session_rep (session_run r ops s) m' \<and> still_closed m m'"
proof (induction ops arbitrary: s m)
  case Nil
  then show ?case using still_closed_refl by (auto simp: session_run_def)
next
  case (Cons x ops)
  obtain now fresh op where x: "x = (now, fresh, op)" by (cases x)
  have ok: "now \<noteq> []" "fresh \<noteq> []" "py_strip fresh = fresh" "trace_ok ops" using Cons.prems(2) by (auto simp: trace_ok_def x)
  obtain m1 where m1: "session_rep (session_do r now fresh op s) m1" "still_closed m m1"
    using step_rep [OF Cons.prems(1) good_do [OF Cons.prems(1) ok(1-3)]] by blast
  obtain m2 where "session_rep (session_run r ops (session_do r now fresh op s)) m2" "still_closed m1 m2"
    using Cons.IH [OF m1(1) ok(4)] by blast
  moreover have "session_run r (x # ops) s = session_run r ops (session_do r now fresh op s)" by (simp add: session_run_def x)
  ultimately show ?case using still_closed_trans [OF m1(2)] by metis
qed

lemma session_empty_rep: "session_rep [] Map.empty"
  by (auto simp: session_rep_def entries_rep_def records_ok_def owner_rep_def index_rep_def holds_def get_default_def)

subsection \<open>Properties\<close>

lemma trace_rep: "trace_ok ops \<Longrightarrow> \<exists>m. session_rep (session_run r ops []) m"
  using run_rep [OF session_empty_rep] by blast

text \<open>
  C25. Whatever operations ran on an empty store, reading a session never fails; the index lists each
  session once; the reverse index names exactly the session that has the instance attached, so no
  instance is attached to two sessions; and the focus of a session is one of its instances.
\<close>
theorem instances_have_one_owner:
  assumes "trace_ok ops"
  shows "\<exists>m. (\<forall>t sid. session_get r t sid (session_run r ops []) = Inr (m sid))
    \<and> distinct (session_index r (session_run r ops [])) \<and> set (session_index r (session_run r ops [])) = dom m
    \<and> (\<forall>i sid. session_id_for_instance r i (session_run r ops []) = Some sid \<longleftrightarrow>
          py_strip i \<noteq> [] \<and> (\<exists>rec. m sid = Some rec \<and> py_strip i \<in> set (sr_instances rec)))
    \<and> (\<forall>a b ra rb i. m a = Some ra \<longrightarrow> m b = Some rb \<longrightarrow> i \<in> set (sr_instances ra) \<longrightarrow> i \<in> set (sr_instances rb) \<longrightarrow> a = b)
    \<and> (\<forall>sid rec. m sid = Some rec \<longrightarrow> distinct (sr_instances rec) \<and> (\<forall>a. sr_active rec = Some a \<longrightarrow> a \<in> set (sr_instances rec)))"
proof -
  let ?s = "session_run r ops []"
  obtain m where rep: "session_rep ?s m" using trace_rep [OF assms] by blast
  have get: "\<forall>t sid. session_get r t sid ?s = Inr (m sid)" using rep_get [OF rep] by blast
  have idx: "distinct (session_index r ?s)" "set (session_index r ?s) = dom m" using session_rep_index [OF rep, of r] by blast+
  have own: "\<forall>i sid. session_id_for_instance r i ?s = Some sid \<longleftrightarrow> py_strip i \<noteq> [] \<and> (\<exists>rec. m sid = Some rec \<and> py_strip i \<in> set (sr_instances rec))"
  proof (intro allI)
    fix i sid
    show "session_id_for_instance r i ?s = Some sid \<longleftrightarrow> py_strip i \<noteq> [] \<and> (\<exists>rec. m sid = Some rec \<and> py_strip i \<in> set (sr_instances rec))"
    proof (cases "py_strip i = []")
      case True
      then show ?thesis by (simp add: session_id_for_instance_def Let_def)
    qed (use rep_owner [OF rep] in \<open>simp add: holds_def\<close>)
  qed
  have one: "\<forall>a b ra rb i. m a = Some ra \<longrightarrow> m b = Some rb \<longrightarrow> i \<in> set (sr_instances ra) \<longrightarrow> i \<in> set (sr_instances rb) \<longrightarrow> a = b"
    using rep_exclusive [OF rep] unfolding holds_def by blast
  have foc: "\<forall>sid rec. m sid = Some rec \<longrightarrow> distinct (sr_instances rec) \<and> (\<forall>a. sr_active rec = Some a \<longrightarrow> a \<in> set (sr_instances rec))"
    using rep_rec_ok [OF rep] unfolding rec_ok_def by blast
  show ?thesis by (rule exI [of _ m]) (intro conjI get idx own one foc)
qed

text \<open>
  C29. A closed session stays closed whatever follows, is attached to nothing new, and no instance can
  be continued through it.
\<close>
theorem closed_sessions_stay_closed:
  assumes "trace_ok ops" "trace_ok later"
    and "session_get r t sid (session_run r ops []) = Inr (Some old)" "sr_status old = SES_CLOSED"
  shows "\<exists>rec. session_get r t sid (session_run r later (session_run r ops [])) = Inr (Some rec)
      \<and> sr_status rec = SES_CLOSED \<and> set (sr_instances rec) \<subseteq> set (sr_instances old)
      \<and> (\<forall>t i v. require_continue_attribution r t i v True (session_run r later (session_run r ops [])) \<noteq> Inr (Some sid))"
proof -
  let ?s = "session_run r ops []"
  let ?s' = "session_run r later ?s"
  obtain m where rep: "session_rep ?s m" using trace_rep [OF assms(1)] by blast
  obtain m' where rep': "session_rep ?s' m'" and sc: "still_closed m m'" using run_rep [OF rep assms(2)] by blast
  have "m sid = Some old" using assms(3) by (simp add: rep_get [OF rep])
  then obtain rec where rec: "m' sid = Some rec" "sr_status rec = SES_CLOSED" "set (sr_instances rec) \<subseteq> set (sr_instances old)"
    using sc assms(4) unfolding still_closed_def by blast
  have gate: "require_owned_instance r t sid i ?s' \<noteq> Inr x" for t i x
  proof -
    have "py_strip sid = sid" using rep_ok [OF rep' rec(1)] unfolding rec_ok_def by metis
    then show ?thesis using rec by (simp add: require_owned_instance_def Let_def rep_require_open [OF rep'])
  qed
  have never: "require_continue_attribution r t i v True ?s' \<noteq> Inr (Some sid)" for t i v
  proof
    assume "require_continue_attribution r t i v True ?s' = Inr (Some sid)"
    then obtain x where "require_owned_instance r t sid (py_strip i) ?s' = Inr x"
      by (auto simp: require_continue_attribution_def Let_def attempt_def split: if_splits sum.splits option.splits)
    then show False using gate by blast
  qed
  have "session_get r t sid ?s' = Inr (Some rec)" using rec(1) by (simp add: rep_get [OF rep'])
  then show ?thesis using rec(2,3) never by blast
qed

lemma gate_iff:
  assumes rep: "session_rep s m"
  shows "require_owned_instance r t sid i s = Inr x \<longleftrightarrow> m (py_strip sid) = Some x \<and> sr_status x \<noteq> SES_CLOSED \<and> py_strip i \<in> set (sr_instances x)"
proof (cases "m (py_strip sid)")
  case None
  then show ?thesis by (simp add: require_owned_instance_def Let_def rep_require_open [OF rep])
next
  case (Some rec)
  have "py_strip sid \<noteq> []" using rep_ok [OF rep Some] unfolding rec_ok_def by metis
  moreover have "py_strip i \<noteq> []" if "py_strip i \<in> set (sr_instances rec)" using rec_ok_instance [OF rep_rec_ok [OF rep Some] that] by blast
  ultimately show ?thesis using Some by (auto simp: require_owned_instance_def Let_def rep_require_open [OF rep] split: if_splits)
qed

lemma held_id: "session_rep s m \<Longrightarrow> m sid = Some rec \<Longrightarrow> py_strip sid = sid \<and> sid \<noteq> []"
  using rep_ok [of s m sid rec] unfolding rec_ok_def by metis

lemma rep_by_instance:
  assumes rep: "session_rep s m" and ne: "py_strip i \<noteq> []"
  shows "get_by_instance r t i s = Inr x \<longleftrightarrow>
    (case x of None \<Rightarrow> (\<forall>sid. \<not> holds m sid (py_strip i)) | Some rec \<Rightarrow> m (sr_id rec) = Some rec \<and> py_strip i \<in> set (sr_instances rec))"
proof (cases "session_id_for_instance r i s")
  case None
  then have "\<not> holds m sid (py_strip i)" for sid using rep_owner [OF rep ne, of r sid] by simp
  then show ?thesis using None unfolding holds_def by (auto simp: get_by_instance_def split: option.splits)
next
  case (Some sid)
  then have h: "holds m sid (py_strip i)" using rep_owner [OF rep ne, of r sid] by simp
  then obtain rec where rec: "m sid = Some rec" "py_strip i \<in> set (sr_instances rec)" unfolding holds_def by blast
  have id: "sr_id rec = sid" using rep_ok [OF rep rec(1)] by blast
  have "rec' = rec" if "m (sr_id rec') = Some rec'" "py_strip i \<in> set (sr_instances rec')" for rec'
    using rep_exclusive [OF rep h, of "sr_id rec'"] that rec(1) unfolding holds_def by auto
  moreover have "get_by_instance r t i s = Inr (Some rec)" using Some rec(1) by (simp add: get_by_instance_def rep_get [OF rep])
  ultimately show ?thesis using rec id h by (auto split: option.split)
qed

text \<open>
  Continue attribution decides ownership: the answer is a session exactly if the instance is
  attached to it, it is not closed, and it is the system session that was given or, when none was, the
  check is strict; it is no session exactly if none was given and the check is not strict; everything
  else raises.
\<close>
theorem continue_attribution_decides:
  assumes "trace_ok ops"
  shows "(require_continue_attribution r t i v strict (session_run r ops []) = Inr (Some sid) \<longleftrightarrow>
      (\<exists>rec. session_get r t sid (session_run r ops []) = Inr (Some rec) \<and> sr_status rec \<noteq> SES_CLOSED \<and> py_strip i \<in> set (sr_instances rec))
      \<and> (if looks_like_system_session_id (stripped v) then stripped v = Some sid else strict))
    \<and> (require_continue_attribution r t i v strict (session_run r ops []) = Inr None \<longleftrightarrow>
      py_strip i \<noteq> [] \<and> \<not> looks_like_system_session_id (stripped v) \<and> \<not> strict)"
    (is "?some \<and> ?none")
proof -
  let ?s = "session_run r ops []" and ?i = "py_strip i"
  obtain m where rep: "session_rep ?s m" using trace_rep [OF assms] by blast
  define okay where "okay sid = (\<exists>rec. m sid = Some rec \<and> sr_status rec \<noteq> SES_CLOSED \<and> ?i \<in> set (sr_instances rec))" for sid
  have get: "(\<exists>rec. session_get r t sid ?s = Inr (Some rec) \<and> sr_status rec \<noteq> SES_CLOSED \<and> ?i \<in> set (sr_instances rec)) = okay sid"
    by (simp add: okay_def rep_get [OF rep])
  have ne: "?i \<noteq> []" if "okay a" for a
    using that rec_ok_instance rep_rec_ok [OF rep] unfolding okay_def by blast
  have gate: "(\<exists>x. require_owned_instance r t a ?i ?s = Inr x) \<longleftrightarrow> okay (py_strip a)" for a
    unfolding okay_def gate_iff [OF rep] py_strip_idem by blast
  consider "?i = []" | "?i \<noteq> []" "looks_like_system_session_id (stripped v)" | "?i \<noteq> []" "\<not> looks_like_system_session_id (stripped v)" "\<not> strict"
    | "?i \<noteq> []" "\<not> looks_like_system_session_id (stripped v)" "strict" by blast
  then have "(require_continue_attribution r t i v strict ?s = Inr (Some sid) \<longleftrightarrow> okay sid \<and>
        (if looks_like_system_session_id (stripped v) then stripped v = Some sid else strict))
      \<and> (require_continue_attribution r t i v strict ?s = Inr None \<longleftrightarrow> ?i \<noteq> [] \<and> \<not> looks_like_system_session_id (stripped v) \<and> \<not> strict)"
  proof cases
    case 1
    then show ?thesis using ne by (auto simp: require_continue_attribution_def Let_def)
  next
    case 2
    then obtain a where a: "stripped v = Some a" by (cases "stripped v") (auto simp: looks_like_system_session_id_def)
    then have fix_a: "py_strip a = a" by (auto simp: stripped_def split: option.splits if_splits)
    have run: "require_continue_attribution r t i v strict ?s = attempt (require_owned_instance r t a ?i ?s) (\<lambda>_. Inr (Some a))"
      using 2 by (simp add: require_continue_attribution_def Let_def a)
    show ?thesis using gate [of a] 2 unfolding run fix_a a by (cases "require_owned_instance r t a ?i ?s") auto
  next
    case 3
    have id: "okay sid \<longrightarrow> ?i \<noteq> []" using ne by blast
    then show ?thesis using 3 by (simp add: require_continue_attribution_def Let_def)
  next
    case 4
    have run: "require_continue_attribution r t i v strict ?s = attempt (get_by_instance r t ?i ?s) (\<lambda>owner. case owner of
        None \<Rightarrow> Inl (Exc SessionAttributionError (''continue instance '' @ quoted ?i @ '' has no owner session; ''
                 @ ''bind a system session_id (0.58.15 strict attribution)''))
      | Some rec \<Rightarrow> attempt (require_owned_instance r t (sr_id rec) ?i ?s) (\<lambda>_. Inr (Some (sr_id rec))))"
      using 4 by (simp only: require_continue_attribution_def Let_def if_False not_True_eq_False simp_thms)
    show ?thesis
    proof (cases "get_by_instance r t ?i ?s")
      case (Inl e)
      then have False using rep_get [OF rep] by (cases "session_id_for_instance r ?i ?s") (simp_all add: get_by_instance_def)
      then show ?thesis ..
    next
      case (Inr x)
      note who = Inr [unfolded rep_by_instance [OF rep, of ?i, unfolded py_strip_idem, OF 4(1)]]
      show ?thesis
      proof (cases x)
        case None
        then have "\<not> okay sid" using who unfolding okay_def holds_def by auto
        then show ?thesis using 4 unfolding run Inr None by simp
      next
        case (Some rec)
        have rec: "m (sr_id rec) = Some rec" "?i \<in> set (sr_instances rec)" using who Some by simp_all
        have id: "py_strip (sr_id rec) = sr_id rec" using held_id [OF rep rec(1)] by blast
        have "sid = sr_id rec" if "okay sid"
          using rep_exclusive [OF rep, of sid ?i "sr_id rec"] that rec unfolding okay_def holds_def by blast
        then show ?thesis using 4 gate [of "sr_id rec"] unfolding run Inr Some id
          by (cases "require_owned_instance r t (sr_id rec) ?i ?s") auto
      qed
    qed
  qed
  then show ?thesis unfolding get .
qed

subsection \<open>Two attaches at once\<close>

lemma clear_keeps_entry [simp]: "py_get (fold (clear_instance_owner r sid) is s) (session_key k) = py_get s (session_key k)"
  by (induction "is" arbitrary: s) (simp_all add: clear_instance_owner_def Let_def get_default_def)

lemma set_keeps_entry [simp]: "py_get (fold (set_instance_owner sid) is s) (session_key k) = py_get s (session_key k)"
  by (induction "is" arbitrary: s) (simp_all add: set_instance_owner_def Let_def)

lemma put_entry:
  assumes "session_get r now (sr_id rec) s = Inr old"
  shows "py_get (snd (session_put r now rec s)) (session_key sid) = (if sid = sr_id rec then VDict (sr_to_dict rec) else py_get s (session_key sid))"
  using assms by (simp add: session_put_def Let_def)

lemma gate_open:
  assumes "py_get s (session_key sid) = VDict (sr_to_dict rec)" "rec_ok rec" "sr_id rec = sid" "sr_status rec \<noteq> SES_CLOSED" "py_strip i \<in> set (sr_instances rec)"
  shows "require_owned_instance r t sid i s = Inr rec"
proof -
  have id: "py_strip sid = sid" "sid \<noteq> []" using assms(2,3) unfolding rec_ok_def by auto
  have i: "py_strip i \<noteq> []" using rec_ok_instance [OF assms(2,5)] by blast
  have "session_get r t sid s = Inr (Some rec)" using assms(1) session_roundtrip [OF assms(2)] by (simp add: session_get_def)
  then show ?thesis using id i assms(4,5) by (simp add: require_owned_instance_def Let_def require_open_def session_require_def)
qed

text \<open>
  Two callers attach one instance to different sessions: when the first has read the owner before
  the second writes and writes after it, both calls succeed and both sessions pass the owner gate for
  the instance. The plane holds no lock between the check and the write.
\<close>
theorem attach_race_shares_an_instance:
  assumes "trace_ok ops" "now1 \<noteq> []" "now2 \<noteq> []" "a \<noteq> b"
    and first: "attach_plan r now1 a i (session_run r ops []) = Inr (ra, True)"
    and second: "attach_plan r now2 b i (session_run r ops []) = Inr (rb, True)"
  shows "fst (attach_instance r now2 b i (session_run r ops [])) = Inr rb
    \<and> fst (session_put r now1 ra (snd (attach_instance r now2 b i (session_run r ops [])))) = Inr ra
    \<and> require_owned_instance r t a i (snd (session_put r now1 ra (snd (attach_instance r now2 b i (session_run r ops []))))) = Inr ra
    \<and> require_owned_instance r t b i (snd (session_put r now1 ra (snd (attach_instance r now2 b i (session_run r ops []))))) = Inr rb"
proof -
  let ?s = "session_run r ops []"
  let ?s1 = "snd (session_put r now2 rb ?s)"
  let ?s2 = "snd (session_put r now1 ra ?s1)"
  obtain m where rep: "session_rep ?s m" using trace_rep [OF assms(1)] by blast
  have A: "sr_id ra = a" "may_put m ra" "sr_status ra \<noteq> SES_CLOSED" "py_strip i \<in> set (sr_instances ra)" "rec_ok ra"
    using plan_ok [OF rep assms(2) first] unfolding may_put_def by auto
  have B: "sr_id rb = b" "may_put m rb" "sr_status rb \<noteq> SES_CLOSED" "py_strip i \<in> set (sr_instances rb)" "rec_ok rb"
    using plan_ok [OF rep assms(3) second] unfolding may_put_def by auto
  obtain s1 where s1: "session_put r now2 rb ?s = (Inr rb, s1)" "session_rep s1 (m(b \<mapsto> rb))" using put_rep [OF rep B(2), of r now2] B(1) by blast
  have get_b: "session_get r now2 (sr_id rb) ?s = Inr (m b)" by (simp add: B(1) rep_get [OF rep])
  have get_a: "session_get r now1 (sr_id ra) s1 = Inr ((m(b \<mapsto> rb)) a)" by (simp add: A(1) rep_get [OF s1(2)])
  have put_a: "fst (session_put r now1 ra s1) = Inr ra" using get_a by (simp add: session_put_def Let_def)
  have ent: "py_get (snd (session_put r now1 ra s1)) (session_key k) = (if k = a then VDict (sr_to_dict ra) else if k = b then VDict (sr_to_dict rb)
      else py_get ?s (session_key k))" for k
    using put_entry [OF get_a, of k] put_entry [OF get_b, of k] s1(1) A(1) B(1) by simp
  have "require_owned_instance r t a i (snd (session_put r now1 ra s1)) = Inr ra"
    using gate_open [OF _ A(5,1,3,4)] ent [of a] by simp
  moreover have "require_owned_instance r t b i (snd (session_put r now1 ra s1)) = Inr rb"
    using gate_open [OF _ B(5,1,3,4)] ent [of b] assms(4) by simp
  ultimately show ?thesis using s1(1) put_a by (simp add: attach_instance_def second)
qed

subsection \<open>Witnesses\<close>

definition two_sessions :: session_trace where
  "two_sessions = [(''1'', ''f'', SOpen (Some ''sess-a'') []), (''2'', ''f'', SBind (Some ''sess-b'') True [] (Some ''cli''))]"

definition owned_trace :: session_trace where
  "owned_trace = two_sessions @ [(''3'', ''f'', SAttach ''sess-a'' ''i1''), (''4'', ''f'', SAttach ''sess-b'' ''i1''), (''5'', ''f'', SAttach ''sess-b'' ''i2'')]"

abbreviation (input) is_blank :: "pyval \<Rightarrow> string" where "is_blank \<equiv> \<lambda>_. ''?''"

lemma two_sessions_ok: "trace_ok two_sessions" by code_simp
lemma owned_trace_ok: "trace_ok owned_trace" by code_simp

lemma owned_state:
  "map_sum id (map_option (\<lambda>rec. (sr_status rec, sr_instances rec, sr_active rec))) (session_get is_blank ''9'' ''sess-a'' (session_run is_blank owned_trace []))
     = Inr (Some (SES_ACTIVE, [''i1''], Some ''i1''))"
  "map_sum id (map_option (\<lambda>rec. (sr_status rec, sr_instances rec, sr_active rec))) (session_get is_blank ''9'' ''sess-b'' (session_run is_blank owned_trace []))
     = Inr (Some (SES_ACTIVE, [''i2''], Some ''i2''))"
  by code_simp+

lemma instances_have_one_owner_witness:
  "(\<exists>m. (\<forall>t sid. session_get is_blank t sid (session_run is_blank owned_trace []) = Inr (m sid))
    \<and> (\<forall>a b ra rb i. m a = Some ra \<longrightarrow> m b = Some rb \<longrightarrow> i \<in> set (sr_instances ra) \<longrightarrow> i \<in> set (sr_instances rb) \<longrightarrow> a = b))
   \<and> session_id_for_instance is_blank ''i1'' (session_run is_blank owned_trace []) = Some ''sess-a''"
proof (rule conjI)
  show "session_id_for_instance is_blank ''i1'' (session_run is_blank owned_trace []) = Some ''sess-a''" by code_simp
qed (use instances_have_one_owner [OF owned_trace_ok, of is_blank] in blast)

definition closing :: session_trace where
  "closing = [(''6'', ''f'', SAttach ''sess-a'' ''i3''), (''7'', ''f'', SDetach ''sess-a'' ''i1''), (''8'', ''f'', SBind (Some ''sess-a'') True [] None)]"

lemma closed_sessions_stay_closed_witness:
  "\<exists>rec. session_get is_blank ''9'' ''sess-a'' (session_run is_blank closing (session_run is_blank (owned_trace @ [(''5'', ''f'', SClose ''sess-a'')]) [])) = Inr (Some rec)
      \<and> sr_status rec = SES_CLOSED"
proof -
  have ok: "trace_ok (owned_trace @ [(''5'', ''f'', SClose ''sess-a'')])" "trace_ok closing" by code_simp+
  have st: "map_sum id (map_option sr_status) (session_get is_blank ''9'' ''sess-a'' (session_run is_blank (owned_trace @ [(''5'', ''f'', SClose ''sess-a'')]) []))
     = Inr (Some SES_CLOSED)" by code_simp
  then obtain old where old: "session_get is_blank ''9'' ''sess-a'' (session_run is_blank (owned_trace @ [(''5'', ''f'', SClose ''sess-a'')]) []) = Inr (Some old)"
    "sr_status old = SES_CLOSED"
    by (cases "session_get is_blank ''9'' ''sess-a'' (session_run is_blank (owned_trace @ [(''5'', ''f'', SClose ''sess-a'')]) [])") auto
  show ?thesis using closed_sessions_stay_closed [OF ok old] by blast
qed

lemma continue_attribution_decides_witness:
  "(require_continue_attribution is_blank ''9'' ''i1'' None True (session_run is_blank owned_trace []) = Inr (Some ''sess-a'')
     \<longleftrightarrow> (\<exists>rec. session_get is_blank ''9'' ''sess-a'' (session_run is_blank owned_trace []) = Inr (Some rec)
          \<and> sr_status rec \<noteq> SES_CLOSED \<and> py_strip ''i1'' \<in> set (sr_instances rec)))
   \<and> require_continue_attribution is_blank ''9'' ''i1'' None True (session_run is_blank owned_trace []) = Inr (Some ''sess-a'')"
proof (rule conjI)
  show "require_continue_attribution is_blank ''9'' ''i1'' None True (session_run is_blank owned_trace []) = Inr (Some ''sess-a'')
     \<longleftrightarrow> (\<exists>rec. session_get is_blank ''9'' ''sess-a'' (session_run is_blank owned_trace []) = Inr (Some rec)
          \<and> sr_status rec \<noteq> SES_CLOSED \<and> py_strip ''i1'' \<in> set (sr_instances rec))"
    using continue_attribution_decides [OF owned_trace_ok, of is_blank "''9''" "''i1''" None True "''sess-a''"]
    by (simp add: stripped_def looks_like_system_session_id_def)
qed code_simp

lemma attach_race_shares_an_instance_witness:
  "\<exists>ra rb s. ra \<noteq> rb \<and> require_owned_instance is_blank ''9'' ''sess-a'' ''i1'' s = Inr ra \<and> require_owned_instance is_blank ''9'' ''sess-b'' ''i1'' s = Inr rb"
proof -
  define ra where "ra = \<lparr>sr_id = ''sess-a'', sr_status = SES_ACTIVE, sr_instances = [''i1''], sr_active = Some ''i1'', sr_metadata = [],
    sr_created = ''1'', sr_updated = ''3''\<rparr>"
  define rb where "rb = \<lparr>sr_id = ''sess-b'', sr_status = SES_ACTIVE, sr_instances = [''i1''], sr_active = Some ''i1'',
    sr_metadata = [(''surface'', VStr ''cli''), (''last_surface'', VStr ''cli'')], sr_created = ''2'', sr_updated = ''4''\<rparr>"
  have "attach_plan is_blank ''3'' ''sess-a'' ''i1'' (session_run is_blank two_sessions []) = Inr (ra, True)" unfolding ra_def by code_simp
  moreover have "attach_plan is_blank ''4'' ''sess-b'' ''i1'' (session_run is_blank two_sessions []) = Inr (rb, True)" unfolding rb_def by code_simp
  moreover have "ra \<noteq> rb" by (simp add: ra_def rb_def)
  ultimately show ?thesis
    using attach_race_shares_an_instance [OF two_sessions_ok, of "''3''" "''4''" "''sess-a''" "''sess-b''" is_blank "''i1''" ra rb "''9''"] by blast
qed

end
