(* ===== verification/Transform.thy ===== *)
theory Transform
  imports Registry StateSurface PyConvert
begin

text \<open>
  The transform engine (\<open>palm/core/transform/base.py\<close> and \<open>engine.py\<close>): contexts with an audit trail,
  rules resolved by name, chains, batches, and the variants that read from and write to the execution
  state. A rule is a record of functions: what it supports and what it does to a context, which may
  also change the state. The \<open>state\<close> reference of a context is a flag; the state itself is passed along.
\<close>

subsection \<open>Keyword arguments\<close>

text \<open>Keyword arguments that repeat a named parameter are a \<open>TypeError\<close>.\<close>

definition multiple_values :: "string \<Rightarrow> string \<Rightarrow> exc" where
  "multiple_values f k = Exc PyTypeError (f @ ''() got multiple values for argument '' @ quoted k)"

definition call_keywords :: "string \<Rightarrow> string list \<Rightarrow> pydict \<Rightarrow> unit result" where
  "call_keywords f named kw = (case find (dict_has kw) named of Some k \<Rightarrow> Inl (multiple_values f k) | None \<Rightarrow> Inr ())"

subsection \<open>Contexts\<close>

datatype transform_mode = MODE_SINGLE | MODE_BATCH | MODE_AUTO

record transform_frame =
  tf_rule :: string
  tf_value :: pyval
  tf_meta :: pydict

record transform_context =
  tc_original :: pyval
  tc_bound :: bool
  tc_frames :: "transform_frame list"

definition new_context :: "pyval \<Rightarrow> bool \<Rightarrow> transform_context" where
  "new_context v b = \<lparr>tc_original = v, tc_bound = b, tc_frames = []\<rparr>"

definition tc_value :: "transform_context \<Rightarrow> pyval" where
  "tc_value c = (if tc_frames c \<noteq> [] then tf_value (List.last (tc_frames c)) else tc_original c)"

definition tc_steps :: "transform_context \<Rightarrow> string list" where
  "tc_steps c = map tf_rule (tc_frames c)"

definition advance :: "string \<Rightarrow> pyval \<Rightarrow> pydict \<Rightarrow> transform_context \<Rightarrow> transform_context" where
  "advance rule v meta c = c\<lparr>tc_frames := tc_frames c @ [\<lparr>tf_rule = rule, tf_value = v, tf_meta = meta\<rparr>]\<rparr>"

definition with_state :: "bool \<Rightarrow> transform_context \<Rightarrow> transform_context" where
  "with_state b c = c\<lparr>tc_bound := b\<rparr>"

definition tc_lens :: "string \<Rightarrow> transform_context \<Rightarrow> pyval" where
  "tc_lens rule c = (case find (\<lambda>f. tf_rule f = rule) (rev (tc_frames c)) of Some f \<Rightarrow> tf_value f | None \<Rightarrow> VNone)"

definition to_trace :: "transform_context \<Rightarrow> pyval" where
  "to_trace c = VDict [(''original'', tc_original c), (''value'', tc_value c), (''steps'', VList (map VStr (tc_steps c))),
     (''frames'', VList (map (\<lambda>f. VDict [(''rule'', VStr (tf_rule f)), (''value'', tf_value f), (''meta'', VDict (tf_meta f))]) (tc_frames c)))]"

record transform_result =
  tr_context :: transform_context
  tr_writes :: "(string \<times> pyval) list"

definition tr_value :: "transform_result \<Rightarrow> pyval" where
  "tr_value x = tc_value (tr_context x)"

definition plain_transform :: "transform_context \<Rightarrow> transform_result" where
  "plain_transform c = \<lparr>tr_context = c, tr_writes = []\<rparr>"

subsection \<open>Rules\<close>

record transform_rule =
  ru_name :: string
  ru_mode :: transform_mode
  ru_supports :: "pyval \<Rightarrow> bool"
  ru_apply :: "pydict \<Rightarrow> transform_context \<Rightarrow> transform_context st_eff"

type_synonym transform_class = "pydict \<Rightarrow> transform_rule result"

text \<open>\<open>rule_name\<close> is the alias when there is one.\<close>

definition rule_label :: "(pyval \<Rightarrow> string) \<Rightarrow> pydict \<Rightarrow> string \<Rightarrow> string" where
  "rule_label r options nm = (if truthy (py_get options ''alias'') then py_str r (py_get options ''alias'') else nm)"

text \<open>Keyword arguments of a constructor: unknown ones and missing required ones are a \<open>TypeError\<close>.\<close>

definition bind_keywords :: "string \<Rightarrow> string list \<Rightarrow> string list \<Rightarrow> pydict \<Rightarrow> unit result" where
  "bind_keywords cls required optional opts =
     (case find (\<lambda>k. k \<notin> set (required @ optional)) (map fst opts) of
        Some k \<Rightarrow> Inl (Exc PyTypeError (cls @ ''.__init__() got an unexpected keyword argument '' @ quoted k))
      | None \<Rightarrow> (case find (\<lambda>k. \<not> dict_has opts k) required of
          Some k \<Rightarrow> Inl (Exc PyTypeError (cls @ ''.__init__() missing keyword-only argument '' @ quoted k))
        | None \<Rightarrow> Inr ()))"

definition from_options :: "string \<Rightarrow> string list \<Rightarrow> string list \<Rightarrow> (pydict \<Rightarrow> transform_rule result) \<Rightarrow> transform_class" where
  "from_options cls required optional build options =
     attempt (bind_keywords cls required optional (dict_pop ''alias'' options)) (\<lambda>_. build options)"

subsection \<open>The engine\<close>

definition transform_error :: "string \<Rightarrow> exc" where
  "transform_error m = Exc TransformApplicationError m"

definition resolve :: "transform_class registry \<Rightarrow> string \<Rightarrow> pydict \<Rightarrow> transform_rule result" where
  "resolve reg nm options =
     attempt (call_keywords ''TransformEngine.resolve'' [''self'', ''name''] options) (\<lambda>_.
     attempt (lookup reg nm) (\<lambda>cls.
       let own = filter (\<lambda>(k, v). \<not> prefix ''_'' k) options in
       attempt (call_keywords ''from_options'' [''cls''] own) (\<lambda>_. cls own)))"

definition apply_rule :: "pyval \<Rightarrow> transform_rule \<Rightarrow> pydict \<Rightarrow> transform_context \<Rightarrow> transform_context st_eff" where
  "apply_rule self rule options c s =
     (case call_keywords ''TransformEngine._apply_rule'' [''self'', ''rule'', ''context''] options of Inl x \<Rightarrow> (Inl x, s) | Inr _ \<Rightarrow>
      if \<not> ru_supports rule (tc_value c)
      then (Inl (transform_error (''Transform '' @ quoted (ru_name rule) @ '' does not support '' @ type_name (tc_value c))), s)
      else ru_apply rule (dict_set ''_engine'' self options) c s)"

definition apply_transform :: "transform_class registry \<Rightarrow> pyval \<Rightarrow> string \<Rightarrow> pydict \<Rightarrow> pyval \<Rightarrow> bool \<Rightarrow> transform_result st_eff" where
  "apply_transform reg self nm options v b s =
     (case attempt (call_keywords ''TransformEngine.apply'' [''self'', ''name'', ''value'', ''state''] options) (\<lambda>_. resolve reg nm options) of
     Inl x \<Rightarrow> (Inl x, s)
   | Inr rule \<Rightarrow> map_prod (map_sum id plain_transform) id (apply_rule self rule options (new_context v b) s))"

fun chain_loop :: "transform_class registry \<Rightarrow> pyval \<Rightarrow> pydict \<Rightarrow> (string, pydict) dict \<Rightarrow> string list \<Rightarrow> transform_context \<Rightarrow> transform_context st_eff" where
  "chain_loop reg self shared by_rule [] c s = (Inr c, s)"
| "chain_loop reg self shared by_rule (nm # nms) c s =
     (let merged = dict_update shared (case dict_get by_rule nm of Some d \<Rightarrow> d | None \<Rightarrow> []) in
      case resolve reg nm merged of
        Inl x \<Rightarrow> (Inl x, s)
      | Inr rule \<Rightarrow> (case apply_rule self rule merged c s of
          (Inl x, s1) \<Rightarrow> (Inl x, s1)
        | (Inr c1, s1) \<Rightarrow> chain_loop reg self shared by_rule nms c1 s1))"

definition apply_chain :: "transform_class registry \<Rightarrow> pyval \<Rightarrow> string list \<Rightarrow> pydict \<Rightarrow> (string, pydict) dict \<Rightarrow> pyval \<Rightarrow> bool \<Rightarrow> transform_result st_eff" where
  "apply_chain reg self nms shared by_rule v b s =
     (case call_keywords ''TransformEngine.apply_chain'' [''self'', ''names'', ''value'', ''state'', ''options_by_rule''] shared of
        Inl x \<Rightarrow> (Inl x, s)
      | Inr _ \<Rightarrow> map_prod (map_sum id plain_transform) id (chain_loop reg self shared by_rule nms (new_context v b) s))"

fun batch_loop :: "pyval \<Rightarrow> transform_rule \<Rightarrow> pydict \<Rightarrow> bool \<Rightarrow> pyval list \<Rightarrow> transform_result list st_eff" where
  "batch_loop self rule options b [] s = (Inr [], s)"
| "batch_loop self rule options b (v # vs) s = (case apply_rule self rule options (new_context v b) s of
     (Inl x, s1) \<Rightarrow> (Inl x, s1)
   | (Inr c, s1) \<Rightarrow> map_prod (map_sum id (Cons (plain_transform c))) id (batch_loop self rule options b vs s1))"

definition apply_batch :: "transform_class registry \<Rightarrow> pyval \<Rightarrow> string \<Rightarrow> pydict \<Rightarrow> pyval list \<Rightarrow> bool \<Rightarrow> transform_result list st_eff" where
  "apply_batch reg self nm options items b s =
     (case attempt (call_keywords ''TransformEngine.apply_batch'' [''self'', ''name'', ''items'', ''state''] options) (\<lambda>_. resolve reg nm options) of
     Inl x \<Rightarrow> (Inl x, s) | Inr rule \<Rightarrow> batch_loop self rule options b items s)"

definition apply_auto :: "transform_class registry \<Rightarrow> pyval \<Rightarrow> string \<Rightarrow> pydict \<Rightarrow> pyval \<Rightarrow> bool \<Rightarrow> transform_result st_eff" where
  "apply_auto reg self nm options v b s =
     (case attempt (call_keywords ''TransformEngine.apply_auto'' [''self'', ''name'', ''value'', ''state''] options) (\<lambda>_. resolve reg nm options) of
     Inl x \<Rightarrow> (Inl x, s)
   | Inr rule \<Rightarrow>
      if ru_mode rule = MODE_BATCH
      then map_prod (map_sum id plain_transform) id (apply_rule self rule options (new_context v b) s)
      else if ru_mode rule = MODE_AUTO \<and> is_list v
      then map_prod (map_sum id plain_transform) id (apply_rule self rule options (new_context v b) s)
      else apply_transform reg self nm options v b s)"

subsection \<open>Transforms on the execution state\<close>

definition read_state_value :: "string \<Rightarrow> bool \<Rightarrow> pyval \<Rightarrow> dict_state \<Rightarrow> pyval" where
  "read_state_value k scoped d s = (if scoped \<and> scope_current (st_stack s) \<noteq> None then get_scoped k d s else st_get k d s)"

definition write_state_value :: "(pyval \<Rightarrow> string) \<Rightarrow> string \<Rightarrow> pyval \<Rightarrow> bool \<Rightarrow> bool \<Rightarrow> unit st_eff" where
  "write_state_value r k v scoped validate s =
     (if scoped \<and> scope_current (st_stack s) \<noteq> None
      then (case (case effective_schema s of Some sp \<Rightarrow> if validate then schema_validate_key r sp k v else Inr () | None \<Rightarrow> Inr ()) of
          Inl x \<Rightarrow> (Inl x, s) | Inr _ \<Rightarrow> set_scoped k v s)
      else if validate then set_validated r k v s
      else (Inr (), st_set k v s))"

definition source_missing :: "string \<Rightarrow> exc" where
  "source_missing k = transform_error (''Source key '' @ quoted k @ '' is missing or null'')"

text \<open>What the three variants share: the result goes to the target, the trace to its key.\<close>

record state_options =
  so_target :: "string option"
  so_scoped :: bool
  so_validate :: bool
  so_skip :: bool
  so_trace :: "string option"

definition destination :: "state_options \<Rightarrow> string \<Rightarrow> string" where
  "destination o' src = (case so_target o' of Some t \<Rightarrow> if t = [] then src else t | None \<Rightarrow> src)"

definition write_outcome :: "(pyval \<Rightarrow> string) \<Rightarrow> state_options \<Rightarrow> string \<Rightarrow> pyval \<Rightarrow> transform_context \<Rightarrow> transform_result option st_eff" where
  "write_outcome r o' src v c s =
     (let dest = destination o' src in
      case write_state_value r dest v (so_scoped o') (so_validate o') s of
        (Inl x, s1) \<Rightarrow> (Inl x, s1)
      | (Inr _, s1) \<Rightarrow> (case so_trace o' of
          None \<Rightarrow> (Inr (Some \<lparr>tr_context = c, tr_writes = [(dest, v)]\<rparr>), s1)
        | Some k \<Rightarrow> (case write_state_value r k (to_trace c) (so_scoped o') False s1 of
            (Inl x, s2) \<Rightarrow> (Inl x, s2)
          | (Inr _, s2) \<Rightarrow> (Inr (Some \<lparr>tr_context = c, tr_writes = [(dest, v), (k, to_trace c)]\<rparr>), s2))))"

definition apply_to_state :: "(pyval \<Rightarrow> string) \<Rightarrow> transform_class registry \<Rightarrow> pyval \<Rightarrow> string \<Rightarrow> string \<Rightarrow> state_options \<Rightarrow> pydict \<Rightarrow> transform_result option st_eff" where
  "apply_to_state r reg self nm src o' options s =
     (let raw = read_state_value src (so_scoped o') VNone s in
      if raw = VNone then (if so_skip o' then (Inr None, s) else (Inl (source_missing src), s))
      else case apply_auto reg self nm (dict_set ''_target_key'' (VStr (destination o' src)) options) raw True s of
        (Inl x, s1) \<Rightarrow> (Inl x, s1)
      | (Inr x, s1) \<Rightarrow> write_outcome r o' src (tr_value x) (tr_context x) s1)"

definition apply_chain_to_state :: "(pyval \<Rightarrow> string) \<Rightarrow> transform_class registry \<Rightarrow> pyval \<Rightarrow> string list \<Rightarrow> string \<Rightarrow> state_options
    \<Rightarrow> pydict \<Rightarrow> (string, pydict) dict \<Rightarrow> transform_result option st_eff" where
  "apply_chain_to_state r reg self nms src o' shared by_rule s =
     (let raw = read_state_value src (so_scoped o') VNone s in
      if raw = VNone then (if so_skip o' then (Inr None, s) else (Inl (source_missing src), s))
      else case apply_chain reg self nms (dict_set ''_target_key'' (VStr (destination o' src)) shared) by_rule raw True s of
        (Inl x, s1) \<Rightarrow> (Inl x, s1)
      | (Inr x, s1) \<Rightarrow> write_outcome r o' src (tr_value x) (tr_context x) s1)"

definition apply_batch_to_state :: "(pyval \<Rightarrow> string) \<Rightarrow> transform_class registry \<Rightarrow> pyval \<Rightarrow> string \<Rightarrow> string \<Rightarrow> state_options
    \<Rightarrow> bool option \<Rightarrow> pydict \<Rightarrow> transform_result option st_eff" where
  "apply_batch_to_state r reg self nm src o' per_item options s =
     (let raw = read_state_value src (so_scoped o') VNone s in
      if raw = VNone then (if so_skip o' then (Inr None, s) else (Inl (source_missing src), s))
      else case resolve reg nm options of
        Inl x \<Rightarrow> (Inl x, s)
      | Inr rule \<Rightarrow>
         if (case per_item of Some b \<Rightarrow> b | None \<Rightarrow> ru_mode rule = MODE_SINGLE)
         then (case raw of
             VList items \<Rightarrow> (case apply_batch reg self nm options items True s of
                 (Inl x, s1) \<Rightarrow> (Inl x, s1)
               | (Inr xs, s1) \<Rightarrow> write_outcome r o' src (VList (map tr_value xs))
                   (advance (ru_name rule) (VList (map tr_value xs)) [(''mode'', VStr ''per_item'')] (new_context raw True)) s1)
           | _ \<Rightarrow> (Inl (transform_error (''Per-item batch requires a list at '' @ quoted src @ '', got '' @ type_name raw)), s))
         else (case apply_auto reg self nm options raw True s of
             (Inl x, s1) \<Rightarrow> (Inl x, s1)
           | (Inr x, s1) \<Rightarrow> write_outcome r o' src (tr_value x) (tr_context x) s1))"

subsection \<open>Laws\<close>

lemma call_keywords_Inr: "call_keywords f named options = Inr u \<longleftrightarrow> (\<forall>k \<in> set named. \<not> dict_has options k)"
  by (auto simp: call_keywords_def find_Some_iff find_None_iff split: option.splits)

lemma call_keywords_ok: "\<forall>k \<in> set named. \<not> dict_has options k \<Longrightarrow> call_keywords f named options = Inr ()"
  using call_keywords_Inr [of f named options "()"] by simp

lemma auto_is_single:
  assumes "\<forall>k \<in> {''self'', ''name'', ''value'', ''state''}. \<not> dict_has options k"
  shows "apply_auto reg self nm options v b s = apply_transform reg self nm options v b s"
  using assms by (simp add: apply_auto_def apply_transform_def call_keywords_ok split: sum.split)

end
