(* ===== verification/TransformRules.thy ===== *)
theory TransformRules
  imports Transform
begin

text \<open>
  The built-in transform rules on structured data (\<open>palm/common/transforms/rules\<close>): renaming and
  mapping of fields, bounded lists, filters, counts, callables, dotted paths, lookups and conditionals.
  A rule class is the function from options to the rule. Left out are string_format and calculate
  (formatting and evaluation of expressions), date_format, date_parse and the loaders and dumpers of
  JSON, CSV, YAML, TOML, XML and Parquet (library formats), and put_resource and enrich_resource,
  which call the resource engine.
\<close>

subsection \<open>Helpers\<close>

definition text_label :: "(pyval \<Rightarrow> string) \<Rightarrow> pydict \<Rightarrow> string \<Rightarrow> string" where
  "text_label r options nm = (let a = py_get options ''alias'' in if a = VNone \<or> py_str r a = [] then nm else py_str r a)"

definition unhashable :: "pyval \<Rightarrow> 'a result" where
  "unhashable v = Inl (Exc PyTypeError (''unhashable type: '' @ quoted (type_name v)))"

text \<open>\<open>d.get(k, default)\<close> and \<open>k in d\<close> for a key that may not be a text.\<close>

definition dyn_get :: "pydict \<Rightarrow> pyval \<Rightarrow> pyval \<Rightarrow> pyval result" where
  "dyn_get d k dflt = (case k of VStr s \<Rightarrow> Inr (get_default d s dflt) | VList _ \<Rightarrow> unhashable k | VDict _ \<Rightarrow> unhashable k | _ \<Rightarrow> Inr dflt)"

definition dyn_has :: "pydict \<Rightarrow> pyval \<Rightarrow> bool result" where
  "dyn_has d k = (case k of VStr s \<Rightarrow> Inr (dict_has d s) | VList _ \<Rightarrow> unhashable k | VDict _ \<Rightarrow> unhashable k | _ \<Rightarrow> Inr False)"

definition require_mapping :: "string \<Rightarrow> pyval \<Rightarrow> pydict result" where
  "require_mapping nm v = (case v of VDict d \<Rightarrow> Inr d
     | _ \<Rightarrow> Inl (transform_error (nm @ '' requires a mapping, got '' @ type_name v)))"

definition require_list :: "string \<Rightarrow> pyval \<Rightarrow> pyval list result" where
  "require_list nm v = (case v of VList xs \<Rightarrow> Inr xs
     | _ \<Rightarrow> Inl (transform_error (nm @ '' requires a list, got '' @ type_name v)))"

text \<open>A rule that only computes a value with its metadata from the context, the options and the state.\<close>

definition pure_rule :: "string \<Rightarrow> transform_mode \<Rightarrow> (pyval \<Rightarrow> bool) \<Rightarrow> (pydict \<Rightarrow> transform_context \<Rightarrow> dict_state \<Rightarrow> (pyval \<times> pydict) result) \<Rightarrow> transform_rule" where
  "pure_rule lbl mode supports f = \<lparr>ru_name = lbl, ru_mode = mode, ru_supports = supports,
     ru_apply = (\<lambda>options c s. (attempt (f options c s) (\<lambda>(v, meta). Inr (advance lbl v meta c)), s))\<rparr>"

subsection \<open>Fields\<close>

text \<open>\<open>out[to] = out.pop(from)\<close> when there is such a field.\<close>

definition move_field :: "(pyval \<Rightarrow> string) \<Rightarrow> pyval \<Rightarrow> pyval \<Rightarrow> pydict \<Rightarrow> pydict result" where
  "move_field r from_key to_key d = attempt (dyn_has d from_key) (\<lambda>b.
     if b then Inr (dict_set (py_str r to_key) (py_get d (py_str r from_key)) (dict_pop (py_str r from_key) d)) else Inr d)"

definition rename_field :: "(pyval \<Rightarrow> string) \<Rightarrow> transform_class" where
  "rename_field r options = from_options ''RenameFieldRule'' [''from_key'', ''to_key''] [] (\<lambda>o'.
     let lbl = rule_label r o' ''rename_field'' in
     Inr (pure_rule lbl MODE_SINGLE (\<lambda>_. True) (\<lambda>_ c _.
       attempt (require_mapping lbl (tc_value c)) (\<lambda>d.
       attempt (move_field r (py_get o' ''from_key'') (py_get o' ''to_key'') d) (\<lambda>out.
         Inr (VDict out, [(''from'', py_get o' ''from_key''), (''to'', py_get o' ''to_key'')])))))) options"

fun move_fields :: "(pyval \<Rightarrow> string) \<Rightarrow> pydict \<Rightarrow> pydict \<Rightarrow> pydict result" where
  "move_fields r [] d = Inr d"
| "move_fields r ((k, t) # m) d = attempt (move_field r (VStr k) t d) (move_fields r m)"

definition picked_fields :: "(pyval \<Rightarrow> string) \<Rightarrow> pydict \<Rightarrow> pydict \<Rightarrow> pydict" where
  "picked_fields r m d = fold (\<lambda>(k, t) out. if dict_has d k then dict_set (py_str r t) (py_get d k) out else out) m []"

definition map_fields :: "(pyval \<Rightarrow> string) \<Rightarrow> transform_class" where
  "map_fields r options = from_options ''MapFieldsRule'' [''mapping''] [''keep_unmapped''] (\<lambda>o'.
     attempt (py_dict (py_get o' ''mapping'')) (\<lambda>m.
     let lbl = rule_label r o' ''map_fields''; keep = get_default o' ''keep_unmapped'' (VBool True) in
     Inr (pure_rule lbl MODE_SINGLE (\<lambda>_. True) (\<lambda>_ c _.
       attempt (require_mapping lbl (tc_value c)) (\<lambda>d.
       attempt (if truthy keep then move_fields r m d else Inr (picked_fields r m d)) (\<lambda>out.
         Inr (VDict out, [(''mapping'', VDict m), (''keep_unmapped'', keep)]))))))) options"

subsection \<open>Lists\<close>

definition same_marker :: "string \<Rightarrow> pyval \<Rightarrow> pyval \<Rightarrow> bool" where
  "same_marker f marker entry = (case entry of VDict e \<Rightarrow> py_eq (py_get e f) marker | _ \<Rightarrow> False)"

definition drop_same :: "(pyval \<Rightarrow> string) \<Rightarrow> pyval \<Rightarrow> pyval \<Rightarrow> pyval list \<Rightarrow> pyval list" where
  "drop_same r unique_field item items = (case item of
     VDict d \<Rightarrow> if truthy unique_field then filter (\<lambda>e. \<not> same_marker (py_str r unique_field) (py_get d (py_str r unique_field)) e) items else items
   | _ \<Rightarrow> items)"

definition capped :: "bool \<Rightarrow> int \<Rightarrow> pyval list \<Rightarrow> pyval list" where
  "capped prepend n items = (let cap = nat n in
     if cap = 0 then [] else if length items > cap then (if prepend then take cap items else drop (length items - cap) items) else items)"

definition append_value :: "(pyval \<Rightarrow> string) \<Rightarrow> string \<Rightarrow> pydict \<Rightarrow> transform_context \<Rightarrow> dict_state \<Rightarrow> (pyval \<times> pydict) result" where
  "append_value r lbl o' c s =
     (let key = py_or (py_get o' ''list_key'') (py_get o' ''_target_key''); existing = st_get (py_str r key) VNone s in
      if \<not> tc_bound c then Inl (transform_error (lbl @ '' requires blackboard state''))
      else if \<not> truthy key then Inl (transform_error (lbl @ '' requires list_key= or pipeline target_key''))
      else attempt (case existing of VNone \<Rightarrow> Inr [] | VList xs \<Rightarrow> Inr xs
          | _ \<Rightarrow> Inl (transform_error (lbl @ '' expects a list at '' @ py_repr r key @ '', got '' @ type_name existing))) (\<lambda>items.
        let prepend = truthy (get_default o' ''prepend'' (VBool True));
            kept = drop_same r (py_get o' ''unique_field'') (tc_value c) items;
            added = (if prepend then tc_value c # kept else kept @ [tc_value c]);
            cap = py_get o' ''max_items'' in
        attempt (if cap = VNone then Inr added else attempt (py_int cap) (\<lambda>n. Inr (capped prepend n added))) (\<lambda>out.
          Inr (VList out, [(''list_key'', VStr (py_str r key)), (''count'', VInt (int (length out))), (''prepend'', VBool prepend),
            (''max_items'', cap), (''unique_field'', py_get o' ''unique_field'')]))))"

definition append_item :: "(pyval \<Rightarrow> string) \<Rightarrow> transform_class" where
  "append_item r options = (let lbl = text_label r options ''append_item'' in
     Inr (pure_rule lbl MODE_SINGLE (\<lambda>_. True) (append_value r lbl)))"

definition keeps_item :: "pyval \<Rightarrow> pyval \<Rightarrow> bool \<Rightarrow> pyval \<Rightarrow> bool result" where
  "keeps_item field equals is_truthy item = (case item of
     VDict d \<Rightarrow> attempt (dyn_get d field VNone) (\<lambda>v. Inr (if is_truthy then truthy v else py_eq v equals))
   | _ \<Rightarrow> Inr False)"

fun filter_result :: "('a \<Rightarrow> bool result) \<Rightarrow> 'a list \<Rightarrow> 'a list result" where
  "filter_result p [] = Inr []"
| "filter_result p (x # xs) = attempt (p x) (\<lambda>b. attempt (filter_result p xs) (\<lambda>ys. Inr (if b then x # ys else ys)))"

definition filter_items :: "(pyval \<Rightarrow> string) \<Rightarrow> transform_class" where
  "filter_items r options = from_options ''FilterItemsRule'' [''field''] [''equals'', ''is_truthy''] (\<lambda>o'.
     let lbl = rule_label r o' ''filter_items''; field = py_get o' ''field''; equals = py_get o' ''equals''; tr = get_default o' ''is_truthy'' (VBool False) in
     Inr (pure_rule lbl MODE_BATCH is_list (\<lambda>_ c _.
       attempt (require_list lbl (tc_value c)) (\<lambda>xs.
       attempt (filter_result (keeps_item field equals (truthy tr)) xs) (\<lambda>out.
         Inr (VList out, [(''field'', field), (''equals'', equals), (''is_truthy'', tr), (''count'', VInt (int (length out)))])))))) options"

definition group_label :: "(pyval \<Rightarrow> string) \<Rightarrow> string \<Rightarrow> pydict \<Rightarrow> string" where
  "group_label r field d = (let k = py_get d field in if k = VNone \<or> k = VStr [] then ''unknown'' else py_str r k)"

definition count_item :: "(pyval \<Rightarrow> string) \<Rightarrow> string \<Rightarrow> pyval \<Rightarrow> (string, nat) dict \<Rightarrow> (string, nat) dict" where
  "count_item r field item counts = (case item of
     VDict d \<Rightarrow> (let l = group_label r field d in dict_set l (Suc (case dict_get counts l of Some n \<Rightarrow> n | None \<Rightarrow> 0)) counts)
   | _ \<Rightarrow> counts)"

definition count_rows :: "(pyval \<Rightarrow> string) \<Rightarrow> string \<Rightarrow> string \<Rightarrow> pyval list \<Rightarrow> pyval list" where
  "count_rows r field count_key xs =
     map (\<lambda>(l, n). VDict (dict_set count_key (VInt (int n)) [(field, VStr l)])) (fold (count_item r field) xs [])"

definition count_by :: "(pyval \<Rightarrow> string) \<Rightarrow> transform_class" where
  "count_by r options =
     (let field0 = py_get options ''field''; count0 = py_or (py_get options ''count_key'') (VStr ''count'') in
      if \<not> truthy field0 then Inl (transform_error ''count_by requires field='')
      else Inr (pure_rule ''count_by'' MODE_BATCH is_list (\<lambda>o' c _.
        let field = py_str r (py_or (py_get o' ''field'') field0); count_key = py_str r (py_or (py_get o' ''count_key'') count0) in
        if field = [] then Inl (transform_error ''count_by requires field='')
        else attempt (require_list ''count_by'' (tc_value c)) (\<lambda>xs.
          Inr (VList (count_rows r field count_key xs), [(''field'', VStr field),
            (''groups'', VInt (int (length (count_rows r field count_key xs)))), (''count_key'', VStr count_key)])))))"

text \<open>
  Callables are objects: their meaning is given by a function from their identity. The code hands them
  the live value of the state; the callables of this model do not change their argument in place.
\<close>

definition callable :: "(nat \<Rightarrow> (pyval \<Rightarrow> pyval result) option) \<Rightarrow> (pyval \<Rightarrow> string) \<Rightarrow> transform_class" where
  "callable objs r options = (let own = dict_pop ''alias'' options; fn0 = py_or (py_get own ''fn'') (py_get own ''callable'') in
     Inr (let lbl = rule_label r options ''callable'' in pure_rule lbl MODE_AUTO (\<lambda>_. True) (\<lambda>o' c _.
       case py_or (py_or (py_get o' ''fn'') (py_get o' ''callable'')) fn0 of
         VObj n \<Rightarrow> (case objs n of
             Some f \<Rightarrow> (case tc_value c of
                 VList xs \<Rightarrow> attempt (map_result f xs) (\<lambda>ys. Inr (VList ys, [(''mode'', VStr ''per_item'')]))
               | v \<Rightarrow> attempt (f v) (\<lambda>y. Inr (y, [(''mode'', VStr ''single'')])))
           | None \<Rightarrow> Inl (transform_error (lbl @ '' requires a callable via fn= or callable='')))
       | _ \<Rightarrow> Inl (transform_error (lbl @ '' requires a callable via fn= or callable='')))))"

subsection \<open>Dotted paths\<close>

text \<open>\<open>path.split(".")\<close>: the pieces between the dots, at least one.\<close>

fun split_dots :: "string \<Rightarrow> string list" where
  "split_dots [] = [[]]"
| "split_dots (c # cs) = (if c = CHR 0x2E then [] # split_dots cs
     else case split_dots cs of p # ps \<Rightarrow> (c # p) # ps | [] \<Rightarrow> [[c]])"

definition path_miss :: "pyval option \<Rightarrow> string \<Rightarrow> pyval result" where
  "path_miss dflt m = (case dflt of Some v \<Rightarrow> Inr v | None \<Rightarrow> Inl (transform_error m))"

fun path_walk :: "pyval option \<Rightarrow> string \<Rightarrow> string list \<Rightarrow> pyval \<Rightarrow> pyval result" where
  "path_walk dflt path [] v = Inr v"
| "path_walk dflt path (p # ps) v = (case v of
     VNone \<Rightarrow> path_miss dflt (''jsonpath '' @ quoted path @ '' reached null at '' @ quoted p)
   | VDict d \<Rightarrow> if dict_has d p then path_walk dflt path ps (py_get d p)
       else path_miss dflt (''jsonpath '' @ quoted path @ '' missing key '' @ quoted p)
   | VList xs \<Rightarrow> (case parse_int p of
         None \<Rightarrow> Inl (transform_error (''jsonpath '' @ quoted path @ '' expected list index, got '' @ quoted p))
       | Some i \<Rightarrow> if i < 0 \<or> i \<ge> int (length xs)
           then path_miss dflt (''jsonpath '' @ quoted path @ '' index '' @ show_int i @ '' out of range'')
           else path_walk dflt path ps (xs ! nat i))
   | _ \<Rightarrow> path_miss dflt (''jsonpath '' @ quoted path @ '' cannot traverse '' @ type_name v @ '' at '' @ quoted p))"

definition jsonpath_get :: "pyval option \<Rightarrow> string \<Rightarrow> pyval \<Rightarrow> pyval result" where
  "jsonpath_get dflt path v = (if path = [] then Inl (transform_error ''jsonpath requires a non-empty path'')
     else path_walk dflt path (split_dots path) v)"

text \<open>Writing works on a deep copy; the nested dictionaries are those of the copy.\<close>

fun path_write :: "string list \<Rightarrow> pyval \<Rightarrow> pydict \<Rightarrow> pydict result" where
  "path_write [] v d = Inr d"
| "path_write [leaf] v d = Inr (dict_set leaf v d)"
| "path_write (p # q # ps) v d =
     attempt (case py_get d p of VNone \<Rightarrow> Inr [] | VDict e \<Rightarrow> Inr e
        | _ \<Rightarrow> Inl (transform_error (''jsonpath_set intermediate '' @ quoted p @ '' is not a mapping'')))
     (\<lambda>e. attempt (path_write (q # ps) v e) (\<lambda>e'. Inr (dict_set p (VDict e') d)))"

definition jsonpath_set :: "string \<Rightarrow> pyval \<Rightarrow> pyval \<Rightarrow> pyval result" where
  "jsonpath_set path v whole = (if path = [] then Inl (transform_error ''jsonpath requires a non-empty path'')
     else case whole of
       VDict d \<Rightarrow> attempt (path_write (split_dots path) v d) (\<lambda>d'. Inr (VDict d'))
     | _ \<Rightarrow> Inl (transform_error (''jsonpath_set requires a mapping root, got '' @ type_name whole)))"

definition jsonpath_extract :: "(pyval \<Rightarrow> string) \<Rightarrow> transform_class" where
  "jsonpath_extract r options = (let lbl = text_label r options ''jsonpath_extract'' in
     Inr (pure_rule lbl MODE_SINGLE (\<lambda>_. True) (\<lambda>o' c _.
       let path = py_get o' ''path'' in
       if \<not> truthy path then Inl (transform_error (lbl @ '' requires path=''))
       else attempt (jsonpath_get (map_of o' ''default'') (py_str r path) (tc_value c)) (\<lambda>v. Inr (v, [(''path'', path)])))))"

definition jsonpath_set_rule :: "(pyval \<Rightarrow> string) \<Rightarrow> transform_class" where
  "jsonpath_set_rule r options = (let lbl = text_label r options ''jsonpath_set'' in
     Inr (pure_rule lbl MODE_SINGLE (\<lambda>_. True) (\<lambda>o' c s.
       let path = py_get o' ''path'' in
       if \<not> truthy path then Inl (transform_error (lbl @ '' requires path=''))
       else attempt (if dict_has o' ''set_value'' then Inr (py_get o' ''set_value'')
           else if dict_has o' ''value'' then Inr (py_get o' ''value'')
           else if dict_has o' ''set_value_from_key''
           then (let k = py_str r (py_get o' ''set_value_from_key'') in
             if \<not> tc_bound c then Inl (transform_error (lbl @ '' set_value_from_key='' @ quoted k @ '' requires wizard state''))
             else Inr (read_state_value k False VNone s))
           else Inl (transform_error (lbl @ '' requires set_value=, value=, or set_value_from_key='')))
       (\<lambda>v. attempt (require_mapping lbl (tc_value c)) (\<lambda>d.
         attempt (jsonpath_set (py_str r path) v (VDict d)) (\<lambda>out. Inr (out, [(''path'', path), (''set_value'', v)])))))))"

subsection \<open>Lookups and conditionals\<close>

definition lookup_value :: "(pyval \<Rightarrow> string) \<Rightarrow> string \<Rightarrow> pydict \<Rightarrow> pyval \<Rightarrow> (pyval \<times> pydict) result" where
  "lookup_value r lbl o' w = (case py_or (py_get o' ''table'') (py_get o' ''mapping'') of
     VDict table \<Rightarrow>
       attempt (case w of VDict d \<Rightarrow> dyn_get d (get_default o' ''key_field'' (VStr ''key'')) (py_get d ''id'') | v \<Rightarrow> Inr v) (\<lambda>k.
       if k = VNone then Inl (transform_error (lbl @ '' could not determine lookup key from input''))
       else attempt (dyn_has table k) (\<lambda>hit.
         if hit then attempt (dyn_get table k VNone) (\<lambda>v. Inr (v, [(''key'', k), (''hit'', VBool True)]))
         else if dict_has o' ''default'' then Inr (py_get o' ''default'', [(''key'', k), (''hit'', VBool False)])
         else Inl (transform_error (lbl @ '' no entry for key '' @ py_repr r k))))
   | _ \<Rightarrow> Inl (transform_error (lbl @ '' requires table='')))"

definition lookup_rule :: "(pyval \<Rightarrow> string) \<Rightarrow> transform_class" where
  "lookup_rule r options = (let lbl = text_label r options ''lookup'' in
     Inr (pure_rule lbl MODE_AUTO (\<lambda>_. True) (\<lambda>o' c _. lookup_value r lbl o' (tc_value c))))"

text \<open>
  The order of Python on values: numbers by value, texts and lists by the first difference; anything
  else is a \<open>TypeError\<close>. The answer is negative, zero or positive.
\<close>

definition unorderable :: "pyval \<Rightarrow> pyval \<Rightarrow> 'a result" where
  "unorderable a b = Inl (Exc PyTypeError (''comparison not supported between instances of '' @ quoted (type_name a) @ '' and '' @ quoted (type_name b)))"

fun text_cmp :: "string \<Rightarrow> string \<Rightarrow> int" where
  "text_cmp [] [] = 0"
| "text_cmp [] (_ # _) = -1"
| "text_cmp (_ # _) [] = 1"
| "text_cmp (a # as) (b # bs) = (let m = of_char a :: nat; n = of_char b in if m < n then -1 else if n < m then 1 else text_cmp as bs)"

definition number_cmp :: "rat \<Rightarrow> rat \<Rightarrow> int" where
  "number_cmp x y = (if x < y then -1 else if y < x then 1 else 0)"

fun py_cmp :: "pyval \<Rightarrow> pyval \<Rightarrow> int result"
  and items_cmp :: "pyval list \<Rightarrow> pyval list \<Rightarrow> int result" where
  "py_cmp (VStr s) b = (case b of VStr t \<Rightarrow> Inr (text_cmp s t) | _ \<Rightarrow> unorderable (VStr s) b)"
| "py_cmp (VList xs) b = (case b of VList ys \<Rightarrow> items_cmp xs ys | _ \<Rightarrow> unorderable (VList xs) b)"
| "py_cmp (VBool p) b = (case as_number b of Some y \<Rightarrow> Inr (number_cmp (if p then 1 else 0) y) | None \<Rightarrow> unorderable (VBool p) b)"
| "py_cmp (VInt n) b = (case as_number b of Some y \<Rightarrow> Inr (number_cmp (of_int n) y) | None \<Rightarrow> unorderable (VInt n) b)"
| "py_cmp (VFloat q) b = (case as_number b of Some y \<Rightarrow> Inr (number_cmp q y) | None \<Rightarrow> unorderable (VFloat q) b)"
| "py_cmp VNone b = unorderable VNone b"
| "py_cmp (VDict d) b = unorderable (VDict d) b"
| "py_cmp (VObj n) b = unorderable (VObj n) b"
| "items_cmp [] ys = Inr (if ys = [] then 0 else -1)"
| "items_cmp (x # xs) ys = (case ys of [] \<Rightarrow> Inr 1 | y # ys' \<Rightarrow> if py_eq x y then items_cmp xs ys' else py_cmp x y)"

text \<open>The first predicate among the options decides.\<close>

definition predicate_holds :: "pyval \<Rightarrow> pydict option \<Rightarrow> pydict \<Rightarrow> bool result" where
  "predicate_holds subject container o' =
     (if dict_has o' ''equals'' then Inr (py_eq subject (py_get o' ''equals''))
      else if dict_has o' ''not_equals'' then Inr (\<not> py_eq subject (py_get o' ''not_equals''))
      else if dict_has o' ''gt'' then attempt (py_cmp subject (py_get o' ''gt'')) (\<lambda>n. Inr (n > 0))
      else if dict_has o' ''gte'' then attempt (py_cmp subject (py_get o' ''gte'')) (\<lambda>n. Inr (n \<ge> 0))
      else if dict_has o' ''lt'' then attempt (py_cmp subject (py_get o' ''lt'')) (\<lambda>n. Inr (n < 0))
      else if dict_has o' ''lte'' then attempt (py_cmp subject (py_get o' ''lte'')) (\<lambda>n. Inr (n \<le> 0))
      else if truthy (py_get o' ''is_truthy'') then Inr (truthy subject)
      else if truthy (py_get o' ''exists'')
      then (case container of None \<Rightarrow> Inr (subject \<noteq> VNone) | Some d \<Rightarrow> dyn_has d (py_get o' ''field''))
      else Inl (transform_error ''conditional requires a predicate (equals, gt, gte, is_truthy, exists, ...)''))"

definition conditional_subject :: "(pyval \<Rightarrow> string) \<Rightarrow> string \<Rightarrow> pyval \<Rightarrow> pyval \<Rightarrow> (pyval \<times> pydict option) result" where
  "conditional_subject r lbl field v =
     (if field = VNone then Inr (v, None)
      else case v of
        VDict d \<Rightarrow> attempt (dyn_get d field VNone) (\<lambda>x. Inr (x, if truthy field then Some d else None))
      | _ \<Rightarrow> Inl (transform_error (lbl @ '' field='' @ py_repr r field @ '' requires a mapping input'')))"

definition conditional :: "(pyval \<Rightarrow> string) \<Rightarrow> transform_class" where
  "conditional r options = (let lbl = text_label r options ''conditional'' in
     Inr (pure_rule lbl MODE_SINGLE (\<lambda>_. True) (\<lambda>o' c _.
       let pass = truthy (py_get o' ''passthrough''); field = py_get o' ''field''; v = tc_value c in
       if \<not> pass \<and> \<not> dict_has o' ''then'' then Inl (transform_error (lbl @ '' requires then=''))
       else attempt (conditional_subject r lbl field v) (\<lambda>(subject, container).
         attempt (predicate_holds subject container o') (\<lambda>matched.
           Inr (if matched then (if pass then v else py_get o' ''then'') else py_get o' ''else'',
             [(''matched'', VBool matched), (''field'', field), (''passthrough'', VBool pass)]))))))"

text \<open>The names under which the rules are registered, in an installation that names just these.\<close>

definition builtin_rules :: "(nat \<Rightarrow> (pyval \<Rightarrow> pyval result) option) \<Rightarrow> (pyval \<Rightarrow> string) \<Rightarrow> (string \<times> transform_class) list" where
  "builtin_rules objs r = [(''rename_field'', rename_field r), (''map_fields'', map_fields r), (''append_item'', append_item r),
     (''filter_items'', filter_items r), (''count_by'', count_by r), (''callable'', callable objs r),
     (''jsonpath_extract'', jsonpath_extract r), (''jsonpath_set'', jsonpath_set_rule r), (''lookup'', lookup_rule r),
     (''conditional'', conditional r)]"

definition builtin_registry :: "(nat \<Rightarrow> (pyval \<Rightarrow> pyval result) option) \<Rightarrow> (pyval \<Rightarrow> string) \<Rightarrow> transform_class registry" where
  "builtin_registry objs r = \<lparr>label = ''transform'', entries = builtin_rules objs r, frozen = False\<rparr>"

end
