(* ===== verification/TransformProps.thy ===== *)
theory TransformProps
  imports TransformRules
begin

text \<open>
  Properties of the transform engine and the built-in rules: dotted paths obey the laws of a lens,
  bounded lists hold the newest distinct items, counts count, chains leave a replayable trail of
  well-formed values.
\<close>

subsection \<open>Dotted paths\<close>

lemma write_step:
  assumes "path_write (p # q # ps) v d = Inr d'"
  obtains e e' where "py_get d p = VNone \<and> e = [] \<or> py_get d p = VDict e" "path_write (q # ps) v e = Inr e'" "d' = dict_set p (VDict e') d"
proof (cases "py_get d p")
  case VNone
  then show ?thesis using assms that [of "[]"] by (cases "path_write (q # ps) v []") simp_all
next
  case (VDict e)
  then show ?thesis using assms that [of e] by (cases "path_write (q # ps) v e") simp_all
qed (use assms in simp_all)

lemma walk_dict [simp]: "path_walk dflt path (p # ps) (VDict (dict_set k v d)) =
    (if p = k then path_walk dflt path ps v else path_walk dflt path (p # ps) (VDict d))"
  by (simp add: dict_has_def)

lemma walk_written: "path_write ps v d = Inr d' \<Longrightarrow> ps \<noteq> [] \<Longrightarrow> path_walk dflt path ps (VDict d') = Inr v"
proof (induction ps v d arbitrary: d' rule: path_write.induct)
  case (2 leaf v d)
  then have "d' = dict_set leaf v d" by simp
  then show ?case by (simp only: walk_dict if_True simp_thms path_walk.simps(1))
next
  case (3 p q ps v d)
  obtain e e' where s: "path_write (q # ps) v e = Inr e'" "d' = dict_set p (VDict e') d" using write_step [OF "3.prems"(1)] by blast
  have "path_walk dflt path (q # ps) (VDict e') = Inr v" using "3.IH" [OF s(1)] by blast
  then show ?case by (simp only: s(2) walk_dict if_True simp_thms)
qed simp

lemma write_again: "path_write ps v d = Inr d' \<Longrightarrow> path_write ps v d' = Inr d'"
proof (induction ps v d arbitrary: d' rule: path_write.induct)
  case (3 p q ps v d)
  obtain e e' where s: "path_write (q # ps) v e = Inr e'" "d' = dict_set p (VDict e') d" using write_step [OF "3.prems"(1)] by blast
  then show ?case using "3.IH" [OF s(1)] by simp
qed auto

lemma path_write_frame:
  "path_write ps v d = Inr d' \<Longrightarrow> \<not> prefix ps qs \<Longrightarrow> \<not> prefix qs ps \<Longrightarrow>
    path_walk (Some x) path qs (VDict d') = path_walk (Some x) path qs (VDict d)"
proof (induction ps v d arbitrary: d' qs rule: path_write.induct)
  case (2 leaf v d)
  obtain q qs' where q: "qs = q # qs'" using "2.prems"(3) by (cases qs) auto
  have "q \<noteq> leaf" "d' = dict_set leaf v d" using 2 q by auto
  then show ?case by (simp only: q walk_dict if_False simp_thms)
next
  case (3 p p2 ps v d)
  obtain e e' where s: "py_get d p = VNone \<and> e = [] \<or> py_get d p = VDict e" "path_write (p2 # ps) v e = Inr e'" "d' = dict_set p (VDict e') d"
    using write_step [OF "3.prems"(1)] by blast
  obtain q qs' where q: "qs = q # qs'" using "3.prems"(3) by (cases qs) auto
  show ?case
  proof (cases "q = p")
    case True
    obtain q2 qs2 where q2: "qs' = q2 # qs2" using "3.prems"(3) True q by (cases qs') auto
    have np: "\<not> prefix (p2 # ps) qs'" "\<not> prefix qs' (p2 # ps)" using "3.prems"(2,3) True by (simp_all add: q)
    have "path_walk (Some x) path qs' (VDict e') = path_walk (Some x) path qs' (VDict e)"
      by (rule "3.IH" [OF s(2) np])
    then have "path_walk (Some x) path qs (VDict d') = path_walk (Some x) path qs' (VDict e)" by (simp only: q s(3) True walk_dict if_True simp_thms)
    also have "\<dots> = path_walk (Some x) path qs (VDict d)"
      using s(1) by (auto simp: q q2 True path_miss_def dict_has_def get_default_def split: option.splits)
    finally show ?thesis .
  qed (simp only: q s(3) walk_dict if_False simp_thms)
qed simp

lemma split_dots_ne: "split_dots s \<noteq> []"
  by (induction s rule: split_dots.induct) (auto split: list.splits)

text \<open>
  C34. A dotted path is a lens on nested dictionaries: what was written is read back, writing it again
  changes nothing, and a path that is neither part of the written one nor extends it reads as before.
\<close>
theorem jsonpath_lens:
  assumes "jsonpath_set p v whole = Inr whole'"
  shows "jsonpath_get dflt p whole' = Inr v \<and> jsonpath_set p v whole' = Inr whole'
    \<and> (\<not> prefix (split_dots p) (split_dots q) \<and> \<not> prefix (split_dots q) (split_dots p) \<longrightarrow>
         jsonpath_get (Some x) q whole' = jsonpath_get (Some x) q whole)"
proof -
  obtain d where d: "whole = VDict d" "p \<noteq> []" using assms by (cases whole) (auto simp: jsonpath_set_def split: if_splits)
  then obtain d' where d': "path_write (split_dots p) v d = Inr d'" "whole' = VDict d'"
    using assms by (cases "path_write (split_dots p) v d") (auto simp: jsonpath_set_def)
  show ?thesis
    using walk_written [OF d'(1) split_dots_ne] write_again [OF d'(1)] path_write_frame [OF d'(1)] d
    by (simp add: jsonpath_get_def jsonpath_set_def d'(2))
qed

lemma jsonpath_lens_witness:
  "\<exists>w. jsonpath_set ''user.tags.a'' (VInt 1) (VDict [(''user'', VDict [(''name'', VStr ''x'')])]) = Inr w
    \<and> jsonpath_get None ''user.tags.a'' w = Inr (VInt 1) \<and> jsonpath_get (Some VNone) ''user.name'' w = Inr (VStr ''x'')"
proof -
  define w where "w = VDict [(''user'', VDict [(''name'', VStr ''x''), (''tags'', VDict [(''a'', VInt 1)])])]"
  have set: "jsonpath_set ''user.tags.a'' (VInt 1) (VDict [(''user'', VDict [(''name'', VStr ''x'')])]) = Inr w" unfolding w_def by code_simp
  have apart: "\<not> prefix (split_dots ''user.tags.a'') (split_dots ''user.name'') \<and> \<not> prefix (split_dots ''user.name'') (split_dots ''user.tags.a'')" by code_simp
  have old: "jsonpath_get (Some VNone) ''user.name'' (VDict [(''user'', VDict [(''name'', VStr ''x'')])]) = Inr (VStr ''x'')" by code_simp
  show ?thesis using jsonpath_lens [OF set, of None "''user.name''" VNone] apart old set by auto
qed

subsection \<open>Bounded lists\<close>

text \<open>The newest item of each marker, newest first, for a history with the newest first.\<close>

definition marker :: "string \<Rightarrow> pyval \<Rightarrow> pyval" where
  "marker f v = (case v of VDict d \<Rightarrow> py_get d f | _ \<Rightarrow> VNone)"

fun newest :: "string \<Rightarrow> pyval list \<Rightarrow> pyval list" where
  "newest f [] = []"
| "newest f (h # hs) = h # filter (\<lambda>e. marker f e \<noteq> marker f h) (newest f hs)"

definition marked :: "string \<Rightarrow> pyval \<Rightarrow> bool" where
  "marked f v \<longleftrightarrow> (\<exists>d t. v = VDict d \<and> py_get d f = VStr t)"

lemma newest_distinct: "distinct (map (marker f) (newest f hs))"
  by (induction hs) (auto simp: distinct_map_filter)

lemma newest_sub: "set (newest f hs) \<subseteq> set hs"
  by (induction hs) auto

lemma take_filter_one:
  "distinct (map g xs) \<Longrightarrow> take n (filter (\<lambda>e. g e \<noteq> m) (take (Suc n) xs)) = take n (filter (\<lambda>e. g e \<noteq> m) xs)"
proof (induction xs arbitrary: n)
  case (Cons x xs)
  show ?case
  proof (cases "g x = m")
    case True
    then have other: "\<forall>e \<in> set xs. g e \<noteq> m" using Cons.prems by (auto simp: image_iff)
    then have "filter (\<lambda>e. g e \<noteq> m) xs = xs" by (simp add: filter_id_conv)
    moreover have "filter (\<lambda>e. g e \<noteq> m) (take n xs) = take n xs" using other by (auto simp: filter_id_conv dest: in_set_takeD)
    ultimately show ?thesis using True by simp
  next
    case False
    then show ?thesis using Cons by (cases n) simp_all
  qed
qed simp

lemma take_newest: "take n (h # filter (\<lambda>e. marker f e \<noteq> marker f h) (take n (newest f hs))) = take n (newest f (h # hs))"
  using take_filter_one [OF newest_distinct, of _ f "marker f h" hs] by (cases n) simp_all

lemma drop_same_marked:
  assumes "marked f item" "list_all (marked f) xs" "f \<noteq> []"
  shows "drop_same r (VStr f) item xs = filter (\<lambda>e. marker f e \<noteq> marker f item) xs"
proof -
  obtain d t where d: "item = VDict d" "py_get d f = VStr t" using assms(1) by (auto simp: marked_def)
  have "same_marker f (VStr t) e = (marker f e = VStr t)" if m: "marked f e" for e
    using m by (auto simp: marked_def same_marker_def marker_def)
  then show ?thesis using assms(2,3) d by (auto simp: drop_same_def marker_def list_all_iff intro!: filter_cong)
qed

definition recent_options :: "string \<Rightarrow> string \<Rightarrow> int \<Rightarrow> pydict" where
  "recent_options k f n = [(''list_key'', VStr k), (''unique_field'', VStr f), (''max_items'', VInt n)]"

definition list_at :: "string \<Rightarrow> dict_state \<Rightarrow> pyval list \<Rightarrow> bool" where
  "list_at k s xs \<longleftrightarrow> st_get k VNone s = VList xs \<or> xs = [] \<and> st_get k VNone s = VNone"

text \<open>Each item is put at the source key and appended to the list at the target.\<close>

fun append_all :: "(pyval \<Rightarrow> string) \<Rightarrow> transform_class registry \<Rightarrow> pyval \<Rightarrow> string \<Rightarrow> state_options \<Rightarrow> pydict \<Rightarrow> pyval list \<Rightarrow> unit st_eff" where
  "append_all r reg self src o' options [] s = (Inr (), s)"
| "append_all r reg self src o' options (x # xs) s = (case apply_to_state r reg self ''append_item'' src o' options (st_set src x s) of
     (Inl e, s1) \<Rightarrow> (Inl e, s1) | (Inr _, s1) \<Rightarrow> append_all r reg self src o' options xs s1)"

lemma st_get_set [simp]: "st_get k d (st_set k' v s) = (if k = k' then v else st_get k d s)"
  by (simp add: st_get_def st_set_def)

lemma st_schema_set [simp]: "st_schema (st_set k v s) = st_schema s"
  by (simp add: st_set_def)

lemma free_write:
  "st_schema s = None \<Longrightarrow> write_state_value r k v False b s = (Inr (), st_set k v s)"
  by (simp add: write_state_value_def set_validated_def)

lemma free_outcome:
  assumes "st_schema s = None" "so_scoped o' = False" "so_target o' = Some k" "k \<noteq> []" "so_trace o' = None"
  shows "write_outcome r o' src v c s = (Inr (Some \<lparr>tr_context = c, tr_writes = [(k, v)]\<rparr>), st_set k v s)"
  using assms by (simp add: write_outcome_def destination_def Let_def free_write)

lemma append_value_recent:
  assumes o': "py_get o' ''list_key'' = VStr k" "py_get o' ''unique_field'' = VStr f" "py_get o' ''max_items'' = VInt n"
      "\<not> dict_has o' ''prepend''"
    and keys: "k \<noteq> []" "f \<noteq> []" and xs: "list_at k s xs" "list_all (marked f) xs" and item: "marked f x"
  shows "\<exists>meta. append_value r lbl o' (new_context x True) s = Inr (VList (take (nat n) (x # filter (\<lambda>e. marker f e \<noteq> marker f x) xs)), meta)"
proof -
  have "py_or (py_get o' ''list_key'') v = VStr k" for v using o'(1) keys(1) by simp
  moreover have "get_default o' ''prepend'' (VBool True) = VBool True" using o'(4) by (simp add: dict_has_def get_default_def)
  moreover have "(case st_get k VNone s of VNone \<Rightarrow> Inr [] | VList xs \<Rightarrow> Inr xs | _ \<Rightarrow> Inl e) = Inr xs" for e :: exc
    using xs(1) by (auto simp: list_at_def)
  moreover have "capped True n (x # filter (\<lambda>e. marker f e \<noteq> marker f x) xs) = take (nat n) (x # filter (\<lambda>e. marker f e \<noteq> marker f x) xs)"
    by (auto simp: capped_def Let_def)
  ultimately show ?thesis using o'(2,3) keys drop_same_marked [OF item xs(2) keys(2), of r]
    by (simp add: append_value_def Let_def new_context_def tc_value_def py_int_def)
qed

lemma append_step:
  assumes free: "st_schema s = None" "so_scoped o' = False" "so_target o' = Some k" "so_trace o' = None"
    and keys: "k \<noteq> src" "k \<noteq> []" "f \<noteq> []" and xs: "list_at k s xs" "list_all (marked f) xs" and item: "marked f x"
  shows "\<exists>y. apply_to_state r (builtin_registry objs r) self ''append_item'' src o' (recent_options k f n) (st_set src x s)
    = (Inr (Some y), st_set k (VList (take (nat n) (x # filter (\<lambda>e. marker f e \<noteq> marker f x) xs))) (st_set src x s))"
proof -
  let ?s = "st_set src x s" and ?o = "dict_set ''_target_key'' (VStr k) (recent_options k f n)"
  let ?out = "take (nat n) (x # filter (\<lambda>e. marker f e \<noteq> marker f x) xs)"
  have x: "x \<noteq> VNone" using item by (auto simp: marked_def)
  have read: "read_state_value src False VNone ?s = x" by (simp add: read_state_value_def)
  have at: "list_at k ?s xs" using xs(1) keys(1) by (simp add: list_at_def)
  have opts: "py_get (dict_set ''_engine'' self ?o) ''list_key'' = VStr k" "py_get (dict_set ''_engine'' self ?o) ''unique_field'' = VStr f"
    "py_get (dict_set ''_engine'' self ?o) ''max_items'' = VInt n" "\<not> dict_has (dict_set ''_engine'' self ?o) ''prepend''"
    by (simp_all add: recent_options_def)
  obtain meta where run: "append_value r ''append_item'' (dict_set ''_engine'' self ?o) (new_context x True) ?s = Inr (VList ?out, meta)"
    using append_value_recent [OF opts keys(2,3) at xs(2) item] by blast
  have rule: "resolve (builtin_registry objs r) ''append_item'' ?o
      = Inr (pure_rule ''append_item'' MODE_SINGLE (\<lambda>_. True) (append_value r ''append_item''))"
    by (simp add: resolve_def lookup_def builtin_registry_def builtin_rules_def append_item_def recent_options_def text_label_def Let_def call_keywords_ok)
  have clash: "\<forall>k \<in> {''self'', ''name'', ''value'', ''state'', ''rule'', ''context''}. \<not> dict_has ?o k" by (simp add: recent_options_def)
  have "apply_auto (builtin_registry objs r) self ''append_item'' ?o x True ?s
      = (Inr (plain_transform (advance ''append_item'' (VList ?out) meta (new_context x True))), ?s)"
    using clash by (simp add: auto_is_single apply_transform_def rule apply_rule_def pure_rule_def run call_keywords_ok)
  then show ?thesis using x free keys(2)
    by (simp add: apply_to_state_def Let_def read destination_def free_outcome tr_value_def plain_transform_def tc_value_def advance_def)
qed

text \<open>
  A bounded list holds the newest distinct items: whatever items are appended one after another
  through the engine, none raises, and the list is the newest item of each marker, newest first, cut
  to the bound.
\<close>
theorem recent_items_are_kept:
  assumes "st_schema s = None" "so_scoped o' = False" "so_target o' = Some k" "so_trace o' = None"
    and "k \<noteq> src" "k \<noteq> []" "f \<noteq> []" and "list_at k s []" and "list_all (marked f) items"
  shows "\<exists>s'. append_all r (builtin_registry objs r) self src o' (recent_options k f n) items s = (Inr (), s')
    \<and> list_at k s' (take (nat n) (newest f (rev items)))"
proof -
  have "\<exists>s'. append_all r (builtin_registry objs r) self src o' (recent_options k f n) items s = (Inr (), s')
      \<and> list_at k s' (take (nat n) (newest f (rev items @ hs)))"
    if "st_schema s = None" "list_at k s (take (nat n) (newest f hs))" "list_all (marked f) hs" "list_all (marked f) items" for s hs items
    using that
  proof (induction items arbitrary: s hs)
    case Nil
    then show ?case by simp
  next
    case (Cons x items)
    have mk: "list_all (marked f) (take (nat n) (newest f hs))"
      using Cons.prems(3) newest_sub [of f hs] by (auto simp: list_all_iff dest: in_set_takeD)
    let ?s = "st_set k (VList (take (nat n) (newest f (x # hs)))) (st_set src x s)"
    have "marked f x" using Cons.prems(4) by simp
    note step = append_step [OF Cons.prems(1) assms(2-7) Cons.prems(2) mk this, of r objs self n, unfolded take_newest]
    have "st_schema ?s = None" "list_at k ?s (take (nat n) (newest f (x # hs)))" "list_all (marked f) (x # hs)" "list_all (marked f) items"
      using Cons.prems by (simp_all add: list_at_def)
    from Cons.IH [OF this] step show ?case by auto
  qed
  from this [of s "[]" items] assms show ?thesis by simp
qed

lemma recent_items_are_kept_witness:
  "\<exists>s'. append_all (\<lambda>_. []) (builtin_registry (\<lambda>_. None) (\<lambda>_. [])) VNone ''in''
      \<lparr>so_target = Some ''seen'', so_scoped = False, so_validate = True, so_skip = False, so_trace = None\<rparr> (recent_options ''seen'' ''id'' 2)
      [VDict [(''id'', VStr ''a'')], VDict [(''id'', VStr ''b'')], VDict [(''id'', VStr ''a''), (''n'', VInt 2)], VDict [(''id'', VStr ''c'')]]
      (new_dict_state [] None) = (Inr (), s')
    \<and> list_at ''seen'' s' [VDict [(''id'', VStr ''c'')], VDict [(''id'', VStr ''a''), (''n'', VInt 2)]]"
proof -
  have "list_all (marked ''id'') [VDict [(''id'', VStr ''a'')], VDict [(''id'', VStr ''b'')], VDict [(''id'', VStr ''a''), (''n'', VInt 2)], VDict [(''id'', VStr ''c'')]]"
    by (simp add: marked_def)
  from recent_items_are_kept [OF _ _ _ _ _ _ _ _ this, of "new_dict_state [] None"
      "\<lparr>so_target = Some ''seen'', so_scoped = False, so_validate = True, so_skip = False, so_trace = None\<rparr>" "''seen''" "''in''" "\<lambda>_. []" "\<lambda>_. None" VNone 2]
  show ?thesis by (simp add: new_dict_state_def list_at_def st_get_def marker_def)
qed

subsection \<open>Chains\<close>

text \<open>The built-in rules compute one value from the context, the options and the state.\<close>

definition is_pure :: "transform_rule \<Rightarrow> bool" where
  "is_pure rule \<longleftrightarrow> (\<exists>l m p f. rule = pure_rule l m p f)"

definition pure_class :: "transform_class \<Rightarrow> bool" where
  "pure_class cls \<longleftrightarrow> (\<forall>o' rule. cls o' = Inr rule \<longrightarrow> is_pure rule)"

lemma pure_rule_is_pure [simp]: "is_pure (pure_rule l m p f)"
  unfolding is_pure_def by blast

lemma from_options_Inr: "from_options c req opt build o' = Inr rule \<longleftrightarrow> bind_keywords c req opt (dict_pop ''alias'' o') = Inr () \<and> build o' = Inr rule"
  by (auto simp: from_options_def attempt_def split: sum.splits)

lemma builtin_pure: "(n, cls) \<in> set (builtin_rules objs r) \<Longrightarrow> pure_class cls"
  by (auto simp: builtin_rules_def pure_class_def rename_field_def map_fields_def append_item_def filter_items_def count_by_def callable_def
      jsonpath_extract_def jsonpath_set_rule_def lookup_rule_def conditional_def from_options_Inr Let_def attempt_def split: sum.splits if_splits)

lemma builtin_resolve:
  assumes "resolve (builtin_registry objs r) nm o' = Inr rule"
  obtains cls where "(nm, cls) \<in> set (builtin_rules objs r)" "cls (filter (\<lambda>(k, v). \<not> prefix ''_'' k) o') = Inr rule"
proof (cases "dict_get (builtin_rules objs r) nm")
  case None
  then show ?thesis using assms by (simp add: resolve_def lookup_def builtin_registry_def attempt_def split: sum.splits)
next
  case (Some cls)
  then show ?thesis using assms that [of cls]
    by (simp add: resolve_def lookup_def builtin_registry_def attempt_def Let_def map_of_SomeD split: sum.splits)
qed

lemma builtin_apply:
  assumes "resolve (builtin_registry objs r) nm o' = Inr rule" "apply_rule self rule o2 c s = (Inr c', s')"
  shows "s' = s \<and> (\<exists>v meta. c' = advance (ru_name rule) v meta c)"
proof -
  obtain l m p f where "rule = pure_rule l m p f"
    using builtin_resolve [OF assms(1)] builtin_pure unfolding pure_class_def is_pure_def by metis
  then show ?thesis using assms(2) by (auto simp: apply_rule_def pure_rule_def attempt_def split: if_splits sum.splits)
qed

lemma chain_trail:
  "chain_loop (builtin_registry objs r) self sh br nms c s = (Inr c', s') \<Longrightarrow>
    s' = s \<and> (\<exists>fs. c' = c\<lparr>tc_frames := tc_frames c @ fs\<rparr> \<and> length fs = length nms \<and>
      (\<forall>i \<le> length nms. chain_loop (builtin_registry objs r) self sh br (take i nms) c s = (Inr (c\<lparr>tc_frames := tc_frames c @ take i fs\<rparr>), s)))"
proof (induction nms arbitrary: c s)
  case (Cons nm nms)
  define merged where "merged = dict_update sh (case dict_get br nm of Some d \<Rightarrow> d | None \<Rightarrow> [])"
  obtain rule where rule: "resolve (builtin_registry objs r) nm merged = Inr rule"
    using Cons.prems by (cases "resolve (builtin_registry objs r) nm merged") (simp_all add: merged_def Let_def)
  obtain c1 s1 where one: "apply_rule self rule merged c s = (Inr c1, s1)" and rest: "chain_loop (builtin_registry objs r) self sh br nms c1 s1 = (Inr c', s')"
    using Cons.prems rule by (auto simp: merged_def Let_def split: prod.splits sum.splits)
  obtain v meta where adv: "s1 = s" "c1 = advance (ru_name rule) v meta c" using builtin_apply [OF rule one] by blast
  let ?f = "\<lparr>tf_rule = ru_name rule, tf_value = v, tf_meta = meta\<rparr>"
  obtain fs where fs: "s' = s1" "c' = c1\<lparr>tc_frames := tc_frames c1 @ fs\<rparr>" "length fs = length nms"
    "\<forall>i \<le> length nms. chain_loop (builtin_registry objs r) self sh br (take i nms) c1 s1 = (Inr (c1\<lparr>tc_frames := tc_frames c1 @ take i fs\<rparr>), s1)"
    using Cons.IH [OF rest] by blast
  have "chain_loop (builtin_registry objs r) self sh br (take i (nm # nms)) c s = (Inr (c\<lparr>tc_frames := tc_frames c @ take i (?f # fs)\<rparr>), s)"
    if "i \<le> length (nm # nms)" for i
  proof (cases i)
    case (Suc j)
    then show ?thesis using that fs(4) rule one adv by (simp add: merged_def Let_def advance_def)
  qed simp
  then show ?case using fs adv by (intro conjI exI [of _ "?f # fs"]) (simp_all add: advance_def)
qed simp

text \<open>
  A chain of built-in rules that returns leaves a complete trail: the original value, one frame
  per rule, and every prefix of the chain returns exactly the corresponding prefix of the trail, so
  each recorded value is the one the rules before it produced. The state is not changed.
\<close>
theorem chain_leaves_a_trail:
  assumes "apply_chain (builtin_registry objs r) self nms shared by_rule v b s = (Inr x, s')"
  shows "s' = s \<and> tc_original (tr_context x) = v \<and> length (tc_frames (tr_context x)) = length nms
    \<and> (\<forall>i \<le> length nms. apply_chain (builtin_registry objs r) self (take i nms) shared by_rule v b s
        = (Inr (plain_transform ((tr_context x)\<lparr>tc_frames := take i (tc_frames (tr_context x))\<rparr>)), s))"
proof -
  obtain c' where c': "chain_loop (builtin_registry objs r) self shared by_rule nms (new_context v b) s = (Inr c', s')" "x = plain_transform c'"
    using assms by (cases "chain_loop (builtin_registry objs r) self shared by_rule nms (new_context v b) s")
      (auto simp: apply_chain_def map_sum_def split: sum.splits)
  have entry: "call_keywords ''TransformEngine.apply_chain'' [''self'', ''names'', ''value'', ''state'', ''options_by_rule''] shared = Inr ()"
    using assms by (auto simp: apply_chain_def split: sum.splits)
  obtain fs where fs: "s' = s" "c' = (new_context v b)\<lparr>tc_frames := fs\<rparr>" "length fs = length nms"
    "\<And>i. i \<le> length nms \<Longrightarrow> chain_loop (builtin_registry objs r) self shared by_rule (take i nms) (new_context v b) s
        = (Inr ((new_context v b)\<lparr>tc_frames := take i fs\<rparr>), s)"
    using chain_trail [OF c'(1)] by (auto simp: new_context_def)
  have "apply_chain (builtin_registry objs r) self (take i nms) shared by_rule v b s
        = (Inr (plain_transform ((tr_context x)\<lparr>tc_frames := take i (tc_frames (tr_context x))\<rparr>)), s)" if "i \<le> length nms" for i
    unfolding apply_chain_def fs(4) [OF that] entry by (simp add: c'(2) fs(2) plain_transform_def)
  then show ?thesis using fs(1-3) by (simp add: c'(2) plain_transform_def new_context_def)
qed

end
