(* ===== verification/TransformTypes.thy ===== *)
theory TransformTypes
  imports TransformProps
begin

text \<open>
  The representation of dictionaries as association lists is sound for the modelled rules: from values
  in which no list repeats a key, at any depth, they only make such values, so do chains of them, and
  so is the audit trace.
\<close>

lemma wf_get [simp, intro]: "val_wf (VDict d) \<Longrightarrow> val_wf x \<Longrightarrow> val_wf (get_default d k x)"
  by (auto simp: get_default_def list_all_iff split: option.split dest!: map_of_SomeD)

lemma dict_set_items: "set (dict_set k v d) \<subseteq> insert (k, v) (set d)"
  by (induction d) auto

lemma dict_pop_items: "set (dict_pop k d) \<subseteq> set d"
  by (auto simp: AList.delete_eq)

lemma wf_set [simp, intro]: "val_wf (VDict d) \<Longrightarrow> val_wf v \<Longrightarrow> val_wf (VDict (dict_set k v d))"
  using dict_set_items [of k v d] by (auto simp: list_all_iff)

lemma wf_pop [simp, intro]: "val_wf (VDict d) \<Longrightarrow> val_wf (VDict (dict_pop k d))"
  using dict_pop_items [of k d] by (auto simp: list_all_iff)

lemma wf_update: "val_wf (VDict d) \<Longrightarrow> (\<And>k v. (k, v) \<in> set e \<Longrightarrow> val_wf v) \<Longrightarrow> val_wf (VDict (dict_update d e))"
  unfolding dict_update_def
proof (induction e arbitrary: d)
  case (Cons x e)
  obtain k v where x: "x = (k, v)" by (cases x)
  have "val_wf (VDict (dict_set k v d))" using Cons.prems x by (intro wf_set) auto
  from Cons.IH [OF this] Cons.prems x show ?case by auto
qed simp

lemma wf_or [simp, intro]: "val_wf a \<Longrightarrow> val_wf b \<Longrightarrow> val_wf (py_or a b)"
  by (simp add: py_or_def)

declare val_wf.simps(2) [simp del]

lemma wf_meta: "val_wf (VDict ((k, v) # m)) \<longleftrightarrow> \<not> dict_has m k \<and> val_wf v \<and> val_wf (VDict m)" "val_wf (VDict [])"
  by (auto simp: val_wf.simps(2) dict_wf_def dict_has_iff)

definition ctx_wf :: "transform_context \<Rightarrow> bool" where
  "ctx_wf c \<longleftrightarrow> val_wf (tc_original c) \<and> (\<forall>f \<in> set (tc_frames c). val_wf (tf_value f) \<and> val_wf (VDict (tf_meta f)))"

definition wf_fun :: "(pydict \<Rightarrow> transform_context \<Rightarrow> dict_state \<Rightarrow> (pyval \<times> pydict) result) \<Rightarrow> bool" where
  "wf_fun f \<longleftrightarrow> (\<forall>o' c s v meta. val_wf (VDict o') \<longrightarrow> ctx_wf c \<longrightarrow> val_wf (VDict (st_data s)) \<longrightarrow> f o' c s = Inr (v, meta)
     \<longrightarrow> val_wf v \<and> val_wf (VDict meta))"

lemma ctx_value_wf: "ctx_wf c \<Longrightarrow> val_wf (tc_value c)"
  by (auto simp: ctx_wf_def tc_value_def)

lemma wf_funI: "(\<And>o' c s v meta. val_wf (VDict o') \<Longrightarrow> val_wf (tc_value c) \<Longrightarrow> val_wf (VDict (st_data s)) \<Longrightarrow> f o' c s = Inr (v, meta)
    \<Longrightarrow> val_wf v \<and> val_wf (VDict meta)) \<Longrightarrow> wf_fun f"
  unfolding wf_fun_def using ctx_value_wf by blast

definition rule_wf :: "transform_rule \<Rightarrow> bool" where
  "rule_wf rule \<longleftrightarrow> (\<exists>l m p f. rule = pure_rule l m p f \<and> wf_fun f)"

definition class_wf :: "transform_class \<Rightarrow> bool" where
  "class_wf cls \<longleftrightarrow> (\<forall>o' rule. val_wf (VDict o') \<longrightarrow> cls o' = Inr rule \<longrightarrow> rule_wf rule)"

lemma pure_rule_wf: "wf_fun f \<Longrightarrow> rule_wf (pure_rule l m p f)"
  unfolding rule_wf_def by blast

lemma attempt_Inr: "attempt x f = Inr y \<longleftrightarrow> (\<exists>a. x = Inr a \<and> f a = Inr y)"
  by (cases x) auto

lemma require_mapping_Inr: "require_mapping l v = Inr d \<longleftrightarrow> v = VDict d"
  by (cases v) (auto simp: require_mapping_def)

lemma require_list_Inr: "require_list l v = Inr xs \<longleftrightarrow> v = VList xs"
  by (cases v) (auto simp: require_list_def)

lemma dyn_get_wf: "dyn_get d k x = Inr v \<Longrightarrow> val_wf (VDict d) \<Longrightarrow> val_wf x \<Longrightarrow> val_wf v"
  by (cases k) (auto simp: dyn_get_def unhashable_def)

lemma move_field_wf: "move_field r a b d = Inr out \<Longrightarrow> val_wf (VDict d) \<Longrightarrow> val_wf (VDict out)"
  by (auto simp: move_field_def attempt_Inr split: if_splits)

lemma move_fields_wf: "move_fields r m d = Inr out \<Longrightarrow> val_wf (VDict d) \<Longrightarrow> val_wf (VDict out)"
proof (induction m arbitrary: d)
  case (Cons x m)
  then show ?case by (cases x) (auto simp: attempt_Inr dest: move_field_wf)
qed simp

lemma picked_fields_wf: "val_wf (VDict d) \<Longrightarrow> val_wf (VDict (picked_fields r m d))"
proof -
  assume d: "val_wf (VDict d)"
  have "val_wf (VDict (fold (\<lambda>(k, t) out. if dict_has d k then dict_set (py_str r t) (py_get d k) out else out) m out))" if "val_wf (VDict out)" for out
    using that
  proof (induction m arbitrary: out)
    case (Cons x m)
    obtain k t where x: "x = (k, t)" by (cases x)
    have "val_wf (VDict (if dict_has d k then dict_set (py_str r t) (py_get d k) out else out))" using d Cons.prems by simp
    from Cons.IH [OF this] show ?case by (simp add: x)
  qed simp
  then show ?thesis by (simp add: picked_fields_def wf_meta)
qed

lemma rename_field_wf: "class_wf (rename_field r)"
  unfolding class_wf_def rename_field_def from_options_Inr Let_def
  by (auto intro!: pure_rule_wf wf_funI simp: attempt_Inr require_mapping_Inr wf_meta) (erule (1) move_field_wf)

lemma py_dict_wf: "py_dict v = Inr m \<Longrightarrow> val_wf v \<Longrightarrow> val_wf (VDict m)"
  by (cases v) (auto simp: py_dict_def wf_meta split: list.splits)

lemma map_fields_wf: "class_wf (map_fields r)"
  unfolding class_wf_def
proof (intro allI impI)
  fix o' rule
  assume o': "val_wf (VDict o')" and "map_fields r o' = Inr rule"
  then obtain m where m: "py_dict (py_get o' ''mapping'') = Inr m" and rule: "rule = pure_rule (rule_label r o' ''map_fields'') MODE_SINGLE (\<lambda>_. True)
      (\<lambda>_ c _. attempt (require_mapping (rule_label r o' ''map_fields'') (tc_value c)) (\<lambda>d.
       attempt (if truthy (get_default o' ''keep_unmapped'' (VBool True)) then move_fields r m d else Inr (picked_fields r m d)) (\<lambda>out.
         Inr (VDict out, [(''mapping'', VDict m), (''keep_unmapped'', get_default o' ''keep_unmapped'' (VBool True))]))))"
    by (auto simp: map_fields_def from_options_Inr Let_def attempt_Inr)
  have "val_wf (VDict m)" by (rule py_dict_wf [OF m]) (use o' in simp)
  then show "rule_wf rule" unfolding rule
    using o' move_fields_wf picked_fields_wf
    by (intro pure_rule_wf wf_funI) (auto simp: attempt_Inr require_mapping_Inr wf_meta split: if_splits)
qed

lemma filter_result_sub: "filter_result p xs = Inr ys \<Longrightarrow> set ys \<subseteq> set xs"
  by (induction xs arbitrary: ys) (auto simp: attempt_Inr split: if_splits)

lemma filter_items_wf: "class_wf (filter_items r)"
proof -
  have "val_wf (VList ys)" if "filter_result p xs = Inr ys" "val_wf (VList xs)" for p xs ys
    using filter_result_sub [OF that(1)] that(2) by (auto simp: list_all_iff)
  then show ?thesis unfolding class_wf_def filter_items_def from_options_Inr Let_def
    by (auto intro!: pure_rule_wf wf_funI simp: attempt_Inr require_list_Inr wf_meta simp del: val_wf.simps(1))
qed

lemma count_by_wf: "class_wf (count_by r)"
proof -
  have "val_wf (VList (count_rows r field k xs))" for field k xs
    by (auto simp: count_rows_def list_all_iff wf_meta)
  then show ?thesis unfolding class_wf_def count_by_def Let_def
    by (auto intro!: pure_rule_wf wf_funI simp: attempt_Inr require_list_Inr wf_meta simp del: val_wf.simps(1) split: if_splits)
qed

lemma st_get_wf: "val_wf (VDict (st_data s)) \<Longrightarrow> val_wf (st_get k VNone s)"
  by (simp add: st_get_def)

lemma capped_sub: "set (capped p n xs) \<subseteq> set xs"
  by (auto simp: capped_def Let_def dest: in_set_takeD in_set_dropD split: if_splits)

lemma drop_same_sub: "set (drop_same r u x xs) \<subseteq> set xs"
  by (auto simp: drop_same_def split: pyval.splits if_splits)

lemma append_value_wf:
  assumes o': "val_wf (VDict o')" and v: "val_wf (tc_value c)" and st: "val_wf (VDict (st_data s))"
    and run: "append_value r lbl o' c s = Inr (out, meta)"
  shows "val_wf out \<and> val_wf (VDict meta)"
proof -
  let ?key = "py_or (py_get o' ''list_key'') (py_get o' ''_target_key'')"
  let ?ex = "st_get (py_str r ?key) VNone s" and ?pre = "truthy (get_default o' ''prepend'' (VBool True))"
  let ?added = "\<lambda>items. if ?pre then tc_value c # drop_same r (py_get o' ''unique_field'') (tc_value c) items
    else drop_same r (py_get o' ''unique_field'') (tc_value c) items @ [tc_value c]"
  obtain items ys where items: "(case ?ex of VNone \<Rightarrow> Inr [] | VList xs \<Rightarrow> Inr xs
        | _ \<Rightarrow> Inl (transform_error (lbl @ '' expects a list at '' @ py_repr r ?key @ '', got '' @ type_name ?ex))) = Inr items"
    and ys: "(if py_get o' ''max_items'' = VNone then Inr (?added items) else attempt (py_int (py_get o' ''max_items'')) (\<lambda>n. Inr (capped ?pre n (?added items)))) = Inr ys"
    and out: "out = VList ys" "meta = [(''list_key'', VStr (py_str r ?key)), (''count'', VInt (int (length ys))), (''prepend'', VBool ?pre),
            (''max_items'', py_get o' ''max_items''), (''unique_field'', py_get o' ''unique_field'')]"
  proof -
    have b: "tc_bound c" using run by (rule_tac ccontr) (simp add: append_value_def Let_def)
    have t: "truthy ?key" using run b by (rule_tac ccontr) (simp add: append_value_def Let_def)
    have "attempt (case ?ex of VNone \<Rightarrow> Inr [] | VList xs \<Rightarrow> Inr xs
        | _ \<Rightarrow> Inl (transform_error (lbl @ '' expects a list at '' @ py_repr r ?key @ '', got '' @ type_name ?ex))) (\<lambda>items.
      attempt (if py_get o' ''max_items'' = VNone then Inr (?added items) else attempt (py_int (py_get o' ''max_items'')) (\<lambda>n. Inr (capped ?pre n (?added items)))) (\<lambda>out.
        Inr (VList out, [(''list_key'', VStr (py_str r ?key)), (''count'', VInt (int (length out))), (''prepend'', VBool ?pre),
            (''max_items'', py_get o' ''max_items''), (''unique_field'', py_get o' ''unique_field'')]))) = Inr (out, meta)"
      using run by (simp only: append_value_def Let_def b t not_True_eq_False if_False simp_thms)
    then show ?thesis using that unfolding attempt_Inr [of "case ?ex of VNone \<Rightarrow> Inr [] | VList xs \<Rightarrow> Inr xs
        | _ \<Rightarrow> Inl (transform_error (lbl @ '' expects a list at '' @ py_repr r ?key @ '', got '' @ type_name ?ex))"]
        attempt_Inr [of "if py_get o' ''max_items'' = VNone then _ else _"] by blast
  qed
  have "val_wf ?ex" by (rule st_get_wf [OF st])
  then have "\<forall>x \<in> set items. val_wf x" using items by (cases ?ex) (auto simp: list_all_iff)
  then have "\<forall>x \<in> set (?added items). val_wf x" using v drop_same_sub [of r "py_get o' ''unique_field''" "tc_value c" items] by auto
  moreover have "set ys \<subseteq> set (?added items)" using ys capped_sub by (auto simp only: attempt_Inr sum.inject split: if_splits)
  ultimately have "val_wf (VList ys)" by (auto simp: list_all_iff)
  then show ?thesis using o' by (simp add: out wf_meta)
qed

lemma append_item_wf: "class_wf (append_item r)"
  unfolding class_wf_def append_item_def Let_def
  by (auto intro!: pure_rule_wf wf_funI dest!: append_value_wf [rotated 3])

lemma map_result_wf:
  "map_result f xs = Inr ys \<Longrightarrow> (\<And>v y. val_wf v \<Longrightarrow> f v = Inr y \<Longrightarrow> val_wf y) \<Longrightarrow> list_all val_wf xs \<Longrightarrow> list_all val_wf ys"
  by (induction xs arbitrary: ys) (auto simp: attempt_Inr)

lemma callable_wf:
  assumes "\<And>n f v y. objs n = Some f \<Longrightarrow> val_wf v \<Longrightarrow> f v = Inr y \<Longrightarrow> val_wf y"
  shows "class_wf (callable objs r)"
proof -
  have "val_wf v \<and> val_wf (VDict meta)" if f: "objs n = Some f" and w: "val_wf w" and run: "(case w of
       VList xs \<Rightarrow> attempt (map_result f xs) (\<lambda>ys. Inr (VList ys, [(''mode'', VStr ''per_item'')]))
     | v \<Rightarrow> attempt (f v) (\<lambda>y. Inr (y, [(''mode'', VStr ''single'')]))) = Inr (v, meta)" for n f w v meta
    using run w assms [OF f w, of v] map_result_wf [of f, OF _ assms [OF f]] by (cases w) (auto simp: attempt_Inr wf_meta)
  then show ?thesis unfolding class_wf_def callable_def Let_def
    by (auto intro!: pure_rule_wf wf_funI split: pyval.splits option.splits)
qed

lemma path_walk_wf:
  "path_walk dflt path ps v = Inr w \<Longrightarrow> val_wf v \<Longrightarrow> (\<And>x. dflt = Some x \<Longrightarrow> val_wf x) \<Longrightarrow> val_wf w"
proof (induction ps arbitrary: v)
  case (Cons p ps)
  have miss: "path_miss dflt m = Inr w \<Longrightarrow> val_wf w" for m using Cons.prems(3) by (auto simp: path_miss_def split: option.splits)
  show ?case
  proof (cases v)
    case (VList xs)
    then show ?thesis using Cons.prems miss Cons.IH by (auto simp: list_all_iff split: option.splits if_splits)
  next
    case (VDict d)
    then show ?thesis using Cons.prems miss Cons.IH [of "py_get d p"] by (auto split: if_splits)
  qed (use Cons.prems miss in auto)
qed simp

lemma jsonpath_extract_wf: "class_wf (jsonpath_extract r)"
proof -
  have "val_wf v" if "jsonpath_get (map_of o' ''default'') p w = Inr v" "val_wf w" "val_wf (VDict o')" for o' p v w
  proof (rule path_walk_wf [OF _ that(2)])
    show "path_walk (map_of o' ''default'') p (split_dots p) w = Inr v" using that(1) by (simp add: jsonpath_get_def split: if_splits)
    show "val_wf x" if "map_of o' ''default'' = Some x" for x
      using wf_get [OF \<open>val_wf (VDict o')\<close>, of VNone "''default''"] that by (simp add: get_default_def)
  qed
  then show ?thesis unfolding class_wf_def jsonpath_extract_def Let_def
    by (auto intro!: pure_rule_wf wf_funI simp: attempt_Inr wf_meta split: if_splits)
qed

lemma path_write_wf: "path_write ps v d = Inr d' \<Longrightarrow> val_wf v \<Longrightarrow> val_wf (VDict d) \<Longrightarrow> val_wf (VDict d')"
proof (induction ps v d arbitrary: d' rule: path_write.induct)
  case (3 p q ps v d)
  obtain e e' where s: "py_get d p = VNone \<and> e = [] \<or> py_get d p = VDict e" "path_write (q # ps) v e = Inr e'" "d' = dict_set p (VDict e') d"
    using write_step [OF "3.prems"(1)] by blast
  have "val_wf (VDict e)" using s(1) wf_get [OF "3.prems"(3), of VNone p] by (auto simp: wf_meta)
  then have "val_wf (VDict e')" by (rule "3.IH" [OF s(2) "3.prems"(2)])
  then show ?case using "3.prems"(3) s(3) by simp
qed auto

lemma jsonpath_set_rule_wf: "class_wf (jsonpath_set_rule r)"
proof -
  have "val_wf w" if "jsonpath_set p v (VDict d) = Inr w" "val_wf v" "val_wf (VDict d)" for p v d w
    using that path_write_wf by (auto simp: jsonpath_set_def attempt_Inr split: if_splits)
  moreover have "val_wf (read_state_value k False VNone s)" if "val_wf (VDict (st_data s))" for k s
    using st_get_wf [OF that] by (simp add: read_state_value_def)
  ultimately show ?thesis unfolding class_wf_def jsonpath_set_rule_def Let_def
    by (auto intro!: pure_rule_wf wf_funI simp: attempt_Inr wf_meta require_mapping_Inr split: if_splits)
qed

lemma lookup_value_wf:
  assumes o': "val_wf (VDict o')" "val_wf w" and run0: "lookup_value r lbl o' w = Inr (v, meta)"
  shows "val_wf v \<and> val_wf (VDict meta)"
proof -
  have tbl: "val_wf (VDict t)" if "py_or (py_get o' a) (py_get o' b) = VDict t" "val_wf (VDict o')" for o' a b t
    using wf_or [of "py_get o' a" "py_get o' b"] that by simp
  have key: "val_wf k" if "(case w of VDict d \<Rightarrow> dyn_get d kf (py_get d ''id'') | v \<Rightarrow> Inr v) = Inr k" "val_wf w" for w kf k
    using that by (cases w) (auto dest: dyn_get_wf)
  show ?thesis
  proof (cases "py_or (py_get o' ''table'') (py_get o' ''mapping'')")
    case (VDict t)
    note run = run0 [unfolded lookup_value_def]
    obtain k where k: "(case w of VDict d \<Rightarrow> dyn_get d (get_default o' ''key_field'' (VStr ''key'')) (py_get d ''id'') | v \<Rightarrow> Inr v) = Inr k"
      using run by (auto simp: VDict attempt_Inr)
    have "val_wf k" by (rule key [OF k o'(2)])
    have some: "k \<noteq> VNone" using run by (auto simp: VDict k)
    obtain hit where hit: "dyn_has t k = Inr hit" using run some by (cases "dyn_has t k") (simp_all add: VDict k)
    show ?thesis
    proof (cases hit)
      case True
      then obtain x where x: "dyn_get t k VNone = Inr x" using run some hit by (cases "dyn_get t k VNone") (simp_all add: VDict k)
      have "val_wf x" by (rule dyn_get_wf [OF x tbl [OF VDict o'(1)]]) simp
      then show ?thesis using run some hit True x \<open>val_wf k\<close> by (simp add: VDict k) (auto simp: wf_meta)
    next
      case False
      then show ?thesis using run some hit o'(1) \<open>val_wf k\<close> by (simp add: VDict k split: if_splits) (auto simp: wf_meta)
    qed
  qed (use run0 in \<open>simp_all add: lookup_value_def\<close>)
qed

lemma lookup_rule_wf: "class_wf (lookup_rule r)"
  unfolding class_wf_def lookup_rule_def Let_def
  by (auto intro!: pure_rule_wf wf_funI dest!: lookup_value_wf [rotated 2])

lemma conditional_wf: "class_wf (conditional r)"
  unfolding class_wf_def conditional_def Let_def
  by (auto intro!: pure_rule_wf wf_funI simp: attempt_Inr wf_meta split: if_splits)

subsection \<open>Chains of rules\<close>

definition objs_wf :: "(nat \<Rightarrow> (pyval \<Rightarrow> pyval result) option) \<Rightarrow> bool" where
  "objs_wf objs \<longleftrightarrow> (\<forall>n f v y. objs n = Some f \<longrightarrow> val_wf v \<longrightarrow> f v = Inr y \<longrightarrow> val_wf y)"

lemma builtin_wf: "objs_wf objs \<Longrightarrow> (n, cls) \<in> set (builtin_rules objs r) \<Longrightarrow> class_wf cls"
proof -
  assume "objs_wf objs"
  then have "class_wf (callable objs r)" by (intro callable_wf) (auto simp: objs_wf_def)
  then show "(n, cls) \<in> set (builtin_rules objs r) \<Longrightarrow> class_wf cls"
    by (auto simp: builtin_rules_def rename_field_wf map_fields_wf append_item_wf filter_items_wf count_by_wf jsonpath_extract_wf
        jsonpath_set_rule_wf lookup_rule_wf conditional_wf)
qed

lemma wf_filter: "val_wf (VDict d) \<Longrightarrow> val_wf (VDict (filter p d))"
  by (auto simp: val_wf.simps(2) dict_wf_def distinct_map_filter list_all_iff)

lemma apply_wf:
  assumes objs: "objs_wf objs" and o': "val_wf (VDict o')" "val_wf self" and c: "ctx_wf c" and st: "val_wf (VDict (st_data s))"
    and run: "resolve (builtin_registry objs r) nm o' = Inr rule" "apply_rule self rule o' c s = (Inr c', s')"
  shows "ctx_wf c'"
proof -
  obtain cls where cls: "(nm, cls) \<in> set (builtin_rules objs r)" "cls (filter (\<lambda>(k, v). \<not> prefix ''_'' k) o') = Inr rule"
    using builtin_resolve [OF run(1)] by blast
  obtain l m p f where rule: "rule = pure_rule l m p f" "wf_fun f"
    using builtin_wf [OF objs cls(1)] wf_filter [OF o'(1)] cls(2) unfolding class_wf_def rule_wf_def by metis
  obtain v meta where step: "f (dict_set ''_engine'' self o') c s = Inr (v, meta)" "c' = advance l v meta c"
    using run(2) by (auto simp: rule(1) apply_rule_def pure_rule_def attempt_Inr split: if_splits prod.splits sum.splits)
  have "val_wf v \<and> val_wf (VDict meta)"
    using rule(2) wf_set [OF o'] c st step(1) unfolding wf_fun_def by metis
  then show ?thesis using c by (auto simp: step(2) ctx_wf_def advance_def)
qed

definition options_wf :: "pydict \<Rightarrow> (string, pydict) dict \<Rightarrow> bool" where
  "options_wf shared by_rule \<longleftrightarrow> val_wf (VDict shared) \<and> (\<forall>nm d. dict_get by_rule nm = Some d \<longrightarrow> val_wf (VDict d))"

lemma chain_wf:
  assumes "objs_wf objs" "options_wf sh br" "val_wf self"
  shows "chain_loop (builtin_registry objs r) self sh br nms c s = (Inr c', s') \<Longrightarrow> ctx_wf c \<Longrightarrow> val_wf (VDict (st_data s)) \<Longrightarrow> ctx_wf c'"
proof (induction nms arbitrary: c s)
  case (Cons nm nms)
  define own where "own = (case dict_get br nm of Some d \<Rightarrow> d | None \<Rightarrow> [])"
  have "val_wf (VDict own)" using assms(2) by (auto simp: own_def options_wf_def wf_meta split: option.split)
  then have merged: "val_wf (VDict (dict_update sh own))"
    using assms(2) by (intro wf_update) (auto simp: options_wf_def val_wf.simps(2) list_all_iff)
  obtain rule where rule: "resolve (builtin_registry objs r) nm (dict_update sh own) = Inr rule"
    using Cons.prems by (cases "resolve (builtin_registry objs r) nm (dict_update sh own)") (simp_all add: own_def Let_def)
  obtain c1 s1 where one: "apply_rule self rule (dict_update sh own) c s = (Inr c1, s1)"
    and rest: "chain_loop (builtin_registry objs r) self sh br nms c1 s1 = (Inr c', s')"
    using Cons.prems(1) rule by (auto simp: own_def Let_def split: prod.splits sum.splits)
  have "s1 = s" using builtin_apply [OF rule one] by blast
  moreover have "ctx_wf c1" by (rule apply_wf [OF assms(1) merged assms(3) Cons.prems(2,3) rule one])
  ultimately show ?case using Cons.IH [OF rest] Cons.prems(3) by simp
qed simp

lemma trace_wf: "ctx_wf c \<Longrightarrow> val_wf (to_trace c)"
  using ctx_value_wf [of c] by (auto simp: to_trace_def ctx_wf_def wf_meta list_all_iff)

text \<open>
  A chain of the modelled rules on a value whose dictionaries repeat no key, with such options and
  state and callables that keep such values, only makes such values, and so is the audit trace.
\<close>
theorem chains_are_well_typed:
  assumes "objs_wf objs" "options_wf shared by_rule" "val_wf self" "val_wf v" "val_wf (VDict (st_data s))"
    and "apply_chain (builtin_registry objs r) self nms shared by_rule v b s = (Inr x, s')"
  shows "val_wf (tr_value x) \<and> val_wf (to_trace (tr_context x))
    \<and> (\<forall>f \<in> set (tc_frames (tr_context x)). val_wf (tf_value f) \<and> val_wf (VDict (tf_meta f)))"
proof -
  obtain c' where c': "chain_loop (builtin_registry objs r) self shared by_rule nms (new_context v b) s = (Inr c', s')" "x = plain_transform c'"
    using assms(6) by (cases "chain_loop (builtin_registry objs r) self shared by_rule nms (new_context v b) s") (auto simp: apply_chain_def map_sum_def split: sum.splits)
  have "ctx_wf (new_context v b)" using assms(4) by (simp add: ctx_wf_def new_context_def)
  then have "ctx_wf c'" using chain_wf [OF assms(1-3) c'(1)] assms(5) by blast
  then show ?thesis using ctx_value_wf [of c'] trace_wf [of c'] by (simp add: c'(2) tr_value_def plain_transform_def ctx_wf_def)
qed

definition demo_chain :: "(transform_result result \<times> dict_state)" where
  "demo_chain = apply_chain (builtin_registry (\<lambda>_. None) (\<lambda>_. [])) VNone [''rename_field'', ''jsonpath_set''] []
     [(''rename_field'', [(''from_key'', VStr ''a''), (''to_key'', VStr ''b'')]), (''jsonpath_set'', [(''path'', VStr ''c.d''), (''value'', VInt 1)])]
     (VDict [(''a'', VInt 5)]) True (new_dict_state [] None)"

lemma demo_chain_value:
  "demo_chain = (Inr (plain_transform \<lparr>tc_original = VDict [(''a'', VInt 5)], tc_bound = True,
      tc_frames = [\<lparr>tf_rule = ''rename_field'', tf_value = VDict [(''b'', VInt 5)], tf_meta = [(''from'', VStr ''a''), (''to'', VStr ''b'')]\<rparr>,
        \<lparr>tf_rule = ''jsonpath_set'', tf_value = VDict [(''b'', VInt 5), (''c'', VDict [(''d'', VInt 1)])],
          tf_meta = [(''path'', VStr ''c.d''), (''set_value'', VInt 1)]\<rparr>]\<rparr>), new_dict_state [] None)"
  by code_simp

lemma chains_are_well_typed_witness: "\<exists>x s'. demo_chain = (Inr x, s') \<and> val_wf (tr_value x) \<and> val_wf (to_trace (tr_context x))"
proof -
  have "objs_wf (\<lambda>_. None)" by (simp add: objs_wf_def)
  moreover have "options_wf [] [(''rename_field'', [(''from_key'', VStr ''a''), (''to_key'', VStr ''b'')]), (''jsonpath_set'', [(''path'', VStr ''c.d''), (''value'', VInt 1)])]"
    by (auto simp: options_wf_def wf_meta split: if_splits)
  moreover have "val_wf (VDict [(''a'', VInt 5)])" "val_wf (VDict (st_data (new_dict_state [] None)))" by (simp_all add: wf_meta new_dict_state_def)
  ultimately show ?thesis
    using chains_are_well_typed [of "\<lambda>_. None" "[]" "[(''rename_field'', [(''from_key'', VStr ''a''), (''to_key'', VStr ''b'')]), (''jsonpath_set'', [(''path'', VStr ''c.d''), (''value'', VInt 1)])]"
        VNone "VDict [(''a'', VInt 5)]" "new_dict_state [] None" "\<lambda>_. []" "[''rename_field'', ''jsonpath_set'']" True,
        folded demo_chain_def, OF _ _ _ _ _ demo_chain_value] demo_chain_value by auto
qed

lemma chain_leaves_a_trail_witness:
  "\<exists>x. apply_chain (builtin_registry (\<lambda>_. None) (\<lambda>_. [])) VNone (take 1 [''rename_field'', ''jsonpath_set'']) []
     [(''rename_field'', [(''from_key'', VStr ''a''), (''to_key'', VStr ''b'')]), (''jsonpath_set'', [(''path'', VStr ''c.d''), (''value'', VInt 1)])]
     (VDict [(''a'', VInt 5)]) True (new_dict_state [] None) = (Inr x, new_dict_state [] None) \<and> tr_value x = VDict [(''b'', VInt 5)]"
  using chain_leaves_a_trail [of "\<lambda>_. None" "\<lambda>_. []" VNone "[''rename_field'', ''jsonpath_set'']" "[]"
      "[(''rename_field'', [(''from_key'', VStr ''a''), (''to_key'', VStr ''b'')]), (''jsonpath_set'', [(''path'', VStr ''c.d''), (''value'', VInt 1)])]"
      "VDict [(''a'', VInt 5)]" True "new_dict_state [] None", folded demo_chain_def, OF demo_chain_value]
  by (auto simp: plain_transform_def tr_value_def tc_value_def dest!: spec [of _ 1])

end
