(* ===== verification/TransformCounts.thy ===== *)
theory TransformCounts
  imports TransformProps
begin

text \<open>
  Counting and mapping fields: the groups of \<open>count_by\<close> are exact; a mapping that swaps two fields
  loses one; the mode \<open>AUTO\<close> has no effect.
\<close>

subsection \<open>Counts\<close>

definition occurrences :: "(pyval \<Rightarrow> string) \<Rightarrow> string \<Rightarrow> pyval list \<Rightarrow> string \<Rightarrow> nat" where
  "occurrences r f xs l = length (filter (\<lambda>x. case x of VDict d \<Rightarrow> group_label r f d = l | _ \<Rightarrow> False) xs)"

definition count_of :: "(string, nat) dict \<Rightarrow> string \<Rightarrow> nat" where
  "count_of cs l = (case dict_get cs l of Some n \<Rightarrow> n | None \<Rightarrow> 0)"

lemma count_of_item: "count_of (count_item r f x cs) l = count_of cs l + occurrences r f [x] l"
  by (cases x) (auto simp: count_item_def Let_def count_of_def occurrences_def)

lemma count_of_fold: "count_of (fold (count_item r f) xs cs) l = count_of cs l + occurrences r f xs l"
proof (induction xs arbitrary: cs)
  case (Cons x xs)
  have "occurrences r f (x # xs) l = occurrences r f [x] l + occurrences r f xs l" by (simp add: occurrences_def)
  then show ?case using Cons.IH [of "count_item r f x cs"] count_of_item [of r f x cs l] by simp
qed (simp add: occurrences_def)

lemma count_wf: "dict_wf cs \<Longrightarrow> 0 \<notin> snd ` set cs \<Longrightarrow> dict_wf (fold (count_item r f) xs cs) \<and> 0 \<notin> snd ` set (fold (count_item r f) xs cs)"
proof (induction xs arbitrary: cs)
  case (Cons x xs)
  have "dict_wf (count_item r f x cs) \<and> 0 \<notin> snd ` set (count_item r f x cs)"
  proof (cases x)
    case (VDict d)
    have sub: "p = (k, Suc n) \<or> p \<in> set cs" if "p \<in> set (dict_set k (Suc n) cs)" for p k n using that by (induction cs) (auto split: if_splits)
    show ?thesis using Cons.prems by (auto simp: VDict count_item_def Let_def dest!: sub)
  qed (use Cons.prems in \<open>simp_all add: count_item_def\<close>)
  then show ?case using Cons.IH by simp
qed simp

text \<open>
  C33. Counting by a field is exact: the result has one row for each label that occurs, with the number
  of mappings in the list that have it; anything that is not a mapping is passed over.
\<close>
theorem group_counts_are_exact:
  assumes "f \<noteq> []" "f \<noteq> ''count''"
  shows "\<exists>c cs. apply_transform (builtin_registry objs r) self ''count_by'' [(''field'', VStr f)] (VList xs) b s = (Inr (plain_transform c), s)
    \<and> tc_value c = VList (map (\<lambda>(l, n). VDict [(f, VStr l), (''count'', VInt (int n))]) cs)
    \<and> distinct (map fst cs) \<and> (\<forall>l n. (l, n) \<in> set cs \<longleftrightarrow> n = occurrences r f xs l \<and> n > 0)"
proof -
  define cs where "cs = fold (count_item r f) xs []"
  have wf: "dict_wf cs" "0 \<notin> snd ` set cs" using count_wf [of "[]" r f xs] by (simp_all add: cs_def)
  have cnt: "count_of cs l = occurrences r f xs l" for l using count_of_fold [of r f xs "[]" l] by (simp add: cs_def count_of_def)
  have "(l, n) \<in> set cs \<longleftrightarrow> n = occurrences r f xs l \<and> n > 0" for l n
  proof
    assume m: "(l, n) \<in> set cs"
    then have "n = count_of cs l" using wf(1) by (simp add: count_of_def dict_wf_def)
    moreover have "n \<noteq> 0" using m wf(2) by force
    ultimately show "n = occurrences r f xs l \<and> n > 0" using cnt by simp
  next
    assume "n = occurrences r f xs l \<and> n > 0"
    then have "dict_get cs l = Some n" using cnt [of l] by (auto simp: count_of_def split: option.splits)
    then show "(l, n) \<in> set cs" by (rule map_of_SomeD)
  qed
  moreover have "count_rows r f ''count'' xs = map (\<lambda>(l, n). VDict [(f, VStr l), (''count'', VInt (int n))]) cs"
    using assms(2) by (auto simp: count_rows_def cs_def)
  moreover have "\<exists>c. apply_transform (builtin_registry objs r) self ''count_by'' [(''field'', VStr f)] (VList xs) b s = (Inr (plain_transform c), s)
      \<and> tc_value c = VList (count_rows r f ''count'' xs)"
    using assms by (simp add: apply_transform_def resolve_def lookup_def builtin_registry_def builtin_rules_def count_by_def Let_def py_or_def
        apply_rule_def pure_rule_def new_context_def tc_value_def require_list_def is_list_def plain_transform_def advance_def call_keywords_ok)
  ultimately show ?thesis using wf(1) unfolding dict_wf_def by metis
qed

lemma group_counts_are_exact_witness:
  "\<exists>c cs. apply_transform (builtin_registry (\<lambda>_. None) (\<lambda>_. [])) VNone ''count_by'' [(''field'', VStr ''p'')]
      (VList [VDict [(''p'', VStr ''hi'')], VInt 3, VDict [], VDict [(''p'', VStr ''hi'')]]) False (new_dict_state [] None) = (Inr (plain_transform c), new_dict_state [] None)
    \<and> distinct (map fst cs) \<and> (''hi'', 2::nat) \<in> set cs"
proof -
  have "occurrences (\<lambda>_. []) ''p'' [VDict [(''p'', VStr ''hi'')], VInt 3, VDict [], VDict [(''p'', VStr ''hi'')]] ''hi'' = 2"
    by (simp add: occurrences_def group_label_def Let_def)
  moreover obtain c cs where run: "apply_transform (builtin_registry (\<lambda>_. None) (\<lambda>_. [])) VNone ''count_by'' [(''field'', VStr ''p'')]
      (VList [VDict [(''p'', VStr ''hi'')], VInt 3, VDict [], VDict [(''p'', VStr ''hi'')]]) False (new_dict_state [] None) = (Inr (plain_transform c), new_dict_state [] None)"
    "distinct (map fst cs)" and "\<forall>l n. (l, n) \<in> set cs \<longleftrightarrow> n = occurrences (\<lambda>_. []) ''p'' [VDict [(''p'', VStr ''hi'')], VInt 3, VDict [], VDict [(''p'', VStr ''hi'')]] l \<and> n > 0"
    using group_counts_are_exact [of "''p''" "\<lambda>_. None" "\<lambda>_. []" VNone "[VDict [(''p'', VStr ''hi'')], VInt 3, VDict [], VDict [(''p'', VStr ''hi'')]]" False "new_dict_state [] None"] by auto
  ultimately have "(''hi'', 2) \<in> set cs" by simp
  with run show ?thesis by blast
qed

subsection \<open>Swapping two fields\<close>

text \<open>
  A mapping of fields that swaps two of them loses one: the fields move one after the other, so
  the first overwrites the second before it moves, and then moves back. Without the unmapped fields
  the same mapping swaps them.
\<close>
theorem swapping_fields_loses_one:
  assumes "a \<noteq> b" "dict_has d a" "dict_has d b"
  shows "\<exists>c d'. apply_transform (builtin_registry objs r) self ''map_fields'' [(''mapping'', VDict [(a, VStr b), (b, VStr a)])] (VDict d) bd s
      = (Inr (plain_transform c), s) \<and> tc_value c = VDict d' \<and> py_get d' a = py_get d a \<and> \<not> dict_has d' b
    \<and> picked_fields r [(a, VStr b), (b, VStr a)] d = [(b, py_get d a), (a, py_get d b)]"
proof -
  have pop: "py_get (dict_pop k m) k' = (if k' = k then VNone else py_get m k')" for k k' and m :: pydict by (simp add: get_default_def)
  define d' where "d' = dict_set a (py_get d a) (dict_pop b (dict_set b (py_get d a) (dict_pop a d)))"
  have mv: "move_fields r [(a, VStr b), (b, VStr a)] d = Inr d'"
    using assms by (simp add: move_field_def dyn_has_def d'_def)
  have "\<exists>c. apply_transform (builtin_registry objs r) self ''map_fields'' [(''mapping'', VDict [(a, VStr b), (b, VStr a)])] (VDict d) bd s
      = (Inr (plain_transform c), s) \<and> tc_value c = VDict d'"
    by (simp add: apply_transform_def resolve_def lookup_def builtin_registry_def builtin_rules_def map_fields_def from_options_def bind_keywords_def
        rule_label_def py_dict_def Let_def apply_rule_def pure_rule_def new_context_def tc_value_def require_mapping_def mv plain_transform_def advance_def call_keywords_ok del: move_fields.simps)
  moreover have "py_get d' a = py_get d a" "\<not> dict_has d' b" using assms(1) by (simp_all add: d'_def)
  moreover have "picked_fields r [(a, VStr b), (b, VStr a)] d = [(b, py_get d a), (a, py_get d b)]" using assms by (simp add: picked_fields_def)
  ultimately show ?thesis by metis
qed

lemma swapping_fields_loses_one_witness:
  "\<exists>c d'. apply_transform (builtin_registry (\<lambda>_. None) (\<lambda>_. [])) VNone ''map_fields'' [(''mapping'', VDict [(''x'', VStr ''y''), (''y'', VStr ''x'')])]
      (VDict [(''x'', VInt 1), (''y'', VInt 2)]) False (new_dict_state [] None) = (Inr (plain_transform c), new_dict_state [] None)
     \<and> tc_value c = VDict d' \<and> py_get d' ''x'' = VInt 1 \<and> \<not> dict_has d' ''y''"
  using swapping_fields_loses_one [of "''x''" "''y''" "[(''x'', VInt 1), (''y'', VInt 2)]" "\<lambda>_. None" "\<lambda>_. []" VNone False "new_dict_state [] None"] by auto

text \<open>
  The option \<open>value\<close> of \<open>jsonpath_set\<close> cannot be given to a single rule on the state: the options are
  spread into the call of \<open>apply_auto\<close>, which has a parameter of that name, so whatever the rule, the
  state and the other options, a present source ends in a \<open>TypeError\<close> and nothing is written. In the
  options of a rule of a chain the same option works.
\<close>
theorem value_option_is_refused:
  assumes "dict_has options ''value''" "\<forall>k \<in> {''self'', ''name''}. \<not> dict_has options k"
    and "read_state_value src (so_scoped o') VNone s \<noteq> VNone"
  shows "apply_to_state r reg self nm src o' options s = (Inl (multiple_values ''TransformEngine.apply_auto'' ''value''), s)"
proof -
  have "\<forall>k \<in> {''self'', ''name''}. \<not> dict_has (dict_set ''_target_key'' v options) k" "dict_has (dict_set ''_target_key'' v options) ''value''" for v
    using assms(1,2) by simp_all
  then show ?thesis using assms(3) by (simp add: apply_to_state_def Let_def apply_auto_def call_keywords_def)
qed

lemma value_option_is_refused_witness:
  "apply_to_state (\<lambda>_. []) (builtin_registry (\<lambda>_. None) (\<lambda>_. [])) VNone ''jsonpath_set'' ''doc''
      \<lparr>so_target = None, so_scoped = False, so_validate = True, so_skip = False, so_trace = None\<rparr>
      [(''path'', VStr ''a''), (''value'', VInt 1)] (new_dict_state [(''doc'', VDict [])] None)
    = (Inl (multiple_values ''TransformEngine.apply_auto'' ''value''), new_dict_state [(''doc'', VDict [])] None)"
  by (rule value_option_is_refused) (simp_all add: read_state_value_def scope_current_def new_dict_state_def st_get_def)

end
