(* ===== verification/Resource.thy ===== *)
theory Resource
  imports PyConvert Schema Registry TransformRules
begin

text \<open>
  The resource engine (\<open>palm/core/resource\<close>): bounded caches with a time to live (\<open>cache.py\<close>), results
  (\<open>result.py\<close>), wait options and the binding of state placeholders (\<open>invocation.py\<close>), correlation
  fields (\<open>observability.py\<close>) and the engine that resolves, invokes and publishes (\<open>engine.py\<close>). Providers,
  resolvers and publishers are code outside: records of functions on a world of their own.
\<close>

subsection \<open>Caches\<close>

record cache_config =
  cc_definitions :: bool
  cc_results :: bool
  cc_ttl :: rat
  cc_max :: int
  cc_actions :: "string list"

definition default_cache_config :: cache_config where
  "default_cache_config = \<lparr>cc_definitions = True, cc_results = False, cc_ttl = 60, cc_max = 256, cc_actions = [''fetch'']\<rparr>"

record 'v ttl_cache =
  ch_max :: int
  ch_ttl :: rat
  ch_entries :: "(string, rat \<times> 'v) dict"

definition new_cache :: "int \<Rightarrow> rat \<Rightarrow> 'v ttl_cache" where
  "new_cache max_entries ttl = \<lparr>ch_max = max 1 max_entries, ch_ttl = max 0 ttl, ch_entries = []\<rparr>"

definition cache_get :: "rat \<Rightarrow> string \<Rightarrow> 'v ttl_cache \<Rightarrow> 'v option \<times> 'v ttl_cache" where
  "cache_get now k c = (case dict_get (ch_entries c) k of
     None \<Rightarrow> (None, c)
   | Some (expires, v) \<Rightarrow> if now > expires then (None, c\<lparr>ch_entries := dict_pop k (ch_entries c)\<rparr>) else (Some v, c))"

text \<open>The first entry with the least expiry.\<close>

fun oldest_key :: "(string, rat \<times> 'v) dict \<Rightarrow> string option" where
  "oldest_key [] = None"
| "oldest_key ((k, (x, v)) # es) = (case oldest_key es of
     None \<Rightarrow> Some k
   | Some k' \<Rightarrow> (case dict_get es k' of Some (x', v') \<Rightarrow> if x' < x then Some k' else Some k | None \<Rightarrow> Some k))"

definition evict_oldest :: "'v ttl_cache \<Rightarrow> 'v ttl_cache" where
  "evict_oldest c = (case oldest_key (ch_entries c) of None \<Rightarrow> c | Some k \<Rightarrow> c\<lparr>ch_entries := dict_pop k (ch_entries c)\<rparr>)"

definition cache_set :: "rat \<Rightarrow> string \<Rightarrow> 'v \<Rightarrow> 'v ttl_cache \<Rightarrow> 'v ttl_cache" where
  "cache_set now k v c =
     (let c1 = (if int (length (ch_entries c)) \<ge> ch_max c then evict_oldest c else c)
      in c1\<lparr>ch_entries := dict_set k (now + ch_ttl c1, v) (ch_entries c1)\<rparr>)"

definition cache_clear :: "'v ttl_cache \<Rightarrow> 'v ttl_cache" where
  "cache_clear c = c\<lparr>ch_entries := []\<rparr>"

definition definition_cache_key :: "string \<Rightarrow> string" where
  "definition_cache_key ref = ''def:'' @ ref"

text \<open>The JSON text of the key is that of the standard library, an argument.\<close>

definition result_cache_key :: "(pydict \<Rightarrow> string) \<Rightarrow> string \<Rightarrow> string \<Rightarrow> string option \<Rightarrow> string option \<Rightarrow> pydict \<Rightarrow> string" where
  "result_cache_key dumps provider action ref rid params = ''result:'' @ dumps
     [(''provider'', VStr provider), (''action'', VStr action), (''resource_ref'', opt_str_val ref), (''resource_id'', opt_str_val rid),
      (''params'', VDict params)]"

subsection \<open>Results\<close>

record provider_result =
  pr_success :: bool
  pr_data :: pyval
  pr_error :: "string option"
  pr_metadata :: pydict

definition provider_ok :: "pyval \<Rightarrow> pydict \<Rightarrow> provider_result result" where
  "provider_ok data md = attempt (call_keywords ''ProviderResult.ok'' [''cls'', ''data''] md) (\<lambda>_.
     Inr \<lparr>pr_success = True, pr_data = data, pr_error = None, pr_metadata = md\<rparr>)"

definition provider_fail :: "string \<Rightarrow> pydict \<Rightarrow> provider_result result" where
  "provider_fail error md = attempt (call_keywords ''ProviderResult.fail'' [''cls'', ''error''] md) (\<lambda>_.
     Inr \<lparr>pr_success = False, pr_data = VNone, pr_error = Some error, pr_metadata = md\<rparr>)"

subsection \<open>Wait options\<close>

datatype wait_mode = UNTIL_TERMINAL | UNTIL_INPUT | FIRE_AND_FORGET

record resource_wait_options =
  rw_mode :: wait_mode
  rw_timeout :: rat

definition as_bool :: "pyval \<Rightarrow> bool" where
  "as_bool v = (case v of VBool b \<Rightarrow> b | VStr s \<Rightarrow> py_lower (py_strip s) \<in> {''1'', ''true'', ''yes'', ''on''} | _ \<Rightarrow> truthy v)"

definition as_float :: "pyval \<Rightarrow> rat \<Rightarrow> rat" where
  "as_float v d = (case py_float v of Inr q \<Rightarrow> q | Inl _ \<Rightarrow> d)"

definition parse_wait_mode :: "(pyval \<Rightarrow> string) \<Rightarrow> pyval \<Rightarrow> wait_mode option" where
  "parse_wait_mode r v = (if v = VNone then None
     else let t = map (\<lambda>c. if c = CHR 0x2D then CHR 0x5F else c) (py_lower (py_strip (py_str r v))) in
       if t = ''until_terminal'' then Some UNTIL_TERMINAL
       else if t = ''until_input'' then Some UNTIL_INPUT
       else if t = ''fire_and_forget'' then Some FIRE_AND_FORGET else None)"

definition wait_options :: "(pyval \<Rightarrow> string) \<Rightarrow> pydict \<Rightarrow> resource_wait_options" where
  "wait_options r params =
     \<lparr>rw_mode = (case parse_wait_mode r (py_get params ''wait_mode'') of
          Some m \<Rightarrow> m | None \<Rightarrow> if as_bool (get_default params ''wait'' (VBool False)) then UNTIL_TERMINAL else FIRE_AND_FORGET),
      rw_timeout = as_float (get_default params ''timeout_seconds'' (py_get params ''wait_timeout'')) 30\<rparr>"

definition should_wait :: "resource_wait_options \<Rightarrow> bool" where
  "should_wait w = (rw_mode w \<noteq> FIRE_AND_FORGET)"

subsection \<open>State placeholders\<close>

record resolved_spec =
  rs_definition_id :: string
  rs_name :: string
  rs_provider :: string
  rs_action :: string
  rs_resource_id :: "string option"
  rs_params :: pydict
  rs_output_key :: "string option"

text \<open>
  A placeholder is two opening braces, blanks, \<open>state.\<close>, a path of letters, digits and \<open>_.-\<close>, blanks and
  two closing braces. No character can belong to two of these parts, so the match is deterministic.
\<close>

definition path_char :: "char \<Rightarrow> bool" where
  "path_char c = (let n = of_char c :: nat in (48 \<le> n \<and> n \<le> 57) \<or> (65 \<le> n \<and> n \<le> 90) \<or> (97 \<le> n \<and> n \<le> 122) \<or> c \<in> set ''_.-'')"

definition strip_prefix :: "string \<Rightarrow> string \<Rightarrow> string option" where
  "strip_prefix p s = (if prefix p s then Some (drop (length p) s) else None)"

definition match_placeholder :: "string \<Rightarrow> (string \<times> string) option" where
  "match_placeholder s = (case strip_prefix ''{{'' s of None \<Rightarrow> None | Some s1 \<Rightarrow>
     (case strip_prefix ''state.'' (dropWhile is_space s1) of None \<Rightarrow> None | Some s2 \<Rightarrow>
       let path = takeWhile path_char s2 in
       if path = [] then None
       else (case strip_prefix ''}}'' (dropWhile is_space (dropWhile path_char s2)) of None \<Rightarrow> None | Some rest \<Rightarrow> Some (path, rest))))"

definition full_placeholder :: "string \<Rightarrow> string option" where
  "full_placeholder s = (case match_placeholder s of Some (path, []) \<Rightarrow> Some path | _ \<Rightarrow> None)"

lemma strip_prefix_length: "strip_prefix p s = Some t \<Longrightarrow> length s = length p + length t"
  by (auto simp: strip_prefix_def prefix_def split: if_splits)

lemma match_shorter: "match_placeholder s = Some (path, rest) \<Longrightarrow> length rest < length s"
proof -
  assume "match_placeholder s = Some (path, rest)"
  then obtain s1 s2 where "strip_prefix ''{{'' s = Some s1" "strip_prefix ''state.'' (dropWhile is_space s1) = Some s2"
    "strip_prefix ''}}'' (dropWhile is_space (dropWhile path_char s2)) = Some rest"
    by (auto simp: match_placeholder_def Let_def split: option.splits if_splits)
  note strip_prefix_length [OF this(1)] strip_prefix_length [OF this(2)] strip_prefix_length [OF this(3)]
  moreover have "length (dropWhile is_space s1) \<le> length s1" "length (dropWhile is_space (dropWhile path_char s2)) \<le> length (dropWhile path_char s2)"
    "length (dropWhile path_char s2) \<le> length s2" by (rule length_dropWhile_le)+
  ultimately show "length rest < length s" by simp
qed

fun has_placeholder :: "string \<Rightarrow> bool" where
  "has_placeholder [] = False"
| "has_placeholder (c # cs) = (match_placeholder (c # cs) \<noteq> None \<or> has_placeholder cs)"

text \<open>Substitution goes on behind each match.\<close>

function bind_template :: "(string \<Rightarrow> string) \<Rightarrow> string \<Rightarrow> string" where
  "bind_template f [] = []"
| "bind_template f (c # cs) = (case match_placeholder (c # cs) of
     Some (path, rest) \<Rightarrow> f path @ bind_template f rest
   | None \<Rightarrow> c # bind_template f cs)"
  by pat_completeness auto

termination bind_template
  by (relation "measure (length \<circ> snd)") (auto dest: match_shorter)

text \<open>Objects other than dictionaries have no \<open>get\<close> in this model.\<close>

fun walk_state :: "pyval \<Rightarrow> string list \<Rightarrow> pyval" where
  "walk_state v [] = v"
| "walk_state v (p # ps) = (case v of VDict d \<Rightarrow> walk_state (py_get d p) ps | _ \<Rightarrow> VNone)"

definition resolve_state_path :: "pydict \<Rightarrow> string \<Rightarrow> pyval" where
  "resolve_state_path state path = walk_state (VDict state) (split_dots path)"

definition placeholder_text :: "(pyval \<Rightarrow> string) \<Rightarrow> pydict \<Rightarrow> string \<Rightarrow> string" where
  "placeholder_text r state path = (let v = resolve_state_path state path in if v = VNone then [] else py_str r v)"

definition bind_text :: "(pyval \<Rightarrow> string) \<Rightarrow> pydict \<Rightarrow> string \<Rightarrow> pyval" where
  "bind_text r state s = (case full_placeholder (py_strip s) of
     Some path \<Rightarrow> resolve_state_path state path
   | None \<Rightarrow> if has_placeholder s then VStr (bind_template (placeholder_text r state) s) else VStr s)"

fun bind_value :: "(pyval \<Rightarrow> string) \<Rightarrow> pydict \<Rightarrow> pyval \<Rightarrow> pyval" where
  "bind_value r state (VStr s) = bind_text r state s"
| "bind_value r state (VDict d) = VDict (map (\<lambda>(k, v). (k, bind_value r state v)) d)"
| "bind_value r state (VList xs) = VList (map (bind_value r state) xs)"
| "bind_value r state v = v"

definition bind_resource_value :: "(pyval \<Rightarrow> string) \<Rightarrow> pydict option \<Rightarrow> pyval \<Rightarrow> pyval" where
  "bind_resource_value r state v = (case state of None \<Rightarrow> v | Some d \<Rightarrow> bind_value r d v)"

definition bind_resource_params :: "(pyval \<Rightarrow> string) \<Rightarrow> pydict option \<Rightarrow> pydict \<Rightarrow> pydict" where
  "bind_resource_params r state params = map (\<lambda>(k, v). (k, bind_resource_value r state v)) params"

text \<open>\<open>text.replace(old, new)\<close> for a text \<open>old\<close> that is not empty.\<close>

function replace_all :: "string \<Rightarrow> string \<Rightarrow> string \<Rightarrow> string" where
  "replace_all old new [] = []"
| "replace_all old new (c # cs) = (if old \<noteq> [] \<and> prefix old (c # cs) then new @ replace_all old new (drop (length old) (c # cs))
     else c # replace_all old new cs)"
  by pat_completeness auto

termination replace_all
  by (relation "measure (\<lambda>(_, _, s). length s)") (auto simp: diff_less_Suc)

definition bind_resource_id :: "(pyval \<Rightarrow> string) \<Rightarrow> pydict option \<Rightarrow> pydict \<Rightarrow> string option \<Rightarrow> string option" where
  "bind_resource_id r state params rid = map_option (\<lambda>s.
     fold (\<lambda>(k, v) t. if v = VNone then t else replace_all (''{'' @ k @ ''}'') (py_str r v) t) params
       (py_str r (bind_resource_value r state (VStr s)))) rid"

subsection \<open>Correlation\<close>

definition EXECUTION_STATE_KEY :: string where
  "EXECUTION_STATE_KEY = ''__palm.execution''"

definition execution_block :: "pydict option \<Rightarrow> pydict" where
  "execution_block state = (case state of None \<Rightarrow> []
     | Some d \<Rightarrow> (case py_get d EXECUTION_STATE_KEY of VDict e \<Rightarrow> e | _ \<Rightarrow> []))"

definition correlation_fields :: "string list" where
  "correlation_fields = [''job_id'', ''instance_id'', ''trace_id'', ''flow'', ''wizard'']"

definition set_some :: "string \<Rightarrow> string option \<Rightarrow> pydict \<Rightarrow> pydict" where
  "set_some k v d = (case v of None \<Rightarrow> d | Some t \<Rightarrow> dict_set k (VStr t) d)"

definition resource_correlation :: "pydict option \<Rightarrow> string option \<Rightarrow> string option \<Rightarrow> pydict \<Rightarrow> pydict" where
  "resource_correlation state wizard step_slug extra =
     dict_update (set_some ''step_slug'' step_slug (set_some ''wizard'' wizard
       (map (\<lambda>k. (k, py_get (execution_block state) k)) (filter (\<lambda>k. py_get (execution_block state) k \<noteq> VNone) correlation_fields)))) extra"

end
