(* ===== verification/ResourceEngine.thy ===== *)
theory ResourceEngine
  imports Resource
begin

text \<open>
  The resource engine of \<open>palm/core/resource/engine.py\<close>. Providers, the definition resolver and the
  publisher act on a world of their own, which also has the clock; the calls of the publisher are
  logged in the engine. Raising and the state are explicit: an effect maps the engine to a result and
  the engine after it.
\<close>

subsection \<open>State\<close>

record 'w provider_ops =
  pv_bind_storage :: "nat \<Rightarrow> 'w \<Rightarrow> unit result \<times> 'w"
  pv_connect :: "'w \<Rightarrow> unit result \<times> 'w"
  pv_invoke :: "string \<Rightarrow> pydict \<Rightarrow> string option \<Rightarrow> pydict option \<Rightarrow> pydict \<Rightarrow> 'w \<Rightarrow> provider_result result \<times> 'w"
  pv_disconnect :: "'w \<Rightarrow> unit result \<times> 'w"

type_synonym 'w provider_class = "string \<Rightarrow> 'w \<Rightarrow> 'w provider_ops result \<times> 'w"

record 'w resource_engine =
  re_initialized :: bool
  re_active :: "(string, 'w provider_ops) dict"
  re_resolver :: "(string \<Rightarrow> 'w \<Rightarrow> resolved_spec result \<times> 'w) option"
  re_publisher :: "(string \<Rightarrow> pydict \<Rightarrow> 'w \<Rightarrow> unit result \<times> 'w) option"
  re_config :: cache_config
  re_definitions :: "resolved_spec ttl_cache option"
  re_results :: "provider_result ttl_cache option"
  re_providers :: "'w provider_class registry option"
  re_storage :: "nat option"
  re_world :: 'w
  re_log :: "(string \<times> pydict) list"

type_synonym ('a, 'w) res_eff = "'w resource_engine \<Rightarrow> 'a result \<times> 'w resource_engine"

definition new_resource_engine :: "'w \<Rightarrow> 'w resource_engine" where
  "new_resource_engine w = \<lparr>re_initialized = False, re_active = [], re_resolver = None, re_publisher = None,
     re_config = default_cache_config, re_definitions = None, re_results = None, re_providers = None, re_storage = None,
     re_world = w, re_log = []\<rparr>"

definition eff_bind :: "('a, 'w) res_eff \<Rightarrow> ('a \<Rightarrow> ('b, 'w) res_eff) \<Rightarrow> ('b, 'w) res_eff" where
  "eff_bind m f e = (case m e of (Inl x, e1) \<Rightarrow> (Inl x, e1) | (Inr a, e1) \<Rightarrow> f a e1)"

definition on_world :: "('w \<Rightarrow> 'a result \<times> 'w) \<Rightarrow> ('a, 'w) res_eff" where
  "on_world f e = (case f (re_world e) of (x, w) \<Rightarrow> (x, e\<lparr>re_world := w\<rparr>))"

text \<open>What the engine takes from the standard library: the texts of values, JSON, the monotonic clock.\<close>

record 'w res_env =
  en_repr :: "pyval \<Rightarrow> string"
  en_dumps :: "pydict \<Rightarrow> string"
  en_clock :: "'w \<Rightarrow> rat"

definition re_now :: "'w res_env \<Rightarrow> 'w resource_engine \<Rightarrow> rat" where
  "re_now env e = en_clock env (re_world e)"

subsection \<open>Providers\<close>

definition re_bind_registry :: "'w provider_class registry \<Rightarrow> 'w resource_engine \<Rightarrow> 'w resource_engine" where
  "re_bind_registry reg e = e\<lparr>re_providers := Some reg\<rparr>"

fun bind_all :: "nat \<Rightarrow> 'w provider_ops list \<Rightarrow> (unit, 'w) res_eff" where
  "bind_all st [] e = (Inr (), e)"
| "bind_all st (p # ps) e = eff_bind (on_world (pv_bind_storage p st)) (\<lambda>_. bind_all st ps) e"

definition re_bind_storage :: "nat \<Rightarrow> (unit, 'w) res_eff" where
  "re_bind_storage st e = bind_all st (map snd (re_active e)) (e\<lparr>re_storage := Some st\<rparr>)"

definition use_provider :: "string \<Rightarrow> ('w provider_ops, 'w) res_eff" where
  "use_provider nm e = (case re_providers e of
     None \<Rightarrow> (Inl (Exc RegistryError ''resource engine has no provider registry''), e)
   | Some reg \<Rightarrow> (case dict_get (re_active e) nm of
       Some p \<Rightarrow> (Inr p, e)
     | None \<Rightarrow> (case lookup reg nm of
         Inl x \<Rightarrow> (Inl x, e)
       | Inr cls \<Rightarrow> eff_bind (on_world (cls nm)) (\<lambda>p.
           eff_bind (case re_storage e of Some st \<Rightarrow> on_world (pv_bind_storage p st) | None \<Rightarrow> Pair (Inr ())) (\<lambda>_.
           eff_bind (on_world (pv_connect p)) (\<lambda>_ e1. (Inr p, e1\<lparr>re_active := dict_set nm p (re_active e1)\<rparr>)))) e)))"

subsection \<open>Events\<close>

text \<open>
  \<open>self._emit(event_type, **a, **b)\<close>: a keyword that is given twice, or that names a parameter of
  \<open>_emit\<close>, is a \<open>TypeError\<close> of the call, whether there is a publisher or not.
\<close>

definition repeated_key :: "string list \<Rightarrow> string option" where
  "repeated_key ks = (if distinct ks then None else find (\<lambda>k. 1 < count_list ks k) ks)"

definition emit_keywords :: "pydict list \<Rightarrow> pydict result" where
  "emit_keywords groups = (let kw = concat groups in
     case repeated_key ([''self'', ''event_type''] @ map fst kw) of
       Some k \<Rightarrow> Inl (multiple_values ''ResourceEngine._emit'' k) | None \<Rightarrow> Inr kw)"

definition re_emit :: "string \<Rightarrow> pydict list \<Rightarrow> (unit, 'w) res_eff" where
  "re_emit t groups e = (case emit_keywords groups of
     Inl x \<Rightarrow> (Inl x, e)
   | Inr payload \<Rightarrow> (case re_publisher e of
       None \<Rightarrow> (Inr (), e)
     | Some pub \<Rightarrow> on_world (pub t payload) (e\<lparr>re_log := re_log e @ [(t, payload)]\<rparr>)))"

definition correlation_payload :: "provider_result \<Rightarrow> pydict" where
  "correlation_payload res =
     filter (\<lambda>(k, _). dict_has (pr_metadata res) k) (map (\<lambda>k. (k, py_get (pr_metadata res) k)) [''invoke_depth'', ''parent_job_id'', ''mode''])
     @ (case pr_data res of
          VDict d \<Rightarrow> if py_get d ''invoke_chain'' = VNone then [] else [(''invoke_chain'', py_get d ''invoke_chain'')]
        | _ \<Rightarrow> [])"

subsection \<open>Caches of the engine\<close>

definition resolve_definition :: "'w res_env \<Rightarrow> (string \<Rightarrow> 'w \<Rightarrow> resolved_spec result \<times> 'w) \<Rightarrow> string \<Rightarrow> (resolved_spec, 'w) res_eff" where
  "resolve_definition env resolver ref e = (case re_definitions e of
     None \<Rightarrow> on_world (resolver ref) e
   | Some c \<Rightarrow> (case cache_get (re_now env e) (definition_cache_key ref) c of
       (Some sp, c1) \<Rightarrow> (Inr sp, e\<lparr>re_definitions := Some c1\<rparr>)
     | (None, c1) \<Rightarrow> eff_bind (on_world (resolver ref)) (\<lambda>sp e1.
         (Inr sp, e1\<lparr>re_definitions := Some (cache_set (re_now env e1) (definition_cache_key ref) sp c1)\<rparr>)) (e\<lparr>re_definitions := Some c1\<rparr>)))"

definition cached_result :: "'w res_env \<Rightarrow> string \<Rightarrow> string \<Rightarrow> 'w resource_engine \<Rightarrow> provider_result option \<times> 'w resource_engine" where
  "cached_result env action key e = (case re_results e of
     None \<Rightarrow> (None, e)
   | Some c \<Rightarrow> if action \<notin> set (cc_actions (re_config e)) then (None, e)
       else (case cache_get (re_now env e) key c of (x, c1) \<Rightarrow> (x, e\<lparr>re_results := Some c1\<rparr>)))"

definition store_result :: "'w res_env \<Rightarrow> string \<Rightarrow> string \<Rightarrow> provider_result \<Rightarrow> 'w resource_engine \<Rightarrow> 'w resource_engine" where
  "store_result env action key res e = (case re_results e of
     None \<Rightarrow> e
   | Some c \<Rightarrow> if action \<notin> set (cc_actions (re_config e)) then e
       else e\<lparr>re_results := Some (cache_set (re_now env e) key res c)\<rparr>)"

definition clear_caches :: "'w resource_engine \<Rightarrow> 'w resource_engine" where
  "clear_caches e = e\<lparr>re_definitions := map_option cache_clear (re_definitions e), re_results := map_option cache_clear (re_results e)\<rparr>"

subsection \<open>Invocation\<close>

record invocation =
  iv_ref :: "string option"
  iv_provider :: "string option"
  iv_action :: "string option"
  iv_params :: pydict
  iv_state :: "pydict option"
  iv_resource_id :: "string option"
  iv_correlation :: pydict
  iv_kwargs :: pydict

text \<open>What is left to do once provider, action, parameters and definition are known.\<close>

record call_spec =
  cs_provider :: string
  cs_action :: string
  cs_params :: pydict
  cs_resource_id :: "string option"
  cs_definition_id :: "string option"
  cs_definition_name :: "string option"

definition first_text :: "string option \<Rightarrow> string option \<Rightarrow> string option" where
  "first_text a b = (case a of Some (c # cs) \<Rightarrow> a | _ \<Rightarrow> b)"

text \<open>A refused invocation publishes the failure and returns it.\<close>

definition refuse :: "string \<Rightarrow> pydict \<Rightarrow> pydict \<Rightarrow> (provider_result, 'w) res_eff" where
  "refuse msg payload md e = (case provider_fail msg md of
     Inl x \<Rightarrow> (Inl x, e)
   | Inr res \<Rightarrow> eff_bind (re_emit ''resource.failed'' [payload]) (\<lambda>_. Pair (Inr res)) e)"

definition required_text :: string where
  "required_text = ''provider or resource_ref is required''"

definition direct_call :: "invocation \<Rightarrow> string option \<Rightarrow> (provider_result, 'w) res_eff + call_spec" where
  "direct_call iv ref = (case iv_provider iv of
     Some (c # cs) \<Rightarrow> Inr \<lparr>cs_provider = c # cs, cs_action = (case first_text (iv_action iv) (Some ''fetch'') of Some a \<Rightarrow> a | None \<Rightarrow> []),
       cs_params = iv_params iv, cs_resource_id = iv_resource_id iv, cs_definition_id = None, cs_definition_name = None\<rparr>
   | _ \<Rightarrow> Inl (refuse required_text [(''error'', VStr required_text), (''resource_ref'', opt_str_val ref)] []))"

definition defined_call :: "invocation \<Rightarrow> string \<Rightarrow> resolved_spec \<Rightarrow> (provider_result, 'w) res_eff + call_spec" where
  "defined_call iv ref sp =
     (if rs_provider sp = [] then Inl (refuse required_text [(''error'', VStr required_text), (''resource_ref'', VStr ref)] [])
      else Inr \<lparr>cs_provider = rs_provider sp, cs_action = (case first_text (iv_action iv) (Some (rs_action sp)) of Some a \<Rightarrow> a | None \<Rightarrow> []),
        cs_params = dict_update (rs_params sp) (iv_params iv), cs_resource_id = first_text (iv_resource_id iv) (rs_resource_id sp),
        cs_definition_id = Some (rs_definition_id sp), cs_definition_name = Some (rs_name sp)\<rparr>)"

definition event_base :: "invocation \<Rightarrow> call_spec \<Rightarrow> pydict" where
  "event_base iv cs = dict_update
     [(''provider'', VStr (cs_provider cs)), (''action'', VStr (cs_action cs)), (''resource_ref'', opt_str_val (iv_ref iv)),
      (''definition_id'', opt_str_val (cs_definition_id cs)), (''definition_name'', opt_str_val (cs_definition_name cs)),
      (''resource_id'', opt_str_val (cs_resource_id cs)), (''params'', VDict (cs_params cs)),
      (''mutating'', VBool (cs_action cs \<notin> {''fetch'', ''health'', ''describe''}))]
     (filter (\<lambda>(_, v). v \<noteq> VNone) (iv_correlation iv))"

definition result_metadata :: "invocation \<Rightarrow> call_spec \<Rightarrow> pydict \<Rightarrow> pydict" where
  "result_metadata iv cs md = dict_update md
     [(''provider'', VStr (cs_provider cs)), (''action'', VStr (cs_action cs)), (''resource_ref'', opt_str_val (iv_ref iv)),
      (''definition_id'', opt_str_val (cs_definition_id cs)), (''definition_name'', opt_str_val (cs_definition_name cs)),
      (''resource_id'', opt_str_val (cs_resource_id cs))]"

definition conclude :: "'w res_env \<Rightarrow> invocation \<Rightarrow> call_spec \<Rightarrow> string \<Rightarrow> provider_result \<Rightarrow> (provider_result, 'w) res_eff" where
  "conclude env iv cs key res e =
     (if pr_success res
      then (case provider_ok (pr_data res) (result_metadata iv cs (pr_metadata res)) of
          Inl x \<Rightarrow> (Inl x, e)
        | Inr final \<Rightarrow> eff_bind (re_emit ''resource.completed'' [event_base iv cs, correlation_payload res]) (\<lambda>_. Pair (Inr final))
            (store_result env (cs_action cs) key final e))
      else eff_bind (re_emit ''resource.failed'' [[(''error'', opt_str_val (pr_error res))], event_base iv cs, correlation_payload res]) (\<lambda>_.
        Pair (provider_fail (case first_text (pr_error res) (Some ''invoke failed'') of Some t \<Rightarrow> t | None \<Rightarrow> []) (result_metadata iv cs (pr_metadata res)))) e)"

definition call_provider :: "invocation \<Rightarrow> call_spec \<Rightarrow> (provider_result, 'w) res_eff" where
  "call_provider iv cs = eff_bind (use_provider (cs_provider cs)) (\<lambda>p.
     on_world (pv_invoke p (cs_action cs) (cs_params cs) (cs_resource_id cs) (iv_state iv) (iv_kwargs iv)))"

text \<open>The parameters are bound before anything else sees them.\<close>

definition bound_call :: "'w res_env \<Rightarrow> invocation \<Rightarrow> call_spec \<Rightarrow> call_spec" where
  "bound_call env iv cs = (let ps = bind_resource_params (en_repr env) (iv_state iv) (cs_params cs) in
     cs\<lparr>cs_params := ps, cs_resource_id := bind_resource_id (en_repr env) (iv_state iv) ps (cs_resource_id cs)\<rparr>)"

definition call_key :: "'w res_env \<Rightarrow> invocation \<Rightarrow> call_spec \<Rightarrow> string" where
  "call_key env iv cs = result_cache_key (en_dumps env) (cs_provider cs) (cs_action cs) (iv_ref iv) (cs_resource_id cs) (cs_params cs)"

definition perform :: "'w res_env \<Rightarrow> invocation \<Rightarrow> call_spec \<Rightarrow> (provider_result, 'w) res_eff" where
  "perform env iv cs e =
     (case cached_result env (cs_action cs) (call_key env iv cs) e of
        (Some res, e1) \<Rightarrow> (Inr res, e1)
      | (None, e1) \<Rightarrow> eff_bind (re_emit ''resource.invoked'' [event_base iv cs]) (\<lambda>_ e2.
          case call_provider iv cs e2 of
            (Inl x, e3) \<Rightarrow> eff_bind (re_emit ''resource.failed'' [[(''error'', VStr (exc_msg x))], event_base iv cs]) (\<lambda>_.
              Pair (provider_fail (exc_msg x) [(''provider'', VStr (cs_provider cs)), (''action'', VStr (cs_action cs))])) e3
          | (Inr res, e3) \<Rightarrow> conclude env iv cs (call_key env iv cs) res e3) e1)"

definition re_invoke :: "'w res_env \<Rightarrow> invocation \<Rightarrow> (provider_result, 'w) res_eff" where
  "re_invoke env iv e =
     (let go = (\<lambda>c. case c of Inl refused \<Rightarrow> refused | Inr cs \<Rightarrow> perform env iv (bound_call env iv cs)) in
      if \<not> re_initialized e then (provider_fail ''ResourceEngine is not initialized'' [], e)
      else case iv_ref iv of
        None \<Rightarrow> go (direct_call iv None) e
      | Some ref \<Rightarrow> (case re_resolver e of
          None \<Rightarrow> refuse ''Definition resolver is not configured''
            [(''resource_ref'', VStr ref), (''error'', VStr ''Definition resolver is not configured'')] [(''resource_ref'', VStr ref)] e
        | Some resolver \<Rightarrow> (case resolve_definition env resolver ref e of
            (Inl x, e1) \<Rightarrow> refuse (exc_msg x) [(''resource_ref'', VStr ref), (''error'', VStr (exc_msg x))] [(''resource_ref'', VStr ref)] e1
          | (Inr sp, e1) \<Rightarrow> go (defined_call iv ref sp) e1)))"

subsection \<open>Life cycle\<close>

record 'w resource_options =
  io_resolver :: "(string \<Rightarrow> 'w \<Rightarrow> resolved_spec result \<times> 'w) option"
  io_publisher :: "(string \<Rightarrow> pydict \<Rightarrow> 'w \<Rightarrow> unit result \<times> 'w) option"
  io_emit :: "(string \<Rightarrow> pydict \<Rightarrow> 'w \<Rightarrow> unit result \<times> 'w) option"
  io_cache :: "cache_config option"

text \<open>A publisher that is not given is the \<open>emit\<close> of the event engine, if there is one.\<close>

definition re_initialize :: "'w resource_options \<Rightarrow> 'w resource_engine \<Rightarrow> 'w resource_engine" where
  "re_initialize o' e =
     (if re_initialized e then e
      else let cfg = (case io_cache o' of Some c \<Rightarrow> c | None \<Rightarrow> re_config e) in
        e\<lparr>re_resolver := (if io_resolver o' \<noteq> None then io_resolver o' else re_resolver e),
          re_publisher := (if io_publisher o' \<noteq> None then io_publisher o' else if io_emit o' \<noteq> None then io_emit o' else re_publisher e),
          re_config := cfg,
          re_definitions := (if cc_definitions cfg then Some (new_cache (cc_max cfg) (cc_ttl cfg)) else re_definitions e),
          re_results := (if cc_results cfg then Some (new_cache (cc_max cfg) (cc_ttl cfg)) else re_results e),
          re_initialized := True\<rparr>)"

fun disconnect_all :: "'w provider_ops list \<Rightarrow> (unit, 'w) res_eff" where
  "disconnect_all [] e = (Inr (), e)"
| "disconnect_all (p # ps) e = eff_bind (on_world (pv_disconnect p)) (\<lambda>_. disconnect_all ps) e"

definition re_shutdown :: "(unit, 'w) res_eff" where
  "re_shutdown e =
     (if \<not> re_initialized e then (Inr (), e)
      else eff_bind (disconnect_all (map snd (re_active e))) (\<lambda>_ e1. (Inr (),
        e1\<lparr>re_active := [], re_resolver := None, re_publisher := None, re_definitions := None, re_results := None, re_initialized := False\<rparr>)) e)"

subsection \<open>The default \<open>invoke\<close> of a provider\<close>

text \<open>\<open>BaseProvider.invoke\<close> (\<open>base_provider.py\<close>) over the \<open>fetch\<close> of the provider.\<close>

definition base_invoke :: "(pyval \<Rightarrow> string) \<Rightarrow> string \<Rightarrow> (string \<Rightarrow> pydict \<Rightarrow> 'w \<Rightarrow> pyval result \<times> 'w)
    \<Rightarrow> string \<Rightarrow> pydict \<Rightarrow> string option \<Rightarrow> pydict \<Rightarrow> 'w \<Rightarrow> provider_result result \<times> 'w" where
  "base_invoke r nm fetch action params rid kwargs w =
     (let bound = (case rid of Some s \<Rightarrow> dict_setdefault ''resource_id'' (VStr s) params | None \<Rightarrow> params) in
      if action = ''fetch''
      then (let target = py_str r (get_default bound ''resource_id'' (VStr (case rid of Some s \<Rightarrow> s | None \<Rightarrow> [])));
                args = dict_pop ''resource_id'' bound @ kwargs;
                md = [(''action'', VStr action), (''provider'', VStr nm), (''resource_id'', VStr target)];
                failed = (\<lambda>x. provider_fail (exc_msg x) md)
            in case repeated_key ([''self'', ''resource_id''] @ map fst args) of
                 Some k \<Rightarrow> (failed (multiple_values ''fetch'' k), w)
               | None \<Rightarrow> (case fetch target args w of
                   (Inl x, w1) \<Rightarrow> (failed x, w1)
                 | (Inr data, w1) \<Rightarrow> (provider_ok data md, w1)))
      else (provider_fail (''Unsupported action '' @ quoted action) [(''action'', VStr action), (''provider'', VStr nm)], w))"

end
