(* ===== verification/ResourceProps.thy ===== *)
theory ResourceProps
  imports ResourceEngine TransformTypes
begin

text \<open>
  The caches of the resource engine against a history of what was stored, and what an invocation
  publishes and returns.
\<close>

subsection \<open>A cache and its history\<close>

datatype 'v cache_op = CGet string | CSet string 'v | CClear

primrec cache_do :: "rat \<Rightarrow> 'v cache_op \<Rightarrow> 'v ttl_cache \<Rightarrow> 'v ttl_cache" where
  "cache_do now (CGet k) c = snd (cache_get now k c)"
| "cache_do now (CSet k v) c = cache_set now k v c"
| "cache_do now CClear c = cache_clear c"

definition cache_run :: "(rat \<times> 'v cache_op) list \<Rightarrow> 'v ttl_cache \<Rightarrow> 'v ttl_cache" where
  "cache_run ops c = fold (\<lambda>(now, op). cache_do now op) ops c"

text \<open>The last value stored under a key since the last clearing, with its time.\<close>

definition note_op :: "rat \<times> 'v cache_op \<Rightarrow> (string \<Rightarrow> (rat \<times> 'v) option) \<Rightarrow> string \<Rightarrow> (rat \<times> 'v) option" where
  "note_op x h = (case x of (now, CSet k v) \<Rightarrow> h(k := Some (now, v)) | (now, CClear) \<Rightarrow> Map.empty | (now, CGet k) \<Rightarrow> h)"

definition last_set :: "(rat \<times> 'v cache_op) list \<Rightarrow> string \<Rightarrow> (rat \<times> 'v) option" where
  "last_set ops = fold note_op ops Map.empty"

definition set_keys :: "(rat \<times> 'v cache_op) list \<Rightarrow> string set" where
  "set_keys ops = {k. \<exists>t v. (t, CSet k v) \<in> set ops}"

lemma oldest_in: "oldest_key es = Some k \<Longrightarrow> k \<in> fst ` set es"
  by (induction es arbitrary: k rule: oldest_key.induct) (force split: option.splits if_splits)+

lemma oldest_none: "oldest_key es = None \<longleftrightarrow> es = []"
  by (cases es rule: oldest_key.cases) (auto split: option.splits)

definition cache_ok :: "int \<Rightarrow> rat \<Rightarrow> (string \<Rightarrow> (rat \<times> 'v) option) \<Rightarrow> 'v ttl_cache \<Rightarrow> bool" where
  "cache_ok n ttl h c = (ch_max c = max 1 n \<and> ch_ttl c = max 0 ttl \<and> dict_wf (ch_entries c) \<and> int (length (ch_entries c)) \<le> max 1 n
     \<and> (\<forall>k x v. dict_get (ch_entries c) k = Some (x, v) \<longrightarrow> (\<exists>t. h k = Some (t, v) \<and> x = t + max 0 ttl)))"

lemma cache_okD: "cache_ok n ttl h c \<Longrightarrow> dict_get (ch_entries c) k = Some (x, v) \<Longrightarrow> \<exists>t. h k = Some (t, v) \<and> x = t + max 0 ttl"
  unfolding cache_ok_def by blast

lemma evict_shorter: "ch_entries c \<noteq> [] \<Longrightarrow> length (ch_entries (evict_oldest c)) < length (ch_entries c)"
  using oldest_none [of "ch_entries c"] oldest_in [of "ch_entries c"]
  by (auto simp: evict_oldest_def dict_has_iff intro!: length_dict_pop_less split: option.splits)

lemma evict_get: "dict_get (ch_entries (evict_oldest c)) k = Some y \<Longrightarrow> dict_get (ch_entries c) k = Some y"
  by (auto simp: evict_oldest_def split: option.splits if_splits)

lemma evict_fields [simp]: "ch_max (evict_oldest c) = ch_max c" "ch_ttl (evict_oldest c) = ch_ttl c"
  by (simp_all add: evict_oldest_def split: option.split)

lemma evict_wf: "dict_wf (ch_entries c) \<Longrightarrow> dict_wf (ch_entries (evict_oldest c))"
  by (auto simp: evict_oldest_def split: option.split)

lemma cache_set_ok:
  assumes "cache_ok n ttl h c"
  shows "cache_ok n ttl (note_op (now, CSet k v) h) (cache_set now k v c)"
proof -
  define c1 where "c1 = (if int (length (ch_entries c)) \<ge> ch_max c then evict_oldest c else c)"
  have ok: "cache_ok n ttl h c1"
    using assms evict_wf [of c] evict_get [of c] evict_shorter [of c]
    by (cases "ch_entries c = []") (auto simp: c1_def cache_ok_def oldest_none dest: evict_get)
  have len: "int (length (ch_entries c1)) < max 1 n"
    using assms evict_shorter [of c] by (cases "ch_entries c = []") (auto simp: c1_def cache_ok_def)
  have "length (dict_set k y d) \<le> Suc (length d)" for y and d :: "(string, rat \<times> 'a) dict"
    by (induction d) auto
  then have "int (length (dict_set k (now + ch_ttl c1, v) (ch_entries c1))) \<le> max 1 n" using len by (smt (verit) of_nat_Suc of_nat_mono)
  then show ?thesis using ok by (auto simp: cache_set_def Let_def c1_def [symmetric] cache_ok_def note_op_def)
qed

lemma cache_do_ok: "cache_ok n ttl h c \<Longrightarrow> cache_ok n ttl (note_op (now, op) h) (cache_do now op c)"
proof (cases op)
  case (CGet k)
  assume ok: "cache_ok n ttl h c"
  have "int (length (dict_pop k (ch_entries c))) \<le> max 1 n" using ok length_dict_pop_le [of k "ch_entries c"] by (auto simp: cache_ok_def)
  then show ?thesis using ok CGet by (auto simp: cache_ok_def note_op_def cache_get_def split: option.splits prod.splits)
next
  case (CSet k v)
  assume "cache_ok n ttl h c"
  then show ?thesis using cache_set_ok CSet by simp
qed (auto simp: cache_ok_def note_op_def cache_clear_def dict_wf_def)

lemma cache_run_ok: "cache_ok n ttl (last_set ops) (cache_run ops (new_cache n ttl))"
proof (induction ops rule: rev_induct)
  case Nil
  then show ?case by (simp add: cache_run_def last_set_def new_cache_def cache_ok_def)
next
  case (snoc x ops)
  then show ?case using cache_do_ok [of n ttl "last_set ops" _ "fst x" "snd x"] by (simp add: cache_run_def last_set_def case_prod_beta)
qed

text \<open>With fewer keys than entries nothing is evicted, and reads only drop what has expired.\<close>

lemma cache_complete:
  assumes "sorted (map fst ops)" "\<forall>t \<in> fst ` set ops. t \<le> now" "int (card (set_keys ops)) < max 1 n"
    and "last_set ops k = Some (t, v)" "now \<le> t + max 0 ttl"
  shows "dict_get (ch_entries (cache_run ops (new_cache n ttl))) k = Some (t + max 0 ttl, v)"
  using assms
proof (induction ops arbitrary: now rule: rev_induct)
  case Nil
  then show ?case by (simp add: last_set_def)
next
  case (snoc x ops)
  let ?c = "cache_run ops (new_cache n ttl)"
  obtain t1 op where x: "x = (t1, op)" by (cases x)
  have fin: "finite (set_keys ops)" by (rule finite_subset [of _ "(\<lambda>p. case snd p of CSet k v \<Rightarrow> k | _ \<Rightarrow> []) ` set ops"])
      (force simp: set_keys_def image_iff)+
  have keys: "set_keys ops \<subseteq> set_keys (ops @ [x])" by (auto simp: set_keys_def)
  have fin': "finite (set_keys (ops @ [x]))" by (rule finite_subset [of _ "(\<lambda>p. case snd p of CSet k v \<Rightarrow> k | _ \<Rightarrow> []) ` set (ops @ [x])"])
      (force simp: set_keys_def image_iff)+
  have card: "int (card (set_keys ops)) < max 1 n" using card_mono [OF fin' keys] snoc.prems(3) by linarith
  have run: "cache_run (ops @ [x]) (new_cache n ttl) = cache_do t1 op ?c" by (simp add: cache_run_def x)
  have ls: "last_set (ops @ [x]) = note_op (t1, op) (last_set ops)" by (simp add: last_set_def x)
  have srt: "sorted (map fst ops)" "\<forall>t \<in> fst ` set ops. t \<le> t1" "t1 \<le> now"
    using snoc.prems(1,2) by (auto simp: sorted_append x)
  have IH: "dict_get (ch_entries ?c) k = Some (t + max 0 ttl, v)" if "last_set ops k = Some (t, v)"
    using snoc.IH [OF srt(1,2) card that] snoc.prems(5) srt(3) by linarith
  have ok: "cache_ok n ttl (last_set ops) ?c" by (rule cache_run_ok)
  show ?case
  proof (cases op)
    case (CGet k1)
    then have h: "last_set ops k = Some (t, v)" using snoc.prems(4) ls by (simp add: note_op_def)
    show ?thesis using IH [OF h] CGet run snoc.prems(5) srt(3) by (auto simp: cache_get_def split: option.splits prod.splits)
  next
    case (CSet k1 w)
    have sub: "fst ` set (ch_entries ?c) \<subseteq> set_keys ops"
    proof
      fix q assume "q \<in> fst ` set (ch_entries ?c)"
      then obtain y where "dict_get (ch_entries ?c) q = Some y" by (metis dict_has_def dict_has_iff not_None_eq)
      then obtain t2 v2 where "last_set ops q = Some (t2, v2)" using cache_okD [OF ok, of q "fst y" "snd y"] by auto
      then show "q \<in> set_keys ops"
        by (induction ops rule: rev_induct) (auto simp: last_set_def note_op_def set_keys_def split: prod.splits cache_op.splits if_splits)
    qed
    have "length (ch_entries ?c) = card (fst ` set (ch_entries ?c))" using ok distinct_card [of "map fst (ch_entries ?c)"]
      by (simp add: cache_ok_def dict_wf_def)
    then have "int (length (ch_entries ?c)) < max 1 n" using card_mono [OF fin sub] card by linarith
    then have "ch_entries (cache_set t1 k1 w ?c) = dict_set k1 (t1 + max 0 ttl, w) (ch_entries ?c)" using ok by (auto simp: cache_set_def cache_ok_def Let_def)
    then show ?thesis using snoc.prems(4) ls run CSet IH by (auto simp: note_op_def split: if_splits)
  qed (use snoc.prems(4) ls in \<open>simp add: note_op_def\<close>)
qed

text \<open>
  C36. A cache of the resource engine is a bounded map with a time to live: it never holds more entries
  than its maximum, it answers a key only with the last value stored under it since the last
  clearing and only within the time to live, and as long as fewer different keys than the maximum are
  stored, and the clock does not run back, it answers every such key.
\<close>
theorem cache_is_a_bounded_ttl_map:
  defines "c ops n ttl \<equiv> cache_run ops (new_cache n ttl)"
  shows "int (length (ch_entries (c ops n ttl))) \<le> max 1 n
    \<and> (fst (cache_get now k (c ops n ttl)) = Some v \<longrightarrow> (\<exists>t. last_set ops k = Some (t, v) \<and> now \<le> t + max 0 ttl))
    \<and> (sorted (map fst ops) \<and> (\<forall>t \<in> fst ` set ops. t \<le> now) \<and> int (card (set_keys ops)) < max 1 n \<longrightarrow>
        (\<forall>t. last_set ops k = Some (t, v) \<and> now \<le> t + max 0 ttl \<longrightarrow> fst (cache_get now k (c ops n ttl)) = Some v))"
proof (intro conjI impI allI)
  note ok = cache_run_ok [of n ttl ops, folded c_def]
  show "int (length (ch_entries (c ops n ttl))) \<le> max 1 n" using ok by (simp add: cache_ok_def)
  show "\<exists>t. last_set ops k = Some (t, v) \<and> now \<le> t + max 0 ttl" if "fst (cache_get now k (c ops n ttl)) = Some v"
    using that cache_okD [OF ok, of k _ v] by (fastforce simp: cache_get_def split: option.splits if_splits)
  show "fst (cache_get now k (c ops n ttl)) = Some v"
    if "sorted (map fst ops) \<and> (\<forall>t \<in> fst ` set ops. t \<le> now) \<and> int (card (set_keys ops)) < max 1 n"
      and "last_set ops k = Some (t, v) \<and> now \<le> t + max 0 ttl" for t
    using cache_complete [of ops now n k t v ttl, folded c_def] that by (simp add: cache_get_def)
qed

lemma demo_keys: "set_keys [(1, CSet ''a'' (5::nat)), (3, CGet ''b''), (10, CSet ''a'' 6)] = {''a''}"
  by (auto simp: set_keys_def)

lemma cache_is_a_bounded_ttl_map_witness:
  "fst (cache_get 12 ''a'' (cache_run [(1, CSet ''a'' (5::nat)), (3, CGet ''b''), (10, CSet ''a'' 6)] (new_cache 2 4))) = Some 6"
  using cache_is_a_bounded_ttl_map [of "[(1, CSet ''a'' (5::nat)), (3, CGet ''b''), (10, CSet ''a'' 6)]" 2 4 12 "''a''" 6]
  by (auto simp: last_set_def note_op_def demo_keys)

text \<open>Storing a key again when the cache is full drops another key, although no room is needed.\<close>

lemma refresh_evicts_another:
  "cache_run [(1, CSet ''a'' (5::nat)), (2, CSet ''b'' 6), (3, CSet ''b'' 7)] (new_cache 2 60)
     = \<lparr>ch_max = 2, ch_ttl = 60, ch_entries = [(''b'', (63, 7))]\<rparr>"
  by code_simp

subsection \<open>What an invocation publishes\<close>

text \<open>
  Results whose metadata has a reserved name break the calls that spread it; so do correlation fields
  that are also taken from the result. Providers and callers that avoid them are clean.
\<close>

definition clean_result :: "provider_result \<Rightarrow> bool" where
  "clean_result res = (dict_wf (pr_metadata res) \<and> (\<forall>k \<in> {''data'', ''error'', ''cls''}. \<not> dict_has (pr_metadata res) k))"

definition clean_provider :: "'w provider_ops \<Rightarrow> bool" where
  "clean_provider p = (\<forall>a ps rid st kw w res w'. pv_invoke p a ps rid st kw w = (Inr res, w') \<longrightarrow> clean_result res)"

definition clean_class :: "'w provider_class \<Rightarrow> bool" where
  "clean_class cls = (\<forall>nm w p w'. cls nm w = (Inr p, w') \<longrightarrow> clean_provider p)"

definition reserved_fields :: "string set" where
  "reserved_fields = {''self'', ''event_type'', ''error'', ''invoke_depth'', ''parent_job_id'', ''mode'', ''invoke_chain''}"

definition clean_invocation :: "invocation \<Rightarrow> bool" where
  "clean_invocation iv = (\<forall>k \<in> reserved_fields. \<not> dict_has (iv_correlation iv) k)"

definition quiet_publisher :: "(string \<Rightarrow> pydict \<Rightarrow> 'w \<Rightarrow> unit result \<times> 'w) option \<Rightarrow> bool" where
  "quiet_publisher pub = (case pub of None \<Rightarrow> False | Some f \<Rightarrow> \<forall>t p w. fst (f t p w) = Inr ())"

definition clean_engine :: "'w resource_engine \<Rightarrow> bool" where
  "clean_engine e = (quiet_publisher (re_publisher e) \<and> (\<forall>p \<in> snd ` set (re_active e). clean_provider p)
     \<and> (\<forall>reg. re_providers e = Some reg \<longrightarrow> (\<forall>cls \<in> snd ` set (entries reg). clean_class cls))
     \<and> (\<forall>c. re_results e = Some c \<longrightarrow> (\<forall>(k, x, res) \<in> set (ch_entries c). pr_success res)))"

text \<open>What stays fixed: only the world, the caches, the active providers and the log move.\<close>

lemma emit_ok:
  assumes "quiet_publisher (re_publisher e)" "emit_keywords groups = Inr kw"
  shows "\<exists>w. re_emit t groups e = (Inr (), e\<lparr>re_log := re_log e @ [(t, kw)], re_world := w\<rparr>)"
  using assms by (auto simp: re_emit_def on_world_def quiet_publisher_def split: option.splits prod.split) (metis fst_conv)

lemma distinct_keywords: "distinct ([''self'', ''event_type''] @ map fst (concat groups)) \<Longrightarrow> emit_keywords groups = Inr (concat groups)"
  by (simp add: emit_keywords_def repeated_key_def Let_def)

lemma keys_update: "fst ` set (dict_update d e) = fst ` set d \<union> fst ` set e"
  by (induction e arbitrary: d) (simp_all add: dict_update_def AList.dom_update case_prod_beta)

lemma base_keys:
  assumes "clean_invocation iv"
  shows "distinct (map fst (event_base iv cs))" "fst ` set (event_base iv cs) \<inter> reserved_fields = {}"
proof -
  show "distinct (map fst (event_base iv cs))" unfolding event_base_def dict_wf_def [symmetric] by (rule dict_wf_update) (simp add: dict_wf_def)
  have "fst ` set (filter (\<lambda>(_, v). v \<noteq> VNone) (iv_correlation iv)) \<inter> reserved_fields = {}"
    using assms by (auto simp: clean_invocation_def dict_has_iff image_iff)
  then show "fst ` set (event_base iv cs) \<inter> reserved_fields = {}"
    unfolding event_base_def keys_update Int_Un_distrib2 by (simp add: reserved_fields_def)
qed

lemma payload_keys: "distinct (map fst (correlation_payload res))"
  "fst ` set (correlation_payload res) \<subseteq> {''invoke_depth'', ''parent_job_id'', ''mode'', ''invoke_chain''}"
  by (auto simp: correlation_payload_def split: pyval.splits)

lemma emit_keywords_ok:
  assumes "clean_invocation iv"
  shows "\<exists>kw. emit_keywords [event_base iv cs] = Inr kw" "\<exists>kw. emit_keywords [[(''error'', v)], event_base iv cs] = Inr kw"
    "\<exists>kw. emit_keywords [event_base iv cs, correlation_payload res] = Inr kw"
    "\<exists>kw. emit_keywords [[(''error'', v)], event_base iv cs, correlation_payload res] = Inr kw"
proof -
  let ?b = "fst ` set (event_base iv cs)" and ?p = "fst ` set (correlation_payload res)"
  have b: "distinct (map fst (event_base iv cs))" "''self'' \<notin> ?b" "''event_type'' \<notin> ?b" "''error'' \<notin> ?b"
    using base_keys [OF assms, of cs] unfolding reserved_fields_def by blast+
  have "?p \<subseteq> reserved_fields" "''self'' \<notin> ?p" "''event_type'' \<notin> ?p" "''error'' \<notin> ?p"
    using payload_keys(2) [of res] by (auto simp: reserved_fields_def)
  moreover have "?b \<inter> ?p = {}" using base_keys(2) [OF assms, of cs] calculation(1) by blast
  ultimately have all: "distinct ([''self'', ''event_type''] @ map fst (concat [event_base iv cs]))"
    "distinct ([''self'', ''event_type''] @ map fst (concat [[(''error'', v)], event_base iv cs]))"
    "distinct ([''self'', ''event_type''] @ map fst (concat [event_base iv cs, correlation_payload res]))"
    "distinct ([''self'', ''event_type''] @ map fst (concat [[(''error'', v)], event_base iv cs, correlation_payload res]))"
    using b payload_keys(1) [of res] by simp_all
  show "\<exists>kw. emit_keywords [event_base iv cs] = Inr kw" "\<exists>kw. emit_keywords [[(''error'', v)], event_base iv cs] = Inr kw"
    "\<exists>kw. emit_keywords [event_base iv cs, correlation_payload res] = Inr kw"
    "\<exists>kw. emit_keywords [[(''error'', v)], event_base iv cs, correlation_payload res] = Inr kw"
    using all [THEN distinct_keywords] by blast+
qed

lemma metadata_keys:
  assumes "clean_result res" "k \<in> {''data'', ''error'', ''cls''}"
  shows "\<not> dict_has (result_metadata iv cs (pr_metadata res)) k"
  using assms by (auto simp: result_metadata_def dict_has_iff keys_update clean_result_def)

lemma clean_upd [simp]: "clean_engine (e\<lparr>re_log := l\<rparr>) = clean_engine e" "clean_engine (e\<lparr>re_world := w\<rparr>) = clean_engine e"
  "clean_engine (e\<lparr>re_definitions := d\<rparr>) = clean_engine e"
  by (simp_all add: clean_engine_def)

lemma clean_quiet: "clean_engine e \<Longrightarrow> quiet_publisher (re_publisher e)"
  by (simp add: clean_engine_def)

lemma cache_set_sub: "set (ch_entries (cache_set now k v c)) \<subseteq> insert (k, now + ch_ttl c, v) (set (ch_entries c))"
proof -
  have "set (ch_entries (evict_oldest c)) \<subseteq> set (ch_entries c)"
    by (auto simp: evict_oldest_def AList.delete_eq split: option.splits)
  then show ?thesis by (auto simp: cache_set_def Let_def dest!: subsetD [OF dict_set_items])
qed

lemma store_clean:
  assumes "clean_engine e" "pr_success res"
  shows "clean_engine (store_result env action key res e)" "re_log (store_result env action key res e) = re_log e"
    "re_publisher (store_result env action key res e) = re_publisher e"
  using assms cache_set_sub [of "re_now env e" key res] by (fastforce simp: store_result_def clean_engine_def split: option.split)+

lemma conclude_publishes:
  assumes "clean_engine e" "clean_invocation iv" "clean_result res"
  shows "\<exists>res' e' kw. conclude env iv cs key res e = (Inr res', e') \<and> pr_success res' = pr_success res \<and> clean_engine e'
    \<and> re_log e' = re_log e @ [(if pr_success res then ''resource.completed'' else ''resource.failed'', kw)]"
proof (cases "pr_success res")
  case True
  let ?md = "result_metadata iv cs (pr_metadata res)"
  define final where "final = \<lparr>pr_success = True, pr_data = pr_data res, pr_error = None, pr_metadata = ?md\<rparr>"
  have "provider_ok (pr_data res) ?md = Inr final"
    using metadata_keys [OF assms(3), of "''data''" iv cs] metadata_keys [OF assms(3), of "''cls''" iv cs] by (simp add: provider_ok_def call_keywords_def final_def)
  moreover obtain kw where kw: "emit_keywords [event_base iv cs, correlation_payload res] = Inr kw" using emit_keywords_ok(3) [OF assms(2)] by blast
  define e1 where "e1 = store_result env (cs_action cs) key final e"
  have e1: "clean_engine e1" "re_log e1 = re_log e" using store_clean [OF assms(1), of final] by (simp_all add: e1_def final_def)
  moreover obtain w where "re_emit ''resource.completed'' [event_base iv cs, correlation_payload res] e1 = (Inr (), e1\<lparr>re_log := re_log e1 @ [(''resource.completed'', kw)], re_world := w\<rparr>)"
    using emit_ok [OF clean_quiet [OF e1(1)] kw] by blast
  ultimately have "conclude env iv cs key res e = (Inr final, e1\<lparr>re_log := re_log e1 @ [(''resource.completed'', kw)], re_world := w\<rparr>)"
    using True by (simp add: conclude_def eff_bind_def e1_def [symmetric])
  then show ?thesis using True e1 by (simp add: clean_upd final_def)
next
  case False
  let ?md = "result_metadata iv cs (pr_metadata res)"
  have "provider_fail t ?md = Inr \<lparr>pr_success = False, pr_data = VNone, pr_error = Some t, pr_metadata = ?md\<rparr>" for t
    using metadata_keys [OF assms(3), of "''error''" iv cs] metadata_keys [OF assms(3), of "''cls''" iv cs] by (simp add: provider_fail_def call_keywords_def)
  moreover obtain kw where kw: "emit_keywords [[(''error'', opt_str_val (pr_error res))], event_base iv cs, correlation_payload res] = Inr kw"
    using emit_keywords_ok(4) [OF assms(2)] by blast
  moreover obtain w where "re_emit ''resource.failed'' [[(''error'', opt_str_val (pr_error res))], event_base iv cs, correlation_payload res] e
      = (Inr (), e\<lparr>re_log := re_log e @ [(''resource.failed'', kw)], re_world := w\<rparr>)"
    using emit_ok [OF clean_quiet [OF assms(1)] kw] by blast
  ultimately show ?thesis using False assms(1) by (auto simp: conclude_def eff_bind_def clean_upd)
qed

text \<open>Looking up, making and calling a provider keeps the engine clean and publishes nothing.\<close>

lemma use_clean:
  assumes "clean_engine e" "use_provider nm e = (x, e')"
  shows "clean_engine e' \<and> re_log e' = re_log e \<and> (\<forall>p. x = Inr p \<longrightarrow> clean_provider p)"
proof (cases "re_providers e")
  case None
  then show ?thesis using assms by (auto simp: use_provider_def)
next
  case reg: (Some reg)
  show ?thesis
  proof (cases "dict_get (re_active e) nm")
    case (Some p)
    then have "p \<in> snd ` set (re_active e)" by (force dest: map_of_SomeD)
    then show ?thesis using assms reg Some by (auto simp: use_provider_def clean_engine_def)
  next
    case None
    show ?thesis
    proof (cases "lookup reg nm")
      case (Inr cls)
      then have "cls \<in> snd ` set (entries reg)" by (force simp: lookup_def dest: map_of_SomeD split: option.splits)
      then have cls: "clean_class cls" using assms(1) reg by (auto simp: clean_engine_def)
      obtain y w where made: "cls nm (re_world e) = (y, w)" by (cases "cls nm (re_world e)")
      show ?thesis
      proof (cases y)
        case (Inr p)
        then have p: "clean_provider p" using cls made by (auto simp: clean_class_def)
        have "clean_engine (e\<lparr>re_world := w2, re_active := dict_set nm p (re_active e)\<rparr>)" for w2
          using assms(1) p dict_set_items [of nm p "re_active e"] by (fastforce simp: clean_engine_def)
        then show ?thesis using assms reg None \<open>lookup reg nm = Inr cls\<close> made Inr p
          by (auto simp: use_provider_def eff_bind_def on_world_def split: option.splits prod.splits sum.splits)
      qed (use assms reg None \<open>lookup reg nm = Inr cls\<close> made in \<open>auto simp: use_provider_def eff_bind_def on_world_def\<close>)
    qed (use assms reg None in \<open>auto simp: use_provider_def\<close>)
  qed
qed

lemma call_clean:
  assumes "clean_engine e" "call_provider iv cs e = (x, e')"
  shows "clean_engine e' \<and> re_log e' = re_log e \<and> (\<forall>res. x = Inr res \<longrightarrow> clean_result res)"
proof -
  obtain y e1 where use_p: "use_provider (cs_provider cs) e = (y, e1)" by (cases "use_provider (cs_provider cs) e")
  note cl = use_clean [OF assms(1) use_p]
  show ?thesis
  proof (cases y)
    case (Inr p)
    obtain z w where run: "pv_invoke p (cs_action cs) (cs_params cs) (cs_resource_id cs) (iv_state iv) (iv_kwargs iv) (re_world e1) = (z, w)"
      by (cases "pv_invoke p (cs_action cs) (cs_params cs) (cs_resource_id cs) (iv_state iv) (iv_kwargs iv) (re_world e1)")
    then have "z = Inr res \<Longrightarrow> clean_result res" for res using cl Inr unfolding clean_provider_def by blast
    then show ?thesis using assms(2) use_p cl Inr run by (auto simp: call_provider_def eff_bind_def on_world_def)
  qed (use assms(2) use_p cl in \<open>auto simp: call_provider_def eff_bind_def\<close>)
qed

definition published :: "'w resource_engine \<Rightarrow> 'w resource_engine \<Rightarrow> string list \<Rightarrow> bool" where
  "published e e' ts = (\<exists>evs. re_log e' = re_log e @ evs \<and> map fst evs = ts)"

text \<open>The events of an invocation tell how it ended.\<close>

definition told :: "'w resource_engine \<Rightarrow> 'w resource_engine \<Rightarrow> provider_result \<Rightarrow> bool" where
  "told e e' res = (if pr_success res then published e e' [''resource.invoked'', ''resource.completed''] \<or> re_log e' = re_log e
     else published e e' [''resource.invoked'', ''resource.failed''] \<or> published e e' [''resource.failed''])"

lemma refuse_tells:
  assumes "clean_engine e" "distinct ([''self'', ''event_type''] @ map fst payload)" "md = [] \<or> md = [(''resource_ref'', v)]"
  shows "\<exists>res e'. refuse msg payload md e = (Inr res, e') \<and> clean_engine e' \<and> \<not> pr_success res \<and> told e e' res"
proof -
  have kw: "emit_keywords [payload] = Inr payload" using distinct_keywords [of "[payload]"] assms(2) by simp
  obtain w where "re_emit ''resource.failed'' [payload] e = (Inr (), e\<lparr>re_log := re_log e @ [(''resource.failed'', payload)], re_world := w\<rparr>)"
    using emit_ok [OF clean_quiet [OF assms(1)] kw] by blast
  moreover have "provider_fail msg md = Inr \<lparr>pr_success = False, pr_data = VNone, pr_error = Some msg, pr_metadata = md\<rparr>"
    using assms(3) by (auto simp: provider_fail_def call_keywords_def)
  ultimately show ?thesis using assms(1) by (simp add: refuse_def eff_bind_def told_def published_def)
qed

lemma perform_tells:
  assumes "clean_engine e" "clean_invocation iv"
  shows "\<exists>res e'. perform env iv cs e = (Inr res, e') \<and> clean_engine e' \<and> told e e' res"
proof -
  let ?key = "call_key env iv cs"
  obtain hit e1 where hit: "cached_result env (cs_action cs) ?key e = (hit, e1)" by (cases "cached_result env (cs_action cs) ?key e")
  have e1: "clean_engine e1" "re_log e1 = re_log e" "\<And>res. hit = Some res \<Longrightarrow> pr_success res"
    using assms(1) hit by (auto simp: cached_result_def cache_get_def clean_engine_def AList.delete_eq dest!: map_of_SomeD split: option.splits if_splits prod.splits)
  show ?thesis
  proof (cases hit)
    case (Some res)
    then show ?thesis using hit e1 by (auto simp: perform_def told_def)
  next
    case None
    obtain kw where kw: "emit_keywords [event_base iv cs] = Inr kw" using emit_keywords_ok(1) [OF assms(2)] by blast
    obtain e2 where e2: "re_emit ''resource.invoked'' [event_base iv cs] e1 = (Inr (), e2)" "clean_engine e2" "re_log e2 = re_log e @ [(''resource.invoked'', kw)]"
      using emit_ok [OF clean_quiet [OF e1(1)] kw] e1(1,2) by fastforce
    obtain y e3 where call: "call_provider iv cs e2 = (y, e3)" by (cases "call_provider iv cs e2")
    note cl = call_clean [OF e2(2) call]
    have go: "perform env iv cs e = (case (y, e3) of
        (Inl x, e3) \<Rightarrow> eff_bind (re_emit ''resource.failed'' [[(''error'', VStr (exc_msg x))], event_base iv cs]) (\<lambda>_.
          Pair (provider_fail (exc_msg x) [(''provider'', VStr (cs_provider cs)), (''action'', VStr (cs_action cs))])) e3
      | (Inr res, e3) \<Rightarrow> conclude env iv cs ?key res e3)"
      using None hit e2(1) call by (simp add: perform_def eff_bind_def)
    show ?thesis
    proof (cases y)
      case (Inl x)
      obtain kw2 where kw2: "emit_keywords [[(''error'', VStr (exc_msg x))], event_base iv cs] = Inr kw2" using emit_keywords_ok(2) [OF assms(2)] by blast
      obtain e4 where "re_emit ''resource.failed'' [[(''error'', VStr (exc_msg x))], event_base iv cs] e3 = (Inr (), e4)" "clean_engine e4"
        "re_log e4 = re_log e3 @ [(''resource.failed'', kw2)]"
        using emit_ok [OF clean_quiet kw2] cl by fastforce
      then show ?thesis using go Inl cl e2(3) by (simp add: eff_bind_def provider_fail_def call_keywords_def told_def published_def)
    next
      case (Inr res)
      with cl have "clean_result res" by simp
      then obtain res' e4 kw3 where c: "conclude env iv cs ?key res e3 = (Inr res', e4)" "pr_success res' = pr_success res" "clean_engine e4"
        "re_log e4 = re_log e3 @ [(if pr_success res then ''resource.completed'' else ''resource.failed'', kw3)]"
        using conclude_publishes [OF _ assms(2), of e3 res env cs ?key] cl by blast
      have "perform env iv cs e = (Inr res', e4)" using go Inr c(1) by simp
      moreover have "told e e4 res'" using cl e2(3) c by (simp add: told_def published_def)
      ultimately show ?thesis using c(3) by blast
    qed
  qed
qed

lemma invoke_tells:
  assumes "re_initialized e" "clean_engine e" "clean_invocation iv"
  shows "\<exists>res e'. re_invoke env iv e = (Inr res, e') \<and> clean_engine e' \<and> told e e' res"
proof -
  have bound: "\<exists>res e'. perform env iv (bound_call env iv cs) e1 = (Inr res, e') \<and> clean_engine e' \<and> told e1 e' res" if "clean_engine e1" for cs e1
    using perform_tells [OF that assms(3)] .
  have req: "\<exists>res e'. refuse required_text [(''error'', VStr required_text), (''resource_ref'', v)] [] e1 = (Inr res, e') \<and> clean_engine e' \<and> told e1 e' res"
    if "clean_engine e1" for v e1
  proof -
    have "\<exists>res e'. refuse required_text [(''error'', VStr required_text), (''resource_ref'', v)] [] e1 = (Inr res, e') \<and> clean_engine e'
        \<and> \<not> pr_success res \<and> told e1 e' res"
      by (rule refuse_tells [OF that]) simp_all
    then show ?thesis by blast
  qed
  have rf: "\<exists>res e'. refuse msg [(''resource_ref'', VStr ref), (''error'', VStr msg)] [(''resource_ref'', VStr ref)] e1 = (Inr res, e')
      \<and> clean_engine e' \<and> told e1 e' res" if "clean_engine e1" for msg ref e1
  proof -
    have "\<exists>res e'. refuse msg [(''resource_ref'', VStr ref), (''error'', VStr msg)] [(''resource_ref'', VStr ref)] e1 = (Inr res, e')
        \<and> clean_engine e' \<and> \<not> pr_success res \<and> told e1 e' res"
      by (rule refuse_tells [OF that]) simp_all
    then show ?thesis by blast
  qed
  show ?thesis
  proof (cases "iv_ref iv")
    case None
    show ?thesis
    proof (cases "direct_call iv None :: (provider_result, 'a) res_eff + call_spec")
      case (Inl refused)
      then show ?thesis using assms(1) None req [OF assms(2)] by (auto simp: re_invoke_def direct_call_def split: option.splits list.splits)
    qed (use assms(1) None bound [OF assms(2)] in \<open>simp add: re_invoke_def\<close>)
  next
    case ref: (Some ref)
    show ?thesis
    proof (cases "re_resolver e")
      case None
      then show ?thesis using assms(1) ref rf [OF assms(2)] by (simp add: re_invoke_def)
    next
      case (Some rsv)
      obtain y e1 where rs: "resolve_definition env rsv ref e = (y, e1)" by (cases "resolve_definition env rsv ref e")
      have e1: "clean_engine e1" "re_log e1 = re_log e" using rs assms(2)
        by (auto simp: resolve_definition_def on_world_def eff_bind_def clean_upd split: option.splits prod.splits sum.splits)
      have tr: "told e1 e' res = told e e' res" for e' res by (simp add: told_def published_def e1(2))
      show ?thesis
      proof (cases y)
        case (Inl x)
        then show ?thesis using assms(1) ref Some rs rf [OF e1(1)] by (simp add: re_invoke_def tr [symmetric])
      next
        case (Inr sp)
        then show ?thesis using assms(1) ref Some rs bound [OF e1(1)] req [OF e1(1)]
          by (simp add: re_invoke_def defined_call_def tr [symmetric])
      qed
    qed
  qed
qed

text \<open>
  C35. An engine that is not initialized answers every invocation with a failure and stays as it is. On an initialized
  engine with a publisher that does not raise, with providers whose results name no metadata data, error or cls (and
  no key twice), with a result cache that holds successes only, and for a caller whose correlation fields have no
  reserved name: an invocation returns a result and never raises, whatever the resolver, the provider class or the
  provider raise, and its events tell how it ended. Success is announced as invoked and then completed, or not at all
  when the answer came from the cache; every failure, be it a refusal, a failing definition, an exception of the
  provider or a negative result, ends in exactly one failed event. The engine is again one of this kind.
\<close>
theorem invocations_are_reported:
  assumes "clean_engine e" "clean_invocation iv"
  shows "\<exists>res e'. re_invoke env iv e = (Inr res, e')
    \<and> (if re_initialized e then clean_engine e' \<and> told e e' res else \<not> pr_success res \<and> e' = e)"
proof (cases "re_initialized e")
  case True
  then show ?thesis using invoke_tells [OF _ assms] by simp
qed (simp add: re_invoke_def provider_fail_def call_keywords_def)

text \<open>The default \<open>invoke\<close> of a provider never raises and only makes clean results.\<close>

lemma base_invoke_clean: "\<exists>res w'. base_invoke r nm f a ps rid kw w = (Inr res, w') \<and> clean_result res"
  by (auto simp: base_invoke_def Let_def provider_ok_def provider_fail_def call_keywords_def clean_result_def dict_wf_def dict_has_def
      split: option.split prod.split sum.split)

lemma base_invoke_cleanD: "base_invoke r nm f a ps rid kw w = (Inr res, w') \<Longrightarrow> clean_result res"
  using base_invoke_clean [of r nm f a ps rid kw w] by auto

definition demo_provider :: "nat provider_ops" where
  "demo_provider = \<lparr>pv_bind_storage = (\<lambda>_ w. (Inr (), w)), pv_connect = (\<lambda>w. (Inr (), w)),
     pv_invoke = (\<lambda>a ps rid st kw. base_invoke (\<lambda>_. []) ''demo'' (\<lambda>k args w. (Inr (VInt (int w)), Suc w)) a ps rid kw),
     pv_disconnect = (\<lambda>w. (Inr (), w))\<rparr>"

definition demo_engine :: "nat resource_engine" where
  "demo_engine = re_initialize \<lparr>io_resolver = None, io_publisher = Some (\<lambda>_ _ w. (Inr (), Suc w)), io_emit = None,
      io_cache = Some (default_cache_config\<lparr>cc_results := True\<rparr>)\<rparr>
     (re_bind_registry \<lparr>label = ''provider'', entries = [(''demo'', \<lambda>_ w. (Inr demo_provider, w))], frozen = False\<rparr> (new_resource_engine 0))"

definition demo_invocation :: invocation where
  "demo_invocation = \<lparr>iv_ref = None, iv_provider = Some ''demo'', iv_action = None, iv_params = [], iv_state = None,
     iv_resource_id = Some ''x'', iv_correlation = [(''job_id'', VStr ''j'')], iv_kwargs = []\<rparr>"

definition demo_env :: "nat res_env" where
  "demo_env = \<lparr>en_repr = \<lambda>_. [], en_dumps = \<lambda>_. ''k'', en_clock = \<lambda>w. of_nat w\<rparr>"

lemma demo_clean: "clean_engine demo_engine" "clean_invocation demo_invocation" "re_initialized demo_engine"
proof -
  have "clean_provider demo_provider" unfolding clean_provider_def demo_provider_def
    by (simp, blast dest: base_invoke_cleanD)
  then show "clean_engine demo_engine"
    by (auto simp: demo_engine_def clean_engine_def re_initialize_def re_bind_registry_def new_resource_engine_def quiet_publisher_def
        new_cache_def clean_class_def default_cache_config_def Let_def)
  show "clean_invocation demo_invocation" by (auto simp: clean_invocation_def demo_invocation_def reserved_fields_def)
  show "re_initialized demo_engine" by (simp add: demo_engine_def re_initialize_def re_bind_registry_def new_resource_engine_def Let_def)
qed

lemma invocations_are_reported_witness:
  "\<exists>res e'. re_invoke demo_env demo_invocation demo_engine = (Inr res, e') \<and> told demo_engine e' res"
  using invocations_are_reported [OF demo_clean(1,2), of demo_env] demo_clean(3) by auto

subsection \<open>Results are fetched once\<close>

lemma cache_set_get: "dict_get (ch_entries (cache_set now k v c)) k = Some (now + ch_ttl (cache_set now k v c), v)"
  by (simp add: cache_set_def Let_def)

definition kept :: "'w resource_engine \<Rightarrow> 'w resource_engine \<Rightarrow> bool" where
  "kept e e' = (re_initialized e' = re_initialized e \<and> re_config e' = re_config e \<and> re_results e' = re_results e)"

lemma world_kept: "on_world f e = (x, e') \<Longrightarrow> kept e e'"
  by (auto simp: on_world_def kept_def split: prod.splits)

lemma emit_kept: "re_emit t groups e = (x, e') \<Longrightarrow> kept e e'"
  by (auto simp: re_emit_def on_world_def kept_def split: sum.splits option.splits prod.splits)

lemma bind_kept:
  assumes "eff_bind m f e = (x, e')" "\<And>y e1. m e = (y, e1) \<Longrightarrow> kept e e1" "\<And>a e1 y e2. f a e1 = (y, e2) \<Longrightarrow> kept e1 e2"
  shows "kept e e'"
  using assms by (fastforce simp: eff_bind_def kept_def split: prod.splits sum.splits)

lemma use_kept: "use_provider nm e = (x, e') \<Longrightarrow> kept e e'"
  by (auto simp: use_provider_def kept_def split: option.splits sum.splits
      elim!: bind_kept [unfolded kept_def] dest: world_kept [unfolded kept_def])

lemma call_kept: "call_provider iv cs e = (x, e') \<Longrightarrow> kept e e'"
  unfolding call_provider_def by (erule bind_kept) (auto dest: use_kept world_kept)

text \<open>
  A successful call that was not answered by the cache leaves its result there.
\<close>

lemma perform_stores:
  assumes "re_results e = Some c" "cs_action cs \<in> set (cc_actions (re_config e))"
    and "perform env iv cs e = (Inr res, e')" "pr_success res" "re_log e' \<noteq> re_log e"
  shows "\<exists>c' w. re_results e' = Some c' \<and> re_initialized e' = re_initialized e \<and> re_config e' = re_config e
    \<and> dict_get (ch_entries c') (call_key env iv cs) = Some (en_clock env w + ch_ttl c', res)"
proof -
  let ?key = "call_key env iv cs"
  obtain hit e1 where hit: "cached_result env (cs_action cs) ?key e = (hit, e1)" by (cases "cached_result env (cs_action cs) ?key e")
  then have same: "re_log e1 = re_log e" by (auto simp: cached_result_def split: option.splits if_splits prod.splits)
  have "hit = None" using assms(3,5) hit same by (cases hit) (auto simp: perform_def)
  then obtain e2 where e2: "re_emit ''resource.invoked'' [event_base iv cs] e1 = (Inr (), e2)"
    using assms(3) hit by (auto simp: perform_def eff_bind_def split: prod.splits sum.splits)
  obtain y e3 where call: "call_provider iv cs e2 = (y, e3)" by (cases "call_provider iv cs e2")
  have "y \<noteq> Inl x" for x
    using assms(3,4) hit \<open>hit = None\<close> e2 call
    by (auto simp: perform_def eff_bind_def provider_fail_def call_keywords_def split: prod.splits sum.splits)
  then obtain r0 where r0: "y = Inr r0" by (cases y) auto
  have con: "conclude env iv cs ?key r0 e3 = (Inr res, e')" using assms(3) hit \<open>hit = None\<close> e2 call r0 by (simp add: perform_def eff_bind_def)
  have "pr_success r0"
    using con assms(4) by (auto simp: conclude_def eff_bind_def provider_fail_def call_keywords_def split: if_splits prod.splits sum.splits option.splits)
  then obtain final where fin: "provider_ok (pr_data r0) (result_metadata iv cs (pr_metadata r0)) = Inr final"
    using con by (auto simp: conclude_def split: sum.splits)
  have em: "re_emit ''resource.completed'' [event_base iv cs, correlation_payload r0] (store_result env (cs_action cs) ?key final e3) = (Inr (), e')" "final = res"
    using con \<open>pr_success r0\<close> fin by (auto simp: conclude_def eff_bind_def split: prod.splits sum.splits)
  obtain c1 where e1: "re_results e1 = Some c1" "re_initialized e1 = re_initialized e" "re_config e1 = re_config e"
    using hit assms(1,2) by (auto simp: cached_result_def split: prod.splits)
  have k: "kept e1 e3" using emit_kept [OF e2] call_kept [OF call] by (simp add: kept_def)
  have "store_result env (cs_action cs) ?key final e3 = e3\<lparr>re_results := Some (cache_set (re_now env e3) ?key res c1)\<rparr>"
    using k e1 assms(2) em(2) by (simp add: store_result_def kept_def)
  then have "re_results e' = Some (cache_set (re_now env e3) ?key res c1)" "re_initialized e' = re_initialized e" "re_config e' = re_config e"
    using emit_kept [OF em(1)] k e1 by (simp_all add: kept_def)
  then show ?thesis using cache_set_get [of "re_now env e3" ?key res c1] by (auto simp: re_now_def)
qed

text \<open>
  With the result cache on, a successful direct call of a cacheable action that reached the provider
  is answered from the cache until its time to live has passed: the same call then returns the same
  result, and changes nothing - no provider is called and no event published - whatever happened to
  the world in between.
\<close>
theorem fetched_results_are_reused:
  assumes "re_initialized e" "iv_ref iv = None" "iv_provider iv = Some nm" "nm \<noteq> []"
    and "re_results e = Some c" "(case first_text (iv_action iv) (Some ''fetch'') of Some a \<Rightarrow> a | None \<Rightarrow> []) \<in> set (cc_actions (re_config e))"
    and "re_invoke env iv e = (Inr res, e')" "pr_success res" "re_log e' \<noteq> re_log e"
  shows "\<exists>c' w0. re_results e' = Some c' \<and>
    (\<forall>w. en_clock env w \<le> en_clock env w0 + ch_ttl c' \<longrightarrow> re_invoke env iv (e'\<lparr>re_world := w\<rparr>) = (Inr res, e'\<lparr>re_world := w\<rparr>))"
proof -
  obtain cs :: call_spec where cs: "direct_call iv None = (Inr cs :: (provider_result, 'a) res_eff + call_spec)"
    "cs_action cs = (case first_text (iv_action iv) (Some ''fetch'') of Some a \<Rightarrow> a | None \<Rightarrow> [])"
    using assms(3,4) by (cases nm) (auto simp: direct_call_def)
  have run: "re_invoke env iv e0 = perform env iv (bound_call env iv cs) e0" if "re_initialized e0" for e0
    using that assms(2) cs(1) by (simp add: re_invoke_def)
  have act: "cs_action (bound_call env iv cs) \<in> set (cc_actions (re_config e))" using assms(6) cs(2) by (simp add: bound_call_def Let_def)
  have pf: "perform env iv (bound_call env iv cs) e = (Inr res, e')" using assms(7) run [OF assms(1)] by simp
  from perform_stores [OF assms(5) act pf assms(8,9)] obtain c' w0 where st: "re_results e' = Some c'" "re_initialized e' = re_initialized e" "re_config e' = re_config e"
    "dict_get (ch_entries c') (call_key env iv (bound_call env iv cs)) = Some (en_clock env w0 + ch_ttl c', res)" by blast
  have "re_invoke env iv (e'\<lparr>re_world := w\<rparr>) = (Inr res, e'\<lparr>re_world := w\<rparr>)" if "en_clock env w \<le> en_clock env w0 + ch_ttl c'" for w
    using that st act run [of "e'\<lparr>re_world := w\<rparr>"] assms(1) by (auto simp: perform_def cached_result_def cache_get_def re_now_def)
  with st(1) show ?thesis by blast
qed

lemma demo_run:
  "fst (re_invoke demo_env demo_invocation demo_engine) = Inr \<lparr>pr_success = True, pr_data = VInt 1, pr_error = None,
     pr_metadata = [(''action'', VStr ''fetch''), (''provider'', VStr ''demo''), (''resource_id'', VStr ''x''), (''resource_ref'', VNone),
       (''definition_id'', VNone), (''definition_name'', VNone)]\<rparr>"
  "map fst (re_log (snd (re_invoke demo_env demo_invocation demo_engine))) = [''resource.invoked'', ''resource.completed'']"
  by code_simp+

lemma fetched_results_are_reused_witness:
  "\<exists>res e' c' w0. re_invoke demo_env demo_invocation demo_engine = (Inr res, e') \<and> pr_data res = VInt 1 \<and> re_results e' = Some c' \<and>
    (\<forall>w. of_nat w \<le> of_nat w0 + ch_ttl c' \<longrightarrow> re_invoke demo_env demo_invocation (e'\<lparr>re_world := w\<rparr>) = (Inr res, e'\<lparr>re_world := w\<rparr>))"
proof -
  obtain res e' where run: "re_invoke demo_env demo_invocation demo_engine = (Inr res, e')" "pr_success res" "pr_data res = VInt 1"
    using demo_run(1) by (cases "re_invoke demo_env demo_invocation demo_engine") auto
  have "re_log e' \<noteq> re_log demo_engine"
    using demo_run(2) run(1) by (auto simp: demo_engine_def re_initialize_def re_bind_registry_def new_resource_engine_def Let_def)
  moreover obtain c where "re_results demo_engine = Some c" "''fetch'' \<in> set (cc_actions (re_config demo_engine))"
    by (simp add: demo_engine_def re_initialize_def re_bind_registry_def new_resource_engine_def default_cache_config_def Let_def)
  ultimately show ?thesis
    using fetched_results_are_reused [OF demo_clean(3), of demo_invocation "''demo''" c demo_env res e'] run
    by (auto simp: demo_invocation_def first_text_def demo_env_def)
qed

text \<open>
  A provider whose successful result has a metadata field named \<open>data\<close> breaks the engine: the
  invocation is announced, and then raises a \<open>TypeError\<close> instead of returning a result, with no
  completed or failed event.
\<close>
theorem data_metadata_breaks_invoke:
  assumes "re_initialized e" "quiet_publisher (re_publisher e)" "clean_invocation iv" "iv_ref iv = None" "iv_provider iv = Some nm" "nm \<noteq> []"
    and "re_results e = None" "re_providers e = Some reg" "dict_get (re_active e) nm = Some p"
    and "\<And>a ps rid st kw w. fst (pv_invoke p a ps rid st kw w) = Inr res" "pr_success res" "dict_has (pr_metadata res) ''data''"
    and "\<not> dict_has (pr_metadata res) ''cls''"
  shows "\<exists>e' kw. re_invoke env iv e = (Inl (multiple_values ''ProviderResult.ok'' ''data''), e') \<and> re_log e' = re_log e @ [(''resource.invoked'', kw)]"
proof -
  obtain cs :: call_spec where cs: "direct_call iv None = (Inr cs :: (provider_result, 'a) res_eff + call_spec)" "cs_provider cs = nm"
    using assms(5,6) by (cases nm) (auto simp: direct_call_def)
  define bc where "bc = bound_call env iv cs"
  have bc: "cs_provider bc = nm" using cs(2) by (simp add: bc_def bound_call_def Let_def)
  obtain kw where kw: "emit_keywords [event_base iv bc] = Inr kw" using emit_keywords_ok(1) [OF assms(3)] by blast
  obtain w where em: "re_emit ''resource.invoked'' [event_base iv bc] e = (Inr (), e\<lparr>re_log := re_log e @ [(''resource.invoked'', kw)], re_world := w\<rparr>)"
    using emit_ok [OF assms(2) kw] by blast
  obtain w2 where "pv_invoke p (cs_action bc) (cs_params bc) (cs_resource_id bc) (iv_state iv) (iv_kwargs iv) w = (Inr res, w2)"
    using assms(10) by (metis prod.collapse)
  then have call: "call_provider iv bc (e\<lparr>re_log := re_log e @ [(''resource.invoked'', kw)], re_world := w\<rparr>)
      = (Inr res, e\<lparr>re_log := re_log e @ [(''resource.invoked'', kw)], re_world := w2\<rparr>)"
    using assms(8,9) bc by (simp add: call_provider_def eff_bind_def use_provider_def on_world_def)
  have "dict_has (result_metadata iv bc (pr_metadata res)) ''data''" "\<not> dict_has (result_metadata iv bc (pr_metadata res)) ''cls''"
    using assms(12,13) by (auto simp: result_metadata_def dict_has_iff keys_update)
  then have "provider_ok (pr_data res) (result_metadata iv bc (pr_metadata res)) = Inl (multiple_values ''ProviderResult.ok'' ''data'')"
    by (simp add: provider_ok_def call_keywords_def)
  then have "perform env iv bc e = (Inl (multiple_values ''ProviderResult.ok'' ''data''), e\<lparr>re_log := re_log e @ [(''resource.invoked'', kw)], re_world := w2\<rparr>)"
    using em call assms(7,11) by (simp add: perform_def cached_result_def eff_bind_def conclude_def)
  then show ?thesis using assms(1,4) cs(1) by (simp add: re_invoke_def bc_def)
qed

definition bad_result :: provider_result where
  "bad_result = \<lparr>pr_success = True, pr_data = VNone, pr_error = None, pr_metadata = [(''data'', VInt 1)]\<rparr>"

definition bad_provider :: "nat provider_ops" where
  "bad_provider = demo_provider\<lparr>pv_invoke := (\<lambda>a ps rid st kw w. (Inr bad_result, w))\<rparr>"

lemma data_metadata_breaks_invoke_witness:
  "\<exists>e' kw. re_invoke demo_env demo_invocation (demo_engine\<lparr>re_results := None, re_active := [(''demo'', bad_provider)]\<rparr>)
      = (Inl (multiple_values ''ProviderResult.ok'' ''data''), e') \<and> re_log e' = [(''resource.invoked'', kw)]"
proof -
  let ?e = "demo_engine\<lparr>re_results := None, re_active := [(''demo'', bad_provider)]\<rparr>"
  obtain reg where "re_providers ?e = Some reg" by (simp add: demo_engine_def re_initialize_def re_bind_registry_def new_resource_engine_def Let_def)
  moreover have "re_initialized ?e" "quiet_publisher (re_publisher ?e)" "re_log ?e = []" "dict_get (re_active ?e) ''demo'' = Some bad_provider"
    by (simp_all add: demo_engine_def re_initialize_def re_bind_registry_def new_resource_engine_def Let_def quiet_publisher_def)
  ultimately show ?thesis
    using data_metadata_breaks_invoke [of ?e demo_invocation "''demo''" reg bad_provider bad_result demo_env] demo_clean(2)
    by (simp add: demo_invocation_def bad_provider_def bad_result_def dict_has_def)
qed

end
