(* ===== verification/Leaves.thy ===== *)
theory Leaves
  imports ResourceEngine WorkloadEngine BehaviorTree
begin

text \<open>
  The leaves of a behavior tree that call the core engines: \<open>resource_leaf.py\<close>, \<open>transform_leaf.py\<close> and
  \<open>workload_leaf.py\<close> of \<open>palm/core/behavior_tree/nodes/leaf\<close>, and the declarative transform steps of
  \<open>palm/common/transforms/builder.py\<close>. A tick maps the engine and the execution state to a status or an
  exception and to both afterwards. The audit records are the dictionaries the code writes.
\<close>

subsection \<open>Resource leaves\<close>

record resource_leaf =
  rl_name :: string
  rl_bound :: bool
  rl_ref :: "string option"
  rl_provider :: "string option"
  rl_action :: "string option"
  rl_resource_id :: "string option"
  rl_params :: pydict
  rl_output :: string
  rl_error :: "string option"
  rl_trace :: string
  rl_slug :: "string option"
  rl_wizard :: "string option"

definition nonempty_text :: "string option \<Rightarrow> bool" where
  "nonempty_text t = (case t of Some (c # cs) \<Rightarrow> True | _ \<Rightarrow> False)"

definition or_else :: "string option \<Rightarrow> string \<Rightarrow> string" where
  "or_else t d = (case t of Some (c # cs) \<Rightarrow> c # cs | _ \<Rightarrow> d)"

definition resource_trace_key :: "string \<Rightarrow> string" where
  "resource_trace_key nm = ''__bt_resource__:'' @ nm"

text \<open>The constructor; the output, trace and error keys are options here.\<close>

definition new_resource_leaf :: "string \<Rightarrow> bool \<Rightarrow> string option \<Rightarrow> string option \<Rightarrow> string option \<Rightarrow> string option \<Rightarrow> pydict
    \<Rightarrow> string option \<Rightarrow> string option \<Rightarrow> string option \<Rightarrow> string option \<Rightarrow> string option \<Rightarrow> resource_leaf result" where
  "new_resource_leaf nm bound ref provider action rid params output_key error_key trace_key slug wizard =
     (if \<not> nonempty_text ref \<and> \<not> nonempty_text provider
      then Inl (Exc PyValueError (''ResourceLeaf '' @ quoted nm @ '' requires resource_ref or provider''))
      else Inr \<lparr>rl_name = nm, rl_bound = bound, rl_ref = ref, rl_provider = provider, rl_action = action, rl_resource_id = rid,
        rl_params = params, rl_output = or_else output_key nm, rl_error = error_key,
        rl_trace = (case trace_key of Some k \<Rightarrow> k | None \<Rightarrow> resource_trace_key nm), rl_slug = slug, rl_wizard = wizard\<rparr>)"

definition resource_target :: "resource_leaf \<Rightarrow> string" where
  "resource_target lf = or_else (rl_ref lf) (or_else (rl_provider lf) (rl_name lf))"

definition set_error :: "string option \<Rightarrow> string \<Rightarrow> dict_state \<Rightarrow> dict_state" where
  "set_error k msg s = (if nonempty_text k then st_set (or_else k []) (VStr msg) s else s)"

definition clear_error :: "string option \<Rightarrow> dict_state \<Rightarrow> dict_state" where
  "clear_error k s = (if nonempty_text k then st_delete (or_else k []) s else s)"

definition resource_fail :: "resource_leaf \<Rightarrow> string \<Rightarrow> dict_state \<Rightarrow> pattern_status \<times> dict_state" where
  "resource_fail lf msg s = (FAILURE, set_error (rl_error lf)
     (''Resource '' @ quoted (resource_target lf) @ '' (action='' @ or_else (rl_action lf) ''invoke'' @ '') failed: '' @ msg) s)"

definition copied_fields :: "string list" where
  "copied_fields = [''nested_park'', ''child_job_id'', ''child_instance_id'', ''child_job_href'', ''child_instance_href'']"

definition invoke_chain :: "pyval \<Rightarrow> pyval" where
  "invoke_chain data = (case data of VDict d \<Rightarrow> (case py_get d ''invoke_chain'' of VList xs \<Rightarrow> VList xs | _ \<Rightarrow> VNone) | _ \<Rightarrow> VNone)"

definition resource_trace :: "resource_leaf \<Rightarrow> provider_result \<Rightarrow> pydict" where
  "resource_trace lf res =
     (let md = pr_metadata res;
          base = [(''success'', VBool (pr_success res)), (''resource_ref'', opt_str_val (rl_ref lf)),
            (''provider'', py_or (opt_str_val (rl_provider lf)) (py_get md ''provider'')),
            (''action'', py_or (py_or (opt_str_val (rl_action lf)) (py_get md ''action'')) (VStr ''fetch'')),
            (''definition_id'', py_get md ''definition_id''), (''definition_name'', py_get md ''definition_name''),
            (''resource_id'', py_get md ''resource_id''), (''output_key'', VStr (rl_output lf)), (''error'', opt_str_val (pr_error res)),
            (''invoke_depth'', py_get md ''invoke_depth''), (''invoke_chain'', invoke_chain (pr_data res)),
            (''parent_job_id'', py_get md ''parent_job_id''), (''mode'', py_get md ''mode''), (''wait_mode'', py_get md ''wait_mode''),
            (''nested_park'', py_get md ''nested_park''), (''child_job_id'', py_get md ''child_job_id''),
            (''child_instance_id'', py_get md ''child_instance_id'')]
      in (case pr_data res of
            VDict d \<Rightarrow> fold (\<lambda>k t. if dict_has d k then dict_set k (py_get d k) t else t) copied_fields base
          | _ \<Rightarrow> base))"

definition should_park :: "provider_result \<Rightarrow> bool" where
  "should_park res = (truthy (py_get (pr_metadata res) ''nested_park'') \<or>
     (case pr_data res of VDict d \<Rightarrow> truthy (py_get d ''nested_park'') | _ \<Rightarrow> False))"

definition leaf_invocation :: "resource_leaf \<Rightarrow> dict_state \<Rightarrow> invocation" where
  "leaf_invocation lf s = \<lparr>iv_ref = rl_ref lf, iv_provider = rl_provider lf, iv_action = rl_action lf, iv_params = rl_params lf,
     iv_state = Some (st_data s), iv_resource_id = rl_resource_id lf,
     iv_correlation = resource_correlation (Some (st_data s)) (rl_wizard lf) (Some (or_else (rl_slug lf) (rl_name lf))) [],
     iv_kwargs = []\<rparr>"

definition no_options :: "'w resource_options" where
  "no_options = \<lparr>io_resolver = None, io_publisher = None, io_emit = None, io_cache = None\<rparr>"

definition resource_outcome :: "resource_leaf \<Rightarrow> provider_result \<Rightarrow> dict_state \<Rightarrow> pattern_status \<times> dict_state" where
  "resource_outcome lf res s =
     (let s1 = st_set (rl_trace lf) (VDict (resource_trace lf res)) s in
      if \<not> pr_success res then resource_fail lf (or_else (pr_error res) ''Resource invocation failed'') s1
      else (if should_park res then WAITING else SUCCESS, clear_error (rl_error lf) (st_set (rl_output lf) (pr_data res) s1)))"

definition resource_tick :: "'w res_env \<Rightarrow> resource_leaf \<Rightarrow> 'w resource_engine \<Rightarrow> dict_state
    \<Rightarrow> pattern_status result \<times> 'w resource_engine \<times> dict_state" where
  "resource_tick env lf e s =
     (if \<not> rl_bound lf then (case resource_fail lf ''ResourceInvoker is not configured'' s of (st, s1) \<Rightarrow> (Inr st, e, s1))
      else case re_invoke env (leaf_invocation lf s) (re_initialize no_options e) of
        (Inl x, e1) \<Rightarrow> (Inl x, e1, s)
      | (Inr res, e1) \<Rightarrow> (case resource_outcome lf res s of (st, s1) \<Rightarrow> (Inr st, e1, s1)))"

subsection \<open>Workload leaves\<close>

record workload_leaf =
  lf_name :: string
  lf_bound :: bool
  lf_spec :: spec
  lf_owner :: owner
  lf_output :: string
  lf_error :: "string option"
  lf_trace :: string
  lf_wait_ready :: bool
  lf_stop_when_done :: bool
  lf_idempotency :: "string option"

definition new_workload_leaf :: "(pyval \<Rightarrow> string) \<Rightarrow> (string \<Rightarrow> int option) \<Rightarrow> (string \<Rightarrow> rat option) \<Rightarrow> string \<Rightarrow> bool \<Rightarrow> (spec + pydict) option \<Rightarrow> (owner + pydict) option \<Rightarrow> string option
    \<Rightarrow> string option \<Rightarrow> string option \<Rightarrow> bool \<Rightarrow> bool \<Rightarrow> string option \<Rightarrow> workload_leaf result" where
  "new_workload_leaf r pint pfl nm bound sp ow output_key error_key trace_key wait_ready stop_when_done idem =
     attempt (case sp of None \<Rightarrow> Inl (Exc PyValueError (''WorkloadLeaf '' @ quoted nm @ '' requires a WorkloadSpec''))
       | Some (Inl s) \<Rightarrow> Inr s | Some (Inr d) \<Rightarrow> spec_from_dict r pint pfl (VDict d)) (\<lambda>s.
     attempt (case ow of None \<Rightarrow> Inr default_owner | Some (Inl w) \<Rightarrow> Inr w | Some (Inr d) \<Rightarrow> Inr (owner_from_dict r (Some d))) (\<lambda>w.
       Inr \<lparr>lf_name = nm, lf_bound = bound, lf_spec = s, lf_owner = w, lf_output = or_else output_key nm, lf_error = error_key,
         lf_trace = (case trace_key of Some k \<Rightarrow> k | None \<Rightarrow> ''__bt_workload__:'' @ nm), lf_wait_ready = wait_ready,
         lf_stop_when_done = stop_when_done, lf_idempotency = idem\<rparr>))"

definition workload_id_key :: "workload_leaf \<Rightarrow> string" where
  "workload_id_key lf = ''__bt_workload__:'' @ lf_name lf @ '':id''"

definition workload_fail :: "workload_leaf \<Rightarrow> string \<Rightarrow> bool \<Rightarrow> dict_state \<Rightarrow> pattern_status \<times> dict_state" where
  "workload_fail lf msg traced s =
     (let s1 = set_error (lf_error lf) (''Workload '' @ quoted (lf_name lf) @ '' failed: '' @ msg) s in
      (FAILURE, if traced then s1
        else st_set (lf_trace lf) (VDict [(''success'', VBool False), (''error'', VStr msg), (''workload_id'', st_get (workload_id_key lf) VNone s1)]) s1))"

definition result_part :: "workload \<Rightarrow> pydict" where
  "result_part w = (case py_get (workload_to_dict w) ''result'' of VDict d \<Rightarrow> d | _ \<Rightarrow> [])"

definition workload_trace :: "workload \<Rightarrow> pydict" where
  "workload_trace w =
     (let payload = workload_to_dict w; res = result_part w;
          base = [(''workload_id'', py_get payload ''workload_id''), (''status'', VStr (wl_status_value (wl_status w))),
            (''runtime'', py_get payload ''runtime''), (''kind'', VStr (kind_value (sp_kind (wl_spec w)))), (''success'', VNone),
            (''exit_code'', VNone), (''error'', py_get payload ''message'')]
      in if res = [] then base
         else let t1 = dict_set ''exit_code'' (py_get res ''exit_code'') base in
           if truthy (py_get res ''error'') then dict_set ''error'' (py_get res ''error'') t1 else t1)"

definition workload_ok :: "workload \<Rightarrow> bool" where
  "workload_ok w = (wl_status w = W_STOPPED \<and> py_get (result_part w) ''exit_code'' \<in> {VNone, VInt 0})"

definition report :: "workload_leaf \<Rightarrow> workload \<Rightarrow> bool \<Rightarrow> dict_state \<Rightarrow> dict_state" where
  "report lf w ok s = st_set (lf_output lf) (VDict (workload_to_dict w))
     (st_set (lf_trace lf) (VDict (dict_set ''success'' (VBool ok) (workload_trace w))) s)"

text \<open>
  \<open>_interpret\<close> and \<open>_stop_and_finish\<close> call each other: with a driver whose \<open>stop\<close> leaves the workload ready
  they would never return, which is None.
\<close>

partial_function (option) wl_interpret :: "(pyval \<Rightarrow> string) \<Rightarrow> workload_leaf \<Rightarrow> workload \<Rightarrow> 'w wl_engine \<Rightarrow> dict_state
    \<Rightarrow> (pattern_status result \<times> 'w wl_engine \<times> dict_state) option" where
  "wl_interpret r lf w e s =
     (if wl_status w = W_READY \<and> lf_stop_when_done lf
      then (case wl_stop (wl_id w) e of
          (Inl x, e1) \<Rightarrow> Some (if isinstance x WorkloadError then (case workload_fail lf (exc_msg x) False s of (st, s1) \<Rightarrow> (Inr st, e1, s1)) else (Inl x, e1, s))
        | (Inr w1, e1) \<Rightarrow> wl_interpret r lf w1 e1 s)
      else if wl_status w = W_READY \<and> lf_wait_ready lf
      then Some (Inr SUCCESS, e, clear_error (lf_error lf) (report lf w True s))
      else if wl_status w = W_READY \<and> sp_kind (lf_spec lf) \<in> {K_WORKSPACE, K_SERVICE}
      then Some (Inr SUCCESS, e, report lf w True s)
      else if wl_terminal (wl_status w)
      then Some (if workload_ok w then (Inr SUCCESS, e, clear_error (lf_error lf) (report lf w True s))
        else (case workload_fail lf (py_str r (py_or (py_get (workload_trace w) ''error'') (VStr (''Workload '' @ wl_status_value (wl_status w))))) True (report lf w False s) of
            (st, s1) \<Rightarrow> (Inr st, e, s1)))
      else Some (Inr RUNNING_STATUS, e, st_set (lf_trace lf) (VDict (dict_set ''success'' VNone (workload_trace w))) s))"

definition workload_tick :: "(pyval \<Rightarrow> string) \<Rightarrow> string \<Rightarrow> workload_leaf \<Rightarrow> 'w wl_engine \<Rightarrow> dict_state
    \<Rightarrow> (pattern_status result \<times> 'w wl_engine \<times> dict_state) option" where
  "workload_tick r gen lf e s =
     (if \<not> lf_bound lf then Some (case workload_fail lf ''WorkloadDriver is not configured'' False s of (st, s1) \<Rightarrow> (Inr st, e, s1))
      else let e0 = wl_initialize False None None [] e; wid = st_get (workload_id_key lf) VNone s in
        if \<not> truthy wid
        then (case wl_start (lf_spec lf) (Some (lf_owner lf)) None (lf_idempotency lf) None gen e0 of
            (Inl x, e1) \<Rightarrow> Some (case workload_fail lf (exc_msg x) False s of (st, s1) \<Rightarrow> (Inr st, e1, s1))
          | (Inr w, e1) \<Rightarrow> wl_interpret r lf w e1 (st_set (workload_id_key lf) (VStr (wl_id w)) s))
        else (case status_of (py_str r wid) True e0 of
            (Inl x, e1) \<Rightarrow> Some (case workload_fail lf (exc_msg x) False s of (st, s1) \<Rightarrow> (Inr st, e1, s1))
          | (Inr w, e1) \<Rightarrow> wl_interpret r lf w e1 s))"

subsection \<open>Transform leaves\<close>

record transform_leaf =
  tl_name :: string
  tl_source :: string
  tl_target :: string
  tl_rule :: "string option"
  tl_chain :: "string list option"
  tl_scoped :: bool
  tl_validate :: bool
  tl_batch :: pyval
  tl_per_item :: pyval
  tl_options :: pydict
  tl_by_rule :: "(string, pydict) dict"
  tl_skip :: bool
  tl_trace :: string
  tl_error :: "string option"
  tl_resources :: "pyval option"

definition transform_trace_key :: "string \<Rightarrow> string" where
  "transform_trace_key nm = ''__bt_transform__:'' @ nm"

definition new_transform_leaf :: "string \<Rightarrow> string \<Rightarrow> string option \<Rightarrow> string option \<Rightarrow> string list option \<Rightarrow> bool \<Rightarrow> bool \<Rightarrow> pyval \<Rightarrow> pyval
    \<Rightarrow> pydict \<Rightarrow> (string, pydict) dict \<Rightarrow> bool \<Rightarrow> string option \<Rightarrow> string option \<Rightarrow> pyval option \<Rightarrow> transform_leaf result" where
  "new_transform_leaf nm src target rule chain scoped validate batch per_item options by_rule skip trace_key error_key resources =
     (let chained = (case chain of Some (c # cs) \<Rightarrow> True | _ \<Rightarrow> False) in
      if src = [] then Inl (Exc PyValueError (''TransformLeaf '' @ quoted nm @ '' requires a non-empty source_key''))
      else if \<not> nonempty_text rule \<and> \<not> chained
      then Inl (Exc PyValueError (''TransformLeaf '' @ quoted nm @ '' requires rule or chain (source_key='' @ quoted src @ '')''))
      else if nonempty_text rule \<and> chained
      then Inl (Exc PyValueError (''TransformLeaf '' @ quoted nm @ '' accepts rule or chain, not both (rule='' @ quoted (or_else rule [])
        @ '', chain='' @ list_repr (case chain of Some cs \<Rightarrow> cs | None \<Rightarrow> []) @ '')''))
      else Inr \<lparr>tl_name = nm, tl_source = src, tl_target = or_else target src, tl_rule = rule, tl_chain = chain, tl_scoped = scoped,
        tl_validate = validate, tl_batch = batch, tl_per_item = per_item, tl_options = options, tl_by_rule = by_rule, tl_skip = skip,
        tl_trace = (case trace_key of Some k \<Rightarrow> k | None \<Rightarrow> transform_trace_key nm), tl_error = error_key, tl_resources = resources\<rparr>)"

definition runtime_options :: "transform_leaf \<Rightarrow> pydict" where
  "runtime_options lf = (case tl_resources lf of None \<Rightarrow> tl_options lf | Some v \<Rightarrow> dict_set ''resource_engine'' v (tl_options lf))"

definition should_use_batch :: "transform_class registry \<Rightarrow> transform_leaf \<Rightarrow> dict_state \<Rightarrow> bool result" where
  "should_use_batch reg lf s =
     (if tl_batch lf = VBool True then Inr True
      else if tl_batch lf = VBool False then Inr False
      else if \<not> is_list (read_state_value (tl_source lf) (tl_scoped lf) VNone s) then Inr False
      else if tl_chain lf \<noteq> None then Inr True
      else case tl_rule lf of None \<Rightarrow> Inr False
      | Some rule \<Rightarrow> attempt (resolve reg rule (runtime_options lf)) (\<lambda>ru.
          Inr (if tl_per_item lf \<noteq> VNone then truthy (tl_per_item lf) else ru_mode ru = MODE_SINGLE)))"

definition leaf_options :: "transform_leaf \<Rightarrow> state_options" where
  "leaf_options lf = \<lparr>so_target = Some (tl_target lf), so_scoped = tl_scoped lf, so_validate = tl_validate lf, so_skip = tl_skip lf,
     so_trace = Some (tl_trace lf)\<rparr>"

definition state_keywords :: "string list" where
  "state_keywords = [''state'', ''source_key'', ''target_key'', ''scoped'', ''validate_output'', ''skip_if_missing'', ''trace_key'']"

definition run_single :: "(pyval \<Rightarrow> string) \<Rightarrow> transform_class registry \<Rightarrow> pyval \<Rightarrow> transform_leaf \<Rightarrow> transform_result option st_eff" where
  "run_single r reg self lf s =
     (case tl_chain lf of
        Some nms \<Rightarrow> (case call_keywords ''TransformEngine.apply_chain_to_state'' ([''self'', ''names'', ''options_by_rule''] @ state_keywords) (runtime_options lf) of
            Inl x \<Rightarrow> (Inl x, s) | Inr _ \<Rightarrow> apply_chain_to_state r reg self nms (tl_source lf) (leaf_options lf) (runtime_options lf) (tl_by_rule lf) s)
      | None \<Rightarrow> (case call_keywords ''TransformEngine.apply_to_state'' ([''self'', ''name''] @ state_keywords) (runtime_options lf) of
            Inl x \<Rightarrow> (Inl x, s) | Inr _ \<Rightarrow> apply_to_state r reg self (or_else (tl_rule lf) []) (tl_source lf) (leaf_options lf) (runtime_options lf) s))"

fun chain_items :: "transform_class registry \<Rightarrow> pyval \<Rightarrow> string list \<Rightarrow> pydict \<Rightarrow> (string, pydict) dict \<Rightarrow> pyval list \<Rightarrow> transform_result list st_eff" where
  "chain_items reg self nms options by_rule [] s = (Inr [], s)"
| "chain_items reg self nms options by_rule (v # vs) s = (case apply_chain reg self nms options by_rule v True s of
     (Inl x, s1) \<Rightarrow> (Inl x, s1)
   | (Inr y, s1) \<Rightarrow> map_prod (map_sum id (Cons y)) id (chain_items reg self nms options by_rule vs s1))"

definition run_chain_per_item :: "(pyval \<Rightarrow> string) \<Rightarrow> transform_class registry \<Rightarrow> pyval \<Rightarrow> transform_leaf \<Rightarrow> string list \<Rightarrow> transform_result option st_eff" where
  "run_chain_per_item r reg self lf nms s =
     (case read_state_value (tl_source lf) (tl_scoped lf) VNone s of
        VNone \<Rightarrow> if tl_skip lf then (Inr None, s) else (Inl (source_missing (tl_source lf)), s)
      | VList items \<Rightarrow>
         (case chain_items reg self nms (runtime_options lf) (tl_by_rule lf) items s of
            (Inl x, s1) \<Rightarrow> (Inl x, s1)
          | (Inr ys, s1) \<Rightarrow>
             (let out = VList (map tr_value ys);
                  ctx = advance (tl_name lf) out [(''mode'', VStr ''chain_per_item''), (''count'', VInt (int (length ys)))] (new_context (VList items) True);
                  trace = VDict [(''mode'', VStr ''chain_per_item''), (''items'', VList (map (\<lambda>y. to_trace (tr_context y)) ys)), (''value'', out)]
              in case write_state_value r (tl_target lf) out (tl_scoped lf) (tl_validate lf) s1 of
                   (Inl x, s2) \<Rightarrow> (Inl x, s2)
                 | (Inr _, s2) \<Rightarrow> (case write_state_value r (tl_trace lf) trace (tl_scoped lf) False s2 of
                     (Inl x, s3) \<Rightarrow> (Inl x, s3)
                   | (Inr _, s3) \<Rightarrow> (Inr (Some (plain_transform ctx)), s3))))
      | v \<Rightarrow> (Inl (transform_error (''Per-item chain requires a list at '' @ quoted (tl_source lf) @ '', got '' @ type_name v)), s))"

definition run_batch :: "(pyval \<Rightarrow> string) \<Rightarrow> transform_class registry \<Rightarrow> pyval \<Rightarrow> transform_leaf \<Rightarrow> transform_result option st_eff" where
  "run_batch r reg self lf s =
     (case tl_chain lf of
        Some nms \<Rightarrow> run_chain_per_item r reg self lf nms s
      | None \<Rightarrow> (case call_keywords ''TransformEngine.apply_batch_to_state'' ([''self'', ''name'', ''per_item''] @ state_keywords) (runtime_options lf) of
            Inl x \<Rightarrow> (Inl x, s)
          | Inr _ \<Rightarrow> apply_batch_to_state r reg self (or_else (tl_rule lf) []) (tl_source lf) (leaf_options lf)
              (Some (if tl_per_item lf = VNone then True else truthy (tl_per_item lf))) (runtime_options lf) s))"

text \<open>The arrow of the message is a single character in the source.\<close>

definition transform_fail :: "transform_leaf \<Rightarrow> string \<Rightarrow> dict_state \<Rightarrow> pattern_status \<times> dict_state" where
  "transform_fail lf msg s = (FAILURE, set_error (tl_error lf)
     (''Transform '' @ quoted (tl_name lf) @ '' failed for '' @ quoted (tl_source lf) @ '' -> '' @ quoted (tl_target lf) @ '': '' @ msg) s)"

definition caught_by_leaf :: "exc \<Rightarrow> bool" where
  "caught_by_leaf x = (isinstance x TransformApplicationError \<or> isinstance x TransformError \<or> isinstance x StateValidationError)"

definition transform_tick :: "(pyval \<Rightarrow> string) \<Rightarrow> transform_class registry \<Rightarrow> pyval \<Rightarrow> transform_leaf \<Rightarrow> dict_state \<Rightarrow> pattern_status result \<times> dict_state" where
  "transform_tick r reg self lf s =
     (case (case should_use_batch reg lf s of Inl x \<Rightarrow> (Inl x, s)
        | Inr b \<Rightarrow> if b then run_batch r reg self lf s else run_single r reg self lf s) of
        (Inr _, s1) \<Rightarrow> (Inr SUCCESS, s1)
      | (Inl x, s1) \<Rightarrow> if caught_by_leaf x then map_prod Inr id (transform_fail lf (exc_msg x) s1) else (Inl x, s1))"

subsection \<open>Transform steps\<close>

record transform_step =
  ts_name :: string
  ts_source :: string
  ts_target :: "string option"
  ts_rule :: "string option"
  ts_chain :: "string list"
  ts_scoped :: bool
  ts_validate :: bool
  ts_batch :: pyval
  ts_per_item :: pyval
  ts_skip :: bool
  ts_trace :: "string option"
  ts_error :: "string option"
  ts_options :: "pydict option"
  ts_by_rule :: "(string, pydict) dict option"

definition build_error :: "string \<Rightarrow> exc" where
  "build_error m = Exc DefinitionBuildError m"

definition check_step :: "transform_step \<Rightarrow> transform_step result" where
  "check_step t =
     (if ts_name t = [] then Inl (build_error ''Transform step requires a non-empty name'')
      else if ts_source t = [] then Inl (build_error (''Transform step '' @ quoted (ts_name t) @ '' requires source_key''))
      else if \<not> nonempty_text (ts_rule t) \<and> ts_chain t = [] then Inl (build_error (''Transform step '' @ quoted (ts_name t) @ '' requires rule or chain''))
      else if nonempty_text (ts_rule t) \<and> ts_chain t \<noteq> [] then Inl (build_error (''Transform step '' @ quoted (ts_name t) @ '' accepts rule or chain, not both''))
      else Inr t)"

definition some_text :: "(pyval \<Rightarrow> string) \<Rightarrow> pyval \<Rightarrow> string option" where
  "some_text r v = (if truthy v then Some (py_str r v) else None)"

fun rule_options :: "pydict \<Rightarrow> (string, pydict) dict result" where
  "rule_options [] = Inr []"
| "rule_options ((k, v) # d) = attempt (py_dict v) (\<lambda>o'. attempt (rule_options d) (\<lambda>m. Inr ((k, o') # m)))"

definition step_from_mapping :: "(pyval \<Rightarrow> string) \<Rightarrow> pydict \<Rightarrow> transform_step result" where
  "step_from_mapping r data =
     (let nm = py_or (py_get data ''name'') (py_get data ''slug''); src = py_get data ''source_key'' in
      if \<not> truthy nm then Inl (build_error (''Transform step dict requires '' @ quoted ''name'' @ '' or '' @ quoted ''slug''))
      else if \<not> truthy src then Inl (build_error (''Transform step '' @ py_repr r nm @ '' requires source_key''))
      else attempt (case py_get data ''options_by_rule'' of VDict d \<Rightarrow> map_sum id Some (rule_options d) | _ \<Rightarrow> Inr None) (\<lambda>by_rule.
        check_step \<lparr>ts_name = py_str r nm, ts_source = py_str r src, ts_target = some_text r (py_get data ''target_key''),
          ts_rule = some_text r (py_get data ''rule''),
          ts_chain = (case py_get data ''chain'' of VList xs \<Rightarrow> map (py_str r) xs | _ \<Rightarrow> []),
          ts_scoped = truthy (py_get data ''scoped''), ts_validate = truthy (get_default data ''validate_output'' (VBool True)),
          ts_batch = py_get data ''batch'', ts_per_item = py_get data ''per_item'', ts_skip = truthy (py_get data ''skip_if_missing''),
          ts_trace = some_text r (py_get data ''trace_key''), ts_error = some_text r (py_get data ''error_key''),
          ts_options = (case py_get data ''options'' of VDict d \<Rightarrow> Some d | _ \<Rightarrow> None), ts_by_rule = by_rule\<rparr>))"

definition build_transform_leaf :: "pyval option \<Rightarrow> transform_step \<Rightarrow> transform_leaf result" where
  "build_transform_leaf resources t = new_transform_leaf (ts_name t) (ts_source t) (ts_target t) (ts_rule t)
     (if ts_chain t = [] then None else Some (ts_chain t)) (ts_scoped t) (ts_validate t) (ts_batch t) (ts_per_item t)
     (case ts_options t of Some d \<Rightarrow> d | None \<Rightarrow> []) (case ts_by_rule t of Some m \<Rightarrow> m | None \<Rightarrow> []) (ts_skip t) (ts_trace t) (ts_error t) resources"

definition build_transform_leaves :: "(pyval \<Rightarrow> string) \<Rightarrow> pyval option \<Rightarrow> (transform_step + pydict) list \<Rightarrow> transform_leaf list result" where
  "build_transform_leaves r resources = map_result (\<lambda>x.
     attempt (case x of Inl t \<Rightarrow> Inr t | Inr d \<Rightarrow> step_from_mapping r d) (build_transform_leaf resources))"

end
