(* ===== verification/LeafProps.thy ===== *)
theory LeafProps
  imports Leaves ResourceProps WorkloadDemo TransformProps
begin

text \<open>
  What the leaves that call engines promise: a resource leaf never raises and stores what it got, a
  workload leaf returns whatever its driver does, a transform leaf over rules that leave the state
  alone is all or nothing (the locale \<open>quiet_rules\<close>, interpreted on the built-in rules), and two
  defects: a failed workload is never started again, and a transform leaf with a resource engine
  cannot use the rules with strict options.
\<close>

lemmas st_simps = st_get_def st_set_def st_delete_def st_notify_def

lemma get_set [simp]: "st_get k d (st_set k' v s) = (if k = k' then v else st_get k d s)"
  by (simp add: st_simps)

lemma get_pop [simp]: "get_default (AList.delete k' m) k v = (if k = k' then v else get_default m k v)"
  by (simp add: get_default_def)

lemma get_delete [simp]: "st_get k d (st_delete k' s) = (if k = k' then d else st_get k d s)"
  by (simp add: st_simps)

lemma get_clear_error: "k \<noteq> or_else e [] \<Longrightarrow> st_get k d (clear_error e s) = st_get k d s"
  by (simp add: clear_error_def)

lemma get_set_error: "k \<noteq> or_else e [] \<Longrightarrow> st_get k d (set_error e m s) = st_get k d s"
  by (simp add: set_error_def)

subsection \<open>Resource leaves\<close>

lemma leaf_clean: "clean_invocation (leaf_invocation lf s)"
proof -
  have "dict_has (dict_update d []) k = dict_has d k" for d :: pydict and k by simp
  moreover have "fst ` set (iv_correlation (leaf_invocation lf s)) \<subseteq> {''job_id'', ''instance_id'', ''trace_id'', ''flow'', ''wizard'', ''step_slug''}"
    by (auto simp: leaf_invocation_def resource_correlation_def set_some_def correlation_fields_def AList.dom_update split: option.splits
        dest!: subsetD [OF dict_set_items])
  ultimately show ?thesis by (auto simp: clean_invocation_def dict_has_iff reserved_fields_def)
qed

lemma init_clean:
  assumes "clean_engine e"
  shows "clean_engine (re_initialize no_options e)" "re_initialized (re_initialize no_options e)"
    "re_log (re_initialize no_options e) = re_log e"
  using assms by (auto simp: re_initialize_def no_options_def Let_def clean_engine_def new_cache_def)

text \<open>
  A tick of a resource leaf whose engine is clean never raises; the status is a failure exactly if the
  invocation was not successful, the leaf waits exactly if the result asks to park, and on success the
  data of the result is at the output key; in every case the trace tells the outcome and the events
  of the engine agree with it.
\<close>
theorem resource_leaf_reports:
  assumes "clean_engine e" "rl_bound lf" "rl_trace lf \<noteq> rl_output lf" "or_else (rl_error lf) [] \<notin> {rl_output lf, rl_trace lf}"
  shows "\<exists>st e' s' res. resource_tick env lf e s = (Inr st, e', s') \<and> clean_engine e' \<and> told e e' res
    \<and> st = (if \<not> pr_success res then FAILURE else if should_park res then WAITING else SUCCESS)
    \<and> (pr_success res \<longrightarrow> st_get (rl_output lf) VNone s' = pr_data res)
    \<and> st_get (rl_trace lf) VNone s' = VDict (resource_trace lf res)"
proof -
  let ?e = "re_initialize no_options e"
  obtain res e' where run: "re_invoke env (leaf_invocation lf s) ?e = (Inr res, e')" "clean_engine e'" "told ?e e' res"
    using invoke_tells [OF init_clean(2) [OF assms(1)] init_clean(1) [OF assms(1)] leaf_clean] by blast
  have "told e e' res" using run(3) unfolding told_def published_def init_clean(3) [OF assms(1)] .
  obtain st s' where out: "resource_outcome lf res s = (st, s')" by (cases "resource_outcome lf res s")
  then have "st = (if \<not> pr_success res then FAILURE else if should_park res then WAITING else SUCCESS)
    \<and> (pr_success res \<longrightarrow> st_get (rl_output lf) VNone s' = pr_data res) \<and> st_get (rl_trace lf) VNone s' = VDict (resource_trace lf res)"
    using assms(3,4) by (auto simp: resource_outcome_def resource_fail_def get_clear_error get_set_error Let_def split: if_splits)
  moreover have "resource_tick env lf e s = (Inr st, e', s')" using assms(2) run(1) out by (simp add: resource_tick_def)
  ultimately show ?thesis using run(2) \<open>told e e' res\<close> by blast
qed

subsection \<open>Workload leaves\<close>

text \<open>A stop of a consistent engine that returns leaves the workload terminal, so the leaf asks at most once.\<close>

lemma interpret_not_stopping:
  assumes "wl_status w \<noteq> W_READY \<or> \<not> lf_stop_when_done lf"
  shows "\<exists>st s'. wl_interpret r lf w e s = Some (Inr st, e, s') \<and> (st = SUCCESS \<longrightarrow>
      (workload_ok w \<or> (wl_status w = W_READY \<and> (lf_wait_ready lf \<or> sp_kind (lf_spec lf) \<noteq> K_RUN))) \<and>
      (or_else (lf_error lf) [] \<noteq> lf_output lf \<longrightarrow> st_get (lf_output lf) VNone s' = VDict (workload_to_dict w)))"
  using assms by (subst wl_interpret.simps) (auto simp: report_def get_clear_error workload_fail_def Let_def split: prod.split)

lemma interpret_returns:
  assumes "wl_wf e"
  shows "\<exists>out. wl_interpret r lf w e s = Some out"
proof (cases "wl_status w = W_READY \<and> lf_stop_when_done lf")
  case True
  obtain x e1 where stop: "wl_stop (wl_id w) e = (x, e1)" by (cases "wl_stop (wl_id w) e")
  show ?thesis
  proof (cases x)
    case (Inr w1)
    then have "stop_unlocked (wl_id w) e = (Inr w1, e1)" using stop by (simp add: wl_stop_def split: if_splits)
    then have "wl_terminal (wl_status w1)" using stop_unlocked_keeps(2) [OF assms, of "wl_id w" w1] by simp
    then have "wl_status w1 \<noteq> W_READY" by (auto simp: wl_terminal_def)
    then show ?thesis using interpret_not_stopping [of w1 lf r e1 s] True stop Inr by (subst wl_interpret.simps) auto
  qed (use True stop in \<open>subst wl_interpret.simps, simp split: prod.split\<close>)
next
  case False
  then show ?thesis using interpret_not_stopping [of w lf r e s] by blast
qed

lemma init_on: "wl_on e \<Longrightarrow> wl_initialize False None None [] e = e"
  by (simp add: wl_initialize_def)

lemma init_wl_wf: "wl_wf e \<Longrightarrow> wl_wf (wl_initialize False None None [] e)"
  by (simp add: wl_initialize_def wl_wf_def)

text \<open>
  A tick of a workload leaf over a consistent engine returns, whatever the runtimes answer: at most one
  stop is asked for, and no answer sends the leaf into a loop.
\<close>
theorem workload_leaf_returns:
  assumes "wl_wf e"
  shows "\<exists>x e' s'. workload_tick r gen lf e s = Some (x, e', s')"
proof -
  let ?e = "wl_initialize False None None [] e"
  have "wl_wf (snd (wl_start sp ow wid key host gen ?e))" for sp ow wid key host
    using start_keeps [of ?e sp ow wid key host gen] init_wl_wf [OF assms] by (simp add: keeps_def)
  moreover have "wl_wf (snd (status_of i True ?e))" for i
    using status_keeps [OF init_wl_wf [OF assms], of i True] init_wl_wf [OF assms] by (simp add: keeps_def)
  moreover obtain x1 e1 where st: "wl_start (lf_spec lf) (Some (lf_owner lf)) None (lf_idempotency lf) None gen ?e = (x1, e1)"
    by (cases "wl_start (lf_spec lf) (Some (lf_owner lf)) None (lf_idempotency lf) None gen ?e")
  moreover obtain x2 e2 where po: "status_of (py_str r (st_get (workload_id_key lf) VNone s)) True ?e = (x2, e2)"
    by (cases "status_of (py_str r (st_get (workload_id_key lf) VNone s)) True ?e")
  ultimately have "wl_wf e1" "wl_wf e2" by (metis snd_conv)+
  then have "\<exists>out. wl_interpret r lf w e1 s1 = Some out" "\<exists>out. wl_interpret r lf w e2 s1 = Some out" for w s1
    using interpret_returns by blast+
  then have "\<exists>out. workload_tick r gen lf e s = Some out"
    using st po by (cases x1; cases x2) (auto simp: workload_tick_def Let_def split: prod.split)
  then show ?thesis by auto
qed

text \<open>
  A workload that has failed is never started again by its leaf: the id stays in the state, so every
  further tick only reads the finished workload and fails again, and the engine is not touched. A
  retry around the leaf repeats the old answer.
\<close>
theorem failed_workload_is_final:
  assumes "wl_on e" "lf_bound lf" "dict_get (workloads e) i = Some w" "wl_terminal (wl_status w)" "\<not> workload_ok w"
    and "st_get (workload_id_key lf) VNone s = VStr i" "i \<noteq> []"
    and "workload_id_key lf \<notin> {lf_output lf, lf_trace lf, or_else (lf_error lf) []}"
  shows "\<exists>s'. workload_tick r gen lf e s = Some (Inr FAILURE, e, s') \<and> st_get (workload_id_key lf) VNone s' = VStr i"
proof -
  have "status_of i True e = (Inr w, e)" using assms(1,3,4) by (simp add: status_of_def wl_require_def)
  moreover have "wl_status w \<noteq> W_READY" "wl_status w \<noteq> W_STOPPED \<or> \<not> workload_ok w" using assms(4,5) by (auto simp: wl_terminal_def)
  moreover have "\<exists>s'. wl_interpret r lf w e s = Some (Inr FAILURE, e, s') \<and> st_get (workload_id_key lf) VNone s' = VStr i"
    using assms(4-8) \<open>wl_status w \<noteq> W_READY\<close> by (subst wl_interpret.simps) (simp add: workload_fail_def report_def get_set_error Let_def)
  ultimately show ?thesis using assms(1,2,6,7) by (simp add: workload_tick_def init_on Let_def)
qed

subsection \<open>Transform leaves\<close>

lemma strict_rules:
  assumes "rule \<in> {''rename_field'', ''map_fields'', ''filter_items''}"
  shows "\<exists>cls c req opt build. dict_get (builtin_rules objs r) rule = Some cls \<and> (\<forall>o'. cls o' = from_options c req opt build o')
    \<and> ''resource_engine'' \<notin> set (req @ opt)"
proof -
  have "\<exists>req opt build. (\<forall>o'. rename_field r o' = from_options ''RenameFieldRule'' req opt build o') \<and> ''resource_engine'' \<notin> set (req @ opt)"
    unfolding rename_field_def by (intro exI conjI allI, rule refl, simp)
  moreover have "\<exists>req opt build. (\<forall>o'. map_fields r o' = from_options ''MapFieldsRule'' req opt build o') \<and> ''resource_engine'' \<notin> set (req @ opt)"
    unfolding map_fields_def by (intro exI conjI allI, rule refl, simp)
  moreover have "\<exists>req opt build. (\<forall>o'. filter_items r o' = from_options ''FilterItemsRule'' req opt build o') \<and> ''resource_engine'' \<notin> set (req @ opt)"
    unfolding filter_items_def by (intro exI conjI allI, rule refl, simp)
  moreover have "dict_get (builtin_rules objs r) ''rename_field'' = Some (rename_field r)" "dict_get (builtin_rules objs r) ''map_fields'' = Some (map_fields r)"
    "dict_get (builtin_rules objs r) ''filter_items'' = Some (filter_items r)" by (simp_all add: builtin_rules_def)
  ultimately show ?thesis using assms by (elim insertE emptyE) metis+
qed

lemma keywords_type_error: "call_keywords f named o' \<noteq> Inr () \<Longrightarrow> \<exists>m. call_keywords f named o' = Inl (Exc PyTypeError m)"
  by (auto simp: call_keywords_def multiple_values_def split: option.splits)

lemma bind_type_error:
  assumes "dict_has d k" "k \<notin> set (req @ opt)"
  shows "\<exists>m. bind_keywords cls req opt d = Inl (Exc PyTypeError m)"
proof -
  have "find (\<lambda>k. k \<notin> set (req @ opt)) (map fst d) \<noteq> None"
  proof
    assume "find (\<lambda>k. k \<notin> set (req @ opt)) (map fst d) = None"
    then have "\<forall>k \<in> fst ` set d. k \<in> set (req @ opt)" by (simp add: find_None_iff)
    then show False using assms unfolding dict_has_iff by blast
  qed
  then show ?thesis by (auto simp: bind_keywords_def)
qed

lemma strict_rules_refuse:
  assumes rule: "rule \<in> {''rename_field'', ''map_fields'', ''filter_items''}" and that: "dict_has d ''resource_engine''"
  shows "\<exists>m. resolve (builtin_registry objs r) rule d = Inl (Exc PyTypeError m)"
proof -
  obtain cls c req opt build where cls: "dict_get (builtin_rules objs r) rule = Some cls" "\<And>o'. cls o' = from_options c req opt build o'"
    "''resource_engine'' \<notin> set (req @ opt)" using strict_rules [OF rule] by metis
  show ?thesis
  proof (cases "call_keywords ''TransformEngine.resolve'' [''self'', ''name''] d = Inr ()")
    case first: True
    let ?own = "filter (\<lambda>(k, v). \<not> prefix ''_'' k) d"
    have own: "dict_has (dict_pop ''alias'' ?own) ''resource_engine''" using that by (force simp: dict_has_iff AList.delete_eq)
    show ?thesis
    proof (cases "call_keywords ''from_options'' [''cls''] ?own = Inr ()")
      case True
      obtain m where "bind_keywords c req opt (dict_pop ''alias'' ?own) = Inl (Exc PyTypeError m)" using bind_type_error [OF own cls(3)] by blast
      then show ?thesis using True first by (simp add: resolve_def lookup_def builtin_registry_def cls(1,2) from_options_def)
    next
      case False
      then obtain m where "call_keywords ''from_options'' [''cls''] ?own = Inl (Exc PyTypeError m)" using keywords_type_error by blast
      then show ?thesis using first by (simp add: resolve_def lookup_def builtin_registry_def cls(1))
    qed
  next
    case False
    then obtain m where "call_keywords ''TransformEngine.resolve'' [''self'', ''name''] d = Inl (Exc PyTypeError m)" using keywords_type_error by blast
    then show ?thesis by (simp add: resolve_def)
  qed
qed

text \<open>
  A transform leaf that carries a resource engine cannot use the rules whose options are checked
  (renaming, mapping and filtering): the engine is passed to them as an option they do not know, and the
  \<open>TypeError\<close> is none of the errors the leaf turns into a failure, so the tick raises and the state is
  unchanged.
\<close>
theorem resources_break_strict_rules:
  assumes "tl_resources lf = Some v" "tl_chain lf = None" "tl_rule lf \<in> {Some ''rename_field'', Some ''map_fields'', Some ''filter_items''}"
    and "read_state_value (tl_source lf) (tl_scoped lf) VNone s \<noteq> VNone"
  shows "\<exists>m. transform_tick r (builtin_registry objs r) self lf s = (Inl (Exc PyTypeError m), s)"
proof -
  obtain rule where rule: "tl_rule lf = Some rule" "rule \<in> {''rename_field'', ''map_fields'', ''filter_items''}" using assms(3) by blast
  have opts: "dict_has (runtime_options lf) ''resource_engine''" using assms(1) by (simp add: runtime_options_def)
  have auto: "\<exists>m. apply_auto (builtin_registry objs r) self rule d v b s = (Inl (Exc PyTypeError m), s)" if "dict_has d ''resource_engine''" for d v b
    using strict_rules_refuse [OF rule(2) that, of objs r] keywords_type_error [of "''TransformEngine.apply_auto''" "[''self'', ''name'', ''value'', ''state'']" d]
    by (cases "call_keywords ''TransformEngine.apply_auto'' [''self'', ''name'', ''value'', ''state''] d = Inr ()") (auto simp: apply_auto_def)
  have single: "\<exists>m. run_single r (builtin_registry objs r) self lf s = (Inl (Exc PyTypeError m), s)"
  proof (cases "call_keywords ''TransformEngine.apply_to_state'' ([''self'', ''name''] @ state_keywords) (runtime_options lf) = Inr ()")
    case True
    let ?o = "dict_set ''_target_key'' (VStr (destination (leaf_options lf) (tl_source lf))) (runtime_options lf)"
    have "dict_has ?o ''resource_engine''" using opts by simp
    then obtain m where "apply_auto (builtin_registry objs r) self rule ?o (read_state_value (tl_source lf) (tl_scoped lf) VNone s) True s = (Inl (Exc PyTypeError m), s)"
      using auto by blast
    moreover have "or_else (tl_rule lf) [] = rule" using rule by (auto simp: or_else_def)
    moreover have "so_scoped (leaf_options lf) = tl_scoped lf" by (simp add: leaf_options_def)
    ultimately show ?thesis using assms(2,4) True by (simp add: run_single_def apply_to_state_def)
  next
    case False
    then obtain m where "call_keywords ''TransformEngine.apply_to_state'' ([''self'', ''name''] @ state_keywords) (runtime_options lf) = Inl (Exc PyTypeError m)"
      using keywords_type_error by blast
    then show ?thesis using assms(2) by (simp add: run_single_def)
  qed
  have batch: "\<exists>m. run_batch r (builtin_registry objs r) self lf s = (Inl (Exc PyTypeError m), s)"
  proof (cases "call_keywords ''TransformEngine.apply_batch_to_state'' ([''self'', ''name'', ''per_item''] @ state_keywords) (runtime_options lf) = Inr ()")
    case True
    obtain m where "resolve (builtin_registry objs r) rule (runtime_options lf) = Inl (Exc PyTypeError m)" using strict_rules_refuse [OF rule(2) opts, of objs r] by blast
    moreover have "or_else (tl_rule lf) [] = rule" using rule by (auto simp: or_else_def)
    moreover have "so_scoped (leaf_options lf) = tl_scoped lf" by (simp add: leaf_options_def)
    ultimately show ?thesis using assms(2,4) True by (simp add: run_batch_def apply_batch_to_state_def Let_def)
  next
    case False
    then obtain m where "call_keywords ''TransformEngine.apply_batch_to_state'' ([''self'', ''name'', ''per_item''] @ state_keywords) (runtime_options lf) = Inl (Exc PyTypeError m)"
      using keywords_type_error by blast
    then show ?thesis using assms(2) by (simp add: run_batch_def)
  qed
  have "(\<exists>b. should_use_batch (builtin_registry objs r) lf s = Inr b) \<or> (\<exists>m. should_use_batch (builtin_registry objs r) lf s = Inl (Exc PyTypeError m))"
    using strict_rules_refuse [OF rule(2) opts, of objs r] rule by (auto simp: should_use_batch_def)
  moreover have "\<not> caught_by_leaf (Exc PyTypeError m)" for m by (simp add: caught_by_leaf_def is_subclass_eval)
  ultimately show ?thesis using single batch by (fastforce simp: transform_tick_def)
qed

lemma write_fails: "write_state_value r k v False b s = (Inl x, s') \<Longrightarrow> s' = s"
  by (auto simp: write_state_value_def set_validated_def split: if_splits sum.splits option.splits)

lemma write_plain: "write_state_value r k v False False s = (Inr (), st_set k v s)"
  by (simp add: write_state_value_def)

lemma outcome_fails: "write_outcome r o' src v c s = (Inl x, s') \<Longrightarrow> \<not> so_scoped o' \<Longrightarrow> s' = s"
  by (auto simp: write_outcome_def Let_def write_plain dest: write_fails split: prod.splits sum.splits option.splits)

lemma two_writes_fail:
  assumes "(case write_state_value r k v sc b s of (Inl x, s2) \<Rightarrow> (Inl x, s2)
    | (Inr _, s2) \<Rightarrow> (case write_state_value r k2 v2 sc False s2 of (Inl x, s3) \<Rightarrow> (Inl x, s3) | (Inr _, s3) \<Rightarrow> (Inr z, s3))) = (Inl x, s')" "\<not> sc"
  shows "s' = s"
proof -
  obtain y s2 where w: "write_state_value r k v sc b s = (y, s2)" by (cases "write_state_value r k v sc b s")
  show ?thesis
  proof (cases y)
    case (Inl x1)
    then have "write_state_value r k v False b s = (Inl x1, s2)" using w assms(2) by simp
    then show ?thesis using assms(1) w Inl write_fails [of r k v b s x1 s2] by simp
  qed (use assms w in \<open>simp add: write_plain\<close>)
qed

lemma guarded_fails: "(case (g :: unit result) of Inl x \<Rightarrow> (Inl x, s) | Inr _ \<Rightarrow> f) = (Inl y, s1) \<Longrightarrow> (f = (Inl y, s1) \<Longrightarrow> s1 = s) \<Longrightarrow> s1 = s"
  by (cases g) auto

text \<open>Reading, transforming without touching the state, and writing: a failure leaves the state alone.\<close>

lemma written_fails:
  assumes "(case run of (Inl x, s1) \<Rightarrow> (Inl x, s1) | (Inr y, s1) \<Rightarrow> write_outcome r o' src (f y) (g y) s1) = (Inl x, s')"
    and "snd run = s" "\<not> so_scoped o'"
  shows "s' = s"
  using assms by (auto dest: outcome_fails split: prod.splits sum.splits)

text \<open>What the leaves need of the rules they find: none of them changes the state it is given.\<close>

locale quiet_rules =
  fixes reg :: "transform_class registry"
  assumes keeps: "resolve reg nm o' = Inr rule \<Longrightarrow> snd (apply_rule self rule o2 c s) = s"
begin

lemma chain_state: "snd (chain_loop reg self sh br nms c s) = s"
proof (induction nms arbitrary: c)
  case (Cons nm nms)
  let ?m = "dict_update sh (case dict_get br nm of Some d \<Rightarrow> d | None \<Rightarrow> [])"
  show ?case
  proof (cases "resolve reg nm ?m")
    case (Inr rule)
    obtain x s1 where one: "apply_rule self rule ?m c s = (x, s1)" by (cases "apply_rule self rule ?m c s")
    then have "s1 = s" using keeps [OF Inr, of self ?m c s] by simp
    then show ?thesis using Inr one Cons.IH by (cases x) (simp_all add: Let_def)
  qed (simp add: Let_def)
qed simp

lemma apply_chain_state: "snd (apply_chain reg self nms sh br v b s) = s"
  by (simp add: apply_chain_def chain_state split: sum.split)

lemma apply_auto_state: "snd (apply_auto reg self nm o' v b s) = s"
  using keeps [of nm o'] by (auto simp: apply_auto_def apply_transform_def attempt_def split: sum.split)

lemma batch_state: "resolve reg nm o' = Inr rule \<Longrightarrow> snd (batch_loop self rule o2 b vs s) = s"
proof (induction vs)
  case (Cons v vs)
  obtain x s1 where one: "apply_rule self rule o2 (new_context v b) s = (x, s1)" by (cases "apply_rule self rule o2 (new_context v b) s")
  then have "s1 = s" using keeps [OF Cons.prems, of self o2 "new_context v b" s] by simp
  then show ?case using one Cons by (cases x) simp_all
qed simp

lemma chain_items_state: "snd (chain_items reg self nms o' br vs s) = s"
proof (induction vs)
  case (Cons v vs)
  obtain x s1 where one: "apply_chain reg self nms o' br v True s = (x, s1)"
    by (cases "apply_chain reg self nms o' br v True s")
  then have "s1 = s" using apply_chain_state [of self nms o' br v True s] by simp
  then show ?case using one Cons by (cases x) simp_all
qed simp

lemma to_state_fails:
  assumes "\<not> so_scoped o'" "apply_to_state r reg self nm src o' opts s = (Inl x, s')"
  shows "s' = s"
  using assms(2) written_fails [OF _ apply_auto_state assms(1)] by (auto simp: apply_to_state_def Let_def split: if_splits)

lemma chain_to_state_fails:
  assumes "\<not> so_scoped o'" "apply_chain_to_state r reg self nms src o' sh br s = (Inl x, s')"
  shows "s' = s"
  using assms(2) written_fails [OF _ apply_chain_state assms(1)] by (auto simp: apply_chain_to_state_def Let_def split: if_splits)

lemma apply_batch_state: "snd (apply_batch reg self nm o' vs b s) = s"
  using batch_state [of nm o' _ self o' b vs s] by (auto simp: apply_batch_def attempt_def split: sum.split)

lemma batch_to_state_fails:
  assumes "\<not> so_scoped o'" "apply_batch_to_state r reg self nm src o' per opts s = (Inl x, s')"
  shows "s' = s"
proof -
  let ?raw = "read_state_value src (so_scoped o') VNone s"
  show ?thesis
  proof (cases "?raw = VNone")
    case False
    show ?thesis
    proof (cases "resolve reg nm opts")
      case (Inr rule)
      show ?thesis
      proof (cases "case per of Some b \<Rightarrow> b | None \<Rightarrow> ru_mode rule = MODE_SINGLE")
        case True
        show ?thesis
        proof (cases ?raw)
          case (VList items)
          have "(case apply_batch reg self nm opts items True s of (Inl x, s1) \<Rightarrow> (Inl x, s1)
              | (Inr xs, s1) \<Rightarrow> write_outcome r o' src (VList (map tr_value xs))
                  (advance (ru_name rule) (VList (map tr_value xs)) [(''mode'', VStr ''per_item'')] (new_context (VList items) True)) s1) = (Inl x, s')"
            using assms(2) Inr True VList by (simp add: apply_batch_to_state_def Let_def)
          then show ?thesis by (rule written_fails [OF _ apply_batch_state assms(1)])
        qed (use assms(2) Inr True False in \<open>simp_all add: apply_batch_to_state_def Let_def\<close>)
      next
        case per: False
        have "(case apply_auto reg self nm opts ?raw True s of (Inl x, s1) \<Rightarrow> (Inl x, s1)
            | (Inr x, s1) \<Rightarrow> write_outcome r o' src (tr_value x) (tr_context x) s1) = (Inl x, s')"
          using assms(2) Inr per False by (simp add: apply_batch_to_state_def Let_def del: split_paired_All)
        then show ?thesis by (rule written_fails [OF _ apply_auto_state assms(1)])
      qed
    qed (use assms(2) False in \<open>simp add: apply_batch_to_state_def Let_def\<close>)
  qed (use assms(2) in \<open>simp add: apply_batch_to_state_def Let_def split: if_splits\<close>)
qed

lemma per_item_fails:
  assumes "\<not> tl_scoped lf" "run_chain_per_item r reg self lf nms s = (Inl x, s')"
  shows "s' = s"
proof (cases "read_state_value (tl_source lf) (tl_scoped lf) VNone s")
  case (VList items)
  obtain y s1 where run: "chain_items reg self nms (runtime_options lf) (tl_by_rule lf) items s = (y, s1)"
    by (cases "chain_items reg self nms (runtime_options lf) (tl_by_rule lf) items s")
  then have "s1 = s" using chain_items_state [of self nms "runtime_options lf" "tl_by_rule lf" items s] by simp
  then show ?thesis
  proof (cases y)
    case (Inr ys)
    note two_writes_fail [OF assms(2) [unfolded run_chain_per_item_def VList pyval.case run Inr prod.case sum.case Let_def]]
    then show ?thesis using assms(1) \<open>s1 = s\<close> by simp
  qed (use assms VList run in \<open>simp add: run_chain_per_item_def\<close>)
qed (use assms in \<open>auto simp: run_chain_per_item_def split: if_splits\<close>)

lemma tick_fails:
  assumes "\<not> tl_scoped lf" "transform_tick r reg self lf s = (x, s')" "x \<noteq> Inr SUCCESS"
  shows "(x = Inr FAILURE \<and> (\<exists>msg. s' = set_error (tl_error lf) msg s)) \<or> (\<exists>y. x = Inl y \<and> \<not> caught_by_leaf y \<and> s' = s)"
proof -
  have sc: "\<not> so_scoped (leaf_options lf)" using assms(1) by (simp add: leaf_options_def)
  have single: "s1 = s" if run: "run_single r reg self lf s = (Inl y, s1)" for y s1
  proof (cases "tl_chain lf")
    case None
    show ?thesis
      by (rule guarded_fails [OF run [unfolded run_single_def None option.case]], erule to_state_fails [OF sc])
  next
    case (Some nms)
    show ?thesis
      by (rule guarded_fails [OF run [unfolded run_single_def Some option.case]], erule chain_to_state_fails [OF sc])
  qed
  have batch: "s1 = s" if run: "run_batch r reg self lf s = (Inl y, s1)" for y s1
  proof (cases "tl_chain lf")
    case None
    show ?thesis
      by (rule guarded_fails [OF run [unfolded run_batch_def None option.case]], erule batch_to_state_fails [OF sc])
  next
    case (Some nms)
    show ?thesis
      by (rule per_item_fails [OF assms(1) run [unfolded run_batch_def Some option.case]])
  qed
  obtain y s1 where run: "(case should_use_batch reg lf s of Inl x \<Rightarrow> (Inl x, s)
        | Inr b \<Rightarrow> if b then run_batch r reg self lf s else run_single r reg self lf s) = (Inl y, s1)"
    using assms(2,3) by (auto simp: transform_tick_def split: prod.splits sum.splits)
  then have "s1 = s" using single batch by (auto split: sum.splits if_splits)
  then show ?thesis using assms(2) run by (auto simp: transform_tick_def transform_fail_def split: if_splits)
qed

end

text \<open>The modelled built-in rules are such, over callables that do not change their argument in place.\<close>

lemma apply_rule_state:
  assumes "resolve (builtin_registry objs r) nm o' = Inr rule"
  shows "snd (apply_rule self rule o2 c s) = s"
proof -
  obtain l m p f where "rule = pure_rule l m p f"
    using builtin_resolve [OF assms] builtin_pure unfolding pure_class_def is_pure_def by metis
  then show ?thesis by (simp add: apply_rule_def pure_rule_def split: sum.split)
qed

interpretation builtin_quiet: quiet_rules "builtin_registry objs r" for objs r
  by unfold_locales (rule apply_rule_state)

definition leaves_state :: "transform_class registry \<Rightarrow> bool" where
  "leaves_state reg = (\<forall>nm o' rule self o2 c s. resolve reg nm o' = Inr rule \<longrightarrow> snd (apply_rule self rule o2 c s) = s)"

lemma builtin_leaves_state: "leaves_state (builtin_registry objs r)"
  using builtin_quiet.keeps unfolding leaves_state_def by blast

text \<open>
  C37. A transform leaf on the unscoped state, over any registry whose rules do not change the state they are given
  (the modelled built-in rules, with callables that do not change their argument in place), is all or nothing: when
  its tick ends in a failure, in whatever rule of the chain or item of the batch, or in the validation of the
  result, nothing is in the state but the message at the error key, and nothing at all when it raises.
\<close>

theorem failed_transform_changes_nothing:
  assumes "leaves_state reg" "\<not> tl_scoped lf" "transform_tick r reg self lf s = (x, s')" "x \<noteq> Inr SUCCESS"
  shows "(x = Inr FAILURE \<and> (\<exists>msg. s' = set_error (tl_error lf) msg s)) \<or> (\<exists>y. x = Inl y \<and> \<not> caught_by_leaf y \<and> s' = s)"
proof -
  have "quiet_rules reg" using assms(1) unfolding leaves_state_def by unfold_locales blast
  from quiet_rules.tick_fails [OF this assms(2-4)] show ?thesis .
qed

subsection \<open>Witnesses\<close>

definition demo_resource_leaf :: resource_leaf where
  "demo_resource_leaf = \<lparr>rl_name = ''fetch'', rl_bound = True, rl_ref = None, rl_provider = Some ''demo'', rl_action = None, rl_resource_id = Some ''x'',
     rl_params = [], rl_output = ''out'', rl_error = Some ''err'', rl_trace = ''trace'', rl_slug = None, rl_wizard = None\<rparr>"

lemma resource_leaf_reports_witness:
  "\<exists>st e' s' res. resource_tick demo_env demo_resource_leaf demo_engine (new_dict_state [] None) = (Inr st, e', s')
    \<and> st_get ''trace'' VNone s' = VDict (resource_trace demo_resource_leaf res)"
  using resource_leaf_reports [OF demo_clean(1), of demo_resource_leaf demo_env "new_dict_state [] None"]
  by (auto simp: demo_resource_leaf_def or_else_def)

definition demo_workload_leaf :: workload_leaf where
  "demo_workload_leaf = \<lparr>lf_name = ''job'', lf_bound = True, lf_spec = demo_spec, lf_owner = default_owner, lf_output = ''out'',
     lf_error = Some ''err'', lf_trace = ''trace'', lf_wait_ready = False, lf_stop_when_done = True, lf_idempotency = None\<rparr>"

lemma workload_leaf_returns_witness:
  "\<exists>x e' s'. workload_tick (\<lambda>_. []) ''w'' demo_workload_leaf (new_wl_engine ()) (new_dict_state [] None) = Some (x, e', s')"
  by (rule workload_leaf_returns [OF new_wl_wf])

definition failed_workload :: workload where
  "failed_workload = \<lparr>wl_id = ''w'', wl_spec = demo_spec, wl_status = W_FAILED, wl_runtime = ''local'', wl_owner = default_owner, wl_handle = None,
     wl_result_of = None, wl_host_id = None, wl_message = None, wl_created_at = [], wl_updated_at = [], wl_idem_key = None, wl_meta = [], wl_leak = False\<rparr>"

lemma failed_workload_is_final_witness:
  "\<exists>s'. workload_tick (\<lambda>_. []) ''v'' demo_workload_leaf ((new_wl_engine ())\<lparr>wl_on := True, workloads := [(''w'', failed_workload)]\<rparr>)
      (new_dict_state [(''__bt_workload__:job:id'', VStr ''w'')] None)
    = Some (Inr FAILURE, (new_wl_engine ())\<lparr>wl_on := True, workloads := [(''w'', failed_workload)]\<rparr>, s')"
  using failed_workload_is_final [of "(new_wl_engine ())\<lparr>wl_on := True, workloads := [(''w'', failed_workload)]\<rparr>" demo_workload_leaf "''w''" failed_workload
      "new_dict_state [(''__bt_workload__:job:id'', VStr ''w'')] None" "\<lambda>_. []" "''v''"]
  by (auto simp: demo_workload_leaf_def failed_workload_def workload_id_key_def workload_ok_def wl_terminal_def or_else_def new_dict_state_def st_get_def)

definition demo_transform_leaf :: transform_leaf where
  "demo_transform_leaf = \<lparr>tl_name = ''t'', tl_source = ''a'', tl_target = ''b'', tl_rule = Some ''rename_field'', tl_chain = None, tl_scoped = False,
     tl_validate = True, tl_batch = VNone, tl_per_item = VNone, tl_options = [(''from_key'', VStr ''x''), (''to_key'', VStr ''y'')], tl_by_rule = [],
     tl_skip = False, tl_trace = ''trace'', tl_error = Some ''err'', tl_resources = None\<rparr>"

lemma resources_break_strict_rules_witness:
  "\<exists>m. transform_tick (\<lambda>_. []) (builtin_registry (\<lambda>_. None) (\<lambda>_. [])) VNone (demo_transform_leaf\<lparr>tl_resources := Some (VObj 1)\<rparr>)
      (new_dict_state [(''a'', VDict [])] None) = (Inl (Exc PyTypeError m), new_dict_state [(''a'', VDict [])] None)"
  by (rule resources_break_strict_rules [where v = "VObj 1"])
    (simp_all add: demo_transform_leaf_def read_state_value_def new_dict_state_def st_get_def)

lemma demo_tick_fails:
  "fst (transform_tick (\<lambda>_. []) (builtin_registry (\<lambda>_. None) (\<lambda>_. [])) VNone demo_transform_leaf (new_dict_state [(''a'', VInt 1)] None)) = Inr FAILURE"
  by code_simp

lemma failed_transform_changes_nothing_witness:
  "\<exists>msg. snd (transform_tick (\<lambda>_. []) (builtin_registry (\<lambda>_. None) (\<lambda>_. [])) VNone demo_transform_leaf (new_dict_state [(''a'', VInt 1)] None))
    = set_error (Some ''err'') msg (new_dict_state [(''a'', VInt 1)] None)"
proof -
  obtain s' where run: "transform_tick (\<lambda>_. []) (builtin_registry (\<lambda>_. None) (\<lambda>_. [])) VNone demo_transform_leaf (new_dict_state [(''a'', VInt 1)] None) = (Inr FAILURE, s')"
    using demo_tick_fails by (cases "transform_tick (\<lambda>_. []) (builtin_registry (\<lambda>_. None) (\<lambda>_. [])) VNone demo_transform_leaf (new_dict_state [(''a'', VInt 1)] None)") auto
  then show ?thesis using failed_transform_changes_nothing [OF builtin_leaves_state _ run] by (simp add: demo_transform_leaf_def)
qed

end
