(* ===== verification/DagConfig.thy ===== *)
theory DagConfig
  imports PyConvert Schema
begin

text \<open>
  The configuration of the DAG pattern (\<open>plugins/patterns/dag/bindings/definitions/config.py\<close>): parsing of
  nodes, the implicit chain, and the topological sort with its refusals.
\<close>

subsection \<open>Nodes\<close>

record dag_node =
  dn_id :: string
  dn_ref :: "string option"
  dn_provider :: "string option"
  dn_action :: "string option"
  dn_resource_id :: "string option"
  dn_params :: pydict
  dn_workload :: "pydict option"
  dn_output :: "string option"
  dn_deps :: "string list"

definition value_error :: "string \<Rightarrow> exc" where
  "value_error m = Exc PyValueError m"

definition filled :: "string option \<Rightarrow> bool" where
  "filled t = (case t of Some (c # cs) \<Rightarrow> True | _ \<Rightarrow> False)"

definition check_node :: "dag_node \<Rightarrow> dag_node result" where
  "check_node n =
     (let has_resource = filled (dn_ref n) \<or> filled (dn_provider n); has_workload = (dn_workload n \<notin> {None, Some []}) in
      if py_strip (dn_id n) = [] then Inl (value_error ''DAG node id must be non-empty'')
      else if has_resource \<and> has_workload then Inl (value_error (''DAG node '' @ quoted (dn_id n) @ '' cannot set both resource and workload''))
      else if \<not> has_resource \<and> \<not> has_workload then Inl (value_error (''DAG node '' @ quoted (dn_id n) @ '' requires resource_ref/provider or workload''))
      else Inr n)"

definition text_of :: "(pyval \<Rightarrow> string) \<Rightarrow> pyval \<Rightarrow> string option" where
  "text_of r v = (if truthy v then Some (py_str r v) else None)"

definition parse_deps :: "(pyval \<Rightarrow> string) \<Rightarrow> string \<Rightarrow> pyval \<Rightarrow> string list result" where
  "parse_deps r nid v = (case v of
     VStr s \<Rightarrow> Inr (if py_strip s = [] then [] else [s])
   | VList xs \<Rightarrow> Inr (filter (\<lambda>t. t \<noteq> []) (map (py_strip \<circ> py_str r) xs))
   | _ \<Rightarrow> Inl (value_error (''DAG node '' @ quoted nid @ '': depends_on must be a list of ids'')))"

definition optional_dict :: "exc \<Rightarrow> pyval \<Rightarrow> pydict option result" where
  "optional_dict x v = (case v of VNone \<Rightarrow> Inr None | VDict d \<Rightarrow> Inr (Some d) | _ \<Rightarrow> Inl x)"

definition node_from_mapping :: "(pyval \<Rightarrow> string) \<Rightarrow> pydict \<Rightarrow> dag_node result" where
  "node_from_mapping r data =
     (let nid = py_strip (py_str r (py_or (py_or (py_or (py_get data ''id'') (py_get data ''name'')) (py_get data ''slug'')) (VStr []))) in
      attempt (parse_deps r nid (py_or (py_or (py_get data ''depends_on'') (py_get data ''deps'')) (VList []))) (\<lambda>deps.
      attempt (optional_dict (value_error (''DAG node '' @ quoted nid @ '': params must be a dict'')) (py_get data ''params'')) (\<lambda>params.
      attempt (optional_dict (value_error (''DAG node '' @ quoted nid @ '': workload must be a dict (Spec)'')) (py_get data ''workload'')) (\<lambda>workload.
        check_node \<lparr>dn_id = nid, dn_ref = text_of r (py_get data ''resource_ref''), dn_provider = text_of r (py_get data ''provider''),
          dn_action = text_of r (py_get data ''action''), dn_resource_id = text_of r (py_get data ''resource_id''),
          dn_params = (case params of Some d \<Rightarrow> d | None \<Rightarrow> []), dn_workload = workload,
          dn_output = text_of r (py_get data ''output_key''), dn_deps = deps\<rparr>))))"

subsection \<open>Order\<close>

text \<open>Rebuilding a node checks it again; an empty workload becomes none.\<close>

fun chain_nodes :: "string option \<Rightarrow> dag_node list \<Rightarrow> dag_node list result" where
  "chain_nodes prev [] = Inr []"
| "chain_nodes prev (n # ns) =
     attempt (check_node (n\<lparr>dn_workload := (if dn_workload n = Some [] then None else dn_workload n),
       dn_deps := (case prev of None \<Rightarrow> [] | Some p \<Rightarrow> [p])\<rparr>)) (\<lambda>m.
     attempt (chain_nodes (Some (dn_id n)) ns) (\<lambda>ms. Inr (m # ms)))"

definition apply_implicit_chain :: "dag_node list \<Rightarrow> dag_node list result" where
  "apply_implicit_chain ns = (if list_ex (\<lambda>n. dn_deps n \<noteq> []) ns then Inr ns else chain_nodes None ns)"

definition unknown_dep :: "dag_node list \<Rightarrow> (dag_node \<times> string) option" where
  "unknown_dep ns = find (\<lambda>(n, d). d \<notin> dn_id ` set ns) (concat (map (\<lambda>n. map (Pair n) (dn_deps n)) ns))"

definition children_of :: "dag_node list \<Rightarrow> string \<Rightarrow> string list" where
  "children_of ns d = concat (map (\<lambda>n. replicate (count_list (dn_deps n) d) (dn_id n)) ns)"

definition indegrees :: "dag_node list \<Rightarrow> (string, int) dict" where
  "indegrees ns = map (\<lambda>n. (dn_id n, int (length (dn_deps n)))) ns"

definition order_index :: "dag_node list \<Rightarrow> string \<Rightarrow> nat" where
  "order_index ns i = (case find_index (\<lambda>n. dn_id n = i) ns of Some k \<Rightarrow> k | None \<Rightarrow> length ns)"

text \<open>\<open>indegree[c] -= 1\<close>, and the child joins the queue when nothing is left to wait for.\<close>

definition release :: "string \<Rightarrow> (string, int) dict \<times> string list \<Rightarrow> (string, int) dict \<times> string list" where
  "release c s = (case s of (deg, q) \<Rightarrow> (case dict_get deg c of
     None \<Rightarrow> (deg, q)
   | Some k \<Rightarrow> (dict_set c (k - 1) deg, if k - 1 = 0 then q @ [c] else q)))"

definition weight :: "(string, int) dict \<Rightarrow> nat" where
  "weight deg = sum_list (map (nat \<circ> snd) deg)"

lemma weight_set: "dict_get deg c = Some k \<Longrightarrow> weight (dict_set c v deg) + nat k = weight deg + nat v"
  by (induction deg) (auto simp: weight_def split: if_splits)

lemma release_weight: "release c (deg, q) = (deg', q') \<Longrightarrow> weight deg' + length q' \<le> weight deg + length q"
proof (cases "dict_get deg c")
  case (Some k)
  assume "release c (deg, q) = (deg', q')"
  then show ?thesis using weight_set [OF Some, of "k - 1"] Some by (auto simp: release_def split: if_splits)
qed (simp add: release_def)

lemma releases_weight: "fold release cs (deg, q) = (deg', q') \<Longrightarrow> weight deg' + length q' \<le> weight deg + length q"
proof (induction cs arbitrary: deg q)
  case (Cons c cs)
  obtain d1 q1 where one: "release c (deg, q) = (d1, q1)" by (cases "release c (deg, q)")
  then show ?case using Cons.IH [of d1 q1] Cons.prems release_weight [OF one] by simp
qed simp

function kahn :: "dag_node list \<Rightarrow> (string, int) dict \<Rightarrow> string list \<Rightarrow> string list" where
  "kahn ns deg q = (case sort_key (order_index ns) q of
     [] \<Rightarrow> []
   | i # rest \<Rightarrow> (case fold release (children_of ns i) (deg, rest) of (deg', q') \<Rightarrow> i # kahn ns deg' q'))"
  by pat_completeness auto

lemma kahn_decreases:
  assumes "sort_key f q = i # rest" "fold release cs (deg, rest) = (deg', q')"
  shows "weight deg' + length q' < weight deg + length q"
proof -
  have "length q = Suc (length rest)" using arg_cong [OF assms(1), of length] by simp
  then show ?thesis using releases_weight [OF assms(2)] by simp
qed

termination kahn
  by (relation "measure (\<lambda>(ns, deg, q). weight deg + length q)") (auto split: prod.split dest: kahn_decreases)

definition node_of :: "dag_node list \<Rightarrow> string \<Rightarrow> dag_node option" where
  "node_of ns i = find (\<lambda>n. dn_id n = i) ns"

definition topological_sort :: "dag_node list \<Rightarrow> dag_node list result" where
  "topological_sort ns =
     (if \<not> distinct (map dn_id ns) then Inl (value_error ''DAG node ids must be unique'')
      else case unknown_dep ns of
        Some (n, d) \<Rightarrow> Inl (value_error (''DAG node '' @ quoted (dn_id n) @ '' depends on unknown id '' @ quoted d))
      | None \<Rightarrow> (let ordered = kahn ns (indegrees ns) (map fst (filter (\<lambda>(i, k). k = 0) (indegrees ns))) in
          if length ordered \<noteq> length ns then Inl (value_error ''DAG has a cycle among nodes'')
          else Inr (List.map_filter (node_of ns) ordered)))"

subsection \<open>Configuration\<close>

record dag_config =
  dc_nodes :: "dag_node list"
  dc_initial :: pydict
  dc_chain :: bool
  dc_drain :: bool

definition dict_items :: "pyval list \<Rightarrow> pydict list" where
  "dict_items xs = List.map_filter (\<lambda>v. case v of VDict d \<Rightarrow> Some d | _ \<Rightarrow> None) xs"

definition config_from_options :: "(pyval \<Rightarrow> string) \<Rightarrow> pydict \<Rightarrow> dag_config result" where
  "config_from_options r options =
     (let needs_list = value_error (''DAG requires a non-empty '' @ quoted ''nodes'' @ '' list (or '' @ quoted ''steps'' @ '' alias)'') in
      case py_or (py_get options ''nodes'') (py_get options ''steps'') of
        VList (x # xs) \<Rightarrow>
          attempt (map_result (node_from_mapping r) (dict_items (x # xs))) (\<lambda>nodes.
          if nodes = [] then Inl (value_error (''DAG '' @ quoted ''nodes'' @ '' must contain node dicts''))
          else let chain = truthy (get_default options ''chain_implicit'' (VBool True)) in
            attempt (if chain then apply_implicit_chain nodes else Inr nodes) (\<lambda>ns.
            attempt (topological_sort ns) (\<lambda>ordered.
            attempt (optional_dict (value_error ''DAG initial_state must be a dict'') (py_get options ''initial_state'')) (\<lambda>initial.
              Inr \<lparr>dc_nodes = ordered, dc_initial = (case initial of Some d \<Rightarrow> d | None \<Rightarrow> []), dc_chain = chain,
                dc_drain = truthy (get_default options ''drain_ready'' (VBool True))\<rparr>))))
      | _ \<Rightarrow> Inl needs_list)"

end
