(* ===== verification/RunPython.thy ===== *)
theory RunPython
  imports PyConvert Workload
begin

text \<open>
  The shorthand for running Python code as a workload
  (\<open>palm/system/subsystems/planes/workload/run_python.py\<close>). What the machine answers is an argument: \<open>probe\<close> is
  the availability of the neonroot CLI, None when the probe raises, and \<open>exe\<close> is \<open>sys.executable\<close>. The
  ellipsis character of the last message is written as three dots.
\<close>

definition auto_runtime :: "bool option \<Rightarrow> string" where
  "auto_runtime probe = (if probe = Some True then ''neonroot'' else ''local'')"

definition resolve_runtime_choice :: "bool option \<Rightarrow> string option \<Rightarrow> string" where
  "resolve_runtime_choice probe choice =
     (let text = py_lower (py_strip (case choice of Some (c # cs) \<Rightarrow> c # cs | _ \<Rightarrow> ''auto'')) in
      if text \<in> {''local'', ''palm'', ''palm-local''} then ''local''
      else if text = ''host'' then ''host''
      else if text \<in> {''neonroot'', ''nr'', ''hermetic''} then ''neonroot''
      else if text \<in> {''auto'', ''default'', []} then auto_runtime probe
      else text)"

definition build_run_python_spec :: "bool option \<Rightarrow> string \<Rightarrow> string \<Rightarrow> string option \<Rightarrow> string \<Rightarrow> string option \<Rightarrow> rat \<Rightarrow> spec result" where
  "build_run_python_spec probe exe code runtime img python timeout =
     (if py_strip code = [] then Inl (Exc PyValueError ''run-python requires non-empty code'')
      else let rn = resolve_runtime_choice probe runtime; here = (rn = ''local'' \<or> rn = ''host'');
             named = (case python of Some (c # cs) \<Rightarrow> Some (c # cs) | _ \<Rightarrow> None);
             prog = (case named of Some p \<Rightarrow> p | None \<Rightarrow> if here \<and> exe \<noteq> [] then exe else ''python3'') in
        spec_check \<lparr>sp_kind = K_RUN,
          sp_isolation = (if rn = ''host'' then I_HOST else if here then I_BEST_EFFORT else I_HERMETIC), sp_lifecycle = L_JOB,
          sp_command = [prog, ''-c'', code],
          sp_image = (if here then None else Some (if img = [] then ''palm-ci'' else img)), sp_image_ref = None, sp_workdir = None,
          sp_seed = (if here then None else Some [(''type'', VStr ''none'')]), sp_env = [], sp_secrets_ref = None, sp_ports = [],
          sp_health = None, sp_timeout = Some timeout, sp_resources = [], sp_labels = [(''dogfood'', ''run-python'')],
          sp_placement = \<lparr>pl_host_id = None, pl_runtime = Some rn, pl_reject = []\<rparr>, sp_mesh = None, sp_version = 1\<rparr>)"

text \<open>\<open>params.get('placement', {}).get('runtime')\<close>, evaluated only when no runtime is given.\<close>

definition runtime_param :: "pydict \<Rightarrow> pyval result" where
  "runtime_param d =
     (if truthy (py_get d ''runtime'') then Inr (py_get d ''runtime'')
      else case get_default d ''placement'' (VDict []) of
        VDict p \<Rightarrow> Inr (py_or (py_get p ''runtime'') (VStr ''auto''))
      | v \<Rightarrow> Inl (Exc PyAttributeError (quoted (type_name v) @ '' object has no attribute '' @ quoted ''get'')))"

definition spec_from_bound_params :: "(pyval \<Rightarrow> string) \<Rightarrow> (string \<Rightarrow> int option) \<Rightarrow> (string \<Rightarrow> rat option) \<Rightarrow> bool option \<Rightarrow> string \<Rightarrow> pydict \<Rightarrow> spec result" where
  "spec_from_bound_params r pint pfl probe exe d =
     (if d = [] then Inl (Exc PyValueError ''workload step requires params (Spec or run-python sugar)'')
      else if truthy (py_get d ''kind'') then spec_from_dict r pint pfl (VDict d)
      else if dict_has d ''code'' then
        attempt (runtime_param d) (\<lambda>rt.
        attempt (py_float pfl (py_or (py_or (py_get d ''timeout_s'') (py_get d ''timeout'')) (VInt 120))) (\<lambda>timeout.
          build_run_python_spec probe exe (py_str r (py_or (py_get d ''code'') (VStr []))) (Some (py_str r rt))
            (py_str r (py_or (py_get d ''image'') (VStr ''palm-ci'')))
            (if truthy (py_get d ''python'') then Some (py_str r (py_get d ''python'')) else None) timeout))
      else Inl (Exc PyValueError (''workload params must be a WorkloadSpec mapping (kind=...) or run-python sugar (code=..., runtime=host|neonroot|auto)'')))"

end
