(* ===== verification/Dag.thy ===== *)
theory Dag
  imports DagConfig RunPython Leaves
begin

text \<open>
  The DAG pattern (\<open>plugins/patterns/dag/pattern.py\<close>): nodes that invoke a resource or start a workload, run in
  the order of their dependencies. Its progress is a dictionary under the key \<open>dag\<close> of the execution state.
  A tick that would never return is None.
\<close>

subsection \<open>The pattern and its world\<close>

record ('r, 'w) dag_world =
  dw_resources :: "'r resource_engine"
  dw_workloads :: "'w wl_engine"

text \<open>
  What the pattern takes from outside: the resource environment, conversions, the answers of the machine for the
  Python shorthand, and the id generated for the workload of a node.
\<close>

record 'r dag_env =
  de_res :: "'r res_env"
  de_int :: "string \<Rightarrow> int option"
  de_float :: "string \<Rightarrow> rat option"
  de_probe :: "bool option"
  de_exe :: string
  de_gen :: "string \<Rightarrow> string"

record dag_pattern =
  dp_name :: string
  dp_config :: dag_config
  dp_resources :: bool
  dp_workloads :: bool
  dp_seeded :: bool

definition new_dag_pattern :: "string \<Rightarrow> dag_config option \<Rightarrow> bool \<Rightarrow> bool \<Rightarrow> dag_pattern result" where
  "new_dag_pattern nm config res wl = (case config of
     None \<Rightarrow> Inl (value_error ''DagPattern requires a DagConfig'')
   | Some c \<Rightarrow> Inr \<lparr>dp_name = nm, dp_config = c, dp_resources = res, dp_workloads = wl, dp_seeded = False\<rparr>)"

definition dag_reset :: "dag_pattern \<Rightarrow> dag_pattern" where
  "dag_reset p = p\<lparr>dp_seeded := False\<rparr>"

subsection \<open>Reading the progress\<close>

definition dag_key :: string where
  "dag_key = ''dag''"

definition or_empty_dict :: "pyval \<Rightarrow> pydict result" where
  "or_empty_dict v = (case py_or v (VDict []) of
     VDict d \<Rightarrow> Inr d
   | w \<Rightarrow> Inl (Exc PyAttributeError (quoted (type_name w) @ '' object has no attribute '' @ quoted ''get'')))"

definition node_status :: "pydict \<Rightarrow> string \<Rightarrow> pyval result" where
  "node_status nodes i = attempt (or_empty_dict (py_get nodes i)) (\<lambda>e. Inr (py_get e ''status''))"

fun all_result :: "('a \<Rightarrow> bool result) \<Rightarrow> 'a list \<Rightarrow> bool result" where
  "all_result f [] = Inr True"
| "all_result f (x # xs) = attempt (f x) (\<lambda>b. if b then all_result f xs else Inr False)"

definition node_succeeded :: "pydict \<Rightarrow> string \<Rightarrow> bool result" where
  "node_succeeded nodes i = attempt (node_status nodes i) (\<lambda>v. Inr (v = VStr ''succeeded''))"

definition node_ready :: "pydict \<Rightarrow> dag_node \<Rightarrow> bool result" where
  "node_ready nodes n = attempt (node_status nodes (dn_id n)) (\<lambda>v.
     if v \<noteq> VStr ''pending'' then Inr False else all_result (node_succeeded nodes) (dn_deps n))"

fun filter_ready :: "pydict \<Rightarrow> dag_node list \<Rightarrow> dag_node list result" where
  "filter_ready nodes [] = Inr []"
| "filter_ready nodes (n # ns) = attempt (node_ready nodes n) (\<lambda>b. attempt (filter_ready nodes ns) (\<lambda>ms. Inr (if b then n # ms else ms)))"

definition ready_nodes :: "dag_config \<Rightarrow> pydict \<Rightarrow> dag_node list result" where
  "ready_nodes c dag = attempt (or_empty_dict (py_get dag ''nodes'')) (\<lambda>nodes. filter_ready nodes (dc_nodes c))"

definition all_succeeded :: "dag_config \<Rightarrow> pydict \<Rightarrow> bool result" where
  "all_succeeded c dag = attempt (or_empty_dict (py_get dag ''nodes'')) (\<lambda>nodes. all_result (node_succeeded nodes) (map dn_id (dc_nodes c)))"

subsection \<open>Writing the progress\<close>

definition dict_of :: "pyval \<Rightarrow> pydict" where
  "dict_of v = (case v of VDict d \<Rightarrow> d | _ \<Rightarrow> [])"

text \<open>The entry of a node is copied, changed and put back; its status has been read before, so it is a dictionary.\<close>

definition edit_node :: "string \<Rightarrow> (pydict \<Rightarrow> pydict) \<Rightarrow> pydict \<Rightarrow> pydict" where
  "edit_node i f dag = (let nodes = dict_of (py_get dag ''nodes'') in
     dict_set ''nodes'' (VDict (dict_set i (VDict (f (dict_of (py_get nodes i)))) nodes)) dag)"

definition output_of :: "dag_node \<Rightarrow> string" where
  "output_of n = or_else (dn_output n) (dn_id n)"

definition mark_running :: "dag_node \<Rightarrow> pydict \<Rightarrow> pydict" where
  "mark_running n dag = dict_set ''current'' (VStr (dn_id n)) (edit_node (dn_id n) (dict_set ''status'' (VStr ''running'')) dag)"

definition succeed_node :: "dag_config \<Rightarrow> dag_node \<Rightarrow> pydict \<Rightarrow> dict_state \<Rightarrow> pattern_status result \<times> dict_state" where
  "succeed_node c n dag s =
     (let d1 = edit_node (dn_id n) (dict_set ''output_key'' (VStr (output_of n)) \<circ> dict_set ''status'' (VStr ''succeeded'')) dag in
      case all_succeeded c d1 of
        Inl x \<Rightarrow> (Inl x, s)
      | Inr True \<Rightarrow> (Inr SUCCESS, st_set dag_key (VDict (dict_pop ''current'' (dict_set ''status'' (VStr ''succeeded'') d1))) s)
      | Inr False \<Rightarrow> (Inr RUNNING_STATUS, st_set dag_key (VDict d1) s))"

definition fail_node :: "dag_node \<Rightarrow> pydict \<Rightarrow> string \<Rightarrow> dict_state \<Rightarrow> pattern_status result \<times> dict_state" where
  "fail_node n dag err s =
     (let d1 = edit_node (dn_id n) (dict_set ''error'' (VStr err) \<circ> dict_set ''status'' (VStr ''failed'')) dag;
          d2 = dict_set ''current'' (VStr (dn_id n)) (dict_set ''error'' (VStr (''node '' @ quoted (dn_id n) @ '': '' @ err))
                 (dict_set ''status'' (VStr ''failed'') d1))
      in (Inr FAILURE, st_set (''dag_error_'' @ dn_id n) (VStr err) (st_set dag_key (VDict d2) s)))"

subsection \<open>Running a node\<close>

text \<open>The effect of a node: None when it succeeded, or why it failed; an exception of the invoker escapes.\<close>

type_synonym ('r, 'w) effect_result = "(string option) result \<times> ('r, 'w) dag_world \<times> dict_state"

definition node_invocation :: "dag_pattern \<Rightarrow> dag_node \<Rightarrow> dict_state \<Rightarrow> invocation" where
  "node_invocation p n s = \<lparr>iv_ref = dn_ref n, iv_provider = dn_provider n, iv_action = dn_action n, iv_params = dn_params n,
     iv_state = Some (st_data s), iv_resource_id = dn_resource_id n,
     iv_correlation = resource_correlation (Some (st_data s)) (Some (dp_name p)) (Some (dn_id n)) [], iv_kwargs = []\<rparr>"

definition resource_effect :: "'r dag_env \<Rightarrow> dag_pattern \<Rightarrow> dag_node \<Rightarrow> ('r, 'w) dag_world \<Rightarrow> dict_state \<Rightarrow> ('r, 'w) effect_result" where
  "resource_effect env p n w s =
     (if \<not> dp_resources p then (Inr (Some ''ResourceInvoker is not configured''), w, s)
      else case re_invoke (de_res env) (node_invocation p n s) (re_initialize no_options (dw_resources w)) of
        (Inl x, e) \<Rightarrow> (Inl x, w\<lparr>dw_resources := e\<rparr>, s)
      | (Inr res, e) \<Rightarrow> (if pr_success res then (Inr None, w\<lparr>dw_resources := e\<rparr>, st_set (output_of n) (pr_data res) s)
          else (Inr (Some (or_else (pr_error res) ''resource invoke failed'')), w\<lparr>dw_resources := e\<rparr>, s)))"

definition hermetic_default :: "pydict \<Rightarrow> pydict result" where
  "hermetic_default d =
     (if \<not> dict_has d ''kind'' \<and> dict_has d ''command''
      then attempt (py_dict (py_or (py_get d ''placement'') (VDict []))) (\<lambda>pl.
        Inr (dict_set ''placement'' (VDict (dict_setdefault ''runtime'' (VStr ''neonroot'') pl))
          (dict_setdefault ''lifecycle'' (VStr ''job'') (dict_setdefault ''isolation'' (VStr ''hermetic'')
            (dict_setdefault ''kind'' (VStr ''run'') d)))))
      else Inr d)"

definition node_spec :: "'r dag_env \<Rightarrow> dag_node \<Rightarrow> dict_state \<Rightarrow> spec result" where
  "node_spec env n s =
     (let r = en_repr (de_res env); own = bind_resource_params r (Some (st_data s)) (case dn_workload n of Some d \<Rightarrow> d | None \<Rightarrow> []);
          bound = (if dn_params n = [] then own else dict_update own (bind_resource_params r (Some (st_data s)) (dn_params n)))
      in attempt (hermetic_default bound) (\<lambda>d.
        if truthy (py_get d ''kind'') then spec_from_dict r (de_int env) (de_float env) (VDict d)
        else spec_from_bound_params r (de_int env) (de_float env) (de_probe env) (de_exe env) d))"

definition workload_verdict :: "workload \<Rightarrow> string option" where
  "workload_verdict w =
     (let bad = (case wl_result_of w of Some res \<Rightarrow> \<not> rs_success res | None \<Rightarrow> False) in
      if wl_status w = W_STOPPED \<and> \<not> bad then None
      else if wl_status w = W_FAILED \<or> bad
      then Some (or_else (case wl_result_of w of Some res \<Rightarrow> rs_error res | None \<Rightarrow> None)
        (or_else (wl_message w) (''workload '' @ wl_status_value (wl_status w))))
      else Some (''workload not terminal (status='' @ wl_status_value (wl_status w) @ ''); async DAG wait later''))"

definition workload_effect :: "'r dag_env \<Rightarrow> dag_pattern \<Rightarrow> dag_node \<Rightarrow> ('r, 'w) dag_world \<Rightarrow> dict_state \<Rightarrow> ('r, 'w) effect_result" where
  "workload_effect env p n w s =
     (if \<not> dp_workloads p then (Inr (Some ''WorkloadDriver is not configured''), w, s)
      else let e0 = wl_initialize False None None [] (dw_workloads w) in
        case node_spec env n s of
          Inl x \<Rightarrow> (Inr (Some (exc_msg x)), w\<lparr>dw_workloads := e0\<rparr>, s)
        | Inr sp \<Rightarrow> (case wl_start sp (Some default_owner) None None None (de_gen env (dn_id n)) e0 of
            (Inl x, e1) \<Rightarrow> (Inr (Some (exc_msg x)), w\<lparr>dw_workloads := e1\<rparr>, s)
          | (Inr wl, e1) \<Rightarrow> (Inr (workload_verdict wl), w\<lparr>dw_workloads := e1\<rparr>, st_set (output_of n) (VDict (workload_to_dict wl)) s)))"

definition node_effect :: "'r dag_env \<Rightarrow> dag_pattern \<Rightarrow> dag_node \<Rightarrow> ('r, 'w) dag_world \<Rightarrow> dict_state \<Rightarrow> ('r, 'w) effect_result" where
  "node_effect env p n = (if dn_workload n \<noteq> None then workload_effect env p n else resource_effect env p n)"

definition run_node :: "'r dag_env \<Rightarrow> dag_pattern \<Rightarrow> dag_node \<Rightarrow> pydict \<Rightarrow> ('r, 'w) dag_world \<Rightarrow> dict_state
    \<Rightarrow> pattern_status result \<times> ('r, 'w) dag_world \<times> dict_state" where
  "run_node env p n dag w s =
     (let d1 = mark_running n dag; s1 = st_set dag_key (VDict d1) s in
      case node_effect env p n w s1 of
        (Inl x, w2, s2) \<Rightarrow> (Inl x, w2, s2)
      | (Inr None, w2, s2) \<Rightarrow> (case succeed_node (dp_config p) n d1 s2 of (st, s3) \<Rightarrow> (st, w2, s3))
      | (Inr (Some err), w2, s2) \<Rightarrow> (case fail_node n d1 err s2 of (st, s3) \<Rightarrow> (st, w2, s3)))"

subsection \<open>A tick\<close>

datatype batch_end = Stop pattern_status | Go_on pattern_status

definition dag_failed :: "pydict \<Rightarrow> bool" where
  "dag_failed dag = (py_get dag ''status'' = VStr ''failed'')"

definition dag_succeeded :: "pydict \<Rightarrow> bool" where
  "dag_succeeded dag = (py_get dag ''status'' = VStr ''succeeded'')"

fun dag_batch :: "'r dag_env \<Rightarrow> dag_pattern \<Rightarrow> dag_node list \<Rightarrow> pattern_status \<Rightarrow> ('r, 'w) dag_world \<Rightarrow> dict_state
    \<Rightarrow> batch_end result \<times> ('r, 'w) dag_world \<times> dict_state" where
  "dag_batch env p [] prior w s = (Inr (Go_on prior), w, s)"
| "dag_batch env p (n # ns) prior w s = (case st_get dag_key VNone s of
     VDict dag \<Rightarrow>
      (if dag_failed dag then (Inr (Stop FAILURE), w, s)
       else case attempt (or_empty_dict (py_get dag ''nodes'')) (\<lambda>nodes. node_ready nodes n) of
         Inl x \<Rightarrow> (Inl x, w, s)
       | Inr False \<Rightarrow> dag_batch env p ns prior w s
       | Inr True \<Rightarrow> (case run_node env p n dag w s of
           (Inl x, w1, s1) \<Rightarrow> (Inl x, w1, s1)
         | (Inr st, w1, s1) \<Rightarrow> (if st = FAILURE \<or> st = SUCCESS then (Inr (Stop st), w1, s1) else dag_batch env p ns st w1 s1)))
   | _ \<Rightarrow> (Inr (Stop FAILURE), w, s))"

definition stuck_text :: string where
  "stuck_text = ''DAG stuck: no ready nodes and not all succeeded''"

definition dag_settle :: "dag_config \<Rightarrow> pydict \<Rightarrow> dict_state \<Rightarrow> pattern_status result \<times> dict_state" where
  "dag_settle c dag s = (case all_succeeded c dag of
     Inl x \<Rightarrow> (Inl x, s)
   | Inr True \<Rightarrow> (Inr SUCCESS, st_set dag_key (VDict (dict_set ''status'' (VStr ''succeeded'') dag)) s)
   | Inr False \<Rightarrow> (Inr FAILURE, st_set dag_key (VDict (dict_set ''error'' (VStr stuck_text) (dict_set ''status'' (VStr ''failed'') dag))) s))"

partial_function (option) dag_loop :: "'r dag_env \<Rightarrow> dag_pattern \<Rightarrow> pattern_status \<Rightarrow> ('r, 'w) dag_world \<Rightarrow> dict_state
    \<Rightarrow> (pattern_status result \<times> ('r, 'w) dag_world \<times> dict_state) option" where
  "dag_loop env p prior w s = (case st_get dag_key VNone s of
     VDict dag \<Rightarrow>
      (if dag_failed dag then Some (Inr FAILURE, w, s)
       else if dag_succeeded dag then Some (Inr SUCCESS, w, s)
       else case ready_nodes (dp_config p) dag of
         Inl x \<Rightarrow> Some (Inl x, w, s)
       | Inr [] \<Rightarrow> Some (case dag_settle (dp_config p) dag s of (st, s1) \<Rightarrow> (st, w, s1))
       | Inr (n # ns) \<Rightarrow>
          (case dag_batch env p (if dc_drain (dp_config p) then n # ns else [n]) prior w s of
            (Inl x, w1, s1) \<Rightarrow> Some (Inl x, w1, s1)
          | (Inr (Stop st), w1, s1) \<Rightarrow> Some (Inr st, w1, s1)
          | (Inr (Go_on st), w1, s1) \<Rightarrow> (if dc_drain (dp_config p) then dag_loop env p st w1 s1 else Some (Inr st, w1, s1))))
   | _ \<Rightarrow> Some (Inr FAILURE, w, s))"

definition dag_seed :: "dag_pattern \<Rightarrow> dict_state \<Rightarrow> dag_pattern \<times> dict_state" where
  "dag_seed p s =
     (if dp_seeded p \<or> dc_initial (dp_config p) = [] then (p, s)
      else (p\<lparr>dp_seeded := True\<rparr>, fold (\<lambda>(k, v) s. if st_has k s then s else st_set k v s) (dc_initial (dp_config p)) s))"

definition fresh_dag :: "dag_config \<Rightarrow> pydict" where
  "fresh_dag c = [(''status'', VStr ''running''), (''order'', VList (map (VStr \<circ> dn_id) (dc_nodes c))),
     (''nodes'', VDict (fold (\<lambda>n. dict_set (dn_id n) (VDict [(''status'', VStr ''pending''), (''output_key'', VStr (output_of n))])) (dc_nodes c) []))]"

definition ensure_dag :: "dag_config \<Rightarrow> dict_state \<Rightarrow> pydict \<times> dict_state" where
  "ensure_dag c s =
     (let fresh = (fresh_dag c, st_set dag_key (VDict (fresh_dag c)) s) in
      case st_get dag_key VNone s of
        VDict raw \<Rightarrow> (if truthy (py_get raw ''nodes'') then (raw, s) else fresh)
      | _ \<Rightarrow> fresh)"

definition dag_tick :: "'r dag_env \<Rightarrow> dag_pattern \<Rightarrow> ('r, 'w) dag_world \<Rightarrow> dict_state
    \<Rightarrow> (pattern_status result \<times> dag_pattern \<times> ('r, 'w) dag_world \<times> dict_state) option" where
  "dag_tick env p w s =
     (case dag_seed p s of (p1, s1) \<Rightarrow> (case ensure_dag (dp_config p1) s1 of (dag, s2) \<Rightarrow>
        if dag_succeeded dag then Some (Inr SUCCESS, p1, w, s2)
        else if dag_failed dag then Some (Inr FAILURE, p1, w, s2)
        else map_option (\<lambda>(st, w3, s3). (st, p1, w3, s3)) (dag_loop env p1 RUNNING_STATUS w s2)))"

end
