(* ===== verification/DagSort.thy ===== *)
theory DagSort
  imports DagConfig "HOL-Library.Multiset"
begin

text \<open>The topological sort is right and complete: it orders exactly the acyclic configurations.\<close>

subsection \<open>Releasing the children of a node\<close>

lemma release_simps:
  "dict_get deg c = None \<Longrightarrow> release c (deg, q) = (deg, q)"
  "dict_get deg c = Some k \<Longrightarrow> release c (deg, q) = (dict_set c (k - 1) deg, if k = 1 then q @ [c] else q)"
  by (simp_all add: release_def)

lemma releases:
  "fold release cs (deg, q) = (deg', q') \<Longrightarrow>
    (\<forall>c. dict_get deg' c = map_option (\<lambda>k. k - int (count_list cs c)) (dict_get deg c)) \<and>
    (\<exists>fresh. q' = q @ fresh \<and> distinct fresh \<and> set fresh = {c. \<exists>k. dict_get deg c = Some k \<and> 1 \<le> k \<and> k \<le> int (count_list cs c)})"
proof (induction cs arbitrary: deg q)
  case Nil
  then show ?case by (auto simp: map_option.id [unfolded id_def])
next
  case (Cons c cs)
  show ?case
  proof (cases "dict_get deg c")
    case None
    then have "fold release cs (deg, q) = (deg', q')" using Cons.prems by (simp add: release_simps(1) [OF None])
    from Cons.IH [OF this] None show ?thesis
      by (elim conjE exE, intro conjI exI) (auto simp: fun_eq_iff split: if_splits)
  next
    case (Some k)
    let ?d = "dict_set c (k - 1) deg" and ?q = "if k = 1 then q @ [c] else q"
    have "fold release cs (?d, ?q) = (deg', q')" using Cons.prems by (simp add: release_simps(2) [OF Some])
    from Cons.IH [OF this] obtain fresh where IH: "\<And>x. dict_get deg' x = map_option (\<lambda>k. k - int (count_list cs x)) (dict_get ?d x)"
      "q' = ?q @ fresh" "distinct fresh" "set fresh = {x. \<exists>k. dict_get ?d x = Some k \<and> 1 \<le> k \<and> k \<le> int (count_list cs x)}" by blast
    have "dict_get deg' x = map_option (\<lambda>k. k - int (count_list (c # cs) x)) (dict_get deg x)" for x
      using IH(1) [of x] Some by (cases "dict_get deg x") auto
    moreover have "q' = q @ ((if k = 1 then [c] else []) @ fresh)" "distinct ((if k = 1 then [c] else []) @ fresh)"
      using IH(2,3,4) by auto
    moreover have "set ((if k = 1 then [c] else []) @ fresh) = {x. \<exists>k. dict_get deg x = Some k \<and> 1 \<le> k \<and> k \<le> int (count_list (c # cs) x)}"
    proof (rule set_eqI)
      fix x
      show "x \<in> set ((if k = 1 then [c] else []) @ fresh) \<longleftrightarrow> x \<in> {x. \<exists>k. dict_get deg x = Some k \<and> 1 \<le> k \<and> k \<le> int (count_list (c # cs) x)}"
        using Some by (cases "x = c") (auto simp: IH(4))
    qed
    ultimately show ?thesis by blast
  qed
qed

lemma count_children:
  assumes "distinct (map dn_id ns)" "n \<in> set ns"
  shows "count_list (children_of ns i) (dn_id n) = count_list (dn_deps n) i"
proof -
  have "count_list (replicate k x) y = (if x = y then k else 0)" for k and x y :: string by (induction k) auto
  then have "count_list (children_of ms i) c = (\<Sum>m\<leftarrow>ms. if dn_id m = c then count_list (dn_deps m) i else 0)" for ms c
    by (induction ms) (auto simp: children_of_def)
  moreover have "(\<Sum>m\<leftarrow>ms. if dn_id m = dn_id n then f m else 0) = f n" if "distinct (map dn_id ms)" "n \<in> set ms" for ms and f :: "dag_node \<Rightarrow> nat"
  proof -
    have "(\<Sum>m\<leftarrow>ms. if dn_id m = dn_id n then f m else 0) = 0" if "dn_id n \<notin> dn_id ` set ms" for ms using that by (induction ms) auto
    then show ?thesis using that by (induction ms) auto
  qed
  ultimately show ?thesis using assms by simp
qed

lemma count_foreign: "c \<notin> dn_id ` set ns \<Longrightarrow> count_list (children_of ns i) c = 0"
  by (auto simp: count_list_0_iff children_of_def)

subsection \<open>The invariant of the loop\<close>

definition waiting :: "string list \<Rightarrow> dag_node \<Rightarrow> string list" where
  "waiting seen n = filter (\<lambda>d. d \<notin> set seen) (dn_deps n)"

definition kahn_inv :: "dag_node list \<Rightarrow> string list \<Rightarrow> (string, int) dict \<Rightarrow> string list \<Rightarrow> bool" where
  "kahn_inv ns seen deg q \<longleftrightarrow> distinct (seen @ q) \<and> set (seen @ q) \<subseteq> dn_id ` set ns
     \<and> (\<forall>n \<in> set ns. dict_get deg (dn_id n) = Some (int (length (waiting seen n))))
     \<and> (\<forall>c. c \<notin> dn_id ` set ns \<longrightarrow> dict_get deg c = None)
     \<and> (\<forall>n \<in> set ns. dn_id n \<in> set seen \<union> set q \<longleftrightarrow> waiting seen n = [])
     \<and> (\<forall>n \<in> set ns. \<forall>k < length seen. seen ! k = dn_id n \<longrightarrow> set (dn_deps n) \<subseteq> set (take k seen))"

lemma count_filter: "i \<notin> set seen \<Longrightarrow> length (filter (\<lambda>d. d \<notin> set seen) ds) = length (filter (\<lambda>d. d \<notin> set (seen @ [i])) ds) + count_list ds i"
  by (induction ds) auto

lemma waiting_append: "i \<notin> set seen \<Longrightarrow> length (waiting seen n) = length (waiting (seen @ [i]) n) + count_list (dn_deps n) i"
  unfolding waiting_def by (rule count_filter)

lemma waiting_done: "waiting seen n = [] \<longleftrightarrow> set (dn_deps n) \<subseteq> set seen"
  by (auto simp: waiting_def filter_empty_conv)

lemma kahn_step:
  assumes ids: "distinct (map dn_id ns)" and iv: "kahn_inv ns seen deg q" and q: "sort_key f q = i # rest"
    and rel: "fold release (children_of ns i) (deg, rest) = (deg', q')"
  shows "kahn_inv ns (seen @ [i]) deg' q'"
proof -
  have sq: "set q = insert i (set rest)" "distinct (i # rest)" "i \<notin> set rest"
    using arg_cong [OF q, of set] arg_cong [OF q, of distinct] iv by (auto simp: kahn_inv_def)
  have i: "i \<notin> set seen" "set seen \<inter> set q = {}" "distinct seen" "set seen \<subseteq> dn_id ` set ns" "set q \<subseteq> dn_id ` set ns"
    using iv sq by (auto simp: kahn_inv_def)
  have deg: "dict_get deg (dn_id n) = Some (int (length (waiting seen n)))" if "n \<in> set ns" for n using iv that by (simp add: kahn_inv_def)
  have old: "dn_id n \<in> set seen \<union> set q \<longleftrightarrow> waiting seen n = []" if "n \<in> set ns" for n using iv that by (simp add: kahn_inv_def)
  have foreign: "dict_get deg c = None" if "c \<notin> dn_id ` set ns" for c using iv that by (simp add: kahn_inv_def)
  note step = waiting_append [OF i(1)] and count = count_children [OF ids]
  from releases [OF rel] obtain fresh where deg': "\<And>c. dict_get deg' c = map_option (\<lambda>k. k - int (count_list (children_of ns i) c)) (dict_get deg c)"
    and q': "q' = rest @ fresh" "distinct fresh"
    and fresh: "set fresh = {c. \<exists>k. dict_get deg c = Some k \<and> 1 \<le> k \<and> k \<le> int (count_list (children_of ns i) c)}" by blast
  have known: "set fresh \<subseteq> dn_id ` set ns" using fresh foreign by force
  have new: "dn_id n \<in> set fresh \<longleftrightarrow> waiting seen n \<noteq> [] \<and> waiting (seen @ [i]) n = []" if n: "n \<in> set ns" for n
  proof -
    have "dn_id n \<in> set fresh \<longleftrightarrow> 1 \<le> length (waiting seen n) \<and> length (waiting seen n) \<le> count_list (dn_deps n) i"
      unfolding fresh mem_Collect_eq deg [OF n] count [OF n] option.inject by (simp add: Suc_le_eq)
    then show ?thesis using step [of n] by (cases "waiting seen n"; cases "waiting (seen @ [i]) n") auto
  qed
  have apart: "set fresh \<inter> (set seen \<union> set q) = {}" using known new old by blast
  have keeps: "waiting seen n = [] \<Longrightarrow> waiting (seen @ [i]) n = []" for n by (auto simp: waiting_done)
  have "distinct (seen @ [i]) \<and> distinct q' \<and> set (seen @ [i]) \<inter> set q' = {}" using i sq q' apart by auto
  moreover have "set (seen @ [i] @ q') \<subseteq> dn_id ` set ns" using i sq known q' by auto
  moreover have "dict_get deg' (dn_id n) = Some (int (length (waiting (seen @ [i]) n)))" if n: "n \<in> set ns" for n
    by (simp add: deg' deg [OF n] count [OF n] step [of n])
  moreover have "dict_get deg' c = None" if "c \<notin> dn_id ` set ns" for c using that by (simp add: deg' foreign)
  moreover have "dn_id n \<in> set (seen @ [i]) \<union> set q' \<longleftrightarrow> waiting (seen @ [i]) n = []" if n: "n \<in> set ns" for n
    using new [OF n] old [OF n] keeps [of n] q'(1) sq(1) by auto
  moreover have "set (dn_deps n) \<subseteq> set (take k (seen @ [i]))" if n: "n \<in> set ns" and k: "k < length (seen @ [i])" "(seen @ [i]) ! k = dn_id n" for n k
  proof (cases "k < length seen")
    case True
    then show ?thesis using iv n k by (auto simp: kahn_inv_def nth_append)
  next
    case False
    then have "k = length seen" "dn_id n = i" using k by (auto simp: nth_append)
    then show ?thesis using old [OF n] sq(1) by (simp add: waiting_done)
  qed
  ultimately show ?thesis unfolding kahn_inv_def by (intro conjI ballI allI impI) auto
qed

declare kahn.simps [simp del]

lemma kahn_done:
  "distinct (map dn_id ns) \<Longrightarrow> kahn_inv ns seen deg q \<Longrightarrow> \<exists>deg'. kahn_inv ns (seen @ kahn ns deg q) deg' []"
proof (induction ns deg q arbitrary: seen rule: kahn.induct)
  case (1 ns deg q)
  show ?case
  proof (cases "sort_key (order_index ns) q")
    case Nil
    then have "length q = 0" by (metis length_sort list.size(3))
    then have "q = []" by simp
    then show ?thesis using "1.prems" Nil by (subst kahn.simps) auto
  next
    case (Cons i rest)
    obtain deg' q' where rel: "fold release (children_of ns i) (deg, rest) = (deg', q')" by (cases "fold release (children_of ns i) (deg, rest)")
    from "1.IH" [OF Cons rel [symmetric] "1.prems"(1) kahn_step [OF "1.prems" Cons rel]]
    show ?thesis by (subst kahn.simps) (simp add: Cons rel)
  qed
qed

lemma get_indegrees:
  "distinct (map dn_id ns) \<Longrightarrow> n \<in> set ns \<Longrightarrow> dict_get (indegrees ns) (dn_id n) = Some (int (length (dn_deps n)))"
  "c \<notin> dn_id ` set ns \<Longrightarrow> dict_get (indegrees ns) c = None"
  unfolding indegrees_def by (induction ns) (auto simp: rev_image_eqI)

lemma kahn_start:
  assumes "distinct (map dn_id ns)"
  shows "kahn_inv ns [] (indegrees ns) (map fst (filter (\<lambda>(i, k). k = 0) (indegrees ns)))"
proof -
  have "map fst (filter (\<lambda>(i, k). k = 0) (indegrees ms)) = map dn_id (filter (\<lambda>n. dn_deps n = []) ms)" for ms
    unfolding indegrees_def by (induction ms) auto
  moreover have "distinct (map dn_id (filter P ns))" for P using assms by (rule distinct_map_filter)
  moreover have "dn_id n \<in> dn_id ` set (filter (\<lambda>n. dn_deps n = []) ns) \<longleftrightarrow> dn_deps n = []" if "n \<in> set ns" for n
    using that assms by (auto simp: distinct_map inj_on_def)
  ultimately show ?thesis using get_indegrees(1) [OF assms] get_indegrees(2) [of _ ns]
    unfolding kahn_inv_def waiting_def by (intro conjI ballI allI impI) auto
qed

subsection \<open>The sort\<close>

definition dag_edges :: "dag_node list \<Rightarrow> (string \<times> string) set" where
  "dag_edges ns = {(d, dn_id n) | d n. n \<in> set ns \<and> d \<in> set (dn_deps n)}"

definition ids_known :: "dag_node list \<Rightarrow> bool" where
  "ids_known ns = (distinct (map dn_id ns) \<and> (\<forall>n \<in> set ns. set (dn_deps n) \<subseteq> dn_id ` set ns))"

definition deps_first :: "dag_node list \<Rightarrow> bool" where
  "deps_first ns = (\<forall>k < length ns. set (dn_deps (ns ! k)) \<subseteq> dn_id ` set (take k ns))"

lemma finite_edges: "finite (dag_edges ns)"
proof -
  have "dag_edges ns = (\<Union>n \<in> set ns. (\<lambda>d. (d, dn_id n)) ` set (dn_deps n))" by (auto simp: dag_edges_def)
  then show ?thesis by simp
qed

lemma deps_first_acyclic:
  assumes ids: "distinct (map dn_id ns)" and first: "deps_first ns" and same: "set ms = set ns"
  shows "acyclic (dag_edges ms)"
proof -
  define pos where "pos i = (LEAST k. k < length ns \<and> dn_id (ns ! k) = i)" for i
  have pos: "pos (dn_id (ns ! k)) = k" if "k < length ns" for k
    unfolding pos_def using that ids by (intro Least_equality) (auto simp: distinct_conv_nth)
  have "dag_edges ms \<subseteq> measure pos"
  proof (clarsimp simp: dag_edges_def same)
    fix d n
    assume n: "n \<in> set ns" and d: "d \<in> set (dn_deps n)"
    then obtain k where k: "k < length ns" "n = ns ! k" by (auto simp: in_set_conv_nth)
    have "d \<in> dn_id ` set (take k ns)" using first k d unfolding deps_first_def by blast
    then obtain m where "m \<in> set (take k ns)" "d = dn_id m" by blast
    then obtain j where "j < k" "d = dn_id (ns ! j)" using k(1) by (auto simp: in_set_conv_nth)
    then show "pos d < pos (dn_id n)" using k by (simp add: pos)
  qed
  then show ?thesis using wf_acyclic [OF wf_subset [OF wf_measure]] by blast
qed

text \<open>A node that is never released waits for another one that is never released.\<close>

lemma stuck_is_cyclic:
  assumes known: "ids_known ns" and iv: "kahn_inv ns ordered deg []" and ac: "acyclic (dag_edges ns)"
  shows "set ordered = dn_id ` set ns"
proof (rule ccontr)
  let ?left = "dn_id ` set ns - set ordered"
  assume "set ordered \<noteq> dn_id ` set ns"
  then have "?left \<noteq> {}" using iv by (auto simp: kahn_inv_def)
  moreover have "wf (dag_edges ns)" using finite_acyclic_wf [OF finite_edges ac] .
  ultimately obtain z where z: "z \<in> ?left" "\<And>y. (y, z) \<in> dag_edges ns \<Longrightarrow> y \<notin> ?left" by (meson wfE_min')
  then obtain n where n: "n \<in> set ns" "z = dn_id n" by blast
  then have "\<not> set (dn_deps n) \<subseteq> set ordered" using iv z(1) by (auto simp: kahn_inv_def waiting_done)
  then obtain d where d: "d \<in> set (dn_deps n)" "d \<notin> set ordered" by blast
  then have "(d, z) \<in> dag_edges ns" "d \<in> ?left" using n known by (auto simp: dag_edges_def ids_known_def)
  then show False using z(2) by blast
qed

lemma node_of_id: "distinct (map dn_id ns) \<Longrightarrow> n \<in> set ns \<Longrightarrow> node_of ns (dn_id n) = Some n"
  unfolding node_of_def by (induction ns) (auto simp: rev_image_eqI)

lemma nodes_of:
  "distinct (map dn_id ns) \<Longrightarrow> set is \<subseteq> dn_id ` set ns \<Longrightarrow>
    map dn_id (List.map_filter (node_of ns) is) = is \<and> set (List.map_filter (node_of ns) is) \<subseteq> set ns"
  by (induction "is") (auto simp: map_filter_simps node_of_id)

lemma unknown_dep_None: "unknown_dep ns = None \<longleftrightarrow> (\<forall>n \<in> set ns. set (dn_deps n) \<subseteq> dn_id ` set ns)"
  by (force simp: unknown_dep_def find_None_iff)

lemma topological_sort_Inr:
  "topological_sort ns = Inr out \<longleftrightarrow> ids_known ns \<and> (let ordered = kahn ns (indegrees ns) (map fst (filter (\<lambda>(i, k). k = 0) (indegrees ns))) in
     length ordered = length ns \<and> out = List.map_filter (node_of ns) ordered)"
  unfolding topological_sort_def ids_known_def by (auto simp: Let_def unknown_dep_None [symmetric] split: option.split)

lemma sorted_out:
  assumes out: "topological_sort ns = Inr out"
  shows "set out = set ns" "distinct (map dn_id out)" "deps_first out"
proof -
  have known: "ids_known ns" using out by (simp add: topological_sort_Inr)
  define ordered where "ordered = kahn ns (indegrees ns) (map fst (filter (\<lambda>(i, k). k = 0) (indegrees ns)))"
  have len: "length ordered = length ns" and out': "out = List.map_filter (node_of ns) ordered"
    using out by (simp_all add: topological_sort_Inr ordered_def Let_def)
  have ids: "distinct (map dn_id ns)" using known by (simp add: ids_known_def)
  obtain deg where iv: "kahn_inv ns ordered deg []" using kahn_done [OF ids kahn_start [OF ids]] by (auto simp: ordered_def)
  have ordered: "distinct ordered" "set ordered \<subseteq> dn_id ` set ns" using iv by (auto simp: kahn_inv_def)
  have named: "map dn_id out = ordered" "set out \<subseteq> set ns" using nodes_of [OF ids ordered(2)] out' by auto
  have "card (set out) = length out" using named ordered(1) by (metis distinct_card distinct_map)
  also have "\<dots> = card (set ns)" using named(1) len ids by (metis distinct_card distinct_map length_map)
  finally show same: "set out = set ns" using card_subset_eq [OF finite_set named(2)] by blast
  show "distinct (map dn_id out)" using named ordered by simp
  have "set (dn_deps (out ! k)) \<subseteq> dn_id ` set (take k out)" if k: "k < length out" for k
  proof -
    have len: "length out = length ordered" using named(1) by (metis length_map)
    have "set (dn_deps (out ! k)) \<subseteq> set (take k ordered)"
      using iv k named len unfolding kahn_inv_def by (metis nth_map nth_mem subsetD)
    then show ?thesis by (simp add: named(1) [symmetric] take_map)
  qed
  then show "deps_first out" by (simp add: deps_first_def)
qed

lemma sort_succeeds:
  assumes known: "ids_known ns" and ac: "acyclic (dag_edges ns)"
  shows "\<exists>out. topological_sort ns = Inr out"
proof -
  have ids: "distinct (map dn_id ns)" using known by (simp add: ids_known_def)
  define ordered where "ordered = kahn ns (indegrees ns) (map fst (filter (\<lambda>(i, k). k = 0) (indegrees ns)))"
  obtain deg where iv: "kahn_inv ns ordered deg []" using kahn_done [OF ids kahn_start [OF ids]] by (auto simp: ordered_def)
  have "length ordered = card (set ordered)" using iv by (simp add: kahn_inv_def distinct_card)
  also have "\<dots> = length ns" using stuck_is_cyclic [OF known iv ac] distinct_card [OF ids] by simp
  finally show ?thesis using known by (simp add: topological_sort_Inr ordered_def [symmetric] Let_def)
qed

text \<open>
  C30. The topological sort of a DAG configuration accepts exactly the node lists whose ids are unique, whose
  dependencies are all listed and whose dependency relation has no cycle; what it returns are the same nodes,
  every node after all of its dependencies.
\<close>

theorem topological_sort_decides:
  "((\<exists>out. topological_sort ns = Inr out) \<longleftrightarrow>
      distinct (map dn_id ns) \<and> (\<forall>n \<in> set ns. set (dn_deps n) \<subseteq> dn_id ` set ns) \<and> acyclic {(d, dn_id n) | d n. n \<in> set ns \<and> d \<in> set (dn_deps n)})
   \<and> (\<forall>out. topological_sort ns = Inr out \<longrightarrow>
      mset out = mset ns \<and> (\<forall>k < length out. set (dn_deps (out ! k)) \<subseteq> dn_id ` set (take k out)))"
proof (rule conjI)
  have cyc: "acyclic (dag_edges ns)" if out: "topological_sort ns = Inr out" for out
    using deps_first_acyclic [OF sorted_out(2,3) [OF out], of ns] sorted_out(1) [OF out] by simp
  have known: "ids_known ns" if "topological_sort ns = Inr out" for out using that by (simp add: topological_sort_Inr)
  show "(\<exists>out. topological_sort ns = Inr out) \<longleftrightarrow>
      distinct (map dn_id ns) \<and> (\<forall>n \<in> set ns. set (dn_deps n) \<subseteq> dn_id ` set ns) \<and> acyclic {(d, dn_id n) | d n. n \<in> set ns \<and> d \<in> set (dn_deps n)}"
    using cyc known sort_succeeds [of ns] unfolding dag_edges_def ids_known_def by blast
  show "\<forall>out. topological_sort ns = Inr out \<longrightarrow>
      mset out = mset ns \<and> (\<forall>k < length out. set (dn_deps (out ! k)) \<subseteq> dn_id ` set (take k out))"
  proof (intro allI impI)
    fix out
    assume out: "topological_sort ns = Inr out"
    have "distinct out" "distinct ns" using sorted_out(2) [OF out] known [OF out] by (auto simp: ids_known_def distinct_map)
    then have "mset out = mset ns" using set_eq_iff_mset_eq_distinct sorted_out(1) [OF out] by metis
    moreover have "\<forall>k < length out. set (dn_deps (out ! k)) \<subseteq> dn_id ` set (take k out)"
      using sorted_out(3) [OF out] by (simp add: deps_first_def)
    ultimately show "mset out = mset ns \<and> (\<forall>k < length out. set (dn_deps (out ! k)) \<subseteq> dn_id ` set (take k out))" ..
  qed
qed

definition demo_node :: "string \<Rightarrow> string list \<Rightarrow> dag_node" where
  "demo_node i ds = \<lparr>dn_id = i, dn_ref = Some ''r'', dn_provider = None, dn_action = None, dn_resource_id = None, dn_params = [],
     dn_workload = None, dn_output = None, dn_deps = ds\<rparr>"

lemma demo_sorted:
  "topological_sort [demo_node ''c'' [''a'', ''b''], demo_node ''b'' [''a''], demo_node ''a'' []]
     = Inr [demo_node ''a'' [], demo_node ''b'' [''a''], demo_node ''c'' [''a'', ''b'']]"
  by code_simp

lemma topological_sort_decides_witness:
  "mset [demo_node ''a'' [], demo_node ''b'' [''a''], demo_node ''c'' [''a'', ''b'']]
     = mset [demo_node ''c'' [''a'', ''b''], demo_node ''b'' [''a''], demo_node ''a'' []]"
  using topological_sort_decides [THEN conjunct2, rule_format, OF demo_sorted] by (rule conjunct1)

end
