(* ===== verification/DagProps.thy ===== *)
theory DagProps
  imports Dag DagSort
begin

text \<open>
  The DAG pattern runs its nodes in the order of their dependencies, and a drained tick of a configuration that
  passed the topological sort settles it.
\<close>

subsection \<open>The progress of the nodes\<close>

definition entry :: "pydict \<Rightarrow> string \<Rightarrow> pydict" where
  "entry dag i = dict_of (py_get (dict_of (py_get dag ''nodes'')) i)"

definition stat :: "pydict \<Rightarrow> string \<Rightarrow> pyval" where
  "stat dag i = py_get (entry dag i) ''status''"

definition shaped :: "dag_config \<Rightarrow> pydict \<Rightarrow> bool" where
  "shaped c dag = (\<exists>nodes. py_get dag ''nodes'' = VDict nodes \<and> nodes \<noteq> [] \<and> (\<forall>n \<in> set (dc_nodes c). \<exists>e. py_get nodes (dn_id n) = VDict e))"

text \<open>A node leaves \<open>pending\<close> only when everything it depends on has succeeded.\<close>

definition in_order :: "dag_config \<Rightarrow> pydict \<Rightarrow> bool" where
  "in_order c dag = (\<forall>n \<in> set (dc_nodes c). stat dag (dn_id n) \<noteq> VStr ''pending'' \<longrightarrow> (\<forall>d \<in> set (dn_deps n). stat dag d = VStr ''succeeded''))"

definition ready :: "dag_node \<Rightarrow> pydict \<Rightarrow> bool" where
  "ready n dag = (stat dag (dn_id n) = VStr ''pending'' \<and> (\<forall>d \<in> set (dn_deps n). stat dag d = VStr ''succeeded''))"

definition pending :: "dag_config \<Rightarrow> pydict \<Rightarrow> string set" where
  "pending c dag = {i \<in> dn_id ` set (dc_nodes c). stat dag i = VStr ''pending''}"

definition finished :: "dag_config \<Rightarrow> pydict \<Rightarrow> bool" where
  "finished c dag = (\<forall>n \<in> set (dc_nodes c). stat dag (dn_id n) = VStr ''succeeded'')"

lemma or_empty_dict_VDict [simp]: "or_empty_dict (VDict d) = Inr d"
  by (cases d) (simp_all add: or_empty_dict_def py_or_def)

lemma all_result_Inr: "(\<And>x. x \<in> set xs \<Longrightarrow> f x = Inr (g x)) \<Longrightarrow> all_result f xs = Inr (\<forall>x \<in> set xs. g x)"
  by (induction xs) auto

lemma status_shaped:
  assumes "shaped c dag" "py_get dag ''nodes'' = VDict nodes" "i \<in> dn_id ` set (dc_nodes c)"
  shows "node_status nodes i = Inr (stat dag i)" "node_succeeded nodes i = Inr (stat dag i = VStr ''succeeded'')"
proof -
  obtain e where e: "py_get nodes i = VDict e" using assms by (auto simp: shaped_def)
  show "node_status nodes i = Inr (stat dag i)" using e assms(2) by (simp add: node_status_def stat_def entry_def dict_of_def)
  then show "node_succeeded nodes i = Inr (stat dag i = VStr ''succeeded'')" by (simp add: node_succeeded_def)
qed

lemma ready_shaped:
  assumes sh: "shaped c dag" "ids_known (dc_nodes c)" and n: "n \<in> set (dc_nodes c)" and nodes: "py_get dag ''nodes'' = VDict nodes"
  shows "node_ready nodes n = Inr (ready n dag)"
proof -
  have "all_result (node_succeeded nodes) (dn_deps n) = Inr (\<forall>d \<in> set (dn_deps n). stat dag d = VStr ''succeeded'')"
    using sh n by (intro all_result_Inr status_shaped(2) [OF sh(1) nodes]) (auto simp: ids_known_def)
  then show ?thesis using status_shaped(1) [OF sh(1) nodes, of "dn_id n"] n by (simp add: node_ready_def ready_def)
qed

lemma filter_ready_Inr: "(\<And>n. n \<in> set ns \<Longrightarrow> node_ready nodes n = Inr (g n)) \<Longrightarrow> filter_ready nodes ns = Inr (filter g ns)"
  by (induction ns) auto

lemma ready_nodes_shaped:
  assumes "shaped c dag" "ids_known (dc_nodes c)"
  shows "ready_nodes c dag = Inr (filter (\<lambda>n. ready n dag) (dc_nodes c))"
proof -
  obtain nodes where nodes: "py_get dag ''nodes'' = VDict nodes" using assms by (auto simp: shaped_def)
  show ?thesis using ready_shaped [OF assms _ nodes] by (simp add: ready_nodes_def nodes filter_ready_Inr)
qed

lemma all_succeeded_shaped:
  assumes "shaped c dag"
  shows "all_succeeded c dag = Inr (finished c dag)"
proof -
  obtain nodes where nodes: "py_get dag ''nodes'' = VDict nodes" using assms by (auto simp: shaped_def)
  have "all_result (node_succeeded nodes) (map dn_id (dc_nodes c)) = Inr (\<forall>i \<in> set (map dn_id (dc_nodes c)). stat dag i = VStr ''succeeded'')"
    by (intro all_result_Inr status_shaped(2) [OF assms nodes]) auto
  then show ?thesis by (simp add: all_succeeded_def nodes finished_def)
qed

lemma ready_cong: "(\<And>i. stat d' i = stat d i) \<Longrightarrow> ready n d' = ready n d" by (simp add: ready_def)

lemma stat_edit: "py_get dag ''nodes'' = VDict nodes \<Longrightarrow>
  stat (edit_node i f dag) j = (if j = i then py_get (f (entry dag i)) ''status'' else stat dag j)"
  by (simp add: edit_node_def stat_def entry_def dict_of_def Let_def)

lemma stat_set: "k \<noteq> ''nodes'' \<Longrightarrow> stat (dict_set k v dag) j = stat dag j"
  by (simp add: stat_def entry_def)

lemma stat_pop: "k \<noteq> ''nodes'' \<Longrightarrow> stat (dict_pop k dag) j = stat dag j"
  by (simp add: stat_def entry_def get_default_def)

lemma shaped_edit: "shaped c dag \<Longrightarrow> shaped c (edit_node i f dag)"
  by (force simp: shaped_def edit_node_def dict_of_def Let_def)

lemma shaped_set: "k \<noteq> ''nodes'' \<Longrightarrow> shaped c (dict_set k v dag) = shaped c dag"
  by (simp add: shaped_def)

lemma shaped_pop: "k \<noteq> ''nodes'' \<Longrightarrow> shaped c (dict_pop k dag) = shaped c dag"
  by (simp add: shaped_def get_default_def)

lemma top_edit: "k \<noteq> ''nodes'' \<Longrightarrow> py_get (edit_node i f dag) k = py_get dag k"
  by (simp add: edit_node_def Let_def)

subsection \<open>One node\<close>

lemma got_set [simp]: "st_get k d (st_set k' v s) = (if k = k' then v else st_get k d s)"
  by (simp add: st_get_def st_set_def st_notify_def)

lemma effect_raises: "node_effect env p n w s = (Inl x, w', s') \<Longrightarrow> s' = s"
  by (auto simp: node_effect_def workload_effect_def resource_effect_def Let_def split: if_splits sum.splits prod.splits)

lemma error_key: "''dag_error_'' @ i \<noteq> dag_key" by (simp add: dag_key_def)

lemma nodes_edited: "shaped c dag \<Longrightarrow> \<exists>nodes. py_get (edit_node i f dag) ''nodes'' = VDict nodes"
  using shaped_edit [of c dag i f] by (auto simp: shaped_def)

text \<open>What a node has done to the progress, by its outcome.\<close>

definition node_done :: "dag_config \<Rightarrow> string \<Rightarrow> pydict \<Rightarrow> pattern_status result \<Rightarrow> pydict \<Rightarrow> bool" where
  "node_done c i dag out dag' = (shaped c dag' \<and> (\<forall>j. j \<noteq> i \<longrightarrow> stat dag' j = stat dag j) \<and>
     (case out of
        Inl x \<Rightarrow> stat dag' i = VStr ''running'' \<and> py_get dag' ''status'' = py_get dag ''status''
      | Inr FAILURE \<Rightarrow> stat dag' i = VStr ''failed'' \<and> dag_failed dag'
      | Inr SUCCESS \<Rightarrow> stat dag' i = VStr ''succeeded'' \<and> dag_succeeded dag' \<and> finished c dag'
      | Inr RUNNING_STATUS \<Rightarrow> stat dag' i = VStr ''succeeded'' \<and> py_get dag' ''status'' = py_get dag ''status''
      | Inr WAITING \<Rightarrow> False))"

lemma mark_running_stat:
  assumes "shaped c dag"
  shows "shaped c (mark_running n dag)" "stat (mark_running n dag) j = (if j = dn_id n then VStr ''running'' else stat dag j)"
    "py_get (mark_running n dag) ''status'' = py_get dag ''status''"
proof -
  obtain nodes where nodes: "py_get dag ''nodes'' = VDict nodes" using assms by (auto simp: shaped_def)
  show "shaped c (mark_running n dag)" using assms by (simp add: mark_running_def shaped_set shaped_edit)
  show "stat (mark_running n dag) j = (if j = dn_id n then VStr ''running'' else stat dag j)"
    by (simp add: mark_running_def stat_set stat_edit [OF nodes])
  show "py_get (mark_running n dag) ''status'' = py_get dag ''status''" by (simp add: mark_running_def top_edit)
qed

lemma succeed_node_done:
  assumes sh: "shaped c dag" and run: "succeed_node c n dag s = (out, s')"
  shows "\<exists>dag'. st_get dag_key VNone s' = VDict dag' \<and> node_done c (dn_id n) dag out dag' \<and> (\<exists>st. out = Inr st)"
proof -
  let ?d = "edit_node (dn_id n) (dict_set ''output_key'' (VStr (output_of n)) \<circ> dict_set ''status'' (VStr ''succeeded'')) dag"
  obtain nodes where nodes: "py_get dag ''nodes'' = VDict nodes" using sh by (auto simp: shaped_def)
  have d: "shaped c ?d" "stat ?d j = (if j = dn_id n then VStr ''succeeded'' else stat dag j)"
    "py_get ?d ''status'' = py_get dag ''status''" for j using sh by (simp_all add: shaped_edit stat_edit [OF nodes] top_edit)
  show ?thesis
  proof (cases "finished c ?d")
    case True
    have "out = Inr SUCCESS" "st_get dag_key VNone s' = VDict (dict_pop ''current'' (dict_set ''status'' (VStr ''succeeded'') ?d))"
      using run True by (auto simp: succeed_node_def all_succeeded_shaped [OF d(1)])
    then show ?thesis using d True
      by (auto simp: node_done_def shaped_pop shaped_set stat_pop stat_set finished_def dag_succeeded_def get_default_def)
  next
    case False
    have "out = Inr RUNNING_STATUS" "st_get dag_key VNone s' = VDict ?d"
      using run False by (auto simp: succeed_node_def all_succeeded_shaped [OF d(1)])
    then show ?thesis using d by (auto simp: node_done_def)
  qed
qed

lemma fail_node_done:
  assumes sh: "shaped c dag" and run: "fail_node n dag err s = (out, s')"
  shows "\<exists>dag'. st_get dag_key VNone s' = VDict dag' \<and> node_done c (dn_id n) dag out dag' \<and> (\<exists>st. out = Inr st)"
proof -
  obtain nodes where nodes: "py_get dag ''nodes'' = VDict nodes" using sh by (auto simp: shaped_def)
  have "out = Inr FAILURE" using run by (auto simp: fail_node_def Let_def)
  moreover obtain dag' where "st_get dag_key VNone s' = VDict dag'" "shaped c dag'"
    "\<And>j. stat dag' j = (if j = dn_id n then VStr ''failed'' else stat dag j)" "dag_failed dag'"
  proof
    let ?d = "edit_node (dn_id n) (dict_set ''error'' (VStr err) \<circ> dict_set ''status'' (VStr ''failed'')) dag"
    let ?d' = "dict_set ''current'' (VStr (dn_id n)) (dict_set ''error'' (VStr (''node '' @ quoted (dn_id n) @ '': '' @ err)) (dict_set ''status'' (VStr ''failed'') ?d))"
    show "st_get dag_key VNone s' = VDict ?d'" using run error_key [of "dn_id n"] by (auto simp: fail_node_def Let_def)
    show "shaped c ?d'" using sh by (simp add: shaped_set shaped_edit)
    show "stat ?d' j = (if j = dn_id n then VStr ''failed'' else stat dag j)" for j by (simp add: stat_set stat_edit [OF nodes])
    show "dag_failed ?d'" by (simp add: dag_failed_def)
  qed
  ultimately show ?thesis by (auto simp: node_done_def)
qed

lemma done_after_mark:
  assumes "shaped c dag" "node_done c (dn_id n) (mark_running n dag) (Inr st) dag'"
  shows "node_done c (dn_id n) dag (Inr st) dag'"
  using assms mark_running_stat [OF assms(1), of n] by (cases st) (auto simp: node_done_def)

lemma run_node_done:
  assumes sh: "shaped (dp_config p) dag" and run: "run_node env p n dag w s = (out, w', s')"
  shows "\<exists>dag'. st_get dag_key VNone s' = VDict dag' \<and> node_done (dp_config p) (dn_id n) dag out dag'"
proof -
  let ?d = "mark_running n dag"
  note marked = mark_running_stat [OF sh, of n]
  obtain eff w2 s2 where e: "node_effect env p n w (st_set dag_key (VDict ?d) s) = (eff, w2, s2)"
    by (cases "node_effect env p n w (st_set dag_key (VDict ?d) s)")
  show ?thesis
  proof (cases eff)
    case (Inl x)
    then have "s' = st_set dag_key (VDict ?d) s" "out = Inl x"
      using run e effect_raises [OF e [unfolded Inl]] by (auto simp: run_node_def Let_def)
    then show ?thesis using marked by (auto simp: node_done_def)
  next
    case (Inr failure)
    show ?thesis
    proof (cases failure)
      case None
      have "succeed_node (dp_config p) n ?d s2 = (out, s')" using run e Inr None by (auto simp: run_node_def Let_def split: prod.splits)
      from succeed_node_done [OF marked(1) this] show ?thesis using done_after_mark [OF sh] by blast
    next
      case (Some err)
      have "fail_node n ?d err s2 = (out, s')" using run e Inr Some by (auto simp: run_node_def Let_def split: prod.splits)
      from fail_node_done [OF marked(1) this] show ?thesis using done_after_mark [OF sh] by blast
    qed
  qed
qed

subsection \<open>Batches and the loop\<close>

definition dag_moved :: "dag_config \<Rightarrow> pydict \<Rightarrow> pydict \<Rightarrow> bool" where
  "dag_moved c dag dag' = (shaped c dag' \<and> (in_order c dag \<longrightarrow> in_order c dag') \<and> (\<forall>j. stat dag j \<noteq> VStr ''pending'' \<longrightarrow> stat dag' j = stat dag j))"

definition kept :: "dag_config \<Rightarrow> pydict \<Rightarrow> pydict \<Rightarrow> bool" where
  "kept c dag dag' = (\<forall>i \<in> dn_id ` set (dc_nodes c). stat dag' i = stat dag i \<or> (stat dag i = VStr ''pending'' \<and> stat dag' i = VStr ''succeeded''))"

definition some_node :: "dag_config \<Rightarrow> string \<Rightarrow> pydict \<Rightarrow> bool" where
  "some_node c v dag = (\<exists>n \<in> set (dc_nodes c). stat dag (dn_id n) = VStr v)"

definition idle :: "dag_config \<Rightarrow> pydict \<Rightarrow> bool" where
  "idle c dag = (\<not> finished c dag \<and> (\<forall>n \<in> set (dc_nodes c). \<not> ready n dag))"

definition active :: "pydict \<Rightarrow> bool" where
  "active dag = (\<not> dag_failed dag \<and> \<not> dag_succeeded dag)"

lemma dag_moved_refl: "shaped c dag \<Longrightarrow> dag_moved c dag dag" by (simp add: dag_moved_def)

lemma dag_moved_trans: "dag_moved c a b \<Longrightarrow> dag_moved c b d \<Longrightarrow> dag_moved c a d" by (simp add: dag_moved_def)

lemma kept_refl: "kept c dag dag" by (simp add: kept_def)

lemma kept_trans: "kept c a b \<Longrightarrow> kept c b d \<Longrightarrow> kept c a d" unfolding kept_def by (intro ballI) fastforce

lemma kept_pending: "kept c a b \<Longrightarrow> pending c b \<subseteq> pending c a"
  by (auto simp: kept_def pending_def)

lemma active_cong: "py_get d' ''status'' = py_get d ''status'' \<Longrightarrow> active d' = active d"
  by (simp add: active_def dag_failed_def dag_succeeded_def)

lemma node_done_moved:
  assumes known: "ids_known (dc_nodes c)" and n: "n \<in> set (dc_nodes c)" and ready: "ready n dag" and node: "node_done c (dn_id n) dag out dag'"
  shows "dag_moved c dag dag'"
proof -
  have other: "stat dag' j = stat dag j" if "j \<noteq> dn_id n" for j using node that by (simp add: node_done_def)
  have mine: "stat dag (dn_id n) = VStr ''pending''" using ready by (simp add: ready_def)
  have "in_order c dag'" if ord: "in_order c dag"
    unfolding in_order_def
  proof (intro ballI impI)
    fix m d
    assume m: "m \<in> set (dc_nodes c)" "stat dag' (dn_id m) \<noteq> VStr ''pending''" and d: "d \<in> set (dn_deps m)"
    have "stat dag d = VStr ''succeeded''"
    proof (cases "dn_id m = dn_id n")
      case True
      then have "m = n" using known m(1) n by (auto simp: ids_known_def distinct_map inj_on_def)
      then show ?thesis using ready d by (simp add: ready_def)
    next
      case False
      then show ?thesis using ord m d other [OF False] by (auto simp: in_order_def)
    qed
    then show "stat dag' d = VStr ''succeeded''" using other [of d] mine by (cases "d = dn_id n") auto
  qed
  then show ?thesis using node other mine unfolding dag_moved_def by (metis node_done_def)
qed

lemma node_done_kept:
  assumes "ready n dag" "node_done c (dn_id n) dag (Inr RUNNING_STATUS) dag'"
  shows "kept c dag dag' \<and> dn_id n \<notin> pending c dag' \<and> py_get dag' ''status'' = py_get dag ''status''"
proof -
  have "stat dag' i = stat dag i \<or> (stat dag i = VStr ''pending'' \<and> stat dag' i = VStr ''succeeded'')" for i
    using assms by (cases "i = dn_id n") (auto simp: node_done_def ready_def)
  then show ?thesis using assms by (auto simp: kept_def node_done_def pending_def)
qed

definition batch_result :: "dag_config \<Rightarrow> pydict \<Rightarrow> batch_end result \<Rightarrow> pydict \<Rightarrow> bool" where
  "batch_result c dag out dag' = (case out of
     Inl x \<Rightarrow> some_node c ''running'' dag' \<and> active dag'
   | Inr (Stop st) \<Rightarrow> (st = SUCCESS \<and> finished c dag' \<and> dag_succeeded dag') \<or> (st = FAILURE \<and> dag_failed dag' \<and> some_node c ''failed'' dag')
   | Inr (Go_on st) \<Rightarrow> st = RUNNING_STATUS \<and> kept c dag dag' \<and> py_get dag' ''status'' = py_get dag ''status'')"

lemma batch_result_trans:
  "kept c a b \<Longrightarrow> py_get b ''status'' = py_get a ''status'' \<Longrightarrow> batch_result c b out d \<Longrightarrow> batch_result c a out d"
  by (auto simp: batch_result_def split: sum.splits batch_end.splits intro: kept_trans)

lemma dag_batch_unready:
  assumes "st_get dag_key VNone s = VDict dag" "active dag" "shaped (dp_config p) dag" "ids_known (dc_nodes (dp_config p))"
    "n \<in> set (dc_nodes (dp_config p))" "\<not> ready n dag"
  shows "dag_batch env p (n # ns) prior w s = dag_batch env p ns prior w s"
proof -
  obtain nodes where nodes: "py_get dag ''nodes'' = VDict nodes" using assms(3) by (auto simp: shaped_def)
  show ?thesis using assms(1,2,6) ready_shaped [OF assms(3,4,5) nodes] by (simp add: nodes active_def)
qed

lemma dag_batch_ready:
  assumes "st_get dag_key VNone s = VDict dag" "active dag" "shaped (dp_config p) dag" "ids_known (dc_nodes (dp_config p))"
    "n \<in> set (dc_nodes (dp_config p))" "ready n dag"
  shows "dag_batch env p (n # ns) prior w s = (case run_node env p n dag w s of
       (Inl x, w1, s1) \<Rightarrow> (Inl x, w1, s1)
     | (Inr st, w1, s1) \<Rightarrow> (if st = FAILURE \<or> st = SUCCESS then (Inr (Stop st), w1, s1) else dag_batch env p ns st w1 s1))"
proof -
  obtain nodes where nodes: "py_get dag ''nodes'' = VDict nodes" using assms(3) by (auto simp: shaped_def)
  show ?thesis using assms(1,2,6) ready_shaped [OF assms(3,4,5) nodes] by (simp add: nodes active_def)
qed

lemma dag_batch_result:
  assumes known: "ids_known (dc_nodes (dp_config p))"
  shows "set ns \<subseteq> set (dc_nodes (dp_config p)) \<Longrightarrow> st_get dag_key VNone s = VDict dag \<Longrightarrow> active dag \<Longrightarrow> shaped (dp_config p) dag \<Longrightarrow>
    dag_batch env p ns RUNNING_STATUS w s = (out, w', s') \<Longrightarrow>
    \<exists>dag'. st_get dag_key VNone s' = VDict dag' \<and> dag_moved (dp_config p) dag dag' \<and> batch_result (dp_config p) dag out dag'"
proof (induction ns arbitrary: dag w s)
  case Nil
  then show ?case by (auto simp: batch_result_def kept_refl intro: dag_moved_refl)
next
  case (Cons n ns)
  let ?c = "dp_config p"
  have n: "n \<in> set (dc_nodes ?c)" and ns: "set ns \<subseteq> set (dc_nodes ?c)" using Cons.prems(1) by auto
  note start = Cons.prems(2,3,4) known n
  show ?case
  proof (cases "ready n dag")
    case False
    have "dag_batch env p ns RUNNING_STATUS w s = (out, w', s')"
      using Cons.prems(5) by (simp only: dag_batch_unready [OF start False])
    from Cons.IH [OF ns Cons.prems(2,3,4) this] show ?thesis .
  next
    case True
    obtain o1 w1 s1 where run: "run_node env p n dag w s = (o1, w1, s1)" by (cases "run_node env p n dag w s")
    obtain d1 where d1: "st_get dag_key VNone s1 = VDict d1" "node_done ?c (dn_id n) dag o1 d1" using run_node_done [OF Cons.prems(4) run] by blast
    have dag_moved: "dag_moved ?c dag d1" using node_done_moved [OF known n True d1(2)] .
    note batch = Cons.prems(5) [unfolded dag_batch_ready [OF start True] run prod.case]
    consider (stopped) "dag_batch env p ns RUNNING_STATUS w1 s1 = (out, w', s')" "o1 = Inr RUNNING_STATUS"
      | (left) "out = (case o1 of Inl x \<Rightarrow> Inl x | Inr st \<Rightarrow> Inr (Stop st))" "s' = s1" "o1 \<noteq> Inr RUNNING_STATUS"
    proof (cases o1)
      case (Inl x)
      then show ?thesis using batch that(2) by simp
    next
      case (Inr st)
      then show ?thesis using batch d1(2) that by (cases st) (auto simp: node_done_def)
    qed
    then show ?thesis
    proof cases
      case left
      have "batch_result ?c dag out d1"
      proof (cases o1)
        case (Inl x)
        then have "active d1" using d1(2) Cons.prems(3) by (simp add: node_done_def active_def dag_failed_def dag_succeeded_def)
        then show ?thesis using Inl left d1(2) n by (auto simp: batch_result_def node_done_def some_node_def)
      next
        case (Inr st)
        then show ?thesis using left d1(2) n by (cases st) (auto simp: batch_result_def node_done_def some_node_def)
      qed
      then show ?thesis using left d1(1) dag_moved by blast
    next
      case stopped
      note k = node_done_kept [OF True d1(2) [unfolded stopped(2)]]
      have act: "active d1" using active_cong [OF conjunct2 [OF conjunct2 [OF k]]] Cons.prems(3) by simp
      have sh: "shaped ?c d1" using dag_moved by (simp add: dag_moved_def)
      from Cons.IH [OF ns d1(1) act sh stopped(1)] obtain dag' where d': "st_get dag_key VNone s' = VDict dag'" "dag_moved ?c d1 dag'" "batch_result ?c d1 out dag'"
        by blast
      show ?thesis by (rule exI [of _ dag']) (intro conjI d'(1) dag_moved_trans [OF dag_moved d'(2)]
        batch_result_trans [OF conjunct1 [OF k] conjunct2 [OF conjunct2 [OF k]] d'(3)])
    qed
  qed
qed

text \<open>The first node of a batch is ready, so a batch that goes on leaves fewer nodes pending.\<close>

lemma dag_batch_progress:
  assumes known: "ids_known (dc_nodes (dp_config p))" and sub: "set (n # ns) \<subseteq> set (dc_nodes (dp_config p))"
    and start: "st_get dag_key VNone s = VDict dag" "active dag" "shaped (dp_config p) dag" and ready: "ready n dag"
    and run: "dag_batch env p (n # ns) RUNNING_STATUS w s = (Inr (Go_on st), w', s')" and dag': "st_get dag_key VNone s' = VDict dag'"
  shows "dn_id n \<in> pending (dp_config p) dag - pending (dp_config p) dag'"
proof -
  let ?c = "dp_config p"
  have n: "n \<in> set (dc_nodes ?c)" and ns: "set ns \<subseteq> set (dc_nodes ?c)" using sub by auto
  obtain o1 w1 s1 where one: "run_node env p n dag w s = (o1, w1, s1)" by (cases "run_node env p n dag w s")
  obtain d1 where d1: "st_get dag_key VNone s1 = VDict d1" "node_done ?c (dn_id n) dag o1 d1" using run_node_done [OF start(3) one] by blast
  have o1: "o1 = Inr RUNNING_STATUS \<and> dag_batch env p ns RUNNING_STATUS w1 s1 = (Inr (Go_on st), w', s')"
  proof (cases o1)
    case (Inl x)
    then show ?thesis using run [unfolded dag_batch_ready [OF start known n ready] one prod.case] by simp
  next
    case (Inr v)
    then show ?thesis using run [unfolded dag_batch_ready [OF start known n ready] one prod.case] d1(2) by (cases v) (auto simp: node_done_def)
  qed
  then have k: "kept ?c dag d1" "dn_id n \<notin> pending ?c d1" "py_get d1 ''status'' = py_get dag ''status''"
    using node_done_kept [OF ready] d1(2) by auto
  have act: "active d1" using active_cong [OF k(3)] start(2) by simp
  have sh: "shaped ?c d1" using node_done_moved [OF known n ready d1(2)] by (simp add: dag_moved_def)
  from dag_batch_result [OF known ns d1(1) act sh o1 [THEN conjunct2]] dag' have "kept ?c d1 dag'" by (simp add: batch_result_def)
  from kept_pending [OF this] have "dn_id n \<notin> pending ?c dag'" using k(2) by blast
  moreover have "dn_id n \<in> pending ?c dag" using n ready by (simp add: pending_def ready_def)
  ultimately show ?thesis by blast
qed

text \<open>How a tick ends, from a progress that is neither failed nor succeeded.\<close>

definition tick_result :: "dag_config \<Rightarrow> pydict \<Rightarrow> pattern_status result \<Rightarrow> pydict \<Rightarrow> bool" where
  "tick_result c dag out dag' = (case out of
     Inl x \<Rightarrow> some_node c ''running'' dag' \<and> active dag'
   | Inr SUCCESS \<Rightarrow> finished c dag' \<and> dag_succeeded dag'
   | Inr FAILURE \<Rightarrow> dag_failed dag' \<and> (some_node c ''failed'' dag' \<or> (kept c dag dag' \<and> idle c dag'))
   | Inr RUNNING_STATUS \<Rightarrow> \<not> dc_drain c \<and> kept c dag dag' \<and> pending c dag' \<subset> pending c dag \<and> active dag'
   | Inr WAITING \<Rightarrow> False)"

lemma tick_result_trans: "kept c a b \<Longrightarrow> pending c b \<subseteq> pending c a \<Longrightarrow> tick_result c b out d \<Longrightarrow> tick_result c a out d"
  by (auto simp: tick_result_def split: sum.splits pattern_status.splits intro: kept_trans)

lemma batch_result_ends:
  "batch_result c dag (Inl x) d \<Longrightarrow> tick_result c dag (Inl x) d"
  "batch_result c dag (Inr (Stop st)) d \<Longrightarrow> tick_result c dag (Inr st) d"
  by (auto simp: batch_result_def tick_result_def)

lemma finite_pending: "finite (pending c dag)" by (simp add: pending_def)

lemma settle_result:
  assumes sh: "shaped c dag" and none: "filter (\<lambda>n. ready n dag) (dc_nodes c) = []" and run: "dag_settle c dag s = (out, s')"
  shows "\<exists>dag'. st_get dag_key VNone s' = VDict dag' \<and> dag_moved c dag dag' \<and> tick_result c dag out dag'"
proof (cases "finished c dag")
  case True
  let ?d = "dict_set ''status'' (VStr ''succeeded'') dag"
  have "out = Inr SUCCESS" "st_get dag_key VNone s' = VDict ?d" using run True by (auto simp: dag_settle_def all_succeeded_shaped [OF sh])
  moreover have "dag_moved c dag ?d" using sh by (simp add: dag_moved_def shaped_set in_order_def stat_set)
  moreover have "finished c ?d" "dag_succeeded ?d" using True by (simp_all add: finished_def stat_set dag_succeeded_def)
  ultimately show ?thesis by (auto simp: tick_result_def)
next
  case False
  let ?d = "dict_set ''error'' (VStr stuck_text) (dict_set ''status'' (VStr ''failed'') dag)"
  have "out = Inr FAILURE" "st_get dag_key VNone s' = VDict ?d" using run False by (auto simp: dag_settle_def all_succeeded_shaped [OF sh])
  moreover have "dag_moved c dag ?d" using sh by (simp add: dag_moved_def shaped_set in_order_def stat_set)
  moreover have "kept c dag ?d" "idle c ?d" "dag_failed ?d"
    using False none by (simp_all add: kept_def idle_def finished_def ready_def stat_set dag_failed_def filter_empty_conv)
  ultimately show ?thesis by (auto simp: tick_result_def)
qed

lemma dag_loop_result:
  assumes known: "ids_known (dc_nodes (dp_config p))"
  shows "st_get dag_key VNone s = VDict dag \<Longrightarrow> active dag \<Longrightarrow> shaped (dp_config p) dag \<Longrightarrow>
    \<exists>out w' s' dag'. dag_loop env p RUNNING_STATUS w s = Some (out, w', s') \<and> st_get dag_key VNone s' = VDict dag'
      \<and> dag_moved (dp_config p) dag dag' \<and> tick_result (dp_config p) dag out dag'"
proof (induction "card (pending (dp_config p) dag)" arbitrary: dag w s rule: less_induct)
  case less
  let ?c = "dp_config p"
  let ?ready = "filter (\<lambda>n. ready n dag) (dc_nodes ?c)"
  note start = less.prems
  have loop: "dag_loop env p RUNNING_STATUS w s = (case ?ready of
      [] \<Rightarrow> Some (case dag_settle ?c dag s of (st, s1) \<Rightarrow> (st, w, s1))
    | n # ns \<Rightarrow> (case dag_batch env p (if dc_drain ?c then n # ns else [n]) RUNNING_STATUS w s of
        (Inl x, w1, s1) \<Rightarrow> Some (Inl x, w1, s1)
      | (Inr (Stop st), w1, s1) \<Rightarrow> Some (Inr st, w1, s1)
      | (Inr (Go_on st), w1, s1) \<Rightarrow> (if dc_drain ?c then dag_loop env p st w1 s1 else Some (Inr st, w1, s1))))"
    using start(2) by (subst dag_loop.simps) (simp add: start(1) active_def ready_nodes_shaped [OF start(3) known])
  show ?case
  proof (cases ?ready)
    case Nil
    obtain out s' where settle: "dag_settle ?c dag s = (out, s')" by (cases "dag_settle ?c dag s")
    from settle_result [OF start(3) Nil settle] show ?thesis by (simp add: loop Nil settle)
  next
    case (Cons n ns)
    let ?batch = "if dc_drain ?c then n # ns else [n]"
    have sub: "set (n # ns) \<subseteq> set (dc_nodes ?c)" and ready: "ready n dag" using arg_cong [OF Cons, of set] by auto
    obtain o1 w1 s1 where batch: "dag_batch env p ?batch RUNNING_STATUS w s = (o1, w1, s1)" by (cases "dag_batch env p ?batch RUNNING_STATUS w s")
    have sub': "set ?batch \<subseteq> set (dc_nodes ?c)" using sub by simp
    obtain d1 where d1: "st_get dag_key VNone s1 = VDict d1" "dag_moved ?c dag d1" "batch_result ?c dag o1 d1"
      using dag_batch_result [OF known sub' start batch] by blast
    show ?thesis
    proof (cases o1)
      case (Inl x)
      then show ?thesis using d1 by (simp add: loop Cons batch batch_result_ends)
    next
      case (Inr e)
      show ?thesis
      proof (cases e)
        case (Stop st)
        then show ?thesis using Inr d1 by (simp add: loop Cons batch batch_result_ends)
      next
        case (Go_on st)
        have st: "st = RUNNING_STATUS" and kept: "kept ?c dag d1" and top: "py_get d1 ''status'' = py_get dag ''status''"
          using d1(3) Inr Go_on by (simp_all add: batch_result_def)
        obtain ns' where ns': "?batch = n # ns'" by (cases "dc_drain ?c") auto
        have "dn_id n \<in> pending ?c dag - pending ?c d1"
          using dag_batch_progress [OF known _ start ready _ d1(1)] sub' batch Inr Go_on ns' by metis
        then have less': "pending ?c d1 \<subset> pending ?c dag" using kept_pending [OF kept] by blast
        have act: "active d1" using active_cong [OF top] start(2) by simp
        have sh: "shaped ?c d1" using d1(2) by (simp add: dag_moved_def)
        show ?thesis
        proof (cases "dc_drain ?c")
          case True
          from less.hyps [OF psubset_card_mono [OF finite_pending less'] d1(1) act sh]
          obtain out w' s' dag' where rest: "dag_loop env p RUNNING_STATUS w1 s1 = Some (out, w', s')" "st_get dag_key VNone s' = VDict dag'"
            "dag_moved ?c d1 dag'" "tick_result ?c d1 out dag'" by blast
          have "dag_loop env p RUNNING_STATUS w s = Some (out, w', s')" using True rest(1) batch by (simp add: loop Cons Inr Go_on st)
          then show ?thesis using rest(2) dag_moved_trans [OF d1(2) rest(3)] tick_result_trans [OF kept _ rest(4)] less' by blast
        next
          case False
          have "dag_loop env p RUNNING_STATUS w s = Some (Inr RUNNING_STATUS, w1, s1)" using False batch by (simp add: loop Cons Inr Go_on st)
          then show ?thesis using d1 False kept less' act by (simp add: tick_result_def)
        qed
      qed
    qed
  qed
qed

subsection \<open>Ticks\<close>

lemma seed_kept: "st_has dag_key s \<or> \<not> dict_has (dc_initial (dp_config p)) dag_key \<Longrightarrow>
  st_get dag_key VNone (snd (dag_seed p s)) = st_get dag_key VNone s \<and> dp_config (fst (dag_seed p s)) = dp_config p"
proof -
  have "st_get dag_key VNone (fold (\<lambda>(k, v) s. if st_has k s then s else st_set k v s) kvs s) = st_get dag_key VNone s"
    if "st_has dag_key s \<or> dag_key \<notin> fst ` set kvs" for kvs s
    using that
  proof (induction kvs arbitrary: s)
    case (Cons kv kvs)
    obtain k v where kv: "kv = (k, v)" by (cases kv)
    show ?case
    proof (cases "st_has k s")
      case True
      have "st_has dag_key s \<or> dag_key \<notin> fst ` set kvs" using Cons.prems kv by auto
      from Cons.IH [OF this] True show ?thesis by (simp add: kv)
    next
      case False
      have "st_has dag_key (st_set k v s) \<or> dag_key \<notin> fst ` set kvs" using Cons.prems kv by (auto simp: st_has_def st_set_def st_notify_def)
      from Cons.IH [OF this] show ?thesis using False Cons.prems kv by auto
    qed
  qed simp
  then show "st_has dag_key s \<or> \<not> dict_has (dc_initial (dp_config p)) dag_key \<Longrightarrow> ?thesis"
    by (simp add: dag_seed_def dict_has_iff)
qed

lemma tick_from:
  assumes known: "ids_known (dc_nodes (dp_config p))" and seed: "dag_seed p s = (p1, s1)" "dp_config p1 = dp_config p"
    and ens: "ensure_dag (dp_config p) s1 = (dag, s2)" "st_get dag_key VNone s2 = VDict dag" and dag: "active dag" "shaped (dp_config p) dag"
  shows "\<exists>out w' s' dag'. dag_tick env p w s = Some (out, p1, w', s') \<and> st_get dag_key VNone s' = VDict dag'
    \<and> dag_moved (dp_config p) dag dag' \<and> tick_result (dp_config p) dag out dag'"
proof -
  have "dag_tick env p w s = map_option (\<lambda>(st, w3, s3). (st, p1, w3, s3)) (dag_loop env p1 RUNNING_STATUS w s2)"
    using dag(1) by (simp add: dag_tick_def seed ens active_def)
  then show ?thesis using dag_loop_result [of p1, unfolded seed(2), OF known ens(2) dag] by fastforce
qed

lemma tick_started:
  assumes known: "ids_known (dc_nodes (dp_config p))" and dag: "st_get dag_key VNone s = VDict dag" "active dag" "shaped (dp_config p) dag"
  shows "\<exists>out p' w' s' dag'. dag_tick env p w s = Some (out, p', w', s') \<and> dp_config p' = dp_config p \<and> st_get dag_key VNone s' = VDict dag'
    \<and> dag_moved (dp_config p) dag dag' \<and> tick_result (dp_config p) dag out dag'"
proof -
  obtain p1 s1 where seed: "dag_seed p s = (p1, s1)" by (cases "dag_seed p s")
  have "st_has dag_key s" using dag(1) by (auto simp: st_get_def st_has_def get_default_def dict_has_def split: option.splits)
  then have k: "st_get dag_key VNone s1 = VDict dag" "dp_config p1 = dp_config p" using seed_kept [of s p] seed dag(1) by simp_all
  have "truthy (py_get dag ''nodes'')" using dag(3) by (auto simp: shaped_def neq_Nil_conv)
  then have "ensure_dag (dp_config p) s1 = (dag, s1)" using k by (simp add: ensure_dag_def)
  from tick_from [OF known seed k(2) this k(1) dag(2,3)] k(2) show ?thesis by blast
qed

lemma fresh_nodes:
  "i \<in> dn_id ` set ns \<Longrightarrow> \<exists>v. dict_get (fold (\<lambda>n. dict_set (dn_id n) (VDict [(''status'', VStr ''pending''), (''output_key'', VStr (output_of n))])) ns d) i
     = Some (VDict [(''status'', VStr ''pending''), (''output_key'', v)])"
  by (induction ns rule: rev_induct) auto

lemma fresh_dag_ok:
  assumes "dc_nodes c \<noteq> []"
  shows "shaped c (fresh_dag c)" "active (fresh_dag c)" "in_order c (fresh_dag c)" "i \<in> dn_id ` set (dc_nodes c) \<Longrightarrow> stat (fresh_dag c) i = VStr ''pending''"
proof -
  let ?nodes = "fold (\<lambda>n. dict_set (dn_id n) (VDict [(''status'', VStr ''pending''), (''output_key'', VStr (output_of n))])) (dc_nodes c) []"
  have nodes: "py_get (fresh_dag c) ''nodes'' = VDict ?nodes" by (simp add: fresh_dag_def get_default_def)
  have at: "\<exists>v. py_get ?nodes i = VDict [(''status'', VStr ''pending''), (''output_key'', v)]" if "i \<in> dn_id ` set (dc_nodes c)" for i
    using fresh_nodes [OF that, of "[]"] by (auto simp: get_default_def)
  have st: "stat (fresh_dag c) i = VStr ''pending''" if i: "i \<in> dn_id ` set (dc_nodes c)" for i
  proof -
    obtain v where v: "py_get ?nodes i = VDict [(''status'', VStr ''pending''), (''output_key'', v)]" using at [OF i] by blast
    show ?thesis unfolding stat_def entry_def nodes dict_of_def pyval.case v by (simp add: get_default_def)
  qed
  show "i \<in> dn_id ` set (dc_nodes c) \<Longrightarrow> stat (fresh_dag c) i = VStr ''pending''" by (rule st)
  have "dn_id (hd (dc_nodes c)) \<in> dn_id ` set (dc_nodes c)" using assms by simp
  from at [OF this] have "?nodes \<noteq> []" by auto
  then show "shaped c (fresh_dag c)" using at nodes by (auto simp: shaped_def)
  show "in_order c (fresh_dag c)" using st by (simp add: in_order_def)
  show "active (fresh_dag c)" by (simp add: active_def dag_failed_def dag_succeeded_def fresh_dag_def get_default_def)
qed

lemma tick_fresh:
  assumes known: "ids_known (dc_nodes (dp_config p))" "dc_nodes (dp_config p) \<noteq> []"
    and fresh: "\<not> st_has dag_key s" "\<not> dict_has (dc_initial (dp_config p)) dag_key"
  shows "\<exists>out p' w' s' dag'. dag_tick env p w s = Some (out, p', w', s') \<and> dp_config p' = dp_config p \<and> st_get dag_key VNone s' = VDict dag'
    \<and> dag_moved (dp_config p) (fresh_dag (dp_config p)) dag' \<and> tick_result (dp_config p) (fresh_dag (dp_config p)) out dag'"
proof -
  let ?f = "fresh_dag (dp_config p)"
  obtain p1 s1 where seed: "dag_seed p s = (p1, s1)" by (cases "dag_seed p s")
  have "st_get dag_key VNone s = VNone" using fresh(1) by (simp add: st_get_def st_has_def get_default_def dict_has_def)
  then have k: "st_get dag_key VNone s1 = VNone" "dp_config p1 = dp_config p" using seed_kept [of s p] seed fresh(2) by simp_all
  have "ensure_dag (dp_config p) s1 = (?f, st_set dag_key (VDict ?f) s1)" using k by (simp add: ensure_dag_def)
  from tick_from [OF known(1) seed k(2) this _ fresh_dag_ok(2,1) [OF known(2)], of env w] k(2)
  obtain out w' s' dag' where "dag_tick env p w s = Some (out, p1, w', s')" "st_get dag_key VNone s' = VDict dag'"
    "dag_moved (dp_config p) ?f dag'" "tick_result (dp_config p) ?f out dag'" by auto
  then show ?thesis using k(2) by blast
qed

subsection \<open>Settling\<close>

definition clean_progress :: "dag_config \<Rightarrow> pydict \<Rightarrow> bool" where
  "clean_progress c dag = (\<forall>i \<in> dn_id ` set (dc_nodes c). stat dag i \<in> {VStr ''pending'', VStr ''succeeded''})"

lemma kept_clean: "clean_progress c a \<Longrightarrow> kept c a b \<Longrightarrow> clean_progress c b"
  unfolding clean_progress_def kept_def by (intro ballI) fastforce

text \<open>The order of the nodes is why a progress without failures always has a next node.\<close>

lemma never_idle:
  assumes first: "deps_first (dc_nodes c)" and clean: "clean_progress c dag"
  shows "\<not> idle c dag"
proof
  assume idle: "idle c dag"
  let ?ns = "dc_nodes c"
  define bad where "bad k = (k < length ?ns \<and> stat dag (dn_id (?ns ! k)) \<noteq> VStr ''succeeded'')" for k
  have "\<exists>k. bad k" using idle by (auto simp: idle_def finished_def bad_def in_set_conv_nth)
  then obtain k where k: "bad k" "\<And>j. j < k \<Longrightarrow> \<not> bad j" by (metis exists_least_iff)
  have "stat dag (dn_id (?ns ! k)) = VStr ''pending''" using clean k(1) by (auto simp: clean_progress_def bad_def)
  moreover have "stat dag d = VStr ''succeeded''" if d: "d \<in> set (dn_deps (?ns ! k))" for d
  proof -
    have "d \<in> dn_id ` set (take k ?ns)" using first d k(1) unfolding deps_first_def bad_def by blast
    then obtain m where m: "m \<in> set (take k ?ns)" "d = dn_id m" by blast
    then obtain j where j: "j < length (take k ?ns)" "m = take k ?ns ! j" by (metis in_set_conv_nth)
    then show ?thesis using k(2) [of j] m(2) by (auto simp: bad_def)
  qed
  ultimately have "ready (?ns ! k) dag" by (simp add: ready_def)
  then show False using idle k(1) by (auto simp: idle_def bad_def)
qed

lemma config_sorted:
  assumes "config_from_options r options = Inr c"
  shows "\<exists>ns. topological_sort ns = Inr (dc_nodes c) \<and> ns \<noteq> []"
proof -
  obtain x xs where raw: "py_or (py_get options ''nodes'') (py_get options ''steps'') = VList (x # xs)"
    using assms by (auto simp: config_from_options_def Let_def split: pyval.splits list.splits)
  note run = assms [unfolded config_from_options_def Let_def raw, simplified]
  obtain nodes where nodes: "map_result (node_from_mapping r) (dict_items (x # xs)) = Inr nodes" "nodes \<noteq> []"
    using run by (cases "map_result (node_from_mapping r) (dict_items (x # xs))") (auto split: if_splits)
  let ?chained = "if truthy (get_default options ''chain_implicit'' (VBool True)) then apply_implicit_chain nodes else Inr nodes"
  obtain ns where ns: "?chained = Inr ns" using run nodes by (cases ?chained) auto
  have len: "length ms = length ks" if "chain_nodes prev ks = Inr ms" for prev ks ms
    using that by (induction prev ks arbitrary: ms rule: chain_nodes.induct) (auto simp: attempt_def split: sum.splits)
  have "ns \<noteq> []" using ns nodes(2) len [of None nodes ns] by (auto simp: apply_implicit_chain_def split: if_splits)
  moreover obtain out where out: "topological_sort ns = Inr out" using run nodes ns by (cases "topological_sort ns") auto
  moreover have "dc_nodes c = out" using run nodes ns out by (auto simp: attempt_def split: sum.splits)
  ultimately show ?thesis by blast
qed

lemma config_ok:
  assumes "config_from_options r options = Inr c"
  shows "ids_known (dc_nodes c)" "deps_first (dc_nodes c)" "dc_nodes c \<noteq> []"
proof -
  obtain ns where ns: "topological_sort ns = Inr (dc_nodes c)" "ns \<noteq> []" using config_sorted [OF assms] by blast
  note sorted = sorted_out [OF ns(1)]
  have "ids_known ns" using ns(1) by (simp add: topological_sort_Inr)
  then show "ids_known (dc_nodes c)" using sorted by (simp add: ids_known_def)
  show "deps_first (dc_nodes c)" by (rule sorted(3))
  show "dc_nodes c \<noteq> []" using sorted(1) ns(2) by auto
qed

fun dag_ticks :: "nat \<Rightarrow> 'r dag_env \<Rightarrow> dag_pattern \<Rightarrow> ('r, 'w) dag_world \<Rightarrow> dict_state
    \<Rightarrow> (pattern_status result \<times> dag_pattern \<times> ('r, 'w) dag_world \<times> dict_state) option" where
  "dag_ticks 0 env p w s = None"
| "dag_ticks (Suc k) env p w s = (case dag_tick env p w s of
     Some (Inr RUNNING_STATUS, p1, w1, s1) \<Rightarrow> dag_ticks k env p1 w1 s1
   | other \<Rightarrow> other)"

definition settled :: "dag_config \<Rightarrow> pattern_status result \<Rightarrow> pydict \<Rightarrow> bool" where
  "settled c out dag = (case out of
     Inl x \<Rightarrow> some_node c ''running'' dag
   | Inr st \<Rightarrow> (st = SUCCESS \<and> finished c dag) \<or> (st = FAILURE \<and> some_node c ''failed'' dag))"

lemma tick_settles_or_goes_on:
  assumes first: "deps_first (dc_nodes c)" and clean: "clean_progress c dag" and res: "tick_result c dag out dag'"
  shows "settled c out dag' \<or> (out = Inr RUNNING_STATUS \<and> clean_progress c dag' \<and> active dag' \<and> pending c dag' \<subset> pending c dag)"
proof (cases out)
  case (Inl x)
  then show ?thesis using res by (simp add: tick_result_def settled_def)
next
  case (Inr st)
  then show ?thesis using res never_idle [OF first kept_clean [OF clean]] kept_clean [OF clean]
    by (cases st) (auto simp: tick_result_def settled_def)
qed

lemma ticks_started:
  assumes known: "ids_known (dc_nodes c)" and first: "deps_first (dc_nodes c)"
  shows "dp_config p = c \<Longrightarrow> st_get dag_key VNone s = VDict dag \<Longrightarrow> active dag \<Longrightarrow> shaped c dag \<Longrightarrow> in_order c dag \<Longrightarrow>
    clean_progress c dag \<Longrightarrow> card (pending c dag) < k \<Longrightarrow>
    \<exists>out p' w' s' dag'. dag_ticks k env p w s = Some (out, p', w', s') \<and> st_get dag_key VNone s' = VDict dag' \<and> in_order c dag' \<and> settled c out dag'"
proof (induction k arbitrary: p w s dag)
  case (Suc k)
  obtain out p1 w1 s1 d1 where t: "dag_tick env p w s = Some (out, p1, w1, s1)" "dp_config p1 = c" "st_get dag_key VNone s1 = VDict d1"
    "dag_moved c dag d1" "tick_result c dag out d1"
    using tick_started [of p s dag env w] known Suc.prems by auto
  have ord: "in_order c d1" "shaped c d1" using t(4) Suc.prems(5) by (simp_all add: dag_moved_def)
  consider "settled c out d1" | (on) "out = Inr RUNNING_STATUS" "clean_progress c d1" "active d1" "pending c d1 \<subset> pending c dag"
    using tick_settles_or_goes_on [OF first Suc.prems(6) t(5)] by blast
  then show ?case
  proof cases
    case 1
    then have "dag_ticks (Suc k) env p w s = Some (out, p1, w1, s1)"
      by (auto simp: t(1) settled_def split: sum.splits pattern_status.splits)
    then show ?thesis using 1 t(3) ord(1) by blast
  next
    case on
    have "card (pending c d1) < k" using psubset_card_mono [OF finite_pending on(4)] Suc.prems(7) by simp
    from Suc.IH [OF t(2,3) on(3) ord(2,1) on(2) this] show ?thesis by (simp add: t(1) on(1))
  qed
qed simp

text \<open>
  C31. A DAG that was parsed from options and starts on a fresh state settles: within one tick more than it has
  nodes it ends with every node succeeded, or a node failed, or an exception of the invoker that left its node
  running; it is never stuck, and no node has left \<open>pending\<close> before everything it depends on had succeeded.
\<close>

theorem dag_settles_in_order:
  assumes "config_from_options r options = Inr c" "dp_config p = c" "\<not> st_has dag_key s" "\<not> dict_has (dc_initial c) dag_key"
  shows "\<exists>out p' w' s' dag. dag_ticks (Suc (length (dc_nodes c))) env p w s = Some (out, p', w', s') \<and> st_get dag_key VNone s' = VDict dag
    \<and> in_order c dag \<and> settled c out dag"
proof -
  note cfg = config_ok [OF assms(1)]
  let ?f = "fresh_dag c"
  note fresh = fresh_dag_ok [OF cfg(3)]
  have clean: "clean_progress c ?f" using fresh(4) by (simp add: clean_progress_def)
  have few: "card (pending c ?f) \<le> length (dc_nodes c)"
  proof -
    have "card (pending c ?f) \<le> card (dn_id ` set (dc_nodes c))" by (rule card_mono) (auto simp: pending_def)
    also have "\<dots> \<le> card (set (dc_nodes c))" by (rule card_image_le) simp
    finally show ?thesis using card_length [of "dc_nodes c"] by simp
  qed
  obtain out p1 w1 s1 d1 where t: "dag_tick env p w s = Some (out, p1, w1, s1)" "dp_config p1 = c" "st_get dag_key VNone s1 = VDict d1"
    "dag_moved c ?f d1" "tick_result c ?f out d1"
    using tick_fresh [of p s env w] cfg assms by auto
  have ord: "in_order c d1" "shaped c d1" using t(4) fresh(3) by (simp_all add: dag_moved_def)
  consider "settled c out d1" | (on) "out = Inr RUNNING_STATUS" "clean_progress c d1" "active d1" "pending c d1 \<subset> pending c ?f"
    using tick_settles_or_goes_on [OF cfg(2) clean t(5)] by blast
  then show ?thesis
  proof cases
    case 1
    then have "dag_ticks (Suc (length (dc_nodes c))) env p w s = Some (out, p1, w1, s1)"
      by (auto simp: t(1) settled_def split: sum.splits pattern_status.splits)
    then show ?thesis using 1 t(3) ord(1) by blast
  next
    case on
    have "card (pending c d1) < length (dc_nodes c)" using psubset_card_mono [OF finite_pending on(4)] few by simp
    from ticks_started [OF cfg(1,2) t(2,3) on(3) ord(2,1) on(2) this, of env w1] show ?thesis by (simp add: t(1) on(1))
  qed
qed

text \<open>
  When the invoker of a node raises, the node stays \<open>running\<close> for good: whatever the engines do later, the next
  tick does not succeed and the node is not run again.
\<close>

theorem interrupted_node_is_final:
  assumes "config_from_options r options = Inr c" "dp_config p = c" "\<not> st_has dag_key s" "\<not> dict_has (dc_initial c) dag_key"
    and raised: "dag_tick env p w s = Some (Inl x, p1, w1, s1)"
  shows "\<exists>out p2 w2 s2 dag. dag_tick env' p1 w' s1 = Some (out, p2, w2, s2) \<and> out \<noteq> Inr SUCCESS
    \<and> st_get dag_key VNone s2 = VDict dag \<and> some_node c ''running'' dag"
proof -
  note cfg = config_ok [OF assms(1)]
  obtain d1 where d1: "dp_config p1 = c" "st_get dag_key VNone s1 = VDict d1" "dag_moved c (fresh_dag c) d1" "some_node c ''running'' d1" "active d1"
    using tick_fresh [of p s env w] cfg assms by (auto simp: tick_result_def)
  obtain n where n: "n \<in> set (dc_nodes c)" "stat d1 (dn_id n) = VStr ''running''" using d1(4) by (auto simp: some_node_def)
  have sh: "shaped c d1" using d1(3) by (simp add: dag_moved_def)
  obtain out p2 w2 s2 d2 where t: "dag_tick env' p1 w' s1 = Some (out, p2, w2, s2)" "st_get dag_key VNone s2 = VDict d2"
    "dag_moved c d1 d2" "tick_result c d1 out d2"
    using tick_started [of p1 s1 d1 env' w'] cfg d1 sh by auto
  have run: "stat d2 (dn_id n) = VStr ''running''" using t(3) n(2) by (simp add: dag_moved_def)
  have "out \<noteq> Inr SUCCESS"
  proof
    assume "out = Inr SUCCESS"
    then have "finished c d2" using t(4) by (simp add: tick_result_def)
    then show False using n(1) run by (auto simp: finished_def)
  qed
  moreover have "some_node c ''running'' d2" using n(1) run by (auto simp: some_node_def)
  ultimately show ?thesis using t(1,2) by blast
qed

subsection \<open>Witnesses\<close>

definition two_nodes :: pydict where
  "two_nodes = [(''nodes'', VList
     [VDict [(''id'', VStr ''b''), (''provider'', VStr ''demo''), (''depends_on'', VList [VStr ''a''])],
      VDict [(''id'', VStr ''a''), (''provider'', VStr ''demo'')]])]"

definition demo_dag :: dag_config where
  "demo_dag = projr (config_from_options (\<lambda>_. []) two_nodes)"

definition demo_dag_pattern :: dag_pattern where
  "demo_dag_pattern = \<lparr>dp_name = ''d'', dp_config = demo_dag, dp_resources = True, dp_workloads = False, dp_seeded = False\<rparr>"

definition bare_state :: dict_state where
  "bare_state = \<lparr>st_data = [], st_schema = None, st_stack = [], st_scope_schemas = [], st_observed = False, st_notes = []\<rparr>"

text \<open>Engines without any provider; the publisher of the first one raises.\<close>

definition raising_world :: "(unit, unit) dag_world" where
  "raising_world = \<lparr>dw_resources = (new_resource_engine ())\<lparr>re_initialized := True,
     re_publisher := Some (\<lambda>_ _ w. (Inl (value_error ''bus''), w))\<rparr>, dw_workloads = new_wl_engine ()\<rparr>"

definition bare_env :: "unit dag_env" where
  "bare_env = \<lparr>de_res = \<lparr>en_repr = \<lambda>_. [], en_dumps = \<lambda>_. [], en_clock = \<lambda>_. 0\<rparr>, de_int = \<lambda>_. None, de_float = \<lambda>_. None,
     de_probe = None, de_exe = [], de_gen = \<lambda>i. i\<rparr>"

lemma demo_dag_parsed: "config_from_options (\<lambda>_. []) two_nodes = Inr demo_dag"
proof -
  have "\<not> isl (config_from_options (\<lambda>_. []) two_nodes)" by code_simp
  then show ?thesis by (simp add: demo_dag_def)
qed

lemma demo_dag_order: "map dn_id (dc_nodes demo_dag) = [''a'', ''b'']" "dc_initial demo_dag = []"
  by code_simp+

lemma dag_settles_in_order_witness:
  "\<exists>out p' w' s' dag. dag_ticks 3 bare_env demo_dag_pattern raising_world bare_state = Some (out, p', w', s') \<and> st_get dag_key VNone s' = VDict dag
    \<and> in_order demo_dag dag \<and> settled demo_dag out dag"
proof -
  have "length (dc_nodes demo_dag) = 2" using arg_cong [OF demo_dag_order(1), of length] by simp
  then show ?thesis
    using dag_settles_in_order [OF demo_dag_parsed, of demo_dag_pattern bare_state bare_env raising_world]
    by (simp add: demo_dag_pattern_def bare_state_def st_has_def demo_dag_order eval_nat_numeral)
qed

declare dag_loop.simps [code]

lemma demo_dag_raises: "case dag_tick bare_env demo_dag_pattern raising_world bare_state of Some (Inl x, _) \<Rightarrow> True | _ \<Rightarrow> False"
  by code_simp

lemma interrupted_node_is_final_witness:
  "\<exists>x p1 w1 s1. dag_tick bare_env demo_dag_pattern raising_world bare_state = Some (Inl x, p1, w1, s1)
     \<and> (\<exists>out p2 w2 s2 dag. dag_tick bare_env p1 (w1\<lparr>dw_resources := new_resource_engine ()\<rparr>) s1 = Some (out, p2, w2, s2)
        \<and> out \<noteq> Inr SUCCESS \<and> st_get dag_key VNone s2 = VDict dag \<and> some_node demo_dag ''running'' dag)"
proof -
  obtain x p1 w1 s1 where raised: "dag_tick bare_env demo_dag_pattern raising_world bare_state = Some (Inl x, p1, w1, s1)"
    using demo_dag_raises by (auto split: option.splits sum.splits prod.splits)
  show ?thesis
    using interrupted_node_is_final [OF demo_dag_parsed _ _ _ raised] raised
    by (simp add: demo_dag_pattern_def bare_state_def st_has_def demo_dag_order)
qed

end
