(* ===== verification/Journal.thy ===== *)
theory Journal
  imports Events PyConvert
begin

text \<open>
  The durable event log (\<open>palm/common/events/journal.py\<close>) and its interceptor (\<open>journal_wire.py\<close>). The journal
  keeps numbered entries, one committed offset per consumer and the last offset of a compaction key in the
  contents of an open storage backend. Ids and times that the code draws are arguments.
\<close>

subsection \<open>Entries\<close>

record journal_entry =
  je_offset :: int
  je_type :: string
  je_payload :: pydict
  je_context :: "pydict option"
  je_timestamp :: string
  je_id :: string

definition opt_dict_val :: "pydict option \<Rightarrow> pyval" where
  "opt_dict_val d = (case d of None \<Rightarrow> VNone | Some m \<Rightarrow> VDict m)"

definition je_to_dict :: "journal_entry \<Rightarrow> pydict" where
  "je_to_dict e = [(''offset'', VInt (je_offset e)), (''event_type'', VStr (je_type e)), (''payload'', VDict (je_payload e)),
     (''context'', opt_dict_val (je_context e)), (''timestamp'', VStr (je_timestamp e)), (''id'', VStr (je_id e))]"

definition some_dict :: "pyval \<Rightarrow> pydict option result" where
  "some_dict v = (if truthy v then map_sum id Some (py_dict v) else Inr None)"

definition je_from_dict :: "(pyval \<Rightarrow> string) \<Rightarrow> pydict \<Rightarrow> journal_entry result" where
  "je_from_dict r d =
     attempt (py_int (py_or (py_get d ''offset'') (VInt 0))) (\<lambda>off.
     attempt (py_dict (py_or (py_get d ''payload'') (VDict []))) (\<lambda>payload.
     attempt (some_dict (py_get d ''context'')) (\<lambda>ctx.
       Inr \<lparr>je_offset = off, je_type = py_str r (py_or (py_get d ''event_type'') (VStr [])), je_payload = payload, je_context = ctx,
         je_timestamp = py_str r (py_or (py_get d ''timestamp'') (VStr [])), je_id = py_str r (py_or (py_get d ''id'') (VStr []))\<rparr>)))"

subsection \<open>Writing\<close>

definition JOURNAL_SEQ :: string where "JOURNAL_SEQ = ''palm:journal:seq''"
definition JOURNAL_ENTRY_PREFIX :: string where "JOURNAL_ENTRY_PREFIX = ''palm:journal:entry:''"
definition JOURNAL_OFFSET_PREFIX :: string where "JOURNAL_OFFSET_PREFIX = ''palm:journal:offset:''"
definition JOURNAL_COMPACT_PREFIX :: string where "JOURNAL_COMPACT_PREFIX = ''palm:journal:compact:''"

text \<open>What one call of \<open>append\<close> is given, with the id and the time it would draw.\<close>

record journal_input =
  ji_type :: string
  ji_payload :: "pydict option"
  ji_context :: "pydict option"
  ji_event_id :: "string option"
  ji_key :: "string option"
  ji_now :: string
  ji_fresh :: string

definition new_entry :: "journal_input \<Rightarrow> int \<Rightarrow> journal_entry" where
  "new_entry a seq = \<lparr>je_offset = seq, je_type = ji_type a, je_payload = (case ji_payload a of Some d \<Rightarrow> d | None \<Rightarrow> []),
     je_context = (if ji_context a = Some [] then None else ji_context a), je_timestamp = ji_now a,
     je_id = (case ji_event_id a of Some (c # cs) \<Rightarrow> c # cs | _ \<Rightarrow> ji_fresh a)\<rparr>"

definition latest_offset :: "pydict \<Rightarrow> int result" where
  "latest_offset s = py_int (py_or (py_get s JOURNAL_SEQ) (VInt 0))"

text \<open>\<open>append\<close> reads the sequence number and then writes; no lock is held in between.\<close>

definition append_writes :: "journal_input \<Rightarrow> int \<Rightarrow> pydict \<Rightarrow> pydict" where
  "append_writes a seq s =
     (let s1 = dict_set (JOURNAL_ENTRY_PREFIX @ show_int seq) (VDict (je_to_dict (new_entry a seq))) (dict_set JOURNAL_SEQ (VInt seq) s) in
      case ji_key a of Some (c # cs) \<Rightarrow> dict_set (JOURNAL_COMPACT_PREFIX @ c # cs) (VInt seq) s1 | _ \<Rightarrow> s1)"

definition jn_append :: "journal_input \<Rightarrow> pydict \<Rightarrow> int result \<times> pydict" where
  "jn_append a s = (case latest_offset s of
     Inl x \<Rightarrow> (Inl x, s)
   | Inr n \<Rightarrow> (Inr (n + 1), append_writes a (n + 1) s))"

definition jn_append_event :: "event \<Rightarrow> string option \<Rightarrow> string \<Rightarrow> string \<Rightarrow> pydict \<Rightarrow> int result \<times> pydict" where
  "jn_append_event ev key now fresh = jn_append \<lparr>ji_type = ev_type ev, ji_payload = Some (ev_payload ev),
     ji_context = map_option context_to_dict (ev_context ev), ji_event_id = Some (ev_id ev), ji_key = key, ji_now = now, ji_fresh = fresh\<rparr>"

subsection \<open>Reading\<close>

definition jn_get :: "(pyval \<Rightarrow> string) \<Rightarrow> int \<Rightarrow> pydict \<Rightarrow> journal_entry option result" where
  "jn_get r off s = (case py_get s (JOURNAL_ENTRY_PREFIX @ show_int off) of
     VDict d \<Rightarrow> map_sum id Some (je_from_dict r d)
   | _ \<Rightarrow> Inr None)"

definition wanted :: "string list option \<Rightarrow> journal_entry \<Rightarrow> bool" where
  "wanted types e = (case types of None \<Rightarrow> True | Some ts \<Rightarrow> je_type e \<in> set ts)"

text \<open>The loop that \<open>read_after\<close> and \<open>redrive\<close> share: up to the end, and up to the limit.\<close>

function jn_scan :: "(pyval \<Rightarrow> string) \<Rightarrow> string list option \<Rightarrow> int \<Rightarrow> int \<Rightarrow> int \<Rightarrow> journal_entry list \<Rightarrow> pydict \<Rightarrow> journal_entry list result" where
  "jn_scan r types end limit pos out s =
     (if pos < end \<and> int (length out) < limit
      then (case jn_get r (pos + 1) s of
          Inl x \<Rightarrow> Inl x
        | Inr None \<Rightarrow> jn_scan r types end limit (pos + 1) out s
        | Inr (Some e) \<Rightarrow> jn_scan r types end limit (pos + 1) (if wanted types e then out @ [e] else out) s)
      else Inr out)"
  by pat_completeness auto

termination jn_scan
  by (relation "measure (\<lambda>(r, types, end, limit, pos, out, s). nat (end - pos))") auto

definition read_after :: "(pyval \<Rightarrow> string) \<Rightarrow> int \<Rightarrow> int \<Rightarrow> string list option \<Rightarrow> pydict \<Rightarrow> journal_entry list result" where
  "read_after r off limit types s = attempt (latest_offset s) (\<lambda>n. jn_scan r types n limit off [] s)"

definition redrive :: "(pyval \<Rightarrow> string) \<Rightarrow> int \<Rightarrow> int option \<Rightarrow> string list option \<Rightarrow> int \<Rightarrow> pydict \<Rightarrow> journal_entry list result" where
  "redrive r from_offset to_offset types limit s =
     attempt (case to_offset of None \<Rightarrow> latest_offset s | Some n \<Rightarrow> Inr n) (\<lambda>n. jn_scan r types n limit (max 0 from_offset) [] s)"

subsection \<open>Consumers\<close>

definition consumer_offset :: "string \<Rightarrow> pydict \<Rightarrow> int" where
  "consumer_offset consumer s =
     (let nm = py_strip consumer in
      if nm = [] then 0
      else case py_int (py_or (py_get s (JOURNAL_OFFSET_PREFIX @ nm)) (VInt 0)) of Inr n \<Rightarrow> n | Inl _ \<Rightarrow> 0)"

definition commit_offset :: "string \<Rightarrow> int \<Rightarrow> pydict \<Rightarrow> unit result \<times> pydict" where
  "commit_offset consumer off s =
     (let nm = py_strip consumer in
      if nm = [] then (Inl (Exc PyValueError ''consumer name required''), s)
      else (Inr (), dict_set (JOURNAL_OFFSET_PREFIX @ nm) (VInt off) s))"

definition consume :: "(pyval \<Rightarrow> string) \<Rightarrow> string \<Rightarrow> int \<Rightarrow> string list option \<Rightarrow> bool \<Rightarrow> pydict \<Rightarrow> journal_entry list result \<times> pydict" where
  "consume r consumer limit types auto s =
     (case read_after r (consumer_offset consumer s) limit types s of
        Inl x \<Rightarrow> (Inl x, s)
      | Inr batch \<Rightarrow>
          (if auto \<and> batch \<noteq> []
           then (case commit_offset consumer (je_offset (List.last batch)) s of (Inl x, s1) \<Rightarrow> (Inl x, s1) | (Inr _, s1) \<Rightarrow> (Inr batch, s1))
           else (Inr batch, s)))"

definition compacted_offset :: "string \<Rightarrow> pydict \<Rightarrow> int option" where
  "compacted_offset key s = (case py_get s (JOURNAL_COMPACT_PREFIX @ key) of
     VNone \<Rightarrow> None
   | v \<Rightarrow> (case py_int v of Inr n \<Rightarrow> Some n | Inl _ \<Rightarrow> None))"

definition journal_status :: "string list \<Rightarrow> pydict \<Rightarrow> (int \<times> (string, int \<times> int) dict) result" where
  "journal_status consumers s = attempt (latest_offset s) (\<lambda>n.
     Inr (n, fold (\<lambda>c. dict_set c (consumer_offset c s, max 0 (n - consumer_offset c s))) consumers []))"

subsection \<open>The interceptor\<close>

definition compact_key_for_resource_changed :: "(pyval \<Rightarrow> string) \<Rightarrow> pydict \<Rightarrow> string option" where
  "compact_key_for_resource_changed r payload =
     (let ref = py_or (py_get payload ''resource_ref'') (py_get payload ''definition_name''); rid = py_or (py_get payload ''resource_id'') (VStr []) in
      if \<not> truthy ref then None else Some (''resource.changed:'' @ py_str r ref @ '':'' @ py_str r rid))"

definition JOURNAL_EVENT_TYPES :: "string list" where
  "JOURNAL_EVENT_TYPES = [''resource.changed'', ''flow.session.succeeded'', ''flow.session.failed'', ''wizard.commit.succeeded'',
     ''wizard.commit.failed'', ''work.intent.enqueued'', ''work.intent.succeeded'', ''work.intent.failed'', ''job.completed'', ''job.status_changed'']"

definition journal_intercept :: "(pyval \<Rightarrow> string) \<Rightarrow> string list option \<Rightarrow> string \<Rightarrow> string \<Rightarrow> event \<Rightarrow> pydict \<Rightarrow> unit result \<times> pydict" where
  "journal_intercept r event_types now fresh ev s =
     (let allowed = (case event_types of Some ts \<Rightarrow> ts | None \<Rightarrow> JOURNAL_EVENT_TYPES);
          key = (if ev_type ev = ''resource.changed'' then compact_key_for_resource_changed r (ev_payload ev) else None)
      in if ev_type ev \<notin> set allowed \<and> ''*'' \<notin> set allowed then (Inr (), s)
         else (case jn_append_event ev key now fresh s of (Inl x, s1) \<Rightarrow> (Inl x, s1) | (Inr _, s1) \<Rightarrow> (Inr (), s1)))"

end
