(* ===== verification/Outbox.thy ===== *)
theory Outbox
  imports Journal Job
begin

text \<open>
  The transactional outbox (\<open>palm/common/events/outbox.py\<close>) and the publisher that fills it (\<open>reliable.py\<close>): events
  that are kept in storage until they have been delivered. The store is the contents of an open storage backend.
  Delivering an event may itself write to the store, since the bus has the publisher as an interceptor; so what a
  delivery does is an argument that maps the world and the store to a result and to both afterwards.
\<close>

subsection \<open>Entries\<close>

record outbox_entry =
  oe_id :: string
  oe_type :: string
  oe_payload :: pydict
  oe_context :: "pydict option"
  oe_timestamp :: string
  oe_status :: string
  oe_attempts :: int
  oe_error :: pyval

definition oe_to_dict :: "outbox_entry \<Rightarrow> pydict" where
  "oe_to_dict e = [(''id'', VStr (oe_id e)), (''event_type'', VStr (oe_type e)), (''payload'', VDict (oe_payload e)),
     (''context'', opt_dict_val (oe_context e)), (''timestamp'', VStr (oe_timestamp e)), (''status'', VStr (oe_status e)),
     (''attempts'', VInt (oe_attempts e)), (''last_error'', oe_error e)]"

definition item :: "pydict \<Rightarrow> string \<Rightarrow> pyval result" where
  "item d k = (case dict_get d k of Some v \<Rightarrow> Inr v | None \<Rightarrow> Inl (Exc PyKeyError k))"

definition oe_from_dict :: "(pyval \<Rightarrow> string) \<Rightarrow> pydict \<Rightarrow> outbox_entry result" where
  "oe_from_dict r d =
     attempt (item d ''id'') (\<lambda>i.
     attempt (item d ''event_type'') (\<lambda>ty.
     attempt (py_dict (py_or (py_get d ''payload'') (VDict []))) (\<lambda>payload.
     attempt (some_dict (py_get d ''context'')) (\<lambda>ctx.
     attempt (py_int (py_or (py_get d ''attempts'') (VInt 0))) (\<lambda>n.
       Inr \<lparr>oe_id = py_str r i, oe_type = py_str r ty, oe_payload = payload, oe_context = ctx,
         oe_timestamp = py_str r (py_or (py_get d ''timestamp'') (VStr [])), oe_status = py_str r (py_or (py_get d ''status'') (VStr ''pending'')),
         oe_attempts = n, oe_error = py_get d ''last_error''\<rparr>)))))"

definition to_event :: "(pyval \<Rightarrow> string) \<Rightarrow> clock \<Rightarrow> int \<Rightarrow> outbox_entry \<Rightarrow> event result" where
  "to_event r c now e =
     attempt (if oe_timestamp e = [] then Inr now else (case iso_parse c (oe_timestamp e) of
         Some t \<Rightarrow> Inr t | None \<Rightarrow> Inl (Exc PyValueError (''Invalid isoformat string: '' @ quoted (oe_timestamp e))))) (\<lambda>t.
       Inr \<lparr>ev_type = oe_type e, ev_payload = oe_payload e, ev_timestamp = t, ev_id = oe_id e, ev_context = context_from_dict r (oe_context e)\<rparr>)"

definition from_event :: "clock \<Rightarrow> event \<Rightarrow> outbox_entry" where
  "from_event c ev = \<lparr>oe_id = ev_id ev, oe_type = ev_type ev, oe_payload = ev_payload ev, oe_context = map_option context_to_dict (ev_context ev),
     oe_timestamp = iso_text c (ev_timestamp ev), oe_status = ''pending'', oe_attempts = 0, oe_error = VNone\<rparr>"

subsection \<open>The store\<close>

definition OUTBOX_PENDING_INDEX :: string where "OUTBOX_PENDING_INDEX = ''palm:outbox:pending_index''"
definition OUTBOX_ENTRY_PREFIX :: string where "OUTBOX_ENTRY_PREFIX = ''palm:outbox:entry:''"

abbreviation outbox_key :: "string \<Rightarrow> string" where "outbox_key i \<equiv> OUTBOX_ENTRY_PREFIX @ i"

definition ob_index :: "(pyval \<Rightarrow> string) \<Rightarrow> pydict \<Rightarrow> string list" where
  "ob_index r s = (case py_get s OUTBOX_PENDING_INDEX of VList xs \<Rightarrow> map (py_str r) xs | _ \<Rightarrow> [])"

definition ob_save_index :: "string list \<Rightarrow> pydict \<Rightarrow> pydict" where
  "ob_save_index ids s = dict_set OUTBOX_PENDING_INDEX (VList (map VStr ids)) s"

definition ob_unlist :: "(pyval \<Rightarrow> string) \<Rightarrow> string \<Rightarrow> pydict \<Rightarrow> pydict" where
  "ob_unlist r i s = (if i \<in> set (ob_index r s) then ob_save_index (remove1 i (ob_index r s)) s else s)"

definition ob_enqueue :: "(pyval \<Rightarrow> string) \<Rightarrow> clock \<Rightarrow> event \<Rightarrow> pydict \<Rightarrow> string \<times> pydict" where
  "ob_enqueue r c ev s =
     (let e = from_event c ev; s1 = dict_set (outbox_key (oe_id e)) (VDict (oe_to_dict e)) s; ids = ob_index r s1
      in (oe_id e, if oe_id e \<in> set ids then s1 else ob_save_index (ids @ [oe_id e]) s1))"

text \<open>\<open>xs[:n]\<close>, which counts from the end when \<open>n\<close> is negative.\<close>

definition slice_to :: "int \<Rightarrow> 'a list \<Rightarrow> 'a list" where
  "slice_to n xs = (if n \<ge> 0 then take (nat n) xs else take (length xs - nat (- n)) xs)"

fun pending_entries :: "(pyval \<Rightarrow> string) \<Rightarrow> pydict \<Rightarrow> string list \<Rightarrow> outbox_entry list result" where
  "pending_entries r s [] = Inr []"
| "pending_entries r s (i # is) = (case py_get s (outbox_key i) of
     VDict d \<Rightarrow> attempt (oe_from_dict r d) (\<lambda>e. attempt (pending_entries r s is) (\<lambda>es. Inr (if oe_status e = ''pending'' then e # es else es)))
   | _ \<Rightarrow> pending_entries r s is)"

definition list_pending :: "(pyval \<Rightarrow> string) \<Rightarrow> int \<Rightarrow> pydict \<Rightarrow> outbox_entry list result" where
  "list_pending r limit s = pending_entries r s (slice_to limit (ob_index r s))"

definition mark_published :: "(pyval \<Rightarrow> string) \<Rightarrow> string \<Rightarrow> pydict \<Rightarrow> unit result \<times> pydict" where
  "mark_published r i s = (case py_get s (outbox_key i) of
     VDict d \<Rightarrow> (case oe_from_dict r d of
         Inl x \<Rightarrow> (Inl x, s)
       | Inr e \<Rightarrow> (Inr (), ob_unlist r i (dict_set (outbox_key i) (VDict (oe_to_dict (e\<lparr>oe_status := ''published''\<rparr>))) s)))
   | _ \<Rightarrow> (Inr (), s))"

definition mark_failed :: "(pyval \<Rightarrow> string) \<Rightarrow> string \<Rightarrow> string \<Rightarrow> pydict \<Rightarrow> unit result \<times> pydict" where
  "mark_failed r i err s = (case py_get s (outbox_key i) of
     VDict d \<Rightarrow> (case oe_from_dict r d of
         Inl x \<Rightarrow> (Inl x, s)
       | Inr e \<Rightarrow>
          (let e1 = e\<lparr>oe_attempts := oe_attempts e + 1, oe_error := VStr err\<rparr> in
           if oe_attempts e1 \<ge> 5 then (Inr (), dict_set (outbox_key i) (VDict (oe_to_dict (e1\<lparr>oe_status := ''failed''\<rparr>))) (ob_unlist r i s))
           else (Inr (), dict_set (outbox_key i) (VDict (oe_to_dict e1)) s)))
   | _ \<Rightarrow> (Inr (), s))"

definition pending_count :: "(pyval \<Rightarrow> string) \<Rightarrow> pydict \<Rightarrow> nat" where
  "pending_count r s = length (ob_index r s)"

subsection \<open>The processor\<close>

type_synonym 'w delivery = "event \<Rightarrow> 'w \<Rightarrow> pydict \<Rightarrow> unit result \<times> 'w \<times> pydict"

text \<open>The hook before publishing, and the publish when handlers are replayed.\<close>

definition deliver_event :: "'w delivery option \<Rightarrow> 'w delivery option \<Rightarrow> 'w delivery" where
  "deliver_event before replay ev w s =
     (case (case before of None \<Rightarrow> (Inr (), w, s) | Some f \<Rightarrow> f ev w s) of
        (Inl x, w1, s1) \<Rightarrow> (Inl x, w1, s1)
      | (Inr _, w1, s1) \<Rightarrow> (case replay of None \<Rightarrow> (Inr (), w1, s1) | Some f \<Rightarrow> f ev w1 s1))"

definition process_entry :: "(pyval \<Rightarrow> string) \<Rightarrow> clock \<Rightarrow> int \<Rightarrow> 'w delivery \<Rightarrow> outbox_entry \<Rightarrow> 'w \<Rightarrow> pydict \<Rightarrow> unit result \<times> 'w \<times> pydict" where
  "process_entry r c now deliver e w s =
     (case (case to_event r c now e of Inl x \<Rightarrow> (Inl x, w, s) | Inr ev \<Rightarrow> deliver ev w s) of
        (Inl x, w1, s1) \<Rightarrow> (Inl x, w1, s1)
      | (Inr _, w1, s1) \<Rightarrow> (case mark_published r (oe_id e) s1 of (res, s2) \<Rightarrow> (res, w1, s2)))"

fun process_entries :: "(pyval \<Rightarrow> string) \<Rightarrow> clock \<Rightarrow> int \<Rightarrow> 'w delivery \<Rightarrow> int \<Rightarrow> outbox_entry list \<Rightarrow> 'w \<Rightarrow> pydict \<Rightarrow> int result \<times> 'w \<times> pydict" where
  "process_entries r c now deliver n [] w s = (Inr n, w, s)"
| "process_entries r c now deliver n (e # es) w s = (case process_entry r c now deliver e w s of
     (Inr _, w1, s1) \<Rightarrow> process_entries r c now deliver (n + 1) es w1 s1
   | (Inl x, w1, s1) \<Rightarrow> (case mark_failed r (oe_id e) (exc_msg x) s1 of
       (Inl y, s2) \<Rightarrow> (Inl y, w1, s2)
     | (Inr _, s2) \<Rightarrow> process_entries r c now deliver n es w1 s2))"

definition process_batch :: "(pyval \<Rightarrow> string) \<Rightarrow> clock \<Rightarrow> int \<Rightarrow> 'w delivery \<Rightarrow> int \<Rightarrow> 'w \<Rightarrow> pydict \<Rightarrow> int result \<times> 'w \<times> pydict" where
  "process_batch r c now deliver limit w s = (case list_pending r limit s of
     Inl x \<Rightarrow> (Inl x, w, s)
   | Inr es \<Rightarrow> process_entries r c now deliver 0 es w s)"

text \<open>Deliveries that keep enqueuing events keep \<open>recover_pending\<close> busy for ever, which is None.\<close>

partial_function (option) recover_loop :: "(pyval \<Rightarrow> string) \<Rightarrow> clock \<Rightarrow> int \<Rightarrow> 'w delivery \<Rightarrow> int \<Rightarrow> 'w \<Rightarrow> pydict \<Rightarrow> (int result \<times> 'w \<times> pydict) option" where
  "recover_loop r c now deliver acc w s = (case process_batch r c now deliver 50 w s of
     (Inl x, w1, s1) \<Rightarrow> Some (Inl x, w1, s1)
   | (Inr n, w1, s1) \<Rightarrow> (if n = 0 then Some (Inr acc, w1, s1) else recover_loop r c now deliver (acc + n) w1 s1))"

definition recover_pending :: "(pyval \<Rightarrow> string) \<Rightarrow> clock \<Rightarrow> int \<Rightarrow> 'w delivery option \<Rightarrow> 'w \<Rightarrow> pydict \<Rightarrow> (int result \<times> 'w \<times> pydict) option" where
  "recover_pending r c now replay w s = recover_loop r c now (deliver_event None replay) 0 w s"

subsection \<open>The publisher\<close>

definition CRITICAL_EVENT_TYPES :: "string list" where
  "CRITICAL_EVENT_TYPES = [''wizard.step.completed'', ''wizard.backtrack.executed'', ''wizard.backtrack'', ''wizard.commit.started'',
     ''wizard.commit.succeeded'', ''wizard.commit.failed'', ''job.status_changed'', ''job.completed'', ''wizard.completed'',
     ''resource.changed'', ''flow.session.succeeded'', ''flow.session.failed'', ''work.intent.enqueued'', ''work.intent.succeeded'',
     ''work.intent.failed'']"

definition should_enqueue :: "string list option \<Rightarrow> event \<Rightarrow> bool" where
  "should_enqueue critical ev = (ev_type ev \<in> set (case critical of Some (t # ts) \<Rightarrow> t # ts | _ \<Rightarrow> CRITICAL_EVENT_TYPES))"

definition reliable_enqueue :: "(pyval \<Rightarrow> string) \<Rightarrow> clock \<Rightarrow> string list option \<Rightarrow> event \<Rightarrow> pydict \<Rightarrow> string option \<times> pydict" where
  "reliable_enqueue r c critical ev s = (if \<not> should_enqueue critical ev then (None, s)
     else (case ob_enqueue r c ev s of (i, s1) \<Rightarrow> (Some i, s1)))"

definition text_if_set :: "(pyval \<Rightarrow> string) \<Rightarrow> pydict \<Rightarrow> string \<Rightarrow> string option" where
  "text_if_set r d k = (if py_get d k = VNone then None else Some (py_str r (py_get d k)))"

definition correlation_of_job :: "(pyval \<Rightarrow> string) \<Rightarrow> job \<Rightarrow> event_context" where
  "correlation_of_job r j =
     (let md = metadata j; sid = map_option py_strip (text_if_set r md ''session_id'') in
      \<lparr>ec_job_id = Some (jid j), ec_instance_id = text_if_set r md ''instance_id'', ec_session_id = (if sid = Some [] then None else sid),
        ec_trace_id = text_if_set r md ''trace_id'', ec_principal_id = text_if_set r md ''principal_id'', ec_extra = []\<rparr>)"

end
