(* ===== verification/OutboxProps.thy ===== *)
theory OutboxProps
  imports Outbox WorkQueue
begin

text \<open>
  The outbox stands for a list of pending entries; a batch tries its entries once and in order, and recovery ends
  but stops at a batch in which nothing could be delivered.
\<close>

subsection \<open>The queue it stands for\<close>

definition oe_ok :: "clock \<Rightarrow> outbox_entry \<Rightarrow> bool" where
  "oe_ok c e = (oe_context e \<noteq> Some [] \<and> oe_status e = ''pending'' \<and> oe_attempts e < 5 \<and> iso_parse c (oe_timestamp e) \<noteq> None \<and> oe_timestamp e \<noteq> [])"

definition ob_rep :: "clock \<Rightarrow> pydict \<Rightarrow> outbox_entry list \<Rightarrow> bool" where
  "ob_rep c s q \<longleftrightarrow> (py_get s OUTBOX_PENDING_INDEX = VList (map (VStr \<circ> oe_id) q) \<or> (q = [] \<and> py_get s OUTBOX_PENDING_INDEX = VNone))
     \<and> distinct (map oe_id q) \<and> (\<forall>e \<in> set q. oe_ok c e \<and> py_get s (outbox_key (oe_id e)) = VDict (oe_to_dict e))"

lemma some_dict_back: "x \<noteq> Some [] \<Longrightarrow> some_dict (opt_dict_val x) = Inr x"
proof (cases x)
  case (Some d)
  assume "x \<noteq> Some []"
  then show ?thesis using Some by (cases d) (simp_all add: some_dict_def opt_dict_val_def py_dict_def)
qed (simp add: some_dict_def opt_dict_val_def)

lemma oe_roundtrip: "oe_context e \<noteq> Some [] \<Longrightarrow> oe_status e \<noteq> [] \<Longrightarrow> oe_from_dict r (oe_to_dict e) = Inr e"
proof -
  assume a: "oe_context e \<noteq> Some []" "oe_status e \<noteq> []"
  have "py_or (VStr (oe_status e)) (VStr ''pending'') = VStr (oe_status e)" using a(2) by (cases "oe_status e") (simp_all add: py_or_def)
  then show ?thesis using a by (simp add: oe_from_dict_def oe_to_dict_def item_def some_dict_back)
qed

lemma oe_ok_back: "oe_ok c e \<Longrightarrow> oe_from_dict r (oe_to_dict e) = Inr e"
  by (rule oe_roundtrip) (auto simp: oe_ok_def)

lemma outbox_keys_apart [simp]: "outbox_key i \<noteq> OUTBOX_PENDING_INDEX" "OUTBOX_PENDING_INDEX \<noteq> outbox_key i"
  by (simp_all add: OUTBOX_ENTRY_PREFIX_def OUTBOX_PENDING_INDEX_def)

lemma ob_rep_index: "ob_rep c s q \<Longrightarrow> ob_index r s = map oe_id q"
  by (auto simp: ob_rep_def ob_index_def)

lemma ob_rep_entry: "ob_rep c s q \<Longrightarrow> e \<in> set q \<Longrightarrow> oe_ok c e \<and> py_get s (outbox_key (oe_id e)) = VDict (oe_to_dict e)"
  by (simp add: ob_rep_def)

lemma pending_entries_rep: "ob_rep c s q \<Longrightarrow> set es \<subseteq> set q \<Longrightarrow> pending_entries r s (map oe_id es) = Inr es"
proof (induction es)
  case (Cons e es)
  then show ?case using ob_rep_entry [of c s q e] by (auto simp: oe_ok_back) (simp add: oe_ok_def)
qed simp

lemma list_pending_rep: "ob_rep c s q \<Longrightarrow> 0 \<le> limit \<Longrightarrow> list_pending r limit s = Inr (take (nat limit) q)"
  using pending_entries_rep [of c s q "take (nat limit) q" r] by (auto simp: list_pending_def slice_to_def ob_rep_index take_map dest: in_set_takeD)

text \<open>Removing an entry from the index, whatever is stored for it.\<close>

lemma rep_unlist:
  assumes rep: "ob_rep c s q" and e: "e \<in> set q"
  shows "ob_rep c (ob_unlist r (oe_id e) (dict_set (outbox_key (oe_id e)) v s)) (remove1 e q)"
    "ob_rep c (dict_set (outbox_key (oe_id e)) v (ob_unlist r (oe_id e) s)) (remove1 e q)"
proof -
  have dist: "distinct (map oe_id q)" using rep by (simp add: ob_rep_def)
  have ids: "remove1 (oe_id e) (map oe_id q) = map oe_id (remove1 e q)" using e dist by (induction q) (auto simp: rev_image_eqI)
  have rest: "oe_id x \<noteq> oe_id e" if "x \<in> set (remove1 e q)" for x
    using that e dist distinct_map [of oe_id q] by (auto simp: inj_on_def set_remove1_eq)
  have sub: "distinct (map oe_id (remove1 e q))" using dist ids [symmetric] by (simp add: distinct_remove1)
  have idx: "ob_index r t = map oe_id q" if "py_get t OUTBOX_PENDING_INDEX = py_get s OUTBOX_PENDING_INDEX" for t
    using ob_rep_index [OF rep, of r] that by (simp add: ob_index_def)
  have mem: "oe_id e \<in> set (map oe_id q)" using e by simp
  have one: "ob_unlist r (oe_id e) (dict_set (outbox_key (oe_id e)) v s) = ob_save_index (map oe_id (remove1 e q)) (dict_set (outbox_key (oe_id e)) v s)"
    using idx [of "dict_set (outbox_key (oe_id e)) v s"] mem ids by (simp add: ob_unlist_def)
  have two: "ob_unlist r (oe_id e) s = ob_save_index (map oe_id (remove1 e q)) s" using idx [of s] mem ids by (simp add: ob_unlist_def)
  show "ob_rep c (ob_unlist r (oe_id e) (dict_set (outbox_key (oe_id e)) v s)) (remove1 e q)"
    unfolding one using sub rest ob_rep_entry [OF rep] by (auto simp: ob_rep_def ob_save_index_def dest: notin_set_remove1)
  show "ob_rep c (dict_set (outbox_key (oe_id e)) v (ob_unlist r (oe_id e) s)) (remove1 e q)"
    unfolding two using sub rest ob_rep_entry [OF rep] by (auto simp: ob_rep_def ob_save_index_def dest: notin_set_remove1)
qed

lemma mark_published_rep:
  assumes rep: "ob_rep c s q" and e: "e \<in> set q"
  shows "\<exists>s'. mark_published r (oe_id e) s = (Inr (), s') \<and> ob_rep c s' (remove1 e q)"
  using ob_rep_entry [OF rep e] rep_unlist(1) [OF rep e] oe_ok_back [of c e r] by (auto simp: mark_published_def)

definition retried :: "string \<Rightarrow> outbox_entry \<Rightarrow> outbox_entry" where
  "retried err e = e\<lparr>oe_attempts := oe_attempts e + 1, oe_error := VStr err\<rparr>"

definition replace_entry :: "outbox_entry \<Rightarrow> outbox_entry list \<Rightarrow> outbox_entry list" where
  "replace_entry e' q = map (\<lambda>e. if oe_id e = oe_id e' then e' else e) q"

lemma mark_failed_rep:
  assumes rep: "ob_rep c s q" and e: "e \<in> set q"
  shows "\<exists>s'. mark_failed r (oe_id e) err s = (Inr (), s')
    \<and> ob_rep c s' (if oe_attempts e + 1 \<ge> 5 then remove1 e q else replace_entry (retried err e) q)"
proof (cases "oe_attempts e + 1 \<ge> 5")
  case True
  then show ?thesis using ob_rep_entry [OF rep e] rep_unlist(2) [OF rep e] oe_ok_back [of c e r] by (auto simp: mark_failed_def Let_def)
next
  case False
  let ?e = "retried err e"
  have ok: "oe_ok c ?e" using ob_rep_entry [OF rep e] False by (simp add: oe_ok_def retried_def)
  have "oe_id ?e = oe_id e" by (simp add: retried_def)
  then have "ob_rep c (dict_set (outbox_key (oe_id e)) (VDict (oe_to_dict ?e)) s) (replace_entry ?e q)"
    using rep ok unfolding ob_rep_def replace_entry_def by (auto simp: o_def if_distrib [of oe_id] cong: if_cong)
  then show ?thesis using ob_rep_entry [OF rep e] False oe_ok_back [of c e r] by (auto simp: mark_failed_def Let_def retried_def)
qed

lemma enqueue_rep:
  assumes rep: "ob_rep c s q" and fresh: "ev_id ev \<notin> oe_id ` set q" and ok: "clock_ok c" "map_option context_to_dict (ev_context ev) \<noteq> Some []"
  shows "ob_enqueue r c ev s = (ev_id ev, snd (ob_enqueue r c ev s)) \<and> ob_rep c (snd (ob_enqueue r c ev s)) (q @ [from_event c ev])"
proof -
  let ?e = "from_event c ev"
  have e: "oe_id ?e = ev_id ev" "oe_ok c ?e" using ok by (simp_all add: from_event_def oe_ok_def clock_ok_def)
  have idx: "ob_index r (dict_set (outbox_key (ev_id ev)) v s) = map oe_id q" for v
    using ob_rep_index [OF rep, of r] by (simp add: ob_index_def)
  have run: "ob_enqueue r c ev s = (ev_id ev, ob_save_index (map oe_id q @ [ev_id ev]) (dict_set (outbox_key (ev_id ev)) (VDict (oe_to_dict ?e)) s))"
    using fresh by (simp add: ob_enqueue_def Let_def e(1) idx)
  have "ob_rep c (ob_save_index (map oe_id q @ [ev_id ev]) (dict_set (outbox_key (ev_id ev)) (VDict (oe_to_dict ?e)) s)) (q @ [?e])"
    using rep fresh e unfolding ob_rep_def ob_save_index_def by (auto simp: image_iff)
  then show ?thesis by (simp add: run)
qed

subsection \<open>Batches\<close>

text \<open>A delivery that leaves the store alone.\<close>

definition leaves_store :: "(event \<Rightarrow> 'w \<Rightarrow> unit result \<times> 'w) \<Rightarrow> 'w delivery \<Rightarrow> bool" where
  "leaves_store f deliver = (\<forall>ev w s. deliver ev w s = (fst (f ev w), snd (f ev w), s))"

definition event_of :: "(pyval \<Rightarrow> string) \<Rightarrow> clock \<Rightarrow> outbox_entry \<Rightarrow> event" where
  "event_of r c e = \<lparr>ev_type = oe_type e, ev_payload = oe_payload e, ev_timestamp = the (iso_parse c (oe_timestamp e)), ev_id = oe_id e,
     ev_context = context_from_dict r (oe_context e)\<rparr>"

text \<open>Every entry is tried once, in order: delivered entries leave, the others are kept until their fifth failure.\<close>

fun settle_entry :: "(event \<Rightarrow> 'w \<Rightarrow> unit result \<times> 'w) \<Rightarrow> (outbox_entry \<Rightarrow> event) \<Rightarrow> outbox_entry list \<Rightarrow> 'w \<Rightarrow> outbox_entry list \<times> int \<times> 'w" where
  "settle_entry f ev [] w = ([], 0, w)"
| "settle_entry f ev (e # es) w = (case f (ev e) w of
     (Inr _, w1) \<Rightarrow> (case settle_entry f ev es w1 of (k, n, w2) \<Rightarrow> (k, n + 1, w2))
   | (Inl x, w1) \<Rightarrow> (case settle_entry f ev es w1 of (k, n, w2) \<Rightarrow>
       (if oe_attempts e + 1 \<ge> 5 then k else retried (exc_msg x) e # k, n, w2)))"

lemma to_event_ok: "oe_ok c e \<Longrightarrow> to_event r c now e = Inr (event_of r c e)"
  by (auto simp: to_event_def oe_ok_def event_of_def)

lemma process_entries_rep:
  assumes tame: "leaves_store f deliver"
  shows "ob_rep c s (front @ es @ back) \<Longrightarrow> settle_entry f (event_of r c) es w = (k, m, w') \<Longrightarrow>
    \<exists>s'. process_entries r c now deliver n es w s = (Inr (n + m), w', s') \<and> ob_rep c s' (front @ k @ back)"
proof (induction es arbitrary: front n w s k m w')
  case (Cons e es)
  let ?q = "front @ (e # es) @ back"
  have e: "e \<in> set ?q" by simp
  have ok: "oe_ok c e" using ob_rep_entry [OF Cons.prems(1) e] by simp
  have dist: "distinct (map oe_id ?q)" using Cons.prems(1) unfolding ob_rep_def by blast
  have rem: "remove1 e ?q = front @ es @ back" using dist by (auto simp: remove1_append)
  have rep: "replace_entry (retried x e) ?q = (front @ [retried x e]) @ es @ back" for x
  proof -
    have "replace_entry (retried x e) xs = xs" if "oe_id e \<notin> oe_id ` set xs" for xs
      using that unfolding replace_entry_def by (induction xs) (auto simp: retried_def)
    then show ?thesis using dist by (auto simp: replace_entry_def retried_def)
  qed
  obtain v w1 where f: "f (event_of r c e) w = (v, w1)" by (cases "f (event_of r c e) w")
  have del: "deliver (event_of r c e) w s = (v, w1, s)" using tame f by (simp add: leaves_store_def)
  obtain k1 m1 w2 where rest: "settle_entry f (event_of r c) es w1 = (k1, m1, w2)" by (cases "settle_entry f (event_of r c) es w1")
  show ?case
  proof (cases v)
    case (Inr u)
    obtain s1 where s1: "mark_published r (oe_id e) s = (Inr (), s1)" "ob_rep c s1 (front @ es @ back)"
      using mark_published_rep [OF Cons.prems(1) e, of r] unfolding rem by blast
    have "process_entries r c now deliver n (e # es) w s = process_entries r c now deliver (n + 1) es w1 s1"
      by (simp add: process_entry_def to_event_ok [OF ok] del Inr s1(1))
    then show ?thesis using Cons.IH [OF s1(2) rest, of "n + 1"] Cons.prems(2) f rest Inr by (auto simp: add.assoc)
  next
    case (Inl x)
    obtain s1 where s1: "mark_failed r (oe_id e) (exc_msg x) s = (Inr (), s1)"
      "ob_rep c s1 (if oe_attempts e + 1 \<ge> 5 then remove1 e ?q else replace_entry (retried (exc_msg x) e) ?q)"
      using mark_failed_rep [OF Cons.prems(1) e, of r "exc_msg x"] by blast
    have run: "process_entries r c now deliver n (e # es) w s = process_entries r c now deliver n es w1 s1"
      by (simp add: process_entry_def to_event_ok [OF ok] del Inl s1(1))
    show ?thesis
    proof (cases "oe_attempts e + 1 \<ge> 5")
      case True
      have "ob_rep c s1 (front @ es @ back)" using s1(2) True rem by simp
      from Cons.IH [OF this rest, of n] show ?thesis using Cons.prems(2) f rest Inl True run by auto
    next
      case False
      have "ob_rep c s1 ((front @ [retried (exc_msg x) e]) @ es @ back)" using s1(2) False rep by simp
      from Cons.IH [OF this rest, of n] show ?thesis using Cons.prems(2) f rest Inl False run by auto
    qed
  qed
qed simp

lemma process_batch_rep:
  assumes "leaves_store f deliver" "ob_rep c s q" "0 \<le> limit" "settle_entry f (event_of r c) (take (nat limit) q) w = (k, n, w')"
  shows "\<exists>s'. process_batch r c now deliver limit w s = (Inr n, w', s') \<and> ob_rep c s' (k @ drop (nat limit) q)"
  using process_entries_rep [OF assms(1), of c s "[]" "take (nat limit) q" "drop (nat limit) q" r w k n w' now 0] assms(2,4)
  by (simp add: process_batch_def list_pending_rep [OF assms(2,3)])

text \<open>
  C10. A batch over an outbox, with deliveries that do not write to it, delivers each of its first pending entries
  once and in order: the delivered entries leave the outbox, a failed one stays in its place with one attempt more or is
  dropped at the fifth, everything behind the limit is untouched, and the answer is the number of delivered entries.
\<close>

theorem outbox_batch_settles:
  assumes "leaves_store f deliver" "ob_rep c s q" "0 \<le> limit"
  shows "case settle_entry f (event_of r c) (take (nat limit) q) w of (k, n, w') \<Rightarrow>
    \<exists>s'. process_batch r c now deliver limit w s = (Inr n, w', s') \<and> ob_rep c s' (k @ drop (nat limit) q)"
  using process_batch_rep [OF assms] by (simp split: prod.split)

subsection \<open>Recovery\<close>

lemma settle_bounds: "settle_entry f ev es w = (k, n, w') \<Longrightarrow> 0 \<le> n \<and> int (length k) + n \<le> int (length es)"
proof (induction es arbitrary: w k n w')
  case (Cons e es)
  obtain v w1 where f: "f (ev e) w = (v, w1)" by (cases "f (ev e) w")
  obtain k1 n1 w2 where rest: "settle_entry f ev es w1 = (k1, n1, w2)" by (cases "settle_entry f ev es w1")
  show ?case using Cons.IH [OF rest] Cons.prems f rest by (cases v) (auto split: if_splits)
qed simp

lemma settle_all: "\<forall>e \<in> set es. \<forall>w. \<not> isl (fst (f (ev e) w)) \<Longrightarrow> fst (settle_entry f ev es w) = [] \<and> fst (snd (settle_entry f ev es w)) = int (length es)"
proof (induction es arbitrary: w)
  case (Cons e es)
  obtain v w1 where f: "f (ev e) w = (v, w1)" by (cases "f (ev e) w")
  have "\<not> isl (fst (f (ev e) w))" using Cons.prems by simp
  then obtain u where "v = Inr u" using f by (cases v) auto
  then show ?case using Cons.IH [of w1] Cons.prems f by (auto split: prod.split)
qed simp

lemma settle_none: "\<forall>e \<in> set es. \<forall>w. isl (fst (f (ev e) w)) \<Longrightarrow> fst (snd (settle_entry f ev es w)) = 0"
proof (induction es arbitrary: w)
  case (Cons e es)
  obtain v w1 where f: "f (ev e) w = (v, w1)" by (cases "f (ev e) w")
  have "isl (fst (f (ev e) w))" using Cons.prems by simp
  then obtain x where "v = Inl x" using f by (cases v) auto
  then show ?case using Cons.IH [of w1] Cons.prems f by (auto split: prod.split)
qed simp

lemma recover_loop_rep:
  assumes tame: "leaves_store f deliver"
  shows "ob_rep c s q \<Longrightarrow> \<exists>n w' s' q'. recover_loop r c now deliver acc w s = Some (Inr (acc + n), w', s') \<and> ob_rep c s' q'
    \<and> 0 \<le> n \<and> int (length q') + n \<le> int (length q)
    \<and> ((\<forall>ev w. \<not> isl (fst (f ev w))) \<longrightarrow> q' = [] \<and> n = int (length q))"
proof (induction "length q" arbitrary: q acc w s rule: less_induct)
  case less
  obtain k m w1 where settle_entry: "settle_entry f (event_of r c) (take 50 q) w = (k, m, w1)" by (cases "settle_entry f (event_of r c) (take 50 q) w")
  obtain s1 where batch: "process_batch r c now deliver 50 w s = (Inr m, w1, s1)" "ob_rep c s1 (k @ drop 50 q)"
    using process_batch_rep [OF tame less.prems, of 50 r w k m w1 now] settle_entry by auto
  note loop = recover_loop.simps [of r c now deliver acc w s, unfolded batch(1) prod.case sum.case]
  have bounds: "0 \<le> m" "int (length k) + m \<le> int (length (take 50 q))" using settle_bounds [OF settle_entry] by simp_all
  have all: "k = [] \<and> m = int (length (take 50 q))" if "\<forall>ev w. \<not> isl (fst (f ev w))"
    using settle_all [of "take 50 q" f "event_of r c" w] settle_entry that by simp
  have len: "length q = length (take 50 q) + length (drop 50 q)" by simp
  show ?case
  proof (cases "m = 0")
    case True
    have empty: "q = []" if "\<forall>ev w. \<not> isl (fst (f ev w))" using all [OF that] True by (cases q) (auto simp: min_def)
    show ?thesis
    proof (intro exI conjI)
      show "recover_loop r c now deliver acc w s = Some (Inr (acc + 0), w1, s1)" using loop True by simp
      show "ob_rep c s1 (k @ drop 50 q)" by (rule batch(2))
      show "int (length (k @ drop 50 q)) + 0 \<le> int (length q)" unfolding length_append using bounds len by linarith
      show "(\<forall>ev w. \<not> isl (fst (f ev w))) \<longrightarrow> k @ drop 50 q = [] \<and> 0 = int (length q)" using all empty by auto
    qed simp
  next
    case False
    have short: "int (length (k @ drop 50 q)) + m \<le> int (length q)" unfolding length_append using bounds len by linarith
    then have "length (k @ drop 50 q) < length q" using False bounds(1) by linarith
    from less.hyps [OF this batch(2), of "acc + m" w1] obtain n w' s' q' where IH:
      "recover_loop r c now deliver (acc + m) w1 s1 = Some (Inr (acc + m + n), w', s')" "ob_rep c s' q'" "0 \<le> n"
      "int (length q') + n \<le> int (length (k @ drop 50 q))"
      "(\<forall>ev w. \<not> isl (fst (f ev w))) \<longrightarrow> q' = [] \<and> n = int (length (k @ drop 50 q))" by blast
    have "m + n = int (length q)" if "\<forall>ev w. \<not> isl (fst (f ev w))"
    proof -
      have "m = int (length (take 50 q))" "n = int (length (drop 50 q))" using all [OF that] IH(5) that by simp_all
      then show ?thesis using len by linarith
    qed
    then have all': "(\<forall>ev w. \<not> isl (fst (f ev w))) \<longrightarrow> q' = [] \<and> m + n = int (length q)" using IH(5) by blast
    show ?thesis
    proof (intro exI conjI)
      show "recover_loop r c now deliver acc w s = Some (Inr (acc + (m + n)), w', s')" using loop False IH(1) by (simp add: add.assoc)
      show "int (length q') + (m + n) \<le> int (length q)" using IH(4) short by linarith
      show "0 \<le> m + n" using IH(3) bounds(1) by simp
    qed (rule IH(2) all')+
  qed
qed

text \<open>
  C11. Recovery of an outbox whose deliveries do not write to it ends, with the number of delivered entries as its
  answer, and empties the outbox when no delivery fails; but if the first fifty entries cannot be delivered it
  answers zero and leaves every later entry undelivered.
\<close>

theorem recovery_ends:
  assumes "leaves_store f deliver" "ob_rep c s q"
  shows "(\<exists>n w' s' q'. recover_pending r c now (Some deliver) w s = Some (Inr n, w', s') \<and> ob_rep c s' q'
      \<and> 0 \<le> n \<and> int (length q') + n \<le> int (length q) \<and> ((\<forall>ev w. \<not> isl (fst (f ev w))) \<longrightarrow> q' = [] \<and> n = int (length q)))
    \<and> ((\<forall>e \<in> set (take 50 q). \<forall>w. isl (fst (f (event_of r c e) w))) \<longrightarrow>
      (\<exists>w' s' k. recover_pending r c now (Some deliver) w s = Some (Inr 0, w', s') \<and> ob_rep c s' (k @ drop 50 q)))"
proof -
  have del: "deliver_event None (Some deliver) = deliver" by (simp add: deliver_event_def fun_eq_iff)
  show ?thesis
  proof (rule conjI)
    show "\<exists>n w' s' q'. recover_pending r c now (Some deliver) w s = Some (Inr n, w', s') \<and> ob_rep c s' q'
      \<and> 0 \<le> n \<and> int (length q') + n \<le> int (length q) \<and> ((\<forall>ev w. \<not> isl (fst (f ev w))) \<longrightarrow> q' = [] \<and> n = int (length q))"
      using recover_loop_rep [OF assms, of r now 0 w] by (simp add: recover_pending_def del)
    show "(\<forall>e \<in> set (take 50 q). \<forall>w. isl (fst (f (event_of r c e) w))) \<longrightarrow>
      (\<exists>w' s' k. recover_pending r c now (Some deliver) w s = Some (Inr 0, w', s') \<and> ob_rep c s' (k @ drop 50 q))"
    proof
      assume none: "\<forall>e \<in> set (take 50 q). \<forall>w. isl (fst (f (event_of r c e) w))"
      obtain k m w1 where settle_entry: "settle_entry f (event_of r c) (take 50 q) w = (k, m, w1)" by (cases "settle_entry f (event_of r c) (take 50 q) w")
      have "m = 0" using settle_none [OF none, of w] settle_entry by simp
      then obtain s1 where "process_batch r c now deliver 50 w s = (Inr 0, w1, s1)" "ob_rep c s1 (k @ drop 50 q)"
        using process_batch_rep [OF assms, of 50 r w k m w1 now] settle_entry by auto
      then show "\<exists>w' s' k. recover_pending r c now (Some deliver) w s = Some (Inr 0, w', s') \<and> ob_rep c s' (k @ drop 50 q)"
        by (subst recover_pending_def, subst recover_loop.simps) (simp add: del, blast)
    qed
  qed
qed

subsection \<open>Witnesses\<close>

definition demo_event :: "nat \<Rightarrow> event" where
  "demo_event k = \<lparr>ev_type = ''job.completed'', ev_payload = [], ev_timestamp = int k, ev_id = show_int (int k), ev_context = None\<rparr>"

definition demo_entries :: "nat \<Rightarrow> outbox_entry list" where
  "demo_entries n = map (from_event decimal_clock \<circ> demo_event) [0..<n]"

definition demo_outbox :: "nat \<Rightarrow> pydict" where
  "demo_outbox n = fold (\<lambda>k s. snd (ob_enqueue (\<lambda>_. []) decimal_clock (demo_event k) s)) [0..<n] []"

lemma demo_outbox_rep: "ob_rep decimal_clock (demo_outbox n) (demo_entries n)"
proof (induction n)
  case 0
  show ?case by (simp add: ob_rep_def demo_outbox_def demo_entries_def get_default_def)
next
  case (Suc n)
  have "show_int (int a) = show_int (int b) \<longleftrightarrow> a = b" for a b by (metis of_nat_eq_iff option.inject parse_show_int)
  then have "ev_id (demo_event n) \<notin> oe_id ` set (demo_entries n)"
    by (auto simp: demo_entries_def demo_event_def from_event_def)
  from enqueue_rep [OF Suc.IH this decimal_clock_ok, of "\<lambda>_. []"] show ?case
    by (simp add: demo_outbox_def demo_entries_def demo_event_def)
qed

definition deaf :: "nat delivery" where
  "deaf ev w s = (if ev_id ev = show_int 1 then (Inl (Exc PyRuntimeError ''down''), w, s) else (Inr (), Suc w, s))"

lemma deaf_leaves_store: "leaves_store (\<lambda>ev w. if ev_id ev = show_int 1 then (Inl (Exc PyRuntimeError ''down''), w) else (Inr (), Suc w)) deaf"
  by (simp add: leaves_store_def deaf_def)

lemma outbox_batch_settles_witness:
  "\<exists>s' w'. process_batch (\<lambda>_. []) decimal_clock 0 deaf 2 0 (demo_outbox 3) = (Inr 1, w', s')
    \<and> ob_rep decimal_clock s' (retried ''down'' (from_event decimal_clock (demo_event 1)) # drop 2 (demo_entries 3))"
proof -
  have "settle_entry (\<lambda>ev w. if ev_id ev = show_int 1 then (Inl (Exc PyRuntimeError ''down''), w) else (Inr (), Suc w)) (event_of (\<lambda>_. []) decimal_clock)
      (take (nat 2) (demo_entries 3)) (0 :: nat) = ([retried ''down'' (from_event decimal_clock (demo_event 1))], 1, 1)" by code_simp
  then show ?thesis using outbox_batch_settles [OF deaf_leaves_store demo_outbox_rep [of 3], where limit = 2 and r = "\<lambda>_. []" and now = 0 and w = 0] by auto
qed

lemma recovery_ends_witness:
  "\<exists>w' s' k. recover_pending (\<lambda>_. []) decimal_clock 0 (Some (\<lambda>ev w s. (Inl (Exc PyRuntimeError ''down''), w, s))) () (demo_outbox 51) = Some (Inr 0, w', s')
    \<and> ob_rep decimal_clock s' (k @ [from_event decimal_clock (demo_event 50)])"
proof -
  have tame: "leaves_store (\<lambda>ev w. (Inl (Exc PyRuntimeError ''down''), w)) (\<lambda>ev w s. (Inl (Exc PyRuntimeError ''down''), w, s))" by (simp add: leaves_store_def)
  have "drop 50 (demo_entries 51) = [from_event decimal_clock (demo_event 50)]" by (simp add: demo_entries_def drop_map upt_rec [of 50])
  then show ?thesis using recovery_ends [OF tame demo_outbox_rep [of 51], of "\<lambda>_. []" 0 "()"] by simp
qed

end
