(* ===== verification/JournalProps.thy ===== *)
theory JournalProps
  imports Journal WorkQueue
begin

text \<open>
  The journal is an append-only log with offsets: every sequence of operations answers as the log does, and a
  consumer that commits with every batch sees each wanted entry exactly once and in order.
\<close>

subsection \<open>The log it stands for\<close>

record event_log =
  lg_entries :: "journal_entry list"
  lg_offsets :: "string \<Rightarrow> int option"
  lg_keys :: "string \<Rightarrow> int option"

definition empty_log :: event_log where
  "empty_log = \<lparr>lg_entries = [], lg_offsets = (\<lambda>_. None), lg_keys = (\<lambda>_. None)\<rparr>"

definition int_val :: "int option \<Rightarrow> pyval" where
  "int_val n = (case n of None \<Rightarrow> VNone | Some k \<Rightarrow> VInt k)"

definition log_end :: "event_log \<Rightarrow> int" where
  "log_end l = int (length (lg_entries l))"

definition log_rep :: "pydict \<Rightarrow> event_log \<Rightarrow> bool" where
  "log_rep s l \<longleftrightarrow> latest_offset s = Inr (log_end l)
     \<and> (\<forall>k. py_get s (JOURNAL_ENTRY_PREFIX @ show_int k) =
          (if 1 \<le> k \<and> k \<le> log_end l then VDict (je_to_dict (lg_entries l ! nat (k - 1))) else VNone))
     \<and> (\<forall>k < length (lg_entries l). je_offset (lg_entries l ! k) = int k + 1 \<and> je_context (lg_entries l ! k) \<noteq> Some [])
     \<and> (\<forall>c. py_get s (JOURNAL_OFFSET_PREFIX @ c) = int_val (lg_offsets l c))
     \<and> (\<forall>k. py_get s (JOURNAL_COMPACT_PREFIX @ k) = int_val (lg_keys l k))"

lemma rep_parts:
  assumes "log_rep s l"
  shows "latest_offset s = Inr (log_end l)"
    "py_get s (JOURNAL_ENTRY_PREFIX @ show_int k) = (if 1 \<le> k \<and> k \<le> log_end l then VDict (je_to_dict (lg_entries l ! nat (k - 1))) else VNone)"
    "i < length (lg_entries l) \<Longrightarrow> je_offset (lg_entries l ! i) = int i + 1"
    "i < length (lg_entries l) \<Longrightarrow> je_context (lg_entries l ! i) \<noteq> Some []"
    "py_get s (JOURNAL_OFFSET_PREFIX @ c) = int_val (lg_offsets l c)"
    "py_get s (JOURNAL_COMPACT_PREFIX @ c) = int_val (lg_keys l c)"
  using assms unfolding log_rep_def by blast+

lemma journal_keys_apart [simp]:
  "JOURNAL_ENTRY_PREFIX @ a \<noteq> JOURNAL_SEQ" "JOURNAL_OFFSET_PREFIX @ a \<noteq> JOURNAL_SEQ" "JOURNAL_COMPACT_PREFIX @ a \<noteq> JOURNAL_SEQ"
  "JOURNAL_ENTRY_PREFIX @ a \<noteq> JOURNAL_OFFSET_PREFIX @ b" "JOURNAL_OFFSET_PREFIX @ a \<noteq> JOURNAL_ENTRY_PREFIX @ b"
  "JOURNAL_ENTRY_PREFIX @ a \<noteq> JOURNAL_COMPACT_PREFIX @ b" "JOURNAL_COMPACT_PREFIX @ a \<noteq> JOURNAL_ENTRY_PREFIX @ b"
  "JOURNAL_OFFSET_PREFIX @ a \<noteq> JOURNAL_COMPACT_PREFIX @ b" "JOURNAL_COMPACT_PREFIX @ a \<noteq> JOURNAL_OFFSET_PREFIX @ b"
  "JOURNAL_SEQ \<noteq> JOURNAL_ENTRY_PREFIX @ a" "JOURNAL_SEQ \<noteq> JOURNAL_OFFSET_PREFIX @ a" "JOURNAL_SEQ \<noteq> JOURNAL_COMPACT_PREFIX @ a"
  by (simp_all add: JOURNAL_ENTRY_PREFIX_def JOURNAL_OFFSET_PREFIX_def JOURNAL_COMPACT_PREFIX_def JOURNAL_SEQ_def)

lemma show_int_inj [simp]: "show_int a = show_int b \<longleftrightarrow> a = b"
  by (metis parse_show_int option.inject)

lemma int_val_simps [simp]: "py_int (py_or (int_val n) (VInt 0)) = Inr (case n of Some k \<Rightarrow> k | None \<Rightarrow> 0)"
  by (cases n) (simp_all add: int_val_def)

lemma some_dict_val: "c \<noteq> Some [] \<Longrightarrow> some_dict (opt_dict_val c) = Inr c"
proof (cases c)
  case (Some d)
  assume "c \<noteq> Some []"
  then show ?thesis using Some by (cases d) (simp_all add: some_dict_def opt_dict_val_def py_dict_def)
qed (simp add: some_dict_def opt_dict_val_def)

lemma je_roundtrip: "je_context e \<noteq> Some [] \<Longrightarrow> je_from_dict r (je_to_dict e) = Inr e"
  by (simp add: je_from_dict_def je_to_dict_def some_dict_val py_or_payload py_or_text)

lemma get_rep:
  assumes "log_rep s l"
  shows "jn_get r k s = Inr (if 1 \<le> k \<and> k \<le> log_end l then Some (lg_entries l ! nat (k - 1)) else None)"
proof (cases "1 \<le> k \<and> k \<le> log_end l")
  case True
  then have "nat (k - 1) < length (lg_entries l)" by (auto simp: log_end_def)
  then show ?thesis using True rep_parts(2) [OF assms] je_roundtrip [OF rep_parts(4) [OF assms]] by (simp add: jn_get_def)
next
  case False
  then have "py_get s (JOURNAL_ENTRY_PREFIX @ show_int k) = VNone" using rep_parts(2) [OF assms, of k] by auto
  then show ?thesis using False by (auto simp: jn_get_def)
qed

subsection \<open>Reading the log\<close>

definition log_range :: "event_log \<Rightarrow> string list option \<Rightarrow> int \<Rightarrow> int \<Rightarrow> int \<Rightarrow> journal_entry list" where
  "log_range l types from until limit = take (nat limit) (filter (wanted types) (drop (nat from) (take (nat until) (lg_entries l))))"

declare jn_scan.simps [simp del]

lemma scan_rep:
  assumes rep: "log_rep s l"
  shows "jn_scan r types end limit pos out s =
    Inr (out @ take (nat limit - length out) (filter (wanted types) (drop (nat pos) (take (nat end) (lg_entries l)))))"
proof (induction "nat (end - pos)" arbitrary: pos out)
  case 0
  then have "drop (nat pos) (take (nat end) (lg_entries l)) = []" by simp
  then show ?case using 0 by (subst jn_scan.simps) simp
next
  case (Suc m)
  let ?rest = "\<lambda>p. filter (wanted types) (drop (nat p) (take (nat end) (lg_entries l)))"
  have IH: "jn_scan r types end limit (pos + 1) out s = Inr (out @ take (nat limit - length out) (?rest (pos + 1)))" for out
    using Suc.hyps(2) by (intro Suc.hyps(1)) simp
  show ?case
  proof (cases "pos < end \<and> int (length out) < limit")
    case False
    then have "nat limit - length out = 0" using Suc.hyps(2) by auto
    moreover have "jn_scan r types end limit pos out s = Inr out" using False by (subst jn_scan.simps) (simp only: if_False)
    ultimately show ?thesis by simp
  next
    case True
    then obtain k where k: "nat limit - length out = Suc k" by (cases "nat limit - length out") auto
    note step = jn_scan.simps [of r types "end" limit pos out s]
    show ?thesis
    proof (cases "1 \<le> pos + 1 \<and> pos + 1 \<le> log_end l")
      case no: False
      have "?rest (pos + 1) = ?rest pos"
      proof (cases "pos < 0")
        case True
        then have "nat (pos + 1) = nat pos" by simp
        then show ?thesis by simp
      next
        case False
        then have "length (lg_entries l) \<le> nat pos" using no by (simp add: log_end_def)
        then show ?thesis by simp
      qed
      moreover have "jn_get r (pos + 1) s = Inr None" using get_rep [OF rep, of r "pos + 1"] no by auto
      ultimately show ?thesis using True IH by (subst step) simp
    next
      case yes: True
      let ?e = "lg_entries l ! nat pos"
      have "nat pos < length (take (nat end) (lg_entries l))" using True yes by (auto simp: log_end_def)
      then have "drop (nat pos) (take (nat end) (lg_entries l)) = ?e # drop (nat (pos + 1)) (take (nat end) (lg_entries l))"
        using yes by (simp add: Cons_nth_drop_Suc [symmetric] nat_add_distrib)
      then have r: "?rest pos = (if wanted types ?e then ?e # ?rest (pos + 1) else ?rest (pos + 1))" by simp
      show ?thesis
      proof (cases "wanted types ?e")
        case w: True
        have "nat limit - length (out @ [?e]) = k" using k by simp
        then show ?thesis using True yes IH [of "out @ [?e]"] r w k by (subst step) (simp add: get_rep [OF rep])
      next
        case False
        then show ?thesis using True yes IH [of out] r by (subst step) (simp add: get_rep [OF rep])
      qed
    qed
  qed
qed

subsection \<open>Operations\<close>

datatype journal_op =
    JAppend journal_input
  | JConsume string int "string list option" bool
  | JCommit string int
  | JRead int int "string list option"
  | JRedrive int "int option" "string list option" int
  | JOffset string
  | JCompacted string

datatype journal_ans = AOffset int | AEntries "journal_entry list" | ADone | AFound "int option" | ARaised exc

definition answer :: "('a \<Rightarrow> journal_ans) \<Rightarrow> 'a result \<Rightarrow> journal_ans" where
  "answer f x = (case x of Inl e \<Rightarrow> ARaised e | Inr a \<Rightarrow> f a)"

fun journal_do :: "(pyval \<Rightarrow> string) \<Rightarrow> journal_op \<Rightarrow> pydict \<Rightarrow> journal_ans \<times> pydict" where
  "journal_do r (JAppend a) s = map_prod (answer AOffset) id (jn_append a s)"
| "journal_do r (JConsume c limit types auto) s = map_prod (answer AEntries) id (consume r c limit types auto s)"
| "journal_do r (JCommit c n) s = map_prod (answer (\<lambda>_. ADone)) id (commit_offset c n s)"
| "journal_do r (JRead off limit types) s = (answer AEntries (read_after r off limit types s), s)"
| "journal_do r (JRedrive a b types limit) s = (answer AEntries (redrive r a b types limit s), s)"
| "journal_do r (JOffset c) s = (AOffset (consumer_offset c s), s)"
| "journal_do r (JCompacted k) s = (AFound (compacted_offset k s), s)"

definition lg_offset :: "event_log \<Rightarrow> string \<Rightarrow> int" where
  "lg_offset l c = (if py_strip c = [] then 0 else case lg_offsets l (py_strip c) of Some n \<Rightarrow> n | None \<Rightarrow> 0)"

definition lg_commit :: "string \<Rightarrow> int \<Rightarrow> event_log \<Rightarrow> journal_ans \<times> event_log" where
  "lg_commit c n l = (if py_strip c = [] then (ARaised (Exc PyValueError ''consumer name required''), l)
     else (ADone, l\<lparr>lg_offsets := (lg_offsets l)(py_strip c \<mapsto> n)\<rparr>))"

fun log_do :: "journal_op \<Rightarrow> event_log \<Rightarrow> journal_ans \<times> event_log" where
  "log_do (JAppend a) l = (AOffset (log_end l + 1), l\<lparr>lg_entries := lg_entries l @ [new_entry a (log_end l + 1)],
     lg_keys := (case ji_key a of Some (c # cs) \<Rightarrow> (lg_keys l)(c # cs \<mapsto> log_end l + 1) | _ \<Rightarrow> lg_keys l)\<rparr>)"
| "log_do (JConsume c limit types auto) l =
     (let batch = log_range l types (lg_offset l c) (log_end l) limit in
      if auto \<and> batch \<noteq> []
      then (case lg_commit c (je_offset (List.last batch)) l of (ADone, l1) \<Rightarrow> (AEntries batch, l1) | res \<Rightarrow> res)
      else (AEntries batch, l))"
| "log_do (JCommit c n) l = lg_commit c n l"
| "log_do (JRead off limit types) l = (AEntries (log_range l types off (log_end l) limit), l)"
| "log_do (JRedrive a b types limit) l = (AEntries (log_range l types a (case b of Some n \<Rightarrow> n | None \<Rightarrow> log_end l) limit), l)"
| "log_do (JOffset c) l = (AOffset (lg_offset l c), l)"
| "log_do (JCompacted k) l = (AFound (lg_keys l k), l)"

lemma read_rep: "log_rep s l \<Longrightarrow> read_after r off limit types s = Inr (log_range l types off (log_end l) limit)"
  by (simp add: read_after_def rep_parts(1) scan_rep log_range_def)

lemma redrive_rep: "log_rep s l \<Longrightarrow> redrive r a b types limit s = Inr (log_range l types a (case b of Some n \<Rightarrow> n | None \<Rightarrow> log_end l) limit)"
  by (cases b) (simp_all add: redrive_def rep_parts(1) scan_rep log_range_def max_def)

lemma offset_rep: "log_rep s l \<Longrightarrow> consumer_offset c s = lg_offset l c"
  by (simp add: consumer_offset_def Let_def rep_parts(5) lg_offset_def split: option.split)

lemma compacted_rep: "log_rep s l \<Longrightarrow> compacted_offset k s = lg_keys l k"
  by (simp add: compacted_offset_def rep_parts(6) int_val_def split: option.split)

lemma new_entry_ok: "je_offset (new_entry a n) = n" "je_context (new_entry a n) \<noteq> Some []"
  by (auto simp: new_entry_def)

lemma append_rep:
  assumes rep: "log_rep s l"
  shows "jn_append a s = (Inr (log_end l + 1), append_writes a (log_end l + 1) s) \<and> log_rep (append_writes a (log_end l + 1) s) (snd (log_do (JAppend a) l))"
proof -
  let ?n = "log_end l + 1"
  let ?s = "append_writes a ?n s" and ?l = "snd (log_do (JAppend a) l)"
  have seq: "latest_offset ?s = Inr ?n"
    by (auto simp: append_writes_def Let_def latest_offset_def py_or_VInt split: option.split list.split)
  have len: "log_end ?l = ?n" by (simp add: log_end_def)
  have entry: "py_get ?s (JOURNAL_ENTRY_PREFIX @ show_int k) = (if k = ?n then VDict (je_to_dict (new_entry a ?n)) else py_get s (JOURNAL_ENTRY_PREFIX @ show_int k))" for k
    by (auto simp: append_writes_def Let_def split: option.split list.split)
  have offs: "py_get ?s (JOURNAL_OFFSET_PREFIX @ c) = py_get s (JOURNAL_OFFSET_PREFIX @ c)" for c
    by (auto simp: append_writes_def Let_def split: option.split list.split)
  have keys: "py_get ?s (JOURNAL_COMPACT_PREFIX @ k) = int_val (lg_keys ?l k)" for k
    using rep_parts(6) [OF rep, of k] by (auto simp: append_writes_def Let_def int_val_def split: option.split list.split)
  have pos: "0 \<le> log_end l" by (simp add: log_end_def)
  have entries: "py_get ?s (JOURNAL_ENTRY_PREFIX @ show_int k) = (if 1 \<le> k \<and> k \<le> log_end ?l then VDict (je_to_dict (lg_entries ?l ! nat (k - 1))) else VNone)" for k
  proof (cases "k = ?n")
    case True
    have "lg_entries ?l ! nat (log_end l) = new_entry a ?n" by (simp add: log_end_def)
    then show ?thesis using pos True entry [of ?n] unfolding len by simp
  next
    case False
    then have "1 \<le> k \<and> k \<le> log_end l \<Longrightarrow> nat (k - 1) < length (lg_entries l)" by (auto simp: log_end_def)
    then show ?thesis using False rep_parts(2) [OF rep, of k] unfolding len by (auto simp: entry nth_append)
  qed
  have "log_rep ?s ?l"
    unfolding log_rep_def
  proof (intro conjI allI impI)
    show "latest_offset ?s = Inr (log_end ?l)" using seq len by simp
    show "py_get ?s (JOURNAL_OFFSET_PREFIX @ c) = int_val (lg_offsets ?l c)" for c using offs rep_parts(5) [OF rep] by simp
    show "je_offset (lg_entries ?l ! k) = int k + 1" if "k < length (lg_entries ?l)" for k
      using that rep_parts(3) [OF rep, of k] by (auto simp: nth_append new_entry_ok log_end_def less_Suc_eq)
    show "je_context (lg_entries ?l ! k) \<noteq> Some []" if "k < length (lg_entries ?l)" for k
      using that rep_parts(4) [OF rep, of k] by (auto simp: nth_append new_entry_ok less_Suc_eq)
  qed (rule entries keys)+
  then show ?thesis by (simp add: jn_append_def rep_parts(1) [OF rep])
qed

lemma commit_rep:
  assumes rep: "log_rep s l"
  shows "\<exists>s'. map_prod (answer (\<lambda>_. ADone)) id (commit_offset c n s) = (fst (lg_commit c n l), s') \<and> log_rep s' (snd (lg_commit c n l))"
proof (cases "py_strip c = []")
  case True
  then show ?thesis using rep by (simp add: commit_offset_def lg_commit_def answer_def)
next
  case False
  have "log_rep (dict_set (JOURNAL_OFFSET_PREFIX @ py_strip c) (VInt n) s) (l\<lparr>lg_offsets := (lg_offsets l)(py_strip c \<mapsto> n)\<rparr>)"
    using rep unfolding log_rep_def by (simp add: latest_offset_def log_end_def int_val_def)
  then show ?thesis using False by (simp add: commit_offset_def lg_commit_def answer_def Let_def)
qed

lemma consume_rep:
  assumes rep: "log_rep s l"
  shows "\<exists>s'. journal_do r (JConsume c limit types auto) s = (fst (log_do (JConsume c limit types auto) l), s')
    \<and> log_rep s' (snd (log_do (JConsume c limit types auto) l))"
proof -
  let ?b = "log_range l types (lg_offset l c) (log_end l) limit"
  have run: "consume r c limit types auto s = (if auto \<and> ?b \<noteq> []
      then (case commit_offset c (je_offset (List.last ?b)) s of (Inl x, s1) \<Rightarrow> (Inl x, s1) | (Inr _, s1) \<Rightarrow> (Inr ?b, s1)) else (Inr ?b, s))"
    by (simp add: consume_def offset_rep [OF rep] read_rep [OF rep])
  show ?thesis
  proof (cases "auto \<and> ?b \<noteq> []")
    case False
    show ?thesis unfolding journal_do.simps log_do.simps run Let_def if_not_P [OF False] using rep by (simp add: answer_def)
  next
    case True
    show ?thesis unfolding journal_do.simps log_do.simps run Let_def if_P [OF True]
      using commit_rep [OF rep, of c "je_offset (List.last ?b)"] rep
      by (cases "py_strip c = []") (auto simp: answer_def Let_def commit_offset_def lg_commit_def)
  qed
qed

lemma journal_step:
  assumes rep: "log_rep s l"
  shows "\<exists>s'. journal_do r op s = (fst (log_do op l), s') \<and> log_rep s' (snd (log_do op l))"
proof (cases op)
  case (JAppend a)
  then show ?thesis using append_rep [OF rep, of a] by (simp add: answer_def)
next
  case (JCommit c n)
  then show ?thesis using commit_rep [OF rep, of c n] by simp
next
  case (JConsume c limit types auto)
  then show ?thesis using consume_rep [OF rep] by blast
next
  case (JCompacted k)
  then show ?thesis using rep by (simp add: compacted_rep)
qed (use rep in \<open>simp_all add: read_rep redrive_rep offset_rep answer_def\<close>)

subsection \<open>Runs\<close>

fun journal_run :: "(pyval \<Rightarrow> string) \<Rightarrow> journal_op list \<Rightarrow> pydict \<Rightarrow> journal_ans list \<times> pydict" where
  "journal_run r [] s = ([], s)"
| "journal_run r (op # ops) s = (case journal_do r op s of (a, s1) \<Rightarrow> (case journal_run r ops s1 of (as, s2) \<Rightarrow> (a # as, s2)))"

fun log_run :: "journal_op list \<Rightarrow> event_log \<Rightarrow> journal_ans list \<times> event_log" where
  "log_run [] l = ([], l)"
| "log_run (op # ops) l = (case log_do op l of (a, l1) \<Rightarrow> (case log_run ops l1 of (as, l2) \<Rightarrow> (a # as, l2)))"

lemma empty_log_rep: "log_rep [] empty_log"
  by (simp add: log_rep_def empty_log_def latest_offset_def log_end_def int_val_def py_or_def get_default_def)

lemma journal_run_rep:
  "log_rep s l \<Longrightarrow> \<exists>s'. journal_run r ops s = (fst (log_run ops l), s') \<and> log_rep s' (snd (log_run ops l))"
proof (induction ops arbitrary: s l)
  case (Cons op ops)
  obtain s1 where s1: "journal_do r op s = (fst (log_do op l), s1)" "log_rep s1 (snd (log_do op l))"
    using journal_step [OF Cons.prems] by blast
  from Cons.IH [OF s1(2)] s1(1) show ?case by (auto split: prod.splits)
qed simp

text \<open>
  C8. Every sequence of appends, reads, redrives, consumptions and commits on an empty journal answers exactly as an
  append-only log with offsets per consumer does, and leaves a journal that stands for that log.
\<close>

theorem journal_refines_log:
  "\<exists>s. journal_run r ops [] = (fst (log_run ops empty_log), s) \<and> log_rep s (snd (log_run ops empty_log))"
  by (rule journal_run_rep [OF empty_log_rep])

subsection \<open>Consumers\<close>

definition same_consumer :: "string \<Rightarrow> string \<Rightarrow> bool" where
  "same_consumer c c' = (py_strip c = py_strip c')"

text \<open>The consumer is only used to consume, with one choice of types, and commits with every batch.\<close>

fun well_used :: "string \<Rightarrow> string list option \<Rightarrow> journal_op \<Rightarrow> bool" where
  "well_used c types (JConsume c' limit types' auto) = (same_consumer c c' \<longrightarrow> types' = types \<and> auto)"
| "well_used c types (JCommit c' n) = (\<not> same_consumer c c')"
| "well_used c types op = True"

fun seen_by :: "string \<Rightarrow> journal_op \<Rightarrow> journal_ans \<Rightarrow> journal_entry list" where
  "seen_by c (JConsume c' limit types auto) (AEntries es) = (if same_consumer c c' then es else [])"
| "seen_by c op a = []"

definition log_ok :: "event_log \<Rightarrow> bool" where
  "log_ok l = (\<forall>i < length (lg_entries l). je_offset (lg_entries l ! i) = int i + 1)"

lemma commit_entries: "lg_entries (snd (lg_commit c n l)) = lg_entries l"
  by (simp add: lg_commit_def)

lemma consume_entries: "lg_entries (snd (log_do (JConsume c limit types auto) l)) = lg_entries l"
  by (simp add: Let_def lg_commit_def)

lemma log_do_grows: "\<exists>es. lg_entries (snd (log_do op l)) = lg_entries l @ es"
  by (cases op) (simp_all add: commit_entries consume_entries del: log_do.simps(2))

lemma log_run_grows: "\<exists>es. lg_entries (snd (log_run ops l)) = lg_entries l @ es"
proof (induction ops arbitrary: l)
  case (Cons op ops)
  obtain es where es: "lg_entries (snd (log_do op l)) = lg_entries l @ es" using log_do_grows by blast
  obtain fs where "lg_entries (snd (log_run ops (snd (log_do op l)))) = lg_entries (snd (log_do op l)) @ fs" using Cons.IH by blast
  then show ?case using es by (simp add: case_prod_beta)
qed simp

lemma log_do_ok: "log_ok l \<Longrightarrow> log_ok (snd (log_do op l))"
proof (cases op)
  case (JAppend a)
  assume "log_ok l"
  then show ?thesis using JAppend by (auto simp: log_ok_def nth_append new_entry_ok log_end_def less_Suc_eq)
qed (simp_all add: log_ok_def commit_entries consume_entries del: log_do.simps(2))

lemma take_filter_split:
  "take k (filter P xs) \<noteq> [] \<Longrightarrow> \<exists>j < length xs. filter P (take (Suc j) xs) = take k (filter P xs) \<and> xs ! j = List.last (take k (filter P xs))"
proof (induction xs arbitrary: k)
  case (Cons x xs)
  show ?case
  proof (cases "P x")
    case False
    then show ?thesis using Cons.IH [of k] Cons.prems by force
  next
    case True
    then obtain m where m: "k = Suc m" using Cons.prems by (cases k) auto
    show ?thesis
    proof (cases "take m (filter P xs) = []")
      case e: True
      then show ?thesis using True m by (intro exI [of _ 0]) simp
    next
      case False
      from Cons.IH [OF this] obtain j where "j < length xs" "filter P (take (Suc j) xs) = take m (filter P xs)" "xs ! j = List.last (take m (filter P xs))" by blast
      then show ?thesis using True m False by (intro exI [of _ "Suc j"]) simp
    qed
  qed
qed simp

lemma offset_other: "\<not> same_consumer c c' \<Longrightarrow> lg_offset (l\<lparr>lg_offsets := (lg_offsets l)(py_strip c' \<mapsto> n)\<rparr>) c = lg_offset l c"
  by (simp add: lg_offset_def same_consumer_def)

text \<open>One operation: what the consumer sees is what lies between its offsets.\<close>

definition in_log :: "string \<Rightarrow> event_log \<Rightarrow> bool" where
  "in_log c l = (0 \<le> lg_offset l c \<and> lg_offset l c \<le> log_end l)"

definition ahead :: "string \<Rightarrow> string list option \<Rightarrow> event_log \<Rightarrow> journal_entry list \<Rightarrow> journal_entry list" where
  "ahead c types l es = filter (wanted types) (drop (nat (lg_offset l c)) es)"

lemma step_sees:
  assumes ok: "log_ok l" and c: "py_strip c \<noteq> []" "in_log c l" "well_used c types op"
    and es: "lg_entries (snd (log_do op l)) @ ys = es"
  shows "seen_by c op (fst (log_do op l)) @ ahead c types (snd (log_do op l)) es = ahead c types l es \<and> in_log c (snd (log_do op l))"
proof (cases op)
  case (JAppend a)
  then show ?thesis using c by (simp add: ahead_def in_log_def lg_offset_def log_end_def)
next
  case (JCommit c' n)
  then have "\<not> same_consumer c c'" using c(3) by simp
  then show ?thesis using JCommit c by (simp add: lg_commit_def ahead_def in_log_def offset_other log_end_def)
next
  case (JConsume c' limit types' auto)
  let ?b = "log_range l types' (lg_offset l c') (log_end l) limit"
  show ?thesis
  proof (cases "same_consumer c c' \<and> ?b \<noteq> []")
    case False
    have run: "snd (log_do op l) = l \<or> (\<not> same_consumer c c' \<and> (\<exists>n. snd (log_do op l) = l\<lparr>lg_offsets := (lg_offsets l)(py_strip c' \<mapsto> n)\<rparr>))"
      using False JConsume by (auto simp: Let_def lg_commit_def)
    have "lg_offset (snd (log_do op l)) c = lg_offset l c" using run by (auto simp: offset_other)
    moreover have "log_end (snd (log_do op l)) = log_end l" using run by (auto simp: log_end_def)
    moreover have "seen_by c op (fst (log_do op l)) = []" using False JConsume by (auto simp: Let_def lg_commit_def)
    ultimately show ?thesis using c(2) by (simp add: ahead_def in_log_def)
  next
    case True
    let ?o = "nat (lg_offset l c)"
    have strip: "py_strip c' = py_strip c" using True by (simp add: same_consumer_def)
    have same: "lg_offset l c' = lg_offset l c" "types' = types" auto
      using True c(3) JConsume strip by (simp_all add: lg_offset_def)
    note same = same strip
    have b: "?b = take (nat limit) (filter (wanted types) (drop ?o (lg_entries l)))" by (simp add: log_range_def same log_end_def)
    obtain j where j: "j < length (drop ?o (lg_entries l))" "filter (wanted types) (take (Suc j) (drop ?o (lg_entries l))) = ?b"
      "drop ?o (lg_entries l) ! j = List.last ?b"
      using take_filter_split [of "nat limit" "wanted types" "drop ?o (lg_entries l)"] True b by auto
    have "je_offset (List.last ?b) = int (?o + j) + 1" using ok j(1,3) by (simp add: log_ok_def flip: j(3))
    then have run: "log_do op l = (AEntries ?b, l\<lparr>lg_offsets := (lg_offsets l)(py_strip c \<mapsto> int (?o + j) + 1)\<rparr>)"
      using True JConsume same c(1) by (simp add: Let_def lg_commit_def)
    then have off: "lg_offset (snd (log_do op l)) c = int (?o + j) + 1" using c(1) by (simp add: lg_offset_def)
    have es': "es = lg_entries l @ ys" using es run by simp
    have split: "drop ?o es = take (Suc j) (drop ?o es) @ drop (?o + Suc j) es" by (metis append_take_drop_id drop_drop add.commute)
    have "take (Suc j) (drop ?o es) = take (Suc j) (drop ?o (lg_entries l))" using j(1) by (simp add: es')
    then have "ahead c types l es = ?b @ ahead c types (snd (log_do op l)) es"
      unfolding ahead_def off by (subst split) (simp add: j(2) nat_add_distrib add.commute)
    moreover have "seen_by c op (fst (log_do op l)) = ?b" using run True JConsume by simp
    moreover have "log_end (snd (log_do op l)) = log_end l" using run by (simp add: log_end_def)
    moreover have "?o + j < length (lg_entries l)" using j(1) by simp
    then have "int (?o + j) + 1 \<le> log_end l" unfolding log_end_def by linarith
    moreover have "0 \<le> int (?o + j) + 1" by simp
    ultimately have "in_log c (snd (log_do op l))" by (simp only: in_log_def off)
    moreover note \<open>ahead c types l es = ?b @ ahead c types (snd (log_do op l)) es\<close> \<open>seen_by c op (fst (log_do op l)) = ?b\<close>
    ultimately show ?thesis by simp
  qed
qed (use c in \<open>simp_all add: ahead_def in_log_def\<close>)

lemma run_sees:
  assumes c: "py_strip c \<noteq> []"
  shows "log_ok l \<Longrightarrow> in_log c l \<Longrightarrow> \<forall>op \<in> set ops. well_used c types op \<Longrightarrow> es = lg_entries (snd (log_run ops l)) \<Longrightarrow>
    concat (map2 (seen_by c) ops (fst (log_run ops l))) @ ahead c types (snd (log_run ops l)) es = ahead c types l es
    \<and> in_log c (snd (log_run ops l))"
proof (induction ops arbitrary: l)
  case (Cons op ops)
  let ?l1 = "snd (log_do op l)"
  have run: "log_run (op # ops) l = (fst (log_do op l) # fst (log_run ops ?l1), snd (log_run ops ?l1))" by (simp add: case_prod_beta)
  obtain ys where ys: "es = lg_entries ?l1 @ ys" using log_run_grows [of ops ?l1] Cons.prems(4) run by auto
  have one: "seen_by c op (fst (log_do op l)) @ ahead c types ?l1 es = ahead c types l es" "in_log c ?l1"
    using step_sees [OF Cons.prems(1) c Cons.prems(2) _ ys [symmetric]] Cons.prems(3) by auto
  have "es = lg_entries (snd (log_run ops ?l1))" using Cons.prems(4) run by simp
  from Cons.IH [OF log_do_ok [OF Cons.prems(1)] one(2) _ this] Cons.prems(3)
  have rest: "concat (map2 (seen_by c) ops (fst (log_run ops ?l1))) @ ahead c types (snd (log_run ops ?l1)) es = ahead c types ?l1 es"
    "in_log c (snd (log_run ops ?l1))" by simp_all
  show ?case unfolding run fst_conv snd_conv using one(1) rest by simp
qed simp

text \<open>
  C9. A consumer that is only read with automatic commits and one choice of event types receives every wanted entry
  of the journal exactly once and in order, however its reads interleave with appends and with other consumers:
  what it has received, followed by what the journal still holds for it, is everything wanted in the journal.
\<close>

theorem consumers_see_each_event_once:
  assumes "py_strip c \<noteq> []" "\<forall>op \<in> set ops. well_used c types op" "journal_run r ops [] = (answers, s)"
  shows "\<exists>n rest everything. latest_offset s = Inr n \<and> read_after r (consumer_offset c s) n types s = Inr rest
    \<and> read_after r 0 n types s = Inr everything \<and> concat (map2 (seen_by c) ops answers) @ rest = everything"
proof -
  let ?l = "snd (log_run ops empty_log)"
  have run: "answers = fst (log_run ops empty_log)" and rep: "log_rep s ?l"
    using journal_run_rep [OF empty_log_rep, of r ops] assms(3) by auto
  have start: "log_ok empty_log" "in_log c empty_log" "ahead c types empty_log es = filter (wanted types) es" for es
    by (simp_all add: log_ok_def in_log_def ahead_def empty_log_def lg_offset_def log_end_def)
  have all: "concat (map2 (seen_by c) ops answers) @ ahead c types ?l (lg_entries ?l) = filter (wanted types) (lg_entries ?l)"
    using run_sees [OF assms(1) start(1,2) assms(2) refl] start(3) run by simp
  have range: "log_range ?l types from (log_end ?l) (log_end ?l) = filter (wanted types) (drop (nat from) (lg_entries ?l))" for "from"
  proof -
    have "length (filter (wanted types) (drop (nat from) (lg_entries ?l))) \<le> length (lg_entries ?l)"
      by (rule order_trans [OF length_filter_le]) simp
    then show ?thesis by (simp add: log_range_def log_end_def)
  qed
  show ?thesis
  proof (intro exI conjI)
    show "latest_offset s = Inr (log_end ?l)" by (rule rep_parts(1) [OF rep])
    show "read_after r (consumer_offset c s) (log_end ?l) types s = Inr (ahead c types ?l (lg_entries ?l))"
      by (simp add: read_rep [OF rep] range offset_rep [OF rep] ahead_def)
    show "read_after r 0 (log_end ?l) types s = Inr (filter (wanted types) (lg_entries ?l))" by (simp add: read_rep [OF rep] range)
  qed (rule all)
qed

text \<open>
  Two appends whose reads of the sequence number both come before the writes are answered the same offset, and the
  event of the one that writes first is lost.
\<close>

theorem append_race_loses_an_event:
  assumes "jn_append a s = (Inr m, sa)" "jn_append b s = (Inr k, sb)" "sa = append_writes a m s"
  shows "m = k \<and> latest_offset (append_writes b k sa) = Inr m \<and> jn_get r m (append_writes b k sa) = Inr (Some (new_entry b m))
    \<and> (\<forall>j. j \<noteq> m \<longrightarrow> jn_get r j (append_writes b k sa) = jn_get r j s)"
proof -
  have same: "m = k" using assms(1,2) by (auto simp: jn_append_def split: sum.splits)
  have entry: "py_get (append_writes x n t) (JOURNAL_ENTRY_PREFIX @ show_int j)
      = (if j = n then VDict (je_to_dict (new_entry x n)) else py_get t (JOURNAL_ENTRY_PREFIX @ show_int j))" for x n t j
    by (auto simp: append_writes_def Let_def split: option.split list.split)
  have "latest_offset (append_writes b m sa) = Inr m"
    by (auto simp: append_writes_def Let_def latest_offset_def py_or_VInt split: option.split list.split)
  then show ?thesis using same
    by (simp add: jn_get_def entry assms(3) je_roundtrip new_entry_ok)
qed

subsection \<open>Witnesses\<close>

definition demo_input :: "string \<Rightarrow> journal_input" where
  "demo_input t = \<lparr>ji_type = t, ji_payload = None, ji_context = None, ji_event_id = Some t, ji_key = None, ji_now = ''n'', ji_fresh = ''f''\<rparr>"

definition demo_journal :: "journal_op list" where
  "demo_journal = [JAppend (demo_input ''x''), JConsume '' c '' 5 (Some [''x'']) True, JAppend (demo_input ''y''), JAppend (demo_input ''x''),
     JCommit ''d'' 3, JConsume ''c'' 1 (Some [''x'']) True, JAppend (demo_input ''x'')]"

lemma consumers_see_each_event_once_witness:
  "\<exists>answers s n rest everything. journal_run (\<lambda>_. []) demo_journal [] = (answers, s) \<and> latest_offset s = Inr n
    \<and> read_after (\<lambda>_. []) (consumer_offset ''c'' s) n (Some [''x'']) s = Inr rest
    \<and> read_after (\<lambda>_. []) 0 n (Some [''x'']) s = Inr everything \<and> concat (map2 (seen_by ''c'') demo_journal answers) @ rest = everything"
proof -
  obtain answers s where run: "journal_run (\<lambda>_. []) demo_journal [] = (answers, s)" by (cases "journal_run (\<lambda>_. []) demo_journal []")
  have "py_strip ''c'' \<noteq> []" "\<forall>op \<in> set demo_journal. well_used ''c'' (Some [''x'']) op" by code_simp+
  from consumers_see_each_event_once [OF this run] run show ?thesis by blast
qed

lemma append_race_loses_an_event_witness:
  "\<exists>m sa k sb. jn_append (demo_input ''x'') [] = (Inr m, sa) \<and> jn_append (demo_input ''y'') [] = (Inr k, sb)
    \<and> jn_get (\<lambda>_. []) m (append_writes (demo_input ''y'') k sa) = Inr (Some (new_entry (demo_input ''y'') m))"
proof -
  have run: "jn_append (demo_input t) [] = (Inr 1, append_writes (demo_input t) 1 [])" for t
    by (simp add: jn_append_def latest_offset_def py_or_def get_default_def)
  from append_race_loses_an_event [OF run run refl] show ?thesis using run by blast
qed

end
