(* ===== verification/Compensation.thy ===== *)
theory Compensation
  imports Outbox
begin

text \<open>
  Undo handlers for failed commits and failed resource calls (\<open>palm/common/compensation\<close>). Handlers and the bus act on
  a world of their own; what was emitted is also kept in a log.
\<close>

subsection \<open>Contexts and results\<close>

record comp_context =
  co_trigger :: string
  co_payload :: pydict
  co_hook :: "string option"
  co_resource :: "string option"
  co_wizard :: "string option"
  co_error :: "string option"
  co_instance :: "string option"
  co_job :: "string option"

record comp_result =
  cr_ok :: bool
  cr_data :: pyval
  cr_error :: "string option"

definition comp_success :: "pyval \<Rightarrow> comp_result" where
  "comp_success v = \<lparr>cr_ok = True, cr_data = v, cr_error = None\<rparr>"

definition comp_failure :: "string \<Rightarrow> comp_result" where
  "comp_failure m = \<lparr>cr_ok = False, cr_data = VNone, cr_error = Some m\<rparr>"

definition COMMIT_FAILED :: string where "COMMIT_FAILED = ''wizard.commit.failed''"
definition BACKTRACK_EXECUTED :: string where "BACKTRACK_EXECUTED = ''wizard.backtrack.executed''"
definition RESOURCE_FAILED :: string where "RESOURCE_FAILED = ''resource.failed''"
definition COMP_EXECUTED :: string where "COMP_EXECUTED = ''compensation.executed''"
definition COMP_FAILED :: string where "COMP_FAILED = ''compensation.failed''"
definition COMP_SKIPPED :: string where "COMP_SKIPPED = ''compensation.skipped''"

definition comp_context_of :: "(pyval \<Rightarrow> string) \<Rightarrow> event \<Rightarrow> comp_context" where
  "comp_context_of r ev =
     (let p = enriched_payload ev;
          fill = (\<lambda>k f. case ev_context ev of None \<Rightarrow> py_get p k | Some c \<Rightarrow> py_or (py_get p k) (opt_str_val (f c)))
      in \<lparr>co_trigger = ev_type ev, co_payload = p, co_hook = text_if_set r p ''hook'',
           co_resource = (let v = py_or (py_get p ''compensation_key'') (py_get p ''resource_ref'') in if v = VNone then None else Some (py_str r v)),
           co_wizard = text_if_set r p ''wizard'', co_error = text_if_set r p ''error'',
           co_instance = (let v = fill ''instance_id'' ec_instance_id in if v = VNone then None else Some (py_str r v)),
           co_job = (let v = fill ''job_id'' ec_job_id in if v = VNone then None else Some (py_str r v))\<rparr>)"

text \<open>
  The set of seen keys holds texts; a key that is not a text is looked up as it is and never found, and one that
  cannot be hashed raises.
\<close>

fun invocation_refs :: "(pyval \<Rightarrow> string) \<Rightarrow> string list \<Rightarrow> pyval list \<Rightarrow> string list result" where
  "invocation_refs r seen [] = Inr []"
| "invocation_refs r seen (VDict d # vs) =
     (let key = py_or (py_get d ''compensation_key'') (py_get d ''resource_ref''); add = attempt (invocation_refs r (py_str r key # seen) vs) (\<lambda>ks. Inr (py_str r key # ks)) in
      if \<not> truthy key then invocation_refs r seen vs
      else case key of
        VStr t \<Rightarrow> if t \<in> set seen then invocation_refs r seen vs else add
      | VList _ \<Rightarrow> Inl (Exc PyTypeError (''unhashable type: '' @ quoted (type_name key)))
      | VDict _ \<Rightarrow> Inl (Exc PyTypeError (''unhashable type: '' @ quoted (type_name key)))
      | _ \<Rightarrow> add)"
| "invocation_refs r seen (v # vs) = invocation_refs r seen vs"

definition resource_refs :: "(pyval \<Rightarrow> string) \<Rightarrow> pydict \<Rightarrow> string list result" where
  "resource_refs r p = (case py_get p ''resource_refs'' of
     VList xs \<Rightarrow> Inr (map (py_str r) (filter truthy xs))
   | _ \<Rightarrow> (case py_get p ''resource_invocations'' of VList xs \<Rightarrow> invocation_refs r [] xs | _ \<Rightarrow> Inr []))"

subsection \<open>The registry\<close>

type_synonym 'w comp_handler = "comp_context \<Rightarrow> 'w \<Rightarrow> comp_result result \<times> 'w"

text \<open>Handlers have an identity, since a handler is registered once per event type.\<close>

record 'w comp_registry =
  rg_hooks :: "(string, nat \<times> 'w comp_handler) dict"
  rg_resources :: "(string, nat \<times> 'w comp_handler) dict"
  rg_events :: "(string, (nat \<times> 'w comp_handler) list) dict"

definition new_comp_registry :: "'w comp_registry" where
  "new_comp_registry = \<lparr>rg_hooks = [], rg_resources = [], rg_events = []\<rparr>"

definition register_commit_hook :: "string \<Rightarrow> nat \<times> 'w comp_handler \<Rightarrow> 'w comp_registry \<Rightarrow> unit result \<times> 'w comp_registry" where
  "register_commit_hook k h g = (if k = [] then (Inl (Exc PyValueError ''Commit hook name must be non-empty''), g)
     else (Inr (), g\<lparr>rg_hooks := dict_set k h (rg_hooks g)\<rparr>))"

definition register_resource_hook :: "string \<Rightarrow> nat \<times> 'w comp_handler \<Rightarrow> 'w comp_registry \<Rightarrow> unit result \<times> 'w comp_registry" where
  "register_resource_hook k h g = (if k = [] then (Inl (Exc PyValueError ''Resource reference must be non-empty''), g)
     else (Inr (), g\<lparr>rg_resources := dict_set k h (rg_resources g)\<rparr>))"

definition handlers_for :: "string \<Rightarrow> 'w comp_registry \<Rightarrow> (nat \<times> 'w comp_handler) list" where
  "handlers_for t g = (case dict_get (rg_events g) t of Some hs \<Rightarrow> hs | None \<Rightarrow> [])"

definition register_event_hook :: "string \<Rightarrow> nat \<times> 'w comp_handler \<Rightarrow> 'w comp_registry \<Rightarrow> unit result \<times> 'w comp_registry" where
  "register_event_hook t h g = (if t = [] then (Inl (Exc PyValueError ''Event type must be non-empty''), g)
     else (Inr (), g\<lparr>rg_events := dict_set t (if fst h \<in> fst ` set (handlers_for t g) then handlers_for t g else handlers_for t g @ [h]) (rg_events g)\<rparr>))"

definition hook_names :: "'w comp_registry \<Rightarrow> string list" where
  "hook_names g = sort (map fst (rg_hooks g))"

definition resource_names :: "'w comp_registry \<Rightarrow> string list" where
  "resource_names g = sort (map fst (rg_resources g))"

text \<open>A handler that raises has failed; nothing escapes.\<close>

definition guarded :: "'w comp_handler \<Rightarrow> comp_context \<Rightarrow> 'w \<Rightarrow> comp_result \<times> 'w" where
  "guarded h ctx w = (case h ctx w of (Inl x, w1) \<Rightarrow> (comp_failure (exc_msg x), w1) | (Inr res, w1) \<Rightarrow> (res, w1))"

definition run_keyed :: "string \<Rightarrow> (string, nat \<times> 'w comp_handler) dict \<Rightarrow> string \<Rightarrow> comp_context \<Rightarrow> 'w \<Rightarrow> comp_result \<times> 'w" where
  "run_keyed what table k ctx w = (case dict_get table k of
     None \<Rightarrow> (comp_failure (''No compensation handler for '' @ what @ '' '' @ quoted k), w)
   | Some h \<Rightarrow> guarded (snd h) ctx w)"

definition run_commit_hook :: "'w comp_registry \<Rightarrow> string \<Rightarrow> comp_context \<Rightarrow> 'w \<Rightarrow> comp_result \<times> 'w" where
  "run_commit_hook g = run_keyed ''hook'' (rg_hooks g)"

definition run_resource_handler :: "'w comp_registry \<Rightarrow> string \<Rightarrow> comp_context \<Rightarrow> 'w \<Rightarrow> comp_result \<times> 'w" where
  "run_resource_handler g = run_keyed ''resource'' (rg_resources g)"

fun run_event_handlers :: "(nat \<times> 'w comp_handler) list \<Rightarrow> comp_context \<Rightarrow> 'w \<Rightarrow> comp_result list \<times> 'w" where
  "run_event_handlers [] ctx w = ([], w)"
| "run_event_handlers (h # hs) ctx w = (case guarded (snd h) ctx w of (res, w1) \<Rightarrow>
     (case run_event_handlers hs ctx w1 of (rs, w2) \<Rightarrow> (res # rs, w2)))"

subsection \<open>The coordinator\<close>

text \<open>The bus: what an emit does to the world, which may raise. The log is kept beside the world.\<close>

type_synonym 'w comp_bus = "string \<Rightarrow> pydict \<Rightarrow> 'w \<Rightarrow> unit result \<times> 'w"
type_synonym 'w comp_state = "'w \<times> (string \<times> pydict) list"
type_synonym ('a, 'w) comp_eff = "'w comp_state \<Rightarrow> 'a result \<times> 'w comp_state"

definition comp_emit :: "'w comp_bus \<Rightarrow> string \<Rightarrow> pydict \<Rightarrow> (unit, 'w) comp_eff" where
  "comp_emit bus t p s = (case bus t p (fst s) of (res, w1) \<Rightarrow> (res, w1, snd s @ [(t, p)]))"

definition and_then :: "('a, 'w) comp_eff \<Rightarrow> ('a \<Rightarrow> ('b, 'w) comp_eff) \<Rightarrow> ('b, 'w) comp_eff" where
  "and_then m f s = (case m s of (Inl x, s1) \<Rightarrow> (Inl x, s1) | (Inr a, s1) \<Rightarrow> f a s1)"

definition outcome_event :: "string \<Rightarrow> string \<Rightarrow> pydict \<Rightarrow> comp_result \<Rightarrow> string \<times> pydict" where
  "outcome_event trigger key extra res = (if cr_ok res then COMP_EXECUTED else COMP_FAILED,
     [(''trigger'', VStr trigger), (''key'', VStr key)] @ extra
     @ [if cr_ok res then (''data'', cr_data res) else (''error'', opt_str_val (cr_error res))])"

definition emit_outcome :: "'w comp_bus \<Rightarrow> string \<Rightarrow> string \<Rightarrow> comp_result \<Rightarrow> (unit, 'w) comp_eff" where
  "emit_outcome bus trigger key res = (case outcome_event trigger key [] res of (t, p) \<Rightarrow> comp_emit bus t p)"

definition emit_resource_outcome :: "'w comp_bus \<Rightarrow> string \<Rightarrow> string \<Rightarrow> comp_result \<Rightarrow> (unit, 'w) comp_eff" where
  "emit_resource_outcome bus trigger ref res =
     (case outcome_event trigger ref [(''resource_ref'', VStr ref)] res of (t, p) \<Rightarrow>
        if cr_ok res then and_then (comp_emit bus t p) (\<lambda>_. comp_emit bus ''resource.compensated''
            [(''resource_ref'', VStr ref), (''trigger'', VStr trigger), (''data'', cr_data res)])
        else comp_emit bus t p)"

definition emit_skipped :: "'w comp_bus \<Rightarrow> string \<Rightarrow> string \<times> string \<Rightarrow> (unit, 'w) comp_eff" where
  "emit_skipped bus trigger kv = comp_emit bus COMP_SKIPPED [(''trigger'', VStr trigger), (fst kv, VStr (snd kv)), (''reason'', VStr ''no_handler'')]"

text \<open>One resource reference: its handler, or the notice that there is none.\<close>

definition undo_resource :: "'w comp_bus \<Rightarrow> 'w comp_registry \<Rightarrow> comp_context \<Rightarrow> string \<Rightarrow> string \<Rightarrow> (comp_result list, 'w) comp_eff" where
  "undo_resource bus g ctx trigger ref s =
     (if \<not> dict_has (rg_resources g) ref then and_then (emit_skipped bus trigger (''key'', ref)) (\<lambda>_. Pair (Inr [])) s
      else case run_resource_handler g ref ctx (fst s) of (res, w1) \<Rightarrow>
        and_then (emit_resource_outcome bus trigger ref res) (\<lambda>_. Pair (Inr [res])) (w1, snd s))"

fun undo_resources :: "'w comp_bus \<Rightarrow> 'w comp_registry \<Rightarrow> comp_context \<Rightarrow> string \<Rightarrow> string list \<Rightarrow> (comp_result list, 'w) comp_eff" where
  "undo_resources bus g ctx trigger [] s = (Inr [], s)"
| "undo_resources bus g ctx trigger (ref # refs) s =
     and_then (undo_resource bus g ctx trigger ref) (\<lambda>rs. and_then (undo_resources bus g ctx trigger refs) (\<lambda>rs'. Pair (Inr (rs @ rs')))) s"

definition undo_commit :: "'w comp_bus \<Rightarrow> 'w comp_registry \<Rightarrow> comp_context \<Rightarrow> string \<Rightarrow> (comp_result list, 'w) comp_eff" where
  "undo_commit bus g ctx trigger s = (case co_hook ctx of
     Some (c # cs) \<Rightarrow>
       (if dict_has (rg_hooks g) (c # cs)
        then (case run_commit_hook g (c # cs) ctx (fst s) of (res, w1) \<Rightarrow>
          and_then (emit_outcome bus trigger (c # cs) res) (\<lambda>_. Pair (Inr [res])) (w1, snd s))
        else and_then (emit_skipped bus trigger (''hook'', c # cs)) (\<lambda>_. Pair (Inr [])) s)
   | _ \<Rightarrow> (Inr [], s))"

text \<open>
  The handlers of the other triggers all run before the first outcome is emitted.
\<close>

fun emit_outcomes :: "'w comp_bus \<Rightarrow> string \<Rightarrow> comp_result list \<Rightarrow> (unit, 'w) comp_eff" where
  "emit_outcomes bus trigger [] s = (Inr (), s)"
| "emit_outcomes bus trigger (res # rs) s = and_then (emit_outcome bus trigger trigger res) (\<lambda>_. emit_outcomes bus trigger rs) s"

definition comp_handle :: "(pyval \<Rightarrow> string) \<Rightarrow> 'w comp_bus \<Rightarrow> 'w comp_registry \<Rightarrow> event \<Rightarrow> (comp_result list, 'w) comp_eff" where
  "comp_handle r bus g ev s =
     (let ctx = comp_context_of r ev; trigger = ev_type ev in
      if trigger = COMMIT_FAILED
      then and_then (undo_commit bus g ctx trigger) (\<lambda>rs. case resource_refs r (co_payload ctx) of
               Inl x \<Rightarrow> Pair (Inl x)
             | Inr refs \<Rightarrow> and_then (undo_resources bus g ctx trigger refs) (\<lambda>rs'. Pair (Inr (rs @ rs')))) s
      else if trigger = RESOURCE_FAILED
      then (case co_resource ctx of Some (c # cs) \<Rightarrow> undo_resource bus g ctx trigger (c # cs) s | _ \<Rightarrow> (Inr [], s))
      else case run_event_handlers (handlers_for trigger g) ctx (fst s) of (rs, w1) \<Rightarrow>
        and_then (emit_outcomes bus trigger rs) (\<lambda>_. Pair (Inr rs)) (w1, snd s))"

text \<open>The subscription to every event.\<close>

definition comp_on_event :: "(pyval \<Rightarrow> string) \<Rightarrow> 'w comp_bus \<Rightarrow> 'w comp_registry \<Rightarrow> event \<Rightarrow> (unit, 'w) comp_eff" where
  "comp_on_event r bus g ev s = (if ev_type ev \<notin> {COMMIT_FAILED, BACKTRACK_EXECUTED, RESOURCE_FAILED} then (Inr (), s)
     else and_then (comp_handle r bus g ev) (\<lambda>_. Pair (Inr ())) s)"

end
