(* ===== verification/CompensationProps.thy ===== *)
theory CompensationProps
  imports Compensation
begin

text \<open>
  Every undo that a failed commit asks for is accounted for by exactly one event, as far as the bus lets the handling
  come: the bus and the handlers are arbitrary.
\<close>

definition outcome_types :: "string list" where
  "outcome_types = [COMP_EXECUTED, COMP_FAILED, COMP_SKIPPED]"

definition outcome_key :: "string \<times> pydict \<Rightarrow> pyval" where
  "outcome_key e = py_get (snd e) (if dict_has (snd e) ''key'' then ''key'' else ''hook'')"

definition outcomes :: "(string \<times> pydict) list \<Rightarrow> (string \<times> pydict) list" where
  "outcomes trail = filter (\<lambda>e. fst e \<in> set outcome_types) trail"

definition told_keys :: "(string \<times> pydict) list \<Rightarrow> pyval list" where
  "told_keys trail = map outcome_key (outcomes trail)"

definition told_answers :: "(string \<times> pydict) list \<Rightarrow> bool list" where
  "told_answers trail = map (\<lambda>e. fst e = COMP_EXECUTED) (filter (\<lambda>e. fst e \<noteq> COMP_SKIPPED) (outcomes trail))"

text \<open>An emission that raised is the last thing an undo has done.\<close>

definition broken :: "'w comp_bus \<Rightarrow> exc \<Rightarrow> (string \<times> pydict) list \<Rightarrow> 'w \<Rightarrow> bool" where
  "broken bus x evs w' \<longleftrightarrow> (\<exists>before t p v. evs = before @ [(t, p)] \<and> bus t p v = (Inl x, w'))"

text \<open>
  What an undo has added: when it returns, its events tell each of its keys and one answer per result; when it
  raises, the bus has raised and the keys before that emission, and its own, have been told.
\<close>

definition accounts :: "'w comp_bus \<Rightarrow> string list \<Rightarrow> comp_result list result \<Rightarrow> (string \<times> pydict) list \<Rightarrow> 'w \<Rightarrow> bool" where
  "accounts bus keys res evs w' = (case res of
     Inr rs \<Rightarrow> told_keys evs = map VStr keys \<and> told_answers evs = map cr_ok rs
   | Inl x \<Rightarrow> broken bus x evs w' \<and> (\<exists>n. told_keys evs = map VStr (take n keys)))"

lemma told_append: "told_keys (es @ es') = told_keys es @ told_keys es'" "told_answers (es @ es') = told_answers es @ told_answers es'"
  by (simp_all add: told_keys_def told_answers_def outcomes_def)

lemma accounts_Nil: "accounts bus [] (Inr []) [] w"
  by (simp add: accounts_def told_keys_def told_answers_def outcomes_def)

lemma accounts_append:
  assumes "accounts bus ks (Inr rs) es w" and "accounts bus ks' res es' w'"
  shows "accounts bus (ks @ ks') (attempt res (\<lambda>rs'. Inr (rs @ rs'))) (es @ es') w'"
proof (cases res)
  case (Inl x)
  then obtain n before t p v where n: "told_keys es' = map VStr (take n ks')" "es' = before @ [(t, p)]" "bus t p v = (Inl x, w')"
    using assms(2) by (auto simp: accounts_def broken_def)
  have "\<exists>m. told_keys (es @ es') = map VStr (take m (ks @ ks'))"
    by (rule exI [of _ "length ks + n"]) (use assms(1) n(1) in \<open>simp add: accounts_def told_append\<close>)
  moreover have "broken bus x (es @ es') w'" unfolding broken_def using n(2,3) by (intro exI [of _ "es @ before"]) auto
  ultimately show ?thesis using Inl by (simp add: accounts_def)
qed (use assms in \<open>simp add: accounts_def told_append\<close>)

lemma accounts_more: "accounts bus ks (Inl x) es w \<Longrightarrow> accounts bus (ks @ ks') (Inl x) es w"
proof -
  assume "accounts bus ks (Inl x) es w"
  then obtain n where n: "broken bus x es w" "told_keys es = map VStr (take n ks)" by (auto simp: accounts_def)
  have "take n ks = take (min n (length ks)) (ks @ ks')" by (simp add: min_def)
  with n show ?thesis by (simp only: accounts_def sum.case) metis
qed

lemma event_names [simp]: "COMP_EXECUTED \<noteq> COMP_SKIPPED" "COMP_FAILED \<noteq> COMP_SKIPPED" "COMP_FAILED \<noteq> COMP_EXECUTED"
  "''resource.compensated'' \<notin> set outcome_types" "COMP_EXECUTED \<in> set outcome_types" "COMP_FAILED \<in> set outcome_types" "COMP_SKIPPED \<in> set outcome_types"
  by (simp_all add: COMP_EXECUTED_def COMP_FAILED_def COMP_SKIPPED_def outcome_types_def)

lemma told_outcome:
  "told_keys [outcome_event trigger k extra res] = [VStr k]" "told_answers [outcome_event trigger k extra res] = [cr_ok res]"
  by (simp_all add: told_keys_def told_answers_def outcomes_def outcome_key_def outcome_event_def get_default_def dict_has_def)

lemma told_skip: "what \<in> {''key'', ''hook''} \<Longrightarrow> told_keys [(COMP_SKIPPED, [(''trigger'', VStr t), (what, VStr k), (''reason'', rest)])] = [VStr k]"
  "told_answers [(COMP_SKIPPED, p)] = []"
  by (auto simp: told_keys_def told_answers_def outcomes_def outcome_key_def get_default_def dict_has_def)

lemma told_compensated: "told_keys (es @ [(''resource.compensated'', p)]) = told_keys es" "told_answers (es @ [(''resource.compensated'', p)]) = told_answers es"
  by (simp_all add: told_keys_def told_answers_def outcomes_def)

text \<open>One emission, then an answer: every undo ends so.\<close>

lemma accounts_emit:
  assumes "and_then (comp_emit bus t p) (\<lambda>_. Pair (Inr rs)) (w, trail @ es) = (res, w', trail')"
    and "told_keys (es @ [(t, p)]) = map VStr [k]" and "told_answers (es @ [(t, p)]) = map cr_ok rs"
  shows "trail' = trail @ (es @ [(t, p)]) \<and> accounts bus [k] res (es @ [(t, p)]) w'"
proof (cases "bus t p w")
  case b: (Pair r0 v)
  show ?thesis
  proof (cases r0)
    case (Inl x)
    have "broken bus x (es @ [(t, p)]) v" unfolding broken_def using b Inl by blast
    then show ?thesis using assms b Inl by (auto simp: and_then_def comp_emit_def accounts_def intro!: exI [of _ 1])
  next
    case (Inr u)
    then show ?thesis using assms b by (auto simp: and_then_def comp_emit_def accounts_def)
  qed
qed

lemma undo_resource_accounts:
  assumes "undo_resource bus g ctx trigger ref (w, trail) = (res, w', trail')"
  shows "\<exists>evs. trail' = trail @ evs \<and> accounts bus [ref] res evs w'"
proof (cases "dict_has (rg_resources g) ref")
  case False
  then show ?thesis
    using accounts_emit [of bus COMP_SKIPPED _ "[]" w trail "[]", simplified, OF _ told_skip(1) told_skip(2)] assms
    by (fastforce simp: undo_resource_def emit_skipped_def)
next
  case True
  obtain cr w1 where run: "run_resource_handler g ref ctx w = (cr, w1)" by (cases "run_resource_handler g ref ctx w")
  let ?e = "outcome_event trigger ref [(''resource_ref'', VStr ref)] cr"
  let ?p = "[(''resource_ref'', VStr ref), (''trigger'', VStr trigger), (''data'', cr_data cr)]"
  have told: "told_keys [?e] = map VStr [ref]" "told_answers [?e] = map cr_ok [cr]" by (simp_all add: told_outcome)
  show ?thesis
  proof (cases "cr_ok cr")
    case False
    then have "and_then (comp_emit bus (fst ?e) (snd ?e)) (\<lambda>_. Pair (Inr [cr])) (w1, trail @ []) = (res, w', trail')"
      using assms True run by (simp add: undo_resource_def emit_resource_outcome_def case_prod_beta)
    from accounts_emit [OF this] told show ?thesis by auto
  next
    case ok: True
    have all: "and_then (and_then (comp_emit bus (fst ?e) (snd ?e)) (\<lambda>_. comp_emit bus ''resource.compensated'' ?p)) (\<lambda>_. Pair (Inr [cr])) (w1, trail) = (res, w', trail')"
      using assms True run ok by (simp add: undo_resource_def emit_resource_outcome_def case_prod_beta)
    show ?thesis
    proof (cases "bus (fst ?e) (snd ?e) w1")
      case b: (Pair r0 v)
      show ?thesis
      proof (cases r0)
        case (Inl x)
        then have "and_then (comp_emit bus (fst ?e) (snd ?e)) (\<lambda>_. Pair (Inr [cr])) (w1, trail @ []) = (res, w', trail')"
          using all b by (simp add: and_then_def comp_emit_def)
        from accounts_emit [OF this] told show ?thesis by auto
      next
        case (Inr u)
        then have "and_then (comp_emit bus ''resource.compensated'' ?p) (\<lambda>_. Pair (Inr [cr])) (v, trail @ [?e]) = (res, w', trail')"
          using all b by (simp add: and_then_def comp_emit_def)
        from accounts_emit [OF this] told told_compensated [of "[?e]" ?p] show ?thesis by auto
      qed
    qed
  qed
qed

lemma undo_resources_account:
  "undo_resources bus g ctx trigger refs (w, trail) = (res, w', trail') \<Longrightarrow> \<exists>evs. trail' = trail @ evs \<and> accounts bus refs res evs w'"
proof (induction refs arbitrary: w trail res w' trail')
  case Nil
  then show ?case using accounts_Nil by auto
next
  case (Cons ref refs)
  obtain r1 w1 t1 where one: "undo_resource bus g ctx trigger ref (w, trail) = (r1, w1, t1)" by (metis surj_pair)
  obtain es where es: "t1 = trail @ es" "accounts bus [ref] r1 es w1" using undo_resource_accounts [OF one] by blast
  show ?case
  proof (cases r1)
    case (Inl x)
    then show ?thesis using Cons.prems one es accounts_more [of bus "[ref]" x es w1 refs] by (auto simp: and_then_def)
  next
    case (Inr rs)
    obtain r2 w2 t2 where two: "undo_resources bus g ctx trigger refs (w1, t1) = (r2, w2, t2)" by (metis surj_pair)
    obtain es' where es': "t2 = t1 @ es'" "accounts bus refs r2 es' w2" using Cons.IH [OF two] by blast
    have "res = attempt r2 (\<lambda>rs'. Inr (rs @ rs')) \<and> w' = w2 \<and> trail' = t2"
      using Cons.prems one two Inr by (cases r2) (auto simp: and_then_def attempt_def)
    then show ?thesis using accounts_append [OF es(2) [unfolded Inr] es'(2)] es(1) es'(1) by auto
  qed
qed

definition hook_keys :: "comp_context \<Rightarrow> string list" where
  "hook_keys ctx = (case co_hook ctx of Some (c # cs) \<Rightarrow> [c # cs] | _ \<Rightarrow> [])"

lemma undo_commit_accounts:
  assumes "undo_commit bus g ctx trigger (w, trail) = (res, w', trail')"
  shows "\<exists>evs. trail' = trail @ evs \<and> accounts bus (hook_keys ctx) res evs w'"
proof (cases "hook_keys ctx")
  case Nil
  then show ?thesis using accounts_Nil assms by (auto simp: undo_commit_def hook_keys_def split: option.splits list.splits)
next
  case (Cons k ks)
  then obtain c cs where hook: "co_hook ctx = Some (c # cs)" "k = c # cs" "ks = []" by (auto simp: hook_keys_def split: option.splits list.splits)
  then have keys: "hook_keys ctx = [k]" by (simp add: hook_keys_def)
  show ?thesis
  proof (cases "dict_has (rg_hooks g) k")
    case True
    obtain cr w1 where run: "run_commit_hook g k ctx w = (cr, w1)" by (cases "run_commit_hook g k ctx w")
    let ?e = "outcome_event trigger k [] cr"
    have "and_then (comp_emit bus (fst ?e) (snd ?e)) (\<lambda>_. Pair (Inr [cr])) (w1, trail @ []) = (res, w', trail')"
      using assms True hook run by (simp add: undo_commit_def emit_outcome_def case_prod_beta)
    from accounts_emit [OF this] told_outcome [of trigger k "[]" cr] keys show ?thesis by auto
  next
    case False
    then show ?thesis
      using accounts_emit [of bus COMP_SKIPPED _ "[]" w trail "[]", simplified, OF _ told_skip(1) told_skip(2)] assms hook keys
      by (fastforce simp: undo_commit_def emit_skipped_def)
  qed
qed

lemma handling_accounts:
  assumes "comp_handle r bus g ev (w, trail) = (res, w', trail')" "ev_type ev = COMMIT_FAILED"
  shows "\<exists>evs. trail' = trail @ evs \<and> (case resource_refs r (enriched_payload ev) of
     Inr refs \<Rightarrow> accounts bus (hook_keys (comp_context_of r ev) @ refs) res evs w'
   | Inl x \<Rightarrow> (\<exists>rs. res = Inl x \<and> accounts bus (hook_keys (comp_context_of r ev)) (Inr rs) evs w')
       \<or> (isl res \<and> accounts bus (hook_keys (comp_context_of r ev)) res evs w'))"
proof -
  let ?ctx = "comp_context_of r ev" let ?keys = "hook_keys ?ctx" let ?asked = "resource_refs r (enriched_payload ev)"
  have p: "co_payload ?ctx = enriched_payload ev" by (simp add: comp_context_of_def Let_def)
  obtain r1 w1 t1 where one: "undo_commit bus g ?ctx COMMIT_FAILED (w, trail) = (r1, w1, t1)" by (metis surj_pair)
  obtain es where es: "t1 = trail @ es" "accounts bus ?keys r1 es w1" using undo_commit_accounts [OF one] by blast
  note defs = comp_handle_def Let_def assms(2) p and_then_def
  show ?thesis
  proof (cases r1)
    case (Inl x)
    then have "res = Inl x" "w' = w1" "trail' = t1" using assms(1) one by (simp_all add: defs)
    then show ?thesis using es Inl accounts_more [of bus ?keys x es w1] by (cases ?asked) auto
  next
    case (Inr rs)
    show ?thesis
    proof (cases ?asked)
      case no: (Inl x)
      then have "res = Inl x" "w' = w1" "trail' = t1" using assms(1) one Inr by (simp_all add: defs)
      then show ?thesis using es Inr no by auto
    next
      case yes: (Inr refs)
      obtain r2 w2 t2 where two: "undo_resources bus g ?ctx COMMIT_FAILED refs (w1, t1) = (r2, w2, t2)" by (metis surj_pair)
      obtain es' where es': "t2 = t1 @ es'" "accounts bus refs r2 es' w2" using undo_resources_account [OF two] by blast
      have "res = attempt r2 (\<lambda>rs'. Inr (rs @ rs')) \<and> w' = w2 \<and> trail' = t2"
        using assms(1) one two Inr yes by (cases r2) (auto simp: defs attempt_def)
      then show ?thesis using accounts_append [OF es(2) [unfolded Inr] es'(2)] es(1) es'(1) yes by auto
    qed
  qed
qed


definition failed_commit :: event where
  "failed_commit = \<lparr>ev_type = COMMIT_FAILED, ev_payload = [(''hook'', VStr ''save''), (''resource_refs'', VList [VStr ''crm'', VStr ''mail''])],
     ev_timestamp = 0, ev_id = ''e'', ev_context = None\<rparr>"

definition demo_comp :: "nat comp_registry" where
  "demo_comp = \<lparr>rg_hooks = [(''save'', 0, \<lambda>_ w. (Inl (Exc PyRuntimeError ''down''), w))],
     rg_resources = [(''crm'', 1, \<lambda>_ w. (Inr (comp_success VNone), Suc w))], rg_events = []\<rparr>"

text \<open>A handler raises and a reference has no handler; the bus of the second run raises when the first undo has been told.\<close>

definition demo_bus :: "bool \<Rightarrow> nat comp_bus" where
  "demo_bus calm t p w = (if calm \<or> t \<noteq> COMP_EXECUTED then Inr () else Inl (Exc PyRuntimeError ''full''), w)"


end
