(* ===== verification/WizardConfig.thy ===== *)
theory WizardConfig
  imports PyConvert Schema
begin

text \<open>
  The configuration of the wizard pattern (\<open>plugins/patterns/wizard/bindings/definitions/config.py\<close>): steps, the
  steps that are added for the summary and the commit, positions and protection. A bound schema is its document.
  The arms of a branch step are trees of steps.
\<close>

record field_config =
  fc_slug :: string
  fc_title :: string
  fc_prompt :: string
  fc_type :: string
  fc_choices :: "string list"
  fc_required :: bool

record wizard_step =
  ws_slug :: string
  ws_title :: string
  ws_prompt :: string
  ws_type :: string
  ws_choices :: "string list"
  ws_required :: bool
  ws_kind :: string
  ws_rules :: "(string \<times> pydict) list"
  ws_state_schema :: "pydict option"
  ws_schema_ref :: "string option"
  ws_schema :: "pydict option"
  ws_hook :: "string option"
  ws_resource :: "string option"
  ws_params :: pydict
  ws_back :: "bool option"
  ws_collection_key :: "string option"
  ws_fields :: "field_config list"
  ws_min_items :: "int option"
  ws_label :: "string option"
  ws_transform :: bool
  ws_when :: "pydict option"

datatype step_tree = Step (step_of: wizard_step) (then_arm: "step_tree list") (else_arm: "step_tree list")

definition plain_step :: "string \<Rightarrow> string \<Rightarrow> string \<Rightarrow> wizard_step" where
  "plain_step slug title prompt = \<lparr>ws_slug = slug, ws_title = title, ws_prompt = prompt, ws_type = ''text'', ws_choices = [],
     ws_required = True, ws_kind = ''input'', ws_rules = [], ws_state_schema = None, ws_schema_ref = None, ws_schema = None, ws_hook = None,
     ws_resource = None, ws_params = [], ws_back = None, ws_collection_key = None, ws_fields = [], ws_min_items = Some 1, ws_label = None,
     ws_transform = False, ws_when = None\<rparr>"

subsection \<open>Construction of a step\<close>

definition PREDICATE_KEYS :: "string list" where
  "PREDICATE_KEYS = [''equals'', ''not_equals'', ''gt'', ''gte'', ''lt'', ''lte'', ''is_truthy'', ''exists'']"

definition validate_when :: "pydict \<Rightarrow> unit result" where
  "validate_when d = (if d = [] then Inl (Exc PyValueError ''branch step requires a non-empty when clause'')
     else if \<not> list_ex (dict_has d) PREDICATE_KEYS
     then Inl (Exc PyValueError ''branch when requires a predicate (equals, gt, gte, is_truthy, exists, ...)'')
     else Inr ())"

definition blank :: "string option \<Rightarrow> bool" where
  "blank t = (t = None \<or> t = Some [])"

definition step_error :: "string \<Rightarrow> string \<Rightarrow> string \<Rightarrow> 'a result" where
  "step_error what slug msg = Inl (Exc PyValueError (what @ '' step '' @ quoted slug @ '' '' @ msg))"

text \<open>The checks of \<open>__post_init__\<close>, in order; a commit without a hook asks for a confirmation, a collection is stored under its slug.\<close>

definition check_branch :: "step_tree \<Rightarrow> step_tree result" where
  "check_branch t = (let w = step_of t in
     if ws_when w = None \<or> ws_when w = Some [] then step_error ''Branch'' (ws_slug w) ''requires when''
     else attempt (validate_when (case ws_when w of Some d \<Rightarrow> d | None \<Rightarrow> [])) (\<lambda>_.
       if then_arm t = [] \<and> else_arm t = [] then step_error ''Branch'' (ws_slug w) ''requires at least one nested step in then or else''
       else Inr t))"

definition wizard_step_init :: "step_tree \<Rightarrow> step_tree result" where
  "wizard_step_init t =
     (let w = step_of t; slug = ws_slug w;
          w1 = (if ws_kind w = ''commit'' \<and> blank (ws_hook w) then w\<lparr>ws_type := ''confirm''\<rparr> else w);
          w2 = (if ws_kind w = ''collection'' \<and> blank (ws_collection_key w) then w1\<lparr>ws_collection_key := Some slug\<rparr> else w1);
          t2 = Step w2 (then_arm t) (else_arm t)
      in if slug = [] then Inl (Exc PyValueError ''Wizard step slug must be non-empty'')
         else if ws_type w = ''choice'' \<and> ws_choices w = [] then Inl (Exc PyValueError (''Step '' @ quoted slug @ '' with field_type=choice requires choices''))
         else if ws_kind w = ''collection'' \<and> ws_fields w = [] then step_error ''Collection'' slug ''requires item_fields''
         else if ws_kind w = ''transform'' \<and> \<not> ws_transform w then step_error ''Transform'' slug ''requires transform configuration''
         else if ws_kind w = ''resource'' \<and> blank (ws_resource w) then step_error ''Resource'' slug ''requires resource_ref''
         else if ws_kind w = ''workload'' \<and> ws_params w = []
         then step_error ''Workload'' slug ''requires params (Spec fields or run-python sugar: code/runtime)''
         else if ws_kind w = ''branch'' then check_branch t2
         else Inr t2)"

definition has_state_schema :: "wizard_step \<Rightarrow> bool" where
  "has_state_schema w = (ws_state_schema w \<noteq> None \<or> ws_schema_ref w \<noteq> None \<or> ws_schema w \<noteq> None)"

definition PROTECTED_KINDS :: "string list" where
  "PROTECTED_KINDS = [''introduction'', ''summary'', ''commit'']"

definition is_protected :: "wizard_step \<Rightarrow> bool" where
  "is_protected w = (ws_kind w \<in> set PROTECTED_KINDS \<or> ws_back w = Some False)"

subsection \<open>The wizard\<close>

record wizard_config =
  wc_steps :: "step_tree list"
  wc_back :: bool
  wc_introduction :: "string option"
  wc_summary :: bool
  wc_commit :: bool
  wc_summary_slug :: string
  wc_commit_slug :: string
  wc_hook :: "string option"

definition has_slug :: "step_tree list \<Rightarrow> string \<Rightarrow> bool" where
  "has_slug ts slug = list_ex (\<lambda>t. ws_slug (step_of t) = slug) ts"

definition default_summary :: "wizard_config \<Rightarrow> wizard_step" where
  "default_summary c = (plain_step (wc_summary_slug c) ''Summary'' ''Review your answers and confirm to continue.'')
     \<lparr>ws_type := ''confirm'', ws_kind := ''summary'', ws_back := Some False\<rparr>"

definition default_commit :: "wizard_config \<Rightarrow> wizard_step" where
  "default_commit c = (plain_step (wc_commit_slug c) ''Commit'' ''Apply changes and finalize?'')
     \<lparr>ws_type := ''confirm'', ws_kind := ''commit'', ws_hook := wc_hook c, ws_back := Some False\<rparr>"

definition tree_steps :: "wizard_config \<Rightarrow> step_tree list" where
  "tree_steps c =
     (let xs = wc_steps c;
          ys = (if wc_summary c \<and> \<not> has_slug xs (wc_summary_slug c) then xs @ [Step (default_summary c) [] []] else xs)
      in if wc_commit c \<and> \<not> has_slug ys (wc_commit_slug c) then ys @ [Step (default_commit c) [] []] else ys)"

abbreviation spine :: "wizard_config \<Rightarrow> wizard_step list" where
  "spine c \<equiv> map step_of (tree_steps c)"

function flatten_step :: "step_tree \<Rightarrow> wizard_step list" where
  "flatten_step (Step w ts es) = w # (if ws_kind w = ''branch'' then concat (map flatten_step (ts @ es)) else [])"
  by pat_completeness auto

termination flatten_step
proof (relation "measure size")
  have member: "t \<in> set xs \<Longrightarrow> size t < Suc (size_list size xs)" for t and xs :: "step_tree list" by (induction xs) auto
  fix w t and ts es :: "step_tree list"
  assume "t \<in> set (ts @ es)"
  then show "(t, Step w ts es) \<in> measure size" using member [of t ts] member [of t es] by auto
qed simp

definition all_steps :: "wizard_config \<Rightarrow> wizard_step list" where
  "all_steps c = concat (map flatten_step (tree_steps c))"

definition wizard_config_init :: "wizard_config \<Rightarrow> wizard_config result" where
  "wizard_config_init c = (if wc_steps c = [] then Inl (Exc PyValueError ''WizardConfig requires at least one step'')
     else if \<not> distinct (map ws_slug (all_steps c)) then Inl (Exc PyValueError ''Wizard step slugs must be unique'')
     else Inr c)"

definition protected_slugs :: "wizard_config \<Rightarrow> string list" where
  "protected_slugs c = (case wc_introduction c of Some (x # xs) \<Rightarrow> [x # xs] | _ \<Rightarrow> [])
     @ (if wc_summary c then [wc_summary_slug c] else []) @ (if wc_commit c then [wc_commit_slug c] else [])
     @ map ws_slug (filter is_protected (spine c))"

fun position :: "string \<Rightarrow> nat \<Rightarrow> wizard_step list \<Rightarrow> nat option" where
  "position slug i [] = None"
| "position slug i (w # ws) = (if ws_slug w = slug then Some i else position slug (Suc i) ws)"

definition index_of :: "wizard_config \<Rightarrow> string \<Rightarrow> nat result" where
  "index_of c slug = (case position slug 0 (spine c) of Some i \<Rightarrow> Inr i
     | None \<Rightarrow> Inl (Exc PyKeyError (''Unknown wizard step slug: '' @ quoted slug)))"

definition get_step :: "wizard_config \<Rightarrow> string \<Rightarrow> wizard_step option" where
  "get_step c slug = find (\<lambda>w. ws_slug w = slug) (spine c)"

definition step_count :: "wizard_config \<Rightarrow> nat" where
  "step_count c = length (tree_steps c)"

text \<open>\<open>str.title\<close> on the letters: a letter after no letter is in upper case, every other in lower case.\<close>

definition is_letter :: "char \<Rightarrow> bool" where
  "is_letter ch = (let n = of_char (lower_char ch) :: nat in 97 \<le> n \<and> n \<le> 122)"

fun title_case :: "bool \<Rightarrow> string \<Rightarrow> string" where
  "title_case inside [] = []"
| "title_case inside (ch # cs) =
     (let l = lower_char ch in (if is_letter ch \<and> \<not> inside then char_of ((of_char l :: nat) - 32) else l) # title_case (is_letter ch) cs)"

definition spaced :: "string \<Rightarrow> string" where
  "spaced = map (\<lambda>ch. if ch = CHR 0x5F then CHR 0x20 else ch)"

definition config_from_slugs :: "string list \<Rightarrow> bool \<Rightarrow> bool \<Rightarrow> bool \<Rightarrow> string option \<Rightarrow> wizard_config result" where
  "config_from_slugs slugs back summ comm hook =
     (if [] \<in> set slugs then Inl (Exc PyValueError ''Wizard step slug must be non-empty'')
      else wizard_config_init \<lparr>wc_steps = map (\<lambda>s. Step (plain_step s (title_case False (spaced s)) (''Enter value for '' @ s)) [] []) slugs,
        wc_back = back, wc_introduction = None, wc_summary = summ, wc_commit = comm, wc_summary_slug = ''summary'', wc_commit_slug = ''commit'',
        wc_hook = hook\<rparr>)"

subsection \<open>Backtracking is allowed\<close>

definition can_backtrack_to :: "wizard_config \<Rightarrow> string \<Rightarrow> bool" where
  "can_backtrack_to c slug = (wc_back c \<and> slug \<notin> set (protected_slugs c)
     \<and> (case get_step c slug of Some w \<Rightarrow> \<not> is_protected w | None \<Rightarrow> True))"

subsection \<open>Positions\<close>

lemma position_shift: "position slug (Suc i) ws = map_option Suc (position slug i ws)"
  by (induction ws arbitrary: i) auto

lemma position_found: "position slug 0 ws = Some i \<Longrightarrow> i < length ws \<and> ws_slug (ws ! i) = slug"
proof (induction ws arbitrary: i)
  case (Cons w ws)
  then show ?case by (cases i) (auto simp: position_shift split: if_splits)
qed simp

lemma position_none: "position slug 0 ws = None \<longleftrightarrow> slug \<notin> ws_slug ` set ws"
  by (induction ws) (auto simp: position_shift)

lemma index_of_found: "index_of c slug = Inr i \<Longrightarrow> i < length (tree_steps c) \<and> ws_slug (spine c ! i) = slug"
  by (auto simp: index_of_def dest: position_found split: option.splits)

lemma protected_spine: "i < length (tree_steps c) \<Longrightarrow> is_protected (spine c ! i) \<Longrightarrow> ws_slug (spine c ! i) \<in> set (protected_slugs c)"
  by (auto simp: protected_slugs_def image_iff intro!: bexI [of _ "tree_steps c ! i"] exI)

end
