(* ===== verification/WizardInput.thy ===== *)
theory WizardInput
  imports WizardConfig StateSurface
begin

text \<open>
  Validation of the input of a wizard (\<open>plugins/patterns/wizard/flow/validation.py\<close>): choices, coercion to the type
  a schema asks for, field rules, schemas, and the messages shown to the user. A result is the list of its errors;
  it is ok when there is none. The search of a regular expression, the registered validators and what \<open>float\<close>
  reads from a text are arguments: the rational that a text is rounded to, or None when it raises. The floats that
  are no rationals are not among the values of the model.
\<close>

record input_env =
  ie_repr :: "pyval \<Rightarrow> string"
  ie_float :: "string \<Rightarrow> pyval option"
  ie_search :: "string \<Rightarrow> string \<Rightarrow> bool result"
  ie_custom :: "string \<Rightarrow> (pyval \<Rightarrow> wizard_step \<Rightarrow> string option result) option"

subsection \<open>Messages\<close>

text \<open>Where a separator splits a text with something before it, the longest such part first, as greedy groups match.\<close>

definition splits_at :: "string \<Rightarrow> string \<Rightarrow> (string \<times> string) list" where
  "splits_at sep s = map (\<lambda>i. (take i s, drop (i + length sep) s)) (filter (\<lambda>i. take (length sep) (drop i s) = sep) (rev [1..<length s]))"

text \<open>\<open>re.fullmatch("(.+)sep(.+)sep'(.+)")\<close>; a dot does not match the end of a line.\<close>

definition match3 :: "string \<Rightarrow> string \<Rightarrow> string \<Rightarrow> (string \<times> string \<times> string) option" where
  "match3 sep sep' s = (if CHR 0x0A \<in> set s then None
     else case concat (map (\<lambda>(a, rest). map (\<lambda>(b, c). (a, b, c)) (filter (\<lambda>(b, c). c \<noteq> []) (splits_at sep' rest))) (splits_at sep s)) of
       [] \<Rightarrow> None | m # _ \<Rightarrow> Some m)"

definition MISSING :: string where "MISSING = ''missing required key: ''"

definition format_message :: "string \<Rightarrow> string" where
  "format_message m =
     (if take (length MISSING) m = MISSING then ''Missing required answer: '' @ spaced (drop (length MISSING) m)
      else case match3 '': '' '' < minimum '' m of
        Some (f, v, b) \<Rightarrow> spaced f @ '' must be at least '' @ b @ '' (you entered '' @ v @ '')''
      | None \<Rightarrow> (case match3 '': '' '' > maximum '' m of
          Some (f, v, b) \<Rightarrow> spaced f @ '' must be at most '' @ b @ '' (you entered '' @ v @ '')''
        | None \<Rightarrow> (case match3 '': value '' '' not in enum '' m of
            Some (f, v, a) \<Rightarrow> spaced f @ '' must be one of '' @ a @ '' (you entered '' @ v @ '')''
          | None \<Rightarrow> (case match3 '': expected '' '', got '' m of
              Some (f, e, g) \<Rightarrow> spaced f @ '' must be a '' @ e @ '' (you entered a '' @ g @ '')''
            | None \<Rightarrow> m))))"

text \<open>A rule may carry a message that is no text, which has no \<open>startswith\<close>.\<close>

fun format_messages :: "pyval list \<Rightarrow> string list result" where
  "format_messages [] = Inr []"
| "format_messages (v # vs) = (case v of
     VStr m \<Rightarrow> attempt (format_messages vs) (\<lambda>ms. Inr (format_message m # ms))
   | _ \<Rightarrow> Inl (Exc PyAttributeError (quoted (type_name v) @ '' object has no attribute '' @ quoted ''startswith'')))"

subsection \<open>Feedback in the state\<close>

definition wizard_key :: "string \<Rightarrow> string" where "wizard_key nm = ''__wizard__.'' @ nm"

definition ANSWERS :: string where "ANSWERS = wizard_key ''answers''"
definition CURRENT_STEP :: string where "CURRENT_STEP = wizard_key ''current_step''"
definition ACTIVE_PROMPT :: string where "ACTIVE_PROMPT = wizard_key ''active_prompt''"
definition BACKTRACK_TO :: string where "BACKTRACK_TO = wizard_key ''backtrack_to''"
definition JUMP_TO_STEP :: string where "JUMP_TO_STEP = wizard_key ''jump_to_step''"
definition COMPLETED_KEY :: string where "COMPLETED_KEY = wizard_key ''completed''"
definition STEP_INDEX :: string where "STEP_INDEX = wizard_key ''step_index''"
definition COMMITTED :: string where "COMMITTED = wizard_key ''committed''"
definition COMMIT_ERROR :: string where "COMMIT_ERROR = wizard_key ''commit_error''"
definition COMMIT_RESULT :: string where "COMMIT_RESULT = wizard_key ''commit_result''"
definition VALIDATION_ERROR :: string where "VALIDATION_ERROR = wizard_key ''validation_error''"
definition VALIDATION_ERRORS :: string where "VALIDATION_ERRORS = wizard_key ''validation_errors''"
definition SUMMARY_ACK :: string where "SUMMARY_ACK = wizard_key ''summary_ack''"
definition RESOURCE_INVOCATIONS :: string where "RESOURCE_INVOCATIONS = wizard_key ''resource_invocations''"

definition prompt_with_errors :: "string \<Rightarrow> string list \<Rightarrow> pydict \<Rightarrow> pydict" where
  "prompt_with_errors primary ms d = dict_set ''validation_errors'' (VList (map VStr ms)) (dict_set ''validation_error'' (VStr primary) d)"

definition publish_feedback :: "pyval list \<Rightarrow> pydict \<Rightarrow> string \<Rightarrow> unit st_eff" where
  "publish_feedback errors bundle key s = (case format_messages errors of
     Inl x \<Rightarrow> (Inl x, s)
   | Inr ms \<Rightarrow>
      (let primary = (case ms of m # _ \<Rightarrow> m | [] \<Rightarrow> ''Please fix the highlighted answers.''); b = VDict (prompt_with_errors primary ms bundle)
       in (Inr (), st_set key b (st_set ACTIVE_PROMPT b (st_set VALIDATION_ERRORS (VList (map VStr ms)) (st_set VALIDATION_ERROR (VStr primary) s))))))"

definition clear_feedback :: "dict_state \<Rightarrow> dict_state" where
  "clear_feedback s =
     (let s1 = st_delete VALIDATION_ERRORS (st_delete VALIDATION_ERROR s) in
      case st_get ACTIVE_PROMPT VNone s1 of
        VDict d \<Rightarrow> (if dict_has d ''validation_error'' \<or> dict_has d ''validation_errors''
          then st_set ACTIVE_PROMPT (VDict (dict_pop ''validation_errors'' (dict_pop ''validation_error'' d))) s1 else s1)
      | _ \<Rightarrow> s1)"

subsection \<open>Choices\<close>

text \<open>\<open>str.isdigit\<close>: the superscript digits of Latin-1 count as well, which \<open>int\<close> does not read.\<close>

definition py_isdigit :: "string \<Rightarrow> bool" where
  "py_isdigit s = (s \<noteq> [] \<and> list_all (\<lambda>ch. is_digit ch \<or> ch \<in> {CHR 0xB2, CHR 0xB3, CHR 0xB9}) s)"

definition the_only :: "'a list \<Rightarrow> 'a option" where
  "the_only xs = (case xs of [x] \<Rightarrow> Some x | _ \<Rightarrow> None)"

definition by_prefix :: "string \<Rightarrow> string list \<Rightarrow> string option" where
  "by_prefix low cs = (case the_only (filter (\<lambda>ch. prefix low (py_lower ch)) cs) of
     Some ch \<Rightarrow> Some ch
   | None \<Rightarrow> the_only (filter (\<lambda>ch. py_contains (py_lower ch) low) cs))"

definition resolve_text :: "string \<Rightarrow> string list \<Rightarrow> string option result" where
  "resolve_text value cs =
     (let text = py_strip value; low = py_lower text in
      if text = [] then Inr None
      else if text \<in> set cs then Inr (Some text)
      else case the_only (filter (\<lambda>ch. py_lower ch = low) cs) of
        Some ch \<Rightarrow> Inr (Some ch)
      | None \<Rightarrow>
          (if py_isdigit text
           then attempt (py_int (VStr text)) (\<lambda>n. Inr (if 1 \<le> n \<and> n \<le> int (length cs) then Some (cs ! nat (n - 1)) else by_prefix low cs))
           else Inr (by_prefix low cs)))"

definition resolve_choice :: "(pyval \<Rightarrow> string) \<Rightarrow> pyval \<Rightarrow> string list \<Rightarrow> string option result" where
  "resolve_choice r v cs =
     (if cs = [] then Inr None
      else case v of
        VStr t \<Rightarrow> resolve_text t cs
      | VInt n \<Rightarrow> Inr (if 1 \<le> n \<and> n \<le> int (length cs) then Some (cs ! nat (n - 1))
                      else if py_in v (map VStr cs) then Some (py_str r v) else None)
      | _ \<Rightarrow> Inr (if py_in v (map VStr cs) then Some (py_str r v) else None))"

definition numbered :: "string list \<Rightarrow> string" where
  "numbered cs = (case map (\<lambda>(i, ch). show_nat i @ ''. '' @ ch) (enumerate 1 cs) of
     [] \<Rightarrow> [] | l # ls \<Rightarrow> l @ concat (map (\<lambda>m. CHR 0x0A # m) ls))"

definition choice_error :: "(pyval \<Rightarrow> string) \<Rightarrow> pyval \<Rightarrow> string list \<Rightarrow> string" where
  "choice_error r v cs = (if cs = [] then ''Invalid selection: '' @ py_repr r v
     else ''Invalid selection '' @ py_repr r v @ ''. Enter a number (1-'' @ show_nat (length cs) @ '') or matching option name:''
       @ CHR 0x0A # numbered cs)"

subsection \<open>Coercion\<close>

text \<open>A float that is not finite is no integer.\<close>

definition text_to_integer :: "input_env \<Rightarrow> string \<Rightarrow> int option" where
  "text_to_integer env t = (if CHR 0x2E \<in> set t \<or> CHR 0x65 \<in> set (py_lower t)
     then (case ie_float env t of Some (VFloat q) \<Rightarrow> (if q = of_int \<lfloor>q\<rfloor> then Some \<lfloor>q\<rfloor> else None) | _ \<Rightarrow> None)
     else parse_int t)"

definition coerce_for :: "input_env \<Rightarrow> pyval \<Rightarrow> pydict \<Rightarrow> pyval" where
  "coerce_for env v sp = (case v of
     VStr raw \<Rightarrow>
      (let t = py_strip raw; et = py_get sp ''type''; low = py_lower t in
       if t = [] then v
       else if et = VStr ''integer'' then (case text_to_integer env t of Some n \<Rightarrow> VInt n | None \<Rightarrow> v)
       else if et = VStr ''number'' then (case ie_float env t of Some x \<Rightarrow> x | None \<Rightarrow> v)
       else if et = VStr ''boolean'' then (if low \<in> {''true'', ''yes'', ''1''} then VBool True
           else if low \<in> {''false'', ''no'', ''0''} then VBool False else v)
       else v)
   | _ \<Rightarrow> v)"

text \<open>The document that describes the value of a step: of the step, of its scope, or of its key in the flow.\<close>

definition step_schema_spec :: "dict_state \<Rightarrow> wizard_step \<Rightarrow> pydict option" where
  "step_schema_spec s w = (case ws_schema w of
     Some d \<Rightarrow> Some d
   | None \<Rightarrow> (case ws_state_schema w of
       Some d \<Rightarrow> Some d
     | None \<Rightarrow> (case dict_get (st_scope_schemas s) (ws_slug w) of
         Some d \<Rightarrow> Some d
       | None \<Rightarrow> (case st_schema s of
           None \<Rightarrow> None
         | Some sp \<Rightarrow> (case get_default sp ''properties'' (VDict []) of
             VDict props \<Rightarrow> (case py_get props (ws_slug w) of VDict d \<Rightarrow> Some d | _ \<Rightarrow> None)
           | _ \<Rightarrow> None)))))"

definition coerce_input :: "input_env \<Rightarrow> dict_state \<Rightarrow> wizard_step \<Rightarrow> pyval \<Rightarrow> pyval" where
  "coerce_input env s w v = (case step_schema_spec s w of None \<Rightarrow> v | Some sp \<Rightarrow> coerce_for env v sp)"

text \<open>\<open>prepare_step_input\<close>: the value to validate, or the error of a choice that cannot be resolved.\<close>

definition prepare_input :: "input_env \<Rightarrow> dict_state \<Rightarrow> wizard_step \<Rightarrow> pyval \<Rightarrow> (string + pyval) result" where
  "prepare_input env s w v =
     (if ws_type w = ''choice'' \<and> ws_choices w \<noteq> []
      then attempt (resolve_choice (ie_repr env) v (ws_choices w)) (\<lambda>ch. Inr (case ch of
          None \<Rightarrow> Inl (choice_error (ie_repr env) v (ws_choices w))
        | Some t \<Rightarrow> Inr (coerce_input env s w (VStr t))))
      else Inr (Inr (coerce_input env s w v)))"

subsection \<open>Field rules\<close>

definition not_hashable :: "pyval \<Rightarrow> bool" where
  "not_hashable v = (case v of VList _ \<Rightarrow> True | VDict _ \<Rightarrow> True | _ \<Rightarrow> False)"

definition builtin_errors :: "(pyval \<Rightarrow> string) \<Rightarrow> wizard_step \<Rightarrow> pyval \<Rightarrow> pyval list result" where
  "builtin_errors r w v =
     (if ws_required w \<and> v \<in> {VNone, VStr []} then Inr [VStr ''This field is required'']
      else if ws_type w = ''choice'' \<and> \<not> py_in v (map VStr (ws_choices w)) then Inr [VStr (choice_error r v (ws_choices w))]
      else if ws_type w = ''confirm''
      then (if not_hashable v then Inl (Exc PyTypeError (''unhashable type: '' @ quoted (type_name v)))
        else Inr (if py_in v [VBool True, VBool False, VStr ''yes'', VStr ''no'', VStr ''Yes'', VStr ''No''] then []
          else [VStr ''Please answer yes or no'']))
      else Inr [])"

definition run_rule :: "input_env \<Rightarrow> wizard_step \<Rightarrow> pyval \<Rightarrow> string \<times> pydict \<Rightarrow> pyval list result" where
  "run_rule env w v rule =
     (let nm = fst rule; ps = snd rule; text = py_str (ie_repr env) v in
      case ie_custom env nm of
        Some f \<Rightarrow> attempt (f v w) (\<lambda>m. Inr (case m of Some (ch # cs) \<Rightarrow> [VStr (ch # cs)] | _ \<Rightarrow> []))
      | None \<Rightarrow>
        if nm = ''min_length'' then attempt (py_int (get_default ps ''min'' (VInt 1))) (\<lambda>n.
          Inr (if int (length text) < n then [VStr (''Enter at least '' @ show_int n @ '' characters'')] else []))
        else if nm = ''max_length'' then attempt (py_int (get_default ps ''max'' (VInt 10000))) (\<lambda>n.
          Inr (if int (length text) > n then [VStr (''Enter at most '' @ show_int n @ '' characters'')] else []))
        else if nm = ''regex''
        then (let p = py_str (ie_repr env) (get_default ps ''pattern'' (VStr [])) in
          if p = [] then Inr []
          else attempt (ie_search env p (if v = VNone then [] else text)) (\<lambda>found.
            Inr (if found then [] else [get_default ps ''message'' (VStr ''Value does not match the required pattern'')])))
        else if nm = ''not_empty'' then Inr (if v = VNone \<or> py_strip text = [] then [VStr ''This field cannot be empty''] else [])
        else Inr [VStr (''Unknown validation rule: '' @ quoted nm)])"

definition rule_errors :: "input_env \<Rightarrow> wizard_step \<Rightarrow> pyval \<Rightarrow> pyval list result" where
  "rule_errors env w v = concat_results (map (run_rule env w v) (ws_rules w))"

definition value_errors :: "input_env \<Rightarrow> wizard_step \<Rightarrow> pyval \<Rightarrow> pyval list result" where
  "value_errors env w v = attempt (builtin_errors (ie_repr env) w v) (\<lambda>es.
     if ws_rules w = [] \<or> es \<noteq> [] then Inr es else rule_errors env w v)"

subsection \<open>Schemas\<close>

definition scope_schema_of :: "dict_state \<Rightarrow> wizard_step \<Rightarrow> pydict option" where
  "scope_schema_of s w = (case ws_schema w of Some d \<Rightarrow> Some d | None \<Rightarrow> dict_get (st_scope_schemas s) (ws_slug w))"

definition step_errors :: "(pyval \<Rightarrow> string) \<Rightarrow> dict_state \<Rightarrow> wizard_step \<Rightarrow> pyval \<Rightarrow> pyval list result" where
  "step_errors r s w v = (case scope_schema_of s w of
     None \<Rightarrow> Inr []
   | Some sp \<Rightarrow> attempt (validate_value r v sp (ws_slug w)) (\<lambda>es. Inr (map VStr es)))"

definition flow_errors :: "(pyval \<Rightarrow> string) \<Rightarrow> dict_state \<Rightarrow> string \<Rightarrow> pyval \<Rightarrow> pyval list result" where
  "flow_errors r s slug v = (case st_schema s of
     None \<Rightarrow> Inr []
   | Some sp \<Rightarrow> (case schema_validate_key r sp slug v of
       Inr _ \<Rightarrow> Inr []
     | Inl x \<Rightarrow> (if isinstance x StateValidationError then Inr [VStr (exc_msg x)] else Inl x)))"

definition collected_errors :: "(pyval \<Rightarrow> string) \<Rightarrow> dict_state \<Rightarrow> pydict \<Rightarrow> pyval list result" where
  "collected_errors r s answers = (case st_schema s of
     None \<Rightarrow> Inr []
   | Some sp \<Rightarrow> attempt (schema_validate_state r sp answers) (\<lambda>es. Inr (map VStr es)))"

definition formatted :: "pyval list result \<Rightarrow> (unit \<Rightarrow> string list result) \<Rightarrow> string list result" where
  "formatted es rest = attempt es (\<lambda>vs. if vs = [] then rest () else format_messages vs)"

definition validate_prepared :: "input_env \<Rightarrow> dict_state \<Rightarrow> wizard_step \<Rightarrow> pyval \<Rightarrow> string list result" where
  "validate_prepared env s w v =
     formatted (value_errors env w v) (\<lambda>_. formatted (step_errors (ie_repr env) s w v) (\<lambda>_.
       formatted (flow_errors (ie_repr env) s (ws_slug w) v) (\<lambda>_. Inr [])))"

definition validate_step_input :: "input_env \<Rightarrow> dict_state \<Rightarrow> wizard_step \<Rightarrow> pyval \<Rightarrow> string list result" where
  "validate_step_input env s w v = attempt (prepare_input env s w v) (\<lambda>p. case p of
     Inl e \<Rightarrow> Inr [e] | Inr v' \<Rightarrow> validate_prepared env s w v')"

end
