(* ===== verification/WizardState.thy ===== *)
theory WizardState
  imports WizardInput Resource Compensation
begin

text \<open>
  The state of a wizard (\<open>wizard/bindings/context/state.py\<close>): answers, scopes of steps and accepted input; the
  prompt bundles of \<open>bindings/events/support.py\<close>; and the records of resource calls for the undo of a commit
  (\<open>palm/common/resource/compensation.py\<close>). The wizard runs without a context engine, so scopes are entered on the state.
\<close>

subsection \<open>Answers\<close>

definition get_answers :: "dict_state \<Rightarrow> pydict" where
  "get_answers s = (case st_get ANSWERS VNone s of VDict d \<Rightarrow> d | _ \<Rightarrow> [])"

definition set_answers :: "pydict \<Rightarrow> dict_state \<Rightarrow> dict_state" where
  "set_answers d = st_set ANSWERS (VDict d)"

definition is_user_key :: "string \<Rightarrow> bool" where
  "is_user_key k = (\<not> prefix ''__wizard__'' k \<and> \<not> prefix ''__'' k)"

definition merge_key :: "string \<times> pyval \<Rightarrow> pydict \<times> bool \<Rightarrow> pydict \<times> bool" where
  "merge_key kv ac = (if \<not> is_user_key (fst kv) \<or> (dict_has (fst ac) (fst kv) \<and> py_get (fst ac) (fst kv) \<noteq> VNone) \<or> snd kv = VNone then ac
     else (dict_set (fst kv) (snd kv) (fst ac), True))"

definition merge_state :: "dict_state \<Rightarrow> dict_state" where
  "merge_state s = (case fold merge_key (st_data s) (get_answers s, False) of
     (answers, changed) \<Rightarrow> if changed then set_answers answers s else s)"

subsection \<open>Scopes of steps\<close>

definition enter_step :: "wizard_step \<Rightarrow> unit st_eff" where
  "enter_step w s =
     (case (case ws_schema w of None \<Rightarrow> (Inr (), s) | Some sp \<Rightarrow> bind_scope_schema (ws_slug w) (Some sp) s) of
        (Inl x, s1) \<Rightarrow> (Inl x, s1)
      | (Inr _, s1) \<Rightarrow> (if scope_current (st_stack s1) = Some (ws_slug w) then (Inr (), s1)
          else case enter_scope (ws_slug w) s1 of (Inl x, s2) \<Rightarrow> (Inl x, s2) | (Inr _, s2) \<Rightarrow> (Inr (), s2)))"

definition leave_step :: "wizard_step \<Rightarrow> unit st_eff" where
  "leave_step w s = (if scope_current (st_stack s) = Some (ws_slug w)
     then (case exit_scope s of (Inl x, s1) \<Rightarrow> (Inl x, s1) | (Inr _, s1) \<Rightarrow> (Inr (), s1)) else (Inr (), s))"

subsection \<open>Accepted input\<close>

definition persist_answer :: "(pyval \<Rightarrow> string) \<Rightarrow> string \<Rightarrow> pyval \<Rightarrow> unit st_eff" where
  "persist_answer r slug v s =
     (let s1 = set_answers (dict_set slug v (get_answers s)) s in
      if st_schema s1 = None then (Inr (), s1)
      else case set_scoped ''answer'' v s1 of (Inl x, s2) \<Rightarrow> (Inl x, s2) | (Inr _, s2) \<Rightarrow> set_validated r slug v s2)"

definition complete_step_input :: "input_env \<Rightarrow> wizard_step \<Rightarrow> pyval \<Rightarrow> string list st_eff" where
  "complete_step_input env w v s = (case prepare_input env s w v of
     Inl x \<Rightarrow> (Inl x, s)
   | Inr (Inl e) \<Rightarrow> (Inr [e], s)
   | Inr (Inr v') \<Rightarrow> (case validate_prepared env s w v' of
       Inl x \<Rightarrow> (Inl x, s)
     | Inr (e # es) \<Rightarrow> (Inr (e # es), s)
     | Inr [] \<Rightarrow> (case persist_answer (ie_repr env) (ws_slug w) v' s of (Inl x, s1) \<Rightarrow> (Inl x, s1) | (Inr _, s1) \<Rightarrow> (Inr [], s1))))"

subsection \<open>Prompts\<close>

definition set_position :: "string \<Rightarrow> nat \<Rightarrow> dict_state \<Rightarrow> dict_state" where
  "set_position slug i s = st_set STEP_INDEX (VInt (int i)) (st_set CURRENT_STEP (VStr slug) s)"

definition publish_prompt :: "string \<Rightarrow> pydict \<Rightarrow> dict_state \<Rightarrow> dict_state" where
  "publish_prompt key bundle s = st_set ACTIVE_PROMPT (VDict bundle) (st_set key (VDict bundle) s)"

definition clear_prompt :: "string \<Rightarrow> dict_state \<Rightarrow> dict_state" where
  "clear_prompt key s = st_delete ACTIVE_PROMPT (st_delete key s)"

definition resolve_prompt :: "(pyval \<Rightarrow> string) \<Rightarrow> string \<Rightarrow> pydict \<Rightarrow> string" where
  "resolve_prompt r text binding = (if binding = [] then text
     else case bind_resource_value r (Some binding) (VStr text) of VStr t \<Rightarrow> t | _ \<Rightarrow> text)"

definition scope_fields :: "dict_state \<Rightarrow> pydict" where
  "scope_fields s = [(''scope_stack'', VList (map VStr (st_stack s))), (''scope_depth'', VInt (int (length (st_stack s))))]
     @ (case scope_current (st_stack s) of Some c \<Rightarrow> [(''current_scope'', VStr c)] | None \<Rightarrow> [])"

definition enrich_prompt :: "dict_state \<Rightarrow> pydict \<Rightarrow> pydict" where
  "enrich_prompt s bundle =
     (let b1 = dict_update bundle (scope_fields s); errors = st_get VALIDATION_ERRORS VNone s; err = st_get VALIDATION_ERROR VNone s in
      case errors of
        VList (e # es) \<Rightarrow> (let b2 = dict_set ''validation_errors'' errors b1 in if err \<noteq> VNone then dict_set ''validation_error'' err b2 else b2)
      | _ \<Rightarrow> b1)"

definition field_prompt :: "field_config \<Rightarrow> pyval" where
  "field_prompt f = VDict [(''slug'', VStr (fc_slug f)), (''field_type'', VStr (fc_type f)), (''required'', VBool (fc_required f)),
     (''choices'', VList (map VStr (fc_choices f))), (''title'', VStr (fc_title f)), (''prompt'', VStr (fc_prompt f))]"

definition text_entry :: "string \<Rightarrow> string option \<Rightarrow> pydict" where
  "text_entry k t = (case t of Some (ch # cs) \<Rightarrow> [(k, VStr (ch # cs))] | _ \<Rightarrow> [])"

definition collection_prompt :: "wizard_step \<Rightarrow> pydict" where
  "collection_prompt w = (if ws_kind w = ''collection'' \<and> ws_fields w \<noteq> []
     then [(''item_fields'', VList (map field_prompt (ws_fields w)))] @ text_entry ''collection_key'' (ws_collection_key w)
       @ (case ws_min_items w of Some n \<Rightarrow> [(''min_items'', VInt n)] | None \<Rightarrow> []) @ text_entry ''label_field'' (ws_label w)
     else [])"

definition build_prompt :: "(pyval \<Rightarrow> string) \<Rightarrow> string \<Rightarrow> wizard_step \<Rightarrow> nat \<Rightarrow> pydict \<Rightarrow> dict_state \<Rightarrow> pydict" where
  "build_prompt r wizard w i extra s =
     (let binding = get_answers s; filled = (\<lambda>t. let u = resolve_prompt r t binding in if u = [] then t else u);
          bundle = [(''wizard'', VStr wizard), (''slug'', VStr (ws_slug w)), (''title'', VStr (filled (ws_title w))),
            (''prompt'', VStr (filled (ws_prompt w))), (''field_type'', VStr (ws_type w)), (''choices'', VList (map VStr (ws_choices w))),
            (''step_index'', VInt (int i)), (''step_kind'', VStr (ws_kind w)), (''required'', VBool (ws_required w))]
            @ (if ws_rules w = [] then [] else [(''validation'', VList (map (\<lambda>(nm, ps). VDict [(''rule'', VStr nm), (''params'', VDict ps)]) (ws_rules w)))])
            @ collection_prompt w @ text_entry ''resource_ref'' (ws_resource w)
      in enrich_prompt s (dict_update bundle extra))"

subsection \<open>Routing an input\<close>

text \<open>\<open>provide_wizard_input\<close>: the input goes under the key of the prompt; the answer is its slug, None when there is no prompt.\<close>

definition provide_wizard_input :: "(pyval \<Rightarrow> string) \<Rightarrow> pyval \<Rightarrow> dict_state \<Rightarrow> string option \<times> dict_state" where
  "provide_wizard_input r v s = (case st_get ACTIVE_PROMPT VNone s of
     VDict prompt \<Rightarrow> (case py_get prompt ''input_key'' of
       VStr key \<Rightarrow> (if py_get prompt ''slug'' = VNone then None else Some (py_str r (py_get prompt ''slug'')), st_set key v s)
     | _ \<Rightarrow> (None, s))
   | _ \<Rightarrow> (None, s))"

definition is_affirmative :: "pyval \<Rightarrow> bool" where
  "is_affirmative v = (case v of
     VStr t \<Rightarrow> py_lower (py_strip t) \<in> {''yes'', ''y'', ''ok'', ''okay'', ''confirm'', ''continue''}
   | _ \<Rightarrow> py_eq v (VBool True))"

definition is_negative :: "pyval \<Rightarrow> bool" where
  "is_negative v = (case v of
     VBool b \<Rightarrow> \<not> b
   | VStr t \<Rightarrow> py_lower (py_strip t) \<in> {''no'', ''n'', ''nope'', ''cancel'', ''back'', ''go back'', ''change'', ''edit''}
   | _ \<Rightarrow> False)"

definition route_target :: "(pyval \<Rightarrow> string) \<Rightarrow> wizard_step \<Rightarrow> pyval \<Rightarrow> pyval" where
  "route_target r w v = (case py_get (ws_params w) ''route_on_answer'' of
     VDict route \<Rightarrow> (let t = py_get route (py_str r v) in if t = VNone then py_get route ''default'' else t)
   | _ \<Rightarrow> VNone)"

definition queue_route :: "(pyval \<Rightarrow> string) \<Rightarrow> wizard_step \<Rightarrow> pyval \<Rightarrow> dict_state \<Rightarrow> dict_state" where
  "queue_route r w v s =
     (let t = route_target r w v in
      if t \<noteq> VNone then st_set JUMP_TO_STEP (VStr (py_str r t)) s
      else case py_get (ws_params w) ''complete_on'' of
        VList xs \<Rightarrow> (if py_lower (py_str r v) \<in> set (map (\<lambda>x. py_lower (py_str r x)) xs) then st_set JUMP_TO_STEP (VStr ''__end__'') s else s)
      | _ \<Rightarrow> s)"

subsection \<open>Resource calls to undo\<close>

definition READ_ONLY_ACTIONS :: "string list" where
  "READ_ONLY_ACTIONS = [''fetch'', ''health'', ''describe'']"

definition is_mutating :: "string option \<Rightarrow> bool" where
  "is_mutating act = (case act of Some (ch # cs) \<Rightarrow> py_lower (py_strip (ch # cs)) \<notin> set READ_ONLY_ACTIONS | _ \<Rightarrow> False)"

definition undo_key :: "(pyval \<Rightarrow> string) \<Rightarrow> string option \<Rightarrow> pydict \<Rightarrow> string option" where
  "undo_key r ref md = (if truthy (py_get md ''compensation_key'') then Some (py_str r (py_get md ''compensation_key'')) else ref)"

definition track_invocation :: "(pyval \<Rightarrow> string) \<Rightarrow> string \<Rightarrow> string \<Rightarrow> string option \<Rightarrow> string option \<Rightarrow> string option \<Rightarrow> pydict \<Rightarrow> pyval list \<Rightarrow> pyval list" where
  "track_invocation r ref act provider rid slug md calls =
     (if \<not> is_mutating (Some act) then calls
      else case undo_key r (Some ref) md of
        Some (ch # cs) \<Rightarrow> calls @ [VDict [(''resource_ref'', VStr ref), (''compensation_key'', VStr (ch # cs)), (''action'', VStr act),
            (''provider'', opt_str_val provider), (''resource_id'', opt_str_val rid), (''step_slug'', opt_str_val slug)]]
      | _ \<Rightarrow> calls)"

definition undo_refs :: "(pyval \<Rightarrow> string) \<Rightarrow> pyval list \<Rightarrow> string list result" where
  "undo_refs r calls = invocation_refs r [] calls"

end
