(* ===== verification/Wizard.thy ===== *)
theory Wizard
  imports WizardState BehaviorTree
begin

text \<open>
  The wizard pattern (\<open>plugins/patterns/wizard\<close>): the phases that ask for input, show the summary and commit
  (\<open>flow/phases\<close>), the sequence with backtracking and jumps and the completion guard
  (\<open>bindings/behavior_tree/backtrack.py\<close>), and the pattern itself (\<open>pattern.py\<close>). Phases of the other kinds
  (collection, branch, resource, transform, workload) are arguments. Emitting and committing act on a world of
  their own; what was emitted is also kept in a log, and what each run of a commit handler has answered in another. A tick that would never return is None.
\<close>

subsection \<open>The world of a wizard\<close>

record commit_result =
  cm_ok :: bool
  cm_data :: pyval
  cm_error :: "string option"

record 'w wiz =
  wz_state :: dict_state
  wz_log :: "(string \<times> pydict) list"
  wz_runs :: "(string \<times> commit_result result) list"
  wz_world :: 'w

type_synonym ('a, 'w) wz_eff = "'w wiz \<Rightarrow> 'a result \<times> 'w wiz"

definition commit_success :: "pyval \<Rightarrow> commit_result" where
  "commit_success v = \<lparr>cm_ok = True, cm_data = v, cm_error = None\<rparr>"

definition commit_failure :: "string \<Rightarrow> commit_result" where
  "commit_failure m = \<lparr>cm_ok = False, cm_data = VNone, cm_error = Some m\<rparr>"

text \<open>A commit handler is given the answers and may change the state.\<close>

type_synonym 'w commit_handler = "pydict \<Rightarrow> dict_state \<Rightarrow> 'w \<Rightarrow> commit_result result \<times> dict_state \<times> 'w"

record 'w wiz_env =
  we_name :: string
  we_input :: input_env
  we_emit :: "string \<Rightarrow> pydict \<Rightarrow> 'w \<Rightarrow> unit result \<times> 'w"
  we_commits :: "string \<Rightarrow> 'w commit_handler option"
  we_phase :: "wizard_step \<Rightarrow> nat \<Rightarrow> (tick_value, 'w) wz_eff"
  we_reset :: "'w \<Rightarrow> 'w"

abbreviation we_repr :: "'w wiz_env \<Rightarrow> pyval \<Rightarrow> string" where "we_repr env \<equiv> ie_repr (we_input env)"

definition wz_bind :: "('a, 'w) wz_eff \<Rightarrow> ('a \<Rightarrow> ('b, 'w) wz_eff) \<Rightarrow> ('b, 'w) wz_eff" where
  "wz_bind m f z = (case m z of (Inl x, z1) \<Rightarrow> (Inl x, z1) | (Inr a, z1) \<Rightarrow> f a z1)"

definition wz_lift :: "'a st_eff \<Rightarrow> ('a, 'w) wz_eff" where
  "wz_lift f z = (case f (wz_state z) of (res, s) \<Rightarrow> (res, z\<lparr>wz_state := s\<rparr>))"

definition wz_do :: "(dict_state \<Rightarrow> dict_state) \<Rightarrow> (unit, 'w) wz_eff" where
  "wz_do f z = (Inr (), z\<lparr>wz_state := f (wz_state z)\<rparr>)"

fun wz_all :: "(unit, 'w) wz_eff list \<Rightarrow> 'a \<Rightarrow> ('a, 'w) wz_eff" where
  "wz_all [] a = Pair (Inr a)"
| "wz_all (m # ms) a = wz_bind m (\<lambda>_. wz_all ms a)"

definition raw_emit :: "'w wiz_env \<Rightarrow> string \<Rightarrow> pydict \<Rightarrow> (unit, 'w) wz_eff" where
  "raw_emit env t p z = (case we_emit env t p (wz_world z) of (res, w) \<Rightarrow> (res, z\<lparr>wz_world := w, wz_log := wz_log z @ [(t, p)]\<rparr>))"

definition wz_emit :: "'w wiz_env \<Rightarrow> string \<Rightarrow> pydict \<Rightarrow> (unit, 'w) wz_eff" where
  "wz_emit env t p = raw_emit env t (dict_setdefault ''wizard'' (VStr (we_name env)) p)"

subsection \<open>Prompts and feedback\<close>

definition phase_prompt :: "'w wiz_env \<Rightarrow> wizard_step \<Rightarrow> nat \<Rightarrow> pydict \<Rightarrow> dict_state \<Rightarrow> pydict" where
  "phase_prompt env w i extra = build_prompt (we_repr env) (we_name env) w i ((''input_key'', VStr (input_key (ws_slug w))) # extra)"

definition enter_phase :: "wizard_step \<Rightarrow> nat \<Rightarrow> (unit, 'w) wz_eff" where
  "enter_phase w i = wz_bind (wz_do (set_position (ws_slug w) i)) (\<lambda>_. wz_lift (enter_step w))"

text \<open>\<open>activate_prompt\<close> with a bundle that has been built before.\<close>

definition activate_prompt :: "wizard_step \<Rightarrow> nat \<Rightarrow> pydict \<Rightarrow> (unit, 'w) wz_eff" where
  "activate_prompt w i bundle = wz_do (\<lambda>s. publish_prompt (prompt_key (ws_slug w)) (dict_setdefault ''input_key'' (VStr (input_key (ws_slug w))) bundle)
     (set_position (ws_slug w) i s))"

definition step_started :: "'w wiz_env \<Rightarrow> wizard_step \<Rightarrow> nat \<Rightarrow> pyval \<Rightarrow> (unit, 'w) wz_eff" where
  "step_started env w i title = wz_emit env ''wizard.step.started'' [(''slug'', VStr (ws_slug w)), (''title'', title), (''step_index'', VInt (int i))]"

definition feedback :: "'w wiz_env \<Rightarrow> wizard_step \<Rightarrow> nat \<Rightarrow> pydict \<Rightarrow> pyval list \<Rightarrow> (unit, 'w) wz_eff" where
  "feedback env w i extra errors z = wz_lift (publish_feedback errors (phase_prompt env w i extra (wz_state z)) (prompt_key (ws_slug w))) z"

definition rejected :: "'w wiz_env \<Rightarrow> wizard_step \<Rightarrow> pydict \<Rightarrow> (unit, 'w) wz_eff" where
  "rejected env w extra = wz_emit env ''wizard.validation.failed'' ((''slug'', VStr (ws_slug w)) # extra)"

definition errors_entry :: "pyval list \<Rightarrow> string \<times> pyval" where
  "errors_entry es = (''errors'', VList es)"

text \<open>Asking for the input of a step: enter its scope, show its prompt, tell that it has started.\<close>

definition ask :: "'w wiz_env \<Rightarrow> wizard_step \<Rightarrow> nat \<Rightarrow> pydict \<Rightarrow> (pattern_status, 'w) wz_eff" where
  "ask env w i extra = wz_bind (enter_phase w i) (\<lambda>_ z.
     let b = phase_prompt env w i extra (wz_state z) in
     wz_all [activate_prompt w i b, step_started env w i (get_default b ''title'' (VStr (ws_title w)))] WAITING z)"

subsection \<open>The input phase\<close>

definition received :: "'w wiz_env \<Rightarrow> wizard_step \<Rightarrow> nat \<Rightarrow> pyval \<Rightarrow> string \<Rightarrow> (unit, 'w) wz_eff" where
  "received env w i v t = wz_emit env t [(''slug'', VStr (ws_slug w)), (''value'', v), (''step_index'', VInt (int i))]"

definition handle_input :: "'w wiz_env \<Rightarrow> wizard_step \<Rightarrow> nat \<Rightarrow> pyval \<Rightarrow> (pattern_status, 'w) wz_eff" where
  "handle_input env w i v = wz_bind (wz_lift (complete_step_input (we_input env) w v)) (\<lambda>es.
     if es \<noteq> [] then wz_all [feedback env w i [] (map VStr es), rejected env w [errors_entry (map VStr es)]] WAITING
     else wz_all [wz_lift (leave_step w), wz_do (clear_prompt (prompt_key (ws_slug w))), wz_do clear_feedback,
       received env w i v ''wizard.input.received'', received env w i v ''wizard.step.completed'', wz_do (queue_route (we_repr env) w v)] SUCCESS)"

subsection \<open>The summary phase\<close>

definition summary_extra :: "pydict \<Rightarrow> pydict" where
  "summary_extra answers = [(''field_type'', VStr ''confirm''), (''step_kind'', VStr ''summary''), (''summary'', VDict answers)]"

definition show_summary :: "'w wiz_env \<Rightarrow> wizard_step \<Rightarrow> nat \<Rightarrow> pydict \<Rightarrow> pydict \<Rightarrow> bool \<Rightarrow> (pattern_status, 'w) wz_eff" where
  "show_summary env w i bundle answers valid = wz_all [activate_prompt w i bundle,
     wz_emit env ''wizard.summary.shown'' [(''summary'', VDict answers), (''schema_valid'', VBool valid)],
     step_started env w i (VStr (ws_title w))] WAITING"

definition answers_rejected :: "'w wiz_env \<Rightarrow> wizard_step \<Rightarrow> string \<Rightarrow> pyval list \<Rightarrow> (unit, 'w) wz_eff" where
  "answers_rejected env w reason es = rejected env w [errors_entry es, (''reason'', VStr reason)]"

definition collected :: "'w wiz_env \<Rightarrow> (pyval list, 'w) wz_eff" where
  "collected env z = (collected_errors (we_repr env) (wz_state z) (get_answers (wz_state z)), z)"

text \<open>The errors are reported as they are and shown formatted; the prompt of the request has been built before.\<close>

definition ask_summary :: "'w wiz_env \<Rightarrow> wizard_step \<Rightarrow> nat \<Rightarrow> (pattern_status, 'w) wz_eff" where
  "ask_summary env w i z =
     (let answers = get_answers (wz_state z); b = phase_prompt env w i (summary_extra answers) (wz_state z) in
      wz_bind (collected env) (\<lambda>es.
        if es \<noteq> [] then wz_bind (wz_all [wz_lift (publish_feedback es b (prompt_key (ws_slug w))), answers_rejected env w ''summary_schema'' es] ())
            (\<lambda>_. show_summary env w i b answers False)
        else wz_bind (wz_do clear_feedback) (\<lambda>_. show_summary env w i b answers True)) z)"

definition handle_summary :: "'w wiz_env \<Rightarrow> wizard_step \<Rightarrow> nat \<Rightarrow> pyval \<Rightarrow> (pattern_status, 'w) wz_eff" where
  "handle_summary env w i v z =
     (let extra = summary_extra (get_answers (wz_state z)); back = int i - 1 in
      wz_bind (collected env) (\<lambda>es.
        if es \<noteq> [] then wz_all [feedback env w i extra es, answers_rejected env w ''summary_schema'' es] WAITING
        else if is_negative v then wz_all [wz_do clear_feedback, wz_do (clear_prompt (prompt_key (ws_slug w))), wz_do (st_delete SUMMARY_ACK),
            wz_do (st_set BACKTRACK_TO (VInt (max 0 back))),
            wz_emit env ''wizard.backtrack.requested'' [(''from_step'', VStr (ws_slug w)), (''to_index'', VInt (max 0 back)), (''reason'', VStr ''summary_declined'')]] RUNNING_STATUS
        else if \<not> is_affirmative v then wz_all [feedback env w i extra [VStr ''Please confirm the summary to continue (yes), or say no to go back.''],
            rejected env w [(''reason'', VStr ''summary'')]] WAITING
        else wz_all [wz_do (st_set SUMMARY_ACK (VBool True)), wz_lift (leave_step w), wz_do (clear_prompt (prompt_key (ws_slug w))), wz_do clear_feedback,
            wz_emit env ''wizard.input.received'' [(''slug'', VStr (ws_slug w)), (''value'', v)]] SUCCESS) z)"

subsection \<open>The commit phase\<close>

definition COMMIT_SUCCEEDED :: string where "COMMIT_SUCCEEDED = ''wizard.commit.succeeded''"

definition commit_extra :: "string \<Rightarrow> pydict" where
  "commit_extra hook = [(''field_type'', VStr ''confirm''), (''step_kind'', VStr ''commit''), (''commit_hook'', VStr hook)]"

text \<open>\<open>CommitRegistry.run\<close>: an unknown handler and one that raises have failed.\<close>

definition run_commit :: "'w wiz_env \<Rightarrow> string \<Rightarrow> (commit_result, 'w) wz_eff" where
  "run_commit env hook z = (case we_commits env hook of
     None \<Rightarrow> (Inr (commit_failure (''Unknown commit handler: '' @ quoted hook)), z)
   | Some h \<Rightarrow> (case h (get_answers (wz_state z)) (wz_state z) (wz_world z) of
       (res, s, w) \<Rightarrow> (Inr (case res of Inl x \<Rightarrow> commit_failure (exc_msg x) | Inr c \<Rightarrow> c), z\<lparr>wz_state := s, wz_runs := wz_runs z @ [(hook, res)], wz_world := w\<rparr>)))"

definition tracked_calls :: "dict_state \<Rightarrow> pyval list" where
  "tracked_calls s = (case st_get RESOURCE_INVOCATIONS VNone s of VList xs \<Rightarrow> xs | _ \<Rightarrow> [])"

definition commit_done :: "'w wiz_env \<Rightarrow> wizard_step \<Rightarrow> string \<Rightarrow> commit_result \<Rightarrow> (pattern_status, 'w) wz_eff" where
  "commit_done env w hook c = wz_all [wz_do (st_set COMMITTED (VBool True)), wz_do (st_set COMMIT_RESULT (cm_data c)),
     (if cm_data c = VNone then Pair (Inr ()) else wz_do (st_set ''__result__'' (cm_data c))), wz_do (st_delete COMMIT_ERROR),
     wz_lift (leave_step w), wz_do (clear_prompt (prompt_key (ws_slug w))),
     wz_emit env COMMIT_SUCCEEDED [(''hook'', VStr hook), (''data'', cm_data c)],
     wz_emit env ''wizard.input.received'' [(''slug'', VStr (ws_slug w)), (''value'', VBool True)]] SUCCESS"

definition commit_failed :: "'w wiz_env \<Rightarrow> string \<Rightarrow> commit_result \<Rightarrow> (pattern_status, 'w) wz_eff" where
  "commit_failed env hook c = wz_bind (wz_all [wz_do (st_set COMMIT_ERROR (opt_str_val (cm_error c))), wz_do (st_delete COMMITTED)] ()) (\<lambda>_ z.
     let calls = tracked_calls (wz_state z) in case undo_refs (we_repr env) calls of
       Inl x \<Rightarrow> (Inl x, z)
     | Inr refs \<Rightarrow> wz_all [wz_emit env COMMIT_FAILED [(''hook'', VStr hook), (''error'', opt_str_val (cm_error c)),
         (''resource_refs'', VList (map VStr refs)), (''resource_invocations'', VList calls)]] FAILURE z)"

definition handle_commit :: "'w wiz_env \<Rightarrow> wizard_step \<Rightarrow> nat \<Rightarrow> string \<Rightarrow> pyval \<Rightarrow> (pattern_status, 'w) wz_eff" where
  "handle_commit env w i hook v = wz_bind (collected env) (\<lambda>es.
     if es \<noteq> [] then wz_all [feedback env w i (commit_extra hook) es, answers_rejected env w ''commit_schema'' es] WAITING
     else if \<not> is_affirmative v then wz_all [feedback env w i (commit_extra hook) [VStr ''Please confirm commit to apply your changes.''],
         rejected env w [(''reason'', VStr ''commit'')]] WAITING
     else wz_bind (wz_all [wz_do clear_feedback, wz_emit env ''wizard.commit.started'' [(''hook'', VStr hook)], wz_do merge_state] ()) (\<lambda>_.
       wz_bind (run_commit env hook) (\<lambda>c. if cm_ok c then commit_done env w hook c else commit_failed env hook c)))"

subsection \<open>One phase\<close>

definition OTHER_KINDS :: "string list" where
  "OTHER_KINDS = [''collection'', ''branch'', ''resource'', ''transform'', ''workload'']"

definition interactive :: "wizard_step \<Rightarrow> (pattern_status, 'w) wz_eff \<Rightarrow> (pyval \<Rightarrow> (pattern_status, 'w) wz_eff) \<Rightarrow> (tick_value, 'w) wz_eff" where
  "interactive w request handle z =
     (let key = input_key (ws_slug w); s = wz_state z in
      case (if st_has key s then handle (st_get key VNone s) (z\<lparr>wz_state := st_delete key s\<rparr>) else request z) of
        (res, z1) \<Rightarrow> (map_sum id Status res, z1))"

definition phase_impl :: "'w wiz_env \<Rightarrow> wizard_step \<Rightarrow> nat \<Rightarrow> (tick_value, 'w) wz_eff" where
  "phase_impl env w i =
     (if ws_kind w = ''summary'' then interactive w (ask_summary env w i) (handle_summary env w i)
      else if ws_kind w = ''commit''
      then (let hook = (case ws_hook w of Some h \<Rightarrow> h | None \<Rightarrow> []) in interactive w (ask env w i (commit_extra hook)) (handle_commit env w i hook))
      else if ws_kind w \<in> set OTHER_KINDS then we_phase env w i
      else interactive w (ask env w i []) (handle_input env w i))"

definition phase_tick :: "'w wiz_env \<Rightarrow> wizard_step \<Rightarrow> nat \<Rightarrow> (pattern_status, 'w) wz_eff" where
  "phase_tick env w i z = (case phase_impl env w i z of (res, z1) \<Rightarrow> (tick_outcome (ws_slug w) res, z1))"

subsection \<open>The sequence\<close>

text \<open>Where a backtrack goes: a position, or the slug of a step; anything else is ignored.\<close>

definition at_position :: "wizard_config \<Rightarrow> int \<Rightarrow> (nat \<times> string) option" where
  "at_position c n = (if n < 0 \<or> n \<ge> int (length (tree_steps c)) then None else Some (nat n, ws_slug (spine c ! nat n)))"

definition resolve_backtrack :: "wizard_config \<Rightarrow> pyval \<Rightarrow> (nat \<times> string) option result" where
  "resolve_backtrack c v = (case v of
     VInt n \<Rightarrow> Inr (at_position c n)
   | VBool b \<Rightarrow> Inr (at_position c (if b then 1 else 0))
   | VStr slug \<Rightarrow> (if \<not> can_backtrack_to c slug then Inr None else attempt (index_of c slug) (\<lambda>i. Inr (Some (i, slug))))
   | _ \<Rightarrow> Inr None)"

text \<open>Resetting the whole tree puts the cursor back to zero before it jumps.\<close>

definition move_to :: "wizard_config \<Rightarrow> nat \<Rightarrow> dict_state \<Rightarrow> dict_state" where
  "move_to c i s = st_set CURRENT_STEP (VStr (ws_slug (spine c ! i))) (st_set STEP_INDEX (VInt (int i)) s)"

definition reset_for_backtrack :: "'w wiz_env \<Rightarrow> wizard_config \<Rightarrow> nat \<Rightarrow> 'w wiz \<Rightarrow> 'w wiz" where
  "reset_for_backtrack env c i z = z\<lparr>wz_world := we_reset env (wz_world z), wz_state := st_delete ACTIVE_PROMPT (move_to c i (wz_state z))\<rparr>"

definition apply_backtrack :: "'w wiz_env \<Rightarrow> wizard_config \<Rightarrow> (nat option, 'w) wz_eff" where
  "apply_backtrack env c z =
     (let target = st_get BACKTRACK_TO VNone (wz_state z); z1 = z\<lparr>wz_state := st_delete BACKTRACK_TO (wz_state z)\<rparr> in
      if \<not> wc_back c then (Inr None, z1)
      else if target = VNone then (Inr None, z)
      else case resolve_backtrack c target of
        Inl x \<Rightarrow> (Inl x, z1)
      | Inr None \<Rightarrow> (Inr None, z1)
      | Inr (Some (i, slug)) \<Rightarrow> (if \<not> can_backtrack_to c slug then (Inr None, z1) else (Inr (Some i), reset_for_backtrack env c i z1)))"

definition notify_backtrack :: "'w wiz_env \<Rightarrow> wizard_config \<Rightarrow> nat \<Rightarrow> pyval \<Rightarrow> (unit, 'w) wz_eff" where
  "notify_backtrack env c i from_step =
     (let slug = VStr (ws_slug (spine c ! i));
          p = [(''wizard'', VStr (we_name env)), (''step_index'', VInt (int i)), (''slug'', slug), (''from_step'', from_step), (''to_slug'', slug)]
      in wz_all [raw_emit env ''wizard.backtrack'' p, raw_emit env BACKTRACK_EXECUTED p] ())"

definition jump_target :: "(pyval \<Rightarrow> string) \<Rightarrow> wizard_config \<Rightarrow> pyval \<Rightarrow> nat \<Rightarrow> nat" where
  "jump_target r c v i = (if py_str r v = ''__end__'' then length (tree_steps c)
     else case index_of c (py_str r v) of Inr j \<Rightarrow> j | Inl _ \<Rightarrow> Suc i)"

text \<open>After a successful step: the cursor after the jump it asked for, or behind the step.\<close>

definition advance :: "'w wiz_env \<Rightarrow> wizard_config \<Rightarrow> nat \<Rightarrow> 'w wiz \<Rightarrow> nat \<times> 'w wiz" where
  "advance env c i z =
     (let v = st_get JUMP_TO_STEP VNone (wz_state z); s1 = st_delete JUMP_TO_STEP (wz_state z); j = jump_target (we_repr env) c v i in
      if v = VNone then (Suc i, z)
      else if py_str (we_repr env) v = ''__end__'' \<or> isl (index_of c (py_str (we_repr env) v)) then (j, z\<lparr>wz_state := s1\<rparr>)
      else (j, z\<lparr>wz_state := move_to c j s1\<rparr>))"

text \<open>The answer, the cursor afterwards and the world.\<close>

partial_function (option) wizard_loop :: "'w wiz_env \<Rightarrow> wizard_config \<Rightarrow> nat \<Rightarrow> 'w wiz \<Rightarrow> (pattern_status result \<times> nat \<times> 'w wiz) option" where
  "wizard_loop env c i z =
     (if i < length (tree_steps c)
      then (case phase_tick env (spine c ! i) i z of
          (Inl x, z1) \<Rightarrow> Some (Inl x, i, z1)
        | (Inr st, z1) \<Rightarrow>
            (if is_yielding_status st then Some (Inr st, i, z1)
             else if st = FAILURE then Some (Inr FAILURE, 0, z1)
             else wizard_loop env c (fst (advance env c i z1)) (snd (advance env c i z1))))
      else Some (Inr SUCCESS, 0, z))"

definition sequence_impl :: "'w wiz_env \<Rightarrow> wizard_config \<Rightarrow> nat \<Rightarrow> 'w wiz \<Rightarrow> (pattern_status result \<times> nat \<times> 'w wiz) option" where
  "sequence_impl env c i z =
     (let from_step = st_get CURRENT_STEP VNone (wz_state z) in
      case apply_backtrack env c z of
        (Inl x, z1) \<Rightarrow> Some (Inl x, i, z1)
      | (Inr None, z1) \<Rightarrow> wizard_loop env c i z1
      | (Inr (Some j), z1) \<Rightarrow> (case notify_backtrack env c j from_step z1 of
          (Inl x, z2) \<Rightarrow> Some (Inl x, j, z2)
        | (Inr _, z2) \<Rightarrow> wizard_loop env c j z2))"

subsection \<open>The completion guard and the pattern\<close>

definition sequence_tick :: "'w wiz_env \<Rightarrow> wizard_config \<Rightarrow> nat \<Rightarrow> 'w wiz \<Rightarrow> (pattern_status result \<times> nat \<times> 'w wiz) option" where
  "sequence_tick env c i z = map_option (\<lambda>(res, j, z1). (tick_outcome (we_name env @ ''_sequence'') (map_sum id Status res), j, z1)) (sequence_impl env c i z)"

definition finish_wizard :: "'w wiz_env \<Rightarrow> wizard_config \<Rightarrow> (pattern_status, 'w) wz_eff" where
  "finish_wizard env c z =
     (let s = wz_state z in
      if wc_commit c \<and> \<not> truthy (st_get COMMITTED VNone s) then (Inr FAILURE, z)
      else wz_bind (wz_all [wz_do (st_set COMPLETED_KEY (VBool True)), wz_do (st_set CURRENT_STEP VNone), wz_do (st_delete ACTIVE_PROMPT)] ()) (\<lambda>_ z1.
        wz_all [wz_emit env ''wizard.completed'' [(''answers'', st_get ANSWERS (VDict []) (wz_state z1)),
          (''committed'', VBool (truthy (st_get COMMITTED VNone (wz_state z1))))]] SUCCESS z1) z)"

definition guard_impl :: "'w wiz_env \<Rightarrow> wizard_config \<Rightarrow> nat \<Rightarrow> 'w wiz \<Rightarrow> (pattern_status result \<times> nat \<times> 'w wiz) option" where
  "guard_impl env c i z =
     (if truthy (st_get COMPLETED_KEY VNone (wz_state z)) then Some (Inr SUCCESS, i, z)
      else case sequence_tick env c i (z\<lparr>wz_state := merge_state (wz_state z)\<rparr>) of
        None \<Rightarrow> None
      | Some (Inr SUCCESS, j, z1) \<Rightarrow> Some (case finish_wizard env c z1 of (res, z2) \<Rightarrow> (res, j, z2))
      | Some (res, j, z1) \<Rightarrow> Some (res, j, z1))"

record wizard =
  wd_config :: wizard_config
  wd_index :: nat

definition wizard_tick :: "'w wiz_env \<Rightarrow> wizard \<Rightarrow> 'w wiz \<Rightarrow> (pattern_status result \<times> wizard \<times> 'w wiz) option" where
  "wizard_tick env p z = map_option (\<lambda>(res, j, z1). (tick_outcome (we_name env @ ''_completion'') (map_sum id Status res), p\<lparr>wd_index := j\<rparr>, z1))
     (guard_impl env (wd_config p) (wd_index p) z)"

definition wizard_reset :: "'w wiz_env \<Rightarrow> wizard \<Rightarrow> 'w wiz \<Rightarrow> wizard \<times> 'w wiz" where
  "wizard_reset env p z = (p\<lparr>wd_index := 0\<rparr>, z\<lparr>wz_world := we_reset env (wz_world z)\<rparr>)"

definition new_wizard :: "wizard_config \<Rightarrow> wizard result" where
  "new_wizard c = (case find (\<lambda>w. ws_kind w = ''commit'' \<and> blank (ws_hook w)) (spine c) of
     Some w \<Rightarrow> step_error ''Commit'' (ws_slug w) ''requires commit_hook''
   | None \<Rightarrow> Inr \<lparr>wd_config = c, wd_index = 0\<rparr>)"

definition restore_position :: "nat \<Rightarrow> wizard \<Rightarrow> dict_state \<Rightarrow> wizard result \<times> dict_state" where
  "restore_position i p s = (if i \<ge> length (tree_steps (wd_config p))
     then (Inl (Exc PyIndexError (''Wizard step index out of range: '' @ show_nat i)), s)
     else (Inr (p\<lparr>wd_index := i\<rparr>), move_to (wd_config p) i s))"

definition request_backtrack :: "'w wiz_env \<Rightarrow> wizard_config \<Rightarrow> string \<Rightarrow> (unit, 'w) wz_eff" where
  "request_backtrack env c slug =
     (if \<not> wc_back c then Pair (Inl (Exc PyValueError ''Backtracking is disabled for this wizard''))
      else if \<not> can_backtrack_to c slug
      then wz_bind (wz_emit env ''wizard.backtrack.blocked'' [(''target'', VStr slug), (''protected'', VList (map VStr (remdups (protected_slugs c))))])
        (\<lambda>_. Pair (Inl (Exc PyValueError (''Cannot backtrack to protected step: '' @ quoted slug))))
      else case index_of c slug of
        Inl x \<Rightarrow> Pair (Inl x)
      | Inr _ \<Rightarrow> (\<lambda>z. wz_all [wz_emit env ''wizard.backtrack.requested'' [(''from_step'', st_get CURRENT_STEP VNone (wz_state z)), (''to_slug'', VStr slug)],
          wz_do (st_set BACKTRACK_TO (VStr slug))] () z))"

definition current_step_slug :: "(pyval \<Rightarrow> string) \<Rightarrow> dict_state \<Rightarrow> string option" where
  "current_step_slug r s = (if st_get CURRENT_STEP VNone s = VNone then None else Some (py_str r (st_get CURRENT_STEP VNone s)))"

definition is_committed :: "dict_state \<Rightarrow> bool" where
  "is_committed s = truthy (st_get COMMITTED VNone s)"

end
