(* ===== verification/WizardInputProps.thy ===== *)
theory WizardInputProps
  imports Wizard
begin

text \<open>
  Properties of the input of a wizard: a choice always resolves to one of the choices, and what is accepted has
  passed every rule and schema and is stored, while a rejected input changes nothing.
\<close>

subsection \<open>Choices\<close>

lemma the_only_member: "the_only xs = Some x \<Longrightarrow> x \<in> set xs"
  by (auto simp: the_only_def split: list.splits)

lemma by_prefix_member: "by_prefix low cs = Some c \<Longrightarrow> c \<in> set cs"
  by (auto simp: by_prefix_def dest!: the_only_member split: option.splits)

lemma nth_choice: "1 \<le> n \<Longrightarrow> n \<le> int (length cs) \<Longrightarrow> cs ! nat (n - 1) \<in> set cs"
  by (intro nth_mem) linarith

lemma resolve_text_member: "resolve_text t cs = Inr (Some c) \<Longrightarrow> c \<in> set cs"
  by (auto simp: resolve_text_def Let_def attempt_def dest: by_prefix_member the_only_member
      intro!: nth_choice split: if_splits option.splits sum.splits)

lemma py_in_texts: "py_in v (map VStr cs) \<longleftrightarrow> (\<exists>c \<in> set cs. v = VStr c)"
proof -
  have "py_eq v (VStr c) \<longleftrightarrow> v = VStr c" for c by (cases v) (simp_all, metis)
  then show ?thesis by (auto simp: py_in_def list_ex_iff)
qed

lemma resolve_choice_member: "resolve_choice r v cs = Inr (Some c) \<Longrightarrow> c \<in> set cs"
  by (cases v) (auto simp: resolve_choice_def py_in_texts dest: resolve_text_member intro!: nth_choice split: if_splits)

lemma resolve_exact: "py_strip t = c \<Longrightarrow> c \<noteq> [] \<Longrightarrow> c \<in> set cs \<Longrightarrow> resolve_choice r (VStr t) cs = Inr (Some c)"
  by (auto simp: resolve_choice_def resolve_text_def Let_def)

lemma resolve_number:
  assumes "1 \<le> n" "n \<le> int (length cs)"
  shows "resolve_choice r (VInt n) cs = Inr (Some (cs ! nat (n - 1)))"
  using assms by (auto simp: resolve_choice_def)

subsection \<open>Accepted input\<close>

definition name_ok :: "string \<Rightarrow> bool" where
  "name_ok slug = (slug \<noteq> [] \<and> \<not> prefix ''__'' slug)"

lemma name_ok_keys [simp]:
  assumes "name_ok slug"
  shows "slug \<noteq> wizard_key k" "slug \<noteq> SCOPES_ROOT_KEY" "slug \<noteq> input_key k" "slug \<noteq> prompt_key k"
    "wizard_key k \<noteq> slug" "SCOPES_ROOT_KEY \<noteq> slug" "input_key k \<noteq> slug" "prompt_key k \<noteq> slug"
  using assms by (auto simp: name_ok_def wizard_key_def SCOPES_ROOT_KEY_def input_key_def prompt_key_def)

lemma wizard_keys: "ANSWERS = wizard_key ''answers''" by (rule ANSWERS_def)

lemma get_answers_frame: "dict_get (st_data s') ANSWERS = dict_get (st_data s) ANSWERS \<Longrightarrow> get_answers s' = get_answers s"
  by (simp add: get_answers_def st_get_def get_default_def)

lemma get_set_answers [simp]: "get_answers (set_answers d s) = d"
  by (simp add: get_answers_def set_answers_def st_get_def st_set_def)

text \<open>A scoped write touches only the key under which all scopes are kept.\<close>

lemma scoped_frame: "set_scoped k v s = (Inr u, s') \<Longrightarrow> k' \<noteq> SCOPES_ROOT_KEY \<Longrightarrow> dict_get (st_data s') k' = dict_get (st_data s) k'"
  by (auto simp: set_scoped_def scope_set_def navigate_update_def split: sum.splits if_splits)

lemma persist_stores:
  assumes "persist_answer r slug v s = (Inr u, s')" "name_ok slug"
  shows "get_answers s' = dict_set slug v (get_answers s)"
proof -
  let ?s1 = "set_answers (dict_set slug v (get_answers s)) s"
  have ne: "slug \<noteq> ANSWERS" "ANSWERS \<noteq> SCOPES_ROOT_KEY" using assms(2) by (auto simp: name_ok_def ANSWERS_def wizard_key_def SCOPES_ROOT_KEY_def)
  show ?thesis
  proof (cases "st_schema ?s1")
    case None
    then have "s' = ?s1" using assms(1) by (simp add: persist_answer_def Let_def)
    then show ?thesis by simp
  next
    case (Some sp)
    then obtain u2 s2 where two: "set_scoped ''answer'' v ?s1 = (Inr u2, s2)" "set_validated r slug v s2 = (Inr u, s')"
      using assms(1) by (auto simp: persist_answer_def Let_def split: prod.splits sum.splits)
    have "s' = s2 \<or> s' = st_set slug v s2" using two(2) by (auto simp: set_validated_def split: sum.splits option.splits)
    then have "dict_get (st_data s') ANSWERS = dict_get (st_data ?s1) ANSWERS"
      using scoped_frame [OF two(1) ne(2)] ne(1) by (auto simp: st_set_def)
    then show ?thesis using get_answers_frame [of s' ?s1] by simp
  qed
qed

lemma formatted_Nil: "formatted es rest = Inr [] \<Longrightarrow> es = Inr [] \<and> rest () = Inr []"
proof -
  assume a: "formatted es rest = Inr []"
  then obtain vs where vs: "es = Inr vs" by (cases es) (auto simp: formatted_def)
  have "vs = []" using a vs by (cases vs) (auto simp: formatted_def attempt_def split: pyval.splits sum.splits)
  then show ?thesis using a vs by (simp add: formatted_def)
qed

lemma concat_results_Nil: "concat_results rs = Inr [] \<Longrightarrow> x \<in> set rs \<Longrightarrow> x = Inr []"
  by (induction rs) (auto simp: attempt_def split: sum.splits)

text \<open>What a value of a step has to satisfy, stated without messages.\<close>

definition answer_ok :: "input_env \<Rightarrow> dict_state \<Rightarrow> wizard_step \<Rightarrow> pyval \<Rightarrow> bool" where
  "answer_ok env s w a = ((ws_required w \<longrightarrow> a \<notin> {VNone, VStr []}) \<and> (ws_type w = ''choice'' \<longrightarrow> (\<exists>c \<in> set (ws_choices w). a = VStr c))
     \<and> (\<forall>rule \<in> set (ws_rules w). run_rule env w a rule = Inr [])
     \<and> (\<forall>sp. scope_schema_of s w = Some sp \<longrightarrow> conforms a sp)
     \<and> (\<forall>sp d. st_schema s = Some sp \<longrightarrow> dict_get (schema_properties sp) (ws_slug w) = Some (VDict d) \<longrightarrow> conforms a d))"

definition documents_ok :: "dict_state \<Rightarrow> wizard_step \<Rightarrow> bool" where
  "documents_ok s w = ((\<forall>sp. scope_schema_of s w = Some sp \<longrightarrow> schema_ok (VDict sp)) \<and> (\<forall>sp. st_schema s = Some sp \<longrightarrow> state_schema_ok sp))"

lemma value_errors_Nil:
  assumes "value_errors env w a = Inr []"
  shows "builtin_errors (ie_repr env) w a = Inr [] \<and> (\<forall>rule \<in> set (ws_rules w). run_rule env w a rule = Inr [])"
proof -
  obtain es where es: "builtin_errors (ie_repr env) w a = Inr es" using assms by (cases "builtin_errors (ie_repr env) w a") (auto simp: value_errors_def)
  then have "es = []" "ws_rules w = [] \<or> rule_errors env w a = Inr []" using assms by (auto simp: value_errors_def split: if_splits)
  then show ?thesis using es concat_results_Nil [of "map (run_rule env w a) (ws_rules w)"] by (auto simp: rule_errors_def)
qed

lemma builtin_Nil:
  assumes "builtin_errors r w a = Inr []"
  shows "(ws_required w \<longrightarrow> a \<notin> {VNone, VStr []}) \<and> (ws_type w = ''choice'' \<longrightarrow> (\<exists>c \<in> set (ws_choices w). a = VStr c))"
  using assms by (auto simp: builtin_errors_def py_in_texts split: if_splits)

lemma step_errors_Nil:
  assumes "step_errors r s w a = Inr []" "documents_ok s w"
  shows "\<forall>sp. scope_schema_of s w = Some sp \<longrightarrow> conforms a sp"
proof (intro allI impI)
  fix sp
  assume sp: "scope_schema_of s w = Some sp"
  then have "schema_ok (VDict sp)" using assms(2) by (simp add: documents_ok_def)
  from validate_judges [OF this, of r a "ws_slug w"] show "conforms a sp" using assms(1) sp by (auto simp: step_errors_def judges_def)
qed

lemma flow_errors_Nil:
  assumes "flow_errors r s slug a = Inr []" "documents_ok s w"
  shows "\<forall>sp d. st_schema s = Some sp \<longrightarrow> dict_get (schema_properties sp) slug = Some (VDict d) \<longrightarrow> conforms a d"
proof (intro allI impI)
  fix sp d
  assume sp: "st_schema s = Some sp" "dict_get (schema_properties sp) slug = Some (VDict d)"
  then have "state_schema_ok sp" using assms(2) by (simp add: documents_ok_def)
  from validate_key_decides [OF this, of r slug a] show "conforms a d"
    using assms(1) sp by (auto simp: flow_errors_def is_subclass_refl split: if_splits)
qed

lemma validated_is_ok:
  assumes "validate_prepared env s w a = Inr []" "documents_ok s w"
  shows "answer_ok env s w a"
proof -
  have one: "value_errors env w a = Inr []" "formatted (step_errors (ie_repr env) s w a) (\<lambda>_.
       formatted (flow_errors (ie_repr env) s (ws_slug w) a) (\<lambda>_. Inr [])) = Inr []"
    using formatted_Nil [OF assms(1) [unfolded validate_prepared_def]] by blast+
  have two: "step_errors (ie_repr env) s w a = Inr []" "formatted (flow_errors (ie_repr env) s (ws_slug w) a) (\<lambda>_. Inr []) = Inr []"
    using formatted_Nil [OF one(2)] by blast+
  have three: "flow_errors (ie_repr env) s (ws_slug w) a = Inr []" using formatted_Nil [OF two(2)] by blast
  show ?thesis using value_errors_Nil [OF one(1)] builtin_Nil step_errors_Nil [OF two(1) assms(2)] flow_errors_Nil [OF three assms(2)]
    by (auto simp: answer_ok_def)
qed

text \<open>
  C14. A step whose name is not reserved, with well-formed schemas; the reading of regular expressions and of floats
  and the registered validators are whatever the environment answers. An input that the step accepts has been resolved
  and coerced to a value that satisfies every condition of the step: it is present when required, one of the choices,
  passes each rule and conforms to the schema of the step and of the flow; that value is stored as the answer of the
  step and no other answer changes. A rejected input changes nothing; of a run that raises nothing is said.
\<close>

theorem accepted_input_is_valid:
  assumes "name_ok (ws_slug w)" "documents_ok s w"
  shows "case complete_step_input env w v s of
      (Inr [], s') \<Rightarrow> (\<exists>a. prepare_input env s w v = Inr (Inr a) \<and> answer_ok env s w a
        \<and> get_answers s' = dict_set (ws_slug w) a (get_answers s))
    | (Inr errors, s') \<Rightarrow> s' = s
    | (Inl x, s') \<Rightarrow> True"
proof (cases "prepare_input env s w v")
  case (Inr p)
  show ?thesis
  proof (cases p)
    case (Inl e)
    then show ?thesis using Inr by (simp add: complete_step_input_def)
  next
    case a: (Inr a)
    show ?thesis
    proof (cases "validate_prepared env s w a")
      case (Inl x)
      then show ?thesis using Inr a by (simp add: complete_step_input_def)
    next
      case es: (Inr es)
      show ?thesis
      proof (cases es)
        case Nil
        obtain res s' where pers: "persist_answer (ie_repr env) (ws_slug w) a s = (res, s')" by fastforce
        show ?thesis
        proof (cases res)
          case (Inl x)
          then show ?thesis using Inr a es Nil pers by (simp add: complete_step_input_def)
        next
          case fin: (Inr u)
          have "complete_step_input env w v s = (Inr [], s')" using Inr a es Nil pers fin by (simp add: complete_step_input_def)
          then show ?thesis using Inr a validated_is_ok [OF es [unfolded Nil] assms(2)] persist_stores [OF pers [unfolded fin] assms(1)] by simp
        qed
      qed (simp add: complete_step_input_def Inr a es)
    qed
  qed
qed (simp add: complete_step_input_def)

definition plain_input :: input_env where
  "plain_input = \<lparr>ie_repr = (\<lambda>_. []), ie_float = (\<lambda>t. map_option VFloat (parse_float t)), ie_search = (\<lambda>_ _. Inr True), ie_custom = (\<lambda>_. None)\<rparr>"

definition color_step :: wizard_step where
  "color_step = (plain_step ''color'' ''Color'' ''Pick one'')\<lparr>ws_type := ''choice'', ws_choices := [''Red'', ''Green''], ws_rules := [(''min_length'', [(''min'', VInt 2)])]\<rparr>"

lemma accepted_input_is_valid_witness:
  "get_answers (snd (complete_step_input plain_input color_step (VStr '' gr '') (new_dict_state [] None))) = [(''color'', VStr ''Green'')]
   \<and> snd (complete_step_input plain_input color_step (VInt 3) (new_dict_state [] None)) = new_dict_state [] None"
proof -
  let ?s = "new_dict_state [] None"
  have ok: "name_ok (ws_slug color_step)" "documents_ok ?s color_step"
    by (simp_all add: name_ok_def documents_ok_def color_step_def plain_step_def scope_schema_of_def new_dict_state_def)
  have yes: "fst (complete_step_input plain_input color_step (VStr '' gr '') ?s) = Inr []" by code_simp
  have val: "prepare_input plain_input ?s color_step (VStr '' gr '') = Inr (Inr (VStr ''Green''))" by code_simp
  have "resolve_choice (ie_repr plain_input) (VInt 3) (ws_choices color_step) = Inr None" "ws_type color_step = ''choice'' \<and> ws_choices color_step \<noteq> []" by code_simp+
  then have no: "\<exists>e. fst (complete_step_input plain_input color_step (VInt 3) ?s) = Inr [e]" by (simp add: complete_step_input_def prepare_input_def)
  have "ws_slug color_step = ''color''" "get_answers ?s = []" by code_simp+
  then show ?thesis
    using accepted_input_is_valid [OF ok, of plain_input "VStr '' gr ''"] accepted_input_is_valid [OF ok, of plain_input "VInt 3"] yes val no
    by (auto split: prod.splits)
qed

text \<open>A superscript digit counts as a digit but is no number, so a choice step raises on it.\<close>

lemma superscript_choice_raises:
  "case complete_step_input plain_input color_step (VStr [CHR 0xB2]) (new_dict_state [] None) of
     (Inl x, s) \<Rightarrow> exc_cls x = PyValueError \<and> s = new_dict_state [] None | _ \<Rightarrow> False"
  by code_simp

end
