(* ===== verification/WizardFrame.thy ===== *)
theory WizardFrame
  imports WizardInputProps
begin

text \<open>
  What the phases of a wizard write: their own keys and the names of the steps, never the flags of the commit and the
  completion and never an input key; they only add to the log, and the prompt they leave asks for an input key.
\<close>

named_theorems touch_intros

definition reserved :: "string \<Rightarrow> bool" where
  "reserved k = (prefix ''__wizard__'' k \<or> prefix ''__bt_input__'' k)"

definition own_keys :: "string set" where
  "own_keys = {ANSWERS, CURRENT_STEP, ACTIVE_PROMPT, BACKTRACK_TO, JUMP_TO_STEP, STEP_INDEX, COMMIT_ERROR, COMMIT_RESULT,
     VALIDATION_ERROR, VALIDATION_ERRORS, SUMMARY_ACK} \<union> {k. \<not> reserved k}"

lemma own_keys_member [simp]:
  "ANSWERS \<in> own_keys" "CURRENT_STEP \<in> own_keys" "ACTIVE_PROMPT \<in> own_keys" "BACKTRACK_TO \<in> own_keys" "JUMP_TO_STEP \<in> own_keys"
  "STEP_INDEX \<in> own_keys" "COMMIT_ERROR \<in> own_keys" "COMMIT_RESULT \<in> own_keys" "VALIDATION_ERROR \<in> own_keys"
  "VALIDATION_ERRORS \<in> own_keys" "SUMMARY_ACK \<in> own_keys" "prompt_key s \<in> own_keys" "SCOPES_ROOT_KEY \<in> own_keys"
  "CHR ''_'' # CHR ''_'' # ''result__'' \<in> own_keys"
  by (simp_all add: own_keys_def reserved_def prompt_key_def SCOPES_ROOT_KEY_def)

lemma reserved_dunder: "reserved k \<Longrightarrow> prefix ''__'' k"
  by (auto simp: reserved_def prefix_def)

lemma name_own [simp]: "name_ok slug \<Longrightarrow> slug \<in> own_keys"
  using reserved_dunder by (auto simp: own_keys_def name_ok_def)

lemmas wizard_key_defs = ANSWERS_def CURRENT_STEP_def ACTIVE_PROMPT_def BACKTRACK_TO_def JUMP_TO_STEP_def STEP_INDEX_def
  COMMIT_ERROR_def COMMIT_RESULT_def VALIDATION_ERROR_def VALIDATION_ERRORS_def SUMMARY_ACK_def COMMITTED_def COMPLETED_KEY_def

lemma flags_not_own [simp]: "COMMITTED \<notin> own_keys" "COMPLETED_KEY \<notin> own_keys" "input_key s \<notin> own_keys"
  by (simp_all add: own_keys_def reserved_def wizard_key_defs wizard_key_def input_key_def)

lemma prompt_distinct [simp]: "prompt_key s \<noteq> ACTIVE_PROMPT" "ACTIVE_PROMPT \<noteq> prompt_key s" "SCOPES_ROOT_KEY \<noteq> ACTIVE_PROMPT"
  "ACTIVE_PROMPT \<noteq> SCOPES_ROOT_KEY" "input_key s \<noteq> ACTIVE_PROMPT" "ACTIVE_PROMPT \<noteq> input_key s"
  by (simp_all add: prompt_key_def ACTIVE_PROMPT_def wizard_key_def SCOPES_ROOT_KEY_def input_key_def)

subsection \<open>State changes\<close>

definition asks_input :: "pydict \<Rightarrow> bool" where
  "asks_input d = (\<forall>k. py_get d ''input_key'' = VStr k \<longrightarrow> (\<exists>t. k = input_key t))"

definition prompt_ok :: "dict_state \<Rightarrow> bool" where
  "prompt_ok s = (\<forall>d. st_get ACTIVE_PROMPT VNone s = VDict d \<longrightarrow> asks_input d)"

definition touches :: "dict_state \<Rightarrow> dict_state \<Rightarrow> bool" where
  "touches s s' = ((\<forall>k. k \<notin> own_keys \<longrightarrow> dict_get (st_data s') k = dict_get (st_data s) k) \<and> (prompt_ok s \<longrightarrow> prompt_ok s'))"

lemma touch_refl [touch_intros]: "touches s s"
  by (simp add: touches_def)

lemma touch_trans: "touches s s1 \<Longrightarrow> touches s1 s2 \<Longrightarrow> touches s s2"
  by (simp add: touches_def)

lemma prompt_frame: "dict_get (st_data s') ACTIVE_PROMPT = dict_get (st_data s) ACTIVE_PROMPT \<Longrightarrow> prompt_ok s' = prompt_ok s"
  by (simp add: prompt_ok_def st_get_def get_default_def)

lemma touch_data: "st_data s' = st_data s \<Longrightarrow> touches s s'"
  by (simp add: touches_def prompt_ok_def st_get_def)

lemma st_set_at [simp]: "dict_get (st_data (st_set k v s)) k' = (if k = k' then Some v else dict_get (st_data s) k')"
  by (simp add: st_set_def)

lemma st_delete_at [simp]: "dict_get (st_data (st_delete k s)) k' = (if k = k' then None else dict_get (st_data s) k')"
  by (simp add: st_delete_def)

lemma touchI: "\<forall>k. k \<notin> own_keys \<longrightarrow> dict_get (st_data s') k = dict_get (st_data s) k \<Longrightarrow> (prompt_ok s \<Longrightarrow> prompt_ok s') \<Longrightarrow> touches s s'"
  by (simp add: touches_def)

lemma touchD: "touches s s' \<Longrightarrow> k \<notin> own_keys \<Longrightarrow> dict_get (st_data s') k = dict_get (st_data s) k" "touches s s' \<Longrightarrow> prompt_ok s \<Longrightarrow> prompt_ok s'"
  by (simp_all add: touches_def)

lemma prompt_set: "prompt_ok (st_set k v s) = (if k = ACTIVE_PROMPT then (\<forall>d. v = VDict d \<longrightarrow> asks_input d) else prompt_ok s)"
  by (simp add: prompt_ok_def st_get_def get_default_def)

lemma prompt_delete: "prompt_ok s \<Longrightarrow> prompt_ok (st_delete k s)"
  by (simp add: prompt_ok_def st_get_def get_default_def)

lemma touch_set [touch_intros]: "k \<in> own_keys \<Longrightarrow> k \<noteq> ACTIVE_PROMPT \<Longrightarrow> touches s s1 \<Longrightarrow> touches s (st_set k v s1)"
  by (rule touchI) (use touchD in \<open>auto simp: prompt_set\<close>)

lemma touch_prompt [touch_intros]: "asks_input d \<Longrightarrow> touches s s1 \<Longrightarrow> touches s (st_set ACTIVE_PROMPT (VDict d) s1)"
  by (rule touchI) (use touchD in \<open>auto simp: prompt_set\<close>)

lemma touch_delete [touch_intros]: "k \<in> own_keys \<Longrightarrow> touches s s1 \<Longrightarrow> touches s (st_delete k s1)"
  by (rule touchI) (use touchD prompt_delete in auto)

lemma key_distinct [simp]: "ANSWERS \<noteq> ACTIVE_PROMPT" "CURRENT_STEP \<noteq> ACTIVE_PROMPT" "BACKTRACK_TO \<noteq> ACTIVE_PROMPT"
  "JUMP_TO_STEP \<noteq> ACTIVE_PROMPT" "STEP_INDEX \<noteq> ACTIVE_PROMPT" "COMMIT_ERROR \<noteq> ACTIVE_PROMPT" "COMMIT_RESULT \<noteq> ACTIVE_PROMPT"
  "VALIDATION_ERROR \<noteq> ACTIVE_PROMPT" "VALIDATION_ERRORS \<noteq> ACTIVE_PROMPT" "SUMMARY_ACK \<noteq> ACTIVE_PROMPT"
  "COMMITTED \<noteq> ACTIVE_PROMPT" "COMPLETED_KEY \<noteq> ACTIVE_PROMPT" "COMMITTED \<noteq> COMPLETED_KEY" "COMPLETED_KEY \<noteq> COMMITTED"
  by (simp_all add: wizard_key_defs wizard_key_def)

lemma name_not_prompt [simp]: "name_ok slug \<Longrightarrow> slug \<noteq> ACTIVE_PROMPT"
  by (simp add: ACTIVE_PROMPT_def)

lemma touch_position [touch_intros]: "touches s s1 \<Longrightarrow> touches s (set_position slug i s1)"
  by (simp add: set_position_def touch_intros)

lemma touch_clear_prompt [touch_intros]: "touches s s1 \<Longrightarrow> touches s (clear_prompt (prompt_key t) s1)"
  by (simp add: clear_prompt_def touch_intros)

lemma touch_publish [touch_intros]: "asks_input d \<Longrightarrow> touches s s1 \<Longrightarrow> touches s (publish_prompt (prompt_key t) d s1)"
  by (simp add: publish_prompt_def touch_intros)

lemma touch_set_answers [touch_intros]: "touches s s1 \<Longrightarrow> touches s (set_answers d s1)"
  by (simp add: set_answers_def touch_intros)

lemma touch_merge [touch_intros]: "touches s s1 \<Longrightarrow> touches s (merge_state s1)"
  by (simp add: merge_state_def touch_intros split: prod.split)

lemma asks_pop: "asks_input d \<Longrightarrow> k \<noteq> ''input_key'' \<Longrightarrow> asks_input (dict_pop k d)"
  by (simp add: asks_input_def get_default_def)

lemma touch_clear_feedback [touch_intros]:
  assumes "touches s s1"
  shows "touches s (clear_feedback s1)"
proof -
  let ?s = "st_delete VALIDATION_ERRORS (st_delete VALIDATION_ERROR s1)"
  have t: "touches s ?s" by (simp add: touch_intros assms)
  show ?thesis
  proof (cases "st_get ACTIVE_PROMPT VNone ?s")
    case (VDict d)
    let ?d = "dict_pop ''validation_errors'' (dict_pop ''validation_error'' d)"
    have "prompt_ok s \<Longrightarrow> asks_input ?d" using touchD(2) [OF t] VDict by (intro asks_pop) (simp_all add: prompt_ok_def)
    then have "touches s (st_set ACTIVE_PROMPT (VDict ?d) ?s)" using touchD [OF t] by (intro touchI) (auto simp: prompt_set)
    then show ?thesis using VDict t by (simp add: clear_feedback_def Let_def)
  qed (use t in \<open>simp_all add: clear_feedback_def Let_def\<close>)
qed

lemma touch_route [touch_intros]: "touches s s1 \<Longrightarrow> touches s (queue_route r w v s1)"
  by (simp add: queue_route_def Let_def touch_intros split: pyval.split)

lemma touch_move [touch_intros]: "touches s s1 \<Longrightarrow> touches s (move_to c i s1)"
  by (simp add: move_to_def touch_intros)

subsection \<open>Scopes and answers\<close>

lemma enter_step_data: "st_data (snd (enter_step w s)) = st_data s"
  by (auto simp: enter_step_def bind_scope_schema_def enter_scope_def split: option.split sum.split)

lemma leave_step_data: "\<exists>s'. leave_step w s = (Inr (), s') \<and> st_data s' = st_data s"
  by (auto simp: leave_step_def exit_scope_def scope_exit_def scope_current_def)

lemma touch_persist:
  assumes "name_ok slug"
  shows "touches s (snd (persist_answer r slug v s))"
proof -
  let ?s1 = "set_answers (dict_set slug v (get_answers s)) s"
  have one: "touches s ?s1" by (intro touch_intros)
  obtain x s2 where two: "set_scoped ''answer'' v ?s1 = (x, s2)" by fastforce
  have t2: "touches s s2"
  proof (cases x)
    case (Inl e)
    then have "s2 = ?s1" using two by (auto simp: set_scoped_def split: sum.splits)
    then show ?thesis using one by simp
  next
    case (Inr u)
    then have same: "k \<noteq> SCOPES_ROOT_KEY \<Longrightarrow> dict_get (st_data s2) k = dict_get (st_data ?s1) k" for k using scoped_frame two by blast
    have "k \<notin> own_keys \<Longrightarrow> dict_get (st_data s2) k = dict_get (st_data ?s1) k" for k by (rule same) auto
    moreover have "prompt_ok s2 = prompt_ok ?s1" by (rule prompt_frame) (rule same, simp)
    ultimately have "touches ?s1 s2" by (simp add: touches_def)
    then show ?thesis using touch_trans one by blast
  qed
  have "touches s (snd (set_validated r slug v s2))"
    using t2 assms by (auto simp: set_validated_def touch_intros split: option.split sum.split)
  then show ?thesis using one t2 two by (cases x) (simp_all add: persist_answer_def Let_def)
qed

lemma touch_complete: "name_ok (ws_slug w) \<Longrightarrow> touches s (snd (complete_step_input env w v s))"
  using touch_persist [of "ws_slug w" s] touch_refl
  by (auto simp: complete_step_input_def split: sum.split list.split prod.split) (metis snd_conv)+

lemma asks_with_errors: "asks_input d \<Longrightarrow> asks_input (prompt_with_errors p ms d)"
  by (simp add: prompt_with_errors_def asks_input_def)

lemma touch_publish_feedback: "asks_input d \<Longrightarrow> touches s (snd (publish_feedback es d (prompt_key t) s))"
  by (auto simp: publish_feedback_def Let_def intro!: touch_intros asks_with_errors split: sum.split)

end
