(* ===== verification/WizardProps.thy ===== *)
theory WizardProps
  imports WizardFrame
begin

text \<open>
  What is committed and completed: phases only touch what is theirs, a commit flag that is new was reported by a
  handler that has run, and a wizard is completed only then. A wizard is played to its end.
\<close>

subsection \<open>Phases only touch what is theirs\<close>

named_theorems confined_intros

definition near :: "'w wiz \<Rightarrow> 'w wiz \<Rightarrow> bool" where
  "near z z' = (touches (wz_state z) (wz_state z') \<and> prefix (wz_log z) (wz_log z') \<and> prefix (wz_runs z) (wz_runs z'))"

definition confined :: "('a, 'w) wz_eff \<Rightarrow> bool" where
  "confined m = (\<forall>z. near z (snd (m z)))"

lemma near_refl [simp]: "near z z"
  by (simp add: near_def touch_refl)

lemma near_trans: "near z z1 \<Longrightarrow> near z1 z2 \<Longrightarrow> near z z2"
  unfolding near_def by (elim conjE, intro conjI) (erule (1) touch_trans, (erule (1) prefix_order.trans)+)

lemma confinedI: "(\<And>z. near z (snd (m z))) \<Longrightarrow> confined m"
  by (simp add: confined_def)

lemma confinedD: "confined m \<Longrightarrow> near z (snd (m z))"
  by (simp add: confined_def)

lemma confined_pure [confined_intros]: "confined (Pair x)"
  by (simp add: confined_def)

lemma confined_bind [confined_intros]: "confined m \<Longrightarrow> (\<And>a. confined (f a)) \<Longrightarrow> confined (wz_bind m f)"
  unfolding confined_def wz_bind_def
proof
  fix z
  assume m: "\<forall>z. near z (snd (m z))" and f: "\<And>a. \<forall>z. near z (snd (f a z))"
  obtain x z1 where one: "m z = (x, z1)" by fastforce
  then have "near z z1" using m by (metis snd_conv)
  then show "near z (snd (case m z of (Inl x, z1) \<Rightarrow> (Inl x, z1) | (Inr a, z1) \<Rightarrow> f a z1))"
    using one f near_trans by (cases x) (auto intro: near_trans)
qed

lemma confined_all [confined_intros]: "\<forall>m \<in> set ms. confined m \<Longrightarrow> confined (wz_all ms a)"
  by (induction ms) (auto intro: confined_intros)

lemma confined_do [confined_intros]: "(\<And>s. touches s (f s)) \<Longrightarrow> confined (wz_do f)"
  by (simp add: confined_def near_def wz_do_def)

lemma confined_lift [confined_intros]: "(\<And>s. touches s (snd (f s))) \<Longrightarrow> confined (wz_lift f)"
  by (simp add: confined_def near_def wz_lift_def split: prod.split) (metis snd_conv)

lemma confined_raw [confined_intros]: "confined (raw_emit env t p)"
  by (auto simp: confined_def near_def raw_emit_def touch_refl split: prod.split)

lemma confined_emit [confined_intros]: "confined (wz_emit env t p)"
  by (simp add: wz_emit_def confined_raw)

lemma py_get_update: "\<not> dict_has e k \<Longrightarrow> py_get (dict_update d e) k = py_get d k"
proof (induction e arbitrary: d)
  case (Cons p e)
  then show ?case by (cases p) (auto simp: dict_update_def)
qed (simp add: dict_update_def)

lemma asks_enriched: "asks_input d \<Longrightarrow> asks_input (enrich_prompt s d)"
proof -
  assume a: "asks_input d"
  have "py_get (dict_update d (scope_fields s)) ''input_key'' = py_get d ''input_key''"
    by (rule py_get_update) (simp add: scope_fields_def split: option.split)
  then have "asks_input (dict_update d (scope_fields s))" using a by (simp add: asks_input_def)
  then show ?thesis by (auto simp: enrich_prompt_def Let_def asks_input_def split: pyval.split list.split)
qed

lemma asks_prompt: "\<not> dict_has extra ''input_key'' \<Longrightarrow> asks_input (phase_prompt env w i extra s)"
proof -
  assume e: "\<not> dict_has extra ''input_key''"
  have "asks_input (dict_update d ((''input_key'', VStr (input_key (ws_slug w))) # extra))" for d
  proof -
    have "dict_update d ((''input_key'', VStr (input_key (ws_slug w))) # extra) = dict_update (dict_set ''input_key'' (VStr (input_key (ws_slug w))) d) extra"
      by (simp add: dict_update_def)
    then show ?thesis using py_get_update [OF e] by (auto simp: asks_input_def)
  qed
  then show ?thesis unfolding phase_prompt_def build_prompt_def Let_def by (rule asks_enriched)
qed

lemma asks_default: "asks_input d \<Longrightarrow> asks_input (dict_setdefault ''input_key'' (VStr (input_key t)) d)"
  by (auto simp: asks_input_def dict_setdefault_def get_default_def dict_has_def split: option.splits)

lemma extras [simp]: "\<not> dict_has [] ''input_key''" "\<not> dict_has (summary_extra a) ''input_key''" "\<not> dict_has (commit_extra h) ''input_key''"
  by (simp_all add: summary_extra_def commit_extra_def)

lemma confined_activate [confined_intros]: "asks_input b \<Longrightarrow> confined (activate_prompt w i b)"
  unfolding activate_prompt_def by (intro confined_intros touch_intros asks_default)

lemma confined_feedback [confined_intros]: "\<not> dict_has extra ''input_key'' \<Longrightarrow> confined (feedback env w i extra es)"
proof -
  assume e: "\<not> dict_has extra ''input_key''"
  show ?thesis
  proof (rule confinedI)
    fix z :: "'a wiz"
    have "confined (wz_lift (publish_feedback es (phase_prompt env w i extra (wz_state z)) (prompt_key (ws_slug w))))"
      by (intro confined_intros touch_publish_feedback asks_prompt e)
    then show "near z (snd (feedback env w i extra es z))" unfolding feedback_def by (rule confinedD)
  qed
qed

lemma confined_enter [confined_intros]: "confined (enter_phase w i)"
  unfolding enter_phase_def by (intro confined_intros touch_intros touch_data enter_step_data)

lemma confined_leave [confined_intros]: "confined (wz_lift (leave_step w))"
proof (intro confined_intros touch_data)
  show "st_data (snd (leave_step w s)) = st_data s" for s using leave_step_data [of w s] by auto
qed

lemma confined_small [confined_intros]: "confined (step_started env w i v)" "confined (rejected env w extra)" "confined (received env w i v t)"
  "confined (answers_rejected env w reason es)" "confined (collected env)"
  unfolding step_started_def rejected_def received_def answers_rejected_def by (rule confined_emit)+ (simp add: collected_def confined_def)

lemma confined_ask: "\<not> dict_has extra ''input_key'' \<Longrightarrow> confined (ask env w i extra)"
  unfolding ask_def
proof (intro confined_intros)
  assume e: "\<not> dict_has extra ''input_key''"
  fix a :: unit
  show "confined (\<lambda>z. let b = phase_prompt env w i extra (wz_state z) in
      wz_all [activate_prompt w i b, step_started env w i (get_default b ''title'' (VStr (ws_title w)))] WAITING z)"
  proof (rule confinedI)
    fix z :: "'a wiz"
    let ?b = "phase_prompt env w i extra (wz_state z)"
    have "confined (wz_all [activate_prompt w i ?b, step_started env w i (get_default ?b ''title'' (VStr (ws_title w)))] WAITING)"
      by (intro confined_intros) (auto intro!: confined_intros asks_prompt e)
    then show "near z (snd (let b = ?b in wz_all [activate_prompt w i b, step_started env w i (get_default b ''title'' (VStr (ws_title w)))] WAITING z))"
      by (simp add: confined_def Let_def)
  qed
qed

lemma confined_input:
  assumes "name_ok (ws_slug w)"
  shows "confined (handle_input env w i v)"
  unfolding handle_input_def by (intro confined_intros) (auto intro!: confined_intros touch_intros touch_complete assms)

lemma confined_show: "asks_input b \<Longrightarrow> confined (show_summary env w i b answers valid)"
  unfolding show_summary_def by (intro confined_intros) (auto intro!: confined_intros)

lemma confined_ask_summary: "confined (ask_summary env w i)"
proof (rule confinedI)
  fix z :: "'a wiz"
  let ?a = "get_answers (wz_state z)" let ?b = "phase_prompt env w i (summary_extra ?a) (wz_state z)"
  have b: "asks_input ?b" by (rule asks_prompt) simp
  have "confined (wz_bind (collected env) (\<lambda>es.
        if es \<noteq> [] then wz_bind (wz_all [wz_lift (publish_feedback es ?b (prompt_key (ws_slug w))), answers_rejected env w ''summary_schema'' es] ())
            (\<lambda>_. show_summary env w i ?b ?a False)
        else wz_bind (wz_do clear_feedback) (\<lambda>_. show_summary env w i ?b ?a True)))"
    by (intro confined_intros) (auto intro!: confined_intros touch_intros confined_show touch_publish_feedback b)
  then show "near z (snd (ask_summary env w i z))" by (simp add: confined_def ask_summary_def Let_def)
qed

lemma confined_summary: "confined (handle_summary env w i v)"
proof (rule confinedI)
  fix z :: "'a wiz"
  show "near z (snd (handle_summary env w i v z))"
    unfolding handle_summary_def Let_def
    by (rule confinedD, intro confined_intros) (auto intro!: confined_intros touch_intros)
qed

subsection \<open>What is committed was reported\<close>

text \<open>
  What is asked of the code around: a commit handler and a phase of another kind leave the flags of the commit and of
  the completion as they are, and every prompt they leave asks for an input key. The phases record no run of a commit
  handler of their own and take nothing back that was emitted or run.
\<close>

definition spares :: "dict_state \<Rightarrow> dict_state \<Rightarrow> bool" where
  "spares s s' = (dict_get (st_data s') COMMITTED = dict_get (st_data s) COMMITTED
     \<and> dict_get (st_data s') COMPLETED_KEY = dict_get (st_data s) COMPLETED_KEY \<and> (prompt_ok s \<longrightarrow> prompt_ok s'))"

definition commits_spare :: "'w wiz_env \<Rightarrow> bool" where
  "commits_spare env = (\<forall>hook h. we_commits env hook = Some h \<longrightarrow> (\<forall>a s w. spares s (fst (snd (h a s w)))))"

definition phases_spare :: "'w wiz_env \<Rightarrow> bool" where
  "phases_spare env = (\<forall>w i z. spares (wz_state z) (wz_state (snd (we_phase env w i z)))
     \<and> prefix (wz_log z) (wz_log (snd (we_phase env w i z))) \<and> prefix (wz_runs z) (wz_runs (snd (we_phase env w i z))))"

text \<open>The handlers that a commit step names, and a run of one of them that succeeded and was announced with its data.\<close>

definition commit_hooks :: "wizard_config \<Rightarrow> string set" where
  "commit_hooks c = {case ws_hook w of Some h \<Rightarrow> h | None \<Rightarrow> [] | w. w \<in> set (spine c) \<and> ws_kind w = ''commit''}"

definition reported :: "string set \<Rightarrow> 'w wiz \<Rightarrow> bool" where
  "reported H z = (\<exists>hook \<in> H. \<exists>c p. (hook, Inr c) \<in> set (wz_runs z) \<and> cm_ok c \<and> (COMMIT_SUCCEEDED, p) \<in> set (wz_log z)
     \<and> py_get p ''hook'' = VStr hook \<and> py_get p ''data'' = cm_data c)"

definition wizard_inv :: "wizard_config \<Rightarrow> 'w wiz \<Rightarrow> bool" where
  "wizard_inv c z = (prompt_ok (wz_state z) \<and> (is_committed (wz_state z) \<longrightarrow> reported (commit_hooks c) z)
     \<and> (wc_commit c \<and> truthy (st_get COMPLETED_KEY VNone (wz_state z)) \<longrightarrow> reported (commit_hooks c) z))"

text \<open>From one world to the next: the logs grow, the completion flag stays, and a commit flag that is new was reported.\<close>

definition honest :: "string set \<Rightarrow> 'w wiz \<Rightarrow> 'w wiz \<Rightarrow> bool" where
  "honest H z z' = (prefix (wz_log z) (wz_log z') \<and> prefix (wz_runs z) (wz_runs z')
     \<and> dict_get (st_data (wz_state z')) COMPLETED_KEY = dict_get (st_data (wz_state z)) COMPLETED_KEY
     \<and> (prompt_ok (wz_state z) \<longrightarrow> prompt_ok (wz_state z'))
     \<and> (dict_get (st_data (wz_state z')) COMMITTED = dict_get (st_data (wz_state z)) COMMITTED \<or> \<not> is_committed (wz_state z') \<or> reported H z'))"

lemma honest_refl [simp]: "honest H z z"
  by (simp add: honest_def)

lemma reported_mono: "reported H z \<Longrightarrow> prefix (wz_log z) (wz_log z') \<Longrightarrow> prefix (wz_runs z) (wz_runs z') \<Longrightarrow> reported H z'"
proof -
  assume r: "reported H z" and "prefix (wz_log z) (wz_log z')" "prefix (wz_runs z) (wz_runs z')"
  then have "set (wz_log z) \<subseteq> set (wz_log z')" "set (wz_runs z) \<subseteq> set (wz_runs z')" by (simp_all add: set_mono_prefix)
  with r show ?thesis unfolding reported_def by (meson subsetD)
qed

lemma committed_cong: "dict_get (st_data s) COMMITTED = dict_get (st_data s') COMMITTED \<Longrightarrow> is_committed s = is_committed s'"
  by (simp add: is_committed_def st_get_def get_default_def)

lemma honest_trans:
  assumes "honest H z z1" "honest H z1 z2"
  shows "honest H z z2"
proof -
  let ?c = "\<lambda>z. dict_get (st_data (wz_state z)) COMMITTED"
  have log: "prefix (wz_log z) (wz_log z2)" "prefix (wz_runs z) (wz_runs z2)" using assms prefix_order.trans by (auto simp: honest_def)
  have "?c z2 = ?c z \<or> \<not> is_committed (wz_state z2) \<or> reported H z2"
  proof (cases "?c z2 = ?c z1")
    case True
    then have "is_committed (wz_state z2) = is_committed (wz_state z1)" by (rule committed_cong)
    moreover have "reported H z1 \<Longrightarrow> reported H z2" by (rule reported_mono) (use assms(2) in \<open>auto simp: honest_def\<close>)
    ultimately show ?thesis using True assms(1) unfolding honest_def by metis
  next
    case False
    then show ?thesis using assms(2) unfolding honest_def by metis
  qed
  then show ?thesis using assms log by (simp add: honest_def)
qed

lemma near_honest: "near z z' \<Longrightarrow> honest H z z'"
  by (simp add: near_def honest_def touches_def)

lemma confined_honest: "confined m \<Longrightarrow> honest H z (snd (m z))"
  by (rule near_honest) (rule confinedD)

lemma wz_do_bind [simp]: "wz_bind (wz_do f) g z = g () (z\<lparr>wz_state := f (wz_state z)\<rparr>)"
  by (simp add: wz_bind_def wz_do_def)

lemma wz_leave_bind [simp]: "wz_bind (wz_lift (leave_step w)) g z = g () (z\<lparr>wz_state := snd (leave_step w (wz_state z))\<rparr>)"
  using leave_step_data [of w "wz_state z"] by (auto simp: wz_bind_def wz_lift_def)

lemma wz_pure_bind [simp]: "wz_bind (Pair (Inr a)) g z = g a z"
  by (simp add: wz_bind_def)

lemma wz_bind_assoc: "wz_bind (wz_bind m f) g z = wz_bind m (\<lambda>a. wz_bind (f a) g) z"
  by (simp add: wz_bind_def split: prod.split sum.split)

lemma snd_bind_pure: "snd (wz_bind m (\<lambda>_. Pair (Inr a)) z) = snd (m z)"
  by (simp add: wz_bind_def split: prod.split sum.split)

lemma emit_shape: "\<exists>res w. wz_emit env t p z = (res, z\<lparr>wz_world := w, wz_log := wz_log z @ [(t, dict_setdefault ''wizard'' (VStr (we_name env)) p)]\<rparr>)"
  by (auto simp: wz_emit_def raw_emit_def split: prod.split)

lemma emit_reported:
  assumes "confined (g ())" "hook \<in> H" "(hook, Inr c) \<in> set (wz_runs z)" "cm_ok c" "p = [(''hook'', VStr hook), (''data'', cm_data c)]"
  shows "reported H (snd (wz_bind (wz_emit env COMMIT_SUCCEEDED p) g z)) \<and> near z (snd (wz_bind (wz_emit env COMMIT_SUCCEEDED p) g z))"
proof -
  let ?p = "dict_setdefault ''wizard'' (VStr (we_name env)) p"
  obtain res w where e: "wz_emit env COMMIT_SUCCEEDED p z = (res, z\<lparr>wz_world := w, wz_log := wz_log z @ [(COMMIT_SUCCEEDED, ?p)]\<rparr>)" (is "_ = (res, ?z1)")
    using emit_shape by metis
  have "py_get ?p ''hook'' = VStr hook" "py_get ?p ''data'' = cm_data c"
    unfolding assms(5) by (simp_all add: dict_setdefault_def dict_has_def get_default_def)
  then have one: "reported H ?z1" "near z ?z1" using assms(2-4) by (auto simp: reported_def near_def touch_data)
  show ?thesis
  proof (cases res)
    case (Inl x)
    then show ?thesis using e one by (simp add: wz_bind_def)
  next
    case (Inr u)
    have "near ?z1 (snd (g () ?z1))" using assms(1) by (rule confinedD)
    then show ?thesis using e one Inr near_trans [OF one(2)] reported_mono [OF one(1)] by (auto simp: wz_bind_def near_def)
  qed
qed

lemma commit_done_honest:
  assumes "hook \<in> H" "(hook, Inr c) \<in> set (wz_runs z)" "cm_ok c"
  shows "honest H z (snd (commit_done env w hook c z))"
proof -
  let ?s1 = "st_set COMMITTED (VBool True) (wz_state z)"
  define s2 where "s2 = st_delete COMMIT_ERROR (if cm_data c = VNone then st_set COMMIT_RESULT (cm_data c) ?s1
    else st_set ''__result__'' (cm_data c) (st_set COMMIT_RESULT (cm_data c) ?s1))"
  define s3 where "s3 = clear_prompt (prompt_key (ws_slug w)) (snd (leave_step w s2))"
  define m where "m = (\<lambda>_ :: unit. wz_all [wz_emit env ''wizard.input.received'' [(''slug'', VStr (ws_slug w)), (''value'', VBool True)]] SUCCESS)"
  have "commit_done env w hook c z = wz_bind (wz_emit env COMMIT_SUCCEEDED [(''hook'', VStr hook), (''data'', cm_data c)]) m (z\<lparr>wz_state := s3\<rparr>)"
    by (simp add: commit_done_def s2_def s3_def m_def)
  moreover have "confined (m ())" by (auto simp: m_def intro!: confined_intros)
  ultimately have after: "reported H (snd (commit_done env w hook c z))" "near (z\<lparr>wz_state := s3\<rparr>) (snd (commit_done env w hook c z))"
    using emit_reported [of m hook H c "z\<lparr>wz_state := s3\<rparr>", OF _ assms(1) _ assms(3) refl] assms(2) by simp_all
  have "''__result__'' \<noteq> ACTIVE_PROMPT" by (simp add: ACTIVE_PROMPT_def wizard_key_def)
  then have "touches ?s1 s2" by (auto simp: s2_def intro!: touch_intros)
  moreover have "touches s2 (snd (leave_step w s2))" using leave_step_data [of w s2] by (auto intro: touch_data)
  ultimately have t: "touches ?s1 s3" unfolding s3_def by (intro touch_intros) (rule touch_trans)
  show ?thesis using after t touchD(1) [OF t, of COMPLETED_KEY] touchD(2) [OF t]
    by (auto simp: honest_def near_def touches_def prompt_set)
qed

lemma bind_honest:
  assumes "\<And>z. honest H z (snd (m z))" "\<And>a z. honest H z (snd (f a z))"
  shows "honest H z (snd (wz_bind m f z))"
proof -
  obtain x z1 where m: "m z = (x, z1)" by fastforce
  then have one: "honest H z z1" using assms(1) [of z] by simp
  show ?thesis
  proof (cases x)
    case (Inr a)
    then show ?thesis using m honest_trans [OF one assms(2) [of z1 a]] by (simp add: wz_bind_def)
  qed (simp add: wz_bind_def m one)
qed

lemma uncommit_honest: "honest H z (snd (wz_do (st_delete COMMITTED) z))"
  by (auto simp: wz_do_def honest_def prompt_delete is_committed_def st_get_def get_default_def)

lemma commit_failed_honest: "honest H z (snd (commit_failed env hook c z))"
proof -
  have tell: "honest H z (snd (case undo_refs (we_repr env) (tracked_calls (wz_state z)) of
       Inl x \<Rightarrow> (Inl x, z)
     | Inr refs \<Rightarrow> wz_all [wz_emit env COMMIT_FAILED [(''hook'', VStr hook), (''error'', opt_str_val (cm_error c)),
         (''resource_refs'', VList (map VStr refs)), (''resource_invocations'', VList (tracked_calls (wz_state z)))]] FAILURE z))" for z :: "'a wiz"
  proof (cases "undo_refs (we_repr env) (tracked_calls (wz_state z))")
    case (Inr refs)
    have "confined (wz_all [wz_emit env COMMIT_FAILED p] FAILURE)" for p by (auto intro!: confined_intros)
    from confined_honest [OF this] show ?thesis using Inr by (simp del: wz_all.simps)
  qed simp
  have "honest H z (snd (wz_all [wz_do (st_set COMMIT_ERROR (opt_str_val (cm_error c))), wz_do (st_delete COMMITTED)] () z))" for z :: "'a wiz"
    unfolding wz_all.simps
    by (intro bind_honest uncommit_honest confined_honest) (auto intro!: confined_intros touch_intros)
  then show ?thesis unfolding commit_failed_def Let_def by (rule bind_honest) (rule tell)
qed

lemma run_commit_honest:
  assumes "commits_spare env"
  obtains c z1 where "run_commit env hook z = (Inr c, z1)" and "honest H z z1" and "cm_ok c \<Longrightarrow> (hook, Inr c) \<in> set (wz_runs z1)"
proof (cases "we_commits env hook")
  case None
  show ?thesis by (rule that [of "commit_failure (''Unknown commit handler: '' @ quoted hook)" z]) (simp_all add: None run_commit_def commit_failure_def)
next
  case (Some h)
  obtain res s w where h: "h (get_answers (wz_state z)) (wz_state z) (wz_world z) = (res, s, w)" by (metis surj_pair)
  have "spares (wz_state z) s" using assms Some h unfolding commits_spare_def by (metis fst_conv snd_conv)
  then have "honest H z (z\<lparr>wz_state := s, wz_runs := wz_runs z @ [(hook, res)], wz_world := w\<rparr>)" by (auto simp: spares_def honest_def)
  then show ?thesis using that Some h by (cases res) (simp_all add: run_commit_def commit_failure_def)
qed

lemma handle_commit_honest:
  assumes "commits_spare env" "hook \<in> H"
  shows "honest H z (snd (handle_commit env w i hook v z))"
proof -
  have start: "confined (wz_all [wz_do clear_feedback, wz_emit env ''wizard.commit.started'' [(''hook'', VStr hook)], wz_do merge_state] ())"
    by (intro confined_intros) (auto intro!: confined_intros touch_intros)
  have run: "honest H z (snd (wz_bind (run_commit env hook) (\<lambda>c. if cm_ok c then commit_done env w hook c else commit_failed env hook c) z))" for z
  proof -
    obtain c z1 where r: "run_commit env hook z = (Inr c, z1)" "honest H z z1" "cm_ok c \<Longrightarrow> (hook, Inr c) \<in> set (wz_runs z1)"
      using run_commit_honest [OF assms(1)] by blast
    have "honest H z1 (snd ((if cm_ok c then commit_done env w hook c else commit_failed env hook c) z1))"
      using commit_done_honest [OF assms(2) r(3)] commit_failed_honest [of H z1 env hook c] by (cases "cm_ok c") simp_all
    then show ?thesis using honest_trans [OF r(2)] r(1) by (simp add: wz_bind_def)
  qed
  have no: "confined (wz_all [feedback env w i (commit_extra hook) es, answers_rejected env w ''commit_schema'' es] WAITING)" for es
    by (intro confined_intros) (auto intro!: confined_intros)
  have ask: "confined (wz_all [feedback env w i (commit_extra hook) [VStr ''Please confirm commit to apply your changes.''],
         rejected env w [(''reason'', VStr ''commit'')]] WAITING)"
    by (intro confined_intros) (auto intro!: confined_intros)
  show ?thesis unfolding handle_commit_def
  proof (rule bind_honest)
    fix es and z :: "'a wiz"
    have "honest H z (snd (wz_bind (wz_all [wz_do clear_feedback, wz_emit env ''wizard.commit.started'' [(''hook'', VStr hook)], wz_do merge_state] ()) (\<lambda>_.
       wz_bind (run_commit env hook) (\<lambda>c. if cm_ok c then commit_done env w hook c else commit_failed env hook c)) z))"
      by (rule bind_honest) (rule confined_honest [OF start], rule run)
    then show "honest H z (snd ((if es \<noteq> [] then wz_all [feedback env w i (commit_extra hook) es, answers_rejected env w ''commit_schema'' es] WAITING
     else if \<not> is_affirmative v then wz_all [feedback env w i (commit_extra hook) [VStr ''Please confirm commit to apply your changes.''],
         rejected env w [(''reason'', VStr ''commit'')]] WAITING
     else wz_bind (wz_all [wz_do clear_feedback, wz_emit env ''wizard.commit.started'' [(''hook'', VStr hook)], wz_do merge_state] ()) (\<lambda>_.
       wz_bind (run_commit env hook) (\<lambda>c. if cm_ok c then commit_done env w hook c else commit_failed env hook c))) z))"
      using confined_honest [OF no] confined_honest [OF ask] by (simp del: wz_all.simps)
  qed (rule confined_honest, rule confined_small)
qed

subsection \<open>One tick\<close>

definition names_ok :: "wizard_config \<Rightarrow> bool" where
  "names_ok c = (\<forall>w \<in> set (spine c). name_ok (ws_slug w))"

lemma delete_input_honest: "honest H z (z\<lparr>wz_state := st_delete (input_key t) (wz_state z)\<rparr>)"
proof -
  have "input_key t \<noteq> COMMITTED" "input_key t \<noteq> COMPLETED_KEY" by (simp_all add: input_key_def wizard_key_defs wizard_key_def)
  then show ?thesis by (simp add: honest_def prompt_delete)
qed

lemma interactive_honest:
  assumes "\<And>z. honest H z (snd (request z))" "\<And>v z. honest H z (snd (handle v z))"
  shows "honest H z (snd (interactive w request handle z))"
  using assms(1) [of z] honest_trans [OF delete_input_honest [of H z "ws_slug w"] assms(2)]
  by (auto simp: interactive_def Let_def split: prod.split) (metis snd_conv)+

lemma spared_honest: "phases_spare env \<Longrightarrow> honest H z (snd (we_phase env w i z))"
  by (simp add: phases_spare_def spares_def honest_def)

lemma phase_honest:
  assumes "commits_spare env" "phases_spare env" "name_ok (ws_slug w)" "w \<in> set (spine c)"
  shows "honest (commit_hooks c) z (snd (phase_tick env w i z))"
proof -
  have hook: "(case ws_hook w of Some h \<Rightarrow> h | None \<Rightarrow> []) \<in> commit_hooks c" if "ws_kind w = ''commit''"
    using that assms(4) by (auto simp: commit_hooks_def)
  have "honest (commit_hooks c) z (snd (phase_impl env w i z))"
    unfolding phase_impl_def Let_def
    by (auto intro!: interactive_honest confined_honest [OF confined_ask_summary] confined_honest [OF confined_summary] confined_honest [OF confined_ask]
        confined_honest [OF confined_input] handle_commit_honest hook assms spared_honest)
  then show ?thesis by (cases "phase_impl env w i z") (simp add: phase_tick_def)
qed

lemma state_honest: "touches (wz_state z) s \<Longrightarrow> honest H z (z\<lparr>wz_state := s\<rparr>)"
  by (rule near_honest) (simp add: near_def)

lemma advance_honest: "honest H z (snd (advance env c i z))"
  by (auto simp: advance_def Let_def intro!: state_honest touch_intros)

text \<open>What every phase and every step of the cursor keeps, the loop keeps.\<close>

lemma wizard_loop_keeps:
  assumes phase: "\<And>i z. i < length (tree_steps c) \<Longrightarrow> R z (snd (phase_tick env (spine c ! i) i z))"
    and adv: "\<And>i z. R z (snd (advance env c i z))" and refl: "\<And>z. R z z" and trans: "\<And>x y z. R x y \<Longrightarrow> R y z \<Longrightarrow> R x z"
  shows "wizard_loop env c i z = Some y \<Longrightarrow> R z (snd (snd y))"
proof (rule wizard_loop.raw_induct [of "\<lambda>env' c' i z y. env' = env \<longrightarrow> c' = c \<longrightarrow> R z (snd (snd y))" env c i z y, rule_format], goal_cases)
  case (1 loop env' c' i z y)
  show ?case
  proof (cases "i < length (tree_steps c)")
    case True
    obtain x z1 where p: "phase_tick env (spine c ! i) i z = (x, z1)" by fastforce
    then have one: "R z z1" using phase [OF True, of z] by simp
    show ?thesis
    proof (cases x)
      case (Inl e)
      then show ?thesis using 1 True p one by auto
    next
      case (Inr st)
      show ?thesis
      proof (cases "is_yielding_status st \<or> st = FAILURE")
        case True
        then show ?thesis using 1 \<open>i < _\<close> p Inr one by (auto split: if_splits)
      next
        case False
        then have "loop env c (fst (advance env c i z1)) (snd (advance env c i z1)) = Some y" using 1 True p Inr by simp
        then have "R (snd (advance env c i z1)) (snd (snd y))" using 1 by blast
        then show ?thesis using trans [OF one trans [OF adv]] by blast
      qed
    qed
  next
    case False
    then show ?thesis using 1 refl by auto
  qed
qed simp_all

lemma loop_honest:
  assumes "commits_spare env" "phases_spare env" "names_ok c" "wizard_loop env c i z = Some y"
  shows "honest (commit_hooks c) z (snd (snd y))"
proof (rule wizard_loop_keeps [OF _ advance_honest honest_refl honest_trans assms(4)])
  fix i and z :: "'a wiz"
  assume "i < length (tree_steps c)"
  then have "spine c ! i \<in> set (spine c)" by (intro nth_mem) simp
  then show "honest (commit_hooks c) z (snd (phase_tick env (spine c ! i) i z))" using assms(3) by (intro phase_honest assms(1,2)) (auto simp: names_ok_def)
qed

lemma confined_reset: "near z (reset_for_backtrack env c i z)"
  by (simp add: reset_for_backtrack_def near_def touch_intros)

lemma confined_backtrack: "confined (apply_backtrack env c)"
proof (rule confinedI)
  fix z :: "'a wiz"
  let ?z1 = "z\<lparr>wz_state := st_delete BACKTRACK_TO (wz_state z)\<rparr>"
  have one: "near z ?z1" by (simp add: near_def touch_intros)
  then show "near z (snd (apply_backtrack env c z))"
    using near_trans [OF one confined_reset] by (auto simp: apply_backtrack_def Let_def split: sum.split option.split)
qed

lemma confined_notify: "confined (notify_backtrack env c i v)"
  unfolding notify_backtrack_def Let_def by (auto intro!: confined_intros)

lemma sequence_honest:
  assumes "commits_spare env" "phases_spare env" "names_ok c" "sequence_impl env c i z = Some y"
  shows "honest (commit_hooks c) z (snd (snd y))"
proof -
  obtain x z1 where b: "apply_backtrack env c z = (x, z1)" by fastforce
  then have one: "honest (commit_hooks c) z z1" using confined_honest [OF confined_backtrack, of "commit_hooks c" z env c] by simp
  note loop = loop_honest [OF assms(1,2,3)]
  show ?thesis
  proof (cases x)
    case (Inl e)
    then show ?thesis using assms(4) b one by (auto simp: sequence_impl_def)
  next
    case (Inr target)
    show ?thesis
    proof (cases target)
      case None
      then show ?thesis using assms(4) b Inr loop honest_trans [OF one] by (simp add: sequence_impl_def)
    next
      case (Some j)
      obtain x2 z2 where n: "notify_backtrack env c j (st_get CURRENT_STEP VNone (wz_state z)) z1 = (x2, z2)" by fastforce
      then have two: "honest (commit_hooks c) z z2" using honest_trans [OF one confined_honest [OF confined_notify]] by (metis snd_conv)
      then show ?thesis using assms(4) b Inr Some n loop honest_trans [OF two] by (cases x2) (auto simp: sequence_impl_def)
    qed
  qed
qed

lemma inv_honest: "wizard_inv c z \<Longrightarrow> honest (commit_hooks c) z z' \<Longrightarrow> wizard_inv c z'"
proof -
  assume inv: "wizard_inv c z" and h: "honest (commit_hooks c) z z'"
  have "reported (commit_hooks c) z \<Longrightarrow> reported (commit_hooks c) z'" by (rule reported_mono) (use h in \<open>auto simp: honest_def\<close>)
  moreover have "st_get COMPLETED_KEY VNone (wz_state z') = st_get COMPLETED_KEY VNone (wz_state z)" using h by (simp add: honest_def st_get_def get_default_def)
  moreover have "is_committed (wz_state z') \<Longrightarrow> is_committed (wz_state z) \<or> reported (commit_hooks c) z'" using h committed_cong unfolding honest_def by metis
  ultimately show "wizard_inv c z'" using inv h by (auto simp: wizard_inv_def honest_def)
qed

text \<open>Setting the completion flag is the only change that is not honest; it needs the commit.\<close>

lemma finished_inv:
  assumes "wizard_inv c z"
  shows "wizard_inv c (snd (finish_wizard env c z))"
proof (cases "wc_commit c \<and> \<not> truthy (st_get COMMITTED VNone (wz_state z))")
  case True
  then show ?thesis using assms by (simp add: finish_wizard_def)
next
  case False
  let ?s = "st_set COMPLETED_KEY (VBool True) (wz_state z)" let ?s1 = "st_delete ACTIVE_PROMPT (st_set CURRENT_STEP VNone ?s)"
  have com: "is_committed ?s = is_committed (wz_state z)" "prompt_ok ?s = prompt_ok (wz_state z)"
    by (rule committed_cong) (simp_all add: prompt_set)
  have rep: "reported (commit_hooks c) (z\<lparr>wz_state := s\<rparr>) = reported (commit_hooks c) z" for s by (simp add: reported_def)
  have "wizard_inv c (z\<lparr>wz_state := ?s\<rparr>)" using assms False com rep by (auto simp: wizard_inv_def is_committed_def)
  moreover have "honest (commit_hooks c) (z\<lparr>wz_state := ?s\<rparr>) (z\<lparr>wz_state := ?s1\<rparr>)"
    by (rule near_honest) (simp add: near_def touch_intros)
  ultimately have "wizard_inv c (z\<lparr>wz_state := ?s1\<rparr>)" by (rule inv_honest)
  moreover have "snd (finish_wizard env c z) = snd (wz_emit env ''wizard.completed'' [(''answers'', st_get ANSWERS (VDict []) ?s1),
      (''committed'', VBool (truthy (st_get COMMITTED VNone ?s1)))] (z\<lparr>wz_state := ?s1\<rparr>))"
    using False by (auto simp: finish_wizard_def Let_def wz_bind_assoc snd_bind_pure)
  ultimately show ?thesis using inv_honest [OF _ confined_honest [OF confined_emit]] by simp
qed

lemma tick_inv:
  assumes "commits_spare env" "phases_spare env" "names_ok (wd_config p)" "wizard_inv (wd_config p) z" "wizard_tick env p z = Some (res, p', z')"
  shows "wizard_inv (wd_config p) z' \<and> wd_config p' = wd_config p"
proof -
  let ?c = "wd_config p" let ?z = "z\<lparr>wz_state := merge_state (wz_state z)\<rparr>"
  obtain r j where g: "guard_impl env ?c (wd_index p) z = Some (r, j, z')" and p': "p' = p\<lparr>wd_index := j\<rparr>"
    using assms(5) by (auto simp: wizard_tick_def)
  have "wizard_inv ?c z'"
  proof (cases "truthy (st_get COMPLETED_KEY VNone (wz_state z))")
    case True
    then show ?thesis using g assms(4) by (simp add: guard_impl_def)
  next
    case False
    then obtain r1 j1 z1 where sq: "sequence_tick env ?c (wd_index p) ?z = Some (r1, j1, z1)"
      using g by (auto simp: guard_impl_def split: option.splits)
    then obtain y where "sequence_impl env ?c (wd_index p) ?z = Some y" "z1 = snd (snd y)" by (auto simp: sequence_tick_def)
    then have "honest (commit_hooks ?c) ?z z1" using sequence_honest [OF assms(1,2,3)] by simp
    moreover have "honest (commit_hooks ?c) z ?z" by (intro state_honest touch_intros)
    ultimately have inv: "wizard_inv ?c z1" using inv_honest assms(4) honest_trans by blast
    have "z' = z1 \<or> z' = snd (finish_wizard env ?c z1)"
      using g sq False by (auto simp: guard_impl_def split: sum.splits pattern_status.splits prod.splits)
    then show ?thesis using inv finished_inv by auto
  qed
  then show ?thesis using p' by simp
qed

lemma input_inv:
  assumes "wizard_inv c z" "provide_wizard_input r v (wz_state z) = (slug, s)"
  shows "wizard_inv c (z\<lparr>wz_state := s\<rparr>)"
proof -
  have "s = wz_state z \<or> (\<exists>t. s = st_set (input_key t) v (wz_state z))"
    using assms by (auto simp: provide_wizard_input_def wizard_inv_def prompt_ok_def asks_input_def split: pyval.splits)
  moreover have "input_key t \<noteq> COMMITTED" "input_key t \<noteq> COMPLETED_KEY" for t by (simp_all add: input_key_def wizard_key_defs wizard_key_def)
  ultimately have "honest (commit_hooks c) z (z\<lparr>wz_state := s\<rparr>)" by (auto simp: honest_def prompt_set)
  then show ?thesis using inv_honest assms(1) by blast
qed

lemma request_honest: "honest H z (snd (request_backtrack env c slug z))"
proof -
  have tell: "confined (wz_all [wz_emit env t p, wz_do (st_set BACKTRACK_TO (VStr slug))] ())" for t p by (intro confined_intros) (auto intro!: confined_intros touch_intros)
  have "confined (wz_bind (wz_emit env t p) (\<lambda>_. Pair (Inl x) :: (unit, 'a) wz_eff))" for t p and x :: exc by (intro confined_intros)
  then show ?thesis using confined_honest [OF tell] by (auto intro!: confined_honest simp: request_backtrack_def split: sum.split simp del: wz_all.simps)
qed

subsection \<open>Histories\<close>

text \<open>What can happen to a wizard: ticks, inputs, requests to go back, a reset, a restored position, and changes of the world outside.\<close>

inductive wizard_moves :: "'w wiz_env \<Rightarrow> wizard \<times> 'w wiz \<Rightarrow> wizard \<times> 'w wiz \<Rightarrow> bool" for env where
  ticked: "wizard_tick env p z = Some (res, p', z') \<Longrightarrow> wizard_moves env (p, z) (p', z')"
| given: "provide_wizard_input (we_repr env) v (wz_state z) = (slug, s) \<Longrightarrow> wizard_moves env (p, z) (p, z\<lparr>wz_state := s\<rparr>)"
| asked_back: "request_backtrack env (wd_config p) slug z = (res, z') \<Longrightarrow> wizard_moves env (p, z) (p, z')"
| was_reset: "wizard_reset env p z = (p', z') \<Longrightarrow> wizard_moves env (p, z) (p', z')"
| restored: "restore_position i p (wz_state z) = (Inr p', s) \<Longrightarrow> wizard_moves env (p, z) (p', z\<lparr>wz_state := s\<rparr>)"
| elsewhere: "wizard_moves env (p, z) (p, z\<lparr>wz_world := w\<rparr>)"

lemma moves_inv:
  assumes "wizard_moves env s s'" "commits_spare env" "phases_spare env" "names_ok (wd_config (fst s))" "wizard_inv (wd_config (fst s)) (snd s)"
  shows "wizard_inv (wd_config (fst s)) (snd s') \<and> wd_config (fst s') = wd_config (fst s)"
  using assms
proof (induction rule: wizard_moves.induct)
  case (ticked p z res p' z')
  then show ?case using tick_inv by simp
next
  case (given v z slug s p)
  then show ?case using input_inv by auto
next
  case (asked_back p slug z res z')
  then show ?case using request_honest [of "commit_hooks (wd_config p)" z env "wd_config p" slug] inv_honest by auto
next
  case (restored i p z p' s)
  then have "s = move_to (wd_config p) i (wz_state z)" "wd_config p' = wd_config p" by (auto simp: restore_position_def split: if_splits)
  moreover from this have "honest (commit_hooks (wd_config p)) z (z\<lparr>wz_state := s\<rparr>)" by (auto intro!: state_honest touch_intros)
  ultimately show ?case using restored inv_honest by auto
qed (auto simp: wizard_reset_def wizard_inv_def reported_def)

lemma reach_inv:
  assumes "(wizard_moves env)\<^sup>*\<^sup>* s0 s" "commits_spare env" "phases_spare env" "names_ok c" "wizard_inv c (snd s0)" "wd_config (fst s0) = c"
  shows "wizard_inv c (snd s) \<and> wd_config (fst s) = c"
  using assms(1)
proof (induction rule: rtranclp_induct)
  case (step s s')
  then show ?case using moves_inv [of env s s'] assms(2,3,4) by simp
qed (use assms(5,6) in simp)

definition fresh_state :: "dict_state \<Rightarrow> bool" where
  "fresh_state s = (\<not> is_committed s \<and> \<not> truthy (st_get COMPLETED_KEY VNone s) \<and> st_get ACTIVE_PROMPT VNone s = VNone)"

text \<open>
  C13. A wizard with a commit, over any phases of the other kinds and any commit handlers that leave the two flags of
  the commit and the completion alone and leave prompts that ask for an input key, and whose steps are not named like
  a reserved key. However it is driven from a fresh state, with ticks, inputs, requests to go back, resets and
  restored positions in any order, routes that jump over steps and anything happening around it: when it is
  completed, a commit handler that one of its commit steps names has been run and has answered success, and the
  success was announced under its name with its data. A completed wizard answers success to every further tick
  without doing anything.
\<close>

theorem completed_wizard_has_committed:
  assumes "commits_spare env" "phases_spare env" "names_ok c" "wc_commit c" "fresh_state (wz_state z0)"
    and "(wizard_moves env)\<^sup>*\<^sup>* (\<lparr>wd_config = c, wd_index = 0\<rparr>, z0) (p, z)" "truthy (st_get COMPLETED_KEY VNone (wz_state z))"
  shows "(\<exists>w hook answer payload. w \<in> set (spine c) \<and> ws_kind w = ''commit'' \<and> hook = (case ws_hook w of Some h \<Rightarrow> h | None \<Rightarrow> [])
       \<and> (hook, Inr answer) \<in> set (wz_runs z) \<and> cm_ok answer
       \<and> (COMMIT_SUCCEEDED, payload) \<in> set (wz_log z) \<and> py_get payload ''hook'' = VStr hook \<and> py_get payload ''data'' = cm_data answer)
    \<and> wizard_tick env p z = Some (Inr SUCCESS, p, z)"
proof -
  have "wizard_inv c z0" using assms(5) by (simp add: fresh_state_def wizard_inv_def prompt_ok_def)
  then have "wizard_inv c z" using reach_inv [OF assms(6,1,2,3)] by simp
  then have "reported (commit_hooks c) z" using assms(4,7) by (simp add: wizard_inv_def)
  moreover have "wizard_tick env p z = Some (Inr SUCCESS, p, z)"
    using assms(7) by (simp add: wizard_tick_def guard_impl_def tick_outcome_def)
  ultimately show ?thesis unfolding reported_def commit_hooks_def by blast
qed

subsection \<open>A wizard that runs to its end\<close>

text \<open>A user who answers each prompt in turn, from the outcome of a tick.\<close>

fun play :: "'w wiz_env \<Rightarrow> pyval list \<Rightarrow> (pattern_status result \<times> wizard \<times> 'w wiz) option \<Rightarrow> (wizard \<times> 'w wiz) option" where
  "play env vs None = None"
| "play env [] (Some (_, p, z)) = Some (p, z)"
| "play env (v # vs) (Some (_, p, z)) = play env vs (wizard_tick env p (z\<lparr>wz_state := snd (provide_wizard_input (we_repr env) v (wz_state z))\<rparr>))"

lemma play_reached: "play env vs out = Some s' \<Longrightarrow> out = Some (res, p, z) \<Longrightarrow> (wizard_moves env)\<^sup>*\<^sup>* (p, z) s'"
proof (induction env vs out arbitrary: res p z rule: play.induct)
  case (3 env v vs r q y)
  let ?y = "y\<lparr>wz_state := snd (provide_wizard_input (we_repr env) v (wz_state y))\<rparr>"
  obtain r' q' y' where t: "wizard_tick env q ?y = Some (r', q', y')" using "3.prems" by (cases "wizard_tick env q ?y") auto
  have "wizard_moves env (q, y) (q, ?y)" by (rule wizard_moves.given [of _ _ _ "fst (provide_wizard_input (we_repr env) v (wz_state y))"]) simp
  moreover have "wizard_moves env (q, ?y) (q', y')" using t by (rule wizard_moves.ticked)
  moreover have "(wizard_moves env)\<^sup>*\<^sup>* (q', y') s'" using "3.IH" [OF _ t] "3.prems" by simp
  ultimately show ?case using "3.prems" by (metis (no_types, lifting) Pair_inject converse_rtranclp_into_rtranclp option.inject)
qed auto

fun wz_next :: "('a \<Rightarrow> ('b, 'w) wz_eff) \<Rightarrow> 'a result \<times> 'w wiz \<Rightarrow> 'b result \<times> 'w wiz" where
  "wz_next f (Inl x, z) = (Inl x, z)"
| "wz_next f (Inr a, z) = f a z"

lemma wz_bind_code [code]: "wz_bind m f z = wz_next f (m z)"
  by (auto simp: wz_bind_def split: prod.splits sum.splits)

fun loop_next :: "'w wiz_env \<Rightarrow> wizard_config \<Rightarrow> nat \<Rightarrow> pattern_status result \<times> 'w wiz \<Rightarrow> (pattern_status result \<times> nat \<times> 'w wiz) option" where
  "loop_next env c i (Inl x, z) = Some (Inl x, i, z)"
| "loop_next env c i (Inr SUCCESS, z) = wizard_loop env c (fst (advance env c i z)) (snd (advance env c i z))"
| "loop_next env c i (Inr FAILURE, z) = Some (Inr FAILURE, 0, z)"
| "loop_next env c i (Inr st, z) = Some (Inr st, i, z)"

fun loop_at :: "'w wiz_env \<Rightarrow> wizard_config \<Rightarrow> nat \<Rightarrow> wizard_step list \<Rightarrow> 'w wiz \<Rightarrow> (pattern_status result \<times> nat \<times> 'w wiz) option" where
  "loop_at env c i [] z = Some (Inr SUCCESS, 0, z)"
| "loop_at env c i (w # ws) z = loop_next env c i (phase_tick env w i z)"

lemma wizard_loop_code [code]: "wizard_loop env c i z = loop_at env c i (drop i (spine c)) z"
proof (cases "i < length (tree_steps c)")
  case True
  then have "drop i (spine c) = spine c ! i # drop (Suc i) (spine c)" by (metis Cons_nth_drop_Suc length_map)
  then show ?thesis using True
    by (subst wizard_loop.simps, cases "(env, c, i, phase_tick env (spine c ! i) i z)" rule: loop_next.cases) (auto simp: is_yielding_status_def split: prod.splits)
qed (simp add: wizard_loop.simps)

fun take_input :: "(pattern_status, 'w) wz_eff \<Rightarrow> (pyval \<Rightarrow> (pattern_status, 'w) wz_eff) \<Rightarrow> 'w wiz \<Rightarrow> 'w wiz \<Rightarrow> pyval option \<Rightarrow> pattern_status result \<times> 'w wiz" where
  "take_input request handle z z1 None = request z"
| "take_input request handle z z1 (Some v) = handle v z1"

lemma interactive_code [code]:
  "interactive w request handle z = map_prod (map_sum id Status) id
     (take_input request handle z (z\<lparr>wz_state := st_delete (input_key (ws_slug w)) (wz_state z)\<rparr>) (dict_get (st_data (wz_state z)) (input_key (ws_slug w))))"
  by (auto simp: interactive_def Let_def st_has_def st_get_def get_default_def dict_has_def split: option.splits prod.splits)

text \<open>For evaluation: a branch is only entered when its condition is known, and a prompt built when the state is.\<close>

fun pick :: "bool \<Rightarrow> ('a \<Rightarrow> 'b) \<Rightarrow> ('a \<Rightarrow> 'b) \<Rightarrow> 'a \<Rightarrow> 'b" where
  "pick True f g x = f x"
| "pick False f g x = g x"

lemma pick_if: "pick b f g x = (if b then f x else g x)"
  by (cases b) simp_all

lemma phase_impl_code [code]:
  "phase_impl env w i z = pick (ws_kind w = ''summary'') (interactive w (ask_summary env w i) (handle_summary env w i))
     (pick (ws_kind w = ''commit'') ((\<lambda>hook. interactive w (ask env w i (commit_extra hook)) (handle_commit env w i hook))
         (case ws_hook w of Some h \<Rightarrow> h | None \<Rightarrow> []))
       (pick (ws_kind w \<in> set OTHER_KINDS) (we_phase env w i) (interactive w (ask env w i []) (handle_input env w i)))) z"
  by (simp add: phase_impl_def pick_if Let_def)

definition asked :: "'w wiz_env \<Rightarrow> wizard_step \<Rightarrow> nat \<Rightarrow> pydict \<Rightarrow> unit \<Rightarrow> (pattern_status, 'w) wz_eff" where
  "asked env w i extra u z =
     (let b = phase_prompt env w i extra (wz_state z) in
      wz_all [activate_prompt w i b, step_started env w i (get_default b ''title'' (VStr (ws_title w)))] WAITING z)"

lemma ask_code [code]: "ask env w i extra = wz_bind (enter_phase w i) (asked env w i extra)"
  by (auto simp: ask_def asked_def wz_bind_def fun_eq_iff split: prod.splits sum.splits)

definition confirm_commit :: "'w wiz_env \<Rightarrow> wizard_step \<Rightarrow> nat \<Rightarrow> string \<Rightarrow> pyval \<Rightarrow> pyval list \<Rightarrow> (pattern_status, 'w) wz_eff" where
  "confirm_commit env w i hook v es z =
     pick (es \<noteq> []) (wz_all [feedback env w i (commit_extra hook) es, answers_rejected env w ''commit_schema'' es] WAITING)
       (pick (is_affirmative v)
         (wz_bind (wz_all [wz_do clear_feedback, wz_emit env ''wizard.commit.started'' [(''hook'', VStr hook)], wz_do merge_state] ()) (\<lambda>_.
           wz_bind (run_commit env hook) (\<lambda>c. if cm_ok c then commit_done env w hook c else commit_failed env hook c)))
         (wz_all [feedback env w i (commit_extra hook) [VStr ''Please confirm commit to apply your changes.''],
           rejected env w [(''reason'', VStr ''commit'')]] WAITING)) z"

lemma handle_commit_code [code]: "handle_commit env w i hook v = wz_bind (collected env) (confirm_commit env w i hook v)"
  by (auto simp: handle_commit_def confirm_commit_def pick_if wz_bind_def fun_eq_iff split: prod.splits sum.splits)

definition demo_env :: "unit wiz_env" where
  "demo_env = \<lparr>we_name = ''demo'', we_input = plain_input, we_emit = (\<lambda>_ _ w. (Inr (), w)),
     we_commits = (\<lambda>hook. if hook = ''save'' then Some (\<lambda>_ s w. (Inr (commit_success (VStr ''saved'')), s, w)) else None),
     we_phase = (\<lambda>_ _. Pair (Inr (Status FAILURE))), we_reset = id\<rparr>"

definition demo_config :: wizard_config where
  "demo_config = \<lparr>wc_steps = [Step (plain_step ''name'' ''Name'' ''Who'') [] [],
     Step ((plain_step ''commit'' ''End'' ''Go'')\<lparr>ws_type := ''confirm'', ws_kind := ''commit'', ws_hook := Some ''save''\<rparr>) [] []], wc_back = True, wc_introduction = None, wc_summary = False,
     wc_commit = True, wc_summary_slug = ''summary'', wc_commit_slug = ''commit'', wc_hook = Some ''save''\<rparr>"

definition demo_start :: "wizard \<times> unit wiz" where
  "demo_start = (\<lparr>wd_config = demo_config, wd_index = 0\<rparr>, \<lparr>wz_state = new_dict_state [] None, wz_log = [], wz_runs = [], wz_world = ()\<rparr>)"

lemma demo_ok: "commits_spare demo_env" "phases_spare demo_env" "names_ok demo_config" "wc_commit demo_config" "fresh_state (wz_state (snd demo_start))"
proof -
  show "commits_spare demo_env" by (simp add: commits_spare_def spares_def demo_env_def)
  show "phases_spare demo_env" by (simp add: phases_spare_def spares_def demo_env_def)
  show "names_ok demo_config" by (simp add: names_ok_def name_ok_def demo_config_def tree_steps_def has_slug_def default_commit_def plain_step_def)
  show "wc_commit demo_config" "fresh_state (wz_state (snd demo_start))" by code_simp+
qed

lemma completed_wizard_has_committed_witness:
  "case play demo_env [VStr ''Ada'', VStr ''yes''] (wizard_tick demo_env (fst demo_start) (snd demo_start)) of
     Some (p, z) \<Rightarrow> (\<exists>answer. (''save'', Inr answer) \<in> set (wz_runs z) \<and> cm_ok answer) \<and> wizard_tick demo_env p z = Some (Inr SUCCESS, p, z)
   | None \<Rightarrow> False" (is "case ?run of Some (p, z) \<Rightarrow> ?done p z | None \<Rightarrow> False")
proof -
  have "map_option (\<lambda>(p, z). truthy (st_get COMPLETED_KEY VNone (wz_state z))) ?run = Some True" by code_simp
  then obtain p z where run: "?run = Some (p, z)" "truthy (st_get COMPLETED_KEY VNone (wz_state z))" by auto
  then obtain res q y where t: "wizard_tick demo_env (fst demo_start) (snd demo_start) = Some (res, q, y)"
    by (cases "wizard_tick demo_env (fst demo_start) (snd demo_start)") auto
  have "wizard_moves demo_env demo_start (q, y)" using wizard_moves.ticked [OF t] by simp
  then have "(wizard_moves demo_env)\<^sup>*\<^sup>* (\<lparr>wd_config = demo_config, wd_index = 0\<rparr>, snd demo_start) (p, z)"
    using play_reached [OF run(1) t] by (simp add: demo_start_def converse_rtranclp_into_rtranclp)
  from completed_wizard_has_committed [OF demo_ok this run(2)] obtain w answer where
      w: "w \<in> set (spine demo_config)" "ws_kind w = ''commit''" "((case ws_hook w of Some h \<Rightarrow> h | None \<Rightarrow> []), Inr answer) \<in> set (wz_runs z)" "cm_ok answer"
    and again: "wizard_tick demo_env p z = Some (Inr SUCCESS, p, z)" by blast
  have "list_all (\<lambda>w. ws_kind w = ''commit'' \<longrightarrow> ws_hook w = Some ''save'') (spine demo_config)" by code_simp
  then have "ws_hook w = Some ''save''" using w(1,2) unfolding list_all_iff by blast
  then show ?thesis using w(3,4) again run(1) by auto
qed

end
