(* ===== verification/WizardReturns.thy ===== *)
theory WizardReturns
  imports WizardProps CompensationProps
begin

text \<open>
  A wizard that only asks, summarises and commits returns from every tick, since each step it passes uses up an input; a
  granted request to go back is followed by the next tick; and a failed commit names what is to be undone.
\<close>

subsection \<open>Pending inputs\<close>

definition is_input :: "string \<Rightarrow> bool" where
  "is_input k = prefix ''__bt_input__'' k"

definition pending :: "dict_state \<Rightarrow> string set" where
  "pending s = {k. is_input k \<and> dict_get (st_data s) k \<noteq> None}"

definition steady :: "'w wiz \<Rightarrow> 'w wiz \<Rightarrow> bool" where
  "steady z z' = (\<forall>k. is_input k \<longrightarrow> dict_get (st_data (wz_state z')) k = dict_get (st_data (wz_state z)) k)"

lemma steady_refl [simp]: "steady z z"
  by (simp add: steady_def)

lemma steady_trans: "steady z z1 \<Longrightarrow> steady z1 z2 \<Longrightarrow> steady z z2"
  by (simp add: steady_def)

lemma steady_pending: "steady z z' \<Longrightarrow> pending (wz_state z') = pending (wz_state z)"
  by (auto simp: steady_def pending_def)

lemma input_names: "is_input (input_key t)" "is_input k \<Longrightarrow> k \<notin> own_keys" "\<not> is_input COMMITTED" "\<not> is_input COMPLETED_KEY"
  by (auto simp: is_input_def own_keys_def reserved_def input_key_def wizard_key_defs wizard_key_def SUMMARY_ACK_def VALIDATION_ERROR_def VALIDATION_ERRORS_def)

lemma dict_get_member: "dict_get d k \<noteq> None \<Longrightarrow> k \<in> fst ` set d"
  by (metis map_of_eq_None_iff)

lemma finite_inputs: "finite (pending s)"
  by (rule finite_subset [of _ "fst ` set (st_data s)"]) (auto simp: pending_def intro: dict_get_member)

lemma near_steady: "near z z' \<Longrightarrow> steady z z'"
  using input_names(2) by (auto simp: near_def steady_def dest: touchD(1))

lemma confined_steady: "confined m \<Longrightarrow> steady z (snd (m z))"
  by (rule near_steady) (rule confinedD)

lemma bind_steady:
  assumes "\<And>z. steady z (snd (m z))" "\<And>a z. steady z (snd (f a z))"
  shows "steady z (snd (wz_bind m f z))"
proof (cases "m z")
  case (Pair x z1)
  then have "steady z z1" using assms(1) [of z] by simp
  then show ?thesis using Pair steady_trans [OF _ assms(2)] by (cases x) (auto simp: wz_bind_def)
qed

lemma all_steady: "\<forall>m \<in> set ms. \<forall>z. steady z (snd (m z)) \<Longrightarrow> steady z (snd (wz_all ms a z))"
  by (induction ms arbitrary: z) (auto intro: bind_steady)

lemma do_steady: "(\<And>s k. is_input k \<Longrightarrow> dict_get (st_data (f s)) k = dict_get (st_data s) k) \<Longrightarrow> steady z (snd (wz_do f z))"
  by (simp add: wz_do_def steady_def)

lemma set_steady: "\<not> is_input k \<Longrightarrow> steady z (snd (wz_do (st_set k v) z))" "\<not> is_input k \<Longrightarrow> steady z (snd (wz_do (st_delete k) z))"
  by (rule do_steady; force)+

definition honest_commits :: "'w wiz_env \<Rightarrow> bool" where
  "honest_commits env = (\<forall>hook h. we_commits env hook = Some h \<longrightarrow>
     (\<forall>a s w k. reserved k \<longrightarrow> dict_get (st_data (fst (snd (h a s w)))) k = dict_get (st_data s) k))"

lemma run_commit_steady: "honest_commits env \<Longrightarrow> steady z (snd (run_commit env hook z))"
  by (auto simp: run_commit_def steady_def honest_commits_def is_input_def reserved_def split: option.split prod.split) (metis fst_conv snd_conv)

lemma commit_done_steady: "steady z (snd (commit_done env w hook c z))"
  unfolding commit_done_def
proof (rule all_steady, intro ballI allI)
  fix m and z :: "'a wiz"
  have no: "\<not> is_input COMMITTED" "\<not> is_input COMMIT_RESULT" "\<not> is_input COMMIT_ERROR" "\<not> is_input ''__result__''"
    by (auto simp: is_input_def wizard_key_defs wizard_key_def)
  have "confined (wz_do (clear_prompt (prompt_key (ws_slug w))) :: (unit, 'a) wz_eff)" by (intro confined_intros touch_intros)
  moreover assume "m \<in> set [wz_do (st_set COMMITTED (VBool True)), wz_do (st_set COMMIT_RESULT (cm_data c)),
     (if cm_data c = VNone then Pair (Inr ()) else wz_do (st_set ''__result__'' (cm_data c))), wz_do (st_delete COMMIT_ERROR),
     wz_lift (leave_step w), wz_do (clear_prompt (prompt_key (ws_slug w))),
     wz_emit env COMMIT_SUCCEEDED [(''hook'', VStr hook), (''data'', cm_data c)],
     wz_emit env ''wizard.input.received'' [(''slug'', VStr (ws_slug w)), (''value'', VBool True)]]"
  ultimately show "steady z (snd (m z))"
    using no set_steady confined_steady [OF confined_leave] confined_steady [OF confined_emit] confined_steady by (auto split: if_splits)
qed

lemma commit_failed_steady: "steady z (snd (commit_failed env hook c z))"
  unfolding commit_failed_def Let_def
proof (rule bind_steady)
  fix a :: unit and z :: "'a wiz"
  have no: "\<not> is_input COMMITTED" "\<not> is_input COMMIT_ERROR" by (auto simp: is_input_def wizard_key_defs wizard_key_def)
  then show "steady z (snd (wz_all [wz_do (st_set COMMIT_ERROR (opt_str_val (cm_error c))), wz_do (st_delete COMMITTED)] () z))"
    using set_steady by (intro all_steady) auto
  have "confined (wz_all [wz_emit env COMMIT_FAILED p] FAILURE)" for p by (auto intro!: confined_intros)
  from confined_steady [OF this] show "steady z (snd (case undo_refs (we_repr env) (tracked_calls (wz_state z)) of
       Inl x \<Rightarrow> (Inl x, z)
     | Inr refs \<Rightarrow> wz_all [wz_emit env COMMIT_FAILED [(''hook'', VStr hook), (''error'', opt_str_val (cm_error c)),
         (''resource_refs'', VList (map VStr refs)), (''resource_invocations'', VList (tracked_calls (wz_state z)))]] FAILURE z))"
    by (cases "undo_refs (we_repr env) (tracked_calls (wz_state z))") (simp_all del: wz_all.simps)
qed

lemma handle_commit_steady:
  assumes "honest_commits env"
  shows "steady z (snd (handle_commit env w i hook v z))"
  unfolding handle_commit_def
proof (rule bind_steady)
  fix es and z :: "'a wiz"
  have start: "confined (wz_all [wz_do clear_feedback, wz_emit env ''wizard.commit.started'' [(''hook'', VStr hook)], wz_do merge_state] ())"
    by (intro confined_intros) (auto intro!: confined_intros touch_intros)
  have no: "confined (wz_all [feedback env w i (commit_extra hook) es, answers_rejected env w ''commit_schema'' es] WAITING)"
    "confined (wz_all [feedback env w i (commit_extra hook) [VStr ''Please confirm commit to apply your changes.''],
         rejected env w [(''reason'', VStr ''commit'')]] WAITING)"
    by (intro confined_intros; auto intro!: confined_intros)+
  have "steady z (snd (wz_bind (wz_all [wz_do clear_feedback, wz_emit env ''wizard.commit.started'' [(''hook'', VStr hook)], wz_do merge_state] ()) (\<lambda>_.
       wz_bind (run_commit env hook) (\<lambda>c. if cm_ok c then commit_done env w hook c else commit_failed env hook c)) z))"
    by (rule bind_steady, rule confined_steady [OF start], rule bind_steady)
      (auto intro: run_commit_steady [OF assms] commit_done_steady commit_failed_steady)
  then show "steady z (snd ((if es \<noteq> [] then wz_all [feedback env w i (commit_extra hook) es, answers_rejected env w ''commit_schema'' es] WAITING
     else if \<not> is_affirmative v then wz_all [feedback env w i (commit_extra hook) [VStr ''Please confirm commit to apply your changes.''],
         rejected env w [(''reason'', VStr ''commit'')]] WAITING
     else wz_bind (wz_all [wz_do clear_feedback, wz_emit env ''wizard.commit.started'' [(''hook'', VStr hook)], wz_do merge_state] ()) (\<lambda>_.
       wz_bind (run_commit env hook) (\<lambda>c. if cm_ok c then commit_done env w hook c else commit_failed env hook c))) z))"
    using confined_steady [OF no(1)] confined_steady [OF no(2)] by (simp del: wz_all.simps)
qed (rule confined_steady, rule confined_small)

subsection \<open>A step that is passed uses up an input\<close>

lemma bind_answer: "wz_bind m f z = (Inr b, z2) \<Longrightarrow> \<exists>a z1. m z = (Inr a, z1) \<and> f a z1 = (Inr b, z2)"
  by (auto simp: wz_bind_def split: prod.splits sum.splits)

lemma all_answer: "wz_all ms a z = (Inr b, z2) \<Longrightarrow> b = a"
  by (induction ms arbitrary: z) (auto dest: bind_answer)

lemma ask_waits: "ask env w i extra z = (Inr st, z1) \<Longrightarrow> st = WAITING"
  unfolding ask_def Let_def by (auto dest!: bind_answer simp del: wz_all.simps dest: all_answer)

lemma ask_summary_waits: "ask_summary env w i z = (Inr st, z1) \<Longrightarrow> st = WAITING"
  unfolding ask_summary_def Let_def show_summary_def by (auto dest!: bind_answer simp del: wz_all.simps split: if_splits dest: all_answer)

lemma interactive_uses:
  assumes "\<And>st z z1. request z = (Inr st, z1) \<Longrightarrow> st = WAITING" "\<And>z. steady z (snd (request z))" "\<And>v z. steady z (snd (handle v z))"
  shows "pending (wz_state (snd (interactive w request handle z))) \<subseteq> pending (wz_state z)
    \<and> (fst (interactive w request handle z) = Inr (Status SUCCESS) \<longrightarrow>
      pending (wz_state (snd (interactive w request handle z))) \<subset> pending (wz_state z))"
proof (cases "dict_get (st_data (wz_state z)) (input_key (ws_slug w))")
  case None
  obtain res z1 where r: "request z = (res, z1)" by fastforce
  then have "pending (wz_state z1) = pending (wz_state z)" using assms(2) [of z] steady_pending by simp
  moreover have "res \<noteq> Inr SUCCESS" using assms(1) r by blast
  ultimately show ?thesis using None r
    by (cases res) (auto simp: interactive_def Let_def st_has_def dict_has_def)
next
  case (Some v)
  let ?z = "z\<lparr>wz_state := st_delete (input_key (ws_slug w)) (wz_state z)\<rparr>"
  obtain res z1 where h: "handle v ?z = (res, z1)" by fastforce
  then have "pending (wz_state z1) = pending (wz_state ?z)" using assms(3) [of ?z v] by (simp add: steady_pending)
  moreover have "pending (wz_state ?z) \<subset> pending (wz_state z)" using Some input_names(1) [of "ws_slug w"] by (auto simp: pending_def)
  ultimately show ?thesis using Some h
    by (auto simp: interactive_def Let_def st_has_def dict_has_def st_get_def get_default_def)
qed

definition plain_kind :: "wizard_step \<Rightarrow> bool" where
  "plain_kind w = (ws_kind w \<notin> set OTHER_KINDS \<and> name_ok (ws_slug w))"

lemma phase_uses:
  assumes "honest_commits env" "plain_kind w"
  shows "pending (wz_state (snd (phase_tick env w i z))) \<subseteq> pending (wz_state z)
    \<and> (fst (phase_tick env w i z) = Inr SUCCESS \<longrightarrow> pending (wz_state (snd (phase_tick env w i z))) \<subset> pending (wz_state z))"
proof -
  have name: "name_ok (ws_slug w)" "ws_kind w \<notin> set OTHER_KINDS" using assms(2) by (auto simp: plain_kind_def)
  have "\<exists>request handle. phase_impl env w i = interactive w request handle \<and> (\<forall>st z z1. request z = (Inr st, z1) \<longrightarrow> st = WAITING)
    \<and> (\<forall>z. steady z (snd (request z))) \<and> (\<forall>v z. steady z (snd (handle v z)))"
  proof (cases "ws_kind w = ''summary''")
    case True
    then show ?thesis using ask_summary_waits confined_steady [OF confined_ask_summary] confined_steady [OF confined_summary]
      by (intro exI [of _ "ask_summary env w i"] exI [of _ "handle_summary env w i"]) (auto simp: phase_impl_def)
  next
    case no: False
    show ?thesis
    proof (cases "ws_kind w = ''commit''")
      case True
      then show ?thesis using no ask_waits confined_steady [OF confined_ask [OF extras(3)]] handle_commit_steady [OF assms(1)]
        by (intro exI [of _ "ask env w i (commit_extra (case ws_hook w of Some h \<Rightarrow> h | None \<Rightarrow> []))"]
            exI [of _ "handle_commit env w i (case ws_hook w of Some h \<Rightarrow> h | None \<Rightarrow> [])"]) (auto simp: phase_impl_def Let_def)
    next
      case False
      then show ?thesis using no name ask_waits confined_steady [OF confined_ask [OF extras(1)]] confined_steady [OF confined_input [OF name(1)]]
        by (intro exI [of _ "ask env w i []"] exI [of _ "handle_input env w i"]) (auto simp: phase_impl_def)
    qed
  qed
  then obtain request handle where p: "phase_impl env w i = interactive w request handle"
    and keep: "\<And>st z z1. request z = (Inr st, z1) \<Longrightarrow> st = WAITING" "\<And>z. steady z (snd (request z))" "\<And>v z. steady z (snd (handle v z))" by blast
  have "fst (phase_tick env w i z) = Inr SUCCESS \<Longrightarrow> fst (phase_impl env w i z) = Inr (Status SUCCESS)"
    by (auto simp: phase_tick_def tick_outcome_def split: prod.splits sum.splits tick_value.splits if_splits)
  moreover have "snd (phase_tick env w i z) = snd (phase_impl env w i z)" by (simp add: phase_tick_def split: prod.split)
  ultimately show ?thesis using interactive_uses [OF keep, where w = w and z = z] p by auto
qed

subsection \<open>The tick returns\<close>

lemma advance_pending: "pending (wz_state (snd (advance env c i z))) = pending (wz_state z)"
proof -
  have "\<not> is_input JUMP_TO_STEP" "\<not> is_input CURRENT_STEP" "\<not> is_input STEP_INDEX" by (auto simp: is_input_def wizard_key_defs wizard_key_def)
  then have "steady z (snd (advance env c i z))" by (auto simp: advance_def Let_def steady_def move_to_def)
  then show ?thesis by (rule steady_pending)
qed

lemma loop_returns:
  assumes "honest_commits env" "\<forall>w \<in> set (spine c). plain_kind w"
  shows "\<exists>y. wizard_loop env c i z = Some y \<and> pending (wz_state (snd (snd y))) \<subseteq> pending (wz_state z)"
proof (induction "card (pending (wz_state z))" arbitrary: i z rule: less_induct)
  case less
  show ?case
  proof (cases "i < length (tree_steps c)")
    case True
    then have "plain_kind (spine c ! i)" using assms(2) by (metis length_map nth_mem)
    note uses = phase_uses [OF assms(1) this, of i z]
    obtain x z1 where p: "phase_tick env (spine c ! i) i z = (x, z1)" by fastforce
    have sub: "pending (wz_state z1) \<subseteq> pending (wz_state z)" using uses p by simp
    show ?thesis
    proof (cases "x = Inr SUCCESS")
      case ok: True
      let ?z2 = "snd (advance env c i z1)"
      have small: "pending (wz_state ?z2) \<subset> pending (wz_state z)" using uses p ok by (simp add: advance_pending)
      then have "card (pending (wz_state ?z2)) < card (pending (wz_state z))" by (rule psubset_card_mono [OF finite_inputs])
      from less.hyps [OF this, of "fst (advance env c i z1)"] obtain y where "wizard_loop env c (fst (advance env c i z1)) ?z2 = Some y"
          "pending (wz_state (snd (snd y))) \<subseteq> pending (wz_state ?z2)" by blast
      then show ?thesis using True p ok small by (subst wizard_loop.simps) (auto simp: is_yielding_status_def)
    next
      case False
      then show ?thesis using True p sub
        by (subst wizard_loop.simps) (auto simp: is_yielding_status_def split: sum.split; metis pattern_status.exhaust)
    qed
  qed (simp add: wizard_loop.simps)
qed

text \<open>
  C16. Every tick of a wizard that only asks, summarises and commits returns, whatever it is routed to and wherever it was asked to
  go back; it leaves no input behind that was not there before.
\<close>

theorem interactive_wizard_returns:
  assumes "honest_commits env" "\<forall>w \<in> set (spine c). plain_kind w"
  shows "\<exists>res j z'. wizard_tick env \<lparr>wd_config = c, wd_index = i\<rparr> z = Some (res, \<lparr>wd_config = c, wd_index = j\<rparr>, z')
    \<and> pending (wz_state z') \<subseteq> pending (wz_state z)"
proof (cases "truthy (st_get COMPLETED_KEY VNone (wz_state z))")
  case False
  let ?z = "z\<lparr>wz_state := merge_state (wz_state z)\<rparr>"
  have m: "pending (wz_state ?z) = pending (wz_state z)" by (rule steady_pending, rule near_steady) (simp add: near_def touch_intros)
  obtain x z1 where b: "apply_backtrack env c ?z = (x, z1)" by fastforce
  then have one: "pending (wz_state z1) = pending (wz_state z)"
    using confined_steady [OF confined_backtrack, of ?z env c] m by (simp add: steady_pending)
  have "\<exists>y. sequence_impl env c i ?z = Some y \<and> pending (wz_state (snd (snd y))) \<subseteq> pending (wz_state z)"
  proof (cases x)
    case (Inr t)
    show ?thesis
    proof (cases t)
      case None
      then show ?thesis using b Inr loop_returns [OF assms, of i z1] one by (auto simp: sequence_impl_def)
    next
      case (Some j)
      obtain x2 z2 where n: "notify_backtrack env c j (st_get CURRENT_STEP VNone (wz_state ?z)) z1 = (x2, z2)" by fastforce
      then have "pending (wz_state z2) = pending (wz_state z)"
        using confined_steady [OF confined_notify] one by (metis snd_conv steady_pending)
      then show ?thesis using b Inr Some n loop_returns [OF assms, of j z2] by (cases x2) (auto simp: sequence_impl_def)
    qed
  qed (use b one in \<open>simp add: sequence_impl_def\<close>)
  then obtain r j z3 where s: "sequence_tick env c i ?z = Some (r, j, z3)" and sub: "pending (wz_state z3) \<subseteq> pending (wz_state z)"
    by (auto simp: sequence_tick_def)
  have "pending (wz_state (snd (finish_wizard env c z3))) \<subseteq> pending (wz_state z3)"
  proof -
    have "\<not> is_input CURRENT_STEP" "\<not> is_input ACTIVE_PROMPT" by (auto simp: is_input_def wizard_key_defs wizard_key_def)
    then have "steady z3 (snd (finish_wizard env c z3))" unfolding finish_wizard_def Let_def
      using confined_steady [OF confined_emit] input_names(4) set_steady
      by (auto simp del: wz_all.simps wz_do_bind intro!: bind_steady all_steady)
    then show ?thesis by (simp add: steady_pending)
  qed
  then show ?thesis using s sub False
    by (cases r) (auto simp: wizard_tick_def guard_impl_def split: pattern_status.split prod.split)
qed (simp add: wizard_tick_def guard_impl_def)

lemma interactive_wizard_returns_witness:
  "\<exists>res j z'. wizard_tick demo_env \<lparr>wd_config = demo_config, wd_index = 0\<rparr> (snd demo_start) = Some (res, \<lparr>wd_config = demo_config, wd_index = j\<rparr>, z')
    \<and> pending (wz_state z') \<subseteq> pending (wz_state (snd demo_start))"
proof -
  have plain: "\<forall>w \<in> set (spine demo_config). plain_kind w"
    by (simp add: plain_kind_def OTHER_KINDS_def name_ok_def demo_config_def tree_steps_def has_slug_def plain_step_def)
  have "honest_commits demo_env" by (simp add: honest_commits_def demo_env_def)
  from interactive_wizard_returns [OF this plain] show ?thesis .
qed

subsection \<open>Going back\<close>

text \<open>
  C15. A request to go back is refused without any change of the state, or the next run of the sequence starts at the named step,
  which is no protected one, with the answers kept, the position recorded and neither the old prompt nor the request left.
\<close>

theorem backtrack_follows_the_request:
  "case request_backtrack env c slug z of
     (Inl x, z1) \<Rightarrow> wz_state z1 = wz_state z
   | (Inr _, z1) \<Rightarrow> \<exists>i z2. index_of c slug = Inr i \<and> \<not> is_protected (spine c ! i) \<and> apply_backtrack env c z1 = (Inr (Some i), z2)
       \<and> sequence_impl env c j z1 = (case notify_backtrack env c i (st_get CURRENT_STEP VNone (wz_state z)) z2 of
            (Inl x, z3) \<Rightarrow> Some (Inl x, i, z3) | (Inr _, z3) \<Rightarrow> wizard_loop env c i z3)
       \<and> st_get CURRENT_STEP VNone (wz_state z2) = VStr slug \<and> st_get STEP_INDEX VNone (wz_state z2) = VInt (int i)
       \<and> get_answers (wz_state z2) = get_answers (wz_state z) \<and> \<not> st_has ACTIVE_PROMPT (wz_state z2) \<and> \<not> st_has BACKTRACK_TO (wz_state z2)"
proof (cases "can_backtrack_to c slug")
  case False
  then show ?thesis by (auto simp: request_backtrack_def wz_bind_def wz_emit_def raw_emit_def split: prod.split sum.split)
next
  case can: True
  then have allow: "wc_back c" and free: "slug \<notin> set (protected_slugs c)" by (auto simp: can_backtrack_to_def)
  show ?thesis
  proof (cases "index_of c slug")
    case (Inl x)
    then show ?thesis using can allow by (simp add: request_backtrack_def)
  next
    case (Inr i)
    note at = index_of_found [OF Inr]
    let ?p = "[(''from_step'', st_get CURRENT_STEP VNone (wz_state z)), (''to_slug'', VStr slug)]"
    obtain res z1 where e: "wz_emit env ''wizard.backtrack.requested'' ?p z = (res, z1)" by fastforce
    then have same: "wz_state z1 = wz_state z" by (auto simp: wz_emit_def raw_emit_def split: prod.splits)
    show ?thesis
    proof (cases res)
      case (Inl x)
      then show ?thesis using can allow \<open>index_of c slug = Inr i\<close> e same by (simp add: request_backtrack_def wz_bind_def)
    next
      case fin: (Inr u)
      let ?z1 = "z1\<lparr>wz_state := st_set BACKTRACK_TO (VStr slug) (wz_state z1)\<rparr>"
      let ?z2 = "reset_for_backtrack env c i (?z1\<lparr>wz_state := st_delete BACKTRACK_TO (wz_state ?z1)\<rparr>)"
      have req: "request_backtrack env c slug z = (Inr (), ?z1)"
        using can allow Inr e fin by (simp add: request_backtrack_def wz_bind_def wz_do_def)
      have target: "st_get BACKTRACK_TO VNone (wz_state ?z1) = VStr slug" by (simp add: st_get_def get_default_def)
      have app: "apply_backtrack env c ?z1 = (Inr (Some i), ?z2)"
        using can allow Inr target by (simp add: apply_backtrack_def resolve_backtrack_def)
      have keys: "CURRENT_STEP \<noteq> STEP_INDEX" "CURRENT_STEP \<noteq> ACTIVE_PROMPT" "CURRENT_STEP \<noteq> BACKTRACK_TO" "STEP_INDEX \<noteq> ACTIVE_PROMPT" "STEP_INDEX \<noteq> BACKTRACK_TO"
          "ANSWERS \<noteq> STEP_INDEX" "ANSWERS \<noteq> CURRENT_STEP" "ANSWERS \<noteq> ACTIVE_PROMPT" "ANSWERS \<noteq> BACKTRACK_TO" "BACKTRACK_TO \<noteq> ACTIVE_PROMPT"
        by (simp_all add: wizard_key_defs wizard_key_def)
      have "st_get CURRENT_STEP VNone (wz_state ?z2) = VStr slug" "st_get STEP_INDEX VNone (wz_state ?z2) = VInt (int i)"
          "get_answers (wz_state ?z2) = get_answers (wz_state z)" "\<not> st_has ACTIVE_PROMPT (wz_state ?z2)" "\<not> st_has BACKTRACK_TO (wz_state ?z2)"
        using at keys keys [symmetric] same
        by (auto simp: reset_for_backtrack_def move_to_def st_get_def get_default_def st_has_def dict_has_def get_answers_def)
      moreover have "\<not> is_protected (spine c ! i)" using protected_spine [of i c] at free by auto
      moreover have "st_get CURRENT_STEP VNone (wz_state ?z1) = st_get CURRENT_STEP VNone (wz_state z)"
        using keys same by (simp add: st_get_def get_default_def)
      ultimately show ?thesis using req app Inr by (simp add: sequence_impl_def split: prod.split sum.split)
    qed
  qed
qed

subsection \<open>The undo of a failed commit\<close>

text \<open>A resource call of a step: the reference, the action, the provider, the id, the step and the metadata.\<close>

type_synonym tracked_call = "string \<times> string \<times> string option \<times> string option \<times> string option \<times> pydict"

definition track_all :: "(pyval \<Rightarrow> string) \<Rightarrow> tracked_call list \<Rightarrow> pyval list" where
  "track_all r calls = foldl (\<lambda>acc (ref, act, provider, rid, slug, md). track_invocation r ref act provider rid slug md acc) [] calls"

definition undo_name :: "(pyval \<Rightarrow> string) \<Rightarrow> tracked_call \<Rightarrow> string list" where
  "undo_name r call = (case call of (ref, act, provider, rid, slug, md) \<Rightarrow>
     if is_mutating (Some act) then (case undo_key r (Some ref) md of Some (ch # cs) \<Rightarrow> [ch # cs] | _ \<Rightarrow> []) else [])"

lemma undo_name_proper: "list_all (\<lambda>k. k \<noteq> []) (undo_name r call)"
proof -
  obtain ref act provider rid slug md where call: "call = (ref, act, provider, rid, slug, md)" by (cases call)
  show ?thesis
  proof (cases "undo_key r (Some ref) md")
    case (Some k)
    then show ?thesis by (cases k) (simp_all add: undo_name_def call)
  qed (simp add: undo_name_def call)
qed

text \<open>Each name once, where it comes first.\<close>

fun firsts :: "string list \<Rightarrow> string list \<Rightarrow> string list" where
  "firsts seen [] = []"
| "firsts seen (k # ks) = (if k \<in> set seen then firsts seen ks else k # firsts (k # seen) ks)"

lemma firsts_set: "set (firsts seen ks) = set ks - set seen"
  by (induction seen ks rule: firsts.induct) auto

definition undo_entry :: "pyval \<Rightarrow> string \<Rightarrow> bool" where
  "undo_entry v k = (k \<noteq> [] \<and> (\<exists>d. v = VDict d \<and> py_get d ''compensation_key'' = VStr k))"

lemma track_entry: "\<exists>vs. track_invocation r ref act provider rid slug md acc = acc @ vs
    \<and> list_all2 undo_entry vs (undo_name r (ref, act, provider, rid, slug, md))"
  by (auto simp: track_invocation_def undo_name_def undo_entry_def get_default_def split: option.split list.split)

lemma track_all_entries: "list_all2 undo_entry (track_all r calls) (concat (map (undo_name r) calls))"
proof (induction calls rule: rev_induct)
  case (snoc call calls)
  obtain ref act provider rid slug md where call: "call = (ref, act, provider, rid, slug, md)" by (cases call)
  obtain vs where "track_all r (calls @ [call]) = track_all r calls @ vs" "list_all2 undo_entry vs (undo_name r call)"
    using track_entry [of r ref act provider rid slug md "track_all r calls"] by (auto simp: track_all_def call)
  then show ?case using snoc by (simp add: list_all2_appendI)
qed (simp add: track_all_def)

lemma invocation_refs_entries: "list_all2 undo_entry vs ks \<Longrightarrow> invocation_refs r seen vs = Inr (firsts seen ks)"
proof (induction vs ks arbitrary: seen rule: list_all2_induct)
  case (Cons v vs k ks)
  then obtain d where "v = VDict d" "py_get d ''compensation_key'' = VStr k" "k \<noteq> []" by (auto simp: undo_entry_def)
  then show ?case using Cons.IH by (simp add: py_or_def)
qed simp

lemma emit_effect: "\<exists>res w. we_emit env t (dict_setdefault ''wizard'' (VStr (we_name env)) p) (wz_world z) = (res, w) \<and> wz_emit env t p z
    = (res, z\<lparr>wz_world := w, wz_log := wz_log z @ [(t, dict_setdefault ''wizard'' (VStr (we_name env)) p)]\<rparr>)"
  by (simp add: wz_emit_def raw_emit_def split: prod.split)

definition event_of :: "string \<Rightarrow> pydict \<Rightarrow> string \<Rightarrow> int \<Rightarrow> event" where
  "event_of t p i now = \<lparr>ev_type = t, ev_payload = p, ev_timestamp = now, ev_id = i, ev_context = None\<rparr>"

text \<open>
  C17. A commit has failed, and the state holds the resource calls as the steps have tracked them. The wizard is not
  committed and emits one event; it fails, or raises what that emission raised. Handling an event with that payload,
  for every bus, registry and handlers: when the handling returns it has accounted for the commit hook and for every
  call that was tracked as changing something, each once and in the order of the first call, whatever the undo
  handlers do; when it raises, the bus has raised, and the undos told so far are the first of these.
\<close>

theorem failed_commit_undoes_each_call_once:
  assumes "commit_failed env hook c z = (res, z')" and "tracked_calls (wz_state z) = track_all (we_repr env) calls" and "hook \<noteq> []"
    and "undos = hook # firsts [] (concat (map (undo_name (we_repr env)) calls))"
  shows "\<exists>p. wz_log z' = wz_log z @ [(COMMIT_FAILED, p)] \<and> \<not> is_committed (wz_state z')
    \<and> (case res of Inr st \<Rightarrow> st = FAILURE | Inl x \<Rightarrow> we_emit env COMMIT_FAILED p (wz_world z) = (Inl x, wz_world z'))
    \<and> (case comp_handle (we_repr env) bus g (event_of COMMIT_FAILED p i now) (w, []) of
         (Inr rs, w', evs) \<Rightarrow> map outcome_key (outcomes evs) = map VStr undos
       | (Inl x, w', evs) \<Rightarrow> broken bus x evs w' \<and> (\<exists>n. map outcome_key (outcomes evs) = map VStr (take n undos)))"
proof -
  let ?r = "we_repr env" let ?ks = "firsts [] (concat (map (undo_name ?r) calls))" let ?calls = "track_all ?r calls"
  let ?z = "z\<lparr>wz_state := st_delete COMMITTED (st_set COMMIT_ERROR (opt_str_val (cm_error c)) (wz_state z))\<rparr>"
  let ?p = "[(''hook'', VStr hook), (''error'', opt_str_val (cm_error c)), (''resource_refs'', VList (map VStr ?ks)), (''resource_invocations'', VList ?calls)]"
  let ?q = "dict_setdefault ''wizard'' (VStr (we_name env)) ?p"
  have "RESOURCE_INVOCATIONS \<noteq> COMMITTED" "RESOURCE_INVOCATIONS \<noteq> COMMIT_ERROR"
    unfolding RESOURCE_INVOCATIONS_def COMMITTED_def COMMIT_ERROR_def wizard_key_def by simp_all
  then have tracked: "tracked_calls (wz_state ?z) = ?calls" using assms(2) by (simp add: tracked_calls_def st_get_def get_default_def)
  have refs: "undo_refs ?r ?calls = Inr ?ks"
    unfolding undo_refs_def by (rule invocation_refs_entries) (rule track_all_entries)
  obtain er w1 where e: "we_emit env COMMIT_FAILED ?q (wz_world z) = (er, w1)"
      "wz_emit env COMMIT_FAILED ?p ?z = (er, ?z\<lparr>wz_world := w1, wz_log := wz_log ?z @ [(COMMIT_FAILED, ?q)]\<rparr>)"
    using emit_effect [of env COMMIT_FAILED ?p ?z] by auto
  let ?z' = "?z\<lparr>wz_world := w1, wz_log := wz_log ?z @ [(COMMIT_FAILED, ?q)]\<rparr>"
  have "(res, z') = (attempt er (\<lambda>_. Inr FAILURE), ?z')"
    unfolding assms(1) [symmetric] using tracked refs e(2) by (cases er) (simp_all add: commit_failed_def wz_bind_def wz_do_def attempt_def)
  then have z': "z' = ?z'" and res: "case res of Inr st \<Rightarrow> st = FAILURE | Inl x \<Rightarrow> we_emit env COMMIT_FAILED ?q (wz_world z) = (Inl x, wz_world z')"
    using e(1) by (cases er; simp add: attempt_def)+
  have ks: "[] \<notin> set ?ks" using undo_name_proper by (force simp: firsts_set list_all_iff)
  let ?ev = "event_of COMMIT_FAILED ?q i now" let ?ctx = "comp_context_of ?r ?ev"
  have ty: "ev_type ?ev = COMMIT_FAILED" by (simp add: event_of_def)
  have payload: "enriched_payload ?ev = ?q" by (simp add: enriched_payload_def event_of_def)
  have "filter truthy (map VStr ?ks) = map VStr ?ks" using ks by (auto simp: filter_id_conv)
  then have rr: "resource_refs ?r ?q = Inr ?ks"
    by (simp add: resource_refs_def dict_setdefault_def get_default_def dict_has_def comp_def)
  have hk: "hook_keys ?ctx = [hook]" using assms(3)
    by (cases hook) (simp_all add: hook_keys_def comp_context_of_def Let_def enriched_payload_def event_of_def text_if_set_def dict_setdefault_def get_default_def dict_has_def)
  obtain hr hw evs where h: "comp_handle ?r bus g ?ev (w, []) = (hr, hw, evs)" by (metis surj_pair)
  have "case hr of Inr rs \<Rightarrow> map outcome_key (outcomes evs) = map VStr undos
     | Inl x \<Rightarrow> broken bus x evs hw \<and> (\<exists>n. map outcome_key (outcomes evs) = map VStr (take n undos))"
    using handling_accounts [OF h ty] rr hk assms(4) by (simp add: payload accounts_def told_keys_def split: sum.splits)
  then have handled: "case comp_handle ?r bus g ?ev (w, []) of (Inr rs, w', evs) \<Rightarrow> map outcome_key (outcomes evs) = map VStr undos
     | (Inl x, w', evs) \<Rightarrow> broken bus x evs w' \<and> (\<exists>n. map outcome_key (outcomes evs) = map VStr (take n undos))"
    unfolding h by (simp split: sum.splits)
  have "\<not> is_committed (wz_state z')" unfolding z' by (simp add: is_committed_def st_get_def get_default_def)
  then show ?thesis using z' res handled by (intro exI [of _ ?q]) simp
qed

text \<open>The tracked calls stay: the next failed commit asks for the same undos again.\<close>

lemma undo_is_asked_again: "tracked_calls (wz_state (snd (commit_failed env hook c z))) = tracked_calls (wz_state z)"
proof -
  have "RESOURCE_INVOCATIONS \<noteq> COMMITTED" "RESOURCE_INVOCATIONS \<noteq> COMMIT_ERROR"
    unfolding RESOURCE_INVOCATIONS_def COMMITTED_def COMMIT_ERROR_def wizard_key_def by simp_all
  then have same: "tracked_calls (st_delete COMMITTED (st_set COMMIT_ERROR v s)) = tracked_calls s" for v s
    by (simp add: tracked_calls_def st_get_def get_default_def)
  let ?z = "z\<lparr>wz_state := st_delete COMMITTED (st_set COMMIT_ERROR (opt_str_val (cm_error c)) (wz_state z))\<rparr>"
  let ?calls = "tracked_calls (wz_state z)"
  show ?thesis
  proof (cases "undo_refs (we_repr env) ?calls")
    case (Inl x)
    then show ?thesis using same by (simp add: commit_failed_def wz_bind_def wz_do_def)
  next
    case (Inr refs)
    let ?p = "[(''hook'', VStr hook), (''error'', opt_str_val (cm_error c)), (''resource_refs'', VList (map VStr refs)), (''resource_invocations'', VList ?calls)]"
    obtain res w where "wz_emit env COMMIT_FAILED ?p ?z = (res, ?z\<lparr>wz_world := w, wz_log := wz_log ?z @ [(COMMIT_FAILED, dict_setdefault ''wizard'' (VStr (we_name env)) ?p)]\<rparr>)"
      using emit_effect [of env COMMIT_FAILED ?p ?z] by auto
    then show ?thesis using same Inr by (cases res) (simp_all add: commit_failed_def wz_bind_def wz_do_def)
  qed
qed

text \<open>Two writes under one key and a read: the hook and one undo.\<close>

definition demo_calls :: "tracked_call list" where
  "demo_calls = [(''crm'', ''create'', None, None, Some ''name'', []), (''mail'', ''fetch'', None, None, None, []),
     (''crm_v2'', ''update'', None, None, None, [(''compensation_key'', VStr ''crm'')])]"

lemma failed_commit_undoes_each_call_once_witness:
  "\<exists>p z' rs w' evs. commit_failed demo_env ''save'' (commit_failure ''down'') ((snd demo_start)
       \<lparr>wz_state := st_set RESOURCE_INVOCATIONS (VList (track_all (\<lambda>_. []) demo_calls)) (new_dict_state [] None)\<rparr>) = (Inr FAILURE, z')
    \<and> \<not> is_committed (wz_state z')
    \<and> comp_handle (\<lambda>_. []) (demo_bus True) demo_comp (event_of COMMIT_FAILED p ''e'' 0) (0, []) = (Inr rs, w', evs)
    \<and> map outcome_key (outcomes evs) = [VStr ''save'', VStr ''crm'']"
proof -
  let ?s = "st_set RESOURCE_INVOCATIONS (VList (track_all (\<lambda>_. []) demo_calls)) (new_dict_state [] None)"
  let ?z = "(snd demo_start)\<lparr>wz_state := ?s\<rparr>"
  have r: "we_repr demo_env = (\<lambda>_. [])" by (simp add: demo_env_def plain_input_def)
  have two: "tracked_calls (wz_state ?z) = track_all (we_repr demo_env) demo_calls"
    by (simp add: r tracked_calls_def st_get_def get_default_def)
  have undos: "[''save'', ''crm''] = ''save'' # firsts [] (concat (map (undo_name (we_repr demo_env)) demo_calls))" unfolding r by code_simp
  have hook: "''save'' \<noteq> []" by simp
  obtain res z' where one: "commit_failed demo_env ''save'' (commit_failure ''down'') ?z = (res, z')" by fastforce
  have calm: "\<not> isl (fst (we_emit demo_env t p w))" for t p w by (simp add: demo_env_def)
  have never: "\<not> broken (demo_bus True) x evs w" for x evs and w :: nat by (simp add: broken_def demo_bus_def)
  from failed_commit_undoes_each_call_once [OF one two hook undos, of "demo_bus True" demo_comp "''e''" 0 0, unfolded r]
  obtain p where p: "\<not> is_committed (wz_state z')"
      "case res of Inr st \<Rightarrow> st = FAILURE | Inl x \<Rightarrow> we_emit demo_env COMMIT_FAILED p (wz_world ?z) = (Inl x, wz_world z')"
      "case comp_handle (\<lambda>_. []) (demo_bus True) demo_comp (event_of COMMIT_FAILED p ''e'' 0) (0, []) of
         (Inr rs, w', evs) \<Rightarrow> map outcome_key (outcomes evs) = map VStr [''save'', ''crm'']
       | (Inl x, w', evs) \<Rightarrow> broken (demo_bus True) x evs w' \<and> (\<exists>n. map outcome_key (outcomes evs) = map VStr (take n [''save'', ''crm'']))"
    by (elim exE conjE)
  have "res = Inr FAILURE"
  proof (cases res)
    case (Inl x)
    then show ?thesis using p(2) calm [of COMMIT_FAILED p "wz_world ?z"] by simp
  qed (use p(2) in simp)
  moreover obtain h w' evs where h: "comp_handle (\<lambda>_. []) (demo_bus True) demo_comp (event_of COMMIT_FAILED p ''e'' 0) (0, []) = (h, w', evs)" by (metis surj_pair)
  moreover obtain rs where "h = Inr rs" "map outcome_key (outcomes evs) = map VStr [''save'', ''crm'']"
    using p(3) never unfolding h by (cases h) simp_all
  ultimately show ?thesis using one p(1) by (intro exI [of _ p] exI [of _ z'] exI [of _ rs] exI [of _ w'] exI [of _ evs]) simp
qed

end
