(* ===== verification/Spec2Isabelle.thy ===== *)
theory Spec2Isabelle
  imports Storage WorkPlaneProps Registry Events ContextEngine Structure TreeProps TreeLimits TreeEngine RuntimeProps QueuedProps WorkloadTrips WorkloadDemo WaitPlaneProps SessionProps TransformTypes TransformCounts ResourceProps LeafProps DagProps OutboxProps JournalProps CompensationProps WizardReturns
begin

text \<open>
  Verification of the core of palmengine: the engines under \<open>src/src/palm/core\<close>, the services under
  \<open>src/src/palm/common\<close> and the planes under \<open>src/src/palm/system\<close> that carry its logic, and the wizard
  and DAG patterns under \<open>src/src/plugins/patterns\<close>.

  \<^bold>\<open>The program.\<close> Work arrives as jobs of the orchestration engine. A scheduler drives a job by ticking
  its pattern, a behavior tree (or a wizard or DAG, which are such trees), until it succeeds, fails or
  waits. The leaves of a tree call the resource, transform and workload engines. Around the jobs,
  planes keep durable intents to start flows (work), wake jobs that wait for something (wait), and say
  which session owns which instance (session). Events go through one bus with interceptors; an outbox
  and a journal make them durable, and compensation undoes what a failed commit leaves behind. The
  structure engine decides whether business may run at all.

  \<^bold>\<open>How code becomes definitions.\<close> A class with state is a record and a method a function from the
  state, and to it; a method that can raise answers \<open>Inl\<close> an exception of \<open>Errors\<close> (its class, with
  the hierarchy, and its message) or \<open>Inr\<close> its result, with the state at the time of the exception.
  Dynamic values are the datatype \<open>pyval\<close> (None, bools, unbounded integers, rationals for floats, texts,
  lists, dictionaries as association lists in insertion order, objects by identity); nan and the
  infinities are not among them. Shared mutable objects (jobs, patterns, states, backends) live in
  heaps. Collaborators that the source only receives (providers, runtimes, handlers, publishers,
  clocks, the texts of values, regular expressions, JSON) are arguments acting on a world of their
  own, so a theorem holds for each of them; what it needs of one is a named hypothesis. Definitions are executable.

  \<^bold>\<open>Theories\<close>, after the components in \<open>PROJECT.json\<close>.

  Foundations. \<open>Prelude\<close>: results, dictionaries and the lemmas on them. \<open>Errors\<close>: exception classes
  (\<open>exceptions.py\<close>). \<open>PyValue\<close>, \<open>PyConvert\<close>: values, truth, equality, \<open>int\<close>, \<open>float\<close>, texts, clocks. \<open>Registry\<close>
  (\<open>core/registry.py\<close>): over the locale \<open>name_table\<close>.

  Jobs. \<open>Job\<close>, \<open>Orchestration\<close>, \<open>EngineSafety\<close> (\<open>core/orchestration\<close>): the status machine, submission,
  claims, drives, hooks; the locales \<open>calm_hooks\<close>, \<open>calm_callbacks\<close> and \<open>calm_mode\<close> say what a hook, a
  callback and a scheduler may do so that the invariant of the engine survives. \<open>Runtime\<close>,
  \<open>RuntimeProps\<close>: the inline scheduler, the runner and the authorization hook interpret them; the
  outcome of a drive. \<open>Queued\<close>, \<open>QueuedProps\<close> (\<open>system/runtime/schedulers/queued.py\<close>): a drive in its
  steps, workers and callers as a step relation, exclusion in the locale \<open>pool\<close>, the refinement of the
  steps to the drive in one go, lost resumptions and the shutdown that times out.

  Trees. \<open>BehaviorTree\<close> (\<open>core/behavior_tree\<close>): nodes with their cursors, one \<open>tick\<close> for all; \<open>TreeLaws\<close>
  and \<open>TreeProps\<close>: shape, cursors and termination through the locales \<open>child_tick\<close>, \<open>child_total\<close> and
  \<open>child_ext\<close>, stated for the tick of a child and interpreted by induction on the fuel; \<open>TreeLimits\<close>,
  \<open>TreeEngine\<close>: repeats, retries, ticking until the end. \<open>Leaves\<close>, \<open>LeafProps\<close>: the leaves that call
  engines; the locale \<open>quiet_rules\<close>.

  State. \<open>Scope\<close>, \<open>Schema\<close>, \<open>StateSurface\<close>, \<open>ContextEngine\<close> (\<open>core/context\<close>): nested scopes (the locale
  \<open>scoped_cells\<close>), schema validation against a declarative reading of the document, frames. \<open>Storage\<close>
  (\<open>core/storage\<close>, the memory and tiered drivers): the locale \<open>storage_backend\<close> is the contract, both
  drivers interpret it. \<open>Structure\<close> (\<open>core/structure\<close>): phases, observations, admission.

  Engines. \<open>Events\<close> (\<open>core/event\<close>): the bus. \<open>Workload*\<close> (\<open>core/workload\<close>): records and their
  dictionary form, the engine over arbitrary runtimes, safety of the status table. \<open>Transform*\<close>
  (\<open>core/transform\<close>, \<open>common/transforms\<close>): chains and the rules on structured data. \<open>Resource*\<close>
  (\<open>core/resource\<close>): binding, caches, invocation and its events.

  Planes. \<open>WorkStore\<close>, \<open>WorkQueue\<close>, \<open>WorkQueueProps\<close> (\<open>core/work\<close>, \<open>planes/work/store.py\<close>): the intent
  store over its keys, its abstract queue, and the refinement; \<open>Triggers\<close>, \<open>WorkPlane\<close>,
  \<open>WorkPlaneProps\<close>: triggers, schedules, ticks over a start that may come back into the plane.
  \<open>Waits\<close>, \<open>WaitPlane\<close>, \<open>WaitPlaneProps\<close> (\<open>core/wait\<close>, \<open>planes/wait\<close>): interests as an ordered
  dictionary, matching, serving and failing the owners of a signal. \<open>Sessions\<close>, \<open>SessionPlane\<close>,
  \<open>SessionRep\<close>, \<open>SessionProps\<close> (\<open>planes/session\<close>): sessions and who owns an instance.

  Durable events. \<open>Journal\<close>, \<open>Outbox\<close> and their \<open>Props\<close> (\<open>common/events\<close>): an append-only log with
  consumers, batches with retries. \<open>Compensation\<close>, \<open>CompensationProps\<close> (\<open>common/compensation\<close>).

  Patterns. \<open>DagConfig\<close>, \<open>DagSort\<close>, \<open>RunPython\<close>, \<open>Dag\<close>, \<open>DagProps\<close> (\<open>plugins/patterns/dag\<close>): configuration,
  topological sort, ticks. \<open>WizardConfig\<close>, \<open>WizardInput\<close>, \<open>WizardState\<close>, \<open>Wizard\<close> (\<open>plugins/patterns/wizard\<close>):
  steps, input, prompts, phases, the sequence with backtracks, the completion guard; \<open>WizardInputProps\<close>,
  \<open>WizardFrame\<close>, \<open>WizardProps\<close>, \<open>WizardReturns\<close>: accepted input, what a phase may touch, what a completed
  wizard has done, termination and the undo of a failed commit.

  \<^bold>\<open>What the lemmas show.\<close> Invariants over every sequence of operations (the engine, the pool, workloads,
  sessions, structure); refinement to an abstract state (the work store to a queue, the journal to a log,
  waits to an ordered dictionary, scopes to cells, the tiered to the memory backend, the cache to a
  history); exact outcomes of single operations on all branches, errors included (drives, publishing,
  ticks of the work plane, outbox batches, invocations, failed commits); termination; and, as theorems
  on concrete inputs, the defects listed under findings.

  \<^bold>\<open>Fuel and bounds.\<close> A tree is ticked with fuel; \<open>need\<close> computes how much is enough for a tree without
  unbounded repeats, where the result is proved to be there and to be the same for all larger fuel.
  The runner has the budget of the source (10000 ticks unless one is given). The loops of recovery,
  DAGs, workload leaves and wizards are partial functions into option, None standing for a loop that
  does not end, and are proved to return under the conditions their theorems name.

  \<^bold>\<open>Not modelled.\<close> Bundles, drivers other than the two backends, servers and their protocols (I/O); read
  models and operator views; the wiring of a host; the phases of a wizard for collections, branches,
  resources, transforms and workloads (arguments of the wizard); the transform rules on texts, dates
  and file formats; awaiting coroutines in real time. Threads are modelled where the code shares
  state between them: the workers of the queued scheduler, and races shown on split operations
  (tiered reads, journal appends, attaching). Elsewhere operations are atomic.
\<close>

end
